(* ===== verification/Phi_Prelude.thy ===== *)
theory Phi_Prelude
  imports Main "HOL-Library.Char_ord" "HOL-Library.List_Lexorder" "HOL-Library.Code_Target_Nat"
begin

text \<open>
  Shared vocabulary of the development: exceptions as values, the result type and its
  combinators, and the operations of Python's built-in strings, sequences and sets that
  the PhiOS contract modules use.

  A Python string is a HOL \<open>string\<close> whose characters are the code points U+0000 to U+00FF;
  \<open>len\<close>, slicing and comparison therefore count code points, as Python does.  A Python
  \<open>tuple\<close> or \<open>list\<close> is a HOL list.
\<close>

named_theorems result_simps \<open>evaluation of results: bind, checks and mapped parsers\<close>
named_theorems py_simps \<open>facts about the modelled Python built-ins\<close>

section \<open>Exceptions as values\<close>

datatype exn_class =
    ActionLeaseContractError
  | AuthorityEpochContractError
  | AuthorityProjectionError
  | EffectBoundaryContractError
  | EffectIntentContractError
  | EnforcementProfileContractError
  | EvidenceRefContractError
  | ExecutionReconciliationContractError
  | RealityReconciliationContractError
  | LeasedExecutionHandoffError
  | ExecutionHandoffContractError
  | ActionBindingContractError
  | PlanAdoptionContractError
  | MacroGraphContractError
  | MacroRunnerContractError
  | MacroRunJournalContractError
  | MacroRunCoordinatorContractError
  | MacroRunStartContractError
  | MacroSpineBridgeContractError
  | GovernedDoDispatcherContractError
  | StateIntegrityError
  | PyValueError
  | PyTypeError
  | PyKeyError
  | PyOverflowError
  | PyOSError
  | PyFileNotFoundError
  | PyRuntimeError
  | PyInterrupt

datatype exn = Exn (exn_class: exn_class) (exn_message: string)

type_synonym 'a result = "exn + 'a"

text \<open>
  \<open>isinstance(exc, ValueError)\<close>: every contract error of the repository derives from it.
  \<open>PyInterrupt\<close> stands for the exceptions outside \<open>Exception\<close> (\<open>KeyboardInterrupt\<close>,
  \<open>SystemExit\<close>).
\<close>

definition is_value_error :: "exn \<Rightarrow> bool" where
  "is_value_error e \<longleftrightarrow>
     exn_class e \<notin> {PyTypeError, PyKeyError, PyOverflowError, PyOSError, PyFileNotFoundError, PyRuntimeError, PyInterrupt}"

definition is_os_error :: "exn \<Rightarrow> bool" where
  "is_os_error e \<longleftrightarrow> exn_class e \<in> {PyOSError, PyFileNotFoundError}"

definition is_exception :: "exn \<Rightarrow> bool" where
  "is_exception e \<longleftrightarrow> exn_class e \<noteq> PyInterrupt"

text \<open>\<open>type(exc).__name__\<close>.\<close>

fun exn_name :: "exn_class \<Rightarrow> string" where
  "exn_name ActionLeaseContractError = ''ActionLeaseContractError''"
| "exn_name AuthorityEpochContractError = ''AuthorityEpochContractError''"
| "exn_name AuthorityProjectionError = ''AuthorityProjectionError''"
| "exn_name EffectBoundaryContractError = ''EffectBoundaryContractError''"
| "exn_name EffectIntentContractError = ''EffectIntentContractError''"
| "exn_name EnforcementProfileContractError = ''EnforcementProfileContractError''"
| "exn_name EvidenceRefContractError = ''EvidenceRefContractError''"
| "exn_name ExecutionReconciliationContractError = ''ExecutionReconciliationContractError''"
| "exn_name RealityReconciliationContractError = ''RealityReconciliationContractError''"
| "exn_name LeasedExecutionHandoffError = ''LeasedExecutionHandoffError''"
| "exn_name ExecutionHandoffContractError = ''ExecutionHandoffContractError''"
| "exn_name ActionBindingContractError = ''ActionBindingContractError''"
| "exn_name PlanAdoptionContractError = ''PlanAdoptionContractError''"
| "exn_name MacroGraphContractError = ''MacroGraphContractError''"
| "exn_name MacroRunnerContractError = ''MacroRunnerContractError''"
| "exn_name MacroRunJournalContractError = ''MacroRunJournalContractError''"
| "exn_name MacroRunCoordinatorContractError = ''MacroRunCoordinatorContractError''"
| "exn_name MacroRunStartContractError = ''MacroRunStartContractError''"
| "exn_name MacroSpineBridgeContractError = ''MacroSpineBridgeContractError''"
| "exn_name GovernedDoDispatcherContractError = ''GovernedDoDispatcherContractError''"
| "exn_name StateIntegrityError = ''StateIntegrityError''"
| "exn_name PyValueError = ''ValueError''"
| "exn_name PyTypeError = ''TypeError''"
| "exn_name PyKeyError = ''KeyError''"
| "exn_name PyOverflowError = ''OverflowError''"
| "exn_name PyOSError = ''OSError''"
| "exn_name PyFileNotFoundError = ''FileNotFoundError''"
| "exn_name PyRuntimeError = ''RuntimeError''"
| "exn_name PyInterrupt = ''KeyboardInterrupt''"

abbreviation Ok :: "'a \<Rightarrow> 'a result" where
  "Ok \<equiv> Inr"

abbreviation raise :: "exn_class \<Rightarrow> string \<Rightarrow> 'a result" where
  "raise c m \<equiv> Inl (Exn c m)"

fun rbind :: "'a result \<Rightarrow> ('a \<Rightarrow> 'b result) \<Rightarrow> 'b result" where
  "rbind (Inl e) f = Inl e"
| "rbind (Inr x) f = f x"

text \<open>\<open>except C as exc: raise D(str(exc))\<close> for one exception class \<open>C\<close>.\<close>

fun rewrap :: "exn_class \<Rightarrow> exn_class \<Rightarrow> 'a result \<Rightarrow> 'a result" where
  "rewrap c d (Inr x) = Inr x"
| "rewrap c d (Inl (Exn k m)) = (if k = c then Inl (Exn d m) else Inl (Exn k m))"

text \<open>\<open>if not b: raise c(m)\<close>.\<close>

definition ensure :: "bool \<Rightarrow> exn_class \<Rightarrow> string \<Rightarrow> unit result" where
  "ensure b c m = (if b then Ok () else raise c m)"

text \<open>A block of checks: the first failing one is the block's exception.\<close>

fun first_error :: "unit result list \<Rightarrow> unit result" where
  "first_error [] = Ok ()"
| "first_error (c # cs) = (case c of Inl e \<Rightarrow> Inl e | Inr _ \<Rightarrow> first_error cs)"

definition discard :: "'a result \<Rightarrow> unit result" where
  "discard r = rbind r (\<lambda>_. Ok ())"

text \<open>\<open>tuple(f(x) for x in xs)\<close> where \<open>f\<close> may raise.\<close>

fun rmap :: "('a \<Rightarrow> 'b result) \<Rightarrow> 'a list \<Rightarrow> 'b list result" where
  "rmap f [] = Ok []"
| "rmap f (x # xs) = rbind (f x) (\<lambda>y. rbind (rmap f xs) (\<lambda>ys. Ok (y # ys)))"

lemma rbind_Ok_iff [result_simps]: "rbind r f = Inr y \<longleftrightarrow> (\<exists>x. r = Inr x \<and> f x = Inr y)"
  by (cases r) auto

lemma rbind_Inl_iff: "rbind r f = Inl e \<longleftrightarrow> r = Inl e \<or> (\<exists>x. r = Inr x \<and> f x = Inl e)"
  by (cases r) auto

lemma ensure_Ok_iff [result_simps, simp]: "ensure b c m = Inr u \<longleftrightarrow> b"
  by (simp add: ensure_def)

lemma ensure_True [simp]: "ensure True c m = Inr ()"
  by (simp add: ensure_def)

lemma first_error_Ok_Cons [result_simps]:
  "first_error (c # cs) = Inr u \<longleftrightarrow> c = Inr () \<and> first_error cs = Inr ()"
  by (cases c) auto

lemma first_error_append:
  "first_error (cs @ ds) = rbind (first_error cs) (\<lambda>_. first_error ds)"
  by (induction cs) (auto split: sum.splits)

lemma first_error_Ok_iff: "first_error cs = Inr u \<longleftrightarrow> (\<forall>c \<in> set cs. c = Inr ())"
  by (induction cs) (auto split: sum.splits)

lemma first_error_map_ensure:
  "first_error (map (\<lambda>x. ensure (p x) c (m x)) xs) = Inr u \<longleftrightarrow> (\<forall>x \<in> set xs. p x)"
  by (auto simp: first_error_Ok_iff)

lemma discard_Ok_iff [result_simps]: "discard r = Inr u \<longleftrightarrow> (\<exists>x. r = Inr x)"
  by (cases r) (auto simp: discard_def)

declare first_error.simps(2) [simp del]

lemma rewrap_Ok_iff [result_simps]: "rewrap c d r = Inr x \<longleftrightarrow> r = Inr x"
  by (induction c d r rule: rewrap.induct) auto

lemma rmap_Ok_iff: "rmap f xs = Inr ys \<longleftrightarrow> list_all2 (\<lambda>x y. f x = Inr y) xs ys"
proof (induction xs arbitrary: ys)
  case Nil
  then show ?case by auto
next
  case (Cons x xs)
  then show ?case
    by (cases ys) (auto simp: rbind_Ok_iff)
qed

lemma rmap_Ok_map: "(\<And>x. x \<in> set xs \<Longrightarrow> f (g x) = Inr x) \<Longrightarrow> rmap f (map g xs) = Inr xs"
  by (induction xs) auto

lemma rmap_Ok_length: "rmap f xs = Inr ys \<Longrightarrow> length ys = length xs"
  by (simp add: rmap_Ok_iff list_all2_lengthD)

section \<open>Sorting and sets of strings\<close>

text \<open>
  \<open>tuple(sorted(set(xs)))\<close>.  Strings are ordered by code points (\<open>List_Lexorder\<close> over
  \<open>Char_ord\<close>), as Python orders them.
\<close>

definition sorted_set :: "'a::linorder list \<Rightarrow> 'a list" where
  "sorted_set xs = sort (remdups xs)"

lemma set_sorted_set [simp]: "set (sorted_set xs) = set xs"
  by (simp add: sorted_set_def)

lemma sorted_sorted_set [simp]: "sorted (sorted_set xs)"
  by (simp add: sorted_set_def)

lemma distinct_sorted_set [simp]: "distinct (sorted_set xs)"
  by (simp add: sorted_set_def)

lemma sorted_set_Nil_iff [simp]: "sorted_set xs = [] \<longleftrightarrow> xs = []"
  by (metis empty_set set_empty set_sorted_set)

lemma sorted_set_id_iff [py_simps]: "sorted_set xs = xs \<longleftrightarrow> sorted xs \<and> distinct xs"
  by (metis distinct_remdups_id distinct_sorted_set sorted_set_def sorted_sorted_set sort_key_id_if_sorted
      list.map_ident)

lemma sorted_set_idem [simp]: "sorted_set (sorted_set xs) = sorted_set xs"
  by (simp add: sorted_set_id_iff)

lemma sorted_set_cong: "set xs = set ys \<Longrightarrow> sorted_set xs = sorted_set ys"
  by (metis distinct_sorted_set set_sorted_set sorted_distinct_set_unique sorted_sorted_set)

lemma sorted_set_filter: "sorted_set (filter p xs) = filter p (sorted_set xs)"
proof (rule sorted_distinct_set_unique)
  show "sorted (filter p (sorted_set xs))"
    by (rule sorted_filter [of "\<lambda>x. x", simplified]) simp
qed simp_all

section \<open>Text predicates and \<open>str\<close> methods\<close>

definition is_control :: "char \<Rightarrow> bool" where
  "is_control c \<longleftrightarrow> of_char c < (32::nat)"

definition is_hex_lower :: "char \<Rightarrow> bool" where
  "is_hex_lower c \<longleftrightarrow> c \<in> set ''0123456789abcdef''"

text \<open>The regular expression \<open>^[0-9a-f]{64}$\<close> used with \<open>fullmatch\<close>.\<close>

definition is_sha256 :: "string \<Rightarrow> bool" where
  "is_sha256 s \<longleftrightarrow> length s = 64 \<and> list_all is_hex_lower s"

text \<open>The white space \<open>str.strip()\<close> removes, within U+0000 to U+00FF.\<close>

definition is_space :: "char \<Rightarrow> bool" where
  "is_space c \<longleftrightarrow> (let n = (of_char c :: nat) in
     (9 \<le> n \<and> n \<le> 13) \<or> (28 \<le> n \<and> n \<le> 32) \<or> n = 133 \<or> n = 160)"

definition strip :: "string \<Rightarrow> string" where
  "strip s = rev (dropWhile is_space (rev (dropWhile is_space s)))"

text \<open>\<open>str.lower()\<close> within U+0000 to U+00FF.\<close>

definition lower_char :: "char \<Rightarrow> char" where
  "lower_char c = (let n = (of_char c :: nat) in
     if (65 \<le> n \<and> n \<le> 90) \<or> (192 \<le> n \<and> n \<le> 222 \<and> n \<noteq> 215) then char_of (n + 32) else c)"

definition lower :: "string \<Rightarrow> string" where
  "lower s = map lower_char s"

lemma hex_lower_not_control: "is_hex_lower c \<Longrightarrow> \<not> is_control c"
  by (auto simp: is_hex_lower_def is_control_def)

lemma is_sha256_no_control: "is_sha256 s \<Longrightarrow> \<not> list_ex is_control s"
  by (auto simp: is_sha256_def list_ex_iff list_all_iff dest: hex_lower_not_control)

lemma is_sha256_not_Nil: "is_sha256 s \<Longrightarrow> s \<noteq> []"
  by (auto simp: is_sha256_def)

lemma hex_lower_not_space: "is_hex_lower c \<Longrightarrow> \<not> is_space c"
  by (auto simp: is_hex_lower_def is_space_def)

lemma hex_lower_lower_char: "is_hex_lower c \<Longrightarrow> lower_char c = c"
  by (auto simp: is_hex_lower_def lower_char_def)

lemma dropWhile_hd_False: "(s = [] \<or> \<not> p (hd s)) \<Longrightarrow> dropWhile p s = s"
  by (cases s) auto

lemma strip_id: "(\<forall>c \<in> set s. \<not> is_space c) \<Longrightarrow> strip s = s"
proof -
  assume a: "\<forall>c \<in> set s. \<not> is_space c"
  have "dropWhile is_space s = s" using a by (cases s) auto
  moreover have "dropWhile is_space (rev s) = rev s"
    using a by (metis dropWhile_eq_self_iff hd_in_set set_rev)
  ultimately show ?thesis by (simp only: strip_def rev_rev_ident)
qed

lemma strip_sha256: "is_sha256 s \<Longrightarrow> strip s = s"
  by (rule strip_id) (auto simp: is_sha256_def list_all_iff hex_lower_not_space)

lemma lower_sha256: "is_sha256 s \<Longrightarrow> lower s = s"
  by (auto simp: is_sha256_def list_all_iff lower_def hex_lower_lower_char intro: map_idI)

lemma strip_idem [simp]: "strip (strip s) = strip s"
proof -
  let ?u = "dropWhile is_space (rev (dropWhile is_space s))"
  have u: "?u = [] \<or> \<not> is_space (hd ?u)"
    using hd_dropWhile by blast
  have "strip s = [] \<or> \<not> is_space (hd (strip s))"
  proof (cases "strip s = []")
    case False
    let ?t = "dropWhile is_space s"
    from False have "?t \<noteq> []" unfolding strip_def by (metis dropWhile.simps(1) rev.simps(1))
    then have h: "\<not> is_space (hd ?t)" by (rule hd_dropWhile)
    obtain pre where pre: "rev ?t = pre @ ?u"
      by (metis takeWhile_dropWhile_id)
    from False have "?u \<noteq> []" by (simp add: strip_def)
    then have "hd (rev ?u) = hd ?t"
      using pre by (metis hd_append2 rev_append rev_is_Nil_conv rev_rev_ident)
    with h show ?thesis by (simp add: strip_def)
  qed simp
  then have "dropWhile is_space (strip s) = strip s" by (rule dropWhile_hd_False)
  moreover have "dropWhile is_space (rev (strip s)) = rev (strip s)"
    using u by (auto simp: strip_def intro: dropWhile_hd_False)
  ultimately show ?thesis by (simp add: strip_def)
qed

section \<open>Numerals\<close>

definition digit_char :: "nat \<Rightarrow> char" where
  "digit_char d = char_of (48 + d)"

definition hex_digit :: "nat \<Rightarrow> char" where
  "hex_digit d = (if d < 10 then char_of (48 + d) else char_of (87 + d))"

definition is_digit :: "char \<Rightarrow> bool" where
  "is_digit c \<longleftrightarrow> (48::nat) \<le> of_char c \<and> of_char c \<le> (57::nat)"

definition digit_val :: "char \<Rightarrow> nat" where
  "digit_val c = of_char c - 48"

fun show_nat :: "nat \<Rightarrow> string" where
  "show_nat n = (if n < 10 then [digit_char n] else show_nat (n div 10) @ [digit_char (n mod 10)])"

declare show_nat.simps [simp del]

definition show_int :: "int \<Rightarrow> string" where
  "show_int i = (if i < 0 then ''-'' @ show_nat (nat (- i)) else show_nat (nat i))"

text \<open>\<open>f"{n:0wd}"\<close> for \<open>n\<close> below \<open>10 ^ w\<close>: exactly \<open>w\<close> decimal digits.\<close>

fun fixed_digits :: "nat \<Rightarrow> nat \<Rightarrow> string" where
  "fixed_digits 0 n = []"
| "fixed_digits (Suc w) n = fixed_digits w (n div 10) @ [digit_char (n mod 10)]"

lemma of_digit_char [simp]: "d < 10 \<Longrightarrow> of_char (digit_char d) = 48 + d"
  by (simp add: digit_char_def of_char_of)

lemma is_digit_digit_char [simp]: "d < 10 \<Longrightarrow> is_digit (digit_char d)"
  by (simp add: is_digit_def)

lemma digit_val_digit_char [simp]: "d < 10 \<Longrightarrow> digit_val (digit_char d) = d"
  by (simp add: digit_val_def)

lemma length_fixed_digits [simp]: "length (fixed_digits w n) = w"
  by (induction w arbitrary: n) auto

lemma is_digit_fixed_digits: "c \<in> set (fixed_digits w n) \<Longrightarrow> is_digit c"
  by (induction w arbitrary: n) (auto simp: is_digit_digit_char)

lemma show_nat_not_Nil [simp]: "show_nat n \<noteq> []"
  by (subst show_nat.simps) auto

lemma is_digit_show_nat: "c \<in> set (show_nat n) \<Longrightarrow> is_digit c"
proof (induction n rule: show_nat.induct)
  case (1 n)
  then show ?case
    by (subst (asm) show_nat.simps) (auto simp: is_digit_digit_char split: if_splits)
qed

lemma digit_char_eq_iff: "d < 10 \<Longrightarrow> e < 10 \<Longrightarrow> digit_char d = digit_char e \<longleftrightarrow> d = e"
  by (metis digit_val_digit_char)

lemma show_nat_inj: "show_nat m = show_nat n \<Longrightarrow> m = n"
proof (induction m arbitrary: n rule: show_nat.induct)
  case (1 m)
  show ?case
  proof (cases "m < 10")
    case True
    then have "length (show_nat n) = 1"
      using "1.prems" by (metis length_Cons list.size(3) One_nat_def show_nat.simps)
    then have "n < 10"
      by (subst (asm) show_nat.simps) (auto split: if_splits)
    then show ?thesis
      using True "1.prems" by (subst (asm) (1 2) show_nat.simps) (auto simp: digit_char_eq_iff)
  next
    case False
    have "length (show_nat m) \<noteq> 1"
      using False by (subst show_nat.simps) auto
    then have n: "\<not> n < 10"
      using "1.prems" by (metis One_nat_def length_Cons list.size(3) show_nat.simps)
    have "show_nat (m div 10) = show_nat (n div 10)" "m mod 10 = n mod 10"
      using "1.prems" False n
      by (subst (asm) (1 2) show_nat.simps, auto simp: digit_char_eq_iff)+
    then have "m div 10 = n div 10" using "1.IH" False by blast
    with \<open>m mod 10 = n mod 10\<close> show ?thesis by (metis mult_div_mod_eq)
  qed
qed

end
