(* ===== verification/Py_Json.thy ===== *)
theory Py_Json
  imports Phi_Prelude "HOL-Library.Multiset"
begin

text \<open>
  JSON values and the one canonical encoding every PhiOS contract module uses:
  \<open>json.dumps(value, sort_keys=True, separators=(",", ":"), ensure_ascii=False,
  allow_nan=False)\<close>, followed by \<open>.encode("utf-8")\<close>.

  \<open>canon\<close> is what \<open>sort_keys\<close> does, \<open>emit\<close> prints a value in the order it has, and
  \<open>dumps\<close> composes the two.  The main results are that the printed text is uniquely
  readable (\<open>emit_unique\<close>), so that equal texts come from values with equal canonical
  forms, and that the text does not depend on the order of a dict's items
  (\<open>canon_JObj_eqI\<close>).  Floats are left out: no contract field carries one.
\<close>

datatype json =
    JNull
  | JBool bool
  | JInt int
  | JStr string
  | JList "json list"
  | JObj "(string \<times> json) list"

abbreviation jstrs :: "string list \<Rightarrow> json" where
  "jstrs xs \<equiv> JList (map JStr xs)"

abbreviation jopt :: "string option \<Rightarrow> json" where
  "jopt x \<equiv> (case x of None \<Rightarrow> JNull | Some s \<Rightarrow> JStr s)"

section \<open>Strings\<close>

definition escape_char :: "char \<Rightarrow> string" where
  "escape_char c =
     (if c = CHR 0x22 then [CHR 0x5C, CHR 0x22]
      else if c = CHR 0x5C then [CHR 0x5C, CHR 0x5C]
      else if c = CHR 0x08 then [CHR 0x5C, CHR ''b'']
      else if c = CHR 0x0C then [CHR 0x5C, CHR ''f'']
      else if c = CHR 0x0A then [CHR 0x5C, CHR ''n'']
      else if c = CHR 0x0D then [CHR 0x5C, CHR ''r'']
      else if c = CHR 0x09 then [CHR 0x5C, CHR ''t'']
      else if is_control c then
        [CHR 0x5C] @ ''u00'' @ [hex_digit (of_char c div 16), hex_digit (of_char c mod 16)]
      else [c])"

definition emit_chars :: "string \<Rightarrow> string" where
  "emit_chars s = concat (map escape_char s)"

definition emit_str :: "string \<Rightarrow> string" where
  "emit_str s = [CHR 0x22] @ emit_chars s @ [CHR 0x22]"

section \<open>Values\<close>

fun emit :: "json \<Rightarrow> string"
  and emit_items :: "json list \<Rightarrow> string"
  and emit_members :: "(string \<times> json) list \<Rightarrow> string" where
  "emit JNull = ''null''"
| "emit (JBool b) = (if b then ''true'' else ''false'')"
| "emit (JInt i) = show_int i"
| "emit (JStr s) = emit_str s"
| "emit (JList xs) = ''['' @ emit_items xs"
| "emit (JObj kvs) = ''{'' @ emit_members kvs"
| "emit_items [] = '']''"
| "emit_items [x] = emit x @ '']''"
| "emit_items (x # y # xs) = emit x @ '','' @ emit_items (y # xs)"
| "emit_members [] = ''}''"
| "emit_members [(k, v)] = emit_str k @ '':'' @ emit v @ ''}''"
| "emit_members ((k, v) # m # ms) = emit_str k @ '':'' @ emit v @ '','' @ emit_members (m # ms)"

function canon :: "json \<Rightarrow> json" where
  "canon JNull = JNull"
| "canon (JBool b) = JBool b"
| "canon (JInt i) = JInt i"
| "canon (JStr s) = JStr s"
| "canon (JList xs) = JList (map canon xs)"
| "canon (JObj kvs) = JObj (sort_key fst (map (\<lambda>kv. (fst kv, canon (snd kv))) kvs))"
  by pat_completeness auto
termination
proof (relation "measure size")
  fix xs and x :: json assume "x \<in> set xs"
  then show "(x, JList xs) \<in> measure size"
    by (induction xs) auto
next
  fix kvs and x :: "string \<times> json" assume "x \<in> set kvs"
  then show "(snd x, JObj kvs) \<in> measure size"
    by (induction kvs) (auto simp: size_prod_simp)
qed simp

definition dumps :: "json \<Rightarrow> string" where
  "dumps j = emit (canon j)"

text \<open>A value Python can hold: the keys of every dict are distinct.\<close>

fun wf_json :: "json \<Rightarrow> bool" where
  "wf_json (JList xs) = list_all wf_json xs"
| "wf_json (JObj kvs) = (distinct (map fst kvs) \<and> list_all (\<lambda>kv. wf_json (snd kv)) kvs)"
| "wf_json _ = True"

text \<open>\<open>data[key]\<close>, after the key set of \<open>data\<close> has been checked.\<close>

definition dget :: "(string \<times> json) list \<Rightarrow> string \<Rightarrow> json" where
  "dget d k = (case map_of d k of Some v \<Rightarrow> v | None \<Rightarrow> JNull)"

lemma dget_Cons [simp]: "dget ((k, v) # d) k' = (if k' = k then v else dget d k')"
  by (auto simp: dget_def)

lemma dget_Nil [simp]: "dget [] k = JNull"
  by (simp add: dget_def)

section \<open>Unique readability\<close>

definition unescape :: "string \<Rightarrow> (char \<times> string) option" where
  "unescape s =
     (case s of
        [] \<Rightarrow> None
      | c # t \<Rightarrow>
          if c = CHR 0x5C then
            (case t of
               [] \<Rightarrow> None
             | d # u \<Rightarrow>
                 if d = CHR ''b'' then Some (CHR 0x08, u)
                 else if d = CHR ''f'' then Some (CHR 0x0C, u)
                 else if d = CHR ''n'' then Some (CHR 0x0A, u)
                 else if d = CHR ''r'' then Some (CHR 0x0D, u)
                 else if d = CHR ''t'' then Some (CHR 0x09, u)
                 else if d = CHR ''u'' then
                   (let v = (\<lambda>x. if is_digit x then digit_val x else of_char x - 87)
                    in Some (char_of (16 * v (u ! 2) + v (u ! 3)), drop 4 u))
                 else Some (d, u))
          else Some (c, t))"

lemma is_control_cases:
  assumes "is_control c"
  obtains n :: nat where "n \<in> set [0..<32]" and "c = char_of n"
  using assms by (metis atLeastLessThan_iff char_of_char is_control_def set_upt zero_le)

lemma upt_32: "set [0..<32] = {0::nat,1,2,3,4,5,6,7,8,9,10,11,12,13,14,15,16,17,18,19,20,21,22,23,24,25,26,27,
    28,29,30,31}"
  by code_simp

lemma unescape_control:
  "(n::nat) \<in> set [0..<32] \<Longrightarrow> unescape (escape_char (char_of n) @ s) = Some (char_of n, s)"
  unfolding upt_32
  by (elim insertE emptyE; hypsubst;
      simp add: escape_char_def unescape_def is_control_def hex_digit_def is_digit_def digit_val_def)

lemma unescape_escape [simp]: "unescape (escape_char c @ s) = Some (c, s)"
proof (cases "is_control c")
  case True
  then obtain n :: nat where "n \<in> set [0..<32]" and "c = char_of n" by (rule is_control_cases)
  with unescape_control show ?thesis by blast
next
  case False
  then show ?thesis
    by (auto simp: escape_char_def unescape_def is_control_def)
qed

lemma escape_char_hd: "hd (escape_char c) \<noteq> CHR 0x22" "escape_char c \<noteq> []"
  by (auto simp: escape_char_def)

lemma emit_chars_simps [simp]:
  "emit_chars [] = []"
  "emit_chars (c # s) = escape_char c @ emit_chars s"
  by (simp_all add: emit_chars_def)

lemma emit_chars_unique:
  "emit_chars s @ CHR 0x22 # x = emit_chars t @ CHR 0x22 # y \<Longrightarrow> s = t \<and> x = y"
proof (induction s arbitrary: t)
  case Nil
  show ?case
  proof (cases t)
    case (Cons c u)
    have "hd (escape_char c @ emit_chars u @ CHR 0x22 # y) \<noteq> CHR 0x22"
      by (simp add: escape_char_hd hd_append)
    moreover have "CHR 0x22 # x = escape_char c @ emit_chars u @ CHR 0x22 # y"
      using Nil Cons by simp
    ultimately show ?thesis by (metis list.sel(1))
  qed (use Nil in simp)
next
  case (Cons c s)
  show ?case
  proof (cases t)
    case Nil
    have "hd (escape_char c @ emit_chars s @ CHR 0x22 # x) \<noteq> CHR 0x22"
      by (simp add: escape_char_hd hd_append)
    moreover have "escape_char c @ emit_chars s @ CHR 0x22 # x = CHR 0x22 # y"
      using Nil Cons.prems by simp
    ultimately show ?thesis by (metis list.sel(1))
  next
    case (Cons d u)
    have "escape_char c @ emit_chars s @ CHR 0x22 # x = escape_char d @ emit_chars u @ CHR 0x22 # y"
      using Cons.prems Cons by simp
    then have "Some (c, emit_chars s @ CHR 0x22 # x) = Some (d, emit_chars u @ CHR 0x22 # y)"
      by (metis unescape_escape)
    with Cons.IH Cons show ?thesis by blast
  qed
qed

lemma emit_str_unique: "emit_str s @ x = emit_str t @ y \<Longrightarrow> s = t \<and> x = y"
  using emit_chars_unique [of s x t y] unfolding emit_str_def by (metis append_Cons append_Nil append_assoc list.inject)

definition delim :: "string \<Rightarrow> bool" where
  "delim r \<longleftrightarrow> (r = [] \<or> hd r \<in> {CHR '','', CHR '']'', CHR ''}''})"

lemma delim_simps [simp]: "delim []" "delim (CHR '','' # r)" "delim (CHR '']'' # r)" "delim (CHR ''}'' # r)"
  by (simp_all add: delim_def)

lemma delim_not_digit: "delim r \<Longrightarrow> takeWhile is_digit r = [] \<and> dropWhile is_digit r = r"
  by (cases r) (auto simp: delim_def is_digit_def)

lemma show_nat_unique:
  assumes "show_nat m @ r = show_nat n @ r'" and "delim r" and "delim r'"
  shows "m = n \<and> r = r'"
proof -
  have "takeWhile is_digit (show_nat m @ r) = show_nat m" "dropWhile is_digit (show_nat m @ r) = r"
    using assms(2) by (simp_all add: is_digit_show_nat takeWhile_append2 dropWhile_append2 delim_not_digit)
  moreover have "takeWhile is_digit (show_nat n @ r') = show_nat n" "dropWhile is_digit (show_nat n @ r') = r'"
    using assms(3) by (simp_all add: is_digit_show_nat takeWhile_append2 dropWhile_append2 delim_not_digit)
  ultimately show ?thesis using assms(1) show_nat_inj by metis
qed

lemma hd_show_nat_digit: "is_digit (hd (show_nat n @ r))"
  using is_digit_show_nat [of "hd (show_nat n)" n] by (simp add: hd_append)

lemma show_int_hd: "hd (show_int i @ r) = CHR ''-'' \<or> is_digit (hd (show_int i @ r))"
  using hd_show_nat_digit by (auto simp: show_int_def)

lemma show_int_unique:
  assumes eq: "show_int i @ r = show_int j @ r'" and d: "delim r" "delim r'"
  shows "i = j \<and> r = r'"
proof -
  have minus: "\<not> is_digit (CHR ''-'')" by (simp add: is_digit_def)
  have "(i < 0) = (j < 0)"
    using eq hd_show_nat_digit minus unfolding show_int_def
    by (smt (verit) append_Cons append_Nil list.sel(1))
  then consider "i < 0" "j < 0" | "\<not> i < 0" "\<not> j < 0" by blast
  then show ?thesis
  proof cases
    case 1
    with eq have "show_nat (nat (- i)) @ r = show_nat (nat (- j)) @ r'" by (simp add: show_int_def)
    from show_nat_unique [OF this d] 1 show ?thesis by (simp add: nat_eq_iff)
  next
    case 2
    with eq have "show_nat (nat i) @ r = show_nat (nat j) @ r'" by (simp add: show_int_def)
    from show_nat_unique [OF this d] 2 show ?thesis by (simp add: nat_eq_iff)
  qed
qed

text \<open>The first character of a printed value tells its constructor.\<close>

definition kind_char :: "json \<Rightarrow> char \<Rightarrow> bool" where
  "kind_char j c =
     (case j of
        JNull \<Rightarrow> c = CHR ''n''
      | JBool b \<Rightarrow> c = (if b then CHR ''t'' else CHR ''f'')
      | JInt _ \<Rightarrow> c = CHR ''-'' \<or> is_digit c
      | JStr _ \<Rightarrow> c = CHR 0x22
      | JList _ \<Rightarrow> c = CHR ''[''
      | JObj _ \<Rightarrow> c = CHR ''{'')"

lemma kind_char_emit: "kind_char j (hd (emit j @ r))"
  using show_int_hd by (cases j) (auto simp: kind_char_def emit_str_def)

lemma emit_not_Nil [simp]: "emit j \<noteq> []"
  by (cases j) (auto simp: emit_str_def show_int_def)

lemma kind_char_same:
  assumes "kind_char j c" and "kind_char k c"
  shows "(\<exists>a b. j = JInt a \<and> k = JInt b) \<or> (\<exists>a b. j = JStr a \<and> k = JStr b)
    \<or> (\<exists>a b. j = JList a \<and> k = JList b) \<or> (\<exists>a b. j = JObj a \<and> k = JObj b)
    \<or> j = k"
  using assms by (cases j; cases k; auto simp: kind_char_def is_digit_def split: if_splits)

lemma hd_emit_not_close: "hd (emit j @ r) \<noteq> CHR '']''" "hd (emit_str k @ r) \<noteq> CHR ''}''"
  using kind_char_emit [of j r]
  by (auto simp: kind_char_def emit_str_def is_digit_def split: json.splits if_splits)

lemma list_3_cases [case_names Nil One More]:
  obtains "xs = []" | x where "xs = [x]" | x y ys where "xs = x # y # ys"
  by (cases xs rule: remdups_adj.cases) auto

lemma pairs_3_cases [case_names Nil One More]:
  obtains "ms = []" | k v where "ms = [(k, v)]" | k v m ns where "ms = (k, v) # m # ns"
  by (cases ms rule: remdups_adj.cases) auto

lemma emit_unique_aux:
  "emit j @ r = emit j' @ r' \<Longrightarrow> delim r \<Longrightarrow> delim r' \<Longrightarrow> j = j' \<and> r = r'"
  "emit_items xs @ r = emit_items xs' @ r' \<Longrightarrow> xs = xs' \<and> r = r'"
  "emit_members ms @ r = emit_members ms' @ r' \<Longrightarrow> ms = ms' \<and> r = r'"
proof (induction j and xs and ms arbitrary: j' r r' and xs' r r' and ms' r r'
    rule: emit_emit_items_emit_members.induct)
  case 1
  then show ?case using kind_char_same kind_char_emit
    by (metis append_same_eq same_append_eq json.distinct(3,5,7,9))
next
  case (2 b)
  then show ?case using kind_char_same kind_char_emit
    by (metis same_append_eq json.distinct(11,13,15,17))
next
  case (3 i)
  then obtain k where k: "j' = JInt k"
    using kind_char_same [of "JInt i" _ j'] kind_char_emit by (metis json.distinct(19,21,23))
  from 3(1) have "show_int i @ r = show_int k @ r'" unfolding k by simp
  then show ?case unfolding k using show_int_unique 3(2,3) by blast
next
  case (4 s)
  then obtain t where t: "j' = JStr t"
    using kind_char_same [of "JStr s" _ j'] kind_char_emit by (metis json.distinct(19,25,27))
  from 4(1) have "emit_str s @ r = emit_str t @ r'" unfolding t by simp
  then show ?case unfolding t using emit_str_unique by blast
next
  case (5 xs)
  then obtain ys where ys: "j' = JList ys"
    using kind_char_same [of "JList xs" _ j'] kind_char_emit by (metis json.distinct(21,25,29))
  show ?case using 5 unfolding ys by simp
next
  case (6 ms)
  then obtain ns where ns: "j' = JObj ns"
    using kind_char_same [of "JObj ms" _ j'] kind_char_emit by (metis json.distinct(23,27,29))
  show ?case using 6 unfolding ns by simp
next
  case 7
  show ?case
  proof (cases xs' rule: list_3_cases)
    case Nil with 7 show ?thesis by simp
  next
    case (One x) with 7 hd_emit_not_close(1) [of x "'']'' @ r'"] show ?thesis
      by (metis append_Cons append_assoc emit_items.simps(1,2) list.sel(1))
  next
    case (More x y ys) with 7 hd_emit_not_close(1) [of x "'','' @ emit_items (y # ys) @ r'"] show ?thesis
      by (metis append_Cons append_assoc emit_items.simps(1,3) list.sel(1))
  qed
next
  case (8 x)
  show ?case
  proof (cases xs' rule: list_3_cases)
    case Nil with 8 hd_emit_not_close(1) [of x "'']'' @ r"] show ?thesis
      by (metis append_Cons append_assoc emit_items.simps(1,2) list.sel(1))
  next
    case (One x')
    with 8(2) 8(1) [of "CHR '']'' # r" x' "CHR '']'' # r'"] show ?thesis by simp
  next
    case (More x' y ys)
    with 8(2) 8(1) [of "CHR '']'' # r" x' "CHR '','' # emit_items (y # ys) @ r'"] show ?thesis by simp
  qed
next
  case (9 x y ys)
  show ?case
  proof (cases xs' rule: list_3_cases)
    case Nil with 9 hd_emit_not_close(1) [of x "'','' @ emit_items (y # ys) @ r"] show ?thesis
      by (metis append_Cons append_assoc emit_items.simps(1,3) list.sel(1))
  next
    case (One x')
    with 9(3) 9(1) [of "CHR '','' # emit_items (y # ys) @ r" x' "CHR '']'' # r'"] show ?thesis by simp
  next
    case (More x' y' ys')
    with 9(3) 9(1) [of "CHR '','' # emit_items (y # ys) @ r" x' "CHR '','' # emit_items (y' # ys') @ r'"]
    have "x = x'" and "emit_items (y # ys) @ r = emit_items (y' # ys') @ r'" by simp_all
    with 9(2) More show ?thesis by blast
  qed
next
  case 10
  show ?case
  proof (cases ms' rule: pairs_3_cases)
    case Nil with 10 show ?thesis by simp
  next
    case (One k v) with 10 hd_emit_not_close(2) [of k "'':'' @ emit v @ ''}'' @ r'"] show ?thesis
      by (metis append_Cons append_assoc emit_members.simps(1,2) list.sel(1))
  next
    case (More k v m ms) with 10 hd_emit_not_close(2) [of k "'':'' @ emit v @ '','' @ emit_members (m # ms) @ r'"]
    show ?thesis by (metis append_Cons append_assoc emit_members.simps(1,3) list.sel(1))
  qed
next
  case (11 k v)
  show ?case
  proof (cases ms' rule: pairs_3_cases)
    case Nil with 11 hd_emit_not_close(2) [of k "'':'' @ emit v @ ''}'' @ r"] show ?thesis
      by (metis append_Cons append_assoc emit_members.simps(1,2) list.sel(1))
  next
    case (One k' v')
    with 11(2) have "k = k' \<and> '':'' @ emit v @ ''}'' @ r = '':'' @ emit v' @ ''}'' @ r'"
      by (intro emit_str_unique) simp
    with 11(1) [of "CHR ''}'' # r" v' "CHR ''}'' # r'"] One show ?thesis by simp
  next
    case (More k' v' m ms)
    with 11(2) have "k = k' \<and> '':'' @ emit v @ ''}'' @ r = '':'' @ emit v' @ '','' @ emit_members (m # ms) @ r'"
      by (intro emit_str_unique) simp
    with 11(1) [of "CHR ''}'' # r" v' "CHR '','' # emit_members (m # ms) @ r'"] More show ?thesis by simp
  qed
next
  case (12 k v m ms)
  show ?case
  proof (cases ms' rule: pairs_3_cases)
    case Nil with 12 hd_emit_not_close(2) [of k "'':'' @ emit v @ '','' @ emit_members (m # ms) @ r"]
    show ?thesis by (metis append_Cons append_assoc emit_members.simps(1,3) list.sel(1))
  next
    case (One k' v')
    with 12(3) have "k = k' \<and> '':'' @ emit v @ '','' @ emit_members (m # ms) @ r = '':'' @ emit v' @ ''}'' @ r'"
      by (intro emit_str_unique) simp
    with 12(1) [of "CHR '','' # emit_members (m # ms) @ r" v' "CHR ''}'' # r'"] One show ?thesis by simp
  next
    case (More k' v' m' ms')
    with 12(3) have a: "k = k' \<and> '':'' @ emit v @ '','' @ emit_members (m # ms) @ r
        = '':'' @ emit v' @ '','' @ emit_members (m' # ms') @ r'"
      by (intro emit_str_unique) simp
    with 12(1) [of "CHR '','' # emit_members (m # ms) @ r" v' "CHR '','' # emit_members (m' # ms') @ r'"]
    have "v = v'" and "emit_members (m # ms) @ r = emit_members (m' # ms') @ r'" by simp_all
    with a 12(2) More show ?thesis by blast
  qed
qed

lemma emit_unique: "emit j = emit k \<Longrightarrow> j = k"
  using emit_unique_aux(1) [of j "[]" k "[]"] by simp

lemma dumps_eq_canon: "dumps j = dumps k \<longleftrightarrow> canon j = canon k"
  unfolding dumps_def using emit_unique by metis

section \<open>The order of a dict's items does not matter\<close>

lemma sort_key_fst_eqI:
  fixes xs ys :: "('k::linorder \<times> 'v) list"
  assumes "distinct (map fst xs)" and "distinct (map fst ys)" and "set xs = set ys"
  shows "sort_key fst xs = sort_key fst ys"
proof (rule sort_key_inj_key_eq)
  show "mset xs = mset (sort_key fst ys)"
    using assms by (simp add: set_eq_iff_mset_eq_distinct distinct_map)
  show "inj_on fst (set xs)" using assms(1) by (simp add: distinct_map)
qed simp

lemma set_eq_of_dget:
  assumes "distinct (map fst d)" and "distinct (map fst e)"
    and "set (map fst d) = set (map fst e)"
    and "\<And>k. k \<in> set (map fst d) \<Longrightarrow> f (dget d k) = f (dget e k)"
  shows "set (map (\<lambda>kv. (fst kv, f (snd kv))) d) = set (map (\<lambda>kv. (fst kv, f (snd kv))) e)"
proof -
  have in_map: "set (map (\<lambda>kv. (fst kv, f (snd kv))) d) = (\<lambda>k. (k, f (dget d k))) ` set (map fst d)"
    if "distinct (map fst d)" for d :: "(string \<times> json) list"
    using that by (force simp: dget_def image_iff)
  show ?thesis
    unfolding in_map [OF assms(1)] in_map [OF assms(2)] using assms(3,4) by auto
qed

lemma canon_JObj_eqI:
  assumes "distinct (map fst d)" and "distinct (map fst e)"
    and "set (map fst d) = set (map fst e)"
    and "\<And>k. k \<in> set (map fst d) \<Longrightarrow> canon (dget d k) = canon (dget e k)"
  shows "canon (JObj d) = canon (JObj e)"
  unfolding canon.simps
  by (rule arg_cong [where f = JObj], rule sort_key_fst_eqI)
     (use assms set_eq_of_dget [of d e canon] in \<open>simp_all add: o_def\<close>)

lemma dget_sort_key [simp]:
  assumes "distinct (map fst d)"
  shows "dget (sort_key fst d) k = dget d k"
proof -
  have "distinct (map fst (sort_key fst d))"
    using assms by (metis distinct_map distinct_sort set_sort)
  then have "map_of (sort_key fst d) = map_of d"
    using assms by (intro map_of_eqI) (auto simp: set_sort)
  then show ?thesis by (simp add: dget_def)
qed

lemma dget_map_snd: "k \<in> set (map fst d) \<Longrightarrow> dget (map (\<lambda>kv. (fst kv, f (snd kv))) d) k = f (dget d k)"
  by (induction d) (force simp: image_iff)+

lemma canon_JObj_eqD:
  assumes "canon (JObj d) = canon (JObj e)" and "distinct (map fst d)" and "distinct (map fst e)"
  shows "set (map fst d) = set (map fst e)"
    and "k \<in> set (map fst d) \<Longrightarrow> canon (dget d k) = canon (dget e k)"
proof -
  let ?f = "map (\<lambda>kv. (fst kv, canon (snd kv)))"
  have keys: "map fst (?f d) = map fst d" "map fst (?f e) = map fst e" by simp_all
  from assms(1) have eq: "sort_key fst (?f d) = sort_key fst (?f e)" by simp
  from arg_cong [OF this, of set] have "set (?f d) = set (?f e)" by (simp only: set_sort)
  then have "fst ` set (?f d) = fst ` set (?f e)" by (rule arg_cong)
  then show s: "set (map fst d) = set (map fst e)" by (simp only: set_map [symmetric] keys)
  assume k: "k \<in> set (map fst d)"
  have "canon (dget d k) = dget (?f d) k" using k by (simp add: dget_map_snd)
  also have "\<dots> = dget (sort_key fst (?f d)) k" using assms(2) by (simp add: o_def)
  also have "\<dots> = dget (?f e) k" using eq assms(3) by (simp add: o_def)
  also have "\<dots> = canon (dget e k)" using k s by (simp add: dget_map_snd)
  finally show "canon (dget d k) = canon (dget e k)" .
qed

lemma canon_jstrs [simp]: "map (canon \<circ> JStr) xs = map JStr xs"
  by (induction xs) auto

lemma map_JStr_inj [simp]: "map JStr xs = map JStr ys \<longleftrightarrow> xs = ys"
  by (rule inj_map_eq_map) (simp add: inj_def)

lemma canon_jopt [simp]: "canon (jopt x) = jopt x"
  by (cases x) auto

lemma jopt_inj [simp]: "jopt x = jopt y \<longleftrightarrow> x = y"
  by (cases x; cases y) auto

section \<open>\<open>str.encode("utf-8")\<close>\<close>

text \<open>Bytes are characters: one for U+0000 to U+007F, two for U+0080 to U+00FF.\<close>

definition utf8_char :: "char \<Rightarrow> string" where
  "utf8_char c = (let n = (of_char c :: nat) in
     if n < 128 then [c] else [char_of (192 + n div 64), char_of (128 + n mod 64)])"

definition utf8 :: "string \<Rightarrow> string" where
  "utf8 s = concat (map utf8_char s)"

definition utf8_first :: "string \<Rightarrow> char \<times> string" where
  "utf8_first s = (if of_char (hd s) < (128::nat) then (hd s, tl s)
     else (char_of ((of_char (hd s) - 192) * 64 + (of_char (hd (tl s)) - 128 :: nat)), tl (tl s)))"

lemma utf8_first_utf8_char [simp]: "utf8_first (utf8_char c @ s) = (c, s)"
proof -
  let ?n = "of_char c :: nat"
  have n: "?n < 256" by simp
  show ?thesis
  proof (cases "?n < 128")
    case False
    from n have "?n div 64 < 4" by linarith
    then have "of_char (char_of (192 + ?n div 64) :: char) = 192 + ?n div 64"
      by (simp add: of_char_of)
    moreover have "of_char (char_of (128 + ?n mod 64) :: char) = 128 + ?n mod 64"
      by (simp add: of_char_of)
    ultimately show ?thesis using False
      by (simp add: utf8_first_def utf8_char_def Let_def char_of_char)
  qed (simp add: utf8_first_def utf8_char_def)
qed

lemma utf8_char_not_Nil [simp]: "utf8_char c \<noteq> []"
  by (simp add: utf8_char_def Let_def)

lemma utf8_inj: "utf8 s = utf8 t \<Longrightarrow> s = t"
proof (induction s arbitrary: t)
  case Nil
  then show ?case by (cases t) (auto simp: utf8_def)
next
  case (Cons c s)
  then obtain d u where t: "t = d # u" by (cases t) (auto simp: utf8_def)
  with Cons.prems have "utf8_char c @ utf8 s = utf8_char d @ utf8 u" by (simp add: utf8_def)
  then have "(c, utf8 s) = (d, utf8 u)" by (metis utf8_first_utf8_char)
  with Cons.IH t show ?case by blast
qed

end
