(* ===== verification/Sha256.thy ===== *)
theory Sha256
  imports Py_Json "HOL-Library.Word"
begin

unbundle bit_operations_syntax

text \<open>
  \<open>hashlib.sha256(data).hexdigest()\<close>: SHA-256 as FIPS 180-4 defines it, over 32-bit words,
  and the digest the contract modules take of a JSON value
  (\<open>hashlib.sha256(_canonical_json(value).encode("utf-8")).hexdigest()\<close>).

  Two facts carry every later use: a digest is always 64 lowercase hexadecimal characters
  (\<open>sha256_hex_is_sha256\<close>), and two values with the same digest have the same canonical
  form or exhibit a SHA-256 collision (\<open>canonical_sha256_binding\<close>).  No collision freedom
  is assumed.
\<close>

type_synonym u32 = "32 word"

section \<open>The hash function\<close>

text \<open>
  The constants are the first 32 bits of the fractional parts of cube and square roots of the
  first primes; the integer roots are found bit by bit.
\<close>

definition int_root :: "nat \<Rightarrow> nat \<Rightarrow> nat" where
  "int_root k n = foldl (\<lambda>r b. if (r + 2 ^ b) ^ k \<le> n then r + 2 ^ b else r) 0 (rev [0..<40])"

definition sha_primes :: "nat list" where
  "sha_primes = filter (\<lambda>p. list_all (\<lambda>d. p mod d \<noteq> 0) [2..<p]) [2..<312]"

definition sha_K :: "u32 list" where
  "sha_K = map (\<lambda>p. word_of_nat (int_root 3 (p * 2 ^ 96))) sha_primes"

definition sha_H0 :: "u32 list" where
  "sha_H0 = map (\<lambda>p. word_of_nat (int_root 2 (p * 2 ^ 64))) (take 8 sha_primes)"

definition sha_ch :: "u32 \<Rightarrow> u32 \<Rightarrow> u32 \<Rightarrow> u32" where
  "sha_ch x y z = (x AND y) XOR (NOT x AND z)"

definition sha_maj :: "u32 \<Rightarrow> u32 \<Rightarrow> u32 \<Rightarrow> u32" where
  "sha_maj x y z = (x AND y) XOR (x AND z) XOR (y AND z)"

definition big_sigma0 :: "u32 \<Rightarrow> u32" where
  "big_sigma0 x = word_rotr 2 x XOR word_rotr 13 x XOR word_rotr 22 x"

definition big_sigma1 :: "u32 \<Rightarrow> u32" where
  "big_sigma1 x = word_rotr 6 x XOR word_rotr 11 x XOR word_rotr 25 x"

definition small_sigma0 :: "u32 \<Rightarrow> u32" where
  "small_sigma0 x = word_rotr 7 x XOR word_rotr 18 x XOR drop_bit 3 x"

definition small_sigma1 :: "u32 \<Rightarrow> u32" where
  "small_sigma1 x = word_rotr 17 x XOR word_rotr 19 x XOR drop_bit 10 x"

text \<open>Padding: a one bit, zeros up to 56 modulo 64 bytes, the bit length in 8 bytes.\<close>

definition sha_pad :: "nat list \<Rightarrow> nat list" where
  "sha_pad m = (let n = length m; k = (119 - n mod 64) mod 64 in
     m @ [128] @ replicate k 0 @ map (\<lambda>i. (8 * n) div 256 ^ i mod 256) [7, 6, 5, 4, 3, 2, 1, 0])"

fun be_words :: "nat list \<Rightarrow> u32 list" where
  "be_words (a # b # c # d # bs) = word_of_nat (((a * 256 + b) * 256 + c) * 256 + d) # be_words bs"
| "be_words _ = []"

text \<open>The message schedule, latest word first.\<close>

fun sha_schedule :: "nat \<Rightarrow> u32 list \<Rightarrow> u32 list" where
  "sha_schedule 0 ws = ws"
| "sha_schedule (Suc k) ws =
     sha_schedule k ((small_sigma1 (ws ! 1) + ws ! 6 + small_sigma0 (ws ! 14) + ws ! 15) # ws)"

fun sha_round :: "u32 \<times> u32 \<Rightarrow> u32 list \<Rightarrow> u32 list" where
  "sha_round (kt, wt) [a, b, c, d, e, f, g, h] =
     (let t1 = h + big_sigma1 e + sha_ch e f g + kt + wt;
          t2 = big_sigma0 a + sha_maj a b c
      in [t1 + t2, a, b, c, d + t1, e, f, g])"
| "sha_round _ s = s"

definition sha_block :: "u32 list \<Rightarrow> u32 list \<Rightarrow> u32 list" where
  "sha_block H ws = map2 (+) H (fold sha_round (zip sha_K (rev (sha_schedule 48 (rev ws)))) H)"

function sha_blocks :: "u32 list \<Rightarrow> u32 list \<Rightarrow> u32 list" where
  "sha_blocks H ws = (if ws = [] then H else sha_blocks (sha_block H (take 16 ws)) (drop 16 ws))"
  by pat_completeness auto
termination
  by (relation "measure (\<lambda>(H, ws). length ws)") auto

declare sha_blocks.simps [simp del]

definition hex_word :: "u32 \<Rightarrow> string" where
  "hex_word w = map (\<lambda>i. hex_digit (unat w div 16 ^ i mod 16)) [7, 6, 5, 4, 3, 2, 1, 0]"

definition sha256_hex :: "string \<Rightarrow> string" where
  "sha256_hex bytes = concat (map hex_word (sha_blocks sha_H0 (be_words (sha_pad (map of_char bytes)))))"

section \<open>The form of a digest\<close>

lemma hex_digits_are_hex: "list_all (\<lambda>d. is_hex_lower (hex_digit d)) [0..<16]"
  by code_simp

lemma hex_digit_is_hex: "d < 16 \<Longrightarrow> is_hex_lower (hex_digit d)"
  using hex_digits_are_hex by (simp add: list_all_iff)

lemma hex_word_form: "length (hex_word w) = 8" "list_all is_hex_lower (hex_word w)"
  by (simp_all add: hex_word_def hex_digit_is_hex)

lemma length_sha_round: "length s = 8 \<Longrightarrow> length (sha_round kw s) = 8"
  by (induction kw s rule: sha_round.induct) (auto simp: Let_def)

lemma length_fold_sha_round: "length s = 8 \<Longrightarrow> length (fold sha_round kws s) = 8"
  by (induction kws arbitrary: s) (simp_all add: length_sha_round)

lemma length_sha_block: "length H = 8 \<Longrightarrow> length (sha_block H ws) = 8"
  by (simp add: sha_block_def length_fold_sha_round)

lemma length_sha_blocks: "length H = 8 \<Longrightarrow> length (sha_blocks H ws) = 8"
proof (induction H ws rule: sha_blocks.induct)
  case (1 H ws)
  then show ?case
    by (subst sha_blocks.simps) (simp add: length_sha_block)
qed

lemma length_sha_H0: "length sha_H0 = 8"
proof -
  let ?p = "\<lambda>p::nat. list_all (\<lambda>d. p mod d \<noteq> 0) [2..<p]"
  have u: "[2..<312] = [2..<20] @ [20..<(312::nat)]" using upt_add_eq_append [of 2 20 292] by (simp del: upt_Suc upt_rec_numeral)
  have "length (filter ?p [2..<20]) = 8" by code_simp
  then have "8 \<le> length (filter ?p [2..<20]) + length (filter ?p [20..<312])" by (rule eq_imp_le [OF sym, THEN trans_le_add1])
  then have "8 \<le> length sha_primes" unfolding sha_primes_def u filter_append length_append .
  then show ?thesis by (simp add: sha_H0_def)
qed

lemma concat_hex_words:
  "length (concat (map hex_word ws)) = 8 * length ws" "list_all is_hex_lower (concat (map hex_word ws))"
  by (induction ws) (simp_all add: hex_word_form)

lemma sha256_hex_is_sha256 [simp, intro]: "is_sha256 (sha256_hex s)"
  by (simp add: is_sha256_def sha256_hex_def concat_hex_words length_sha_blocks length_sha_H0)

section \<open>The digest of a JSON value\<close>

definition canonical_sha256 :: "json \<Rightarrow> string" where
  "canonical_sha256 j = sha256_hex (utf8 (dumps j))"

lemma canonical_sha256_is_sha256 [simp, intro]: "is_sha256 (canonical_sha256 j)"
  by (simp add: canonical_sha256_def)

lemma canonical_sha256_canon: "canon j = canon k \<Longrightarrow> canonical_sha256 j = canonical_sha256 k"
  by (simp add: canonical_sha256_def dumps_def)

text \<open>Two different byte strings with the same digest.\<close>

definition sha256_collision :: "string \<Rightarrow> string \<Rightarrow> bool" where
  "sha256_collision a b \<longleftrightarrow> a \<noteq> b \<and> sha256_hex a = sha256_hex b"

lemma canonical_sha256_binding:
  assumes "canonical_sha256 j = canonical_sha256 k"
  shows "canon j = canon k \<or> sha256_collision (utf8 (dumps j)) (utf8 (dumps k))"
  using assms utf8_inj dumps_eq_canon
  unfolding canonical_sha256_def sha256_collision_def by metis

end
