(* ===== verification/Py_Datetime.thy ===== *)
theory Py_Datetime
  imports Py_Json
begin

text \<open>
  The part of Python's \<open>datetime\<close> the contract modules use: \<open>datetime.fromisoformat\<close> (as
  CPython 3.11 implements it, every ISO 8601 form it accepts included), \<open>astimezone(UTC)\<close>,
  \<open>isoformat()\<close> of a UTC value, and comparison of aware values.

  \<open>fromisoformat s = None\<close> is the ValueError, \<open>astimezone_utc d = None\<close> the OverflowError
  \<open>astimezone\<close> raises when the UTC date falls outside the years 1 to 9999.

  Main results: \<open>fromisoformat_isoformat\<close> (a UTC value prints to a text that reads back as
  the same value) and \<open>instant_astimezone_utc\<close> (conversion to UTC keeps the instant).
\<close>

record datetime =
  dt_year :: nat
  dt_month :: nat
  dt_day :: nat
  dt_hour :: nat
  dt_minute :: nat
  dt_second :: nat
  dt_micro :: nat
  dt_offset :: "int option"

section \<open>The calendar\<close>

definition is_leap :: "nat \<Rightarrow> bool" where
  "is_leap y \<longleftrightarrow> y mod 4 = 0 \<and> (y mod 100 = 0 \<longrightarrow> y mod 400 = 0)"

definition days_in_month :: "nat \<Rightarrow> nat \<Rightarrow> nat" where
  "days_in_month y m =
     (if m = 2 then if is_leap y then 29 else 28 else if m \<in> {4, 6, 9, 11} then 30 else 31)"

definition days_before_year :: "nat \<Rightarrow> nat" where
  "days_before_year y = (let z = y - 1 in z * 365 + z div 4 + z div 400 - z div 100)"

definition days_before_month :: "nat \<Rightarrow> nat \<Rightarrow> nat" where
  "days_before_month y m = sum_list (map (days_in_month y) [1..<m])"

definition ymd2ord :: "nat \<Rightarrow> nat \<Rightarrow> nat \<Rightarrow> nat" where
  "ymd2ord y m d = days_before_year y + days_before_month y m + d"

lemma leap_arith:
  fixes a b c z :: nat
  assumes "b \<le> a" and "r \<Longrightarrow> q" and "q \<Longrightarrow> p"
  shows "Suc z * 365 + (if p then Suc a else a) + (if r then Suc c else c) - (if q then Suc b else b)
    = z * 365 + a + c - b + (if p \<and> (q \<longrightarrow> r) then 366 else 365)"
  using assms by (cases p; cases q; cases r; simp)

lemma days_before_year_Suc:
  "0 < y \<Longrightarrow> days_before_year (Suc y) = days_before_year y + (if is_leap y then 366 else 365)"
proof -
  assume "0 < y"
  then obtain z where y: "y = Suc z" by (cases y) auto
  have le: "z div 100 \<le> z div 4" by (rule div_le_mono2) simp_all
  have m: "Suc z mod 400 = 0 \<Longrightarrow> Suc z mod 100 = 0" "Suc z mod 100 = 0 \<Longrightarrow> Suc z mod 4 = 0"
    unfolding mod_eq_0_iff_dvd
    by (rule dvd_trans [of _ 400], simp_all) (rule dvd_trans [of _ 100], simp_all)
  define a b c where "a = z div 4" and "b = z div 100" and "c = z div 400"
  note abc = this
  have d: "Suc z div 4 = (if Suc z mod 4 = 0 then Suc a else a)"
    "Suc z div 100 = (if Suc z mod 100 = 0 then Suc b else b)"
    "Suc z div 400 = (if Suc z mod 400 = 0 then Suc c else c)"
    by (simp_all only: div_Suc abc)
  show ?thesis
    using leap_arith [of b a "Suc z mod 400 = 0" "Suc z mod 100 = 0" "Suc z mod 4 = 0" z c] le m
    unfolding y days_before_year_def is_leap_def Let_def diff_Suc_1 d abc [symmetric] by blast
qed

lemma days_before_year_ge: "y \<le> days_before_year (Suc y)"
proof -
  have "y div 100 \<le> y div 4" by (rule div_le_mono2) simp_all
  then show ?thesis by (simp add: days_before_year_def Let_def)
qed

lemma days_before_year_le: "days_before_year y \<le> 366 * (y - 1)"
proof -
  have "(y - 1) div 4 + (y - 1) div 400 \<le> y - 1" by linarith
  then show ?thesis unfolding days_before_year_def Let_def by linarith
qed

function find_year :: "nat \<Rightarrow> nat \<Rightarrow> nat" where
  "find_year n y = (if days_before_year (Suc y) < n then find_year n (Suc y) else y)"
  by pat_completeness auto
termination
proof (relation "measure (\<lambda>(n, y). n - y)")
  fix n y assume "days_before_year (Suc y) < n"
  with days_before_year_ge [of y] have "y < n" by linarith
  then show "((n, Suc y), n, y) \<in> measure (\<lambda>(n, y). n - y)" by simp
qed simp

function find_month :: "nat \<Rightarrow> nat \<Rightarrow> nat \<Rightarrow> nat \<times> nat" where
  "find_month y r m =
     (if m < 12 \<and> days_in_month y m < r then find_month y (r - days_in_month y m) (Suc m) else (m, r))"
  by pat_completeness auto
termination
  by (relation "measure (\<lambda>(y, r, m). 12 - m)") auto

declare find_year.simps [simp del] find_month.simps [simp del]

definition ord2ymd :: "nat \<Rightarrow> nat \<times> nat \<times> nat" where
  "ord2ymd n =
     (let y = find_year n ((n - 1) div 366 + 1);
          (m, d) = find_month y (n - days_before_year y) 1
      in (y, m, d))"

lemma find_year_bounds:
  "days_before_year y < n \<Longrightarrow>
   y \<le> find_year n y \<and> days_before_year (find_year n y) < n \<and> n \<le> days_before_year (Suc (find_year n y))"
proof (induction n y rule: find_year.induct)
  case (1 n y)
  show ?case
  proof (cases "days_before_year (Suc y) < n")
    case True
    with "1.IH" show ?thesis by (subst (1 2 3) find_year.simps) auto
  next
    case False
    with "1.prems" show ?thesis by (subst (1 2 3) find_year.simps) auto
  qed
qed

lemma days_before_month_Suc: "0 < m \<Longrightarrow> days_before_month y (Suc m) = days_before_month y m + days_in_month y m"
  by (simp add: days_before_month_def)

lemma days_before_month_13: "days_before_month y 13 = (if is_leap y then 366 else 365)"
proof -
  have "[1..<13] = [1, 2, 3, 4, 5, 6, 7, 8, 9, 10, 11, 12 :: nat]" by code_simp
  then show ?thesis by (simp add: days_before_month_def days_in_month_def)
qed

lemma days_before_month_1 [simp]: "days_before_month y (Suc 0) = 0"
  by (simp add: days_before_month_def)

lemma find_month_bounds:
  assumes "0 < m" and "m \<le> 12" and "0 < r" and "days_before_month y m + r \<le> days_before_month y 13"
    and "find_month y r m = (m', d)"
  shows "m \<le> m' \<and> m' \<le> 12 \<and> 0 < d \<and> d \<le> days_in_month y m'
    \<and> days_before_month y m' + d = days_before_month y m + r"
  using assms
proof (induction y r m rule: find_month.induct)
  case (1 y r m)
  show ?case
  proof (cases "m < 12 \<and> days_in_month y m < r")
    case True
    with "1.prems"(5) have "find_month y (r - days_in_month y m) (Suc m) = (m', d)"
      by (subst (asm) find_month.simps) simp
    with "1.IH" True "1.prems" days_before_month_Suc show ?thesis by fastforce
  next
    case False
    with "1.prems"(5) have eq: "m' = m" "d = r" by (subst (asm) find_month.simps, auto)+
    have "r \<le> days_in_month y m"
    proof (cases "m < 12")
      case False
      with "1.prems"(2) have "m = 12" by simp
      then show ?thesis using "1.prems"(4) days_before_month_Suc [of 12 y] by simp
    qed (use False in simp)
    with eq "1.prems" show ?thesis by simp
  qed
qed

lemma ord2ymd_props:
  assumes "0 < n" and "ord2ymd n = (y, m, d)"
  shows "ymd2ord y m d = n" and "0 < y" and "0 < m" and "m \<le> 12" and "0 < d" and "d \<le> days_in_month y m"
    and "days_before_year y < n"
proof -
  let ?start = "(n - 1) div 366 + 1"
  let ?y = "find_year n ?start"
  have "?start - 1 = (n - 1) div 366" by simp
  with days_before_year_le [of ?start] have "days_before_year ?start \<le> 366 * ((n - 1) div 366)" by metis
  also have "\<dots> \<le> n - 1" by simp
  finally have "days_before_year ?start < n" using assms(1) by simp
  from find_year_bounds [OF this]
  have fy: "?start \<le> ?y" "days_before_year ?y < n" "n \<le> days_before_year (Suc ?y)" by simp_all
  obtain m' d' where fm: "find_month ?y (n - days_before_year ?y) 1 = (m', d')" by fastforce
  have "ord2ymd n = (?y, m', d')" unfolding ord2ymd_def Let_def fm by simp
  with assms(2) have ymd: "y = ?y" "m = m'" "d = d'" by simp_all
  have "days_before_month ?y 1 + (n - days_before_year ?y) \<le> days_before_month ?y 13"
    using fy days_before_year_Suc [of ?y] by (auto simp: days_before_month_13 le_diff_conv add.commute)
  from find_month_bounds [OF _ _ _ this fm] fy
  have b: "1 \<le> m'" "m' \<le> 12" "0 < d'" "d' \<le> days_in_month ?y m'"
    "days_before_month ?y m' + d' = n - days_before_year ?y"
    by simp_all
  show "ymd2ord y m d = n" using b(5) fy(2) unfolding ymd ymd2ord_def by linarith
  show "0 < y" using fy(1) unfolding ymd by linarith
  show "0 < m" "m \<le> 12" "0 < d" "d \<le> days_in_month y m" "days_before_year y < n"
    using b fy unfolding ymd by simp_all
qed

section \<open>Valid values and instants\<close>

definition day_micros :: int where
  "day_micros = 86400000000"

definition valid_datetime :: "datetime \<Rightarrow> bool" where
  "valid_datetime t \<longleftrightarrow>
     1 \<le> dt_year t \<and> dt_year t \<le> 9999 \<and> 1 \<le> dt_month t \<and> dt_month t \<le> 12 \<and>
     1 \<le> dt_day t \<and> dt_day t \<le> days_in_month (dt_year t) (dt_month t) \<and>
     dt_hour t < 24 \<and> dt_minute t < 60 \<and> dt_second t < 60 \<and> dt_micro t < 1000000"

text \<open>Microseconds since the day before 0001-01-01, in local time and in UTC.\<close>

definition local_micros :: "datetime \<Rightarrow> int" where
  "local_micros t =
     int (ymd2ord (dt_year t) (dt_month t) (dt_day t)) * day_micros
     + int (((dt_hour t * 60 + dt_minute t) * 60 + dt_second t) * 1000000 + dt_micro t)"

definition instant :: "datetime \<Rightarrow> int" where
  "instant t = local_micros t - (case dt_offset t of Some o' \<Rightarrow> o' | None \<Rightarrow> 0)"

text \<open>The UTC value at a number of microseconds.\<close>

definition utc_of_micros :: "int \<Rightarrow> datetime" where
  "utc_of_micros u =
     (let (y, m, d) = ord2ymd (nat (u div day_micros)); r = nat (u mod day_micros)
      in \<lparr>dt_year = y, dt_month = m, dt_day = d,
          dt_hour = r div 3600000000, dt_minute = r div 60000000 mod 60,
          dt_second = r div 1000000 mod 60, dt_micro = r mod 1000000, dt_offset = Some 0\<rparr>)"

definition max_ordinal :: int where
  "max_ordinal = 3652059"

definition astimezone_utc :: "datetime \<Rightarrow> datetime option" where
  "astimezone_utc t =
     (if dt_offset t = Some 0 then Some t
      else let u = instant t; n = u div day_micros
           in if 1 \<le> n \<and> n \<le> max_ordinal then Some (utc_of_micros u) else None)"

lemma micros_of_day:
  "(((r div 3600000000 * 60 + r div 60000000 mod 60) * 60 + r div 1000000 mod 60) * 1000000
     + r mod 1000000 :: nat) = r"
proof -
  have "r div 60000000 = r div 1000000 div 60" "r div 3600000000 = r div 1000000 div 60 div 60"
    by (simp_all add: div_mult2_eq [symmetric])
  then show ?thesis by (metis (no_types, lifting) div_mult_mod_eq)
qed

lemma local_micros_utc_of_micros:
  assumes "day_micros \<le> u"
  shows "local_micros (utc_of_micros u) = u"
proof -
  have pos: "0 < u div day_micros" using assms by (simp add: day_micros_def pos_imp_zdiv_pos_iff)
  obtain y m d where o: "ord2ymd (nat (u div day_micros)) = (y, m, d)" by (metis prod_cases3)
  have y: "ymd2ord y m d = nat (u div day_micros)"
    using ord2ymd_props(1) [OF _ o] pos by simp
  have m: "0 \<le> u mod day_micros" by (simp add: day_micros_def)
  have "local_micros (utc_of_micros u)
      = int (nat (u div day_micros)) * day_micros + int (nat (u mod day_micros))"
    unfolding local_micros_def utc_of_micros_def o Let_def prod.case datetime.select_convs y micros_of_day ..
  then show ?thesis using pos m by simp
qed

lemma instant_astimezone_utc:
  assumes "astimezone_utc t = Some u"
  shows "instant u = instant t" and "dt_offset u = Some 0"
proof -
  have "instant u = instant t \<and> dt_offset u = Some 0"
  proof (cases "dt_offset t = Some 0")
    case False
    with assms have u: "u = utc_of_micros (instant t)" and n: "1 \<le> instant t div day_micros"
      by (auto simp: astimezone_utc_def Let_def split: if_splits)
    have off: "dt_offset u = Some 0"
      unfolding u utc_of_micros_def by (simp add: Let_def split: prod.splits)
    from n have "day_micros \<le> instant t" by (simp add: day_micros_def)
    from local_micros_utc_of_micros [OF this] show ?thesis
      using off unfolding u instant_def by simp
  qed (use assms in \<open>simp add: astimezone_utc_def\<close>)
  then show "instant u = instant t" and "dt_offset u = Some 0" by simp_all
qed

section \<open>\<open>datetime.fromisoformat\<close>\<close>

text \<open>
  The reader works on the UTF-8 bytes, with a NUL after the last one, as the C code does.
  The comments name the C function each definition follows.
\<close>

definition char_at :: "string \<Rightarrow> nat \<Rightarrow> char" where
  "char_at s i = (if i < length s then s ! i else CHR 0x00)"

text \<open>\<open>parse_digits\<close>: exactly \<open>k\<close> decimal digits from position \<open>p\<close>.\<close>

fun parse_digits :: "string \<Rightarrow> nat \<Rightarrow> nat \<Rightarrow> nat \<Rightarrow> (nat \<times> nat) option" where
  "parse_digits s 0 p v = Some (v, p)"
| "parse_digits s (Suc k) p v =
     (if is_digit (char_at s p) then parse_digits s k (Suc p) (v * 10 + digit_val (char_at s p)) else None)"

text \<open>\<open>_find_isoformat_datetime_separator\<close>.\<close>

function digits_end :: "string \<Rightarrow> nat \<Rightarrow> nat" where
  "digits_end s p = (if p < length s \<and> is_digit (char_at s p) then digits_end s (Suc p) else p)"
  by pat_completeness auto
termination
  by (relation "measure (\<lambda>(s, p). length s - p)") auto

declare digits_end.simps [simp del]

definition find_separator :: "string \<Rightarrow> nat option" where
  "find_separator s =
     (let n = length s in
      if n = 7 then Some 7
      else if char_at s 4 = CHR ''-'' then
        if char_at s 5 = CHR ''W'' then
          if n < 8 then None
          else if 8 < n \<and> char_at s 8 = CHR ''-'' then
            if n = 9 then None
            else if 10 < n \<and> is_digit (char_at s 10) then Some 8
            else Some 10
          else Some 8
        else Some 10
      else if char_at s 4 = CHR ''W'' then
        let pos = digits_end s 7
        in if pos < 9 then Some pos else if even pos then Some 7 else Some 8
      else Some 8)"

text \<open>\<open>iso_to_ymd\<close>: year, ISO week and weekday.\<close>

definition iso_week1_monday :: "nat \<Rightarrow> nat" where
  "iso_week1_monday y =
     (let first = ymd2ord y 1 1; wd = (first + 6) mod 7; monday = first - wd
      in if 3 < wd then monday + 7 else monday)"

definition iso_to_ymd :: "nat \<Rightarrow> nat \<Rightarrow> nat \<Rightarrow> (nat \<times> nat \<times> nat) option" where
  "iso_to_ymd y w d =
     (let wd = (ymd2ord y 1 1 + 6) mod 7 in
      if y < 1 \<or> 9999 < y then None
      else if w = 0 \<or> 53 < w \<or> (w = 53 \<and> wd \<noteq> 3 \<and> \<not> (wd = 2 \<and> is_leap y)) then None
      else if d = 0 \<or> 7 < d then None
      else Some (ord2ymd (iso_week1_monday y + (w - 1) * 7 + d - 1)))"

text \<open>\<open>parse_isoformat_date\<close>, for a date part of \<open>len\<close> bytes.\<close>

definition parse_date :: "string \<Rightarrow> nat \<Rightarrow> (nat \<times> nat \<times> nat) option" where
  "parse_date s len =
     (case parse_digits s 4 0 0 of
        None \<Rightarrow> None
      | Some (y, p0) \<Rightarrow>
          let sep = (char_at s p0 = CHR ''-''); p = (if sep then Suc p0 else p0)
          in if char_at s p = CHR ''W'' then
               (case parse_digits s 2 (Suc p) 0 of
                  None \<Rightarrow> None
                | Some (w, q) \<Rightarrow>
                    if q < len then
                      if sep \<and> char_at s q \<noteq> CHR ''-'' then None
                      else (case parse_digits s 1 (if sep then Suc q else q) 0 of
                              None \<Rightarrow> None
                            | Some (d, _) \<Rightarrow> iso_to_ymd y w d)
                    else iso_to_ymd y w 1)
             else
               (case parse_digits s 2 p 0 of
                  None \<Rightarrow> None
                | Some (m, q) \<Rightarrow>
                    if sep \<and> char_at s q \<noteq> CHR ''-'' then None
                    else (case parse_digits s 2 (if sep then Suc q else q) 0 of
                            None \<Rightarrow> None
                          | Some (d, _) \<Rightarrow> Some (y, m, d))))"

text \<open>
  \<open>parse_hh_mm_ss_ff\<close> between \<open>p\<close> and \<open>e\<close>: up to three two-digit fields, then a fraction.
  The Boolean of the result says that bytes follow.
\<close>

datatype hms_state = HmsBad | HmsDone "nat list" bool | HmsFraction "nat list" nat

fun hms_fields :: "string \<Rightarrow> nat \<Rightarrow> nat \<Rightarrow> bool \<Rightarrow> nat list \<Rightarrow> nat \<Rightarrow> hms_state" where
  "hms_fields s e 0 sep vs p = HmsFraction vs p"
| "hms_fields s e (Suc k) sep vs p =
     (case parse_digits s 2 p 0 of
        None \<Rightarrow> HmsBad
      | Some (v, q) \<Rightarrow>
          let c = char_at s q; sep' = (if vs = [] then c = CHR '':'' else sep)
          in if e \<le> Suc q then HmsDone (vs @ [v]) (c \<noteq> CHR 0x00)
             else if sep' \<and> c = CHR '':'' then hms_fields s e k sep' (vs @ [v]) (Suc q)
             else if c = CHR ''.'' \<or> c = CHR '','' then HmsFraction (vs @ [v]) (Suc q)
             else if \<not> sep' then hms_fields s e k sep' (vs @ [v]) q
             else HmsBad)"

definition nth_or_0 :: "nat list \<Rightarrow> nat \<Rightarrow> nat" where
  "nth_or_0 vs i = (if i < length vs then vs ! i else 0)"

definition parse_hms :: "string \<Rightarrow> nat \<Rightarrow> nat \<Rightarrow> ((nat \<times> nat \<times> nat \<times> nat) \<times> bool) option" where
  "parse_hms s p e =
     (case hms_fields s e 3 True [] p of
        HmsBad \<Rightarrow> None
      | HmsDone vs rest \<Rightarrow> Some ((nth_or_0 vs 0, nth_or_0 vs 1, nth_or_0 vs 2, 0), rest)
      | HmsFraction vs q \<Rightarrow>
          let k = min 6 (e - q)
          in (case parse_digits s k q 0 of
                None \<Rightarrow> None
              | Some (f, q') \<Rightarrow>
                  Some ((nth_or_0 vs 0, nth_or_0 vs 1, nth_or_0 vs 2, f * 10 ^ (6 - k)),
                        char_at s (digits_end s q') \<noteq> CHR 0x00)))"

text \<open>\<open>parse_isoformat_time\<close>: the fields and the offset in microseconds.\<close>

function tz_position :: "string \<Rightarrow> nat \<Rightarrow> nat" where
  "tz_position s q =
     (if char_at s q \<in> {CHR ''+'', CHR ''-'', CHR ''Z''} then q
      else if Suc q < length s then tz_position s (Suc q) else Suc q)"
  by pat_completeness auto
termination
  by (relation "measure (\<lambda>(s, q). length s - q)") auto

declare tz_position.simps [simp del]

definition parse_time :: "string \<Rightarrow> nat \<Rightarrow> ((nat \<times> nat \<times> nat \<times> nat) \<times> int option) option" where
  "parse_time s p =
     (let e = length s; q = tz_position s p in
      case parse_hms s p q of
        None \<Rightarrow> None
      | Some (t, rest) \<Rightarrow>
          if q = e then (if rest then None else Some (t, None))
          else if char_at s q = CHR ''Z'' then
            (if char_at s (Suc q) \<noteq> CHR 0x00 then None else Some (t, Some 0))
          else
            (case parse_hms s (Suc q) e of
               None \<Rightarrow> None
             | Some ((h, m, sec, us), rest') \<Rightarrow>
                 if rest' then None
                 else let sgn = (if char_at s q = CHR ''-'' then - 1 else 1 :: int);
                          secs = sgn * int ((h * 60 + m) * 60 + sec)
                      in Some (t, Some (if secs = 0 then 0 else secs * 1000000 + sgn * int us))))"

definition make_datetime :: "nat \<times> nat \<times> nat \<Rightarrow> nat \<times> nat \<times> nat \<times> nat \<Rightarrow> int option \<Rightarrow> datetime option" where
  "make_datetime ymd hms off =
     (case (ymd, hms) of ((y, mo, d), (h, mi, sec, us)) \<Rightarrow>
        let t = \<lparr>dt_year = y, dt_month = mo, dt_day = d, dt_hour = h, dt_minute = mi,
                 dt_second = sec, dt_micro = us, dt_offset = off\<rparr>
        in if valid_datetime t \<and> (case off of None \<Rightarrow> True | Some z \<Rightarrow> \<bar>z\<bar> < day_micros)
           then Some t else None)"

definition fromisoformat :: "string \<Rightarrow> datetime option" where
  "fromisoformat text =
     (let s = utf8 text in
      if length s < 7 then None
      else case find_separator s of
             None \<Rightarrow> None
           | Some sl \<Rightarrow>
               (case parse_date s sl of
                  None \<Rightarrow> None
                | Some ymd \<Rightarrow>
                    if sl < length s then
                      (case parse_time s (sl + (if of_char (s ! sl) < (128::nat) then 1 else 2)) of
                         None \<Rightarrow> None
                       | Some (hms, off) \<Rightarrow> make_datetime ymd hms off)
                    else make_datetime ymd (0, 0, 0, 0) None))"

lemma fromisoformat_valid: "fromisoformat s = Some t \<Longrightarrow> valid_datetime t"
  by (auto simp: fromisoformat_def make_datetime_def Let_def split: if_splits option.splits prod.splits)

section \<open>\<open>isoformat()\<close> of a UTC value\<close>

definition isoformat_utc :: "datetime \<Rightarrow> string" where
  "isoformat_utc t =
     fixed_digits 4 (dt_year t) @ ''-'' @ fixed_digits 2 (dt_month t) @ ''-'' @ fixed_digits 2 (dt_day t)
     @ ''T'' @ fixed_digits 2 (dt_hour t) @ '':'' @ fixed_digits 2 (dt_minute t) @ '':''
     @ fixed_digits 2 (dt_second t)
     @ (if dt_micro t = 0 then [] else ''.'' @ fixed_digits 6 (dt_micro t)) @ ''+00:00''"

text \<open>
  Reading back what \<open>isoformat_utc\<close> printed.  \<open>char_at\<close> and \<open>parse_digits\<close> are evaluated
  block by block (\<open>char_at_append\<close>, \<open>parse_digits_at\<close>), so the digits stay symbolic.
\<close>

lemma char_at_append: "char_at (x @ y) i = (if i < length x then char_at x i else char_at y (i - length x))"
  by (auto simp: char_at_def nth_append)
lemma char_at_Nil [simp]: "char_at [] i = CHR 0x00"
  by (simp add: char_at_def)

lemma char_at_Cons: "char_at (c # y) i = (if i = 0 then c else char_at y (i - 1))"
  by (auto simp: char_at_def nth_Cons')

lemma parse_digits_snoc:
  "parse_digits s (Suc k) p v =
    (case parse_digits s k p v of None \<Rightarrow> None
     | Some (w, q) \<Rightarrow> if is_digit (char_at s q) then Some (w * 10 + digit_val (char_at s q), Suc q) else None)"
proof (induction k arbitrary: p v)
  case (Suc k)
  show ?case
    by (subst parse_digits.simps(2), subst Suc.IH) simp
qed simp

lemma parse_digits_fixed:
  "parse_digits (x @ fixed_digits k n @ y) k (length x) v = Some (v * 10 ^ k + n mod 10 ^ k, length x + k)"
proof (induction k arbitrary: n y)
  case 0
  then show ?case by simp
next
  case (Suc k)
  have "parse_digits (x @ fixed_digits (Suc k) n @ y) k (length x) v
      = Some (v * 10 ^ k + (n div 10) mod 10 ^ k, length x + k)"
    using Suc.IH [of "n div 10" "digit_char (n mod 10) # y"] by simp
  moreover have "char_at (x @ fixed_digits (Suc k) n @ y) (length x + k) = digit_char (n mod 10)"
    by (simp add: char_at_append char_at_Cons)
  moreover have "(v * 10 ^ k + n div 10 mod 10 ^ k) * 10 + n mod 10 = v * 10 ^ Suc k + n mod 10 ^ Suc k"
    using mod_mult2_eq [of n 10 "10 ^ k"] by (simp add: algebra_simps)
  ultimately show ?case unfolding parse_digits_snoc by simp
qed

lemma parse_digits_at:
  "s = x @ fixed_digits k n @ y \<Longrightarrow> p = length x \<Longrightarrow> n < 10 ^ k \<Longrightarrow> parse_digits s k p 0 = Some (n, p + k)"
  using parse_digits_fixed [of x k n y 0] by simp

lemma utf8_ascii: "(\<forall>c \<in> set s. of_char c < (128::nat)) \<Longrightarrow> utf8 s = s"
  by (induction s) (simp_all add: utf8_def utf8_char_def)

definition tz_char :: "char \<Rightarrow> bool" where
  "tz_char c \<longleftrightarrow> c \<in> {CHR ''+'', CHR ''-'', CHR ''Z''}"

lemma tz_position_scan:
  "(\<forall>c \<in> set m. \<not> tz_char c) \<Longrightarrow> tz_char d \<Longrightarrow>
   tz_position (x @ m @ d # y) (length x) = length x + length m"
proof (induction m arbitrary: x)
  case Nil
  then show ?case
    by (subst tz_position.simps) (simp add: char_at_append char_at_Cons tz_char_def)
next
  case (Cons c m)
  have "tz_position (x @ (c # m) @ d # y) (Suc (length x)) = length x + Suc (length m)"
    using Cons.IH [of "x @ [c]"] Cons.prems by simp
  then show ?case using Cons.prems
    by (subst tz_position.simps) (simp add: char_at_append char_at_Cons tz_char_def)
qed

lemma is_digit_not_tz: "is_digit c \<Longrightarrow> \<not> tz_char c"
  by (auto simp: is_digit_def tz_char_def)
lemma is_digit_ascii: "is_digit c \<Longrightarrow> of_char c < (128::nat)"
  by (auto simp: is_digit_def)


lemma isoformat_utc_ascii: "utf8 (isoformat_utc t) = isoformat_utc t"
proof (rule utf8_ascii, rule ballI)
  fix c assume "c \<in> set (isoformat_utc t)"
  then show "of_char c < (128::nat)"
    by (auto simp: isoformat_utc_def dest!: is_digit_fixed_digits is_digit_ascii split: if_splits)
qed

lemma char_at_fixed_digits: "i < k \<Longrightarrow> is_digit (char_at (fixed_digits k n) i)"
  by (metis char_at_def is_digit_fixed_digits length_fixed_digits nth_mem)

lemma is_digit_neq: "is_digit c \<Longrightarrow> c \<noteq> CHR ''W'' \<and> c \<noteq> CHR ''-'' \<and> c \<noteq> CHR ''+'' \<and> c \<noteq> CHR '':'' \<and> c \<noteq> CHR ''.''"
  by (auto simp: is_digit_def)

lemma char_at_month: "x = fixed_digits 4 y @ CHR ''-'' # fixed_digits 2 m @ z \<Longrightarrow> char_at x 4 = CHR ''-'' \<and> is_digit (char_at x 5)"
  by (simp add: char_at_append char_at_Cons char_at_fixed_digits)

lemma parse_date_isoformat:
  assumes "s = fixed_digits 4 y @ CHR ''-'' # fixed_digits 2 m @ CHR ''-'' # fixed_digits 2 d @ z"
    and "y < 10000" "m < 100" "d < 100"
  shows "parse_date s 10 = Some (y, m, d)"
proof -
  have c: "char_at s 4 = CHR ''-''" "is_digit (char_at s 5)" "char_at s 7 = CHR ''-''"
    unfolding assms(1) by (simp_all add: char_at_append char_at_Cons char_at_fixed_digits)
  have p: "parse_digits s 4 0 0 = Some (y, 4)"
    using parse_digits_at [of s "[]" 4 y _ 0] assms by simp
  have q: "parse_digits s 2 5 0 = Some (m, 7)"
    using parse_digits_at [of s "fixed_digits 4 y @ ''-''" 2 m _ 5] assms by simp
  have r: "parse_digits s 2 8 0 = Some (d, 10)"
    using parse_digits_at [of s "fixed_digits 4 y @ ''-'' @ fixed_digits 2 m @ ''-''" 2 d _ 8] assms by simp
  show ?thesis
    using c p q r is_digit_neq [OF c(2)] by (simp add: parse_date_def)
qed

lemma parse_time_isoformat:
  fixes x :: string
  assumes s: "s = x @ fixed_digits 2 h @ CHR '':'' # fixed_digits 2 m @ CHR '':'' # fixed_digits 2 sec @ f @ ''+00:00''"
    and f: "f = (if us = 0 then [] else CHR ''.'' # fixed_digits 6 us)"
    and x: "length x = 11"
    and b: "h < 24" "m < 60" "sec < 60" "us < 1000000"
  shows "parse_time s 11 = Some ((h, m, sec, us), Some 0)"
proof -
  have p1: "parse_digits s 2 11 0 = Some (h, 13)"
    using parse_digits_at [of s x 2 h _ 11] s x b by simp
  have p2: "parse_digits s 2 14 0 = Some (m, 16)"
    using parse_digits_at [of s "x @ fixed_digits 2 h @ '':''" 2 m _ 14] s x b by simp
  have p3: "parse_digits s 2 17 0 = Some (sec, 19)"
    using parse_digits_at [of s "x @ fixed_digits 2 h @ '':'' @ fixed_digits 2 m @ '':''" 2 sec _ 17] s x b by simp
  have c: "char_at s 13 = CHR '':''" "char_at s 16 = CHR '':''"
    unfolding s by (simp_all add: char_at_append char_at_Cons x)
  let ?mid = "fixed_digits 2 h @ CHR '':'' # fixed_digits 2 m @ CHR '':'' # fixed_digits 2 sec @ f"
  have "\<forall>c \<in> set ?mid. \<not> tz_char c"
    by (auto simp: f tz_char_def dest!: is_digit_fixed_digits is_digit_not_tz split: if_splits)
  from tz_position_scan [OF this, of "CHR ''+''" x "''00:00''"]
  have tz: "tz_position s 11 = 19 + length f" by (simp add: s x tz_char_def)
  have len: "length s = 25 + length f" by (simp add: s x)
  let ?q = "19 + length f"
  have cq: "char_at s ?q = CHR ''+''"
    by (simp add: s char_at_append char_at_Cons x)
  have time: "parse_hms s 11 ?q = Some ((h, m, sec, us), True)"
  proof (cases "us = 0")
    case True
    then have "f = []" by (simp add: f)
    with cq have "?q = 19" "char_at s 19 = CHR ''+''" by simp_all
    with p1 p2 p3 c True show ?thesis
      by (simp add: parse_hms_def numeral_3_eq_3 nth_or_0_def)
  next
    case False
    then have f': "f = CHR ''.'' # fixed_digits 6 us" by (simp add: f)
    then have q: "?q = 26" by simp
    have c19: "char_at s 19 = CHR ''.''" unfolding s f' by (simp add: char_at_append char_at_Cons x)
    have p4: "parse_digits s 6 20 0 = Some (us, 26)"
      using parse_digits_at [of s "x @ fixed_digits 2 h @ '':'' @ fixed_digits 2 m @ '':'' @ fixed_digits 2 sec @ ''.''" 6 us _ 20]
        s x b f' by simp
    have d: "digits_end s 26 = 26"
      using cq unfolding q by (subst digits_end.simps) (simp add: is_digit_def)
    show ?thesis unfolding q
      using cq [unfolded q] p1 p2 p3 c c19 p4 d
      by (simp add: parse_hms_def numeral_3_eq_3 nth_or_0_def)
  qed
  have off: "parse_hms s (20 + length f) (25 + length f) = Some ((0, 0, 0, 0), False)"
  proof -
    have ch: "char_at s (20 + length f) = CHR ''0''" "char_at s (21 + length f) = CHR ''0''"
      "char_at s (22 + length f) = CHR '':''" "char_at s (23 + length f) = CHR ''0''"
      "char_at s (24 + length f) = CHR ''0''" "char_at s (25 + length f) = CHR 0x00"
      by (simp_all add: s char_at_append char_at_Cons x)
    then show ?thesis
      by (simp add: parse_hms_def numeral_3_eq_3 numeral_2_eq_2 nth_or_0_def is_digit_def digit_val_def)
  qed
  show ?thesis
    unfolding parse_time_def Let_def tz len using time off cq by simp
qed

lemma fromisoformat_isoformat:
  assumes v: "valid_datetime t" and o: "dt_offset t = Some 0"
  shows "fromisoformat (isoformat_utc t) = Some t"
proof -
  let ?s = "isoformat_utc t"
  let ?f = "if dt_micro t = 0 then [] else CHR ''.'' # fixed_digits 6 (dt_micro t)"
  have dm: "days_in_month y m < 100" for y m by (simp add: days_in_month_def)
  have date: "parse_date ?s 10 = Some (dt_year t, dt_month t, dt_day t)"
    by (rule parse_date_isoformat [of _ _ _ _ "drop 10 ?s"])
       (use v dm [of "dt_year t" "dt_month t"] in \<open>simp_all add: isoformat_utc_def valid_datetime_def drop_append\<close>)
  have time: "parse_time ?s 11 = Some ((dt_hour t, dt_minute t, dt_second t, dt_micro t), Some 0)"
    by (rule parse_time_isoformat [of _ "fixed_digits 4 (dt_year t) @ ''-'' @ fixed_digits 2 (dt_month t) @ ''-''
        @ fixed_digits 2 (dt_day t) @ ''T''" _ _ _ ?f])
       (use v in \<open>simp_all add: isoformat_utc_def valid_datetime_def\<close>)
  have len: "length ?s = 25 + length ?f" by (simp add: isoformat_utc_def)
  have c: "char_at ?s 4 = CHR ''-''" "is_digit (char_at ?s 5)" "?s ! 10 = CHR ''T''"
    by (simp_all add: isoformat_utc_def char_at_append char_at_Cons char_at_fixed_digits nth_append)
  have sep: "find_separator ?s = Some 10"
    using c is_digit_neq [OF c(2)] by (simp add: find_separator_def len)
  have "make_datetime (dt_year t, dt_month t, dt_day t) (dt_hour t, dt_minute t, dt_second t, dt_micro t) (Some 0)
      = Some t"
  proof -
    have "\<lparr>dt_year = dt_year t, dt_month = dt_month t, dt_day = dt_day t, dt_hour = dt_hour t,
        dt_minute = dt_minute t, dt_second = dt_second t, dt_micro = dt_micro t, dt_offset = Some 0\<rparr> = t"
      using o by (cases t) simp
    with v show ?thesis by (simp add: make_datetime_def day_micros_def)
  qed
  with date time c show ?thesis
    by (simp add: fromisoformat_def isoformat_utc_ascii sep len)
qed

end
