(* ===== verification/Contract_Base.thy ===== *)
theory Contract_Base
  imports Sha256 Py_Datetime
begin

text \<open>
  What the contract modules have in common.  Each of them carries its own copy of the field
  checkers \<open>_require_text\<close>, \<open>_require_sha256\<close>, \<open>_require_timestamp\<close>, \<open>_parse_time\<close>,
  \<open>_canonical_time\<close> and \<open>_canonical_text_tuple\<close>; the copies differ in the exception class
  they raise, which is the first parameter here.  The module theories define their own copy
  as an instance.

  The locale \<open>sealed_contract\<close> is the interface every sealed record offers (a constructor
  that validates, a \<open>body_dict\<close>, a digest key, a \<open>from_dict\<close>); what a client may conclude
  from a digest or a parsed record is proved once inside it.
\<close>

section \<open>Field checkers\<close>

definition require_text :: "exn_class \<Rightarrow> json \<Rightarrow> string \<Rightarrow> nat \<Rightarrow> string result" where
  "require_text cls value field maximum =
     (case value of
        JStr s \<Rightarrow>
          if s = [] then raise cls (field @ '' must be a non-empty string'')
          else if maximum < length s then
            raise cls (field @ '' exceeds '' @ show_nat maximum @ '' characters'')
          else if list_ex is_control s then raise cls (field @ '' contains control characters'')
          else Ok s
      | _ \<Rightarrow> raise cls (field @ '' must be a non-empty string''))"

definition require_sha256 :: "exn_class \<Rightarrow> json \<Rightarrow> string \<Rightarrow> string result" where
  "require_sha256 cls value field =
     rbind (require_text cls value field 64) (\<lambda>text'.
       if is_sha256 text' then Ok text'
       else raise cls (field @ '' must be a lowercase SHA-256 digest''))"

text \<open>\<open>text.replace("Z", "+00:00")\<close>.\<close>

definition replace_Z :: "string \<Rightarrow> string" where
  "replace_Z s = concat (map (\<lambda>c. if c = CHR ''Z'' then ''+00:00'' else [c]) s)"

definition parse_aware :: "exn_class \<Rightarrow> json \<Rightarrow> string \<Rightarrow> (string \<times> datetime) result" where
  "parse_aware cls value field =
     rbind (require_text cls value field 64) (\<lambda>text'.
       case fromisoformat (replace_Z text') of
         None \<Rightarrow> raise cls (field @ '' must be an ISO-8601 timestamp'')
       | Some parsed \<Rightarrow>
           if dt_offset parsed = None then raise cls (field @ '' must include a timezone offset'')
           else Ok (text', parsed))"

text \<open>\<open>parsed.astimezone(UTC)\<close>; the OverflowError it can raise is not caught by any caller.\<close>

definition to_utc :: "datetime \<Rightarrow> datetime result" where
  "to_utc t = (case astimezone_utc t of
     None \<Rightarrow> raise PyOverflowError ''date value out of range'' | Some u \<Rightarrow> Ok u)"

definition require_timestamp :: "exn_class \<Rightarrow> json \<Rightarrow> string \<Rightarrow> string result" where
  "require_timestamp cls value field = rbind (parse_aware cls value field) (\<lambda>(text', _). Ok text')"

definition parse_utc :: "exn_class \<Rightarrow> json \<Rightarrow> string \<Rightarrow> datetime result" where
  "parse_utc cls value field = rbind (parse_aware cls value field) (\<lambda>(_, parsed). to_utc parsed)"

definition canonical_time :: "exn_class \<Rightarrow> json \<Rightarrow> string \<Rightarrow> string result" where
  "canonical_time cls value field = rbind (parse_utc cls value field) (\<lambda>t. Ok (isoformat_utc t))"

definition canonical_text_tuple :: "exn_class \<Rightarrow> string list \<Rightarrow> string \<Rightarrow> string list result" where
  "canonical_text_tuple cls values field =
     rbind (rmap (\<lambda>item. require_text cls (JStr item) (field @ '' item'') 256) values) (\<lambda>normalized.
       if sorted_set normalized = normalized then Ok normalized
       else raise cls (field @ '' must be sorted and unique''))"

text \<open>Texts as the checkers accept them.\<close>

definition plain_text :: "nat \<Rightarrow> string \<Rightarrow> bool" where
  "plain_text maximum s \<longleftrightarrow> s \<noteq> [] \<and> length s \<le> maximum \<and> \<not> list_ex is_control s"

lemma require_text_Ok_iff [result_simps]:
  "require_text cls v f m = Inr s \<longleftrightarrow> v = JStr s \<and> plain_text m s"
  by (auto simp: require_text_def plain_text_def split: json.splits)

lemma plain_text_sha256: "is_sha256 s \<Longrightarrow> plain_text 64 s"
  by (simp add: plain_text_def is_sha256_no_control is_sha256_not_Nil is_sha256_def)

lemma require_sha256_Ok_iff [result_simps]:
  "require_sha256 cls v f = Inr s \<longleftrightarrow> v = JStr s \<and> is_sha256 s"
  by (auto simp: require_sha256_def result_simps plain_text_sha256 split: if_splits)

lemma require_text_class: "require_text cls v f m = Inl e \<Longrightarrow> exn_class e = cls"
  by (auto simp: require_text_def split: json.splits if_splits)

lemma require_sha256_class: "require_sha256 cls v f = Inl e \<Longrightarrow> exn_class e = cls"
  by (auto simp: require_sha256_def rbind_Inl_iff dest: require_text_class split: if_splits)

lemma rmap_checker_Ok_iff:
  assumes "\<And>v x. f v = Inr x \<longleftrightarrow> v = JStr x \<and> p x"
  shows "rmap f js = Inr xs \<longleftrightarrow> js = map JStr xs \<and> list_all p xs"
proof (induction js arbitrary: xs)
  case Nil
  then show ?case by auto
next
  case (Cons j js)
  then show ?case by (cases xs) (auto simp: rbind_Ok_iff assms)
qed

lemma rmap_require_text_Ok_iff:
  "rmap (\<lambda>item. require_text cls item f m) js = Inr xs \<longleftrightarrow> js = map JStr xs \<and> list_all (plain_text m) xs"
  by (rule rmap_checker_Ok_iff) (rule require_text_Ok_iff)

lemma rmap_require_sha256_Ok_iff:
  "rmap (\<lambda>item. require_sha256 cls item f) js = Inr xs \<longleftrightarrow> js = map JStr xs \<and> list_all is_sha256 xs"
  by (rule rmap_checker_Ok_iff) (rule require_sha256_Ok_iff)

lemma rmap_require_text_str_Ok_iff:
  "rmap (\<lambda>item. require_text cls (JStr item) f m) ys = Inr xs \<longleftrightarrow> ys = xs \<and> list_all (plain_text m) xs"
proof -
  have "rmap (\<lambda>item. require_text cls (JStr item) f m) ys = rmap (\<lambda>item. require_text cls item f m) (map JStr ys)"
    by (induction ys) simp_all
  then show ?thesis by (simp add: rmap_require_text_Ok_iff)
qed

definition canonical_texts :: "string list \<Rightarrow> bool" where
  "canonical_texts xs \<longleftrightarrow> list_all (plain_text 256) xs \<and> sorted xs \<and> distinct xs"

lemma canonical_text_tuple_Ok_iff [result_simps]:
  "canonical_text_tuple cls xs f = Inr ys \<longleftrightarrow> ys = xs \<and> canonical_texts xs"
  by (auto simp: canonical_text_tuple_def canonical_texts_def rbind_Ok_iff rmap_require_text_str_Ok_iff sorted_set_id_iff
      split: if_splits)

section \<open>Canonical UTC timestamps\<close>

text \<open>A text is canonical when it is what \<open>isoformat\<close> prints for a UTC value.\<close>

definition canonical_utc :: "string \<Rightarrow> datetime \<Rightarrow> bool" where
  "canonical_utc s t \<longleftrightarrow> valid_datetime t \<and> dt_offset t = Some 0 \<and> s = isoformat_utc t"

lemma days_before_year_mono: "a \<le> b \<Longrightarrow> days_before_year a \<le> days_before_year b"
proof (induction b)
  case (Suc b)
  show ?case
  proof (cases "a = Suc b")
    case False
    then have "days_before_year a \<le> days_before_year b" using Suc by simp
    also have "\<dots> \<le> days_before_year (Suc b)"
    proof (cases "b = 0")
      case True
      then show ?thesis by (simp add: days_before_year_def)
    next
      case False
      then show ?thesis using days_before_year_Suc [of b] by simp
    qed
    finally show ?thesis .
  qed simp
qed simp

lemma valid_utc_of_micros:
  assumes "1 \<le> u div day_micros" and "u div day_micros \<le> max_ordinal"
  shows "valid_datetime (utc_of_micros u)" and "dt_offset (utc_of_micros u) = Some 0"
proof -
  let ?n = "nat (u div day_micros)"
  obtain y m d where o: "ord2ymd ?n = (y, m, d)" by (metis prod_cases3)
  have n: "0 < ?n" "?n \<le> 3652059" using assms by (simp_all add: max_ordinal_def)
  note p = ord2ymd_props [OF n(1) o]
  have "y \<le> 9999"
  proof (rule ccontr)
    assume "\<not> y \<le> 9999"
    then have "days_before_year 10000 \<le> days_before_year y" by (intro days_before_year_mono) simp
    moreover have "days_before_year 10000 = 3652059" by (simp add: days_before_year_def)
    ultimately show False using p(7) n(2) by linarith
  qed
  moreover have "nat (u mod day_micros) div 3600000000 < 24"
  proof -
    have "u mod day_micros < 86400000000" "0 \<le> u mod day_micros" by (simp_all add: day_micros_def)
    then have "nat (u mod day_micros) < 24 * 3600000000" by linarith
    then show ?thesis by (rule less_mult_imp_div_less)
  qed
  ultimately show "valid_datetime (utc_of_micros u)"
    using p by (simp add: valid_datetime_def utc_of_micros_def o Let_def)
  show "dt_offset (utc_of_micros u) = Some 0"
    by (simp add: utc_of_micros_def o Let_def)
qed

lemma to_utc_props:
  assumes "valid_datetime t" and "to_utc t = Inr u"
  shows "valid_datetime u" and "dt_offset u = Some 0" and "instant u = instant t"
proof -
  from assms(2) have u: "astimezone_utc t = Some u" by (simp add: to_utc_def split: option.splits)
  show "valid_datetime u" and "dt_offset u = Some 0"
    using u assms(1) by (auto simp: astimezone_utc_def Let_def valid_utc_of_micros split: if_splits)
  show "instant u = instant t" using u by (rule instant_astimezone_utc)
qed

lemma to_utc_id [simp]: "dt_offset t = Some 0 \<Longrightarrow> to_utc t = Inr t"
  by (simp add: to_utc_def astimezone_utc_def)

lemma isoformat_utc_chars:
  assumes "c \<in> set (isoformat_utc t)"
  shows "c \<noteq> CHR ''Z'' \<and> \<not> is_control c"
proof -
  have "c \<in> set (fixed_digits k n) \<Longrightarrow> is_digit c" for k n by (rule is_digit_fixed_digits)
  then have "is_digit c \<or> c \<in> set ''-T:.+00''"
    using assms unfolding isoformat_utc_def by (force split: if_splits)
  then show ?thesis by (auto simp: is_digit_def is_control_def)
qed

lemma replace_Z_id: "CHR ''Z'' \<notin> set s \<Longrightarrow> replace_Z s = s"
  by (induction s) (auto simp: replace_Z_def)

lemma plain_text_isoformat_utc: "plain_text 64 (isoformat_utc t)"
  using isoformat_utc_chars by (auto simp: plain_text_def isoformat_utc_def list_ex_iff)

lemma parse_aware_isoformat:
  "canonical_utc s t \<Longrightarrow> parse_aware cls (JStr s) f = Inr (s, t)"
proof -
  assume c: "canonical_utc s t"
  then have "require_text cls (JStr s) f 64 = Inr s"
    by (simp add: require_text_Ok_iff plain_text_isoformat_utc canonical_utc_def)
  moreover have "replace_Z s = s"
    using c isoformat_utc_chars by (intro replace_Z_id) (auto simp: canonical_utc_def)
  ultimately show ?thesis
    using c fromisoformat_isoformat by (simp add: parse_aware_def canonical_utc_def)
qed

lemma parse_utc_canonical: "canonical_utc s t \<Longrightarrow> parse_utc cls (JStr s) f = Inr t"
  using parse_aware_isoformat [of s t cls f] by (simp add: parse_utc_def canonical_utc_def)

lemma canonical_time_canonical: "canonical_utc s t \<Longrightarrow> canonical_time cls (JStr s) f = Inr s"
  using parse_utc_canonical [of s t cls f] by (simp add: canonical_time_def canonical_utc_def)

lemma parse_aware_valid: "parse_aware cls v f = Inr (s, t) \<Longrightarrow> v = JStr s \<and> valid_datetime t"
  by (auto simp: parse_aware_def rbind_Ok_iff require_text_Ok_iff fromisoformat_valid
      split: option.splits if_splits)

lemma parse_utc_valid:
  assumes "parse_utc cls v f = Inr t"
  shows "valid_datetime t" and "dt_offset t = Some 0"
proof -
  from assms obtain s p where p: "parse_aware cls v f = Inr (s, p)" and u: "to_utc p = Inr t"
    by (auto simp: parse_utc_def rbind_Ok_iff)
  have "valid_datetime p" using parse_aware_valid [OF p] by simp
  from to_utc_props [OF this u] show "valid_datetime t" and "dt_offset t = Some 0" by simp_all
qed

lemma canonical_time_result:
  assumes "canonical_time cls v f = Inr s"
  obtains t where "parse_utc cls v f = Inr t" and "canonical_utc s t"
  using assms parse_utc_valid by (auto simp: canonical_time_def rbind_Ok_iff canonical_utc_def)

lemma canonical_utc_unique: "canonical_utc s t \<Longrightarrow> canonical_utc s u \<Longrightarrow> t = u"
  using fromisoformat_isoformat by (metis canonical_utc_def option.inject)

text \<open>
  The test \<open>value == _parse_time(value).isoformat()\<close> the constructors make, for the value a
  \<open>canonical_time\<close> call returned.
\<close>

lemma canonical_time_fixpoint:
  "canonical_time cls v f = Inr s \<Longrightarrow> canonical_time cls' (JStr s) f' = Inr s"
  by (erule canonical_time_result) (rule canonical_time_canonical)

lemma canonical_time_self_iff:
  "canonical_time cls (JStr s) f = Inr s \<longleftrightarrow> (\<exists>t. canonical_utc s t)"
  using canonical_time_canonical canonical_time_result by metis

lemma parse_utc_str_cases:
  "parse_utc cls (JStr s) f = Inr t \<Longrightarrow> isoformat_utc t = s \<Longrightarrow> canonical_utc s t"
  using parse_utc_valid by (simp add: canonical_utc_def)

text \<open>Midnights of January 2026, the instants the concrete examples use.\<close>

definition sample_t :: "nat \<Rightarrow> datetime" where
  "sample_t d = \<lparr>dt_year = 2026, dt_month = 1, dt_day = d, dt_hour = 0, dt_minute = 0, dt_second = 0,
     dt_micro = 0, dt_offset = Some 0\<rparr>"

definition sample_time :: "nat \<Rightarrow> string" where
  "sample_time d = isoformat_utc (sample_t d)"

lemma sample_canonical: "1 \<le> d \<Longrightarrow> d \<le> 31 \<Longrightarrow> canonical_utc (sample_time d) (sample_t d)"
  by (simp add: canonical_utc_def sample_time_def sample_t_def valid_datetime_def days_in_month_def is_leap_def)

lemma sample_instant:
  "instant (sample_t d) < instant (sample_t e) \<longleftrightarrow> d < e"
  "instant (sample_t d) \<le> instant (sample_t e) \<longleftrightarrow> d \<le> e"
  by (simp_all add: instant_def local_micros_def sample_t_def ymd2ord_def day_micros_def)

lemma sample_parse: "1 \<le> d \<Longrightarrow> d \<le> 31 \<Longrightarrow> parse_utc cls (JStr (sample_time d)) l = Inr (sample_t d)"
  by (rule parse_utc_canonical [OF sample_canonical])

lemma sample_plain: "plain_text 64 (sample_time d)"
  by (simp add: sample_time_def plain_text_isoformat_utc)

lemma sample_no_Z: "CHR ''Z'' \<notin> set (sample_time d)"
  using isoformat_utc_chars unfolding sample_time_def by blast

section \<open>Constructors and parsed objects\<close>

text \<open>A frozen dataclass whose \<open>__post_init__\<close> is a block of checks.\<close>

definition validated :: "unit result list \<Rightarrow> 'a \<Rightarrow> 'a result" where
  "validated checks x = rbind (first_error checks) (\<lambda>_. Ok x)"

lemma validated_Ok_iff [result_simps]:
  "validated checks x = Inr y \<longleftrightarrow> y = x \<and> first_error checks = Inr ()"
  by (auto simp: validated_def rbind_Ok_iff)

lemma first_error_Ok_Nil [result_simps]: "first_error [] = Inr u \<longleftrightarrow> True"
  by simp

lemma rbind_OkE:
  assumes "rbind r f = Inr y"
  obtains x where "r = Inr x" and "f x = Inr y"
  using assms by (auto simp: rbind_Ok_iff)

lemma sort_id_iff [result_simps]: "sort xs = xs \<longleftrightarrow> sorted xs"
  by (metis sorted_sort sorted_sort_id)

lemma first_error_map_discard:
  "first_error (map (\<lambda>x. discard (f x)) xs) = Inr u \<longleftrightarrow> (\<forall>x \<in> set xs. \<exists>y. f x = Inr y)"
  by (auto simp: first_error_Ok_iff discard_Ok_iff)

text \<open>\<open>repr\<close> of a string and of a list of strings, as the f-strings of the error messages print them.\<close>

definition py_repr_char :: "char \<Rightarrow> char \<Rightarrow> string" where
  "py_repr_char quote c =
     (let n = (of_char c :: nat) in
      if c = quote \<or> n = 92 then [CHR 0x5C, c]
      else if n = 9 then [CHR 0x5C, CHR ''t'']
      else if n = 10 then [CHR 0x5C, CHR ''n'']
      else if n = 13 then [CHR 0x5C, CHR ''r'']
      else if n < 32 \<or> (127 \<le> n \<and> n \<le> 160) \<or> n = 173
        then [CHR 0x5C, CHR ''x'', hex_digit (n div 16), hex_digit (n mod 16)]
      else [c])"

definition py_repr_str :: "string \<Rightarrow> string" where
  "py_repr_str s =
     (let quote = (if CHR 0x27 \<in> set s \<and> CHR 0x22 \<notin> set s then CHR 0x22 else CHR 0x27)
      in [quote] @ concat (map (py_repr_char quote) s) @ [quote])"

fun py_join :: "string \<Rightarrow> string list \<Rightarrow> string" where
  "py_join sep [] = []"
| "py_join sep [x] = x"
| "py_join sep (x # y # xs) = x @ sep @ py_join sep (y # xs)"

definition py_repr_list :: "string list \<Rightarrow> string" where
  "py_repr_list xs = ''['' @ py_join '', '' (map py_repr_str xs) @ '']''"

text \<open>\<open>isinstance\<close> tests on a JSON value, with the message of the failing branch.\<close>

definition as_object :: "exn_class \<Rightarrow> string \<Rightarrow> json \<Rightarrow> (string \<times> json) list result" where
  "as_object cls message j = (case j of JObj d \<Rightarrow> Ok d | _ \<Rightarrow> raise cls message)"

definition as_array :: "exn_class \<Rightarrow> string \<Rightarrow> json \<Rightarrow> json list result" where
  "as_array cls message j = (case j of JList xs \<Rightarrow> Ok xs | _ \<Rightarrow> raise cls message)"

definition as_bool :: "exn_class \<Rightarrow> string \<Rightarrow> json \<Rightarrow> bool result" where
  "as_bool cls message j = (case j of JBool b \<Rightarrow> Ok b | _ \<Rightarrow> raise cls message)"

definition as_optional_str :: "exn_class \<Rightarrow> string \<Rightarrow> json \<Rightarrow> string option result" where
  "as_optional_str cls message j =
     (case j of JNull \<Rightarrow> Ok None | JStr s \<Rightarrow> Ok (Some s) | _ \<Rightarrow> raise cls message)"

text \<open>\<open>if set(data) != expected: raise ... missing=...; unknown=...\<close>\<close>

definition check_fields :: "exn_class \<Rightarrow> string \<Rightarrow> string list \<Rightarrow> (string \<times> json) list \<Rightarrow> unit result" where
  "check_fields cls name expected d =
     ensure (set (map fst d) = set expected) cls
       (name @ '' fields mismatch: missing=''
        @ py_repr_list (sorted_set (filter (\<lambda>k. k \<notin> set (map fst d)) expected))
        @ ''; unknown=''
        @ py_repr_list (sorted_set (filter (\<lambda>k. k \<notin> set expected) (map fst d))))"

definition check_bools :: "exn_class \<Rightarrow> string list \<Rightarrow> (string \<times> json) list \<Rightarrow> unit result" where
  "check_bools cls names d =
     first_error (map (\<lambda>k. discard (as_bool cls (k @ '' must be Boolean'') (dget d k))) names)"

text \<open>\<open>data[field]\<close> passed on as a \<open>bool\<close> after \<open>check_bools\<close>.\<close>

definition bool_of :: "json \<Rightarrow> bool" where
  "bool_of j = (case j of JBool b \<Rightarrow> b | _ \<Rightarrow> False)"

lemma as_object_Ok_iff [result_simps]: "as_object cls m j = Inr d \<longleftrightarrow> j = JObj d"
  by (auto simp: as_object_def split: json.splits)

lemma as_array_Ok_iff [result_simps]: "as_array cls m j = Inr xs \<longleftrightarrow> j = JList xs"
  by (auto simp: as_array_def split: json.splits)

lemma as_bool_Ok_iff [result_simps]: "as_bool cls m j = Inr b \<longleftrightarrow> j = JBool b"
  by (auto simp: as_bool_def split: json.splits)

lemma as_optional_str_Ok_iff [result_simps]: "as_optional_str cls m j = Inr x \<longleftrightarrow> j = jopt x"
  by (auto simp: as_optional_str_def split: json.splits option.splits)

lemma check_fields_Ok_iff [result_simps]:
  "check_fields cls name expected d = Inr u \<longleftrightarrow> set (map fst d) = set expected"
  by (simp add: check_fields_def)

lemma bool_of_JBool [simp]: "bool_of (JBool b) = b"
  by (simp add: bool_of_def)

lemma canon_bool_of: "canon j = JBool (bool_of j) \<longleftrightarrow> (\<exists>b. j = JBool b)"
  by (cases j) (auto simp: bool_of_def)

lemma check_bools_Ok_iff [result_simps]:
  "check_bools cls names d = Inr u \<longleftrightarrow> (\<forall>k \<in> set names. canon (dget d k) = JBool (bool_of (dget d k)))"
  unfolding canon_bool_of by (auto simp: check_bools_def first_error_Ok_iff discard_Ok_iff as_bool_Ok_iff)

section \<open>Sealed records\<close>

text \<open>\<open>to_dict\<close>: the body with its own digest under one more key.\<close>

definition sealed_dict :: "string \<Rightarrow> (string \<times> json) list \<Rightarrow> json" where
  "sealed_dict seal b = JObj (b @ [(seal, JStr (canonical_sha256 (JObj b)))])"

lemma dget_snoc: "k \<notin> set (map fst d) \<Longrightarrow> dget (d @ [(k, v)]) k = v"
  by (induction d) auto

lemma dget_in: "distinct (map fst d) \<Longrightarrow> (k, v) \<in> set d \<Longrightarrow> dget d k = v"
  by (simp add: dget_def)

lemma dget_append: "k \<in> set (map fst b) \<Longrightarrow> dget (b @ e) k = dget b k"
  by (induction b) (auto, force)

lemma wf_dget: "wf_json (JObj d) \<Longrightarrow> wf_json (dget d k)"
  by (auto simp: dget_def list_all_iff split: option.split dest: map_of_SomeD)

lemma rmap_id_Ok_iff:
  assumes "\<And>x y. f x = Inr y \<Longrightarrow> y = x"
  shows "rmap f xs = Inr ys \<longleftrightarrow> ys = xs \<and> list_all (\<lambda>x. f x = Inr x) xs"
  using assms by (induction xs arbitrary: ys) (auto simp: rbind_Ok_iff)

lemma canon_values [simp]:
  "canon v = JNull \<longleftrightarrow> v = JNull"
  "canon v = JBool b \<longleftrightarrow> v = JBool b"
  "canon v = JInt i \<longleftrightarrow> v = JInt i"
  "canon v = JStr s \<longleftrightarrow> v = JStr s"
  by (cases v; simp)+

lemma map_canon_strs [simp]: "map canon vs = map JStr xs \<longleftrightarrow> vs = map JStr xs"
  by (induction vs arbitrary: xs) (auto simp: Cons_eq_map_conv)

lemma canon_strs [simp]: "canon v = jstrs xs \<longleftrightarrow> v = jstrs xs"
  by (cases v) auto

lemma canon_opt [simp]: "canon v = jopt x \<longleftrightarrow> v = jopt x"
  by (cases x) auto

text \<open>
  A document has the same canonical form as a sealed record exactly when it has the record's
  keys with the record's values and the record's digest under the seal key.
\<close>

definition sealed_like :: "(string \<times> json) list \<Rightarrow> string \<Rightarrow> (string \<times> json) list \<Rightarrow> bool" where
  "sealed_like d seal b \<longleftrightarrow>
     set (map fst d) = set (map fst b @ [seal]) \<and>
     list_all (\<lambda>kv. canon (dget d (fst kv)) = canon (snd kv)) b \<and>
     dget d seal = JStr (canonical_sha256 (JObj b))"

lemma dget_sealed:
  assumes "distinct (seal # map fst b)" and "(k, v) \<in> set b"
  shows "dget (b @ [(seal, w)]) k = v"
proof -
  have "k \<in> set (map fst b)" using assms(2) by force
  then show ?thesis using assms by (simp add: dget_append dget_in)
qed

lemma sealed_eq_iff:
  assumes d: "distinct (map fst d)" and b: "distinct (seal # map fst b)"
  shows "canon (JObj d) = canon (sealed_dict seal b) \<longleftrightarrow> sealed_like d seal b"
proof -
  let ?e = "b @ [(seal, JStr (canonical_sha256 (JObj b)))]"
  have e: "distinct (map fst ?e)" using b by auto
  have seal: "dget ?e seal = JStr (canonical_sha256 (JObj b))" using b by (simp add: dget_snoc)
  have keys: "set (map fst ?e) = set (map fst b @ [seal])" by auto
  show ?thesis
  proof
    assume "canon (JObj d) = canon (sealed_dict seal b)"
    then have c: "canon (JObj d) = canon (JObj ?e)" by (simp only: sealed_dict_def)
    note k = canon_JObj_eqD(1) [OF c d e] and v = canon_JObj_eqD(2) [OF c d e]
    have "canon (dget d x) = canon w" if xw: "(x, w) \<in> set b" for x w
    proof -
      have "x \<in> set (map fst b)" using xw by force
      then have "x \<in> set (map fst d)" unfolding k by simp
      from v [OF this] dget_sealed [OF b xw] show ?thesis by simp
    qed
    moreover have "seal \<in> set (map fst d)" unfolding k by simp
    from v [OF this] have "dget d seal = JStr (canonical_sha256 (JObj b))" unfolding seal by simp
    ultimately show "sealed_like d seal b"
      using k keys by (auto simp: sealed_like_def list_all_iff)
  next
    assume a: "sealed_like d seal b"
    have "canon (JObj d) = canon (JObj ?e)"
    proof (rule canon_JObj_eqI [OF d e])
      show "set (map fst d) = set (map fst ?e)" using a keys by (simp only: sealed_like_def)
      fix k assume "k \<in> set (map fst d)"
      then consider "k = seal" | v where "(k, v) \<in> set b" using a by (auto simp: sealed_like_def)
      then show "canon (dget d k) = canon (dget ?e k)"
      proof cases
        case 1
        then show ?thesis using a seal by (simp add: sealed_like_def)
      next
        case 2
        then show ?thesis using a dget_sealed [OF b 2] by (auto simp: sealed_like_def list_all_iff)
      qed
    qed
    then show "canon (JObj d) = canon (sealed_dict seal b)" by (simp only: sealed_dict_def)
  qed
qed

lemma canon_sealed_object: "canon j = canon (sealed_dict seal b) \<Longrightarrow> \<exists>d. j = JObj d"
  by (cases j) (auto simp: sealed_dict_def)

lemma canon_JObj_values:
  assumes "canon (JObj b) = canon (JObj c)" and "distinct (map fst b)" and "map fst b = map fst c"
  shows "map (\<lambda>kv. canon (snd kv)) b = map (\<lambda>kv. canon (snd kv)) c"
proof (rule nth_equalityI)
  show len: "length (map (\<lambda>kv. canon (snd kv)) b) = length (map (\<lambda>kv. canon (snd kv)) c)"
    using assms(3) by (metis length_map)
  fix i assume "i < length (map (\<lambda>kv. canon (snd kv)) b)"
  then have i: "i < length b" "i < length c" using len by simp_all
  have k: "fst (b ! i) = fst (c ! i)" using i assms(3) by (metis nth_map)
  have b: "dget b (fst (b ! i)) = snd (b ! i)" by (rule dget_in) (use assms(2) i in simp_all)
  have c: "dget c (fst (c ! i)) = snd (c ! i)" by (rule dget_in) (use assms(2,3) i in simp_all)
  have d: "distinct (map fst c)" using assms(2,3) by simp
  have "fst (b ! i) \<in> set (map fst b)" using i by simp
  from canon_JObj_eqD(2) [OF assms(1,2) d this] b c k
  show "map (\<lambda>kv. canon (snd kv)) b ! i = map (\<lambda>kv. canon (snd kv)) c ! i" using i by simp
qed


locale sealed_contract =
  fixes init :: "'a \<Rightarrow> 'a result"
    and body :: "'a \<Rightarrow> (string \<times> json) list"
    and seal :: string
    and from_dict :: "json \<Rightarrow> 'a result"
  assumes init_id: "init x = Inr y \<Longrightarrow> y = x"
    and body_keys: "distinct (seal # map fst (body x))"
    and body_wf: "init x = Inr x \<Longrightarrow> list_all (\<lambda>kv. wf_json (snd kv)) (body x)"
    and body_same_keys: "map fst (body x) = map fst (body y)"
    and body_values: "init x = Inr x \<Longrightarrow> init y = Inr y \<Longrightarrow>
      map (\<lambda>kv. canon (snd kv)) (body x) = map (\<lambda>kv. canon (snd kv)) (body y) \<Longrightarrow> x = y"
    and reads_iff:
      "wf_json (JObj d) \<Longrightarrow> from_dict (JObj d) = Inr x \<longleftrightarrow> init x = Inr x \<and> sealed_like d seal (body x)"
    and reads_object: "from_dict j = Inr x \<Longrightarrow> \<exists>d. j = JObj d"
begin

text \<open>The documents the reader accepts, and what it returns for them.\<close>

lemma accepts_iff:
  assumes "wf_json j"
  shows "from_dict j = Inr x \<longleftrightarrow> init x = Inr x \<and> canon j = canon (sealed_dict seal (body x))"
proof
  assume f: "from_dict j = Inr x"
  then obtain d where j: "j = JObj d" using reads_object by blast
  with assms have w: "wf_json (JObj d)" by simp
  then have d: "distinct (map fst d)" by simp
  show "init x = Inr x \<and> canon j = canon (sealed_dict seal (body x))"
    using f unfolding j reads_iff [OF w] sealed_eq_iff [OF d body_keys] .
next
  assume r: "init x = Inr x \<and> canon j = canon (sealed_dict seal (body x))"
  then obtain d where j: "j = JObj d" using canon_sealed_object by blast
  with assms have w: "wf_json (JObj d)" by simp
  then have d: "distinct (map fst d)" by simp
  show "from_dict j = Inr x"
    using r unfolding j reads_iff [OF w] sealed_eq_iff [OF d body_keys] .
qed

lemma wf_sealed: "init x = Inr x \<Longrightarrow> wf_json (sealed_dict seal (body x))"
  using body_keys [of x] body_wf [of x] by (auto simp: sealed_dict_def)

lemma roundtrip:
  assumes "init x = Inr y"
  shows "from_dict (sealed_dict seal (body y)) = Inr y"
proof -
  from assms init_id have y: "init y = Inr y" by blast
  with accepts_iff [OF wf_sealed [OF y]] show ?thesis by blast
qed

lemma body_inj:
  assumes "init x = Inr x" and "init y = Inr y" and "canon (JObj (body x)) = canon (JObj (body y))"
  shows "x = y"
proof (rule body_values [OF assms(1,2)], rule canon_JObj_values [OF assms(3)])
  show "distinct (map fst (body x))" using body_keys [of x] by simp
qed (rule body_same_keys)

lemma sealed_inj:
  "init x = Inr x \<Longrightarrow> init y = Inr y \<Longrightarrow>
     canon (sealed_dict seal (body x)) = canon (sealed_dict seal (body y)) \<Longrightarrow> x = y"
proof (rule body_values)
  let ?b = "\<lambda>z. body z @ [(seal, JStr (canonical_sha256 (JObj (body z))))]"
  assume "canon (sealed_dict seal (body x)) = canon (sealed_dict seal (body y))"
  then have "canon (JObj (?b x)) = canon (JObj (?b y))" by (simp only: sealed_dict_def)
  moreover have "distinct (map fst (?b x))" using body_keys [of x] by auto
  moreover have "map fst (?b x) = map fst (?b y)" using body_same_keys [of x y] by simp
  ultimately have "map (\<lambda>kv. canon (snd kv)) (?b x) = map (\<lambda>kv. canon (snd kv)) (?b y)"
    by (rule canon_JObj_values)
  then show "map (\<lambda>kv. canon (snd kv)) (body x) = map (\<lambda>kv. canon (snd kv)) (body y)" by simp
qed

lemma canon_list_iff:
  "map canon js = map (\<lambda>x. canon (sealed_dict seal (body x))) xs \<and> list_all (\<lambda>x. init x = Inr x) xs
    \<longleftrightarrow> rmap from_dict js = Inr xs" if "list_all wf_json js"
  using that
proof (induction js arbitrary: xs)
  case Nil
  then show ?case by auto
next
  case (Cons j js)
  then show ?case
    by (cases xs) (auto simp: rbind_Ok_iff accepts_iff)
qed

lemma digest_binding:
  assumes "init x = Inr x" and "init y = Inr y"
    and "canonical_sha256 (JObj (body x)) = canonical_sha256 (JObj (body y))"
  shows "x = y \<or> sha256_collision (utf8 (dumps (JObj (body x)))) (utf8 (dumps (JObj (body y))))"
  using canonical_sha256_binding [OF assms(3)] body_inj [OF assms(1,2)] by blast

lemma accepted_seal:
  assumes "wf_json (JObj d)" and "from_dict (JObj d) = Inr x"
  shows "dget d seal = JStr (canonical_sha256 (JObj (body x)))"
proof -
  from assms(2) [unfolded reads_iff [OF assms(1)]] show ?thesis by (simp add: sealed_like_def)
qed

text \<open>Two accepted documents with the same seal are the same document, or collide.\<close>

lemma seal_tamper_evident:
  assumes "wf_json (JObj d)" and "from_dict (JObj d) = Inr x"
    and "wf_json (JObj e)" and "from_dict (JObj e) = Inr y"
    and "dget d seal = dget e seal"
  shows "x = y \<and> dumps (JObj d) = dumps (JObj e)
    \<or> sha256_collision (utf8 (dumps (JObj (body x)))) (utf8 (dumps (JObj (body y))))"
proof -
  from accepted_seal [OF assms(1,2)] accepted_seal [OF assms(3,4)] assms(5)
  have "canonical_sha256 (JObj (body x)) = canonical_sha256 (JObj (body y))" by simp
  moreover have "init x = Inr x" using accepts_iff [OF assms(1)] assms(2) by blast
  moreover have "init y = Inr y" using accepts_iff [OF assms(3)] assms(4) by blast
  ultimately have "x = y \<or> sha256_collision (utf8 (dumps (JObj (body x)))) (utf8 (dumps (JObj (body y))))"
    by (intro digest_binding)
  then consider "x = y"
    | "sha256_collision (utf8 (dumps (JObj (body x)))) (utf8 (dumps (JObj (body y))))" by blast
  then show ?thesis
  proof cases
    case 1
    have "canon (JObj d) = canon (sealed_dict seal (body x))"
      using accepts_iff [OF assms(1)] assms(2) by blast
    moreover have "canon (JObj e) = canon (sealed_dict seal (body y))"
      using accepts_iff [OF assms(3)] assms(4) by blast
    ultimately have "dumps (JObj d) = dumps (JObj e)" unfolding dumps_def 1 by (simp only:)
    with 1 show ?thesis by blast
  qed blast
qed

end

end
