(* ===== verification/Spine_Models.thy ===== *)
theory Spine_Models
  imports Contract_Base
begin

text \<open>
  The data of \<open>phios/spine/models.py\<close>, the capability registry of \<open>phios/spine/registry.py\<close>
  and the permission gate of \<open>phios/spine/gate.py\<close>, with \<open>OriginRef\<close>, \<open>AuthorityContext\<close> and
  the canonical digest of \<open>phios/mandala/contracts.py\<close>.
\<close>

section \<open>Models\<close>

record capability =
  cap_id :: string
  cap_name :: string
  cap_description :: string
  cap_permissions :: "string list"
  cap_effects :: "string list"
  cap_risk :: string
  cap_version :: string

definition capability_to_dict :: "capability \<Rightarrow> json" where
  "capability_to_dict c = JObj
     [(''id'', JStr (cap_id c)),
      (''name'', JStr (cap_name c)),
      (''description'', JStr (cap_description c)),
      (''permissions'', jstrs (cap_permissions c)),
      (''effects'', jstrs (cap_effects c)),
      (''risk'', JStr (cap_risk c)),
      (''version'', JStr (cap_version c))]"

record phi_plan =
  plan_capability_id :: string
  plan_payload :: "(string \<times> json) list"
  plan_planner :: string
  plan_planner_version :: string

record permission_decision =
  pd_allowed :: bool
  pd_requested :: "string list"
  pd_granted :: "string list"
  pd_denied :: "string list"
  pd_reason :: string

record execution_provenance =
  ep_schema_version :: string
  ep_plan_id :: string
  ep_plan_state_sha256 :: string
  ep_plan_revision :: int
  ep_transition_index :: int
  ep_source_state_id :: string
  ep_target_state_id :: string
  ep_action_binding_sha256 :: string
  ep_action_lease_sha256 :: "string option"
  ep_authority_epoch_sha256 :: "string option"
  ep_authorization_receipt_sha256 :: "string option"
  ep_lease_verification_sha256 :: "string option"

definition execution_provenance_to_dict :: "execution_provenance \<Rightarrow> json" where
  "execution_provenance_to_dict p = JObj
     [(''schema_version'', JStr (ep_schema_version p)),
      (''plan_id'', JStr (ep_plan_id p)),
      (''plan_state_sha256'', JStr (ep_plan_state_sha256 p)),
      (''plan_revision'', JInt (ep_plan_revision p)),
      (''transition_index'', JInt (ep_transition_index p)),
      (''source_state_id'', JStr (ep_source_state_id p)),
      (''target_state_id'', JStr (ep_target_state_id p)),
      (''action_binding_sha256'', JStr (ep_action_binding_sha256 p)),
      (''action_lease_sha256'', jopt (ep_action_lease_sha256 p)),
      (''authority_epoch_sha256'', jopt (ep_authority_epoch_sha256 p)),
      (''authorization_receipt_sha256'', jopt (ep_authorization_receipt_sha256 p)),
      (''lease_verification_sha256'', jopt (ep_lease_verification_sha256 p))]"

section \<open>Origins and authority contexts\<close>

datatype origin_kind = HUMAN | SUBSYSTEM | TOOL | MODEL | FILE | DEVICE | SERVICE

fun origin_kind_value :: "origin_kind \<Rightarrow> string" where
  "origin_kind_value HUMAN = ''human''"
| "origin_kind_value SUBSYSTEM = ''subsystem''"
| "origin_kind_value TOOL = ''tool''"
| "origin_kind_value MODEL = ''model''"
| "origin_kind_value FILE = ''file''"
| "origin_kind_value DEVICE = ''device''"
| "origin_kind_value SERVICE = ''service''"

record origin_ref =
  or_kind :: origin_kind
  or_identifier :: string

record authority_context =
  ac_ceiling :: "string list"
  ac_grants :: "string list"

definition ac_allows :: "authority_context \<Rightarrow> string \<Rightarrow> bool" where
  "ac_allows a permission \<longleftrightarrow> permission \<in> set (ac_ceiling a) \<and> permission \<in> set (ac_grants a)"

definition ac_to_dict :: "authority_context \<Rightarrow> json" where
  "ac_to_dict a = JObj [(''ceiling'', jstrs (ac_ceiling a)), (''grants'', jstrs (ac_grants a))]"

definition canonical_digest :: "json \<Rightarrow> string" where
  "canonical_digest payload = canonical_sha256 payload"

section \<open>Capability registry\<close>

type_synonym capability_registry = "(string \<times> capability) list"

definition cr_register :: "capability \<Rightarrow> capability_registry \<Rightarrow> capability_registry result" where
  "cr_register c r =
     (if cap_id c \<in> set (map fst r)
      then raise PyValueError (''Capability already registered: '' @ cap_id c)
      else Ok (r @ [(cap_id c, c)]))"

definition cr_get :: "capability_registry \<Rightarrow> string \<Rightarrow> capability result" where
  "cr_get r i =
     (case map_of r i of
        Some c \<Rightarrow> Ok c
      | None \<Rightarrow> raise PyKeyError (''Unknown capability: '' @ i))"

definition cr_list :: "capability_registry \<Rightarrow> capability list" where
  "cr_list r = sort_key cap_id (map snd r)"

text \<open>A registry the operations can build: keys are the capabilities' own ids, each once.\<close>

definition cr_wf :: "capability_registry \<Rightarrow> bool" where
  "cr_wf r \<longleftrightarrow> distinct (map fst r) \<and> (\<forall>(i, c) \<in> set r. cap_id c = i)"

lemma cr_wf_empty: "cr_wf []"
  by (simp add: cr_wf_def)

lemma cr_wf_register: "cr_wf r \<Longrightarrow> cr_register c r = Inr r' \<Longrightarrow> cr_wf r'"
  by (auto simp: cr_wf_def cr_register_def split: if_splits)

lemma map_of_snoc: "map_of (r @ [(k, v)]) i = (case map_of r i of None \<Rightarrow> if i = k then Some v else None | Some x \<Rightarrow> Some x)"
  by (induction r) auto

lemma cr_get_register:
  assumes "cr_register c r = Inr r'"
  shows "cr_get r' i = (if i = cap_id c then Ok c else cr_get r i)"
proof -
  from assms have n: "cap_id c \<notin> set (map fst r)" and r': "r' = r @ [(cap_id c, c)]"
    by (auto simp: cr_register_def split: if_splits)
  then have "map_of r (cap_id c) = None" by (simp add: map_of_eq_None_iff)
  then show ?thesis unfolding r' cr_get_def map_of_snoc by (auto split: option.splits)
qed

lemma cr_get_id: "cr_wf r \<Longrightarrow> cr_get r i = Inr c \<Longrightarrow> cap_id c = i"
  by (auto simp: cr_wf_def cr_get_def split: option.splits dest!: map_of_SomeD)

section \<open>Permission gate\<close>

definition pg_evaluate :: "string list \<Rightarrow> capability \<Rightarrow> permission_decision" where
  "pg_evaluate allowed_permissions c =
     (let requested = cap_permissions c;
          granted = filter (\<lambda>p. p \<in> set allowed_permissions) requested;
          denied = filter (\<lambda>p. p \<notin> set allowed_permissions) requested;
          allowed = (denied = [])
      in \<lparr>pd_allowed = allowed, pd_requested = requested, pd_granted = granted, pd_denied = denied,
          pd_reason = (if allowed then ''All requested permissions are explicitly granted.''
                       else ''Denied by fail-closed policy: '' @ py_join '', '' denied)\<rparr>)"

lemma pg_allowed_iff [simp]:
  "pd_allowed (pg_evaluate a c) \<longleftrightarrow> set (cap_permissions c) \<subseteq> set a"
  by (auto simp: pg_evaluate_def Let_def filter_empty_conv)

lemma pg_denied_iff: "p \<in> set (pd_denied (pg_evaluate a c)) \<longleftrightarrow> p \<in> set (cap_permissions c) \<and> p \<notin> set a"
  by (auto simp: pg_evaluate_def Let_def)

end
