(* ===== verification/Authority_Projection.thy ===== *)
theory Authority_Projection
  imports Spine_Models "HOL-Library.AList"
begin

text \<open>
  \<open>phios/mandala/authority_projection.py\<close>: read-only replay of grant and revoke events under a
  frozen ceiling.  \<open>ap_replay\<close> is the loop that keeps \<open>last_grant\<close>, a dict from permission to
  event (an association list in insertion order), and \<open>applied_event_ids\<close>.
\<close>

datatype authority_event_kind = GRANT | REVOKE

fun event_kind_value :: "authority_event_kind \<Rightarrow> string" where
  "event_kind_value GRANT = ''grant''"
| "event_kind_value REVOKE = ''revoke''"

record authority_event =
  ae_event_id :: string
  ae_sequence :: int
  ae_kind :: authority_event_kind
  ae_permission :: string
  ae_authority_source :: string
  ae_effective_at :: string
  ae_expires_at :: "string option"

definition ap_require_nonempty :: "string \<Rightarrow> string \<Rightarrow> string result" where
  "ap_require_nonempty value label =
     (if strip value = [] then raise AuthorityProjectionError (label @ '' must be a non-empty string'')
      else Ok (strip value))"

definition ap_utc :: "string \<Rightarrow> string \<Rightarrow> datetime result" where
  "ap_utc value label =
     (case fromisoformat value of
        None \<Rightarrow> raise AuthorityProjectionError (label @ '' must be an ISO-8601 timestamp'')
      | Some parsed \<Rightarrow>
          if dt_offset parsed = None
          then raise AuthorityProjectionError (label @ '' must be timezone-aware'')
          else to_utc parsed)"

text \<open>\<open>AuthoritativeAuthorityEvent.__post_init__\<close>.\<close>

definition ae_init :: "authority_event \<Rightarrow> authority_event result" where
  "ae_init e = rbind (first_error
     [discard (ap_require_nonempty (ae_event_id e) ''event_id''),
      discard (ap_require_nonempty (ae_permission e) ''permission''),
      discard (ap_require_nonempty (ae_authority_source e) ''authority_source''),
      ensure (0 \<le> ae_sequence e) AuthorityProjectionError ''sequence must be an integer >= 0'',
      rbind (ap_utc (ae_effective_at e) ''effective_at'') (\<lambda>effective.
        first_error
          [ensure (\<not> (ae_kind e = REVOKE \<and> ae_expires_at e \<noteq> None)) AuthorityProjectionError
             ''revoke events cannot carry expires_at'',
           case ae_expires_at e of None \<Rightarrow> Ok ()
           | Some x \<Rightarrow> rbind (ap_utc x ''expires_at'') (\<lambda>expires.
               ensure (instant effective < instant expires) AuthorityProjectionError
                 ''expires_at must be later than effective_at'')])]) (\<lambda>_. Ok e)"

definition ae_to_dict :: "authority_event \<Rightarrow> json" where
  "ae_to_dict e = JObj
     [(''event_id'', JStr (ae_event_id e)),
      (''sequence'', JInt (ae_sequence e)),
      (''kind'', JStr (event_kind_value (ae_kind e))),
      (''permission'', JStr (ae_permission e)),
      (''authority_source'', JStr (ae_authority_source e)),
      (''effective_at'', JStr (ae_effective_at e)),
      (''expires_at'', jopt (ae_expires_at e))]"

record authority_projection_result =
  ap_observed_at :: string
  ap_ceiling :: "string list"
  ap_grants :: "string list"
  ap_source_event_ids :: "string list"
  ap_active_grant_event_ids :: "string list"
  ap_source_events_sha256 :: string
  ap_projection_sha256 :: string

definition ap_to_authority_context :: "authority_projection_result \<Rightarrow> authority_context" where
  "ap_to_authority_context r = \<lparr>ac_ceiling = ap_ceiling r, ac_grants = ap_grants r\<rparr>"

definition ap_result_to_dict :: "authority_projection_result \<Rightarrow> json" where
  "ap_result_to_dict r = JObj
     [(''observed_at'', JStr (ap_observed_at r)),
      (''ceiling'', jstrs (ap_ceiling r)),
      (''grants'', jstrs (ap_grants r)),
      (''source_event_ids'', jstrs (ap_source_event_ids r)),
      (''active_grant_event_ids'', jstrs (ap_active_grant_event_ids r)),
      (''source_events_sha256'', JStr (ap_source_events_sha256 r)),
      (''projection_sha256'', JStr (ap_projection_sha256 r))]"

text \<open>The first loop of \<open>project\<close>: monotonic times, permissions below the ceiling.\<close>

fun ap_check_order :: "string list \<Rightarrow> datetime option \<Rightarrow> authority_event list \<Rightarrow> unit result" where
  "ap_check_order ceiling prior [] = Ok ()"
| "ap_check_order ceiling prior (event # rest) =
     rbind (ap_utc (ae_effective_at event) ''effective_at'') (\<lambda>effective.
       if (case prior of None \<Rightarrow> False | Some p \<Rightarrow> instant effective < instant p)
       then raise AuthorityProjectionError ''authority event effective_at must be monotonic with sequence''
       else if ae_permission event \<notin> set ceiling
       then raise AuthorityProjectionError ''authority event permission exceeds the frozen ceiling''
       else ap_check_order ceiling (Some effective) rest)"

fun ap_replay :: "datetime \<Rightarrow> (string \<times> authority_event) list \<Rightarrow> string list \<Rightarrow> authority_event list
    \<Rightarrow> ((string \<times> authority_event) list \<times> string list) result" where
  "ap_replay observed last_grant applied [] = Ok (last_grant, applied)"
| "ap_replay observed last_grant applied (event # rest) =
     rbind (ap_utc (ae_effective_at event) ''effective_at'') (\<lambda>effective.
       if instant observed < instant effective then ap_replay observed last_grant applied rest
       else if ae_kind event = REVOKE
       then ap_replay observed (AList.delete (ae_permission event) last_grant) (applied @ [ae_event_id event]) rest
       else ap_replay observed (AList.update (ae_permission event) event last_grant)
              (applied @ [ae_event_id event]) rest)"

fun ap_active :: "datetime \<Rightarrow> (string \<times> authority_event) list \<Rightarrow> (string \<times> authority_event) list result" where
  "ap_active observed [] = Ok []"
| "ap_active observed ((permission, grant) # rest) =
     rbind (case ae_expires_at grant of None \<Rightarrow> Ok False
            | Some x \<Rightarrow> rbind (ap_utc x ''expires_at'') (\<lambda>t. Ok (instant t \<le> instant observed))) (\<lambda>expired.
     rbind (ap_active observed rest) (\<lambda>actives.
       Ok (if expired then actives else (permission, grant) # actives)))"

definition ap_project :: "string list \<Rightarrow> authority_event list \<Rightarrow> string \<Rightarrow> authority_projection_result result" where
  "ap_project ceiling events observed_at =
     rbind (ap_utc observed_at ''observed_at'') (\<lambda>observed.
     rbind (rmap (\<lambda>item. ap_require_nonempty item ''ceiling permission'') ceiling) (\<lambda>items.
     let normalized_ceiling = sorted_set items; ordered = sort_key ae_sequence events in
     rbind (ensure (distinct (map ae_sequence ordered)) AuthorityProjectionError
       ''authority event sequences must be unique'') (\<lambda>_.
     rbind (ap_check_order normalized_ceiling None ordered) (\<lambda>_.
     let source_events_sha256 = canonical_digest (JList (map ae_to_dict ordered)) in
     rbind (ap_replay observed [] [] ordered) (\<lambda>(last_grant, applied).
     rbind (ap_active observed (sort_key fst last_grant)) (\<lambda>actives.
     let grants = map fst actives; active_ids = map (\<lambda>pg. ae_event_id (snd pg)) actives in
     Ok \<lparr>ap_observed_at = isoformat_utc observed, ap_ceiling = normalized_ceiling, ap_grants = grants,
         ap_source_event_ids = applied, ap_active_grant_event_ids = active_ids,
         ap_source_events_sha256 = source_events_sha256,
         ap_projection_sha256 = canonical_digest (JObj
           [(''schema'', JStr ''phios.authority_projection.v0.1''),
            (''observed_at'', JStr (isoformat_utc observed)),
            (''ceiling'', jstrs normalized_ceiling),
            (''grants'', jstrs grants),
            (''source_event_ids'', jstrs applied),
            (''active_grant_event_ids'', jstrs active_ids),
            (''source_events_sha256'', JStr source_events_sha256)])\<rparr>))))))"

section \<open>Lemmas\<close>

text \<open>When an event takes effect, and when a grant has expired.\<close>

definition effective_by :: "datetime \<Rightarrow> authority_event \<Rightarrow> bool" where
  "effective_by observed e \<longleftrightarrow>
     (case ap_utc (ae_effective_at e) ''effective_at'' of Inr t \<Rightarrow> instant t \<le> instant observed | Inl _ \<Rightarrow> False)"

definition unexpired_at :: "datetime \<Rightarrow> authority_event \<Rightarrow> bool" where
  "unexpired_at observed e \<longleftrightarrow>
     (case ae_expires_at e of None \<Rightarrow> True
      | Some x \<Rightarrow> (case ap_utc x ''expires_at'' of Inr t \<Rightarrow> instant observed < instant t | Inl _ \<Rightarrow> False))"

lemma ap_utc_props:
  assumes "ap_utc v f = Inr t"
  shows "valid_datetime t" and "dt_offset t = Some 0"
proof -
  from assms obtain p where p: "fromisoformat v = Some p" and t: "to_utc p = Inr t"
    by (auto simp: ap_utc_def split: option.splits if_splits)
  from to_utc_props [OF fromisoformat_valid [OF p] t]
  show "valid_datetime t" and "dt_offset t = Some 0" by simp_all
qed

lemma ap_check_order_ceiling:
  "ap_check_order ceiling prior es = Inr u \<Longrightarrow> \<forall>e \<in> set es. ae_permission e \<in> set ceiling"
  by (induction ceiling prior es rule: ap_check_order.induct) (auto simp: rbind_Ok_iff split: if_splits)

text \<open>What the replay remembers for a permission: the last effective event, if it is a grant.\<close>

definition last_word :: "datetime \<Rightarrow> string \<Rightarrow> authority_event list \<Rightarrow> authority_event option \<Rightarrow> authority_event option" where
  "last_word observed p es start =
     (let fs = filter (\<lambda>e. ae_permission e = p \<and> effective_by observed e) es in
      if fs = [] then start else if ae_kind (last fs) = REVOKE then None else Some (last fs))"

lemma last_word_Cons:
  "last_word observed p (e # es) start = last_word observed p es
     (if ae_permission e = p \<and> effective_by observed e
      then (if ae_kind e = REVOKE then None else Some e) else start)"
  by (simp add: last_word_def Let_def)

lemma ap_replay_map:
  "ap_replay observed lg ap es = Inr (lg', ap') \<Longrightarrow>
     map_of lg' p = last_word observed p es (map_of lg p)"
proof (induction observed lg ap es rule: ap_replay.induct)
  case (1 observed lg ap)
  then show ?case by (simp add: last_word_def)
next
  case (2 observed lg ap e es)
  from "2.prems" obtain t where t: "ap_utc (ae_effective_at e) ''effective_at'' = Inr t"
    by (auto simp: rbind_Ok_iff)
  consider "instant observed < instant t" | "\<not> instant observed < instant t" "ae_kind e = REVOKE"
    | "\<not> instant observed < instant t" "ae_kind e \<noteq> REVOKE" by blast
  then show ?case
  proof cases
    case 1
    then show ?thesis using "2.IH"(1) [OF 1] "2.prems" t by (simp add: last_word_Cons effective_by_def)
  next
    case c: 2
    then show ?thesis using "2.IH"(2) [OF c] "2.prems" t c
      by (simp add: last_word_Cons effective_by_def delete_conv' fun_upd_def)
  next
    case 3
    then show ?thesis using "2.IH"(3) [OF 3] "2.prems" t 3
      by (simp add: last_word_Cons effective_by_def update_conv')
  qed
qed

lemma ap_replay_applied:
  "ap_replay observed lg ap es = Inr (lg', ap') \<Longrightarrow>
     ap' = ap @ map ae_event_id (filter (effective_by observed) es)"
proof (induction observed lg ap es rule: ap_replay.induct)
  case (2 observed lg ap e es)
  from "2.prems" obtain t where t: "ap_utc (ae_effective_at e) ''effective_at'' = Inr t"
    by (auto simp: rbind_Ok_iff)
  then show ?case using "2.IH" "2.prems"
    by (auto simp: effective_by_def split: if_splits)
qed simp

lemma ap_replay_distinct:
  "ap_replay observed lg ap es = Inr (lg', ap') \<Longrightarrow> distinct (map fst lg) \<Longrightarrow> distinct (map fst lg')"
proof (induction observed lg ap es rule: ap_replay.induct)
  case (2 observed lg ap e es)
  then show ?case
    by (auto simp: rbind_Ok_iff distinct_update distinct_delete split: if_splits)
qed simp

lemma ap_active_filter:
  "ap_active observed pgs = Inr actives \<Longrightarrow> actives = filter (\<lambda>pg. unexpired_at observed (snd pg)) pgs"
proof (induction observed pgs arbitrary: actives rule: ap_active.induct)
  case (2 observed p g rest)
  then show ?case
    by (cases "ae_expires_at g") (auto simp: rbind_Ok_iff unexpired_at_def not_le)
qed simp

text \<open>Everything \<open>ap_project\<close> computed, from its result.\<close>

lemma ap_project_dest:
  assumes "ap_project ceiling events observed_at = Inr r"
  obtains observed last_grant where
    "ap_utc observed_at ''observed_at'' = Inr observed" and
    "ap_ceiling r = sorted_set (map strip ceiling)" and
    "distinct (map ae_sequence events)" and
    "\<forall>e \<in> set events. ae_permission e \<in> set (ap_ceiling r)" and
    "ap_replay observed [] [] (sort_key ae_sequence events) = Inr (last_grant, ap_source_event_ids r)" and
    "ap_grants r = map fst (filter (\<lambda>pg. unexpired_at observed (snd pg)) (sort_key fst last_grant))" and
    "ap_active_grant_event_ids r
       = map (\<lambda>pg. ae_event_id (snd pg)) (filter (\<lambda>pg. unexpired_at observed (snd pg)) (sort_key fst last_grant))" and
    "ap_observed_at r = isoformat_utc observed"
proof -
  have items: "items = map strip ceiling"
    if "rmap (\<lambda>item. ap_require_nonempty item ''ceiling permission'') ceiling = Inr items" for items
    using that by (induction ceiling arbitrary: items)
      (auto simp: rbind_Ok_iff ap_require_nonempty_def split: if_splits)
  have dist: "distinct (map ae_sequence (sort_key ae_sequence events)) = distinct (map ae_sequence events)"
    by (simp add: distinct_map)
  show thesis
    using assms unfolding ap_project_def Let_def
  proof (elim rbind_OkE, goal_cases)
    case (1 observed items _ _ lg_applied)
    obtain lg applied where lga: "lg_applied = (lg, applied)" by (cases lg_applied)
    from 1(6) [unfolded lga prod.case] obtain actives where act: "ap_active observed (sort_key fst lg) = Inr actives"
      and r: "ap_observed_at r = isoformat_utc observed" "ap_ceiling r = sorted_set items"
        "ap_grants r = map fst actives" "ap_source_event_ids r = applied"
        "ap_active_grant_event_ids r = map (\<lambda>pg. ae_event_id (snd pg)) actives"
      by (elim rbind_OkE) auto
    show thesis
      by (rule that [of observed lg])
        (use 1 r lga items [OF 1(2)] ap_active_filter [OF act] ap_check_order_ceiling [OF 1(4)] dist in simp_all)
  qed
qed

text \<open>The last element of a strictly sorted list is its maximum.\<close>

lemma last_iff_max:
  assumes "sorted (map f fs)" and "distinct (map f fs)" and "fs \<noteq> []"
  shows "e = last fs \<longleftrightarrow> e \<in> set fs \<and> (\<forall>x \<in> set fs. f x \<le> (f e :: int))"
proof -
  have m: "\<forall>x \<in> set fs. f x \<le> f (last fs)"
    using assms(1,3) by (induction fs rule: rev_induct) (auto simp: sorted_append)
  have inj: "inj_on f (set fs)" using assms(2) by (simp add: distinct_map)
  show ?thesis
    using m assms(3) inj by (metis antisym inj_onD last_in_set)
qed

lemma sorted_distinct_sort_key:
  assumes "distinct (map f xs)"
  shows "sorted (map f (filter p (sort_key f xs)))" and "distinct (map f (filter p (sort_key f xs)))"
proof -
  show "sorted (map f (filter p (sort_key f xs)))" by (rule sorted_filter) simp
  have "distinct (map f (sort_key f xs))" using assms by (simp add: distinct_map)
  then show "distinct (map f (filter p (sort_key f xs)))" by (rule distinct_map_filter)
qed

definition governs :: "datetime \<Rightarrow> authority_event list \<Rightarrow> string \<Rightarrow> authority_event \<Rightarrow> bool" where
  "governs observed events p e \<longleftrightarrow>
     e \<in> set events \<and> ae_permission e = p \<and> effective_by observed e \<and>
     (\<forall>e' \<in> set events. ae_permission e' = p \<and> effective_by observed e' \<longrightarrow> ae_sequence e' \<le> ae_sequence e)"

lemma last_word_governs:
  assumes "distinct (map ae_sequence events)"
  shows "last_word observed p (sort_key ae_sequence events) None = Some e
    \<longleftrightarrow> governs observed events p e \<and> ae_kind e = GRANT"
proof -
  let ?fs = "filter (\<lambda>e. ae_permission e = p \<and> effective_by observed e) (sort_key ae_sequence events)"
  have in_fs: "x \<in> set ?fs \<longleftrightarrow> x \<in> set events \<and> ae_permission x = p \<and> effective_by observed x" for x
    by auto
  show ?thesis
  proof (cases "?fs = []")
    case True
    then have "\<not> governs observed events p e" using in_fs unfolding governs_def by (metis empty_iff list.set(1))
    with True show ?thesis by (simp add: last_word_def)
  next
    case False
    have pick: "(if P l then None else Some l) = Some e \<longleftrightarrow> e = l \<and> \<not> P e"
      for P :: "authority_event \<Rightarrow> bool" and l by auto
    have kind: "ae_kind e \<noteq> REVOKE \<longleftrightarrow> ae_kind e = GRANT" by (cases "ae_kind e") auto
    have "last_word observed p (sort_key ae_sequence events) None = Some e
        \<longleftrightarrow> e = last ?fs \<and> ae_kind e \<noteq> REVOKE"
      unfolding last_word_def Let_def if_not_P [OF False]
      by (rule pick [of "\<lambda>x. ae_kind x = REVOKE"])
    also have "e = last ?fs \<longleftrightarrow> governs observed events p e"
      unfolding last_iff_max [OF sorted_distinct_sort_key [OF assms] False] Ball_def in_fs governs_def
      by (simp only: imp_conjL conj_assoc)
    finally show ?thesis unfolding kind .
  qed
qed

lemma ap_grants_governed:
  assumes r: "ap_project ceiling events observed_at = Inr r" and o: "ap_utc observed_at ''observed_at'' = Inr observed"
  shows "p \<in> set (ap_grants r) \<longleftrightarrow> (\<exists>e. governs observed events p e \<and> ae_kind e = GRANT \<and> unexpired_at observed e)"
    and "sorted (ap_grants r)" and "distinct (ap_grants r)"
proof -
  from ap_project_dest [OF r] obtain lg where d: "distinct (map ae_sequence events)"
    and lg: "ap_replay observed [] [] (sort_key ae_sequence events) = Inr (lg, ap_source_event_ids r)"
    and g: "ap_grants r = map fst (filter (\<lambda>pg. unexpired_at observed (snd pg)) (sort_key fst lg))"
    using o by (metis sum.inject(2))
  have k: "distinct (map fst lg)" using ap_replay_distinct [OF lg] by simp
  show "sorted (ap_grants r)" "distinct (ap_grants r)"
    unfolding g using sorted_distinct_sort_key [OF k] by blast+
  have "p \<in> set (ap_grants r) \<longleftrightarrow> (\<exists>e. map_of lg p = Some e \<and> unexpired_at observed e)"
    unfolding g by (auto simp: map_of_eq_Some_iff [OF k] image_iff)
  also have "map_of lg p = last_word observed p (sort_key ae_sequence events) None"
    using ap_replay_map [OF lg, of p] by simp
  finally show "p \<in> set (ap_grants r) \<longleftrightarrow> (\<exists>e. governs observed events p e \<and> ae_kind e = GRANT \<and> unexpired_at observed e)"
    unfolding last_word_governs [OF d] by blast
qed

text \<open>The replay does not depend on the order in which the events are supplied.\<close>

lemma sort_key_perm:
  assumes "mset xs = mset ys" and "distinct (map f xs)"
  shows "sort_key f xs = sort_key f ys"
proof (rule sort_key_inj_key_eq)
  show "mset xs = mset (sort_key f ys)" using assms(1) by simp
  show "inj_on f (set xs)" using assms(2) by (simp add: distinct_map)
qed simp

lemma ap_project_perm:
  assumes "mset events = mset events'"
  shows "ap_project ceiling events observed_at = ap_project ceiling events' observed_at"
proof -
  have *: "distinct (map ae_sequence (sort_key ae_sequence es)) \<longleftrightarrow> distinct (map ae_sequence es)" for es
    by (simp add: distinct_map)
  have d: "distinct (map ae_sequence events) \<longleftrightarrow> distinct (map ae_sequence events')"
    by (metis assms mset_eq_imp_distinct_iff mset_map)
  show ?thesis
  proof (cases "distinct (map ae_sequence events)")
    case True
    then show ?thesis using sort_key_perm [OF assms True] by (simp add: ap_project_def)
  next
    case False
    then show ?thesis using d by (simp add: ap_project_def * Let_def ensure_def)
  qed
qed

lemma ap_utc_canonical: "canonical_utc s t \<Longrightarrow> ap_utc s f = Inr t"
  using fromisoformat_isoformat by (simp add: ap_utc_def canonical_utc_def)

text \<open>A history used by the examples: read is granted and revoked, artifact.write is granted until day 6.\<close>

definition sample_events :: "authority_event list" where
  "sample_events =
     [\<lparr>ae_event_id = ''e2'', ae_sequence = 2, ae_kind = REVOKE, ae_permission = ''read'',
       ae_authority_source = ''operator'', ae_effective_at = sample_time 3, ae_expires_at = None\<rparr>,
      \<lparr>ae_event_id = ''e0'', ae_sequence = 0, ae_kind = GRANT, ae_permission = ''read'',
       ae_authority_source = ''operator'', ae_effective_at = sample_time 1, ae_expires_at = None\<rparr>,
      \<lparr>ae_event_id = ''e1'', ae_sequence = 1, ae_kind = GRANT, ae_permission = ''artifact.write'',
       ae_authority_source = ''operator'', ae_effective_at = sample_time 2, ae_expires_at = Some (sample_time 6)\<rparr>]"

lemma sample_ap_utc: "1 \<le> d \<Longrightarrow> d \<le> 31 \<Longrightarrow> ap_utc (sample_time d) l = Inr (sample_t d)"
  by (rule ap_utc_canonical [OF sample_canonical])

lemma sample_project:
  "d = 4 \<or> d = 5 \<Longrightarrow> \<exists>r. ap_project [''artifact.write'', ''read''] sample_events (sample_time d) = Inr r
     \<and> ap_ceiling r = [''artifact.write'', ''read''] \<and> ap_grants r = [''artifact.write'']
     \<and> ap_active_grant_event_ids r = [''e1''] \<and> ap_source_event_ids r = [''e0'', ''e1'', ''e2'']
     \<and> ap_observed_at r = sample_time d \<and> is_sha256 (ap_source_events_sha256 r)
     \<and> is_sha256 (ap_projection_sha256 r)"
  by (auto simp: ap_project_def sample_events_def sample_ap_utc sample_instant Let_def ap_require_nonempty_def
      sorted_set_def strip_def is_space_def canonical_digest_def sample_time_def [symmetric])

section \<open>Properties\<close>

text \<open>C35: A permission is in the projected grants exactly when the last event on it that is
  effective at the observation instant is a grant that has not expired: later events and later
  expiries never count, a revocation removes the permission until it is granted again.\<close>

theorem projected_grant_iff:
  assumes "ap_project ceiling events observed_at = Inr r"
    and "ap_utc observed_at ''observed_at'' = Inr observed"
  shows "p \<in> set (ap_grants r) \<longleftrightarrow>
    (\<exists>e \<in> set events. ae_permission e = p \<and> ae_kind e = GRANT \<and> effective_by observed e \<and> unexpired_at observed e \<and>
      (\<forall>e' \<in> set events. ae_permission e' = p \<and> effective_by observed e' \<longrightarrow> ae_sequence e' \<le> ae_sequence e))"
  unfolding ap_grants_governed(1) [OF assms] governs_def by blast

theorem projected_grant_iff_witness:
  "\<exists>r. ap_project [''artifact.write'', ''read''] sample_events (sample_time 4) = Inr r \<and>
     (''read'' \<in> set (ap_grants r) \<longleftrightarrow>
       (\<exists>e \<in> set sample_events. ae_permission e = ''read'' \<and> ae_kind e = GRANT \<and> effective_by (sample_t 4) e \<and>
         unexpired_at (sample_t 4) e \<and> (\<forall>e' \<in> set sample_events.
           ae_permission e' = ''read'' \<and> effective_by (sample_t 4) e' \<longrightarrow> ae_sequence e' \<le> ae_sequence e)))"
proof -
  obtain r where "ap_project [''artifact.write'', ''read''] sample_events (sample_time 4) = Inr r"
    using sample_project [of 4] by auto
  from projected_grant_iff [OF this sample_ap_utc] this show ?thesis by auto
qed

text \<open>Replay cannot create authority: the grants are a sorted, duplicate-free sublist of the
  normalised ceiling, and every applied event was supplied and is effective at the observation.\<close>

theorem projection_within_ceiling:
  assumes "ap_project ceiling events observed_at = Inr r"
  shows "set (ap_grants r) \<subseteq> strip ` set ceiling \<and> sorted (ap_grants r) \<and> distinct (ap_grants r)
    \<and> ap_ceiling r = sorted_set (map strip ceiling)
    \<and> (\<forall>i \<in> set (ap_active_grant_event_ids r). i \<in> set (ap_source_event_ids r))
    \<and> (\<exists>observed. ap_utc observed_at ''observed_at'' = Inr observed \<and>
         set (ap_source_event_ids r) = ae_event_id ` {e \<in> set events. effective_by observed e})"
proof -
  obtain observed lg where o: "ap_utc observed_at ''observed_at'' = Inr observed"
    and c: "ap_ceiling r = sorted_set (map strip ceiling)" and d: "distinct (map ae_sequence events)"
    and perms: "\<forall>e \<in> set events. ae_permission e \<in> set (ap_ceiling r)"
    and lg: "ap_replay observed [] [] (sort_key ae_sequence events) = Inr (lg, ap_source_event_ids r)"
    and ids: "ap_active_grant_event_ids r
       = map (\<lambda>pg. ae_event_id (snd pg)) (filter (\<lambda>pg. unexpired_at observed (snd pg)) (sort_key fst lg))"
    using ap_project_dest [OF assms] by metis
  note g = ap_grants_governed [OF assms o]
  have src: "set (ap_source_event_ids r) = ae_event_id ` {e \<in> set events. effective_by observed e}"
    using ap_replay_applied [OF lg] by auto
  have "set (ap_grants r) \<subseteq> strip ` set ceiling"
    using g(1) perms unfolding c governs_def by auto
  moreover have "i \<in> set (ap_source_event_ids r)" if "i \<in> set (ap_active_grant_event_ids r)" for i
  proof -
    from that obtain p e where e: "(p, e) \<in> set lg" "i = ae_event_id e" unfolding ids by auto
    have "distinct (map fst lg)" using ap_replay_distinct [OF lg] by simp
    with e have "map_of lg p = Some e" by simp
    then have "governs observed events p e"
      using ap_replay_map [OF lg, of p] last_word_governs [OF d] by simp
    then show ?thesis unfolding src e(2) governs_def by auto
  qed
  ultimately show ?thesis using g(2,3) c o src by blast
qed

theorem projection_within_ceiling_witness:
  "\<exists>r. ap_project [''artifact.write'', ''read''] sample_events (sample_time 4) = Inr r \<and>
     set (ap_grants r) \<subseteq> strip ` {''artifact.write'', ''read''}"
  using sample_project [of 4] projection_within_ceiling [of "[''artifact.write'', ''read'']" sample_events "sample_time 4"]
  by fastforce

text \<open>The projection depends on the set of events, not on the order in which they are supplied.\<close>

theorem projection_order_independent:
  assumes "mset events = mset events'"
  shows "ap_project ceiling events observed_at = ap_project ceiling events' observed_at"
  using assms by (rule ap_project_perm)

theorem projection_order_independent_witness:
  "ap_project [''artifact.write'', ''read''] sample_events (sample_time 4)
     = ap_project [''artifact.write'', ''read''] (rev sample_events) (sample_time 4)"
  by (rule projection_order_independent) simp

end
