(* ===== verification/Zulu_Time.thy ===== *)
theory Zulu_Time
  imports Contract_Base
begin

text \<open>
  Two readings of one timestamp.  The contract modules replace every \<open>Z\<close> by \<open>+00:00\<close> before they call
  \<open>fromisoformat\<close>; the authority projection calls it on the text as it is.  Where both answer, they
  answer the same value (\<open>replace_Z_same_time\<close>): a \<open>Z\<close> the parser accepts is either the separator of date and
  time, and then the replaced text does not parse, or it ends the text.
\<close>

section \<open>Two texts that agree up to a position\<close>

text \<open>\<open>z\<close> has the characters of \<open>s\<close> before position \<open>n\<close>, and both have a zone character there.\<close>

definition zone_at :: "nat \<Rightarrow> string \<Rightarrow> string \<Rightarrow> bool" where
  "zone_at n s z \<longleftrightarrow> (\<forall>i < n. char_at z i = char_at s i) \<and> tz_char (char_at s n) \<and> tz_char (char_at z n)"

lemma zone_atD: "zone_at n s z \<Longrightarrow> i < n \<Longrightarrow> char_at z i = char_at s i"
  by (simp add: zone_at_def)

lemma zone_no_digit: "zone_at n s z \<Longrightarrow> \<not> is_digit (char_at s n) \<and> \<not> is_digit (char_at z n)"
  using is_digit_not_tz by (auto simp: zone_at_def)

lemma tz_char_facts: "tz_char c \<Longrightarrow> c \<noteq> CHR 0x00 \<and> c \<noteq> CHR '':'' \<and> c \<noteq> CHR ''.'' \<and> c \<noteq> CHR '',''"
  by (auto simp: tz_char_def)

lemma zone_length: "zone_at n s z \<Longrightarrow> n < length s \<and> n < length z"
  by (auto simp: zone_at_def char_at_def tz_char_def split: if_splits)

lemma zone_digits:
  assumes "zone_at n s z" and "p \<le> n"
  shows "parse_digits z k p v = parse_digits s k p v"
  using assms(2)
proof (induction k arbitrary: p v)
  case (Suc k)
  then show ?case using zone_no_digit [OF assms(1)] zone_atD [OF assms(1), of p]
    by (cases "p = n") simp_all
qed simp

lemma parse_digits_stop:
  "parse_digits s k p v = Some (w, q) \<Longrightarrow> q = p + k \<and> (\<forall>i. p \<le> i \<longrightarrow> i < q \<longrightarrow> is_digit (char_at s i))"
proof (induction k arbitrary: p v)
  case (Suc k)
  then have d: "is_digit (char_at s p)" and r: "parse_digits s k (Suc p) (v * 10 + digit_val (char_at s p)) = Some (w, q)"
    by (simp_all split: if_splits)
  from Suc.IH [OF r] have "q = Suc p + k \<and> (\<forall>i. Suc p \<le> i \<longrightarrow> i < q \<longrightarrow> is_digit (char_at s i))" .
  with d show ?case by (metis Suc_leI add_Suc_right add_Suc_shift le_neq_implies_less)
qed simp

lemma zone_digits_stop:
  assumes "zone_at n s z" and "p \<le> n" and "parse_digits s k p v = Some (w, q)"
  shows "q \<le> n"
  using parse_digits_stop [OF assms(3)] zone_no_digit [OF assms(1)] assms(2) by (meson linorder_not_le)

lemma zone_digits_end:
  assumes "zone_at n s z" and "p \<le> n"
  shows "digits_end z p = digits_end s p \<and> digits_end s p \<le> n"
  using assms(2)
proof (induction "n - p" arbitrary: p)
  case 0
  then show ?case using zone_no_digit [OF assms(1)]
    by (subst (1 2 3) digits_end.simps) simp
next
  case (Suc m)
  then have p: "p < n" by simp
  have IH: "digits_end z (Suc p) = digits_end s (Suc p) \<and> digits_end s (Suc p) \<le> n" using Suc by simp
  show ?case
    using IH p zone_atD [OF assms(1) p] zone_length [OF assms(1)] by (subst (1 2 3) digits_end.simps) simp
qed

lemma zone_tz_position:
  assumes "zone_at n s z" and "p \<le> n"
  shows "tz_position z p = tz_position s p \<and> tz_position s p \<le> n"
  using assms(2)
proof (induction "n - p" arbitrary: p)
  case 0
  then show ?case using assms(1) by (subst (1 2 3) tz_position.simps) (auto simp: zone_at_def tz_char_def)
next
  case (Suc m)
  then have p: "p < n" by simp
  have IH: "tz_position z (Suc p) = tz_position s (Suc p) \<and> tz_position s (Suc p) \<le> n" using Suc by simp
  show ?case
    using IH p zone_atD [OF assms(1) p] zone_length [OF assms(1)] by (subst (1 2 3) tz_position.simps) simp
qed

lemma tz_position_tz: "tz_position s p < length s \<Longrightarrow> p \<le> tz_position s p \<and> tz_char (char_at s (tz_position s p))"
proof (induction s p rule: tz_position.induct)
  case (1 s p)
  show ?case
  proof (cases "char_at s p \<in> {CHR ''+'', CHR ''-'', CHR ''Z''}")
    case True
    then show ?thesis by (subst (1 2) tz_position.simps) (simp add: tz_char_def)
  next
    case False
    with 1 show ?thesis by (subst (1 2) tz_position.simps, subst (asm) (2) tz_position.simps) (auto split: if_splits)
  qed
qed

section \<open>Fields of a time\<close>

lemma zone_hms_fields:
  assumes "zone_at n s z" and "p \<le> n"
  shows "hms_fields z n k sep vs p = hms_fields s n k sep vs p \<and>
    (\<forall>ws q. hms_fields s n k sep vs p = HmsFraction ws q \<longrightarrow> q \<le> n)"
  using assms(2)
proof (induction k arbitrary: sep vs p)
  case (Suc k)
  show ?case
  proof (cases "parse_digits s 2 p 0")
    case None
    then show ?thesis using zone_digits [OF assms(1) Suc.prems] by simp
  next
    case (Some vq)
    obtain v q where vq: "vq = (v, q)" by (cases vq)
    have q: "q \<le> n" using zone_digits_stop [OF assms(1) Suc.prems] Some vq by simp
    show ?thesis
    proof (cases "q = n")
      case True
      then show ?thesis using Some vq zone_digits [OF assms(1) Suc.prems] assms(1)
        by (auto simp: zone_at_def Let_def dest: tz_char_facts)
    next
      case False
      then have "q < n" using q by simp
      then show ?thesis
        using Some vq zone_digits [OF assms(1) Suc.prems] zone_atD [OF assms(1), of q] Suc.IH [of "Suc q"] Suc.IH [of q]
        by (simp add: Let_def)
    qed
  qed
qed (use assms(2) in simp)

lemma zone_parse_hms:
  assumes "zone_at n s z" and "p \<le> n"
  shows "parse_hms z p n = parse_hms s p n"
proof (cases "hms_fields s n 3 True [] p")
  case (HmsFraction vs q)
  then have q: "q \<le> n" using zone_hms_fields [OF assms] by blast
  have "(char_at z (digits_end z q') \<noteq> CHR 0x00) = (char_at s (digits_end s q') \<noteq> CHR 0x00)"
    if "parse_digits s (min 6 (n - q)) q 0 = Some (f, q')" for f q'
  proof -
    have "q' \<le> n" by (rule zone_digits_stop [OF assms(1) q that])
    note d = zone_digits_end [OF assms(1) this]
    show ?thesis
    proof (cases "digits_end s q' = n")
      case True
      then show ?thesis using d assms(1) tz_char_facts by (simp add: zone_at_def)
    next
      case False
      then show ?thesis using d zone_atD [OF assms(1), of "digits_end s q'"] by simp
    qed
  qed
  then show ?thesis
    using HmsFraction zone_hms_fields [OF assms, of 3 True "[]"] zone_digits [OF assms(1) q]
    by (auto simp: parse_hms_def Let_def split: option.splits)
qed (use zone_hms_fields [OF assms, of 3 True "[]"] in \<open>simp_all add: parse_hms_def\<close>)

text \<open>A field list that reaches the end of the text consists of digits and separators.\<close>

definition time_char :: "char \<Rightarrow> bool" where
  "time_char c \<longleftrightarrow> is_digit c \<or> c \<in> {CHR '':'', CHR ''.'', CHR '',''}"

lemma time_char_not_tz: "time_char c \<Longrightarrow> \<not> tz_char c"
  using is_digit_not_tz by (auto simp: time_char_def tz_char_def)

definition time_chars :: "string \<Rightarrow> nat \<Rightarrow> nat \<Rightarrow> bool" where
  "time_chars s p q \<longleftrightarrow> (\<forall>i. p \<le> i \<longrightarrow> i < q \<longrightarrow> time_char (char_at s i))"

lemma time_chars_digits: "parse_digits s k p v = Some (w, q) \<Longrightarrow> time_chars s p q \<and> p \<le> q"
  using parse_digits_stop [of s k p v w q] by (auto simp: time_chars_def time_char_def)

lemma time_chars_trans: "time_chars s p q \<Longrightarrow> time_chars s q r \<Longrightarrow> time_chars s p r"
  by (auto simp: time_chars_def not_le [symmetric])

lemma time_chars_Suc: "time_chars s p q \<Longrightarrow> time_char (char_at s q) \<Longrightarrow> time_chars s p (Suc q)"
  by (auto simp: time_chars_def less_Suc_eq)

lemma time_chars_digits_end: "time_chars s p (digits_end s p)"
proof (induction s p rule: digits_end.induct)
  case (1 s p)
  show ?case
  proof (cases "p < length s \<and> is_digit (char_at s p)")
    case True
    then have "time_chars s (Suc p) (digits_end s (Suc p))" using 1 by simp
    moreover have "time_chars s p (Suc p)" using True by (auto simp: time_chars_def time_char_def less_Suc_eq)
    ultimately have "time_chars s p (digits_end s (Suc p))" using time_chars_trans by blast
    then show ?thesis using True by (subst digits_end.simps) simp
  next
    case False
    then show ?thesis by (subst digits_end.simps) (auto simp: time_chars_def)
  qed
qed

text \<open>What a field list that succeeded says of the characters from \<open>p\<close> on.\<close>

fun covered :: "string \<Rightarrow> nat \<Rightarrow> hms_state \<Rightarrow> bool" where
  "covered s p HmsBad = True"
| "covered s p (HmsDone vs rest) = (rest \<or> (\<exists>q. time_chars s p q \<and> char_at s q = CHR 0x00))"
| "covered s p (HmsFraction vs q) = time_chars s p q"

lemma covered_trans: "time_chars s p q \<Longrightarrow> covered s q st \<Longrightarrow> covered s p st"
  by (cases st) (auto intro: time_chars_trans)

lemma hms_fields_covered: "covered s p (hms_fields s e k sep vs p)"
proof (induction k arbitrary: sep vs p)
  case 0
  then show ?case by (simp add: time_chars_def)
next
  case (Suc k)
  show ?case
  proof (cases "parse_digits s 2 p 0")
    case (Some vq)
    obtain v q where vq: "vq = (v, q)" by (cases vq)
    have t: "time_chars s p q" using time_chars_digits Some vq by blast
    have c: "time_chars s p (Suc q)" if "char_at s q = CHR '':'' \<or> char_at s q = CHR ''.'' \<or> char_at s q = CHR '',''"
      using time_chars_Suc [OF t] that by (simp add: time_char_def)
    define sep' where "sep' \<longleftrightarrow> (if vs = [] then char_at s q = CHR '':'' else sep)"
    have "hms_fields s e (Suc k) sep vs p =
        (if e \<le> Suc q then HmsDone (vs @ [v]) (char_at s q \<noteq> CHR 0x00)
         else if sep' \<and> char_at s q = CHR '':'' then hms_fields s e k sep' (vs @ [v]) (Suc q)
         else if char_at s q = CHR ''.'' \<or> char_at s q = CHR '','' then HmsFraction (vs @ [v]) (Suc q)
         else if \<not> sep' then hms_fields s e k sep' (vs @ [v]) q
         else HmsBad)"
      using Some vq by (simp add: Let_def sep'_def del: parse_digits.simps)
    then show ?thesis
      using t c covered_trans [OF c Suc.IH] covered_trans [OF t Suc.IH] by auto
  qed simp
qed

lemma parse_hms_chars:
  assumes "parse_hms s p e = Some (x, False)"
  obtains q where "time_chars s p q" and "char_at s q = CHR 0x00"
proof (cases "hms_fields s e 3 True [] p")
  case HmsBad
  then show thesis using assms by (simp add: parse_hms_def)
next
  case (HmsDone vs rest)
  then show thesis using assms hms_fields_covered [of s p e 3 True "[]"] that by (auto simp: parse_hms_def)
next
  case (HmsFraction vs q)
  then have t: "time_chars s p q" using hms_fields_covered [of s p e 3 True "[]"] by simp
  from HmsFraction assms obtain f q' where d: "parse_digits s (min 6 (e - q)) q 0 = Some (f, q')"
    and n: "char_at s (digits_end s q') = CHR 0x00"
    by (auto simp: parse_hms_def Let_def split: option.splits)
  have "time_chars s p (digits_end s q')"
    using t time_chars_digits [OF d] time_chars_digits_end [of s q'] time_chars_trans by blast
  then show thesis using n that by blast
qed

section \<open>The date and its separator\<close>

lemma digits_end_ge: "p \<le> digits_end s p"
proof (induction s p rule: digits_end.induct)
  case (1 s p)
  then show ?case by (subst digits_end.simps) auto
qed

lemma tz_position_skip: "\<not> tz_char (char_at s p) \<Longrightarrow> Suc p < length s \<Longrightarrow> tz_position s p = tz_position s (Suc p)"
  by (subst tz_position.simps) (simp add: tz_char_def)

lemma tz_position_ge: "p \<le> tz_position s p"
proof (induction s p rule: tz_position.induct)
  case (1 s p)
  then show ?case by (subst tz_position.simps) auto
qed

lemma tz_position_gt: "\<not> tz_char (char_at s p) \<Longrightarrow> p < tz_position s p"
  using tz_position_ge [of "Suc p" s] by (subst tz_position.simps) (simp add: tz_char_def)

lemma separator_cases:
  assumes "find_separator s = Some sl"
  shows "sl = 7 \<or> sl = 8 \<or> sl = 10 \<and> char_at s 4 = CHR ''-''"
  using assms digits_end_ge [of 7 s] by (auto simp: find_separator_def Let_def split: if_splits)

text \<open>The four forms of a date.\<close>

lemma parse_digits_some: "parse_digits s k p v = None \<or> (\<exists>w. parse_digits s k p v = Some (w, p + k))"
  using parse_digits_stop [of s k p v] by (cases "parse_digits s k p v") auto

lemma case_bind: "(case x of None \<Rightarrow> None | Some (a, b) \<Rightarrow> f a b) = Option.bind x (\<lambda>(a, b). f a b)"
  by (cases x) simp_all

lemma parse_date_forms:
  "char_at s 4 = CHR ''-'' \<Longrightarrow> char_at s 5 = CHR ''W'' \<Longrightarrow> parse_date s len =
    Option.bind (parse_digits s 4 0 0) (\<lambda>(y, _). Option.bind (parse_digits s 2 6 0) (\<lambda>(w, _).
      if 8 < len then if char_at s 8 \<noteq> CHR ''-'' then None else Option.bind (parse_digits s 1 9 0) (\<lambda>(d, _). iso_to_ymd y w d)
      else iso_to_ymd y w 1))"
  "char_at s 4 = CHR ''-'' \<Longrightarrow> char_at s 5 \<noteq> CHR ''W'' \<Longrightarrow> parse_date s len =
    Option.bind (parse_digits s 4 0 0) (\<lambda>(y, _). Option.bind (parse_digits s 2 5 0) (\<lambda>(m, _).
      if char_at s 7 \<noteq> CHR ''-'' then None else Option.bind (parse_digits s 2 8 0) (\<lambda>(d, _). Some (y, m, d))))"
  "char_at s 4 = CHR ''W'' \<Longrightarrow> parse_date s len =
    Option.bind (parse_digits s 4 0 0) (\<lambda>(y, _). Option.bind (parse_digits s 2 5 0) (\<lambda>(w, _).
      if 7 < len then Option.bind (parse_digits s 1 7 0) (\<lambda>(d, _). iso_to_ymd y w d) else iso_to_ymd y w 1))"
  "char_at s 4 \<noteq> CHR ''-'' \<Longrightarrow> char_at s 4 \<noteq> CHR ''W'' \<Longrightarrow> parse_date s len =
    Option.bind (parse_digits s 4 0 0) (\<lambda>(y, _). Option.bind (parse_digits s 2 4 0) (\<lambda>(m, _).
      Option.bind (parse_digits s 2 6 0) (\<lambda>(d, _). Some (y, m, d))))"
  unfolding parse_date_def Let_def case_bind
  using parse_digits_some [of s 4 0 0] parse_digits_some [of s 2 6 0] apply (elim disjE exE; simp)
  using parse_digits_some [of s 4 0 0] parse_digits_some [of s 2 5 0] apply (elim disjE exE; simp)
  using parse_digits_some [of s 4 0 0] parse_digits_some [of s 2 5 0] apply (elim disjE exE; simp)
  using parse_digits_some [of s 4 0 0] parse_digits_some [of s 2 4 0] by (elim disjE exE; simp)

text \<open>Before the separator there are only digits, dashes and the \<open>W\<close> of a week.\<close>

lemma date_chars:
  assumes sep: "find_separator s = Some sl" and date: "parse_date s sl = Some ymd" and i: "i < sl"
  shows "is_digit (char_at s i) \<or> char_at s i = CHR ''-'' \<or> char_at s i = CHR ''W''"
proof -
  have dig: "parse_digits s k p v \<noteq> None \<Longrightarrow> p \<le> j \<Longrightarrow> j < p + k \<Longrightarrow> is_digit (char_at s j)" for k p v j
    using parse_digits_some [of s k p v] parse_digits_stop by (metis prod.collapse)
  consider (dash_week) "char_at s 4 = CHR ''-''" "char_at s 5 = CHR ''W''" | (dash) "char_at s 4 = CHR ''-''" "char_at s 5 \<noteq> CHR ''W''"
    | (week) "char_at s 4 = CHR ''W''" | (plain) "char_at s 4 \<noteq> CHR ''-''" "char_at s 4 \<noteq> CHR ''W''" by blast
  then show ?thesis
  proof cases
    case dash_week
    with date have p: "parse_digits s 4 0 0 \<noteq> None" "parse_digits s 2 6 0 \<noteq> None"
      "8 < sl \<Longrightarrow> char_at s 8 = CHR ''-'' \<and> parse_digits s 1 9 0 \<noteq> None"
      by (auto simp: parse_date_forms(1) bind_eq_Some_conv split: if_splits)
    have "i < 4 \<or> i = 4 \<or> i = 5 \<or> 6 \<le> i \<and> i < 8 \<or> 8 < sl \<and> i = 8 \<or> 8 < sl \<and> i = 9"
      using i separator_cases [OF sep] by linarith
    then show ?thesis
      using dash_week dig [OF p(1), of i] dig [OF p(2), of i] p(3) dig [of 1 9 0 i] by auto
  next
    case dash
    with date have p: "parse_digits s 4 0 0 \<noteq> None" "parse_digits s 2 5 0 \<noteq> None" "char_at s 7 = CHR ''-''" "parse_digits s 2 8 0 \<noteq> None"
      by (auto simp: parse_date_forms(2) bind_eq_Some_conv split: if_splits)
    have "i < 4 \<or> i = 4 \<or> 5 \<le> i \<and> i < 7 \<or> i = 7 \<or> 8 \<le> i \<and> i < 10"
      using i separator_cases [OF sep] by linarith
    then show ?thesis
      using dash p(3) dig [OF p(1), of i] dig [OF p(2), of i] dig [OF p(4), of i] by auto
  next
    case week
    with date have p: "parse_digits s 4 0 0 \<noteq> None" "parse_digits s 2 5 0 \<noteq> None" "7 < sl \<Longrightarrow> parse_digits s 1 7 0 \<noteq> None"
      by (auto simp: parse_date_forms(3) bind_eq_Some_conv split: if_splits)
    have "i < 4 \<or> i = 4 \<or> 5 \<le> i \<and> i < 7 \<or> 7 < sl \<and> i = 7"
      using i separator_cases [OF sep] week by auto
    then show ?thesis
      using week dig [OF p(1), of i] dig [OF p(2), of i] p(3) dig [of 1 7 0 i] by auto
  next
    case plain
    with date have p: "parse_digits s 4 0 0 \<noteq> None" "parse_digits s 2 4 0 \<noteq> None" "parse_digits s 2 6 0 \<noteq> None"
      by (auto simp: parse_date_forms(4) bind_eq_Some_conv split: if_splits)
    have "i < 4 \<or> 4 \<le> i \<and> i < 6 \<or> 6 \<le> i \<and> i < 8"
      using i separator_cases [OF sep] plain by auto
    then show ?thesis
      using dig [OF p(1), of i] dig [OF p(2), of i] dig [OF p(3), of i] by auto
  qed
qed

lemma date_no_zone:
  assumes "find_separator s = Some sl" and "parse_date s sl = Some ymd" and "i < sl"
  shows "char_at s i \<noteq> CHR ''Z'' \<and> of_char (char_at s i) < (128 :: nat)"
  using date_chars [OF assms] by (auto simp: is_digit_def)

lemma zone_separator:
  assumes z: "zone_at n s z" and sep: "find_separator s = Some sl" and n: "sl \<le> n" "n \<noteq> Suc sl"
    and dash: "char_at s n = CHR ''Z''" "char_at z n = CHR ''+''"
  shows "find_separator z = Some sl"
proof -
  have len: "length s \<noteq> 7" "length z \<noteq> 7" "7 < length s" "7 < length z"
    using zone_length [OF z] n separator_cases [OF sep] by auto
  have c: "char_at z 4 = char_at s 4" "char_at z 5 = char_at s 5"
    using zone_atD [OF z] n separator_cases [OF sep] by auto
  have d: "digits_end z 7 = digits_end s 7" using zone_digits_end [OF z, of 7] n separator_cases [OF sep] by auto
  show ?thesis
  proof (cases "char_at s 4 = CHR ''-'' \<and> char_at s 5 = CHR ''W''")
    case True
    then have sl: "sl = 8 \<or> sl = 10" using sep len by (auto simp: find_separator_def Let_def split: if_splits)
    consider "n = 8" "sl = 8" | "n = 10" "sl = 8 \<or> sl = 10" | "10 < n" using n sl by linarith
    then show ?thesis
    proof cases
      case 1
      then show ?thesis using True c len dash by (simp add: find_separator_def)
    next
      case 2
      then have e: "char_at z 8 = char_at s 8" "\<not> is_digit (char_at s 10)" "\<not> is_digit (char_at z 10)"
        using zone_atD [OF z, of 8] zone_no_digit [OF z] by auto
      then show ?thesis using sep True c len zone_length [OF z] 2(1) by (auto simp: find_separator_def Let_def split: if_splits)
    next
      case 3
      then have e: "char_at z 8 = char_at s 8" "char_at z 10 = char_at s 10" using zone_atD [OF z] by auto
      then show ?thesis using sep True c len zone_length [OF z] 3 by (auto simp: find_separator_def Let_def split: if_splits)
    qed
  next
    case False
    then show ?thesis using sep c d len by (auto simp: find_separator_def Let_def split: if_splits)
  qed
qed

lemma zone_date:
  assumes z: "zone_at n s z" and sep: "find_separator s = Some sl" and n: "sl \<le> n"
  shows "parse_date z sl = parse_date s sl"
proof -
  have len: "length s \<noteq> 7" using zone_length [OF z] n separator_cases [OF sep] by auto
  have c: "char_at z 4 = char_at s 4" "char_at z 5 = char_at s 5" "char_at z 6 = char_at s 6"
    using zone_atD [OF z] n separator_cases [OF sep] by auto
  have dash_sl: "char_at s 4 = CHR ''-'' \<Longrightarrow> char_at s 5 \<noteq> CHR ''W'' \<Longrightarrow> sl = 10"
    using sep len by (auto simp: find_separator_def split: if_splits)
  have c7: "7 < sl \<Longrightarrow> char_at z 7 = char_at s 7" and c8: "8 < sl \<Longrightarrow> char_at z 8 = char_at s 8"
    using zone_atD [OF z] n by auto
  have ds: "p \<le> n \<Longrightarrow> parse_digits z k p v = parse_digits s k p v" for k p v by (rule zone_digits [OF z])
  have "7 \<le> n" using n separator_cases [OF sep] by auto
  note d = ds [of 0] ds [of 4] ds [of 5] ds [of 6] ds [of 7] 
  have d8: "7 < sl \<Longrightarrow> parse_digits z k 8 v = parse_digits s k 8 v" and d9: "8 < sl \<Longrightarrow> parse_digits z k 9 v = parse_digits s k 9 v" for k v
    using ds n by auto
  consider (dash_week) "char_at s 4 = CHR ''-''" "char_at s 5 = CHR ''W''" | (dash) "char_at s 4 = CHR ''-''" "char_at s 5 \<noteq> CHR ''W''"
    | (week) "char_at s 4 = CHR ''W''" | (plain) "char_at s 4 \<noteq> CHR ''-''" "char_at s 4 \<noteq> CHR ''W''" by blast
  then show ?thesis
  proof cases
    case dash_week
    then show ?thesis using c c8 d d9 \<open>7 \<le> n\<close> parse_date_forms(1) [of s sl] parse_date_forms(1) [of z sl]
      by (cases "8 < sl"; cases "char_at s 8 = CHR ''-''") (simp_all del: parse_digits.simps)
  next
    case dash
    then have "sl = 10" using dash_sl by simp
    then show ?thesis using dash c c7 d d8 \<open>7 \<le> n\<close> parse_date_forms(2) [of s sl] parse_date_forms(2) [of z sl]
      by (cases "char_at s 7 = CHR ''-''") simp_all
  next
    case week
    then show ?thesis using c d \<open>7 \<le> n\<close> parse_date_forms(3) [of s sl] parse_date_forms(3) [of z sl]
      by (cases "7 < sl") (simp_all del: parse_digits.simps)
  next
    case plain
    then show ?thesis using c d \<open>7 \<le> n\<close> parse_date_forms(4) [of s sl] parse_date_forms(4) [of z sl] by simp
  qed
qed

section \<open>The time and its zone\<close>

lemma char_at_nonzero: "CHR 0x00 \<notin> set s \<Longrightarrow> i < length s \<Longrightarrow> char_at s i \<noteq> CHR 0x00"
  by (metis char_at_def nth_mem)

lemma zero_offset:
  assumes "z = a @ ''+00:00''"
  shows "parse_hms z (Suc (length a)) (length z) = Some ((0, 0, 0, 0), False)"
proof -
  have "char_at z (Suc (length a)) = CHR ''0''" "char_at z (Suc (Suc (length a))) = CHR ''0''"
    "char_at z (Suc (Suc (Suc (length a)))) = CHR '':''" "char_at z (Suc (Suc (Suc (Suc (length a))))) = CHR ''0''"
    "char_at z (Suc (Suc (Suc (Suc (Suc (length a)))))) = CHR ''0''"
    "char_at z (Suc (Suc (Suc (Suc (Suc (Suc (length a))))))) = CHR 0x00"
    unfolding assms by (simp_all add: char_at_append char_at_Cons)
  then show ?thesis
    by (simp add: assms parse_hms_def numeral_3_eq_3 numeral_2_eq_2 nth_or_0_def is_digit_def digit_val_def Let_def)
qed

text \<open>A \<open>Z\<close> that ends the time.\<close>

lemma zulu_end:
  assumes s: "s = a @ CHR ''Z'' # b" and no: "CHR ''Z'' \<notin> set a" "CHR 0x00 \<notin> set s" and p: "p \<le> length a"
    and time: "parse_time s p = Some (t, Some off)"
  shows "b = []" and "parse_time (a @ ''+00:00'' @ c) p = Some (t, Some off) \<or> c \<noteq> []"
proof -
  let ?n = "length a"
  define z where "z = a @ ''+00:00'' @ c"
  have zone: "zone_at ?n s z"
    by (simp add: zone_at_def s z_def char_at_append char_at_Cons tz_char_def)
  have tz: "tz_position z p = tz_position s p" "tz_position s p \<le> ?n" using zone_tz_position [OF zone p] by simp_all
  have len: "tz_position s p < length s" using tz zone_length [OF zone] by linarith
  have q: "tz_position s p = ?n"
  proof (rule ccontr)
    let ?q = "tz_position s p"
    assume "?q \<noteq> ?n"
    then have q: "?q < ?n" using tz by simp
    then have "char_at s ?q \<in> set a" by (simp add: s char_at_def nth_append)
    then have "char_at s ?q \<noteq> CHR ''Z''" using no by auto
    then obtain x where "parse_hms s (Suc ?q) (length s) = Some (x, False)"
      using time len by (auto simp: parse_time_def Let_def split: option.splits if_splits)
    then obtain r where r: "time_chars s (Suc ?q) r" "char_at s r = CHR 0x00" by (rule parse_hms_chars)
    have "length s \<le> r" using r(2) char_at_nonzero [OF no(2)] by (meson not_le)
    then have "?n < r" using zone_length [OF zone] by simp
    then have "time_char (char_at s ?n)" using r(1) q by (simp add: time_chars_def)
    then show False using time_char_not_tz zone by (simp add: zone_at_def)
  qed
  have Z: "char_at s ?n = CHR ''Z''" by (simp add: s char_at_append char_at_Cons)
  obtain rest where h: "parse_hms s p ?n = Some (t, rest)" and e: "char_at s (Suc ?n) = CHR 0x00" and off: "off = 0"
    using time len Z by (auto simp: parse_time_def Let_def q split: option.splits if_splits)
  have "length s \<le> Suc ?n" using e char_at_nonzero [OF no(2)] by (meson not_le)
  then show "b = []" by (simp add: s)
  show "parse_time (a @ ''+00:00'' @ c) p = Some (t, Some off) \<or> c \<noteq> []"
  proof (cases "c = []")
    case True
    have "parse_hms z p ?n = Some (t, rest)" using h zone_parse_hms [OF zone p] by simp
    moreover have "char_at z ?n = CHR ''+''" by (simp add: z_def char_at_append char_at_Cons)
    moreover have "parse_hms z (Suc ?n) (length z) = Some ((0, 0, 0, 0), False)"
      by (rule zero_offset) (simp add: z_def True)
    moreover have "length z \<noteq> ?n" by (simp add: z_def)
    ultimately have "parse_time z p = Some (t, Some 0)" by (simp add: parse_time_def Let_def tz q)
    then show ?thesis by (simp add: z_def off)
  qed simp
qed

lemma parse_hms_starts: "parse_hms s p e = Some r \<Longrightarrow> is_digit (char_at s p) \<and> is_digit (char_at s (Suc p))"
  by (auto simp: parse_hms_def numeral_3_eq_3 numeral_2_eq_2 split: if_splits)

lemma parse_time_starts: "parse_time s p = Some r \<Longrightarrow> is_digit (char_at s p) \<and> is_digit (char_at s (Suc p))"
  using parse_hms_starts by (force simp: parse_time_def Let_def split: option.splits if_splits)

text \<open>A \<open>Z\<close> that separates date and time.\<close>

lemma zulu_separator:
  assumes z: "z = a @ ''+00:00'' @ d # e # r" and d: "is_digit d" "is_digit e"
  shows "parse_time z (Suc (length a)) = None"
proof -
  let ?n = "length a"
  have c: "char_at z (Suc ?n) = CHR ''0''" "char_at z (Suc (Suc ?n)) = CHR ''0''"
    "char_at z (Suc (Suc (Suc ?n))) = CHR '':''" "char_at z (Suc (Suc (Suc (Suc ?n)))) = CHR ''0''"
    "char_at z (Suc (Suc (Suc (Suc (Suc ?n))))) = CHR ''0''" "char_at z (Suc (Suc (Suc (Suc (Suc (Suc ?n)))))) = d"
    "char_at z (Suc (Suc (Suc (Suc (Suc (Suc (Suc ?n))))))) = e"
    unfolding z by (simp_all add: char_at_append char_at_Cons)
  have t: "\<not> tz_char d" "\<not> tz_char e" using d is_digit_not_tz by simp_all
  have 0: "\<not> tz_char (CHR ''0'')" "\<not> tz_char (CHR '':'')" by (simp_all add: tz_char_def)
  have len: "length z = Suc (Suc (Suc (Suc (Suc (Suc (Suc (Suc ?n)))))))+ length r" by (simp add: z)
  have "tz_position z (Suc ?n) = tz_position z (Suc (Suc (Suc (Suc (Suc (Suc (Suc ?n)))))))"
    using c 0 t len by (simp add: tz_position_skip)
  then have q: "Suc (Suc (Suc (Suc (Suc (Suc (Suc ?n)))))) < tz_position z (Suc ?n)"
    using tz_position_gt [of z "Suc (Suc (Suc (Suc (Suc (Suc (Suc ?n))))))"] c t by simp
  have "d \<noteq> CHR '':'' \<and> d \<noteq> CHR ''.'' \<and> d \<noteq> CHR '',''" using d by (auto simp: is_digit_def)
  then have "parse_hms z (Suc ?n) (tz_position z (Suc ?n)) = None"
    using c q by (simp add: parse_hms_def numeral_3_eq_3 numeral_2_eq_2 Let_def is_digit_def)
  then show ?thesis by (simp add: parse_time_def Let_def)
qed

section \<open>The whole text\<close>

lemma utf8_Cons: "utf8 (c # s) = utf8_char c @ utf8 s"
  by (simp add: utf8_def)

lemma replace_Z_append: "replace_Z (a @ b) = replace_Z a @ replace_Z b"
  by (simp add: replace_Z_def)

lemma of_char_of_nat: "k < 256 \<Longrightarrow> of_char (char_of (k :: nat)) = k"
  by (simp add: of_char_of)

lemma utf8_char_bytes:
  "of_char c < (128 :: nat) \<and> utf8_char c = [c]
   \<or> (128 :: nat) \<le> of_char c \<and> (\<exists>x y. utf8_char c = [x, y] \<and> (128 :: nat) \<le> of_char x \<and> (128 :: nat) \<le> of_char y)"
proof (cases "of_char c < (128 :: nat)")
  case False
  have "of_char c < (256 :: nat)" by simp
  then have "of_char c div 64 < (4 :: nat)" by linarith
  then have "of_char (char_of (192 + of_char c div 64 :: nat)) = (192 + of_char c div 64 :: nat)"
    "of_char (char_of (128 + of_char c mod 64 :: nat)) = (128 + of_char c mod 64 :: nat)"
    by (simp_all add: of_char_of_nat)
  then show ?thesis using False by (simp add: utf8_char_def Let_def)
qed (simp add: utf8_char_def)

lemma big_byte: "(128 :: nat) \<le> of_char x \<Longrightarrow> x \<noteq> CHR ''Z'' \<and> x \<noteq> CHR 0x00"
  by auto

lemma utf8_replace_Z: "utf8 (replace_Z s) = replace_Z (utf8 s)"
proof (induction s)
  case Nil
  then show ?case by (simp add: utf8_def replace_Z_def)
next
  case (Cons c s)
  have ascii: "utf8 ''+00:00'' = ''+00:00''" by (simp add: utf8_def utf8_char_def)
  have "utf8 (replace_Z (c # s)) = (if c = CHR ''Z'' then ''+00:00'' else utf8_char c) @ utf8 (replace_Z s)"
    using ascii by (simp add: replace_Z_def utf8_def)
  moreover have "replace_Z (utf8_char c) = (if c = CHR ''Z'' then ''+00:00'' else utf8_char c)"
    using utf8_char_bytes [of c] by (auto simp: replace_Z_def dest: big_byte)
  ultimately show ?case by (simp add: Cons utf8_Cons replace_Z_append)
qed

lemma utf8_no_NUL: "CHR 0x00 \<notin> set s \<Longrightarrow> CHR 0x00 \<notin> set (utf8 s)"
proof (induction s)
  case (Cons c s)
  then show ?case using utf8_char_bytes [of c] by (auto simp: utf8_Cons dest: big_byte)
qed (simp add: utf8_def)

text \<open>After the first byte over 127 comes another one.\<close>

lemma utf8_wide:
  "i < length (utf8 s) \<Longrightarrow> (128 :: nat) \<le> of_char (utf8 s ! i) \<Longrightarrow> (\<And>j. j < i \<Longrightarrow> of_char (utf8 s ! j) < (128 :: nat))
   \<Longrightarrow> char_at (utf8 s) (Suc i) \<noteq> CHR ''Z''"
proof (induction s arbitrary: i)
  case (Cons c s)
  from utf8_char_bytes [of c] show ?case
  proof (elim disjE conjE exE)
    assume c: "of_char c < (128 :: nat)" "utf8_char c = [c]"
    show ?thesis
    proof (cases i)
      case 0
      then show ?thesis using Cons.prems(2) c by (simp add: utf8_Cons)
    next
      case (Suc k)
      have "char_at (utf8 s) (Suc k) \<noteq> CHR ''Z''"
        by (rule Cons.IH) (use Cons.prems(1,2) Cons.prems(3) [of "Suc _"] c Suc in \<open>auto simp: utf8_Cons\<close>)
      then show ?thesis using c Suc by (simp add: utf8_Cons char_at_Cons)
    qed
  next
    fix x y assume c: "utf8_char c = [x, y]" "(128 :: nat) \<le> of_char x" "(128 :: nat) \<le> of_char y"
    have "i = 0" using Cons.prems(3) [of 0] c by (auto simp: utf8_Cons intro: ccontr)
    then show ?thesis using c big_byte by (simp add: utf8_Cons char_at_Cons)
  qed
qed (simp add: utf8_def)

lemma fromisoformat_parts:
  assumes "fromisoformat text = Some t" and "dt_offset t \<noteq> None"
  obtains sl ymd hms off where "find_separator (utf8 text) = Some sl" and "parse_date (utf8 text) sl = Some ymd"
    and "sl < length (utf8 text)"
    and "parse_time (utf8 text) (sl + (if of_char (utf8 text ! sl) < (128::nat) then 1 else 2)) = Some (hms, Some off)"
    and "make_datetime ymd hms (Some off) = Some t"
proof -
  have naive: "make_datetime ymd hms None \<noteq> Some t" for ymd hms
    using assms(2) by (auto simp: make_datetime_def Let_def split: prod.splits if_splits)
  let ?s = "utf8 text"
  from assms(1) have len: "\<not> length ?s < 7" by (auto simp: fromisoformat_def)
  with assms(1) obtain sl where sl: "find_separator ?s = Some sl" by (auto simp: fromisoformat_def Let_def split: option.splits)
  with assms(1) len obtain ymd where ymd: "parse_date ?s sl = Some ymd" by (auto simp: fromisoformat_def Let_def split: option.splits)
  have l: "sl < length ?s"
  proof (rule ccontr)
    assume "\<not> sl < length ?s"
    then have "make_datetime ymd (0, 0, 0, 0) None = Some t" using assms(1) len sl ymd by (simp add: fromisoformat_def Let_def)
    then show False using naive by simp
  qed
  let ?p = "sl + (if of_char (?s ! sl) < (128::nat) then 1 else 2)"
  have f: "fromisoformat text = (case parse_time ?s ?p of None \<Rightarrow> None | Some (hms, off) \<Rightarrow> make_datetime ymd hms off)"
    using len sl ymd l by (simp add: fromisoformat_def Let_def)
  with assms(1) obtain hms off' where t: "parse_time ?s ?p = Some (hms, off')" by (cases "parse_time ?s ?p") auto
  with f assms(1) have m: "make_datetime ymd hms off' = Some t" by simp
  with naive obtain off where "off' = Some off" by (cases off') auto
  with t m show thesis by (intro that [OF sl ymd l]) simp_all
qed

lemma fromisoformat_replace_Z:
  assumes r: "fromisoformat (replace_Z text) = Some t'" "dt_offset t' \<noteq> None"
    and o': "fromisoformat text = Some t" "dt_offset t \<noteq> None" and nul: "CHR 0x00 \<notin> set text"
  shows "t' = t"
proof (cases "CHR ''Z'' \<in> set (utf8 text)")
  case False
  then have "utf8 (replace_Z text) = utf8 text" by (simp add: utf8_replace_Z replace_Z_id)
  then show ?thesis using r(1) o'(1) by (simp add: fromisoformat_def)
next
  case True
  define s where "s = utf8 text"
  from True obtain a b where s: "s = a @ CHR ''Z'' # b" and a: "CHR ''Z'' \<notin> set a"
    unfolding s_def by (meson split_list_first)
  define z where "z = a @ ''+00:00'' @ replace_Z b"
  have z: "utf8 (replace_Z text) = z"
    using a by (simp add: utf8_replace_Z s_def [symmetric] s z_def replace_Z_append replace_Z_id) (simp add: replace_Z_def)
  let ?n = "length a"
  have zone: "zone_at ?n s z" by (simp add: zone_at_def s z_def char_at_append char_at_Cons tz_char_def)
  have c: "char_at s ?n = CHR ''Z''" "char_at z ?n = CHR ''+''" by (simp_all add: s z_def char_at_append char_at_Cons)
  have nul': "CHR 0x00 \<notin> set s" unfolding s_def by (rule utf8_no_NUL [OF nul])
  from o' obtain sl ymd hms off where sep: "find_separator s = Some sl" and date: "parse_date s sl = Some ymd" and sl: "sl < length s"
    and time: "parse_time s (sl + (if of_char (s ! sl) < (128::nat) then 1 else 2)) = Some (hms, Some off)"
    and t: "make_datetime ymd hms (Some off) = Some t"
    unfolding s_def by (rule fromisoformat_parts)
  from r obtain sl' ymd' hms' off' where sep': "find_separator z = Some sl'" and date': "parse_date z sl' = Some ymd'"
    and time': "parse_time z (sl' + (if of_char (z ! sl') < (128::nat) then 1 else 2)) = Some (hms', Some off')"
    and t': "make_datetime ymd' hms' (Some off') = Some t'"
    unfolding z [symmetric] by (rule fromisoformat_parts)
  let ?p = "sl + (if of_char (s ! sl) < (128::nat) then 1 else 2)"
  have le: "sl \<le> ?n" using date_no_zone [OF sep date, of ?n] c by (meson not_le)
  have start: "is_digit (char_at s ?p)" "is_digit (char_at s (Suc ?p))" using parse_time_starts [OF time] by simp_all
  have wide: "char_at s (Suc sl) \<noteq> CHR ''Z''" if "\<not> of_char (s ! sl) < (128 :: nat)"
    unfolding s_def
  proof (rule utf8_wide, goal_cases)
    case (3 j)
    then show ?case using date_no_zone [OF sep date, of j] sl by (simp add: s_def char_at_def)
  qed (use sl that in \<open>simp_all add: s_def\<close>)
  have n: "?n \<noteq> Suc sl"
  proof
    assume n: "?n = Suc sl"
    have "of_char (s ! sl) < (128 :: nat)" using wide c(1) n by force
    then show False using start(1) c(1) n by (simp add: is_digit_def)
  qed
  have sl': "sl' = sl" using zone_separator [OF zone sep le n c] sep' by simp
  have ymd': "ymd' = ymd" using zone_date [OF zone sep le] date date' sl' by simp
  show ?thesis
  proof (cases "sl = ?n")
    case True
    then have p: "?p = Suc ?n" by (simp add: s)
    have p': "sl' + (if of_char (z ! sl') < (128::nat) then 1 else 2) = Suc ?n" by (simp add: sl' True z_def)
    from start have "is_digit (char_at b 0)" "is_digit (char_at b 1)"
      unfolding p by (simp_all add: s char_at_append char_at_Cons)
    then obtain d e r where b: "b = d # e # r" "is_digit d" "is_digit e"
      by (cases b; cases "tl b") (auto simp: char_at_def is_digit_def split: if_splits)
    have "replace_Z b = d # e # replace_Z r" using b by (auto simp: replace_Z_def is_digit_def)
    then have "parse_time z (Suc ?n) = None" using zulu_separator [of z a d e "replace_Z r"] b by (simp add: z_def)
    then show ?thesis using time' p' by simp
  next
    case False
    then have lt: "sl < ?n" using le by simp
    then have same: "z ! sl = s ! sl" by (simp add: s z_def nth_append)
    have p: "?p \<le> ?n" using lt n by auto
    note e = zulu_end [OF s a nul' p time]
    have "z = a @ ''+00:00''" using e(1) by (simp add: z_def replace_Z_def)
    then have "parse_time z ?p = Some (hms, Some off)" using e(2) [of "[]"] by simp
    then show ?thesis using time' t t' same by (simp add: sl' ymd')
  qed
qed

end
