(* ===== verification/Authority_Epoch.thy ===== *)
theory Authority_Epoch
  imports Authority_Projection Zulu_Time
begin

text \<open>
  \<open>phios/authority_epoch.py\<close>: the sealed snapshot of one principal's reconstructed authority,
  with the next instant at which the known events can change it.
\<close>

definition AUTHORITY_EPOCH_SCHEMA_VERSION :: string where
  "AUTHORITY_EPOCH_SCHEMA_VERSION = ''phios.authority_epoch.v0.1''"

definition epoch_require_text :: "json \<Rightarrow> string \<Rightarrow> nat \<Rightarrow> string result" where
  "epoch_require_text = require_text AuthorityEpochContractError"

definition epoch_require_sha256 :: "json \<Rightarrow> string \<Rightarrow> string result" where
  "epoch_require_sha256 = require_sha256 AuthorityEpochContractError"

definition epoch_parse_time :: "json \<Rightarrow> string \<Rightarrow> datetime result" where
  "epoch_parse_time = parse_utc AuthorityEpochContractError"

definition epoch_canonical_time :: "json \<Rightarrow> string \<Rightarrow> string result" where
  "epoch_canonical_time = canonical_time AuthorityEpochContractError"

definition epoch_canonical_text_tuple :: "string list \<Rightarrow> string \<Rightarrow> string list result" where
  "epoch_canonical_text_tuple = canonical_text_tuple AuthorityEpochContractError"

definition event_set_sha256 :: "authority_event list \<Rightarrow> authority_event_kind \<Rightarrow> string" where
  "event_set_sha256 events kind =
     canonical_sha256 (JList (map ae_to_dict (filter (\<lambda>e. ae_kind e = kind) (sort_key ae_sequence events))))"

text \<open>The candidates of \<open>_next_known_transition\<close>, in the order the loop appends them.\<close>

fun transition_candidates :: "datetime \<Rightarrow> string list \<Rightarrow> authority_event list \<Rightarrow> datetime list result" where
  "transition_candidates observed active_ids [] = Ok []"
| "transition_candidates observed active_ids (event # rest) =
     rbind (epoch_parse_time (JStr (ae_effective_at event)) ''event effective_at'') (\<lambda>effective.
     rbind (if ae_event_id event \<in> set active_ids
            then (case ae_expires_at event of None \<Rightarrow> Ok []
                  | Some x \<Rightarrow> rbind (epoch_parse_time (JStr x) ''event expires_at'') (\<lambda>expires.
                      Ok (if instant observed < instant expires then [expires] else [])))
            else Ok []) (\<lambda>expiry.
     rbind (transition_candidates observed active_ids rest) (\<lambda>more_candidates.
       Ok ((if instant observed < instant effective then [effective] else []) @ expiry @ more_candidates))))"

definition earliest :: "datetime \<Rightarrow> datetime list \<Rightarrow> datetime" where
  "earliest t ts = foldl (\<lambda>m x. if instant x < instant m then x else m) t ts"

definition next_known_transition :: "authority_event list \<Rightarrow> string \<Rightarrow> string list \<Rightarrow> string option result" where
  "next_known_transition events observed_at active_grant_event_ids =
     rbind (epoch_parse_time (JStr observed_at) ''observed_at'') (\<lambda>observed.
     rbind (transition_candidates observed active_grant_event_ids events) (\<lambda>candidates.
       Ok (case candidates of [] \<Rightarrow> None | t # ts \<Rightarrow> Some (isoformat_utc (earliest t ts)))))"

record authority_epoch =
  epoch_principal_id :: string
  epoch_observed_at :: string
  epoch_policy_sha256 :: string
  epoch_ceiling :: "string list"
  epoch_grants :: "string list"
  epoch_authority_sources :: "string list"
  epoch_known_event_ids :: "string list"
  epoch_applied_event_ids :: "string list"
  epoch_active_grant_event_ids :: "string list"
  epoch_source_events_sha256 :: string
  epoch_grant_set_sha256 :: string
  epoch_revocation_set_sha256 :: string
  epoch_projection_sha256 :: string
  epoch_authority_context_sha256 :: string
  epoch_next_known_transition_at :: "string option"
  epoch_effect_performed :: bool
  epoch_operational_authority :: bool
  epoch_action_authority :: bool
  epoch_execution_authority :: bool
  epoch_schema_version :: string

definition epoch_context_sha256 :: "string list \<Rightarrow> string list \<Rightarrow> string" where
  "epoch_context_sha256 ceiling grants =
     canonical_sha256 (JObj [(''ceiling'', jstrs ceiling), (''grants'', jstrs grants)])"

text \<open>\<open>AuthorityEpoch.__post_init__\<close>.\<close>

definition epoch_init :: "authority_epoch \<Rightarrow> authority_epoch result" where
  "epoch_init e = validated
     [ensure (epoch_schema_version e = AUTHORITY_EPOCH_SCHEMA_VERSION) AuthorityEpochContractError
        (''unsupported AuthorityEpoch schema: '' @ epoch_schema_version e),
      discard (epoch_require_text (JStr (epoch_principal_id e)) ''principal_id'' 256),
      rbind (epoch_canonical_time (JStr (epoch_observed_at e)) ''observed_at'') (\<lambda>canonical.
        ensure (canonical = epoch_observed_at e) AuthorityEpochContractError
          ''observed_at must use canonical UTC ISO-8601 form''),
      discard (epoch_require_sha256 (JStr (epoch_policy_sha256 e)) ''policy_sha256''),
      discard (epoch_canonical_text_tuple (epoch_ceiling e) ''ceiling''),
      discard (epoch_canonical_text_tuple (epoch_grants e) ''grants''),
      ensure (set (epoch_grants e) \<subseteq> set (epoch_ceiling e)) AuthorityEpochContractError
        ''grants must remain within the authority ceiling'',
      discard (epoch_canonical_text_tuple (epoch_authority_sources e) ''authority_sources''),
      discard (epoch_canonical_text_tuple (epoch_known_event_ids e) ''known_event_ids''),
      discard (epoch_canonical_text_tuple (epoch_applied_event_ids e) ''applied_event_ids''),
      discard (epoch_canonical_text_tuple (epoch_active_grant_event_ids e) ''active_grant_event_ids''),
      ensure (set (epoch_applied_event_ids e) \<subseteq> set (epoch_known_event_ids e)) AuthorityEpochContractError
        ''applied_event_ids must be a subset of known_event_ids'',
      ensure (set (epoch_active_grant_event_ids e) \<subseteq> set (epoch_applied_event_ids e)) AuthorityEpochContractError
        ''active_grant_event_ids must be a subset of applied_event_ids'',
      discard (epoch_require_sha256 (JStr (epoch_source_events_sha256 e)) ''source_events_sha256''),
      discard (epoch_require_sha256 (JStr (epoch_grant_set_sha256 e)) ''grant_set_sha256''),
      discard (epoch_require_sha256 (JStr (epoch_revocation_set_sha256 e)) ''revocation_set_sha256''),
      discard (epoch_require_sha256 (JStr (epoch_projection_sha256 e)) ''projection_sha256''),
      discard (epoch_require_sha256 (JStr (epoch_authority_context_sha256 e)) ''authority_context_sha256''),
      ensure (epoch_authority_context_sha256 e = epoch_context_sha256 (epoch_ceiling e) (epoch_grants e))
        AuthorityEpochContractError ''authority_context_sha256 does not match ceiling and grants'',
      (case epoch_next_known_transition_at e of None \<Rightarrow> Ok ()
       | Some next_at \<Rightarrow>
           rbind (epoch_canonical_time (JStr next_at) ''next_known_transition_at'') (\<lambda>transition.
           if transition \<noteq> next_at
           then raise AuthorityEpochContractError ''next_known_transition_at must use canonical UTC form''
           else rbind (epoch_parse_time (JStr transition) ''next_known_transition_at'') (\<lambda>t.
                rbind (epoch_parse_time (JStr (epoch_observed_at e)) ''observed_at'') (\<lambda>o'.
                ensure (instant o' < instant t) AuthorityEpochContractError
                  ''next_known_transition_at must be later than observed_at'')))),
      ensure (\<not> epoch_effect_performed e) AuthorityEpochContractError
        ''AuthorityEpoch cannot claim an effect was performed'',
      ensure (\<not> (epoch_operational_authority e \<or> epoch_action_authority e \<or> epoch_execution_authority e))
        AuthorityEpochContractError
        ''AuthorityEpoch cannot itself carry operational, action, or execution authority''] e"

definition epoch_body :: "authority_epoch \<Rightarrow> (string \<times> json) list" where
  "epoch_body e =
     [(''schema_version'', JStr (epoch_schema_version e)),
      (''principal_id'', JStr (epoch_principal_id e)),
      (''observed_at'', JStr (epoch_observed_at e)),
      (''policy_sha256'', JStr (epoch_policy_sha256 e)),
      (''ceiling'', jstrs (epoch_ceiling e)),
      (''grants'', jstrs (epoch_grants e)),
      (''authority_sources'', jstrs (epoch_authority_sources e)),
      (''known_event_ids'', jstrs (epoch_known_event_ids e)),
      (''applied_event_ids'', jstrs (epoch_applied_event_ids e)),
      (''active_grant_event_ids'', jstrs (epoch_active_grant_event_ids e)),
      (''source_events_sha256'', JStr (epoch_source_events_sha256 e)),
      (''grant_set_sha256'', JStr (epoch_grant_set_sha256 e)),
      (''revocation_set_sha256'', JStr (epoch_revocation_set_sha256 e)),
      (''projection_sha256'', JStr (epoch_projection_sha256 e)),
      (''authority_context_sha256'', JStr (epoch_authority_context_sha256 e)),
      (''next_known_transition_at'', jopt (epoch_next_known_transition_at e)),
      (''effect_performed'', JBool (epoch_effect_performed e)),
      (''operational_authority'', JBool (epoch_operational_authority e)),
      (''action_authority'', JBool (epoch_action_authority e)),
      (''execution_authority'', JBool (epoch_execution_authority e))]"

definition authority_epoch_sha256 :: "authority_epoch \<Rightarrow> string" where
  "authority_epoch_sha256 e = canonical_sha256 (JObj (epoch_body e))"

definition epoch_to_dict :: "authority_epoch \<Rightarrow> json" where
  "epoch_to_dict e = sealed_dict ''authority_epoch_sha256'' (epoch_body e)"

definition epoch_build ::
  "string \<Rightarrow> string \<Rightarrow> string list \<Rightarrow> authority_event list \<Rightarrow> string \<Rightarrow> authority_epoch result" where
  "epoch_build principal_id policy_sha256 ceiling events observed_at =
     rbind (epoch_require_text (JStr principal_id) ''principal_id'' 256) (\<lambda>principal.
     rbind (epoch_require_sha256 (JStr policy_sha256) ''policy_sha256'') (\<lambda>policy.
     rbind (epoch_canonical_time (JStr observed_at) ''observed_at'') (\<lambda>observed.
     let ordered = sort_key ae_sequence events; event_ids = map ae_event_id ordered in
     rbind (ensure (distinct event_ids) AuthorityEpochContractError ''authority event IDs must be unique'') (\<lambda>_.
     rbind (rewrap AuthorityProjectionError AuthorityEpochContractError
              (ap_project ceiling ordered observed)) (\<lambda>projection.
     let active_ids = sort (ap_active_grant_event_ids projection) in
     rbind (rmap (\<lambda>e. epoch_require_text (JStr (ae_authority_source e)) ''event authority_source'' 256) ordered)
       (\<lambda>sources.
     let canonical_ceiling = sorted_set (ap_ceiling projection);
         canonical_grants = sorted_set (ap_grants projection) in
     rbind (next_known_transition ordered (ap_observed_at projection) active_ids) (\<lambda>transition.
     epoch_init
       \<lparr>epoch_principal_id = principal, epoch_observed_at = ap_observed_at projection,
        epoch_policy_sha256 = policy, epoch_ceiling = canonical_ceiling, epoch_grants = canonical_grants,
        epoch_authority_sources = sorted_set sources, epoch_known_event_ids = sort event_ids,
        epoch_applied_event_ids = sort (ap_source_event_ids projection),
        epoch_active_grant_event_ids = active_ids,
        epoch_source_events_sha256 = ap_source_events_sha256 projection,
        epoch_grant_set_sha256 = event_set_sha256 ordered GRANT,
        epoch_revocation_set_sha256 = event_set_sha256 ordered REVOKE,
        epoch_projection_sha256 = ap_projection_sha256 projection,
        epoch_authority_context_sha256 = epoch_context_sha256 canonical_ceiling canonical_grants,
        epoch_next_known_transition_at = transition,
        epoch_effect_performed = False, epoch_operational_authority = False,
        epoch_action_authority = False, epoch_execution_authority = False,
        epoch_schema_version = AUTHORITY_EPOCH_SCHEMA_VERSION\<rparr>)))))))"

text \<open>One array field of the parsed object.\<close>

definition epoch_text_array :: "(string \<times> json) list \<Rightarrow> string \<Rightarrow> string list result" where
  "epoch_text_array data field =
     rbind (as_array AuthorityEpochContractError (field @ '' must be an array'') (dget data field)) (\<lambda>raw.
       rmap (\<lambda>item. epoch_require_text item (field @ '' item'') 256) raw)"

definition epoch_from_dict :: "json \<Rightarrow> authority_epoch result" where
  "epoch_from_dict value =
     rbind (as_object AuthorityEpochContractError ''AuthorityEpoch must be an object'' value) (\<lambda>data.
     rbind (check_fields AuthorityEpochContractError ''AuthorityEpoch''
       [''schema_version'', ''principal_id'', ''observed_at'', ''policy_sha256'', ''ceiling'', ''grants'',
        ''authority_sources'', ''known_event_ids'', ''applied_event_ids'', ''active_grant_event_ids'',
        ''source_events_sha256'', ''grant_set_sha256'', ''revocation_set_sha256'', ''projection_sha256'',
        ''authority_context_sha256'', ''next_known_transition_at'', ''effect_performed'',
        ''operational_authority'', ''action_authority'', ''execution_authority'',
        ''authority_epoch_sha256''] data) (\<lambda>_.
     rbind (epoch_text_array data ''ceiling'') (\<lambda>ceiling.
     rbind (epoch_text_array data ''grants'') (\<lambda>grants.
     rbind (epoch_text_array data ''authority_sources'') (\<lambda>sources.
     rbind (epoch_text_array data ''known_event_ids'') (\<lambda>known.
     rbind (epoch_text_array data ''applied_event_ids'') (\<lambda>applied.
     rbind (epoch_text_array data ''active_grant_event_ids'') (\<lambda>active.
     rbind (check_bools AuthorityEpochContractError
       [''effect_performed'', ''operational_authority'', ''action_authority'', ''execution_authority'']
       data) (\<lambda>_.
     rbind (as_optional_str AuthorityEpochContractError ''next_known_transition_at must be a string or null''
       (dget data ''next_known_transition_at'')) (\<lambda>transition.
     rbind (epoch_require_text (dget data ''schema_version'') ''schema_version'' 64) (\<lambda>schema.
     rbind (epoch_require_text (dget data ''principal_id'') ''principal_id'' 256) (\<lambda>principal.
     rbind (epoch_require_text (dget data ''observed_at'') ''observed_at'' 64) (\<lambda>observed.
     rbind (epoch_require_sha256 (dget data ''policy_sha256'') ''policy_sha256'') (\<lambda>policy.
     rbind (epoch_require_sha256 (dget data ''source_events_sha256'') ''source_events_sha256'') (\<lambda>source_events.
     rbind (epoch_require_sha256 (dget data ''grant_set_sha256'') ''grant_set_sha256'') (\<lambda>grant_set.
     rbind (epoch_require_sha256 (dget data ''revocation_set_sha256'') ''revocation_set_sha256'') (\<lambda>revocation_set.
     rbind (epoch_require_sha256 (dget data ''projection_sha256'') ''projection_sha256'') (\<lambda>projection.
     rbind (epoch_require_sha256 (dget data ''authority_context_sha256'') ''authority_context_sha256'') (\<lambda>context.
     rbind (epoch_init
       \<lparr>epoch_principal_id = principal, epoch_observed_at = observed, epoch_policy_sha256 = policy,
        epoch_ceiling = ceiling, epoch_grants = grants, epoch_authority_sources = sources,
        epoch_known_event_ids = known, epoch_applied_event_ids = applied,
        epoch_active_grant_event_ids = active, epoch_source_events_sha256 = source_events,
        epoch_grant_set_sha256 = grant_set, epoch_revocation_set_sha256 = revocation_set,
        epoch_projection_sha256 = projection, epoch_authority_context_sha256 = context,
        epoch_next_known_transition_at = transition,
        epoch_effect_performed = bool_of (dget data ''effect_performed''),
        epoch_operational_authority = bool_of (dget data ''operational_authority''),
        epoch_action_authority = bool_of (dget data ''action_authority''),
        epoch_execution_authority = bool_of (dget data ''execution_authority''),
        epoch_schema_version = schema\<rparr>) (\<lambda>epoch.
     rbind (ensure (dget data ''authority_epoch_sha256'' = JStr (authority_epoch_sha256 epoch))
       AuthorityEpochContractError ''authority_epoch_sha256 does not match canonical AuthorityEpoch'') (\<lambda>_.
     Ok epoch)))))))))))))))))))))"

section \<open>The sealed contract\<close>

lemmas epoch_helpers = epoch_require_text_def epoch_require_sha256_def epoch_parse_time_def
  epoch_canonical_time_def epoch_canonical_text_tuple_def

lemma epoch_text_array_Ok_iff:
  "epoch_text_array d k = Inr xs \<longleftrightarrow> dget d k = jstrs xs \<and> list_all (plain_text 256) xs"
  by (auto simp: epoch_text_array_def rbind_Ok_iff as_array_Ok_iff epoch_require_text_def
      rmap_require_text_Ok_iff)

lemma epoch_schema_plain: "plain_text 64 AUTHORITY_EPOCH_SCHEMA_VERSION"
  by (simp add: AUTHORITY_EPOCH_SCHEMA_VERSION_def plain_text_def is_control_def)

text \<open>A canonical UTC text and the check the constructors make on it.\<close>

definition is_canonical_utc :: "string \<Rightarrow> bool" where
  "is_canonical_utc s \<longleftrightarrow> (\<exists>t. canonical_utc s t)"

lemma canonical_time_check_iff:
  "rbind (canonical_time cls (JStr s) f) (\<lambda>c. ensure (c = s) k m) = Inr () \<longleftrightarrow> is_canonical_utc s"
  unfolding is_canonical_utc_def
  by (auto simp: rbind_Ok_iff canonical_time_self_iff [symmetric, of s cls f])

lemma is_canonical_utc_plain: "is_canonical_utc s \<Longrightarrow> plain_text 64 s"
  by (auto simp: is_canonical_utc_def canonical_utc_def plain_text_isoformat_utc)

definition later_utc :: "string \<Rightarrow> string \<Rightarrow> bool" where
  "later_utc a b \<longleftrightarrow> (\<exists>s t. canonical_utc a s \<and> canonical_utc b t \<and> instant t < instant s)"

definition epoch_ok :: "authority_epoch \<Rightarrow> bool" where
  "epoch_ok e \<longleftrightarrow>
     epoch_schema_version e = AUTHORITY_EPOCH_SCHEMA_VERSION \<and>
     plain_text 256 (epoch_principal_id e) \<and> is_canonical_utc (epoch_observed_at e) \<and>
     is_sha256 (epoch_policy_sha256 e) \<and>
     canonical_texts (epoch_ceiling e) \<and> canonical_texts (epoch_grants e) \<and>
     set (epoch_grants e) \<subseteq> set (epoch_ceiling e) \<and>
     canonical_texts (epoch_authority_sources e) \<and> canonical_texts (epoch_known_event_ids e) \<and>
     canonical_texts (epoch_applied_event_ids e) \<and> canonical_texts (epoch_active_grant_event_ids e) \<and>
     set (epoch_applied_event_ids e) \<subseteq> set (epoch_known_event_ids e) \<and>
     set (epoch_active_grant_event_ids e) \<subseteq> set (epoch_applied_event_ids e) \<and>
     is_sha256 (epoch_source_events_sha256 e) \<and> is_sha256 (epoch_grant_set_sha256 e) \<and>
     is_sha256 (epoch_revocation_set_sha256 e) \<and> is_sha256 (epoch_projection_sha256 e) \<and>
     is_sha256 (epoch_authority_context_sha256 e) \<and>
     epoch_authority_context_sha256 e = epoch_context_sha256 (epoch_ceiling e) (epoch_grants e) \<and>
     (\<forall>t. epoch_next_known_transition_at e = Some t \<longrightarrow> later_utc t (epoch_observed_at e)) \<and>
     \<not> epoch_effect_performed e \<and> \<not> epoch_operational_authority e \<and> \<not> epoch_action_authority e \<and>
     \<not> epoch_execution_authority e"

lemma later_check_iff:
  assumes "is_canonical_utc b"
  shows "rbind (canonical_time cls (JStr a) f) (\<lambda>transition.
           if transition \<noteq> a then raise cls m
           else rbind (parse_utc cls (JStr transition) f) (\<lambda>t.
                rbind (parse_utc cls (JStr b) g) (\<lambda>o'. ensure (instant o' < instant t) cls n))) = Inr ()
         \<longleftrightarrow> later_utc a b"
proof -
  from assms obtain t where t: "canonical_utc b t" by (auto simp: is_canonical_utc_def)
  have b: "parse_utc cls (JStr b) g = Inr t" using t by (rule parse_utc_canonical)
  have u: "canonical_utc b t' \<Longrightarrow> t' = t" for t' using t canonical_utc_unique by blast
  show ?thesis
  proof
    assume l: "later_utc a b"
    then obtain s where s: "canonical_utc a s" "instant t < instant s" using u by (auto simp: later_utc_def)
    then show "rbind (canonical_time cls (JStr a) f) (\<lambda>transition.
           if transition \<noteq> a then raise cls m
           else rbind (parse_utc cls (JStr transition) f) (\<lambda>t.
                rbind (parse_utc cls (JStr b) g) (\<lambda>o'. ensure (instant o' < instant t) cls n))) = Inr ()"
      using b by (simp add: canonical_time_canonical parse_utc_canonical)
  next
    assume "rbind (canonical_time cls (JStr a) f) (\<lambda>transition.
           if transition \<noteq> a then raise cls m
           else rbind (parse_utc cls (JStr transition) f) (\<lambda>t.
                rbind (parse_utc cls (JStr b) g) (\<lambda>o'. ensure (instant o' < instant t) cls n))) = Inr ()"
    then have c: "canonical_time cls (JStr a) f = Inr a"
      and p: "rbind (parse_utc cls (JStr a) f) (\<lambda>s. ensure (instant t < instant s) cls n) = Inr ()"
      unfolding b by (auto simp: rbind_Ok_iff split: if_splits)
    from c obtain s where s: "canonical_utc a s" using canonical_time_self_iff by blast
    with p have "instant t < instant s" by (simp add: parse_utc_canonical)
    with s t show "later_utc a b" by (auto simp: later_utc_def)
  qed
qed

lemma epoch_init_Ok_iff: "epoch_init e = Inr k \<longleftrightarrow> k = e \<and> epoch_ok e"
proof (cases "is_canonical_utc (epoch_observed_at e)")
  case True
  show ?thesis
    unfolding epoch_init_def validated_Ok_iff first_error_Ok_Cons first_error_Ok_Nil discard_Ok_iff ensure_Ok_iff
      epoch_helpers require_text_Ok_iff require_sha256_Ok_iff canonical_time_check_iff canonical_text_tuple_Ok_iff
      epoch_ok_def
    by (cases "epoch_next_known_transition_at e")
      (simp_all add: later_check_iff [OF True] True epoch_context_sha256_def)
next
  case False
  then show ?thesis
    unfolding epoch_init_def validated_Ok_iff first_error_Ok_Cons
      epoch_helpers canonical_time_check_iff epoch_ok_def by simp
qed

lemma epoch_init_id: "epoch_init e = Inr k \<Longrightarrow> k = e"
  by (simp add: epoch_init_Ok_iff)

lemma epoch_init_ok: "epoch_init e = Inr k \<Longrightarrow> epoch_ok k"
  by (simp add: epoch_init_Ok_iff)

lemmas epoch_reads = epoch_text_array_Ok_iff epoch_helpers as_object_Ok_iff check_fields_Ok_iff as_array_Ok_iff
  check_bools_Ok_iff as_optional_str_Ok_iff require_text_Ok_iff require_sha256_Ok_iff ensure_Ok_iff

lemma epoch_from_dict_dest:
  assumes "epoch_from_dict (JObj d) = Inr x"
  shows "epoch_init x = Inr x \<and> sealed_like d ''authority_epoch_sha256'' (epoch_body x)"
  using assms unfolding epoch_from_dict_def
proof (elim rbind_OkE, goal_cases)
  case (1 d' _ ceiling grants sources known applied active _ transition schema principal observed policy
      source_events grant_set revocation_set projection ctx i)
  note facts = 1 [unfolded epoch_reads]
  have x: "x = i" and d: "d' = d" using 1 by (simp_all add: as_object_Ok_iff)
  note i = epoch_init_id [OF 1(20)]
  have "sealed_like d ''authority_epoch_sha256'' (epoch_body i)"
    using facts(2-19,21) unfolding d sealed_like_def epoch_body_def i
    by (simp add: authority_epoch_sha256_def epoch_body_def)
  then show ?case using 1(20) i unfolding x by simp
qed

lemma epoch_from_dict_intro:
  assumes "epoch_init x = Inr x" and "sealed_like d ''authority_epoch_sha256'' (epoch_body x)"
  shows "epoch_from_dict (JObj d) = Inr x"
proof -
  have ok: "epoch_ok x" using assms(1) epoch_init_Ok_iff by blast
  have "plain_text 64 (epoch_observed_at x)" "is_sha256 (epoch_authority_context_sha256 x)"
    "plain_text 64 (epoch_schema_version x)"
    using ok epoch_schema_plain is_canonical_utc_plain by (simp_all add: epoch_ok_def epoch_context_sha256_def)
  then show ?thesis
    using assms(2) ok unfolding sealed_like_def epoch_from_dict_def rbind_Ok_iff epoch_reads epoch_body_def
    by (cases x) (simp add: authority_epoch_sha256_def epoch_body_def epoch_init_Ok_iff epoch_ok_def canonical_texts_def)
qed

interpretation epoch: sealed_contract epoch_init epoch_body "''authority_epoch_sha256''" epoch_from_dict
proof unfold_locales
  fix x y
  show "epoch_init x = Inr y \<Longrightarrow> y = x" by (rule epoch_init_id)
  show "distinct (''authority_epoch_sha256'' # map fst (epoch_body x))" by (simp add: epoch_body_def)
  show "list_all (\<lambda>kv. wf_json (snd kv)) (epoch_body x)"
    by (simp add: epoch_body_def list_all_iff split: option.split)
  show "map fst (epoch_body x) = map fst (epoch_body y)" by (simp add: epoch_body_def)
  show "epoch_init x = Inr x \<Longrightarrow> epoch_init y = Inr y \<Longrightarrow>
      map (\<lambda>kv. canon (snd kv)) (epoch_body x) = map (\<lambda>kv. canon (snd kv)) (epoch_body y) \<Longrightarrow> x = y"
    by (simp add: epoch_body_def)
next
  fix d :: "(string \<times> json) list" and x
  assume "wf_json (JObj d)"
  show "epoch_from_dict (JObj d) = Inr x \<longleftrightarrow>
      epoch_init x = Inr x \<and> sealed_like d ''authority_epoch_sha256'' (epoch_body x)"
    using epoch_from_dict_dest epoch_from_dict_intro by blast
next
  fix j x
  show "epoch_from_dict j = Inr x \<Longrightarrow> \<exists>d. j = JObj d"
    by (auto simp: epoch_from_dict_def rbind_Ok_iff as_object_Ok_iff)
qed

section \<open>Transitions\<close>

lemma transition_candidates_props:
  assumes "transition_candidates observed ids es = Inr cs"
  shows "\<forall>e \<in> set es. \<exists>t. epoch_parse_time (JStr (ae_effective_at e)) ''event effective_at'' = Inr t
      \<and> (instant observed < instant t \<longrightarrow> t \<in> set cs)"
    and "\<forall>e \<in> set es. ae_event_id e \<in> set ids \<longrightarrow> (\<forall>x. ae_expires_at e = Some x \<longrightarrow>
      (\<exists>t. epoch_parse_time (JStr x) ''event expires_at'' = Inr t \<and> (instant observed < instant t \<longrightarrow> t \<in> set cs)))"
    and "\<forall>t \<in> set cs. instant observed < instant t \<and> valid_datetime t \<and> dt_offset t = Some 0"
  using assms
proof (induction observed ids es arbitrary: cs rule: transition_candidates.induct)
  case (2 observed ids e es)
  {
    case 1
    then show ?case using "2.IH"(1) by (auto simp: rbind_Ok_iff split: if_splits option.splits) blast+
  next
    case 2
    then show ?case using "2.IH"(2) by (auto simp: rbind_Ok_iff split: if_splits option.splits) blast+
  next
    case 3
    then show ?case using "2.IH"(3)
      by (auto simp: rbind_Ok_iff epoch_parse_time_def parse_utc_valid split: if_splits option.splits)
  }
qed simp_all

lemma earliest_props: "earliest t ts \<in> set (t # ts) \<and> (\<forall>x \<in> set (t # ts). instant (earliest t ts) \<le> instant x)"
proof (induction ts arbitrary: t)
  case Nil
  then show ?case by (simp add: earliest_def)
next
  case (Cons a ts)
  have "earliest t (a # ts) = earliest (if instant a < instant t then a else t) ts" by (simp add: earliest_def)
  then show ?case using Cons.IH [of "if instant a < instant t then a else t"] by (auto split: if_splits)
qed

lemma next_known_transition_props:
  assumes "next_known_transition es o' ids = Inr tr" and "epoch_parse_time (JStr o') ''observed_at'' = Inr observed"
  obtains cs where "transition_candidates observed ids es = Inr cs"
    and "\<And>t. t \<in> set cs \<Longrightarrow> \<exists>s u. tr = Some s \<and> canonical_utc s u \<and> instant u \<le> instant t \<and> instant observed < instant u"
proof -
  from assms(1) [unfolded next_known_transition_def assms(2) rbind.simps] obtain cs
    where cs: "transition_candidates observed ids es = Inr cs"
      and "Inr (case cs of [] \<Rightarrow> None | t # ts \<Rightarrow> Some (isoformat_utc (earliest t ts))) = (Inr tr :: string option result)"
    by (rule rbind_OkE)
  then have tr: "tr = (case cs of [] \<Rightarrow> None | t # ts \<Rightarrow> Some (isoformat_utc (earliest t ts)))" by simp
  have "\<exists>s u. tr = Some s \<and> canonical_utc s u \<and> instant u \<le> instant t \<and> instant observed < instant u"
    if t: "t \<in> set cs" for t
  proof -
    from t obtain a ts where a: "cs = a # ts" by (cases cs) auto
    have "earliest a ts \<in> set cs" "instant (earliest a ts) \<le> instant t"
      using earliest_props [of a ts] t unfolding a by blast+
    then show ?thesis
      using transition_candidates_props(3) [OF cs] unfolding tr a canonical_utc_def by auto
  qed
  with cs show thesis by (rule that)
qed

text \<open>The two readings of a timestamp, of this module and of the projection, agree where both answer.\<close>

lemma parse_utc_ap_utc:
  assumes "parse_utc cls (JStr s) f = Inr t" and "ap_utc s g = Inr u"
  shows "u = t"
proof -
  from assms(1) obtain p where p: "plain_text 64 s" "fromisoformat (replace_Z s) = Some p" "dt_offset p \<noteq> None" "to_utc p = Inr t"
    by (auto simp: parse_utc_def parse_aware_def rbind_Ok_iff require_text_Ok_iff split: option.splits if_splits)
  from assms(2) obtain r where r: "fromisoformat s = Some r" "dt_offset r \<noteq> None" "to_utc r = Inr u"
    by (auto simp: ap_utc_def split: option.splits if_splits)
  have "CHR 0x00 \<notin> set s" using p(1) by (auto simp: plain_text_def list_ex_iff is_control_def)
  from fromisoformat_replace_Z [OF p(2,3) r(1,2) this] p(4) r(3) show ?thesis by simp
qed

lemma ap_replay_cong:
  "\<forall>e \<in> set es. \<forall>t. ap_utc (ae_effective_at e) ''effective_at'' = Inr t \<longrightarrow>
      (instant o1 < instant t \<longleftrightarrow> instant o2 < instant t)
   \<Longrightarrow> ap_replay o1 lg ap es = ap_replay o2 lg ap es"
proof (induction es arbitrary: lg ap)
  case (Cons e es)
  then show ?case by (cases "ap_utc (ae_effective_at e) ''effective_at''") simp_all
qed simp

lemma ap_active_cong:
  "\<forall>pg \<in> set pgs. \<forall>x t. ae_expires_at (snd pg) = Some x \<longrightarrow> ap_utc x ''expires_at'' = Inr t \<longrightarrow>
      (instant t \<le> instant o1 \<longleftrightarrow> instant t \<le> instant o2)
   \<Longrightarrow> ap_active o1 pgs = ap_active o2 pgs"
proof (induction pgs)
  case (Cons pg pgs)
  obtain p g where pg: "pg = (p, g)" by (cases pg)
  have "(case ae_expires_at g of None \<Rightarrow> Ok False
          | Some x \<Rightarrow> rbind (ap_utc x ''expires_at'') (\<lambda>t. Ok (instant t \<le> instant o1)))
      = (case ae_expires_at g of None \<Rightarrow> Ok False
          | Some x \<Rightarrow> rbind (ap_utc x ''expires_at'') (\<lambda>t. Ok (instant t \<le> instant o2)))"
    using Cons.prems unfolding pg
    by (cases "ae_expires_at g"; cases "ap_utc (the (ae_expires_at g)) ''expires_at''") auto
  moreover have "ap_active o1 pgs = ap_active o2 pgs" using Cons by simp
  ultimately show ?case unfolding pg by simp
qed simp

lemma ap_replay_events:
  "ap_replay observed lg ap es = Inr (lg', ap') \<Longrightarrow> snd ` set lg' \<subseteq> snd ` set lg \<union> set es"
proof (induction observed lg ap es rule: ap_replay.induct)
  case (2 observed lg ap e es)
  have d: "snd ` set (AList.delete k lg) \<subseteq> snd ` set lg" for k
    by (auto simp: AList.delete_eq)
  have u: "snd ` set (AList.update k e lg) \<subseteq> insert e (snd ` set lg)" for k
    by (induction lg) auto
  from "2.prems" obtain t where t: "ap_utc (ae_effective_at e) ''effective_at'' = Inr t"
    by (auto simp: rbind_Ok_iff)
  consider "instant observed < instant t" | "\<not> instant observed < instant t" "ae_kind e = REVOKE"
    | "\<not> instant observed < instant t" "ae_kind e \<noteq> REVOKE" by blast
  then show ?case
  proof cases
    case 1
    then show ?thesis using "2.IH"(1) [OF 1] "2.prems" t by auto
  next
    case c: 2
    then have "snd ` set lg' \<subseteq> snd ` set (AList.delete (ae_permission e) lg) \<union> set es"
      using "2.IH"(2) [OF c] "2.prems" t by simp
    then show ?thesis using d [of "ae_permission e"] by auto
  next
    case c: 3
    then have "snd ` set lg' \<subseteq> snd ` set (AList.update (ae_permission e) e lg) \<union> set es"
      using "2.IH"(3) [OF c] "2.prems" t by simp
    then show ?thesis using u [of "ae_permission e"] by auto
  qed
qed simp

text \<open>What \<open>epoch_build\<close> computed.\<close>

lemma epoch_build_dest:
  assumes "epoch_build pid policy ceiling events observed_at = Inr e"
  obtains o' t0 r tr where
    "canonical_time AuthorityEpochContractError (JStr observed_at) ''observed_at'' = Inr o'" and
    "canonical_utc o' t0" and "ap_project ceiling events o' = Inr r" and
    "next_known_transition (sort_key ae_sequence events) o' (sort (ap_active_grant_event_ids r)) = Inr tr" and
    "distinct (map ae_event_id events)" and "epoch_ok e" and
    "epoch_observed_at e = o'" and "epoch_ceiling e = ap_ceiling r" and "epoch_grants e = ap_grants r" and
    "epoch_active_grant_event_ids e = sort (ap_active_grant_event_ids r)" and
    "epoch_applied_event_ids e = sort (ap_source_event_ids r)" and
    "epoch_known_event_ids e = sort (map ae_event_id events)" and
    "epoch_next_known_transition_at e = tr" and "epoch_principal_id e = pid" and
    "epoch_policy_sha256 e = policy"
proof -
  let ?ordered = "sort_key ae_sequence events"
  have perm: "ap_project ceiling ?ordered o' = ap_project ceiling events o'" for o'
    by (rule ap_project_perm) simp
  have ids: "distinct (map ae_event_id ?ordered) \<longleftrightarrow> distinct (map ae_event_id events)"
    "sort (map ae_event_id ?ordered) = sort (map ae_event_id events)"
    by (simp_all add: distinct_map properties_for_sort)
  show thesis
    using assms unfolding epoch_build_def Let_def
  proof (elim rbind_OkE, goal_cases)
    case (1 p' pol o' _ r sources tr)
    note e = epoch_init_id [OF 1(8)]
    note ok = epoch_init_ok [OF 1(8)]
    have r: "ap_project ceiling events o' = Inr r" using 1(5) by (simp add: rewrap_Ok_iff perm)
    from 1(3) obtain t0 where t0: "canonical_utc o' t0"
      unfolding epoch_canonical_time_def by (rule canonical_time_result)
    have o': "ap_observed_at r = o'"
      by (rule ap_project_dest [OF r]) (use ap_utc_canonical [OF t0] t0 in \<open>simp add: canonical_utc_def\<close>)
    have ceil: "sorted_set (ap_ceiling r) = ap_ceiling r"
      by (rule ap_project_dest [OF r]) simp
    have grants: "sorted_set (ap_grants r) = ap_grants r"
      using ap_grants_governed(2,3) [OF r ap_utc_canonical [OF t0]] by (simp add: sorted_set_id_iff)
    show thesis
      by (rule that [OF 1(3) [unfolded epoch_canonical_time_def] t0 r])
        (use 1(1,2,4,7) o' ceil grants ids ok e in \<open>simp_all add: epoch_require_text_def epoch_require_sha256_def
          require_text_Ok_iff require_sha256_Ok_iff\<close>)
  qed
qed

text \<open>Between an observation and the next known transition nothing the replay compares changes.\<close>

lemma ap_project_stable:
  assumes r: "ap_project ceiling events o' = Inr r" and o': "canonical_utc o' t0"
    and tr: "next_known_transition es o' (sort (ap_active_grant_event_ids r)) = Inr tr"
    and es: "set es = set events"
    and later: "ap_utc later ''observed_at'' = Inr t1" "instant t0 \<le> instant t1"
    and before: "\<And>s t. tr = Some s \<Longrightarrow> canonical_utc s t \<Longrightarrow> instant t1 < instant t"
  shows "\<exists>r'. ap_project ceiling events later = Inr r' \<and> ap_grants r' = ap_grants r
    \<and> ap_source_event_ids r' = ap_source_event_ids r \<and> ap_active_grant_event_ids r' = ap_active_grant_event_ids r"
proof -
  have p0: "epoch_parse_time (JStr o') ''observed_at'' = Inr t0"
    unfolding epoch_parse_time_def using o' by (rule parse_utc_canonical)
  from next_known_transition_props [OF tr p0] obtain cs
    where cs: "transition_candidates t0 (sort (ap_active_grant_event_ids r)) es = Inr cs"
      and bound: "\<And>t. t \<in> set cs \<Longrightarrow> \<exists>s u. tr = Some s \<and> canonical_utc s u \<and> instant u \<le> instant t" by metis
  have late: "instant t1 < instant t" if "t \<in> set cs" for t
    using bound [OF that] before by fastforce
  note cand = transition_candidates_props [OF cs, unfolded es]
  let ?ordered = "sort_key ae_sequence events"
  have time: "instant t0 < instant t \<longleftrightarrow> instant t1 < instant t"
    if e: "e \<in> set events" and t: "ap_utc (ae_effective_at e) ''effective_at'' = Inr t" for e t
  proof -
    from cand(1) e obtain u where u: "epoch_parse_time (JStr (ae_effective_at e)) ''event effective_at'' = Inr u"
      "instant t0 < instant u \<longrightarrow> u \<in> set cs" by blast
    from parse_utc_ap_utc [OF u(1) [unfolded epoch_parse_time_def] t] have "u = t" by simp
    then show ?thesis using u(2) late later(2) by fastforce
  qed
  from r [unfolded ap_project_def Let_def] ap_utc_canonical [OF o']
  obtain items where items: "rmap (\<lambda>item. ap_require_nonempty item ''ceiling permission'') ceiling = Inr items"
    and dist: "distinct (map ae_sequence ?ordered)"
    and order: "ap_check_order (sorted_set items) None ?ordered = Inr ()"
    by (auto simp: rbind_Ok_iff)
  from ap_project_dest [OF r] ap_utc_canonical [OF o'] obtain lg
    where lg: "ap_replay t0 [] [] ?ordered = Inr (lg, ap_source_event_ids r)"
      and grants: "ap_grants r = map fst (filter (\<lambda>pg. unexpired_at t0 (snd pg)) (sort_key fst lg))"
      and ids: "ap_active_grant_event_ids r
        = map (\<lambda>pg. ae_event_id (snd pg)) (filter (\<lambda>pg. unexpired_at t0 (snd pg)) (sort_key fst lg))"
    by (metis sum.inject(2))
  have "ap_replay t1 [] [] ?ordered = ap_replay t0 [] [] ?ordered"
    using time by (intro ap_replay_cong) auto
  with lg have lg1: "ap_replay t1 [] [] ?ordered = Inr (lg, ap_source_event_ids r)" by simp
  have exp: "instant t \<le> instant t0 \<longleftrightarrow> instant t \<le> instant t1"
    if pg: "pg \<in> set lg" and x: "ae_expires_at (snd pg) = Some x" and t: "ap_utc x ''expires_at'' = Inr t" for pg x t
  proof (cases "instant t \<le> instant t0")
    case False
    have e: "snd pg \<in> set events" using ap_replay_events [OF lg] pg by auto
    have "unexpired_at t0 (snd pg)" using False x t by (simp add: unexpired_at_def)
    then have "ae_event_id (snd pg) \<in> set (sort (ap_active_grant_event_ids r))" using pg unfolding ids by auto
    with cand(2) e x obtain u where u: "epoch_parse_time (JStr x) ''event expires_at'' = Inr u"
      "instant t0 < instant u \<longrightarrow> u \<in> set cs" by blast
    from parse_utc_ap_utc [OF u(1) [unfolded epoch_parse_time_def] t] have "u = t" by simp
    then show ?thesis using u(2) late False by fastforce
  qed (use later(2) in simp)
  have "ap_active t1 (sort_key fst lg) = ap_active t0 (sort_key fst lg)"
    using exp by (intro ap_active_cong) (auto simp: set_sort)
  moreover from r [unfolded ap_project_def Let_def] ap_utc_canonical [OF o'] lg
  obtain actives where act: "ap_active t0 (sort_key fst lg) = Inr actives"
    by (auto simp: rbind_Ok_iff)
  ultimately have "ap_active t1 (sort_key fst lg) = Inr actives" by simp
  moreover have "ap_grants r = map fst actives" "ap_active_grant_event_ids r = map (\<lambda>pg. ae_event_id (snd pg)) actives"
    unfolding grants ids ap_active_filter [OF act] by simp_all
  ultimately show ?thesis
    using later(1) items dist order lg1 by (simp add: ap_project_def Let_def)
qed

text \<open>The epoch of the sample history as seen on day 4 and its transition on day 6.\<close>

lemma sample_transition:
  "next_known_transition (sort_key ae_sequence sample_events) (sample_time 4) [''e1''] = Inr (Some (sample_time 6))"
  by (simp add: next_known_transition_def sample_events_def epoch_parse_time_def sample_parse sample_instant
      earliest_def sample_time_def [symmetric])

lemma sample_later: "a < b \<Longrightarrow> 1 \<le> a \<Longrightarrow> b \<le> 31 \<Longrightarrow> later_utc (sample_time b) (sample_time a)"
  unfolding later_utc_def
  by (rule exI [of _ "sample_t b"], rule exI [of _ "sample_t a"]) (simp add: sample_canonical sample_instant)

lemma sample_is_canonical: "1 \<le> d \<Longrightarrow> d \<le> 31 \<Longrightarrow> is_canonical_utc (sample_time d)"
  using sample_canonical is_canonical_utc_def by blast

lemma sample_epoch:
  obtains e where "epoch_build ''alice'' (sha256_hex ''policy'') [''artifact.write'', ''read''] sample_events (sample_time 4) = Inr e"
    and "epoch_ok e" and "epoch_grants e = [''artifact.write'']" and "epoch_observed_at e = sample_time 4"
    and "epoch_next_known_transition_at e = Some (sample_time 6)" and "epoch_principal_id e = ''alice''"
    and "epoch_policy_sha256 e = sha256_hex ''policy''"
proof -
  from sample_project [of 4] obtain r
    where "ap_project [''artifact.write'', ''read''] sample_events (sample_time 4) = Inr r"
      and r: "ap_ceiling r = [''artifact.write'', ''read'']" "ap_grants r = [''artifact.write'']" "ap_active_grant_event_ids r = [''e1'']"
        "ap_source_event_ids r = [''e0'', ''e1'', ''e2'']" "ap_observed_at r = sample_time 4"
        "is_sha256 (ap_source_events_sha256 r)" "is_sha256 (ap_projection_sha256 r)" by auto
  then have p: "ap_project [''artifact.write'', ''read''] (sort_key ae_sequence sample_events) (sample_time 4) = Inr r"
    by (metis ap_project_perm mset_sort)
  have t: "canonical_time cls (JStr (sample_time 4)) l = Inr (sample_time 4)" for cls l
    by (rule canonical_time_canonical [OF sample_canonical]) simp_all
  let ?ordered = "sort_key ae_sequence sample_events"
  have ids: "map ae_event_id ?ordered = [''e0'', ''e1'', ''e2'']" by (simp add: sample_events_def)
  have srcs: "rmap (\<lambda>e. require_text AuthorityEpochContractError (JStr (ae_authority_source e))
      ''event authority_source'' 256) ?ordered = Inr [''operator'', ''operator'', ''operator'']"
    by (simp add: sample_events_def require_text_def is_control_def)
  define e where "e = \<lparr>epoch_principal_id = ''alice'', epoch_observed_at = sample_time 4,
        epoch_policy_sha256 = sha256_hex ''policy'', epoch_ceiling = [''artifact.write'', ''read''],
        epoch_grants = [''artifact.write''], epoch_authority_sources = [''operator''],
        epoch_known_event_ids = [''e0'', ''e1'', ''e2''], epoch_applied_event_ids = [''e0'', ''e1'', ''e2''],
        epoch_active_grant_event_ids = [''e1''],
        epoch_source_events_sha256 = ap_source_events_sha256 r,
        epoch_grant_set_sha256 = event_set_sha256 ?ordered GRANT,
        epoch_revocation_set_sha256 = event_set_sha256 ?ordered REVOKE,
        epoch_projection_sha256 = ap_projection_sha256 r,
        epoch_authority_context_sha256 = epoch_context_sha256 [''artifact.write'', ''read''] [''artifact.write''],
        epoch_next_known_transition_at = Some (sample_time 6),
        epoch_effect_performed = False, epoch_operational_authority = False,
        epoch_action_authority = False, epoch_execution_authority = False,
        epoch_schema_version = AUTHORITY_EPOCH_SCHEMA_VERSION\<rparr>"
  have req: "require_sha256 c (JStr (sha256_hex x)) l = Inr (sha256_hex x)" for c x l
    by (simp add: require_sha256_Ok_iff)
  have alice: "require_text c (JStr ''alice'') l 256 = Inr ''alice''" for c l
    by (simp add: require_text_def is_control_def)
  have "epoch_build ''alice'' (sha256_hex ''policy'') [''artifact.write'', ''read''] sample_events (sample_time 4) = epoch_init e"
    unfolding epoch_build_def Let_def epoch_helpers alice req t ids srcs rbind.simps
    by (simp add: p r sample_transition e_def sorted_set_def)
  moreover have ok: "epoch_ok e"
    using r by (simp add: e_def epoch_ok_def sample_is_canonical sample_later event_set_sha256_def
        epoch_context_sha256_def canonical_texts_def plain_text_def is_control_def)
  ultimately have "epoch_build ''alice'' (sha256_hex ''policy'') [''artifact.write'', ''read''] sample_events (sample_time 4) = Inr e"
    by (simp add: epoch_init_Ok_iff)
  then show thesis by (rule that) (use ok in \<open>simp_all add: e_def\<close>)
qed

section \<open>Properties\<close>

text \<open>C36: An epoch's grants cannot silently go stale: replaying the same events at any instant from
  the epoch's observation up to, but not including, its next known transition (or for ever, when it
  has none) succeeds and yields exactly the grants and applied events the epoch recorded.  It holds for every
  form of timestamp the code accepts, although the epoch and the projection read a \<open>Z\<close> differently.\<close>

theorem grants_stable_until_transition:
  assumes "epoch_build pid policy ceiling events observed_at = Inr e"
    and "canonical_utc (epoch_observed_at e) t0"
    and "ap_utc later ''observed_at'' = Inr t1" and "instant t0 \<le> instant t1"
    and "\<forall>s t. epoch_next_known_transition_at e = Some s \<longrightarrow> canonical_utc s t \<longrightarrow> instant t1 < instant t"
  shows "\<exists>r. ap_project ceiling events later = Inr r \<and> ap_grants r = epoch_grants e
    \<and> sort (ap_source_event_ids r) = epoch_applied_event_ids e"
proof (rule epoch_build_dest [OF assms(1)], goal_cases)
  case (1 o' t0' r tr)
  have t0: "canonical_utc o' t0" using assms(2) 1(7) by simp
  have before: "instant t1 < instant t" if "tr = Some s" "canonical_utc s t" for s t
    using assms(5) 1(13) that by blast
  from ap_project_stable [OF 1(3) t0 1(4) _ assms(3,4) before] 1(9,11) show ?thesis by fastforce
qed

theorem grants_stable_until_transition_witness:
  "\<exists>r. ap_project [''artifact.write'', ''read''] sample_events (sample_time 5) = Inr r \<and> ap_grants r = [''artifact.write'']"
proof -
  obtain e where e: "epoch_build ''alice'' (sha256_hex ''policy'') [''artifact.write'', ''read''] sample_events (sample_time 4) = Inr e"
    and g: "epoch_grants e = [''artifact.write'']" and o': "epoch_observed_at e = sample_time 4"
    and n: "epoch_next_known_transition_at e = Some (sample_time 6)" by (rule sample_epoch)
  have t0: "canonical_utc (epoch_observed_at e) (sample_t 4)" unfolding o' by (simp add: sample_canonical)
  have "\<forall>s t. epoch_next_known_transition_at e = Some s \<longrightarrow> canonical_utc s t \<longrightarrow> instant (sample_t 5) < instant t"
    using n canonical_utc_unique [OF sample_canonical [of 6]] sample_instant(1) [of 5 6] by auto
  from grants_stable_until_transition [OF e t0 sample_ap_utc _ this] g show ?thesis
    by (auto simp: sample_instant)
qed

text \<open>A built epoch records exactly the replay of its events at its observation instant,
  within the ceiling, with its next transition strictly later; it carries no authority flag, and
  the document it prints reads back as the same epoch.\<close>

theorem epoch_build_describes_replay:
  assumes "epoch_build pid policy ceiling events observed_at = Inr e"
  shows "(\<exists>r. ap_project ceiling events (epoch_observed_at e) = Inr r \<and>
      epoch_grants e = ap_grants r \<and> epoch_ceiling e = ap_ceiling r \<and>
      set (epoch_applied_event_ids e) = set (ap_source_event_ids r))
    \<and> set (epoch_grants e) \<subseteq> set (epoch_ceiling e)
    \<and> set (epoch_known_event_ids e) = ae_event_id ` set events
    \<and> (\<forall>t. epoch_next_known_transition_at e = Some t \<longrightarrow> later_utc t (epoch_observed_at e))
    \<and> \<not> epoch_effect_performed e \<and> \<not> epoch_operational_authority e \<and> \<not> epoch_action_authority e
    \<and> \<not> epoch_execution_authority e
    \<and> epoch_from_dict (epoch_to_dict e) = Inr e"
proof (rule epoch_build_dest [OF assms], goal_cases)
  case (1 o' t0 r tr)
  have "epoch_from_dict (epoch_to_dict e) = Inr e"
    unfolding epoch_to_dict_def by (rule epoch.roundtrip [where x = e]) (simp add: epoch_init_Ok_iff 1(6))
  then show ?thesis using 1 by (simp add: epoch_ok_def)
qed

theorem epoch_build_describes_replay_witness:
  "\<exists>e. epoch_build ''alice'' (sha256_hex ''policy'') [''artifact.write'', ''read''] sample_events (sample_time 4) = Inr e
     \<and> epoch_from_dict (epoch_to_dict e) = Inr e"
  by (rule sample_epoch) (use epoch_build_describes_replay in blast)

text \<open>The reader accepts a document exactly when it prints, canonically, like the sealed form
  of an epoch that satisfies every constructor check, and it returns that epoch; the order of the
  object's keys plays no part.\<close>

theorem epoch_document_accepted_iff:
  assumes "wf_json j"
  shows "epoch_from_dict j = Inr e \<longleftrightarrow> epoch_ok e \<and> dumps j = dumps (epoch_to_dict e)"
  unfolding epoch.accepts_iff [OF assms] epoch_to_dict_def by (simp only: epoch_init_Ok_iff dumps_eq_canon simp_thms)

theorem epoch_document_accepted_iff_witness:
  "\<exists>e. epoch_from_dict (epoch_to_dict e) = Inr e"
proof -
  obtain e where "epoch_ok e" by (rule sample_epoch)
  moreover from this have "wf_json (epoch_to_dict e)"
    unfolding epoch_to_dict_def by (intro epoch.wf_sealed) (simp add: epoch_init_Ok_iff)
  ultimately show ?thesis using epoch_document_accepted_iff by blast
qed

end
