(* ===== verification/Effect_Boundary.thy ===== *)
theory Effect_Boundary
  imports Spine_Models
begin

text \<open>
  \<open>phios/spine/effects.py\<close>: the effect vocabulary, \<open>normalize_effects\<close> and the fail-closed
  \<open>EffectBoundaryPolicy\<close>.  The declared effects reach \<open>normalize_effects\<close> as values of any
  type, so its argument is a list of JSON values.
\<close>

definition EFFECT_BOUNDARY_POLICY_SCHEMA_VERSION :: string where
  "EFFECT_BOUNDARY_POLICY_SCHEMA_VERSION = ''phios.effect_boundary_policy.v0.1''"

definition KNOWN_EFFECTS :: "string list" where
  "KNOWN_EFFECTS =
     [''none'', ''local_state.read'', ''local_state.change'', ''filesystem.read'', ''filesystem.change'',
      ''process.spawn'', ''network.request'', ''external_state.read'', ''external_state.change'',
      ''ipc.request'', ''display.observe'', ''display.control'', ''credential.read'',
      ''control_plane.read'', ''control_plane.change'', ''unknown'']"

definition ACTIVE_EFFECTS :: "string list" where
  "ACTIVE_EFFECTS =
     [''local_state.change'', ''filesystem.change'', ''process.spawn'', ''network.request'',
      ''external_state.change'', ''ipc.request'', ''display.control'', ''control_plane.change'']"

text \<open>The loop of \<open>normalize_effects\<close>; \<open>acc\<close> is the list \<open>normalized\<close> so far.\<close>

fun normalize_loop :: "string \<Rightarrow> string list \<Rightarrow> json list \<Rightarrow> string list result" where
  "normalize_loop label acc [] = Ok acc"
| "normalize_loop label acc (raw # rest) =
     (case raw of
        JStr s \<Rightarrow>
          if strip s = []
          then raise EffectBoundaryContractError (label @ '' entries must be non-empty strings'')
          else if strip s \<notin> set KNOWN_EFFECTS
          then raise EffectBoundaryContractError (label @ '' contains unsupported effect: '' @ strip s)
          else normalize_loop label (if strip s \<in> set acc then acc else acc @ [strip s]) rest
      | _ \<Rightarrow> raise EffectBoundaryContractError (label @ '' entries must be non-empty strings''))"

definition normalize_effects :: "json list \<Rightarrow> string \<Rightarrow> bool \<Rightarrow> string list result" where
  "normalize_effects effects label allow_empty =
     rbind (normalize_loop label [] effects) (\<lambda>normalized.
       let result = sort normalized in
       if result = [] \<and> \<not> allow_empty
       then raise EffectBoundaryContractError (label @ '' must not be empty'')
       else if ''none'' \<in> set result \<and> length result \<noteq> 1
       then raise EffectBoundaryContractError (label @ '' cannot combine none with another effect'')
       else Ok result)"

record effect_boundary_decision =
  eb_status :: string
  eb_reason :: string
  eb_capability_id :: string
  eb_capability_version :: string
  eb_capability_risk :: string
  eb_capability_effects :: "string list"
  eb_executor_effects :: "string list"
  eb_active_effects :: "string list"
  eb_effect_contract_match :: bool
  eb_classification_complete :: bool
  eb_semantic_read_label_conflict :: bool
  eb_policy_sha256 :: string
  eb_action_authority :: bool
  eb_execution_authority :: bool

definition eb_allowed :: "effect_boundary_decision \<Rightarrow> bool" where
  "eb_allowed d \<longleftrightarrow> eb_status d = ''CLASSIFIED''"

definition eb_to_dict :: "effect_boundary_decision \<Rightarrow> json" where
  "eb_to_dict d = JObj
     [(''schema_version'', JStr EFFECT_BOUNDARY_POLICY_SCHEMA_VERSION),
      (''status'', JStr (eb_status d)),
      (''reason'', JStr (eb_reason d)),
      (''capability_id'', JStr (eb_capability_id d)),
      (''capability_version'', JStr (eb_capability_version d)),
      (''capability_risk'', JStr (eb_capability_risk d)),
      (''capability_effects'', jstrs (eb_capability_effects d)),
      (''executor_effects'', jstrs (eb_executor_effects d)),
      (''active_effects'', jstrs (eb_active_effects d)),
      (''effect_contract_match'', JBool (eb_effect_contract_match d)),
      (''classification_complete'', JBool (eb_classification_complete d)),
      (''semantic_read_label_conflict'', JBool (eb_semantic_read_label_conflict d)),
      (''policy_sha256'', JStr (eb_policy_sha256 d)),
      (''action_authority'', JBool (eb_action_authority d)),
      (''execution_authority'', JBool (eb_execution_authority d))]"

definition effect_boundary_policy_sha256 :: string where
  "effect_boundary_policy_sha256 = canonical_sha256 (JObj
     [(''schema_version'', JStr EFFECT_BOUNDARY_POLICY_SCHEMA_VERSION),
      (''known_effects'', jstrs KNOWN_EFFECTS),
      (''active_effects'', jstrs ACTIVE_EFFECTS),
      (''rules'', jstrs
        [''capability_and_executor_effects_required'',
         ''unknown_is_incomplete'',
         ''capability_executor_effects_must_match'',
         ''risk_read_cannot_mask_active_effects'',
         ''method_names_do_not_define_effects''])])"

text \<open>\<open>EffectBoundaryPolicy.evaluate\<close>.\<close>

definition eb_evaluate :: "capability \<Rightarrow> string list \<Rightarrow> effect_boundary_decision result" where
  "eb_evaluate c executor_effects =
     rbind (normalize_effects (map JStr (cap_effects c)) ''capability effects'' True) (\<lambda>cap_eff.
     rbind (normalize_effects (map JStr executor_effects) ''executor effects'' True) (\<lambda>exec_eff.
     let contract_match = (cap_eff \<noteq> [] \<and> cap_eff = exec_eff);
         complete = (cap_eff \<noteq> [] \<and> exec_eff \<noteq> [] \<and> ''unknown'' \<notin> set cap_eff \<and> ''unknown'' \<notin> set exec_eff);
         active = filter (\<lambda>e. e \<in> set ACTIVE_EFFECTS) cap_eff;
         read_conflict = (cap_risk c = ''read'' \<and> active \<noteq> []);
         (status, reason) =
           (if cap_eff = [] then (''BLOCKED'', ''capability_effect_classification_missing'')
            else if exec_eff = [] then (''BLOCKED'', ''executor_effect_classification_missing'')
            else if \<not> complete then (''BLOCKED'', ''effect_classification_unknown'')
            else if \<not> contract_match then (''BLOCKED'', ''capability_executor_effect_contract_mismatch'')
            else if read_conflict then (''BLOCKED'', ''read_risk_label_conflicts_with_active_effects'')
            else (''CLASSIFIED'', ''effect_contract_classified''))
     in Ok \<lparr>eb_status = status, eb_reason = reason, eb_capability_id = cap_id c,
            eb_capability_version = cap_version c, eb_capability_risk = cap_risk c,
            eb_capability_effects = cap_eff, eb_executor_effects = exec_eff, eb_active_effects = active,
            eb_effect_contract_match = contract_match, eb_classification_complete = complete,
            eb_semantic_read_label_conflict = read_conflict,
            eb_policy_sha256 = effect_boundary_policy_sha256,
            eb_action_authority = False, eb_execution_authority = False\<rparr>))"

section \<open>Lemmas\<close>

text \<open>What \<open>normalize_effects\<close> returns, as a function of the stripped names.\<close>

definition declared_effects_ok :: "bool \<Rightarrow> string list \<Rightarrow> bool" where
  "declared_effects_ok allow_empty xs \<longleftrightarrow>
     set (map strip xs) \<subseteq> set KNOWN_EFFECTS \<and> (xs \<noteq> [] \<or> allow_empty) \<and>
     (''none'' \<in> set (map strip xs) \<longrightarrow> set (map strip xs) = {''none''})"

lemma Nil_not_known: "[] \<notin> set KNOWN_EFFECTS"
  by (simp add: KNOWN_EFFECTS_def)

lemma normalize_loop_Ok_iff:
  "distinct acc \<Longrightarrow> normalize_loop label acc (map JStr xs) = Inr ys \<longleftrightarrow>
     set (map strip xs) \<subseteq> set KNOWN_EFFECTS \<and> ys = acc @ rev (remdups (rev (filter (\<lambda>e. e \<notin> set acc) (map strip xs))))"
proof (induction xs arbitrary: acc)
  case Nil
  then show ?case by auto
next
  case (Cons x xs)
  let ?s = "strip x"
  show ?case
  proof (cases "?s \<in> set KNOWN_EFFECTS")
    case True
    then have ne: "?s \<noteq> []" using Nil_not_known by metis
    show ?thesis
    proof (cases "?s \<in> set acc")
      case True
      then show ?thesis using Cons ne \<open>?s \<in> set KNOWN_EFFECTS\<close> by simp
    next
      case False
      have swap: "rev (remdups (rev (filter (\<lambda>e. e \<notin> set acc) (map strip (x # xs)))))
          = ?s # rev (remdups (rev (filter (\<lambda>e. e \<notin> set (acc @ [?s])) (map strip xs))))"
      proof -
        have *: "remdups (zs @ [a]) = remdups (filter (\<lambda>e. e \<noteq> a) zs) @ [a]" for zs :: "string list" and a
          by (induction zs) auto
        have "rev (filter (\<lambda>e. e \<notin> set (acc @ [?s])) (map strip xs))
            = filter (\<lambda>e. e \<noteq> ?s) (rev (filter (\<lambda>e. e \<notin> set acc) (map strip xs)))"
          by (simp add: rev_filter [symmetric] conj_commute)
        then show ?thesis using False by (simp add: *)
      qed
      have "distinct (acc @ [?s])" using Cons.prems False by simp
      from Cons.IH [OF this] show ?thesis
        using True ne False unfolding swap by simp
    qed
  next
    case False
    then show ?thesis by auto
  qed
qed

lemma normalize_effects_Ok_iff:
  "normalize_effects (map JStr xs) label allow_empty = Inr ys \<longleftrightarrow>
     ys = sorted_set (map strip xs) \<and> declared_effects_ok allow_empty xs"
proof -
  let ?n = "rev (remdups (rev (map strip xs)))"
  have s: "sort ?n = sorted_set (map strip xs)"
    by (rule sorted_distinct_set_unique) simp_all
  have len: "length (sorted_set (map strip xs)) = 1 \<longleftrightarrow> set (map strip xs) = {''none''}"
    if "''none'' \<in> set (map strip xs)"
  proof -
    have "length (sorted_set (map strip xs)) = card (set (map strip xs))"
      by (metis distinct_card distinct_sorted_set set_sorted_set)
    moreover have "card (set (map strip xs)) = 1 \<longleftrightarrow> set (map strip xs) = {''none''}"
      using that by (metis card_1_singletonE is_singletonI is_singleton_altdef singletonD)
    ultimately show ?thesis by simp
  qed
  show ?thesis
    using len
    by (auto simp: normalize_effects_def rbind_Ok_iff normalize_loop_Ok_iff s Let_def declared_effects_ok_def
        split: if_splits)
qed

lemma known_strip: "e \<in> set KNOWN_EFFECTS \<Longrightarrow> strip e = e"
  by (intro strip_id) (auto simp: KNOWN_EFFECTS_def is_space_def)

lemma known_plain: "e \<in> set KNOWN_EFFECTS \<Longrightarrow> plain_text 64 e"
  by (auto simp: KNOWN_EFFECTS_def plain_text_def is_control_def)

lemma active_known: "set ACTIVE_EFFECTS \<subseteq> set KNOWN_EFFECTS"
  by (simp add: ACTIVE_EFFECTS_def KNOWN_EFFECTS_def)

lemma map_strip_known: "set xs \<subseteq> set KNOWN_EFFECTS \<Longrightarrow> map strip xs = xs"
  by (rule map_idI) (auto intro: known_strip)

lemma normalize_effects_class:
  "normalize_effects xs label ae = Inl e \<Longrightarrow> exn_class e = EffectBoundaryContractError"
proof -
  have *: "normalize_loop label acc xs = Inl e \<Longrightarrow> exn_class e = EffectBoundaryContractError" for acc
    by (induction label acc xs rule: normalize_loop.induct) (auto split: json.splits if_splits)
  assume "normalize_effects xs label ae = Inl e"
  then show ?thesis
    by (auto simp: normalize_effects_def rbind_Inl_iff Let_def dest: * split: if_splits)
qed

lemma normalize_effects_not_str:
  assumes "j \<in> set js" and "\<forall>s. j \<noteq> JStr s"
  shows "\<exists>e. normalize_effects js label ae = Inl e"
proof -
  have "\<exists>e. normalize_loop label acc js = Inl e" for acc
    using assms by (induction label acc js rule: normalize_loop.induct) (auto split: json.splits)
  then obtain e where "normalize_loop label [] js = Inl e" by blast
  then show ?thesis by (simp add: normalize_effects_def)
qed

lemma normalize_effects_strings:
  assumes "normalize_effects js label ae = Inr ys"
  obtains xs where "js = map JStr xs"
proof -
  have "\<forall>j \<in> set js. \<exists>s. j = JStr s"
    using normalize_effects_not_str [of _ js label ae] assms by fastforce
  then have "js = map JStr (map (\<lambda>j. case j of JStr s \<Rightarrow> s) js)"
    by (induction js) auto
  then show thesis by (rule that)
qed

section \<open>Properties\<close>

text \<open>What \<open>normalize_effects\<close> returns is canonical: the known effects named by the stripped
  declarations, sorted and without duplicates, never none together with another effect, and never
  empty unless allowed; normalising again changes nothing, and neither the order nor the repetition
  of the declarations matters.\<close>

theorem normalized_effects_canonical:
  assumes "normalize_effects js label allow_empty = Inr ys"
  shows "sorted ys \<and> distinct ys \<and> set ys \<subseteq> set KNOWN_EFFECTS
    \<and> (ys = [] \<longrightarrow> allow_empty) \<and> (''none'' \<in> set ys \<longrightarrow> ys = [''none''])
    \<and> JStr ` set ys = (\<lambda>j. case j of JStr s \<Rightarrow> JStr (strip s)) ` set js
    \<and> normalize_effects (map JStr ys) label' allow_empty = Inr ys
    \<and> (\<forall>js'. set js' = set js \<longrightarrow> normalize_effects js' label allow_empty = Inr ys)"
proof -
  from assms obtain xs where js: "js = map JStr xs" by (rule normalize_effects_strings)
  from assms have ys: "ys = sorted_set (map strip xs)" and d: "declared_effects_ok allow_empty xs"
    unfolding js normalize_effects_Ok_iff by blast+
  have s: "set ys = strip ` set xs" by (simp add: ys)
  have none: "ys = [''none'']" if "''none'' \<in> set ys"
  proof -
    have "set (map strip xs) = set [''none'']" using d that unfolding s by (simp add: declared_effects_ok_def)
    then have "ys = sorted_set [''none'']" unfolding ys by (rule sorted_set_cong)
    then show ?thesis by (simp add: sorted_set_def)
  qed
  have again: "normalize_effects (map JStr ys) label' allow_empty = Inr ys"
  proof -
    have m: "map strip ys = ys" using d by (intro map_strip_known) (simp add: s declared_effects_ok_def)
    have e: "ys \<noteq> [] \<or> allow_empty" using d by (auto simp: ys declared_effects_ok_def)
    have "ys = sorted_set ys" by (simp add: ys)
    moreover have "set ys \<subseteq> set KNOWN_EFFECTS" using d by (simp add: s declared_effects_ok_def)
    moreover have "''none'' \<in> set ys \<longrightarrow> set ys = {''none''}" using none by (metis empty_set list.simps(15))
    ultimately show ?thesis unfolding normalize_effects_Ok_iff declared_effects_ok_def m using e by blast
  qed
  have perm: "normalize_effects js' label allow_empty = Inr ys" if j: "set js' = set js" for js'
  proof -
    have "\<forall>j \<in> set js'. \<exists>s. j = JStr s" unfolding j js by auto
    then have js': "js' = map JStr (map (\<lambda>j. case j of JStr s \<Rightarrow> s) js')" by (induction js') auto
    then obtain zs where zs: "js' = map JStr zs" by blast
    have "JStr ` set zs = JStr ` set xs" using j unfolding zs js by simp
    then have z: "set zs = set xs" by (simp add: inj_image_eq_iff inj_def)
    have "sorted_set (map strip zs) = ys" unfolding ys by (rule sorted_set_cong) (simp add: z)
    moreover have "zs = [] \<longleftrightarrow> xs = []" using z by (metis set_empty)
    ultimately show ?thesis using d z unfolding zs normalize_effects_Ok_iff by (simp add: declared_effects_ok_def)
  qed
  have "JStr ` set ys = (\<lambda>j. case j of JStr s \<Rightarrow> JStr (strip s)) ` set js"
    unfolding s js by (simp add: image_image)
  with d none again perm show ?thesis unfolding s by (auto simp: declared_effects_ok_def ys)
qed

theorem normalized_effects_canonical_witness:
  "normalize_effects [JStr ''process.spawn '', JStr '' network.request'', JStr ''process.spawn''] ''l'' False
     = Inr [''network.request'', ''process.spawn''] \<and>
   normalize_effects (map JStr [''network.request'', ''process.spawn'']) ''m'' False
     = Inr [''network.request'', ''process.spawn'']"
proof -
  have n: "normalize_effects [JStr ''process.spawn '', JStr '' network.request'', JStr ''process.spawn''] ''l'' False
     = Inr [''network.request'', ''process.spawn'']" by code_simp
  from normalized_effects_canonical [OF n, of "''m''"] n show ?thesis by blast
qed

text \<open>The effect boundary fails closed: a capability is classified exactly when its declared
  effects and its executor's are the same non-empty set, none of them unknown, and a capability
  labelled as a read declares no active effect.  The decision never carries authority.\<close>

theorem classified_iff:
  assumes "eb_evaluate c executor_effects = Inr d"
  shows "(eb_allowed d \<longleftrightarrow>
      cap_effects c \<noteq> [] \<and> strip ` set (cap_effects c) = strip ` set executor_effects
      \<and> ''unknown'' \<notin> strip ` set (cap_effects c)
      \<and> (cap_risk c = ''read'' \<longrightarrow> strip ` set (cap_effects c) \<inter> set ACTIVE_EFFECTS = {}))
    \<and> \<not> eb_action_authority d \<and> \<not> eb_execution_authority d"
proof -
  from assms obtain ce ee where n: "normalize_effects (map JStr (cap_effects c)) ''capability effects'' True = Inr ce"
    "normalize_effects (map JStr executor_effects) ''executor effects'' True = Inr ee"
    unfolding eb_evaluate_def by (elim rbind_OkE)
  then have ce: "ce = sorted_set (map strip (cap_effects c))" and ee: "ee = sorted_set (map strip executor_effects)"
    by (simp_all add: normalize_effects_Ok_iff)
  have eq: "ce = ee \<longleftrightarrow> strip ` set (cap_effects c) = strip ` set executor_effects"
  proof
    assume "ce = ee"
    from arg_cong [OF this, of set] show "strip ` set (cap_effects c) = strip ` set executor_effects"
      by (simp add: ce ee)
  next
    assume "strip ` set (cap_effects c) = strip ` set executor_effects"
    then show "ce = ee" unfolding ce ee by (intro sorted_set_cong) simp
  qed
  have act: "filter (\<lambda>e. e \<in> set ACTIVE_EFFECTS) ce = [] \<longleftrightarrow> strip ` set (cap_effects c) \<inter> set ACTIVE_EFFECTS = {}"
    unfolding ce by (auto simp: filter_empty_conv)
  have mem: "''unknown'' \<in> set ce \<longleftrightarrow> ''unknown'' \<in> strip ` set (cap_effects c)"
    "''unknown'' \<in> set ee \<longleftrightarrow> ''unknown'' \<in> strip ` set executor_effects"
    "ce = [] \<longleftrightarrow> cap_effects c = []" "ee = [] \<longleftrightarrow> executor_effects = []" unfolding ce ee by auto
  have "(eb_allowed d \<longleftrightarrow> ce \<noteq> [] \<and> ''unknown'' \<notin> set ce \<and> ''unknown'' \<notin> set ee \<and> ce = ee \<and>
        \<not> (cap_risk c = ''read'' \<and> filter (\<lambda>e. e \<in> set ACTIVE_EFFECTS) ce \<noteq> []))
      \<and> \<not> eb_action_authority d \<and> \<not> eb_execution_authority d"
    using assms unfolding eb_evaluate_def n rbind.simps Let_def
    by (auto simp: eb_allowed_def split: if_splits)
  then have "(eb_allowed d \<longleftrightarrow> ce \<noteq> [] \<and> ce = ee \<and> ''unknown'' \<notin> set ce \<and>
        (cap_risk c = ''read'' \<longrightarrow> filter (\<lambda>e. e \<in> set ACTIVE_EFFECTS) ce = []))
      \<and> \<not> eb_action_authority d \<and> \<not> eb_execution_authority d" by auto
  then show ?thesis unfolding eq act mem(1,3) .
qed

theorem classified_iff_witness:
  "\<exists>d. eb_evaluate \<lparr>cap_id = ''x'', cap_name = ''X'', cap_description = ''d'', cap_permissions = [],
      cap_effects = [''network.request''], cap_risk = ''low'', cap_version = ''1''\<rparr> [''network.request''] = Inr d
    \<and> eb_allowed d"
proof -
  let ?c = "\<lparr>cap_id = ''x'', cap_name = ''X'', cap_description = ''d'', cap_permissions = [],
      cap_effects = [''network.request''], cap_risk = ''low'', cap_version = ''1''\<rparr>"
  have n: "normalize_effects [JStr ''network.request''] l True = Inr [''network.request'']" for l
    using normalize_effects_Ok_iff [of "[''network.request'']" l True "[''network.request'']"]
    by (simp add: declared_effects_ok_def known_strip KNOWN_EFFECTS_def sorted_set_def)
  obtain d where d: "eb_evaluate ?c [''network.request''] = Inr d"
    by (simp add: eb_evaluate_def n Let_def split: prod.splits)
  have s: "strip ''network.request'' = ''network.request''" by (rule known_strip) (simp add: KNOWN_EFFECTS_def)
  from classified_iff [OF d] d s show ?thesis by auto
qed

end
