(* ===== verification/Effect_Intent.thy ===== *)
theory Effect_Intent
  imports Effect_Boundary
begin

text \<open>
  \<open>phios/effect_intent.py\<close>: the zero-authority declaration of the effects a capability
  invocation is meant to have, sealed by \<open>effect_intent_sha256\<close>.
\<close>

definition EFFECT_INTENT_SCHEMA_VERSION :: string where
  "EFFECT_INTENT_SCHEMA_VERSION = ''phios.effect_intent.v0.1''"

definition ei_require_text :: "json \<Rightarrow> string \<Rightarrow> nat \<Rightarrow> string result" where
  "ei_require_text = require_text EffectIntentContractError"

definition ei_require_sha256 :: "json \<Rightarrow> string \<Rightarrow> string result" where
  "ei_require_sha256 = require_sha256 EffectIntentContractError"

definition ei_require_timestamp :: "json \<Rightarrow> string \<Rightarrow> string result" where
  "ei_require_timestamp = require_timestamp EffectIntentContractError"

definition ei_normalize_declared_effects :: "json list \<Rightarrow> string list result" where
  "ei_normalize_declared_effects effects =
     rbind (rewrap EffectBoundaryContractError EffectIntentContractError
              (normalize_effects effects ''effect intent effects'' False)) (\<lambda>normalized.
       if ''unknown'' \<in> set normalized
       then raise EffectIntentContractError ''EffectIntent cannot declare unknown effects''
       else Ok normalized)"

definition ei_active_effects :: "string list \<Rightarrow> string list" where
  "ei_active_effects effects = filter (\<lambda>e. e \<in> set ACTIVE_EFFECTS) effects"

record effect_intent =
  ei_capability_id :: string
  ei_capability_version :: string
  ei_payload_sha256 :: string
  ei_declared_at :: string
  ei_effects_declared :: "string list"
  ei_evidence_ref_sha256s :: "string list"
  ei_effect_performed :: bool
  ei_operational_authority :: bool
  ei_action_authority :: bool
  ei_execution_authority :: bool
  ei_schema_version :: string

text \<open>\<open>__post_init__\<close>.\<close>

definition ei_init :: "effect_intent \<Rightarrow> effect_intent result" where
  "ei_init i = validated
     [ensure (ei_schema_version i = EFFECT_INTENT_SCHEMA_VERSION) EffectIntentContractError
        (''unsupported EffectIntent schema: '' @ ei_schema_version i),
      discard (ei_require_text (JStr (ei_capability_id i)) ''capability_id'' 256),
      discard (ei_require_text (JStr (ei_capability_version i)) ''capability_version'' 128),
      discard (ei_require_sha256 (JStr (ei_payload_sha256 i)) ''payload_sha256''),
      discard (ei_require_timestamp (JStr (ei_declared_at i)) ''declared_at''),
      rbind (ei_normalize_declared_effects (map JStr (ei_effects_declared i))) (\<lambda>normalized.
        ensure (normalized = ei_effects_declared i) EffectIntentContractError
          ''effects_declared must be sorted, unique, and canonical''),
      ensure (length (ei_evidence_ref_sha256s i) \<le> 64) EffectIntentContractError
        ''evidence_ref_sha256s exceeds 64 items'',
      ensure (sort (ei_evidence_ref_sha256s i) = ei_evidence_ref_sha256s i) EffectIntentContractError
        ''evidence_ref_sha256s must be sorted'',
      ensure (distinct (ei_evidence_ref_sha256s i)) EffectIntentContractError
        ''evidence_ref_sha256s must not contain duplicates'',
      first_error (map (\<lambda>digest. discard (ei_require_sha256 (JStr digest) ''evidence_ref_sha256''))
        (ei_evidence_ref_sha256s i)),
      ensure (\<not> ei_effect_performed i) EffectIntentContractError
        ''EffectIntent cannot claim that an effect was performed'',
      ensure (\<not> (ei_operational_authority i \<or> ei_action_authority i \<or> ei_execution_authority i))
        EffectIntentContractError
        ''EffectIntent cannot carry operational, action, or execution authority''] i"

definition ei_body :: "effect_intent \<Rightarrow> (string \<times> json) list" where
  "ei_body i =
     [(''schema_version'', JStr (ei_schema_version i)),
      (''capability_id'', JStr (ei_capability_id i)),
      (''capability_version'', JStr (ei_capability_version i)),
      (''payload_sha256'', JStr (ei_payload_sha256 i)),
      (''declared_at'', JStr (ei_declared_at i)),
      (''effects_declared'', jstrs (ei_effects_declared i)),
      (''active_effects'', jstrs (ei_active_effects (ei_effects_declared i))),
      (''evidence_ref_sha256s'', jstrs (ei_evidence_ref_sha256s i)),
      (''effect_performed'', JBool (ei_effect_performed i)),
      (''operational_authority'', JBool (ei_operational_authority i)),
      (''action_authority'', JBool (ei_action_authority i)),
      (''execution_authority'', JBool (ei_execution_authority i))]"

definition effect_intent_sha256 :: "effect_intent \<Rightarrow> string" where
  "effect_intent_sha256 i = canonical_sha256 (JObj (ei_body i))"

definition ei_to_dict :: "effect_intent \<Rightarrow> json" where
  "ei_to_dict i = sealed_dict ''effect_intent_sha256'' (ei_body i)"

definition ei_build :: "string \<Rightarrow> string \<Rightarrow> string \<Rightarrow> string \<Rightarrow> json list \<Rightarrow> string list \<Rightarrow> effect_intent result" where
  "ei_build capability_id capability_version payload_sha256 declared_at effects_declared refs =
     rbind (ei_normalize_declared_effects effects_declared) (\<lambda>effects.
       ei_init \<lparr>ei_capability_id = capability_id, ei_capability_version = capability_version,
         ei_payload_sha256 = payload_sha256, ei_declared_at = declared_at, ei_effects_declared = effects,
         ei_evidence_ref_sha256s = sorted_set refs, ei_effect_performed = False,
         ei_operational_authority = False, ei_action_authority = False, ei_execution_authority = False,
         ei_schema_version = EFFECT_INTENT_SCHEMA_VERSION\<rparr>)"

definition ei_from_dict :: "json \<Rightarrow> effect_intent result" where
  "ei_from_dict value =
     rbind (as_object EffectIntentContractError ''EffectIntent must be an object'' value) (\<lambda>data.
     rbind (check_fields EffectIntentContractError ''EffectIntent''
       [''schema_version'', ''capability_id'', ''capability_version'', ''payload_sha256'', ''declared_at'',
        ''effects_declared'', ''active_effects'', ''evidence_ref_sha256s'', ''effect_performed'',
        ''operational_authority'', ''action_authority'', ''execution_authority'', ''effect_intent_sha256'']
       data) (\<lambda>_.
     rbind (as_array EffectIntentContractError ''effects_declared must be an array''
       (dget data ''effects_declared'')) (\<lambda>effects_raw.
     rbind (rmap (\<lambda>item. ei_require_text item ''effects_declared item'' 64) effects_raw) (\<lambda>effects.
     rbind (as_array EffectIntentContractError ''evidence_ref_sha256s must be an array''
       (dget data ''evidence_ref_sha256s'')) (\<lambda>evidence_raw.
     rbind (rmap (\<lambda>item. ei_require_sha256 item ''evidence_ref_sha256'') evidence_raw) (\<lambda>evidence_refs.
     rbind (check_bools EffectIntentContractError
       [''effect_performed'', ''operational_authority'', ''action_authority'', ''execution_authority'']
       data) (\<lambda>_.
     rbind (ei_require_text (dget data ''schema_version'') ''schema_version'' 64) (\<lambda>schema.
     rbind (ei_require_text (dget data ''capability_id'') ''capability_id'' 256) (\<lambda>cid.
     rbind (ei_require_text (dget data ''capability_version'') ''capability_version'' 128) (\<lambda>cver.
     rbind (ei_require_sha256 (dget data ''payload_sha256'') ''payload_sha256'') (\<lambda>payload.
     rbind (ei_require_timestamp (dget data ''declared_at'') ''declared_at'') (\<lambda>declared.
     rbind (ei_init \<lparr>ei_capability_id = cid, ei_capability_version = cver, ei_payload_sha256 = payload,
       ei_declared_at = declared, ei_effects_declared = effects, ei_evidence_ref_sha256s = evidence_refs,
       ei_effect_performed = bool_of (dget data ''effect_performed''),
       ei_operational_authority = bool_of (dget data ''operational_authority''),
       ei_action_authority = bool_of (dget data ''action_authority''),
       ei_execution_authority = bool_of (dget data ''execution_authority''),
       ei_schema_version = schema\<rparr>) (\<lambda>intent.
     rbind (as_array EffectIntentContractError ''active_effects must be an array''
       (dget data ''active_effects'')) (\<lambda>active_raw.
     rbind (rmap (\<lambda>item. ei_require_text item ''active_effects item'' 64) active_raw) (\<lambda>active.
     rbind (ensure (active = ei_active_effects (ei_effects_declared intent)) EffectIntentContractError
       ''active_effects does not match declared effects'') (\<lambda>_.
     rbind (ensure (dget data ''effect_intent_sha256'' = JStr (effect_intent_sha256 intent))
       EffectIntentContractError ''effect_intent_sha256 does not match canonical EffectIntent'') (\<lambda>_.
     Ok intent)))))))))))))))))"

section \<open>Lemmas\<close>

lemmas ei_helpers = ei_require_text_def ei_require_sha256_def ei_require_timestamp_def

lemma require_timestamp_str: "require_timestamp cls v f = Inr s \<Longrightarrow> v = JStr s"
  by (auto simp: require_timestamp_def rbind_Ok_iff dest: parse_aware_valid)

lemma ei_normalize_Ok_iff:
  "ei_normalize_declared_effects (map JStr xs) = Inr ys \<longleftrightarrow>
     ys = sorted_set (map strip xs) \<and> declared_effects_ok False xs \<and> ''unknown'' \<notin> set ys"
  by (auto simp: ei_normalize_declared_effects_def rbind_Ok_iff rewrap_Ok_iff normalize_effects_Ok_iff
      split: if_splits)

text \<open>The fixed points of the normalisation: what a constructed intent can declare.\<close>

definition canonical_effects :: "string list \<Rightarrow> bool" where
  "canonical_effects xs \<longleftrightarrow>
     xs \<noteq> [] \<and> set xs \<subseteq> set KNOWN_EFFECTS \<and> ''unknown'' \<notin> set xs \<and> sorted xs \<and> distinct xs \<and>
     (''none'' \<in> set xs \<longrightarrow> xs = [''none''])"

lemma sorted_set_singleton: "sorted_set xs = [a] \<longleftrightarrow> set xs = {a}"
proof
  assume "set xs = {a}"
  then have "sorted_set xs = sorted_set [a]" by (intro sorted_set_cong) simp
  then show "sorted_set xs = [a]" by (simp add: sorted_set_def)
qed (metis set_sorted_set empty_set list.simps(15))

lemma ei_normalize_canonical:
  "ei_normalize_declared_effects (map JStr xs) = Inr ys \<Longrightarrow> canonical_effects ys"
proof -
  assume "ei_normalize_declared_effects (map JStr xs) = Inr ys"
  then have ys: "ys = sorted_set (map strip xs)" and d: "declared_effects_ok False xs" and u: "''unknown'' \<notin> set ys"
    unfolding ei_normalize_Ok_iff by blast+
  then have s: "set ys = set (map strip xs)" by simp
  have none: "''none'' \<in> set ys \<longrightarrow> ys = [''none'']"
    unfolding s using d unfolding ys sorted_set_singleton declared_effects_ok_def by blast
  have "ys \<noteq> []" "set ys \<subseteq> set KNOWN_EFFECTS"
    using d unfolding s declared_effects_ok_def by (simp_all add: ys)
  then show ?thesis unfolding canonical_effects_def using u none by (simp add: ys)
qed

lemma ei_normalize_fixed_iff:
  "ei_normalize_declared_effects (map JStr xs) = Inr xs \<longleftrightarrow> canonical_effects xs"
proof
  assume c: "canonical_effects xs"
  then have "map strip xs = xs" by (simp add: canonical_effects_def map_strip_known)
  moreover have "sorted_set xs = xs" using c by (simp add: canonical_effects_def sorted_set_id_iff)
  ultimately show "ei_normalize_declared_effects (map JStr xs) = Inr xs"
    using c unfolding ei_normalize_Ok_iff declared_effects_ok_def by (auto simp: canonical_effects_def)
qed (rule ei_normalize_canonical)

lemma ei_normalize_check_iff:
  "rbind (ei_normalize_declared_effects (map JStr xs)) (\<lambda>n. ensure (n = xs) c m) = Inr () \<longleftrightarrow> canonical_effects xs"
  by (auto simp: rbind_Ok_iff ei_normalize_fixed_iff)

lemma ei_init_Ok_iff:
  "ei_init i = Inr k \<longleftrightarrow> k = i \<and>
     ei_schema_version i = EFFECT_INTENT_SCHEMA_VERSION \<and>
     plain_text 256 (ei_capability_id i) \<and> plain_text 128 (ei_capability_version i) \<and>
     is_sha256 (ei_payload_sha256 i) \<and>
     (\<exists>s. require_timestamp EffectIntentContractError (JStr (ei_declared_at i)) ''declared_at'' = Inr s) \<and>
     canonical_effects (ei_effects_declared i) \<and>
     length (ei_evidence_ref_sha256s i) \<le> 64 \<and> sorted (ei_evidence_ref_sha256s i) \<and>
     distinct (ei_evidence_ref_sha256s i) \<and> list_all is_sha256 (ei_evidence_ref_sha256s i) \<and>
     \<not> ei_effect_performed i \<and> \<not> ei_operational_authority i \<and> \<not> ei_action_authority i \<and>
     \<not> ei_execution_authority i"
  unfolding ei_init_def validated_Ok_iff first_error_Ok_Cons first_error_Ok_Nil discard_Ok_iff ensure_Ok_iff
    ei_helpers require_text_Ok_iff require_sha256_Ok_iff ei_normalize_check_iff first_error_map_discard sort_id_iff
  by (simp add: list_all_iff)

lemma ei_init_id: "ei_init i = Inr k \<Longrightarrow> k = i"
  by (simp add: ei_init_Ok_iff)

lemma canonical_effects_plain: "canonical_effects xs \<Longrightarrow> list_all (plain_text 64) xs"
  by (auto simp: canonical_effects_def list_all_iff intro: known_plain)

lemma active_effects_plain: "canonical_effects xs \<Longrightarrow> list_all (plain_text 64) (ei_active_effects xs)"
  by (auto simp: canonical_effects_def ei_active_effects_def list_all_iff intro: known_plain)

lemma ei_schema_plain: "plain_text 64 EFFECT_INTENT_SCHEMA_VERSION"
  by (simp add: EFFECT_INTENT_SCHEMA_VERSION_def plain_text_def is_control_def)

lemmas ei_reads = ei_helpers as_object_Ok_iff check_fields_Ok_iff as_array_Ok_iff check_bools_Ok_iff
  rmap_require_text_Ok_iff rmap_require_sha256_Ok_iff require_text_Ok_iff require_sha256_Ok_iff ensure_Ok_iff

lemma ei_from_dict_dest:
  assumes "ei_from_dict (JObj d) = Inr x"
  shows "ei_init x = Inr x \<and> sealed_like d ''effect_intent_sha256'' (ei_body x)"
  using assms unfolding ei_from_dict_def
proof (elim rbind_OkE, goal_cases)
  case (1 d' _ eraw effects vraw refs _ schema cid cver payload declared i araw active)
  note facts = 1 [unfolded ei_reads]
  have x: "x = i" and d: "d' = d" using 1 by (simp_all add: as_object_Ok_iff)
  note i = ei_init_id [OF 1(13)]
  have "sealed_like d ''effect_intent_sha256'' (ei_body i)"
    using facts(2-12,14-17) require_timestamp_str [OF 1(12) [unfolded ei_helpers]]
    unfolding d sealed_like_def ei_body_def i by (auto simp: effect_intent_sha256_def ei_body_def)
  then show ?case using 1(13) i unfolding x by simp
qed

lemma ei_from_dict_intro:
  assumes "ei_init x = Inr x" and "sealed_like d ''effect_intent_sha256'' (ei_body x)"
  shows "ei_from_dict (JObj d) = Inr x"
proof -
  note init = assms(1) [unfolded ei_init_Ok_iff]
  then obtain s where t: "require_timestamp EffectIntentContractError (JStr (ei_declared_at x)) ''declared_at'' = Inr s"
    by blast
  from require_timestamp_str [OF this] t
  have time: "require_timestamp EffectIntentContractError (JStr (ei_declared_at x)) ''declared_at'' = Inr (ei_declared_at x)"
    by simp
  show ?thesis
    using assms(2) init time
    unfolding sealed_like_def ei_from_dict_def rbind_Ok_iff ei_reads ei_body_def
    by (cases x) (simp add: canonical_effects_plain active_effects_plain effect_intent_sha256_def ei_body_def
      ei_schema_plain ei_init_Ok_iff)
qed

interpretation ei: sealed_contract ei_init ei_body "''effect_intent_sha256''" ei_from_dict
proof unfold_locales
  fix x y
  show "ei_init x = Inr y \<Longrightarrow> y = x" by (rule ei_init_id)
  show "distinct (''effect_intent_sha256'' # map fst (ei_body x))" by (simp add: ei_body_def)
  show "list_all (\<lambda>kv. wf_json (snd kv)) (ei_body x)" by (simp add: ei_body_def list_all_iff)
  show "map fst (ei_body x) = map fst (ei_body y)" by (simp add: ei_body_def)
  show "ei_init x = Inr x \<Longrightarrow> ei_init y = Inr y \<Longrightarrow>
      map (\<lambda>kv. canon (snd kv)) (ei_body x) = map (\<lambda>kv. canon (snd kv)) (ei_body y) \<Longrightarrow> x = y"
    by (simp add: ei_body_def)
next
  fix d :: "(string \<times> json) list" and x
  assume "wf_json (JObj d)"
  show "ei_from_dict (JObj d) = Inr x \<longleftrightarrow>
      ei_init x = Inr x \<and> sealed_like d ''effect_intent_sha256'' (ei_body x)"
    using ei_from_dict_dest ei_from_dict_intro by blast
next
  fix j x
  show "ei_from_dict j = Inr x \<Longrightarrow> \<exists>d. j = JObj d"
    by (auto simp: ei_from_dict_def rbind_Ok_iff as_object_Ok_iff)
qed

section \<open>Properties\<close>

text \<open>C39: An intent only declares: whatever \<open>build\<close> returns declares canonical known effects (none
  of them unknown), lists as active exactly the declared effects that change something, cites each
  evidence digest once, carries no authority and no claim of an effect, and reads back unchanged.\<close>

theorem built_intent_declares_only:
  assumes "ei_build cid cver payload declared_at effects refs = Inr i"
  shows "canonical_effects (ei_effects_declared i)
    \<and> set (ei_active_effects (ei_effects_declared i)) = set (ei_effects_declared i) \<inter> set ACTIVE_EFFECTS
    \<and> ei_evidence_ref_sha256s i = sorted_set refs \<and> list_all is_sha256 (ei_evidence_ref_sha256s i)
    \<and> \<not> ei_effect_performed i \<and> \<not> ei_operational_authority i \<and> \<not> ei_action_authority i
    \<and> \<not> ei_execution_authority i
    \<and> ei_from_dict (ei_to_dict i) = Inr i"
proof -
  from assms obtain es where e: "ei_normalize_declared_effects effects = Inr es" and
    init: "ei_init \<lparr>ei_capability_id = cid, ei_capability_version = cver,
         ei_payload_sha256 = payload, ei_declared_at = declared_at, ei_effects_declared = es,
         ei_evidence_ref_sha256s = sorted_set refs, ei_effect_performed = False,
         ei_operational_authority = False, ei_action_authority = False, ei_execution_authority = False,
         ei_schema_version = EFFECT_INTENT_SCHEMA_VERSION\<rparr> = Inr i"
    unfolding ei_build_def by (elim rbind_OkE)
  note i = ei_init_id [OF init]
  have ok: "ei_init i = Inr i" using init i by simp
  have "ei_from_dict (ei_to_dict i) = Inr i" unfolding ei_to_dict_def by (rule ei.roundtrip [OF ok])
  moreover have "ei_evidence_ref_sha256s i = sorted_set refs" by (simp add: i)
  moreover have "set (ei_active_effects (ei_effects_declared i)) = set (ei_effects_declared i) \<inter> set ACTIVE_EFFECTS"
    by (auto simp: ei_active_effects_def)
  ultimately show ?thesis using ok by (simp add: ei_init_Ok_iff)
qed

theorem built_intent_declares_only_witness:
  "\<exists>i. ei_build ''net.fetch'' ''1'' (sha256_hex ''p'') (sample_time 4) [JStr ''network.request''] [] = Inr i
     \<and> canonical_effects (ei_effects_declared i)"
proof -
  have n: "ei_normalize_declared_effects [JStr ''network.request''] = Inr [''network.request'']"
    using ei_normalize_fixed_iff [of "[''network.request'']"] by (simp add: canonical_effects_def KNOWN_EFFECTS_def)
  have t: "require_timestamp EffectIntentContractError (JStr (sample_time 4)) ''declared_at'' = Inr (sample_time 4)"
    using parse_aware_isoformat [OF sample_canonical [of 4]] by (simp add: require_timestamp_def)
  obtain i where "ei_build ''net.fetch'' ''1'' (sha256_hex ''p'') (sample_time 4) [JStr ''network.request''] [] = Inr i"
    by (simp add: ei_build_def n ei_init_Ok_iff t canonical_effects_def KNOWN_EFFECTS_def plain_text_def
        is_control_def sorted_set_def)
  with built_intent_declares_only [OF this] show ?thesis by blast
qed

text \<open>The intent reader accepts a document exactly when it prints, canonically, like the sealed
  form of an intent that passes every constructor check, including the derived list of active
  effects.\<close>

theorem intent_document_accepted_iff:
  assumes "wf_json j"
  shows "ei_from_dict j = Inr i \<longleftrightarrow> ei_init i = Inr i \<and> dumps j = dumps (ei_to_dict i)"
  unfolding ei.accepts_iff [OF assms] ei_to_dict_def by (simp only: dumps_eq_canon)

theorem intent_document_accepted_iff_witness:
  "\<exists>i. ei_from_dict (ei_to_dict i) = Inr i \<and> ei_effects_declared i = [''network.request'']"
proof -
  let ?i = "\<lparr>ei_capability_id = ''net.fetch'', ei_capability_version = ''1'', ei_payload_sha256 = sha256_hex ''p'',
     ei_declared_at = sample_time 4, ei_effects_declared = [''network.request''], ei_evidence_ref_sha256s = [],
     ei_effect_performed = False, ei_operational_authority = False, ei_action_authority = False,
     ei_execution_authority = False, ei_schema_version = EFFECT_INTENT_SCHEMA_VERSION\<rparr>"
  have t: "require_timestamp EffectIntentContractError (JStr (sample_time 4)) ''declared_at'' = Inr (sample_time 4)"
    using parse_aware_isoformat [OF sample_canonical [of 4]] by (simp add: require_timestamp_def)
  have i: "ei_init ?i = Inr ?i"
    by (simp add: ei_init_Ok_iff t canonical_effects_def KNOWN_EFFECTS_def plain_text_def is_control_def)
  have "wf_json (ei_to_dict ?i)" unfolding ei_to_dict_def by (rule ei.wf_sealed [OF i])
  from intent_document_accepted_iff [OF this] i show ?thesis by (intro exI [of _ ?i]) simp
qed

end
