(* ===== verification/Enforcement_Profile.thy ===== *)
theory Enforcement_Profile
  imports Effect_Intent
begin

text \<open>
  \<open>phios/enforcement_profile.py\<close>: sealed enforcement rules and the trust map that says, for one
  effect intent, which declared effects a rule covers and which are enforced.
\<close>

definition ENFORCEMENT_PROFILE_SCHEMA_VERSION :: string where
  "ENFORCEMENT_PROFILE_SCHEMA_VERSION = ''phios.enforcement_profile.v0.1''"

definition ENFORCEMENT_RULE_SCHEMA_VERSION :: string where
  "ENFORCEMENT_RULE_SCHEMA_VERSION = ''phios.enforcement_rule.v0.1''"

definition ENFORCEMENT_LAYERS :: "string list" where
  "ENFORCEMENT_LAYERS =
     [''python_policy'', ''application_contract'', ''broker'', ''linux_permissions'', ''linux_namespaces'',
      ''resource_limits'', ''transport_boundary'', ''external_system'', ''none'', ''unknown'']"

definition TRUST_BOUNDARIES :: "string list" where
  "TRUST_BOUNDARIES =
     [''same_process'', ''process_boundary'', ''kernel_boundary'', ''transport_boundary'',
      ''external_boundary'', ''none'', ''unknown'']"

definition ENFORCEMENT_STATUSES :: "string list" where
  "ENFORCEMENT_STATUSES = [''enforced'', ''advisory'', ''not_enforced'', ''unknown'']"

definition er_require_text :: "json \<Rightarrow> string \<Rightarrow> nat \<Rightarrow> string result" where
  "er_require_text = require_text EnforcementProfileContractError"

definition er_require_sha256 :: "json \<Rightarrow> string \<Rightarrow> string result" where
  "er_require_sha256 = require_sha256 EnforcementProfileContractError"

text \<open>\<open>^[a-z0-9][a-z0-9._-]{0,127}$\<close> with \<open>fullmatch\<close>.\<close>

definition is_rule_char :: "char \<Rightarrow> bool" where
  "is_rule_char c \<longleftrightarrow> c \<in> set ''abcdefghijklmnopqrstuvwxyz0123456789''"

definition is_rule_id :: "string \<Rightarrow> bool" where
  "is_rule_id s \<longleftrightarrow> s \<noteq> [] \<and> length s \<le> 128 \<and> is_rule_char (hd s)
     \<and> list_all (\<lambda>c. is_rule_char c \<or> c \<in> set ''._-'') (tl s)"

definition er_normalize_effect_scope :: "json list \<Rightarrow> string \<Rightarrow> string list result" where
  "er_normalize_effect_scope effects label =
     rbind (rewrap EffectBoundaryContractError EnforcementProfileContractError
              (normalize_effects effects label True)) (\<lambda>normalized.
       if ''none'' \<in> set normalized
       then raise EnforcementProfileContractError (label @ '' cannot map the none effect'')
       else Ok normalized)"

section \<open>Rules\<close>

record enforcement_rule =
  er_rule_id :: string
  er_effect_scope :: "string list"
  er_constraint :: string
  er_layer :: string
  er_boundary :: string
  er_status :: string
  er_mechanism :: string
  er_evidence_ref_sha256s :: "string list"
  er_effect_performed :: bool
  er_operational_authority :: bool
  er_action_authority :: bool
  er_execution_authority :: bool
  er_schema_version :: string

text \<open>The checks that tie a rule's status to its layer, boundary and evidence.\<close>

definition er_status_checks :: "enforcement_rule \<Rightarrow> unit result" where
  "er_status_checks r =
     (if er_status r \<in> {''enforced'', ''advisory''} then
        first_error
          [ensure (er_layer r \<notin> {''none'', ''unknown''}) EnforcementProfileContractError
             (er_status r @ '' rules require a concrete enforcement layer''),
           ensure (er_boundary r \<notin> {''none'', ''unknown''}) EnforcementProfileContractError
             (er_status r @ '' rules require a concrete trust boundary''),
           ensure (er_evidence_ref_sha256s r \<noteq> []) EnforcementProfileContractError
             (er_status r @ '' rules require evidence references'')]
      else if er_status r = ''not_enforced'' then
        first_error
          [ensure (\<not> (er_layer r \<noteq> ''none'' \<or> er_boundary r \<noteq> ''none'')) EnforcementProfileContractError
             ''not_enforced rules must use none layer and none boundary'',
           ensure (er_evidence_ref_sha256s r = []) EnforcementProfileContractError
             ''not_enforced rules cannot cite enforcement evidence'']
      else if er_status r = ''unknown'' then
        ensure (\<not> (er_layer r \<noteq> ''unknown'' \<or> er_boundary r \<noteq> ''unknown'')) EnforcementProfileContractError
          ''unknown rules must use unknown layer and unknown boundary''
      else Ok ())"

text \<open>\<open>EnforcementRule.__post_init__\<close>.\<close>

definition er_init :: "enforcement_rule \<Rightarrow> enforcement_rule result" where
  "er_init r = validated
     [ensure (er_schema_version r = ENFORCEMENT_RULE_SCHEMA_VERSION) EnforcementProfileContractError
        (''unsupported enforcement rule schema: '' @ er_schema_version r),
      ensure (is_rule_id (er_rule_id r)) EnforcementProfileContractError
        ''rule_id must be a canonical lowercase identifier'',
      rbind (er_normalize_effect_scope (map JStr (er_effect_scope r)) ''enforcement rule effect_scope'')
        (\<lambda>normalized.
          if normalized = []
          then raise EnforcementProfileContractError ''enforcement rule effect_scope must not be empty''
          else ensure (normalized = er_effect_scope r) EnforcementProfileContractError
            ''effect_scope must be sorted, unique, and canonical''),
      discard (er_require_text (JStr (er_constraint r)) ''constraint'' 512),
      discard (er_require_text (JStr (er_mechanism r)) ''mechanism'' 512),
      ensure (er_layer r \<in> set ENFORCEMENT_LAYERS) EnforcementProfileContractError
        (''unsupported enforcement layer: '' @ er_layer r),
      ensure (er_boundary r \<in> set TRUST_BOUNDARIES) EnforcementProfileContractError
        (''unsupported trust boundary: '' @ er_boundary r),
      ensure (er_status r \<in> set ENFORCEMENT_STATUSES) EnforcementProfileContractError
        (''unsupported enforcement status: '' @ er_status r),
      ensure (length (er_evidence_ref_sha256s r) \<le> 64) EnforcementProfileContractError
        ''evidence_ref_sha256s exceeds 64 items'',
      ensure (sort (er_evidence_ref_sha256s r) = er_evidence_ref_sha256s r) EnforcementProfileContractError
        ''evidence_ref_sha256s must be sorted'',
      ensure (distinct (er_evidence_ref_sha256s r)) EnforcementProfileContractError
        ''evidence_ref_sha256s must not contain duplicates'',
      first_error (map (\<lambda>digest. discard (er_require_sha256 (JStr digest) ''evidence_ref_sha256''))
        (er_evidence_ref_sha256s r)),
      er_status_checks r,
      ensure (\<not> er_effect_performed r) EnforcementProfileContractError
        ''enforcement rules cannot claim an effect was performed'',
      ensure (\<not> (er_operational_authority r \<or> er_action_authority r \<or> er_execution_authority r))
        EnforcementProfileContractError ''enforcement rules cannot carry authority''] r"

definition er_body :: "enforcement_rule \<Rightarrow> (string \<times> json) list" where
  "er_body r =
     [(''schema_version'', JStr (er_schema_version r)),
      (''rule_id'', JStr (er_rule_id r)),
      (''effect_scope'', jstrs (er_effect_scope r)),
      (''constraint'', JStr (er_constraint r)),
      (''layer'', JStr (er_layer r)),
      (''boundary'', JStr (er_boundary r)),
      (''status'', JStr (er_status r)),
      (''mechanism'', JStr (er_mechanism r)),
      (''evidence_ref_sha256s'', jstrs (er_evidence_ref_sha256s r)),
      (''effect_performed'', JBool (er_effect_performed r)),
      (''operational_authority'', JBool (er_operational_authority r)),
      (''action_authority'', JBool (er_action_authority r)),
      (''execution_authority'', JBool (er_execution_authority r))]"

definition rule_sha256 :: "enforcement_rule \<Rightarrow> string" where
  "rule_sha256 r = canonical_sha256 (JObj (er_body r))"

definition er_to_dict :: "enforcement_rule \<Rightarrow> json" where
  "er_to_dict r = sealed_dict ''rule_sha256'' (er_body r)"

definition er_build :: "string \<Rightarrow> json list \<Rightarrow> string \<Rightarrow> string \<Rightarrow> string \<Rightarrow> string \<Rightarrow> string \<Rightarrow> string list
    \<Rightarrow> enforcement_rule result" where
  "er_build rule_id effect_scope constraint layer boundary status mechanism evidence =
     rbind (er_normalize_effect_scope effect_scope ''enforcement rule effect_scope'') (\<lambda>effects.
       er_init \<lparr>er_rule_id = rule_id, er_effect_scope = effects, er_constraint = constraint,
         er_layer = layer, er_boundary = boundary, er_status = status, er_mechanism = mechanism,
         er_evidence_ref_sha256s = sorted_set evidence, er_effect_performed = False,
         er_operational_authority = False, er_action_authority = False, er_execution_authority = False,
         er_schema_version = ENFORCEMENT_RULE_SCHEMA_VERSION\<rparr>)"

definition er_from_dict :: "json \<Rightarrow> enforcement_rule result" where
  "er_from_dict value =
     rbind (as_object EnforcementProfileContractError ''enforcement rule must be an object'' value) (\<lambda>data.
     rbind (check_fields EnforcementProfileContractError ''enforcement rule''
       [''schema_version'', ''rule_id'', ''effect_scope'', ''constraint'', ''layer'', ''boundary'', ''status'',
        ''mechanism'', ''evidence_ref_sha256s'', ''effect_performed'', ''operational_authority'',
        ''action_authority'', ''execution_authority'', ''rule_sha256''] data) (\<lambda>_.
     rbind (as_array EnforcementProfileContractError ''effect_scope must be an array''
       (dget data ''effect_scope'')) (\<lambda>scope_raw.
     rbind (rmap (\<lambda>item. er_require_text item ''effect_scope item'' 64) scope_raw) (\<lambda>effect_scope.
     rbind (as_array EnforcementProfileContractError ''evidence_ref_sha256s must be an array''
       (dget data ''evidence_ref_sha256s'')) (\<lambda>evidence_raw.
     rbind (rmap (\<lambda>item. er_require_sha256 item ''evidence_ref_sha256'') evidence_raw) (\<lambda>evidence.
     rbind (check_bools EnforcementProfileContractError
       [''effect_performed'', ''operational_authority'', ''action_authority'', ''execution_authority'']
       data) (\<lambda>_.
     rbind (er_require_text (dget data ''schema_version'') ''schema_version'' 64) (\<lambda>schema.
     rbind (er_require_text (dget data ''rule_id'') ''rule_id'' 128) (\<lambda>rule_id.
     rbind (er_require_text (dget data ''constraint'') ''constraint'' 512) (\<lambda>constraint.
     rbind (er_require_text (dget data ''layer'') ''layer'' 64) (\<lambda>layer.
     rbind (er_require_text (dget data ''boundary'') ''boundary'' 64) (\<lambda>boundary.
     rbind (er_require_text (dget data ''status'') ''status'' 64) (\<lambda>status.
     rbind (er_require_text (dget data ''mechanism'') ''mechanism'' 512) (\<lambda>mechanism.
     rbind (er_init \<lparr>er_rule_id = rule_id, er_effect_scope = effect_scope, er_constraint = constraint,
         er_layer = layer, er_boundary = boundary, er_status = status, er_mechanism = mechanism,
         er_evidence_ref_sha256s = evidence,
         er_effect_performed = bool_of (dget data ''effect_performed''),
         er_operational_authority = bool_of (dget data ''operational_authority''),
         er_action_authority = bool_of (dget data ''action_authority''),
         er_execution_authority = bool_of (dget data ''execution_authority''),
         er_schema_version = schema\<rparr>) (\<lambda>rule.
     rbind (ensure (dget data ''rule_sha256'' = JStr (rule_sha256 rule)) EnforcementProfileContractError
       ''rule_sha256 does not match canonical enforcement rule'') (\<lambda>_.
     Ok rule))))))))))))))))"

lemmas er_helpers = er_require_text_def er_require_sha256_def

definition canonical_scope :: "string list \<Rightarrow> bool" where
  "canonical_scope xs \<longleftrightarrow>
     xs \<noteq> [] \<and> set xs \<subseteq> set KNOWN_EFFECTS \<and> ''none'' \<notin> set xs \<and> sorted xs \<and> distinct xs"

lemma er_scope_Ok_iff:
  "er_normalize_effect_scope (map JStr xs) label = Inr ys \<longleftrightarrow>
     ys = sorted_set (map strip xs) \<and> set ys \<subseteq> set KNOWN_EFFECTS \<and> ''none'' \<notin> set ys"
proof -
  have "set (sorted_set (map strip xs)) = set (map strip xs)" by simp
  then show ?thesis
    unfolding er_normalize_effect_scope_def rbind_Ok_iff rewrap_Ok_iff normalize_effects_Ok_iff declared_effects_ok_def
    by (auto split: if_splits simp del: set_sorted_set)
qed

lemma er_scope_check_iff:
  "rbind (er_normalize_effect_scope (map JStr xs) label) (\<lambda>n. if n = [] then raise c m else ensure (n = xs) c m') = Inr ()
   \<longleftrightarrow> canonical_scope xs"
proof
  assume "rbind (er_normalize_effect_scope (map JStr xs) label) (\<lambda>n. if n = [] then raise c m else ensure (n = xs) c m') = Inr ()"
  then have "er_normalize_effect_scope (map JStr xs) label = Inr xs" "xs \<noteq> []"
    by (auto simp: rbind_Ok_iff split: if_splits)
  then show "canonical_scope xs"
    unfolding er_scope_Ok_iff canonical_scope_def by (metis sorted_sorted_set distinct_sorted_set)
next
  assume c: "canonical_scope xs"
  then have "map strip xs = xs" "sorted_set xs = xs"
    by (simp_all add: canonical_scope_def map_strip_known sorted_set_id_iff)
  then have "er_normalize_effect_scope (map JStr xs) label = Inr xs"
    using c by (simp add: er_scope_Ok_iff canonical_scope_def)
  then show "rbind (er_normalize_effect_scope (map JStr xs) label) (\<lambda>n. if n = [] then raise c m else ensure (n = xs) c m') = Inr ()"
    using c by (simp add: canonical_scope_def)
qed

text \<open>What a status claims about layer, boundary and evidence.\<close>

definition status_supported :: "string \<Rightarrow> string \<Rightarrow> string \<Rightarrow> string list \<Rightarrow> bool" where
  "status_supported status layer boundary evidence \<longleftrightarrow>
     (status \<in> {''enforced'', ''advisory''} \<longrightarrow>
        layer \<notin> {''none'', ''unknown''} \<and> boundary \<notin> {''none'', ''unknown''} \<and> evidence \<noteq> []) \<and>
     (status = ''not_enforced'' \<longrightarrow> layer = ''none'' \<and> boundary = ''none'' \<and> evidence = []) \<and>
     (status = ''unknown'' \<longrightarrow> layer = ''unknown'' \<and> boundary = ''unknown'')"

lemma er_status_checks_Ok_iff:
  "er_status_checks r = Inr () \<longleftrightarrow>
     status_supported (er_status r) (er_layer r) (er_boundary r) (er_evidence_ref_sha256s r)"
  by (simp add: er_status_checks_def status_supported_def first_error_Ok_Cons)

lemma er_init_Ok_iff:
  "er_init r = Inr k \<longleftrightarrow> k = r \<and>
     er_schema_version r = ENFORCEMENT_RULE_SCHEMA_VERSION \<and> is_rule_id (er_rule_id r) \<and>
     canonical_scope (er_effect_scope r) \<and>
     plain_text 512 (er_constraint r) \<and> plain_text 512 (er_mechanism r) \<and>
     er_layer r \<in> set ENFORCEMENT_LAYERS \<and> er_boundary r \<in> set TRUST_BOUNDARIES \<and>
     er_status r \<in> set ENFORCEMENT_STATUSES \<and>
     length (er_evidence_ref_sha256s r) \<le> 64 \<and> sorted (er_evidence_ref_sha256s r) \<and>
     distinct (er_evidence_ref_sha256s r) \<and> list_all is_sha256 (er_evidence_ref_sha256s r) \<and>
     status_supported (er_status r) (er_layer r) (er_boundary r) (er_evidence_ref_sha256s r) \<and>
     \<not> er_effect_performed r \<and> \<not> er_operational_authority r \<and> \<not> er_action_authority r \<and>
     \<not> er_execution_authority r"
  unfolding er_init_def validated_Ok_iff first_error_Ok_Cons first_error_Ok_Nil discard_Ok_iff ensure_Ok_iff
    er_helpers require_text_Ok_iff require_sha256_Ok_iff er_scope_check_iff first_error_map_discard sort_id_iff
    er_status_checks_Ok_iff
  by (simp add: list_all_iff)

lemma er_init_id: "er_init r = Inr k \<Longrightarrow> k = r"
  by (simp add: er_init_Ok_iff)

lemmas er_reads = er_helpers as_object_Ok_iff check_fields_Ok_iff as_array_Ok_iff check_bools_Ok_iff
  rmap_require_text_Ok_iff rmap_require_sha256_Ok_iff require_text_Ok_iff require_sha256_Ok_iff ensure_Ok_iff

lemma er_from_dict_dest:
  assumes "er_from_dict (JObj d) = Inr x"
  shows "er_init x = Inr x \<and> sealed_like d ''rule_sha256'' (er_body x)"
  using assms unfolding er_from_dict_def
proof (elim rbind_OkE, goal_cases)
  case (1 d' _ sraw scope vraw evidence _ schema rid constr layer boundary status mechanism i)
  note facts = 1 [unfolded er_reads]
  have x: "x = i" and d: "d' = d" using 1 by (simp_all add: as_object_Ok_iff)
  note i = er_init_id [OF 1(15)]
  have "sealed_like d ''rule_sha256'' (er_body i)"
    using facts(2-14,16) unfolding d sealed_like_def er_body_def i
    by (simp add: rule_sha256_def er_body_def)
  then show ?case using 1(15) i unfolding x by simp
qed

lemma is_rule_id_plain: "is_rule_id s \<Longrightarrow> plain_text 128 s"
proof -
  assume s: "is_rule_id s"
  have "\<not> is_control c" if "is_rule_char c \<or> c \<in> set ''._-''" for c
    using that by (auto simp: is_rule_char_def is_control_def)
  with s show ?thesis by (cases s) (auto simp: is_rule_id_def plain_text_def list_all_iff list_ex_iff)
qed

lemma er_words_plain:
  "w \<in> set ENFORCEMENT_LAYERS \<Longrightarrow> plain_text 64 w"
  "w \<in> set TRUST_BOUNDARIES \<Longrightarrow> plain_text 64 w"
  "w \<in> set ENFORCEMENT_STATUSES \<Longrightarrow> plain_text 64 w"
  "plain_text 64 ENFORCEMENT_RULE_SCHEMA_VERSION"
  by (auto simp: ENFORCEMENT_LAYERS_def TRUST_BOUNDARIES_def ENFORCEMENT_STATUSES_def
      ENFORCEMENT_RULE_SCHEMA_VERSION_def plain_text_def is_control_def)

lemma canonical_scope_plain: "canonical_scope xs \<Longrightarrow> list_all (plain_text 64) xs"
  by (auto simp: canonical_scope_def list_all_iff intro: known_plain)

lemma er_from_dict_intro:
  assumes "er_init x = Inr x" and "sealed_like d ''rule_sha256'' (er_body x)"
  shows "er_from_dict (JObj d) = Inr x"
proof -
  note init = assms(1) [unfolded er_init_Ok_iff]
  have "plain_text 64 (er_layer x)" "plain_text 64 (er_boundary x)" "plain_text 64 (er_status x)"
    "plain_text 128 (er_rule_id x)" "list_all (plain_text 64) (er_effect_scope x)"
    "plain_text 64 (er_schema_version x)"
    using init er_words_plain is_rule_id_plain canonical_scope_plain by simp_all
  then show ?thesis
    using assms(2) init
    unfolding sealed_like_def er_from_dict_def rbind_Ok_iff er_reads er_body_def
    by (cases x) (simp add: rule_sha256_def er_body_def er_init_Ok_iff)
qed

interpretation er: sealed_contract er_init er_body "''rule_sha256''" er_from_dict
proof unfold_locales
  fix x y
  show "er_init x = Inr y \<Longrightarrow> y = x" by (rule er_init_id)
  show "distinct (''rule_sha256'' # map fst (er_body x))" by (simp add: er_body_def)
  show "list_all (\<lambda>kv. wf_json (snd kv)) (er_body x)" by (simp add: er_body_def list_all_iff)
  show "map fst (er_body x) = map fst (er_body y)" by (simp add: er_body_def)
  show "er_init x = Inr x \<Longrightarrow> er_init y = Inr y \<Longrightarrow>
      map (\<lambda>kv. canon (snd kv)) (er_body x) = map (\<lambda>kv. canon (snd kv)) (er_body y) \<Longrightarrow> x = y"
    by (simp add: er_body_def)
next
  fix d :: "(string \<times> json) list" and x
  assume "wf_json (JObj d)"
  show "er_from_dict (JObj d) = Inr x \<longleftrightarrow> er_init x = Inr x \<and> sealed_like d ''rule_sha256'' (er_body x)"
    using er_from_dict_dest er_from_dict_intro by blast
next
  fix j x
  show "er_from_dict j = Inr x \<Longrightarrow> \<exists>d. j = JObj d"
    by (auto simp: er_from_dict_def rbind_Ok_iff as_object_Ok_iff)
qed

section \<open>Profiles\<close>

record enforcement_profile =
  prof_effect_intent_sha256 :: string
  prof_effects_declared :: "string list"
  prof_rules :: "enforcement_rule list"
  prof_effect_performed :: bool
  prof_operational_authority :: bool
  prof_action_authority :: bool
  prof_execution_authority :: bool
  prof_schema_version :: string

text \<open>\<open>EnforcementProfile.__post_init__\<close>; the rules are constructed objects already.\<close>

definition prof_init :: "enforcement_profile \<Rightarrow> enforcement_profile result" where
  "prof_init p = validated
     [ensure (prof_schema_version p = ENFORCEMENT_PROFILE_SCHEMA_VERSION) EnforcementProfileContractError
        (''unsupported enforcement profile schema: '' @ prof_schema_version p),
      discard (er_require_sha256 (JStr (prof_effect_intent_sha256 p)) ''effect_intent_sha256''),
      rbind (rewrap EffectBoundaryContractError EnforcementProfileContractError
          (normalize_effects (map JStr (prof_effects_declared p)) ''profile effects_declared'' False)) (\<lambda>normalized.
        ensure (normalized = prof_effects_declared p) EnforcementProfileContractError
          ''effects_declared must be sorted, unique, and canonical''),
      ensure (sort_key er_rule_id (prof_rules p) = prof_rules p) EnforcementProfileContractError
        ''enforcement rules must be sorted by rule_id'',
      ensure (distinct (map er_rule_id (prof_rules p))) EnforcementProfileContractError
        ''enforcement rule IDs must be unique'',
      ensure (\<not> (''none'' \<in> set (prof_effects_declared p) \<and> prof_rules p \<noteq> [])) EnforcementProfileContractError
        ''none EffectIntent cannot carry enforcement rules'',
      first_error (map (\<lambda>r. ensure (set (er_effect_scope r) \<subseteq> set (prof_effects_declared p))
          EnforcementProfileContractError ''enforcement rule references effects outside EffectIntent'')
        (prof_rules p)),
      ensure (\<not> prof_effect_performed p) EnforcementProfileContractError
        ''enforcement profile cannot claim an effect was performed'',
      ensure (\<not> (prof_operational_authority p \<or> prof_action_authority p \<or> prof_execution_authority p))
        EnforcementProfileContractError ''enforcement profile cannot carry authority''] p"

text \<open>The construction of a profile together with its rules.\<close>

definition prof_construct :: "enforcement_profile \<Rightarrow> enforcement_profile result" where
  "prof_construct p = rbind (rmap er_init (prof_rules p)) (\<lambda>_. prof_init p)"

definition mapped_effects :: "enforcement_profile \<Rightarrow> string list" where
  "mapped_effects p = sorted_set (concat (map er_effect_scope (prof_rules p)))"

definition unmapped_effects :: "enforcement_profile \<Rightarrow> string list" where
  "unmapped_effects p =
     (if prof_effects_declared p = [''none''] then []
      else filter (\<lambda>e. e \<notin> set (mapped_effects p)) (prof_effects_declared p))"

definition effects_with_enforced_rule :: "enforcement_profile \<Rightarrow> string list" where
  "effects_with_enforced_rule p =
     sorted_set (concat (map er_effect_scope (filter (\<lambda>r. er_status r = ''enforced'') (prof_rules p))))"

definition effects_without_enforced_rule :: "enforcement_profile \<Rightarrow> string list" where
  "effects_without_enforced_rule p =
     (if prof_effects_declared p = [''none''] then []
      else filter (\<lambda>e. e \<notin> set (effects_with_enforced_rule p)) (prof_effects_declared p))"

definition mapping_complete :: "enforcement_profile \<Rightarrow> bool" where
  "mapping_complete p \<longleftrightarrow> unmapped_effects p = []"

definition profile_status :: "enforcement_profile \<Rightarrow> string" where
  "profile_status p =
     (if prof_effects_declared p = [''none''] then ''no_effects''
      else if unmapped_effects p \<noteq> [] then ''mapping_gaps''
      else ''mapped'')"

definition prof_body :: "enforcement_profile \<Rightarrow> (string \<times> json) list" where
  "prof_body p =
     [(''schema_version'', JStr (prof_schema_version p)),
      (''effect_intent_sha256'', JStr (prof_effect_intent_sha256 p)),
      (''effects_declared'', jstrs (prof_effects_declared p)),
      (''rules'', JList (map er_to_dict (prof_rules p))),
      (''mapped_effects'', jstrs (mapped_effects p)),
      (''unmapped_effects'', jstrs (unmapped_effects p)),
      (''effects_with_enforced_rule'', jstrs (effects_with_enforced_rule p)),
      (''effects_without_enforced_rule'', jstrs (effects_without_enforced_rule p)),
      (''mapping_complete'', JBool (mapping_complete p)),
      (''profile_status'', JStr (profile_status p)),
      (''effect_performed'', JBool (prof_effect_performed p)),
      (''operational_authority'', JBool (prof_operational_authority p)),
      (''action_authority'', JBool (prof_action_authority p)),
      (''execution_authority'', JBool (prof_execution_authority p))]"

definition profile_sha256 :: "enforcement_profile \<Rightarrow> string" where
  "profile_sha256 p = canonical_sha256 (JObj (prof_body p))"

definition prof_to_dict :: "enforcement_profile \<Rightarrow> json" where
  "prof_to_dict p = sealed_dict ''profile_sha256'' (prof_body p)"

definition prof_build :: "effect_intent \<Rightarrow> enforcement_rule list \<Rightarrow> enforcement_profile result" where
  "prof_build intent rules =
     prof_init \<lparr>prof_effect_intent_sha256 = effect_intent_sha256 intent,
       prof_effects_declared = ei_effects_declared intent, prof_rules = sort_key er_rule_id rules,
       prof_effect_performed = False, prof_operational_authority = False, prof_action_authority = False,
       prof_execution_authority = False, prof_schema_version = ENFORCEMENT_PROFILE_SCHEMA_VERSION\<rparr>"

definition prof_from_dict :: "json \<Rightarrow> enforcement_profile result" where
  "prof_from_dict value =
     rbind (as_object EnforcementProfileContractError ''enforcement profile must be an object'' value) (\<lambda>data.
     rbind (check_fields EnforcementProfileContractError ''enforcement profile''
       [''schema_version'', ''effect_intent_sha256'', ''effects_declared'', ''rules'', ''mapped_effects'',
        ''unmapped_effects'', ''effects_with_enforced_rule'', ''effects_without_enforced_rule'',
        ''mapping_complete'', ''profile_status'', ''effect_performed'', ''operational_authority'',
        ''action_authority'', ''execution_authority'', ''profile_sha256''] data) (\<lambda>_.
     rbind (as_array EnforcementProfileContractError ''effects_declared must be an array''
       (dget data ''effects_declared'')) (\<lambda>effects_raw.
     rbind (rmap (\<lambda>item. er_require_text item ''effects_declared item'' 64) effects_raw) (\<lambda>effects.
     rbind (as_array EnforcementProfileContractError ''rules must be an array'' (dget data ''rules'')) (\<lambda>rules_raw.
     rbind (rmap er_from_dict rules_raw) (\<lambda>rules.
     rbind (check_bools EnforcementProfileContractError
       [''mapping_complete'', ''effect_performed'', ''operational_authority'', ''action_authority'',
        ''execution_authority''] data) (\<lambda>_.
     rbind (er_require_text (dget data ''schema_version'') ''schema_version'' 64) (\<lambda>schema.
     rbind (er_require_sha256 (dget data ''effect_intent_sha256'') ''effect_intent_sha256'') (\<lambda>intent_sha.
     rbind (prof_init \<lparr>prof_effect_intent_sha256 = intent_sha, prof_effects_declared = effects,
       prof_rules = rules, prof_effect_performed = bool_of (dget data ''effect_performed''),
       prof_operational_authority = bool_of (dget data ''operational_authority''),
       prof_action_authority = bool_of (dget data ''action_authority''),
       prof_execution_authority = bool_of (dget data ''execution_authority''),
       prof_schema_version = schema\<rparr>) (\<lambda>profile.
     rbind (first_error (map (\<lambda>(field, expected_value).
         ensure (dget data field = expected_value) EnforcementProfileContractError
           (field @ '' does not match canonical enforcement profile''))
       [(''mapped_effects'', jstrs (mapped_effects profile)),
        (''unmapped_effects'', jstrs (unmapped_effects profile)),
        (''effects_with_enforced_rule'', jstrs (effects_with_enforced_rule profile)),
        (''effects_without_enforced_rule'', jstrs (effects_without_enforced_rule profile)),
        (''mapping_complete'', JBool (mapping_complete profile)),
        (''profile_status'', JStr (profile_status profile))])) (\<lambda>_.
     rbind (ensure (dget data ''profile_sha256'' = JStr (profile_sha256 profile)) EnforcementProfileContractError
       ''profile_sha256 does not match canonical enforcement profile'') (\<lambda>_.
     Ok profile))))))))))))"

definition canonical_declared :: "string list \<Rightarrow> bool" where
  "canonical_declared xs \<longleftrightarrow>
     xs \<noteq> [] \<and> set xs \<subseteq> set KNOWN_EFFECTS \<and> sorted xs \<and> distinct xs \<and> (''none'' \<in> set xs \<longrightarrow> xs = [''none''])"

lemma normalize_fixed_iff:
  "normalize_effects (map JStr xs) label False = Inr xs \<longleftrightarrow> canonical_declared xs"
proof
  assume "normalize_effects (map JStr xs) label False = Inr xs"
  then have xs: "xs = sorted_set (map strip xs)" and d: "declared_effects_ok False xs"
    by (simp_all only: normalize_effects_Ok_iff)
  have s: "set xs = set (map strip xs)" using arg_cong [OF xs, of set] by simp
  have "xs = [''none'']" if "''none'' \<in> set xs"
    using d that unfolding s declared_effects_ok_def by (metis sorted_set_singleton xs)
  moreover have "sorted xs" "distinct xs" using sorted_sorted_set distinct_sorted_set by (metis xs)+
  ultimately show "canonical_declared xs"
    using d unfolding canonical_declared_def declared_effects_ok_def s [symmetric] by blast
next
  assume c: "canonical_declared xs"
  then have "map strip xs = xs" "sorted_set xs = xs"
    by (simp_all add: canonical_declared_def map_strip_known sorted_set_id_iff)
  then show "normalize_effects (map JStr xs) label False = Inr xs"
    using c unfolding normalize_effects_Ok_iff declared_effects_ok_def canonical_declared_def by auto
qed

lemma prof_effects_check_iff:
  "rbind (rewrap EffectBoundaryContractError k
      (normalize_effects (map JStr xs) label False)) (\<lambda>n. ensure (n = xs) c m) = Inr () \<longleftrightarrow> canonical_declared xs"
  by (auto simp: rbind_Ok_iff rewrap_Ok_iff normalize_fixed_iff)

definition prof_ok :: "enforcement_profile \<Rightarrow> bool" where
  "prof_ok p \<longleftrightarrow>
     prof_schema_version p = ENFORCEMENT_PROFILE_SCHEMA_VERSION \<and> is_sha256 (prof_effect_intent_sha256 p) \<and>
     canonical_declared (prof_effects_declared p) \<and>
     sort_key er_rule_id (prof_rules p) = prof_rules p \<and> distinct (map er_rule_id (prof_rules p)) \<and>
     \<not> (''none'' \<in> set (prof_effects_declared p) \<and> prof_rules p \<noteq> []) \<and>
     (\<forall>r \<in> set (prof_rules p). set (er_effect_scope r) \<subseteq> set (prof_effects_declared p)) \<and>
     \<not> prof_effect_performed p \<and> \<not> prof_operational_authority p \<and> \<not> prof_action_authority p \<and>
     \<not> prof_execution_authority p"

lemma prof_init_Ok_iff: "prof_init p = Inr k \<longleftrightarrow> k = p \<and> prof_ok p"
  unfolding prof_init_def validated_Ok_iff first_error_Ok_Cons first_error_Ok_Nil discard_Ok_iff ensure_Ok_iff
    er_helpers require_sha256_Ok_iff prof_effects_check_iff first_error_map_ensure prof_ok_def
  by simp

lemma prof_init_id: "prof_init p = Inr k \<Longrightarrow> k = p"
  by (simp add: prof_init_Ok_iff)

lemma prof_construct_Ok_iff:
  "prof_construct p = Inr k \<longleftrightarrow> k = p \<and> list_all (\<lambda>r. er_init r = Inr r) (prof_rules p) \<and> prof_init p = Inr p"
  by (auto simp: prof_construct_def rbind_Ok_iff rmap_id_Ok_iff [OF er_init_id] prof_init_Ok_iff)

lemma er_to_dict_list: "map (\<lambda>x. canon (er_to_dict x)) rs = map (\<lambda>x. canon (sealed_dict ''rule_sha256'' (er_body x))) rs"
  by (simp add: er_to_dict_def)

lemma prof_rules_read:
  assumes "wf_json (JObj d)" and "dget d k = JList js"
  shows "rmap er_from_dict js = Inr rs \<longleftrightarrow>
    canon (dget d k) = canon (JList (map er_to_dict rs)) \<and> list_all (\<lambda>r. er_init r = Inr r) rs"
proof -
  have "list_all wf_json js" using wf_dget [OF assms(1), of k] assms(2) by simp
  from er.canon_list_iff [OF this, of rs] show ?thesis by (simp add: assms(2) er_to_dict_def o_def)
qed

lemma prof_schema_plain: "plain_text 64 ENFORCEMENT_PROFILE_SCHEMA_VERSION"
  by (simp add: ENFORCEMENT_PROFILE_SCHEMA_VERSION_def plain_text_def is_control_def)

lemmas prof_reads = er_reads

lemma prof_from_dict_dest:
  assumes wf: "wf_json (JObj d)" and "prof_from_dict (JObj d) = Inr x"
  shows "prof_construct x = Inr x \<and> sealed_like d ''profile_sha256'' (prof_body x)"
  using assms(2) unfolding prof_from_dict_def
proof (elim rbind_OkE, goal_cases)
  case (1 d' _ eraw effects rraw rules _ schema sha i)
  note facts = 1 [unfolded prof_reads]
  have x: "x = i" and d: "d' = d" using 1 by (simp_all add: as_object_Ok_iff)
  note i = prof_init_id [OF 1(10)]
  have rules: "canon (dget d ''rules'') = canon (JList (map er_to_dict rules))"
    "list_all (\<lambda>r. er_init r = Inr r) rules"
    using prof_rules_read [OF wf] facts(5,6) unfolding d by blast+
  have derived: "dget d ''mapped_effects'' = jstrs (mapped_effects i)"
    "dget d ''unmapped_effects'' = jstrs (unmapped_effects i)"
    "dget d ''effects_with_enforced_rule'' = jstrs (effects_with_enforced_rule i)"
    "dget d ''effects_without_enforced_rule'' = jstrs (effects_without_enforced_rule i)"
    "dget d ''mapping_complete'' = JBool (mapping_complete i)"
    "dget d ''profile_status'' = JStr (profile_status i)"
    using 1(11) unfolding d by (simp_all add: first_error_Ok_Cons)
  have "sealed_like d ''profile_sha256'' (prof_body i)"
    using facts(2,3,4,7,8,9,12) rules derived unfolding d sealed_like_def prof_body_def
    by (simp add: profile_sha256_def prof_body_def i d)
  moreover have "prof_construct i = Inr i"
    using 1(10) i rules(2) by (simp add: prof_construct_Ok_iff)
  ultimately show ?case unfolding x by simp
qed

lemma prof_from_dict_intro:
  assumes wf: "wf_json (JObj d)" and "prof_construct x = Inr x" and "sealed_like d ''profile_sha256'' (prof_body x)"
  shows "prof_from_dict (JObj d) = Inr x"
proof -
  have c: "list_all (\<lambda>r. er_init r = Inr r) (prof_rules x)" and init: "prof_init x = Inr x"
    using assms(2) by (simp_all add: prof_construct_Ok_iff)
  then have ok: "prof_ok x" by (simp add: prof_init_Ok_iff)
  have "list_all (plain_text 64) (prof_effects_declared x)" "plain_text 64 (prof_schema_version x)"
    using ok known_plain prof_schema_plain by (auto simp: prof_ok_def canonical_declared_def list_all_iff)
  moreover have rules: "canon (dget d ''rules'') = canon (JList (map er_to_dict (prof_rules x)))"
    using assms(3) by (simp add: sealed_like_def prof_body_def)
  then obtain js where js: "dget d ''rules'' = JList js" by (cases "dget d ''rules''") auto
  have "rmap er_from_dict js = Inr (prof_rules x)"
    using prof_rules_read [OF wf js] rules c by blast
  moreover have "prof_init \<lparr>prof_effect_intent_sha256 = prof_effect_intent_sha256 x,
      prof_effects_declared = prof_effects_declared x, prof_rules = prof_rules x, prof_effect_performed = False,
      prof_operational_authority = False, prof_action_authority = False, prof_execution_authority = False,
      prof_schema_version = ENFORCEMENT_PROFILE_SCHEMA_VERSION\<rparr> = Inr x"
    using ok by (cases x) (simp add: prof_ok_def prof_init_Ok_iff)
  ultimately show ?thesis
    using assms(3) ok init js
    unfolding sealed_like_def prof_from_dict_def rbind_Ok_iff prof_reads prof_body_def
    by (simp add: profile_sha256_def prof_body_def prof_ok_def first_error_Ok_Cons)
qed

interpretation prof: sealed_contract prof_construct prof_body "''profile_sha256''" prof_from_dict
proof unfold_locales
  fix x y
  show "prof_construct x = Inr y \<Longrightarrow> y = x" by (simp add: prof_construct_Ok_iff)
  show "distinct (''profile_sha256'' # map fst (prof_body x))" by (simp add: prof_body_def)
  show "prof_construct x = Inr x \<Longrightarrow> list_all (\<lambda>kv. wf_json (snd kv)) (prof_body x)"
    using er.wf_sealed by (simp add: prof_body_def list_all_iff er_to_dict_def prof_construct_Ok_iff)
  show "map fst (prof_body x) = map fst (prof_body y)" by (simp add: prof_body_def)
  assume valid: "prof_construct x = Inr x" "prof_construct y = Inr y"
  assume "map (\<lambda>kv. canon (snd kv)) (prof_body x) = map (\<lambda>kv. canon (snd kv)) (prof_body y)"
  then have f: "prof_schema_version x = prof_schema_version y"
    "prof_effect_intent_sha256 x = prof_effect_intent_sha256 y"
    "prof_effects_declared x = prof_effects_declared y"
    "map (\<lambda>r. canon (er_to_dict r)) (prof_rules x) = map (\<lambda>r. canon (er_to_dict r)) (prof_rules y)"
    "prof_effect_performed x = prof_effect_performed y"
    "prof_operational_authority x = prof_operational_authority y"
    "prof_action_authority x = prof_action_authority y" "prof_execution_authority x = prof_execution_authority y"
    by (simp_all add: prof_body_def o_def)
  have "inj_on (\<lambda>r. canon (er_to_dict r)) (set (prof_rules x) \<union> set (prof_rules y))"
    using er.sealed_inj valid by (auto simp: inj_on_def er_to_dict_def prof_construct_Ok_iff list_all_iff)
  from inj_on_map_eq_map [OF this] f(4) have "prof_rules x = prof_rules y" by blast
  with f show "x = y" by simp
next
  fix d :: "(string \<times> json) list" and x
  assume "wf_json (JObj d)"
  then show "prof_from_dict (JObj d) = Inr x \<longleftrightarrow>
      prof_construct x = Inr x \<and> sealed_like d ''profile_sha256'' (prof_body x)"
    using prof_from_dict_dest prof_from_dict_intro by blast
next
  fix j x
  show "prof_from_dict j = Inr x \<Longrightarrow> \<exists>d. j = JObj d"
    by (auto simp: prof_from_dict_def rbind_Ok_iff as_object_Ok_iff)
qed

section \<open>Properties\<close>

lemma set_mapped [simp]: "set (mapped_effects p) = (\<Union>r \<in> set (prof_rules p). set (er_effect_scope r))"
  by (simp add: mapped_effects_def)

lemma set_enforced [simp]:
  "set (effects_with_enforced_rule p) =
     (\<Union>r \<in> {r \<in> set (prof_rules p). er_status r = ''enforced''}. set (er_effect_scope r))"
  by (auto simp: effects_with_enforced_rule_def)

lemma sorted_filter_id: "sorted xs \<Longrightarrow> sorted (filter p xs)"
  using sorted_filter [of "\<lambda>x. x" xs p] by simp

text \<open>A profile with one enforced rule, for an intent that also spawns a process.\<close>

definition sample_rule :: enforcement_rule where
  "sample_rule = \<lparr>er_rule_id = ''net.allowlist'', er_effect_scope = [''network.request''],
     er_constraint = ''allowlisted hosts only'', er_layer = ''transport_boundary'',
     er_boundary = ''kernel_boundary'', er_status = ''enforced'', er_mechanism = ''egress proxy'',
     er_evidence_ref_sha256s = [sha256_hex ''proxy''], er_effect_performed = False,
     er_operational_authority = False, er_action_authority = False, er_execution_authority = False,
     er_schema_version = ENFORCEMENT_RULE_SCHEMA_VERSION\<rparr>"

definition sample_profile :: enforcement_profile where
  "sample_profile = \<lparr>prof_effect_intent_sha256 = sha256_hex ''intent'',
     prof_effects_declared = [''network.request'', ''process.spawn''], prof_rules = [sample_rule],
     prof_effect_performed = False, prof_operational_authority = False, prof_action_authority = False,
     prof_execution_authority = False, prof_schema_version = ENFORCEMENT_PROFILE_SCHEMA_VERSION\<rparr>"

lemma sample_rule_ok: "er_init sample_rule = Inr sample_rule"
  by (simp add: er_init_Ok_iff sample_rule_def is_rule_id_def is_rule_char_def canonical_scope_def
      KNOWN_EFFECTS_def plain_text_def is_control_def ENFORCEMENT_LAYERS_def TRUST_BOUNDARIES_def
      ENFORCEMENT_STATUSES_def status_supported_def)

lemma sample_profile_ok: "prof_construct sample_profile = Inr sample_profile"
  by (simp add: prof_construct_Ok_iff prof_init_Ok_iff prof_ok_def sample_profile_def sample_rule_ok
      canonical_declared_def KNOWN_EFFECTS_def) (simp add: sample_rule_def)

text \<open>An enforced effect is never a bare claim: whenever a constructed profile lists an effect
  as having an enforced rule, one of its rules covers the effect, is marked enforced, names a
  concrete layer and a concrete trust boundary, and cites at least one well-formed evidence digest.\<close>

theorem enforced_effect_has_evidence:
  assumes "prof_construct p = Inr p" and "e \<in> set (effects_with_enforced_rule p)"
  shows "\<exists>r \<in> set (prof_rules p). e \<in> set (er_effect_scope r) \<and> er_status r = ''enforced'' \<and>
    er_layer r \<in> set ENFORCEMENT_LAYERS - {''none'', ''unknown''} \<and>
    er_boundary r \<in> set TRUST_BOUNDARIES - {''none'', ''unknown''} \<and>
    er_evidence_ref_sha256s r \<noteq> [] \<and> list_all is_sha256 (er_evidence_ref_sha256s r)"
proof -
  from assms(2) obtain r where r: "r \<in> set (prof_rules p)" "er_status r = ''enforced''" "e \<in> set (er_effect_scope r)"
    by auto
  then have "er_init r = Inr r" using assms(1) by (simp add: prof_construct_Ok_iff list_all_iff)
  with r show ?thesis by (intro bexI [of _ r]) (auto simp: er_init_Ok_iff status_supported_def)
qed

theorem enforced_effect_has_evidence_witness:
  "\<exists>r \<in> set (prof_rules sample_profile). ''network.request'' \<in> set (er_effect_scope r) \<and> er_evidence_ref_sha256s r \<noteq> []"
  using enforced_effect_has_evidence [OF sample_profile_ok, of "''network.request''"]
  by (auto simp: sample_profile_def sample_rule_def effects_with_enforced_rule_def)

text \<open>A constructed profile's derived views partition what the intent declares: every declared
  effect is either mapped or unmapped, and either has or lacks an enforced rule, never both (the
  intent that declares none has neither); the mapped effects stay inside the declaration, and the
  status names the three cases.\<close>

theorem profile_partitions_effects:
  assumes "prof_construct p = Inr p"
  shows "set (mapped_effects p) \<subseteq> set (prof_effects_declared p)
    \<and> set (effects_with_enforced_rule p) \<subseteq> set (mapped_effects p)
    \<and> (\<forall>e \<in> set (prof_effects_declared p) - {''none''}.
         (e \<in> set (mapped_effects p) \<longleftrightarrow> e \<notin> set (unmapped_effects p)) \<and>
         (e \<in> set (effects_with_enforced_rule p) \<longleftrightarrow> e \<notin> set (effects_without_enforced_rule p)))
    \<and> (profile_status p = ''no_effects'' \<longleftrightarrow> prof_effects_declared p = [''none''])
    \<and> (profile_status p = ''mapped'' \<longleftrightarrow> prof_effects_declared p \<noteq> [''none''] \<and>
         set (prof_effects_declared p) \<subseteq> set (mapped_effects p))
    \<and> (mapping_complete p \<longleftrightarrow> profile_status p \<noteq> ''mapping_gaps'')"
proof -
  have ok: "prof_ok p" using assms by (simp add: prof_construct_Ok_iff prof_init_Ok_iff)
  then have scope: "\<forall>r \<in> set (prof_rules p). set (er_effect_scope r) \<subseteq> set (prof_effects_declared p)"
    and none: "''none'' \<in> set (prof_effects_declared p) \<Longrightarrow> prof_effects_declared p = [''none'']"
    by (simp_all add: prof_ok_def canonical_declared_def)
  have status: "profile_status p = ''no_effects'' \<longleftrightarrow> prof_effects_declared p = [''none'']"
    "profile_status p = ''mapped'' \<longleftrightarrow> prof_effects_declared p \<noteq> [''none''] \<and> unmapped_effects p = []"
    "profile_status p \<noteq> ''mapping_gaps'' \<longleftrightarrow> unmapped_effects p = []"
    by (auto simp: profile_status_def unmapped_effects_def)
  have un: "prof_effects_declared p \<noteq> [''none''] \<Longrightarrow>
      unmapped_effects p = [] \<longleftrightarrow> set (prof_effects_declared p) \<subseteq> set (mapped_effects p)"
    by (auto simp: unmapped_effects_def filter_empty_conv)
  have "set (mapped_effects p) \<subseteq> set (prof_effects_declared p)"
    "set (effects_with_enforced_rule p) \<subseteq> set (mapped_effects p)" using scope by auto
  moreover have "(e \<in> set (mapped_effects p) \<longleftrightarrow> e \<notin> set (unmapped_effects p)) \<and>
         (e \<in> set (effects_with_enforced_rule p) \<longleftrightarrow> e \<notin> set (effects_without_enforced_rule p))"
    if "e \<in> set (prof_effects_declared p) - {''none''}" for e
    using that by (auto simp: unmapped_effects_def effects_without_enforced_rule_def)
  ultimately show ?thesis using status un unfolding mapping_complete_def by blast
qed

theorem profile_partitions_effects_witness:
  "set (mapped_effects sample_profile) \<subseteq> set (prof_effects_declared sample_profile)
   \<and> \<not> mapping_complete sample_profile"
  using profile_partitions_effects [OF sample_profile_ok]
  by (simp add: mapping_complete_def unmapped_effects_def sample_profile_def sample_rule_def mapped_effects_def
      sorted_set_def)

text \<open>The profile reader re-derives every view: it accepts a document exactly when the document
  prints, canonically, like the sealed form of a profile whose rules and own fields pass all
  constructor checks, so a stored mapping status, view or nested rule digest cannot be forged.\<close>

theorem profile_document_accepted_iff:
  assumes "wf_json j"
  shows "prof_from_dict j = Inr p \<longleftrightarrow>
    list_all (\<lambda>r. er_init r = Inr r) (prof_rules p) \<and> prof_init p = Inr p \<and> dumps j = dumps (prof_to_dict p)"
  unfolding prof.accepts_iff [OF assms] prof_to_dict_def by (simp only: prof_construct_Ok_iff dumps_eq_canon simp_thms conj_assoc)

theorem profile_document_accepted_iff_witness:
  "prof_from_dict (prof_to_dict sample_profile) = Inr sample_profile"
proof -
  have "wf_json (prof_to_dict sample_profile)"
    unfolding prof_to_dict_def by (rule prof.wf_sealed [OF sample_profile_ok])
  from profile_document_accepted_iff [OF this] sample_profile_ok show ?thesis
    by (simp add: prof_construct_Ok_iff)
qed

end
