(* ===== verification/Action_Lease.thy ===== *)
theory Action_Lease
  imports Authority_Epoch Enforcement_Profile
begin

text \<open>
  \<open>phios/action_lease.py\<close>: the single-use lease that binds one authorization decision to one
  principal, intent, enforcement profile and authority epoch, and the pure evaluation of whether a
  lease is usable now.  \<open>max_uses\<close> keeps the JSON value the reader passes on: the constructor is
  what checks its type.
\<close>

definition ACTION_LEASE_SCHEMA_VERSION :: string where
  "ACTION_LEASE_SCHEMA_VERSION = ''phios.action_lease.v0.1''"

definition ACTION_LEASE_EVALUATION_SCHEMA_VERSION :: string where
  "ACTION_LEASE_EVALUATION_SCHEMA_VERSION = ''phios.action_lease_evaluation.v0.1''"

definition al_require_text :: "json \<Rightarrow> string \<Rightarrow> nat \<Rightarrow> string result" where
  "al_require_text = require_text ActionLeaseContractError"

definition al_require_sha256 :: "json \<Rightarrow> string \<Rightarrow> string result" where
  "al_require_sha256 = require_sha256 ActionLeaseContractError"

definition al_parse_time :: "json \<Rightarrow> string \<Rightarrow> datetime result" where
  "al_parse_time = parse_utc ActionLeaseContractError"

definition al_canonical_time :: "json \<Rightarrow> string \<Rightarrow> string result" where
  "al_canonical_time = canonical_time ActionLeaseContractError"

definition al_canonical_text_tuple :: "string list \<Rightarrow> string \<Rightarrow> string list result" where
  "al_canonical_text_tuple = canonical_text_tuple ActionLeaseContractError"

record action_lease =
  al_principal_id :: string
  al_issuer_id :: string
  al_authorization_receipt_sha256 :: string
  al_effect_intent_sha256 :: string
  al_enforcement_profile_sha256 :: string
  al_authority_epoch_sha256 :: string
  al_capability_id :: string
  al_capability_version :: string
  al_payload_sha256 :: string
  al_effects_declared :: "string list"
  al_permissions_authorized :: "string list"
  al_accepted_unenforced_effects :: "string list"
  al_issued_at :: string
  al_valid_from :: string
  al_valid_until :: string
  al_max_uses :: json
  al_effect_performed :: bool
  al_operational_authority :: bool
  al_action_authority :: bool
  al_execution_authority :: bool
  al_schema_version :: string

text \<open>The checks on the three timestamps.\<close>

definition al_time_checks :: "action_lease \<Rightarrow> unit result" where
  "al_time_checks l =
     rbind (al_parse_time (JStr (al_issued_at l)) ''issued_at'') (\<lambda>issued.
     rbind (al_parse_time (JStr (al_valid_from l)) ''valid_from'') (\<lambda>valid_from.
     rbind (al_parse_time (JStr (al_valid_until l)) ''valid_until'') (\<lambda>valid_until.
     first_error
       [ensure (al_issued_at l = isoformat_utc issued) ActionLeaseContractError
          ''issued_at must use canonical UTC ISO-8601 form'',
        ensure (al_valid_from l = isoformat_utc valid_from) ActionLeaseContractError
          ''valid_from must use canonical UTC ISO-8601 form'',
        ensure (al_valid_until l = isoformat_utc valid_until) ActionLeaseContractError
          ''valid_until must use canonical UTC ISO-8601 form'',
        ensure (\<not> instant valid_from < instant issued) ActionLeaseContractError
          ''valid_from cannot be earlier than issued_at'',
        ensure (\<not> instant valid_until \<le> instant valid_from) ActionLeaseContractError
          ''valid_until must be later than valid_from''])))"

text \<open>\<open>ActionLease.__post_init__\<close>.\<close>

definition al_init :: "action_lease \<Rightarrow> action_lease result" where
  "al_init l = validated
     [ensure (al_schema_version l = ACTION_LEASE_SCHEMA_VERSION) ActionLeaseContractError
        (''unsupported ActionLease schema: '' @ al_schema_version l),
      discard (al_require_text (JStr (al_principal_id l)) ''principal_id'' 256),
      discard (al_require_text (JStr (al_issuer_id l)) ''issuer_id'' 256),
      discard (al_require_sha256 (JStr (al_authorization_receipt_sha256 l)) ''authorization_receipt_sha256''),
      discard (al_require_sha256 (JStr (al_effect_intent_sha256 l)) ''effect_intent_sha256''),
      discard (al_require_sha256 (JStr (al_enforcement_profile_sha256 l)) ''enforcement_profile_sha256''),
      discard (al_require_sha256 (JStr (al_authority_epoch_sha256 l)) ''authority_epoch_sha256''),
      discard (al_require_sha256 (JStr (al_payload_sha256 l)) ''payload_sha256''),
      discard (al_require_text (JStr (al_capability_id l)) ''capability_id'' 256),
      discard (al_require_text (JStr (al_capability_version l)) ''capability_version'' 128),
      discard (al_canonical_text_tuple (al_effects_declared l) ''effects_declared''),
      rbind (rewrap EffectBoundaryContractError ActionLeaseContractError
          (normalize_effects (map JStr (al_effects_declared l)) ''lease effects_declared'' False)) (\<lambda>normalized.
        ensure (normalized = al_effects_declared l) ActionLeaseContractError
          ''effects_declared must be canonical PhiOS effects''),
      ensure (''unknown'' \<notin> set (al_effects_declared l)) ActionLeaseContractError
        ''ActionLease cannot authorize unknown effects'',
      ensure (al_effects_declared l \<noteq> [''none'']) ActionLeaseContractError
        ''ActionLease cannot authorize a none EffectIntent'',
      discard (al_canonical_text_tuple (al_permissions_authorized l) ''permissions_authorized''),
      ensure (al_permissions_authorized l \<noteq> []) ActionLeaseContractError
        ''permissions_authorized must not be empty'',
      discard (al_canonical_text_tuple (al_accepted_unenforced_effects l) ''accepted_unenforced_effects''),
      ensure (set (al_accepted_unenforced_effects l) \<subseteq> set (al_effects_declared l)) ActionLeaseContractError
        ''accepted_unenforced_effects must be a subset of effects_declared'',
      al_time_checks l,
      (case al_max_uses l of JInt m \<Rightarrow>
          ensure (m = 1) ActionLeaseContractError
            ''ActionLease v0.1 is single-use and requires max_uses = 1''
        | _ \<Rightarrow> raise ActionLeaseContractError ''max_uses must be an integer''),
      ensure (\<not> al_effect_performed l) ActionLeaseContractError
        ''ActionLease cannot claim an effect was performed'',
      ensure (\<not> al_operational_authority l) ActionLeaseContractError
        ''ActionLease cannot carry broad operational authority'',
      ensure (al_action_authority l) ActionLeaseContractError
        ''ActionLease must carry its bounded action authority'',
      ensure (\<not> al_execution_authority l) ActionLeaseContractError
        ''ActionLease cannot carry execution authority''] l"

definition al_body :: "action_lease \<Rightarrow> (string \<times> json) list" where
  "al_body l =
     [(''schema_version'', JStr (al_schema_version l)),
      (''principal_id'', JStr (al_principal_id l)),
      (''issuer_id'', JStr (al_issuer_id l)),
      (''authorization_receipt_sha256'', JStr (al_authorization_receipt_sha256 l)),
      (''effect_intent_sha256'', JStr (al_effect_intent_sha256 l)),
      (''enforcement_profile_sha256'', JStr (al_enforcement_profile_sha256 l)),
      (''authority_epoch_sha256'', JStr (al_authority_epoch_sha256 l)),
      (''capability_id'', JStr (al_capability_id l)),
      (''capability_version'', JStr (al_capability_version l)),
      (''payload_sha256'', JStr (al_payload_sha256 l)),
      (''effects_declared'', jstrs (al_effects_declared l)),
      (''permissions_authorized'', jstrs (al_permissions_authorized l)),
      (''accepted_unenforced_effects'', jstrs (al_accepted_unenforced_effects l)),
      (''issued_at'', JStr (al_issued_at l)),
      (''valid_from'', JStr (al_valid_from l)),
      (''valid_until'', JStr (al_valid_until l)),
      (''max_uses'', al_max_uses l),
      (''effect_performed'', JBool (al_effect_performed l)),
      (''operational_authority'', JBool (al_operational_authority l)),
      (''action_authority'', JBool (al_action_authority l)),
      (''execution_authority'', JBool (al_execution_authority l))]"

definition action_lease_sha256 :: "action_lease \<Rightarrow> string" where
  "action_lease_sha256 l = canonical_sha256 (JObj (al_body l))"

definition al_to_dict :: "action_lease \<Rightarrow> json" where
  "al_to_dict l = sealed_dict ''action_lease_sha256'' (al_body l)"

definition al_issue ::
  "string \<Rightarrow> string \<Rightarrow> string \<Rightarrow> effect_intent \<Rightarrow> enforcement_profile \<Rightarrow> authority_epoch \<Rightarrow> string list
    \<Rightarrow> string list \<Rightarrow> string \<Rightarrow> string \<Rightarrow> string \<Rightarrow> action_lease result" where
  "al_issue principal_id issuer_id receipt intent enforcement epoch permissions_authorized
      accepted_unenforced_effects issued_at valid_from valid_until =
     rbind (al_require_text (JStr principal_id) ''principal_id'' 256) (\<lambda>principal_id.
     rbind (ensure (principal_id = epoch_principal_id epoch) ActionLeaseContractError
       ''lease principal does not match AuthorityEpoch principal'') (\<lambda>_.
     rbind (al_require_text (JStr issuer_id) ''issuer_id'' 256) (\<lambda>issuer.
     rbind (al_require_sha256 (JStr receipt) ''authorization_receipt_sha256'') (\<lambda>authorization_receipt.
     rbind (ensure (ei_effects_declared intent \<noteq> [''none'']) ActionLeaseContractError
       ''ActionLease cannot authorize a none EffectIntent'') (\<lambda>_.
     rbind (ensure (prof_effect_intent_sha256 enforcement = effect_intent_sha256 intent) ActionLeaseContractError
       ''EnforcementProfile does not bind the supplied EffectIntent'') (\<lambda>_.
     rbind (ensure (mapping_complete enforcement) ActionLeaseContractError
       ''cannot issue ActionLease with unmapped effects'') (\<lambda>_.
     let expected_unenforced = sort (effects_without_enforced_rule enforcement);
         accepted_unenforced = sorted_set accepted_unenforced_effects in
     rbind (ensure (accepted_unenforced = expected_unenforced) ActionLeaseContractError
       ''accepted_unenforced_effects must exactly acknowledge effects without an enforced rule'') (\<lambda>_.
     let permissions = sorted_set permissions_authorized in
     rbind (ensure (permissions \<noteq> []) ActionLeaseContractError
       ''permissions_authorized must not be empty'') (\<lambda>_.
     rbind (ensure (set permissions \<subseteq> set (epoch_grants epoch)) ActionLeaseContractError
       ''lease permissions exceed AuthorityEpoch grants'') (\<lambda>_.
     rbind (al_canonical_time (JStr issued_at) ''issued_at'') (\<lambda>issued.
     rbind (al_canonical_time (JStr valid_from) ''valid_from'') (\<lambda>starts.
     rbind (al_canonical_time (JStr valid_until) ''valid_until'') (\<lambda>ends.
     rbind (al_parse_time (JStr (epoch_observed_at epoch)) ''AuthorityEpoch observed_at'') (\<lambda>epoch_observed.
     rbind (al_parse_time (JStr issued) ''issued_at'') (\<lambda>issued_time.
     rbind (ensure (\<not> instant issued_time < instant epoch_observed) ActionLeaseContractError
       ''lease cannot be issued before its AuthorityEpoch observation'') (\<lambda>_.
     rbind (case epoch_next_known_transition_at epoch of None \<Rightarrow> Ok ()
            | Some next_at \<Rightarrow>
                rbind (al_parse_time (JStr next_at) ''AuthorityEpoch next_known_transition_at'') (\<lambda>transition.
                rbind (al_parse_time (JStr ends) ''valid_until'') (\<lambda>ends_time.
                ensure (\<not> instant transition < instant ends_time) ActionLeaseContractError
                  ''lease cannot extend beyond the next known authority transition''))) (\<lambda>_.
     al_init
       \<lparr>al_principal_id = principal_id, al_issuer_id = issuer,
        al_authorization_receipt_sha256 = authorization_receipt,
        al_effect_intent_sha256 = effect_intent_sha256 intent,
        al_enforcement_profile_sha256 = profile_sha256 enforcement,
        al_authority_epoch_sha256 = authority_epoch_sha256 epoch,
        al_capability_id = ei_capability_id intent, al_capability_version = ei_capability_version intent,
        al_payload_sha256 = ei_payload_sha256 intent, al_effects_declared = ei_effects_declared intent,
        al_permissions_authorized = permissions, al_accepted_unenforced_effects = accepted_unenforced,
        al_issued_at = issued, al_valid_from = starts, al_valid_until = ends, al_max_uses = JInt 1,
        al_effect_performed = False, al_operational_authority = False, al_action_authority = True,
        al_execution_authority = False, al_schema_version = ACTION_LEASE_SCHEMA_VERSION\<rparr>)))))))))))))))))"

definition al_text_array :: "(string \<times> json) list \<Rightarrow> string \<Rightarrow> string list result" where
  "al_text_array data field =
     rbind (as_array ActionLeaseContractError (field @ '' must be an array'') (dget data field)) (\<lambda>raw.
       rmap (\<lambda>item. al_require_text item (field @ '' item'') 256) raw)"

definition al_from_dict :: "json \<Rightarrow> action_lease result" where
  "al_from_dict value =
     rbind (as_object ActionLeaseContractError ''ActionLease must be an object'' value) (\<lambda>data.
     rbind (check_fields ActionLeaseContractError ''ActionLease''
       [''schema_version'', ''principal_id'', ''issuer_id'', ''authorization_receipt_sha256'',
        ''effect_intent_sha256'', ''enforcement_profile_sha256'', ''authority_epoch_sha256'',
        ''capability_id'', ''capability_version'', ''payload_sha256'', ''effects_declared'',
        ''permissions_authorized'', ''accepted_unenforced_effects'', ''issued_at'', ''valid_from'',
        ''valid_until'', ''max_uses'', ''effect_performed'', ''operational_authority'',
        ''action_authority'', ''execution_authority'', ''action_lease_sha256''] data) (\<lambda>_.
     rbind (al_text_array data ''effects_declared'') (\<lambda>effects.
     rbind (al_text_array data ''permissions_authorized'') (\<lambda>permissions.
     rbind (al_text_array data ''accepted_unenforced_effects'') (\<lambda>accepted.
     rbind (check_bools ActionLeaseContractError
       [''effect_performed'', ''operational_authority'', ''action_authority'', ''execution_authority'']
       data) (\<lambda>_.
     rbind (al_require_text (dget data ''schema_version'') ''schema_version'' 64) (\<lambda>schema.
     rbind (al_require_text (dget data ''principal_id'') ''principal_id'' 256) (\<lambda>principal_id.
     rbind (al_require_text (dget data ''issuer_id'') ''issuer_id'' 256) (\<lambda>issuer.
     rbind (al_require_sha256 (dget data ''authorization_receipt_sha256'') ''authorization_receipt_sha256'') (\<lambda>receipt.
     rbind (al_require_sha256 (dget data ''effect_intent_sha256'') ''effect_intent_sha256'') (\<lambda>intent.
     rbind (al_require_sha256 (dget data ''enforcement_profile_sha256'') ''enforcement_profile_sha256'') (\<lambda>enforcement.
     rbind (al_require_sha256 (dget data ''authority_epoch_sha256'') ''authority_epoch_sha256'') (\<lambda>epoch.
     rbind (al_require_text (dget data ''capability_id'') ''capability_id'' 256) (\<lambda>cid.
     rbind (al_require_text (dget data ''capability_version'') ''capability_version'' 128) (\<lambda>cver.
     rbind (al_require_sha256 (dget data ''payload_sha256'') ''payload_sha256'') (\<lambda>payload.
     rbind (al_require_text (dget data ''issued_at'') ''issued_at'' 64) (\<lambda>issued.
     rbind (al_require_text (dget data ''valid_from'') ''valid_from'' 64) (\<lambda>starts.
     rbind (al_require_text (dget data ''valid_until'') ''valid_until'' 64) (\<lambda>ends.
     rbind (al_init
       \<lparr>al_principal_id = principal_id, al_issuer_id = issuer, al_authorization_receipt_sha256 = receipt,
        al_effect_intent_sha256 = intent, al_enforcement_profile_sha256 = enforcement,
        al_authority_epoch_sha256 = epoch, al_capability_id = cid, al_capability_version = cver,
        al_payload_sha256 = payload, al_effects_declared = effects,
        al_permissions_authorized = permissions, al_accepted_unenforced_effects = accepted,
        al_issued_at = issued, al_valid_from = starts, al_valid_until = ends,
        al_max_uses = dget data ''max_uses'',
        al_effect_performed = bool_of (dget data ''effect_performed''),
        al_operational_authority = bool_of (dget data ''operational_authority''),
        al_action_authority = bool_of (dget data ''action_authority''),
        al_execution_authority = bool_of (dget data ''execution_authority''),
        al_schema_version = schema\<rparr>) (\<lambda>lease.
     rbind (ensure (dget data ''action_lease_sha256'' = JStr (action_lease_sha256 lease)) ActionLeaseContractError
       ''action_lease_sha256 does not match canonical ActionLease'') (\<lambda>_.
     Ok lease)))))))))))))))))))))"

section \<open>Evaluation\<close>

record action_lease_evaluation =
  ev_lease_sha256 :: string
  ev_checked_at :: string
  ev_current_authority_epoch_sha256 :: string
  ev_uses_consumed :: int
  ev_usable :: bool
  ev_reason :: string
  ev_action_authority :: bool
  ev_execution_authority :: bool
  ev_effect_performed :: bool
  ev_schema_version :: string

definition ev_init :: "action_lease_evaluation \<Rightarrow> action_lease_evaluation result" where
  "ev_init v = validated
     [ensure (ev_schema_version v = ACTION_LEASE_EVALUATION_SCHEMA_VERSION) ActionLeaseContractError
        ''unsupported ActionLease evaluation schema'',
      discard (al_require_sha256 (JStr (ev_lease_sha256 v)) ''lease_sha256''),
      discard (al_require_sha256 (JStr (ev_current_authority_epoch_sha256 v)) ''current_authority_epoch_sha256''),
      rbind (al_canonical_time (JStr (ev_checked_at v)) ''checked_at'') (\<lambda>canonical_checked.
        ensure (canonical_checked = ev_checked_at v) ActionLeaseContractError
          ''checked_at must use canonical UTC ISO-8601 form''),
      ensure (0 \<le> ev_uses_consumed v) ActionLeaseContractError ''uses_consumed must be an integer >= 0'',
      ensure (ev_action_authority v = ev_usable v) ActionLeaseContractError
        ''evaluation action_authority must match usability'',
      ensure (\<not> ev_execution_authority v) ActionLeaseContractError
        ''lease evaluation cannot carry execution authority'',
      ensure (\<not> ev_effect_performed v) ActionLeaseContractError
        ''lease evaluation cannot claim an effect was performed''] v"

definition ev_to_dict :: "action_lease_evaluation \<Rightarrow> json" where
  "ev_to_dict v = JObj
     [(''schema_version'', JStr (ev_schema_version v)),
      (''lease_sha256'', JStr (ev_lease_sha256 v)),
      (''checked_at'', JStr (ev_checked_at v)),
      (''current_authority_epoch_sha256'', JStr (ev_current_authority_epoch_sha256 v)),
      (''uses_consumed'', JInt (ev_uses_consumed v)),
      (''usable'', JBool (ev_usable v)),
      (''reason'', JStr (ev_reason v)),
      (''action_authority'', JBool (ev_action_authority v)),
      (''execution_authority'', JBool (ev_execution_authority v)),
      (''effect_performed'', JBool (ev_effect_performed v))]"

text \<open>\<open>max_uses\<close> of a constructed lease, which is an integer.\<close>

definition al_use_limit :: "action_lease \<Rightarrow> int" where
  "al_use_limit l = (case al_max_uses l of JInt m \<Rightarrow> m | _ \<Rightarrow> 0)"

definition evaluate_action_lease :: "action_lease \<Rightarrow> string \<Rightarrow> string \<Rightarrow> int \<Rightarrow> action_lease_evaluation result" where
  "evaluate_action_lease lease checked_at current_authority_epoch_sha256 uses_consumed =
     rbind (al_canonical_time (JStr checked_at) ''checked_at'') (\<lambda>checked.
     rbind (al_require_sha256 (JStr current_authority_epoch_sha256) ''current_authority_epoch_sha256'') (\<lambda>current_epoch.
     rbind (ensure (0 \<le> uses_consumed) ActionLeaseContractError ''uses_consumed must be an integer >= 0'') (\<lambda>_.
     rbind (al_parse_time (JStr checked) ''checked_at'') (\<lambda>now.
     rbind (al_parse_time (JStr (al_valid_from lease)) ''valid_from'') (\<lambda>starts.
     rbind (al_parse_time (JStr (al_valid_until lease)) ''valid_until'') (\<lambda>ends.
     let (usable, reason) =
       (if current_epoch \<noteq> al_authority_epoch_sha256 lease then (False, ''authority_epoch_changed'')
        else if instant now < instant starts then (False, ''lease_not_yet_valid'')
        else if instant ends \<le> instant now then (False, ''lease_expired'')
        else if al_use_limit lease \<le> uses_consumed then (False, ''lease_consumed'')
        else (True, ''lease_current'')) in
     ev_init \<lparr>ev_lease_sha256 = action_lease_sha256 lease, ev_checked_at = checked,
       ev_current_authority_epoch_sha256 = current_epoch, ev_uses_consumed = uses_consumed,
       ev_usable = usable, ev_reason = reason, ev_action_authority = usable,
       ev_execution_authority = False, ev_effect_performed = False,
       ev_schema_version = ACTION_LEASE_EVALUATION_SCHEMA_VERSION\<rparr>))))))"

section \<open>The sealed contract\<close>

lemmas al_helpers = al_require_text_def al_require_sha256_def al_parse_time_def al_canonical_time_def
  al_canonical_text_tuple_def

lemma al_text_array_Ok_iff:
  "al_text_array d k = Inr xs \<longleftrightarrow> dget d k = jstrs xs \<and> list_all (plain_text 256) xs"
  by (auto simp: al_text_array_def rbind_Ok_iff as_array_Ok_iff al_require_text_def rmap_require_text_Ok_iff)

text \<open>The validity window of a lease: issued, valid from, valid until.\<close>

definition lease_window :: "action_lease \<Rightarrow> datetime \<Rightarrow> datetime \<Rightarrow> datetime \<Rightarrow> bool" where
  "lease_window l issued starts ends \<longleftrightarrow>
     canonical_utc (al_issued_at l) issued \<and> canonical_utc (al_valid_from l) starts \<and>
     canonical_utc (al_valid_until l) ends \<and>
     instant issued \<le> instant starts \<and> instant starts < instant ends"

lemma parse_isoformat_iff:
  "parse_utc cls (JStr s) f = Inr t \<and> s = isoformat_utc t \<longleftrightarrow> canonical_utc s t"
  using parse_utc_str_cases parse_utc_canonical by (metis canonical_utc_def)

lemma al_time_checks_Ok_iff: "al_time_checks l = Inr () \<longleftrightarrow> (\<exists>i s e. lease_window l i s e)"
proof -
  have "al_time_checks l = Inr () \<longleftrightarrow> (\<exists>i s e.
      (parse_utc ActionLeaseContractError (JStr (al_issued_at l)) ''issued_at'' = Inr i \<and> al_issued_at l = isoformat_utc i) \<and>
      (parse_utc ActionLeaseContractError (JStr (al_valid_from l)) ''valid_from'' = Inr s \<and> al_valid_from l = isoformat_utc s) \<and>
      (parse_utc ActionLeaseContractError (JStr (al_valid_until l)) ''valid_until'' = Inr e \<and> al_valid_until l = isoformat_utc e) \<and>
      instant i \<le> instant s \<and> instant s < instant e)"
    unfolding al_time_checks_def rbind_Ok_iff first_error_Ok_Cons first_error_Ok_Nil ensure_Ok_iff al_helpers not_less not_le
    by blast
  then show ?thesis unfolding parse_isoformat_iff lease_window_def .
qed

definition al_ok :: "action_lease \<Rightarrow> bool" where
  "al_ok l \<longleftrightarrow>
     al_schema_version l = ACTION_LEASE_SCHEMA_VERSION \<and>
     plain_text 256 (al_principal_id l) \<and> plain_text 256 (al_issuer_id l) \<and>
     is_sha256 (al_authorization_receipt_sha256 l) \<and> is_sha256 (al_effect_intent_sha256 l) \<and>
     is_sha256 (al_enforcement_profile_sha256 l) \<and> is_sha256 (al_authority_epoch_sha256 l) \<and>
     is_sha256 (al_payload_sha256 l) \<and>
     plain_text 256 (al_capability_id l) \<and> plain_text 128 (al_capability_version l) \<and>
     canonical_texts (al_effects_declared l) \<and> canonical_declared (al_effects_declared l) \<and>
     ''unknown'' \<notin> set (al_effects_declared l) \<and> al_effects_declared l \<noteq> [''none''] \<and>
     canonical_texts (al_permissions_authorized l) \<and> al_permissions_authorized l \<noteq> [] \<and>
     canonical_texts (al_accepted_unenforced_effects l) \<and>
     set (al_accepted_unenforced_effects l) \<subseteq> set (al_effects_declared l) \<and>
     (\<exists>i s e. lease_window l i s e) \<and> al_max_uses l = JInt 1 \<and>
     \<not> al_effect_performed l \<and> \<not> al_operational_authority l \<and> al_action_authority l \<and>
     \<not> al_execution_authority l"

lemma al_max_uses_check:
  "(case j of JInt m \<Rightarrow> ensure (m = 1) c x | _ \<Rightarrow> raise c y) = Inr () \<longleftrightarrow> j = JInt 1"
  by (cases j) auto

lemma al_init_Ok_iff: "al_init l = Inr k \<longleftrightarrow> k = l \<and> al_ok l"
  unfolding al_init_def validated_Ok_iff first_error_Ok_Cons first_error_Ok_Nil discard_Ok_iff ensure_Ok_iff
    al_time_checks_Ok_iff al_helpers require_text_Ok_iff require_sha256_Ok_iff canonical_text_tuple_Ok_iff
    prof_effects_check_iff al_max_uses_check al_ok_def
  by simp

lemma al_init_id: "al_init l = Inr k \<Longrightarrow> k = l"
  by (simp add: al_init_Ok_iff)

lemma al_init_ok: "al_init l = Inr k \<Longrightarrow> al_ok k"
  by (simp add: al_init_Ok_iff)

lemmas al_reads = al_text_array_Ok_iff al_helpers as_object_Ok_iff check_fields_Ok_iff as_array_Ok_iff
  check_bools_Ok_iff require_text_Ok_iff require_sha256_Ok_iff ensure_Ok_iff

lemma al_from_dict_dest:
  assumes "al_from_dict (JObj d) = Inr x"
  shows "al_init x = Inr x \<and> sealed_like d ''action_lease_sha256'' (al_body x)"
  using assms unfolding al_from_dict_def
proof (elim rbind_OkE, goal_cases)
  case (1 d' _ effects perms acc _ schema pid iss receipt intent enf epoch cid cver payload issued starts ends i)
  note facts = 1 [unfolded al_reads]
  have x: "x = i" and d: "d' = d" using 1 by (simp_all add: as_object_Ok_iff)
  note i = al_init_id [OF 1(20)]
  have "sealed_like d ''action_lease_sha256'' (al_body i)"
    using facts(2-19,21) unfolding d sealed_like_def al_body_def i
    by (simp add: action_lease_sha256_def al_body_def)
  then show ?case using 1(20) i unfolding x by simp
qed

lemma al_schema_plain: "plain_text 64 ACTION_LEASE_SCHEMA_VERSION"
  by (simp add: ACTION_LEASE_SCHEMA_VERSION_def plain_text_def is_control_def)

lemma al_rebuild:
  assumes "al_ok x"
  shows "al_init \<lparr>al_principal_id = al_principal_id x, al_issuer_id = al_issuer_id x,
        al_authorization_receipt_sha256 = al_authorization_receipt_sha256 x,
        al_effect_intent_sha256 = al_effect_intent_sha256 x,
        al_enforcement_profile_sha256 = al_enforcement_profile_sha256 x,
        al_authority_epoch_sha256 = al_authority_epoch_sha256 x, al_capability_id = al_capability_id x,
        al_capability_version = al_capability_version x, al_payload_sha256 = al_payload_sha256 x,
        al_effects_declared = al_effects_declared x,
        al_permissions_authorized = al_permissions_authorized x,
        al_accepted_unenforced_effects = al_accepted_unenforced_effects x,
        al_issued_at = al_issued_at x, al_valid_from = al_valid_from x, al_valid_until = al_valid_until x,
        al_max_uses = JInt 1, al_effect_performed = False, al_operational_authority = False,
        al_action_authority = True, al_execution_authority = False,
        al_schema_version = ACTION_LEASE_SCHEMA_VERSION\<rparr> = Inr x" (is "al_init ?r = _")
proof -
  have "?r = x" using assms by (cases x) (simp add: al_ok_def)
  then show ?thesis using assms by (simp add: al_init_Ok_iff)
qed

lemma al_from_dict_intro:
  assumes "al_init x = Inr x" and "sealed_like d ''action_lease_sha256'' (al_body x)"
  shows "al_from_dict (JObj d) = Inr x"
proof -
  have ok: "al_ok x" using assms(1) by (simp add: al_init_Ok_iff)
  then obtain i s e where w: "lease_window x i s e" by (auto simp: al_ok_def)
  have "plain_text 64 (al_issued_at x)" "plain_text 64 (al_valid_from x)" "plain_text 64 (al_valid_until x)"
    using w is_canonical_utc_plain unfolding lease_window_def is_canonical_utc_def by blast+
  moreover have "plain_text 64 (al_schema_version x)" using ok al_schema_plain by (simp add: al_ok_def)
  ultimately show ?thesis
    using assms(2) ok al_rebuild [OF ok] unfolding sealed_like_def al_from_dict_def rbind_Ok_iff al_reads al_body_def
    by (simp add: action_lease_sha256_def al_body_def al_ok_def canonical_texts_def)
qed

interpretation al: sealed_contract al_init al_body "''action_lease_sha256''" al_from_dict
proof unfold_locales
  fix x y
  show "al_init x = Inr y \<Longrightarrow> y = x" by (rule al_init_id)
  show "distinct (''action_lease_sha256'' # map fst (al_body x))" by (simp add: al_body_def)
  show "map fst (al_body x) = map fst (al_body y)" by (simp add: al_body_def)
  show "al_init x = Inr x \<Longrightarrow> list_all (\<lambda>kv. wf_json (snd kv)) (al_body x)"
    by (simp add: al_init_Ok_iff al_ok_def al_body_def list_all_iff)
  show "al_init x = Inr x \<Longrightarrow> al_init y = Inr y \<Longrightarrow>
      map (\<lambda>kv. canon (snd kv)) (al_body x) = map (\<lambda>kv. canon (snd kv)) (al_body y) \<Longrightarrow> x = y"
    by (simp add: al_body_def al_init_Ok_iff al_ok_def)
next
  fix d :: "(string \<times> json) list" and x
  assume "wf_json (JObj d)"
  show "al_from_dict (JObj d) = Inr x \<longleftrightarrow> al_init x = Inr x \<and> sealed_like d ''action_lease_sha256'' (al_body x)"
    using al_from_dict_dest al_from_dict_intro by blast
next
  fix j x
  show "al_from_dict j = Inr x \<Longrightarrow> \<exists>d. j = JObj d"
    by (auto simp: al_from_dict_def rbind_Ok_iff as_object_Ok_iff)
qed

section \<open>Issue and evaluation\<close>

text \<open>Everything \<open>issue\<close> established about the lease it returned.\<close>

lemma al_issue_dest:
  assumes "al_issue pid issuer receipt intent enforcement epoch perms accepted issued_at valid_from valid_until = Inr l"
  obtains i s e o' where "al_ok l" and "lease_window l i s e" and
    "pid = epoch_principal_id epoch" and "al_principal_id l = pid" and
    "prof_effect_intent_sha256 enforcement = effect_intent_sha256 intent" and "mapping_complete enforcement" and
    "set (al_accepted_unenforced_effects l) = set (effects_without_enforced_rule enforcement)" and
    "set (al_permissions_authorized l) = set perms" and "perms \<noteq> []" and "set perms \<subseteq> set (epoch_grants epoch)" and
    "parse_utc ActionLeaseContractError (JStr (epoch_observed_at epoch)) ''AuthorityEpoch observed_at'' = Inr o'" and
    "instant o' \<le> instant i" and
    "\<And>n. epoch_next_known_transition_at epoch = Some n \<Longrightarrow>
      \<exists>t. parse_utc ActionLeaseContractError (JStr n) ''AuthorityEpoch next_known_transition_at'' = Inr t
        \<and> instant e \<le> instant t" and
    "al_effect_intent_sha256 l = effect_intent_sha256 intent" and
    "al_enforcement_profile_sha256 l = profile_sha256 enforcement" and
    "al_authority_epoch_sha256 l = authority_epoch_sha256 epoch" and
    "al_payload_sha256 l = ei_payload_sha256 intent" and "al_effects_declared l = ei_effects_declared intent" and
    "al_capability_id l = ei_capability_id intent"
proof -
  show thesis
    using assms unfolding al_issue_def Let_def al_helpers
  proof (elim rbind_OkE, goal_cases)
    case (1 pid' _ iss rec _ _ _ _ _ _ iat st en ob itime _ _)
    note l = al_init_id [OF 1(18)] and ok = al_init_ok [OF 1(18)]
    from ok obtain i s e where w: "lease_window l i s e" by (auto simp: al_ok_def)
    have i: "canonical_utc iat i" and e: "canonical_utc en e" using w by (simp_all add: lease_window_def l)
    have trans: "\<exists>t. parse_utc ActionLeaseContractError (JStr n) ''AuthorityEpoch next_known_transition_at'' = Inr t
        \<and> instant e \<le> instant t" if "epoch_next_known_transition_at epoch = Some n" for n
      using 1(17) parse_utc_canonical [OF e] unfolding that by (auto simp: rbind_Ok_iff)
    have "instant ob \<le> instant i" using 1(15,16) parse_utc_canonical [OF i] by simp
    with ok w trans show thesis
      by (intro that [of i s e ob]) (use 1(1-14) in \<open>simp_all add: l require_text_Ok_iff\<close>)
  qed
qed

lemma evaluate_window:
  assumes "lease_window l i s e" and "parse_utc ActionLeaseContractError (JStr checked) ''checked_at'' = Inr now"
    and "is_sha256 current" and "0 \<le> uses"
  shows "\<exists>v. evaluate_action_lease l checked current uses = Inr v \<and>
    (ev_usable v \<longleftrightarrow> current = al_authority_epoch_sha256 l \<and> instant s \<le> instant now \<and> instant now < instant e
      \<and> uses < al_use_limit l) \<and>
    ev_reason v = (if current \<noteq> al_authority_epoch_sha256 l then ''authority_epoch_changed''
      else if instant now < instant s then ''lease_not_yet_valid''
      else if instant e \<le> instant now then ''lease_expired''
      else if al_use_limit l \<le> uses then ''lease_consumed'' else ''lease_current'') \<and>
    ev_action_authority v = ev_usable v \<and> \<not> ev_execution_authority v \<and> \<not> ev_effect_performed v \<and>
    ev_lease_sha256 v = action_lease_sha256 l \<and> ev_current_authority_epoch_sha256 v = current \<and>
    canonical_utc (ev_checked_at v) now"
proof -
  have now: "canonical_utc (isoformat_utc now) now"
    using parse_utc_valid [OF assms(2)] by (simp add: canonical_utc_def)
  have c: "canonical_time ActionLeaseContractError (JStr checked) ''checked_at'' = Inr (isoformat_utc now)"
    using assms(2) by (simp add: canonical_time_def)
  have st: "canonical_utc (al_valid_from l) s" "canonical_utc (al_valid_until l) e"
    using assms(1) by (simp_all add: lease_window_def)
  note parses = parse_utc_canonical [OF now] parse_utc_canonical [OF st(1)] parse_utc_canonical [OF st(2)]
    canonical_time_canonical [OF now]
  have r: "require_sha256 c (JStr current) f = Inr current" for c f
    using assms(3) by (simp add: require_sha256_Ok_iff)
  have ev: "ev_init \<lparr>ev_lease_sha256 = action_lease_sha256 l, ev_checked_at = isoformat_utc now,
       ev_current_authority_epoch_sha256 = current, ev_uses_consumed = uses,
       ev_usable = u, ev_reason = reason, ev_action_authority = u,
       ev_execution_authority = False, ev_effect_performed = False,
       ev_schema_version = ACTION_LEASE_EVALUATION_SCHEMA_VERSION\<rparr> =
      Inr \<lparr>ev_lease_sha256 = action_lease_sha256 l, ev_checked_at = isoformat_utc now,
       ev_current_authority_epoch_sha256 = current, ev_uses_consumed = uses,
       ev_usable = u, ev_reason = reason, ev_action_authority = u,
       ev_execution_authority = False, ev_effect_performed = False,
       ev_schema_version = ACTION_LEASE_EVALUATION_SCHEMA_VERSION\<rparr>" for u reason
    unfolding ev_init_def validated_Ok_iff first_error_Ok_Cons first_error_Ok_Nil discard_Ok_iff ensure_Ok_iff al_helpers
    using assms(4) r parses by (simp add: action_lease_sha256_def require_sha256_Ok_iff)
  show ?thesis
    unfolding evaluate_action_lease_def al_helpers c r rbind.simps parses
    using assms(4) now ev by (simp add: ensure_def Let_def not_less not_le)
qed

lemma al_use_limit_ok: "al_ok l \<Longrightarrow> al_use_limit l = 1"
  by (simp add: al_ok_def al_use_limit_def)

section \<open>Examples\<close>

definition sample_intent :: effect_intent where
  "sample_intent = \<lparr>ei_capability_id = ''net.fetch'', ei_capability_version = ''1.0.0'',
     ei_payload_sha256 = sha256_hex ''payload'', ei_declared_at = sample_time 4,
     ei_effects_declared = [''network.request''], ei_evidence_ref_sha256s = [],
     ei_effect_performed = False, ei_operational_authority = False, ei_action_authority = False,
     ei_execution_authority = False, ei_schema_version = EFFECT_INTENT_SCHEMA_VERSION\<rparr>"

lemma sample_intent_ok: "ei_init sample_intent = Inr sample_intent"
proof -
  have "require_timestamp EffectIntentContractError (JStr (sample_time 4)) ''declared_at'' = Inr (sample_time 4)"
    using parse_aware_isoformat [OF sample_canonical [of 4]] by (simp add: require_timestamp_def)
  then show ?thesis
    by (simp add: ei_init_Ok_iff sample_intent_def canonical_effects_def KNOWN_EFFECTS_def plain_text_def is_control_def)
qed

text \<open>A profile bound to the intent's digest; the one \<open>build\<close> makes when the effects are the intent's.\<close>

definition sample_bound_profile :: "string list \<Rightarrow> enforcement_rule list \<Rightarrow> enforcement_profile" where
  "sample_bound_profile effects rules = \<lparr>prof_effect_intent_sha256 = effect_intent_sha256 sample_intent,
     prof_effects_declared = effects, prof_rules = rules,
     prof_effect_performed = False, prof_operational_authority = False, prof_action_authority = False,
     prof_execution_authority = False, prof_schema_version = ENFORCEMENT_PROFILE_SCHEMA_VERSION\<rparr>"

lemma sample_bound_ok:
  "prof_construct (sample_bound_profile [''network.request''] [sample_rule])
     = Inr (sample_bound_profile [''network.request''] [sample_rule])"
  "prof_construct (sample_bound_profile [''none''] []) = Inr (sample_bound_profile [''none''] [])"
  "prof_build sample_intent [sample_rule] = Inr (sample_bound_profile [''network.request''] [sample_rule])"
  by (simp_all add: prof_construct_Ok_iff prof_init_Ok_iff prof_ok_def sample_bound_profile_def sample_rule_ok
      canonical_declared_def KNOWN_EFFECTS_def effect_intent_sha256_def prof_build_def sample_intent_def)
    (simp_all add: sample_rule_def)

lemma sample_views:
  "effects_without_enforced_rule (sample_bound_profile [''network.request''] [sample_rule]) = []"
  "effects_without_enforced_rule (sample_bound_profile [''none''] []) = []"
  "mapping_complete (sample_bound_profile [''network.request''] [sample_rule])"
  "mapping_complete (sample_bound_profile [''none''] [])"
  by (simp_all add: effects_without_enforced_rule_def mapping_complete_def unmapped_effects_def
      effects_with_enforced_rule_def sample_bound_profile_def sample_rule_def sorted_set_def mapped_effects_def)

definition sample_issued :: "effect_intent \<Rightarrow> enforcement_profile \<Rightarrow> authority_epoch \<Rightarrow> action_lease" where
  "sample_issued intent p e = \<lparr>al_principal_id = ''alice'', al_issuer_id = ''issuer'',
     al_authorization_receipt_sha256 = sha256_hex ''receipt'',
     al_effect_intent_sha256 = effect_intent_sha256 intent,
     al_enforcement_profile_sha256 = profile_sha256 p,
     al_authority_epoch_sha256 = authority_epoch_sha256 e,
     al_capability_id = ei_capability_id intent,
     al_capability_version = ei_capability_version intent,
     al_payload_sha256 = ei_payload_sha256 intent, al_effects_declared = ei_effects_declared intent,
     al_permissions_authorized = [''artifact.write''], al_accepted_unenforced_effects = [],
     al_issued_at = sample_time 4, al_valid_from = sample_time 4, al_valid_until = sample_time 6,
     al_max_uses = JInt 1,
     al_effect_performed = False, al_operational_authority = False, al_action_authority = True,
     al_execution_authority = False, al_schema_version = ACTION_LEASE_SCHEMA_VERSION\<rparr>"

lemma sample_issued_window: "lease_window (sample_issued intent p e) (sample_t 4) (sample_t 4) (sample_t 6)"
  by (simp add: lease_window_def sample_issued_def sample_canonical sample_instant)

text \<open>Any intent with plain texts and one known effect will do.\<close>

definition issuable :: "effect_intent \<Rightarrow> bool" where
  "issuable intent \<longleftrightarrow> (\<exists>eff \<in> set KNOWN_EFFECTS. eff \<noteq> ''none'' \<and> eff \<noteq> ''unknown'' \<and> ei_effects_declared intent = [eff]) \<and>
     is_sha256 (ei_payload_sha256 intent) \<and> plain_text 256 (ei_capability_id intent) \<and> plain_text 128 (ei_capability_version intent)"

lemma sample_issued_ok:
  assumes "issuable intent"
  shows "al_ok (sample_issued intent p e)"
proof -
  have "\<exists>i s e'. lease_window (sample_issued intent p e) i s e'" using sample_issued_window by blast
  moreover have "plain_text 256 eff" if "eff \<in> set KNOWN_EFFECTS" for eff
    using that by (auto simp: KNOWN_EFFECTS_def plain_text_def is_control_def)
  ultimately show ?thesis using assms
    unfolding al_ok_def issuable_def
    by (auto simp: sample_issued_def plain_text_def is_control_def effect_intent_sha256_def profile_sha256_def
        authority_epoch_sha256_def canonical_texts_def canonical_declared_def)
qed

lemma sample_issue:
  assumes e: "epoch_ok e" "epoch_grants e = [''artifact.write'']" "epoch_observed_at e = sample_time 4"
      "epoch_next_known_transition_at e = Some (sample_time 6)" "epoch_principal_id e = ''alice''"
    and p: "prof_effect_intent_sha256 p = effect_intent_sha256 intent" "mapping_complete p"
      "effects_without_enforced_rule p = []"
    and i: "issuable intent"
  shows "al_issue ''alice'' ''issuer'' (sha256_hex ''receipt'') intent p e [''artifact.write''] []
      (sample_time 4) (sample_time 4) (sample_time 6) = Inr (sample_issued intent p e)"
proof -
  have names: "require_text c (JStr w) f 256 = Inr w" if "w = ''alice'' \<or> w = ''issuer''" for c f w
    using that by (auto simp: require_text_def is_control_def)
  have sha: "require_sha256 c (JStr (sha256_hex x)) f = Inr (sha256_hex x)" for c f x
    by (simp add: require_sha256_Ok_iff)
  have t: "canonical_time c (JStr (sample_time d)) f = Inr (sample_time d)" if "1 \<le> d" "d \<le> 31" for c d f
    by (rule canonical_time_canonical [OF sample_canonical]) (use that in simp_all)
  have eff: "''unknown'' \<notin> set (ei_effects_declared intent)" "ei_effects_declared intent \<noteq> [''none'']"
    using i by (auto simp: issuable_def)
  have "al_issue ''alice'' ''issuer'' (sha256_hex ''receipt'') intent p e [''artifact.write''] []
      (sample_time 4) (sample_time 4) (sample_time 6) = al_init (sample_issued intent p e)"
    unfolding al_issue_def al_helpers
    by (simp add: names sha e p eff t sample_parse sample_instant Let_def sorted_set_def ensure_def sample_issued_def)
  with sample_issued_ok [OF i] show ?thesis by (simp add: al_init_Ok_iff)
qed

lemma sample_intent_issuable: "issuable sample_intent"
  by (simp add: issuable_def sample_intent_def KNOWN_EFFECTS_def plain_text_def is_control_def)

section \<open>Properties\<close>

text \<open>Issuing never widens authority: an issued lease names the epoch's principal and digests of
  exactly the supplied intent, profile and epoch, authorises a non-empty subset of the epoch's grants,
  lies inside the window from the epoch's observation to its next known transition, is single-use,
  carries action authority and no other authority, acknowledges exactly the effects without an
  enforced rule, and its document reads back as the same lease.\<close>

theorem issued_lease_is_bounded:
  assumes "al_issue pid issuer receipt intent enforcement epoch perms accepted issued_at valid_from valid_until = Inr l"
  shows "al_principal_id l = epoch_principal_id epoch
    \<and> al_effect_intent_sha256 l = effect_intent_sha256 intent
    \<and> al_enforcement_profile_sha256 l = profile_sha256 enforcement
    \<and> al_authority_epoch_sha256 l = authority_epoch_sha256 epoch
    \<and> al_permissions_authorized l \<noteq> [] \<and> set (al_permissions_authorized l) \<subseteq> set (epoch_grants epoch)
    \<and> set (al_accepted_unenforced_effects l) = set (effects_without_enforced_rule enforcement)
    \<and> (\<exists>i s e o'. lease_window l i s e
        \<and> parse_utc ActionLeaseContractError (JStr (epoch_observed_at epoch)) ''AuthorityEpoch observed_at'' = Inr o'
        \<and> instant o' \<le> instant i
        \<and> (\<forall>n. epoch_next_known_transition_at epoch = Some n \<longrightarrow>
             (\<exists>t. parse_utc ActionLeaseContractError (JStr n) ''AuthorityEpoch next_known_transition_at'' = Inr t
               \<and> instant e \<le> instant t)))
    \<and> al_use_limit l = 1 \<and> al_action_authority l \<and> \<not> al_execution_authority l \<and> \<not> al_operational_authority l
    \<and> \<not> al_effect_performed l
    \<and> al_from_dict (al_to_dict l) = Inr l"
proof (rule al_issue_dest [OF assms], goal_cases)
  case (1 i s e o')
  have "al_from_dict (al_to_dict l) = Inr l"
    unfolding al_to_dict_def by (rule al.roundtrip [where x = l]) (simp add: al_init_Ok_iff 1(1))
  moreover have "\<exists>i s e o'. lease_window l i s e
        \<and> parse_utc ActionLeaseContractError (JStr (epoch_observed_at epoch)) ''AuthorityEpoch observed_at'' = Inr o'
        \<and> instant o' \<le> instant i
        \<and> (\<forall>n. epoch_next_known_transition_at epoch = Some n \<longrightarrow>
             (\<exists>t. parse_utc ActionLeaseContractError (JStr n) ''AuthorityEpoch next_known_transition_at'' = Inr t
               \<and> instant e \<le> instant t))"
    using 1(2,11,12,13) by blast
  ultimately show ?thesis
    using 1(1,3-10,14-16) al_use_limit_ok [OF 1(1)] by (auto simp: al_ok_def)
qed

theorem issued_lease_is_bounded_witness:
  "\<exists>e l. al_issue ''alice'' ''issuer'' (sha256_hex ''receipt'') sample_intent
      (sample_bound_profile [''network.request''] [sample_rule]) e [''artifact.write''] []
      (sample_time 4) (sample_time 4) (sample_time 6) = Inr l
    \<and> al_use_limit l = 1 \<and> al_from_dict (al_to_dict l) = Inr l"
proof -
  obtain e where e: "epoch_ok e" "epoch_grants e = [''artifact.write'']" "epoch_observed_at e = sample_time 4"
    "epoch_next_known_transition_at e = Some (sample_time 6)" "epoch_principal_id e = ''alice''"
    by (rule sample_epoch)
  have "prof_effect_intent_sha256 (sample_bound_profile [''network.request''] [sample_rule])
      = effect_intent_sha256 sample_intent" by (simp add: sample_bound_profile_def)
  note l = sample_issue [OF e this sample_views(3,1) sample_intent_issuable]
  from issued_lease_is_bounded [OF l] l show ?thesis by blast
qed

text \<open>For a constructed lease, a readable check time, a well-formed epoch digest and a
  non-negative use count, evaluation returns, and it says usable exactly when the lease's epoch is
  still current, the time is in the half-open window and the single use is not consumed; its reason
  names the first failing condition, and it never confers execution authority.\<close>

theorem lease_usable_iff:
  assumes "al_init l = Inr l" and "parse_utc ActionLeaseContractError (JStr checked) ''checked_at'' = Inr now"
    and "is_sha256 current" and "0 \<le> uses"
  shows "\<exists>v s e. evaluate_action_lease l checked current uses = Inr v
    \<and> canonical_utc (al_valid_from l) s \<and> canonical_utc (al_valid_until l) e
    \<and> (ev_usable v \<longleftrightarrow> current = al_authority_epoch_sha256 l \<and> instant s \<le> instant now \<and> instant now < instant e
          \<and> uses = 0)
    \<and> ev_reason v = (if current \<noteq> al_authority_epoch_sha256 l then ''authority_epoch_changed''
         else if instant now < instant s then ''lease_not_yet_valid''
         else if instant e \<le> instant now then ''lease_expired''
         else if 0 < uses then ''lease_consumed'' else ''lease_current'')
    \<and> ev_action_authority v = ev_usable v \<and> \<not> ev_execution_authority v \<and> \<not> ev_effect_performed v"
proof -
  have ok: "al_ok l" using assms(1) by (simp add: al_init_Ok_iff)
  then obtain i s e where w: "lease_window l i s e" by (auto simp: al_ok_def)
  from evaluate_window [OF w assms(2-4)] al_use_limit_ok [OF ok] assms(4) obtain v where
    "evaluate_action_lease l checked current uses = Inr v"
    "ev_usable v \<longleftrightarrow> current = al_authority_epoch_sha256 l \<and> instant s \<le> instant now \<and> instant now < instant e
      \<and> uses = 0"
    "ev_reason v = (if current \<noteq> al_authority_epoch_sha256 l then ''authority_epoch_changed''
      else if instant now < instant s then ''lease_not_yet_valid''
      else if instant e \<le> instant now then ''lease_expired''
      else if 0 < uses then ''lease_consumed'' else ''lease_current'')"
    "ev_action_authority v = ev_usable v" "\<not> ev_execution_authority v" "\<not> ev_effect_performed v"
    by (auto split: if_splits)
  with w show ?thesis unfolding lease_window_def by blast
qed

theorem lease_usable_iff_witness:
  "\<exists>l v. al_init l = Inr l \<and>
     evaluate_action_lease l (sample_time 5) (al_authority_epoch_sha256 l) 0 = Inr v \<and> ev_usable v"
proof -
  obtain e where e: "epoch_ok e" "epoch_grants e = [''artifact.write'']" "epoch_observed_at e = sample_time 4"
    "epoch_next_known_transition_at e = Some (sample_time 6)" "epoch_principal_id e = ''alice''"
    by (rule sample_epoch)
  have p: "prof_effect_intent_sha256 (sample_bound_profile [''network.request''] [sample_rule])
      = effect_intent_sha256 sample_intent" by (simp add: sample_bound_profile_def)
  define l where "l = sample_issued sample_intent (sample_bound_profile [''network.request''] [sample_rule]) e"
  have w: "lease_window l (sample_t 4) (sample_t 4) (sample_t 6)" and ok: "al_ok l"
    unfolding l_def by (rule sample_issued_window, rule sample_issued_ok [OF sample_intent_issuable])
  then have init: "al_init l = Inr l" by (simp add: al_init_Ok_iff)
  have "is_sha256 (al_authority_epoch_sha256 l)" using ok by (simp add: al_ok_def)
  from lease_usable_iff [OF init sample_parse this order_refl, of 5] obtain v s e' where
    v: "evaluate_action_lease l (sample_time 5) (al_authority_epoch_sha256 l) 0 = Inr v"
    and s: "canonical_utc (al_valid_from l) s" "canonical_utc (al_valid_until l) e'"
    and u: "ev_usable v \<longleftrightarrow> instant s \<le> instant (sample_t 5) \<and> instant (sample_t 5) < instant e'" by auto
  have "s = sample_t 4" "e' = sample_t 6" using s w canonical_utc_unique unfolding lease_window_def by blast+
  with u v init show ?thesis by (auto simp: sample_instant)
qed

text \<open>With a profile built from the intent itself, every effect a lease declares is covered by a
  rule, and the lease's acknowledged list contains an effect exactly when no enforced rule covers it:
  nothing unenforced is authorised silently.\<close>

theorem lease_acknowledges_unenforced_effects:
  assumes "prof_build intent rules = Inr profile"
    and "al_issue pid issuer receipt intent profile epoch perms accepted issued_at valid_from valid_until = Inr l"
  shows "\<forall>f \<in> set (al_effects_declared l).
    (\<exists>r \<in> set rules. f \<in> set (er_effect_scope r)) \<and>
    (f \<in> set (al_accepted_unenforced_effects l) \<longleftrightarrow>
       \<not> (\<exists>r \<in> set rules. er_status r = ''enforced'' \<and> f \<in> set (er_effect_scope r)))"
proof (rule al_issue_dest [OF assms(2)], goal_cases)
  case (1 i s e o')
  have p: "prof_rules profile = sort_key er_rule_id rules" "prof_effects_declared profile = ei_effects_declared intent"
    using prof_init_id [OF assms(1) [unfolded prof_build_def]] by simp_all
  have eff: "al_effects_declared l = prof_effects_declared profile" using 1(18) p(2) by simp
  have not_none: "prof_effects_declared profile \<noteq> [''none'']" using 1(1) eff by (simp add: al_ok_def)
  have cover: "f \<in> set (mapped_effects profile)" if "f \<in> set (al_effects_declared l)" for f
    using 1(6) not_none that unfolding eff by (auto simp: mapping_complete_def unmapped_effects_def filter_empty_conv)
  have unenf: "f \<in> set (al_accepted_unenforced_effects l) \<longleftrightarrow> f \<notin> set (effects_with_enforced_rule profile)"
    if "f \<in> set (al_effects_declared l)" for f
    using 1(7) not_none that unfolding eff by (auto simp: effects_without_enforced_rule_def)
  show ?thesis using cover unenf p(1) by auto
qed

theorem lease_acknowledges_unenforced_effects_witness:
  "\<exists>e l. al_issue ''alice'' ''issuer'' (sha256_hex ''receipt'') sample_intent
      (sample_bound_profile [''network.request''] [sample_rule]) e [''artifact.write''] []
      (sample_time 4) (sample_time 4) (sample_time 6) = Inr l
    \<and> (\<forall>f \<in> set (al_effects_declared l). \<exists>r \<in> {sample_rule}. f \<in> set (er_effect_scope r))"
proof -
  obtain e where e: "epoch_ok e" "epoch_grants e = [''artifact.write'']" "epoch_observed_at e = sample_time 4"
    "epoch_next_known_transition_at e = Some (sample_time 6)" "epoch_principal_id e = ''alice''"
    by (rule sample_epoch)
  have p: "prof_effect_intent_sha256 (sample_bound_profile [''network.request''] [sample_rule])
      = effect_intent_sha256 sample_intent" by (simp add: sample_bound_profile_def)
  note l = sample_issue [OF e p sample_views(3,1) sample_intent_issuable]
  from lease_acknowledges_unenforced_effects [OF sample_bound_ok(3) l] l show ?thesis by auto
qed

text \<open>\<open>issue\<close> compares only the digest the profile names, not the effects it maps: a readable
  profile that cites the intent's digest but declares none, with no rule at all, passes the mapping
  check, and the lease then authorises a network request with nothing acknowledged.\<close>

theorem issue_trusts_profile_effects:
  "\<exists>p e l. prof_from_dict (prof_to_dict p) = Inr p \<and> prof_rules p = [] \<and> epoch_ok e \<and>
     al_issue ''alice'' ''issuer'' (sha256_hex ''receipt'') sample_intent p e [''artifact.write''] []
       (sample_time 4) (sample_time 4) (sample_time 6) = Inr l \<and>
     al_effects_declared l = [''network.request''] \<and> al_accepted_unenforced_effects l = []"
proof -
  let ?p = "sample_bound_profile [''none''] []"
  obtain e where e: "epoch_ok e" "epoch_grants e = [''artifact.write'']" "epoch_observed_at e = sample_time 4"
    "epoch_next_known_transition_at e = Some (sample_time 6)" "epoch_principal_id e = ''alice''"
    by (rule sample_epoch)
  have p: "prof_effect_intent_sha256 ?p = effect_intent_sha256 sample_intent" by (simp add: sample_bound_profile_def)
  note sample_issue [OF e p sample_views(4,2) sample_intent_issuable]
  moreover have "al_effects_declared (sample_issued sample_intent ?p e) = [''network.request'']"
      "al_accepted_unenforced_effects (sample_issued sample_intent ?p e) = []"
    by (simp_all add: sample_issued_def) (simp add: sample_intent_def)
  moreover have "prof_from_dict (prof_to_dict ?p) = Inr ?p"
    unfolding prof_to_dict_def by (rule prof.roundtrip [OF sample_bound_ok(2)])
  moreover have "prof_rules ?p = []" by (simp add: sample_bound_profile_def)
  ultimately show ?thesis using e(1) by blast
qed

text \<open>The time checks promise an \<open>ActionLeaseContractError\<close> for a bad timestamp, but a
  well-formed one whose UTC value falls before year 1 leaves the contract with Python's
  \<open>OverflowError\<close>, from every operation that normalises it.\<close>

theorem lease_time_overflow_escapes:
  "al_canonical_time (JStr ''0001-01-01T00:00:00+01:00'') f = raise PyOverflowError ''date value out of range''
   \<and> evaluate_action_lease l ''0001-01-01T00:00:00+01:00'' c u = raise PyOverflowError ''date value out of range''"
proof -
  let ?t = "\<lparr>dt_year = 1, dt_month = 1, dt_day = 1, dt_hour = 0, dt_minute = 0, dt_second = 0, dt_micro = 0,
      dt_offset = Some 3600000000\<rparr>"
  have z: "replace_Z ''0001-01-01T00:00:00+01:00'' = ''0001-01-01T00:00:00+01:00''" by (simp add: replace_Z_def)
  have t: "fromisoformat ''0001-01-01T00:00:00+01:00'' = Some ?t" by code_simp
  have p: "plain_text 64 ''0001-01-01T00:00:00+01:00''" by (simp add: plain_text_def is_control_def)
  have "to_utc ?t = raise PyOverflowError ''date value out of range''" by code_simp
  then have "parse_utc c (JStr ''0001-01-01T00:00:00+01:00'') f = raise PyOverflowError ''date value out of range''" for c f
    using z t p by (simp add: parse_utc_def parse_aware_def require_text_def plain_text_def)
  then show ?thesis
    by (simp add: al_canonical_time_def canonical_time_def evaluate_action_lease_def)
qed

end
