(* ===== verification/Spine_Executor.thy ===== *)
theory Spine_Executor
  imports Effect_Boundary "HOL-Library.Sublist"
begin

text \<open>
  \<open>phios/spine/executor.py\<close>: the registry that maps authorized capabilities to handlers, the
  outcome a handler reports, and the built-in text artifact handler with its file-name sanitiser.

  A handler is code the spine is given: \<open>handler n payload\<close> is what the call answers when \<open>n\<close>
  handler calls were made before it, so that the same handler may answer differently each time.
\<close>

section \<open>Outcomes\<close>

record outcome_unknown =
  ou_message :: string
  ou_external_identifiers :: "(string \<times> string) list"

text \<open>\<open>OutcomeUnknownError.__init__\<close>.\<close>

definition ou_init :: "string \<Rightarrow> (string \<times> string) list \<Rightarrow> outcome_unknown result" where
  "ou_init message identifiers =
     (if message = [] then raise PyValueError ''OutcomeUnknownError message must be non-empty''
      else if list_ex (\<lambda>kv. fst kv = [] \<or> snd kv = []) identifiers
      then raise PyValueError ''OutcomeUnknownError external identifiers must be non-empty strings''
      else Ok \<lparr>ou_message = message, ou_external_identifiers = sort_key fst identifiers\<rparr>)"

record artifact_result =
  ar_path :: string
  ar_sha256 :: string

text \<open>
  What a handler call does: it returns an artifact, raises \<open>OutcomeUnknownError\<close>, raises another
  \<open>Exception\<close> (its type name and text), or is interrupted by an exception that is no
  \<open>Exception\<close>.
\<close>

datatype handler_outcome =
    Artifact artifact_result
  | Unknown outcome_unknown
  | Raised string string
  | Interrupted

type_synonym payload = "(string \<times> json) list"
type_synonym handler = "nat \<Rightarrow> payload \<Rightarrow> handler_outcome"

section \<open>The registry\<close>

record executor_registry =
  xr_handlers :: "(string \<times> handler) list"
  xr_effects :: "(string \<times> string list) list"

definition xr_empty :: executor_registry where
  "xr_empty = \<lparr>xr_handlers = [], xr_effects = []\<rparr>"

definition xr_register ::
  "string \<Rightarrow> handler \<Rightarrow> string list \<Rightarrow> executor_registry \<Rightarrow> unit result \<times> executor_registry" where
  "xr_register capability_id handler effects r =
     (if capability_id \<in> set (map fst (xr_handlers r))
      then (raise PyValueError (''Executor already registered: '' @ capability_id), r)
      else
        let r1 = r\<lparr>xr_handlers := xr_handlers r @ [(capability_id, handler)]\<rparr>
        in (case normalize_effects (map JStr effects) ''executor effects'' True of
              Inl e \<Rightarrow> (Inl e, r1)
            | Inr normalized \<Rightarrow> (Ok (), r1\<lparr>xr_effects := (capability_id, normalized) # xr_effects r1\<rparr>)))"

definition xr_lookup_effects :: "executor_registry \<Rightarrow> string \<Rightarrow> string list result" where
  "xr_lookup_effects r capability_id =
     (case map_of (xr_effects r) capability_id of
        Some effects \<Rightarrow> Ok effects
      | None \<Rightarrow> raise PyKeyError (''No executor for capability: '' @ capability_id))"

text \<open>\<open>execute\<close>: the handler the capability has, if any, or the \<open>KeyError\<close>.\<close>

definition xr_handler :: "executor_registry \<Rightarrow> string \<Rightarrow> handler result" where
  "xr_handler r capability_id =
     (case map_of (xr_handlers r) capability_id of
        Some h \<Rightarrow> Ok h
      | None \<Rightarrow> raise PyKeyError (''No executor for capability: '' @ capability_id))"

section \<open>Text artifacts\<close>

text \<open>\<open>repr\<close> and \<open>str\<close> of a JSON value.\<close>

fun py_repr :: "json \<Rightarrow> string"
  and py_repr_items :: "json list \<Rightarrow> string"
  and py_repr_members :: "(string \<times> json) list \<Rightarrow> string" where
  "py_repr JNull = ''None''"
| "py_repr (JBool b) = (if b then ''True'' else ''False'')"
| "py_repr (JInt i) = show_int i"
| "py_repr (JStr s) = py_repr_str s"
| "py_repr (JList xs) = ''['' @ py_repr_items xs"
| "py_repr (JObj kvs) = ''{'' @ py_repr_members kvs"
| "py_repr_items [] = '']''"
| "py_repr_items [x] = py_repr x @ '']''"
| "py_repr_items (x # y # xs) = py_repr x @ '', '' @ py_repr_items (y # xs)"
| "py_repr_members [] = ''}''"
| "py_repr_members [(k, v)] = py_repr_str k @ '': '' @ py_repr v @ ''}''"
| "py_repr_members ((k, v) # m # ms) = py_repr_str k @ '': '' @ py_repr v @ '', '' @ py_repr_members (m # ms)"

definition py_str :: "json \<Rightarrow> string" where
  "py_str j = (case j of JStr s \<Rightarrow> s | _ \<Rightarrow> py_repr j)"

text \<open>The class \<open>[A-Za-z0-9._-]\<close>.\<close>

definition is_name_char :: "char \<Rightarrow> bool" where
  "is_name_char c \<longleftrightarrow> (let n = (of_char c :: nat) in
     (65 \<le> n \<and> n \<le> 90) \<or> (97 \<le> n \<and> n \<le> 122) \<or> (48 \<le> n \<and> n \<le> 57) \<or> n = 46 \<or> n = 95 \<or> n = 45)"

text \<open>\<open>re.sub("[^A-Za-z0-9._-]+", "-", s)\<close>; the flag says that the previous character was replaced.\<close>

fun sub_name :: "bool \<Rightarrow> string \<Rightarrow> string" where
  "sub_name inside [] = []"
| "sub_name inside (c # cs) =
     (if is_name_char c then c # sub_name False cs
      else if inside then sub_name True cs
      else CHR ''-'' # sub_name True cs)"

definition is_dot_dash :: "char \<Rightarrow> bool" where
  "is_dot_dash c \<longleftrightarrow> c = CHR ''.'' \<or> c = CHR ''-''"

definition strip_chars :: "(char \<Rightarrow> bool) \<Rightarrow> string \<Rightarrow> string" where
  "strip_chars p s = rev (dropWhile p (rev (dropWhile p s)))"

definition safe_name :: "string \<Rightarrow> string" where
  "safe_name requested_name =
     (let s = strip_chars is_dot_dash (sub_name False requested_name)
      in if s = [] then ''artifact'' else s)"

definition dget_default :: "payload \<Rightarrow> string \<Rightarrow> string \<Rightarrow> json" where
  "dget_default d k v = (case map_of d k of Some j \<Rightarrow> j | None \<Rightarrow> JStr v)"

text \<open>\<open>root in path.parents\<close>, of resolved absolute paths.\<close>

definition is_ancestor :: "string \<Rightarrow> string \<Rightarrow> bool" where
  "is_ancestor root path =
     (if root = ''/'' then path \<noteq> ''/'' else prefix (root @ ''/'') path \<and> path \<noteq> root @ ''/'')"

text \<open>
  The handler under a resolved \<open>root\<close>.  \<open>resolve\<close> is what the file system makes of a path
  (symbolic links), \<open>fault\<close> an \<open>OSError\<close> text of \<open>mkdir\<close> or the write.  The second component is
  the file the call leaves behind: its path and its bytes.
\<close>

definition text_artifact_write ::
  "(string \<Rightarrow> string) \<Rightarrow> string option \<Rightarrow> string \<Rightarrow> payload \<Rightarrow> handler_outcome \<times> (string \<times> string) option" where
  "text_artifact_write resolve fault root payload =
     (let text' = py_str (dget_default payload ''text'' []);
          requested_name = py_str (dget_default payload ''name'' ''artifact'');
          path = resolve ((if root = ''/'' then [] else root) @ ''/'' @ safe_name requested_name @ ''.txt'')
      in case fault of
           Some m \<Rightarrow> (Raised ''OSError'' m, None)
         | None \<Rightarrow>
           if \<not> is_ancestor root path
           then (Raised ''ValueError'' ''Artifact path escaped the configured artifact root'', None)
           else (Artifact \<lparr>ar_path = path, ar_sha256 = sha256_hex (utf8 text')\<rparr>, Some (path, utf8 text')))"

section \<open>Facts about the registry\<close>

text \<open>
  What registration keeps: every capability with recorded effects has a handler, and the effects
  recorded are in canonical form.
\<close>

definition xr_wf :: "executor_registry \<Rightarrow> bool" where
  "xr_wf r \<longleftrightarrow> distinct (map fst (xr_handlers r)) \<and> set (map fst (xr_effects r)) \<subseteq> set (map fst (xr_handlers r)) \<and>
     (\<forall>(i, es) \<in> set (xr_effects r). declared_effects_ok True es \<and> sorted_set (map strip es) = es)"

lemma xr_wf_empty: "xr_wf xr_empty"
  by (simp add: xr_wf_def xr_empty_def)

lemma xr_register_cases:
  assumes "xr_register i h es r = (res, r')"
  obtains (duplicate) "i \<in> set (map fst (xr_handlers r))" and "r' = r"
      and "res = raise PyValueError (''Executor already registered: '' @ i)"
  | (refused) e where "i \<notin> set (map fst (xr_handlers r))"
      and "normalize_effects (map JStr es) ''executor effects'' True = Inl e" and "res = Inl e"
      and "r' = r\<lparr>xr_handlers := xr_handlers r @ [(i, h)]\<rparr>"
  | (registered) ns where "i \<notin> set (map fst (xr_handlers r))"
      and "normalize_effects (map JStr es) ''executor effects'' True = Inr ns" and "res = Ok ()"
      and "r' = \<lparr>xr_handlers = xr_handlers r @ [(i, h)], xr_effects = (i, ns) # xr_effects r\<rparr>"
  using assms unfolding xr_register_def Let_def
  by (auto split: if_splits sum.splits)

lemma normalize_effects_fixed:
  assumes "normalize_effects (map JStr es) l ae = Inr ns"
  shows "declared_effects_ok ae ns" and "sorted_set (map strip ns) = ns"
proof -
  from assms have ns: "ns = sorted_set (map strip es)" and d: "declared_effects_ok ae es"
    by (simp_all add: normalize_effects_Ok_iff)
  have k: "set ns \<subseteq> set KNOWN_EFFECTS" using d unfolding ns declared_effects_ok_def by simp
  then have m: "map strip ns = ns" by (rule map_strip_known)
  show "declared_effects_ok ae ns"
    using d k unfolding declared_effects_ok_def m unfolding ns by simp
  show "sorted_set (map strip ns) = ns" unfolding m unfolding ns by simp
qed

lemma xr_wf_register:
  assumes "xr_wf r" and "xr_register i h es r = (res, r')"
  shows "xr_wf r'"
  using assms(2)
proof (cases rule: xr_register_cases)
  case (registered ns)
  then show ?thesis using assms(1) normalize_effects_fixed [OF registered(2)] by (auto simp: xr_wf_def)
qed (use assms(1) in \<open>auto simp: xr_wf_def\<close>)

lemma xr_lookup_effects_Ok:
  assumes "xr_wf r" and "xr_lookup_effects r i = Inr es"
  shows "\<exists>h. xr_handler r i = Inr h"
proof -
  from assms(2) have "(i, es) \<in> set (xr_effects r)"
    by (auto simp: xr_lookup_effects_def split: option.splits dest: map_of_SomeD)
  then have "i \<in> set (map fst (xr_effects r))" by force
  then have "i \<in> set (map fst (xr_handlers r))" using assms(1) by (auto simp: xr_wf_def)
  then obtain h where "map_of (xr_handlers r) i = Some h" by (metis list.set_map weak_map_of_SomeI map_of_eq_None_iff not_Some_eq)
  then show ?thesis by (simp add: xr_handler_def)
qed

section \<open>Facts about the sanitiser\<close>

lemma dash_name_char [simp]: "is_name_char (CHR ''-'')"
  by (simp add: is_name_char_def)

lemma sub_name_chars: "c \<in> set (sub_name b s) \<Longrightarrow> is_name_char c"
  by (induction b s rule: sub_name.induct) (auto split: if_splits)

lemma sub_name_id: "list_all is_name_char s \<Longrightarrow> sub_name b s = s"
  by (induction b s rule: sub_name.induct) auto

lemma dropWhile_last:
  assumes "\<not> p (last xs)" and "xs \<noteq> []"
  shows "dropWhile p xs \<noteq> []" and "last (dropWhile p xs) = last xs"
  using assms by (induction xs) (auto split: if_splits)

lemma strip_chars_props:
  "set (strip_chars p s) \<subseteq> set s"
  "strip_chars p s \<noteq> [] \<Longrightarrow> \<not> p (hd (strip_chars p s)) \<and> \<not> p (last (strip_chars p s))"
proof -
  show "set (strip_chars p s) \<subseteq> set s"
  proof
    fix c assume "c \<in> set (strip_chars p s)"
    then have "c \<in> set (dropWhile p (rev (dropWhile p s)))" by (simp add: strip_chars_def)
    then have "c \<in> set (rev (dropWhile p s))" by (rule set_dropWhileD)
    then have "c \<in> set (dropWhile p s)" by simp
    then show "c \<in> set s" by (rule set_dropWhileD)
  qed
  assume ne: "strip_chars p s \<noteq> []"
  let ?t = "dropWhile p s" and ?u = "dropWhile p (rev (dropWhile p s))"
  have u: "?u \<noteq> []" using ne by (simp add: strip_chars_def)
  then have hu: "\<not> p (hd ?u)" by (rule hd_dropWhile)
  have "?t \<noteq> []" using u by (metis dropWhile.simps(1) rev.simps(1))
  then have ht: "\<not> p (hd ?t)" by (rule hd_dropWhile)
  have "last ?u = last (rev ?t)"
    using dropWhile_last(2) [of p "rev ?t"] ht \<open>?t \<noteq> []\<close> by (simp add: last_rev)
  then have "\<not> p (last ?u)" using ht \<open>?t \<noteq> []\<close> by (simp add: last_rev)
  with hu u show "\<not> p (hd (strip_chars p s)) \<and> \<not> p (last (strip_chars p s))"
    by (simp add: strip_chars_def hd_rev last_rev)
qed

lemma strip_chars_id: "s = [] \<or> \<not> p (hd s) \<and> \<not> p (last s) \<Longrightarrow> strip_chars p s = s"
  by (cases s) (auto simp: strip_chars_def hd_rev dropWhile_hd_False split: if_splits)

section \<open>Properties\<close>

text \<open>Whatever name a payload asks for, the file name built from it is a non-empty text over
  \<open>[A-Za-z0-9._-]\<close> that neither starts nor ends with a dot or dash (so it holds no separator and is
  neither \<open>.\<close> nor \<open>..\<close>), and sanitising it again changes nothing.\<close>

theorem safe_name_is_plain_component:
  "safe_name n \<noteq> [] \<and> list_all is_name_char (safe_name n) \<and> CHR ''/'' \<notin> set (safe_name n) \<and>
   \<not> is_dot_dash (hd (safe_name n)) \<and> \<not> is_dot_dash (last (safe_name n)) \<and> safe_name (safe_name n) = safe_name n"
proof -
  let ?s = "strip_chars is_dot_dash (sub_name False n)"
  have chars: "list_all is_name_char (safe_name n)"
    using strip_chars_props(1) [of is_dot_dash "sub_name False n"] sub_name_chars [of _ False n]
    by (auto simp: safe_name_def Let_def list_all_iff is_name_char_def)
  then have sep: "CHR ''/'' \<notin> set (safe_name n)"
    by (auto simp: list_all_iff is_name_char_def Let_def)
  have ends: "safe_name n \<noteq> [] \<and> \<not> is_dot_dash (hd (safe_name n)) \<and> \<not> is_dot_dash (last (safe_name n))"
    using strip_chars_props(2) [of is_dot_dash "sub_name False n"]
    by (auto simp: safe_name_def Let_def is_dot_dash_def)
  have "safe_name (safe_name n) = safe_name n"
    using ends unfolding safe_name_def [of "safe_name n"]
    by (simp add: sub_name_id [OF chars] strip_chars_id)
  with chars sep ends show ?thesis by blast
qed

text \<open>The text handler writes at most one file, only below the artifact root whatever symbolic
  links resolve to, and the artifact it reports names that file with the digest of its bytes.\<close>

theorem artifact_stays_below_root:
  "case text_artifact_write resolve fault root payload of
     (Artifact a, Some (path, bytes)) \<Rightarrow> fault = None \<and> ar_path a = path \<and> is_ancestor root path \<and>
       ar_sha256 a = sha256_hex bytes \<and> bytes = utf8 (py_str (dget_default payload ''text'' []))
   | (Raised t m, w) \<Rightarrow> w = None
   | _ \<Rightarrow> False"
  by (simp add: text_artifact_write_def Let_def split: option.splits)

text \<open>A registration whose effects are refused raises, yet its handler stays in the registry: the
  capability then has a handler and no effect contract, and registering it again with valid
  effects is refused as a duplicate.\<close>

theorem refused_registration_leaves_handler:
  assumes "i \<notin> set (map fst (xr_handlers r))" and "i \<notin> set (map fst (xr_effects r))"
    and "\<not> declared_effects_ok True es"
    and "xr_register i h es r = (res, r')"
  shows "(\<exists>m. res = raise EffectBoundaryContractError m) \<and> xr_handler r' i = Inr h \<and>
    (\<exists>m. xr_lookup_effects r' i = raise PyKeyError m) \<and>
    xr_register i h' es' r' = (raise PyValueError (''Executor already registered: '' @ i), r')"
  using assms(4)
proof (cases rule: xr_register_cases)
  case (refused e)
  have "map_of (xr_handlers r) i = None" "map_of (xr_effects r) i = None"
    using assms(1,2) by (simp_all add: map_of_eq_None_iff)
  moreover have "\<exists>m. e = Exn EffectBoundaryContractError m"
    using normalize_effects_class [OF refused(2)] by (cases e) auto
  ultimately show ?thesis
    unfolding refused(3,4) by (auto simp: xr_handler_def xr_lookup_effects_def xr_register_def map_of_append map_add_def)
qed (use assms(1,3) in \<open>simp_all add: normalize_effects_Ok_iff\<close>)

theorem refused_registration_leaves_handler_witness:
  "let h = (\<lambda>n p. Interrupted); r' = snd (xr_register ''c'' h [''nonsense''] xr_empty)
   in xr_register ''c'' h [''none''] r' = (raise PyValueError ''Executor already registered: c'', r')"
proof -
  let ?h = "\<lambda>n p. Interrupted"
  have "xr_register ''c'' ?h [''nonsense''] xr_empty
      = (fst (xr_register ''c'' ?h [''nonsense''] xr_empty), snd (xr_register ''c'' ?h [''nonsense''] xr_empty))"
    by simp
  note reg = this
  have bad: "\<not> declared_effects_ok True [''nonsense'']" by code_simp
  have "xr_register ''c'' ?h [''none''] (snd (xr_register ''c'' ?h [''nonsense''] xr_empty))
      = (raise PyValueError (''Executor already registered: '' @ ''c''), snd (xr_register ''c'' ?h [''nonsense''] xr_empty))"
    by (rule refused_registration_leaves_handler
        [OF _ _ bad reg, THEN conjunct2, THEN conjunct2, THEN conjunct2]) (simp_all add: xr_empty_def)
  then show ?thesis by (simp add: Let_def)
qed

end
