(* ===== verification/State_Io.thy ===== *)
theory State_Io
  imports Contract_Base
begin

text \<open>
  \<open>phios/state_io.py\<close>: the durable JSONL files under every ledger.

  A file is the list of its lines, each already classified by what the reader does with it: a
  complete line that parses (\<open>Row\<close>), a complete line \<open>json.loads\<close> or one of its two hooks
  refuses (\<open>Invalid\<close>, with the message), a line over the record limit, and a final line without
  its newline.  A file that does not exist is \<open>None\<close>.

  What the operating system answers is an argument of each operation: \<open>open_fault\<close> is the
  exception that walking the parents, opening, checking and locking the file raises, if it raises
  one, and \<open>write_fault\<close> the exception of the write and its two \<open>fsync\<close> calls, after which the
  code truncates the file to its old length.
\<close>

section \<open>Lines and files\<close>

datatype state_line =
    Row json
  | Invalid string
  | Oversize
  | Incomplete string

type_synonym state_file = "state_line list option"

definition MAX_RECORD_BYTES :: nat where
  "MAX_RECORD_BYTES = 16 * 1024 * 1024"

text \<open>\<open>json.dumps\<close> with its default separators, of a value in the order it has.\<close>

fun semit :: "json \<Rightarrow> string"
  and semit_items :: "json list \<Rightarrow> string"
  and semit_members :: "(string \<times> json) list \<Rightarrow> string" where
  "semit JNull = ''null''"
| "semit (JBool b) = (if b then ''true'' else ''false'')"
| "semit (JInt i) = show_int i"
| "semit (JStr s) = emit_str s"
| "semit (JList xs) = ''['' @ semit_items xs"
| "semit (JObj kvs) = ''{'' @ semit_members kvs"
| "semit_items [] = '']''"
| "semit_items [x] = semit x @ '']''"
| "semit_items (x # y # xs) = semit x @ '', '' @ semit_items (y # xs)"
| "semit_members [] = ''}''"
| "semit_members [(k, v)] = emit_str k @ '': '' @ semit v @ ''}''"
| "semit_members ((k, v) # m # ms) = emit_str k @ '': '' @ semit v @ '', '' @ semit_members (m # ms)"

definition sio_encode :: "(string \<times> json) list \<Rightarrow> string result" where
  "sio_encode payload =
     (let data = utf8 (semit (canon (JObj payload)) @ [CHR 0x0A]) in
      if MAX_RECORD_BYTES < length data then raise PyValueError ''state record exceeds 16 MiB'' else Ok data)"

text \<open>The loop of \<open>_prefix\<close>: \<open>number\<close> lines are behind, \<open>result\<close> holds their rows.\<close>

fun sio_prefix ::
  "bool \<Rightarrow> nat \<Rightarrow> (string \<times> json) list list \<Rightarrow> state_line list \<Rightarrow> ((string \<times> json) list list \<times> string) result" where
  "sio_prefix preserve_tail number result [] = Ok (result, [])"
| "sio_prefix preserve_tail number result (line # rest) =
     (case line of
        Oversize \<Rightarrow> raise StateIntegrityError (''oversize state record at line '' @ show_nat (Suc number))
      | Incomplete tail \<Rightarrow>
          if preserve_tail then Ok (result, tail)
          else raise StateIntegrityError (''incomplete state record at line '' @ show_nat (Suc number))
      | Invalid m \<Rightarrow>
          raise StateIntegrityError (''invalid state record at line '' @ show_nat (Suc number) @ '': '' @ m)
      | Row j \<Rightarrow>
          (case j of
             JObj d \<Rightarrow> sio_prefix preserve_tail (Suc number) (result @ [d]) rest
           | _ \<Rightarrow> raise StateIntegrityError
                 (''state record at line '' @ show_nat (Suc number) @ '' must be an object'')))"

definition sio_rows :: "state_line list \<Rightarrow> (string \<times> json) list list result" where
  "sio_rows ls = rbind (sio_prefix False 0 [] ls) (\<lambda>(rows, _). Ok rows)"

section \<open>Operations\<close>

definition is_jstr :: "json \<Rightarrow> bool" where
  "is_jstr j = (case j of JStr _ \<Rightarrow> True | _ \<Rightarrow> False)"

definition read_jsonl :: "exn option \<Rightarrow> state_file \<Rightarrow> (string \<times> json) list list result" where
  "read_jsonl open_fault file =
     (case open_fault of
        Some e \<Rightarrow> if exn_class e = PyFileNotFoundError then Ok [] else Inl e
      | None \<Rightarrow> (case file of None \<Rightarrow> Ok [] | Some ls \<Rightarrow> sio_rows ls))"

definition recoverable_jsonl_prefix :: "exn option \<Rightarrow> state_file \<Rightarrow> ((string \<times> json) list list \<times> string) result" where
  "recoverable_jsonl_prefix open_fault file =
     (case open_fault of
        Some e \<Rightarrow> if exn_class e = PyFileNotFoundError then Ok ([], []) else Inl e
      | None \<Rightarrow> (case file of None \<Rightarrow> Ok ([], []) | Some ls \<Rightarrow> sio_prefix True 0 [] ls))"

definition prepare_state_file :: "exn option \<Rightarrow> exn option \<Rightarrow> state_file \<Rightarrow> unit result \<times> state_file" where
  "prepare_state_file open_fault write_fault file =
     (case open_fault of
        Some e \<Rightarrow> (Inl e, file)
      | None \<Rightarrow>
          let created = Some (case file of None \<Rightarrow> [] | Some ls \<Rightarrow> ls)
          in (case write_fault of Some e \<Rightarrow> (Inl e, created) | None \<Rightarrow> (Ok (), created)))"

definition append_jsonl ::
  "exn option \<Rightarrow> exn option \<Rightarrow> state_file \<Rightarrow> (string \<times> json) list \<Rightarrow> string option \<Rightarrow> bool result \<times> state_file" where
  "append_jsonl open_fault write_fault file payload identity_field =
     (case sio_encode payload of
        Inl e \<Rightarrow> (Inl e, file)
      | Inr data \<Rightarrow>
        if (case identity_field of None \<Rightarrow> False | Some k \<Rightarrow> \<not> is_jstr (dget payload k))
        then (raise PyValueError ''idempotent append requires a string identity'', file)
        else (case open_fault of
          Some e \<Rightarrow> (Inl e, file)
        | None \<Rightarrow>
          let history = (case file of None \<Rightarrow> [] | Some ls \<Rightarrow> ls);
              commit = (case write_fault of
                  Some e \<Rightarrow> (Inl e, Some history)
                | None \<Rightarrow> (Ok True, Some (history @ [Row (canon (JObj payload))])))
          in (case sio_rows history of
                Inl e \<Rightarrow> (Inl e, Some history)
              | Inr rows \<Rightarrow>
                (case identity_field of
                   None \<Rightarrow> commit
                 | Some k \<Rightarrow>
                   (case filter (\<lambda>row. dget row k = dget payload k) rows of
                      [] \<Rightarrow> commit
                    | [m] \<Rightarrow>
                        (case sio_encode m of
                           Inl e \<Rightarrow> (Inl e, Some history)
                         | Inr old \<Rightarrow>
                             if old \<noteq> data
                             then (raise StateIntegrityError ''receipt identity collision or duplicate history'', Some history)
                             else (Ok False, Some history))
                    | _ \<Rightarrow> (raise StateIntegrityError ''receipt identity collision or duplicate history'', Some history))))))"

section \<open>Rows of a file\<close>

text \<open>The rows of an intact history: every line a complete row that holds an object.\<close>

definition intact :: "state_line list \<Rightarrow> (string \<times> json) list list \<Rightarrow> bool" where
  "intact ls rows \<longleftrightarrow> ls = map (\<lambda>d. Row (JObj d)) rows"

lemma sio_prefix_rows:
  "sio_prefix pt n acc (map (\<lambda>d. Row (JObj d)) rows @ ls) = sio_prefix pt (n + length rows) (acc @ rows) ls"
  by (induction rows arbitrary: n acc) simp_all

lemma sio_prefix_strict_Ok_iff:
  "sio_prefix False n acc ls = Inr (rows, t) \<longleftrightarrow>
     t = [] \<and> (\<exists>new. rows = acc @ new \<and> intact ls new)"
proof (induction ls arbitrary: n acc)
  case Nil
  then show ?case by (auto simp: intact_def)
next
  case (Cons l ls)
  have *: "intact (l # ls) new \<longleftrightarrow> (\<exists>d ds. new = d # ds \<and> l = Row (JObj d) \<and> intact ls ds)" for l new
    by (auto simp: intact_def Cons_eq_map_conv)
  show ?case
    by (cases l) (auto simp: Cons * split: json.splits)
qed

lemma sio_rows_Ok_iff: "sio_rows ls = Inr rows \<longleftrightarrow> intact ls rows"
  by (auto simp: sio_rows_def rbind_Ok_iff sio_prefix_strict_Ok_iff)

lemma sio_prefix_error:
  "sio_prefix pt n acc ls = Inl e \<Longrightarrow> exn_class e = StateIntegrityError"
  by (induction pt n acc ls rule: sio_prefix.induct) (auto split: state_line.splits json.splits if_splits)

lemma sio_rows_error: "sio_rows ls = Inl e \<Longrightarrow> exn_class e = StateIntegrityError"
  by (auto simp: sio_rows_def rbind_Inl_iff dest: sio_prefix_error)

lemma intact_snoc: "intact (ls @ [Row (JObj d)]) rows \<longleftrightarrow> (\<exists>r. rows = r @ [d] \<and> intact ls r)"
  by (auto simp: intact_def append_eq_map_conv Cons_eq_map_conv)

lemma intact_unique: "intact ls r \<Longrightarrow> intact ls r' \<Longrightarrow> r = r'"
  unfolding intact_def by (rule map_injective [of "\<lambda>d. Row (JObj d)"]) (simp_all add: inj_on_def inj_def)

lemma dget_canon_members:
  assumes "distinct (map fst p)"
  shows "dget (sort_key fst (map (\<lambda>kv. (fst kv, canon (snd kv))) p)) k = canon (dget p k)"
proof -
  have "dget (sort_key fst (map (\<lambda>kv. (fst kv, canon (snd kv))) p)) k
      = dget (map (\<lambda>kv. (fst kv, canon (snd kv))) p) k"
    using assms by (intro dget_sort_key) (simp add: o_def)
  also have "\<dots> = canon (dget p k)" by (induction p) auto
  finally show ?thesis .
qed

lemma sort_key_idem: "sort_key f (sort_key f xs) = sort_key f xs"
  by (metis sorted_sort_key sort_key_id_if_sorted)

lemma canon_idem [simp]: "canon (canon j) = canon j"
proof (induction j rule: canon.induct)
  case (5 xs)
  then show ?case by simp
next
  case (6 kvs)
  have "sort_key fst (map (\<lambda>kv. (fst kv, canon (snd kv))) (sort_key fst (map (\<lambda>kv. (fst kv, canon (snd kv))) kvs)))
      = sort_key fst (sort_key fst (map (\<lambda>kv. (fst kv, canon (snd kv))) kvs))"
    using 6 by (intro arg_cong [where f = "sort_key fst"] map_idI) (auto simp: set_sort)
  then show ?case by (simp add: sort_key_idem)
qed simp_all

text \<open>The dict a row holds after \<open>payload\<close> was appended.\<close>

definition stored :: "(string \<times> json) list \<Rightarrow> (string \<times> json) list" where
  "stored payload = sort_key fst (map (\<lambda>kv. (fst kv, canon (snd kv))) payload)"

lemma canon_stored: "canon (JObj payload) = JObj (stored payload)"
  by (simp add: stored_def)

lemma dget_stored: "distinct (map fst p) \<Longrightarrow> dget (stored p) k = canon (dget p k)"
  unfolding stored_def by (rule dget_canon_members)

lemma sio_encode_stored: "sio_encode (stored p) = sio_encode p"
  unfolding sio_encode_def canon_stored [symmetric] canon_idem ..

section \<open>What an append does to the history\<close>

lemma append_plain_Ok:
  assumes "append_jsonl opf wrf file p None = (Inr b, file')"
  obtains data where "sio_encode p = Inr data" and "b = True" and "opf = None" and "wrf = None"
    and "file' = Some ((case file of None \<Rightarrow> [] | Some ls \<Rightarrow> ls) @ [Row (JObj (stored p))])"
  using assms unfolding append_jsonl_def canon_stored Let_def
  by (auto split: sum.splits option.splits if_splits)

lemma append_plain_reads:
  assumes "append_jsonl opf wrf file p None = (Inr b, file')"
  obtains rows where "read_jsonl None file = Inr rows" and "read_jsonl None file' = Inr (rows @ [stored p])"
    and "file' \<noteq> None"
proof -
  let ?old = "case file of None \<Rightarrow> [] | Some ls \<Rightarrow> ls"
  have read: "read_jsonl None file = sio_rows ?old"
    by (simp add: read_jsonl_def sio_rows_def split: option.split)
  from assms obtain data where n: "opf = None" "wrf = None" and d: "sio_encode p = Inr data"
    and f: "file' = Some (?old @ [Row (JObj (stored p))])"
    by (rule append_plain_Ok)
  have "\<exists>rows. sio_rows ?old = Inr rows"
    using assms unfolding append_jsonl_def n d f Let_def by (cases "sio_rows ?old") simp_all
  then obtain rows where r: "sio_rows ?old = Inr rows" ..
  then have "intact (?old @ [Row (JObj (stored p))]) (rows @ [stored p])"
    unfolding sio_rows_Ok_iff intact_def by simp
  then have "read_jsonl None file' = Inr (rows @ [stored p])"
    by (simp add: read_jsonl_def f sio_rows_Ok_iff)
  with r read show thesis by (intro that) (simp_all add: f)
qed

lemma append_plain_error:
  assumes "append_jsonl opf wrf file p None = (Inl e, file')"
  shows "(\<exists>m. e = Exn PyValueError m \<and> sio_encode p = Inl e \<and> file' = file) \<or> opf = Some e
    \<or> wrf = Some e \<or> (\<exists>ls. file = Some ls \<and> sio_rows ls = Inl e)"
  using assms unfolding append_jsonl_def Let_def
  by (auto simp: sio_encode_def Let_def sio_rows_def split: sum.splits option.splits if_splits)

text \<open>Whatever happens, the old lines stay where they were.\<close>

lemma append_prefix:
  assumes "append_jsonl opf wrf file p idf = (r, file')"
  shows "file' = file \<or> (\<exists>new. file' = Some ((case file of None \<Rightarrow> [] | Some ls \<Rightarrow> ls) @ new) \<and>
    (new = [] \<or> new = [Row (JObj (stored p))] \<and> r = Inr True))"
  using assms unfolding append_jsonl_def canon_stored Let_def
  by (auto split: sum.splits option.splits if_splits list.splits)

section \<open>The size of a record\<close>

text \<open>An upper bound of the printed length: six characters per code point, two per separator.\<close>

fun weight :: "json \<Rightarrow> nat"
  and weight_items :: "json list \<Rightarrow> nat"
  and weight_members :: "(string \<times> json) list \<Rightarrow> nat" where
  "weight JNull = 4"
| "weight (JBool b) = 5"
| "weight (JInt i) = length (show_int i)"
| "weight (JStr s) = 2 + 6 * length s"
| "weight (JList xs) = 2 + weight_items xs"
| "weight (JObj kvs) = 2 + weight_members kvs"
| "weight_items [] = 0"
| "weight_items (x # xs) = 2 + weight x + weight_items xs"
| "weight_members [] = 0"
| "weight_members ((k, v) # ms) = 6 + 6 * length k + weight v + weight_members ms"

lemma weight_items_sum: "weight_items xs = (\<Sum>x\<leftarrow>xs. 2 + weight x)"
  by (induction xs) simp_all

lemma weight_members_sum: "weight_members ms = (\<Sum>(k, v)\<leftarrow>ms. 6 + 6 * length k + weight v)"
  by (induction ms) auto

lemma length_escape_char: "length (escape_char c) \<le> 6"
  by (simp add: escape_char_def)

lemma escape_char_pos: "1 \<le> length (escape_char c)"
  by (simp add: escape_char_def)

lemma length_emit_str: "length (emit_str s) \<le> 2 + 6 * length s" "length s + 2 \<le> length (emit_str s)"
proof -
  have "length (emit_chars s) \<le> 6 * length s"
    using length_escape_char by (induction s) (simp_all add: add_mono)
  moreover have "length s \<le> length (emit_chars s)"
  proof (induction s)
    case (Cons c s)
    then show ?case using escape_char_pos [of c] by simp
  qed simp
  ultimately show "length (emit_str s) \<le> 2 + 6 * length s" "length s + 2 \<le> length (emit_str s)"
    by (simp_all add: emit_str_def)
qed

lemma semit_weight:
  "length (semit j) \<le> weight j"
  "length (semit_items xs) \<le> 1 + weight_items xs"
  "length (semit_members ms) \<le> 1 + weight_members ms"
proof (induction j and xs and ms rule: semit_semit_items_semit_members.induct)
  case (4 s)
  then show ?case using length_emit_str by simp
next
  case (11 k v)
  then show ?case using length_emit_str(1) [of k] by simp
next
  case (12 k v m ms)
  then show ?case using length_emit_str(1) [of k] by simp
qed simp_all

lemma sum_list_sort_key: "(\<Sum>x\<leftarrow>sort_key f xs. g x) = ((\<Sum>x\<leftarrow>xs. g x) :: nat)"
  by (metis mset_map mset_sort sum_mset_sum_list)

lemma weight_canon [simp]: "weight (canon j) = weight j"
proof (induction j rule: canon.induct)
  case (5 xs)
  then have "map (\<lambda>x. 2 + weight x) (map canon xs) = map (\<lambda>x. 2 + weight x) xs" by simp
  then show ?case unfolding canon.simps weight.simps weight_items_sum by (rule arg_cong)
next
  case (6 kvs)
  have "(\<Sum>(k, v)\<leftarrow>map (\<lambda>kv. (fst kv, canon (snd kv))) kvs. 6 + 6 * length k + weight v)
      = (\<Sum>(k, v)\<leftarrow>kvs. 6 + 6 * length k + weight v)"
    using 6 by (intro arg_cong [where f = sum_list]) auto
  then show ?case by (simp add: weight_members_sum sum_list_sort_key)
qed simp_all

lemma length_utf8: "length (utf8 s) \<le> 2 * length s" "length s \<le> length (utf8 s)"
  by (induction s) (simp_all add: utf8_def utf8_char_def Let_def)

lemma sio_encode_fits:
  assumes "2 * (weight (JObj p) + 1) \<le> MAX_RECORD_BYTES"
  shows "\<exists>data. sio_encode p = Inr data"
proof -
  let ?t = "semit (canon (JObj p)) @ [CHR 0x0A]"
  have "length (utf8 ?t) \<le> 2 * length ?t" by (rule length_utf8)
  also have "\<dots> \<le> 2 * (weight (JObj p) + 1)"
    using semit_weight(1) [of "canon (JObj p)"] unfolding weight_canon by simp
  finally show ?thesis using assms by (simp add: sio_encode_def Let_def del: canon.simps)
qed

text \<open>A record that carries a text is longer than the text.\<close>

lemma semit_members_lower:
  "(k, JStr s) \<in> set ms \<Longrightarrow> length s < length (semit_members ms)"
proof (induction ms)
  case (Cons m ms)
  obtain k' v where m: "m = (k', v)" by fastforce
  show ?case
  proof (cases ms)
    case Nil
    then show ?thesis using Cons.prems length_emit_str(2) [of s] m by auto
  next
    case (Cons m' ms')
    then show ?thesis using Cons.IH Cons.prems length_emit_str(2) [of s] m by auto
  qed
qed simp

lemma sio_encode_oversize:
  assumes "(k, JStr s) \<in> set p" and "MAX_RECORD_BYTES \<le> length s"
  shows "sio_encode p = raise PyValueError ''state record exceeds 16 MiB''"
proof -
  let ?t = "semit (canon (JObj p)) @ [CHR 0x0A]"
  have "(k, JStr s) \<in> set (stored p)" using assms(1) by (force simp: stored_def set_sort)
  then have "length s < length (semit_members (stored p))" by (rule semit_members_lower)
  also have "\<dots> < length ?t" unfolding canon_stored by simp
  also have "\<dots> \<le> length (utf8 ?t)" by (rule length_utf8)
  finally show ?thesis using assms(2) by (simp add: sio_encode_def Let_def)
qed

section \<open>Properties\<close>

text \<open>\<open>append_jsonl\<close> acknowledges a record exactly when the encoded record is within the
  16 MiB limit, no system call fails and the whole history is intact; the next read then returns the
  old rows followed by the appended dict, whose every entry has the value that was appended (a
  nested dict in the order \<open>sort_keys\<close> prints it).\<close>

theorem append_acknowledged_iff:
  assumes p: "distinct (map fst p)" and fi: "file = Some ls"
  shows "append_jsonl opf wrf file p None = (Ok True, file') \<longleftrightarrow>
      (\<exists>data. sio_encode p = Inr data) \<and> opf = None \<and> wrf = None \<and>
      (\<exists>rows row. read_jsonl None file = Inr rows \<and> read_jsonl None file' = Inr (rows @ [row]) \<and>
         file' = Some (ls @ [Row (JObj row)]) \<and> row = stored p \<and> (\<forall>k. dget row k = canon (dget p k)))"
    (is "?l \<longleftrightarrow> ?r")
proof
  assume ?l
  then obtain data where d: "sio_encode p = Inr data" "opf = None" "wrf = None"
    and f: "file' = Some (ls @ [Row (JObj (stored p))])"
    unfolding fi by (rule append_plain_Ok) simp
  from \<open>?l\<close> d obtain rows where "sio_rows ls = Inr rows"
    unfolding fi append_jsonl_def Let_def by (auto split: sum.splits)
  then have "intact ls rows" unfolding sio_rows_Ok_iff .
  then have "intact (ls @ [Row (JObj (stored p))]) (rows @ [stored p])" by (simp add: intact_def)
  with \<open>intact ls rows\<close> show ?r
    using d f dget_stored [OF p] unfolding fi by (auto simp: read_jsonl_def sio_rows_Ok_iff)
next
  assume ?r
  then show ?l
    unfolding fi append_jsonl_def read_jsonl_def canon_stored Let_def by auto
qed

theorem append_acknowledged_iff_witness:
  "append_jsonl None None (Some []) [(''b'', JInt 1), (''a'', JNull)] None
   = (Ok True, Some [Row (JObj [(''a'', JNull), (''b'', JInt 1)])])"
proof -
  let ?p = "[(''b'', JInt 1), (''a'', JNull)]"
  have s: "stored ?p = [(''a'', JNull), (''b'', JInt 1)]" by code_simp
  have e: "\<exists>data. sio_encode ?p = Inr data"
    by (rule sio_encode_fits) (simp add: MAX_RECORD_BYTES_def show_int_def show_nat.simps)
  show ?thesis
    by (rule append_acknowledged_iff [THEN iffD2], simp, rule refl)
      (use e s in \<open>simp add: read_jsonl_def sio_rows_def\<close>)
qed

text \<open>An append that raises leaves every committed row in place: a missing file may have been
  created empty, nothing else changed, and a corrupt history is refused before anything is
  written.\<close>

theorem failed_append_keeps_history:
  assumes "append_jsonl opf wrf file p idf = (Inl e, file')"
  shows "(file' = file \<or> (file = None \<and> file' = Some [])) \<and> read_jsonl None file' = read_jsonl None file"
proof -
  have *: "file' = file \<or> (file = None \<and> file' = Some [])"
    using assms unfolding append_jsonl_def Let_def
    by (auto split: sum.splits option.splits if_splits list.splits)
  then have "read_jsonl None file' = read_jsonl None file"
    by (auto simp: read_jsonl_def sio_rows_def)
  with * show ?thesis by blast
qed

theorem failed_append_keeps_history_witness:
  "append_jsonl None (Some (Exn PyOSError ''No space left on device'')) None [] None
     = (Inl (Exn PyOSError ''No space left on device''), Some []) \<and>
   read_jsonl None (Some []) = read_jsonl None None"
proof -
  have a: "append_jsonl None (Some (Exn PyOSError ''No space left on device'')) None [] None
     = (Inl (Exn PyOSError ''No space left on device''), Some [])"
    by (simp add: append_jsonl_def sio_encode_def sio_rows_def utf8_def utf8_char_def MAX_RECORD_BYTES_def Let_def)
  from failed_append_keeps_history [OF a] a show ?thesis by simp
qed

text \<open>\<open>append_if_absent\<close> publishes a receipt once: after a call that appended it, the same
  receipt is acknowledged as already present and the file stays as it is, and a different record
  under the same identity is refused without being written.\<close>

theorem publish_exactly_once:
  assumes p: "distinct (map fst p)" "dget p k = JStr i"
    and first: "append_jsonl None None file p (Some k) = (Ok True, file')"
  shows "append_jsonl None None file' p (Some k) = (Ok False, file') \<and>
    (\<forall>q d. dget q k = JStr i \<and> sio_encode q = Inr d \<and> sio_encode p \<noteq> Inr d \<longrightarrow>
       append_jsonl None None file' q (Some k)
       = (raise StateIntegrityError ''receipt identity collision or duplicate history'', file'))"
proof -
  let ?ls = "case file of None \<Rightarrow> [] | Some ls \<Rightarrow> ls"
  have id: "is_jstr (dget p k)" using p(2) by (simp add: is_jstr_def)
  from first id obtain data rows where d: "sio_encode p = Inr data" and r: "sio_rows ?ls = Inr rows"
    and none: "filter (\<lambda>row. dget row k = dget p k) rows = []"
    and f: "file' = Some (?ls @ [Row (JObj (stored p))])"
    unfolding append_jsonl_def canon_stored Let_def
    by (auto split: sum.splits if_splits list.splits)
  have rows': "sio_rows (?ls @ [Row (JObj (stored p))]) = Inr (rows @ [stored p])"
    using r unfolding sio_rows_Ok_iff by (simp add: intact_def)
  have st: "dget (stored p) k = JStr i" using p by (simp add: dget_stored)
  have none': "filter (\<lambda>row. dget row k = JStr i) rows = []" using none p(2) by simp
  show ?thesis
    unfolding append_jsonl_def f
    by (simp add: d rows' none' st p(2) is_jstr_def sio_encode_stored Let_def)
qed

theorem publish_exactly_once_witness:
  "append_jsonl None None (Some [Row (JObj [(''receipt_id'', JStr ''r1'')])]) [(''receipt_id'', JStr ''r1'')] (Some ''receipt_id'')
   = (Ok False, Some [Row (JObj [(''receipt_id'', JStr ''r1'')])])"
proof -
  let ?p = "[(''receipt_id'', JStr ''r1'')]"
  have "\<exists>data. sio_encode ?p = Inr data"
    by (rule sio_encode_fits) (simp add: MAX_RECORD_BYTES_def)
  then have a: "append_jsonl None None None ?p (Some ''receipt_id'') = (Ok True, Some [Row (JObj ?p)])"
    by (auto simp: append_jsonl_def is_jstr_def sio_rows_def)
  show ?thesis by (rule publish_exactly_once [OF _ _ a, THEN conjunct1]) simp_all
qed

end
