(* ===== verification/Mandala_Contracts.thy ===== *)
theory Mandala_Contracts
  imports Spine_Models
begin

text \<open>
  The rest of \<open>phios/mandala/contracts.py\<close> (gates, statuses, the core state, packets), the receipt
  classes of \<open>phios/mandala/receipts.py\<close> the spine writes, and the execution receipt of
  \<open>phios/spine/models.py\<close>.  A class that extends \<open>ReceiptEnvelope\<close> is a record that extends
  \<open>receipt_envelope\<close>; fresh identifiers and the clock are arguments of the functions that draw them.
\<close>

section \<open>Enumerations\<close>

datatype gate = PERCEPTION | DELIBERATION | ACTION | MEMORY

fun gate_value :: "gate \<Rightarrow> string" where
  "gate_value PERCEPTION = ''PERCEPTION''"
| "gate_value DELIBERATION = ''DELIBERATION''"
| "gate_value ACTION = ''ACTION''"
| "gate_value MEMORY = ''MEMORY''"

datatype mandala_status =
  ACCEPTED | REJECTED | QUARANTINED | DEGRADED | BLOCKED | ABORTED | DISPUTED | UNKNOWN

fun mandala_status_value :: "mandala_status \<Rightarrow> string" where
  "mandala_status_value ACCEPTED = ''ACCEPTED''"
| "mandala_status_value REJECTED = ''REJECTED''"
| "mandala_status_value QUARANTINED = ''QUARANTINED''"
| "mandala_status_value DEGRADED = ''DEGRADED''"
| "mandala_status_value BLOCKED = ''BLOCKED''"
| "mandala_status_value ABORTED = ''ABORTED''"
| "mandala_status_value DISPUTED = ''DISPUTED''"
| "mandala_status_value UNKNOWN = ''UNKNOWN''"

datatype lifecycle_state = Initialized | Active | Paused | Degraded | Terminated

fun lifecycle_value :: "lifecycle_state \<Rightarrow> string" where
  "lifecycle_value Initialized = ''initialized''"
| "lifecycle_value Active = ''active''"
| "lifecycle_value Paused = ''paused''"
| "lifecycle_value Degraded = ''degraded''"
| "lifecycle_value Terminated = ''terminated''"

definition MANDALA_CONTRACT_VERSION :: string where
  "MANDALA_CONTRACT_VERSION = ''phios.mandala.v0.1''"

definition origin_ref_to_dict :: "origin_ref \<Rightarrow> json" where
  "origin_ref_to_dict r = JObj [(''kind'', JStr (origin_kind_value (or_kind r))), (''identifier'', JStr (or_identifier r))]"

section \<open>Core state\<close>

record phi_core_state =
  pc_task_id :: string
  pc_authority :: authority_context
  pc_contract_digest :: string
  pc_coherence_status :: mandala_status
  pc_lifecycle :: lifecycle_state
  pc_ledger_pointer :: "string option"
  pc_memory_pointer :: "string option"

text \<open>\<open>PhiCoreState.initialize\<close>; \<open>fresh\<close> is the \<open>uuid4\<close> used when no task id is given.\<close>

definition pc_initialize ::
  "string \<Rightarrow> string option \<Rightarrow> string list \<Rightarrow> string list \<Rightarrow> string option \<Rightarrow> string option \<Rightarrow> phi_core_state" where
  "pc_initialize fresh task_id authority_ceiling explicit_grants ledger_pointer memory_pointer =
     (let authority = \<lparr>ac_ceiling = authority_ceiling, ac_grants = explicit_grants\<rparr>
      in \<lparr>pc_task_id = (case task_id of None \<Rightarrow> fresh | Some t \<Rightarrow> if t = [] then fresh else t),
          pc_authority = authority,
          pc_contract_digest = canonical_digest (JObj
            [(''contract_version'', JStr MANDALA_CONTRACT_VERSION), (''authority'', ac_to_dict authority)]),
          pc_coherence_status = UNKNOWN, pc_lifecycle = Initialized,
          pc_ledger_pointer = ledger_pointer, pc_memory_pointer = memory_pointer\<rparr>)"

definition pc_activate :: "phi_core_state \<Rightarrow> phi_core_state" where
  "pc_activate c = c\<lparr>pc_lifecycle := Active\<rparr>"

definition pc_terminate :: "phi_core_state \<Rightarrow> phi_core_state" where
  "pc_terminate c = c\<lparr>pc_lifecycle := Terminated\<rparr>"

definition pc_to_dict :: "phi_core_state \<Rightarrow> json" where
  "pc_to_dict c = JObj
     [(''task_id'', JStr (pc_task_id c)),
      (''authority'', ac_to_dict (pc_authority c)),
      (''contract_digest'', JStr (pc_contract_digest c)),
      (''coherence_status'', JStr (mandala_status_value (pc_coherence_status c))),
      (''lifecycle'', JStr (lifecycle_value (pc_lifecycle c))),
      (''ledger_pointer'', jopt (pc_ledger_pointer c)),
      (''memory_pointer'', jopt (pc_memory_pointer c))]"

section \<open>Packets\<close>

record mandala_packet =
  mp_packet_id :: string
  mp_parent_id :: "string option"
  mp_task_id :: string
  mp_gate :: gate
  mp_origin :: origin_ref
  mp_payload_digest :: string
  mp_authority :: authority_context
  mp_evidence_refs :: "string list"
  mp_claims :: "json list"
  mp_allowed_destinations :: "gate list"
  mp_resource_budget :: "(string \<times> json) list"
  mp_contract_version :: string
  mp_payload :: "(string \<times> json) list"

text \<open>\<open>MandalaPacket.create\<close>; \<open>fresh\<close> is its \<open>uuid4\<close>.\<close>

definition mp_create ::
  "string \<Rightarrow> string \<Rightarrow> gate \<Rightarrow> origin_ref \<Rightarrow> (string \<times> json) list \<Rightarrow> authority_context \<Rightarrow> string option
    \<Rightarrow> string list \<Rightarrow> json list \<Rightarrow> gate list \<Rightarrow> (string \<times> json) list \<Rightarrow> mandala_packet" where
  "mp_create fresh task_id g origin payload authority parent_id evidence_refs claims allowed_destinations resource_budget =
     \<lparr>mp_packet_id = fresh, mp_parent_id = parent_id, mp_task_id = task_id, mp_gate = g, mp_origin = origin,
      mp_payload_digest = canonical_digest (JObj payload), mp_authority = authority,
      mp_evidence_refs = evidence_refs, mp_claims = claims, mp_allowed_destinations = allowed_destinations,
      mp_resource_budget = resource_budget, mp_contract_version = MANDALA_CONTRACT_VERSION, mp_payload = payload\<rparr>"

definition mp_to_dict :: "bool \<Rightarrow> mandala_packet \<Rightarrow> json" where
  "mp_to_dict include_payload p = JObj
     ([(''packet_id'', JStr (mp_packet_id p)),
       (''parent_id'', jopt (mp_parent_id p)),
       (''task_id'', JStr (mp_task_id p)),
       (''gate'', JStr (gate_value (mp_gate p))),
       (''origin'', origin_ref_to_dict (mp_origin p)),
       (''payload_digest'', JStr (mp_payload_digest p)),
       (''authority'', ac_to_dict (mp_authority p)),
       (''evidence_refs'', jstrs (mp_evidence_refs p)),
       (''claims'', JList (mp_claims p)),
       (''allowed_destinations'', jstrs (map gate_value (mp_allowed_destinations p))),
       (''resource_budget'', JObj (mp_resource_budget p)),
       (''contract_version'', JStr (mp_contract_version p))]
      @ (if include_payload then [(''payload'', JObj (mp_payload p))] else []))"

section \<open>Receipts\<close>

record receipt_envelope =
  re_receipt_id :: string
  re_packet_id :: string
  re_task_id :: string
  re_status :: mandala_status
  re_produced_by :: string
  re_timestamp_utc :: string
  re_contract_version :: string
  re_parent_receipt_id :: "string option"

record effect_boundary_receipt = receipt_envelope +
  ebr_capability_id :: string
  ebr_capability_version :: string
  ebr_capability_risk :: string
  ebr_capability_effects :: "string list"
  ebr_executor_effects :: "string list"
  ebr_active_effects :: "string list"
  ebr_effect_contract_match :: bool
  ebr_classification_complete :: bool
  ebr_semantic_read_label_conflict :: bool
  ebr_effect_policy_sha256 :: string
  ebr_reason :: string
  ebr_action_authority :: bool
  ebr_execution_authority :: bool
  ebr_receipt_sha256 :: string

record gate_receipt = receipt_envelope +
  gr_gate :: gate
  gr_reason :: string
  gr_provenance_refs :: "string list"
  gr_authority :: json

record action_receipt = receipt_envelope +
  acr_approved_grant :: "string list"
  acr_side_effect :: "(string \<times> json) list"
  acr_outcome :: string
  acr_external_identifiers :: "(string \<times> string) list"

record abort_receipt = receipt_envelope +
  abr_terminal_reason :: string
  abr_eligible_artifacts :: "string list"
  abr_quarantined_artifacts :: "string list"

text \<open>\<open>receipt_meta\<close> and the envelope it fills: \<open>fresh\<close> and \<open>now\<close> are the identifier and clock reading drawn.\<close>

definition receipt_meta ::
  "string \<Rightarrow> string \<Rightarrow> mandala_packet \<Rightarrow> mandala_status \<Rightarrow> string \<Rightarrow> string option \<Rightarrow> receipt_envelope" where
  "receipt_meta fresh now packet status produced_by parent_receipt_id =
     \<lparr>re_receipt_id = fresh, re_packet_id = mp_packet_id packet, re_task_id = mp_task_id packet,
      re_status = status, re_produced_by = produced_by, re_timestamp_utc = now,
      re_contract_version = mp_contract_version packet, re_parent_receipt_id = parent_receipt_id\<rparr>"

text \<open>\<open>ReceiptEnvelope.to_dict\<close>: the envelope's items, then those of the subclass.\<close>

definition envelope_items :: "string \<Rightarrow> 'a receipt_envelope_scheme \<Rightarrow> (string \<times> json) list" where
  "envelope_items receipt_type r =
     [(''receipt_id'', JStr (re_receipt_id r)),
      (''packet_id'', JStr (re_packet_id r)),
      (''task_id'', JStr (re_task_id r)),
      (''status'', JStr (mandala_status_value (re_status r))),
      (''produced_by'', JStr (re_produced_by r)),
      (''timestamp_utc'', JStr (re_timestamp_utc r)),
      (''contract_version'', JStr (re_contract_version r)),
      (''parent_receipt_id'', jopt (re_parent_receipt_id r)),
      (''receipt_type'', JStr receipt_type)]"

definition ebr_to_dict :: "effect_boundary_receipt \<Rightarrow> (string \<times> json) list" where
  "ebr_to_dict r = envelope_items ''EffectBoundaryReceipt'' r @
     [(''capability_id'', JStr (ebr_capability_id r)),
      (''capability_version'', JStr (ebr_capability_version r)),
      (''capability_risk'', JStr (ebr_capability_risk r)),
      (''capability_effects'', jstrs (ebr_capability_effects r)),
      (''executor_effects'', jstrs (ebr_executor_effects r)),
      (''active_effects'', jstrs (ebr_active_effects r)),
      (''effect_contract_match'', JBool (ebr_effect_contract_match r)),
      (''classification_complete'', JBool (ebr_classification_complete r)),
      (''semantic_read_label_conflict'', JBool (ebr_semantic_read_label_conflict r)),
      (''effect_policy_sha256'', JStr (ebr_effect_policy_sha256 r)),
      (''reason'', JStr (ebr_reason r)),
      (''action_authority'', JBool (ebr_action_authority r)),
      (''execution_authority'', JBool (ebr_execution_authority r)),
      (''receipt_sha256'', JStr (ebr_receipt_sha256 r))]"

definition gr_to_dict :: "gate_receipt \<Rightarrow> (string \<times> json) list" where
  "gr_to_dict r = envelope_items ''GateReceipt'' r @
     [(''gate'', JStr (gate_value (gr_gate r))),
      (''reason'', JStr (gr_reason r)),
      (''provenance_refs'', jstrs (gr_provenance_refs r)),
      (''authority'', gr_authority r)]"

definition acr_to_dict :: "action_receipt \<Rightarrow> (string \<times> json) list" where
  "acr_to_dict r = envelope_items ''ActionReceipt'' r @
     [(''approved_grant'', jstrs (acr_approved_grant r)),
      (''side_effect'', JObj (acr_side_effect r)),
      (''outcome'', JStr (acr_outcome r)),
      (''external_identifiers'', JObj (map (\<lambda>(k, v). (k, JStr v)) (acr_external_identifiers r)))]"

definition abr_to_dict :: "abort_receipt \<Rightarrow> (string \<times> json) list" where
  "abr_to_dict r = envelope_items ''AbortReceipt'' r @
     [(''terminal_reason'', JStr (abr_terminal_reason r)),
      (''eligible_artifacts'', jstrs (abr_eligible_artifacts r)),
      (''quarantined_artifacts'', jstrs (abr_quarantined_artifacts r))]"

section \<open>Execution receipts\<close>

record ghostwalk_provenance =
  gp_schema_version :: string
  gp_target_inference_receipt_sha256 :: string
  gp_authorization_decision_sha256 :: string
  gp_executable_binding_sha256 :: string
  gp_lease_record_sha256 :: string
  gp_action_lease_sha256 :: string
  gp_authority_epoch_sha256 :: string
  gp_policy_sha256 :: string
  gp_enforcement_profile_sha256 :: string

definition ghostwalk_provenance_to_dict :: "ghostwalk_provenance \<Rightarrow> json" where
  "ghostwalk_provenance_to_dict p = JObj
     [(''schema_version'', JStr (gp_schema_version p)),
      (''target_inference_receipt_sha256'', JStr (gp_target_inference_receipt_sha256 p)),
      (''authorization_decision_sha256'', JStr (gp_authorization_decision_sha256 p)),
      (''executable_binding_sha256'', JStr (gp_executable_binding_sha256 p)),
      (''lease_record_sha256'', JStr (gp_lease_record_sha256 p)),
      (''action_lease_sha256'', JStr (gp_action_lease_sha256 p)),
      (''authority_epoch_sha256'', JStr (gp_authority_epoch_sha256 p)),
      (''policy_sha256'', JStr (gp_policy_sha256 p)),
      (''enforcement_profile_sha256'', JStr (gp_enforcement_profile_sha256 p))]"

datatype provenance = PlanProvenance execution_provenance | GhostWalk ghostwalk_provenance

fun provenance_to_dict :: "provenance \<Rightarrow> json" where
  "provenance_to_dict (PlanProvenance p) = execution_provenance_to_dict p"
| "provenance_to_dict (GhostWalk p) = ghostwalk_provenance_to_dict p"

record execution_receipt =
  xc_schema_version :: string
  xc_receipt_id :: string
  xc_timestamp_utc :: string
  xc_capability_id :: string
  xc_planner :: string
  xc_input_sha256 :: string
  xc_permissions_requested :: "string list"
  xc_permission_status :: string
  xc_execution_status :: string
  xc_artifact_path :: "string option"
  xc_artifact_sha256 :: "string option"
  xc_error :: "string option"
  xc_packet_id :: "string option"
  xc_gate_receipt_id :: "string option"
  xc_action_receipt_id :: "string option"
  xc_mandala_status :: "string option"
  xc_governed_provenance :: "provenance option"
  xc_executor_entered :: bool
  xc_reconciliation_status :: string
  xc_effect_confirmed :: "bool option"
  xc_reconciliation_receipt_sha256 :: "string option"

definition xc_to_dict :: "execution_receipt \<Rightarrow> (string \<times> json) list" where
  "xc_to_dict r =
     [(''schema_version'', JStr (xc_schema_version r)),
      (''receipt_id'', JStr (xc_receipt_id r)),
      (''timestamp_utc'', JStr (xc_timestamp_utc r)),
      (''capability_id'', JStr (xc_capability_id r)),
      (''planner'', JStr (xc_planner r)),
      (''input_sha256'', JStr (xc_input_sha256 r)),
      (''permissions_requested'', jstrs (xc_permissions_requested r)),
      (''permission_status'', JStr (xc_permission_status r)),
      (''execution_status'', JStr (xc_execution_status r)),
      (''artifact_path'', jopt (xc_artifact_path r)),
      (''artifact_sha256'', jopt (xc_artifact_sha256 r)),
      (''error'', jopt (xc_error r)),
      (''packet_id'', jopt (xc_packet_id r)),
      (''gate_receipt_id'', jopt (xc_gate_receipt_id r)),
      (''action_receipt_id'', jopt (xc_action_receipt_id r)),
      (''mandala_status'', jopt (xc_mandala_status r)),
      (''governed_provenance'',
        (case xc_governed_provenance r of None \<Rightarrow> JNull | Some p \<Rightarrow> provenance_to_dict p)),
      (''executor_entered'', JBool (xc_executor_entered r)),
      (''reconciliation_status'', JStr (xc_reconciliation_status r)),
      (''effect_confirmed'', (case xc_effect_confirmed r of None \<Rightarrow> JNull | Some b \<Rightarrow> JBool b)),
      (''reconciliation_receipt_sha256'', jopt (xc_reconciliation_receipt_sha256 r))]"

end
