(* ===== verification/Reality_Ledger.thy ===== *)
theory Reality_Ledger
  imports State_Io Mandala_Contracts
begin

text \<open>
  \<open>phios/spine/ledger.py\<close>, the part the governed handoffs rest on: the execution history, the
  reconciliation history, the exclusive claim files of action bindings and action leases, and the
  two tests whether a binding or a lease already reached an executor.  \<open>phios/mandala/ledger.py\<close> is
  the same kind of file with the receipts of the Mandala gates.

  A claim file is the name under which it was created; its directory is the list of those names.
  \<open>claim_store\<close> is the contract the handoffs use: a successful claim excludes every other until
  it is released.
\<close>

section \<open>Digest validation\<close>

text \<open>
  \<open>int(text, 16)\<close> on a stripped, lower-cased text: an optional sign, an optional \<open>0x\<close>, and hex
  digits that single underscores may separate.
\<close>

fun hex_groups :: "bool \<Rightarrow> string \<Rightarrow> bool" where
  "hex_groups previous [] = previous"
| "hex_groups previous (c # cs) =
     (if is_hex_lower c then hex_groups True cs
      else if c = CHR ''_'' then previous \<and> hex_groups False cs
      else False)"

fun drop_sign :: "string \<Rightarrow> string" where
  "drop_sign (c # cs) = (if c = CHR ''+'' \<or> c = CHR ''-'' then cs else c # cs)"
| "drop_sign [] = []"

definition int16_accepts :: "string \<Rightarrow> bool" where
  "int16_accepts s =
     (let t = drop_sign s in
      if take 2 t = ''0x'' then drop 2 t \<noteq> [] \<and> hex_groups True (drop 2 t) else hex_groups False t)"

definition rl_validate_sha256 :: "string \<Rightarrow> string \<Rightarrow> unit result" where
  "rl_validate_sha256 value label =
     (let normalized = lower (strip value) in
      if length normalized \<noteq> 64 then raise PyValueError (label @ '' must be a SHA-256 hex digest'')
      else if int16_accepts normalized then Ok ()
      else raise PyValueError (label @ '' must be a SHA-256 hex digest''))"

section \<open>State\<close>

record reality_ledger =
  rl_receipts :: state_file
  rl_reconciliations :: state_file
  rl_binding_claims :: "string list"
  rl_lease_claims :: "string list"

definition rl_empty :: reality_ledger where
  "rl_empty = \<lparr>rl_receipts = None, rl_reconciliations = None, rl_binding_claims = [], rl_lease_claims = []\<rparr>"

section \<open>Histories\<close>

definition rl_append :: "exn option \<Rightarrow> exn option \<Rightarrow> execution_receipt \<Rightarrow> reality_ledger \<Rightarrow> unit result \<times> reality_ledger" where
  "rl_append open_fault write_fault receipt l =
     (case append_jsonl open_fault write_fault (rl_receipts l) (xc_to_dict receipt) None of
        (r, f) \<Rightarrow> (discard r, l\<lparr>rl_receipts := f\<rparr>))"

definition rl_append_reconciliation ::
  "exn option \<Rightarrow> exn option \<Rightarrow> (string \<times> json) list \<Rightarrow> reality_ledger \<Rightarrow> unit result \<times> reality_ledger" where
  "rl_append_reconciliation open_fault write_fault receipt l =
     (case append_jsonl open_fault write_fault (rl_reconciliations l) receipt None of
        (r, f) \<Rightarrow> (discard r, l\<lparr>rl_reconciliations := f\<rparr>))"

text \<open>\<open>rows[-limit:]\<close> for a positive limit.\<close>

definition last_rows :: "nat \<Rightarrow> 'a list \<Rightarrow> 'a list" where
  "last_rows n xs = drop (length xs - n) xs"

definition recent_of :: "string \<Rightarrow> exn option \<Rightarrow> state_file \<Rightarrow> json \<Rightarrow> (string \<times> json) list list result" where
  "recent_of what open_fault file limit =
     (case limit of
        JInt n \<Rightarrow>
          if n < 0 then raise PyValueError (what @ '' limit must be non-negative'')
          else if n = 0 \<or> file = None then Ok []
          else rbind (read_jsonl open_fault file) (\<lambda>rows. Ok (last_rows (nat n) rows))
      | _ \<Rightarrow> raise PyTypeError (what @ '' limit must be an integer''))"

definition rl_recent :: "exn option \<Rightarrow> json \<Rightarrow> reality_ledger \<Rightarrow> (string \<times> json) list list result" where
  "rl_recent open_fault limit l = recent_of ''recent'' open_fault (rl_receipts l) limit"

definition rl_recent_reconciliations :: "exn option \<Rightarrow> json \<Rightarrow> reality_ledger \<Rightarrow> (string \<times> json) list list result" where
  "rl_recent_reconciliations open_fault limit l = recent_of ''recent reconciliation'' open_fault (rl_reconciliations l) limit"

text \<open>\<open>MandalaReceiptLedger\<close>.\<close>

definition ml_append :: "exn option \<Rightarrow> exn option \<Rightarrow> (string \<times> json) list \<Rightarrow> state_file \<Rightarrow> unit result \<times> state_file" where
  "ml_append open_fault write_fault receipt f =
     (case append_jsonl open_fault write_fault f receipt None of (r, f') \<Rightarrow> (discard r, f'))"

definition ml_append_if_absent ::
  "exn option \<Rightarrow> exn option \<Rightarrow> (string \<times> json) list \<Rightarrow> state_file \<Rightarrow> bool result \<times> state_file" where
  "ml_append_if_absent open_fault write_fault receipt f =
     append_jsonl open_fault write_fault f receipt (Some ''receipt_id'')"

definition ml_get_receipt :: "exn option \<Rightarrow> string \<Rightarrow> state_file \<Rightarrow> (string \<times> json) list option result" where
  "ml_get_receipt open_fault receipt_id f =
     rbind (read_jsonl open_fault f) (\<lambda>rows. Ok (find (\<lambda>row. dget row ''receipt_id'' = JStr receipt_id) rows))"

definition ml_has_receipt :: "exn option \<Rightarrow> string \<Rightarrow> state_file \<Rightarrow> bool result" where
  "ml_has_receipt open_fault receipt_id f = rbind (ml_get_receipt open_fault receipt_id f) (\<lambda>r. Ok (r \<noteq> None))"

section \<open>Consumption\<close>

text \<open>One round of the loop: does this row record an executor attempt under \<open>sha\<close>?\<close>

definition row_attempts :: "string \<Rightarrow> string \<Rightarrow> (string \<times> json) list \<Rightarrow> bool result" where
  "row_attempts key sha row =
     (case dget row ''governed_provenance'' of
        JObj provenance \<Rightarrow>
          if dget provenance key \<noteq> JStr sha then Ok False
          else if dget row ''permission_status'' \<noteq> JStr ''allowed'' then Ok False
          else (case dget row ''execution_status'' of
                  JStr s \<Rightarrow> Ok (s \<in> set [''succeeded'', ''failed'', ''outcome_unknown''])
                | JList _ \<Rightarrow> raise PyTypeError ''unhashable type: list''
                | JObj _ \<Rightarrow> raise PyTypeError ''unhashable type: dict''
                | _ \<Rightarrow> Ok False)
      | _ \<Rightarrow> Ok False)"

fun any_row :: "('a \<Rightarrow> bool result) \<Rightarrow> 'a list \<Rightarrow> bool result" where
  "any_row f [] = Ok False"
| "any_row f (row # rest) = rbind (f row) (\<lambda>b. if b then Ok True else any_row f rest)"

definition rl_has_consumed_binding :: "exn option \<Rightarrow> string \<Rightarrow> reality_ledger \<Rightarrow> bool result" where
  "rl_has_consumed_binding open_fault binding_sha256 l =
     (if rl_receipts l = None then Ok False
      else rbind (read_jsonl open_fault (rl_receipts l)) (any_row (row_attempts ''action_binding_sha256'' binding_sha256)))"

definition rl_has_consumed_action_lease :: "exn option \<Rightarrow> string \<Rightarrow> reality_ledger \<Rightarrow> bool result" where
  "rl_has_consumed_action_lease open_fault lease_sha256 l =
     rbind (rl_validate_sha256 lease_sha256 ''lease_sha256'') (\<lambda>_.
       if rl_receipts l = None then Ok False
       else rbind (read_jsonl open_fault (rl_receipts l)) (any_row (row_attempts ''action_lease_sha256'' lease_sha256)))"

section \<open>Claims\<close>

text \<open>
  Creating \<open>name.claim\<close> with \<open>O_EXCL\<close>.  \<open>open_fault\<close> is an error of \<open>mkdir\<close> or \<open>os.open\<close> other
  than the file existing, \<open>write_fault\<close> one of the write and its syncs: the file then exists.
\<close>

definition create_claim :: "exn option \<Rightarrow> exn option \<Rightarrow> string \<Rightarrow> string list \<Rightarrow> bool result \<times> string list" where
  "create_claim open_fault write_fault name claims =
     (case open_fault of
        Some e \<Rightarrow> (Inl e, claims)
      | None \<Rightarrow>
          if name \<in> set claims then (Ok False, claims)
          else (case write_fault of Some e \<Rightarrow> (Inl e, name # claims) | None \<Rightarrow> (Ok True, name # claims)))"

definition remove_claim :: "exn option \<Rightarrow> exn option \<Rightarrow> string \<Rightarrow> string list \<Rightarrow> unit result \<times> string list" where
  "remove_claim open_fault write_fault name claims =
     (case open_fault of
        Some e \<Rightarrow> (Inl e, claims)
      | None \<Rightarrow>
          let rest = filter (\<lambda>c. c \<noteq> name) claims
          in (case write_fault of Some e \<Rightarrow> (Inl e, rest) | None \<Rightarrow> (Ok (), rest)))"

definition rl_claim_binding :: "exn option \<Rightarrow> exn option \<Rightarrow> string \<Rightarrow> reality_ledger \<Rightarrow> bool result \<times> reality_ledger" where
  "rl_claim_binding open_fault write_fault binding_sha256 l =
     (case rl_validate_sha256 binding_sha256 ''binding_sha256'' of
        Inl e \<Rightarrow> (Inl e, l)
      | Inr _ \<Rightarrow> (case create_claim open_fault write_fault binding_sha256 (rl_binding_claims l) of
                    (r, c) \<Rightarrow> (r, l\<lparr>rl_binding_claims := c\<rparr>)))"

definition rl_release_binding_claim :: "exn option \<Rightarrow> exn option \<Rightarrow> string \<Rightarrow> reality_ledger \<Rightarrow> unit result \<times> reality_ledger" where
  "rl_release_binding_claim open_fault write_fault binding_sha256 l =
     (case rl_validate_sha256 binding_sha256 ''binding_sha256'' of
        Inl e \<Rightarrow> (Inl e, l)
      | Inr _ \<Rightarrow> (case remove_claim open_fault write_fault binding_sha256 (rl_binding_claims l) of
                    (r, c) \<Rightarrow> (r, l\<lparr>rl_binding_claims := c\<rparr>)))"

definition rl_claim_action_lease :: "exn option \<Rightarrow> exn option \<Rightarrow> string \<Rightarrow> reality_ledger \<Rightarrow> bool result \<times> reality_ledger" where
  "rl_claim_action_lease open_fault write_fault lease_sha256 l =
     (case rl_validate_sha256 lease_sha256 ''lease_sha256'' of
        Inl e \<Rightarrow> (Inl e, l)
      | Inr _ \<Rightarrow> (case create_claim open_fault write_fault lease_sha256 (rl_lease_claims l) of
                    (r, c) \<Rightarrow> (r, l\<lparr>rl_lease_claims := c\<rparr>)))"

definition rl_release_action_lease_claim :: "exn option \<Rightarrow> exn option \<Rightarrow> string \<Rightarrow> reality_ledger \<Rightarrow> unit result \<times> reality_ledger" where
  "rl_release_action_lease_claim open_fault write_fault lease_sha256 l =
     (case rl_validate_sha256 lease_sha256 ''lease_sha256'' of
        Inl e \<Rightarrow> (Inl e, l)
      | Inr _ \<Rightarrow> (case remove_claim open_fault write_fault lease_sha256 (rl_lease_claims l) of
                    (r, c) \<Rightarrow> (r, l\<lparr>rl_lease_claims := c\<rparr>)))"

section \<open>The contract of a claim store\<close>

datatype claim_op =
    Claim string "exn option" "exn option"
  | Release string "exn option" "exn option"

fun op_key :: "claim_op \<Rightarrow> string" where
  "op_key (Claim k opf wrf) = k"
| "op_key (Release k opf wrf) = k"

fun is_release :: "claim_op \<Rightarrow> bool" where
  "is_release (Release k opf wrf) = True"
| "is_release (Claim k opf wrf) = False"

text \<open>A sequence of operations on one store; the flag says that a claim was won.\<close>

fun run_claims ::
  "(exn option \<Rightarrow> exn option \<Rightarrow> string \<Rightarrow> 's \<Rightarrow> bool result \<times> 's) \<Rightarrow>
   (exn option \<Rightarrow> exn option \<Rightarrow> string \<Rightarrow> 's \<Rightarrow> unit result \<times> 's) \<Rightarrow>
   claim_op list \<Rightarrow> 's \<Rightarrow> (claim_op \<times> bool) list \<times> 's" where
  "run_claims claim release [] s = ([], s)"
| "run_claims claim release (Claim k opf wrf # rest) s =
     (case claim opf wrf k s of (r, s1) \<Rightarrow>
      case run_claims claim release rest s1 of (log, s2) \<Rightarrow> ((Claim k opf wrf, r = Inr True) # log, s2))"
| "run_claims claim release (Release k opf wrf # rest) s =
     (case release opf wrf k s of (r, s1) \<Rightarrow>
      case run_claims claim release rest s1 of (log, s2) \<Rightarrow> ((Release k opf wrf, False) # log, s2))"

locale claim_store =
  fixes claim :: "exn option \<Rightarrow> exn option \<Rightarrow> string \<Rightarrow> 's \<Rightarrow> bool result \<times> 's"
    and release :: "exn option \<Rightarrow> exn option \<Rightarrow> string \<Rightarrow> 's \<Rightarrow> unit result \<times> 's"
    and held :: "'s \<Rightarrow> string set"
  assumes claim_won: "claim opf wrf k s = (Inr True, s') \<Longrightarrow> k \<notin> held s \<and> held s' = insert k (held s)"
    and claim_lost: "claim opf wrf k s = (Inr False, s') \<Longrightarrow> k \<in> held s \<and> s' = s"
    and claim_error: "claim opf wrf k s = (Inl e, s') \<Longrightarrow> held s \<subseteq> held s' \<and> held s' \<subseteq> insert k (held s)"
    and release_held: "release opf wrf k s = (r, s') \<Longrightarrow> held s - {k} \<subseteq> held s' \<and> held s' \<subseteq> held s"
begin

lemma claim_keeps: "claim opf wrf k s = (r, s') \<Longrightarrow> held s \<subseteq> held s'"
  using claim_won claim_lost claim_error
  by (metis (full_types) obj_sumE order_refl subset_insertI)

lemma held_persists:
  assumes "k \<in> held s" and "run_claims claim release ops s = (log, s')"
    and "\<And>x. x \<in> set ops \<Longrightarrow> is_release x \<Longrightarrow> op_key x \<noteq> k"
  shows "k \<in> held s' \<and> (\<forall>opf wrf. (Claim k opf wrf, True) \<notin> set log)"
  using assms
proof (induction ops arbitrary: s log s')
  case Nil
  then show ?case by simp
next
  case (Cons x rest)
  show ?case
  proof (cases x)
    case (Claim k' opf wrf)
    obtain r s1 where c: "claim opf wrf k' s = (r, s1)" by fastforce
    obtain log1 s2 where t: "run_claims claim release rest s1 = (log1, s2)" by fastforce
    have out: "log = (x, r = Inr True) # log1" "s' = s2"
      using Cons.prems(2) unfolding Claim by (simp_all add: c t)
    have "k \<in> held s1" using claim_keeps [OF c] Cons.prems(1) by blast
    then have "k \<in> held s2 \<and> (\<forall>opf wrf. (claim_op.Claim k opf wrf, True) \<notin> set log1)"
      by (rule Cons.IH [OF _ t]) (use Cons.prems(3) in auto)
    moreover have "k' = k \<Longrightarrow> r \<noteq> Inr True" using claim_won c Cons.prems(1) by blast
    ultimately show ?thesis unfolding out Claim by auto
  next
    case (Release k' opf wrf)
    obtain r s1 where c: "release opf wrf k' s = (r, s1)" by fastforce
    obtain log1 s2 where t: "run_claims claim release rest s1 = (log1, s2)" by fastforce
    have out: "log = (x, False) # log1" "s' = s2"
      using Cons.prems(2) unfolding Release by (simp_all add: c t)
    have "k' \<noteq> k" using Cons.prems(3) [of x] unfolding Release by simp
    then have "k \<in> held s1" using release_held [OF c] Cons.prems(1) by blast
    then have "k \<in> held s2 \<and> (\<forall>opf wrf. (claim_op.Claim k opf wrf, True) \<notin> set log1)"
      by (rule Cons.IH [OF _ t]) (use Cons.prems(3) in auto)
    then show ?thesis unfolding out Release by auto
  qed
qed

text \<open>Between two wins of one key there is a release of it.\<close>

lemma claims_exclusive:
  assumes "claim opf wrf k s = (Inr True, s1)" and "run_claims claim release ops s1 = (log, s2)"
    and "\<And>x. x \<in> set ops \<Longrightarrow> is_release x \<Longrightarrow> op_key x \<noteq> k"
  shows "fst (claim opf' wrf' k s2) \<noteq> Inr True"
proof -
  have "k \<in> held s1" using claim_won [OF assms(1)] by blast
  then have "k \<in> held s2" using held_persists [OF _ assms(2,3)] by blast
  then show ?thesis using claim_won by (metis prod.collapse)
qed

end

definition binding_claims_held :: "reality_ledger \<Rightarrow> string set" where
  "binding_claims_held l = set (rl_binding_claims l)"

definition lease_claims_held :: "reality_ledger \<Rightarrow> string set" where
  "lease_claims_held l = set (rl_lease_claims l)"

lemma create_claim_props:
  "create_claim opf wrf k c = (Inr True, c') \<Longrightarrow> k \<notin> set c \<and> set c' = insert k (set c)"
  "create_claim opf wrf k c = (Inr False, c') \<Longrightarrow> k \<in> set c \<and> c' = c"
  "create_claim opf wrf k c = (Inl e, c') \<Longrightarrow> set c \<subseteq> set c' \<and> set c' \<subseteq> insert k (set c)"
  by (auto simp: create_claim_def split: option.splits if_splits)

lemma remove_claim_props:
  "remove_claim opf wrf k c = (r, c') \<Longrightarrow> set c - {k} \<subseteq> set c' \<and> set c' \<subseteq> set c"
  by (auto simp: remove_claim_def Let_def split: option.splits)

interpretation binding_claims: claim_store rl_claim_binding rl_release_binding_claim binding_claims_held
proof unfold_locales
  fix opf wrf k s s' e and r :: "unit result"
  show "rl_claim_binding opf wrf k s = (Inr True, s') \<Longrightarrow>
      k \<notin> binding_claims_held s \<and> binding_claims_held s' = insert k (binding_claims_held s)"
    by (auto simp: rl_claim_binding_def binding_claims_held_def dest: create_claim_props split: sum.splits prod.splits)
  show "rl_claim_binding opf wrf k s = (Inr False, s') \<Longrightarrow> k \<in> binding_claims_held s \<and> s' = s"
    by (auto simp: rl_claim_binding_def binding_claims_held_def dest!: create_claim_props split: sum.splits prod.splits)
  show "rl_claim_binding opf wrf k s = (Inl e, s') \<Longrightarrow> binding_claims_held s \<subseteq> binding_claims_held s' \<and>
      binding_claims_held s' \<subseteq> insert k (binding_claims_held s)"
    by (auto simp: rl_claim_binding_def binding_claims_held_def dest!: create_claim_props split: sum.splits prod.splits)
  show "rl_release_binding_claim opf wrf k s = (r, s') \<Longrightarrow> binding_claims_held s - {k} \<subseteq> binding_claims_held s' \<and>
      binding_claims_held s' \<subseteq> binding_claims_held s"
    by (auto simp: rl_release_binding_claim_def binding_claims_held_def dest!: remove_claim_props split: sum.splits prod.splits)
qed

interpretation lease_claims: claim_store rl_claim_action_lease rl_release_action_lease_claim lease_claims_held
proof unfold_locales
  fix opf wrf k s s' e and r :: "unit result"
  show "rl_claim_action_lease opf wrf k s = (Inr True, s') \<Longrightarrow>
      k \<notin> lease_claims_held s \<and> lease_claims_held s' = insert k (lease_claims_held s)"
    by (auto simp: rl_claim_action_lease_def lease_claims_held_def dest: create_claim_props split: sum.splits prod.splits)
  show "rl_claim_action_lease opf wrf k s = (Inr False, s') \<Longrightarrow> k \<in> lease_claims_held s \<and> s' = s"
    by (auto simp: rl_claim_action_lease_def lease_claims_held_def dest!: create_claim_props split: sum.splits prod.splits)
  show "rl_claim_action_lease opf wrf k s = (Inl e, s') \<Longrightarrow> lease_claims_held s \<subseteq> lease_claims_held s' \<and>
      lease_claims_held s' \<subseteq> insert k (lease_claims_held s)"
    by (auto simp: rl_claim_action_lease_def lease_claims_held_def dest!: create_claim_props split: sum.splits prod.splits)
  show "rl_release_action_lease_claim opf wrf k s = (r, s') \<Longrightarrow> lease_claims_held s - {k} \<subseteq> lease_claims_held s' \<and>
      lease_claims_held s' \<subseteq> lease_claims_held s"
    by (auto simp: rl_release_action_lease_claim_def lease_claims_held_def dest!: remove_claim_props split: sum.splits prod.splits)
qed

section \<open>Facts about digests and rows\<close>

lemma hex_groups_hex: "list_all is_hex_lower s \<Longrightarrow> hex_groups b s = (b \<or> s \<noteq> [])"
  by (induction b s rule: hex_groups.induct) auto

lemma validate_digest: "is_sha256 s \<Longrightarrow> rl_validate_sha256 s label = Inr ()"
proof -
  assume d: "is_sha256 s"
  then obtain c cs where s: "s = c # cs" by (cases s) (auto simp: is_sha256_def)
  have hex: "list_all is_hex_lower s" using d by (simp add: is_sha256_def)
  then have "c \<noteq> CHR ''+''" "c \<noteq> CHR ''-''" unfolding s by (auto simp: is_hex_lower_def)
  then have ds: "drop_sign s = s" unfolding s by simp
  have "take 2 s \<noteq> ''0x''"
  proof
    assume "take 2 s = ''0x''"
    then have "CHR ''x'' \<in> set (take 2 s)" by simp
    then have "CHR ''x'' \<in> set s" by (rule in_set_takeD)
    then have "is_hex_lower (CHR ''x'')" using hex by (simp only: list_all_iff)
    then show False by (simp add: is_hex_lower_def)
  qed
  moreover have "hex_groups False s" unfolding hex_groups_hex [OF hex] using s by simp
  ultimately have "int16_accepts s" unfolding int16_accepts_def ds Let_def by simp
  moreover have "lower (strip s) = s" using d by (simp only: strip_sha256 lower_sha256)
  moreover have "length s = 64" using d by (simp add: is_sha256_def)
  ultimately show ?thesis by (simp add: rl_validate_sha256_def)
qed

lemma any_row_True:
  assumes "row \<in> set rows" and "f row = Inr True" and "\<And>x. x \<in> set rows \<Longrightarrow> \<exists>b. f x = Inr b"
  shows "any_row f rows = Inr True"
  using assms
proof (induction rows)
  case (Cons x xs)
  from Cons.prems(3) obtain b where b: "f x = Inr b" by (meson list.set_intros(1))
  show ?case
  proof (cases b)
    case False
    then have "row \<in> set xs" using Cons.prems(1,2) b by auto
    then show ?thesis using Cons.IH Cons.prems(2,3) b False by simp
  qed (simp add: b)
qed simp

lemma any_row_Ok: "(\<And>x. x \<in> set rows \<Longrightarrow> \<exists>b. f x = Inr b) \<Longrightarrow> \<exists>b. any_row f rows = Inr b"
proof (induction rows)
  case (Cons x xs)
  from Cons.prems obtain b where b: "f x = Inr b" by (meson list.set_intros(1))
  have "\<exists>b. any_row f xs = Inr b" using Cons by simp
  then show ?case by (cases b) (auto simp: b)
qed auto

lemma rl_append_cases:
  assumes "rl_append opf wrf receipt l = (res, l')"
  obtains r f where "append_jsonl opf wrf (rl_receipts l) (xc_to_dict receipt) None = (r, f)"
    and "res = discard r" and "l' = l\<lparr>rl_receipts := f\<rparr>"
  using assms unfolding rl_append_def
  by (cases "append_jsonl opf wrf (rl_receipts l) (xc_to_dict receipt) None") simp

text \<open>An answer under a fault is the answer of the history, unless the fault says that there is no file.\<close>

lemma unconsumed_answer:
  "rl_has_consumed_binding opf k l = Inr False \<Longrightarrow>
     rl_has_consumed_binding None k l = Inr False \<or> (\<exists>e. opf = Some e \<and> exn_class e = PyFileNotFoundError)"
  "rl_has_consumed_action_lease opf k l = Inr False \<Longrightarrow>
     rl_has_consumed_action_lease None k l = Inr False \<or> (\<exists>e. opf = Some e \<and> exn_class e = PyFileNotFoundError)"
  by (auto simp: rl_has_consumed_binding_def rl_has_consumed_action_lease_def read_jsonl_def rbind_Ok_iff
      split: option.splits if_splits)

section \<open>Properties\<close>

text \<open>Once a binding claim is won, no later claim of the same binding succeeds before that binding
  is released, whatever other operations run in between and wherever the file system fails.\<close>

theorem binding_claim_exclusive:
  assumes "rl_claim_binding opf wrf k l = (Ok True, l1)"
    and "run_claims rl_claim_binding rl_release_binding_claim ops l1 = (log, l2)"
    and "\<forall>x \<in> set ops. is_release x \<longrightarrow> op_key x \<noteq> k"
  shows "fst (rl_claim_binding opf' wrf' k l2) \<noteq> Ok True"
  using binding_claims.claims_exclusive [OF assms(1,2)] assms(3) by blast

theorem binding_claim_exclusive_witness:
  "\<exists>l1 log l2. rl_claim_binding None None (sha256_hex ''b'') rl_empty = (Ok True, l1) \<and>
     run_claims rl_claim_binding rl_release_binding_claim [Claim (sha256_hex ''b'') None (Some (Exn PyOSError ''x''))] l1 = (log, l2) \<and>
     fst (rl_claim_binding None None (sha256_hex ''b'') l2) \<noteq> Ok True"
proof -
  let ?k = "sha256_hex ''b''"
  let ?l1 = "rl_empty\<lparr>rl_binding_claims := [?k]\<rparr>"
  let ?ops = "[Claim ?k None (Some (Exn PyOSError ''x''))]"
  have c: "rl_claim_binding None None ?k rl_empty = (Ok True, ?l1)"
    by (simp add: rl_claim_binding_def validate_digest create_claim_def rl_empty_def)
  obtain log l2 where r: "run_claims rl_claim_binding rl_release_binding_claim ?ops ?l1 = (log, l2)"
    by fastforce
  have "fst (rl_claim_binding None None ?k l2) \<noteq> Ok True"
    by (rule binding_claim_exclusive [OF c r]) simp
  with c r show ?thesis by blast
qed

text \<open>A history in which no row can stop the consumption scan: every execution status is hashable.\<close>

definition scannable :: "(string \<times> json) list \<Rightarrow> bool" where
  "scannable row \<longleftrightarrow> (case dget row ''execution_status'' of JList _ \<Rightarrow> False | JObj _ \<Rightarrow> False | _ \<Rightarrow> True)"

lemma row_attempts_scannable: "scannable row \<Longrightarrow> \<exists>b. row_attempts key sha row = Inr b"
  by (auto simp: scannable_def row_attempts_def split: json.splits)

lemma distinct_xc_keys: "distinct (map fst (xc_to_dict r))"
  by (simp add: xc_to_dict_def)

lemma scannable_xc: "scannable (stored (xc_to_dict r))"
  unfolding scannable_def dget_stored [OF distinct_xc_keys] by (simp add: xc_to_dict_def)

lemma row_attempts_xc:
  assumes "xc_governed_provenance r = Some (PlanProvenance p)"
  shows "row_attempts ''action_binding_sha256'' sha (stored (xc_to_dict r)) = Ok
     (ep_action_binding_sha256 p = sha \<and> xc_permission_status r = ''allowed'' \<and>
      xc_execution_status r \<in> {''succeeded'', ''failed'', ''outcome_unknown''})"
proof -
  have g: "dget (stored (xc_to_dict r)) ''governed_provenance'' = canon (execution_provenance_to_dict p)"
    unfolding dget_stored [OF distinct_xc_keys] using assms by (simp add: xc_to_dict_def)
  have o: "dget (stored (xc_to_dict r)) ''permission_status'' = JStr (xc_permission_status r)"
      "dget (stored (xc_to_dict r)) ''execution_status'' = JStr (xc_execution_status r)"
    unfolding dget_stored [OF distinct_xc_keys] by (simp_all add: xc_to_dict_def)
  obtain d where d: "execution_provenance_to_dict p = JObj d" and k: "distinct (map fst d)"
    and b: "dget d ''action_binding_sha256'' = JStr (ep_action_binding_sha256 p)"
    by (simp add: execution_provenance_to_dict_def)
  have "dget (stored d) ''action_binding_sha256'' = JStr (ep_action_binding_sha256 p)"
    unfolding dget_stored [OF k] b by simp
  then show ?thesis
    unfolding row_attempts_def g o d canon_stored by auto
qed

text \<open>What anybody may do to a ledger after an append: every operation of the class, with any fault.\<close>

inductive ledger_step :: "reality_ledger \<Rightarrow> reality_ledger \<Rightarrow> bool" where
  "rl_append opf wrf x l = (r, l') \<Longrightarrow> ledger_step l l'"
| "rl_append_reconciliation opf wrf d l = (r, l') \<Longrightarrow> ledger_step l l'"
| "rl_claim_binding opf wrf k l = (c, l') \<Longrightarrow> ledger_step l l'"
| "rl_release_binding_claim opf wrf k l = (r, l') \<Longrightarrow> ledger_step l l'"
| "rl_claim_action_lease opf wrf k l = (c, l') \<Longrightarrow> ledger_step l l'"
| "rl_release_action_lease_claim opf wrf k l = (r, l') \<Longrightarrow> ledger_step l l'"

text \<open>The history is intact and begins with \<open>rows\<close>.\<close>

definition begins_with :: "(string \<times> json) list list \<Rightarrow> reality_ledger \<Rightarrow> bool" where
  "begins_with rows l \<longleftrightarrow> (\<exists>ls more. rl_receipts l = Some ls \<and> intact ls (rows @ more))"

lemma intact_more: "intact ls rows \<Longrightarrow> new = [] \<or> new = [Row (JObj d)] \<Longrightarrow> \<exists>more. intact (ls @ new) (rows @ more)"
  by (elim disjE) (force simp: intact_def, auto simp: intact_def intro: exI [of _ "[d]"])

lemma step_keeps_history: "ledger_step l l' \<Longrightarrow> begins_with rows l \<Longrightarrow> begins_with rows l'"
proof (induction rule: ledger_step.induct)
  case (1 opf wrf x l r l')
  from 1(2) obtain ls more where ls: "rl_receipts l = Some ls" "intact ls (rows @ more)" by (auto simp: begins_with_def)
  from 1(1) obtain r' f where f: "append_jsonl opf wrf (rl_receipts l) (xc_to_dict x) None = (r', f)"
    and l': "l' = l\<lparr>rl_receipts := f\<rparr>" by (rule rl_append_cases)
  from append_prefix [OF f] ls(1) consider "f = Some ls"
    | new where "f = Some (ls @ new)" "new = [] \<or> new = [Row (JObj (stored (xc_to_dict x)))]" by auto
  then show ?case
  proof cases
    case 2
    with intact_more [OF ls(2) 2(2)] show ?thesis by (auto simp: begins_with_def l')
  qed (use ls in \<open>auto simp: begins_with_def l'\<close>)
qed (auto simp: begins_with_def rl_append_reconciliation_def rl_claim_binding_def rl_release_binding_claim_def
    rl_claim_action_lease_def rl_release_action_lease_claim_def split: prod.splits sum.splits)

lemma steps_keep_history: "ledger_step\<^sup>*\<^sup>* l l' \<Longrightarrow> begins_with rows l \<Longrightarrow> begins_with rows l'"
  by (induction rule: rtranclp_induct) (auto dest: step_keeps_history)

lemma any_row_not_False: "row \<in> set rows \<Longrightarrow> f row = Inr True \<Longrightarrow> any_row f rows \<noteq> Inr False"
proof (induction rows)
  case (Cons x xs)
  then show ?case by (cases "f x") auto
qed simp

lemma any_row_reaches: "(\<And>x. x \<in> set xs \<Longrightarrow> \<exists>b. f x = Inr b) \<Longrightarrow> f row = Inr True \<Longrightarrow> any_row f (xs @ row # ys) = Inr True"
proof (induction xs)
  case (Cons x xs)
  from Cons.prems(1) obtain b where "f x = Inr b" by (meson list.set_intros(1))
  with Cons show ?case by simp
qed simp

lemma acknowledged_history:
  assumes "rl_append opf wrf receipt l = (Ok (), l')"
  obtains rows where "read_jsonl None (rl_receipts l) = Inr rows" and "begins_with (rows @ [stored (xc_to_dict receipt)]) l'"
proof -
  obtain r f where f: "append_jsonl opf wrf (rl_receipts l) (xc_to_dict receipt) None = (r, f)"
    and "discard r = Ok ()" and l': "l' = l\<lparr>rl_receipts := f\<rparr>"
    using assms by (rule rl_append_cases) simp
  then obtain b where "r = Inr b" by (auto simp: discard_Ok_iff)
  with f obtain rows where "read_jsonl None (rl_receipts l) = Inr rows"
    and g: "read_jsonl None f = Inr (rows @ [stored (xc_to_dict receipt)])" "f \<noteq> None" by (auto elim: append_plain_reads)
  moreover from g obtain ls where "f = Some ls" "intact ls (rows @ [stored (xc_to_dict receipt)] @ [])"
    by (auto simp: read_jsonl_def sio_rows_Ok_iff)
  then have "begins_with (rows @ [stored (xc_to_dict receipt)]) l'" unfolding begins_with_def l' by auto
  ultimately show thesis by (simp add: that)
qed

text \<open>C38: A receipt of an allowed attempt, once acknowledged, is never forgotten: whatever the class does to the
  ledger afterwards (any number of appends, acknowledged or not, reconciliations, claims and releases, with
  any fault of the file system), no reader answers that the binding is not consumed, unless the operating system
  tells it that the history file does not exist.  When no row that was in the history before the receipt
  has a list or an object as its execution status (no row the class writes has; such a foreign row
  makes the reader raise), an undisturbed reader answers that the binding is consumed.\<close>

theorem acknowledged_attempt_is_consumed:
  assumes "rl_append opf wrf receipt l = (Ok (), l')"
    and "xc_governed_provenance receipt = Some (PlanProvenance p)"
    and "xc_permission_status receipt = ''allowed''"
    and "xc_execution_status receipt \<in> {''succeeded'', ''failed'', ''outcome_unknown''}"
    and "ledger_step\<^sup>*\<^sup>* l' l''"
  shows "(\<forall>fault. (\<forall>e. fault = Some e \<longrightarrow> exn_class e \<noteq> PyFileNotFoundError) \<longrightarrow>
        rl_has_consumed_binding fault (ep_action_binding_sha256 p) l'' \<noteq> Ok False)
    \<and> (\<forall>rows. read_jsonl None (rl_receipts l) = Ok rows \<longrightarrow> list_all scannable rows \<longrightarrow>
        rl_has_consumed_binding None (ep_action_binding_sha256 p) l'' = Ok True)"
proof -
  let ?b = "ep_action_binding_sha256 p" and ?row = "stored (xc_to_dict receipt)"
  let ?f = "row_attempts ''action_binding_sha256'' ?b"
  obtain rows where rows: "read_jsonl None (rl_receipts l) = Inr rows" and l': "begins_with (rows @ [?row]) l'"
    by (rule acknowledged_history [OF assms(1)])
  from steps_keep_history [OF assms(5) l'] obtain ls more where l'': "rl_receipts l'' = Some ls"
    and read: "sio_rows ls = Inr (rows @ ?row # more)" by (auto simp: begins_with_def sio_rows_Ok_iff)
  have hit: "?f ?row = Inr True" using row_attempts_xc [OF assms(2)] assms(3,4) by simp
  have "rl_has_consumed_binding fault ?b l'' \<noteq> Ok False" if "\<forall>e. fault = Some e \<longrightarrow> exn_class e \<noteq> PyFileNotFoundError" for fault
    using that l'' read any_row_not_False [of ?row "rows @ ?row # more" ?f, OF _ hit]
    by (cases fault) (simp_all add: rl_has_consumed_binding_def read_jsonl_def)
  moreover have "rl_has_consumed_binding None ?b l'' = Ok True" if "list_all scannable rows"
    using any_row_reaches [of rows ?f ?row more, OF _ hit] row_attempts_scannable that l'' read
    by (simp add: rl_has_consumed_binding_def read_jsonl_def list_all_iff)
  ultimately show ?thesis using rows by simp
qed

definition sample_receipt :: "string \<Rightarrow> execution_receipt" where
  "sample_receipt status = \<lparr>xc_schema_version = ''phios.execution_receipt.v0.1'', xc_receipt_id = ''r'',
     xc_timestamp_utc = ''t'', xc_capability_id = ''c'', xc_planner = ''p'', xc_input_sha256 = ''i'',
     xc_permissions_requested = [], xc_permission_status = ''allowed'', xc_execution_status = status,
     xc_artifact_path = None, xc_artifact_sha256 = None, xc_error = None, xc_packet_id = None,
     xc_gate_receipt_id = None, xc_action_receipt_id = None, xc_mandala_status = None,
     xc_governed_provenance = Some (PlanProvenance \<lparr>ep_schema_version = ''v'', ep_plan_id = ''p'',
       ep_plan_state_sha256 = ''s'', ep_plan_revision = 0, ep_transition_index = 0, ep_source_state_id = ''a'',
       ep_target_state_id = ''b'', ep_action_binding_sha256 = ''x'', ep_action_lease_sha256 = None,
       ep_authority_epoch_sha256 = None, ep_authorization_receipt_sha256 = None, ep_lease_verification_sha256 = None\<rparr>),
     xc_executor_entered = True, xc_reconciliation_status = ''not_required'', xc_effect_confirmed = None,
     xc_reconciliation_receipt_sha256 = None\<rparr>"

lemma sample_receipt_fits: "length st \<le> 100 \<Longrightarrow> \<exists>data. sio_encode (xc_to_dict (sample_receipt st)) = Inr data"
  by (rule sio_encode_fits)
    (simp add: MAX_RECORD_BYTES_def xc_to_dict_def sample_receipt_def execution_provenance_to_dict_def show_int_def
      show_nat.simps)

theorem acknowledged_attempt_is_consumed_witness:
  "\<exists>l' l''. rl_append None None (sample_receipt ''failed'') rl_empty = (Ok (), l') \<and> ledger_step\<^sup>*\<^sup>* l' l'' \<and>
     rl_receipts l'' \<noteq> rl_receipts l' \<and> rl_has_consumed_binding None ''x'' l'' = Ok True"
proof -
  let ?f = "Row (JObj (stored (xc_to_dict (sample_receipt ''failed''))))"
  let ?g = "Row (JObj (stored (xc_to_dict (sample_receipt ''succeeded''))))"
  let ?l1 = "rl_empty\<lparr>rl_receipts := Some [?f]\<rparr>" and ?l2 = "rl_empty\<lparr>rl_receipts := Some [?f, ?g]\<rparr>"
  obtain d1 d2 where d: "sio_encode (xc_to_dict (sample_receipt ''failed'')) = Inr d1"
      "sio_encode (xc_to_dict (sample_receipt ''succeeded'')) = Inr d2"
    using sample_receipt_fits [of "''failed''"] sample_receipt_fits [of "''succeeded''"] by auto
  have a: "rl_append None None (sample_receipt ''failed'') rl_empty = (Ok (), ?l1)"
    using d by (simp add: rl_append_def append_jsonl_def rl_empty_def sio_rows_def discard_def canon_stored
        del: canon.simps)
  have b: "rl_append None None (sample_receipt ''succeeded'') ?l1 = (Ok (), ?l2)"
    using d by (simp add: rl_append_def append_jsonl_def rl_empty_def sio_rows_def discard_def canon_stored
        del: canon.simps)
  have c: "rl_append None (Some (Exn PyOSError ''disk full'')) (sample_receipt ''succeeded'') ?l2 = (Inl (Exn PyOSError ''disk full''), ?l2)"
    using d by (simp add: rl_append_def append_jsonl_def rl_empty_def sio_rows_def discard_def canon_stored
        del: canon.simps)
  have steps: "ledger_step\<^sup>*\<^sup>* ?l1 ?l2"
    using ledger_step.intros(1) [OF b] ledger_step.intros(1) [OF c] by (meson rtranclp.rtrancl_into_rtrancl rtranclp.rtrancl_refl)
  from acknowledged_attempt_is_consumed [OF a _ _ _ steps] have "rl_has_consumed_binding None ''x'' ?l2 = Ok True"
    by (simp add: sample_receipt_def rl_empty_def read_jsonl_def)
  then show ?thesis using a steps by (intro exI [of _ ?l1] exI [of _ ?l2]) (simp add: rl_empty_def)
qed

text \<open>The ledger's digest check is weaker than its message: it accepts \<open>0x\<close> followed by 62 hex
  digits, and a digest with white space around it, which then names another claim file, so that
  two spellings of one digest are claimed side by side.\<close>

theorem digest_check_is_lenient:
  assumes "list_all is_hex_lower h" and "length h = 62"
    and "is_sha256 d" and "d \<in> binding_claims_held l" and "'' '' @ d \<notin> binding_claims_held l"
  shows "rl_validate_sha256 (''0x'' @ h) label = Ok () \<and> \<not> is_sha256 (''0x'' @ h) \<and>
    (\<exists>l'. rl_claim_binding None None ('' '' @ d) l = (Ok True, l') \<and> d \<in> binding_claims_held l')"
proof -
  have hex_char: "\<not> is_space c" "lower_char c = c" if "is_hex_lower c \<or> c = CHR ''x''" for c
    using that hex_lower_not_space hex_lower_lower_char by (auto simp: is_space_def lower_char_def)
  have all: "\<forall>c \<in> set (''0x'' @ h). is_hex_lower c \<or> c = CHR ''x''"
    using assms(1) by (auto simp: list_all_iff) (simp add: is_hex_lower_def)
  then have "strip (''0x'' @ h) = ''0x'' @ h" using hex_char(1) by (intro strip_id) blast
  moreover have "lower (''0x'' @ h) = ''0x'' @ h" unfolding lower_def using all hex_char(2) by (intro map_idI) blast
  moreover have "h \<noteq> []" using assms(2) by auto
  then have "int16_accepts (''0x'' @ h)"
    using assms(1) by (simp add: int16_accepts_def hex_groups_hex)
  ultimately have v: "rl_validate_sha256 (''0x'' @ h) label = Ok ()"
    using assms(2) by (simp add: rl_validate_sha256_def)
  have n: "\<not> is_sha256 (''0x'' @ h)" by (simp add: is_sha256_def is_hex_lower_def)
  have "strip ('' '' @ d) = strip d" by (simp add: strip_def is_space_def)
  then have "rl_validate_sha256 ('' '' @ d) ''binding_sha256'' = Ok ()"
    using validate_digest [OF assms(3)] by (simp add: rl_validate_sha256_def)
  then have "rl_claim_binding None None ('' '' @ d) l = (Ok True, l\<lparr>rl_binding_claims := ('' '' @ d) # rl_binding_claims l\<rparr>)"
    using assms(5) by (simp add: rl_claim_binding_def create_claim_def binding_claims_held_def)
  with v n assms(4) show ?thesis by (auto simp: binding_claims_held_def)
qed

theorem digest_check_is_lenient_witness:
  "let d = sha256_hex ''b''; h = drop 2 d in rl_validate_sha256 (''0x'' @ h) ''sha'' = Ok () \<and> \<not> is_sha256 (''0x'' @ h)"
proof -
  let ?d = "sha256_hex ''b''"
  have d: "is_sha256 ?d" by simp
  then have h: "list_all is_hex_lower (drop 2 ?d)" "length (drop 2 ?d) = 62"
    unfolding is_sha256_def by (auto simp: list_all_iff dest: in_set_dropD)
  have "'' '' @ ?d \<notin> binding_claims_held (rl_empty\<lparr>rl_binding_claims := [?d]\<rparr>)"
    by (simp add: binding_claims_held_def)
  from digest_check_is_lenient [OF h d _ this] show ?thesis by (simp add: binding_claims_held_def Let_def)
qed

end
