(* ===== verification/Spine_Runtime.thy ===== *)
theory Spine_Runtime
  imports Spine_Executor Reality_Ledger
begin

text \<open>
  \<open>phios/spine/runtime.py\<close> with \<open>phios/spine/collaborator.py\<close>: the execution spine.  The modelled
  operations are the constructor, the built-in capability and \<open>run\<close> with everything it calls; the
  SOMA, Reality and escalation entry points are delegations to services that are not modelled here.

  An operation is a function from the spine to a result and the next spine.  The environment gives
  the identifiers \<open>uuid4\<close> draws, the clock readings and what the operating system answers to the
  \<open>n\<close>-th file access; the spine counts how many of each were used.  \<open>sp_entries\<close> is a history
  variable: the handler calls made so far, in order.  No operation reads it, except that the
  \<open>n\<close>-th call of a handler is told its number.
\<close>

section \<open>State\<close>

record env =
  en_uuid :: "nat \<Rightarrow> string"
  en_now :: "nat \<Rightarrow> string"
  en_open :: "nat \<Rightarrow> exn option"
  en_write :: "nat \<Rightarrow> exn option"

record handler_entry =
  he_capability_id :: string
  he_payload :: payload
  he_provenance :: "provenance option"

record spine =
  sp_registry :: capability_registry
  sp_executors :: executor_registry
  sp_allowed :: "string list"
  sp_core :: phi_core_state
  sp_mandala :: state_file
  sp_ledger :: reality_ledger
  sp_uuids :: nat
  sp_clock :: nat
  sp_io :: nat
  sp_entries :: "handler_entry list"

type_synonym 'a act = "spine \<Rightarrow> 'a result \<times> spine"

definition act_return :: "'a \<Rightarrow> 'a act" where
  "act_return x = (\<lambda>s. (Ok x, s))"

definition act_result :: "'a result \<Rightarrow> 'a act" where
  "act_result r = (\<lambda>s. (r, s))"

definition act_bind :: "'a act \<Rightarrow> ('a \<Rightarrow> 'b act) \<Rightarrow> 'b act" where
  "act_bind m f = (\<lambda>s. case m s of (Inl e, s') \<Rightarrow> (Inl e, s') | (Inr x, s') \<Rightarrow> f x s')"

text \<open>\<open>try: m; except p: h\<close>.\<close>

definition act_try :: "'a act \<Rightarrow> (exn \<Rightarrow> bool) \<Rightarrow> (exn \<Rightarrow> 'a act) \<Rightarrow> 'a act" where
  "act_try m p h = (\<lambda>s. case m s of (Inl e, s') \<Rightarrow> if p e then h e s' else (Inl e, s') | (Inr x, s') \<Rightarrow> (Inr x, s'))"

definition draw_uuid :: "env \<Rightarrow> string act" where
  "draw_uuid env = (\<lambda>s. (Ok (en_uuid env (sp_uuids s)), s\<lparr>sp_uuids := Suc (sp_uuids s)\<rparr>))"

definition draw_now :: "env \<Rightarrow> string act" where
  "draw_now env = (\<lambda>s. (Ok (en_now env (sp_clock s)), s\<lparr>sp_clock := Suc (sp_clock s)\<rparr>))"

definition with_ledger ::
  "env \<Rightarrow> (exn option \<Rightarrow> exn option \<Rightarrow> reality_ledger \<Rightarrow> 'a result \<times> reality_ledger) \<Rightarrow> 'a act" where
  "with_ledger env f = (\<lambda>s. case f (en_open env (sp_io s)) (en_write env (sp_io s)) (sp_ledger s) of
     (r, l) \<Rightarrow> (r, s\<lparr>sp_ledger := l, sp_io := Suc (sp_io s)\<rparr>))"

definition mandala_append :: "env \<Rightarrow> (string \<times> json) list \<Rightarrow> unit act" where
  "mandala_append env receipt = (\<lambda>s. case ml_append (en_open env (sp_io s)) (en_write env (sp_io s)) receipt (sp_mandala s) of
     (r, f) \<Rightarrow> (r, s\<lparr>sp_mandala := f, sp_io := Suc (sp_io s)\<rparr>))"

section \<open>Planning, packets and receipts\<close>

definition hash_payload :: "payload \<Rightarrow> string" where
  "hash_payload p = canonical_sha256 (JObj p)"

definition vessel_plan :: "string \<Rightarrow> payload \<Rightarrow> phi_plan" where
  "vessel_plan capability_id payload =
     \<lparr>plan_capability_id = capability_id, plan_payload = payload,
      plan_planner = ''phivessel.spine.deterministic'', plan_planner_version = ''0.1.0''\<rparr>"

definition action_packet :: "env \<Rightarrow> phi_plan \<Rightarrow> capability \<Rightarrow> mandala_packet act" where
  "action_packet env plan c =
     act_bind (draw_uuid env) (\<lambda>fresh. \<lambda>s.
       (Ok (mp_create fresh (pc_task_id (sp_core s)) ACTION
          \<lparr>or_kind = SUBSYSTEM, or_identifier = plan_planner plan\<rparr> (plan_payload plan) (pc_authority (sp_core s)) None []
          [JObj [(''kind'', JStr ''action_request''), (''capability_id'', JStr (cap_id c))]] [MEMORY] []), s))"

definition meta :: "env \<Rightarrow> mandala_packet \<Rightarrow> mandala_status \<Rightarrow> string \<Rightarrow> string option \<Rightarrow> receipt_envelope act" where
  "meta env packet status produced_by parent =
     act_bind (draw_uuid env) (\<lambda>fresh. act_bind (draw_now env) (\<lambda>now.
       act_return (receipt_meta fresh now packet status produced_by parent)))"

text \<open>The executor's effects, or none when it has no entry.\<close>

definition recorded_effects :: "executor_registry \<Rightarrow> string \<Rightarrow> string list" where
  "recorded_effects r capability_id = (case xr_lookup_effects r capability_id of Inl _ \<Rightarrow> [] | Inr es \<Rightarrow> es)"

definition effect_receipt_of :: "receipt_envelope \<Rightarrow> effect_boundary_decision \<Rightarrow> effect_boundary_receipt" where
  "effect_receipt_of m d =
     (let body = receipt_envelope.extend m (effect_boundary_receipt.fields (eb_capability_id d) (eb_capability_version d)
         (eb_capability_risk d) (eb_capability_effects d) (eb_executor_effects d) (eb_active_effects d)
         (eb_effect_contract_match d) (eb_classification_complete d) (eb_semantic_read_label_conflict d)
         (eb_policy_sha256 d) (eb_reason d) False False [])
      in body\<lparr>ebr_receipt_sha256 := canonical_sha256 (JObj (ebr_to_dict body))\<rparr>)"

definition effect_receipt :: "env \<Rightarrow> mandala_packet \<Rightarrow> capability \<Rightarrow> effect_boundary_receipt act" where
  "effect_receipt env packet c =
     act_bind (\<lambda>s. (eb_evaluate c (recorded_effects (sp_executors s) (cap_id c)), s)) (\<lambda>d.
     act_bind (meta env packet (if eb_allowed d then ACCEPTED else BLOCKED) ''phios.effect_boundary'' None) (\<lambda>m.
     act_return (effect_receipt_of m d)))"

definition make_gate_receipt ::
  "env \<Rightarrow> mandala_packet \<Rightarrow> bool \<Rightarrow> string \<Rightarrow> string option \<Rightarrow> gate_receipt act" where
  "make_gate_receipt env packet allowed reason parent =
     act_bind (meta env packet (if allowed then ACCEPTED else BLOCKED) ''phios.action_gate'' parent) (\<lambda>m.
     act_return (receipt_envelope.extend m (gate_receipt.fields ACTION reason (mp_evidence_refs packet)
       (ac_to_dict (mp_authority packet)))))"

definition make_action_receipt ::
  "env \<Rightarrow> mandala_packet \<Rightarrow> mandala_status \<Rightarrow> string option \<Rightarrow> string list \<Rightarrow> (string \<times> json) list \<Rightarrow> string
    \<Rightarrow> (string \<times> string) list \<Rightarrow> action_receipt act" where
  "make_action_receipt env packet status parent granted side_effect outcome identifiers =
     act_bind (meta env packet status ''phios.action_gate'' parent) (\<lambda>m.
     act_return (receipt_envelope.extend m (action_receipt.fields granted side_effect outcome identifiers)))"

definition make_abort_receipt :: "env \<Rightarrow> mandala_packet \<Rightarrow> string option \<Rightarrow> string \<Rightarrow> abort_receipt act" where
  "make_abort_receipt env packet parent reason =
     act_bind (meta env packet ABORTED ''phios.runtime'' parent) (\<lambda>m.
     act_return (receipt_envelope.extend m (abort_receipt.fields reason [] [])))"

text \<open>The \<open>ExecutionReceipt\<close> of \<open>run\<close> before an outcome is known.\<close>

definition make_receipt ::
  "env \<Rightarrow> capability \<Rightarrow> phi_plan \<Rightarrow> string list \<Rightarrow> string \<Rightarrow> mandala_packet \<Rightarrow> gate_receipt \<Rightarrow> provenance option
    \<Rightarrow> string option \<Rightarrow> execution_receipt act" where
  "make_receipt env c plan requested permission_status packet gate prov err =
     act_bind (draw_uuid env) (\<lambda>fresh. act_bind (draw_now env) (\<lambda>now. act_return
       \<lparr>xc_schema_version = ''phios.execution_receipt.v0.1'', xc_receipt_id = fresh, xc_timestamp_utc = now,
        xc_capability_id = cap_id c, xc_planner = plan_planner plan, xc_input_sha256 = hash_payload (plan_payload plan),
        xc_permissions_requested = requested, xc_permission_status = permission_status,
        xc_execution_status = ''not_executed'', xc_artifact_path = None, xc_artifact_sha256 = None, xc_error = err,
        xc_packet_id = Some (mp_packet_id packet), xc_gate_receipt_id = Some (re_receipt_id gate),
        xc_action_receipt_id = None, xc_mandala_status = None, xc_governed_provenance = prov,
        xc_executor_entered = False, xc_reconciliation_status = ''not_required'', xc_effect_confirmed = None,
        xc_reconciliation_receipt_sha256 = None\<rparr>))"

text \<open>The common end of every path: the action receipt's identity and status, then the ledger row.\<close>

definition finish :: "env \<Rightarrow> execution_receipt \<Rightarrow> action_receipt \<Rightarrow> execution_receipt act" where
  "finish env receipt action =
     (let r = receipt\<lparr>xc_action_receipt_id := Some (re_receipt_id action),
                      xc_mandala_status := Some (mandala_status_value (re_status action))\<rparr>
      in act_bind (with_ledger env (\<lambda>opf wrf. rl_append opf wrf r)) (\<lambda>_. act_return r))"

section \<open>\<open>run\<close>\<close>

text \<open>The branch of a blocked effect boundary.\<close>

definition run_blocked ::
  "env \<Rightarrow> capability \<Rightarrow> phi_plan \<Rightarrow> mandala_packet \<Rightarrow> effect_boundary_receipt \<Rightarrow> provenance option \<Rightarrow> execution_receipt act" where
  "run_blocked env c plan packet effect prov =
     act_bind (make_gate_receipt env packet False (''Effect boundary blocked: '' @ ebr_reason effect)
       (Some (re_receipt_id effect))) (\<lambda>gate.
     act_bind (mandala_append env (gr_to_dict gate)) (\<lambda>_.
     act_bind (make_receipt env c plan (cap_permissions c) ''denied'' packet gate prov
       (Some (''effect_boundary:'' @ ebr_reason effect))) (\<lambda>receipt.
     act_bind (make_action_receipt env packet BLOCKED (Some (re_receipt_id gate)) []
       [(''capability_id'', JStr (cap_id c)), (''effect_boundary_receipt_id'', JStr (re_receipt_id effect))]
       ''not_executed'' []) (\<lambda>action.
     act_bind (mandala_append env (acr_to_dict action)) (\<lambda>_.
     finish env receipt action)))))"

text \<open>The branch of a denied permission; the receipt's error is set after the action receipt is written.\<close>

definition run_denied ::
  "env \<Rightarrow> capability \<Rightarrow> mandala_packet \<Rightarrow> permission_decision \<Rightarrow> gate_receipt \<Rightarrow> execution_receipt \<Rightarrow> execution_receipt act" where
  "run_denied env c packet decision gate receipt =
     act_bind (make_action_receipt env packet BLOCKED (Some (re_receipt_id gate)) (pd_granted decision)
       [(''capability_id'', JStr (cap_id c))] ''not_executed'' []) (\<lambda>action.
     act_bind (mandala_append env (acr_to_dict action)) (\<lambda>_.
     finish env (receipt\<lparr>xc_error := Some (pd_reason decision)\<rparr>) action))"

text \<open>\<open>f"{type(exc).__name__}: {exc}"\<close>.\<close>

definition exn_text :: "exn \<Rightarrow> string" where
  "exn_text e = exn_name (exn_class e) @ '': '' @
     (if exn_class e = PyKeyError then py_repr_str (exn_message e) else exn_message e)"

text \<open>The branch \<open>except Exception as exc\<close>.\<close>

definition run_failed ::
  "env \<Rightarrow> capability \<Rightarrow> mandala_packet \<Rightarrow> permission_decision \<Rightarrow> gate_receipt \<Rightarrow> execution_receipt \<Rightarrow> string
    \<Rightarrow> execution_receipt act" where
  "run_failed env c packet decision gate receipt text' =
     act_bind (make_action_receipt env packet ABORTED (Some (re_receipt_id gate)) (pd_granted decision)
       [(''capability_id'', JStr (cap_id c))] ''failed'' []) (\<lambda>action.
     act_bind (mandala_append env (acr_to_dict action)) (\<lambda>_.
     act_bind (make_abort_receipt env packet (Some (re_receipt_id action)) text') (\<lambda>abort.
     act_bind (mandala_append env (abr_to_dict abort)) (\<lambda>_.
     finish env (receipt\<lparr>xc_execution_status := ''failed'', xc_error := Some text'\<rparr>) action))))"

text \<open>The end of the \<open>try\<close> body: the artifact is recorded, or the recording fails.\<close>

definition run_succeeded ::
  "env \<Rightarrow> capability \<Rightarrow> mandala_packet \<Rightarrow> permission_decision \<Rightarrow> gate_receipt \<Rightarrow> execution_receipt \<Rightarrow> artifact_result
    \<Rightarrow> execution_receipt act" where
  "run_succeeded env c packet decision gate receipt a =
     (let r = receipt\<lparr>xc_execution_status := ''succeeded'', xc_artifact_path := Some (ar_path a),
                      xc_artifact_sha256 := Some (ar_sha256 a)\<rparr>
      in (\<lambda>s. case act_bind (make_action_receipt env packet ACCEPTED (Some (re_receipt_id gate)) (pd_granted decision)
              [(''capability_id'', JStr (cap_id c))] ''succeeded''
              [(''artifact_path'', ar_path a), (''artifact_sha256'', ar_sha256 a)]) (\<lambda>action.
              act_bind (mandala_append env (acr_to_dict action)) (\<lambda>_. act_return action)) s of
           (Inr action, s') \<Rightarrow> finish env r action s'
         | (Inl e, s') \<Rightarrow> if is_exception e then run_failed env c packet decision gate r (exn_text e) s' else (Inl e, s')))"

text \<open>The branch \<open>except OutcomeUnknownError as exc\<close>.\<close>

definition run_unknown ::
  "env \<Rightarrow> capability \<Rightarrow> mandala_packet \<Rightarrow> permission_decision \<Rightarrow> gate_receipt \<Rightarrow> execution_receipt \<Rightarrow> outcome_unknown
    \<Rightarrow> execution_receipt act" where
  "run_unknown env c packet decision gate receipt u =
     act_bind (make_action_receipt env packet UNKNOWN (Some (re_receipt_id gate)) (pd_granted decision)
       [(''capability_id'', JStr (cap_id c))] ''outcome_unknown'' (ou_external_identifiers u)) (\<lambda>action.
     act_bind (mandala_append env (acr_to_dict action)) (\<lambda>_.
     finish env (receipt\<lparr>xc_execution_status := ''outcome_unknown'', xc_reconciliation_status := ''required'',
       xc_error := Some (''OutcomeUnknownError: '' @ ou_message u)\<rparr>) action))"

text \<open>\<open>ExecutorRegistry.execute\<close>: the handler is entered, and the entry recorded.\<close>

definition call_handler :: "string \<Rightarrow> payload \<Rightarrow> provenance option \<Rightarrow> handler_outcome act" where
  "call_handler capability_id payload prov = (\<lambda>s.
     case xr_handler (sp_executors s) capability_id of
       Inl e \<Rightarrow> (Inl e, s)
     | Inr h \<Rightarrow> (Ok (h (length (sp_entries s)) payload),
         s\<lparr>sp_entries := sp_entries s @
             [\<lparr>he_capability_id = capability_id, he_payload = payload, he_provenance = prov\<rparr>]\<rparr>))"

text \<open>What follows the handler call, by its outcome.\<close>

definition after_handler ::
  "env \<Rightarrow> capability \<Rightarrow> mandala_packet \<Rightarrow> permission_decision \<Rightarrow> gate_receipt \<Rightarrow> execution_receipt
    \<Rightarrow> handler_outcome result \<Rightarrow> execution_receipt act" where
  "after_handler env c packet decision gate r outcome =
     (case outcome of
        Inl e \<Rightarrow> run_failed env c packet decision gate r (exn_text e)
      | Inr (Artifact a) \<Rightarrow> run_succeeded env c packet decision gate r a
      | Inr (Unknown u) \<Rightarrow> run_unknown env c packet decision gate r u
      | Inr (Raised t m) \<Rightarrow> run_failed env c packet decision gate r (t @ '': '' @ m)
      | Inr Interrupted \<Rightarrow> act_result (raise PyInterrupt []))"

definition run_allowed ::
  "env \<Rightarrow> capability \<Rightarrow> phi_plan \<Rightarrow> mandala_packet \<Rightarrow> permission_decision \<Rightarrow> gate_receipt \<Rightarrow> execution_receipt
    \<Rightarrow> execution_receipt act" where
  "run_allowed env c plan packet decision gate receipt =
     (let r = receipt\<lparr>xc_executor_entered := True\<rparr>
      in (\<lambda>s. case call_handler (cap_id c) (plan_payload plan) (xc_governed_provenance receipt) s of
           (outcome, s') \<Rightarrow> after_handler env c packet decision gate r outcome s'))"

text \<open>The part after the effect boundary let the capability through.\<close>

definition run_gated ::
  "env \<Rightarrow> capability \<Rightarrow> phi_plan \<Rightarrow> mandala_packet \<Rightarrow> effect_boundary_receipt \<Rightarrow> provenance option \<Rightarrow> execution_receipt act" where
  "run_gated env c plan packet effect prov =
     act_bind (\<lambda>s. (Ok (pg_evaluate (sp_allowed s) c), s)) (\<lambda>decision.
     act_bind (make_gate_receipt env packet (pd_allowed decision) (pd_reason decision) (Some (re_receipt_id effect))) (\<lambda>gate.
     act_bind (mandala_append env (gr_to_dict gate)) (\<lambda>_.
     act_bind (make_receipt env c plan (pd_requested decision) (if pd_allowed decision then ''allowed'' else ''denied'')
       packet gate prov None) (\<lambda>receipt.
     if \<not> pd_allowed decision then run_denied env c packet decision gate receipt
     else run_allowed env c plan packet decision gate receipt))))"

definition spine_run :: "env \<Rightarrow> string \<Rightarrow> payload \<Rightarrow> provenance option \<Rightarrow> execution_receipt act" where
  "spine_run env capability_id payload prov =
     (let plan = vessel_plan capability_id payload in
     act_bind (\<lambda>s. (cr_get (sp_registry s) (plan_capability_id plan), s)) (\<lambda>c.
     act_bind (action_packet env plan c) (\<lambda>packet.
     act_bind (effect_receipt env packet c) (\<lambda>effect.
     act_bind (mandala_append env (ebr_to_dict effect)) (\<lambda>_.
     if re_status effect = BLOCKED then run_blocked env c plan packet effect prov
     else run_gated env c plan packet effect prov)))))"

section \<open>Construction\<close>

text \<open>\<open>tuple(dict.fromkeys(xs))\<close>: the first occurrence of each, in order.\<close>

definition from_keys :: "string list \<Rightarrow> string list" where
  "from_keys xs = rev (remdups (rev xs))"

definition text_capability :: capability where
  "text_capability = \<lparr>cap_id = ''commons.text_artifact'', cap_name = ''Text Artifact'',
     cap_description = ''Write user-supplied text into the PhiOS artifact store.'',
     cap_permissions = [''artifact.write''], cap_effects = [''filesystem.change''], cap_risk = ''low'', cap_version = ''0.1.0''\<rparr>"

text \<open>
  \<open>__init__\<close> over a resolved state root, with the handler \<open>text_artifact_handler\<close> returned for its
  \<open>artifacts\<close> directory and the files found on disk as arguments.
\<close>

definition spine_init ::
  "string \<Rightarrow> string list \<Rightarrow> string option \<Rightarrow> string \<Rightarrow> handler \<Rightarrow> state_file \<Rightarrow> reality_ledger \<Rightarrow> spine result" where
  "spine_init fresh allowed_permissions task_id state_root text_handler mandala ledger =
     (let allowed = from_keys allowed_permissions;
          core = pc_activate (pc_initialize fresh task_id allowed allowed
            (Some (state_root @ ''/ledger/mandala-receipts.jsonl'')) None)
      in rbind (cr_register text_capability []) (\<lambda>registry.
         case xr_register (cap_id text_capability) text_handler [''filesystem.change''] xr_empty of
           (Inl e, _) \<Rightarrow> Inl e
         | (Inr _, executors) \<Rightarrow> Ok
             \<lparr>sp_registry = registry, sp_executors = executors, sp_allowed = allowed, sp_core = core,
              sp_mandala = mandala, sp_ledger = ledger, sp_uuids = 0, sp_clock = 0, sp_io = 0, sp_entries = []\<rparr>))"

section \<open>What an operation leaves alone\<close>

text \<open>
  \<open>steady s s'\<close>: configuration, claims and reconciliations are as before, committed history is
  still readable, and no handler was entered.  Every operation above except \<open>call_handler\<close> is
  \<open>quiet\<close> in this sense.
\<close>

definition readable :: "state_file \<Rightarrow> bool" where
  "readable f \<longleftrightarrow> (\<exists>rows. read_jsonl None f = Inr rows)"

definition steady :: "spine \<Rightarrow> spine \<Rightarrow> bool" where
  "steady s s' \<longleftrightarrow>
     sp_registry s' = sp_registry s \<and> sp_executors s' = sp_executors s \<and> sp_allowed s' = sp_allowed s \<and>
     sp_core s' = sp_core s \<and> sp_entries s' = sp_entries s \<and>
     rl_binding_claims (sp_ledger s') = rl_binding_claims (sp_ledger s) \<and>
     rl_lease_claims (sp_ledger s') = rl_lease_claims (sp_ledger s) \<and>
     (readable (sp_mandala s) \<longrightarrow> readable (sp_mandala s')) \<and>
     (readable (rl_receipts (sp_ledger s)) \<longrightarrow> readable (rl_receipts (sp_ledger s')))"

definition quiet :: "'a act \<Rightarrow> bool" where
  "quiet m \<longleftrightarrow> (\<forall>s. steady s (snd (m s)))"

named_theorems quiet_intros \<open>operations that are quiet\<close>

lemma steady_refl [simp]: "steady s s"
  by (simp add: steady_def)

lemma steady_trans: "steady s t \<Longrightarrow> steady t u \<Longrightarrow> steady s u"
  by (simp add: steady_def)

lemma quietD: "quiet m \<Longrightarrow> m s = (r, s') \<Longrightarrow> steady s s'"
  unfolding quiet_def by (metis snd_conv)

lemma quietI: "(\<And>s r s'. m s = (r, s') \<Longrightarrow> steady s s') \<Longrightarrow> quiet m"
  unfolding quiet_def by (metis prod.collapse)

lemma quiet_bind [quiet_intros]:
  assumes "quiet m" and "\<And>x. quiet (f x)"
  shows "quiet (act_bind m f)"
proof (rule quietI)
  fix s r s' assume b: "act_bind m f s = (r, s')"
  obtain r1 s1 where m: "m s = (r1, s1)" by fastforce
  have s1: "steady s s1" using assms(1) m by (rule quietD)
  show "steady s s'"
  proof (cases r1)
    case (Inl e)
    then show ?thesis using b m s1 by (simp add: act_bind_def)
  next
    case (Inr x)
    then have "f x s1 = (r, s')" using b m by (simp add: act_bind_def)
    with assms(2) have "steady s1 s'" by (rule quietD)
    with s1 show ?thesis by (rule steady_trans)
  qed
qed

lemma quiet_pure [quiet_intros]: "quiet (\<lambda>s. (f s, s))"
  by (simp add: quiet_def)

lemma quiet_return [quiet_intros]: "quiet (act_return x)"
  by (simp add: act_return_def quiet_intros)

lemma quiet_draw [quiet_intros]: "quiet (draw_uuid env)" "quiet (draw_now env)"
  by (simp_all add: quiet_def draw_uuid_def draw_now_def steady_def)

lemma readable_iff: "readable f \<longleftrightarrow> (\<exists>rows. intact (case f of None \<Rightarrow> [] | Some ls \<Rightarrow> ls) rows)"
  by (cases f) (simp_all add: readable_def read_jsonl_def sio_rows_Ok_iff intact_def)

lemma readable_append:
  assumes "append_jsonl opf wrf f p idf = (r, f')" and "readable f"
  shows "readable f'"
proof -
  from assms(2) obtain rows where rows: "intact (case f of None \<Rightarrow> [] | Some ls \<Rightarrow> ls) rows"
    unfolding readable_iff ..
  from append_prefix [OF assms(1)] show ?thesis
  proof (elim disjE exE conjE)
    assume "f' = f" with assms(2) show ?thesis by simp
  next
    fix new assume f': "f' = Some ((case f of None \<Rightarrow> [] | Some ls \<Rightarrow> ls) @ new)" and "new = []"
    with rows show ?thesis unfolding readable_iff by auto
  next
    fix new assume f': "f' = Some ((case f of None \<Rightarrow> [] | Some ls \<Rightarrow> ls) @ new)" and "new = [Row (JObj (stored p))]"
    with rows have "intact (case f' of None \<Rightarrow> [] | Some ls \<Rightarrow> ls) (rows @ [stored p])"
      by (simp add: intact_def)
    then show ?thesis unfolding readable_iff by blast
  qed
qed

lemma quiet_mandala_append [quiet_intros]: "quiet (mandala_append env p)"
proof (rule quietI)
  fix s r s' assume m: "mandala_append env p s = (r, s')"
  obtain q f where a: "append_jsonl (en_open env (sp_io s)) (en_write env (sp_io s)) (sp_mandala s) p None = (q, f)"
    by fastforce
  have s': "s' = s\<lparr>sp_mandala := f, sp_io := Suc (sp_io s)\<rparr>"
    using m a by (simp add: mandala_append_def ml_append_def)
  have "readable (sp_mandala s) \<Longrightarrow> readable f" using a by (rule readable_append)
  then show "steady s s'" unfolding s' by (simp add: steady_def)
qed

lemma quiet_ledger_append [quiet_intros]: "quiet (with_ledger env (\<lambda>opf wrf. rl_append opf wrf x))"
proof (rule quietI)
  fix s r s' assume m: "with_ledger env (\<lambda>opf wrf. rl_append opf wrf x) s = (r, s')"
  obtain q f where a: "append_jsonl (en_open env (sp_io s)) (en_write env (sp_io s)) (rl_receipts (sp_ledger s))
      (xc_to_dict x) None = (q, f)"
    by fastforce
  have s': "s' = s\<lparr>sp_ledger := (sp_ledger s)\<lparr>rl_receipts := f\<rparr>, sp_io := Suc (sp_io s)\<rparr>"
    using m a by (simp add: with_ledger_def rl_append_def)
  have "readable (rl_receipts (sp_ledger s)) \<Longrightarrow> readable f" using a by (rule readable_append)
  then show "steady s s'" unfolding s' by (simp add: steady_def)
qed

lemma quiet_meta [quiet_intros]: "quiet (meta env packet st by' parent)"
  unfolding meta_def by (intro quiet_intros)

lemma quiet_let [quiet_intros]: "(\<And>x. quiet (f x)) \<Longrightarrow> quiet (Let y f)"
  by (simp add: Let_def)

lemma quiet_if [quiet_intros]: "quiet a \<Longrightarrow> quiet b \<Longrightarrow> quiet (if c then a else b)"
  by simp

lemma quiet_try [quiet_intros]:
  assumes "quiet m" and "\<And>x. quiet (f x)" and "\<And>e. quiet (h e)"
  shows "quiet (\<lambda>s. case m s of (Inr x, s') \<Rightarrow> f x s' | (Inl e, s') \<Rightarrow> if p e then h e s' else (Inl e, s'))"
proof (rule quietI)
  fix s r s'
  assume b: "(case m s of (Inr x, s') \<Rightarrow> f x s' | (Inl e, s') \<Rightarrow> if p e then h e s' else (Inl e, s')) = (r, s')"
  obtain r1 s1 where m: "m s = (r1, s1)" by fastforce
  have s1: "steady s s1" using assms(1) m by (rule quietD)
  show "steady s s'"
  proof (cases r1)
    case (Inl e)
    then show ?thesis using b m s1 assms(3) [THEN quietD] steady_trans by (auto split: if_splits)
  next
    case (Inr x)
    then show ?thesis using b m s1 assms(2) [THEN quietD] steady_trans by auto
  qed
qed

lemmas quiet_defs = action_packet_def effect_receipt_def make_gate_receipt_def make_action_receipt_def
  make_abort_receipt_def make_receipt_def finish_def

lemma quiet_receipts [quiet_intros]:
  "quiet (action_packet env plan c)" "quiet (effect_receipt env packet c)" "quiet (make_gate_receipt env packet al re pa)"
  "quiet (make_action_receipt env packet st pa gr se oc ids)" "quiet (make_abort_receipt env packet pa re)"
  "quiet (make_receipt env c plan rq ps packet gate prov er)" "quiet (finish env receipt action)"
  unfolding quiet_defs by (intro quiet_intros)+

lemma quiet_run_parts [quiet_intros]:
  "quiet (run_blocked env c plan packet effect prov)" "quiet (run_denied env c packet decision gate receipt)"
  "quiet (run_failed env c packet decision gate receipt t)" "quiet (run_unknown env c packet decision gate receipt u)"
  "quiet (run_succeeded env c packet decision gate receipt a)"
  unfolding run_blocked_def run_denied_def run_failed_def run_unknown_def run_succeeded_def
  by (intro quiet_intros)+

lemma quiet_after_handler [quiet_intros]: "quiet (after_handler env c packet decision gate r outcome)"
  unfolding after_handler_def act_result_def
  by (cases outcome) (auto intro: quiet_intros split: handler_outcome.split)

section \<open>Triples\<close>

text \<open>
  \<open>triple I m P E\<close>: from a state with \<open>I\<close>, \<open>m\<close> ends in one with \<open>I\<close>, and its value satisfies
  \<open>P\<close>, its exception \<open>E\<close>.
\<close>

definition triple :: "(spine \<Rightarrow> bool) \<Rightarrow> 'a act \<Rightarrow> ('a \<Rightarrow> bool) \<Rightarrow> (exn \<Rightarrow> bool) \<Rightarrow> bool" where
  "triple I m P E \<longleftrightarrow>
     (\<forall>s r s'. I s \<longrightarrow> m s = (r, s') \<longrightarrow> I s' \<and> (case r of Inl e \<Rightarrow> E e | Inr x \<Rightarrow> P x))"

lemma tripleI:
  "(\<And>s r s'. I s \<Longrightarrow> m s = (r, s') \<Longrightarrow> I s' \<and> (case r of Inl e \<Rightarrow> E e | Inr x \<Rightarrow> P x)) \<Longrightarrow> triple I m P E"
  unfolding triple_def by blast

lemma tripleD:
  assumes "triple I m P E" and "I s" and "m s = (r, s')"
  shows "I s'" and "r = Inl e \<Longrightarrow> E e" and "r = Inr x \<Longrightarrow> P x"
  using assms unfolding triple_def by force+

lemma triple_bind:
  assumes m: "triple I m Q E" and f: "\<And>x. Q x \<Longrightarrow> triple I (f x) P E"
  shows "triple I (act_bind m f) P E"
proof (rule tripleI)
  fix s r s' assume I: "I s" and b: "act_bind m f s = (r, s')"
  obtain r1 s1 where ms: "m s = (r1, s1)" by fastforce
  have I1: "I s1" using m I ms by (rule tripleD(1))
  show "I s' \<and> (case r of Inl e \<Rightarrow> E e | Inr x \<Rightarrow> P x)"
  proof (cases r1)
    case (Inl e)
    then have "E e" using tripleD(2) [OF m I ms] by simp
    then show ?thesis using Inl b I1 ms by (auto simp: act_bind_def)
  next
    case (Inr x)
    then have "Q x" using tripleD(3) [OF m I ms] by simp
    note fx = f [OF this]
    have "f x s1 = (r, s')" using b ms Inr by (simp add: act_bind_def)
    with fx I1 show ?thesis unfolding triple_def by blast
  qed
qed

lemma triple_pure: "(\<And>s. I s \<Longrightarrow> case r s of Inl e \<Rightarrow> E e | Inr x \<Rightarrow> P x) \<Longrightarrow> triple I (\<lambda>s. (r s, s)) P E"
  unfolding triple_def by auto

lemma triple_return: "P x \<Longrightarrow> triple I (act_return x) P E"
  unfolding act_return_def by (rule triple_pure) simp

lemma triple_try:
  assumes m: "triple I m Q F" and f: "\<And>x. Q x \<Longrightarrow> triple I (f x) P E"
    and h: "\<And>e. F e \<Longrightarrow> p e \<Longrightarrow> triple I (h e) P E" and n: "\<And>e. F e \<Longrightarrow> \<not> p e \<Longrightarrow> E e"
  shows "triple I (\<lambda>s. case m s of (Inr x, s') \<Rightarrow> f x s' | (Inl e, s') \<Rightarrow> if p e then h e s' else (Inl e, s')) P E"
proof (rule tripleI)
  fix s r s' assume I: "I s"
    and b: "(case m s of (Inr x, s') \<Rightarrow> f x s' | (Inl e, s') \<Rightarrow> if p e then h e s' else (Inl e, s')) = (r, s')"
  obtain r1 s1 where ms: "m s = (r1, s1)" by fastforce
  have I1: "I s1" using m I ms by (rule tripleD(1))
  show "I s' \<and> (case r of Inl e \<Rightarrow> E e | Inr x \<Rightarrow> P x)"
  proof (cases r1)
    case (Inl e)
    then have F: "F e" using tripleD(2) [OF m I ms] by simp
    show ?thesis
    proof (cases "p e")
      case True
      then have "h e s1 = (r, s')" using b ms Inl by simp
      with h [OF F True] I1 show ?thesis unfolding triple_def by blast
    next
      case False
      then show ?thesis using b ms Inl n [OF F False] I1 by auto
    qed
  next
    case (Inr x)
    then have "Q x" using tripleD(3) [OF m I ms] by simp
    note fx = f [OF this]
    have "f x s1 = (r, s')" using b ms Inr by simp
    with fx I1 show ?thesis unfolding triple_def by blast
  qed
qed

lemma triple_weaken: "triple I m P E \<Longrightarrow> (\<And>x. P x \<Longrightarrow> Q x) \<Longrightarrow> triple I m Q E"
  unfolding triple_def by (metis sum.case_eq_if)

lemma triple_widen: "triple I m P E \<Longrightarrow> (\<And>e. E e \<Longrightarrow> E' e) \<Longrightarrow> triple I m P E'"
  unfolding triple_def by (metis sum.case_eq_if)

lemma triple_returns:
  assumes "triple I m P E" and "\<And>s x s'. m s = (Inr x, s') \<Longrightarrow> Q x"
  shows "triple I m Q E"
  unfolding triple_def
proof (intro allI impI)
  fix s r s' assume I: "I s" and m: "m s = (r, s')"
  from tripleD [OF assms(1) I m] assms(2) m show "I s' \<and> (case r of Inl e \<Rightarrow> E e | Inr x \<Rightarrow> Q x)"
    by (cases r) auto
qed

lemma triple_quiet:
  assumes "quiet m" and "\<And>s t. I s \<Longrightarrow> steady s t \<Longrightarrow> I t"
    and "\<And>s e s'. I s \<Longrightarrow> m s = (Inl e, s') \<Longrightarrow> E e" and "\<And>s x s'. I s \<Longrightarrow> m s = (Inr x, s') \<Longrightarrow> P x"
  shows "triple I m P E"
proof (rule tripleI)
  fix s r s' assume "I s" and m: "m s = (r, s')"
  then show "I s' \<and> (case r of Inl e \<Rightarrow> E e | Inr x \<Rightarrow> P x)"
    using assms(2) [OF _ quietD [OF assms(1) m]] assms(3,4) by (cases r) auto
qed

section \<open>Records that fit\<close>

text \<open>
  A text of at most \<open>2 ^ 16\<close> characters is small.  When every text that enters a run is small, each
  record written after the handler call stays below the 16 MiB limit, so that the only exceptions
  left are those of the operating system.
\<close>

definition small :: "string \<Rightarrow> bool" where
  "small s \<longleftrightarrow> length s \<le> 65536"

definition small_env :: "env \<Rightarrow> bool" where
  "small_env env \<longleftrightarrow> (\<forall>n. small (en_uuid env n) \<and> small (en_now env n) \<and>
     (\<forall>e. en_open env n = Some e \<or> en_write env n = Some e \<longrightarrow> exn_class e = PyOSError \<and> small (exn_message e)))"

fun small_outcome :: "handler_outcome \<Rightarrow> bool" where
  "small_outcome (Artifact a) = (small (ar_path a) \<and> small (ar_sha256 a))"
| "small_outcome (Unknown u) = (small (ou_message u) \<and>
     weight_members (map (\<lambda>(k, v). (k, JStr v)) (ou_external_identifiers u)) \<le> 262144)"
| "small_outcome (Raised t m) = (small t \<and> small m)"
| "small_outcome Interrupted = True"

definition small_capability :: "capability \<Rightarrow> bool" where
  "small_capability c \<longleftrightarrow> small (cap_id c) \<and> small (cap_version c) \<and> small (cap_risk c) \<and>
     weight (jstrs (cap_permissions c)) \<le> 262144"

definition small_prov :: "provenance option \<Rightarrow> bool" where
  "small_prov prov \<longleftrightarrow> (case prov of None \<Rightarrow> True | Some p \<Rightarrow> weight (provenance_to_dict p) \<le> 2097152)"

definition small_config :: "spine \<Rightarrow> bool" where
  "small_config s \<longleftrightarrow> small (pc_task_id (sp_core s)) \<and>
     (\<forall>(i, c) \<in> set (sp_registry s). small_capability c) \<and>
     (\<forall>(i, h) \<in> set (xr_handlers (sp_executors s)). \<forall>n p. small_outcome (h n p))"

definition small_packet :: "mandala_packet \<Rightarrow> bool" where
  "small_packet p \<longleftrightarrow> small (mp_packet_id p) \<and> small (mp_task_id p) \<and> small (mp_contract_version p)"

definition small_envelope :: "'a receipt_envelope_scheme \<Rightarrow> bool" where
  "small_envelope r \<longleftrightarrow> small (re_receipt_id r) \<and> small (re_packet_id r) \<and> small (re_task_id r) \<and>
     small (re_produced_by r) \<and> small (re_timestamp_utc r) \<and> small (re_contract_version r) \<and>
     (\<forall>p. re_parent_receipt_id r = Some p \<longrightarrow> small p)"

lemma weight_members_append [simp]: "weight_members (a @ b) = weight_members a + weight_members b"
  by (simp add: weight_members_sum)

lemma length_mandala_status: "length (mandala_status_value st) \<le> 11"
  by (cases st) simp_all

lemma weight_jopt: "(\<And>p. x = Some p \<Longrightarrow> length p \<le> n) \<Longrightarrow> weight (jopt x) \<le> 4 + 6 * n"
  by (cases x) auto

lemma weight_envelope:
  assumes "small_envelope r" and "length t \<le> 100"
  shows "weight_members (envelope_items t r) \<le> 2800000"
proof -
  have "weight (jopt (re_parent_receipt_id r)) \<le> 4 + 6 * 65536"
    using assms(1) by (intro weight_jopt) (simp add: small_envelope_def small_def)
  then show ?thesis
    using assms length_mandala_status [of "re_status r"]
    by (simp add: envelope_items_def small_envelope_def small_def)
qed

lemma weight_members_filter: "weight (jstrs (filter p xs)) \<le> weight (jstrs xs)"
  by (induction xs) auto

section \<open>After the handler\<close>

definition posted :: "spine \<Rightarrow> bool" where
  "posted s \<longleftrightarrow> readable (sp_mandala s) \<and> readable (rl_receipts (sp_ledger s))"

definition os_fault :: "exn \<Rightarrow> bool" where
  "os_fault e \<longleftrightarrow> exn_class e = PyOSError \<and> small (exn_message e)"

text \<open>An exception the operating system answers with somewhere.\<close>

definition env_fault :: "env \<Rightarrow> exn \<Rightarrow> bool" where
  "env_fault env e \<longleftrightarrow> (\<exists>n. en_open env n = Some e \<or> en_write env n = Some e)"

lemma env_fault_os: "small_env env \<Longrightarrow> env_fault env e \<Longrightarrow> os_fault e"
  by (auto simp: small_env_def env_fault_def os_fault_def)

lemma posted_steady: "posted s \<Longrightarrow> steady s t \<Longrightarrow> posted t"
  by (simp add: posted_def steady_def)

definition fits :: "(string \<times> json) list \<Rightarrow> bool" where
  "fits p \<longleftrightarrow> 2 * (weight (JObj p) + 1) \<le> MAX_RECORD_BYTES"

lemma append_posted_error:
  assumes "append_jsonl opf wrf f p None = (Inl e, f')" and "fits p" and "readable f"
  shows "opf = Some e \<or> wrf = Some e"
proof -
  have "\<exists>data. sio_encode p = Inr data" using assms(2) unfolding fits_def by (rule sio_encode_fits)
  moreover have "sio_rows ls \<noteq> Inl e" if "f = Some ls" for ls
    using assms(3) that by (auto simp: readable_def read_jsonl_def)
  ultimately show ?thesis using append_plain_error [OF assms(1)] by auto
qed

lemma triple_mandala_append:
  assumes env: "small_env env" and "fits p"
  shows "triple posted (mandala_append env p) (\<lambda>_. True) (env_fault env)"
proof (rule triple_quiet [OF quiet_mandala_append posted_steady])
  fix s e s' assume pre: "posted s" and "mandala_append env p s = (Inl e, s')"
  then obtain f where a: "append_jsonl (en_open env (sp_io s)) (en_write env (sp_io s)) (sp_mandala s) p None = (Inl e, f)"
    by (cases "append_jsonl (en_open env (sp_io s)) (en_write env (sp_io s)) (sp_mandala s) p None")
      (auto simp: mandala_append_def ml_append_def discard_def rbind_Inl_iff)
  have "readable (sp_mandala s)" using pre by (simp add: posted_def)
  from append_posted_error [OF a assms(2) this] show "env_fault env e"
    by (auto simp: env_fault_def)
qed simp_all

lemma triple_ledger_append:
  assumes env: "small_env env" and "fits (xc_to_dict x)"
  shows "triple posted (with_ledger env (\<lambda>opf wrf. rl_append opf wrf x)) (\<lambda>_. True) (env_fault env)"
proof (rule triple_quiet [OF quiet_ledger_append posted_steady])
  fix s e s' assume pre: "posted s" and "with_ledger env (\<lambda>opf wrf. rl_append opf wrf x) s = (Inl e, s')"
  then obtain f where a: "append_jsonl (en_open env (sp_io s)) (en_write env (sp_io s)) (rl_receipts (sp_ledger s))
      (xc_to_dict x) None = (Inl e, f)"
    by (cases "append_jsonl (en_open env (sp_io s)) (en_write env (sp_io s)) (rl_receipts (sp_ledger s)) (xc_to_dict x) None")
      (auto simp: with_ledger_def rl_append_def discard_def rbind_Inl_iff)
  have "readable (rl_receipts (sp_ledger s))" using pre by (simp add: posted_def)
  from append_posted_error [OF a assms(2) this] show "env_fault env e"
    by (auto simp: env_fault_def)
qed simp_all

lemma triple_draw:
  assumes env: "small_env env"
  shows "triple posted (draw_uuid env) small E" "triple posted (draw_now env) small E"
  by (rule triple_quiet [OF _ posted_steady];
      use env in \<open>auto simp: draw_uuid_def draw_now_def small_env_def intro: quiet_draw [unfolded draw_uuid_def draw_now_def]\<close>)+

lemma triple_meta:
  assumes env: "small_env env" and "small_packet packet" and "length by' \<le> 100"
    and "\<And>p. parent = Some p \<Longrightarrow> small p"
  shows "triple posted (meta env packet st by' parent) small_envelope E"
  unfolding meta_def
  by (rule triple_bind [OF triple_draw(1) [OF env]], rule triple_bind [OF triple_draw(2) [OF env]], rule triple_return)
    (use assms(2-4) in \<open>simp add: receipt_meta_def small_envelope_def small_packet_def small_def\<close>)

lemma small_extend [simp]:
  "small_envelope (receipt_envelope.extend m x) = small_envelope m"
  "re_receipt_id (receipt_envelope.extend m x) = re_receipt_id m"
  "re_status (receipt_envelope.extend m x) = re_status m"
  by (simp_all add: small_envelope_def receipt_envelope.extend_def)

text \<open>What is small about the action receipt every branch writes.\<close>

definition fitting_action :: "action_receipt \<Rightarrow> bool" where
  "fitting_action a \<longleftrightarrow> small_envelope a \<and> fits (acr_to_dict a)"

lemma fits_action:
  assumes "small_envelope a" and "weight (jstrs (acr_approved_grant a)) \<le> 262144"
    and "weight_members (acr_side_effect a) \<le> 400000" and "length (acr_outcome a) \<le> 100"
    and "weight_members (map (\<lambda>(k, v). (k, JStr v)) (acr_external_identifiers a)) \<le> 1000000"
  shows "fits (acr_to_dict a)"
  using weight_envelope [OF assms(1), of "''ActionReceipt''"] assms(2-)
  by (simp add: fits_def acr_to_dict_def MAX_RECORD_BYTES_def)

lemma weight_granted:
  "weight (jstrs (cap_permissions c)) \<le> 262144 \<Longrightarrow> weight (jstrs (pd_granted (pg_evaluate al c))) \<le> 262144"
  unfolding pg_evaluate_def Let_def permission_decision.simps by (rule order_trans [OF weight_members_filter])

lemma triple_make_action:
  assumes env: "small_env env" and c: "small_capability c" and "small_packet packet" and "small parent"
    and "weight (jstrs granted) \<le> 262144" and "length outcome \<le> 100"
    and "weight_members (map (\<lambda>(k, v). (k, JStr v)) ids) \<le> 1000000"
  shows "triple posted (make_action_receipt env packet st (Some parent) granted
     [(''capability_id'', JStr (cap_id c))] outcome ids) fitting_action E"
  unfolding make_action_receipt_def
proof (intro triple_bind triple_return)
  show "triple posted (meta env packet st ''phios.action_gate'' (Some parent)) small_envelope E"
    by (rule triple_meta [OF env assms(3)]) (use assms(4) in simp_all)
next
  fix m :: receipt_envelope assume m: "small_envelope m"
  show "fitting_action (receipt_envelope.extend m (action_receipt.fields granted
      [(''capability_id'', JStr (cap_id c))] outcome ids))"
    unfolding fitting_action_def using m assms
    by (intro conjI fits_action)
      (simp_all add: receipt_envelope.extend_def action_receipt.fields_def small_capability_def small_def small_envelope_def)
qed

text \<open>The execution receipt while a run fills it in.\<close>

definition fitting_receipt :: "execution_receipt \<Rightarrow> bool" where
  "fitting_receipt r \<longleftrightarrow> length (xc_schema_version r) \<le> 100 \<and> small (xc_receipt_id r) \<and> small (xc_timestamp_utc r) \<and>
     small (xc_capability_id r) \<and> length (xc_planner r) \<le> 100 \<and> length (xc_input_sha256 r) \<le> 100 \<and>
     weight (jstrs (xc_permissions_requested r)) \<le> 262144 \<and> length (xc_permission_status r) \<le> 100 \<and>
     length (xc_execution_status r) \<le> 100 \<and> (\<forall>p. xc_artifact_path r = Some p \<longrightarrow> small p) \<and>
     (\<forall>p. xc_artifact_sha256 r = Some p \<longrightarrow> small p) \<and> (\<forall>p. xc_error r = Some p \<longrightarrow> length p \<le> 131200) \<and>
     (\<forall>p. xc_packet_id r = Some p \<longrightarrow> small p) \<and> (\<forall>p. xc_gate_receipt_id r = Some p \<longrightarrow> small p) \<and>
     (\<forall>p. xc_action_receipt_id r = Some p \<longrightarrow> small p) \<and> (\<forall>p. xc_mandala_status r = Some p \<longrightarrow> length p \<le> 100) \<and>
     small_prov (xc_governed_provenance r) \<and> length (xc_reconciliation_status r) \<le> 100 \<and>
     xc_reconciliation_receipt_sha256 r = None"

lemma fits_receipt:
  assumes r: "fitting_receipt r"
  shows "fits (xc_to_dict r)"
proof -
  have o: "weight (jopt (xc_artifact_path r)) \<le> 4 + 6 * 65536" "weight (jopt (xc_artifact_sha256 r)) \<le> 4 + 6 * 65536"
    "weight (jopt (xc_error r)) \<le> 4 + 6 * 131200" "weight (jopt (xc_packet_id r)) \<le> 4 + 6 * 65536"
    "weight (jopt (xc_gate_receipt_id r)) \<le> 4 + 6 * 65536" "weight (jopt (xc_action_receipt_id r)) \<le> 4 + 6 * 65536"
    "weight (jopt (xc_mandala_status r)) \<le> 4 + 6 * 100"
    by (rule weight_jopt; use r in \<open>simp add: fitting_receipt_def small_def\<close>)+
  have p: "weight (case xc_governed_provenance r of None \<Rightarrow> JNull | Some p \<Rightarrow> provenance_to_dict p) \<le> 2097152"
    using r by (auto simp: fitting_receipt_def small_prov_def split: option.splits)
  have e: "weight (case xc_effect_confirmed r of None \<Rightarrow> JNull | Some b \<Rightarrow> JBool b) \<le> 5"
    by (simp split: option.split)
  show ?thesis
    using r o p e by (simp add: fits_def xc_to_dict_def MAX_RECORD_BYTES_def fitting_receipt_def small_def)
qed

text \<open>The fields a run settles before the handler is called.\<close>

definition same_request :: "execution_receipt \<Rightarrow> execution_receipt \<Rightarrow> bool" where
  "same_request r x \<longleftrightarrow> xc_capability_id x = xc_capability_id r \<and> xc_input_sha256 x = xc_input_sha256 r \<and>
     xc_permissions_requested x = xc_permissions_requested r \<and> xc_permission_status x = xc_permission_status r \<and>
     xc_governed_provenance x = xc_governed_provenance r \<and> xc_executor_entered x = xc_executor_entered r"

definition attempted :: "execution_receipt \<Rightarrow> execution_receipt \<Rightarrow> bool" where
  "attempted r x \<longleftrightarrow> same_request r x \<and> xc_execution_status x \<in> {''succeeded'', ''failed'', ''outcome_unknown''}"

lemma act_bindE:
  assumes "act_bind m f s = (r, s')"
  obtains (err) e where "m s = (Inl e, s')" and "r = Inl e"
  | (ok) x s1 where "m s = (Inr x, s1)" and "f x s1 = (r, s')"
  using assms unfolding act_bind_def by (cases "m s") (auto split: sum.splits)

lemma act_bind_pure: "act_bind (\<lambda>s. (Inr (f s), s)) g s = g (f s) s"
  by (simp add: act_bind_def)

text \<open>The receipt a path returns is the last row of the execution history.\<close>

definition logged :: "execution_receipt \<Rightarrow> spine \<Rightarrow> bool" where
  "logged x s \<longleftrightarrow> (\<exists>rows. read_jsonl None (rl_receipts (sp_ledger s)) = Inr (rows @ [stored (xc_to_dict x)]))"

lemma finish_logged:
  assumes "finish env r a s = (Inr x, s')"
  shows "logged x s'"
  using assms unfolding finish_def Let_def
proof (cases rule: act_bindE)
  case (ok u s1)
  then have x: "x = r\<lparr>xc_action_receipt_id := Some (re_receipt_id a), xc_mandala_status := Some (mandala_status_value (re_status a))\<rparr>"
    and s': "s' = s1" by (auto simp: act_return_def)
  have ap: "with_ledger env (\<lambda>opf wrf. rl_append opf wrf x) s = (Inr u, s')" using ok(1) unfolding x s' .
  obtain q l where l: "rl_append (en_open env (sp_io s)) (en_write env (sp_io s)) x (sp_ledger s) = (q, l)" by fastforce
  then have q: "q = Inr u" and sl: "sp_ledger s' = l" using ap by (auto simp: with_ledger_def)
  from l obtain q' f where f: "append_jsonl (en_open env (sp_io s)) (en_write env (sp_io s)) (rl_receipts (sp_ledger s))
      (xc_to_dict x) None = (q', f)" and "q = discard q'" and lf: "l = (sp_ledger s)\<lparr>rl_receipts := f\<rparr>"
    by (rule rl_append_cases)
  then have "discard q' = Inr u" using q by simp
  then obtain b where "q' = Inr b" unfolding discard_Ok_iff by blast
  with f obtain rows where "read_jsonl None f = Inr (rows @ [stored (xc_to_dict x)])" by (blast elim: append_plain_reads)
  then show ?thesis by (auto simp: logged_def sl lf)
qed simp

lemma finish_returns: "finish env r a s = (Inr x, s') \<Longrightarrow> same_request r x \<and> xc_execution_status x = xc_execution_status r"
  unfolding finish_def Let_def by (erule act_bindE) (auto simp: act_return_def same_request_def)

lemma triple_finish:
  assumes env: "small_env env" and "fitting_receipt r" and "fitting_action a"
  shows "triple posted (finish env r a) (\<lambda>_. True) (env_fault env)"
  unfolding finish_def Let_def
proof (rule triple_bind [OF triple_ledger_append [OF env] triple_return])
  show "fits (xc_to_dict (r\<lparr>xc_action_receipt_id := Some (re_receipt_id a),
      xc_mandala_status := Some (mandala_status_value (re_status a))\<rparr>))"
  proof (rule fits_receipt)
    have "length (mandala_status_value (re_status a)) \<le> 100"
      using length_mandala_status [of "re_status a"] by simp
    then show "fitting_receipt (r\<lparr>xc_action_receipt_id := Some (re_receipt_id a),
      xc_mandala_status := Some (mandala_status_value (re_status a))\<rparr>)"
      using assms(2,3) by (simp add: fitting_receipt_def fitting_action_def small_envelope_def)
  qed
qed simp

lemma length_exn_name: "length (exn_name k) \<le> 40"
  by (cases k) simp_all

lemma triple_run_failed:
  assumes env: "small_env env" and c: "small_capability c" and p: "small_packet packet" and g: "small_envelope gate"
    and r: "fitting_receipt r" and t: "length t \<le> 131200"
  shows "triple posted (run_failed env c packet (pg_evaluate al c) gate r t) (\<lambda>_. True) (env_fault env)"
  unfolding run_failed_def
proof (rule triple_bind)
  show "triple posted (make_action_receipt env packet ABORTED (Some (re_receipt_id gate)) (pd_granted (pg_evaluate al c))
      [(''capability_id'', JStr (cap_id c))] ''failed'' []) fitting_action (env_fault env)"
    by (rule triple_make_action [OF env c p])
      (use c g weight_granted [of c al] in \<open>simp_all add: small_capability_def small_envelope_def del: weight.simps\<close>)
next
  fix a assume a: "fitting_action a"
  have abort: "triple posted (make_abort_receipt env packet (Some (re_receipt_id a)) t) (\<lambda>b. fits (abr_to_dict b)) (env_fault env)"
    unfolding make_abort_receipt_def
  proof (rule triple_bind [OF triple_meta [OF env p] triple_return])
    fix m :: receipt_envelope assume m: "small_envelope m"
    have w: "weight_members (envelope_items ''AbortReceipt'' (receipt_envelope.extend m (abort_receipt.fields t [] []))) \<le> 2800000"
      by (rule weight_envelope) (use m in simp_all)
    then show "fits (abr_to_dict (receipt_envelope.extend m (abort_receipt.fields t [] [])))"
      using t by (simp add: fits_def abr_to_dict_def MAX_RECORD_BYTES_def receipt_envelope.extend_def abort_receipt.fields_def)
  qed (use a in \<open>auto simp: fitting_action_def small_envelope_def\<close>)
  have fin: "triple posted (finish env (r\<lparr>xc_execution_status := ''failed'', xc_error := Some t\<rparr>) a) (\<lambda>_. True) (env_fault env)"
    by (rule triple_finish [OF env _ a]) (use r t in \<open>simp add: fitting_receipt_def\<close>)
  have "fits (acr_to_dict a)" using a by (simp add: fitting_action_def)
  show "triple posted (act_bind (mandala_append env (acr_to_dict a)) (\<lambda>_.
      act_bind (make_abort_receipt env packet (Some (re_receipt_id a)) t) (\<lambda>abort.
      act_bind (mandala_append env (abr_to_dict abort)) (\<lambda>_.
      finish env (r\<lparr>xc_execution_status := ''failed'', xc_error := Some t\<rparr>) a)))) (\<lambda>_. True) (env_fault env)"
  proof (rule triple_bind [OF triple_mandala_append [OF env \<open>fits (acr_to_dict a)\<close>]], rule triple_bind [OF abort])
    fix b assume "fits (abr_to_dict b)"
    from triple_bind [OF triple_mandala_append [OF env this] fin]
    show "triple posted (act_bind (mandala_append env (abr_to_dict b)) (\<lambda>_.
        finish env (r\<lparr>xc_execution_status := ''failed'', xc_error := Some t\<rparr>) a)) (\<lambda>_. True) (env_fault env)" .
  qed
qed

lemma triple_run_unknown:
  assumes env: "small_env env" and c: "small_capability c" and p: "small_packet packet" and g: "small_envelope gate"
    and r: "fitting_receipt r" and u: "small_outcome (Unknown u)"
  shows "triple posted (run_unknown env c packet (pg_evaluate al c) gate r u) (\<lambda>_. True) (env_fault env)"
  unfolding run_unknown_def
proof (rule triple_bind)
  show "triple posted (make_action_receipt env packet UNKNOWN (Some (re_receipt_id gate)) (pd_granted (pg_evaluate al c))
      [(''capability_id'', JStr (cap_id c))] ''outcome_unknown'' (ou_external_identifiers u)) fitting_action (env_fault env)"
    by (rule triple_make_action [OF env c p])
      (use c g u weight_granted [of c al] in \<open>simp_all add: small_capability_def small_envelope_def del: weight.simps\<close>)
next
  fix a assume a: "fitting_action a"
  have fin: "triple posted (finish env (r\<lparr>xc_execution_status := ''outcome_unknown'', xc_reconciliation_status := ''required'',
       xc_error := Some (''OutcomeUnknownError: '' @ ou_message u)\<rparr>) a) (\<lambda>_. True) (env_fault env)"
    by (rule triple_finish [OF env _ a]) (use r u in \<open>simp add: fitting_receipt_def small_def\<close>)
  have "fits (acr_to_dict a)" using a by (simp add: fitting_action_def)
  from triple_bind [OF triple_mandala_append [OF env this] fin]
  show "triple posted (act_bind (mandala_append env (acr_to_dict a)) (\<lambda>_.
      finish env (r\<lparr>xc_execution_status := ''outcome_unknown'', xc_reconciliation_status := ''required'',
       xc_error := Some (''OutcomeUnknownError: '' @ ou_message u)\<rparr>) a)) (\<lambda>_. True) (env_fault env)" .
qed

lemma triple_run_succeeded:
  assumes env: "small_env env" and c: "small_capability c" and p: "small_packet packet" and g: "small_envelope gate"
    and r: "fitting_receipt r" and a: "small_outcome (Artifact a)"
  shows "triple posted (run_succeeded env c packet (pg_evaluate al c) gate r a)
    (\<lambda>x. xc_execution_status x = ''succeeded'' \<or> (\<exists>e. env_fault env e)) (env_fault env)"
  unfolding run_succeeded_def Let_def
proof (rule triple_try)
  let ?r = "r\<lparr>xc_execution_status := ''succeeded'', xc_artifact_path := Some (ar_path a), xc_artifact_sha256 := Some (ar_sha256 a)\<rparr>"
  have r': "fitting_receipt ?r" using r a by (simp add: fitting_receipt_def)
  have act: "triple posted (make_action_receipt env packet ACCEPTED (Some (re_receipt_id gate)) (pd_granted (pg_evaluate al c))
      [(''capability_id'', JStr (cap_id c))] ''succeeded'' [(''artifact_path'', ar_path a), (''artifact_sha256'', ar_sha256 a)])
      fitting_action (env_fault env)"
  proof (rule triple_make_action [OF env c p])
    show "small (re_receipt_id gate)" using g by (simp add: small_envelope_def)
    show "weight (jstrs (pd_granted (pg_evaluate al c))) \<le> 262144"
      by (rule weight_granted) (use c in \<open>simp only: small_capability_def\<close>)
    show "weight_members (map (\<lambda>(k, v). (k, JStr v)) [(''artifact_path'', ar_path a), (''artifact_sha256'', ar_sha256 a)]) \<le> 1000000"
      using a by (simp add: small_def)
  qed simp
  show "triple posted (act_bind (make_action_receipt env packet ACCEPTED (Some (re_receipt_id gate)) (pd_granted (pg_evaluate al c))
      [(''capability_id'', JStr (cap_id c))] ''succeeded'' [(''artifact_path'', ar_path a), (''artifact_sha256'', ar_sha256 a)])
      (\<lambda>action. act_bind (mandala_append env (acr_to_dict action)) (\<lambda>_. act_return action))) fitting_action (env_fault env)"
  proof (rule triple_bind [OF act])
    fix action assume f: "fitting_action action"
    then have "fits (acr_to_dict action)" by (simp add: fitting_action_def)
    then show "triple posted (act_bind (mandala_append env (acr_to_dict action)) (\<lambda>_. act_return action)) fitting_action (env_fault env)"
      by (intro triple_bind [OF triple_mandala_append [OF env]] triple_return f)
  qed
  show "triple posted (finish env ?r action) (\<lambda>x. xc_execution_status x = ''succeeded'' \<or> (\<exists>e. env_fault env e)) (env_fault env)"
    if "fitting_action action" for action
    by (rule triple_returns [OF triple_finish [OF env r' that]]) (drule finish_returns, simp)
  show "triple posted (run_failed env c packet (pg_evaluate al c) gate ?r (exn_text e))
      (\<lambda>x. xc_execution_status x = ''succeeded'' \<or> (\<exists>e. env_fault env e)) (env_fault env)"
    if "env_fault env e" for e
  proof (rule triple_weaken [OF triple_run_failed [OF env c p g r']])
    show "xc_execution_status x = ''succeeded'' \<or> (\<exists>e. env_fault env e)" for x :: execution_receipt using that by blast
    show "length (exn_text e) \<le> 131200"
      using env_fault_os [OF env that] length_exn_name [of "exn_class e"] by (simp add: exn_text_def os_fault_def small_def)
  qed
qed

text \<open>What can still escape after the handler call.\<close>

definition escapes :: "env \<Rightarrow> handler_outcome \<Rightarrow> exn \<Rightarrow> bool" where
  "escapes env out e \<longleftrightarrow> env_fault env e \<or> (out = Interrupted \<and> exn_class e = PyInterrupt)"

section \<open>What a run returns\<close>

lemma run_failed_returns: "run_failed env c packet d gate r t s = (Inr x, s') \<Longrightarrow> attempted r x \<and> xc_execution_status x = ''failed''"
  unfolding run_failed_def
  by (elim act_bindE; (simp; fail)?) (auto dest!: finish_returns simp: attempted_def same_request_def)

lemma run_unknown_returns: "run_unknown env c packet d gate r u s = (Inr x, s') \<Longrightarrow> attempted r x \<and> xc_execution_status x = ''outcome_unknown''"
  unfolding run_unknown_def
  by (elim act_bindE; (simp; fail)?) (auto dest!: finish_returns simp: attempted_def same_request_def)

text \<open>The execution status a handler's outcome stands for.\<close>

fun outcome_status :: "handler_outcome \<Rightarrow> string" where
  "outcome_status (Artifact a) = ''succeeded''"
| "outcome_status (Unknown u) = ''outcome_unknown''"
| "outcome_status (Raised t m) = ''failed''"
| "outcome_status Interrupted = []"

lemma triple_after_handler:
  assumes env: "small_env env" and c: "small_capability c" and p: "small_packet packet" and g: "small_envelope gate"
    and r: "fitting_receipt r" and out: "small_outcome out"
  shows "triple posted (after_handler env c packet (pg_evaluate al c) gate r (Inr out))
    (\<lambda>x. xc_execution_status x = outcome_status out \<or> (\<exists>e. env_fault env e)) (escapes env out)"
proof -
  have weaken: "triple posted m P (env_fault env) \<Longrightarrow> triple posted m P (escapes env out)" for m :: "execution_receipt act" and P
    by (erule triple_widen) (simp add: escapes_def)
  show ?thesis
  proof (cases out)
    case (Artifact a)
    then show ?thesis using weaken triple_run_succeeded [OF env c p g r, of a al] out by (simp add: after_handler_def)
  next
    case (Unknown u)
    then have "triple posted (run_unknown env c packet (pg_evaluate al c) gate r u)
        (\<lambda>x. xc_execution_status x = ''outcome_unknown'' \<or> (\<exists>e. env_fault env e)) (env_fault env)"
      using out by (intro triple_returns [OF triple_run_unknown [OF env c p g r]]) (simp, drule run_unknown_returns, simp)
    then show ?thesis using weaken Unknown by (simp add: after_handler_def)
  next
    case (Raised t m)
    then have "length (t @ '': '' @ m) \<le> 131200" using out by (simp add: small_def)
    then have "triple posted (run_failed env c packet (pg_evaluate al c) gate r (t @ '': '' @ m))
        (\<lambda>x. xc_execution_status x = ''failed'' \<or> (\<exists>e. env_fault env e)) (env_fault env)"
      by (rule triple_returns [OF triple_run_failed [OF env c p g r]]) (drule run_failed_returns, simp)
    then show ?thesis using weaken Raised by (simp add: after_handler_def)
  next
    case Interrupted
    then show ?thesis by (simp add: after_handler_def act_result_def triple_pure escapes_def)
  qed
qed

lemma run_succeeded_returns:
  assumes "run_succeeded env c packet d gate r a s = (Inr x, s')"
  shows "attempted r x"
  using assms unfolding run_succeeded_def Let_def
  by (auto split: prod.splits sum.splits if_splits dest!: finish_returns run_failed_returns
      simp: attempted_def same_request_def)

lemma after_handler_returns: "after_handler env c packet d gate r out s = (Inr x, s') \<Longrightarrow> attempted r x"
  unfolding after_handler_def act_result_def
  by (auto split: sum.splits handler_outcome.splits
      dest: run_failed_returns run_unknown_returns run_succeeded_returns)

text \<open>A run that reached no executor.\<close>

definition refused_receipt :: "string \<Rightarrow> payload \<Rightarrow> provenance option \<Rightarrow> execution_receipt \<Rightarrow> bool" where
  "refused_receipt cid payload prov x \<longleftrightarrow> xc_permission_status x = ''denied'' \<and> xc_execution_status x = ''not_executed'' \<and>
     \<not> xc_executor_entered x \<and> xc_governed_provenance x = prov \<and> xc_input_sha256 x = hash_payload payload"

definition started_receipt :: "capability \<Rightarrow> payload \<Rightarrow> provenance option \<Rightarrow> execution_receipt \<Rightarrow> bool" where
  "started_receipt c payload prov x \<longleftrightarrow> xc_permission_status x = ''allowed'' \<and> xc_governed_provenance x = prov \<and>
     xc_input_sha256 x = hash_payload payload \<and> xc_permissions_requested x = cap_permissions c \<and>
     xc_capability_id x = cap_id c"

lemma make_receipt_returns:
  assumes "make_receipt env c plan rq ps packet gate prov er s = (Inr x, s')"
  shows "xc_permission_status x = ps \<and> xc_execution_status x = ''not_executed'' \<and> \<not> xc_executor_entered x \<and>
    xc_governed_provenance x = prov \<and> xc_input_sha256 x = hash_payload (plan_payload plan) \<and>
    xc_permissions_requested x = rq \<and> xc_capability_id x = cap_id c"
    and "small_env env \<Longrightarrow> small_capability c \<Longrightarrow> small_packet packet \<Longrightarrow> small_envelope gate \<Longrightarrow> small_prov prov \<Longrightarrow>
      length (plan_planner plan) \<le> 100 \<Longrightarrow> length ps \<le> 100 \<Longrightarrow> rq = cap_permissions c \<Longrightarrow> er = None \<Longrightarrow> fitting_receipt x"
proof -
  from assms obtain fresh now where f: "fresh = en_uuid env (sp_uuids s)" "now = en_now env (sp_clock s)"
    and x: "x = \<lparr>xc_schema_version = ''phios.execution_receipt.v0.1'', xc_receipt_id = fresh, xc_timestamp_utc = now,
        xc_capability_id = cap_id c, xc_planner = plan_planner plan, xc_input_sha256 = hash_payload (plan_payload plan),
        xc_permissions_requested = rq, xc_permission_status = ps,
        xc_execution_status = ''not_executed'', xc_artifact_path = None, xc_artifact_sha256 = None, xc_error = er,
        xc_packet_id = Some (mp_packet_id packet), xc_gate_receipt_id = Some (re_receipt_id gate),
        xc_action_receipt_id = None, xc_mandala_status = None, xc_governed_provenance = prov,
        xc_executor_entered = False, xc_reconciliation_status = ''not_required'', xc_effect_confirmed = None,
        xc_reconciliation_receipt_sha256 = None\<rparr>"
    unfolding make_receipt_def by (auto simp: act_bind_def draw_uuid_def draw_now_def act_return_def)
  show "xc_permission_status x = ps \<and> xc_execution_status x = ''not_executed'' \<and> \<not> xc_executor_entered x \<and>
    xc_governed_provenance x = prov \<and> xc_input_sha256 x = hash_payload (plan_payload plan) \<and>
    xc_permissions_requested x = rq \<and> xc_capability_id x = cap_id c"
    unfolding x by simp
  assume "small_env env" "small_capability c" "small_packet packet" "small_envelope gate" "small_prov prov"
    "length (plan_planner plan) \<le> 100" "length ps \<le> 100" "rq = cap_permissions c" "er = None"
  moreover have "length (hash_payload (plan_payload plan)) = 64"
    using canonical_sha256_is_sha256 by (simp add: hash_payload_def is_sha256_def)
  ultimately show "fitting_receipt x"
    unfolding x fitting_receipt_def f
    by (simp add: small_env_def small_capability_def small_packet_def small_envelope_def)
qed

lemma run_blocked_returns:
  "run_blocked env c plan packet effect prov s = (Inr x, s') \<Longrightarrow> refused_receipt cid (plan_payload plan) prov x"
  unfolding run_blocked_def
  by (elim act_bindE; (simp; fail)?) (auto dest!: finish_returns make_receipt_returns(1) simp: refused_receipt_def same_request_def)

lemma run_denied_returns:
  "run_denied env c packet d gate r s = (Inr x, s') \<Longrightarrow> same_request r x \<and> xc_execution_status x = xc_execution_status r"
  unfolding run_denied_def
  by (elim act_bindE; (simp; fail)?) (auto dest!: finish_returns simp: same_request_def)

lemma meta_returns:
  assumes "meta env packet st by' parent s = (Inr m, s')"
  shows "re_status m = st" and "small_env env \<Longrightarrow> small (re_receipt_id m)"
    and "small_env env \<Longrightarrow> small_packet packet \<Longrightarrow> length by' \<le> 100 \<Longrightarrow> (\<And>p. parent = Some p \<Longrightarrow> small p) \<Longrightarrow> small_envelope m"
proof -
  have m: "m = receipt_meta (en_uuid env (sp_uuids s)) (en_now env (sp_clock s)) packet st by' parent"
    using assms by (simp add: meta_def act_bind_def draw_uuid_def draw_now_def act_return_def)
  show "re_status m = st" and "small_env env \<Longrightarrow> small (re_receipt_id m)"
    and "small_env env \<Longrightarrow> small_packet packet \<Longrightarrow> length by' \<le> 100 \<Longrightarrow> (\<And>p. parent = Some p \<Longrightarrow> small p) \<Longrightarrow> small_envelope m"
    unfolding m receipt_meta_def small_env_def small_packet_def small_envelope_def small_def by simp_all
qed

lemma make_gate_small:
  assumes "make_gate_receipt env packet al re pa s = (Inr gate, s')" and "small_env env" and "small_packet packet"
    and "\<And>p. pa = Some p \<Longrightarrow> small p"
  shows "small_envelope gate"
  using assms(1) unfolding make_gate_receipt_def
proof (cases rule: act_bindE)
  case (ok m s1)
  then show ?thesis using meta_returns(3) [OF ok(1) assms(2,3)] assms(4) by (auto simp: act_return_def)
qed simp

lemma effect_receipt_of_envelope:
  "small_envelope (effect_receipt_of m d) = small_envelope m" "re_status (effect_receipt_of m d) = re_status m"
  "re_receipt_id (effect_receipt_of m d) = re_receipt_id m"
  by (simp_all add: effect_receipt_of_def Let_def small_envelope_def receipt_envelope.extend_def)

lemma effect_receipt_returns:
  assumes "effect_receipt env packet c s = (Inr effect, s')"
  obtains d where "eb_evaluate c (recorded_effects (sp_executors s) (cap_id c)) = Inr d"
    and "re_status effect = (if eb_allowed d then ACCEPTED else BLOCKED)"
    and "small_env env \<Longrightarrow> small (re_receipt_id effect)"
  using assms(1) unfolding effect_receipt_def
proof (cases rule: act_bindE)
  case (ok d s1)
  note d = ok(1)
  from ok(2) show thesis
  proof (cases rule: act_bindE)
    case (ok m s2)
    note m = meta_returns [OF ok(1)]
    have e: "effect = effect_receipt_of m d" using ok(2) by (simp add: act_return_def)
    have "eb_evaluate c (recorded_effects (sp_executors s) (cap_id c)) = Inr d" using d by blast
    then show thesis using m(1,2) by (intro that) (simp_all add: e effect_receipt_of_envelope)
  qed simp
qed simp

lemma mandala_append_readable: "mandala_append env p s = (Inr u, s') \<Longrightarrow> readable (sp_mandala s')"
proof -
  assume m: "mandala_append env p s = (Inr u, s')"
  obtain q f where a: "append_jsonl (en_open env (sp_io s)) (en_write env (sp_io s)) (sp_mandala s) p None = (q, f)" by fastforce
  then have "discard q = Inr u" and s': "sp_mandala s' = f"
    using m by (auto simp: mandala_append_def ml_append_def)
  then obtain b where "q = Inr b" unfolding discard_Ok_iff by blast
  with a obtain rows where "read_jsonl None f = Inr (rows @ [stored p])" by (blast elim: append_plain_reads)
  then show ?thesis unfolding s' readable_def by blast
qed

text \<open>
  Every run either stays quiet, or enters exactly one handler in a state whose gate history is
  readable and then ends as \<open>after_handler\<close> says.
\<close>

definition entered_at ::
  "env \<Rightarrow> string \<Rightarrow> payload \<Rightarrow> provenance option \<Rightarrow> spine \<Rightarrow> execution_receipt result \<Rightarrow> spine \<Rightarrow> capability \<Rightarrow> handler
    \<Rightarrow> mandala_packet \<Rightarrow> gate_receipt \<Rightarrow> execution_receipt \<Rightarrow> spine \<Rightarrow> bool" where
  "entered_at env cid payload prov s r s' c h packet gate receipt s1 \<longleftrightarrow>
     steady s s1 \<and> readable (sp_mandala s1) \<and> cr_get (sp_registry s) cid = Inr c \<and>
     (\<exists>d. eb_evaluate c (recorded_effects (sp_executors s) (cap_id c)) = Inr d \<and> eb_allowed d) \<and>
     set (cap_permissions c) \<subseteq> set (sp_allowed s) \<and> xr_handler (sp_executors s) (cap_id c) = Inr h \<and>
     started_receipt c payload prov receipt \<and>
     (small_env env \<and> small_config s \<and> small_prov prov \<longrightarrow>
        small_capability c \<and> small_packet packet \<and> small_envelope gate \<and> fitting_receipt receipt) \<and>
     after_handler env c packet (pg_evaluate (sp_allowed s) c) gate (receipt\<lparr>xc_executor_entered := True\<rparr>)
       (Inr (h (length (sp_entries s)) payload))
       (s1\<lparr>sp_entries := sp_entries s1 @
          [\<lparr>he_capability_id = cap_id c, he_payload = payload, he_provenance = prov\<rparr>]\<rparr>) = (r, s')"

lemma small_registry:
  assumes "small_config s" and "cr_get (sp_registry s) cid = Inr c"
  shows "small_capability c"
  using assms by (auto simp: small_config_def cr_get_def split: option.splits dest!: map_of_SomeD)

lemma run_gated_cases:
  assumes run: "run_gated env c plan packet effect prov s = (r, s')"
    and plan: "plan = vessel_plan cid payload"
  obtains (quiet) "steady s s'" and "\<And>x. r = Inr x \<Longrightarrow> refused_receipt cid payload prov x \<or>
      (started_receipt c payload prov x \<and> xc_execution_status x = ''failed'' \<and> (\<exists>e. xr_handler (sp_executors s) (cap_id c) = Inl e))"
  | (entered) h gate receipt s1 where "steady s s1" and "readable (sp_mandala s1)"
      and "set (cap_permissions c) \<subseteq> set (sp_allowed s)" and "xr_handler (sp_executors s) (cap_id c) = Inr h"
      and "started_receipt c payload prov receipt"
      and "small_env env \<Longrightarrow> small_capability c \<Longrightarrow> small_packet packet \<Longrightarrow> small (re_receipt_id effect) \<Longrightarrow> small_prov prov \<Longrightarrow>
         small_envelope gate \<and> fitting_receipt receipt"
      and "after_handler env c packet (pg_evaluate (sp_allowed s) c) gate (receipt\<lparr>xc_executor_entered := True\<rparr>)
       (Inr (h (length (sp_entries s)) payload))
       (s1\<lparr>sp_entries := sp_entries s1 @
          [\<lparr>he_capability_id = cap_id c, he_payload = payload, he_provenance = prov\<rparr>]\<rparr>) = (r, s')"
proof -
  let ?d = "pg_evaluate (sp_allowed s) c"
  have bind: "act_bind (make_gate_receipt env packet (pd_allowed ?d) (pd_reason ?d) (Some (re_receipt_id effect))) (\<lambda>gate.
     act_bind (mandala_append env (gr_to_dict gate)) (\<lambda>_.
     act_bind (make_receipt env c plan (pd_requested ?d) (if pd_allowed ?d then ''allowed'' else ''denied'')
       packet gate prov None) (\<lambda>receipt.
     if \<not> pd_allowed ?d then run_denied env c packet ?d gate receipt
     else run_allowed env c plan packet ?d gate receipt))) s = (r, s')"
    using run unfolding run_gated_def act_bind_pure .
  have gone: thesis if "steady s s'" and "r = Inl e" for e
    using that by (intro quiet) auto
  from bind show thesis
  proof (cases rule: act_bindE)
    case (err e)
    with quietD [OF quiet_receipts(3)] gone show thesis by blast
  next
    case (ok gate s1)
    note gate = ok(1) and rest = ok(2)
    have st1: "steady s s1" using quiet_receipts(3) gate by (rule quietD)
    from rest show thesis
    proof (cases rule: act_bindE)
      case (err e)
      have "steady s s'" using st1 quietD [OF quiet_mandala_append err(1)] by (rule steady_trans)
      with err(2) gone show thesis by blast
    next
      case (ok u s2)
      note app = ok(1) and rest = ok(2)
      have st2: "steady s s2" using st1 quietD [OF quiet_mandala_append app] by (rule steady_trans)
      have rd2: "readable (sp_mandala s2)" using app by (rule mandala_append_readable)
      from rest show thesis
      proof (cases rule: act_bindE)
        case (err e)
        have "steady s s'" using st2 quietD [OF quiet_receipts(6) err(1)] by (rule steady_trans)
        with err(2) gone show thesis by blast
      next
        case (ok receipt s3)
        note rec = ok(1) and rest = ok(2)
        have q3: "steady s2 s3" using quiet_receipts(6) rec by (rule quietD)
        have st3: "steady s s3" using st2 q3 by (rule steady_trans)
        have rd3: "readable (sp_mandala s3)" using q3 rd2 by (simp add: steady_def)
        note made = make_receipt_returns(1) [OF rec]
        show thesis
        proof (cases "pd_allowed ?d")
          case False
          then have d: "run_denied env c packet ?d gate receipt s3 = (r, s')" using rest by simp
          have "steady s s'" using st3 quietD [OF quiet_run_parts(2) d] by (rule steady_trans)
          moreover have "refused_receipt cid payload prov x" if "r = Inr x" for x
            using run_denied_returns [of env c packet ?d gate receipt s3 x s'] d that made False
            by (auto simp: refused_receipt_def same_request_def plan vessel_plan_def)
          ultimately show thesis by (intro quiet) auto
        next
          case True
          then have al: "run_allowed env c plan packet ?d gate receipt s3 = (r, s')" using rest by simp
          have started: "started_receipt c payload prov receipt"
            using made True by (simp add: started_receipt_def plan vessel_plan_def pg_evaluate_def Let_def)
          have static: "sp_executors s3 = sp_executors s" "sp_entries s3 = sp_entries s"
            using st3 by (simp_all add: steady_def)
          have payload: "plan_payload plan = payload" and prov: "xc_governed_provenance receipt = prov"
            using made by (simp_all add: plan vessel_plan_def)
          show thesis
          proof (cases "xr_handler (sp_executors s) (cap_id c)")
            case (Inl e)
            then have f: "after_handler env c packet ?d gate (receipt\<lparr>xc_executor_entered := True\<rparr>) (Inl e) s3 = (r, s')"
              using al by (simp add: run_allowed_def call_handler_def static Let_def)
            have "steady s s'" using st3 quietD [OF quiet_after_handler f] by (rule steady_trans)
            moreover have "started_receipt c payload prov x \<and> xc_execution_status x = ''failed''" if "r = Inr x" for x
              using run_failed_returns [of env c packet ?d gate _ "exn_text e" s3 x s'] f that started
              by (auto simp: after_handler_def attempted_def same_request_def started_receipt_def)
            ultimately show thesis using Inl by (intro quiet) auto
          next
            case (Inr h)
            then have f: "after_handler env c packet ?d gate (receipt\<lparr>xc_executor_entered := True\<rparr>)
               (Inr (h (length (sp_entries s)) payload)) (s3\<lparr>sp_entries := sp_entries s3 @
               [\<lparr>he_capability_id = cap_id c, he_payload = payload, he_provenance = prov\<rparr>]\<rparr>) = (r, s')"
              using al by (simp add: run_allowed_def call_handler_def static payload prov Let_def)
            have fit: "small_envelope gate \<and> fitting_receipt receipt"
              if "small_env env" "small_capability c" "small_packet packet" "small (re_receipt_id effect)" "small_prov prov"
            proof
              show g: "small_envelope gate" by (rule make_gate_small [OF gate that(1,3)]) (use that(4) in simp)
              show "fitting_receipt receipt"
                by (rule make_receipt_returns(2) [OF rec that(1,2,3) g that(5)])
                  (use True in \<open>simp_all add: plan vessel_plan_def pg_evaluate_def Let_def\<close>)
            qed
            show thesis by (rule entered [OF st3 rd3 _ Inr started fit f]) (use True in simp_all)
          qed
        qed
      qed
    qed
  qed
qed

theorem spine_run_cases:
  assumes run: "spine_run env cid payload prov s = (r, s')"
  obtains (quiet) "steady s s'" and "\<And>x. r = Inr x \<Longrightarrow> refused_receipt cid payload prov x \<or>
      (\<exists>c e. cr_get (sp_registry s) cid = Inr c \<and> started_receipt c payload prov x \<and> xc_execution_status x = ''failed'' \<and>
         xr_handler (sp_executors s) (cap_id c) = Inl e)"
  | (entered) c h packet gate receipt s1 where "entered_at env cid payload prov s r s' c h packet gate receipt s1"
proof -
  let ?p = "vessel_plan cid payload"
  have gone: thesis if "steady s s'" and "r = Inl e" for e
    using that by (intro quiet) auto
  from run have "act_bind (\<lambda>s. (cr_get (sp_registry s) (plan_capability_id ?p), s)) (\<lambda>c.
     act_bind (action_packet env ?p c) (\<lambda>packet.
     act_bind (effect_receipt env packet c) (\<lambda>effect.
     act_bind (mandala_append env (ebr_to_dict effect)) (\<lambda>_.
     if re_status effect = BLOCKED then run_blocked env c ?p packet effect prov
     else run_gated env c ?p packet effect prov)))) s = (r, s')"
    unfolding spine_run_def Let_def .
  then show thesis
  proof (cases rule: act_bindE)
    case (err e)
    then show thesis using gone by simp
  next
    case (ok c s0)
    from ok(1) have c: "cr_get (sp_registry s) cid = Inr c" and s0: "s0 = s" by (auto simp: vessel_plan_def)
    from ok(2) show thesis unfolding s0
    proof (cases rule: act_bindE)
      case (err e)
      with quietD [OF quiet_receipts(1)] gone show thesis by blast
    next
      case (ok packet s1)
      note pk = ok(1) and rest = ok(2)
      have st1: "steady s s1" using quiet_receipts(1) pk by (rule quietD)
      have small_p: "small_packet packet" if "small_env env" "small_config s"
        using pk that by (auto simp: action_packet_def act_bind_def draw_uuid_def mp_create_def small_packet_def
            small_env_def small_config_def small_def MANDALA_CONTRACT_VERSION_def)
      from rest show thesis
      proof (cases rule: act_bindE)
        case (err e)
        have "steady s s'" using st1 quietD [OF quiet_receipts(2) err(1)] by (rule steady_trans)
        with err(2) gone show thesis by blast
      next
        case (ok effect s2)
        note ef = ok(1) and rest = ok(2)
        have st2: "steady s s2" using st1 quietD [OF quiet_receipts(2) ef] by (rule steady_trans)
        from rest show thesis
        proof (cases rule: act_bindE)
          case (err e)
          have "steady s s'" using st2 quietD [OF quiet_mandala_append err(1)] by (rule steady_trans)
          with err(2) gone show thesis by blast
        next
          case (ok u s3)
          have st3: "steady s s3" using st2 quietD [OF quiet_mandala_append ok(1)] by (rule steady_trans)
          then have static: "sp_allowed s3 = sp_allowed s" "sp_executors s3 = sp_executors s"
              "sp_registry s3 = sp_registry s" "sp_entries s3 = sp_entries s"
            by (simp_all add: steady_def)
          show thesis
          proof (cases "re_status effect = BLOCKED")
            case True
            then have b: "run_blocked env c ?p packet effect prov s3 = (r, s')" using ok(2) by simp
            have "steady s s'" using st3 quietD [OF quiet_run_parts(1) b] by (rule steady_trans)
            moreover have "refused_receipt cid payload prov x" if "r = Inr x" for x
              using run_blocked_returns [of env c ?p packet effect prov s3 x s' cid] b that by (simp add: vessel_plan_def)
            ultimately show thesis by (intro quiet) auto
          next
            case False
            then have g: "run_gated env c ?p packet effect prov s3 = (r, s')" using ok(2) by simp
            from g refl show thesis
            proof (cases rule: run_gated_cases)
              case quiet': quiet
              have "steady s s'" using st3 quiet'(1) by (rule steady_trans)
              then show thesis using quiet'(2) c unfolding static by (intro quiet) blast+
            next
              case (entered h gate receipt s4)
              obtain d where d: "eb_evaluate c (recorded_effects (sp_executors s1) (cap_id c)) = Inr d"
                "re_status effect = (if eb_allowed d then ACCEPTED else BLOCKED)"
                and sm: "small_env env \<longrightarrow> small (re_receipt_id effect)"
                by (rule effect_receipt_returns [OF ef]) blast
              have cl: "\<exists>d. eb_evaluate c (recorded_effects (sp_executors s) (cap_id c)) = Inr d \<and> eb_allowed d"
                using d False st1 by (auto simp: steady_def split: if_splits)
              moreover have "steady s s4" using st3 entered(1) by (rule steady_trans)
              ultimately have "entered_at env cid payload prov s r s' c h packet gate receipt s4"
                using entered(2-) c sm small_p small_registry [OF _ c] unfolding entered_at_def static by blast
              then show thesis by (rule that(2))
            qed
          qed
        qed
      qed
    qed
  qed
qed

lemma run_failed_logged: "run_failed env c packet d gate r t s = (Inr x, s') \<Longrightarrow> logged x s'"
  unfolding run_failed_def by (elim act_bindE; (simp; fail)?) (rule finish_logged)

lemma run_unknown_logged: "run_unknown env c packet d gate r u s = (Inr x, s') \<Longrightarrow> logged x s'"
  unfolding run_unknown_def by (elim act_bindE; (simp; fail)?) (rule finish_logged)

lemma run_succeeded_logged: "run_succeeded env c packet d gate r a s = (Inr x, s') \<Longrightarrow> logged x s'"
  unfolding run_succeeded_def Let_def
  by (auto split: prod.splits sum.splits if_splits dest: finish_logged run_failed_logged)

lemma after_handler_logged: "after_handler env c packet d gate r out s = (Inr x, s') \<Longrightarrow> logged x s'"
  unfolding after_handler_def act_result_def
  by (auto split: sum.splits handler_outcome.splits
      dest: run_failed_logged run_unknown_logged run_succeeded_logged)

section \<open>A run that nothing disturbs\<close>

lemma weight_effects:
  assumes "set es \<subseteq> set KNOWN_EFFECTS" and "distinct es"
  shows "weight (jstrs es) \<le> 3000"
proof -
  let ?f = "\<lambda>e::string. 2 + (2 + 6 * length e)"
  have "weight_items (map JStr xs) = sum_list (map ?f xs)" for xs
    by (induction xs) simp_all
  then have "weight (jstrs es) = 2 + sum ?f (set es)"
    using assms(2) by (simp only: weight.simps sum_list_distinct_conv_sum_set)
  also have "sum ?f (set es) \<le> sum ?f (set KNOWN_EFFECTS)"
    using assms(1) by (intro sum_mono2) simp_all
  also have "2 + sum ?f (set KNOWN_EFFECTS) \<le> 3000"
    by (simp add: KNOWN_EFFECTS_def)
  finally show ?thesis by simp
qed

definition clean_env :: "env \<Rightarrow> bool" where
  "clean_env env \<longleftrightarrow> small_env env \<and> (\<forall>n. en_open env n = None \<and> en_write env n = None)"

lemma clean_no_fault: "clean_env env \<Longrightarrow> \<not> env_fault env e"
  by (simp add: clean_env_def env_fault_def)

text \<open>The configuration of \<open>s0\<close> with readable histories.\<close>

definition based :: "spine \<Rightarrow> spine \<Rightarrow> bool" where
  "based s0 s \<longleftrightarrow> posted s \<and> sp_registry s = sp_registry s0 \<and> sp_executors s = sp_executors s0 \<and>
     sp_allowed s = sp_allowed s0 \<and> sp_core s = sp_core s0"

lemma based_steady: "based s0 s \<Longrightarrow> steady s t \<Longrightarrow> based s0 t"
  by (auto simp: based_def steady_def posted_def)

lemma triple_based:
  assumes "quiet m" and "triple posted m P E" and "\<And>e. E e \<Longrightarrow> E' e"
  shows "triple (based s0) m P E'"
proof (rule triple_quiet [OF assms(1) based_steady])
  fix s e s' assume "based s0 s" and m: "m s = (Inl e, s')"
  then have "posted s" by (simp add: based_def)
  from tripleD(2) [OF assms(2) this m] assms(3) show "E' e" by simp
next
  fix s x s' assume "based s0 s" and m: "m s = (Inr x, s')"
  then have "posted s" by (simp add: based_def)
  from tripleD(3) [OF assms(2) this m] show "P x" by simp
qed

text \<open>What the effect receipt of a classified capability carries.\<close>

lemma classified_effects:
  assumes "eb_evaluate c es = Inr d"
  shows "set (eb_capability_effects d) \<subseteq> set KNOWN_EFFECTS" "distinct (eb_capability_effects d)"
    "set (eb_executor_effects d) \<subseteq> set KNOWN_EFFECTS" "distinct (eb_executor_effects d)"
    "set (eb_active_effects d) \<subseteq> set KNOWN_EFFECTS" "distinct (eb_active_effects d)"
    "length (eb_reason d) \<le> 100" "eb_capability_id d = cap_id c" "eb_capability_version d = cap_version c"
    "eb_capability_risk d = cap_risk c" "length (eb_policy_sha256 d) = 64"
proof -
  define why where "why ce ee =
      (if ce = [] then (''BLOCKED'', ''capability_effect_classification_missing'')
       else if ee = [] then (''BLOCKED'', ''executor_effect_classification_missing'')
       else if \<not> (ce \<noteq> [] \<and> ee \<noteq> [] \<and> ''unknown'' \<notin> set ce \<and> ''unknown'' \<notin> set ee) then (''BLOCKED'', ''effect_classification_unknown'')
       else if \<not> (ce \<noteq> [] \<and> ce = ee) then (''BLOCKED'', ''capability_executor_effect_contract_mismatch'')
       else if cap_risk c = ''read'' \<and> filter (\<lambda>e. e \<in> set ACTIVE_EFFECTS) ce \<noteq> []
       then (''BLOCKED'', ''read_risk_label_conflicts_with_active_effects'')
       else (''CLASSIFIED'', ''effect_contract_classified''))" for ce ee :: "string list"
  have len: "length (snd (why ce ee)) \<le> 100" for ce ee by (simp add: why_def)
  from assms obtain ce ee where
    n: "normalize_effects (map JStr (cap_effects c)) ''capability effects'' True = Inr ce"
      "normalize_effects (map JStr es) ''executor effects'' True = Inr ee"
    and d: "(case why ce ee of (status, reason) \<Rightarrow> Ok \<lparr>eb_status = status, eb_reason = reason, eb_capability_id = cap_id c,
            eb_capability_version = cap_version c, eb_capability_risk = cap_risk c,
            eb_capability_effects = ce, eb_executor_effects = ee, eb_active_effects = filter (\<lambda>e. e \<in> set ACTIVE_EFFECTS) ce,
            eb_effect_contract_match = (ce \<noteq> [] \<and> ce = ee),
            eb_classification_complete = (ce \<noteq> [] \<and> ee \<noteq> [] \<and> ''unknown'' \<notin> set ce \<and> ''unknown'' \<notin> set ee),
            eb_semantic_read_label_conflict = (cap_risk c = ''read'' \<and> filter (\<lambda>e. e \<in> set ACTIVE_EFFECTS) ce \<noteq> []),
            eb_policy_sha256 = effect_boundary_policy_sha256,
            eb_action_authority = False, eb_execution_authority = False\<rparr>) = Inr d"
    unfolding eb_evaluate_def Let_def why_def by (elim rbind_OkE)
  obtain st re where w: "why ce ee = (st, re)" by fastforce
  have f: "eb_capability_effects d = ce" "eb_executor_effects d = ee"
      "eb_active_effects d = filter (\<lambda>e. e \<in> set ACTIVE_EFFECTS) ce"
      "eb_capability_id d = cap_id c" "eb_capability_version d = cap_version c" "eb_capability_risk d = cap_risk c"
      "eb_policy_sha256 d = effect_boundary_policy_sha256" "eb_reason d = re"
    using d unfolding w by auto
  have f8: "length (eb_reason d) \<le> 100" using len [of ce ee] unfolding w f by simp
  from n have s: "set ce \<subseteq> set KNOWN_EFFECTS" "distinct ce" "set ee \<subseteq> set KNOWN_EFFECTS" "distinct ee"
    unfolding normalize_effects_Ok_iff declared_effects_ok_def by auto
  show "set (eb_capability_effects d) \<subseteq> set KNOWN_EFFECTS" "distinct (eb_capability_effects d)"
    "set (eb_executor_effects d) \<subseteq> set KNOWN_EFFECTS" "distinct (eb_executor_effects d)"
    "set (eb_active_effects d) \<subseteq> set KNOWN_EFFECTS" "distinct (eb_active_effects d)"
    "length (eb_reason d) \<le> 100" "eb_capability_id d = cap_id c" "eb_capability_version d = cap_version c"
    "eb_capability_risk d = cap_risk c"
    using s f8 unfolding f by auto
  show "length (eb_policy_sha256 d) = 64"
    unfolding f effect_boundary_policy_sha256_def using canonical_sha256_is_sha256 by (simp add: is_sha256_def)
qed

lemma fits_effect_receipt:
  assumes d: "eb_evaluate c es = Inr d" and c: "small_capability c" and m: "small_envelope m"
  shows "fits (ebr_to_dict (effect_receipt_of m d))"
proof -
  let ?r = "effect_receipt_of m d"
  note e = classified_effects [OF d]
  have len: "length (canonical_sha256 j) = 64" for j using canonical_sha256_is_sha256 by (simp add: is_sha256_def)
  have w: "weight (jstrs (eb_capability_effects d)) \<le> 3000" "weight (jstrs (eb_executor_effects d)) \<le> 3000"
    "weight (jstrs (eb_active_effects d)) \<le> 3000" using e(1-6) weight_effects by blast+
  have "weight_members (envelope_items ''EffectBoundaryReceipt'' ?r) \<le> 2800000"
    by (rule weight_envelope) (simp_all add: effect_receipt_of_envelope m)
  then have "weight_members (ebr_to_dict ?r) \<le> 2800000 + 1200000"
    using w e(7-11) c len
    by (simp add: ebr_to_dict_def effect_receipt_of_def Let_def receipt_envelope.extend_def
        effect_boundary_receipt.fields_def small_capability_def small_def)
  then show ?thesis by (simp add: fits_def MAX_RECORD_BYTES_def)
qed

lemma triple_effect_receipt:
  assumes env: "clean_env env" and c: "small_capability c" and p: "small_packet packet"
    and d: "eb_evaluate c (recorded_effects (sp_executors s0) (cap_id c)) = Inr d" "eb_allowed d"
  shows "triple (based s0) (effect_receipt env packet c)
     (\<lambda>e. re_status e \<noteq> BLOCKED \<and> small (re_receipt_id e) \<and> fits (ebr_to_dict e)) (\<lambda>_. False)"
  unfolding effect_receipt_def
proof (rule triple_bind)
  show "triple (based s0) (\<lambda>s. (eb_evaluate c (recorded_effects (sp_executors s) (cap_id c)), s)) (\<lambda>d'. d' = d) (\<lambda>_. False)"
    by (rule triple_pure) (simp add: based_def d(1))
next
  fix d' assume d': "d' = d"
  have sm: "small_env env" using env by (simp add: clean_env_def)
  have "triple (based s0) (meta env packet ACCEPTED ''phios.effect_boundary'' None)
      (\<lambda>m. small_envelope m \<and> re_status m = ACCEPTED) (\<lambda>_. False)"
  proof (rule triple_quiet [OF quiet_meta based_steady])
    fix s e s' assume "meta env packet ACCEPTED ''phios.effect_boundary'' None s = (Inl e, s')"
    then show False by (simp add: meta_def act_bind_def draw_uuid_def draw_now_def act_return_def)
  next
    fix s m s' assume "meta env packet ACCEPTED ''phios.effect_boundary'' None s = (Inr m, s')"
    from meta_returns [OF this] sm p show "small_envelope m \<and> re_status m = ACCEPTED" by simp
  qed
  then show "triple (based s0) (act_bind (meta env packet (if eb_allowed d' then ACCEPTED else BLOCKED) ''phios.effect_boundary'' None)
     (\<lambda>m. act_return (effect_receipt_of m d')))
     (\<lambda>e. re_status e \<noteq> BLOCKED \<and> small (re_receipt_id e) \<and> fits (ebr_to_dict e)) (\<lambda>_. False)"
    unfolding d' if_P [OF d(2)]
    by (rule triple_bind, intro triple_return conjI)
      (use fits_effect_receipt [OF d(1) c] in \<open>simp_all add: effect_receipt_of_envelope small_envelope_def\<close>)
qed

lemma triple_clean_append:
  assumes env: "clean_env env" and "fits p"
  shows "triple (based s0) (mandala_append env p) (\<lambda>_. True) (\<lambda>_. False)"
  by (rule triple_based [OF quiet_mandala_append triple_mandala_append])
    (use assms clean_no_fault [OF env] in \<open>simp_all add: clean_env_def\<close>)

lemma triple_gate_receipt:
  assumes env: "small_env env" and p: "small_packet packet" and "mp_evidence_refs packet = []"
    and "weight (ac_to_dict (mp_authority packet)) \<le> 1048576" and "length reason \<le> 100" and "small parent"
  shows "triple (based s0) (make_gate_receipt env packet True reason (Some parent))
     (\<lambda>g. small_envelope g \<and> fits (gr_to_dict g)) (\<lambda>_. False)"
  unfolding make_gate_receipt_def
proof (rule triple_bind [OF _ triple_return])
  show "triple (based s0) (meta env packet (if True then ACCEPTED else BLOCKED) ''phios.action_gate'' (Some parent)) small_envelope (\<lambda>_. False)"
    by (rule triple_based [OF quiet_meta triple_meta [OF env p, where E = "\<lambda>_. False"]]) (use assms(6) in simp_all)
  fix m :: receipt_envelope assume m: "small_envelope m"
  let ?g = "receipt_envelope.extend m (gate_receipt.fields ACTION reason (mp_evidence_refs packet) (ac_to_dict (mp_authority packet)))"
  have "weight_members (envelope_items ''GateReceipt'' ?g) \<le> 2800000"
    by (rule weight_envelope) (use m in simp_all)
  then have "fits (gr_to_dict ?g)"
    using assms(3-5) by (simp add: fits_def gr_to_dict_def MAX_RECORD_BYTES_def receipt_envelope.extend_def gate_receipt.fields_def)
  with m show "small_envelope ?g \<and> fits (gr_to_dict ?g)" by simp
qed

definition small_core :: "spine \<Rightarrow> bool" where
  "small_core s \<longleftrightarrow> weight (ac_to_dict (pc_authority (sp_core s))) \<le> 1048576"

definition never_interrupts :: "spine \<Rightarrow> bool" where
  "never_interrupts s \<longleftrightarrow> (\<forall>(i, h) \<in> set (xr_handlers (sp_executors s)). \<forall>n p. h n p \<noteq> Interrupted)"

lemma handler_in: "xr_handler r i = Inr h \<Longrightarrow> (i, h) \<in> set (xr_handlers r)"
  by (auto simp: xr_handler_def split: option.splits dest: map_of_SomeD)

text \<open>The parts of a run before the executor, in a clean environment.\<close>

lemma triple_action_packet:
  assumes env: "small_env env" and core: "small (pc_task_id (sp_core s0))" "small_core s0"
  shows "triple (based s0) (action_packet env plan c) (\<lambda>p. small_packet p \<and> mp_evidence_refs p = [] \<and>
      weight (ac_to_dict (mp_authority p)) \<le> 1048576) (\<lambda>_. False)"
proof (rule triple_quiet [OF quiet_receipts(1) based_steady])
  fix s e s' assume "action_packet env plan c s = (Inl e, s')"
  then show False by (simp add: action_packet_def act_bind_def draw_uuid_def)
next
  fix s p s' assume b: "based s0 s" and a: "action_packet env plan c s = (Inr p, s')"
  have p: "mp_packet_id p = en_uuid env (sp_uuids s) \<and> mp_task_id p = pc_task_id (sp_core s0) \<and>
      mp_contract_version p = MANDALA_CONTRACT_VERSION \<and> mp_evidence_refs p = [] \<and>
      mp_authority p = pc_authority (sp_core s0)"
    using a b by (auto simp: action_packet_def act_bind_def draw_uuid_def mp_create_def based_def)
  show "small_packet p \<and> mp_evidence_refs p = [] \<and> weight (ac_to_dict (mp_authority p)) \<le> 1048576"
    using p env core unfolding small_packet_def small_core_def small_env_def
    by (simp add: MANDALA_CONTRACT_VERSION_def small_def)
qed

lemma triple_make_receipt:
  assumes env: "small_env env" and small: "small_capability c" "small_packet packet" "small_envelope g" "small_prov prov"
  shows "triple (based s0) (make_receipt env c (vessel_plan cid payload) (cap_permissions c) ''allowed'' packet g prov None)
     (\<lambda>r. fitting_receipt r \<and> started_receipt c payload prov r \<and> \<not> xc_executor_entered r) (\<lambda>_. False)"
    (is "triple _ ?m _ _")
proof (rule triple_quiet [OF quiet_receipts(6) based_steady])
  fix s e s' assume "?m s = (Inl e, s')"
  then show False by (simp add: make_receipt_def act_bind_def draw_uuid_def draw_now_def act_return_def)
next
  fix s x s' assume m: "?m s = (Inr x, s')"
  have "fitting_receipt x"
    by (rule make_receipt_returns(2) [OF m env small(1)]) (use small in \<open>simp_all add: vessel_plan_def\<close>)
  then show "fitting_receipt x \<and> started_receipt c payload prov x \<and> \<not> xc_executor_entered x"
    using make_receipt_returns(1) [OF m] by (simp add: started_receipt_def vessel_plan_def)
qed

text \<open>An operation that leaves the execution ledger alone.\<close>

definition off_ledger :: "'a act \<Rightarrow> bool" where
  "off_ledger m \<longleftrightarrow> (\<forall>s r s'. m s = (r, s') \<longrightarrow> sp_ledger s' = sp_ledger s)"

lemma off_ledgerD: "off_ledger m \<Longrightarrow> m s = (r, s') \<Longrightarrow> sp_ledger s' = sp_ledger s"
  unfolding off_ledger_def by blast

lemma off_ledger_bind [quiet_intros]:
  assumes m: "off_ledger m" and f: "\<And>x. off_ledger (f x)"
  shows "off_ledger (act_bind m f)"
  unfolding off_ledger_def
proof (intro allI impI)
  fix s r s' assume "act_bind m f s = (r, s')"
  then show "sp_ledger s' = sp_ledger s"
  proof (cases rule: act_bindE)
    case (err e)
    with off_ledgerD [OF m] show ?thesis by blast
  next
    case (ok x s1)
    with off_ledgerD [OF m ok(1)] off_ledgerD [OF f ok(2)] show ?thesis by simp
  qed
qed

lemma off_ledger_basic [quiet_intros]:
  "off_ledger (\<lambda>s. (g s, s))" "off_ledger (act_return x)" "off_ledger (draw_uuid env)" "off_ledger (draw_now env)"
  "off_ledger (mandala_append env p)"
  by (auto simp: off_ledger_def act_return_def draw_uuid_def draw_now_def mandala_append_def split: prod.splits)

lemma off_ledger_parts:
  "off_ledger (meta env packet st by' parent)" "off_ledger (action_packet env plan c)" "off_ledger (effect_receipt env packet c)"
  "off_ledger (make_gate_receipt env packet al re pa)" "off_ledger (make_receipt env c plan rq ps packet gate prov er)"
  "off_ledger (make_action_receipt env packet st pa gr se oc ids)" "off_ledger (make_abort_receipt env packet pa re)"
  unfolding meta_def action_packet_def effect_receipt_def make_gate_receipt_def make_receipt_def make_action_receipt_def
    make_abort_receipt_def
  by (intro off_ledger_bind off_ledger_basic)+

text \<open>One step of a run that cannot fail.\<close>

lemma reaches_bind:
  assumes "triple (based s0) m P (\<lambda>_. False)" and "quiet m" and "off_ledger m"
    and "based s0 s" and "steady s0 s" and "sp_ledger s = sp_ledger s0"
  obtains x s1 where "m s = (Inr x, s1)" and "P x" and "based s0 s1" and "steady s0 s1" and "sp_ledger s1 = sp_ledger s0"
    and "act_bind m f s = f x s1"
proof -
  obtain r s1 where m: "m s = (r, s1)" by fastforce
  note t = tripleD [OF assms(1,4) m]
  from t(2) obtain x where r: "r = Inr x" by (cases r) auto
  have "steady s0 s1" using assms(5) quietD [OF assms(2) m] by (rule steady_trans)
  moreover have "sp_ledger s1 = sp_ledger s0" using off_ledgerD [OF assms(3) m] assms(6) by simp
  moreover have "act_bind m f s = f x s1" by (simp add: act_bind_def m r)
  ultimately show thesis using t(1,3) m r by (intro that) auto
qed

text \<open>An authorized run over readable histories reaches its executor, whatever the handler does then.\<close>

lemma spine_run_reaches:
  assumes env: "clean_env env" and files: "posted s"
    and small: "small (pc_task_id (sp_core s))" "small_core s" "small_capability c" "small_prov prov"
    and c: "cr_get (sp_registry s) cid = Inr c" and perms: "set (cap_permissions c) \<subseteq> set (sp_allowed s)"
    and d: "eb_evaluate c (recorded_effects (sp_executors s) (cap_id c)) = Inr d" "eb_allowed d"
  obtains packet gate receipt s1 where "steady s s1" and "posted s1" and "sp_ledger s1 = sp_ledger s"
    and "small_packet packet" and "small_envelope gate"
    and "fitting_receipt receipt" and "started_receipt c payload prov receipt" and "\<not> xc_executor_entered receipt"
    and "spine_run env cid payload prov s
      = run_allowed env c (vessel_plan cid payload) packet (pg_evaluate (sp_allowed s) c) gate receipt s1"
proof -
  let ?p = "vessel_plan cid payload" and ?d = "pg_evaluate (sp_allowed s) c"
  have sm: "small_env env" using env by (simp add: clean_env_def)
  have al: "pd_allowed ?d" "pd_requested ?d = cap_permissions c" "length (pd_reason ?d) \<le> 100"
  proof -
    have none: "filter (\<lambda>p. p \<notin> set (sp_allowed s)) (cap_permissions c) = []" using perms by (auto simp: filter_empty_conv)
    show "pd_allowed ?d" "pd_requested ?d = cap_permissions c" "length (pd_reason ?d) \<le> 100"
      by (simp_all add: pg_evaluate_def Let_def none)
  qed
  have 0: "based s s" "steady s s" using files by (simp_all add: based_def)
  define rest where "rest packet effect = (if re_status effect = BLOCKED then run_blocked env c ?p packet effect prov
      else run_gated env c ?p packet effect prov)" for packet and effect :: effect_boundary_receipt
  have run: "spine_run env cid payload prov s = act_bind (action_packet env ?p c) (\<lambda>packet. act_bind (effect_receipt env packet c)
      (\<lambda>effect. act_bind (mandala_append env (ebr_to_dict effect)) (\<lambda>_. rest packet effect))) s" (is "_ = act_bind _ ?f1 s")
  proof -
    have "plan_capability_id ?p = cid" by (simp add: vessel_plan_def)
    then show ?thesis by (simp add: spine_run_def Let_def act_bind_def c rest_def)
  qed
  from triple_action_packet [OF sm small(1,2)] quiet_receipts(1) off_ledger_parts(2) 0 refl
  obtain packet t1 where p: "small_packet packet \<and> mp_evidence_refs packet = [] \<and> weight (ac_to_dict (mp_authority packet)) \<le> 1048576"
      and 1: "based s t1" "steady s t1" "sp_ledger t1 = sp_ledger s"
      and r1: "act_bind (action_packet env ?p c) ?f1 s = ?f1 packet t1" by (rule reaches_bind)
  let ?f2 = "\<lambda>effect. act_bind (mandala_append env (ebr_to_dict effect)) (\<lambda>_. rest packet effect)"
  have "small_packet packet" using p ..
  from triple_effect_receipt [OF env small(3) this d] quiet_receipts(2) off_ledger_parts(3) 1
  obtain effect t2 where e: "re_status effect \<noteq> BLOCKED \<and> small (re_receipt_id effect) \<and> fits (ebr_to_dict effect)"
      and 2: "based s t2" "steady s t2" "sp_ledger t2 = sp_ledger s"
      and r2: "act_bind (effect_receipt env packet c) ?f2 t1 = ?f2 effect t2" by (rule reaches_bind)
  have "fits (ebr_to_dict effect)" using e by simp
  from triple_clean_append [OF env this] quiet_mandala_append off_ledger_basic(5) 2
  obtain t3 where 3: "based s t3" "steady s t3" "sp_ledger t3 = sp_ledger s"
      and r3: "act_bind (mandala_append env (ebr_to_dict effect)) (\<lambda>_. rest packet effect) t2 = rest packet effect t3"
    by (rule reaches_bind) simp
  let ?f5 = "\<lambda>gate. \<lambda>receipt. run_allowed env c ?p packet ?d gate receipt"
  let ?f4 = "\<lambda>gate. act_bind (mandala_append env (gr_to_dict gate)) (\<lambda>_.
      act_bind (make_receipt env c ?p (cap_permissions c) ''allowed'' packet gate prov None) (?f5 gate))"
  have "rest packet effect t3 = run_gated env c ?p packet effect prov t3" using e by (simp add: rest_def)
  also have "\<dots> = act_bind (make_gate_receipt env packet True (pd_reason ?d) (Some (re_receipt_id effect))) ?f4 t3"
    using 3(2) al by (simp add: run_gated_def act_bind_pure steady_def)
  finally have r3': "rest packet effect t3 = act_bind (make_gate_receipt env packet True (pd_reason ?d) (Some (re_receipt_id effect))) ?f4 t3" .
  have "triple (based s) (make_gate_receipt env packet True (pd_reason ?d) (Some (re_receipt_id effect)))
      (\<lambda>g. small_envelope g \<and> fits (gr_to_dict g)) (\<lambda>_. False)"
    by (rule triple_gate_receipt [OF sm]) (use p e al in simp_all)
  from this quiet_receipts(3) off_ledger_parts(4) 3
  obtain gate t4 where g: "small_envelope gate \<and> fits (gr_to_dict gate)" and 4: "based s t4" "steady s t4" "sp_ledger t4 = sp_ledger s"
      and r4: "act_bind (make_gate_receipt env packet True (pd_reason ?d) (Some (re_receipt_id effect))) ?f4 t3 = ?f4 gate t4"
    by (rule reaches_bind)
  have "fits (gr_to_dict gate)" using g ..
  from triple_clean_append [OF env this] quiet_mandala_append off_ledger_basic(5) 4
  obtain t5 where 5: "based s t5" "steady s t5" "sp_ledger t5 = sp_ledger s"
      and r5: "?f4 gate t4 = act_bind (make_receipt env c ?p (cap_permissions c) ''allowed'' packet gate prov None) (?f5 gate) t5"
    by (rule reaches_bind) simp
  have "small_envelope gate" using g ..
  from triple_make_receipt [OF sm small(3) \<open>small_packet packet\<close> this small(4)] quiet_receipts(6) off_ledger_parts(5) 5
  obtain receipt t6 where r: "fitting_receipt receipt \<and> started_receipt c payload prov receipt \<and> \<not> xc_executor_entered receipt"
      and 6: "based s t6" "steady s t6" "sp_ledger t6 = sp_ledger s"
      and r6: "act_bind (make_receipt env c ?p (cap_permissions c) ''allowed'' packet gate prov None) (?f5 gate) t5 = ?f5 gate receipt t6"
    by (rule reaches_bind)
  show thesis
  proof (rule that)
    show "spine_run env cid payload prov s = run_allowed env c ?p packet ?d gate receipt t6"
      unfolding run r1 r2 r3 r3' r4 r5 r6 ..
  qed (use p g r 6 in \<open>simp_all add: based_def\<close>)
qed

text \<open>
  A run that nothing disturbs: the capability is registered with an executor, the effect contracts
  are classified, the permissions granted, the histories intact, the file system answers and texts
  have ordinary size.
\<close>

lemma run_completes:
  assumes env: "clean_env env" and conf: "small_config s" "never_interrupts s" "small_core s" "small_prov prov"
    and files: "posted s"
    and c: "cr_get (sp_registry s) cid = Inr c" and perms: "set (cap_permissions c) \<subseteq> set (sp_allowed s)"
    and d: "eb_evaluate c (recorded_effects (sp_executors s) (cap_id c)) = Inr d" "eb_allowed d"
    and h: "xr_handler (sp_executors s) (cap_id c) = Inr h"
  obtains x receipt s1 s' where "spine_run env cid payload prov s = (Inr x, s')"
    and "steady (s1\<lparr>sp_entries := sp_entries s1 @ [\<lparr>he_capability_id = cap_id c, he_payload = payload, he_provenance = prov\<rparr>]\<rparr>) s'"
    and "steady s s1" and "started_receipt c payload prov receipt" and "attempted (receipt\<lparr>xc_executor_entered := True\<rparr>) x"
    and "xc_execution_status x = outcome_status (h (length (sp_entries s)) payload)" and "logged x s'"
proof -
  have cap: "small_capability c" using conf(1) c by (rule small_registry)
  have core: "small (pc_task_id (sp_core s))" using conf(1) by (simp add: small_config_def)
  have sm: "small_env env" using env by (simp add: clean_env_def)
  obtain packet gate receipt s1 where st: "steady s s1" and pre: "posted s1"
    and small: "small_packet packet" "small_envelope gate" "fitting_receipt receipt" and start: "started_receipt c payload prov receipt"
    and run: "spine_run env cid payload prov s
      = run_allowed env c (vessel_plan cid payload) packet (pg_evaluate (sp_allowed s) c) gate receipt s1"
    by (rule spine_run_reaches [OF env files core conf(3) cap conf(4) c perms d])
  let ?s2 = "s1\<lparr>sp_entries := sp_entries s1 @ [\<lparr>he_capability_id = cap_id c, he_payload = payload, he_provenance = prov\<rparr>]\<rparr>"
  let ?r = "receipt\<lparr>xc_executor_entered := True\<rparr>" and ?out = "h (length (sp_entries s)) payload"
  have eq: "spine_run env cid payload prov s = after_handler env c packet (pg_evaluate (sp_allowed s) c) gate ?r (Inr ?out) ?s2"
    using run h st start by (simp add: run_allowed_def call_handler_def steady_def started_receipt_def vessel_plan_def)
  obtain r s' where after: "after_handler env c packet (pg_evaluate (sp_allowed s) c) gate ?r (Inr ?out) ?s2 = (r, s')" by fastforce
  have out: "small_outcome ?out" "?out \<noteq> Interrupted"
    using handler_in [OF h] conf(1,2) unfolding small_config_def never_interrupts_def by fastforce+
  have r: "fitting_receipt ?r" using small(3) by (simp add: fitting_receipt_def)
  have "posted ?s2" using pre by (simp add: posted_def)
  note t = tripleD [OF triple_after_handler [OF sm cap small(1,2) r out(1)] this after]
  from t(2) obtain x where x: "r = Inr x" using clean_no_fault [OF env] out(2) by (cases r) (auto simp: escapes_def)
  show thesis
  proof (rule that)
    show "spine_run env cid payload prov s = (Inr x, s')" using eq after x by simp
    show "steady ?s2 s'" using quiet_after_handler after by (rule quietD)
    show "xc_execution_status x = outcome_status ?out" using t(3) [OF x] clean_no_fault [OF env] by blast
    show "attempted ?r x" using after_handler_returns after x by simp
    show "logged x s'" using after_handler_logged after x by simp
  qed (fact st start)+
qed

text \<open>
  A failure message that no record can hold: the abort receipt cannot be written, so that the run
  ends in a \<open>ValueError\<close> although the handler was called and nothing is in the execution history.
\<close>

lemma run_failed_oversized:
  assumes env: "clean_env env" and c: "small_capability c" and p: "small_packet packet" and g: "small_envelope gate"
    and files: "posted s" and big: "MAX_RECORD_BYTES \<le> length t"
  obtains s' where "run_failed env c packet (pg_evaluate al c) gate r t s = (raise PyValueError ''state record exceeds 16 MiB'', s')"
    and "steady s s'" and "sp_ledger s' = sp_ledger s"
proof -
  have sm: "small_env env" using env by (simp add: clean_env_def)
  have 0: "based s s" "steady s s" using files by (simp_all add: based_def)
  let ?m1 = "make_action_receipt env packet ABORTED (Some (re_receipt_id gate)) (pd_granted (pg_evaluate al c))
      [(''capability_id'', JStr (cap_id c))] ''failed'' []"
  let ?f4 = "\<lambda>a. \<lambda>_. finish env (r\<lparr>xc_execution_status := ''failed'', xc_error := Some t\<rparr>) a"
  let ?f3 = "\<lambda>a abort. act_bind (mandala_append env (abr_to_dict abort)) (?f4 a)"
  let ?f2 = "\<lambda>a. \<lambda>_. act_bind (make_abort_receipt env packet (Some (re_receipt_id a)) t) (?f3 a)"
  let ?f1 = "\<lambda>a. act_bind (mandala_append env (acr_to_dict a)) (?f2 a)"
  have "triple posted ?m1 fitting_action (\<lambda>_. False)"
    by (rule triple_make_action [OF sm c p])
      (use c g weight_granted [of c al] in \<open>simp_all add: small_capability_def small_envelope_def del: weight.simps\<close>)
  from triple_based [OF quiet_receipts(4) this, where E' = "\<lambda>_. False"] quiet_receipts(4) off_ledger_parts(6) 0 refl
  obtain a t1 where a: "fitting_action a" and 1: "based s t1" "steady s t1" "sp_ledger t1 = sp_ledger s"
    and r1: "act_bind ?m1 ?f1 s = ?f1 a t1" by (rule reaches_bind) simp_all
  have "fits (acr_to_dict a)" using a by (simp add: fitting_action_def)
  from triple_clean_append [OF env this] quiet_mandala_append off_ledger_basic(5) 1
  obtain t2 where 2: "based s t2" "steady s t2" "sp_ledger t2 = sp_ledger s" and r2: "?f1 a t1 = ?f2 a () t2"
    by (rule reaches_bind) simp
  obtain b t3 where m: "make_abort_receipt env packet (Some (re_receipt_id a)) t t2 = (Inr b, t3)"
    and b: "abr_terminal_reason b = t"
    by (auto simp: make_abort_receipt_def act_bind_def meta_def draw_uuid_def draw_now_def act_return_def
        receipt_envelope.extend_def abort_receipt.fields_def)
  have r3: "?f2 a () t2 = ?f3 a b t3" by (simp add: act_bind_def m)
  have 3: "steady s t3" "sp_ledger t3 = sp_ledger s"
    using 2 quietD [OF quiet_receipts(5) m] off_ledgerD [OF off_ledger_parts(7) m] by (auto intro: steady_trans)
  have "sio_encode (abr_to_dict b) = raise PyValueError ''state record exceeds 16 MiB''"
    by (rule sio_encode_oversize [of "''terminal_reason''" t]) (use big b in \<open>simp_all add: abr_to_dict_def\<close>)
  then have ap: "mandala_append env (abr_to_dict b) t3
      = (raise PyValueError ''state record exceeds 16 MiB'', t3\<lparr>sp_io := Suc (sp_io t3)\<rparr>)"
    by (simp add: mandala_append_def ml_append_def append_jsonl_def discard_def)
  show thesis
  proof (rule that)
    have "run_failed env c packet (pg_evaluate al c) gate r t s = ?f3 a b t3"
      unfolding run_failed_def r1 r2 r3 ..
    then show "run_failed env c packet (pg_evaluate al c) gate r t s
        = (raise PyValueError ''state record exceeds 16 MiB'', t3\<lparr>sp_io := Suc (sp_io t3)\<rparr>)"
      using ap by (simp add: act_bind_def)
    show "steady s (t3\<lparr>sp_io := Suc (sp_io t3)\<rparr>)" using 3(1) by (simp add: steady_def)
    show "sp_ledger (t3\<lparr>sp_io := Suc (sp_io t3)\<rparr>) = sp_ledger s" using 3(2) by simp
  qed
qed

lemma run_oversized:
  assumes env: "clean_env env" and files: "posted s"
    and small: "small (pc_task_id (sp_core s))" "small_core s" "small_capability c" "small_prov prov"
    and c: "cr_get (sp_registry s) cid = Inr c" and perms: "set (cap_permissions c) \<subseteq> set (sp_allowed s)"
    and d: "eb_evaluate c (recorded_effects (sp_executors s) (cap_id c)) = Inr d" "eb_allowed d"
    and h: "xr_handler (sp_executors s) (cap_id c) = Inr h"
    and out: "h (length (sp_entries s)) payload = Raised t m" and big: "MAX_RECORD_BYTES \<le> length m"
  obtains s' where "spine_run env cid payload prov s = (raise PyValueError ''state record exceeds 16 MiB'', s')"
    and "steady (s\<lparr>sp_entries := sp_entries s @ [\<lparr>he_capability_id = cap_id c, he_payload = payload, he_provenance = prov\<rparr>]\<rparr>) s'"
    and "sp_ledger s' = sp_ledger s"
proof -
  let ?e = "\<lparr>he_capability_id = cap_id c, he_payload = payload, he_provenance = prov\<rparr>"
  obtain packet gate receipt s1 where st: "steady s s1" and pre: "posted s1" and led: "sp_ledger s1 = sp_ledger s"
    and parts: "small_packet packet" "small_envelope gate" and start: "started_receipt c payload prov receipt"
    and run: "spine_run env cid payload prov s
      = run_allowed env c (vessel_plan cid payload) packet (pg_evaluate (sp_allowed s) c) gate receipt s1"
    by (rule spine_run_reaches [OF env files small c perms d])
  let ?s2 = "s1\<lparr>sp_entries := sp_entries s1 @ [?e]\<rparr>" and ?r = "receipt\<lparr>xc_executor_entered := True\<rparr>"
  have eq: "spine_run env cid payload prov s
      = run_failed env c packet (pg_evaluate (sp_allowed s) c) gate ?r (t @ '': '' @ m) ?s2"
    using run h st start out
    by (simp add: run_allowed_def call_handler_def steady_def started_receipt_def vessel_plan_def after_handler_def Let_def)
  have "posted ?s2" and big': "MAX_RECORD_BYTES \<le> length (t @ '': '' @ m)" using pre big by (simp_all add: posted_def)
  from run_failed_oversized [OF env small(3) parts this] obtain s' where f: "run_failed env c packet (pg_evaluate (sp_allowed s) c) gate ?r (t @ '': '' @ m) ?s2
      = (raise PyValueError ''state record exceeds 16 MiB'', s')" and st2: "steady ?s2 s'" "sp_ledger s' = sp_ledger ?s2"
    by blast
  show thesis
  proof (rule that)
    show "spine_run env cid payload prov s = (raise PyValueError ''state record exceeds 16 MiB'', s')" using eq f by simp
    have "steady (s\<lparr>sp_entries := sp_entries s @ [?e]\<rparr>) ?s2" using st by (simp add: steady_def)
    then show "steady (s\<lparr>sp_entries := sp_entries s @ [?e]\<rparr>) s'" using st2(1) by (rule steady_trans)
    show "sp_ledger s' = sp_ledger s" using st2(2) led by simp
  qed
qed

section \<open>A concrete spine\<close>

definition sample_env :: env where
  "sample_env = \<lparr>en_uuid = (\<lambda>n. ''u''), en_now = (\<lambda>n. ''t''), en_open = (\<lambda>n. None), en_write = (\<lambda>n. None)\<rparr>"

definition sample_handler :: handler where
  "sample_handler = (\<lambda>n payload. Artifact \<lparr>ar_path = ''/state/artifacts/a.txt'', ar_sha256 = ''d''\<rparr>)"

definition sample_spine :: "handler \<Rightarrow> spine" where
  "sample_spine h = \<lparr>sp_registry = [(''commons.text_artifact'', text_capability)],
     sp_executors = \<lparr>xr_handlers = [(''commons.text_artifact'', h)],
       xr_effects = [(''commons.text_artifact'', [''filesystem.change''])]\<rparr>,
     sp_allowed = [''artifact.write''],
     sp_core = pc_activate (pc_initialize ''u'' (Some ''task'') [''artifact.write''] [''artifact.write'']
       (Some ''/state/ledger/mandala-receipts.jsonl'') None),
     sp_mandala = None, sp_ledger = rl_empty, sp_uuids = 0, sp_clock = 0, sp_io = 0, sp_entries = []\<rparr>"

lemma normalize_filesystem: "normalize_effects [JStr ''filesystem.change''] l ae = Inr [''filesystem.change'']"
  using normalize_effects_Ok_iff [of "[''filesystem.change'']" l ae "[''filesystem.change'']"]
  by (simp add: declared_effects_ok_def known_strip KNOWN_EFFECTS_def sorted_set_def)

lemma sample_spine_init:
  "spine_init ''u'' [''artifact.write'', ''artifact.write''] (Some ''task'') ''/state'' h None rl_empty = Inr (sample_spine h)"
  by (simp add: spine_init_def cr_register_def xr_register_def xr_empty_def from_keys_def Let_def
      text_capability_def normalize_filesystem sample_spine_def)

lemma sample_classified:
  "\<exists>d. eb_evaluate text_capability (recorded_effects (sp_executors (sample_spine h)) ''commons.text_artifact'') = Inr d \<and> eb_allowed d"
  by (simp add: sample_spine_def recorded_effects_def xr_lookup_effects_def eb_evaluate_def text_capability_def
      normalize_filesystem eb_allowed_def Let_def)

lemma sample_spine_small:
  assumes "\<And>n p. small_outcome (h n p)" and "\<And>n p. h n p \<noteq> Interrupted"
  shows "small_config (sample_spine h)" "small_core (sample_spine h)" "never_interrupts (sample_spine h)" "posted (sample_spine h)"
  using assms
  by (simp_all add: small_config_def small_core_def never_interrupts_def posted_def sample_spine_def pc_activate_def
      pc_initialize_def small_def small_capability_def text_capability_def ac_to_dict_def readable_def read_jsonl_def rl_empty_def)

lemma sample_env_clean: "clean_env sample_env"
  by (simp add: clean_env_def small_env_def sample_env_def small_def)

lemma sample_handler_small: "small_outcome (sample_handler n p)" "sample_handler n p \<noteq> Interrupted"
  by (simp_all add: sample_handler_def small_def)

section \<open>Properties\<close>

text \<open>C12: \<open>run\<close> enters at most one handler, once, and only the handler registered for the registered
  capability it was asked for, when the effect contracts of capability and executor are classified
  and every permission the capability requests is granted; the receipt it returns says truthfully
  whether a handler was entered.\<close>

theorem run_enters_only_authorized:
  assumes "spine_run env cid payload prov s = (r, s')"
  shows "(sp_entries s' = sp_entries s \<and>
      (\<forall>x. r = Ok x \<longrightarrow> xc_executor_entered x \<longrightarrow> (\<exists>c e. cr_get (sp_registry s) cid = Ok c \<and> xr_handler (sp_executors s) (cap_id c) = Inl e)))
    \<or> (\<exists>c h d. sp_entries s' = sp_entries s @ [\<lparr>he_capability_id = cap_id c, he_payload = payload, he_provenance = prov\<rparr>] \<and>
        cr_get (sp_registry s) cid = Ok c \<and> xr_handler (sp_executors s) (cap_id c) = Ok h \<and>
        eb_evaluate c (recorded_effects (sp_executors s) (cap_id c)) = Ok d \<and> eb_allowed d \<and>
        set (cap_permissions c) \<subseteq> set (sp_allowed s) \<and>
        (\<forall>x. r = Ok x \<longrightarrow> xc_executor_entered x \<and> xc_permission_status x = ''allowed'' \<and>
           xc_execution_status x \<in> {''succeeded'', ''failed'', ''outcome_unknown''} \<and> xc_governed_provenance x = prov))"
  using assms
proof (cases rule: spine_run_cases)
  case quiet
  then show ?thesis by (auto simp: steady_def refused_receipt_def)
next
  case (entered c h packet gate receipt s1)
  let ?e = "\<lparr>he_capability_id = cap_id c, he_payload = payload, he_provenance = prov\<rparr>"
  let ?s2 = "s1\<lparr>sp_entries := sp_entries s1 @ [?e]\<rparr>"
  note facts = entered [unfolded entered_at_def]
  then obtain d where d: "eb_evaluate c (recorded_effects (sp_executors s) (cap_id c)) = Inr d" "eb_allowed d" by blast
  have after: "after_handler env c packet (pg_evaluate (sp_allowed s) c) gate (receipt\<lparr>xc_executor_entered := True\<rparr>)
      (Inr (h (length (sp_entries s)) payload)) ?s2 = (r, s')" using facts by blast
  have "steady ?s2 s'" using quiet_after_handler after by (rule quietD)
  then have "sp_entries s' = sp_entries s @ [?e]" using facts by (simp add: steady_def)
  moreover have "xc_executor_entered x \<and> xc_permission_status x = ''allowed'' \<and>
      xc_execution_status x \<in> {''succeeded'', ''failed'', ''outcome_unknown''} \<and> xc_governed_provenance x = prov"
    if "r = Inr x" for x
    using after_handler_returns [OF after [unfolded that]] facts
    by (auto simp: attempted_def same_request_def started_receipt_def)
  ultimately show ?thesis using d facts by blast
qed

theorem run_enters_only_authorized_witness:
  "\<exists>r s'. spine_run sample_env ''nothing'' [] None (sample_spine sample_handler) = (r, s') \<and>
     sp_entries s' = sp_entries (sample_spine sample_handler)"
proof -
  obtain r s' where run: "spine_run sample_env ''nothing'' [] None (sample_spine sample_handler) = (r, s')" by fastforce
  have "cr_get (sp_registry (sample_spine sample_handler)) ''nothing'' = raise PyKeyError ''Unknown capability: nothing''"
    by (simp add: cr_get_def sample_spine_def)
  with run_enters_only_authorized [OF run] run show ?thesis by auto
qed

text \<open>C13: A run always completes when nothing is in its way: the capability is registered with an
  executor, the effect contracts are classified, the permissions granted, the histories intact,
  the file system answers and texts have ordinary size.  The handler is then called exactly once,
  the receipt carries the status of its outcome, and it is the last row of the execution history.\<close>

theorem undisturbed_run_completes:
  assumes env: "clean_env env" and conf: "small_config s" "never_interrupts s" "small_core s" "small_prov prov"
    and files: "posted s"
    and c: "cr_get (sp_registry s) cid = Ok c" and perms: "set (cap_permissions c) \<subseteq> set (sp_allowed s)"
    and d: "eb_evaluate c (recorded_effects (sp_executors s) (cap_id c)) = Ok d" "eb_allowed d"
    and h: "xr_handler (sp_executors s) (cap_id c) = Ok h"
  shows "\<exists>x s'. spine_run env cid payload prov s = (Ok x, s') \<and>
     sp_entries s' = sp_entries s @ [\<lparr>he_capability_id = cap_id c, he_payload = payload, he_provenance = prov\<rparr>] \<and>
     xc_execution_status x = outcome_status (h (length (sp_entries s)) payload) \<and> logged x s'"
  by (rule run_completes [OF assms, where payload = payload]) (auto simp: steady_def)

theorem undisturbed_run_completes_witness:
  "\<exists>x s'. spine_run sample_env ''commons.text_artifact'' [(''text'', JStr ''hi'')] None (sample_spine sample_handler) = (Ok x, s') \<and>
     length (sp_entries s') = 1 \<and> xc_execution_status x = ''succeeded'' \<and> logged x s'"
proof -
  let ?s = "sample_spine sample_handler"
  obtain d where d: "eb_evaluate text_capability (recorded_effects (sp_executors ?s) (cap_id text_capability)) = Inr d" "eb_allowed d"
    using sample_classified by (auto simp: text_capability_def)
  have c: "cr_get (sp_registry ?s) ''commons.text_artifact'' = Inr text_capability"
    and a: "set (cap_permissions text_capability) \<subseteq> set (sp_allowed ?s)"
    and h: "xr_handler (sp_executors ?s) (cap_id text_capability) = Inr sample_handler"
    by (simp_all add: cr_get_def sample_spine_def text_capability_def xr_handler_def)
  note small = sample_spine_small [of sample_handler, OF sample_handler_small]
  have "small_prov None" by (simp add: small_prov_def)
  from undisturbed_run_completes [OF sample_env_clean small(1,3,2) this small(4) c a d h, of "[(''text'', JStr ''hi'')]"]
  show ?thesis by (auto simp: sample_handler_def sample_spine_def)
qed

end
