(* ===== verification/Plan_Binding.thy ===== *)
theory Plan_Binding
  imports Spine_Runtime
begin

text \<open>
  \<open>phios/core/governed_action_binding.py\<close>, with the plan states of
  \<open>phios/core/governed_plan_adoption.py\<close> it validates: a binding ties one edge of an adopted plan
  to one capability and one payload digest, under an external grant scoped to exactly that tuple.
  The dataclasses of the two modules are not validated by a constructor; their fields have the
  declared types, and \<open>validate_plan_state\<close> and \<open>validate_binding\<close> check everything else.
\<close>

section \<open>Plan states\<close>

record plan_state =
  ps_schema :: string
  ps_plan_id :: string
  ps_revision :: int
  ps_path_ids :: "string list"
  ps_source_route_receipt_sha256 :: string
  ps_source_replan_receipt_sha256 :: "string option"
  ps_parent_plan_sha256 :: "string option"
  ps_action_authority :: bool
  ps_execution_authority :: bool
  ps_state_sha256 :: string

definition plan_state_to_dict :: "plan_state \<Rightarrow> json" where
  "plan_state_to_dict p = JObj
     [(''schema'', JStr (ps_schema p)),
      (''plan_id'', JStr (ps_plan_id p)),
      (''revision'', JInt (ps_revision p)),
      (''path_ids'', jstrs (ps_path_ids p)),
      (''source_route_receipt_sha256'', JStr (ps_source_route_receipt_sha256 p)),
      (''source_replan_receipt_sha256'', jopt (ps_source_replan_receipt_sha256 p)),
      (''parent_plan_sha256'', jopt (ps_parent_plan_sha256 p)),
      (''action_authority'', JBool (ps_action_authority p)),
      (''execution_authority'', JBool (ps_execution_authority p)),
      (''state_sha256'', JStr (ps_state_sha256 p))]"

definition plan_state_digest ::
  "string \<Rightarrow> int \<Rightarrow> string list \<Rightarrow> string \<Rightarrow> string option \<Rightarrow> string option \<Rightarrow> string" where
  "plan_state_digest plan_id revision path_ids route replan parent = canonical_sha256 (JObj
     [(''schema'', JStr ''phios.plan_state.v0.6''),
      (''plan_id'', JStr plan_id),
      (''revision'', JInt revision),
      (''path_ids'', jstrs path_ids),
      (''source_route_receipt_sha256'', JStr route),
      (''source_replan_receipt_sha256'', jopt replan),
      (''parent_plan_sha256'', jopt parent),
      (''action_authority'', JBool False),
      (''execution_authority'', JBool False)])"

definition build_plan_state ::
  "string \<Rightarrow> int \<Rightarrow> string list \<Rightarrow> string \<Rightarrow> string option \<Rightarrow> string option \<Rightarrow> plan_state" where
  "build_plan_state plan_id revision path_ids route replan parent =
     \<lparr>ps_schema = ''phios.plan_state.v0.6'', ps_plan_id = plan_id, ps_revision = revision, ps_path_ids = path_ids,
      ps_source_route_receipt_sha256 = route, ps_source_replan_receipt_sha256 = replan,
      ps_parent_plan_sha256 = parent, ps_action_authority = False, ps_execution_authority = False,
      ps_state_sha256 = plan_state_digest plan_id revision path_ids route replan parent\<rparr>"

definition validate_plan_state :: "plan_state \<Rightarrow> unit result" where
  "validate_plan_state p = first_error
     [ensure (ps_schema p = ''phios.plan_state.v0.6'') PlanAdoptionContractError ''unsupported plan state schema'',
      ensure (strip (ps_plan_id p) \<noteq> []) PlanAdoptionContractError ''plan state plan_id must be non-empty'',
      ensure (0 \<le> ps_revision p) PlanAdoptionContractError ''plan state revision must be non-negative'',
      ensure (ps_path_ids p \<noteq> [] \<and> list_all (\<lambda>i. strip i \<noteq> []) (ps_path_ids p)) PlanAdoptionContractError
        ''plan state must contain non-empty path IDs'',
      ensure (\<not> ps_action_authority p) PlanAdoptionContractError ''plan state cannot carry action authority'',
      ensure (\<not> ps_execution_authority p) PlanAdoptionContractError ''plan state cannot carry execution authority'',
      ensure (plan_state_digest (ps_plan_id p) (ps_revision p) (ps_path_ids p) (ps_source_route_receipt_sha256 p)
          (ps_source_replan_receipt_sha256 p) (ps_parent_plan_sha256 p) = ps_state_sha256 p)
        PlanAdoptionContractError ''plan state hash does not match state contents'']"

section \<open>Grants, bindings and receipts\<close>

record action_binding_grant =
  bg_grant_id :: string
  bg_authority_source :: string
  bg_plan_id :: string
  bg_plan_state_sha256 :: string
  bg_transition_index :: int
  bg_source_state_id :: string
  bg_target_state_id :: string
  bg_capability_id :: string
  bg_payload_sha256 :: string

definition bg_to_payload :: "action_binding_grant \<Rightarrow> json" where
  "bg_to_payload g = JObj
     [(''schema'', JStr ''phios.action_binding_grant.v0.7''),
      (''grant_id'', JStr (bg_grant_id g)),
      (''authority_source'', JStr (bg_authority_source g)),
      (''plan_id'', JStr (bg_plan_id g)),
      (''plan_state_sha256'', JStr (bg_plan_state_sha256 g)),
      (''transition_index'', JInt (bg_transition_index g)),
      (''source_state_id'', JStr (bg_source_state_id g)),
      (''target_state_id'', JStr (bg_target_state_id g)),
      (''capability_id'', JStr (bg_capability_id g)),
      (''payload_sha256'', JStr (bg_payload_sha256 g))]"

definition bg_grant_sha256 :: "action_binding_grant \<Rightarrow> string" where
  "bg_grant_sha256 g = canonical_sha256 (bg_to_payload g)"

record plan_action_binding =
  pb_schema :: string
  pb_plan_id :: string
  pb_plan_state_sha256 :: string
  pb_plan_revision :: int
  pb_transition_index :: int
  pb_source_state_id :: string
  pb_target_state_id :: string
  pb_capability_id :: string
  pb_capability_version :: string
  pb_capability_risk :: string
  pb_permissions_requested :: "string list"
  pb_effects_declared :: "string list"
  pb_payload_sha256 :: string
  pb_grant_id :: string
  pb_grant_sha256 :: string
  pb_authority_source :: string
  pb_action_authority :: bool
  pb_execution_authority :: bool
  pb_binding_sha256 :: string

text \<open>The dict \<open>validate_binding\<close> and \<open>bind\<close> hash; the two authority flags are constants there.\<close>

definition binding_items :: "plan_action_binding \<Rightarrow> (string \<times> json) list" where
  "binding_items b =
     [(''schema'', JStr (pb_schema b)),
      (''plan_id'', JStr (pb_plan_id b)),
      (''plan_state_sha256'', JStr (pb_plan_state_sha256 b)),
      (''plan_revision'', JInt (pb_plan_revision b)),
      (''transition_index'', JInt (pb_transition_index b)),
      (''source_state_id'', JStr (pb_source_state_id b)),
      (''target_state_id'', JStr (pb_target_state_id b)),
      (''capability_id'', JStr (pb_capability_id b)),
      (''capability_version'', JStr (pb_capability_version b)),
      (''capability_risk'', JStr (pb_capability_risk b)),
      (''permissions_requested'', jstrs (pb_permissions_requested b)),
      (''effects_declared'', jstrs (pb_effects_declared b)),
      (''payload_sha256'', JStr (pb_payload_sha256 b)),
      (''grant_id'', JStr (pb_grant_id b)),
      (''grant_sha256'', JStr (pb_grant_sha256 b)),
      (''authority_source'', JStr (pb_authority_source b))]"

definition binding_payload :: "plan_action_binding \<Rightarrow> (string \<times> json) list" where
  "binding_payload b = binding_items b @
     [(''action_authority'', JBool False),
      (''execution_authority'', JBool False)]"

definition binding_to_dict :: "plan_action_binding \<Rightarrow> json" where
  "binding_to_dict b = JObj
     (binding_items b @
      [(''action_authority'', JBool (pb_action_authority b)),
       (''execution_authority'', JBool (pb_execution_authority b)),
       (''binding_sha256'', JStr (pb_binding_sha256 b))])"

record action_binding_receipt =
  br_schema :: string
  br_status :: string
  br_reason :: string
  br_plan_id :: string
  br_plan_state_sha256 :: string
  br_transition_index :: int
  br_source_state_id :: string
  br_target_state_id :: string
  br_capability_id :: string
  br_payload_sha256 :: string
  br_permissions_requested :: "string list"
  br_effects_declared :: "string list"
  br_grant_id :: "string option"
  br_grant_sha256 :: "string option"
  br_authority_source :: "string option"
  br_grant_scope_valid :: bool
  br_binding_sha256 :: "string option"
  br_action_authority :: bool
  br_execution_authority :: bool
  br_receipt_sha256 :: string

definition br_items :: "action_binding_receipt \<Rightarrow> (string \<times> json) list" where
  "br_items r =
     [(''schema'', JStr (br_schema r)),
      (''status'', JStr (br_status r)),
      (''reason'', JStr (br_reason r)),
      (''plan_id'', JStr (br_plan_id r)),
      (''plan_state_sha256'', JStr (br_plan_state_sha256 r)),
      (''transition_index'', JInt (br_transition_index r)),
      (''source_state_id'', JStr (br_source_state_id r)),
      (''target_state_id'', JStr (br_target_state_id r)),
      (''capability_id'', JStr (br_capability_id r)),
      (''payload_sha256'', JStr (br_payload_sha256 r)),
      (''permissions_requested'', jstrs (br_permissions_requested r)),
      (''effects_declared'', jstrs (br_effects_declared r)),
      (''grant_id'', jopt (br_grant_id r)),
      (''grant_sha256'', jopt (br_grant_sha256 r)),
      (''authority_source'', jopt (br_authority_source r)),
      (''grant_scope_valid'', JBool (br_grant_scope_valid r)),
      (''binding_sha256'', jopt (br_binding_sha256 r)),
      (''action_authority'', JBool (br_action_authority r)),
      (''execution_authority'', JBool (br_execution_authority r))]"

definition br_to_dict :: "action_binding_receipt \<Rightarrow> json" where
  "br_to_dict r = JObj (br_items r @ [(''receipt_sha256'', JStr (br_receipt_sha256 r))])"

section \<open>Validation\<close>

definition bind_require_sha256 :: "string \<Rightarrow> string \<Rightarrow> unit result" where
  "bind_require_sha256 value label =
     (let normalized = lower (strip value) in
      if length normalized \<noteq> 64 then raise ActionBindingContractError (label @ '' must be a SHA-256 hex digest'')
      else if int16_accepts normalized then Ok ()
      else raise ActionBindingContractError (label @ '' must be a SHA-256 hex digest''))"

definition RISKS :: "string list" where
  "RISKS = [''read'', ''low'', ''medium'', ''high'']"

definition validate_binding :: "plan_action_binding \<Rightarrow> unit result" where
  "validate_binding b = first_error
     [ensure (pb_schema b = ''phios.plan_action_binding.v0.7.1'') ActionBindingContractError ''unsupported action binding schema'',
      ensure (\<not> pb_action_authority b) ActionBindingContractError ''action binding cannot carry action authority'',
      ensure (\<not> pb_execution_authority b) ActionBindingContractError ''action binding cannot carry execution authority'',
      ensure (strip (pb_plan_id b) \<noteq> []) ActionBindingContractError ''binding plan_id must be non-empty'',
      ensure (0 \<le> pb_plan_revision b) ActionBindingContractError ''binding plan_revision must be non-negative'',
      ensure (0 \<le> pb_transition_index b) ActionBindingContractError ''binding transition_index must be non-negative'',
      ensure (strip (pb_source_state_id b) \<noteq> [] \<and> strip (pb_target_state_id b) \<noteq> []) ActionBindingContractError
        ''binding source and target state IDs must be non-empty'',
      ensure (strip (pb_capability_id b) \<noteq> []) ActionBindingContractError ''binding capability_id must be non-empty'',
      ensure (strip (pb_capability_version b) \<noteq> []) ActionBindingContractError ''binding capability_version must be non-empty'',
      ensure (pb_capability_risk b \<in> set RISKS) ActionBindingContractError ''binding capability_risk is invalid'',
      ensure (list_all (\<lambda>p. strip p \<noteq> []) (pb_permissions_requested b)) ActionBindingContractError
        ''binding permissions must be non-empty strings'',
      ensure (distinct (pb_permissions_requested b)) ActionBindingContractError ''binding permissions must be unique'',
      rbind (rewrap EffectBoundaryContractError ActionBindingContractError
          (normalize_effects (map JStr (pb_effects_declared b)) ''binding effects'' False)) (\<lambda>effects. first_error
        [ensure (effects = pb_effects_declared b) ActionBindingContractError
           ''binding effects must be canonical, unique, and sorted'',
         ensure (''unknown'' \<notin> set effects) ActionBindingContractError ''binding effects cannot contain unknown'']),
      bind_require_sha256 (pb_plan_state_sha256 b) ''plan_state_sha256'',
      bind_require_sha256 (pb_payload_sha256 b) ''payload_sha256'',
      bind_require_sha256 (pb_grant_sha256 b) ''grant_sha256'',
      bind_require_sha256 (pb_binding_sha256 b) ''binding_sha256'',
      ensure (strip (pb_grant_id b) \<noteq> []) ActionBindingContractError ''binding grant_id must be non-empty'',
      ensure (strip (pb_authority_source b) \<noteq> []) ActionBindingContractError ''binding authority_source must be non-empty'',
      ensure (canonical_sha256 (JObj (binding_payload b)) = pb_binding_sha256 b) ActionBindingContractError
        ''action binding hash does not match binding contents'']"

section \<open>Binding\<close>

definition plan_transition :: "plan_state \<Rightarrow> json \<Rightarrow> (int \<times> string \<times> string) result" where
  "plan_transition plan transition_index =
     (case transition_index of
        JInt i \<Rightarrow>
          if i < 0 \<or> int (length (ps_path_ids plan)) - 1 \<le> i
          then raise ActionBindingContractError ''transition_index must identify an existing plan edge''
          else Ok (i, ps_path_ids plan ! nat i, ps_path_ids plan ! (nat i + 1))
      | _ \<Rightarrow> raise ActionBindingContractError ''transition_index must be an integer'')"

definition validate_capability ::
  "capability \<Rightarrow> (string \<times> string \<times> string \<times> string list \<times> string list) result" where
  "validate_capability c =
     (let capability_id = strip (cap_id c); version = strip (cap_version c); risk = strip (cap_risk c);
          permissions = map strip (cap_permissions c)
      in rbind (first_error
          [ensure (capability_id \<noteq> []) ActionBindingContractError ''capability id must be non-empty'',
           ensure (version \<noteq> []) ActionBindingContractError ''capability version must be non-empty'',
           ensure (risk \<in> set RISKS) ActionBindingContractError ''capability risk must be read, low, medium, or high'',
           ensure (list_all (\<lambda>p. p \<noteq> []) permissions) ActionBindingContractError ''capability permissions must be non-empty'',
           ensure (distinct permissions) ActionBindingContractError ''capability permissions must be unique'']) (\<lambda>_.
         rbind (rewrap EffectBoundaryContractError ActionBindingContractError
           (normalize_effects (map JStr (cap_effects c)) ''capability effects'' False)) (\<lambda>effects.
         if ''unknown'' \<in> set effects
         then raise ActionBindingContractError ''capability effects cannot contain unknown''
         else Ok (capability_id, version, risk, permissions, effects))))"

text \<open>\<open>None\<close> is a scope that matches; \<open>Some reason\<close> the reason of the HELD receipt.\<close>

definition grant_scope ::
  "plan_state \<Rightarrow> int \<Rightarrow> string \<Rightarrow> string \<Rightarrow> string \<Rightarrow> string \<Rightarrow> action_binding_grant option \<Rightarrow> string option result" where
  "grant_scope plan i source target capability_id payload_sha256 grant =
     (case grant of
        None \<Rightarrow> Ok (Some ''action_binding_authority_missing'')
      | Some g \<Rightarrow>
          if strip (bg_grant_id g) = [] then raise ActionBindingContractError ''grant_id must be non-empty''
          else if strip (bg_authority_source g) = []
          then raise ActionBindingContractError ''grant authority_source must be non-empty''
          else if strip (bg_plan_id g) \<noteq> ps_plan_id plan then Ok (Some ''grant_plan_scope_mismatch'')
          else if bg_plan_state_sha256 g \<noteq> ps_state_sha256 plan then Ok (Some ''grant_plan_state_scope_mismatch'')
          else if bg_transition_index g \<noteq> i then Ok (Some ''grant_transition_scope_mismatch'')
          else if bg_source_state_id g \<noteq> source then Ok (Some ''grant_source_scope_mismatch'')
          else if bg_target_state_id g \<noteq> target then Ok (Some ''grant_target_scope_mismatch'')
          else if bg_capability_id g \<noteq> capability_id then Ok (Some ''grant_capability_scope_mismatch'')
          else if bg_payload_sha256 g \<noteq> payload_sha256 then Ok (Some ''grant_payload_scope_mismatch'')
          else Ok None)"

definition binding_receipt ::
  "string \<Rightarrow> string \<Rightarrow> plan_state \<Rightarrow> int \<Rightarrow> string \<Rightarrow> string \<Rightarrow> string \<Rightarrow> string \<Rightarrow> string list \<Rightarrow> string list
    \<Rightarrow> action_binding_grant option \<Rightarrow> bool \<Rightarrow> string option \<Rightarrow> action_binding_receipt" where
  "binding_receipt status reason plan i source target capability_id payload_sha256 permissions effects grant valid binding_sha256 =
     (let r = \<lparr>br_schema = ''phios.action_binding_receipt.v0.7.1'', br_status = status, br_reason = reason,
            br_plan_id = ps_plan_id plan, br_plan_state_sha256 = ps_state_sha256 plan, br_transition_index = i,
            br_source_state_id = source, br_target_state_id = target, br_capability_id = capability_id,
            br_payload_sha256 = payload_sha256, br_permissions_requested = permissions, br_effects_declared = effects,
            br_grant_id = map_option (\<lambda>g. strip (bg_grant_id g)) grant, br_grant_sha256 = map_option bg_grant_sha256 grant,
            br_authority_source = map_option (\<lambda>g. strip (bg_authority_source g)) grant, br_grant_scope_valid = valid,
            br_binding_sha256 = binding_sha256, br_action_authority = False, br_execution_authority = False,
            br_receipt_sha256 = []\<rparr>
      in r\<lparr>br_receipt_sha256 := canonical_sha256 (JObj (br_items r))\<rparr>)"

definition bind_action ::
  "plan_state \<Rightarrow> json \<Rightarrow> capability \<Rightarrow> (string \<times> json) list \<Rightarrow> action_binding_grant option
    \<Rightarrow> (plan_action_binding option \<times> action_binding_receipt) result" where
  "bind_action plan transition_index c payload grant =
     rbind (validate_plan_state plan) (\<lambda>_.
     rbind (plan_transition plan transition_index) (\<lambda>(i, source, target).
     rbind (validate_capability c) (\<lambda>(capability_id, version, risk, permissions, effects).
     let payload_sha256 = canonical_sha256 (JObj payload)
     in rbind (grant_scope plan i source target capability_id payload_sha256 grant) (\<lambda>scope.
     case (scope, grant) of
       (None, Some g) \<Rightarrow>
         (let b = \<lparr>pb_schema = ''phios.plan_action_binding.v0.7.1'', pb_plan_id = ps_plan_id plan,
              pb_plan_state_sha256 = ps_state_sha256 plan, pb_plan_revision = ps_revision plan,
              pb_transition_index = i, pb_source_state_id = source, pb_target_state_id = target,
              pb_capability_id = capability_id, pb_capability_version = version, pb_capability_risk = risk,
              pb_permissions_requested = permissions, pb_effects_declared = effects,
              pb_payload_sha256 = payload_sha256, pb_grant_id = strip (bg_grant_id g),
              pb_grant_sha256 = bg_grant_sha256 g, pb_authority_source = strip (bg_authority_source g),
              pb_action_authority = False, pb_execution_authority = False, pb_binding_sha256 = []\<rparr>;
              sealed = b\<lparr>pb_binding_sha256 := canonical_sha256 (JObj (binding_payload b))\<rparr>
          in Ok (Some sealed, binding_receipt ''BOUND'' ''authorized_action_binding'' plan i source target
              capability_id payload_sha256 permissions effects grant True (Some (pb_binding_sha256 sealed))))
     | (scope, _) \<Rightarrow>
         Ok (None, binding_receipt ''HELD'' (case scope of None \<Rightarrow> ''grant_scope_valid'' | Some reason \<Rightarrow> reason) plan i source
              target capability_id payload_sha256 permissions effects grant False None)))))"

section \<open>Facts\<close>

lemma bind_require_digest: "is_sha256 d \<Longrightarrow> bind_require_sha256 d label = Inr ()"
  using validate_digest [of d label]
  by (auto simp: bind_require_sha256_def rl_validate_sha256_def Let_def split: if_splits)

lemmas check_simps = first_error_Ok_Cons first_error_Ok_Nil ensure_Ok_iff

lemma validate_plan_state_Ok_iff:
  "validate_plan_state p = Inr u \<longleftrightarrow>
     ps_schema p = ''phios.plan_state.v0.6'' \<and> strip (ps_plan_id p) \<noteq> [] \<and> 0 \<le> ps_revision p \<and>
     (ps_path_ids p \<noteq> [] \<and> list_all (\<lambda>i. strip i \<noteq> []) (ps_path_ids p)) \<and>
     \<not> ps_action_authority p \<and> \<not> ps_execution_authority p \<and>
     plan_state_digest (ps_plan_id p) (ps_revision p) (ps_path_ids p) (ps_source_route_receipt_sha256 p)
       (ps_source_replan_receipt_sha256 p) (ps_parent_plan_sha256 p) = ps_state_sha256 p"
  unfolding validate_plan_state_def check_simps by blast

lemma validate_plan_state_digest: "validate_plan_state p = Inr u \<Longrightarrow> is_sha256 (ps_state_sha256 p)"
  unfolding validate_plan_state_Ok_iff plan_state_digest_def
  by (elim conjE) (drule sym, simp)

lemma canonical_effects_check:
  "rbind (rewrap EffectBoundaryContractError ActionBindingContractError (normalize_effects (map JStr es) l False)) (\<lambda>effects. first_error
        [ensure (effects = es) ActionBindingContractError m, ensure (''unknown'' \<notin> set effects) ActionBindingContractError m']) = Inr ()
   \<longleftrightarrow> normalize_effects (map JStr es) l False = Inr es \<and> ''unknown'' \<notin> set es"
  unfolding rbind_Ok_iff rewrap_Ok_iff check_simps by blast

definition binding_ok :: "plan_action_binding \<Rightarrow> bool" where
  "binding_ok b \<longleftrightarrow>
     pb_schema b = ''phios.plan_action_binding.v0.7.1'' \<and> \<not> pb_action_authority b \<and> \<not> pb_execution_authority b \<and>
     strip (pb_plan_id b) \<noteq> [] \<and> 0 \<le> pb_plan_revision b \<and> 0 \<le> pb_transition_index b \<and>
     (strip (pb_source_state_id b) \<noteq> [] \<and> strip (pb_target_state_id b) \<noteq> []) \<and> strip (pb_capability_id b) \<noteq> [] \<and>
     strip (pb_capability_version b) \<noteq> [] \<and> pb_capability_risk b \<in> set RISKS \<and>
     list_all (\<lambda>p. strip p \<noteq> []) (pb_permissions_requested b) \<and> distinct (pb_permissions_requested b) \<and>
     (normalize_effects (map JStr (pb_effects_declared b)) ''binding effects'' False = Inr (pb_effects_declared b) \<and>
      ''unknown'' \<notin> set (pb_effects_declared b)) \<and>
     bind_require_sha256 (pb_plan_state_sha256 b) ''plan_state_sha256'' = Inr () \<and>
     bind_require_sha256 (pb_payload_sha256 b) ''payload_sha256'' = Inr () \<and>
     bind_require_sha256 (pb_grant_sha256 b) ''grant_sha256'' = Inr () \<and>
     bind_require_sha256 (pb_binding_sha256 b) ''binding_sha256'' = Inr () \<and>
     strip (pb_grant_id b) \<noteq> [] \<and> strip (pb_authority_source b) \<noteq> [] \<and>
     canonical_sha256 (JObj (binding_payload b)) = pb_binding_sha256 b"

lemma validate_binding_Ok_iff: "validate_binding b = Inr u \<longleftrightarrow> binding_ok b"
  unfolding validate_binding_def check_simps canonical_effects_check binding_ok_def by blast

lemma binding_ok_digest: "binding_ok b \<Longrightarrow> is_sha256 (pb_binding_sha256 b)"
  unfolding binding_ok_def by (elim conjE) (drule sym, simp)

lemma validate_capability_Ok_iff:
  "validate_capability c = Inr (i, v, r, ps, es) \<longleftrightarrow>
     i = strip (cap_id c) \<and> v = strip (cap_version c) \<and> r = strip (cap_risk c) \<and> ps = map strip (cap_permissions c) \<and>
     i \<noteq> [] \<and> v \<noteq> [] \<and> r \<in> set RISKS \<and> list_all (\<lambda>p. p \<noteq> []) ps \<and> distinct ps \<and>
     normalize_effects (map JStr (cap_effects c)) ''capability effects'' False = Inr es \<and> ''unknown'' \<notin> set es"
  unfolding validate_capability_def Let_def rbind_Ok_iff check_simps rewrap_Ok_iff by auto

lemma plan_transition_Ok_iff:
  "plan_transition p t = Inr (i, a, z) \<longleftrightarrow>
     t = JInt i \<and> 0 \<le> i \<and> i < int (length (ps_path_ids p)) - 1 \<and> a = ps_path_ids p ! nat i \<and> z = ps_path_ids p ! (nat i + 1)"
  by (cases t) (auto simp: plan_transition_def)

text \<open>The grant names exactly the tuple that is bound.\<close>

definition grant_matches :: "plan_state \<Rightarrow> int \<Rightarrow> string \<Rightarrow> string \<Rightarrow> string \<Rightarrow> string \<Rightarrow> action_binding_grant \<Rightarrow> bool" where
  "grant_matches plan i source target capability_id payload_sha256 g \<longleftrightarrow>
     strip (bg_grant_id g) \<noteq> [] \<and> strip (bg_authority_source g) \<noteq> [] \<and> strip (bg_plan_id g) = ps_plan_id plan \<and>
     bg_plan_state_sha256 g = ps_state_sha256 plan \<and> bg_transition_index g = i \<and> bg_source_state_id g = source \<and>
     bg_target_state_id g = target \<and> bg_capability_id g = capability_id \<and> bg_payload_sha256 g = payload_sha256"

lemma grant_scope_None_iff:
  "grant_scope p i a z c h grant = Inr None \<longleftrightarrow> (\<exists>g. grant = Some g \<and> grant_matches p i a z c h g)"
  by (auto simp: grant_scope_def grant_matches_def split: option.splits)

text \<open>The binding \<open>bind\<close> seals, as a function of what it bound.\<close>

definition sealed_binding ::
  "plan_state \<Rightarrow> int \<Rightarrow> string \<Rightarrow> string \<Rightarrow> string \<times> string \<times> string \<times> string list \<times> string list \<Rightarrow> string
    \<Rightarrow> action_binding_grant \<Rightarrow> plan_action_binding" where
  "sealed_binding plan i source target cap payload_sha256 g =
     (case cap of (capability_id, version, risk, permissions, effects) \<Rightarrow>
        let b = \<lparr>pb_schema = ''phios.plan_action_binding.v0.7.1'', pb_plan_id = ps_plan_id plan,
              pb_plan_state_sha256 = ps_state_sha256 plan, pb_plan_revision = ps_revision plan,
              pb_transition_index = i, pb_source_state_id = source, pb_target_state_id = target,
              pb_capability_id = capability_id, pb_capability_version = version, pb_capability_risk = risk,
              pb_permissions_requested = permissions, pb_effects_declared = effects,
              pb_payload_sha256 = payload_sha256, pb_grant_id = strip (bg_grant_id g),
              pb_grant_sha256 = bg_grant_sha256 g, pb_authority_source = strip (bg_authority_source g),
              pb_action_authority = False, pb_execution_authority = False, pb_binding_sha256 = []\<rparr>
        in b\<lparr>pb_binding_sha256 := canonical_sha256 (JObj (binding_payload b))\<rparr>)"

lemma bind_action_dest:
  assumes "bind_action plan t c payload grant = Inr (Some b, r)"
  shows "\<exists>i a z cap g. validate_plan_state plan = Inr () \<and> plan_transition plan t = Inr (i, a, z) \<and>
    validate_capability c = Inr cap \<and> grant = Some g \<and>
    grant_scope plan i a z (fst cap) (canonical_sha256 (JObj payload)) grant = Inr None \<and>
    b = sealed_binding plan i a z cap (canonical_sha256 (JObj payload)) g"
  using assms
  by (auto simp: bind_action_def Let_def rbind_Ok_iff sealed_binding_def split: prod.splits option.splits)

lemma sealed_binding_simps [simp]:
  "pb_schema (sealed_binding plan i a z cap h g) = ''phios.plan_action_binding.v0.7.1''"
  "pb_plan_id (sealed_binding plan i a z cap h g) = ps_plan_id plan"
  "pb_plan_state_sha256 (sealed_binding plan i a z cap h g) = ps_state_sha256 plan"
  "pb_plan_revision (sealed_binding plan i a z cap h g) = ps_revision plan"
  "pb_transition_index (sealed_binding plan i a z cap h g) = i"
  "pb_source_state_id (sealed_binding plan i a z cap h g) = a"
  "pb_target_state_id (sealed_binding plan i a z cap h g) = z"
  "pb_capability_id (sealed_binding plan i a z cap h g) = fst cap"
  "pb_capability_version (sealed_binding plan i a z cap h g) = fst (snd cap)"
  "pb_capability_risk (sealed_binding plan i a z cap h g) = fst (snd (snd cap))"
  "pb_permissions_requested (sealed_binding plan i a z cap h g) = fst (snd (snd (snd cap)))"
  "pb_effects_declared (sealed_binding plan i a z cap h g) = snd (snd (snd (snd cap)))"
  "pb_payload_sha256 (sealed_binding plan i a z cap h g) = h"
  "pb_grant_id (sealed_binding plan i a z cap h g) = strip (bg_grant_id g)"
  "pb_grant_sha256 (sealed_binding plan i a z cap h g) = bg_grant_sha256 g"
  "pb_authority_source (sealed_binding plan i a z cap h g) = strip (bg_authority_source g)"
  "\<not> pb_action_authority (sealed_binding plan i a z cap h g)"
  "\<not> pb_execution_authority (sealed_binding plan i a z cap h g)"
  by (simp_all add: sealed_binding_def Let_def split: prod.splits)

lemma sealed_binding_digest:
  "canonical_sha256 (JObj (binding_payload (sealed_binding plan i a z cap h g))) = pb_binding_sha256 (sealed_binding plan i a z cap h g)"
  by (simp add: sealed_binding_def Let_def binding_payload_def binding_items_def split: prod.splits)

lemma normalize_effects_again:
  assumes "normalize_effects (map JStr xs) l ae = Inr es" shows "normalize_effects (map JStr es) l' ae = Inr es"
proof -
  from assms have e: "es = sorted_set (map strip xs)" and ok: "declared_effects_ok ae xs"
    by (simp_all add: normalize_effects_Ok_iff)
  from ok have "set es \<subseteq> set KNOWN_EFFECTS" by (auto simp: e declared_effects_ok_def)
  then have m: "map strip es = es" by (rule map_strip_known)
  have "declared_effects_ok ae es"
    using ok m by (auto simp: declared_effects_ok_def e)
  then show ?thesis by (simp add: normalize_effects_Ok_iff m) (simp add: e)
qed

lemma sealed_binding_valid:
  assumes "validate_plan_state plan = Inr ()" and "plan_transition plan t = Inr (i, a, z)"
    and "validate_capability c = Inr cap" and "grant_matches plan i a z (fst cap) h g" and "is_sha256 h"
  shows "binding_ok (sealed_binding plan i a z cap h g)"
proof -
  obtain cid v rk ps es where cap: "cap = (cid, v, rk, ps, es)" by (cases cap) auto
  note c = assms(3) [unfolded cap validate_capability_Ok_iff]
  have ids: "list_all (\<lambda>x. strip x \<noteq> []) (ps_path_ids plan)" using assms(1) by (simp add: validate_plan_state_Ok_iff)
  have "a \<in> set (ps_path_ids plan)" and "z \<in> set (ps_path_ids plan)"
    using assms(2) by (auto simp: plan_transition_Ok_iff)
  with ids have az: "strip a \<noteq> []" "strip z \<noteq> []" by (auto simp: list_all_iff)
  have e: "normalize_effects (map JStr es) ''binding effects'' False = Inr es"
    using c by (blast intro: normalize_effects_again)
  have ds: "is_sha256 (ps_state_sha256 plan)" by (rule validate_plan_state_digest [OF assms(1)])
  have ok: "strip cid = cid" "strip v = v" "list_all (\<lambda>p. strip p \<noteq> []) ps"
    "cid \<noteq> []" "v \<noteq> []" "rk \<in> set RISKS" "distinct ps" "''unknown'' \<notin> set es"
    using c by (auto simp: list_all_iff)
  have dg: "is_sha256 (bg_grant_sha256 g)" by (simp add: bg_grant_sha256_def)
  have db: "is_sha256 (pb_binding_sha256 (sealed_binding plan i a z cap h g))"
    by (simp add: sealed_binding_digest [symmetric])
  show ?thesis
    unfolding binding_ok_def sealed_binding_simps sealed_binding_digest
    using assms(1,2,4,5) az e ok ds dg db
    by (simp add: cap bind_require_digest validate_plan_state_Ok_iff plan_transition_Ok_iff grant_matches_def)
qed

text \<open>The contents a binding hash covers: everything but the hash itself.\<close>

lemma binding_contents_eq:
  assumes "canon (JObj (binding_payload b)) = canon (JObj (binding_payload b'))"
    and "binding_ok b" and "binding_ok b'"
  shows "b = b'"
proof -
  have "distinct (map fst (binding_payload x))" for x by (simp add: binding_payload_def binding_items_def)
  note keys = canon_JObj_eqD(2) [OF assms(1) this this, unfolded binding_payload_def binding_items_def]
  have h: "pb_binding_sha256 b = pb_binding_sha256 b'"
    using assms by (simp add: binding_ok_def canonical_sha256_def dumps_def)
  have "\<not> pb_action_authority b" "\<not> pb_action_authority b'" "\<not> pb_execution_authority b" "\<not> pb_execution_authority b'"
    using assms(2,3) by (simp_all add: binding_ok_def)
  moreover note keys [of "''schema''", simplified] keys [of "''plan_id''", simplified]
    keys [of "''plan_state_sha256''", simplified] keys [of "''plan_revision''", simplified]
    keys [of "''transition_index''", simplified] keys [of "''source_state_id''", simplified]
    keys [of "''target_state_id''", simplified] keys [of "''capability_id''", simplified]
    keys [of "''capability_version''", simplified] keys [of "''capability_risk''", simplified]
    keys [of "''permissions_requested''", simplified] keys [of "''effects_declared''", simplified]
    keys [of "''payload_sha256''", simplified] keys [of "''grant_id''", simplified]
    keys [of "''grant_sha256''", simplified] keys [of "''authority_source''", simplified]
  ultimately show ?thesis using h by (intro plan_action_binding.equality) simp_all
qed

section \<open>A concrete plan, grant and binding\<close>

definition sample_plan :: plan_state where
  "sample_plan = build_plan_state ''plan'' 0 [''a'', ''b'', ''c''] ''route'' None None"

definition sample_payload :: payload where
  "sample_payload = [(''text'', JStr ''hi'')]"

definition sample_grant :: action_binding_grant where
  "sample_grant = \<lparr>bg_grant_id = ''g'', bg_authority_source = ''human'', bg_plan_id = ''plan'',
     bg_plan_state_sha256 = ps_state_sha256 sample_plan, bg_transition_index = 0, bg_source_state_id = ''a'',
     bg_target_state_id = ''b'', bg_capability_id = ''commons.text_artifact'',
     bg_payload_sha256 = canonical_sha256 (JObj sample_payload)\<rparr>"

definition sample_binding :: plan_action_binding where
  "sample_binding = sealed_binding sample_plan 0 ''a'' ''b''
     (''commons.text_artifact'', ''0.1.0'', ''low'', [''artifact.write''], [''filesystem.change''])
     (canonical_sha256 (JObj sample_payload)) sample_grant"

lemma strip_plain [simp]:
  "strip ''plan'' = ''plan''" "strip ''a'' = ''a''" "strip ''b'' = ''b''" "strip ''c'' = ''c''" "strip ''g'' = ''g''" "strip ''human'' = ''human''"
  "strip ''commons.text_artifact'' = ''commons.text_artifact''" "strip ''0.1.0'' = ''0.1.0''" "strip ''low'' = ''low''"
  "strip ''artifact.write'' = ''artifact.write''"
  by (simp_all add: strip_id is_space_def)

lemma sample_plan_ok: "validate_plan_state sample_plan = Inr ()" "plan_transition sample_plan (JInt 0) = Inr (0, ''a'', ''b'')"
  by (simp_all add: validate_plan_state_Ok_iff sample_plan_def build_plan_state_def plan_transition_def)

lemma sample_capability_ok: "validate_capability text_capability
    = Inr (''commons.text_artifact'', ''0.1.0'', ''low'', [''artifact.write''], [''filesystem.change''])"
  by (simp add: validate_capability_Ok_iff text_capability_def normalize_filesystem RISKS_def)

lemma sample_grant_matches:
  "grant_matches sample_plan 0 ''a'' ''b'' ''commons.text_artifact'' (canonical_sha256 (JObj sample_payload)) sample_grant"
  by (simp add: grant_matches_def sample_grant_def) (simp add: sample_plan_def build_plan_state_def)

lemma sample_bind: "\<exists>r. bind_action sample_plan (JInt 0) text_capability sample_payload (Some sample_grant) = Inr (Some sample_binding, r)"
  using sample_plan_ok sample_capability_ok sample_grant_matches grant_scope_None_iff
    [of sample_plan 0 "''a''" "''b''" "''commons.text_artifact''" "canonical_sha256 (JObj sample_payload)" "Some sample_grant"]
  by (simp add: bind_action_def Let_def sample_binding_def sealed_binding_def)

lemma sample_binding_ok: "binding_ok sample_binding"
  unfolding sample_binding_def
  by (rule sealed_binding_valid [OF sample_plan_ok sample_capability_ok]) (use sample_grant_matches in simp_all)

section \<open>Properties\<close>

text \<open>a binding that \<open>bind\<close> returns passes \<open>validate_binding\<close>, carries neither authority flag, and
  was granted by a grant that names exactly the plan state, edge, capability and payload it binds; the
  permissions and effects are the capability's, and the receipt says so.\<close>

theorem bound_binding_is_granted:
  assumes "bind_action plan t c payload grant = Inr (Some b, r)"
  shows "\<exists>g i a z. grant = Some g \<and> t = JInt i \<and> validate_binding b = Inr ()
    \<and> ps_path_ids plan ! nat i = a \<and> ps_path_ids plan ! (nat i + 1) = z
    \<and> grant_matches plan i a z (strip (cap_id c)) (canonical_sha256 (JObj payload)) g
    \<and> pb_plan_state_sha256 b = ps_state_sha256 plan \<and> pb_transition_index b = i
    \<and> pb_source_state_id b = a \<and> pb_target_state_id b = z
    \<and> pb_capability_id b = strip (cap_id c) \<and> pb_payload_sha256 b = canonical_sha256 (JObj payload)
    \<and> pb_permissions_requested b = map strip (cap_permissions c)
    \<and> set (pb_effects_declared b) = strip ` set (cap_effects c)
    \<and> pb_grant_sha256 b = bg_grant_sha256 g
    \<and> \<not> pb_action_authority b \<and> \<not> pb_execution_authority b
    \<and> br_status r = ''BOUND'' \<and> br_binding_sha256 r = Some (pb_binding_sha256 b) \<and> br_grant_scope_valid r"
proof -
  obtain i a z cap g where p: "validate_plan_state plan = Inr ()" "plan_transition plan t = Inr (i, a, z)"
      "validate_capability c = Inr cap" "grant = Some g"
      "grant_scope plan i a z (fst cap) (canonical_sha256 (JObj payload)) grant = Inr None"
    and b: "b = sealed_binding plan i a z cap (canonical_sha256 (JObj payload)) g"
    using bind_action_dest [OF assms] by blast
  have gm: "grant_matches plan i a z (fst cap) (canonical_sha256 (JObj payload)) g"
    using p(4,5) by (simp add: grant_scope_None_iff)
  have v: "validate_binding b = Inr ()"
    unfolding validate_binding_Ok_iff b by (rule sealed_binding_valid [OF p(1-3) gm]) simp
  obtain cid v rk ps es where cap: "cap = (cid, v, rk, ps, es)" by (cases cap) auto
  note c = p(3) [unfolded cap validate_capability_Ok_iff]
  have es: "set es = strip ` set (cap_effects c)" using c by (auto simp: normalize_effects_Ok_iff)
  have r: "br_status r = ''BOUND'' \<and> br_binding_sha256 r = Some (pb_binding_sha256 b) \<and> br_grant_scope_valid r"
    using assms by (auto simp: bind_action_def Let_def rbind_Ok_iff binding_receipt_def split: option.splits prod.splits)
  show ?thesis
    using p(2,4) v gm c es r by (simp add: b cap plan_transition_Ok_iff)
qed

theorem bound_binding_is_granted_witness:
  "validate_binding sample_binding = Inr () \<and> pb_permissions_requested sample_binding = [''artifact.write'']"
proof -
  obtain r where "bind_action sample_plan (JInt 0) text_capability sample_payload (Some sample_grant) = Inr (Some sample_binding, r)"
    using sample_bind by blast
  from bound_binding_is_granted [OF this] show ?thesis by (auto simp: text_capability_def)
qed

text \<open>for a valid plan, an existing edge, a valid capability and a grant with an identity, \<open>bind\<close>
  always answers; it binds exactly when the grant names the tuple, and otherwise the receipt is HELD,
  names no binding and gives the first field in which grant and request differ.\<close>

theorem bind_decides_by_grant:
  assumes "validate_plan_state plan = Inr ()" and "plan_transition plan t = Inr (i, a, z)"
    and "validate_capability c = Inr cap"
    and "\<forall>g. grant = Some g \<longrightarrow> strip (bg_grant_id g) \<noteq> [] \<and> strip (bg_authority_source g) \<noteq> []"
  shows "\<exists>b r. bind_action plan t c payload grant = Inr (b, r) \<and>
    (b \<noteq> None \<longleftrightarrow> (\<exists>g. grant = Some g \<and> grant_matches plan i a z (fst cap) (canonical_sha256 (JObj payload)) g)) \<and>
    (b = None \<longrightarrow> br_status r = ''HELD'' \<and> br_binding_sha256 r = None \<and> \<not> br_grant_scope_valid r \<and>
       grant_scope plan i a z (fst cap) (canonical_sha256 (JObj payload)) grant = Inr (Some (br_reason r)))"
proof -
  have "\<exists>sc. grant_scope plan i a z (fst cap) (canonical_sha256 (JObj payload)) grant = Inr sc"
    using assms(4) by (cases grant) (simp_all add: grant_scope_def)
  then obtain sc where sc: "grant_scope plan i a z (fst cap) (canonical_sha256 (JObj payload)) grant = Inr sc" ..
  note none = grant_scope_None_iff [of plan i a z "fst cap" "canonical_sha256 (JObj payload)" grant]
  show ?thesis
    using assms(1-3) sc none
    by (cases cap; cases sc; cases grant)
       (auto simp: bind_action_def Let_def binding_receipt_def)
qed

theorem bind_decides_by_grant_witness:
  "\<exists>r. bind_action sample_plan (JInt 1) text_capability sample_payload (Some sample_grant) = Inr (None, r)
     \<and> br_status r = ''HELD'' \<and> br_reason r = ''grant_transition_scope_mismatch''"
proof -
  have g: "\<forall>g. Some sample_grant = Some g \<longrightarrow> strip (bg_grant_id g) \<noteq> [] \<and> strip (bg_authority_source g) \<noteq> []"
    by (simp add: sample_grant_def)
  have t: "plan_transition sample_plan (JInt 1) = Inr (1, ''b'', ''c'')"
    by (simp add: sample_plan_def build_plan_state_def plan_transition_def)
  have "grant_scope sample_plan 1 ''b'' ''c'' i h (Some sample_grant) = Inr (Some ''grant_transition_scope_mismatch'')" for i h
    by (simp add: grant_scope_def sample_grant_def) (simp add: sample_plan_def build_plan_state_def)
  with bind_decides_by_grant [OF sample_plan_ok(1) t sample_capability_ok g, of sample_payload]
  show ?thesis by (auto simp: grant_matches_def sample_grant_def)
qed

text \<open>two valid bindings with the same \<open>binding_sha256\<close> are the same binding, or their canonical
  texts are a SHA-256 collision: the digest by which execution is claimed and replay is detected
  stands for the whole scope.\<close>

theorem binding_digest_identifies_scope:
  assumes "validate_binding b = Inr ()" and "validate_binding b' = Inr ()"
    and "pb_binding_sha256 b = pb_binding_sha256 b'"
  shows "b = b' \<or> sha256_collision (utf8 (dumps (JObj (binding_payload b)))) (utf8 (dumps (JObj (binding_payload b'))))"
proof -
  note ok = assms(1,2) [unfolded validate_binding_Ok_iff]
  have "canonical_sha256 (JObj (binding_payload b)) = canonical_sha256 (JObj (binding_payload b'))"
    using ok assms(3) by (simp add: binding_ok_def)
  from canonical_sha256_binding [OF this] show ?thesis using binding_contents_eq [OF _ ok] by blast
qed

theorem binding_digest_identifies_scope_witness: "sample_binding = sample_binding \<or> sha256_collision [] []"
  using binding_digest_identifies_scope [of sample_binding sample_binding] sample_binding_ok
  by (simp add: validate_binding_Ok_iff sha256_collision_def)

end
