(* ===== verification/Execution_Handoff.thy ===== *)
theory Execution_Handoff
  imports Plan_Binding
begin

text \<open>
  \<open>phios/core/governed_execution_handoff.py\<close>: the hand-over of one bound action to the spine.  The
  binding is validated again against the plan, the payload and the running configuration, refused
  when the execution history already records an attempt under it, claimed exclusively, and only then
  run.  \<open>execute\<close> is cut where another process can come in between: \<open>gh_check\<close> up to the history
  scan, \<open>gh_claim\<close> the creation of the claim, \<open>gh_run\<close> the run and what is made of it.
\<close>

section \<open>Requests and receipts\<close>

text \<open>The four digests a leased execution adds; the other arguments of \<open>execute\<close>.\<close>

record handoff_request =
  hq_plan :: plan_state
  hq_binding :: plan_action_binding
  hq_payload :: payload
  hq_action_lease_sha256 :: "string option"
  hq_authority_epoch_sha256 :: "string option"
  hq_authorization_receipt_sha256 :: "string option"
  hq_lease_verification_sha256 :: "string option"

record execution_handoff_receipt =
  hx_schema :: string
  hx_status :: string
  hx_reason :: string
  hx_plan_id :: string
  hx_plan_state_sha256 :: string
  hx_plan_revision :: int
  hx_transition_index :: int
  hx_source_state_id :: string
  hx_target_state_id :: string
  hx_capability_id :: string
  hx_payload_sha256 :: string
  hx_action_binding_sha256 :: string
  hx_binding_consumed :: bool
  hx_replay_blocked :: bool
  hx_spine_receipt_id :: "string option"
  hx_spine_permission_status :: "string option"
  hx_spine_execution_status :: "string option"
  hx_gate_receipt_id :: "string option"
  hx_action_receipt_id :: "string option"
  hx_mandala_status :: "string option"
  hx_artifact_path :: "string option"
  hx_artifact_sha256 :: "string option"
  hx_action_authority :: bool
  hx_execution_authority :: bool
  hx_receipt_sha256 :: string

definition hx_items :: "execution_handoff_receipt \<Rightarrow> (string \<times> json) list" where
  "hx_items r =
     [(''schema'', JStr (hx_schema r)),
      (''status'', JStr (hx_status r)),
      (''reason'', JStr (hx_reason r)),
      (''plan_id'', JStr (hx_plan_id r)),
      (''plan_state_sha256'', JStr (hx_plan_state_sha256 r)),
      (''plan_revision'', JInt (hx_plan_revision r)),
      (''transition_index'', JInt (hx_transition_index r)),
      (''source_state_id'', JStr (hx_source_state_id r)),
      (''target_state_id'', JStr (hx_target_state_id r)),
      (''capability_id'', JStr (hx_capability_id r)),
      (''payload_sha256'', JStr (hx_payload_sha256 r)),
      (''action_binding_sha256'', JStr (hx_action_binding_sha256 r)),
      (''binding_consumed'', JBool (hx_binding_consumed r)),
      (''replay_blocked'', JBool (hx_replay_blocked r)),
      (''spine_receipt_id'', jopt (hx_spine_receipt_id r)),
      (''spine_permission_status'', jopt (hx_spine_permission_status r)),
      (''spine_execution_status'', jopt (hx_spine_execution_status r)),
      (''gate_receipt_id'', jopt (hx_gate_receipt_id r)),
      (''action_receipt_id'', jopt (hx_action_receipt_id r)),
      (''mandala_status'', jopt (hx_mandala_status r)),
      (''artifact_path'', jopt (hx_artifact_path r)),
      (''artifact_sha256'', jopt (hx_artifact_sha256 r)),
      (''action_authority'', JBool (hx_action_authority r)),
      (''execution_authority'', JBool (hx_execution_authority r))]"

definition hx_to_dict :: "execution_handoff_receipt \<Rightarrow> (string \<times> json) list" where
  "hx_to_dict r = hx_items r @ [(''receipt_sha256'', JStr (hx_receipt_sha256 r))]"

definition handoff_receipt ::
  "handoff_request \<Rightarrow> string \<Rightarrow> string \<Rightarrow> bool \<Rightarrow> bool \<Rightarrow> execution_receipt option \<Rightarrow> execution_handoff_receipt" where
  "handoff_receipt q status reason consumed replay execution =
     (let plan = hq_plan q; binding = hq_binding q;
          r = \<lparr>hx_schema = ''phios.execution_handoff_receipt.v0.8'', hx_status = status, hx_reason = reason,
            hx_plan_id = ps_plan_id plan, hx_plan_state_sha256 = ps_state_sha256 plan, hx_plan_revision = ps_revision plan,
            hx_transition_index = pb_transition_index binding, hx_source_state_id = pb_source_state_id binding,
            hx_target_state_id = pb_target_state_id binding, hx_capability_id = pb_capability_id binding,
            hx_payload_sha256 = pb_payload_sha256 binding, hx_action_binding_sha256 = pb_binding_sha256 binding,
            hx_binding_consumed = consumed, hx_replay_blocked = replay,
            hx_spine_receipt_id = map_option xc_receipt_id execution,
            hx_spine_permission_status = map_option xc_permission_status execution,
            hx_spine_execution_status = map_option xc_execution_status execution,
            hx_gate_receipt_id = Option.bind execution xc_gate_receipt_id,
            hx_action_receipt_id = Option.bind execution xc_action_receipt_id,
            hx_mandala_status = Option.bind execution xc_mandala_status,
            hx_artifact_path = Option.bind execution xc_artifact_path,
            hx_artifact_sha256 = Option.bind execution xc_artifact_sha256,
            hx_action_authority = False, hx_execution_authority = False, hx_receipt_sha256 = []\<rparr>
      in r\<lparr>hx_receipt_sha256 := canonical_sha256 (JObj (hx_items r))\<rparr>)"

definition held_receipt :: "handoff_request \<Rightarrow> string \<Rightarrow> bool \<Rightarrow> execution_handoff_receipt" where
  "held_receipt q reason replay = handoff_receipt q ''HELD'' reason False replay None"

section \<open>Revalidation\<close>

definition validate_inputs :: "handoff_request \<Rightarrow> unit result" where
  "validate_inputs q = first_error
     [rewrap ActionBindingContractError ExecutionHandoffContractError
        (rewrap PlanAdoptionContractError ExecutionHandoffContractError (validate_plan_state (hq_plan q))),
      rewrap ActionBindingContractError ExecutionHandoffContractError
        (rewrap PlanAdoptionContractError ExecutionHandoffContractError (validate_binding (hq_binding q)))]"

definition lease_digest_check :: "string \<Rightarrow> string option \<Rightarrow> unit result" where
  "lease_digest_check label digest =
     (case digest of
        None \<Rightarrow> Ok ()
      | Some d \<Rightarrow> ensure (length d = 64 \<and> list_all is_hex_lower d) ExecutionHandoffContractError
          (label @ '' must be a lowercase SHA-256 digest''))"

definition validate_lease_provenance :: "handoff_request \<Rightarrow> unit result" where
  "validate_lease_provenance q =
     (let supplied = filter (\<lambda>d. d \<noteq> None) [hq_action_lease_sha256 q, hq_authority_epoch_sha256 q,
            hq_authorization_receipt_sha256 q, hq_lease_verification_sha256 q]
      in first_error
        [ensure (\<not> (supplied \<noteq> [] \<and> length supplied \<noteq> 4)) ExecutionHandoffContractError
           ''lease provenance must provide all four SHA-256 digests'',
         lease_digest_check ''action_lease_sha256'' (hq_action_lease_sha256 q),
         lease_digest_check ''authority_epoch_sha256'' (hq_authority_epoch_sha256 q),
         lease_digest_check ''authorization_receipt_sha256'' (hq_authorization_receipt_sha256 q),
         lease_digest_check ''lease_verification_sha256'' (hq_lease_verification_sha256 q)])"

text \<open>\<open>None\<close> is a binding that still describes an edge of the plan.\<close>

definition current_plan_scope :: "plan_state \<Rightarrow> plan_action_binding \<Rightarrow> string option" where
  "current_plan_scope plan b =
     (if pb_plan_id b \<noteq> ps_plan_id plan then Some ''binding_plan_scope_mismatch''
      else if pb_plan_state_sha256 b \<noteq> ps_state_sha256 plan then Some ''binding_plan_state_scope_mismatch''
      else if pb_plan_revision b \<noteq> ps_revision plan then Some ''binding_plan_revision_scope_mismatch''
      else if pb_transition_index b < 0 \<or> int (length (ps_path_ids plan)) - 1 \<le> pb_transition_index b
      then Some ''binding_transition_not_in_current_plan''
      else if ps_path_ids plan ! nat (pb_transition_index b) \<noteq> pb_source_state_id b
      then Some ''binding_source_not_in_current_plan''
      else if ps_path_ids plan ! (nat (pb_transition_index b) + 1) \<noteq> pb_target_state_id b
      then Some ''binding_target_not_in_current_plan''
      else None)"

definition contract_drift :: "capability \<Rightarrow> string list \<Rightarrow> plan_action_binding \<Rightarrow> bool" where
  "contract_drift c effects b \<longleftrightarrow>
     cap_version c \<noteq> pb_capability_version b \<or> cap_risk c \<noteq> pb_capability_risk b \<or>
     cap_permissions c \<noteq> pb_permissions_requested b \<or> effects \<noteq> pb_effects_declared b"

text \<open>The checks of \<open>execute\<close> against the running configuration; \<open>Some reason\<close> is a HELD receipt.\<close>

definition configuration_scope ::
  "capability_registry \<Rightarrow> executor_registry \<Rightarrow> plan_action_binding \<Rightarrow> string option result" where
  "configuration_scope registry executors b =
     (case cr_get registry (pb_capability_id b) of
        Inl _ \<Rightarrow> Ok (Some ''capability_not_registered'')
      | Inr c \<Rightarrow>
          (case normalize_effects (map JStr (cap_effects c)) ''runtime capability effects'' False of
             Inl _ \<Rightarrow> Ok (Some ''capability_effect_contract_invalid'')
           | Inr effects \<Rightarrow>
               if contract_drift c effects b then Ok (Some ''capability_contract_drift'')
               else (case xr_lookup_effects executors (cap_id c) of
                       Inl _ \<Rightarrow> Ok (Some ''executor_effect_contract_missing'')
                     | Inr executor_effects \<Rightarrow>
                         rbind (eb_evaluate c executor_effects) (\<lambda>d.
                           Ok (if eb_allowed d then None else Some (''effect_boundary_'' @ eb_reason d))))))"

definition revalidate :: "handoff_request \<Rightarrow> capability_registry \<Rightarrow> executor_registry \<Rightarrow> string option result" where
  "revalidate q registry executors =
     rbind (validate_inputs q) (\<lambda>_.
     rbind (validate_lease_provenance q) (\<lambda>_.
     case current_plan_scope (hq_plan q) (hq_binding q) of
       Some reason \<Rightarrow> Ok (Some reason)
     | None \<Rightarrow>
         if canonical_sha256 (JObj (hq_payload q)) \<noteq> pb_payload_sha256 (hq_binding q)
         then Ok (Some ''payload_digest_mismatch'')
         else configuration_scope registry executors (hq_binding q)))"

section \<open>Execution\<close>

text \<open>\<open>except (OSError, ValueError)\<close> and \<open>except (KeyError, TypeError, ValueError)\<close>.\<close>

definition store_error :: "exn \<Rightarrow> bool" where
  "store_error e \<longleftrightarrow> is_os_error e \<or> is_value_error e"

definition run_error :: "exn \<Rightarrow> bool" where
  "run_error e \<longleftrightarrow> exn_class e \<in> {PyKeyError, PyTypeError} \<or> is_value_error e"

definition exn_str :: "exn \<Rightarrow> string" where
  "exn_str e = (if exn_class e = PyKeyError then py_repr_str (exn_message e) else exn_message e)"

definition binding_sha256 :: "handoff_request \<Rightarrow> string" where
  "binding_sha256 q = pb_binding_sha256 (hq_binding q)"

definition gh_check :: "env \<Rightarrow> handoff_request \<Rightarrow> execution_handoff_receipt option act" where
  "gh_check env q =
     act_bind (\<lambda>s. (revalidate q (sp_registry s) (sp_executors s), s)) (\<lambda>scope.
     case scope of
       Some reason \<Rightarrow> act_return (Some (held_receipt q reason False))
     | None \<Rightarrow>
         act_bind (act_try (with_ledger env (\<lambda>opf wrf l. (rl_has_consumed_binding opf (binding_sha256 q) l, l))) store_error
           (\<lambda>_. act_result (raise ExecutionHandoffContractError ''execution ledger could not be verified safely''))) (\<lambda>consumed.
         act_return (if consumed then Some (held_receipt q ''binding_already_consumed'' True) else None)))"

definition gh_claim :: "env \<Rightarrow> handoff_request \<Rightarrow> execution_handoff_receipt option act" where
  "gh_claim env q =
     act_bind (act_try (with_ledger env (\<lambda>opf wrf. rl_claim_binding opf wrf (binding_sha256 q))) store_error
       (\<lambda>_. act_result (raise ExecutionHandoffContractError ''execution binding could not be claimed safely''))) (\<lambda>claimed.
     act_return (if claimed then None else Some (held_receipt q ''binding_execution_claim_unavailable'' True)))"

definition handoff_provenance :: "handoff_request \<Rightarrow> execution_provenance" where
  "handoff_provenance q =
     \<lparr>ep_schema_version = (if hq_action_lease_sha256 q \<noteq> None then ''phios.execution_provenance.v0.9''
        else ''phios.execution_provenance.v0.8''),
      ep_plan_id = ps_plan_id (hq_plan q), ep_plan_state_sha256 = ps_state_sha256 (hq_plan q),
      ep_plan_revision = ps_revision (hq_plan q), ep_transition_index = pb_transition_index (hq_binding q),
      ep_source_state_id = pb_source_state_id (hq_binding q), ep_target_state_id = pb_target_state_id (hq_binding q),
      ep_action_binding_sha256 = binding_sha256 q, ep_action_lease_sha256 = hq_action_lease_sha256 q,
      ep_authority_epoch_sha256 = hq_authority_epoch_sha256 q,
      ep_authorization_receipt_sha256 = hq_authorization_receipt_sha256 q,
      ep_lease_verification_sha256 = hq_lease_verification_sha256 q\<rparr>"

definition handoff_prov :: "handoff_request \<Rightarrow> provenance option" where
  "handoff_prov q = Some (PlanProvenance (handoff_provenance q))"

text \<open>The status, reason and consumption of a spine receipt.\<close>

definition handoff_outcome :: "execution_receipt \<Rightarrow> (string \<times> string \<times> bool) result" where
  "handoff_outcome x =
     (if xc_permission_status x = ''denied'' then Ok (''DENIED'', ''spine_permission_denied'', False)
      else if xc_permission_status x = ''allowed'' \<and> xc_execution_status x = ''succeeded''
      then Ok (''SUCCEEDED'', ''spine_execution_succeeded'', True)
      else if xc_permission_status x = ''allowed'' \<and> xc_execution_status x = ''failed''
      then Ok (''FAILED'', ''spine_execution_failed'', True)
      else if xc_permission_status x = ''allowed'' \<and> xc_execution_status x = ''outcome_unknown''
      then Ok (''OUTCOME_UNKNOWN'', ''spine_execution_outcome_unknown'', True)
      else raise ExecutionHandoffContractError ''spine returned an unsupported execution outcome'')"

definition diverged :: "handoff_request \<Rightarrow> execution_receipt \<Rightarrow> unit result" where
  "diverged q x = first_error
     [ensure (xc_input_sha256 x = pb_payload_sha256 (hq_binding q)) ExecutionHandoffContractError
        ''spine execution payload digest diverged from action binding'',
      ensure (xc_permissions_requested x = pb_permissions_requested (hq_binding q)) ExecutionHandoffContractError
        ''spine permission request diverged from action binding'',
      ensure (xc_governed_provenance x = handoff_prov q) ExecutionHandoffContractError
        ''spine execution provenance diverged from action binding'']"

definition release_claim :: "env \<Rightarrow> handoff_request \<Rightarrow> unit act" where
  "release_claim env q = with_ledger env (\<lambda>opf wrf. rl_release_binding_claim opf wrf (binding_sha256 q))"

text \<open>What \<open>execute\<close> does with the receipt of the spine.\<close>

definition gh_conclude :: "env \<Rightarrow> handoff_request \<Rightarrow> execution_receipt \<Rightarrow> execution_handoff_receipt act" where
  "gh_conclude env q x =
     act_bind (act_result (diverged q x)) (\<lambda>_.
     act_bind (act_result (handoff_outcome x)) (\<lambda>(status, reason, consumed).
     act_bind (if consumed then act_return () else release_claim env q) (\<lambda>_.
     act_return (handoff_receipt q status reason consumed False (Some x)))))"

definition gh_run :: "env \<Rightarrow> handoff_request \<Rightarrow> execution_handoff_receipt act" where
  "gh_run env q =
     (\<lambda>s. case spine_run env (pb_capability_id (hq_binding q)) (hq_payload q) (handoff_prov q) s of
        (Inr x, s') \<Rightarrow> gh_conclude env q x s'
      | (Inl e, s') \<Rightarrow>
          if run_error e
          then act_bind (release_claim env q) (\<lambda>_. act_result (raise ExecutionHandoffContractError
                 (''spine execution handoff failed before receipting: '' @ exn_str e))) s'
          else (Inl e, s'))"

definition gh_execute :: "env \<Rightarrow> handoff_request \<Rightarrow> execution_handoff_receipt act" where
  "gh_execute env q =
     act_bind (gh_check env q) (\<lambda>r. case r of Some receipt \<Rightarrow> act_return receipt | None \<Rightarrow>
     act_bind (gh_claim env q) (\<lambda>r. case r of Some receipt \<Rightarrow> act_return receipt | None \<Rightarrow> gh_run env q))"

section \<open>What the phases leave alone\<close>

text \<open>\<open>steady\<close>, up to the binding claims.\<close>

definition calm :: "spine \<Rightarrow> spine \<Rightarrow> bool" where
  "calm s s' \<longleftrightarrow>
     sp_registry s' = sp_registry s \<and> sp_executors s' = sp_executors s \<and> sp_allowed s' = sp_allowed s \<and>
     sp_core s' = sp_core s \<and> sp_entries s' = sp_entries s \<and>
     rl_lease_claims (sp_ledger s') = rl_lease_claims (sp_ledger s) \<and>
     (readable (sp_mandala s) \<longrightarrow> readable (sp_mandala s')) \<and>
     (readable (rl_receipts (sp_ledger s)) \<longrightarrow> readable (rl_receipts (sp_ledger s')))"

abbreviation claims_of :: "spine \<Rightarrow> string set" where
  "claims_of s \<equiv> binding_claims_held (sp_ledger s)"

lemma steady_iff: "steady s s' \<longleftrightarrow> calm s s' \<and> rl_binding_claims (sp_ledger s') = rl_binding_claims (sp_ledger s)"
  by (auto simp: steady_def calm_def)

lemma steady_claims: "steady s s' \<Longrightarrow> calm s s' \<and> claims_of s' = claims_of s"
  by (simp add: steady_iff binding_claims_held_def)

lemma calm_trans: "calm s t \<Longrightarrow> calm t u \<Longrightarrow> calm s u"
  by (simp add: calm_def)

lemma quiet_act_try [quiet_intros]: "quiet m \<Longrightarrow> (\<And>e. quiet (h e)) \<Longrightarrow> quiet (act_try m p h)"
  unfolding act_try_def quiet_def
  by (auto split: prod.splits sum.splits) (metis snd_conv steady_trans)+

lemma quiet_result [quiet_intros]: "quiet (act_result r)"
  unfolding act_result_def by (rule quiet_pure)

lemma quiet_read [quiet_intros]: "quiet (with_ledger env (\<lambda>opf wrf l. (f opf wrf l, l)))"
  by (rule quietI) (auto simp: with_ledger_def steady_def)

lemma quiet_check [quiet_intros]: "quiet (gh_check env q)"
  unfolding gh_check_def
  by (intro quiet_bind quiet_pure; (simp only: option.split; intro conjI allI impI)?)
     (auto intro!: quiet_intros split: option.splits)

lemma claim_binding_frame:
  "rl_claim_binding opf wrf k l = (r, l') \<Longrightarrow> rl_receipts l' = rl_receipts l \<and> rl_lease_claims l' = rl_lease_claims l"
  "rl_release_binding_claim opf wrf k l = (u, l') \<Longrightarrow> rl_receipts l' = rl_receipts l \<and> rl_lease_claims l' = rl_lease_claims l"
  by (auto simp: rl_claim_binding_def rl_release_binding_claim_def split: sum.splits prod.splits)

lemma with_ledgerE:
  assumes "with_ledger env f s = (r, s')"
  obtains l where "f (en_open env (sp_io s)) (en_write env (sp_io s)) (sp_ledger s) = (r, l)"
    and "s' = s\<lparr>sp_ledger := l, sp_io := Suc (sp_io s)\<rparr>"
  using assms by (auto simp: with_ledger_def split: prod.splits)

lemma gh_claim_cases:
  assumes "gh_claim env q s = (r, s')"
  obtains (won) "r = Inr None" and "calm s s'" and "binding_sha256 q \<notin> claims_of s"
      and "claims_of s' = insert (binding_sha256 q) (claims_of s)"
      and "sp_ledger s' = (sp_ledger s)\<lparr>rl_binding_claims := rl_binding_claims (sp_ledger s')\<rparr>"
  | (lost) "r = Inr (Some (held_receipt q ''binding_execution_claim_unavailable'' True))" and "calm s s'"
      and "claims_of s' = claims_of s" and "binding_sha256 q \<in> claims_of s"
  | (error) e where "r = Inl e" and "calm s s'" and "claims_of s \<subseteq> claims_of s'"
      and "claims_of s' \<subseteq> insert (binding_sha256 q) (claims_of s)"
proof -
  obtain r1 s1 where w: "with_ledger env (\<lambda>opf wrf. rl_claim_binding opf wrf (binding_sha256 q)) s = (r1, s1)" by fastforce
  then obtain l where l: "rl_claim_binding (en_open env (sp_io s)) (en_write env (sp_io s)) (binding_sha256 q) (sp_ledger s) = (r1, l)"
    and s1: "s1 = s\<lparr>sp_ledger := l, sp_io := Suc (sp_io s)\<rparr>" by (rule with_ledgerE)
  have calm: "calm s s1" using claim_binding_frame(1) [OF l] by (simp add: s1 calm_def)
  have led: "sp_ledger s1 = (sp_ledger s)\<lparr>rl_binding_claims := rl_binding_claims (sp_ledger s1)\<rparr>"
    using l by (auto simp: s1 rl_claim_binding_def split: sum.splits prod.splits)
  show thesis
  proof (cases r1)
    case (Inl e)
    have "claims_of s \<subseteq> claims_of s1 \<and> claims_of s1 \<subseteq> insert (binding_sha256 q) (claims_of s)"
      using binding_claims.claim_error [of _ _ "binding_sha256 q" "sp_ledger s" e l] l by (simp add: s1 Inl)
    moreover have "s' = s1" "\<exists>e'. r = Inl e'"
      using assms w Inl by (auto simp: gh_claim_def act_bind_def act_try_def act_result_def split: if_splits)
    ultimately show thesis using error calm by blast
  next
    case (Inr b)
    have out: "s' = s1" "r = Inr (if b then None else Some (held_receipt q ''binding_execution_claim_unavailable'' True))"
      using assms w Inr by (auto simp: gh_claim_def act_bind_def act_try_def act_return_def)
    show thesis
    proof (cases "b = True")
      case True
      have "binding_sha256 q \<notin> claims_of s \<and> binding_claims_held l = insert (binding_sha256 q) (claims_of s)"
        using l binding_claims.claim_won unfolding Inr True by blast
      then show thesis using won calm out led True by (simp add: s1)
    next
      case False
      then have b: "b = False" by simp
      have "binding_sha256 q \<in> claims_of s \<and> l = sp_ledger s"
        using l binding_claims.claim_lost unfolding Inr b by blast
      then show thesis using lost calm out False by (simp add: s1)
    qed
  qed
qed

lemma release_claim_cases:
  assumes "release_claim env q s = (r, s')"
  shows "calm s s' \<and> claims_of s - {binding_sha256 q} \<subseteq> claims_of s' \<and> claims_of s' \<subseteq> claims_of s
    \<and> rl_receipts (sp_ledger s') = rl_receipts (sp_ledger s)"
proof -
  from assms obtain l where l: "rl_release_binding_claim (en_open env (sp_io s)) (en_write env (sp_io s)) (binding_sha256 q) (sp_ledger s) = (r, l)"
    and s': "s' = s\<lparr>sp_ledger := l, sp_io := Suc (sp_io s)\<rparr>" unfolding release_claim_def by (rule with_ledgerE)
  show ?thesis using claim_binding_frame(2) [OF l] binding_claims.release_held [OF l] by (simp add: s' calm_def)
qed

lemma gh_conclude_cases:
  assumes "gh_conclude env q x s = (r, s')"
  shows "calm s s' \<and> claims_of s - {binding_sha256 q} \<subseteq> claims_of s' \<and> claims_of s' \<subseteq> claims_of s"
    and "attempted y x \<Longrightarrow> xc_permission_status y = ''allowed'' \<Longrightarrow> s' = s"
proof -
  show "calm s s' \<and> claims_of s - {binding_sha256 q} \<subseteq> claims_of s' \<and> claims_of s' \<subseteq> claims_of s"
    using assms unfolding gh_conclude_def
    by (auto elim!: act_bindE simp: act_result_def act_return_def calm_def dest!: release_claim_cases split: if_splits prod.splits)
  assume "attempted y x" "xc_permission_status y = ''allowed''"
  then have "\<exists>st re. handoff_outcome x = Inr (st, re, True)"
    by (auto simp: handoff_outcome_def attempted_def same_request_def)
  then show "s' = s"
    using assms unfolding gh_conclude_def
    by (auto elim!: act_bindE simp: act_result_def act_return_def)
qed

text \<open>
  A run hands at most one entry to a handler.  When it entered one, the claim is kept, provided the
  texts are small: nothing that the exception clause catches can then be raised after the handler.
\<close>

definition handoff_entry :: "handoff_request \<Rightarrow> string \<Rightarrow> handler_entry" where
  "handoff_entry q cid = \<lparr>he_capability_id = cid, he_payload = hq_payload q, he_provenance = handoff_prov q\<rparr>"

lemma escapes_not_caught: "small_env env \<Longrightarrow> escapes env out e \<Longrightarrow> \<not> run_error e"
  by (auto simp: escapes_def run_error_def is_value_error_def os_fault_def dest: env_fault_os)

lemma gh_run_cases:
  assumes "gh_run env q s = (r, s')"
  obtains (unentered) "calm s s'" and "claims_of s - {binding_sha256 q} \<subseteq> claims_of s'" and "claims_of s' \<subseteq> claims_of s"
  | (entered) c where "cr_get (sp_registry s) (pb_capability_id (hq_binding q)) = Inr c"
      and "set (cap_permissions c) \<subseteq> set (sp_allowed s)"
      and "calm (s\<lparr>sp_entries := sp_entries s @ [handoff_entry q (cap_id c)]\<rparr>) s'"
      and "claims_of s - {binding_sha256 q} \<subseteq> claims_of s'" and "claims_of s' \<subseteq> claims_of s"
      and "small_env env \<Longrightarrow> small_config s \<Longrightarrow> small_prov (handoff_prov q) \<Longrightarrow> readable (rl_receipts (sp_ledger s)) \<Longrightarrow>
        claims_of s' = claims_of s"
proof -
  let ?cid = "pb_capability_id (hq_binding q)" and ?k = "binding_sha256 q"
  obtain rx sx where run: "spine_run env ?cid (hq_payload q) (handoff_prov q) s = (rx, sx)" by fastforce
  have tail: "calm sx s' \<and> claims_of sx - {?k} \<subseteq> claims_of s' \<and> claims_of s' \<subseteq> claims_of sx"
  proof (cases rx)
    case (Inr x)
    then have "gh_conclude env q x sx = (r, s')" using assms run by (simp add: gh_run_def)
    then show ?thesis by (rule gh_conclude_cases(1))
  next
    case (Inl e)
    then show ?thesis
      using assms run by (auto simp: gh_run_def act_result_def calm_def elim!: act_bindE dest!: release_claim_cases split: if_splits)
  qed
  from run show thesis
  proof (cases rule: spine_run_cases)
    case quiet
    then show thesis using tail steady_claims [OF quiet(1)] calm_trans by (intro unentered) blast+
  next
    case (entered c h packet gate receipt s1)
    note facts = entered [unfolded entered_at_def]
    let ?e = "handoff_entry q (cap_id c)"
    let ?s2 = "s1\<lparr>sp_entries := sp_entries s1 @ [?e]\<rparr>" and ?r = "receipt\<lparr>xc_executor_entered := True\<rparr>"
    let ?out = "h (length (sp_entries s)) (hq_payload q)"
    have after: "after_handler env c packet (pg_evaluate (sp_allowed s) c) gate ?r (Inr ?out) ?s2 = (rx, sx)"
      using facts unfolding handoff_entry_def by blast
    have 1: "calm s s1 \<and> claims_of s1 = claims_of s" using facts steady_claims by blast
    have 2: "calm ?s2 sx \<and> claims_of sx = claims_of ?s2" by (rule steady_claims) (rule quietD [OF quiet_after_handler after])
    have 3: "calm (s\<lparr>sp_entries := sp_entries s @ [?e]\<rparr>) s'" "claims_of sx = claims_of s"
      using 1 2 tail by (auto simp: calm_def)
    show thesis
    proof (rule that(2))
      assume small: "small_env env" "small_config s" "small_prov (handoff_prov q)" and rd: "readable (rl_receipts (sp_ledger s))"
      have fits: "small_capability c" "small_packet packet" "small_envelope gate" "fitting_receipt ?r"
        using facts small by (auto simp: fitting_receipt_def)
      have out: "small_outcome ?out" using facts handler_in small(2) unfolding small_config_def by fastforce
      have "posted ?s2" using facts rd 1 by (auto simp: posted_def calm_def)
      note t = tripleD [OF triple_after_handler [OF small(1) fits out] this after]
      show "claims_of s' = claims_of s"
      proof (cases rx)
        case (Inr x)
        have "gh_conclude env q x sx = (r, s')" using assms run Inr by (simp add: gh_run_def)
        moreover have "attempted ?r x" using after_handler_returns after Inr by simp
        moreover have "xc_permission_status ?r = ''allowed''" using facts by (simp add: started_receipt_def)
        ultimately have "s' = sx" by (rule gh_conclude_cases(2))
        then show ?thesis using 3 by simp
      next
        case (Inl e)
        have "\<not> run_error e" using escapes_not_caught [OF small(1)] t(2) Inl by blast
        then show ?thesis using assms run Inl 3 by (simp add: gh_run_def)
      qed
    qed (use facts 3 tail in auto)
  qed
qed

section \<open>A hand-over that nothing holds back\<close>

lemma revalidate_Ok_None:
  assumes "revalidate q reg ex = Inr None" and "cr_get reg (pb_capability_id (hq_binding q)) = Inr c"
  shows "binding_ok (hq_binding q)" and "canonical_sha256 (JObj (hq_payload q)) = pb_payload_sha256 (hq_binding q)"
    and "cap_permissions c = pb_permissions_requested (hq_binding q)"
    and "\<exists>d. eb_evaluate c (recorded_effects ex (cap_id c)) = Inr d \<and> eb_allowed d"
proof -
  from assms(1) have in_ok: "validate_inputs q = Inr ()"
    and pay: "canonical_sha256 (JObj (hq_payload q)) = pb_payload_sha256 (hq_binding q)"
    and conf: "configuration_scope reg ex (hq_binding q) = Inr None"
    by (auto simp: revalidate_def rbind_Ok_iff split: option.splits if_splits)
  have "validate_binding (hq_binding q) = Inr ()"
    using in_ok by (simp add: validate_inputs_def first_error_Ok_Cons rewrap_Ok_iff)
  then show "binding_ok (hq_binding q)" by (simp add: validate_binding_Ok_iff)
  show "canonical_sha256 (JObj (hq_payload q)) = pb_payload_sha256 (hq_binding q)" by (rule pay)
  show "cap_permissions c = pb_permissions_requested (hq_binding q)"
    and "\<exists>d. eb_evaluate c (recorded_effects ex (cap_id c)) = Inr d \<and> eb_allowed d"
    using conf assms(2)
    by (auto simp: configuration_scope_def contract_drift_def recorded_effects_def rbind_Ok_iff split: sum.splits if_splits)
qed

lemma binding_sha256_digest: "binding_ok (hq_binding q) \<Longrightarrow> is_sha256 (binding_sha256 q)"
  by (simp add: binding_sha256_def binding_ok_digest)

text \<open>The state in which the run of an admitted request starts.\<close>

definition claimed_state :: "handoff_request \<Rightarrow> spine \<Rightarrow> spine" where
  "claimed_state q s = s\<lparr>sp_ledger := (sp_ledger s)\<lparr>rl_binding_claims := binding_sha256 q # rl_binding_claims (sp_ledger s)\<rparr>,
     sp_io := Suc (Suc (sp_io s))\<rparr>"

definition admitted :: "handoff_request \<Rightarrow> spine \<Rightarrow> bool" where
  "admitted q s \<longleftrightarrow> revalidate q (sp_registry s) (sp_executors s) = Inr None \<and>
     rl_has_consumed_binding None (binding_sha256 q) (sp_ledger s) = Inr False \<and> binding_sha256 q \<notin> claims_of s"

lemma admitted_executes:
  assumes "admitted q s" and "clean_env env" and "cr_get (sp_registry s) (pb_capability_id (hq_binding q)) = Inr c"
  shows "gh_execute env q s = gh_run env q (claimed_state q s)"
proof -
  have no: "en_open env n = None" "en_write env n = None" for n using assms(2) by (simp_all add: clean_env_def)
  have "is_sha256 (binding_sha256 q)"
    using assms(1,3) revalidate_Ok_None(1) binding_sha256_digest unfolding admitted_def by blast
  then have cl: "rl_claim_binding None None (binding_sha256 q) (sp_ledger s)
      = (Inr True, (sp_ledger s)\<lparr>rl_binding_claims := binding_sha256 q # rl_binding_claims (sp_ledger s)\<rparr>)"
    using assms(1) by (simp add: rl_claim_binding_def validate_digest create_claim_def admitted_def binding_claims_held_def)
  show ?thesis
    using assms(1) cl
    by (simp add: gh_execute_def gh_check_def gh_claim_def act_bind_def act_try_def act_return_def with_ledger_def no
        admitted_def claimed_state_def)
qed

lemma claimed_state_facts:
  "calm s (claimed_state q s)" "claims_of (claimed_state q s) = insert (binding_sha256 q) (claims_of s)"
  "posted (claimed_state q s) = posted s" "small_config (claimed_state q s) = small_config s"
  "never_interrupts (claimed_state q s) = never_interrupts s" "small_core (claimed_state q s) = small_core s"
  by (simp_all add: claimed_state_def calm_def binding_claims_held_def posted_def small_config_def never_interrupts_def
      small_core_def)

text \<open>
  An admitted request in an undisturbed system is carried out: its handler is called, the receipt
  says so, the claim stays, and the attempt is in the execution history.
\<close>

lemma handoff_completes:
  assumes env: "clean_env env" and conf: "small_config s" "never_interrupts s" "small_core s" "small_prov (handoff_prov q)"
    and files: "posted s" and adm: "admitted q s"
    and c: "cr_get (sp_registry s) (pb_capability_id (hq_binding q)) = Inr c"
    and perms: "set (cap_permissions c) \<subseteq> set (sp_allowed s)" and h: "xr_handler (sp_executors s) (cap_id c) = Inr h"
  obtains x s' re where "gh_execute env q s = (Inr (handoff_receipt q re (''spine_execution_'' @ xc_execution_status x) True False (Some x)), s')"
    and "sp_entries s' = sp_entries s @ [handoff_entry q (cap_id c)]" and "binding_sha256 q \<in> claims_of s'"
    and "xc_execution_status x = outcome_status (h (length (sp_entries s)) (hq_payload q))"
    and "xc_governed_provenance x = handoff_prov q" and "logged x s'"
proof -
  let ?s1 = "claimed_state q s" and ?p = "hq_payload q" and ?v = "handoff_prov q"
  have same: "sp_registry ?s1 = sp_registry s" "sp_allowed ?s1 = sp_allowed s" "sp_executors ?s1 = sp_executors s"
      "sp_entries ?s1 = sp_entries s" by (simp_all add: claimed_state_def)
  have rv: "revalidate q (sp_registry s) (sp_executors s) = Inr None" using adm by (simp add: admitted_def)
  note ok = revalidate_Ok_None [OF rv c]
  from ok(4) obtain d where d: "eb_evaluate c (recorded_effects (sp_executors s) (cap_id c)) = Inr d" "eb_allowed d" by blast
  obtain x receipt s1 s' where run: "spine_run env (pb_capability_id (hq_binding q)) ?p ?v ?s1 = (Inr x, s')"
    and st: "steady (s1\<lparr>sp_entries := sp_entries s1 @ [\<lparr>he_capability_id = cap_id c, he_payload = ?p, he_provenance = ?v\<rparr>]\<rparr>) s'"
    and st1: "steady ?s1 s1" and start: "started_receipt c ?p ?v receipt"
    and att: "attempted (receipt\<lparr>xc_executor_entered := True\<rparr>) x"
    and out: "xc_execution_status x = outcome_status (h (length (sp_entries s)) ?p)" and log: "logged x s'"
    by (rule run_completes [of env ?s1 ?v "pb_capability_id (hq_binding q)" c d h ?p, unfolded claimed_state_facts same,
        OF env conf files c perms d h])
  have x: "xc_input_sha256 x = hash_payload ?p" "xc_permissions_requested x = cap_permissions c"
      "xc_governed_provenance x = ?v" "xc_permission_status x = ''allowed''"
      "xc_execution_status x \<in> {''succeeded'', ''failed'', ''outcome_unknown''}"
    using start att by (auto simp: started_receipt_def attempted_def same_request_def)
  have "diverged q x = Inr ()"
    using x ok(2,3) by (simp add: diverged_def first_error_Ok_Cons hash_payload_def)
  moreover obtain re where "handoff_outcome x = Inr (re, ''spine_execution_'' @ xc_execution_status x, True)"
    using x(4,5) by (auto simp: handoff_outcome_def)
  ultimately have "gh_conclude env q x s' = (Inr (handoff_receipt q re (''spine_execution_'' @ xc_execution_status x) True False (Some x)), s')"
    by (simp add: gh_conclude_def act_bind_def act_result_def act_return_def)
  then have exec: "gh_execute env q s = (Inr (handoff_receipt q re (''spine_execution_'' @ xc_execution_status x) True False (Some x)), s')"
    using admitted_executes [OF adm env c] run by (simp add: gh_run_def)
  have "sp_entries s' = sp_entries s @ [handoff_entry q (cap_id c)]"
    using st st1 same by (simp add: steady_def handoff_entry_def)
  moreover have "binding_sha256 q \<in> claims_of s'"
    using steady_claims [OF st] steady_claims [OF st1] claimed_state_facts(2) [of q s] by simp
  ultimately show thesis using that exec out x(3) log by simp
qed

text \<open>
  The same request when the handler fails with a message that no record can hold: the handler was
  called, but the clause \<open>except (KeyError, TypeError, ValueError)\<close> catches the error of the abort
  receipt, removes the claim and reports a failure \<open>before receipting\<close>; nothing else remembers the
  attempt.
\<close>

lemma handoff_forgets:
  assumes env: "clean_env env" and files: "posted s" and adm: "admitted q s"
    and small: "small (pc_task_id (sp_core s))" "small_core s" "small_capability c" "small_prov (handoff_prov q)"
    and c: "cr_get (sp_registry s) (pb_capability_id (hq_binding q)) = Inr c"
    and perms: "set (cap_permissions c) \<subseteq> set (sp_allowed s)" and h: "xr_handler (sp_executors s) (cap_id c) = Inr h"
    and out: "h (length (sp_entries s)) (hq_payload q) = Raised t m" and big: "MAX_RECORD_BYTES \<le> length m"
  obtains s' where "gh_execute env q s = (raise ExecutionHandoffContractError
      ''spine execution handoff failed before receipting: state record exceeds 16 MiB'', s')"
    and "calm (s\<lparr>sp_entries := sp_entries s @ [handoff_entry q (cap_id c)]\<rparr>) s'"
    and "admitted q s'"
proof -
  let ?s1 = "claimed_state q s" and ?p = "hq_payload q" and ?v = "handoff_prov q"
  let ?s2 = "s\<lparr>sp_entries := sp_entries s @ [handoff_entry q (cap_id c)]\<rparr>"
  have same: "sp_registry ?s1 = sp_registry s" "sp_allowed ?s1 = sp_allowed s" "sp_executors ?s1 = sp_executors s"
      "sp_entries ?s1 = sp_entries s" "sp_core ?s1 = sp_core s" by (simp_all add: claimed_state_def)
  have rv: "revalidate q (sp_registry s) (sp_executors s) = Inr None" using adm by (simp add: admitted_def)
  note ok = revalidate_Ok_None [OF rv c]
  from ok(4) obtain d where d: "eb_evaluate c (recorded_effects (sp_executors s) (cap_id c)) = Inr d" "eb_allowed d" by blast
  obtain s2 where run: "spine_run env (pb_capability_id (hq_binding q)) ?p ?v ?s1 = (raise PyValueError ''state record exceeds 16 MiB'', s2)"
    and st: "steady (?s1\<lparr>sp_entries := sp_entries ?s1 @ [handoff_entry q (cap_id c)]\<rparr>) s2"
    and led: "sp_ledger s2 = sp_ledger ?s1"
    using run_oversized [of env ?s1 c ?v "pb_capability_id (hq_binding q)" d h ?p t m, unfolded claimed_state_facts same]
      env files small c perms d h out big unfolding handoff_entry_def same by blast
  have no: "en_open env n = None" "en_write env n = None" for n using env by (simp_all add: clean_env_def)
  let ?l = "(sp_ledger s2)\<lparr>rl_binding_claims := filter (\<lambda>c. c \<noteq> binding_sha256 q) (rl_binding_claims (sp_ledger s2))\<rparr>"
  let ?s' = "s2\<lparr>sp_ledger := ?l, sp_io := Suc (sp_io s2)\<rparr>"
  have k: "is_sha256 (binding_sha256 q)" using ok(1) by (rule binding_sha256_digest)
  then have rel: "release_claim env q s2 = (Inr (), ?s')"
    by (simp add: release_claim_def with_ledger_def no rl_release_binding_claim_def validate_digest remove_claim_def Let_def)
  show thesis
  proof (rule that)
    have "run_error (Exn PyValueError ''state record exceeds 16 MiB'')" by (simp add: run_error_def is_value_error_def)
    then show "gh_execute env q s = (raise ExecutionHandoffContractError
        ''spine execution handoff failed before receipting: state record exceeds 16 MiB'', ?s')"
      using admitted_executes [OF adm env c] run rel
      by (simp add: gh_run_def act_bind_def act_result_def exn_str_def)
    show "calm ?s2 ?s'" using st by (simp add: steady_def calm_def claimed_state_def)
    have "rl_binding_claims (sp_ledger s2) = binding_sha256 q # rl_binding_claims (sp_ledger s)"
      using led by (simp add: claimed_state_def)
    then show "admitted q ?s'"
      using adm st led by (auto simp: admitted_def steady_def claimed_state_def binding_claims_held_def rl_has_consumed_binding_def)
  qed
qed

section \<open>The phases of one call\<close>

lemma gh_check_passed:
  assumes "gh_check env q s = (Inr None, s')"
  shows "revalidate q (sp_registry s) (sp_executors s) = Inr None"
    and "rl_has_consumed_binding (en_open env (sp_io s)) (binding_sha256 q) (sp_ledger s) = Inr False"
proof -
  from assms obtain scope where r: "revalidate q (sp_registry s) (sp_executors s) = Inr scope"
    unfolding gh_check_def by (auto elim!: act_bindE)
  show "revalidate q (sp_registry s) (sp_executors s) = Inr None"
    using assms r by (cases scope) (auto simp: gh_check_def act_bind_def act_return_def)
  then show "rl_has_consumed_binding (en_open env (sp_io s)) (binding_sha256 q) (sp_ledger s) = Inr False"
    using assms
    by (auto simp: gh_check_def act_bind_def act_return_def act_try_def act_result_def with_ledger_def
        split: sum.splits if_splits)
qed

lemma gh_execute_cases:
  assumes "gh_execute env q s = (r, s')"
  obtains (checked) r' where "gh_check env q s = (r', s')" and "r' \<noteq> Inr None" and "\<And>e. r' = Inl e \<longleftrightarrow> r = Inl e"
      and "\<And>x. r' = Inr (Some x) \<longleftrightarrow> r = Inr x"
  | (refused) r' s1 where "gh_check env q s = (Inr None, s1)" and "gh_claim env q s1 = (r', s')" and "r' \<noteq> Inr None"
      and "\<And>e. r' = Inl e \<longleftrightarrow> r = Inl e" and "\<And>x. r' = Inr (Some x) \<longleftrightarrow> r = Inr x"
  | (ran) s1 s2 where "gh_check env q s = (Inr None, s1)" and "gh_claim env q s1 = (Inr None, s2)" and "gh_run env q s2 = (r, s')"
proof -
  from assms show thesis unfolding gh_execute_def
  proof (cases rule: act_bindE)
    case (err e)
    then show thesis by (intro checked [of "Inl e"]) auto
  next
    case (ok ro s1)
    note chk = ok(1) and rest = ok(2)
    show thesis
    proof (cases ro)
      case (Some x)
      then show thesis using chk rest by (intro checked [of "Inr ro"]) (auto simp: act_return_def)
    next
      case None
      then have "act_bind (gh_claim env q) (\<lambda>r. case r of Some receipt \<Rightarrow> act_return receipt | None \<Rightarrow> gh_run env q) s1 = (r, s')"
        using rest by simp
      then show thesis
      proof (cases rule: act_bindE)
        case (err e)
        then show thesis using chk None by (intro refused [of s1 "Inl e"]) auto
      next
        case (ok rc s2)
        then show thesis using chk None refused [of s1 "Inr rc"] ran by (cases rc) (auto simp: act_return_def)
      qed
    qed
  qed
qed

lemma gh_check_held:
  assumes "gh_check env q s = (Inr (Some x), s')"
  obtains reason where "revalidate q (sp_registry s) (sp_executors s) = Inr (Some reason)" and "x = held_receipt q reason False"
  | "x = held_receipt q ''binding_already_consumed'' True"
proof -
  from assms obtain scope where r: "revalidate q (sp_registry s) (sp_executors s) = Inr scope"
    unfolding gh_check_def by (auto elim!: act_bindE)
  show thesis
  proof (cases scope)
    case (Some reason)
    then show thesis using that(1) assms r by (auto simp: gh_check_def act_bind_def act_return_def)
  next
    case None
    then have "x = held_receipt q ''binding_already_consumed'' True"
      using assms r by (auto simp: gh_check_def act_bind_def act_return_def split: prod.splits sum.splits if_splits)
    then show thesis by (rule that(2))
  qed
qed

lemma revalidate_reason:
  "revalidate q reg ex = Inr (Some reason) \<Longrightarrow> reason \<noteq> ''binding_already_consumed'' \<and> reason \<noteq> ''binding_execution_claim_unavailable''"
  by (auto simp: revalidate_def rbind_Ok_iff current_plan_scope_def configuration_scope_def split: option.splits if_splits sum.splits)

lemma held_receipt_facts:
  "hx_status (held_receipt q reason replay) = ''HELD''" "hx_reason (held_receipt q reason replay) = reason"
  "hx_replay_blocked (held_receipt q reason replay) = replay" "\<not> hx_binding_consumed (held_receipt q reason replay)"
  "hx_spine_receipt_id (held_receipt q reason replay) = None"
  by (simp_all add: held_receipt_def handoff_receipt_def Let_def)

lemma gh_run_status: "gh_run env q s = (Inr x, s') \<Longrightarrow> hx_status x \<in> {''DENIED'', ''SUCCEEDED'', ''FAILED'', ''OUTCOME_UNKNOWN''}"
  unfolding gh_run_def gh_conclude_def
  by (auto elim!: act_bindE simp: act_result_def act_return_def handoff_receipt_def handoff_outcome_def Let_def
      split: prod.splits sum.splits if_splits)

text \<open>What a call adds to the handler history, and that a receipt of such a call consumes the binding.\<close>

lemma gh_run_entries:
  assumes "gh_run env q s = (r, s')"
  shows "rl_lease_claims (sp_ledger s') = rl_lease_claims (sp_ledger s)"
    and "sp_entries s' = sp_entries s \<or> (\<exists>c. sp_entries s' = sp_entries s @ [handoff_entry q c] \<and> (\<forall>x. r = Inr x \<longrightarrow> hx_binding_consumed x))"
proof -
  show "rl_lease_claims (sp_ledger s') = rl_lease_claims (sp_ledger s)"
    using assms by (cases rule: gh_run_cases) (simp_all add: calm_def)
  obtain rx sx where run: "spine_run env (pb_capability_id (hq_binding q)) (hq_payload q) (handoff_prov q) s = (rx, sx)" by fastforce
  have tail: "sp_entries s' = sp_entries sx"
  proof (cases rx)
    case (Inr x)
    then have "gh_conclude env q x sx = (r, s')" using assms run by (simp add: gh_run_def)
    then show ?thesis using gh_conclude_cases(1) by (auto simp: calm_def)
  next
    case (Inl e)
    then show ?thesis
      using assms run by (auto simp: gh_run_def act_result_def calm_def elim!: act_bindE dest!: release_claim_cases split: if_splits)
  qed
  from run show "sp_entries s' = sp_entries s \<or>
      (\<exists>c. sp_entries s' = sp_entries s @ [handoff_entry q c] \<and> (\<forall>x. r = Inr x \<longrightarrow> hx_binding_consumed x))"
  proof (cases rule: spine_run_cases)
    case quiet
    then show ?thesis using tail by (simp add: steady_def)
  next
    case (entered c h packet gate receipt s1)
    note facts = entered [unfolded entered_at_def]
    let ?r = "receipt\<lparr>xc_executor_entered := True\<rparr>"
    have after: "after_handler env c packet (pg_evaluate (sp_allowed s) c) gate ?r (Inr (h (length (sp_entries s)) (hq_payload q)))
        (s1\<lparr>sp_entries := sp_entries s1 @ [handoff_entry q (cap_id c)]\<rparr>) = (rx, sx)"
      using facts unfolding handoff_entry_def by blast
    from quietD [OF quiet_after_handler after] facts have "sp_entries s' = sp_entries s @ [handoff_entry q (cap_id c)]"
      using tail by (simp add: steady_def)
    moreover have "hx_binding_consumed x" if "r = Inr x" for x
    proof (cases rx)
      case (Inr y)
      have "attempted ?r y" using after_handler_returns after Inr by simp
      moreover have "xc_permission_status ?r = ''allowed''" using facts by (simp add: started_receipt_def)
      ultimately have "\<exists>st re. handoff_outcome y = Inr (st, re, True)"
        by (auto simp: handoff_outcome_def attempted_def same_request_def)
      then show ?thesis
        using assms run Inr that
        by (auto simp: gh_run_def gh_conclude_def act_result_def act_return_def handoff_receipt_def Let_def elim!: act_bindE)
    next
      case (Inl e)
      then show ?thesis using assms run that by (auto simp: gh_run_def act_result_def elim!: act_bindE split: if_splits)
    qed
    ultimately show ?thesis by blast
  qed
qed

lemma gh_execute_entries:
  assumes "gh_execute env q s = (r, s')"
  shows "rl_lease_claims (sp_ledger s') = rl_lease_claims (sp_ledger s)"
    and "sp_entries s' = sp_entries s \<or> (\<exists>c. sp_entries s' = sp_entries s @ [handoff_entry q c] \<and> (\<forall>x. r = Inr x \<longrightarrow> hx_binding_consumed x))"
proof -
  have claim: "calm s1 s2" if "gh_claim env q s1 = (rc, s2)" for rc s1 s2
    using that by (cases rule: gh_claim_cases)
  from assms have "rl_lease_claims (sp_ledger s') = rl_lease_claims (sp_ledger s) \<and> (sp_entries s' = sp_entries s \<or>
      (\<exists>c. sp_entries s' = sp_entries s @ [handoff_entry q c] \<and> (\<forall>x. r = Inr x \<longrightarrow> hx_binding_consumed x)))"
  proof (cases rule: gh_execute_cases)
    case (checked r')
    then show ?thesis using quietD [OF quiet_check checked(1)] by (simp add: steady_def)
  next
    case (refused r' s1)
    then show ?thesis using quietD [OF quiet_check refused(1)] claim [OF refused(2)] by (simp add: steady_def calm_def)
  next
    case (ran s1 s2)
    then show ?thesis
      using quietD [OF quiet_check ran(1)] claim [OF ran(2)] gh_run_entries [OF ran(3)] by (simp add: steady_def calm_def)
  qed
  then show "rl_lease_claims (sp_ledger s') = rl_lease_claims (sp_ledger s)"
    and "sp_entries s' = sp_entries s \<or> (\<exists>c. sp_entries s' = sp_entries s @ [handoff_entry q c] \<and> (\<forall>x. r = Inr x \<longrightarrow> hx_binding_consumed x))"
    by blast+
qed

lemma gh_execute_entered:
  assumes "gh_execute env q s = (r, s')" and "sp_entries s' \<noteq> sp_entries s"
  shows "\<exists>c. sp_entries s' = sp_entries s @ [\<lparr>he_capability_id = cap_id c, he_payload = hq_payload q, he_provenance = handoff_prov q\<rparr>]
    \<and> revalidate q (sp_registry s) (sp_executors s) = Ok None
    \<and> canonical_sha256 (JObj (hq_payload q)) = pb_payload_sha256 (hq_binding q)
    \<and> cr_get (sp_registry s) (pb_capability_id (hq_binding q)) = Ok c
    \<and> cap_permissions c = pb_permissions_requested (hq_binding q) \<and> set (cap_permissions c) \<subseteq> set (sp_allowed s)
    \<and> binding_sha256 q \<notin> binding_claims_held (sp_ledger s)
    \<and> (rl_has_consumed_binding None (binding_sha256 q) (sp_ledger s) = Ok False
      \<or> (\<exists>e. en_open env (sp_io s) = Some e \<and> exn_class e = PyFileNotFoundError))"
  using assms(1)
proof (cases rule: gh_execute_cases)
  case (checked r')
  then show ?thesis using assms(2) quietD [OF quiet_check checked(1)] by (simp add: steady_def)
next
  case (refused r' s1)
  have "sp_entries s1 = sp_entries s" using quietD [OF quiet_check refused(1)] by (simp add: steady_def)
  moreover have "sp_entries s' = sp_entries s1" using refused(2) by (cases rule: gh_claim_cases) (simp_all add: calm_def)
  ultimately show ?thesis using assms(2) by simp
next
  case (ran s1 s2)
  note st = quietD [OF quiet_check ran(1)]
  have 1: "calm s1 s2" "binding_sha256 q \<notin> claims_of s1" using ran(2) by (cases rule: gh_claim_cases; simp)+
  have same: "sp_entries s2 = sp_entries s" "sp_registry s2 = sp_registry s" "sp_allowed s2 = sp_allowed s"
    using st 1(1) by (simp_all add: steady_def calm_def)
  from ran(3) show ?thesis
  proof (cases rule: gh_run_cases)
    case unentered
    then show ?thesis using assms(2) same by (simp add: calm_def)
  next
    case (entered c)
    then show ?thesis
      using same 1(2) gh_check_passed(1) [OF ran(1)] unconsumed_answer(1) [OF gh_check_passed(2) [OF ran(1)]] revalidate_Ok_None [of q "sp_registry s" "sp_executors s" c] steady_claims [OF st]
      by (intro exI [of _ c]) (simp add: calm_def handoff_entry_def)
  qed
qed

section \<open>A concrete request\<close>

definition sample_request :: handoff_request where
  "sample_request = \<lparr>hq_plan = sample_plan, hq_binding = sample_binding, hq_payload = sample_payload,
     hq_action_lease_sha256 = None, hq_authority_epoch_sha256 = None, hq_authorization_receipt_sha256 = None,
     hq_lease_verification_sha256 = None\<rparr>"

lemma sample_request_admitted: "admitted sample_request (sample_spine h)"
proof -
  have "validate_inputs sample_request = Inr ()"
    using sample_plan_ok(1) sample_binding_ok
    by (simp add: validate_inputs_def first_error_Ok_Cons rewrap_Ok_iff sample_request_def validate_binding_Ok_iff)
  moreover have "validate_lease_provenance sample_request = Inr ()"
    by (simp add: validate_lease_provenance_def first_error_Ok_Cons sample_request_def lease_digest_check_def)
  moreover have "current_plan_scope sample_plan sample_binding = None"
    by (simp add: current_plan_scope_def sample_binding_def) (simp add: sample_plan_def build_plan_state_def)
  moreover have "configuration_scope (sp_registry (sample_spine h)) (sp_executors (sample_spine h)) sample_binding = Inr None"
    by (simp add: configuration_scope_def sample_spine_def cr_get_def contract_drift_def sample_binding_def text_capability_def
        normalize_filesystem xr_lookup_effects_def eb_evaluate_def eb_allowed_def Let_def)
  ultimately have "revalidate sample_request (sp_registry (sample_spine h)) (sp_executors (sample_spine h)) = Inr None"
    by (simp add: revalidate_def) (simp add: sample_request_def sample_binding_def)
  then show ?thesis
    by (simp add: admitted_def sample_spine_def rl_has_consumed_binding_def rl_empty_def binding_claims_held_def)
qed

lemma digest_length: "length (canonical_sha256 j) = 64"
  using canonical_sha256_is_sha256 by (simp add: is_sha256_def)

lemma sample_request_small: "small_prov (handoff_prov sample_request)"
proof -
  have "length (ps_state_sha256 sample_plan) = 64"
    by (simp add: sample_plan_def build_plan_state_def plan_state_digest_def digest_length)
  moreover have "length (pb_binding_sha256 sample_binding) = 64"
    by (simp add: sealed_binding_digest [symmetric] digest_length sample_binding_def)
  moreover have "ps_plan_id sample_plan = ''plan''" "ps_revision sample_plan = 0"
    by (simp_all add: sample_plan_def build_plan_state_def)
  ultimately show ?thesis
    by (simp add: small_prov_def handoff_prov_def handoff_provenance_def sample_request_def execution_provenance_to_dict_def
        binding_sha256_def) (simp add: sample_binding_def show_int_def show_nat.simps)
qed

lemma sample_request_config:
  "cr_get (sp_registry (sample_spine h)) (pb_capability_id (hq_binding sample_request)) = Inr text_capability"
  "set (cap_permissions text_capability) \<subseteq> set (sp_allowed (sample_spine h))"
  "xr_handler (sp_executors (sample_spine h)) (cap_id text_capability) = Inr h"
  by (simp_all add: sample_request_def sample_binding_def cr_get_def sample_spine_def text_capability_def xr_handler_def)

text \<open>A handler whose failure message fills a whole record.\<close>

definition oversized_handler :: handler where
  "oversized_handler = (\<lambda>n payload. Raised ''RuntimeError'' (replicate MAX_RECORD_BYTES (CHR ''x'')))"

section \<open>Properties\<close>

text \<open>C10: \<open>execute\<close> calls at most one handler, once.  When it does, plan, binding, lease digests and
  payload digest were valid, the running capability has the version, risk, permissions and effects
  of the binding, its permissions are granted, no row of the execution history records an attempt under the
  binding (unless the operating system answered that the history file does not exist) and no other attempt
  held its claim; and the call carries the binding's provenance.\<close>

theorem handoff_enters_only_admitted:
  assumes "gh_execute env q s = (r, s')" and "sp_entries s' \<noteq> sp_entries s"
  shows "\<exists>c. sp_entries s' = sp_entries s @ [\<lparr>he_capability_id = cap_id c, he_payload = hq_payload q, he_provenance = handoff_prov q\<rparr>]
    \<and> revalidate q (sp_registry s) (sp_executors s) = Ok None
    \<and> canonical_sha256 (JObj (hq_payload q)) = pb_payload_sha256 (hq_binding q)
    \<and> cr_get (sp_registry s) (pb_capability_id (hq_binding q)) = Ok c
    \<and> cap_permissions c = pb_permissions_requested (hq_binding q) \<and> set (cap_permissions c) \<subseteq> set (sp_allowed s)
    \<and> binding_sha256 q \<notin> binding_claims_held (sp_ledger s)
    \<and> (rl_has_consumed_binding None (binding_sha256 q) (sp_ledger s) = Ok False
      \<or> (\<exists>e. en_open env (sp_io s) = Some e \<and> exn_class e = PyFileNotFoundError))"
  by (rule gh_execute_entered [OF assms])

theorem handoff_enters_only_admitted_witness:
  "\<exists>r s'. gh_execute sample_env sample_request (sample_spine sample_handler) = (r, s') \<and> length (sp_entries s') = 1 \<and>
     binding_sha256 sample_request \<notin> binding_claims_held (sp_ledger (sample_spine sample_handler))"
proof -
  let ?s = "sample_spine sample_handler"
  note small = sample_spine_small [of sample_handler, OF sample_handler_small]
  obtain x s' re where e: "gh_execute sample_env sample_request ?s
      = (Inr (handoff_receipt sample_request re (''spine_execution_'' @ xc_execution_status x) True False (Some x)), s')"
    and n: "sp_entries s' = sp_entries ?s @ [handoff_entry sample_request (cap_id text_capability)]"
    by (rule handoff_completes [OF sample_env_clean small(1,3,2) sample_request_small small(4) sample_request_admitted
          sample_request_config])
  have "sp_entries s' \<noteq> sp_entries ?s" using n by simp
  from handoff_enters_only_admitted [OF e this] e show ?thesis by (auto simp: sample_spine_def)
qed

text \<open>A HELD receipt means that nothing happened: no handler was called, no claim was taken or
  released, and the receipt neither consumes the binding nor names a spine execution.\<close>

theorem held_handoff_changes_nothing:
  assumes "gh_execute env q s = (Ok x, s')" and "hx_status x = ''HELD''"
  shows "sp_entries s' = sp_entries s \<and> binding_claims_held (sp_ledger s') = binding_claims_held (sp_ledger s)
    \<and> \<not> hx_binding_consumed x \<and> hx_spine_receipt_id x = None
    \<and> (hx_replay_blocked x \<longleftrightarrow> hx_reason x = ''binding_already_consumed'' \<or> hx_reason x = ''binding_execution_claim_unavailable'')"
  using assms(1)
proof (cases rule: gh_execute_cases)
  case (checked r')
  have chk: "gh_check env q s = (Inr (Some x), s')" using checked by auto
  note st = steady_claims [OF quietD [OF quiet_check chk]]
  from chk consider reason where "revalidate q (sp_registry s) (sp_executors s) = Inr (Some reason)" and "x = held_receipt q reason False"
    | "x = held_receipt q ''binding_already_consumed'' True"
    by (rule gh_check_held)
  then show ?thesis
  proof cases
    case 1
    with revalidate_reason [OF 1(1)] st show ?thesis by (simp add: held_receipt_facts calm_def)
  next
    case 2
    with st show ?thesis by (simp add: held_receipt_facts calm_def)
  qed
next
  case (refused r' s1)
  note st = steady_claims [OF quietD [OF quiet_check refused(1)]]
  from refused(2) show ?thesis
    by (cases rule: gh_claim_cases) (use refused st in \<open>auto simp: held_receipt_facts calm_def\<close>)
next
  case (ran s1 s2)
  from gh_run_status [OF ran(3)] assms(2) show ?thesis by simp
qed

theorem held_handoff_changes_nothing_witness:
  "\<exists>x s'. gh_execute sample_env (sample_request\<lparr>hq_plan := build_plan_state ''b'' 0 [''a'', ''b''] ''route'' None None\<rparr>)
       (sample_spine sample_handler) = (Ok x, s') \<and>
     hx_status x = ''HELD'' \<and> hx_reason x = ''binding_plan_scope_mismatch'' \<and> sp_entries s' = []"
proof -
  let ?p = "build_plan_state ''b'' 0 [''a'', ''b''] ''route'' None None"
  let ?q = "sample_request\<lparr>hq_plan := ?p\<rparr>" and ?s = "sample_spine sample_handler"
  have "validate_plan_state ?p = Inr ()" by (simp add: validate_plan_state_Ok_iff build_plan_state_def)
  then have "validate_inputs ?q = Inr ()"
    using sample_binding_ok
    by (simp add: validate_inputs_def first_error_Ok_Cons rewrap_Ok_iff sample_request_def validate_binding_Ok_iff)
  moreover have "validate_lease_provenance ?q = Inr ()"
    by (simp add: validate_lease_provenance_def first_error_Ok_Cons sample_request_def lease_digest_check_def)
  moreover have "current_plan_scope ?p sample_binding = Some ''binding_plan_scope_mismatch''"
    by (simp add: current_plan_scope_def sample_binding_def sample_plan_def build_plan_state_def)
  ultimately have "revalidate ?q (sp_registry ?s) (sp_executors ?s) = Inr (Some ''binding_plan_scope_mismatch'')"
    by (simp add: revalidate_def) (simp add: sample_request_def)
  then have e: "gh_execute sample_env ?q ?s = (Inr (held_receipt ?q ''binding_plan_scope_mismatch'' False), ?s)"
    by (simp add: gh_execute_def gh_check_def act_bind_def act_return_def)
  from held_handoff_changes_nothing [OF e] e show ?thesis
    by (simp add: held_receipt_facts) (simp add: sample_spine_def)
qed

text \<open>C11: A request that revalidates, whose binding is neither consumed nor claimed, is carried out when
  nothing disturbs the system: the handler is called exactly once, the receipt reports the status of
  its outcome and consumes the binding, the claim stays, and the attempt is the last row of the
  execution history.\<close>

theorem admitted_handoff_completes:
  assumes "clean_env env" and "small_config s" "never_interrupts s" "small_core s" "small_prov (handoff_prov q)"
    and "posted s" and "admitted q s"
    and "cr_get (sp_registry s) (pb_capability_id (hq_binding q)) = Ok c"
    and "set (cap_permissions c) \<subseteq> set (sp_allowed s)" and "xr_handler (sp_executors s) (cap_id c) = Ok h"
  shows "\<exists>r x s'. gh_execute env q s = (Ok r, s') \<and> hx_binding_consumed r \<and>
    hx_spine_execution_status r = Some (outcome_status (h (length (sp_entries s)) (hq_payload q))) \<and>
    sp_entries s' = sp_entries s @ [\<lparr>he_capability_id = cap_id c, he_payload = hq_payload q, he_provenance = handoff_prov q\<rparr>] \<and>
    binding_sha256 q \<in> binding_claims_held (sp_ledger s') \<and>
    logged x s' \<and> xc_governed_provenance x = handoff_prov q"
  by (rule handoff_completes [OF assms]) (auto simp: handoff_receipt_def handoff_entry_def Let_def)

theorem admitted_handoff_completes_witness:
  "\<exists>r s'. gh_execute sample_env sample_request (sample_spine sample_handler) = (Ok r, s') \<and> hx_binding_consumed r \<and>
    hx_spine_execution_status r = Some ''succeeded'' \<and> length (sp_entries s') = 1"
proof -
  note small = sample_spine_small [of sample_handler, OF sample_handler_small]
  from admitted_handoff_completes [OF sample_env_clean small(1,3,2) sample_request_small small(4) sample_request_admitted
      sample_request_config]
  show ?thesis by (auto simp: sample_handler_def sample_spine_def)
qed

text \<open>C40: A handler failure whose message fills a whole record defeats the single-use claim: the error of
  the record that cannot be written is caught as a failure \<open>before receipting\<close>, the claim is
  removed, nothing is in the execution history, and the same request calls the handler again.\<close>

theorem oversized_failure_repeats:
  assumes "clean_env env" and "posted s" and "admitted q s"
    and "small (pc_task_id (sp_core s))" "small_core s" "small_capability c" "small_prov (handoff_prov q)"
    and "cr_get (sp_registry s) (pb_capability_id (hq_binding q)) = Ok c"
    and "set (cap_permissions c) \<subseteq> set (sp_allowed s)" and "xr_handler (sp_executors s) (cap_id c) = Ok h"
    and "\<forall>n. \<exists>t m. h n (hq_payload q) = Raised t m \<and> MAX_RECORD_BYTES \<le> length m"
  shows "\<exists>e s1 s2. gh_execute env q s = (Inl e, s1) \<and> exn_class e = ExecutionHandoffContractError \<and>
    binding_sha256 q \<notin> binding_claims_held (sp_ledger s1) \<and>
    rl_has_consumed_binding None (binding_sha256 q) (sp_ledger s1) = Ok False \<and>
    gh_execute env q s1 = (Inl e, s2) \<and> length (sp_entries s2) = length (sp_entries s) + 2"
proof -
  obtain t m where out: "h (length (sp_entries s)) (hq_payload q) = Raised t m" "MAX_RECORD_BYTES \<le> length m"
    using assms(11) by blast
  let ?e = "Exn ExecutionHandoffContractError ''spine execution handoff failed before receipting: state record exceeds 16 MiB''"
  obtain s1 where 1: "gh_execute env q s = (Inl ?e, s1)" "calm (s\<lparr>sp_entries := sp_entries s @ [handoff_entry q (cap_id c)]\<rparr>) s1"
    "admitted q s1" by (rule handoff_forgets [OF assms(1-10) out])
  have same: "sp_registry s1 = sp_registry s" "sp_allowed s1 = sp_allowed s" "sp_executors s1 = sp_executors s" "sp_core s1 = sp_core s"
    "length (sp_entries s1) = length (sp_entries s) + 1"
    using 1(2) by (simp_all add: calm_def)
  have p: "posted s1" using 1(2) assms(2) by (simp add: posted_def calm_def)
  have c: "small_core s1" using assms(5) same by (simp add: small_core_def)
  obtain t' m' where out: "h (length (sp_entries s1)) (hq_payload q) = Raised t' m'" "MAX_RECORD_BYTES \<le> length m'"
    using assms(11) by blast
  obtain s2 where 2: "gh_execute env q s1 = (Inl ?e, s2)"
    "calm (s1\<lparr>sp_entries := sp_entries s1 @ [handoff_entry q (cap_id c)]\<rparr>) s2"
    by (rule handoff_forgets [OF assms(1) p 1(3) assms(4) [folded same] c assms(6,7) assms(8-10) [folded same] out])
  show ?thesis
    using 1 2 same by (intro exI [of _ ?e] exI [of _ s1] exI [of _ s2]) (simp add: admitted_def calm_def)
qed

theorem oversized_failure_repeats_witness:
  "\<exists>e s1 s2. gh_execute sample_env sample_request (sample_spine oversized_handler) = (Inl e, s1) \<and>
    gh_execute sample_env sample_request s1 = (Inl e, s2) \<and> length (sp_entries s2) = 2"
proof -
  let ?s = "sample_spine oversized_handler"
  have "posted ?s" "small (pc_task_id (sp_core ?s))" "small_core ?s" "small_capability text_capability"
    using sample_spine_small [of sample_handler, OF sample_handler_small]
    by (simp_all add: posted_def sample_spine_def small_config_def small_core_def)
  moreover have "\<forall>n. \<exists>t m. oversized_handler n (hq_payload sample_request) = Raised t m \<and> MAX_RECORD_BYTES \<le> length m"
    by (simp add: oversized_handler_def)
  ultimately show ?thesis
    using oversized_failure_repeats [OF sample_env_clean _ sample_request_admitted _ _ _ sample_request_small sample_request_config]
    by (fastforce simp: sample_spine_def)
qed

end
