(* ===== verification/Single_Use.thy ===== *)
theory Single_Use
  imports Main
begin

text \<open>
  The contract behind single-use bindings and leases, once for both hand-overs: any number of
  attempts share a store of claims; an attempt checks that its key was not used, claims the key
  exclusively, and runs.  Between two phases any other attempt may move, and an attempt may stop for
  ever at any point.  A provider states what its three phases do to the claims and to the calls made
  under a key; the client's results are that a key is used at most once, that a claim guards every
  call, and that the keys behave like single-use tokens.
\<close>

section \<open>Attempts\<close>

datatype 'd phase = Idle | Checked 'd | Claimed 'd

type_synonym ('s, 'd) world = "'s \<times> (nat \<Rightarrow> 'd phase)"

inductive attempt_step ::
  "('q \<Rightarrow> bool) \<Rightarrow> ('q \<Rightarrow> 's \<Rightarrow> 'd option \<times> 's) \<Rightarrow> ('d \<Rightarrow> 's \<Rightarrow> bool \<times> 's) \<Rightarrow> ('d \<Rightarrow> 's \<Rightarrow> 's)
    \<Rightarrow> ('s, 'd) world \<Rightarrow> ('s, 'd) world \<Rightarrow> bool"
  for P check claim run where
  checks: "a k = Idle \<Longrightarrow> P q \<Longrightarrow> check q s = (d, s') \<Longrightarrow>
    attempt_step P check claim run (s, a) (s', a(k := (case d of None \<Rightarrow> Idle | Some x \<Rightarrow> Checked x)))"
| claims: "a k = Checked d \<Longrightarrow> claim d s = (won, s') \<Longrightarrow>
    attempt_step P check claim run (s, a) (s', a(k := (if won then Claimed d else Idle)))"
| runs: "a k = Claimed d \<Longrightarrow> attempt_step P check claim run (s, a) (run d s, a(k := Idle))"
| stops: "attempt_step P check claim run (s, a) (s, a(k := Idle))"

inductive_cases attempt_stepE: "attempt_step P check claim run (s, a) w"

text \<open>One attempt that is not interleaved with another.\<close>

definition solo :: "('q \<Rightarrow> 's \<Rightarrow> 'd option \<times> 's) \<Rightarrow> ('d \<Rightarrow> 's \<Rightarrow> bool \<times> 's) \<Rightarrow> ('d \<Rightarrow> 's \<Rightarrow> 's) \<Rightarrow> 'q \<Rightarrow> 's \<Rightarrow> 's" where
  "solo check claim run q s =
     (case check q s of
        (None, s1) \<Rightarrow> s1
      | (Some d, s1) \<Rightarrow> (case claim d s1 of (won, s2) \<Rightarrow> if won then run d s2 else s2))"

lemma update_idle: "((\<lambda>_. Idle)(i := x))(i := Idle) = (\<lambda>_. Idle)" "(\<lambda>_. Idle)(i := Idle) = (\<lambda>_. Idle)"
  by auto

lemma solo_reach:
  assumes "P q"
  shows "(attempt_step P check claim run)\<^sup>*\<^sup>* (s, \<lambda>_. Idle) (solo check claim run q s, \<lambda>_. Idle)"
proof -
  obtain d s1 where c: "check q s = (d, s1)" by fastforce
  have 1: "attempt_step P check claim run (s, \<lambda>_. Idle) (s1, (\<lambda>_. Idle)(0 := (case d of None \<Rightarrow> Idle | Some x \<Rightarrow> Checked x)))"
    by (rule checks) (use assms c in simp_all)
  show ?thesis
  proof (cases d)
    case None
    then show ?thesis using 1 c by (simp add: solo_def update_idle r_into_rtranclp)
  next
    case (Some x)
    obtain won s2 where w: "claim x s1 = (won, s2)" by fastforce
    have 2: "attempt_step P check claim run (s1, (\<lambda>_. Idle)(0 := Checked x))
        (s2, ((\<lambda>_. Idle)(0 := Checked x))(0 := (if won then Claimed x else Idle)))"
      by (rule claims) (use w in simp_all)
    have 3: "attempt_step P check claim run (s2, (\<lambda>_. Idle)(0 := Claimed x)) (run x s2, ((\<lambda>_. Idle)(0 := Claimed x))(0 := Idle))"
      by (rule runs) simp
    note R = r_into_rtranclp [of "attempt_step P check claim run"] rtranclp.rtrancl_into_rtrancl [of "attempt_step P check claim run"]
    show ?thesis
    proof (cases "won = True")
      case True
      with 1 2 3 Some have "(attempt_step P check claim run)\<^sup>*\<^sup>* (s, \<lambda>_. Idle) (run x s2, \<lambda>_. Idle)"
        by (auto simp add: update_idle intro: R(2) [OF R(2) [OF R(1)]])
      with c w Some True show ?thesis by (simp add: solo_def)
    next
      case False
      with 1 2 Some have "(attempt_step P check claim run)\<^sup>*\<^sup>* (s, \<lambda>_. Idle) (s2, \<lambda>_. Idle)"
        by (auto simp add: update_idle intro: R(2) [OF R(1)])
      with c w Some False show ?thesis by (simp add: solo_def)
    qed
  qed
qed

section \<open>Tokens\<close>

datatype token = Free | Reserved | Spent

inductive token_step :: "token \<Rightarrow> token \<Rightarrow> bool" where
  reserve: "token_step Free Reserved"
| give_back: "token_step Reserved Free"
| spend: "token_step Reserved Spent"
| stay: "token_step t t"

inductive_simps token_step_from: "token_step Free t" "token_step Reserved t" "token_step Spent t"

definition token_of :: "string set \<Rightarrow> nat \<Rightarrow> string \<Rightarrow> token" where
  "token_of held calls k = (if calls \<noteq> 0 then Spent else if k \<in> held then Reserved else Free)"

section \<open>The contract\<close>

locale single_use =
  fixes P :: "'q \<Rightarrow> bool"
    and check :: "'q \<Rightarrow> 's \<Rightarrow> 'd option \<times> 's"
    and claim :: "'d \<Rightarrow> 's \<Rightarrow> bool \<times> 's"
    and run :: "'d \<Rightarrow> 's \<Rightarrow> 's"
    and key :: "'d \<Rightarrow> string"
    and adm :: "'d \<Rightarrow> bool"
    and sound :: "'s \<Rightarrow> bool"
    and held :: "'s \<Rightarrow> string set"
    and calls :: "string \<Rightarrow> 's \<Rightarrow> nat"
  assumes check_law: "check q s = (d, s') \<Longrightarrow> sound s \<Longrightarrow> sound s' \<and> held s' = held s \<and> (\<forall>k. calls k s' = calls k s)"
    and check_adm: "P q \<Longrightarrow> check q s = (Some x, s') \<Longrightarrow> adm x"
    and claim_frame: "claim x s = (won, s') \<Longrightarrow> sound s \<Longrightarrow> sound s' \<and> (\<forall>k. calls k s' = calls k s)"
    and claim_won: "claim x s = (True, s') \<Longrightarrow> key x \<notin> held s \<and> held s' = insert (key x) (held s)"
    and claim_lost: "claim x s = (False, s') \<Longrightarrow> held s \<subseteq> held s' \<and> held s' \<subseteq> insert (key x) (held s)"
    and run_law: "sound s \<Longrightarrow> adm x \<Longrightarrow> sound (run x s) \<and> held s - {key x} \<subseteq> held (run x s) \<and> held (run x s) \<subseteq> held s"
    and run_calls: "sound s \<Longrightarrow> adm x \<Longrightarrow> (\<forall>k. calls k (run x s) = calls k s) \<or>
      held (run x s) = held s \<and> (\<forall>k. calls k (run x s) = calls k s + (if k = key x then 1 else 0))"
begin

definition inv :: "('s, 'd) world \<Rightarrow> bool" where
  "inv w \<longleftrightarrow> (case w of (s, a) \<Rightarrow>
     sound s \<and> (\<forall>i x. a i = Checked x \<or> a i = Claimed x \<longrightarrow> adm x) \<and>
     (\<forall>i x. a i = Claimed x \<longrightarrow> key x \<in> held s \<and> calls (key x) s = 0) \<and>
     (\<forall>i j x y. a i = Claimed x \<longrightarrow> a j = Claimed y \<longrightarrow> key x = key y \<longrightarrow> i = j) \<and>
     (\<forall>k. calls k s \<le> 1 \<and> (calls k s \<noteq> 0 \<longrightarrow> k \<in> held s)))"

lemma inv_start: "sound s \<Longrightarrow> (\<And>k. calls k s = 0) \<Longrightarrow> inv (s, \<lambda>_. Idle)"
  by (simp add: inv_def)

lemma inv_parts:
  assumes "inv (s, a)"
  shows "sound s" and "a i = Checked x \<or> a i = Claimed x \<Longrightarrow> adm x"
    and "a i = Claimed x \<Longrightarrow> key x \<in> held s \<and> calls (key x) s = 0"
    and "a i = Claimed x \<Longrightarrow> a j = Claimed y \<Longrightarrow> key x = key y \<Longrightarrow> i = j"
    and "calls k s \<le> 1" and "calls k s \<noteq> 0 \<Longrightarrow> k \<in> held s"
  using assms unfolding inv_def prod.case by blast+

lemma invI:
  assumes "sound s" and "\<And>i x. a i = Checked x \<or> a i = Claimed x \<Longrightarrow> adm x"
    and "\<And>i x. a i = Claimed x \<Longrightarrow> key x \<in> held s \<and> calls (key x) s = 0"
    and "\<And>i j x y. a i = Claimed x \<Longrightarrow> a j = Claimed y \<Longrightarrow> key x = key y \<Longrightarrow> i = j"
    and "\<And>k. calls k s \<le> 1 \<and> (calls k s \<noteq> 0 \<longrightarrow> k \<in> held s)"
  shows "inv (s, a)"
  using assms unfolding inv_def prod.case by blast

text \<open>An attempt that moves without a call and without losing a claim.\<close>

lemma inv_frame:
  assumes i: "inv (s, a)" and "sound s'" and h: "held s \<subseteq> held s'" and c: "\<And>k. calls k s' = calls k s"
    and p: "\<And>x. p \<noteq> Claimed x" "\<And>x. p = Checked x \<Longrightarrow> adm x"
  shows "inv (s', a(n := p))"
proof (rule invI)
  note parts = inv_parts [OF i]
  fix i j x y k
  have old: "(a(n := p)) i = Claimed z \<Longrightarrow> a i = Claimed z" for i z using p(1) [of z] by (auto split: if_splits)
  show "(a(n := p)) i = Checked x \<or> (a(n := p)) i = Claimed x \<Longrightarrow> adm x"
    using parts(2) p by (auto split: if_splits)
  show "(a(n := p)) i = Claimed x \<Longrightarrow> key x \<in> held s' \<and> calls (key x) s' = 0"
    using old parts(3) h c by (metis subsetD)
  show "(a(n := p)) i = Claimed x \<Longrightarrow> (a(n := p)) j = Claimed y \<Longrightarrow> key x = key y \<Longrightarrow> i = j"
    using old parts(4) by blast
  show "calls k s' \<le> 1 \<and> (calls k s' \<noteq> 0 \<longrightarrow> k \<in> held s')" using parts(5,6) h c by auto
qed (fact assms(2))

lemma inv_claim:
  assumes i: "inv (s, a)" and n: "a n = Checked d" and "sound s'" and new: "key d \<notin> held s"
    and h: "held s' = insert (key d) (held s)" and c: "\<And>k. calls k s' = calls k s"
  shows "inv (s', a(n := Claimed d))"
proof (rule invI)
  note parts = inv_parts [OF i]
  fix i j x y k
  show "(a(n := Claimed d)) i = Checked x \<or> (a(n := Claimed d)) i = Claimed x \<Longrightarrow> adm x"
    using parts(2) n by (auto split: if_splits)
  have zero: "calls (key d) s = 0" using parts(6) new by blast
  show "(a(n := Claimed d)) i = Claimed x \<Longrightarrow> key x \<in> held s' \<and> calls (key x) s' = 0"
    using parts(3) zero h c by (auto split: if_splits)
  have other: "key z \<noteq> key d" if "i \<noteq> n" "(a(n := Claimed d)) i = Claimed z" for i z
    using parts(3) [of i z] new that by auto
  show "(a(n := Claimed d)) i = Claimed x \<Longrightarrow> (a(n := Claimed d)) j = Claimed y \<Longrightarrow> key x = key y \<Longrightarrow> i = j"
    using other [of i x] other [of j y] parts(4) by (cases "i = n"; cases "j = n") auto
  show "calls k s' \<le> 1 \<and> (calls k s' \<noteq> 0 \<longrightarrow> k \<in> held s')" using parts(5,6) h c by auto
qed (fact assms(3))

lemma inv_run:
  assumes i: "inv (s, a)" and n: "a n = Claimed d"
  shows "inv (run d s, a(n := Idle))"
proof -
  note parts = inv_parts [OF i]
  have pre: "sound s" "adm d" "key d \<in> held s" "calls (key d) s = 0" using parts(1,2,3) n by blast+
  note law = run_law [OF pre(1,2)]
  have others: "key x \<noteq> key d" if "(a(n := Idle)) i = Claimed x" for i x
    using that parts(4) [of i x n d] n by (auto split: if_splits)
  show ?thesis
  proof (rule invI)
    fix i j x y k
    show "sound (run d s)" using law ..
    show "(a(n := Idle)) i = Checked x \<or> (a(n := Idle)) i = Claimed x \<Longrightarrow> adm x"
      using parts(2) by (auto split: if_splits)
    show "(a(n := Idle)) i = Claimed x \<Longrightarrow> (a(n := Idle)) j = Claimed y \<Longrightarrow> key x = key y \<Longrightarrow> i = j"
      using parts(4) by (auto split: if_splits)
    show "key x \<in> held (run d s) \<and> calls (key x) (run d s) = 0" if "(a(n := Idle)) i = Claimed x"
    proof -
      have "a i = Claimed x" using that by (simp split: if_splits)
      then show ?thesis using parts(3) others [OF that] law run_calls [OF pre(1,2)] by auto
    qed
    show "calls k (run d s) \<le> 1 \<and> (calls k (run d s) \<noteq> 0 \<longrightarrow> k \<in> held (run d s))"
      using run_calls [OF pre(1,2)] parts(5,6) [of k] pre law by (cases "k = key d") auto
  qed
qed

lemma inv_step:
  assumes "attempt_step P check claim run w w'" and "inv w"
  shows "inv w'"
  using assms(1)
proof (cases rule: attempt_step.cases)
  case (checks a n q s d s')
  have i: "inv (s, a)" using assms(2) checks(1) by simp
  from check_law [OF checks(5) inv_parts(1) [OF i]] check_adm [OF checks(4)] checks(5) show ?thesis
    unfolding checks(2) by (intro inv_frame [OF i]) (auto split: option.splits)
next
  case (claims a n d s won s')
  have i: "inv (s, a)" using assms(2) claims(1) by simp
  note fr = claim_frame [OF claims(4) inv_parts(1) [OF i]]
  show ?thesis
  proof (cases "won = True")
    case True
    with claims(4) have "key d \<notin> held s \<and> held s' = insert (key d) (held s)" by (intro claim_won) simp
    then show ?thesis using inv_claim [OF i claims(3)] fr True unfolding claims(2) by simp
  next
    case False
    with claims(4) have "held s \<subseteq> held s'" using claim_lost [of d s s'] by simp
    then have "inv (s', a(n := Idle))" by (rule inv_frame [OF i, rotated]) (use fr in simp_all)
    then show ?thesis using False unfolding claims(2) by simp
  qed
next
  case (runs a n d s)
  then show ?thesis using inv_run assms(2) by simp
next
  case (stops s a n)
  then show ?thesis using inv_frame [of s a s Idle n] inv_parts(1) [of s a] assms(2) by simp
qed

lemma inv_reach:
  assumes "(attempt_step P check claim run)\<^sup>*\<^sup>* w w'" and "inv w"
  shows "inv w'"
  using assms by (induction rule: rtranclp_induct) (blast intro: inv_step)+

lemma at_most_once: "inv (s, a) \<Longrightarrow> calls k s \<le> 1"
  by (simp add: inv_def)

lemma guarded:
  assumes "inv (s, a)"
  shows "(\<forall>i x. a i = Claimed x \<longrightarrow> key x \<in> held s \<and> calls (key x) s = 0)
    \<and> (\<forall>i j x y. a i = Claimed x \<longrightarrow> a j = Claimed y \<longrightarrow> key x = key y \<longrightarrow> i = j)
    \<and> (\<forall>k. calls k s \<noteq> 0 \<longrightarrow> k \<in> held s)"
  using assms by (simp add: inv_def)

lemma token_idle:
  assumes "calls k s' = calls k s" and "held s - {c} \<subseteq> held s'" and "held s' \<subseteq> insert c (held s)"
  shows "token_step (token_of (held s) (calls k s) k) (token_of (held s') (calls k s') k)"
  using assms by (cases "k = c") (auto simp: token_of_def token_step_from)

lemma simulation:
  assumes "attempt_step P check claim run w w'" and "inv w"
  shows "token_step (token_of (held (fst w)) (calls k (fst w)) k) (token_of (held (fst w')) (calls k (fst w')) k)"
  using assms(1)
proof (cases rule: attempt_step.cases)
  case (checks a i q s d s')
  then have "sound s" using assms(2) by (simp add: inv_def)
  from check_law [OF checks(5) this] show ?thesis unfolding checks(1,2) fst_conv by (intro token_idle) auto
next
  case (claims a i d s won s')
  then have "sound s" using assms(2) by (simp add: inv_def)
  note fr = claim_frame [OF claims(4) this]
  show ?thesis unfolding claims(1,2) fst_conv
  proof (rule token_idle)
    show "held s - {key d} \<subseteq> held s'" and "held s' \<subseteq> insert (key d) (held s)"
      using claim_won [of d s s'] claim_lost [of d s s'] claims(4) by (cases won; auto)+
  qed (use fr in blast)
next
  case (runs a i d s)
  then have pre: "sound s" "adm d" "key d \<in> held s" "calls (key d) s = 0" using assms(2) by (auto simp: inv_def)
  note law = run_law [OF pre(1,2)]
  from run_calls [OF pre(1,2)] show ?thesis unfolding runs(1,2) fst_conv
  proof
    assume "\<forall>k. calls k (run d s) = calls k s"
    then show "token_step (token_of (held s) (calls k s) k) (token_of (held (run d s)) (calls k (run d s)) k)"
      using law by (intro token_idle [of k "run d s" s "key d"]) auto
  next
    assume "held (run d s) = held s \<and> (\<forall>k. calls k (run d s) = calls k s + (if k = key d then 1 else 0))"
    then show "token_step (token_of (held s) (calls k s) k) (token_of (held (run d s)) (calls k (run d s)) k)"
      using pre by (cases "k = key d") (auto simp: token_of_def token_step_from)
  qed
next
  case (stops s a i)
  then show ?thesis by (simp add: token_step.stay)
qed

end

end
