(* ===== verification/Handoff_Protocol.thy ===== *)
theory Handoff_Protocol
  imports Execution_Handoff Single_Use
begin

text \<open>
  Concurrent hand-overs.  Any number of attempts share one state root; each moves through the phases
  of \<open>execute\<close>, and between two phases any other attempt may move.  An attempt may also stop for
  ever at any point.  The phases of \<open>execute\<close> meet the contract \<open>single_use\<close> with the binding digest
  as the key, the claim files as the claims and the handler calls that carry the digest as the calls.
  A phase is one step: the file operations inside it are serialised by the file locks and by
  \<open>O_EXCL\<close>, and the claim is held while the run goes on.
\<close>

section \<open>The phases of \<open>execute\<close>\<close>

definition gh_checks :: "env \<Rightarrow> handoff_request \<Rightarrow> spine \<Rightarrow> handoff_request option \<times> spine" where
  "gh_checks env q s = (case gh_check env q s of (r, s') \<Rightarrow> (if r = Inr None then Some q else None, s'))"

definition gh_claims :: "env \<Rightarrow> handoff_request \<Rightarrow> spine \<Rightarrow> bool \<times> spine" where
  "gh_claims env q s = (case gh_claim env q s of (r, s') \<Rightarrow> (r = Inr None, s'))"

definition gh_runs :: "env \<Rightarrow> handoff_request \<Rightarrow> spine \<Rightarrow> spine" where
  "gh_runs env q s = snd (gh_run env q s)"

text \<open>One step of the protocol, for requests whose provenance is of ordinary size (\<open>small_prov\<close>).\<close>

definition gh_step :: "env \<Rightarrow> (spine, handoff_request) world \<Rightarrow> (spine, handoff_request) world \<Rightarrow> bool" where
  "gh_step env = attempt_step (\<lambda>q. small_prov (handoff_prov q)) (gh_checks env) (gh_claims env) (gh_runs env)"

lemma execute_solo: "snd (gh_execute env q s) = solo (gh_checks env) (gh_claims env) (gh_runs env) q s"
proof -
  obtain r1 s1 where 1: "gh_check env q s = (r1, s1)" by fastforce
  obtain r2 s2 where 2: "gh_claim env q s1 = (r2, s2)" by fastforce
  show ?thesis
    using 1 2
    by (auto simp: solo_def gh_checks_def gh_claims_def gh_runs_def gh_execute_def act_bind_def act_return_def
        split: sum.splits option.splits)
qed

section \<open>Handler calls under a binding\<close>

definition entry_binding :: "handler_entry \<Rightarrow> string option" where
  "entry_binding e = (case he_provenance e of Some (PlanProvenance p) \<Rightarrow> Some (ep_action_binding_sha256 p) | _ \<Rightarrow> None)"

definition calls_under :: "string \<Rightarrow> spine \<Rightarrow> nat" where
  "calls_under b s = length (filter (\<lambda>e. entry_binding e = Some b) (sp_entries s))"

lemma entry_binding_handoff [simp]: "entry_binding (handoff_entry q cid) = Some (binding_sha256 q)"
  by (simp add: entry_binding_def handoff_entry_def handoff_prov_def handoff_provenance_def)

lemma calls_calm: "calm s s' \<Longrightarrow> calls_under b s' = calls_under b s"
  by (simp add: calm_def calls_under_def)

lemma calls_add:
  "calls_under b (s\<lparr>sp_entries := sp_entries s @ [e]\<rparr>) = calls_under b s + (if entry_binding e = Some b then 1 else 0)"
  by (simp add: calls_under_def)

section \<open>The protocol meets the contract\<close>

definition sound :: "spine \<Rightarrow> bool" where
  "sound s \<longleftrightarrow> small_config s \<and> readable (rl_receipts (sp_ledger s))"

lemma sound_calm: "calm s s' \<Longrightarrow> sound s \<Longrightarrow> sound s'"
  by (simp add: calm_def sound_def small_config_def)

lemma sound_entry: "sound (s\<lparr>sp_entries := es\<rparr>) = sound s"
  by (simp add: sound_def small_config_def)

lemma gh_checks_law:
  assumes "gh_checks env q s = (d, s')"
  shows "calm s s' \<and> claims_of s' = claims_of s \<and> (\<forall>x. d = Some x \<longrightarrow> x = q)"
proof -
  obtain r where "gh_check env q s = (r, s')" and "d = (if r = Inr None then Some q else None)"
    using assms by (auto simp: gh_checks_def split: prod.splits)
  then show ?thesis using steady_claims [OF quietD [OF quiet_check]] by (auto split: if_splits)
qed

lemma gh_claims_law:
  assumes "gh_claims env q s = (won, s')"
  shows "calm s s'"
    and "won \<Longrightarrow> binding_sha256 q \<notin> claims_of s \<and> claims_of s' = insert (binding_sha256 q) (claims_of s)"
    and "\<not> won \<Longrightarrow> claims_of s \<subseteq> claims_of s' \<and> claims_of s' \<subseteq> insert (binding_sha256 q) (claims_of s)"
proof -
  obtain r where c: "gh_claim env q s = (r, s')" and w: "won = (r = Inr None)"
    using assms by (auto simp: gh_claims_def split: prod.splits)
  from c show "calm s s'"
    and "won \<Longrightarrow> binding_sha256 q \<notin> claims_of s \<and> claims_of s' = insert (binding_sha256 q) (claims_of s)"
    and "\<not> won \<Longrightarrow> claims_of s \<subseteq> claims_of s' \<and> claims_of s' \<subseteq> insert (binding_sha256 q) (claims_of s)"
    by (cases rule: gh_claim_cases; simp add: w; blast)+
qed

lemma gh_runs_law:
  assumes "small_env env" and "sound s" and "small_prov (handoff_prov q)"
  shows "sound (gh_runs env q s) \<and> claims_of s - {binding_sha256 q} \<subseteq> claims_of (gh_runs env q s) \<and>
      claims_of (gh_runs env q s) \<subseteq> claims_of s"
    and "(\<forall>b. calls_under b (gh_runs env q s) = calls_under b s) \<or> claims_of (gh_runs env q s) = claims_of s \<and>
      (\<forall>b. calls_under b (gh_runs env q s) = calls_under b s + (if b = binding_sha256 q then 1 else 0))"
proof -
  obtain r s' where run: "gh_run env q s = (r, s')" by fastforce
  then have s': "gh_runs env q s = s'" by (simp add: gh_runs_def)
  have "sound s' \<and> claims_of s - {binding_sha256 q} \<subseteq> claims_of s' \<and> claims_of s' \<subseteq> claims_of s \<and>
      ((\<forall>b. calls_under b s' = calls_under b s) \<or> claims_of s' = claims_of s \<and>
       (\<forall>b. calls_under b s' = calls_under b s + (if b = binding_sha256 q then 1 else 0)))"
    using run
  proof (cases rule: gh_run_cases)
    case unentered
    with sound_calm [OF unentered(1) assms(2)] calls_calm [OF unentered(1)] show ?thesis by simp
  next
    case (entered c)
    have "claims_of s' = claims_of s" using entered(6) assms by (simp add: sound_def)
    moreover have "sound s'" using sound_calm [OF entered(3)] assms(2) by (simp add: sound_entry)
    moreover have "calls_under b s' = calls_under b s + (if b = binding_sha256 q then 1 else 0)" for b
      using calls_calm [OF entered(3), of b] by (simp add: calls_add)
    ultimately show ?thesis by simp
  qed
  then show "sound (gh_runs env q s) \<and> claims_of s - {binding_sha256 q} \<subseteq> claims_of (gh_runs env q s) \<and>
      claims_of (gh_runs env q s) \<subseteq> claims_of s"
    and "(\<forall>b. calls_under b (gh_runs env q s) = calls_under b s) \<or> claims_of (gh_runs env q s) = claims_of s \<and>
      (\<forall>b. calls_under b (gh_runs env q s) = calls_under b s + (if b = binding_sha256 q then 1 else 0))"
    unfolding s' by blast+
qed

interpretation handoffs: single_use "\<lambda>q. small_prov (handoff_prov q)" "gh_checks env" "gh_claims env" "gh_runs env"
    binding_sha256 "\<lambda>q. small_prov (handoff_prov q)" "\<lambda>s. small_env env \<and> sound s" claims_of calls_under
  for env
proof unfold_locales
  fix q d s s' x won
  show "gh_checks env q s = (d, s') \<Longrightarrow> small_env env \<and> sound s \<Longrightarrow> (small_env env \<and> sound s') \<and> claims_of s' = claims_of s \<and>
      (\<forall>k. calls_under k s' = calls_under k s)"
    using gh_checks_law calls_calm sound_calm by blast
  show "small_prov (handoff_prov q) \<Longrightarrow> gh_checks env q s = (Some x, s') \<Longrightarrow> small_prov (handoff_prov x)"
    using gh_checks_law by blast
  show "gh_claims env x s = (won, s') \<Longrightarrow> small_env env \<and> sound s \<Longrightarrow> (small_env env \<and> sound s') \<and>
      (\<forall>k. calls_under k s' = calls_under k s)"
    using gh_claims_law(1) calls_calm sound_calm by blast
  show "gh_claims env x s = (True, s') \<Longrightarrow> binding_sha256 x \<notin> claims_of s \<and> claims_of s' = insert (binding_sha256 x) (claims_of s)"
    using gh_claims_law(2) by blast
  show "gh_claims env x s = (False, s') \<Longrightarrow> claims_of s \<subseteq> claims_of s' \<and> claims_of s' \<subseteq> insert (binding_sha256 x) (claims_of s)"
    using gh_claims_law(3) by blast
  show "small_env env \<and> sound s \<Longrightarrow> small_prov (handoff_prov x) \<Longrightarrow> (small_env env \<and> sound (gh_runs env x s)) \<and>
      claims_of s - {binding_sha256 x} \<subseteq> claims_of (gh_runs env x s) \<and> claims_of (gh_runs env x s) \<subseteq> claims_of s"
    using gh_runs_law(1) by blast
  show "small_env env \<and> sound s \<Longrightarrow> small_prov (handoff_prov x) \<Longrightarrow> (\<forall>k. calls_under k (gh_runs env x s) = calls_under k s) \<or>
      claims_of (gh_runs env x s) = claims_of s \<and>
      (\<forall>k. calls_under k (gh_runs env x s) = calls_under k s + (if k = binding_sha256 x then 1 else 0))"
    using gh_runs_law(2) by blast
qed

lemma handoffs_inv:
  assumes "(gh_step env)\<^sup>*\<^sup>* (s, \<lambda>_. Idle) w" and "sound s" and "sp_entries s = []" and "small_env env"
  shows "handoffs.inv env w"
  by (rule handoffs.inv_reach [OF assms(1) [unfolded gh_step_def] handoffs.inv_start])
     (use assms in \<open>simp_all add: calls_under_def\<close>)

section \<open>A concrete run\<close>

lemma sample_sound: "sound (sample_spine sample_handler)"
  using sample_spine_small [of sample_handler, OF sample_handler_small] by (simp add: sound_def posted_def)

lemma sample_small_env: "small_env sample_env"
  using sample_env_clean by (simp add: clean_env_def)

lemma sample_no_entries: "sp_entries (sample_spine h) = []"
  by (simp add: sample_spine_def)

definition sample_key :: string where
  "sample_key = binding_sha256 sample_request"

lemma sample_execution:
  obtains s' where "(gh_step sample_env)\<^sup>*\<^sup>* (sample_spine sample_handler, \<lambda>_. Idle) (s', \<lambda>_. Idle)"
    and "calls_under sample_key s' = 1"
proof -
  note small = sample_spine_small [of sample_handler, OF sample_handler_small]
  obtain x s' re where e: "gh_execute sample_env sample_request (sample_spine sample_handler)
      = (Inr (handoff_receipt sample_request re (''spine_execution_'' @ xc_execution_status x) True False (Some x)), s')"
    and n: "sp_entries s' = sp_entries (sample_spine sample_handler) @ [handoff_entry sample_request (cap_id text_capability)]"
    by (rule handoff_completes [OF sample_env_clean small(1,3,2) sample_request_small small(4) sample_request_admitted
          sample_request_config])
  have "calls_under sample_key s' = 1"
    unfolding calls_under_def n sample_key_def by (simp add: sample_no_entries)
  moreover have "(gh_step sample_env)\<^sup>*\<^sup>* (sample_spine sample_handler, \<lambda>_. Idle) (s', \<lambda>_. Idle)"
    unfolding gh_step_def
    using solo_reach [of "\<lambda>q. small_prov (handoff_prov q)", OF sample_request_small,
        of "gh_checks sample_env" "gh_claims sample_env" "gh_runs sample_env" "sample_spine sample_handler"] e
    by (simp add: execute_solo [symmetric])
  ultimately show thesis by (intro that)
qed

section \<open>Properties\<close>

text \<open>
  The properties below hold where every record fits its line, which is what \<open>gh_step\<close>, \<open>small_env\<close> and
  \<open>sound\<close> say: the provenance of a request, the capabilities, the task id, what the environment answers and
  what a handler returns or raises are of ordinary size (a text has at most 65536 characters), a file operation
  that fails raises OSError, and the history is readable at the start.  The bound on what a handler raises is
  necessary: the last section of \<open>Execution_Handoff\<close> shows a failure message too large for a record that makes
  the code release the claim of a binding whose handler it called.
\<close>

text \<open>C3: Where every record fits its line (ordinary sizes, failures are OSErrors, a readable history at the
  start), then however the phases of any number of hand-overs interleave, and wherever attempts stop or the
  file system fails, a handler is called at most once under one binding.\<close>

theorem handler_called_at_most_once:
  assumes "(gh_step env)\<^sup>*\<^sup>* (s, \<lambda>_. Idle) (s', a)" and "sound s" and "sp_entries s = []" and "small_env env"
  shows "calls_under b s' \<le> 1"
  by (rule handoffs.at_most_once [OF handoffs_inv [OF assms]])

theorem handler_called_at_most_once_witness:
  "\<exists>s'. (gh_step sample_env)\<^sup>*\<^sup>* (sample_spine sample_handler, \<lambda>_. Idle) (s', \<lambda>_. Idle) \<and>
     calls_under sample_key s' \<noteq> 0 \<and> calls_under sample_key s' \<le> 1"
proof -
  obtain s' where r: "(gh_step sample_env)\<^sup>*\<^sup>* (sample_spine sample_handler, \<lambda>_. Idle) (s', \<lambda>_. Idle)"
    and n: "calls_under sample_key s' = 1" by (rule sample_execution)
  from handler_called_at_most_once [OF r sample_sound sample_no_entries sample_small_env] r n show ?thesis
    by (intro exI [of _ s']) simp
qed

text \<open>C8: The invariant of the protocol, where every record fits its line (ordinary sizes, failures are
  OSErrors, a readable history at the start): an attempt that has claimed holds the claim file of its binding,
  alone, and no handler was called under that binding yet; and whenever a handler was called under a
  binding, its claim file exists, so that it is never claimed again.\<close>

theorem claims_guard_handler_calls:
  assumes "(gh_step env)\<^sup>*\<^sup>* (s, \<lambda>_. Idle) (s', a)" and "sound s" and "sp_entries s = []" and "small_env env"
  shows "(\<forall>k q. a k = Claimed q \<longrightarrow> binding_sha256 q \<in> binding_claims_held (sp_ledger s') \<and> calls_under (binding_sha256 q) s' = 0)
    \<and> (\<forall>j k q q'. a j = Claimed q \<longrightarrow> a k = Claimed q' \<longrightarrow> binding_sha256 q = binding_sha256 q' \<longrightarrow> j = k)
    \<and> (\<forall>b. calls_under b s' \<noteq> 0 \<longrightarrow> b \<in> binding_claims_held (sp_ledger s'))"
  by (rule handoffs.guarded [OF handoffs_inv [OF assms]])

theorem claims_guard_handler_calls_witness:
  "\<exists>s'. (gh_step sample_env)\<^sup>*\<^sup>* (sample_spine sample_handler, \<lambda>_. Idle) (s', \<lambda>_. Idle) \<and>
     sample_key \<in> binding_claims_held (sp_ledger s')"
proof -
  obtain s' where r: "(gh_step sample_env)\<^sup>*\<^sup>* (sample_spine sample_handler, \<lambda>_. Idle) (s', \<lambda>_. Idle)"
    and n: "calls_under sample_key s' = 1" by (rule sample_execution)
  from claims_guard_handler_calls [OF r sample_sound sample_no_entries sample_small_env] r n show ?thesis
    by (intro exI [of _ s']) simp
qed

text \<open>C9: Where every record fits its line (ordinary sizes, failures are OSErrors, a readable history at the
  start), the protocol refines a single-use token store: each step from a reachable state takes the token of every binding from
  free to reserved, back, from reserved to spent, or leaves it, and a spent token stays spent.\<close>

theorem protocol_refines_token_store:
  assumes "(gh_step env)\<^sup>*\<^sup>* (s, \<lambda>_. Idle) w" and "sound s" and "sp_entries s = []" and "small_env env"
    and "gh_step env w w'"
    and "t = token_of (binding_claims_held (sp_ledger (fst w))) (calls_under b (fst w)) b"
    and "t' = token_of (binding_claims_held (sp_ledger (fst w'))) (calls_under b (fst w')) b"
  shows "token_step t t' \<and> (t = Spent \<longrightarrow> t' = Spent)"
proof -
  have "token_step t t'"
    using handoffs.simulation [OF assms(5) [unfolded gh_step_def] handoffs_inv [OF assms(1-4)], of b] by (simp add: assms(6,7))
  then show ?thesis by (auto simp: token_step_from)
qed

theorem protocol_refines_token_store_witness:
  "\<exists>w w'. gh_step sample_env w w' \<and> calls_under sample_key (fst w) = 1 \<and>
     token_of (binding_claims_held (sp_ledger (fst w'))) (calls_under sample_key (fst w')) sample_key = Spent"
proof -
  obtain s' where r: "(gh_step sample_env)\<^sup>*\<^sup>* (sample_spine sample_handler, \<lambda>_. Idle) (s', \<lambda>_. Idle)"
    and n: "calls_under sample_key s' = 1" by (rule sample_execution)
  obtain rc s2 where c: "gh_checks sample_env sample_request s' = (rc, s2)" by fastforce
  let ?w' = "(s2, (\<lambda>_. Idle)(0 := (case rc of None \<Rightarrow> Idle | Some x \<Rightarrow> Checked x)))"
  have w: "gh_step sample_env (s', \<lambda>_. Idle) ?w'"
    unfolding gh_step_def by (rule checks) (use c sample_request_small in simp_all)
  have "token_of (claims_of s') (calls_under sample_key s') sample_key = Spent" using n by (simp add: token_of_def)
  with protocol_refines_token_store [OF r sample_sound sample_no_entries sample_small_env w refl refl, of sample_key]
  show ?thesis using w n by (intro exI [of _ "(s', \<lambda>_. Idle)"] exI [of _ ?w']) (simp only: fst_conv)
qed

end
