(* ===== verification/Leased_Handoff.thy ===== *)
theory Leased_Handoff
  imports Action_Lease Handoff_Protocol
begin

text \<open>
  \<open>phios/core/leased_execution_handoff.py\<close>: the gate in front of the governed hand-over.  A lease
  must be vouched for by verification evidence, cover exactly the scope of the binding, be usable at
  the given time under the current epoch, and be claimed exclusively, before the hand-over of
  \<open>Execution_Handoff\<close> runs under it.  \<open>execute\<close> is cut at the same places as there.
\<close>

section \<open>Verification evidence\<close>

definition LEASE_VERIFICATION_EVIDENCE_SCHEMA_VERSION :: string where
  "LEASE_VERIFICATION_EVIDENCE_SCHEMA_VERSION = ''phios.lease_verification_evidence.v0.1''"

definition LEASED_EXECUTION_HANDOFF_RECEIPT_SCHEMA_VERSION :: string where
  "LEASED_EXECUTION_HANDOFF_RECEIPT_SCHEMA_VERSION = ''phios.leased_execution_handoff_receipt.v0.1''"

definition lh_require_text :: "string \<Rightarrow> string \<Rightarrow> string result" where
  "lh_require_text text' field = require_text LeasedExecutionHandoffError (JStr text') field 256"

definition lh_require_sha256 :: "string \<Rightarrow> string \<Rightarrow> string result" where
  "lh_require_sha256 text' field = require_sha256 LeasedExecutionHandoffError (JStr text') field"

record lease_verification_evidence =
  lv_lease_sha256 :: string
  lv_issuer_id :: string
  lv_authorization_receipt_sha256 :: string
  lv_verifier_id :: string
  lv_verification_receipt_sha256 :: string
  lv_accepted :: bool
  lv_action_authority :: bool
  lv_execution_authority :: bool
  lv_effect_performed :: bool
  lv_schema_version :: string

definition lv_init :: "lease_verification_evidence \<Rightarrow> lease_verification_evidence result" where
  "lv_init v = rbind (first_error
     [ensure (lv_schema_version v = LEASE_VERIFICATION_EVIDENCE_SCHEMA_VERSION) LeasedExecutionHandoffError
        ''unsupported lease verification evidence schema'',
      discard (lh_require_sha256 (lv_lease_sha256 v) ''lease_sha256''),
      discard (lh_require_text (lv_issuer_id v) ''issuer_id''),
      discard (lh_require_sha256 (lv_authorization_receipt_sha256 v) ''authorization_receipt_sha256''),
      discard (lh_require_text (lv_verifier_id v) ''verifier_id''),
      discard (lh_require_sha256 (lv_verification_receipt_sha256 v) ''verification_receipt_sha256''),
      ensure (\<not> (lv_action_authority v \<or> lv_execution_authority v \<or> lv_effect_performed v)) LeasedExecutionHandoffError
        ''lease verification evidence cannot carry authority or effects'']) (\<lambda>_. Ok v)"

definition lv_body :: "lease_verification_evidence \<Rightarrow> (string \<times> json) list" where
  "lv_body v =
     [(''schema_version'', JStr (lv_schema_version v)),
      (''lease_sha256'', JStr (lv_lease_sha256 v)),
      (''issuer_id'', JStr (lv_issuer_id v)),
      (''authorization_receipt_sha256'', JStr (lv_authorization_receipt_sha256 v)),
      (''verifier_id'', JStr (lv_verifier_id v)),
      (''verification_receipt_sha256'', JStr (lv_verification_receipt_sha256 v)),
      (''accepted'', JBool (lv_accepted v)),
      (''action_authority'', JBool (lv_action_authority v)),
      (''execution_authority'', JBool (lv_execution_authority v)),
      (''effect_performed'', JBool (lv_effect_performed v))]"

definition verification_evidence_sha256 :: "lease_verification_evidence \<Rightarrow> string" where
  "verification_evidence_sha256 v = canonical_sha256 (JObj (lv_body v))"

definition lv_to_dict :: "lease_verification_evidence \<Rightarrow> json" where
  "lv_to_dict v = JObj (lv_body v @ [(''verification_evidence_sha256'', JStr (verification_evidence_sha256 v))])"

section \<open>Requests and receipts\<close>

record leased_request =
  lq_plan :: plan_state
  lq_binding :: plan_action_binding
  lq_payload :: payload
  lq_lease :: action_lease
  lq_verification :: lease_verification_evidence
  lq_current_authority_epoch_sha256 :: string
  lq_checked_at :: string

record leased_receipt =
  lx_status :: string
  lx_reason :: string
  lx_action_lease_sha256 :: string
  lx_authority_epoch_sha256 :: string
  lx_verification_evidence_sha256 :: string
  lx_lease_evaluation :: "json option"
  lx_lease_claimed :: bool
  lx_lease_consumed :: bool
  lx_replay_blocked :: bool
  lx_inner_handoff :: "json option"
  lx_action_authority :: bool
  lx_execution_authority :: bool
  lx_effect_performed :: bool
  lx_schema_version :: string

definition lx_body :: "leased_receipt \<Rightarrow> (string \<times> json) list" where
  "lx_body r =
     [(''schema_version'', JStr (lx_schema_version r)),
      (''status'', JStr (lx_status r)),
      (''reason'', JStr (lx_reason r)),
      (''action_lease_sha256'', JStr (lx_action_lease_sha256 r)),
      (''authority_epoch_sha256'', JStr (lx_authority_epoch_sha256 r)),
      (''verification_evidence_sha256'', JStr (lx_verification_evidence_sha256 r)),
      (''lease_evaluation'', case lx_lease_evaluation r of None \<Rightarrow> JNull | Some j \<Rightarrow> j),
      (''lease_claimed'', JBool (lx_lease_claimed r)),
      (''lease_consumed'', JBool (lx_lease_consumed r)),
      (''replay_blocked'', JBool (lx_replay_blocked r)),
      (''inner_handoff'', case lx_inner_handoff r of None \<Rightarrow> JNull | Some j \<Rightarrow> j),
      (''action_authority'', JBool (lx_action_authority r)),
      (''execution_authority'', JBool (lx_execution_authority r)),
      (''effect_performed'', JBool (lx_effect_performed r))]"

definition lx_receipt_sha256 :: "leased_receipt \<Rightarrow> string" where
  "lx_receipt_sha256 r = canonical_sha256 (JObj (lx_body r))"

definition lx_to_dict :: "leased_receipt \<Rightarrow> json" where
  "lx_to_dict r = JObj (lx_body r @ [(''receipt_sha256'', JStr (lx_receipt_sha256 r))])"

definition lease_sha256 :: "leased_request \<Rightarrow> string" where
  "lease_sha256 q = action_lease_sha256 (lq_lease q)"

definition lh_held :: "leased_request \<Rightarrow> string \<Rightarrow> action_lease_evaluation option \<Rightarrow> bool \<Rightarrow> leased_receipt" where
  "lh_held q reason evaluation replay =
     \<lparr>lx_status = ''HELD'', lx_reason = reason, lx_action_lease_sha256 = lease_sha256 q,
      lx_authority_epoch_sha256 = lq_current_authority_epoch_sha256 q,
      lx_verification_evidence_sha256 = verification_evidence_sha256 (lq_verification q),
      lx_lease_evaluation = map_option ev_to_dict evaluation, lx_lease_claimed = False, lx_lease_consumed = False,
      lx_replay_blocked = replay, lx_inner_handoff = None, lx_action_authority = False, lx_execution_authority = False,
      lx_effect_performed = False, lx_schema_version = LEASED_EXECUTION_HANDOFF_RECEIPT_SCHEMA_VERSION\<rparr>"

section \<open>The gate\<close>

definition verification_reason :: "action_lease \<Rightarrow> lease_verification_evidence \<Rightarrow> string option" where
  "verification_reason l v =
     (if \<not> lv_accepted v then Some ''lease_authorization_not_verified''
      else if lv_lease_sha256 v \<noteq> action_lease_sha256 l then Some ''lease_verification_scope_mismatch''
      else if lv_issuer_id v \<noteq> al_issuer_id l then Some ''lease_issuer_verification_mismatch''
      else if lv_authorization_receipt_sha256 v \<noteq> al_authorization_receipt_sha256 l
      then Some ''lease_authorization_receipt_verification_mismatch''
      else None)"

definition lease_scope_reason :: "action_lease \<Rightarrow> plan_action_binding \<Rightarrow> string option" where
  "lease_scope_reason l b =
     (if al_capability_id l \<noteq> pb_capability_id b then Some ''lease_capability_scope_mismatch''
      else if al_capability_version l \<noteq> pb_capability_version b then Some ''lease_capability_version_scope_mismatch''
      else if al_payload_sha256 l \<noteq> pb_payload_sha256 b then Some ''lease_payload_scope_mismatch''
      else if al_effects_declared l \<noteq> pb_effects_declared b then Some ''lease_effect_scope_mismatch''
      else if al_permissions_authorized l \<noteq> sort (pb_permissions_requested b) then Some ''lease_permission_scope_mismatch''
      else None)"

text \<open>Up to the evaluation: a HELD receipt, or the evaluation that found the lease usable.\<close>

definition lh_check :: "env \<Rightarrow> leased_request \<Rightarrow> (leased_receipt + action_lease_evaluation) act" where
  "lh_check env q =
     act_bind (act_result (lh_require_sha256 (lq_current_authority_epoch_sha256 q) ''current_authority_epoch_sha256'')) (\<lambda>current.
     case verification_reason (lq_lease q) (lq_verification q) of
       Some reason \<Rightarrow> act_return (Inl (lh_held q reason None False))
     | None \<Rightarrow>
     (case lease_scope_reason (lq_lease q) (lq_binding q) of
        Some reason \<Rightarrow> act_return (Inl (lh_held q reason None False))
      | None \<Rightarrow>
        act_bind (act_try (with_ledger env (\<lambda>opf wrf l. (rl_has_consumed_action_lease opf (lease_sha256 q) l, l))) store_error
          (\<lambda>_. act_result (raise LeasedExecutionHandoffError ''ActionLease consumption state could not be verified safely''))) (\<lambda>consumed.
        act_bind (act_result (rewrap ActionLeaseContractError LeasedExecutionHandoffError
          (evaluate_action_lease (lq_lease q) (lq_checked_at q) current (if consumed then 1 else 0)))) (\<lambda>evaluation.
        act_return (if \<not> ev_usable evaluation
          then Inl (lh_held q (ev_reason evaluation) (Some evaluation) (ev_reason evaluation = ''lease_consumed''))
          else Inr evaluation)))))"

definition lh_claim :: "env \<Rightarrow> leased_request \<Rightarrow> action_lease_evaluation \<Rightarrow> leased_receipt option act" where
  "lh_claim env q evaluation =
     act_bind (act_try (with_ledger env (\<lambda>opf wrf. rl_claim_action_lease opf wrf (lease_sha256 q))) store_error
       (\<lambda>_. act_result (raise LeasedExecutionHandoffError ''ActionLease could not be claimed safely''))) (\<lambda>claimed.
     act_return (if claimed then None else Some (lh_held q ''lease_execution_claim_unavailable'' (Some evaluation) True)))"

definition inner_request :: "leased_request \<Rightarrow> handoff_request" where
  "inner_request q =
     \<lparr>hq_plan = lq_plan q, hq_binding = lq_binding q, hq_payload = lq_payload q,
      hq_action_lease_sha256 = Some (lease_sha256 q), hq_authority_epoch_sha256 = Some (al_authority_epoch_sha256 (lq_lease q)),
      hq_authorization_receipt_sha256 = Some (al_authorization_receipt_sha256 (lq_lease q)),
      hq_lease_verification_sha256 = Some (verification_evidence_sha256 (lq_verification q))\<rparr>"

definition release_lease :: "env \<Rightarrow> leased_request \<Rightarrow> unit act" where
  "release_lease env q = with_ledger env (\<lambda>opf wrf. rl_release_action_lease_claim opf wrf (lease_sha256 q))"

definition lh_run :: "env \<Rightarrow> leased_request \<Rightarrow> action_lease_evaluation \<Rightarrow> leased_receipt act" where
  "lh_run env q evaluation =
     act_bind (gh_execute env (inner_request q)) (\<lambda>inner.
     act_bind (if hx_binding_consumed inner then act_return () else release_lease env q) (\<lambda>_.
     act_return
       \<lparr>lx_status = hx_status inner, lx_reason = hx_reason inner, lx_action_lease_sha256 = lease_sha256 q,
        lx_authority_epoch_sha256 = lq_current_authority_epoch_sha256 q,
        lx_verification_evidence_sha256 = verification_evidence_sha256 (lq_verification q),
        lx_lease_evaluation = Some (ev_to_dict evaluation), lx_lease_claimed = True,
        lx_lease_consumed = hx_binding_consumed inner, lx_replay_blocked = hx_replay_blocked inner,
        lx_inner_handoff = Some (JObj (hx_to_dict inner)), lx_action_authority = False, lx_execution_authority = False,
        lx_effect_performed = False, lx_schema_version = LEASED_EXECUTION_HANDOFF_RECEIPT_SCHEMA_VERSION\<rparr>))"

definition lh_execute :: "env \<Rightarrow> leased_request \<Rightarrow> leased_receipt act" where
  "lh_execute env q =
     act_bind (lh_check env q) (\<lambda>r. case r of Inl receipt \<Rightarrow> act_return receipt | Inr evaluation \<Rightarrow>
     act_bind (lh_claim env q evaluation) (\<lambda>r. case r of Some receipt \<Rightarrow> act_return receipt | None \<Rightarrow>
     lh_run env q evaluation))"

section \<open>What the phases do\<close>

abbreviation lease_claims_of :: "spine \<Rightarrow> string set" where
  "lease_claims_of s \<equiv> lease_claims_held (sp_ledger s)"

lemma quiet_lh_check [quiet_intros]: "quiet (lh_check env q)"
  unfolding lh_check_def
  by (intro quiet_bind quiet_result; (simp only: option.split; intro conjI allI impI)?)
     (auto intro!: quiet_intros split: option.splits)

lemma steady_lease: "steady s s' \<Longrightarrow> sp_entries s' = sp_entries s \<and> lease_claims_of s' = lease_claims_of s"
  by (simp add: steady_def lease_claims_held_def)

lemma lh_claim_cases:
  assumes "lh_claim env q v s = (r, s')"
  shows "sp_entries s' = sp_entries s \<and> sp_registry s' = sp_registry s \<and> sp_executors s' = sp_executors s \<and> sp_allowed s' = sp_allowed s"
    and "r = Inr None \<Longrightarrow> lease_sha256 q \<notin> lease_claims_of s \<and> lease_claims_of s' = insert (lease_sha256 q) (lease_claims_of s)"
    and "r \<noteq> Inr None \<Longrightarrow> lease_claims_of s \<subseteq> lease_claims_of s' \<and> lease_claims_of s' \<subseteq> insert (lease_sha256 q) (lease_claims_of s)"
proof -
  obtain r1 s1 where w: "with_ledger env (\<lambda>opf wrf. rl_claim_action_lease opf wrf (lease_sha256 q)) s = (r1, s1)" by fastforce
  then obtain l where l: "rl_claim_action_lease (en_open env (sp_io s)) (en_write env (sp_io s)) (lease_sha256 q) (sp_ledger s) = (r1, l)"
    and s1: "s1 = s\<lparr>sp_ledger := l, sp_io := Suc (sp_io s)\<rparr>" by (rule with_ledgerE)
  have out: "s' = s1" "(\<exists>e. r1 = Inl e) \<longleftrightarrow> (\<exists>e. r = Inl e)" "r = Inr None \<longleftrightarrow> r1 = Inr True"
    using assms w
    by (auto simp: lh_claim_def act_bind_def act_try_def act_result_def act_return_def split: sum.splits if_splits)
  show "sp_entries s' = sp_entries s \<and> sp_registry s' = sp_registry s \<and> sp_executors s' = sp_executors s \<and> sp_allowed s' = sp_allowed s"
    by (simp add: out s1)
  show "lease_sha256 q \<notin> lease_claims_of s \<and> lease_claims_of s' = insert (lease_sha256 q) (lease_claims_of s)" if "r = Inr None"
  proof -
    have "r1 = Inr True" using out(3) that by simp
    with l show ?thesis using lease_claims.claim_won by (simp add: out(1) s1)
  qed
  show "lease_claims_of s \<subseteq> lease_claims_of s' \<and> lease_claims_of s' \<subseteq> insert (lease_sha256 q) (lease_claims_of s)" if "r \<noteq> Inr None"
  proof (cases r1)
    case (Inl e)
    with l show ?thesis using lease_claims.claim_error by (simp add: out(1) s1)
  next
    case (Inr b)
    then have "b = False" using out(3) that by simp
    with l Inr have "l = sp_ledger s" using lease_claims.claim_lost by blast
    then show ?thesis by (auto simp: out(1) s1)
  qed
qed

lemma release_lease_cases:
  assumes "release_lease env q s = (r, s')"
  shows "sp_entries s' = sp_entries s \<and> lease_claims_of s - {lease_sha256 q} \<subseteq> lease_claims_of s' \<and> lease_claims_of s' \<subseteq> lease_claims_of s"
proof -
  from assms obtain l where l: "rl_release_action_lease_claim (en_open env (sp_io s)) (en_write env (sp_io s)) (lease_sha256 q) (sp_ledger s) = (r, l)"
    and s': "s' = s\<lparr>sp_ledger := l, sp_io := Suc (sp_io s)\<rparr>" unfolding release_lease_def by (rule with_ledgerE)
  show ?thesis using lease_claims.release_held [OF l] by (simp add: s')
qed

text \<open>
  A run under a lease calls at most one handler; when it called one, the lease claim is kept,
  whatever went wrong afterwards: the release happens only for an inner receipt that consumed nothing.
\<close>

lemma lh_run_cases:
  assumes "lh_run env q v s = (r, s')"
  obtains (unentered) "sp_entries s' = sp_entries s" and "lease_claims_of s - {lease_sha256 q} \<subseteq> lease_claims_of s'"
      and "lease_claims_of s' \<subseteq> lease_claims_of s"
  | (entered) c where "sp_entries s' = sp_entries s @ [handoff_entry (inner_request q) c]" and "lease_claims_of s' = lease_claims_of s"
proof -
  obtain ri si where g: "gh_execute env (inner_request q) s = (ri, si)" by fastforce
  note e = gh_execute_entries [OF g]
  have cl: "lease_claims_of si = lease_claims_of s" using e(1) by (simp add: lease_claims_held_def)
  show thesis
  proof (cases "\<exists>x. ri = Inr x \<and> \<not> hx_binding_consumed x")
    case True
    then obtain x where x: "ri = Inr x" "\<not> hx_binding_consumed x" by blast
    then have "sp_entries si = sp_entries s" using e(2) by auto
    moreover obtain u where "release_lease env q si = (u, s')"
      using assms g x by (auto simp: lh_run_def act_bind_def act_return_def split: prod.splits sum.splits)
    ultimately show thesis using release_lease_cases [of env q si u s'] cl by (intro unentered) auto
  next
    case False
    then have "s' = si" using assms g by (cases ri) (auto simp: lh_run_def act_bind_def act_return_def)
    then show thesis using e(2) cl unentered entered by auto
  qed
qed

section \<open>The lease protocol meets the contract\<close>

definition lh_checks :: "env \<Rightarrow> leased_request \<Rightarrow> spine \<Rightarrow> (leased_request \<times> action_lease_evaluation) option \<times> spine" where
  "lh_checks env q s = (case lh_check env q s of (r, s') \<Rightarrow> (case r of Inr (Inr v) \<Rightarrow> Some (q, v) | _ \<Rightarrow> None, s'))"

definition lh_claims :: "env \<Rightarrow> leased_request \<times> action_lease_evaluation \<Rightarrow> spine \<Rightarrow> bool \<times> spine" where
  "lh_claims env d s = (case lh_claim env (fst d) (snd d) s of (r, s') \<Rightarrow> (r = Inr None, s'))"

definition lh_runs :: "env \<Rightarrow> leased_request \<times> action_lease_evaluation \<Rightarrow> spine \<Rightarrow> spine" where
  "lh_runs env d s = snd (lh_run env (fst d) (snd d) s)"

definition lh_step ::
  "env \<Rightarrow> (spine, leased_request \<times> action_lease_evaluation) world \<Rightarrow> (spine, leased_request \<times> action_lease_evaluation) world \<Rightarrow> bool" where
  "lh_step env = attempt_step (\<lambda>_. True) (lh_checks env) (lh_claims env) (lh_runs env)"

lemma lh_execute_solo: "snd (lh_execute env q s) = solo (lh_checks env) (lh_claims env) (lh_runs env) q s"
proof -
  note defs = solo_def lh_checks_def lh_claims_def lh_runs_def lh_execute_def act_bind_def act_return_def
  obtain r1 s1 where 1: "lh_check env q s = (r1, s1)" by fastforce
  consider e where "r1 = Inl e" | x where "r1 = Inr (Inl x)" | v where "r1 = Inr (Inr v)"
    by (cases r1; cases "projr r1") auto
  then show ?thesis
  proof cases
    case (3 v)
    obtain r2 s2 where 2: "lh_claim env q v s1 = (r2, s2)" by fastforce
    consider e where "r2 = Inl e" | x where "r2 = Inr (Some x)" | "r2 = Inr None"
      by (cases r2; cases "projr r2") auto
    then show ?thesis by cases (simp_all add: defs 1 2 3)
  qed (simp_all add: defs 1)
qed

definition entry_lease :: "handler_entry \<Rightarrow> string option" where
  "entry_lease e = (case he_provenance e of Some (PlanProvenance p) \<Rightarrow> ep_action_lease_sha256 p | _ \<Rightarrow> None)"

definition calls_under_lease :: "string \<Rightarrow> spine \<Rightarrow> nat" where
  "calls_under_lease l s = length (filter (\<lambda>e. entry_lease e = Some l) (sp_entries s))"

lemma entry_lease_inner [simp]: "entry_lease (handoff_entry (inner_request q) c) = Some (lease_sha256 q)"
  by (simp add: entry_lease_def handoff_entry_def handoff_prov_def handoff_provenance_def inner_request_def)

lemma calls_under_lease_same: "sp_entries s' = sp_entries s \<Longrightarrow> calls_under_lease l s' = calls_under_lease l s"
  by (simp add: calls_under_lease_def)

lemma lh_runs_law:
  "lease_claims_of s - {lease_sha256 (fst d)} \<subseteq> lease_claims_of (lh_runs env d s) \<and> lease_claims_of (lh_runs env d s) \<subseteq> lease_claims_of s"
  "(\<forall>l. calls_under_lease l (lh_runs env d s) = calls_under_lease l s) \<or> lease_claims_of (lh_runs env d s) = lease_claims_of s \<and>
    (\<forall>l. calls_under_lease l (lh_runs env d s) = calls_under_lease l s + (if l = lease_sha256 (fst d) then 1 else 0))"
proof -
  obtain r s' where run: "lh_run env (fst d) (snd d) s = (r, s')" by fastforce
  then have s': "lh_runs env d s = s'" by (simp add: lh_runs_def)
  have "(lease_claims_of s - {lease_sha256 (fst d)} \<subseteq> lease_claims_of s' \<and> lease_claims_of s' \<subseteq> lease_claims_of s) \<and>
    ((\<forall>l. calls_under_lease l s' = calls_under_lease l s) \<or> lease_claims_of s' = lease_claims_of s \<and>
     (\<forall>l. calls_under_lease l s' = calls_under_lease l s + (if l = lease_sha256 (fst d) then 1 else 0)))"
    using run by (cases rule: lh_run_cases) (auto simp: calls_under_lease_def)
  then show "lease_claims_of s - {lease_sha256 (fst d)} \<subseteq> lease_claims_of (lh_runs env d s) \<and> lease_claims_of (lh_runs env d s) \<subseteq> lease_claims_of s"
    and "(\<forall>l. calls_under_lease l (lh_runs env d s) = calls_under_lease l s) \<or> lease_claims_of (lh_runs env d s) = lease_claims_of s \<and>
    (\<forall>l. calls_under_lease l (lh_runs env d s) = calls_under_lease l s + (if l = lease_sha256 (fst d) then 1 else 0))"
    unfolding s' by blast+
qed

interpretation leases: single_use "\<lambda>_. True" "lh_checks env" "lh_claims env" "lh_runs env" "\<lambda>d. lease_sha256 (fst d)"
    "\<lambda>_. True" "\<lambda>_. True" lease_claims_of calls_under_lease
  for env
proof unfold_locales
  fix q d s s' x won
  show "lh_checks env q s = (d, s') \<Longrightarrow> True \<Longrightarrow> True \<and> lease_claims_of s' = lease_claims_of s \<and>
      (\<forall>k. calls_under_lease k s' = calls_under_lease k s)"
    by (auto simp: lh_checks_def split: prod.splits dest!: quietD [OF quiet_lh_check] steady_lease intro: calls_under_lease_same)
  show "lh_claims env x s = (won, s') \<Longrightarrow> True \<Longrightarrow> True \<and> (\<forall>k. calls_under_lease k s' = calls_under_lease k s)"
    by (auto simp: lh_claims_def split: prod.splits dest!: lh_claim_cases(1) intro!: calls_under_lease_same)
  show "lh_claims env x s = (True, s') \<Longrightarrow> lease_sha256 (fst x) \<notin> lease_claims_of s \<and>
      lease_claims_of s' = insert (lease_sha256 (fst x)) (lease_claims_of s)"
    by (auto simp: lh_claims_def split: prod.splits dest: lh_claim_cases(2))
  show "lh_claims env x s = (False, s') \<Longrightarrow> lease_claims_of s \<subseteq> lease_claims_of s' \<and>
      lease_claims_of s' \<subseteq> insert (lease_sha256 (fst x)) (lease_claims_of s)"
    by (auto simp: lh_claims_def split: prod.splits dest: lh_claim_cases(3))
  show "True \<Longrightarrow> True \<Longrightarrow> True \<and> lease_claims_of s - {lease_sha256 (fst x)} \<subseteq> lease_claims_of (lh_runs env x s) \<and>
      lease_claims_of (lh_runs env x s) \<subseteq> lease_claims_of s"
    using lh_runs_law(1) by blast
  show "True \<Longrightarrow> True \<Longrightarrow> (\<forall>k. calls_under_lease k (lh_runs env x s) = calls_under_lease k s) \<or>
      lease_claims_of (lh_runs env x s) = lease_claims_of s \<and>
      (\<forall>k. calls_under_lease k (lh_runs env x s) = calls_under_lease k s + (if k = lease_sha256 (fst x) then 1 else 0))"
    using lh_runs_law(2) by blast
qed simp

section \<open>What a lease has to cover\<close>

lemma act_bind_result: "act_bind (act_result (Inr x)) f = f x"
  by (simp add: act_bind_def act_result_def fun_eq_iff)

lemma lh_check_passed:
  assumes "lh_check env q s = (Inr (Inr v), s')"
  shows "is_sha256 (lq_current_authority_epoch_sha256 q)" and "verification_reason (lq_lease q) (lq_verification q) = None"
    and "lease_scope_reason (lq_lease q) (lq_binding q) = None" and "ev_usable v"
    and "\<exists>consumed. rl_has_consumed_action_lease (en_open env (sp_io s)) (lease_sha256 q) (sp_ledger s) = Inr consumed \<and>
      evaluate_action_lease (lq_lease q) (lq_checked_at q) (lq_current_authority_epoch_sha256 q) (if consumed then 1 else 0) = Inr v"
proof -
  from assms obtain current where c: "lh_require_sha256 (lq_current_authority_epoch_sha256 q) ''current_authority_epoch_sha256'' = Inr current"
    unfolding lh_check_def act_result_def by (auto elim!: act_bindE)
  then have cur: "current = lq_current_authority_epoch_sha256 q" and sha: "is_sha256 (lq_current_authority_epoch_sha256 q)"
    by (auto simp: lh_require_sha256_def require_sha256_Ok_iff)
  show "is_sha256 (lq_current_authority_epoch_sha256 q)" by (rule sha)
  show v: "verification_reason (lq_lease q) (lq_verification q) = None"
    using assms c by (cases "verification_reason (lq_lease q) (lq_verification q)")
      (auto simp: lh_check_def act_bind_def act_result_def act_return_def)
  show sc: "lease_scope_reason (lq_lease q) (lq_binding q) = None"
    using assms c v by (cases "lease_scope_reason (lq_lease q) (lq_binding q)")
      (auto simp: lh_check_def act_bind_def act_result_def act_return_def)
  let ?scan = "act_try (with_ledger env (\<lambda>opf wrf l. (rl_has_consumed_action_lease opf (lease_sha256 q) l, l))) store_error
      (\<lambda>_. act_result (raise LeasedExecutionHandoffError ''ActionLease consumption state could not be verified safely''))"
  have "act_bind ?scan (\<lambda>consumed. act_bind (act_result (rewrap ActionLeaseContractError LeasedExecutionHandoffError
      (evaluate_action_lease (lq_lease q) (lq_checked_at q) current (if consumed then 1 else 0)))) (\<lambda>evaluation.
      act_return (if \<not> ev_usable evaluation
          then Inl (lh_held q (ev_reason evaluation) (Some evaluation) (ev_reason evaluation = ''lease_consumed''))
          else Inr evaluation))) s = (Inr (Inr v), s')"
    using assms unfolding lh_check_def c act_bind_result v sc option.case .
  then obtain consumed s1 where cons: "?scan s = (Inr consumed, s1)"
    and rest: "act_bind (act_result (rewrap ActionLeaseContractError LeasedExecutionHandoffError
      (evaluate_action_lease (lq_lease q) (lq_checked_at q) current (if consumed then 1 else 0)))) (\<lambda>evaluation.
      act_return (if \<not> ev_usable evaluation
          then Inl (lh_held q (ev_reason evaluation) (Some evaluation) (ev_reason evaluation = ''lease_consumed''))
          else Inr evaluation)) s1 = (Inr (Inr v), s')"
    by (rule act_bindE) auto
  from rest obtain ev where ev: "rewrap ActionLeaseContractError LeasedExecutionHandoffError
      (evaluate_action_lease (lq_lease q) (lq_checked_at q) current (if consumed then 1 else 0)) = Inr ev"
    and out: "ev_usable ev" "v = ev"
    by (rule act_bindE) (auto simp: act_result_def act_return_def split: if_splits)
  show "ev_usable v" using out by simp
  have "rl_has_consumed_action_lease (en_open env (sp_io s)) (lease_sha256 q) (sp_ledger s) = Inr consumed"
    using cons by (auto simp: act_try_def with_ledger_def act_result_def split: sum.splits if_splits)
  then show "\<exists>consumed. rl_has_consumed_action_lease (en_open env (sp_io s)) (lease_sha256 q) (sp_ledger s) = Inr consumed \<and>
      evaluate_action_lease (lq_lease q) (lq_checked_at q) (lq_current_authority_epoch_sha256 q) (if consumed then 1 else 0) = Inr v"
    using ev unfolding rewrap_Ok_iff cur out(2) by blast
qed

lemma lh_check_passes:
  assumes "is_sha256 (lq_current_authority_epoch_sha256 q)" and "verification_reason (lq_lease q) (lq_verification q) = None"
    and "lease_scope_reason (lq_lease q) (lq_binding q) = None" and "en_open env (sp_io s) = None"
    and "rl_has_consumed_action_lease None (lease_sha256 q) (sp_ledger s) = Inr False"
    and "evaluate_action_lease (lq_lease q) (lq_checked_at q) (lq_current_authority_epoch_sha256 q) 0 = Inr v" and "ev_usable v"
  shows "lh_check env q s = (Inr (Inr v), s\<lparr>sp_io := Suc (sp_io s)\<rparr>)"
proof -
  have "lh_require_sha256 (lq_current_authority_epoch_sha256 q) f = Inr (lq_current_authority_epoch_sha256 q)" for f
    using assms(1) by (simp add: lh_require_sha256_def require_sha256_Ok_iff)
  then show ?thesis
    unfolding lh_check_def using assms(2-7)
    by (simp add: act_bind_def act_try_def with_ledger_def act_result_def act_return_def)
qed

text \<open>A usable evaluation, read off the lease.\<close>

lemma usable_evaluation:
  assumes "evaluate_action_lease l checked current uses = Inr v" and "ev_usable v" and "al_ok l" and "is_sha256 current" and "0 \<le> uses"
  obtains i st e now where "lease_window l i st e" and "parse_utc ActionLeaseContractError (JStr checked) ''checked_at'' = Inr now"
    and "current = al_authority_epoch_sha256 l" and "instant st \<le> instant now" and "instant now < instant e" and "uses = 0"
proof -
  obtain i st e where w: "lease_window l i st e" using assms(3) by (auto simp: al_ok_def)
  obtain now where now: "parse_utc ActionLeaseContractError (JStr checked) ''checked_at'' = Inr now"
    using assms(1) by (auto simp: evaluate_action_lease_def rbind_Ok_iff al_canonical_time_def canonical_time_def)
  from evaluate_window [OF w now assms(4,5)] assms(1,2) al_use_limit_ok [OF assms(3)]
  have "current = al_authority_epoch_sha256 l \<and> instant st \<le> instant now \<and> instant now < instant e \<and> uses < 1" by auto
  then show thesis using that [OF w now] assms(5) by simp
qed

lemma lh_execute_ran:
  assumes "lh_execute env q s = (r, s')" and "sp_entries s' \<noteq> sp_entries s"
  obtains v s1 s2 where "lh_check env q s = (Inr (Inr v), s1)" and "lh_claim env q v s1 = (Inr None, s2)"
    and "lh_run env q v s2 = (r, s')"
proof -
  from assms(1) show thesis unfolding lh_execute_def
  proof (cases rule: act_bindE)
    case (err e)
    then show thesis using assms(2) steady_lease [OF quietD [OF quiet_lh_check err(1)]] by simp
  next
    case (ok x s1)
    note chk = ok(1) and rest = ok(2)
    have same: "sp_entries s1 = sp_entries s" using steady_lease [OF quietD [OF quiet_lh_check chk]] by simp
    show thesis
    proof (cases x)
      case (Inl receipt)
      then show thesis using rest assms(2) same by (simp add: act_return_def)
    next
      case (Inr v)
      then have "act_bind (lh_claim env q v) (\<lambda>r. case r of Some receipt \<Rightarrow> act_return receipt | None \<Rightarrow> lh_run env q v) s1 = (r, s')"
        using rest by simp
      then show thesis
      proof (cases rule: act_bindE)
        case (err e)
        then show thesis using assms(2) same lh_claim_cases(1) by fastforce
      next
        case (ok y s2)
        have "sp_entries s2 = sp_entries s" using lh_claim_cases(1) [OF ok(1)] same by simp
        then show thesis using ok assms(2) chk Inr that by (cases y) (auto simp: act_return_def)
      qed
    qed
  qed
qed

lemma lh_run_inner:
  assumes "lh_run env q v s = (r, s')"
  obtains ri si where "gh_execute env (inner_request q) s = (ri, si)" and "sp_entries s' = sp_entries si"
proof -
  obtain ri si where g: "gh_execute env (inner_request q) s = (ri, si)" by fastforce
  show thesis
  proof (cases "\<exists>x. ri = Inr x \<and> \<not> hx_binding_consumed x")
    case True
    then obtain u where "release_lease env q si = (u, s')"
      using assms g by (auto simp: lh_run_def act_bind_def act_return_def split: prod.splits sum.splits)
    then show thesis using that [OF g] release_lease_cases by blast
  next
    case False
    then have "s' = si" using assms g by (cases ri) (auto simp: lh_run_def act_bind_def act_return_def)
    then show thesis using that [OF g] by simp
  qed
qed

section \<open>A concrete lease\<close>

text \<open>Any valid lease that covers the sample binding and is open from day 4 to day 6 will do; below, and in the
  root theory, one that was issued.\<close>

definition sample_covers :: "action_lease \<Rightarrow> bool" where
  "sample_covers l \<longleftrightarrow> al_ok l \<and> lease_window l (sample_t 4) (sample_t 4) (sample_t 6) \<and>
     lease_scope_reason l sample_binding = None \<and> al_issuer_id l = ''issuer''"

definition sample_verification :: "action_lease \<Rightarrow> lease_verification_evidence" where
  "sample_verification l = \<lparr>lv_lease_sha256 = action_lease_sha256 l, lv_issuer_id = al_issuer_id l,
     lv_authorization_receipt_sha256 = al_authorization_receipt_sha256 l, lv_verifier_id = ''verifier'',
     lv_verification_receipt_sha256 = sha256_hex ''verification'', lv_accepted = True, lv_action_authority = False,
     lv_execution_authority = False, lv_effect_performed = False,
     lv_schema_version = LEASE_VERIFICATION_EVIDENCE_SCHEMA_VERSION\<rparr>"

definition sample_leased_request :: "action_lease \<Rightarrow> leased_request" where
  "sample_leased_request l = \<lparr>lq_plan = sample_plan, lq_binding = sample_binding, lq_payload = sample_payload,
     lq_lease = l, lq_verification = sample_verification l,
     lq_current_authority_epoch_sha256 = al_authority_epoch_sha256 l, lq_checked_at = sample_time 5\<rparr>"

text \<open>An intent for the built-in text capability and the sample payload, and a lease issued for it.\<close>

definition text_intent :: effect_intent where
  "text_intent = \<lparr>ei_capability_id = ''commons.text_artifact'', ei_capability_version = ''0.1.0'',
     ei_payload_sha256 = canonical_sha256 (JObj sample_payload), ei_declared_at = sample_time 4,
     ei_effects_declared = [''filesystem.change''], ei_evidence_ref_sha256s = [],
     ei_effect_performed = False, ei_operational_authority = False, ei_action_authority = False,
     ei_execution_authority = False, ei_schema_version = EFFECT_INTENT_SCHEMA_VERSION\<rparr>"

lemma text_intent_issuable: "issuable text_intent"
  by (simp add: issuable_def text_intent_def KNOWN_EFFECTS_def plain_text_def is_control_def)

lemma issued_covers: "sample_covers (sample_issued text_intent p e)"
  using sample_issued_ok [OF text_intent_issuable] sample_issued_window
  by (simp add: sample_covers_def lease_scope_reason_def)
    (simp add: sample_issued_def text_intent_def sample_binding_def)

lemma some_lease: obtains l where "sample_covers l"
  using issued_covers by blast

lemma sample_covers_fields:
  assumes "sample_covers l"
  shows "is_sha256 (al_authority_epoch_sha256 l)" "is_sha256 (al_authorization_receipt_sha256 l)"
  using assms by (simp_all add: sample_covers_def al_ok_def)

lemma sample_verification_ok:
  assumes "sample_covers l"
  shows "lv_init (sample_verification l) = Inr (sample_verification l)"
  using assms
  by (simp add: lv_init_def sample_verification_def sample_covers_def al_ok_def first_error_Ok_Cons rbind_Ok_iff discard_Ok_iff
      lh_require_sha256_def lh_require_text_def require_sha256_Ok_iff require_text_Ok_iff plain_text_def is_control_def
      action_lease_sha256_def)

lemma sample_lease_reasons:
  assumes "sample_covers l"
  shows "verification_reason l (sample_verification l) = None" "lease_scope_reason l sample_binding = None"
  using assms by (simp_all add: verification_reason_def sample_verification_def sample_covers_def)

lemma sample_lease_sha: "is_sha256 (lease_sha256 (sample_leased_request l))"
  by (simp add: lease_sha256_def action_lease_sha256_def)

text \<open>The state in which the inner hand-over starts.\<close>

definition sample_leased_spine :: "action_lease \<Rightarrow> spine" where
  "sample_leased_spine l = (sample_spine sample_handler)
     \<lparr>sp_ledger := rl_empty\<lparr>rl_lease_claims := [lease_sha256 (sample_leased_request l)]\<rparr>, sp_io := 2\<rparr>"

lemma sample_lease_admitted:
  assumes cov: "sample_covers l"
  shows "\<exists>v. lh_execute sample_env (sample_leased_request l) (sample_spine sample_handler)
     = lh_run sample_env (sample_leased_request l) v (sample_leased_spine l)"
proof -
  have w: "lease_window l (sample_t 4) (sample_t 4) (sample_t 6)" and ok: "al_ok l" using cov by (simp_all add: sample_covers_def)
  obtain v where v: "evaluate_action_lease l (sample_time 5) (al_authority_epoch_sha256 l) 0 = Inr v" "ev_usable v"
    using evaluate_window [OF w sample_parse [of 5] sample_covers_fields(1) [OF cov], of 0] al_use_limit_ok [OF ok]
    by (auto simp: sample_instant)
  let ?s = "sample_spine sample_handler"
  have 1: "lh_check sample_env (sample_leased_request l) ?s = (Inr (Inr v), ?s\<lparr>sp_io := Suc (sp_io ?s)\<rparr>)"
  proof (rule lh_check_passes)
    show "rl_has_consumed_action_lease None (lease_sha256 (sample_leased_request l)) (sp_ledger ?s) = Inr False"
      using validate_digest [OF sample_lease_sha] by (simp add: rl_has_consumed_action_lease_def sample_spine_def rl_empty_def)
  qed (use v sample_lease_reasons [OF cov] sample_covers_fields [OF cov] in \<open>simp_all add: sample_env_def sample_leased_request_def\<close>)
  have 2: "lh_claim sample_env (sample_leased_request l) v (?s\<lparr>sp_io := Suc (sp_io ?s)\<rparr>) = (Inr None, (sample_leased_spine l))"
    using sample_lease_sha
    by (simp add: lh_claim_def act_bind_def act_try_def with_ledger_def sample_spine_def rl_empty_def sample_env_def
        rl_claim_action_lease_def validate_digest create_claim_def act_return_def sample_leased_spine_def)
  show ?thesis using 1 2 by (intro exI [of _ v]) (simp add: lh_execute_def act_bind_def)
qed

lemma sample_inner_admitted:
  assumes cov: "sample_covers l"
  shows "admitted (inner_request (sample_leased_request l)) (sample_leased_spine l)"
proof -
  let ?q = "inner_request (sample_leased_request l)"
  have same: "sp_registry (sample_leased_spine l) = sp_registry (sample_spine sample_handler)"
    "sp_executors (sample_leased_spine l) = sp_executors (sample_spine sample_handler)"
    "hq_plan ?q = hq_plan sample_request" "hq_binding ?q = hq_binding sample_request" "hq_payload ?q = hq_payload sample_request"
    by (simp_all add: sample_leased_spine_def inner_request_def sample_leased_request_def sample_request_def)
  have "lease_digest_check l (Some d) = Inr ()" if "is_sha256 d" for l d
    using that by (simp add: lease_digest_check_def is_sha256_def)
  then have "validate_lease_provenance ?q = Inr ()"
    using sample_lease_sha [of l] sample_covers_fields [OF cov]
    by (simp add: validate_lease_provenance_def first_error_Ok_Cons inner_request_def sample_leased_request_def
        verification_evidence_sha256_def lease_sha256_def)
  moreover have "validate_inputs ?q = validate_inputs sample_request" by (simp add: validate_inputs_def same)
  moreover have "revalidate sample_request (sp_registry (sample_leased_spine l)) (sp_executors (sample_leased_spine l)) = Inr None"
    using sample_request_admitted [of sample_handler] by (simp add: admitted_def same)
  ultimately have "revalidate ?q (sp_registry (sample_leased_spine l)) (sp_executors (sample_leased_spine l)) = Inr None"
    unfolding revalidate_def same by (auto simp: rbind_Ok_iff)
  then show ?thesis
    by (simp add: admitted_def rl_has_consumed_binding_def binding_claims_held_def)
      (simp add: sample_leased_spine_def rl_empty_def)
qed

lemma sample_inner_small:
  assumes cov: "sample_covers l"
  shows "small_prov (handoff_prov (inner_request (sample_leased_request l)))"
proof -
  have "length (ps_state_sha256 sample_plan) = 64"
    by (simp add: sample_plan_def build_plan_state_def plan_state_digest_def digest_length)
  moreover have "length (pb_binding_sha256 sample_binding) = 64"
    by (simp add: sealed_binding_digest [symmetric] digest_length sample_binding_def)
  moreover have "ps_plan_id sample_plan = ''plan''" "ps_revision sample_plan = 0"
    by (simp_all add: sample_plan_def build_plan_state_def)
  moreover have "length (lease_sha256 (sample_leased_request l)) = 64" using sample_lease_sha by (simp add: is_sha256_def)
  moreover have "length (al_authority_epoch_sha256 l) = 64" "length (al_authorization_receipt_sha256 l) = 64"
    using sample_covers_fields [OF cov] by (simp_all add: is_sha256_def)
  ultimately show ?thesis
    by (simp add: small_prov_def handoff_prov_def handoff_provenance_def inner_request_def execution_provenance_to_dict_def
        binding_sha256_def verification_evidence_sha256_def digest_length sample_leased_request_def)
      (simp add: sample_binding_def show_int_def show_nat.simps)
qed

lemma sample_leased_execution:
  assumes cov: "sample_covers l"
  obtains r s' c where "lh_execute sample_env (sample_leased_request l) (sample_spine sample_handler) = (Inr r, s')"
    and "sp_entries s' = [handoff_entry (inner_request (sample_leased_request l)) c]" and "lx_lease_consumed r"
proof -
  let ?q = "inner_request (sample_leased_request l)" and ?s = "sample_spine sample_handler"
  have q: "hq_binding ?q = hq_binding sample_request"
    by (simp add: inner_request_def sample_leased_request_def sample_request_def)
  note small = sample_spine_small [of sample_handler, OF sample_handler_small]
  have s: "small_config (sample_leased_spine l)" "never_interrupts (sample_leased_spine l)" "small_core (sample_leased_spine l)" "posted (sample_leased_spine l)"
    using small by (simp_all add: sample_leased_spine_def small_config_def never_interrupts_def small_core_def posted_def)
      (simp add: sample_spine_def)
  have conf: "cr_get (sp_registry (sample_leased_spine l)) (pb_capability_id (hq_binding ?q)) = Inr text_capability"
    "set (cap_permissions text_capability) \<subseteq> set (sp_allowed (sample_leased_spine l))"
    "xr_handler (sp_executors (sample_leased_spine l)) (cap_id text_capability) = Inr sample_handler"
    using sample_request_config [of sample_handler] by (simp_all add: sample_leased_spine_def q)
  obtain x s' re where g: "gh_execute sample_env ?q (sample_leased_spine l)
      = (Inr (handoff_receipt ?q re (''spine_execution_'' @ xc_execution_status x) True False (Some x)), s')"
    and e: "sp_entries s' = sp_entries (sample_leased_spine l) @ [handoff_entry ?q (cap_id text_capability)]"
    by (rule handoff_completes [OF sample_env_clean s(1,2,3) sample_inner_small [OF cov] s(4) sample_inner_admitted [OF cov] conf])
  obtain v where "lh_execute sample_env (sample_leased_request l) ?s = lh_run sample_env (sample_leased_request l) v (sample_leased_spine l)"
    using sample_lease_admitted [OF cov] by blast
  moreover have "hx_binding_consumed (handoff_receipt ?q re m True False (Some x))" for m
    by (simp add: handoff_receipt_def Let_def)
  ultimately show thesis using g e
    by (intro that) (auto simp: lh_run_def act_bind_def act_return_def sample_leased_spine_def sample_spine_def)
qed

section \<open>Properties\<close>

text \<open>C2: A lease is used once: however leased executions interleave, whatever the operating system
  answers, whatever the handlers do and wherever attempts stop, at most one handler is ever called
  under one lease digest.  No size or well-formedness condition is needed: the lease claim is
  released only for an inner receipt that consumed nothing.\<close>

theorem lease_used_at_most_once:
  assumes "(lh_step env)\<^sup>*\<^sup>* (s, \<lambda>_. Idle) (s', a)" and "sp_entries s = []"
  shows "calls_under_lease l s' \<le> 1"
proof -
  have "leases.inv (s, \<lambda>_. Idle)" by (rule leases.inv_start) (simp_all add: assms(2) calls_under_lease_def)
  from leases.at_most_once [OF leases.inv_reach [OF assms(1) [unfolded lh_step_def] this]] show ?thesis .
qed

theorem lease_used_at_most_once_witness:
  "\<exists>l s'. (lh_step sample_env)\<^sup>*\<^sup>* (sample_spine sample_handler, \<lambda>_. Idle) (s', \<lambda>_. Idle) \<and>
     calls_under_lease (lease_sha256 (sample_leased_request l)) s' \<noteq> 0 \<and> calls_under_lease (lease_sha256 (sample_leased_request l)) s' \<le> 1"
proof -
  obtain l where cov: "sample_covers l" by (rule some_lease)
  obtain r s' c where e: "lh_execute sample_env (sample_leased_request l) (sample_spine sample_handler) = (Inr r, s')"
    and n: "sp_entries s' = [handoff_entry (inner_request (sample_leased_request l)) c]" by (rule sample_leased_execution [OF cov])
  have r: "(lh_step sample_env)\<^sup>*\<^sup>* (sample_spine sample_handler, \<lambda>_. Idle) (s', \<lambda>_. Idle)"
    unfolding lh_step_def
    using solo_reach [of "\<lambda>_. True" "sample_leased_request l" "lh_checks sample_env" "lh_claims sample_env" "lh_runs sample_env"
        "sample_spine sample_handler"] e
    by (simp add: lh_execute_solo [symmetric])
  have "calls_under_lease (lease_sha256 (sample_leased_request l)) s' \<noteq> 0"
    unfolding calls_under_lease_def n by simp
  with lease_used_at_most_once [OF r sample_no_entries] r show ?thesis by blast
qed

text \<open>C5: When a leased execution calls a handler, the lease was vouched for by evidence that names its
  digest, issuer and authorization receipt, covers exactly the binding's capability, version, payload,
  effects and permissions, belongs to the current epoch, was inside its half-open window at the check
  time, was not claimed, no row of the execution history records an attempt under it (unless the operating
  system answered that the history file does not exist), and the call carries the lease digest in its
  provenance.  The lease is a value its constructor accepts.\<close>

theorem leased_call_is_covered:
  assumes "al_init (lq_lease q) = Ok (lq_lease q)" and "lh_execute env q s = (r, s')" and "sp_entries s' \<noteq> sp_entries s"
  shows "lv_accepted (lq_verification q) \<and> lv_lease_sha256 (lq_verification q) = action_lease_sha256 (lq_lease q)
    \<and> lv_issuer_id (lq_verification q) = al_issuer_id (lq_lease q)
    \<and> al_capability_id (lq_lease q) = pb_capability_id (lq_binding q)
    \<and> al_capability_version (lq_lease q) = pb_capability_version (lq_binding q)
    \<and> al_payload_sha256 (lq_lease q) = pb_payload_sha256 (lq_binding q)
    \<and> al_effects_declared (lq_lease q) = pb_effects_declared (lq_binding q)
    \<and> set (al_permissions_authorized (lq_lease q)) = set (pb_permissions_requested (lq_binding q))
    \<and> lq_current_authority_epoch_sha256 q = al_authority_epoch_sha256 (lq_lease q)
    \<and> (\<exists>i st e now. lease_window (lq_lease q) i st e
        \<and> parse_utc ActionLeaseContractError (JStr (lq_checked_at q)) ''checked_at'' = Ok now
        \<and> instant st \<le> instant now \<and> instant now < instant e)
    \<and> (rl_has_consumed_action_lease None (lease_sha256 q) (sp_ledger s) = Ok False
      \<or> (\<exists>e. en_open env (sp_io s) = Some e \<and> exn_class e = PyFileNotFoundError))
    \<and> lease_sha256 q \<notin> lease_claims_held (sp_ledger s)
    \<and> (\<exists>c. sp_entries s' = sp_entries s @ [\<lparr>he_capability_id = c, he_payload = lq_payload q,
        he_provenance = handoff_prov (inner_request q)\<rparr>]) \<and> ep_action_lease_sha256 (handoff_provenance (inner_request q)) = Some (lease_sha256 q)"
proof -
  obtain v s1 s2 where chk: "lh_check env q s = (Inr (Inr v), s1)" and cl: "lh_claim env q v s1 = (Inr None, s2)"
    and run: "lh_run env q v s2 = (r, s')" by (rule lh_execute_ran [OF assms(2,3)])
  note pass = lh_check_passed [OF chk]
  note st1 = steady_lease [OF quietD [OF quiet_lh_check chk]]
  note cl' = lh_claim_cases [OF cl]
  obtain consumed where c: "rl_has_consumed_action_lease (en_open env (sp_io s)) (lease_sha256 q) (sp_ledger s) = Inr consumed"
    and ev: "evaluate_action_lease (lq_lease q) (lq_checked_at q) (lq_current_authority_epoch_sha256 q) (if consumed then 1 else 0) = Inr v"
    using pass(5) by blast
  have ok: "al_ok (lq_lease q)" using assms(1) by (simp add: al_init_Ok_iff)
  obtain i st e now where w: "lease_window (lq_lease q) i st e"
      "parse_utc ActionLeaseContractError (JStr (lq_checked_at q)) ''checked_at'' = Inr now"
      "lq_current_authority_epoch_sha256 q = al_authority_epoch_sha256 (lq_lease q)" "instant st \<le> instant now"
      "instant now < instant e" "(if consumed then 1 else 0) = (0 :: int)"
    by (rule usable_evaluation [OF ev pass(4) ok pass(1)]) simp_all
  have scope: "lv_accepted (lq_verification q)" "lv_lease_sha256 (lq_verification q) = action_lease_sha256 (lq_lease q)"
      "lv_issuer_id (lq_verification q) = al_issuer_id (lq_lease q)"
    using pass(2) by (simp_all add: verification_reason_def split: if_splits)
  have scope': "al_capability_id (lq_lease q) = pb_capability_id (lq_binding q)"
      "al_capability_version (lq_lease q) = pb_capability_version (lq_binding q)"
      "al_payload_sha256 (lq_lease q) = pb_payload_sha256 (lq_binding q)"
      "al_effects_declared (lq_lease q) = pb_effects_declared (lq_binding q)"
      "al_permissions_authorized (lq_lease q) = sort (pb_permissions_requested (lq_binding q))"
    using pass(3) by (simp_all add: lease_scope_reason_def split: if_splits)
  have ent: "sp_entries s2 = sp_entries s" using st1 cl'(1) by simp
  have "lease_sha256 q \<notin> lease_claims_of s" using cl'(2) st1 by simp
  moreover have "rl_has_consumed_action_lease None (lease_sha256 q) (sp_ledger s) = Inr False
      \<or> (\<exists>e. en_open env (sp_io s) = Some e \<and> exn_class e = PyFileNotFoundError)"
    using unconsumed_answer(2) [of "en_open env (sp_io s)"] c w(6) by (simp split: if_splits)
  moreover have "\<exists>c. sp_entries s' = sp_entries s @ [\<lparr>he_capability_id = c, he_payload = lq_payload q,
      he_provenance = handoff_prov (inner_request q)\<rparr>]"
    using run
  proof (cases rule: lh_run_cases)
    case unentered
    then show ?thesis using assms(3) ent by simp
  next
    case (entered c)
    then show ?thesis using ent by (auto simp: handoff_entry_def inner_request_def)
  qed
  moreover have "set (al_permissions_authorized (lq_lease q)) = set (pb_permissions_requested (lq_binding q))"
    using scope'(5) by simp
  moreover have "ep_action_lease_sha256 (handoff_provenance (inner_request q)) = Some (lease_sha256 q)"
    by (simp add: handoff_provenance_def inner_request_def)
  ultimately show ?thesis using scope scope'(1-4) w(1-5) by blast
qed

theorem leased_call_is_covered_witness:
  "\<exists>l r s'. lh_execute sample_env (sample_leased_request l) (sample_spine sample_handler) = (r, s') \<and> length (sp_entries s') = 1 \<and>
     lease_sha256 (sample_leased_request l) \<notin> lease_claims_held (sp_ledger (sample_spine sample_handler))"
proof -
  obtain l where cov: "sample_covers l" by (rule some_lease)
  obtain r s' c where e: "lh_execute sample_env (sample_leased_request l) (sample_spine sample_handler) = (Inr r, s')"
    and n: "sp_entries s' = [handoff_entry (inner_request (sample_leased_request l)) c]" by (rule sample_leased_execution [OF cov])
  have i: "al_init (lq_lease (sample_leased_request l)) = Inr (lq_lease (sample_leased_request l))"
    using cov by (simp add: al_init_Ok_iff sample_leased_request_def sample_covers_def)
  have "sp_entries s' \<noteq> sp_entries (sample_spine sample_handler)" using n by (simp add: sample_no_entries)
  from leased_call_is_covered [OF i e this] have "lease_sha256 (sample_leased_request l)
      \<notin> lease_claims_held (sp_ledger (sample_spine sample_handler))" by blast
  with e n show ?thesis by (intro exI [of _ l] exI [of _ "Inr r"] exI [of _ s']) simp
qed

end
