(* ===== verification/Evidence_Ref.thy ===== *)
theory Evidence_Ref
  imports Effect_Intent
begin

text \<open>
  \<open>phios/evidence_ref.py\<close>: the identity of one piece of evidence, sealed by \<open>evidence_ref_sha256\<close>.
  Naming evidence grants nothing: the three authority flags of a constructed reference are false.
\<close>

definition EVIDENCE_REF_SCHEMA_VERSION :: string where
  "EVIDENCE_REF_SCHEMA_VERSION = ''phios.evidence_ref.v0.1''"

definition evr_require_text :: "json \<Rightarrow> string \<Rightarrow> nat \<Rightarrow> string result" where
  "evr_require_text = require_text EvidenceRefContractError"

definition evr_require_sha256 :: "json \<Rightarrow> string \<Rightarrow> string result" where
  "evr_require_sha256 = require_sha256 EvidenceRefContractError"

definition evr_require_timestamp :: "json \<Rightarrow> string \<Rightarrow> string result" where
  "evr_require_timestamp = require_timestamp EvidenceRefContractError"

text \<open>\<open>None if value is None else check(value)\<close>.\<close>

definition optional_field :: "(json \<Rightarrow> string result) \<Rightarrow> json \<Rightarrow> string option result" where
  "optional_field check v = (if v = JNull then Ok None else rbind (check v) (\<lambda>s. Ok (Some s)))"

definition evr_require_optional_sha256 :: "json \<Rightarrow> string \<Rightarrow> string option result" where
  "evr_require_optional_sha256 v field = optional_field (\<lambda>v. evr_require_sha256 v field) v"

definition evr_require_optional_timestamp :: "json \<Rightarrow> string \<Rightarrow> string option result" where
  "evr_require_optional_timestamp v field = optional_field (\<lambda>v. evr_require_timestamp v field) v"

record evidence_ref =
  evr_source_id :: string
  evr_source_kind :: string
  evr_content_sha256 :: string
  evr_observed_at :: string
  evr_source_version :: "string option"
  evr_created_at :: "string option"
  evr_transformation_lineage_sha256s :: "string list"
  evr_admissibility_receipt_sha256 :: "string option"
  evr_exactness_class :: "string option"
  evr_operational_authority :: bool
  evr_action_authority :: bool
  evr_execution_authority :: bool
  evr_schema_version :: string

text \<open>
  \<open>created > observed\<close> on the parsed timestamps, both of which carry an offset here: Python
  compares such values as instants.
\<close>

definition parsed_instant :: "string \<Rightarrow> int" where
  "parsed_instant s = (case fromisoformat (replace_Z s) of Some t \<Rightarrow> instant t | None \<Rightarrow> 0)"

definition evr_init :: "evidence_ref \<Rightarrow> evidence_ref result" where
  "evr_init r = validated
     [ensure (evr_schema_version r = EVIDENCE_REF_SCHEMA_VERSION) EvidenceRefContractError
        (''unsupported EvidenceRef schema: '' @ evr_schema_version r),
      discard (evr_require_text (JStr (evr_source_id r)) ''source_id'' 256),
      discard (evr_require_text (JStr (evr_source_kind r)) ''source_kind'' 64),
      discard (evr_require_sha256 (JStr (evr_content_sha256 r)) ''content_sha256''),
      discard (evr_require_timestamp (JStr (evr_observed_at r)) ''observed_at''),
      (case evr_source_version r of None \<Rightarrow> Ok ()
       | Some v \<Rightarrow> discard (evr_require_text (JStr v) ''source_version'' 128)),
      discard (evr_require_optional_timestamp (jopt (evr_created_at r)) ''created_at''),
      (case evr_created_at r of None \<Rightarrow> Ok ()
       | Some created \<Rightarrow> ensure (\<not> parsed_instant (evr_observed_at r) < parsed_instant created) EvidenceRefContractError
           ''created_at cannot be later than observed_at''),
      ensure (length (evr_transformation_lineage_sha256s r) \<le> 64) EvidenceRefContractError
        ''transformation_lineage_sha256s exceeds 64 items'',
      ensure (sort (evr_transformation_lineage_sha256s r) = evr_transformation_lineage_sha256s r) EvidenceRefContractError
        ''transformation_lineage_sha256s must be sorted'',
      ensure (distinct (evr_transformation_lineage_sha256s r)) EvidenceRefContractError
        ''transformation_lineage_sha256s must not contain duplicates'',
      first_error (map (\<lambda>digest. discard (evr_require_sha256 (JStr digest) ''transformation lineage digest''))
        (evr_transformation_lineage_sha256s r)),
      discard (evr_require_optional_sha256 (jopt (evr_admissibility_receipt_sha256 r)) ''admissibility_receipt_sha256''),
      (case evr_exactness_class r of None \<Rightarrow> Ok ()
       | Some c \<Rightarrow> discard (evr_require_text (JStr c) ''exactness_class'' 64)),
      ensure (\<not> (evr_operational_authority r \<or> evr_action_authority r \<or> evr_execution_authority r))
        EvidenceRefContractError ''EvidenceRef cannot carry operational, action, or execution authority''] r"

text \<open>The property \<open>evidence_ref\<close>, the canonical URI.\<close>

definition evidence_uri :: "evidence_ref \<Rightarrow> string" where
  "evidence_uri r = ''evidence:sha256:'' @ evr_content_sha256 r"

definition evr_body :: "evidence_ref \<Rightarrow> (string \<times> json) list" where
  "evr_body r =
     [(''schema_version'', JStr (evr_schema_version r)),
      (''evidence_ref'', JStr (evidence_uri r)),
      (''source_id'', JStr (evr_source_id r)),
      (''source_kind'', JStr (evr_source_kind r)),
      (''source_version'', jopt (evr_source_version r)),
      (''content_sha256'', JStr (evr_content_sha256 r)),
      (''created_at'', jopt (evr_created_at r)),
      (''observed_at'', JStr (evr_observed_at r)),
      (''transformation_lineage_sha256s'', jstrs (evr_transformation_lineage_sha256s r)),
      (''admissibility_receipt_sha256'', jopt (evr_admissibility_receipt_sha256 r)),
      (''exactness_class'', jopt (evr_exactness_class r)),
      (''operational_authority'', JBool (evr_operational_authority r)),
      (''action_authority'', JBool (evr_action_authority r)),
      (''execution_authority'', JBool (evr_execution_authority r))]"

definition reference_sha256 :: "evidence_ref \<Rightarrow> string" where
  "reference_sha256 r = canonical_sha256 (JObj (evr_body r))"

definition evr_to_dict :: "evidence_ref \<Rightarrow> json" where
  "evr_to_dict r = sealed_dict ''evidence_ref_sha256'' (evr_body r)"

definition evr_build ::
  "string \<Rightarrow> string \<Rightarrow> string \<Rightarrow> string \<Rightarrow> string option \<Rightarrow> string option \<Rightarrow> string list \<Rightarrow> string option
    \<Rightarrow> string option \<Rightarrow> evidence_ref result" where
  "evr_build source_id source_kind content_sha256 observed_at source_version created_at lineage admissibility exactness =
     evr_init \<lparr>evr_source_id = source_id, evr_source_kind = source_kind, evr_content_sha256 = content_sha256,
       evr_observed_at = observed_at, evr_source_version = source_version, evr_created_at = created_at,
       evr_transformation_lineage_sha256s = sorted_set lineage, evr_admissibility_receipt_sha256 = admissibility,
       evr_exactness_class = exactness, evr_operational_authority = False, evr_action_authority = False,
       evr_execution_authority = False, evr_schema_version = EVIDENCE_REF_SCHEMA_VERSION\<rparr>"

definition evr_from_dict :: "json \<Rightarrow> evidence_ref result" where
  "evr_from_dict value =
     rbind (as_object EvidenceRefContractError ''EvidenceRef must be an object'' value) (\<lambda>data.
     rbind (check_fields EvidenceRefContractError ''EvidenceRef''
       [''schema_version'', ''evidence_ref'', ''source_id'', ''source_kind'', ''source_version'', ''content_sha256'',
        ''created_at'', ''observed_at'', ''transformation_lineage_sha256s'', ''admissibility_receipt_sha256'',
        ''exactness_class'', ''operational_authority'', ''action_authority'', ''execution_authority'',
        ''evidence_ref_sha256''] data) (\<lambda>_.
     rbind (as_array EvidenceRefContractError ''transformation_lineage_sha256s must be an array''
       (dget data ''transformation_lineage_sha256s'')) (\<lambda>lineage_raw.
     rbind (rmap (\<lambda>item. evr_require_sha256 item ''transformation lineage digest'') lineage_raw) (\<lambda>lineage.
     rbind (check_bools EvidenceRefContractError
       [''operational_authority'', ''action_authority'', ''execution_authority''] data) (\<lambda>_.
     rbind (evr_require_text (dget data ''schema_version'') ''schema_version'' 64) (\<lambda>schema.
     rbind (evr_require_text (dget data ''source_id'') ''source_id'' 256) (\<lambda>source_id.
     rbind (evr_require_text (dget data ''source_kind'') ''source_kind'' 64) (\<lambda>source_kind.
     rbind (optional_field (\<lambda>v. evr_require_text v ''source_version'' 128) (dget data ''source_version'')) (\<lambda>source_version.
     rbind (evr_require_sha256 (dget data ''content_sha256'') ''content_sha256'') (\<lambda>content.
     rbind (evr_require_optional_timestamp (dget data ''created_at'') ''created_at'') (\<lambda>created.
     rbind (evr_require_timestamp (dget data ''observed_at'') ''observed_at'') (\<lambda>observed.
     rbind (evr_require_optional_sha256 (dget data ''admissibility_receipt_sha256'') ''admissibility_receipt_sha256'')
       (\<lambda>admissibility.
     rbind (optional_field (\<lambda>v. evr_require_text v ''exactness_class'' 64) (dget data ''exactness_class'')) (\<lambda>exactness.
     rbind (evr_init \<lparr>evr_source_id = source_id, evr_source_kind = source_kind, evr_content_sha256 = content,
       evr_observed_at = observed, evr_source_version = source_version, evr_created_at = created,
       evr_transformation_lineage_sha256s = lineage, evr_admissibility_receipt_sha256 = admissibility,
       evr_exactness_class = exactness,
       evr_operational_authority = bool_of (dget data ''operational_authority''),
       evr_action_authority = bool_of (dget data ''action_authority''),
       evr_execution_authority = bool_of (dget data ''execution_authority''), evr_schema_version = schema\<rparr>) (\<lambda>r.
     rbind (ensure (dget data ''evidence_ref'' = JStr (evidence_uri r)) EvidenceRefContractError
       ''evidence_ref does not match content_sha256'') (\<lambda>_.
     rbind (ensure (dget data ''evidence_ref_sha256'' = JStr (reference_sha256 r)) EvidenceRefContractError
       ''evidence_ref_sha256 does not match canonical EvidenceRef'') (\<lambda>_.
     Ok r)))))))))))))))))"

section \<open>Lemmas\<close>

lemmas evr_helpers = evr_require_text_def evr_require_sha256_def evr_require_timestamp_def
  evr_require_optional_sha256_def evr_require_optional_timestamp_def

lemma optional_field_Ok_iff:
  assumes "\<And>v s. check v = Inr s \<longleftrightarrow> v = JStr s \<and> p s"
  shows "optional_field check v = Inr x \<longleftrightarrow> v = jopt x \<and> (\<forall>s. x = Some s \<longrightarrow> p s)"
  by (cases x) (auto simp: optional_field_def rbind_Ok_iff assms)

text \<open>A timestamp as \<open>_require_timestamp\<close> accepts it.\<close>

definition aware_text :: "string \<Rightarrow> bool" where
  "aware_text s \<longleftrightarrow> plain_text 64 s \<and> (\<exists>t. fromisoformat (replace_Z s) = Some t \<and> dt_offset t \<noteq> None)"

lemma parse_aware_Ok_iff:
  "parse_aware cls v f = Inr (s, t) \<longleftrightarrow>
     v = JStr s \<and> plain_text 64 s \<and> fromisoformat (replace_Z s) = Some t \<and> dt_offset t \<noteq> None"
proof (cases v)
  case (JStr u)
  then show ?thesis
    by (cases "plain_text 64 u") (auto simp: parse_aware_def rbind_Ok_iff require_text_Ok_iff split: option.splits if_splits)
qed (auto simp: parse_aware_def rbind_Ok_iff require_text_Ok_iff)

lemma require_timestamp_Ok_iff: "require_timestamp cls v f = Inr s \<longleftrightarrow> v = JStr s \<and> aware_text s"
  by (auto simp: require_timestamp_def rbind_Ok_iff parse_aware_Ok_iff aware_text_def)

lemma aware_text_canonical: "canonical_utc s t \<Longrightarrow> aware_text s \<and> parsed_instant s = instant t"
  using parse_aware_isoformat [of s t PyValueError "[]"] by (simp add: parse_aware_Ok_iff aware_text_def parsed_instant_def)

lemma aware_sample: "1 \<le> d \<Longrightarrow> d \<le> 31 \<Longrightarrow> aware_text (sample_time d) \<and> parsed_instant (sample_time d) = instant (sample_t d)"
  by (rule aware_text_canonical [OF sample_canonical])

lemmas evr_optional_iffs =
  optional_field_Ok_iff [of "\<lambda>v. require_text c v f m" "plain_text m" for c f m, OF require_text_Ok_iff]
  optional_field_Ok_iff [of "\<lambda>v. require_sha256 c v f" is_sha256 for c f, OF require_sha256_Ok_iff]
  optional_field_Ok_iff [of "\<lambda>v. require_timestamp c v f" aware_text for c f, OF require_timestamp_Ok_iff]

definition evr_ok :: "evidence_ref \<Rightarrow> bool" where
  "evr_ok r \<longleftrightarrow>
     evr_schema_version r = EVIDENCE_REF_SCHEMA_VERSION \<and>
     plain_text 256 (evr_source_id r) \<and> plain_text 64 (evr_source_kind r) \<and> is_sha256 (evr_content_sha256 r) \<and>
     aware_text (evr_observed_at r) \<and> (\<forall>v. evr_source_version r = Some v \<longrightarrow> plain_text 128 v) \<and>
     (\<forall>c. evr_created_at r = Some c \<longrightarrow> aware_text c \<and> parsed_instant c \<le> parsed_instant (evr_observed_at r)) \<and>
     length (evr_transformation_lineage_sha256s r) \<le> 64 \<and> sorted (evr_transformation_lineage_sha256s r) \<and>
     distinct (evr_transformation_lineage_sha256s r) \<and> list_all is_sha256 (evr_transformation_lineage_sha256s r) \<and>
     (\<forall>a. evr_admissibility_receipt_sha256 r = Some a \<longrightarrow> is_sha256 a) \<and>
     (\<forall>c. evr_exactness_class r = Some c \<longrightarrow> plain_text 64 c) \<and>
     \<not> evr_operational_authority r \<and> \<not> evr_action_authority r \<and> \<not> evr_execution_authority r"

lemma option_check_Ok_iff:
  "(case x of None \<Rightarrow> Ok () | Some v \<Rightarrow> f v) = Inr () \<longleftrightarrow> (\<forall>v. x = Some v \<longrightarrow> f v = Inr ())"
  by (cases x) auto

lemma evr_init_Ok_iff: "evr_init r = Inr k \<longleftrightarrow> k = r \<and> evr_ok r"
  unfolding evr_init_def validated_Ok_iff first_error_Ok_Cons first_error_Ok_Nil discard_Ok_iff ensure_Ok_iff evr_helpers
    require_text_Ok_iff require_sha256_Ok_iff require_timestamp_Ok_iff evr_optional_iffs first_error_map_discard sort_id_iff
    option_check_Ok_iff evr_ok_def
  by (auto simp: list_all_iff not_less)

lemma evr_init_id: "evr_init r = Inr k \<Longrightarrow> k = r"
  by (simp add: evr_init_Ok_iff)

lemmas evr_reads = evr_helpers as_object_Ok_iff check_fields_Ok_iff as_array_Ok_iff check_bools_Ok_iff
  rmap_require_sha256_Ok_iff require_text_Ok_iff require_sha256_Ok_iff require_timestamp_Ok_iff evr_optional_iffs ensure_Ok_iff

lemma evr_from_dict_dest:
  assumes "evr_from_dict (JObj d) = Inr x"
  shows "evr_init x = Inr x \<and> sealed_like d ''evidence_ref_sha256'' (evr_body x)"
  using assms unfolding evr_from_dict_def
proof (elim rbind_OkE, goal_cases)
  case (1 d' _ lraw lineage _ schema sid kind version content created observed adm exact r)
  note facts = 1 [unfolded evr_reads]
  have x: "x = r" and d: "d' = d" using 1 by (simp_all add: as_object_Ok_iff)
  note r = evr_init_id [OF 1(15)]
  have "sealed_like d ''evidence_ref_sha256'' (evr_body r)"
    using facts(2-14,16-17)
    unfolding d sealed_like_def evr_body_def r by (auto simp: reference_sha256_def evidence_uri_def evr_body_def)
  then show ?case using 1(15) r unfolding x by simp
qed

lemma evr_from_dict_intro:
  assumes "evr_init x = Inr x" and "sealed_like d ''evidence_ref_sha256'' (evr_body x)"
  shows "evr_from_dict (JObj d) = Inr x"
  using assms(2) assms(1) [unfolded evr_init_Ok_iff evr_ok_def]
  unfolding sealed_like_def evr_from_dict_def rbind_Ok_iff evr_reads evr_body_def
  by (cases x) (simp add: reference_sha256_def evidence_uri_def evr_body_def evr_init_Ok_iff evr_ok_def
    EVIDENCE_REF_SCHEMA_VERSION_def plain_text_def is_control_def)

interpretation evr: sealed_contract evr_init evr_body "''evidence_ref_sha256''" evr_from_dict
proof unfold_locales
  fix x y
  show "evr_init x = Inr y \<Longrightarrow> y = x" by (rule evr_init_id)
  show "distinct (''evidence_ref_sha256'' # map fst (evr_body x))" by (simp add: evr_body_def)
  show "list_all (\<lambda>kv. wf_json (snd kv)) (evr_body x)" by (simp add: evr_body_def list_all_iff split: option.split)
  show "map fst (evr_body x) = map fst (evr_body y)" by (simp add: evr_body_def)
  show "evr_init x = Inr x \<Longrightarrow> evr_init y = Inr y \<Longrightarrow>
      map (\<lambda>kv. canon (snd kv)) (evr_body x) = map (\<lambda>kv. canon (snd kv)) (evr_body y) \<Longrightarrow> x = y"
    by (simp add: evr_body_def)
next
  fix d :: "(string \<times> json) list" and x
  assume "wf_json (JObj d)"
  show "evr_from_dict (JObj d) = Inr x \<longleftrightarrow> evr_init x = Inr x \<and> sealed_like d ''evidence_ref_sha256'' (evr_body x)"
    using evr_from_dict_dest evr_from_dict_intro by blast
next
  fix j x
  show "evr_from_dict j = Inr x \<Longrightarrow> \<exists>d. j = JObj d"
    by (auto simp: evr_from_dict_def rbind_Ok_iff as_object_Ok_iff)
qed

end
