(* ===== verification/Execution_Outcome.thy ===== *)
theory Execution_Outcome
  imports Evidence_Ref Spine_Runtime
begin

text \<open>
  \<open>phios/execution_outcome.py\<close>: what evidence may say about an execution whose outcome is unknown.
  A disposition fixes the three answers of the receipt (was there an effect, would a retry be safe,
  is reconciliation still required); the receipt names the exact execution receipt and the exact
  evidence, and carries no authority.
\<close>

definition EXECUTION_RECONCILIATION_SCHEMA_VERSION :: string where
  "EXECUTION_RECONCILIATION_SCHEMA_VERSION = ''phios.execution_reconciliation.v0.1''"

definition RECONCILIATION_DISPOSITIONS :: "string list" where
  "RECONCILIATION_DISPOSITIONS = [''effect_confirmed'', ''no_effect_confirmed'', ''inconclusive'']"

definition eo_require_text :: "json \<Rightarrow> string \<Rightarrow> nat \<Rightarrow> string result" where
  "eo_require_text = require_text ExecutionReconciliationContractError"

definition eo_require_sha256 :: "json \<Rightarrow> string \<Rightarrow> string result" where
  "eo_require_sha256 = require_sha256 ExecutionReconciliationContractError"

definition eo_require_timestamp :: "json \<Rightarrow> string \<Rightarrow> string result" where
  "eo_require_timestamp = require_timestamp ExecutionReconciliationContractError"

definition execution_receipt_sha256 :: "execution_receipt \<Rightarrow> string" where
  "execution_receipt_sha256 x = canonical_sha256 (JObj (xc_to_dict x))"

text \<open>\<open>effect_confirmed\<close>, \<open>retry_safe\<close> and \<open>reconciliation_required\<close> of a disposition.\<close>

definition disposition_state :: "string \<Rightarrow> bool option \<times> bool \<times> bool" where
  "disposition_state d =
     (if d = ''effect_confirmed'' then (Some True, False, False)
      else if d = ''no_effect_confirmed'' then (Some False, True, False)
      else (None, False, True))"

record reconciliation_receipt =
  rc_execution_receipt_id :: string
  rc_execution_receipt_sha256 :: string
  rc_disposition :: string
  rc_reconciler_id :: string
  rc_reconciled_at :: string
  rc_evidence_ref_sha256s :: "string list"
  rc_effect_confirmed :: "bool option"
  rc_retry_safe :: bool
  rc_reconciliation_required :: bool
  rc_operational_authority :: bool
  rc_action_authority :: bool
  rc_execution_authority :: bool
  rc_schema_version :: string

definition rc_init :: "reconciliation_receipt \<Rightarrow> reconciliation_receipt result" where
  "rc_init r = validated
     [ensure (rc_schema_version r = EXECUTION_RECONCILIATION_SCHEMA_VERSION) ExecutionReconciliationContractError
        ''unsupported execution reconciliation schema'',
      discard (eo_require_text (JStr (rc_execution_receipt_id r)) ''execution_receipt_id'' 256),
      discard (eo_require_sha256 (JStr (rc_execution_receipt_sha256 r)) ''execution_receipt_sha256''),
      ensure (rc_disposition r \<in> set RECONCILIATION_DISPOSITIONS) ExecutionReconciliationContractError
        (''unsupported reconciliation disposition: '' @ rc_disposition r),
      discard (eo_require_text (JStr (rc_reconciler_id r)) ''reconciler_id'' 256),
      discard (eo_require_timestamp (JStr (rc_reconciled_at r)) ''reconciled_at''),
      ensure (rc_evidence_ref_sha256s r \<noteq> []) ExecutionReconciliationContractError
        ''reconciliation requires at least one EvidenceRef'',
      ensure (sort (rc_evidence_ref_sha256s r) = rc_evidence_ref_sha256s r) ExecutionReconciliationContractError
        ''evidence_ref_sha256s must be sorted'',
      ensure (distinct (rc_evidence_ref_sha256s r)) ExecutionReconciliationContractError
        ''evidence_ref_sha256s must not contain duplicates'',
      first_error (map (\<lambda>digest. discard (eo_require_sha256 (JStr digest) ''EvidenceRef digest'')) (rc_evidence_ref_sha256s r)),
      ensure ((rc_effect_confirmed r, rc_retry_safe r, rc_reconciliation_required r) = disposition_state (rc_disposition r))
        ExecutionReconciliationContractError ''reconciliation disposition/state fields are inconsistent'',
      ensure (\<not> (rc_operational_authority r \<or> rc_action_authority r \<or> rc_execution_authority r))
        ExecutionReconciliationContractError ''reconciliation evidence cannot carry operational or execution authority''] r"

abbreviation jbool_opt :: "bool option \<Rightarrow> json" where
  "jbool_opt x \<equiv> (case x of None \<Rightarrow> JNull | Some b \<Rightarrow> JBool b)"

definition rc_body :: "reconciliation_receipt \<Rightarrow> (string \<times> json) list" where
  "rc_body r =
     [(''schema_version'', JStr (rc_schema_version r)),
      (''execution_receipt_id'', JStr (rc_execution_receipt_id r)),
      (''execution_receipt_sha256'', JStr (rc_execution_receipt_sha256 r)),
      (''disposition'', JStr (rc_disposition r)),
      (''reconciler_id'', JStr (rc_reconciler_id r)),
      (''reconciled_at'', JStr (rc_reconciled_at r)),
      (''evidence_ref_sha256s'', jstrs (rc_evidence_ref_sha256s r)),
      (''effect_confirmed'', jbool_opt (rc_effect_confirmed r)),
      (''retry_safe'', JBool (rc_retry_safe r)),
      (''reconciliation_required'', JBool (rc_reconciliation_required r)),
      (''operational_authority'', JBool (rc_operational_authority r)),
      (''action_authority'', JBool (rc_action_authority r)),
      (''execution_authority'', JBool (rc_execution_authority r))]"

definition rc_receipt_sha256 :: "reconciliation_receipt \<Rightarrow> string" where
  "rc_receipt_sha256 r = canonical_sha256 (JObj (rc_body r))"

definition rc_to_dict :: "reconciliation_receipt \<Rightarrow> (string \<times> json) list" where
  "rc_to_dict r = rc_body r @ [(''receipt_sha256'', JStr (rc_receipt_sha256 r))]"

definition reconcile_execution_outcome ::
  "execution_receipt \<Rightarrow> string \<Rightarrow> evidence_ref list \<Rightarrow> string \<Rightarrow> string \<Rightarrow> reconciliation_receipt result" where
  "reconcile_execution_outcome execution disposition evidence_refs reconciler_id reconciled_at =
     rbind (first_error
       [ensure (xc_execution_status execution = ''outcome_unknown'') ExecutionReconciliationContractError
          ''only outcome_unknown executions can be reconciled'',
        ensure (xc_executor_entered execution) ExecutionReconciliationContractError
          ''outcome_unknown requires executor_entered=true'',
        ensure (xc_reconciliation_status execution = ''required'') ExecutionReconciliationContractError
          ''outcome_unknown execution must require reconciliation'',
        ensure (disposition \<in> set RECONCILIATION_DISPOSITIONS) ExecutionReconciliationContractError
          (''unsupported reconciliation disposition: '' @ disposition),
        discard (eo_require_text (JStr reconciler_id) ''reconciler_id'' 256),
        discard (eo_require_timestamp (JStr reconciled_at) ''reconciled_at''),
        ensure (evidence_refs \<noteq> []) ExecutionReconciliationContractError
          ''reconciliation requires at least one EvidenceRef'']) (\<lambda>_.
     let (confirmed, safe, required) = disposition_state disposition in
     rc_init \<lparr>rc_execution_receipt_id = xc_receipt_id execution,
       rc_execution_receipt_sha256 = execution_receipt_sha256 execution, rc_disposition = disposition,
       rc_reconciler_id = reconciler_id, rc_reconciled_at = reconciled_at,
       rc_evidence_ref_sha256s = sorted_set (map reference_sha256 evidence_refs),
       rc_effect_confirmed = confirmed, rc_retry_safe = safe, rc_reconciliation_required = required,
       rc_operational_authority = False, rc_action_authority = False, rc_execution_authority = False,
       rc_schema_version = EXECUTION_RECONCILIATION_SCHEMA_VERSION\<rparr>)"

section \<open>Lemmas\<close>

lemmas eo_helpers = eo_require_text_def eo_require_sha256_def eo_require_timestamp_def

definition rc_ok :: "reconciliation_receipt \<Rightarrow> bool" where
  "rc_ok r \<longleftrightarrow>
     rc_schema_version r = EXECUTION_RECONCILIATION_SCHEMA_VERSION \<and>
     plain_text 256 (rc_execution_receipt_id r) \<and> is_sha256 (rc_execution_receipt_sha256 r) \<and>
     rc_disposition r \<in> set RECONCILIATION_DISPOSITIONS \<and> plain_text 256 (rc_reconciler_id r) \<and>
     aware_text (rc_reconciled_at r) \<and> rc_evidence_ref_sha256s r \<noteq> [] \<and> sorted (rc_evidence_ref_sha256s r) \<and>
     distinct (rc_evidence_ref_sha256s r) \<and> list_all is_sha256 (rc_evidence_ref_sha256s r) \<and>
     (rc_effect_confirmed r, rc_retry_safe r, rc_reconciliation_required r) = disposition_state (rc_disposition r) \<and>
     \<not> rc_operational_authority r \<and> \<not> rc_action_authority r \<and> \<not> rc_execution_authority r"

lemma rc_init_Ok_iff: "rc_init r = Inr k \<longleftrightarrow> k = r \<and> rc_ok r"
  unfolding rc_init_def validated_Ok_iff first_error_Ok_Cons first_error_Ok_Nil discard_Ok_iff ensure_Ok_iff eo_helpers
    require_text_Ok_iff require_sha256_Ok_iff require_timestamp_Ok_iff first_error_map_discard sort_id_iff rc_ok_def
  by (auto simp: list_all_iff)

lemma reference_is_sha256 [simp]: "is_sha256 (reference_sha256 r)"
  by (simp add: reference_sha256_def)

text \<open>The executions an evidence-based answer may be given for.\<close>

definition uncertain :: "execution_receipt \<Rightarrow> bool" where
  "uncertain x \<longleftrightarrow> xc_execution_status x = ''outcome_unknown'' \<and> xc_executor_entered x \<and> xc_reconciliation_status x = ''required''"

definition reconciled ::
  "execution_receipt \<Rightarrow> string \<Rightarrow> evidence_ref list \<Rightarrow> string \<Rightarrow> string \<Rightarrow> reconciliation_receipt" where
  "reconciled x d refs rid at' = \<lparr>rc_execution_receipt_id = xc_receipt_id x,
     rc_execution_receipt_sha256 = execution_receipt_sha256 x, rc_disposition = d,
     rc_reconciler_id = rid, rc_reconciled_at = at', rc_evidence_ref_sha256s = sorted_set (map reference_sha256 refs),
     rc_effect_confirmed = fst (disposition_state d), rc_retry_safe = fst (snd (disposition_state d)),
     rc_reconciliation_required = snd (snd (disposition_state d)),
     rc_operational_authority = False, rc_action_authority = False, rc_execution_authority = False,
     rc_schema_version = EXECUTION_RECONCILIATION_SCHEMA_VERSION\<rparr>"

lemma reconcile_Ok_iff:
  "reconcile_execution_outcome x d refs rid at' = Inr r \<longleftrightarrow>
     r = reconciled x d refs rid at' \<and> uncertain x \<and> d \<in> set RECONCILIATION_DISPOSITIONS \<and> refs \<noteq> [] \<and>
     plain_text 256 (xc_receipt_id x) \<and> plain_text 256 rid \<and> aware_text at'"
proof -
  have "sorted_set (map reference_sha256 refs) \<noteq> []" if "refs \<noteq> []"
    using that by (metis empty_set map_is_Nil_conv set_empty set_sorted_set)
  moreover have "list_all is_sha256 (sorted_set (map reference_sha256 refs))" by (simp add: list_all_iff)
  ultimately have ok: "rc_ok (reconciled x d refs rid at') \<longleftrightarrow> plain_text 256 (xc_receipt_id x) \<and>
      d \<in> set RECONCILIATION_DISPOSITIONS \<and> plain_text 256 rid \<and> aware_text at'" if "refs \<noteq> []"
    using that by (auto simp: rc_ok_def reconciled_def execution_receipt_sha256_def)
  have eq: "(let (confirmed, safe, required) = disposition_state d in
     rc_init \<lparr>rc_execution_receipt_id = xc_receipt_id x,
       rc_execution_receipt_sha256 = execution_receipt_sha256 x, rc_disposition = d,
       rc_reconciler_id = rid, rc_reconciled_at = at',
       rc_evidence_ref_sha256s = sorted_set (map reference_sha256 refs),
       rc_effect_confirmed = confirmed, rc_retry_safe = safe, rc_reconciliation_required = required,
       rc_operational_authority = False, rc_action_authority = False, rc_execution_authority = False,
       rc_schema_version = EXECUTION_RECONCILIATION_SCHEMA_VERSION\<rparr>) = rc_init (reconciled x d refs rid at')"
    by (simp add: reconciled_def split: prod.split)
  show ?thesis
    unfolding reconcile_execution_outcome_def rbind_Ok_iff first_error_Ok_Cons first_error_Ok_Nil discard_Ok_iff ensure_Ok_iff
      eo_helpers require_text_Ok_iff require_timestamp_Ok_iff eq rc_init_Ok_iff uncertain_def
    using ok by auto
qed

section \<open>A concrete uncertain execution\<close>

definition sample_uncertain :: execution_receipt where
  "sample_uncertain = \<lparr>xc_schema_version = ''phios.execution_receipt.v0.1'', xc_receipt_id = ''r'',
     xc_timestamp_utc = sample_time 4, xc_capability_id = ''commons.text_artifact'',
     xc_planner = ''phivessel.spine.deterministic'', xc_input_sha256 = sha256_hex ''payload'',
     xc_permissions_requested = [''artifact.write''], xc_permission_status = ''allowed'',
     xc_execution_status = ''outcome_unknown'', xc_artifact_path = None, xc_artifact_sha256 = None, xc_error = None,
     xc_packet_id = None, xc_gate_receipt_id = None, xc_action_receipt_id = None, xc_mandala_status = None,
     xc_governed_provenance = None, xc_executor_entered = True, xc_reconciliation_status = ''required'',
     xc_effect_confirmed = None, xc_reconciliation_receipt_sha256 = None\<rparr>"

definition sample_evidence :: evidence_ref where
  "sample_evidence = \<lparr>evr_source_id = ''disk'', evr_source_kind = ''file'', evr_content_sha256 = sha256_hex ''content'',
     evr_observed_at = sample_time 5, evr_source_version = None, evr_created_at = Some (sample_time 4),
     evr_transformation_lineage_sha256s = [], evr_admissibility_receipt_sha256 = None, evr_exactness_class = None,
     evr_operational_authority = False, evr_action_authority = False, evr_execution_authority = False,
     evr_schema_version = EVIDENCE_REF_SCHEMA_VERSION\<rparr>"

lemma sample_evidence_ok: "evr_init sample_evidence = Inr sample_evidence"
  using aware_sample [of 4] aware_sample [of 5] sample_instant(2) [of 4 5]
  by (simp add: evr_init_Ok_iff evr_ok_def sample_evidence_def plain_text_def is_control_def)

section \<open>Properties\<close>

text \<open>Reconciliation answers for exactly the executions whose outcome is unknown although a handler
  was entered: for others, without evidence, or with an unknown disposition it refuses; when it
  answers, the receipt names the digest of that execution receipt and the digests of exactly the
  evidence supplied, says that a retry is safe only for the disposition that no effect happened, and
  carries no authority.\<close>

theorem reconciliation_answers_iff:
  assumes "plain_text 256 (xc_receipt_id x)" and "plain_text 256 rid" and "aware_text at'"
  shows "((\<exists>r. reconcile_execution_outcome x d refs rid at' = Ok r) \<longleftrightarrow>
      xc_execution_status x = ''outcome_unknown'' \<and> xc_executor_entered x \<and> xc_reconciliation_status x = ''required'' \<and>
      d \<in> {''effect_confirmed'', ''no_effect_confirmed'', ''inconclusive''} \<and> refs \<noteq> [])
    \<and> (\<forall>r. reconcile_execution_outcome x d refs rid at' = Ok r \<longrightarrow>
        rc_execution_receipt_sha256 r = execution_receipt_sha256 x
        \<and> set (rc_evidence_ref_sha256s r) = reference_sha256 ` set refs
        \<and> (rc_retry_safe r \<longleftrightarrow> d = ''no_effect_confirmed'') \<and> (rc_effect_confirmed r = Some True \<longleftrightarrow> d = ''effect_confirmed'')
        \<and> (rc_reconciliation_required r \<longleftrightarrow> d = ''inconclusive'')
        \<and> \<not> rc_operational_authority r \<and> \<not> rc_action_authority r \<and> \<not> rc_execution_authority r)"
  unfolding reconcile_Ok_iff using assms
  by (auto simp: uncertain_def RECONCILIATION_DISPOSITIONS_def reconciled_def disposition_state_def)

theorem reconciliation_answers_iff_witness:
  "\<exists>r. reconcile_execution_outcome sample_uncertain ''inconclusive'' [sample_evidence] ''operator'' (sample_time 5) = Ok r \<and>
     rc_reconciliation_required r"
proof -
  have "plain_text 256 (xc_receipt_id sample_uncertain)" "plain_text 256 ''operator''"
    by (simp_all add: sample_uncertain_def plain_text_def is_control_def)
  moreover have "aware_text (sample_time 5)" using aware_sample [of 5] by simp
  ultimately show ?thesis
    using reconciliation_answers_iff [of sample_uncertain "''operator''" "sample_time 5" "''inconclusive''" "[sample_evidence]"]
    by (auto simp: sample_uncertain_def)
qed

end
