(* ===== verification/Reality_Reconciliation.thy ===== *)
theory Reality_Reconciliation
  imports Execution_Outcome Enforcement_Profile
begin

text \<open>
  \<open>phios/reality_reconciliation.py\<close>: which observations may answer for an execution whose outcome is
  unknown.  A policy binds one capability, its version and its effects to the kinds of claims that
  may be used; the verdicts of a verification then determine the disposition.  With them the
  operation \<open>PhiOSSpine.reconcile_uncertain_execution\<close> of \<open>phios/spine/runtime.py\<close>, which records the
  receipt in the reconciliation history.

  Claim results and packet claims are the dicts the Reality service produced; the service itself is
  not modelled.  Only \<open>packet\<close>, \<open>receipt\<close> and \<open>claim_results\<close> of a verification are read here.
\<close>

section \<open>Policies\<close>

definition REALITY_RECONCILIATION_POLICY_SCHEMA_VERSION :: string where
  "REALITY_RECONCILIATION_POLICY_SCHEMA_VERSION = ''phios.reality_reconciliation_policy.v0.1''"

definition REALITY_BOUND_RECONCILIATION_SCHEMA_VERSION :: string where
  "REALITY_BOUND_RECONCILIATION_SCHEMA_VERSION = ''phios.reality_bound_reconciliation.v0.1''"

definition REALITY_CLAIM_KINDS :: "string list" where
  "REALITY_CLAIM_KINDS =
     [''source_contains_text'', ''world_state'', ''local_interface_state'', ''local_tcp_listener_state'',
      ''local_http_response_state'', ''local_http_json_contract'', ''local_http_json_predicate'',
      ''local_http_json_multi_contract'', ''local_http_json_scalar_predicate'', ''local_http_json_mixed_contract'',
      ''local_http_json_repeated_mixed_contract'', ''local_http_json_timed_mixed_contract'',
      ''local_http_json_cadenced_mixed_contract'', ''local_http_json_temporal_envelope_mixed_contract'',
      ''local_http_json_numeric_transition_contract'']"

definition REALITY_VERDICTS :: "string list" where
  "REALITY_VERDICTS = [''SUPPORTED'', ''CONTRADICTED'', ''UNRESOLVED'', ''BLOCKED'']"

definition rr_require_text :: "json \<Rightarrow> string \<Rightarrow> nat \<Rightarrow> string result" where
  "rr_require_text = require_text RealityReconciliationContractError"

text \<open>The loop and the tail of \<open>_normalize_claim_kinds\<close>.\<close>

fun claim_kind_loop :: "string list \<Rightarrow> string list \<Rightarrow> string list result" where
  "claim_kind_loop normalized [] = Ok normalized"
| "claim_kind_loop normalized (raw # rest) =
     (if raw \<notin> set REALITY_CLAIM_KINDS
      then raise RealityReconciliationContractError (''unsupported Reality claim kind: '' @ raw)
      else claim_kind_loop (if raw \<in> set normalized then normalized else normalized @ [raw]) rest)"

definition normalize_claim_kinds :: "string list \<Rightarrow> string list result" where
  "normalize_claim_kinds values =
     rbind (claim_kind_loop [] values) (\<lambda>normalized.
       if sort normalized = [] then raise RealityReconciliationContractError ''allowed_claim_kinds must not be empty''
       else Ok (sort normalized))"

record reality_policy =
  rp_policy_id :: string
  rp_capability_id :: string
  rp_capability_version :: string
  rp_effect_scope :: "string list"
  rp_allowed_claim_kinds :: "string list"
  rp_contradicted_disposition :: string
  rp_operational_authority :: bool
  rp_action_authority :: bool
  rp_execution_authority :: bool
  rp_schema_version :: string

definition rp_init :: "reality_policy \<Rightarrow> reality_policy result" where
  "rp_init p = validated
     [ensure (rp_schema_version p = REALITY_RECONCILIATION_POLICY_SCHEMA_VERSION) RealityReconciliationContractError
        ''unsupported Reality reconciliation policy schema'',
      discard (rr_require_text (JStr (rp_policy_id p)) ''policy_id'' 256),
      discard (rr_require_text (JStr (rp_capability_id p)) ''capability_id'' 256),
      discard (rr_require_text (JStr (rp_capability_version p)) ''capability_version'' 64),
      rbind (rewrap EffectBoundaryContractError RealityReconciliationContractError
          (normalize_effects (map JStr (rp_effect_scope p)) ''reconciliation policy effect scope'' False)) (\<lambda>normalized.
        ensure (normalized = rp_effect_scope p) RealityReconciliationContractError ''effect_scope must be canonical and sorted''),
      rbind (normalize_claim_kinds (rp_allowed_claim_kinds p)) (\<lambda>kinds.
        ensure (kinds = rp_allowed_claim_kinds p) RealityReconciliationContractError
          ''allowed_claim_kinds must be canonical and sorted''),
      ensure (rp_contradicted_disposition p \<in> set [''no_effect_confirmed'', ''inconclusive'']) RealityReconciliationContractError
        ''contradicted_disposition must be no_effect_confirmed or inconclusive'',
      ensure (\<not> (rp_operational_authority p \<or> rp_action_authority p \<or> rp_execution_authority p))
        RealityReconciliationContractError ''reconciliation policy cannot carry authority''] p"

definition rp_build :: "string \<Rightarrow> capability \<Rightarrow> string list \<Rightarrow> string \<Rightarrow> reality_policy result" where
  "rp_build policy_id c allowed_claim_kinds contradicted_disposition =
     rbind (rewrap EffectBoundaryContractError RealityReconciliationContractError
       (normalize_effects (map JStr (cap_effects c)) ''capability effects'' False)) (\<lambda>effects.
     rbind (normalize_claim_kinds allowed_claim_kinds) (\<lambda>kinds.
     rp_init \<lparr>rp_policy_id = policy_id, rp_capability_id = cap_id c, rp_capability_version = cap_version c,
       rp_effect_scope = effects, rp_allowed_claim_kinds = kinds, rp_contradicted_disposition = contradicted_disposition,
       rp_operational_authority = False, rp_action_authority = False, rp_execution_authority = False,
       rp_schema_version = REALITY_RECONCILIATION_POLICY_SCHEMA_VERSION\<rparr>))"

definition rp_body :: "reality_policy \<Rightarrow> (string \<times> json) list" where
  "rp_body p =
     [(''schema_version'', JStr (rp_schema_version p)),
      (''policy_id'', JStr (rp_policy_id p)),
      (''capability_id'', JStr (rp_capability_id p)),
      (''capability_version'', JStr (rp_capability_version p)),
      (''effect_scope'', jstrs (rp_effect_scope p)),
      (''allowed_claim_kinds'', jstrs (rp_allowed_claim_kinds p)),
      (''contradicted_disposition'', JStr (rp_contradicted_disposition p)),
      (''operational_authority'', JBool (rp_operational_authority p)),
      (''action_authority'', JBool (rp_action_authority p)),
      (''execution_authority'', JBool (rp_execution_authority p))]"

definition policy_sha256 :: "reality_policy \<Rightarrow> string" where
  "policy_sha256 p = canonical_sha256 (JObj (rp_body p))"

definition rp_to_dict :: "reality_policy \<Rightarrow> (string \<times> json) list" where
  "rp_to_dict p = rp_body p @ [(''policy_sha256'', JStr (policy_sha256 p))]"

section \<open>Verifications\<close>

text \<open>The receipt of the Reality service, \<open>RealityReceipt\<close> of \<open>phios/mandala/receipts.py\<close>.\<close>

record reality_receipt = receipt_envelope +
  rr_claims_checked :: "(string \<times> json) list list"
  rr_evidence_used :: "string list"
  rr_unresolved_contradictions :: "string list"
  rr_unresolved_claims :: "string list"
  rr_verdict_summary :: "(string \<times> int) list"
  rr_verification_method :: "string option"
  rr_promotion_status :: string
  rr_limitations :: "string list"
  rr_observation_frontier_sha256 :: "string option"
  rr_observability_receipt_sha256 :: "string option"
  rr_observability_status :: string

definition rr_to_dict :: "reality_receipt \<Rightarrow> (string \<times> json) list" where
  "rr_to_dict r = envelope_items ''RealityReceipt'' r @
     [(''claims_checked'', JList (map JObj (rr_claims_checked r))),
      (''evidence_used'', jstrs (rr_evidence_used r)),
      (''unresolved_contradictions'', jstrs (rr_unresolved_contradictions r)),
      (''unresolved_claims'', jstrs (rr_unresolved_claims r)),
      (''verdict_summary'', JObj (map (\<lambda>(k, n). (k, JInt n)) (rr_verdict_summary r))),
      (''verification_method'', jopt (rr_verification_method r)),
      (''promotion_status'', JStr (rr_promotion_status r)),
      (''limitations'', jstrs (rr_limitations r)),
      (''observation_frontier_sha256'', jopt (rr_observation_frontier_sha256 r)),
      (''observability_receipt_sha256'', jopt (rr_observability_receipt_sha256 r)),
      (''observability_status'', JStr (rr_observability_status r))]"

record reality_verification =
  rv_packet :: mandala_packet
  rv_receipt :: reality_receipt
  rv_claim_results :: "(string \<times> json) list list"

section \<open>Checks\<close>

definition validate_policy_binding :: "execution_receipt \<Rightarrow> capability \<Rightarrow> reality_policy \<Rightarrow> unit result" where
  "validate_policy_binding x c p = first_error
     [ensure (xc_capability_id x = cap_id c) RealityReconciliationContractError
        ''execution capability does not match current capability'',
      ensure (rp_capability_id p = cap_id c) RealityReconciliationContractError ''reconciliation policy capability mismatch'',
      ensure (rp_capability_version p = cap_version c) RealityReconciliationContractError
        ''reconciliation policy capability version mismatch'',
      rbind (rewrap EffectBoundaryContractError RealityReconciliationContractError
          (normalize_effects (map JStr (cap_effects c)) ''current capability effects'' False)) (\<lambda>current.
        ensure (current = rp_effect_scope p) RealityReconciliationContractError
          ''reconciliation policy effect scope mismatch'')]"

text \<open>A value as a member of a Python set: lists and dicts are not hashable, a Boolean equals its integer.\<close>

definition hash_key :: "json \<Rightarrow> json result" where
  "hash_key j =
     (case j of
        JList _ \<Rightarrow> raise PyTypeError ''unhashable type: list''
      | JObj _ \<Rightarrow> raise PyTypeError ''unhashable type: dict''
      | JBool b \<Rightarrow> Ok (JInt (if b then 1 else 0))
      | _ \<Rightarrow> Ok j)"

definition claim_keys :: "(string \<times> json) list list \<Rightarrow> json list result" where
  "claim_keys items = rmap (\<lambda>d. hash_key (dget d ''claim_id'')) items"

fun object_items :: "json list \<Rightarrow> (string \<times> json) list list" where
  "object_items [] = []"
| "object_items (JObj d # rest) = d # object_items rest"
| "object_items (_ # rest) = object_items rest"

text \<open>\<open>expected_summary\<close>: how often each verdict text occurs.\<close>

fun count_verdict :: "string \<Rightarrow> (string \<times> int) list \<Rightarrow> (string \<times> int) list" where
  "count_verdict v [] = [(v, 1)]"
| "count_verdict v ((w, n) # rest) = (if w = v then (w, n + 1) # rest else (w, n) # count_verdict v rest)"

definition verdict_counts :: "(string \<times> json) list list \<Rightarrow> (string \<times> int) list" where
  "verdict_counts items = foldl (\<lambda>acc d. case dget d ''verdict'' of JStr v \<Rightarrow> count_verdict v acc | _ \<Rightarrow> acc) [] items"

text \<open>\<open>==\<close> of two dicts.\<close>

definition same_dict :: "('a \<times> 'b) list \<Rightarrow> ('a \<times> 'b) list \<Rightarrow> bool" where
  "same_dict a b \<longleftrightarrow> set (map fst a) = set (map fst b) \<and> list_all (\<lambda>k. map_of a k = map_of b k) (map fst a)"

definition validate_verification_integrity :: "reality_verification \<Rightarrow> unit result" where
  "validate_verification_integrity v =
     rbind (ensure (re_packet_id (rv_receipt v) = mp_packet_id (rv_packet v)) RealityReconciliationContractError
       ''Reality verification packet/receipt identity mismatch'') (\<lambda>_.
     rbind (ensure (re_task_id (rv_receipt v) = mp_task_id (rv_packet v)) RealityReconciliationContractError
       ''Reality verification task identity mismatch'') (\<lambda>_.
     rbind (ensure (dumps (JList (map JObj (rv_claim_results v))) = dumps (JList (map JObj (rr_claims_checked (rv_receipt v)))))
       RealityReconciliationContractError ''Reality receipt claims_checked does not match claim_results'') (\<lambda>_.
     rbind (claim_keys (object_items (mp_claims (rv_packet v)))) (\<lambda>packet_ids.
     rbind (claim_keys (rv_claim_results v)) (\<lambda>result_ids.
     rbind (ensure (set packet_ids = set result_ids) RealityReconciliationContractError
       ''Reality packet claims do not match verification claim results'') (\<lambda>_.
     ensure (same_dict (verdict_counts (rv_claim_results v)) (rr_verdict_summary (rv_receipt v)))
       RealityReconciliationContractError ''Reality verdict summary does not match claim results''))))))"

record claim_verdict =
  cv_claim_id :: string
  cv_kind :: string
  cv_verdict :: string

definition cv_to_dict :: "claim_verdict \<Rightarrow> json" where
  "cv_to_dict c = JObj [(''claim_id'', JStr (cv_claim_id c)), (''kind'', JStr (cv_kind c)), (''verdict'', JStr (cv_verdict c))]"

fun claim_verdict_loop :: "string list \<Rightarrow> string list \<Rightarrow> (string \<times> json) list list \<Rightarrow> claim_verdict list result" where
  "claim_verdict_loop kinds seen [] = Ok []"
| "claim_verdict_loop kinds seen (d # rest) =
     (case dget d ''claim_id'' of
        JStr i \<Rightarrow>
          if i = [] then raise RealityReconciliationContractError ''Reality claim result has invalid claim_id''
          else if i \<in> set seen then raise RealityReconciliationContractError ''Reality claim results contain duplicate claim_id''
          else (case dget d ''kind'' of
                  JStr k \<Rightarrow>
                    if k \<notin> set kinds
                    then raise RealityReconciliationContractError (''Reality claim kind is not permitted by policy: '' @ k)
                    else (case dget d ''verdict'' of
                            JStr v \<Rightarrow>
                              if v \<notin> set REALITY_VERDICTS
                              then raise RealityReconciliationContractError (''Reality claim verdict is invalid: '' @ v)
                              else rbind (claim_verdict_loop kinds (i # seen) rest) (\<lambda>cs.
                                Ok (\<lparr>cv_claim_id = i, cv_kind = k, cv_verdict = v\<rparr> # cs))
                          | other \<Rightarrow> raise RealityReconciliationContractError
                              (''Reality claim verdict is invalid: '' @ py_str other))
                | other \<Rightarrow> raise RealityReconciliationContractError
                    (''Reality claim kind is not permitted by policy: '' @ py_str other))
      | _ \<Rightarrow> raise RealityReconciliationContractError ''Reality claim result has invalid claim_id'')"

definition claim_verdicts :: "reality_verification \<Rightarrow> reality_policy \<Rightarrow> claim_verdict list result" where
  "claim_verdicts v p =
     (if rv_claim_results v = []
      then raise RealityReconciliationContractError ''Reality verification must contain at least one claim result''
      else rbind (claim_verdict_loop (rp_allowed_claim_kinds p) [] (rv_claim_results v)) (\<lambda>cs. Ok (sort_key cv_claim_id cs)))"

fun evidence_by_uri :: "(string \<times> evidence_ref) list \<Rightarrow> evidence_ref list \<Rightarrow> (string \<times> evidence_ref) list result" where
  "evidence_by_uri m [] = Ok m"
| "evidence_by_uri m (e # rest) =
     (if evidence_uri e \<in> set (map fst m) then raise RealityReconciliationContractError ''duplicate canonical EvidenceRef URI''
      else evidence_by_uri (m @ [(evidence_uri e, e)]) rest)"

definition validate_evidence_binding :: "reality_verification \<Rightarrow> evidence_ref list \<Rightarrow> evidence_ref list result" where
  "validate_evidence_binding v refs =
     (if refs = [] then raise RealityReconciliationContractError
        ''Reality reconciliation requires canonical EvidenceRef records''
      else rbind (evidence_by_uri [] refs) (\<lambda>m.
        if rr_evidence_used (rv_receipt v) = []
        then raise RealityReconciliationContractError ''Reality verification used no bindable evidence''
        else if set (rr_evidence_used (rv_receipt v)) \<noteq> set (map fst m)
        then raise RealityReconciliationContractError ''canonical EvidenceRefs must exactly cover Reality evidence_used''
        else Ok (map snd (sort_key fst m))))"

definition disposition_of :: "claim_verdict list \<Rightarrow> reality_policy \<Rightarrow> string" where
  "disposition_of cs p =
     (if set (map cv_verdict cs) = {''SUPPORTED''} then ''effect_confirmed''
      else if set (map cv_verdict cs) = {''CONTRADICTED''} then rp_contradicted_disposition p
      else ''inconclusive'')"

section \<open>Bound receipts\<close>

record bound_reconciliation =
  rb_policy_sha256 :: string
  rb_capability_id :: string
  rb_capability_version :: string
  rb_effect_scope :: "string list"
  rb_reality_receipt_id :: string
  rb_reality_receipt_sha256 :: string
  rb_claim_verdicts :: "claim_verdict list"
  rb_execution_reconciliation :: "(string \<times> json) list"
  rb_operational_authority :: bool
  rb_action_authority :: bool
  rb_execution_authority :: bool
  rb_schema_version :: string

definition rb_init :: "bound_reconciliation \<Rightarrow> bound_reconciliation result" where
  "rb_init b = validated
     [ensure (rb_schema_version b = REALITY_BOUND_RECONCILIATION_SCHEMA_VERSION) RealityReconciliationContractError
        ''unsupported Reality-bound reconciliation schema'',
      discard (rr_require_text (JStr (rb_policy_sha256 b)) ''policy_sha256'' 64),
      ensure (length (rb_policy_sha256 b) = 64 \<and> list_all is_hex_lower (rb_policy_sha256 b)) RealityReconciliationContractError
        ''policy_sha256 must be a lowercase SHA-256 digest'',
      discard (rr_require_text (JStr (rb_capability_id b)) ''capability_id'' 256),
      discard (rr_require_text (JStr (rb_capability_version b)) ''capability_version'' 64),
      discard (rr_require_text (JStr (rb_reality_receipt_id b)) ''reality_receipt_id'' 256),
      discard (rr_require_text (JStr (rb_reality_receipt_sha256 b)) ''reality_receipt_sha256'' 64),
      ensure (length (rb_reality_receipt_sha256 b) = 64 \<and> list_all is_hex_lower (rb_reality_receipt_sha256 b))
        RealityReconciliationContractError ''reality_receipt_sha256 must be a lowercase SHA-256 digest'',
      ensure (rb_claim_verdicts b \<noteq> []) RealityReconciliationContractError ''claim_verdicts must not be empty'',
      ensure (\<not> (rb_operational_authority b \<or> rb_action_authority b \<or> rb_execution_authority b))
        RealityReconciliationContractError ''Reality-bound reconciliation cannot carry authority''] b"

text \<open>The properties \<open>disposition\<close>, \<open>retry_safe\<close>, \<open>effect_confirmed\<close> and \<open>reconciliation_required\<close>, on the
  dict of an execution reconciliation.\<close>

definition dict_item :: "(string \<times> json) list \<Rightarrow> string \<Rightarrow> json result" where
  "dict_item d k = (case map_of d k of Some v \<Rightarrow> Ok v | None \<Rightarrow> raise PyKeyError k)"

definition py_truth :: "json \<Rightarrow> bool" where
  "py_truth j =
     (case j of JNull \<Rightarrow> False | JBool b \<Rightarrow> b | JInt i \<Rightarrow> i \<noteq> 0 | JStr s \<Rightarrow> s \<noteq> [] | JList xs \<Rightarrow> xs \<noteq> [] | JObj d \<Rightarrow> d \<noteq> [])"

definition rb_disposition :: "bound_reconciliation \<Rightarrow> string result" where
  "rb_disposition b = rbind (dict_item (rb_execution_reconciliation b) ''disposition'') (\<lambda>v. Ok (py_str v))"

definition rb_retry_safe :: "bound_reconciliation \<Rightarrow> bool result" where
  "rb_retry_safe b = rbind (dict_item (rb_execution_reconciliation b) ''retry_safe'') (\<lambda>v. Ok (py_truth v))"

definition rb_effect_confirmed :: "bound_reconciliation \<Rightarrow> bool option result" where
  "rb_effect_confirmed b =
     rbind (dict_item (rb_execution_reconciliation b) ''effect_confirmed'') (\<lambda>v.
       case v of
         JNull \<Rightarrow> Ok None
       | JBool c \<Rightarrow> Ok (Some c)
       | _ \<Rightarrow> raise RealityReconciliationContractError ''execution reconciliation effect_confirmed is malformed'')"

definition rb_reconciliation_required :: "bound_reconciliation \<Rightarrow> bool result" where
  "rb_reconciliation_required b =
     rbind (dict_item (rb_execution_reconciliation b) ''reconciliation_required'') (\<lambda>v. Ok (py_truth v))"

definition rb_body :: "bound_reconciliation \<Rightarrow> (string \<times> json) list" where
  "rb_body b =
     [(''schema_version'', JStr (rb_schema_version b)),
      (''policy_sha256'', JStr (rb_policy_sha256 b)),
      (''capability_id'', JStr (rb_capability_id b)),
      (''capability_version'', JStr (rb_capability_version b)),
      (''effect_scope'', jstrs (rb_effect_scope b)),
      (''reality_receipt_id'', JStr (rb_reality_receipt_id b)),
      (''reality_receipt_sha256'', JStr (rb_reality_receipt_sha256 b)),
      (''claim_verdicts'', JList (map cv_to_dict (rb_claim_verdicts b))),
      (''execution_reconciliation'', JObj (rb_execution_reconciliation b)),
      (''operational_authority'', JBool (rb_operational_authority b)),
      (''action_authority'', JBool (rb_action_authority b)),
      (''execution_authority'', JBool (rb_execution_authority b))]"

definition rb_receipt_sha256 :: "bound_reconciliation \<Rightarrow> string" where
  "rb_receipt_sha256 b = canonical_sha256 (JObj (rb_body b))"

definition rb_to_dict :: "bound_reconciliation \<Rightarrow> (string \<times> json) list" where
  "rb_to_dict b = rb_body b @ [(''receipt_sha256'', JStr (rb_receipt_sha256 b))]"

definition reconcile_execution_with_reality ::
  "execution_receipt \<Rightarrow> capability \<Rightarrow> reality_policy \<Rightarrow> reality_verification \<Rightarrow> evidence_ref list \<Rightarrow> string \<Rightarrow> string
    \<Rightarrow> bound_reconciliation result" where
  "reconcile_execution_with_reality x c p v refs reconciler_id reconciled_at =
     rbind (validate_policy_binding x c p) (\<lambda>_.
     rbind (validate_verification_integrity v) (\<lambda>_.
     rbind (claim_verdicts v p) (\<lambda>verdicts.
     rbind (validate_evidence_binding v refs) (\<lambda>evidence.
     rbind (reconcile_execution_outcome x (disposition_of verdicts p) evidence reconciler_id reconciled_at) (\<lambda>r.
     rb_init \<lparr>rb_policy_sha256 = policy_sha256 p, rb_capability_id = cap_id c, rb_capability_version = cap_version c,
       rb_effect_scope = rp_effect_scope p, rb_reality_receipt_id = re_receipt_id (rv_receipt v),
       rb_reality_receipt_sha256 = canonical_sha256 (JObj (rr_to_dict (rv_receipt v))),
       rb_claim_verdicts = verdicts, rb_execution_reconciliation = rc_to_dict r,
       rb_operational_authority = False, rb_action_authority = False, rb_execution_authority = False,
       rb_schema_version = REALITY_BOUND_RECONCILIATION_SCHEMA_VERSION\<rparr>)))))"

definition reconcile_uncertain_execution ::
  "env \<Rightarrow> execution_receipt \<Rightarrow> capability \<Rightarrow> reality_policy \<Rightarrow> reality_verification \<Rightarrow> evidence_ref list \<Rightarrow> string \<Rightarrow> string
    \<Rightarrow> bound_reconciliation act" where
  "reconcile_uncertain_execution env x c p v refs reconciler_id reconciled_at =
     act_bind (act_result (reconcile_execution_with_reality x c p v refs reconciler_id reconciled_at)) (\<lambda>b.
     act_bind (with_ledger env (\<lambda>opf wrf. rl_append_reconciliation opf wrf (rb_to_dict b))) (\<lambda>_.
     act_return b))"

section \<open>Lemmas\<close>

lemma claim_kind_loop_Ok_iff:
  "claim_kind_loop acc xs = Inr ys \<longleftrightarrow> set xs \<subseteq> set REALITY_CLAIM_KINDS \<and> ys = foldl (\<lambda>a x. if x \<in> set a then a else a @ [x]) acc xs"
  by (induction xs arbitrary: acc) auto

lemma collect_props:
  "set (foldl (\<lambda>a x. if x \<in> set a then a else a @ [x]) acc xs) = set acc \<union> set xs"
  "distinct acc \<Longrightarrow> distinct (foldl (\<lambda>a x. if x \<in> set a then a else a @ [x]) acc xs)"
  by (induction xs arbitrary: acc) auto

lemma normalize_claim_kinds_Ok_iff:
  "normalize_claim_kinds xs = Inr ys \<longleftrightarrow> xs \<noteq> [] \<and> set xs \<subseteq> set REALITY_CLAIM_KINDS \<and> ys = sorted_set xs"
proof -
  let ?c = "foldl (\<lambda>a x. if x \<in> set a then a else a @ [x]) [] xs"
  have "sort ?c = sorted_set ?c" using collect_props(2) [of "[]" xs] by (simp add: sorted_set_def distinct_remdups_id)
  also have "\<dots> = sorted_set xs" by (rule sorted_set_cong) (simp add: collect_props(1))
  finally have "sort ?c = sorted_set xs" .
  then show ?thesis
    by (auto simp: normalize_claim_kinds_def rbind_Ok_iff claim_kind_loop_Ok_iff split: if_splits)
qed

text \<open>The claims a verification must consist of, and what is made of them.\<close>

definition reads_claim :: "string list \<Rightarrow> (string \<times> json) list \<Rightarrow> claim_verdict \<Rightarrow> bool" where
  "reads_claim kinds d c \<longleftrightarrow>
     dget d ''claim_id'' = JStr (cv_claim_id c) \<and> dget d ''kind'' = JStr (cv_kind c) \<and> dget d ''verdict'' = JStr (cv_verdict c) \<and>
     cv_claim_id c \<noteq> [] \<and> cv_kind c \<in> set kinds \<and> cv_verdict c \<in> set REALITY_VERDICTS"

lemma claim_verdict_loop_Ok:
  "claim_verdict_loop kinds seen ds = Inr cs \<Longrightarrow>
     list_all2 (reads_claim kinds) ds cs \<and> distinct (map cv_claim_id cs) \<and> set (map cv_claim_id cs) \<inter> set seen = {}"
proof (induction ds arbitrary: seen cs)
  case (Cons d ds)
  from Cons.prems obtain i k v cs' where d: "dget d ''claim_id'' = JStr i" "dget d ''kind'' = JStr k" "dget d ''verdict'' = JStr v"
      "i \<noteq> []" "i \<notin> set seen" "k \<in> set kinds" "v \<in> set REALITY_VERDICTS"
    and r: "claim_verdict_loop kinds (i # seen) ds = Inr cs'" and cs: "cs = \<lparr>cv_claim_id = i, cv_kind = k, cv_verdict = v\<rparr> # cs'"
    by (auto simp: rbind_Ok_iff split: json.splits if_splits)
  from Cons.IH [OF r] d show ?case unfolding cs by (auto simp: reads_claim_def)
qed simp

lemma evidence_by_uri_Ok:
  "evidence_by_uri m refs = Inr m' \<Longrightarrow> distinct (map fst m) \<Longrightarrow>
     m' = m @ map (\<lambda>e. (evidence_uri e, e)) refs \<and> distinct (map fst m @ map evidence_uri refs)"
proof (induction refs arbitrary: m)
  case (Cons e refs)
  then have step: "evidence_by_uri (m @ [(evidence_uri e, e)]) refs = Inr m'" and new: "evidence_uri e \<notin> set (map fst m)"
    by (auto split: if_splits)
  have "distinct (map fst (m @ [(evidence_uri e, e)]))" using Cons.prems(2) new by simp
  from Cons.IH [OF step this] show ?case by simp
qed simp

lemma validate_evidence_Ok:
  assumes "validate_evidence_binding v refs = Inr es"
  shows "refs \<noteq> [] \<and> set es = set refs \<and> distinct (map evidence_uri refs) \<and>
    set (rr_evidence_used (rv_receipt v)) = evidence_uri ` set refs"
proof -
  from assms obtain m where m: "evidence_by_uri [] refs = Inr m" and r: "refs \<noteq> []"
    and u: "set (rr_evidence_used (rv_receipt v)) = set (map fst m)" and es: "es = map snd (sort_key fst m)"
    by (auto simp: validate_evidence_binding_def rbind_Ok_iff split: if_splits)
  from evidence_by_uri_Ok [OF m] have m': "m = map (\<lambda>e. (evidence_uri e, e)) refs" "distinct (map evidence_uri refs)" by simp_all
  moreover have "set es = set refs" unfolding es m' by force
  ultimately show ?thesis using r u unfolding m'(1) by (simp add: image_image)
qed

lemma hex_digest_iff: "plain_text 64 s \<and> length s = 64 \<and> list_all is_hex_lower s \<longleftrightarrow> is_sha256 s"
  using plain_text_sha256 by (auto simp: is_sha256_def)

lemma rb_init_Ok_iff:
  "rb_init b = Inr k \<longleftrightarrow> k = b \<and> rb_schema_version b = REALITY_BOUND_RECONCILIATION_SCHEMA_VERSION \<and>
     is_sha256 (rb_policy_sha256 b) \<and> plain_text 256 (rb_capability_id b) \<and> plain_text 64 (rb_capability_version b) \<and>
     plain_text 256 (rb_reality_receipt_id b) \<and> is_sha256 (rb_reality_receipt_sha256 b) \<and> rb_claim_verdicts b \<noteq> [] \<and>
     \<not> rb_operational_authority b \<and> \<not> rb_action_authority b \<and> \<not> rb_execution_authority b"
  unfolding rb_init_def validated_Ok_iff first_error_Ok_Cons first_error_Ok_Nil discard_Ok_iff ensure_Ok_iff
    rr_require_text_def require_text_Ok_iff hex_digest_iff [symmetric]
  by auto

lemma disposition_known:
  assumes "rp_init p = Inr p"
  shows "disposition_of cs p \<in> set RECONCILIATION_DISPOSITIONS"
  using assms unfolding rp_init_def validated_Ok_iff first_error_Ok_Cons
  by (auto simp: disposition_of_def RECONCILIATION_DISPOSITIONS_def)

text \<open>Everything the operation established when it answers.\<close>

lemma reconcile_with_reality_dest:
  assumes "reconcile_execution_with_reality x c p v refs rid at' = Inr b"
  obtains cs es where "validate_policy_binding x c p = Inr ()" and "validate_verification_integrity v = Inr ()"
    and "claim_verdict_loop (rp_allowed_claim_kinds p) [] (rv_claim_results v) = Inr cs" and "rv_claim_results v \<noteq> []"
    and "validate_evidence_binding v refs = Inr es"
    and "reconcile_execution_outcome x (disposition_of cs p) es rid at' = Inr (reconciled x (disposition_of cs p) es rid at')"
    and "rb_claim_verdicts b = sort_key cv_claim_id cs"
    and "rb_execution_reconciliation b = rc_to_dict (reconciled x (disposition_of cs p) es rid at')"
    and "rb_policy_sha256 b = policy_sha256 p"
    and "rb_reality_receipt_sha256 b = canonical_sha256 (JObj (rr_to_dict (rv_receipt v)))"
    and "\<not> rb_operational_authority b \<and> \<not> rb_action_authority b \<and> \<not> rb_execution_authority b"
proof -
  from assms obtain verdicts es r where 1: "validate_policy_binding x c p = Inr ()" "validate_verification_integrity v = Inr ()"
    and cv: "claim_verdicts v p = Inr verdicts" and es: "validate_evidence_binding v refs = Inr es"
    and r: "reconcile_execution_outcome x (disposition_of verdicts p) es rid at' = Inr r"
    and b: "rb_init \<lparr>rb_policy_sha256 = policy_sha256 p, rb_capability_id = cap_id c, rb_capability_version = cap_version c,
       rb_effect_scope = rp_effect_scope p, rb_reality_receipt_id = re_receipt_id (rv_receipt v),
       rb_reality_receipt_sha256 = canonical_sha256 (JObj (rr_to_dict (rv_receipt v))),
       rb_claim_verdicts = verdicts, rb_execution_reconciliation = rc_to_dict r,
       rb_operational_authority = False, rb_action_authority = False, rb_execution_authority = False,
       rb_schema_version = REALITY_BOUND_RECONCILIATION_SCHEMA_VERSION\<rparr> = Inr b"
    unfolding reconcile_execution_with_reality_def by (elim rbind_OkE) simp
  from cv obtain cs where cs: "claim_verdict_loop (rp_allowed_claim_kinds p) [] (rv_claim_results v) = Inr cs"
      "rv_claim_results v \<noteq> []" "verdicts = sort_key cv_claim_id cs"
    by (auto simp: claim_verdicts_def rbind_Ok_iff split: if_splits)
  have d: "disposition_of verdicts p = disposition_of cs p" by (simp add: disposition_of_def cs(3))
  from r have "r = reconciled x (disposition_of cs p) es rid at'" unfolding reconcile_Ok_iff d by blast
  with r d b cs show thesis
    by (intro that [OF 1 cs(1,2) es]) (simp_all add: rb_init_Ok_iff)
qed

lemma validate_policy_binding_Ok_iff:
  "validate_policy_binding x c p = Inr () \<longleftrightarrow> xc_capability_id x = cap_id c \<and> rp_capability_id p = cap_id c \<and>
     rp_capability_version p = cap_version c \<and> rp_effect_scope p = sorted_set (map strip (cap_effects c)) \<and>
     declared_effects_ok False (cap_effects c)"
  by (auto simp: validate_policy_binding_def first_error_Ok_Cons first_error_Ok_Nil rbind_Ok_iff rewrap_Ok_iff normalize_effects_Ok_iff)

lemma all_verdicts_iff:
  assumes "list_all2 (reads_claim kinds) ds cs" and "ds \<noteq> []"
  shows "set (map cv_verdict cs) = {w} \<longleftrightarrow> (\<forall>d \<in> set ds. dget d ''verdict'' = JStr w)"
proof -
  have "list_all2 (\<lambda>d c. dget d ''verdict'' = JStr (cv_verdict c)) ds cs"
    using assms(1) by (rule list_all2_mono) (simp add: reads_claim_def)
  then have v: "map (\<lambda>d. dget d ''verdict'') ds = map (\<lambda>c. JStr (cv_verdict c)) cs" by (simp add: list_all2_conv_all_nth list_eq_iff_nth_eq)
  have ne: "cs \<noteq> []" using assms by auto
  have "(\<forall>d \<in> set ds. dget d ''verdict'' = JStr w) \<longleftrightarrow> set (map (\<lambda>d. dget d ''verdict'') ds) \<subseteq> {JStr w}" by auto
  also have "\<dots> \<longleftrightarrow> set (map cv_verdict cs) \<subseteq> {w}" unfolding v by auto
  also have "\<dots> \<longleftrightarrow> set (map cv_verdict cs) = {w}" using ne by (auto simp: subset_singleton_iff)
  finally show ?thesis by blast
qed

section \<open>A concrete verification\<close>

definition sample_policy :: reality_policy where
  "sample_policy = \<lparr>rp_policy_id = ''policy'', rp_capability_id = ''commons.text_artifact'', rp_capability_version = ''0.1.0'',
     rp_effect_scope = [''filesystem.change''], rp_allowed_claim_kinds = [''world_state''],
     rp_contradicted_disposition = ''no_effect_confirmed'', rp_operational_authority = False, rp_action_authority = False,
     rp_execution_authority = False, rp_schema_version = REALITY_RECONCILIATION_POLICY_SCHEMA_VERSION\<rparr>"

definition sample_result :: "(string \<times> json) list" where
  "sample_result = [(''claim_id'', JStr ''c1''), (''kind'', JStr ''world_state''), (''verdict'', JStr ''CONTRADICTED'')]"

definition sample_verification_result :: reality_verification where
  "sample_verification_result =
     (let packet = mp_create ''p'' ''t'' ACTION \<lparr>or_kind = SUBSYSTEM, or_identifier = ''reality''\<rparr> []
            \<lparr>ac_ceiling = [], ac_grants = []\<rparr> None [] [JObj [(''claim_id'', JStr ''c1'')]] [] [];
          m = receipt_meta ''v'' (sample_time 5) packet ACCEPTED ''phios.reality'' None
      in \<lparr>rv_packet = packet,
          rv_receipt = receipt_envelope.extend m (reality_receipt.fields [sample_result] [evidence_uri sample_evidence] [] []
            [(''CONTRADICTED'', 1)] None ''not_promoted'' [] None None ''not_evaluated''),
          rv_claim_results = [sample_result]\<rparr>)"

section \<open>Properties\<close>

text \<open>C37: Evidence answers only within its policy: when an uncertain execution is reconciled, a handler was
  entered and the outcome was unknown, the policy names the running capability, its version and its
  effects, every claim is of a permitted kind, the evidence supplied is exactly what the verification
  used; the effect counts as confirmed only when every claim was supported, a retry as safe only when
  every claim was contradicted and the policy says so; and the receipt carries no authority.\<close>

theorem reality_reconciliation_sound:
  assumes "reconcile_execution_with_reality x c p v refs rid at' = Ok b"
  shows "xc_execution_status x = ''outcome_unknown'' \<and> xc_executor_entered x
    \<and> xc_capability_id x = cap_id c \<and> rp_capability_id p = cap_id c \<and> rp_capability_version p = cap_version c
    \<and> set (rp_effect_scope p) = strip ` set (cap_effects c)
    \<and> (\<forall>d \<in> set (rv_claim_results v). \<exists>k \<in> set (rp_allowed_claim_kinds p). dget d ''kind'' = JStr k)
    \<and> set (rr_evidence_used (rv_receipt v)) = evidence_uri ` set refs
    \<and> rb_disposition b = Ok (if \<forall>d \<in> set (rv_claim_results v). dget d ''verdict'' = JStr ''SUPPORTED'' then ''effect_confirmed''
        else if \<forall>d \<in> set (rv_claim_results v). dget d ''verdict'' = JStr ''CONTRADICTED'' then rp_contradicted_disposition p
        else ''inconclusive'')
    \<and> rb_retry_safe b = Ok ((\<forall>d \<in> set (rv_claim_results v). dget d ''verdict'' = JStr ''CONTRADICTED'') \<and>
        rp_contradicted_disposition p = ''no_effect_confirmed'')
    \<and> \<not> rb_operational_authority b \<and> \<not> rb_action_authority b \<and> \<not> rb_execution_authority b"
proof (rule reconcile_with_reality_dest [OF assms], goal_cases)
  case (1 cs es)
  from claim_verdict_loop_Ok [OF 1(3)] have reads: "list_all2 (reads_claim (rp_allowed_claim_kinds p)) (rv_claim_results v) cs" by simp
  note verdicts = all_verdicts_iff [OF reads 1(4)]
  have "\<exists>k \<in> set (rp_allowed_claim_kinds p). dget d ''kind'' = JStr k" if "d \<in> set (rv_claim_results v)" for d
    using reads that by (auto simp: list_all2_conv_all_nth in_set_conv_nth reads_claim_def)
  moreover have "\<not> ((\<forall>d \<in> set (rv_claim_results v). dget d ''verdict'' = JStr ''SUPPORTED'') \<and>
      (\<forall>d \<in> set (rv_claim_results v). dget d ''verdict'' = JStr ''CONTRADICTED''))"
    using 1(4) by (cases "rv_claim_results v") auto
  moreover have "rb_disposition b = Ok (disposition_of cs p)" "rb_retry_safe b = Ok (fst (snd (disposition_state (disposition_of cs p))))"
    unfolding rb_disposition_def rb_retry_safe_def 1(8)
    by (simp_all add: rc_to_dict_def rc_body_def dict_item_def reconciled_def py_str_def py_truth_def)
  moreover note 1(1) [unfolded validate_policy_binding_Ok_iff] 1(6) [unfolded reconcile_Ok_iff uncertain_def]
    validate_evidence_Ok [OF 1(5)] 1(11)
  ultimately show ?case
    unfolding disposition_of_def verdicts by (auto simp: disposition_state_def)
qed

lemma sample_reconciles:
  "\<exists>b. reconcile_execution_with_reality sample_uncertain text_capability sample_policy sample_verification_result
     [sample_evidence] ''operator'' (sample_time 5) = Inr b \<and> rb_retry_safe b = Ok True"
proof -
  have 1: "validate_policy_binding sample_uncertain text_capability sample_policy = Inr ()"
    unfolding validate_policy_binding_Ok_iff
    by (simp add: sample_uncertain_def text_capability_def sample_policy_def declared_effects_ok_def KNOWN_EFFECTS_def
        sorted_set_def strip_def is_space_def)
  have 2: "validate_verification_integrity sample_verification_result = Inr ()"
    by (simp add: validate_verification_integrity_def sample_verification_result_def Let_def mp_create_def receipt_meta_def
        receipt_envelope.defs reality_receipt.defs claim_keys_def hash_key_def sample_result_def verdict_counts_def same_dict_def)
  have 3: "claim_verdicts sample_verification_result sample_policy
      = Inr [\<lparr>cv_claim_id = ''c1'', cv_kind = ''world_state'', cv_verdict = ''CONTRADICTED''\<rparr>]"
    by (simp add: claim_verdicts_def sample_verification_result_def Let_def sample_result_def sample_policy_def REALITY_VERDICTS_def)
  have 4: "validate_evidence_binding sample_verification_result [sample_evidence] = Inr [sample_evidence]"
    by (simp add: validate_evidence_binding_def sample_verification_result_def Let_def receipt_meta_def
        receipt_envelope.defs reality_receipt.defs)
  have 5: "disposition_of [\<lparr>cv_claim_id = ''c1'', cv_kind = ''world_state'', cv_verdict = ''CONTRADICTED''\<rparr>] sample_policy
      = ''no_effect_confirmed''"
    by (simp add: disposition_of_def sample_policy_def)
  have 6: "reconcile_execution_outcome sample_uncertain ''no_effect_confirmed'' [sample_evidence] ''operator'' (sample_time 5)
      = Inr (reconciled sample_uncertain ''no_effect_confirmed'' [sample_evidence] ''operator'' (sample_time 5))"
    using aware_sample [of 5]
    by (simp add: reconcile_Ok_iff uncertain_def RECONCILIATION_DISPOSITIONS_def)
      (simp add: sample_uncertain_def plain_text_def is_control_def)
  have "re_receipt_id (rv_receipt sample_verification_result) = ''v''"
    by (simp add: sample_verification_result_def Let_def receipt_meta_def receipt_envelope.defs reality_receipt.defs)
  moreover have "plain_text 256 ''v''" "plain_text 256 (cap_id text_capability)" "plain_text 64 (cap_version text_capability)"
    by (simp_all add: text_capability_def plain_text_def is_control_def)
  moreover have "is_sha256 (policy_sha256 sample_policy)" by (simp add: policy_sha256_def)
  ultimately show ?thesis
    unfolding reconcile_execution_with_reality_def 1 2 3 4 5 6 rbind.simps rb_init_Ok_iff
    by (simp add: rb_retry_safe_def rc_to_dict_def rc_body_def dict_item_def reconciled_def disposition_state_def py_truth_def)
qed

theorem reality_reconciliation_sound_witness:
  "\<exists>b. reconcile_execution_with_reality sample_uncertain text_capability sample_policy sample_verification_result
     [sample_evidence] ''operator'' (sample_time 5) = Ok b \<and> rb_retry_safe b = Ok True \<and> \<not> rb_execution_authority b"
proof -
  obtain b where b: "reconcile_execution_with_reality sample_uncertain text_capability sample_policy sample_verification_result
     [sample_evidence] ''operator'' (sample_time 5) = Inr b" using sample_reconciles by blast
  let ?all = "(\<forall>d \<in> set (rv_claim_results sample_verification_result). dget d ''verdict'' = JStr ''CONTRADICTED'') \<and>
      rp_contradicted_disposition sample_policy = ''no_effect_confirmed''"
  have all: ?all by (simp add: sample_verification_result_def Let_def sample_result_def sample_policy_def)
  have "rb_retry_safe b = Ok ?all" and "\<not> rb_execution_authority b" using reality_reconciliation_sound [OF b] by blast+
  then have "rb_retry_safe b = Ok True" unfolding eqTrueI [OF all] by blast
  with b \<open>\<not> rb_execution_authority b\<close> show ?thesis by blast
qed

end
