(* ===== verification/Macro_Base.thy ===== *)
theory Macro_Base
  imports Contract_Base
begin

text \<open>
  What the modules of the macro runtime share: operations on a state that may raise, Python dicts
  with their insertion order, and the copies of the field checkers whose texts differ from those
  of the contract modules.
\<close>

section \<open>Operations that change a state and may raise\<close>

type_synonym ('s, 'a) action = "'s \<Rightarrow> 'a result \<times> 's"

definition st_return :: "'a \<Rightarrow> ('s, 'a) action" where
  "st_return x = (\<lambda>s. (Ok x, s))"

definition st_result :: "'a result \<Rightarrow> ('s, 'a) action" where
  "st_result r = (\<lambda>s. (r, s))"

definition st_read :: "('s \<Rightarrow> 'a result) \<Rightarrow> ('s, 'a) action" where
  "st_read f = (\<lambda>s. (f s, s))"

definition st_bind :: "('s, 'a) action \<Rightarrow> ('a \<Rightarrow> ('s, 'b) action) \<Rightarrow> ('s, 'b) action" where
  "st_bind m f = (\<lambda>s. case m s of (Inl e, s') \<Rightarrow> (Inl e, s') | (Inr x, s') \<Rightarrow> f x s')"

lemmas st_simps = st_return_def st_result_def st_read_def

lemma st_bindE:
  assumes "st_bind m f s = (r, s')"
  obtains (err) e where "m s = (Inl e, s')" and "r = Inl e"
  | (ok) x s1 where "m s = (Inr x, s1)" and "f x s1 = (r, s')"
  using assms by (auto simp: st_bind_def split: prod.splits sum.splits)

lemma st_bind_result [simp]: "st_bind (st_result (Inr x)) f = f x" "st_bind (st_return x) f = f x"
  by (simp_all add: st_bind_def st_simps)

text \<open>
  \<open>keeps f m\<close>: the operation does not change the component \<open>f\<close> of the state.  \<open>maintains p m\<close>: it
  does not leave \<open>p\<close>.
\<close>

named_theorems keeps_intros \<open>what composed operations keep of the state\<close>

definition keeps :: "('s \<Rightarrow> 'v) \<Rightarrow> ('s, 'a) action \<Rightarrow> bool" where
  "keeps f m \<longleftrightarrow> (\<forall>s. f (snd (m s)) = f s)"

definition maintains :: "('s \<Rightarrow> bool) \<Rightarrow> ('s, 'a) action \<Rightarrow> bool" where
  "maintains p m \<longleftrightarrow> (\<forall>s. p s \<longrightarrow> p (snd (m s)))"

lemma keepsD: "keeps f m \<Longrightarrow> m s = (r, s') \<Longrightarrow> f s' = f s"
  by (metis keeps_def snd_conv)

lemma maintainsD: "maintains p m \<Longrightarrow> m s = (r, s') \<Longrightarrow> p s \<Longrightarrow> p s'"
  by (metis maintains_def snd_conv)

lemma keeps_basic [keeps_intros]:
  "keeps f (st_return x)" "keeps f (st_result r)" "keeps f (st_read g)"
  "maintains p (st_return x)" "maintains p (st_result r)" "maintains p (st_read g)"
  by (simp_all add: keeps_def maintains_def st_simps)

lemma keeps_bind [keeps_intros]:
  assumes "keeps f m" and "\<And>x. keeps f (g x)"
  shows "keeps f (st_bind m g)"
  unfolding keeps_def
proof
  fix s
  obtain r t where m: "m s = (r, t)" by fastforce
  then have "f t = f s" by (rule keepsD [OF assms(1)])
  then show "f (snd (st_bind m g s)) = f s"
    using assms(2) by (cases r) (simp_all add: st_bind_def m keeps_def)
qed

lemma maintains_bind [keeps_intros]:
  assumes "maintains p m" and "\<And>x. maintains p (g x)"
  shows "maintains p (st_bind m g)"
  unfolding maintains_def
proof (intro allI impI)
  fix s assume "p s"
  obtain r t where m: "m s = (r, t)" by fastforce
  then have "p t" by (rule maintainsD [OF assms(1)]) fact
  then show "p (snd (st_bind m g s))"
    using assms(2) by (cases r) (simp_all add: st_bind_def m maintains_def)
qed

lemma keeps_if [keeps_intros]: "(b \<Longrightarrow> keeps f m) \<Longrightarrow> (\<not> b \<Longrightarrow> keeps f n) \<Longrightarrow> keeps f (if b then m else n)"
  "(b \<Longrightarrow> maintains p m) \<Longrightarrow> (\<not> b \<Longrightarrow> maintains p n) \<Longrightarrow> maintains p (if b then m else n)"
  by simp_all

section \<open>Dicts\<close>

fun dict_set :: "'k \<Rightarrow> 'v \<Rightarrow> ('k \<times> 'v) list \<Rightarrow> ('k \<times> 'v) list" where
  "dict_set k v [] = [(k, v)]"
| "dict_set k v ((k', v') # d) = (if k' = k then (k, v) # d else (k', v') # dict_set k v d)"

definition dict_pop :: "'k \<Rightarrow> ('k \<times> 'v) list \<Rightarrow> ('k \<times> 'v) list" where
  "dict_pop k d = filter (\<lambda>kv. fst kv \<noteq> k) d"

definition dict_get :: "'k \<Rightarrow> 'v \<Rightarrow> ('k \<times> 'v) list \<Rightarrow> 'v" where
  "dict_get k otherwise d = (case map_of d k of Some v \<Rightarrow> v | None \<Rightarrow> otherwise)"

text \<open>\<open>dict(pairs)\<close>: a later pair replaces the value of an earlier one.\<close>

definition dict_of :: "('k \<times> 'v) list \<Rightarrow> ('k \<times> 'v) list" where
  "dict_of pairs = foldl (\<lambda>d (k, v). dict_set k v d) [] pairs"

lemma map_of_dict_set [simp]: "map_of (dict_set k v d) = (map_of d)(k \<mapsto> v)"
  by (induction d) (auto simp: fun_upd_twist)

lemma keys_dict_set [simp]: "fst ` set (dict_set k v d) = insert k (fst ` set d)"
proof (induction d)
  case (Cons p d)
  then show ?case by (cases p) (auto simp: insert_commute)
qed simp

lemma distinct_dict_set [simp]: "distinct (map fst (dict_set k v d)) \<longleftrightarrow> distinct (map fst d)"
proof (induction d)
  case (Cons p d)
  obtain k' v' where p: "p = (k', v')" by fastforce
  have "k' \<noteq> k \<Longrightarrow> k' \<in> fst ` set (dict_set k v d) \<longleftrightarrow> k' \<in> fst ` set d" by simp
  then show ?case using Cons by (auto simp: p simp del: keys_dict_set)
qed simp

lemma dict_get_set [simp]: "dict_get k x (dict_set k' v d) = (if k' = k then v else dict_get k x d)"
  by (simp add: dict_get_def)

lemma dict_of_distinct: "distinct (map fst d) \<Longrightarrow> dict_of d = d"
proof -
  have set_new: "k \<notin> set (map fst acc) \<Longrightarrow> dict_set k v acc = acc @ [(k, v)]" for k v and acc :: "('a \<times> 'b) list"
    by (induction acc) auto
  have "distinct (map fst (acc @ d)) \<Longrightarrow> foldl (\<lambda>d (k, v). dict_set k v d) acc d = acc @ d" for acc
    by (induction d arbitrary: acc) (auto simp: set_new)
  from this [of "[]"] show "distinct (map fst d) \<Longrightarrow> dict_of d = d" by (simp add: dict_of_def)
qed

section \<open>Field checkers\<close>

text \<open>
  \<open>_require_timestamp\<close> of the macro modules: as in the contract modules but for the last message.
\<close>

definition macro_require_timestamp :: "exn_class \<Rightarrow> json \<Rightarrow> string \<Rightarrow> string result" where
  "macro_require_timestamp cls value field =
     rbind (require_text cls value field 64) (\<lambda>text'.
       case fromisoformat (replace_Z text') of
         None \<Rightarrow> raise cls (field @ '' must be an ISO-8601 timestamp'')
       | Some parsed \<Rightarrow>
           if dt_offset parsed = None then raise cls (field @ '' must include a timezone'') else Ok text')"

text \<open>\<open>_canonical_names\<close> and its copies: texts in sorted order, each once.\<close>

definition macro_names :: "exn_class \<Rightarrow> string list \<Rightarrow> string \<Rightarrow> nat \<Rightarrow> bool \<Rightarrow> unit result" where
  "macro_names cls values field maximum allow_empty = first_error
     ([ensure (allow_empty \<or> values \<noteq> []) cls (field @ '' must not be empty'')] @
      map (\<lambda>v. discard (require_text cls (JStr v) (field @ '' item'') maximum)) values @
      [ensure (sorted_set values = values) cls (field @ '' must be sorted and unique'')])"

lemma discard_text_Ok_iff: "discard (require_text cls (JStr v) f m) = Inr () \<longleftrightarrow> plain_text m v"
  by (simp add: discard_Ok_iff require_text_Ok_iff)

lemma macro_names_Ok_iff [result_simps]:
  "macro_names cls xs f m e = Inr () \<longleftrightarrow> (e \<or> xs \<noteq> []) \<and> list_all (plain_text m) xs \<and> sorted xs \<and> distinct xs"
  unfolding macro_names_def first_error_Ok_iff
  by (auto simp: list_all_iff discard_text_Ok_iff sorted_set_id_iff)

end
