(* ===== verification/Macro_Runtime.thy ===== *)
theory Macro_Runtime
  imports Macro_Base
begin

text \<open>
  \<open>phios/macro_runtime.py\<close>: operations, capability grants and the runtime that authorises an
  operation and hands it to an adapter.

  An adapter is an object the runtime only calls: \<open>adapter\<close> pairs its identity and its current
  state with its methods, arbitrary functions that may raise.  \<open>uuid.uuid4\<close> and
  \<open>datetime.now\<close> answer from two streams of the \<open>world\<close>; the runtime state counts the draws.
\<close>

section \<open>Enumerations\<close>

datatype execution_mode = LIVE | DRY_RUN | REPLAY

fun mode_value :: "execution_mode \<Rightarrow> string" where
  "mode_value LIVE = ''live''"
| "mode_value DRY_RUN = ''dry_run''"
| "mode_value REPLAY = ''replay''"

datatype execution_state =
    XS_DECLARED | XS_VALIDATING | XS_INVALID | XS_PLANNED | XS_AWAITING_AUTHORITY | XS_DENIED | XS_AUTHORIZED
  | XS_READY | XS_EXECUTING | XS_CHECKPOINTED | XS_COMPLETED | XS_FAILED | XS_ABORTED | XS_PARTIAL
  | XS_ROLLING_BACK | XS_ROLLED_BACK

fun state_value :: "execution_state \<Rightarrow> string" where
  "state_value XS_DECLARED = ''declared''"
| "state_value XS_VALIDATING = ''validating''"
| "state_value XS_INVALID = ''invalid''"
| "state_value XS_PLANNED = ''planned''"
| "state_value XS_AWAITING_AUTHORITY = ''awaiting_authority''"
| "state_value XS_DENIED = ''denied''"
| "state_value XS_AUTHORIZED = ''authorized''"
| "state_value XS_READY = ''ready''"
| "state_value XS_EXECUTING = ''executing''"
| "state_value XS_CHECKPOINTED = ''checkpointed''"
| "state_value XS_COMPLETED = ''completed''"
| "state_value XS_FAILED = ''failed''"
| "state_value XS_ABORTED = ''aborted''"
| "state_value XS_PARTIAL = ''partial''"
| "state_value XS_ROLLING_BACK = ''rolling_back''"
| "state_value XS_ROLLED_BACK = ''rolled_back''"

datatype idempotency_class = IDEMPOTENT | CONDITIONAL | NON_IDEMPOTENT | IDEMPOTENCY_UNKNOWN

fun idempotency_value :: "idempotency_class \<Rightarrow> string" where
  "idempotency_value IDEMPOTENT = ''idempotent''"
| "idempotency_value CONDITIONAL = ''conditional''"
| "idempotency_value NON_IDEMPOTENT = ''non_idempotent''"
| "idempotency_value IDEMPOTENCY_UNKNOWN = ''unknown''"

datatype replay_class = DETERMINISTIC | CAPTURE_REQUIRED | NON_REPLAYABLE | REPLAY_UNKNOWN

fun replay_value :: "replay_class \<Rightarrow> string" where
  "replay_value DETERMINISTIC = ''deterministic''"
| "replay_value CAPTURE_REQUIRED = ''capture_required''"
| "replay_value NON_REPLAYABLE = ''non_replayable''"
| "replay_value REPLAY_UNKNOWN = ''unknown''"

datatype rollback_class = REVERSIBLE | COMPENSATING | ROLLBACK_NONE | ROLLBACK_UNKNOWN

fun rollback_value :: "rollback_class \<Rightarrow> string" where
  "rollback_value REVERSIBLE = ''reversible''"
| "rollback_value COMPENSATING = ''compensating''"
| "rollback_value ROLLBACK_NONE = ''none''"
| "rollback_value ROLLBACK_UNKNOWN = ''unknown''"

datatype side_effect_class =
    SIDE_EFFECT_NONE | LOCAL_REVERSIBLE | LOCAL_IRREVERSIBLE | EXTERNAL_REVERSIBLE | EXTERNAL_IRREVERSIBLE | SIDE_EFFECT_UNKNOWN

fun side_effect_value :: "side_effect_class \<Rightarrow> string" where
  "side_effect_value SIDE_EFFECT_NONE = ''none''"
| "side_effect_value LOCAL_REVERSIBLE = ''local_reversible''"
| "side_effect_value LOCAL_IRREVERSIBLE = ''local_irreversible''"
| "side_effect_value EXTERNAL_REVERSIBLE = ''external_reversible''"
| "side_effect_value EXTERNAL_IRREVERSIBLE = ''external_irreversible''"
| "side_effect_value SIDE_EFFECT_UNKNOWN = ''unknown''"

datatype authority_decision_kind = GRANTED | AUTHORITY_DENIED | PENDING

datatype runtime_result_status = RR_SUCCEEDED | RR_DENIED | RR_ALREADY_APPLIED | RR_DRY_RUN | RR_FAILED | RR_ROLLED_BACK

fun result_value :: "runtime_result_status \<Rightarrow> string" where
  "result_value RR_SUCCEEDED = ''succeeded''"
| "result_value RR_DENIED = ''denied''"
| "result_value RR_ALREADY_APPLIED = ''already_applied''"
| "result_value RR_DRY_RUN = ''dry_run''"
| "result_value RR_FAILED = ''failed''"
| "result_value RR_ROLLED_BACK = ''rolled_back''"

section \<open>Grants, operations and receipts\<close>

record capability_grant =
  cg_grant_id :: string
  cg_principal_id :: string
  cg_capability :: string
  cg_scope :: string
  cg_constraints :: "string list"
  cg_issued_by :: string
  cg_issued_at :: string
  cg_expires_at :: "string option"
  cg_revoked :: bool

record authority_decision =
  ad_decision :: authority_decision_kind
  ad_principal_id :: string
  ad_operation_id :: string
  ad_required_capabilities :: "string list"
  ad_matched_grants :: "string list"
  ad_missing_capabilities :: "string list"

record operation =
  op_operation_id :: string
  op_operation_version :: string
  op_adapter_id :: string
  op_action :: string
  op_inputs :: "(string \<times> json) list"
  op_required_capabilities :: "string list"
  op_execution_modes_supported :: "execution_mode list"
  op_idempotency_class :: idempotency_class
  op_replay_class :: replay_class
  op_rollback_class :: rollback_class
  op_side_effect_class :: side_effect_class
  op_idempotency_key :: "string option"

definition operation_hash :: "operation \<Rightarrow> string" where
  "operation_hash o' = canonical_sha256 (JObj
     [(''operation_id'', JStr (op_operation_id o')),
      (''operation_version'', JStr (op_operation_version o')),
      (''adapter_id'', JStr (op_adapter_id o')),
      (''action'', JStr (op_action o')),
      (''inputs'', JObj (op_inputs o')),
      (''required_capabilities'', jstrs (op_required_capabilities o')),
      (''execution_modes_supported'', jstrs (map mode_value (op_execution_modes_supported o'))),
      (''idempotency_class'', JStr (idempotency_value (op_idempotency_class o'))),
      (''replay_class'', JStr (replay_value (op_replay_class o'))),
      (''rollback_class'', JStr (rollback_value (op_rollback_class o'))),
      (''side_effect_class'', JStr (side_effect_value (op_side_effect_class o'))),
      (''idempotency_key'', jopt (op_idempotency_key o'))])"

definition input_hash :: "operation \<Rightarrow> string" where
  "input_hash o' = canonical_sha256 (JObj (op_inputs o'))"

record macro_adapter_result =
  ar_output :: "(string \<times> json) list"
  ar_committed_side_effect_count :: int

record ('a, 's) adapter =
  am_version :: string
  am_state :: 'a
  am_state_hash :: "'a \<Rightarrow> string result"
  am_snapshot :: "'a \<Rightarrow> 's result"
  am_restore :: "'s \<Rightarrow> ('a, unit) action"
  am_execute :: "operation \<Rightarrow> ('a, macro_adapter_result) action"
  am_simulate :: "operation \<Rightarrow> ('a, macro_adapter_result) action"

record 's checkpoint =
  ck_checkpoint_id :: string
  ck_execution_id :: string
  ck_state_hash :: string
  ck_snapshot :: 's

record runtime_receipt =
  rx_receipt_id :: string
  rx_execution_id :: string
  rx_operation_id :: string
  rx_operation_version :: string
  rx_principal_id :: string
  rx_grant_ids :: "string list"
  rx_execution_mode :: execution_mode
  rx_execution_state :: execution_state
  rx_input_hash :: string
  rx_operation_hash :: string
  rx_pre_state_hash :: string
  rx_post_state_hash :: string
  rx_result_hash :: string
  rx_committed_side_effect_count :: int
  rx_checkpoint_id :: "string option"
  rx_adapter_id :: string
  rx_adapter_version :: string
  rx_result_status :: runtime_result_status
  rx_started_at :: string
  rx_finished_at :: string
  rx_parent_receipt_id :: "string option"

definition rx_receipt_hash :: "runtime_receipt \<Rightarrow> string" where
  "rx_receipt_hash r = canonical_sha256 (JObj
     [(''receipt_id'', JStr (rx_receipt_id r)),
      (''execution_id'', JStr (rx_execution_id r)),
      (''operation_id'', JStr (rx_operation_id r)),
      (''operation_version'', JStr (rx_operation_version r)),
      (''principal_id'', JStr (rx_principal_id r)),
      (''grant_ids'', jstrs (rx_grant_ids r)),
      (''execution_mode'', JStr (mode_value (rx_execution_mode r))),
      (''execution_state'', JStr (state_value (rx_execution_state r))),
      (''input_hash'', JStr (rx_input_hash r)),
      (''operation_hash'', JStr (rx_operation_hash r)),
      (''pre_state_hash'', JStr (rx_pre_state_hash r)),
      (''post_state_hash'', JStr (rx_post_state_hash r)),
      (''result_hash'', JStr (rx_result_hash r)),
      (''committed_side_effect_count'', JInt (rx_committed_side_effect_count r)),
      (''checkpoint_id'', jopt (rx_checkpoint_id r)),
      (''adapter_id'', JStr (rx_adapter_id r)),
      (''adapter_version'', JStr (rx_adapter_version r)),
      (''result_status'', JStr (result_value (rx_result_status r))),
      (''started_at'', JStr (rx_started_at r)),
      (''finished_at'', JStr (rx_finished_at r)),
      (''parent_receipt_id'', jopt (rx_parent_receipt_id r))])"

record execution_result =
  res_state :: execution_state
  res_status :: runtime_result_status
  res_authority :: authority_decision
  res_receipt :: runtime_receipt
  res_output :: "(string \<times> json) list"

section \<open>The runtime\<close>

record world =
  w_uuid :: "nat \<Rightarrow> string"
  w_now :: "nat \<Rightarrow> string"

record ('a, 's) macro_runtime =
  rt_adapters :: "(string \<times> ('a, 's) adapter) list"
  rt_receipts :: "runtime_receipt list"
  rt_committed :: "(string \<times> runtime_receipt) list"
  rt_checkpoints :: "(string \<times> 's checkpoint) list"
  rt_uuids :: nat
  rt_reads :: nat

definition draw_id :: "world \<Rightarrow> (('a, 's) macro_runtime, string) action" where
  "draw_id w = (\<lambda>s. (Ok (w_uuid w (rt_uuids s)), s\<lparr>rt_uuids := Suc (rt_uuids s)\<rparr>))"

definition read_clock :: "world \<Rightarrow> (('a, 's) macro_runtime, string) action" where
  "read_clock w = (\<lambda>s. (Ok (w_now w (rt_reads s)), s\<lparr>rt_reads := Suc (rt_reads s)\<rparr>))"

definition register_adapter ::
  "string \<Rightarrow> ('a, 's) adapter \<Rightarrow> (('a, 's) macro_runtime, unit) action" where
  "register_adapter i a = (\<lambda>s.
     if i = [] then (raise PyValueError ''adapter_id must be non-empty'', s)
     else if i \<in> set (map fst (rt_adapters s)) then (raise PyValueError (''adapter already registered: '' @ i), s)
     else (Ok (), s\<lparr>rt_adapters := dict_set i a (rt_adapters s)\<rparr>))"

definition authorize :: "string \<Rightarrow> operation \<Rightarrow> capability_grant list \<Rightarrow> authority_decision" where
  "authorize principal_id o' grants =
     (let active = filter (\<lambda>g. cg_principal_id g = principal_id \<and> \<not> cg_revoked g) grants;
          matched = sort (map cg_grant_id (filter (\<lambda>g. cg_capability g \<in> set (op_required_capabilities o')) active));
          missing = filter (\<lambda>c. c \<notin> set (map cg_capability active)) (op_required_capabilities o')
      in \<lparr>ad_decision = (if missing = [] then GRANTED else AUTHORITY_DENIED), ad_principal_id = principal_id,
          ad_operation_id = op_operation_id o', ad_required_capabilities = op_required_capabilities o',
          ad_matched_grants = matched, ad_missing_capabilities = missing\<rparr>)"

definition find_adapter :: "string \<Rightarrow> ('a, 's) macro_runtime \<Rightarrow> ('a, 's) adapter result" where
  "find_adapter i s = (case map_of (rt_adapters s) i of
     Some a \<Rightarrow> Ok a | None \<Rightarrow> raise PyKeyError (''unknown adapter: '' @ i))"

text \<open>A call of a method that may change the adapter's state, and of one that only looks at it.\<close>

definition call_adapter ::
  "string \<Rightarrow> (('a, 's) adapter \<Rightarrow> ('a, 'b) action) \<Rightarrow> (('a, 's) macro_runtime, 'b) action" where
  "call_adapter i method = (\<lambda>s.
     case find_adapter i s of
       Inl e \<Rightarrow> (Inl e, s)
     | Inr a \<Rightarrow> (case method a (am_state a) of
         (r, st) \<Rightarrow> (r, s\<lparr>rt_adapters := dict_set i (a\<lparr>am_state := st\<rparr>) (rt_adapters s)\<rparr>)))"

definition ask_adapter ::
  "string \<Rightarrow> (('a, 's) adapter \<Rightarrow> 'a \<Rightarrow> 'b result) \<Rightarrow> (('a, 's) macro_runtime, 'b) action" where
  "ask_adapter i method = st_read (\<lambda>s. rbind (find_adapter i s) (\<lambda>a. method a (am_state a)))"

definition idempotency_identity :: "operation \<Rightarrow> string option result" where
  "idempotency_identity o' =
     (if op_idempotency_class o' \<notin> {IDEMPOTENT, CONDITIONAL} then Ok None
      else (case op_idempotency_key o' of
              None \<Rightarrow> raise PyValueError ''idempotent operation requires idempotency_key''
            | Some k \<Rightarrow>
                if k = [] then raise PyValueError ''idempotent operation requires idempotency_key''
                else Ok (Some (canonical_sha256 (JObj
                  [(''operation_id'', JStr (op_operation_id o')), (''operation_version'', JStr (op_operation_version o')),
                   (''input_hash'', JStr (input_hash o')), (''idempotency_key'', JStr k)])))))"

definition create_checkpoint ::
  "world \<Rightarrow> string \<Rightarrow> rollback_class \<Rightarrow> string \<Rightarrow> (('a, 's) macro_runtime, 's checkpoint option) action" where
  "create_checkpoint w i cls execution_id =
     (if cls \<noteq> REVERSIBLE then st_return None
      else st_bind (draw_id w) (\<lambda>fresh.
           st_bind (ask_adapter i am_state_hash) (\<lambda>h.
           st_bind (ask_adapter i am_snapshot) (\<lambda>snap.
             let c = \<lparr>ck_checkpoint_id = fresh, ck_execution_id = execution_id, ck_state_hash = h, ck_snapshot = snap\<rparr>
             in (\<lambda>s. (Ok (Some c), s\<lparr>rt_checkpoints := dict_set fresh c (rt_checkpoints s)\<rparr>))))))"

text \<open>\<open>_receipt\<close>, and the append of the receipt that follows each of its calls.\<close>

definition make_runtime_receipt ::
  "world \<Rightarrow> string \<Rightarrow> string \<Rightarrow> operation \<Rightarrow> authority_decision \<Rightarrow> execution_mode \<Rightarrow> execution_state \<Rightarrow> string \<Rightarrow> string
    \<Rightarrow> (string \<times> json) list \<Rightarrow> int \<Rightarrow> string option \<Rightarrow> string \<Rightarrow> runtime_result_status \<Rightarrow> string \<Rightarrow> string option
    \<Rightarrow> (('a, 's) macro_runtime, runtime_receipt) action" where
  "make_runtime_receipt w execution_id principal_id o' authority mode state pre post output effects checkpoint_id version
     status started_at parent =
     st_bind (draw_id w) (\<lambda>fresh. st_bind (read_clock w) (\<lambda>now.
     let r = \<lparr>rx_receipt_id = fresh, rx_execution_id = execution_id, rx_operation_id = op_operation_id o',
              rx_operation_version = op_operation_version o', rx_principal_id = principal_id,
              rx_grant_ids = ad_matched_grants authority, rx_execution_mode = mode, rx_execution_state = state,
              rx_input_hash = input_hash o', rx_operation_hash = operation_hash o', rx_pre_state_hash = pre,
              rx_post_state_hash = post, rx_result_hash = canonical_sha256 (JObj output),
              rx_committed_side_effect_count = effects, rx_checkpoint_id = checkpoint_id,
              rx_adapter_id = op_adapter_id o', rx_adapter_version = version, rx_result_status = status,
              rx_started_at = started_at, rx_finished_at = now, rx_parent_receipt_id = parent\<rparr>
     in (\<lambda>s. (Ok r, s\<lparr>rt_receipts := rt_receipts s @ [r]\<rparr>))))"

text \<open>The adapter call of \<open>execute\<close> and the status it gives.\<close>

definition run_mode ::
  "operation \<Rightarrow> execution_mode \<Rightarrow> (('a, 's) macro_runtime, macro_adapter_result \<times> runtime_result_status) action" where
  "run_mode o' mode =
     (case mode of
        DRY_RUN \<Rightarrow>
          st_bind (call_adapter (op_adapter_id o') (\<lambda>a. am_simulate a o')) (\<lambda>r.
            if ar_committed_side_effect_count r \<noteq> 0
            then st_result (raise PyRuntimeError ''dry-run adapter committed a side effect'')
            else st_return (r, RR_DRY_RUN))
      | REPLAY \<Rightarrow>
          if op_replay_class o' \<noteq> DETERMINISTIC
          then st_result (raise PyValueError ''operation is not declared deterministic'')
          else st_bind (call_adapter (op_adapter_id o') (\<lambda>a. am_simulate a o')) (\<lambda>r.
            if ar_committed_side_effect_count r \<noteq> 0
            then st_result (raise PyRuntimeError ''replay simulation committed a side effect'')
            else st_return (r, RR_SUCCEEDED))
      | LIVE \<Rightarrow>
          st_bind (call_adapter (op_adapter_id o') (\<lambda>a. am_execute a o')) (\<lambda>r. st_return (r, RR_SUCCEEDED)))"

text \<open>The part of \<open>execute\<close> after the authority check and the idempotency lookup.\<close>

definition execute_operation ::
  "world \<Rightarrow> string \<Rightarrow> operation \<Rightarrow> execution_mode \<Rightarrow> string option \<Rightarrow> authority_decision \<Rightarrow> string option \<Rightarrow> string \<Rightarrow> string
    \<Rightarrow> string \<Rightarrow> string \<Rightarrow> (('a, 's) macro_runtime, execution_result) action" where
  "execute_operation w principal_id o' mode parent authority identity execution_id started_at version pre =
     (let i = op_adapter_id o' in
      st_bind (create_checkpoint w i (op_rollback_class o') execution_id) (\<lambda>checkpoint.
      st_bind (run_mode o' mode) (\<lambda>(result, status).
      st_bind (ask_adapter i am_state_hash) (\<lambda>post.
      st_bind (make_runtime_receipt w execution_id principal_id o' authority mode XS_COMPLETED pre post
        (ar_output result) (ar_committed_side_effect_count result) (map_option ck_checkpoint_id checkpoint)
        version status started_at parent) (\<lambda>receipt.
      (\<lambda>s. (Ok \<lparr>res_state = XS_COMPLETED, res_status = status, res_authority = authority, res_receipt = receipt,
                res_output = ar_output result\<rparr>,
            (case identity of
               Some k \<Rightarrow> if mode = LIVE then s\<lparr>rt_committed := dict_set k receipt (rt_committed s)\<rparr> else s
             | None \<Rightarrow> s))))))))"

definition decide_operation ::
  "world \<Rightarrow> string \<Rightarrow> operation \<Rightarrow> capability_grant list \<Rightarrow> execution_mode \<Rightarrow> string option \<Rightarrow> string \<Rightarrow> string \<Rightarrow> string \<Rightarrow> string
    \<Rightarrow> (('a, 's) macro_runtime, execution_result) action" where
  "decide_operation w principal_id o' grants mode parent execution_id started_at version pre =
     (let authority = authorize principal_id o' grants in
      if mode \<notin> set (op_execution_modes_supported o')
      then st_result (raise PyValueError (''execution mode '' @ mode_value mode @ '' is not supported''))
      else if ad_decision authority \<noteq> GRANTED
      then let output = [(''missing_capabilities'', jstrs (ad_missing_capabilities authority))] in
           st_bind (make_runtime_receipt w execution_id principal_id o' authority mode XS_DENIED pre pre output 0 None
             version RR_DENIED started_at parent) (\<lambda>receipt.
           st_return \<lparr>res_state = XS_DENIED, res_status = RR_DENIED, res_authority = authority, res_receipt = receipt,
             res_output = output\<rparr>)
      else
      st_bind (st_result (idempotency_identity o')) (\<lambda>identity.
      st_bind (st_read (\<lambda>s. Ok (if mode = LIVE then Option.bind identity (map_of (rt_committed s)) else None))) (\<lambda>prior.
      case prior of
        Some p \<Rightarrow>
          let output = [(''prior_receipt_id'', JStr (rx_receipt_id p))] in
          st_bind (make_runtime_receipt w execution_id principal_id o' authority mode XS_COMPLETED pre pre output 0 None
            version RR_ALREADY_APPLIED started_at parent) (\<lambda>receipt.
          st_return \<lparr>res_state = XS_COMPLETED, res_status = RR_ALREADY_APPLIED, res_authority = authority,
            res_receipt = receipt, res_output = output\<rparr>)
      | None \<Rightarrow>
          execute_operation w principal_id o' mode parent authority identity execution_id started_at version pre)))"

definition execute ::
  "world \<Rightarrow> string \<Rightarrow> operation \<Rightarrow> capability_grant list \<Rightarrow> execution_mode \<Rightarrow> string option
    \<Rightarrow> (('a, 's) macro_runtime, execution_result) action" where
  "execute w principal_id o' grants mode parent =
     st_bind (draw_id w) (\<lambda>execution_id.
     st_bind (read_clock w) (\<lambda>started_at.
     st_bind (st_read (find_adapter (op_adapter_id o'))) (\<lambda>adapter.
     st_bind (ask_adapter (op_adapter_id o') am_state_hash) (\<lambda>pre.
     decide_operation w principal_id o' grants mode parent execution_id started_at (am_version adapter) pre))))"

definition find_receipt :: "string \<Rightarrow> ('a, 's) macro_runtime \<Rightarrow> runtime_receipt result" where
  "find_receipt receipt_id s = (case find (\<lambda>r. rx_receipt_id r = receipt_id) (rt_receipts s) of
     Some r \<Rightarrow> Ok r | None \<Rightarrow> raise PyKeyError (''unknown receipt: '' @ receipt_id))"

definition find_checkpoint :: "string \<Rightarrow> ('a, 's) macro_runtime \<Rightarrow> 's checkpoint result" where
  "find_checkpoint i s = (case map_of (rt_checkpoints s) i of Some c \<Rightarrow> Ok c | None \<Rightarrow> raise PyKeyError i)"

definition rollback :: "world \<Rightarrow> string \<Rightarrow> (('a, 's) macro_runtime, runtime_receipt) action" where
  "rollback w receipt_id =
     st_bind (st_read (find_receipt receipt_id)) (\<lambda>original.
     case rx_checkpoint_id original of
       None \<Rightarrow> st_result (raise PyValueError ''receipt has no reversible checkpoint'')
     | Some c \<Rightarrow>
       let i = rx_adapter_id original in
       st_bind (st_read (find_checkpoint c)) (\<lambda>checkpoint.
       st_bind (st_read (find_adapter i)) (\<lambda>_.
       st_bind (ask_adapter i am_state_hash) (\<lambda>pre.
       st_bind (call_adapter i (\<lambda>a. am_restore a (ck_snapshot checkpoint))) (\<lambda>_.
       st_bind (ask_adapter i am_state_hash) (\<lambda>post.
       if post \<noteq> ck_state_hash checkpoint
       then st_result (raise PyRuntimeError ''rollback did not restore checkpoint state'')
       else
       st_bind (read_clock w) (\<lambda>now. st_bind (draw_id w) (\<lambda>fresh.
       let r = original\<lparr>rx_receipt_id := fresh, rx_execution_state := XS_ROLLED_BACK, rx_pre_state_hash := pre,
                 rx_post_state_hash := post,
                 rx_result_hash := canonical_sha256 (JObj [(''restored_state_hash'', JStr post)]),
                 rx_committed_side_effect_count := 0, rx_result_status := RR_ROLLED_BACK, rx_started_at := now,
                 rx_finished_at := now, rx_parent_receipt_id := Some (rx_receipt_id original)\<rparr>
       in (\<lambda>s. (Ok r, s\<lparr>rt_receipts := rt_receipts s @ [r]\<rparr>))))))))))"

definition replay ::
  "world \<Rightarrow> string \<Rightarrow> operation \<Rightarrow> string \<Rightarrow> capability_grant list \<Rightarrow> (('a, 's) macro_runtime, execution_result) action" where
  "replay w principal_id o' original_receipt_id grants =
     st_bind (st_read (find_receipt original_receipt_id)) (\<lambda>original.
     if operation_hash o' \<noteq> rx_operation_hash original
     then st_result (raise PyValueError ''replay operation hash differs from original'')
     else
     st_bind (execute w principal_id o' grants REPLAY (Some (rx_receipt_id original))) (\<lambda>result.
     if rx_result_hash (res_receipt result) \<noteq> rx_result_hash original
     then st_result (raise PyRuntimeError ''deterministic replay result hash mismatch'')
     else st_return result))"

section \<open>The in-memory adapter\<close>

record memory_state =
  ms_state :: "(string \<times> json) list"
  ms_committed_effects :: nat

text \<open>\<open>json.loads(json.dumps(state, sort_keys=True))\<close>.\<close>

definition ms_snapshot :: "memory_state \<Rightarrow> json result" where
  "ms_snapshot m = Ok (canon (JObj (ms_state m)))"

definition ms_state_hash :: "memory_state \<Rightarrow> string result" where
  "ms_state_hash m = Ok (canonical_sha256 (JObj (ms_state m)))"

definition ms_restore :: "json \<Rightarrow> (memory_state, unit) action" where
  "ms_restore snapshot = (\<lambda>m.
     case snapshot of
       JObj d \<Rightarrow> (case canon (JObj d) of JObj e \<Rightarrow> (Ok (), m\<lparr>ms_state := e\<rparr>) | _ \<Rightarrow> (Ok (), m))
     | _ \<Rightarrow> (raise PyTypeError ''in-memory snapshot must be a dictionary'', m))"

definition ms_apply :: "operation \<Rightarrow> bool \<Rightarrow> (memory_state, (string \<times> json) list) action" where
  "ms_apply o' commit = (\<lambda>m.
     if op_action o' \<noteq> ''set'' then (raise PyValueError (''unsupported action: '' @ op_action o'), m)
     else (case dget (op_inputs o') ''key'' of
             JStr k \<Rightarrow>
               if k = [] then (raise PyValueError ''set requires non-empty string key'', m)
               else let v = dget (op_inputs o') ''value''; predicted = dict_set k v (ms_state m)
                    in (Ok [(''key'', JStr k), (''value'', v),
                            (''predicted_state_hash'', JStr (canonical_sha256 (JObj predicted)))],
                        if commit then \<lparr>ms_state = predicted, ms_committed_effects = Suc (ms_committed_effects m)\<rparr> else m)
           | _ \<Rightarrow> (raise PyValueError ''set requires non-empty string key'', m)))"

definition ms_execute :: "operation \<Rightarrow> (memory_state, macro_adapter_result) action" where
  "ms_execute o' = st_bind (ms_apply o' True) (\<lambda>output. st_return \<lparr>ar_output = output, ar_committed_side_effect_count = 1\<rparr>)"

definition ms_simulate :: "operation \<Rightarrow> (memory_state, macro_adapter_result) action" where
  "ms_simulate o' = st_bind (ms_apply o' False) (\<lambda>output. st_return \<lparr>ar_output = output, ar_committed_side_effect_count = 0\<rparr>)"

definition memory_adapter :: "(memory_state, json) adapter" where
  "memory_adapter = \<lparr>am_version = ''0.1.0'', am_state = \<lparr>ms_state = [], ms_committed_effects = 0\<rparr>,
     am_state_hash = ms_state_hash, am_snapshot = ms_snapshot, am_restore = ms_restore, am_execute = ms_execute,
     am_simulate = ms_simulate\<rparr>"

section \<open>Lemmas\<close>

lemma keeps_draws [keeps_intros]:
  "keeps rt_adapters (draw_id w)" "keeps rt_adapters (read_clock w)" "keeps rt_committed (draw_id w)" "keeps rt_committed (read_clock w)"
  "keeps rt_receipts (draw_id w)" "keeps rt_receipts (read_clock w)"
  by (simp_all add: keeps_def draw_id_def read_clock_def)

lemma keeps_ask [keeps_intros]: "keeps f (ask_adapter i m)"
  by (simp add: ask_adapter_def keeps_intros)

lemma keeps_call [keeps_intros]: "keeps rt_committed (call_adapter i m)" "keeps rt_receipts (call_adapter i m)"
    "keeps rt_checkpoints (call_adapter i m)"
  by (simp_all add: keeps_def call_adapter_def split: sum.splits prod.splits)

lemma keeps_receipt [keeps_intros]:
  "keeps rt_adapters (make_runtime_receipt w x p o' a mode st pre post out n c v status at' parent)"
  "keeps rt_committed (make_runtime_receipt w x p o' a mode st pre post out n c v status at' parent)"
  unfolding make_runtime_receipt_def Let_def by (intro keeps_intros; simp add: keeps_def)+

lemma keeps_checkpoint [keeps_intros]:
  "keeps rt_adapters (create_checkpoint w i cls x)" "keeps rt_committed (create_checkpoint w i cls x)"
  "keeps rt_receipts (create_checkpoint w i cls x)"
  unfolding create_checkpoint_def Let_def by (intro keeps_intros; simp add: keeps_def)+

lemma keeps_run_mode [keeps_intros]: "keeps rt_committed (run_mode o' mode)" "keeps rt_receipts (run_mode o' mode)"
    "keeps rt_checkpoints (run_mode o' mode)"
  unfolding run_mode_def by (cases mode; auto intro!: keeps_intros)+


lemma draws_quiet:
  "draw_id w s = (r, s') \<Longrightarrow> rt_adapters s' = rt_adapters s \<and> rt_committed s' = rt_committed s \<and> rt_receipts s' = rt_receipts s"
  "read_clock w s = (r, s') \<Longrightarrow> rt_adapters s' = rt_adapters s \<and> rt_committed s' = rt_committed s \<and> rt_receipts s' = rt_receipts s"
  by (auto simp: draw_id_def read_clock_def)

lemma receipt_quiet:
  "make_runtime_receipt w x p o' a mode st pre post out n c v status at' parent s = (r, s') \<Longrightarrow>
    rt_adapters s' = rt_adapters s \<and> rt_committed s' = rt_committed s"
  by (blast dest: keepsD [OF keeps_receipt(1)] keepsD [OF keeps_receipt(2)])

lemma ask_adapter_same: "ask_adapter i m s = (r, s') \<Longrightarrow> s' = s"
  by (simp add: ask_adapter_def st_read_def)

text \<open>What precedes the decision touches neither the adapters nor the committed operations.\<close>

lemma execute_decides:
  assumes "execute w who o' grants mode parent s = (r, s')"
  obtains (early) e where "r = Inl e" and "rt_adapters s' = rt_adapters s" and "rt_committed s' = rt_committed s"
  | (denied) x where "r = Inr x" and "res_status x = RR_DENIED" and "ad_decision (authorize who o' grants) \<noteq> GRANTED"
      and "rt_adapters s' = rt_adapters s" and "rt_committed s' = rt_committed s"
  | (again) x identity where "r = Inr x" and "res_status x = RR_ALREADY_APPLIED" and "mode = LIVE"
      and "idempotency_identity o' = Inr (Some identity)" and "map_of (rt_committed s) identity \<noteq> None"
      and "rt_adapters s' = rt_adapters s" and "rt_committed s' = rt_committed s"
  | (runs) identity xid at' a pre s1 where "mode \<in> set (op_execution_modes_supported o')"
      and "ad_decision (authorize who o' grants) = GRANTED" and "idempotency_identity o' = Inr identity"
      and "mode = LIVE \<Longrightarrow> Option.bind identity (map_of (rt_committed s)) = None"
      and "rt_adapters s1 = rt_adapters s" and "rt_committed s1 = rt_committed s" and "rt_receipts s1 = rt_receipts s"
      and "find_adapter (op_adapter_id o') s = Inr a" and "am_state_hash a (am_state a) = Inr pre"
      and "execute_operation w who o' mode parent (authorize who o' grants) identity xid at' (am_version a) pre s1 = (r, s')"
proof -
  let ?auth = "authorize who o' grants" and ?i = "op_adapter_id o'"
  have decided: thesis
    if d: "decide_operation w who o' grants mode parent xid at' (am_version a) pre s1 = (r, s')"
      and same: "rt_adapters s1 = rt_adapters s" "rt_committed s1 = rt_committed s" "rt_receipts s1 = rt_receipts s"
      and a: "find_adapter ?i s = Inr a" "am_state_hash a (am_state a) = Inr pre" for xid at' a pre s1
  proof (cases "mode \<in> set (op_execution_modes_supported o') \<and> ad_decision ?auth = GRANTED")
    case False
    then show thesis
      using d same unfolding decide_operation_def Let_def
      by (auto simp: st_simps elim!: st_bindE intro: early denied split: if_splits
          dest!: receipt_quiet)
  next
    case True
    show thesis
    proof (cases "idempotency_identity o'")
      case (Inl e)
      then show thesis using d same True early [of e] by (auto simp: decide_operation_def st_bind_def st_simps)
    next
      case (Inr identity)
      show thesis
      proof (cases "if mode = LIVE then Option.bind identity (map_of (rt_committed s1)) else None")
        case None
        then have "execute_operation w who o' mode parent ?auth identity xid at' (am_version a) pre s1 = (r, s')"
          using d True Inr by (simp add: decide_operation_def Let_def st_bind_def st_simps)
        then show thesis using runs True Inr None same a by (auto split: if_splits)
      next
        case (Some p)
        then obtain k where k: "identity = Some k" "mode = LIVE" "map_of (rt_committed s) k = Some p"
          using same by (auto split: if_splits simp: bind_eq_Some_conv)
        have "((\<exists>e. r = Inl e) \<or> (\<exists>x. r = Inr x \<and> res_status x = RR_ALREADY_APPLIED)) \<and>
            rt_adapters s' = rt_adapters s \<and> rt_committed s' = rt_committed s"
          using d True Inr Some k same unfolding decide_operation_def Let_def
          by (auto simp: st_simps elim!: st_bindE dest!: receipt_quiet)
        then show thesis using early again k Inr by auto
      qed
    qed
  qed
  from assms show thesis
    unfolding execute_def
  proof (elim st_bindE, goal_cases)
    case (5 xid s1 t s2 a s3 pre s4)
    have "s4 = s3" "s3 = s2" "find_adapter ?i s2 = Inr a" "am_state_hash a (am_state a) = Inr pre"
      using 5(3,4) by (auto simp: st_read_def ask_adapter_def)
    moreover have "rt_adapters s2 = rt_adapters s" "rt_committed s2 = rt_committed s" "rt_receipts s2 = rt_receipts s"
      using draws_quiet(1) [OF 5(1)] draws_quiet(2) [OF 5(2)] by simp_all
    ultimately show thesis using decided [of xid t a pre s2] 5(5) by (simp add: find_adapter_def)
  qed (auto simp: st_read_def intro: early dest!: ask_adapter_same draws_quiet)
qed


text \<open>What \<open>execute_operation\<close> leaves behind: its receipt, the commitment of a live run to that receipt, and
  a checkpoint that recorded the state hash from before the adapter was called.\<close>

definition adapter_hash :: "string \<Rightarrow> ('a, 's) macro_runtime \<Rightarrow> string result" where
  "adapter_hash i s = rbind (find_adapter i s) (\<lambda>a. am_state_hash a (am_state a))"

lemma checkpoint_made:
  assumes "create_checkpoint w i cls x s = (Inr (Some ck), s')"
  shows "map_of (rt_checkpoints s') (ck_checkpoint_id ck) = Some ck \<and> adapter_hash i s = Inr (ck_state_hash ck)"
  using assms unfolding create_checkpoint_def Let_def
  by (auto elim!: st_bindE split: if_splits simp: st_simps ask_adapter_def adapter_hash_def find_adapter_def draw_id_def)

lemma receipt_made:
  assumes "make_runtime_receipt w x p o' a mode st pre post out n c v status at' parent s = (r, s')"
  obtains rx where "r = Inr rx" and "rt_receipts s' = rt_receipts s @ [rx]" and "rt_committed s' = rt_committed s"
    and "rt_checkpoints s' = rt_checkpoints s" and "rx_pre_state_hash rx = pre" and "rx_post_state_hash rx = post"
    and "rx_adapter_id rx = op_adapter_id o'" and "rx_checkpoint_id rx = c" and "rx_committed_side_effect_count rx = n"
  using assms unfolding make_runtime_receipt_def Let_def
  by (auto simp: st_bind_def draw_id_def read_clock_def)

lemma execute_operation_cases:
  assumes "execute_operation w who o' mode parent a identity xid at' v pre s = (r, s')"
  obtains (failed) e where "r = Inl e" and "rt_committed s' = rt_committed s"
  | (ran) x where "r = Inr x" and "rt_receipts s' = rt_receipts s @ [res_receipt x]"
      and "rx_pre_state_hash (res_receipt x) = pre" and "rx_adapter_id (res_receipt x) = op_adapter_id o'"
      and "rt_committed s' = (case identity of Some k \<Rightarrow> if mode = LIVE then dict_set k (res_receipt x) (rt_committed s)
        else rt_committed s | None \<Rightarrow> rt_committed s)"
      and "\<And>c. rx_checkpoint_id (res_receipt x) = Some c \<Longrightarrow> \<exists>ck. map_of (rt_checkpoints s') c = Some ck \<and>
        adapter_hash (op_adapter_id o') s = Inr (ck_state_hash ck)"
proof -
  let ?i = "op_adapter_id o'"
  show thesis
    using assms unfolding execute_operation_def Let_def case_prod_unfold
  proof (elim st_bindE, goal_cases)
    case (1 e)
    then show thesis using failed keepsD [OF keeps_checkpoint(2)] by blast
  next
    case (2 ck s1 e)
    then show thesis using failed keepsD [OF keeps_checkpoint(2) 2(1)] keepsD [OF keeps_run_mode(1) 2(2)] by simp
  next
    case (3 ck s1 res s2 e)
    then show thesis
      using failed keepsD [OF keeps_checkpoint(2) 3(1)] keepsD [OF keeps_run_mode(1) 3(2)] ask_adapter_same [OF 3(3)] by simp
  next
    case (4 ck s1 res s2 post s3 e)
    then show thesis by (auto elim: receipt_made)
  next
    case (5 ck s1 res s2 post s3 rx s4)
    note same = keepsD [OF keeps_checkpoint(2) 5(1)] keepsD [OF keeps_run_mode(1) 5(2)]
      keepsD [OF keeps_checkpoint(3) 5(1)] keepsD [OF keeps_run_mode(2) 5(2)] keepsD [OF keeps_run_mode(3) 5(2)]
      ask_adapter_same [OF 5(3)]
    from 5(4) have rx: "rt_receipts s4 = rt_receipts s3 @ [rx]" "rt_committed s4 = rt_committed s3" "rt_checkpoints s4 = rt_checkpoints s3"
      "rx_pre_state_hash rx = pre" "rx_adapter_id rx = ?i" "rx_checkpoint_id rx = map_option ck_checkpoint_id ck"
      by (auto elim: receipt_made)
    obtain x where x: "r = Inr x" "res_receipt x = rx" and s': "s' = (case identity of Some k \<Rightarrow>
        if mode = LIVE then s4\<lparr>rt_committed := dict_set k rx (rt_committed s4)\<rparr> else s4 | None \<Rightarrow> s4)"
      using 5(5) by auto
    show thesis
    proof (rule ran [OF x(1)])
      fix c assume "rx_checkpoint_id (res_receipt x) = Some c"
      then obtain k where k: "ck = Some k" "c = ck_checkpoint_id k" using rx(6) x(2) by auto
      show "\<exists>ck. map_of (rt_checkpoints s') c = Some ck \<and> adapter_hash ?i s = Inr (ck_state_hash ck)"
        using checkpoint_made [OF 5(1) [unfolded k(1)]] k(2) same rx(3) by (auto simp: s' split: option.split)
    qed (use same rx x s' in \<open>auto split: option.split\<close>)
  qed
qed

lemma committed_kept:
  assumes "execute w who o' grants mode parent s = (r, s')" and "map_of (rt_committed s) k = Some p"
  shows "map_of (rt_committed s') k = Some p"
  using assms(1)
proof (cases rule: execute_decides)
  case (runs identity xid at' a pre s1)
  from runs(10) show ?thesis
    by (cases rule: execute_operation_cases) (use runs(4,6) assms(2) in \<open>auto split: option.split\<close>)
qed (use assms(2) in simp_all)

text \<open>A live run whose identity is committed: the answer, in every case.\<close>

lemma committed_answer:
  assumes "execute w who o' grants LIVE parent s = (r, s')" and "idempotency_identity o' = Inr (Some k)"
    and "map_of (rt_committed s) k = Some p"
  shows "rt_adapters s' = rt_adapters s \<and>
    (case r of
       Inl e \<Rightarrow> adapter_hash (op_adapter_id o') s = Inl e \<or> LIVE \<notin> set (op_execution_modes_supported o')
     | Inr y \<Rightarrow> adapter_hash (op_adapter_id o') s = Inr (rx_pre_state_hash (res_receipt y)) \<and>
         rx_post_state_hash (res_receipt y) = rx_pre_state_hash (res_receipt y) \<and>
         rx_committed_side_effect_count (res_receipt y) = 0 \<and>
         (if ad_decision (authorize who o' grants) = GRANTED
          then res_status y = RR_ALREADY_APPLIED \<and> res_output y = [(''prior_receipt_id'', JStr (rx_receipt_id p))]
          else res_status y = RR_DENIED))"
proof (cases "find_adapter (op_adapter_id o') s")
  case (Inl e)
  then show ?thesis using assms(1)
    by (auto simp: execute_def st_bind_def draw_id_def read_clock_def st_simps adapter_hash_def find_adapter_def split: option.splits)
next
  case (Inr a)
  then have m: "map_of (rt_adapters s) (op_adapter_id o') = Some a" by (simp add: find_adapter_def split: option.splits)
  show ?thesis
  proof (cases "am_state_hash a (am_state a)")
    case (Inl e)
    then show ?thesis using assms(1) m
      by (auto simp: execute_def st_bind_def draw_id_def read_clock_def st_simps adapter_hash_def ask_adapter_def find_adapter_def)
  next
    case (Inr pre)
    have h: "adapter_hash (op_adapter_id o') s = Inr pre" using m Inr by (simp add: adapter_hash_def find_adapter_def)
    show ?thesis
      using assms m Inr h
      by (cases "LIVE \<in> set (op_execution_modes_supported o')"; cases "ad_decision (authorize who o' grants) = GRANTED")
        (auto simp: execute_def decide_operation_def make_runtime_receipt_def st_bind_def draw_id_def read_clock_def st_simps
          ask_adapter_def find_adapter_def Let_def)
  qed
qed

section \<open>Steps of a runtime\<close>

inductive rt_step :: "world \<Rightarrow> ('a, 's) macro_runtime \<Rightarrow> ('a, 's) macro_runtime \<Rightarrow> bool" for w where
  "register_adapter i a s = (r, s') \<Longrightarrow> rt_step w s s'"
| "execute w who o' grants mode parent s = (r, s') \<Longrightarrow> rt_step w s s'"
| "rollback w receipt_id s = (r, s') \<Longrightarrow> rt_step w s s'"
| "replay w who o' receipt_id grants s = (r, s') \<Longrightarrow> rt_step w s s'"

lemma keeps_rollback: "keeps rt_committed (rollback w i)"
  unfolding rollback_def Let_def
  by (auto intro!: keeps_intros split: option.splits) (auto simp: keeps_def)

lemma step_keeps_committed:
  assumes "rt_step w s s'" and "map_of (rt_committed s) k = Some p"
  shows "map_of (rt_committed s') k = Some p"
  using assms
proof (induction rule: rt_step.induct)
  case (1 i a s r s')
  then show ?case by (auto simp: register_adapter_def split: if_splits)
next
  case (2 who o' grants mode parent s r s')
  then show ?case by (blast intro: committed_kept)
next
  case (3 receipt_id s r s')
  then show ?case using keepsD [OF keeps_rollback] by metis
next
  case (4 who o' receipt_id grants s r s')
  have m: "maintains (\<lambda>s. map_of (rt_committed s) k = Some p) (execute w who o' grants REPLAY parent)" for parent
    unfolding maintains_def using committed_kept by (metis prod.collapse)
  have "maintains (\<lambda>s. map_of (rt_committed s) k = Some p) (replay w who o' receipt_id grants)"
    unfolding replay_def by (intro keeps_intros m)
  from maintainsD [OF this 4(1)] 4(2) show ?case by simp
qed

lemma steps_keep_committed:
  "(rt_step w)\<^sup>*\<^sup>* s s' \<Longrightarrow> map_of (rt_committed s) k = Some p \<Longrightarrow> map_of (rt_committed s') k = Some p"
  by (induction rule: rtranclp_induct) (auto dest: step_keeps_committed)

lemma granted_iff:
  "ad_decision (authorize who o' grants) = GRANTED \<longleftrightarrow>
     (\<forall>c \<in> set (op_required_capabilities o'). \<exists>g \<in> set grants. cg_principal_id g = who \<and> \<not> cg_revoked g \<and> cg_capability g = c)"
proof -
  have "ad_decision (authorize who o' grants) = GRANTED \<longleftrightarrow> (\<forall>c \<in> set (op_required_capabilities o').
      c \<in> cg_capability ` {g \<in> set grants. cg_principal_id g = who \<and> \<not> cg_revoked g})"
    by (simp add: authorize_def Let_def filter_empty_conv)
  moreover have "c \<in> cg_capability ` {g \<in> set grants. cg_principal_id g = who \<and> \<not> cg_revoked g} \<longleftrightarrow>
      (\<exists>g \<in> set grants. cg_principal_id g = who \<and> \<not> cg_revoked g \<and> cg_capability g = c)" for c by auto
  ultimately show ?thesis by (simp only:)
qed

text \<open>A live run that succeeded, with an identity.\<close>

lemma live_success:
  assumes "execute w who o' grants LIVE parent s = (Inr x, s')" and "res_status x = RR_SUCCEEDED"
    and "idempotency_identity o' = Inr (Some k)"
  shows "map_of (rt_committed s') k = Some (res_receipt x)"
    and "LIVE \<in> set (op_execution_modes_supported o')" and "ad_decision (authorize who o' grants) = GRANTED"
    and "rt_receipts s' = rt_receipts s @ [res_receipt x]" and "rx_adapter_id (res_receipt x) = op_adapter_id o'"
    and "rx_checkpoint_id (res_receipt x) = Some c \<Longrightarrow>
      \<exists>ck. map_of (rt_checkpoints s') c = Some ck \<and> ck_state_hash ck = rx_pre_state_hash (res_receipt x)"
proof -
  from assms(1) have "map_of (rt_committed s') k = Some (res_receipt x) \<and> LIVE \<in> set (op_execution_modes_supported o')
    \<and> ad_decision (authorize who o' grants) = GRANTED \<and> rt_receipts s' = rt_receipts s @ [res_receipt x]
    \<and> rx_adapter_id (res_receipt x) = op_adapter_id o'
    \<and> (rx_checkpoint_id (res_receipt x) = Some c \<longrightarrow>
      (\<exists>ck. map_of (rt_checkpoints s') c = Some ck \<and> ck_state_hash ck = rx_pre_state_hash (res_receipt x)))"
  proof (cases rule: execute_decides)
    case (runs identity xid at' a pre s1)
    have i: "identity = Some k" using runs(3) assms(3) by simp
    have h: "adapter_hash (op_adapter_id o') s1 = Inr pre" using runs(5,8,9) by (simp add: adapter_hash_def find_adapter_def)
    from runs(10) show ?thesis
    proof (cases rule: execute_operation_cases)
      case (ran y)
      then show ?thesis using runs(1,2,7) i h by auto
    qed simp
  qed (use assms(2) in simp_all)
  then show "map_of (rt_committed s') k = Some (res_receipt x)"
    and "LIVE \<in> set (op_execution_modes_supported o')" and "ad_decision (authorize who o' grants) = GRANTED"
    and "rt_receipts s' = rt_receipts s @ [res_receipt x]" and "rx_adapter_id (res_receipt x) = op_adapter_id o'"
    and "rx_checkpoint_id (res_receipt x) = Some c \<Longrightarrow>
      \<exists>ck. map_of (rt_checkpoints s') c = Some ck \<and> ck_state_hash ck = rx_pre_state_hash (res_receipt x)"
    by blast+
qed

lemma find_fresh: "i \<notin> f ` set xs \<Longrightarrow> f x = i \<Longrightarrow> find (\<lambda>y. f y = i) (xs @ [x]) = Some x"
  by (induction xs) auto

text \<open>A rollback that succeeded restored the state hash of the checkpoint, and touched no commitment.\<close>

lemma rollback_restores:
  assumes "rollback w i s = (Inr y, s')" and "find (\<lambda>r. rx_receipt_id r = i) (rt_receipts s) = Some original"
  obtains c ck where "rx_checkpoint_id original = Some c" and "map_of (rt_checkpoints s) c = Some ck"
    and "adapter_hash (rx_adapter_id original) s' = Inr (ck_state_hash ck)" and "rx_post_state_hash y = ck_state_hash ck"
    and "rt_committed s' = rt_committed s"
proof -
  have f: "find_receipt i s = Inr original" using assms(2) by (simp add: find_receipt_def)
  obtain c where c: "rx_checkpoint_id original = Some c"
    using assms(1) f by (cases "rx_checkpoint_id original") (simp_all add: rollback_def st_bind_def st_simps)
  obtain ck where ck: "map_of (rt_checkpoints s) c = Some ck"
    using assms(1) f c by (cases "map_of (rt_checkpoints s) c") (simp_all add: rollback_def Let_def st_bind_def st_simps find_checkpoint_def)
  have "adapter_hash (rx_adapter_id original) s' = Inr (ck_state_hash ck) \<and> rx_post_state_hash y = ck_state_hash ck"
    using assms(1) unfolding rollback_def Let_def
    by (auto elim!: st_bindE split: if_splits
        simp: st_simps f c ck find_checkpoint_def ask_adapter_def adapter_hash_def find_adapter_def draw_id_def read_clock_def)
  then show thesis using that c ck keepsD [OF keeps_rollback assms(1)] by blast
qed

section \<open>A concrete runtime\<close>

definition sample_world :: world where
  "sample_world = \<lparr>w_uuid = show_nat, w_now = (\<lambda>n. sample_time 5)\<rparr>"

definition sample_operation :: operation where
  "sample_operation = \<lparr>op_operation_id = ''write'', op_operation_version = ''1'', op_adapter_id = ''memory.state'',
     op_action = ''set'', op_inputs = [(''key'', JStr ''k''), (''value'', JInt 1)], op_required_capabilities = [''state.write''],
     op_execution_modes_supported = [LIVE, DRY_RUN], op_idempotency_class = IDEMPOTENT, op_replay_class = DETERMINISTIC,
     op_rollback_class = REVERSIBLE, op_side_effect_class = LOCAL_REVERSIBLE, op_idempotency_key = Some ''once''\<rparr>"

definition sample_capability_grant :: capability_grant where
  "sample_capability_grant = \<lparr>cg_grant_id = ''g'', cg_principal_id = ''alice'', cg_capability = ''state.write'', cg_scope = ''*'',
     cg_constraints = [], cg_issued_by = ''operator'', cg_issued_at = [], cg_expires_at = Some (sample_time 1), cg_revoked = False\<rparr>"

definition sample_runtime :: "(memory_state, json) macro_runtime" where
  "sample_runtime = \<lparr>rt_adapters = [(''memory.state'', memory_adapter)], rt_receipts = [], rt_committed = [],
     rt_checkpoints = [], rt_uuids = 0, rt_reads = 0\<rparr>"

abbreviation sample_run :: "((memory_state, json) macro_runtime, execution_result) action" where
  "sample_run \<equiv> execute sample_world ''alice'' sample_operation [sample_capability_grant] LIVE None"

text \<open>What the state of the only adapter of a runtime holds.\<close>

definition memory_of :: "(memory_state, json) macro_runtime \<Rightarrow> (string \<times> json) list" where
  "memory_of s = (case rt_adapters s of (_, a) # _ \<Rightarrow> ms_state (am_state a) | [] \<Rightarrow> [])"

lemmas execute_defs = execute_def decide_operation_def execute_operation_def run_mode_def create_checkpoint_def
  make_runtime_receipt_def ask_adapter_def call_adapter_def find_adapter_def draw_id_def read_clock_def authorize_def
  idempotency_identity_def st_bind_def st_simps

lemmas memory_defs = memory_adapter_def ms_state_hash_def ms_snapshot_def ms_restore_def ms_execute_def ms_apply_def

lemma sample_first_run:
  "\<exists>x s1. sample_run sample_runtime = (Inr x, s1) \<and> res_status x = RR_SUCCEEDED \<and> memory_of s1 = [(''k'', JInt 1)]"
  by (simp add: execute_defs memory_defs Let_def sample_runtime_def sample_operation_def sample_capability_grant_def
      sample_world_def memory_of_def)


section \<open>Properties\<close>

text \<open>C27: An operation reaches its adapter only when it is authorised: if \<open>execute\<close> touched an adapter, the
  mode is one the operation supports, every capability it requires is the capability of a grant of
  this principal that is not revoked, and, in a live run, the operation was not committed before.\<close>

theorem adapter_reached_only_if_authorized:
  assumes "execute w who o' grants mode parent s = (r, s')" and "rt_adapters s' \<noteq> rt_adapters s"
  shows "mode \<in> set (op_execution_modes_supported o')
    \<and> (\<forall>c \<in> set (op_required_capabilities o'). \<exists>g \<in> set grants. cg_principal_id g = who \<and> \<not> cg_revoked g \<and> cg_capability g = c)
    \<and> (mode = LIVE \<longrightarrow> (\<forall>k. idempotency_identity o' = Ok (Some k) \<longrightarrow> map_of (rt_committed s) k = None))"
  using assms(1) by (cases rule: execute_decides) (use assms(2) in \<open>auto simp: granted_iff\<close>)

theorem adapter_reached_only_if_authorized_witness:
  "\<exists>r s'. sample_run sample_runtime = (r, s') \<and> rt_adapters s' \<noteq> rt_adapters sample_runtime \<and>
     (\<exists>g \<in> {sample_capability_grant}. cg_principal_id g = ''alice'' \<and> \<not> cg_revoked g \<and> cg_capability g = ''state.write'')"
proof -
  obtain x s1 where x: "sample_run sample_runtime = (Inr x, s1)" and m: "memory_of s1 = [(''k'', JInt 1)]"
    using sample_first_run by blast
  have "rt_adapters s1 \<noteq> rt_adapters sample_runtime"
    using m by (auto simp: memory_of_def sample_runtime_def memory_adapter_def)
  from adapter_reached_only_if_authorized [OF x this] have
    "\<exists>g \<in> set [sample_capability_grant]. cg_principal_id g = ''alice'' \<and> \<not> cg_revoked g \<and> cg_capability g = ''state.write''"
    by (simp add: sample_operation_def)
  with x \<open>rt_adapters s1 \<noteq> _\<close> show ?thesis by auto
qed

text \<open>C28: An idempotent operation takes effect once: after a live run that succeeded, whatever the runtime does
  in between (registrations, runs, rollbacks, replays), a live run with the same idempotency identity does
  not touch any adapter and commits no effect; when its principal is granted the capabilities it is answered
  from the receipt of the first run, whose id it cites, and when not it is denied.  It raises only when
  the adapter is unknown, its state hash fails, or the operation does not support live runs.\<close>

theorem idempotent_operation_applied_once:
  assumes "execute w who o' grants LIVE parent s = (Ok x, s1)" and "res_status x = RR_SUCCEEDED"
    and "idempotency_identity o' = Ok (Some k)" and "(rt_step w)\<^sup>*\<^sup>* s1 s2"
    and "idempotency_identity o2 = Ok (Some k)" and "execute w who2 o2 grants2 LIVE parent2 s2 = (r, s3)"
  shows "rt_adapters s3 = rt_adapters s2 \<and>
    (case r of
       Inl e \<Rightarrow> adapter_hash (op_adapter_id o2) s2 = Inl e \<or> LIVE \<notin> set (op_execution_modes_supported o2)
     | Inr y \<Rightarrow> adapter_hash (op_adapter_id o2) s2 = Ok (rx_pre_state_hash (res_receipt y)) \<and>
         rx_post_state_hash (res_receipt y) = rx_pre_state_hash (res_receipt y) \<and>
         rx_committed_side_effect_count (res_receipt y) = 0 \<and>
         (if ad_decision (authorize who2 o2 grants2) = GRANTED
          then res_status y = RR_ALREADY_APPLIED \<and> res_output y = [(''prior_receipt_id'', JStr (rx_receipt_id (res_receipt x)))]
          else res_status y = RR_DENIED))"
  by (rule committed_answer [OF assms(6,5) steps_keep_committed [OF assms(4) live_success(1) [OF assms(1-3)]]])

theorem idempotent_operation_applied_once_witness:
  "\<exists>x s1 s2 r s3. sample_run sample_runtime = (Ok x, s1) \<and> (rt_step sample_world)\<^sup>*\<^sup>* s1 s2 \<and> s2 \<noteq> s1 \<and>
     sample_run s2 = (Ok r, s3) \<and> rt_adapters s3 = rt_adapters s2 \<and> res_status r = RR_ALREADY_APPLIED \<and>
     res_output r = [(''prior_receipt_id'', JStr (rx_receipt_id (res_receipt x)))]"
proof -
  obtain x s1 where x: "sample_run sample_runtime = (Inr x, s1)" "res_status x = RR_SUCCEEDED"
    using sample_first_run by blast
  have k: "idempotency_identity sample_operation = Inr (Some (canonical_sha256 (JObj
      [(''operation_id'', JStr ''write''), (''operation_version'', JStr ''1''),
       (''input_hash'', JStr (input_hash sample_operation)), (''idempotency_key'', JStr ''once'')])))"
    by (simp add: idempotency_identity_def sample_operation_def)
  define s2 where "s2 = snd (register_adapter ''other'' memory_adapter s1)"
  have "rt_step sample_world s1 s2"
    unfolding s2_def by (rule rt_step.intros(1)) (rule prod.collapse [symmetric])
  then have steps: "(rt_step sample_world)\<^sup>*\<^sup>* s1 s2" by blast
  have new: "''other'' \<notin> fst ` set (rt_adapters s1)"
    using x(1) by (auto simp: execute_defs memory_defs Let_def sample_runtime_def sample_operation_def
        sample_capability_grant_def sample_world_def)
  then have "''other'' \<in> fst ` set (rt_adapters s2)" by (simp add: s2_def register_adapter_def)
  then have "s2 \<noteq> s1" using new by blast
  obtain r s3 where r: "sample_run s2 = (r, s3)" by fastforce
  note once = idempotent_operation_applied_once [OF x k steps k r]
  have g: "ad_decision (authorize ''alice'' sample_operation [sample_capability_grant]) = GRANTED"
    by (simp add: granted_iff sample_operation_def sample_capability_grant_def)
  have live: "LIVE \<in> set (op_execution_modes_supported sample_operation)" by (simp add: sample_operation_def)
  have "\<exists>h. adapter_hash (op_adapter_id sample_operation) s2 = Inr h"
    using x(1) by (auto simp: s2_def register_adapter_def adapter_hash_def execute_defs memory_defs Let_def sample_runtime_def
        sample_operation_def sample_capability_grant_def sample_world_def)
  then obtain y where "r = Inr y" using once live by (cases r) auto
  then show ?thesis using x steps \<open>s2 \<noteq> s1\<close> r once g by auto
qed

text \<open>C34: Rolling an operation back does not take back its commitment, for every operation, adapter and
  runtime: when a live run of an operation with an idempotency identity succeeded and gave its receipt a fresh
  id, and the rollback of that receipt succeeded, the adapter has the state hash from before the run, and yet
  the same run is answered as already applied, citing the receipt that was rolled back, and
  leaves the adapters, and that state hash, as they are.\<close>

theorem rolled_back_operation_stays_committed:
  assumes "execute w who o' grants LIVE parent s = (Ok x, s1)" and "res_status x = RR_SUCCEEDED"
    and "idempotency_identity o' = Ok (Some k)"
    and "rx_receipt_id (res_receipt x) \<notin> rx_receipt_id ` set (rt_receipts s)"
    and "rollback w (rx_receipt_id (res_receipt x)) s1 = (Ok y, s2)"
  shows "rx_post_state_hash y = rx_pre_state_hash (res_receipt x) \<and>
    adapter_hash (op_adapter_id o') s2 = Ok (rx_pre_state_hash (res_receipt x)) \<and>
    (\<exists>z s3. execute w who o' grants LIVE parent2 s2 = (Ok z, s3) \<and> res_status z = RR_ALREADY_APPLIED \<and>
       res_output z = [(''prior_receipt_id'', JStr (rx_receipt_id (res_receipt x)))] \<and> rt_adapters s3 = rt_adapters s2 \<and>
       rx_post_state_hash (res_receipt z) = rx_pre_state_hash (res_receipt x))"
proof -
  note run = live_success [OF assms(1-3)]
  have "find (\<lambda>r. rx_receipt_id r = rx_receipt_id (res_receipt x)) (rt_receipts s1) = Some (res_receipt x)"
    unfolding run(4) by (rule find_fresh [OF assms(4) refl])
  then obtain c ck where ck: "rx_checkpoint_id (res_receipt x) = Some c" "map_of (rt_checkpoints s1) c = Some ck"
    and h: "adapter_hash (op_adapter_id o') s2 = Inr (ck_state_hash ck)" and y: "rx_post_state_hash y = ck_state_hash ck"
    and com: "rt_committed s2 = rt_committed s1"
    using rollback_restores [OF assms(5)] run(5) by metis
  have pre: "ck_state_hash ck = rx_pre_state_hash (res_receipt x)" using run(6) [OF ck(1)] ck(2) by auto
  obtain r s3 where r: "execute w who o' grants LIVE parent2 s2 = (r, s3)" by fastforce
  have "map_of (rt_committed s2) k = Some (res_receipt x)" using run(1) com by simp
  note again = committed_answer [OF r assms(3) this]
  then obtain z where "r = Inr z" using h run(2) by (cases r) auto
  then show ?thesis using again h y pre run(3) r by auto
qed

theorem rolled_back_operation_stays_committed_witness:
  "\<exists>x s1 y s2 z s3. sample_run sample_runtime = (Ok x, s1) \<and> memory_of s1 = [(''k'', JInt 1)] \<and>
     rollback sample_world (rx_receipt_id (res_receipt x)) s1 = (Ok y, s2) \<and> memory_of s2 = [] \<and>
     sample_run s2 = (Ok z, s3) \<and> res_status z = RR_ALREADY_APPLIED \<and> rt_adapters s3 = rt_adapters s2"
proof -
  obtain x s1 y s2 where x: "sample_run sample_runtime = (Ok x, s1)" "res_status x = RR_SUCCEEDED" "memory_of s1 = [(''k'', JInt 1)]"
    and y: "rollback sample_world (rx_receipt_id (res_receipt x)) s1 = (Ok y, s2)" "memory_of s2 = []"
  proof -
    have "\<exists>x s1 y s2. sample_run sample_runtime = (Ok x, s1) \<and> res_status x = RR_SUCCEEDED \<and> memory_of s1 = [(''k'', JInt 1)] \<and>
       rollback sample_world (rx_receipt_id (res_receipt x)) s1 = (Ok y, s2) \<and> memory_of s2 = []"
      by (simp add: execute_defs rollback_def find_receipt_def find_checkpoint_def memory_defs Let_def sample_runtime_def
          sample_operation_def sample_capability_grant_def sample_world_def memory_of_def)
    then show thesis using that by blast
  qed
  have k: "\<exists>k. idempotency_identity sample_operation = Inr (Some k)" by (simp add: idempotency_identity_def sample_operation_def)
  then obtain k where k: "idempotency_identity sample_operation = Inr (Some k)" ..
  have "rx_receipt_id (res_receipt x) \<notin> rx_receipt_id ` set (rt_receipts sample_runtime)" by (simp add: sample_runtime_def)
  from rolled_back_operation_stays_committed [OF x(1,2) k this y(1), of None] x y show ?thesis by blast
qed

text \<open>Authorisation looks at neither the expiry nor the scope nor the constraints of a grant: changing
  them in every grant leaves the decision as it is.\<close>

theorem authorization_ignores_expiry_and_scope:
  "authorize who o' (map (\<lambda>g. g\<lparr>cg_expires_at := expiry g, cg_scope := scope g, cg_constraints := constraints g\<rparr>) grants)
    = authorize who o' grants"
  by (simp add: authorize_def Let_def filter_map o_def image_image)

end
