(* ===== verification/Macro_Graph.thy ===== *)
theory Macro_Graph
  imports Macro_Runtime Reality_Ledger
begin

text \<open>
  \<open>phios/macro_graph.py\<close>: macro definitions, trees of steps, and the planner that checks a definition
  and compiles it to a flat list of instructions.

  A step class is a constructor of \<open>macro_step\<close>; the arguments of a \<open>CallStep\<close> are a dict.  An
  instruction carries its position, the path of its step and the digest of its step's payload: the
  runner finds the end of a block by that digest.
\<close>

definition MACRO_DEFINITION_SCHEMA_VERSION :: string where
  "MACRO_DEFINITION_SCHEMA_VERSION = ''phios.macro_definition.v0.3''"

definition MACRO_PLAN_SCHEMA_VERSION :: string where
  "MACRO_PLAN_SCHEMA_VERSION = ''phios.macro_plan.v0.3''"

definition MAX_NESTING_DEPTH :: nat where "MAX_NESTING_DEPTH = 32"
definition MAX_STATIC_STEPS :: nat where "MAX_STATIC_STEPS = 4096"
definition MAX_LOOP_ITERATIONS :: int where "MAX_LOOP_ITERATIONS = 10000"
definition MAX_FOREACH_ITEMS :: int where "MAX_FOREACH_ITEMS = 10000"

datatype plan_opcode =
    Op_DO | Op_IF_BEGIN | Op_ELSE | Op_IF_END | Op_LOOP_BEGIN | Op_LOOP_END | Op_FOREACH_BEGIN | Op_FOREACH_END
  | Op_CALL | Op_CHECKPOINT | Op_APPROVE

fun opcode_value :: "plan_opcode \<Rightarrow> string" where
  "opcode_value Op_DO = ''DO''"
| "opcode_value Op_IF_BEGIN = ''IF_BEGIN''"
| "opcode_value Op_ELSE = ''ELSE''"
| "opcode_value Op_IF_END = ''IF_END''"
| "opcode_value Op_LOOP_BEGIN = ''LOOP_BEGIN''"
| "opcode_value Op_LOOP_END = ''LOOP_END''"
| "opcode_value Op_FOREACH_BEGIN = ''FOREACH_BEGIN''"
| "opcode_value Op_FOREACH_END = ''FOREACH_END''"
| "opcode_value Op_CALL = ''CALL''"
| "opcode_value Op_CHECKPOINT = ''CHECKPOINT''"
| "opcode_value Op_APPROVE = ''APPROVE''"

definition mg_require_text :: "string \<Rightarrow> string \<Rightarrow> nat \<Rightarrow> unit result" where
  "mg_require_text s field maximum = discard (require_text MacroGraphContractError (JStr s) field maximum)"

definition validate_canonical_names :: "string list \<Rightarrow> string \<Rightarrow> bool \<Rightarrow> unit result" where
  "validate_canonical_names xs field allow_empty = macro_names MacroGraphContractError xs field 256 allow_empty"

section \<open>Steps\<close>

datatype macro_step =
    DoStep operation
  | IfStep string "macro_step list" "macro_step list"
  | LoopStep string int "macro_step list"
  | ForEachStep string string int "macro_step list"
  | CallStep string string "(string \<times> json) list"
  | CheckpointStep string
  | ApproveStep string "string list" string

fun step_payload :: "macro_step \<Rightarrow> json" where
  "step_payload (DoStep o') = JObj
     [(''kind'', JStr ''DO''), (''operation_id'', JStr (op_operation_id o')),
      (''operation_version'', JStr (op_operation_version o')), (''operation_hash'', JStr (operation_hash o')),
      (''adapter_id'', JStr (op_adapter_id o')), (''action'', JStr (op_action o')),
      (''required_capabilities'', jstrs (op_required_capabilities o'))]"
| "step_payload (IfStep c t e) = JObj
     [(''kind'', JStr ''IF''), (''condition_id'', JStr c), (''then_steps'', JList (map step_payload t)),
      (''else_steps'', JList (map step_payload e))]"
| "step_payload (LoopStep i n b) = JObj
     [(''kind'', JStr ''LOOP''), (''loop_id'', JStr i), (''max_iterations'', JInt n), (''body'', JList (map step_payload b))]"
| "step_payload (ForEachStep i c n b) = JObj
     [(''kind'', JStr ''FOREACH''), (''item_name'', JStr i), (''collection_ref'', JStr c), (''max_items'', JInt n),
      (''body'', JList (map step_payload b))]"
| "step_payload (CallStep i v args) = JObj
     [(''kind'', JStr ''CALL''), (''macro_id'', JStr i), (''macro_version'', JStr v), (''arguments'', JObj args),
      (''arguments_sha256'', JStr (canonical_sha256 (JObj args)))]"
| "step_payload (CheckpointStep l) = JObj [(''kind'', JStr ''CHECKPOINT''), (''label'', JStr l)]"
| "step_payload (ApproveStep b cs r) = JObj
     [(''kind'', JStr ''APPROVE''), (''barrier_id'', JStr b), (''required_capabilities'', jstrs cs), (''reason'', JStr r)]"

definition source_hash :: "macro_step \<Rightarrow> string" where
  "source_hash st = canonical_sha256 (step_payload st)"

section \<open>Definitions and plans\<close>

record macro_definition =
  md_macro_id :: string
  md_macro_version :: string
  md_steps :: "macro_step list"
  md_parameters :: "string list"
  md_operational_authority :: bool
  md_action_authority :: bool
  md_execution_authority :: bool
  md_schema_version :: string

definition md_init :: "macro_definition \<Rightarrow> macro_definition result" where
  "md_init d = validated
     [ensure (md_schema_version d = MACRO_DEFINITION_SCHEMA_VERSION) MacroGraphContractError ''unsupported macro definition schema'',
      mg_require_text (md_macro_id d) ''macro_id'' 256,
      mg_require_text (md_macro_version d) ''macro_version'' 128,
      validate_canonical_names (md_parameters d) ''parameters'' True,
      ensure (\<not> (md_operational_authority d \<or> md_action_authority d \<or> md_execution_authority d)) MacroGraphContractError
        ''MacroDefinition cannot carry authority''] d"

definition md_body :: "macro_definition \<Rightarrow> (string \<times> json) list" where
  "md_body d =
     [(''schema_version'', JStr (md_schema_version d)),
      (''macro_id'', JStr (md_macro_id d)),
      (''macro_version'', JStr (md_macro_version d)),
      (''parameters'', jstrs (md_parameters d)),
      (''steps'', JList (map step_payload (md_steps d))),
      (''operational_authority'', JBool (md_operational_authority d)),
      (''action_authority'', JBool (md_action_authority d)),
      (''execution_authority'', JBool (md_execution_authority d))]"

definition definition_sha256 :: "macro_definition \<Rightarrow> string" where
  "definition_sha256 d = canonical_sha256 (JObj (md_body d))"

definition md_to_dict :: "macro_definition \<Rightarrow> json" where
  "md_to_dict d = sealed_dict ''definition_sha256'' (md_body d)"

text \<open>The index of an instruction is \<open>len(emitted)\<close>, so a natural number.\<close>

record plan_instruction =
  pi_index :: nat
  pi_path :: string
  pi_opcode :: plan_opcode
  pi_payload :: "(string \<times> json) list"
  pi_source_step_sha256 :: string
  pi_operational_authority :: bool
  pi_action_authority :: bool
  pi_execution_authority :: bool

definition pi_init :: "plan_instruction \<Rightarrow> plan_instruction result" where
  "pi_init i = validated
     [mg_require_text (pi_path i) ''instruction path'' 512,
      ensure (\<not> (pi_operational_authority i \<or> pi_action_authority i \<or> pi_execution_authority i)) MacroGraphContractError
        ''planned instructions cannot carry authority''] i"

definition pi_to_dict :: "plan_instruction \<Rightarrow> json" where
  "pi_to_dict i = JObj
     [(''index'', JInt (int (pi_index i))), (''path'', JStr (pi_path i)), (''opcode'', JStr (opcode_value (pi_opcode i))),
      (''payload'', JObj (pi_payload i)), (''source_step_sha256'', JStr (pi_source_step_sha256 i)),
      (''operational_authority'', JBool (pi_operational_authority i)),
      (''action_authority'', JBool (pi_action_authority i)), (''execution_authority'', JBool (pi_execution_authority i))]"

record macro_plan =
  pl_macro_id :: string
  pl_macro_version :: string
  pl_definition_sha256 :: string
  pl_instructions :: "plan_instruction list"
  pl_operational_authority :: bool
  pl_action_authority :: bool
  pl_execution_authority :: bool
  pl_schema_version :: string

text \<open>\<open>int(text, 16)\<close> strips white space and reads either case.\<close>

definition pl_init :: "macro_plan \<Rightarrow> macro_plan result" where
  "pl_init p = validated
     [ensure (pl_schema_version p = MACRO_PLAN_SCHEMA_VERSION) MacroGraphContractError ''unsupported macro plan schema'',
      mg_require_text (pl_macro_id p) ''macro_id'' 256,
      mg_require_text (pl_macro_version p) ''macro_version'' 128,
      ensure (length (pl_definition_sha256 p) = 64) MacroGraphContractError ''definition_sha256 must be a SHA-256 digest'',
      ensure (int16_accepts (lower (strip (pl_definition_sha256 p)))) MacroGraphContractError
        ''definition_sha256 must be a SHA-256 digest'',
      ensure (\<not> (pl_operational_authority p \<or> pl_action_authority p \<or> pl_execution_authority p)) MacroGraphContractError
        ''MacroPlan cannot carry authority''] p"

definition pl_body :: "macro_plan \<Rightarrow> (string \<times> json) list" where
  "pl_body p =
     [(''schema_version'', JStr (pl_schema_version p)),
      (''macro_id'', JStr (pl_macro_id p)),
      (''macro_version'', JStr (pl_macro_version p)),
      (''definition_sha256'', JStr (pl_definition_sha256 p)),
      (''instructions'', JList (map pi_to_dict (pl_instructions p))),
      (''operational_authority'', JBool (pl_operational_authority p)),
      (''action_authority'', JBool (pl_action_authority p)),
      (''execution_authority'', JBool (pl_execution_authority p))]"

definition plan_sha256 :: "macro_plan \<Rightarrow> string" where
  "plan_sha256 p = canonical_sha256 (JObj (pl_body p))"

definition pl_to_dict :: "macro_plan \<Rightarrow> json" where
  "pl_to_dict p = sealed_dict ''plan_sha256'' (pl_body p)"

section \<open>Validation\<close>

definition validate_operation :: "operation \<Rightarrow> unit result" where
  "validate_operation o' = first_error
     [mg_require_text (op_operation_id o') ''operation_id'' 256,
      mg_require_text (op_operation_version o') ''operation_version'' 128,
      mg_require_text (op_adapter_id o') ''adapter_id'' 256,
      mg_require_text (op_action o') ''action'' 256]"

definition validate_bound :: "int \<Rightarrow> string \<Rightarrow> int \<Rightarrow> unit result" where
  "validate_bound v field maximum = ensure (1 \<le> v \<and> v \<le> maximum) MacroGraphContractError
     (field @ '' must be between 1 and '' @ show_int maximum)"

text \<open>
  \<open>validate_step\<close> is one round of the loop of \<open>_validate_steps\<close> and answers how many steps are nested in
  the step; \<open>validate_steps\<close> is the loop, with the count so far; \<open>check_depth\<close> is the guard in front
  of it.
\<close>

definition check_depth :: "nat \<Rightarrow> unit result" where
  "check_depth depth = ensure (depth \<le> MAX_NESTING_DEPTH) MacroGraphContractError
     (''macro nesting exceeds '' @ show_nat MAX_NESTING_DEPTH)"

definition check_count :: "nat \<Rightarrow> unit result" where
  "check_count n = ensure (n \<le> MAX_STATIC_STEPS) MacroGraphContractError
     (''macro definition exceeds '' @ show_nat MAX_STATIC_STEPS @ '' static steps'')"

fun validate_step :: "nat \<Rightarrow> macro_step \<Rightarrow> nat result"
  and validate_steps :: "nat \<Rightarrow> nat \<Rightarrow> macro_step list \<Rightarrow> nat result" where
  "validate_step depth (DoStep o') = rbind (validate_operation o') (\<lambda>_. Ok 0)"
| "validate_step depth (IfStep c t e) =
     rbind (first_error
       [mg_require_text c ''condition_id'' 256,
        ensure (t \<noteq> []) MacroGraphContractError ''IF requires a non-empty then branch'',
        check_depth (Suc depth)]) (\<lambda>_.
     rbind (validate_steps (Suc depth) 0 t) (\<lambda>n.
     rbind (check_depth (Suc depth)) (\<lambda>_.
     rbind (validate_steps (Suc depth) 0 e) (\<lambda>k. Ok (n + k)))))"
| "validate_step depth (LoopStep i n b) =
     rbind (first_error
       [mg_require_text i ''loop_id'' 256,
        validate_bound n ''max_iterations'' MAX_LOOP_ITERATIONS,
        ensure (b \<noteq> []) MacroGraphContractError ''LOOP requires a non-empty body'',
        check_depth (Suc depth)]) (\<lambda>_. validate_steps (Suc depth) 0 b)"
| "validate_step depth (ForEachStep i c n b) =
     rbind (first_error
       [mg_require_text i ''item_name'' 256,
        mg_require_text c ''collection_ref'' 256,
        validate_bound n ''max_items'' MAX_FOREACH_ITEMS,
        ensure (b \<noteq> []) MacroGraphContractError ''FOREACH requires a non-empty body'',
        check_depth (Suc depth)]) (\<lambda>_. validate_steps (Suc depth) 0 b)"
| "validate_step depth (CallStep i v args) =
     rbind (first_error [mg_require_text i ''called macro_id'' 256, mg_require_text v ''called macro_version'' 128]) (\<lambda>_. Ok 0)"
| "validate_step depth (CheckpointStep l) = rbind (mg_require_text l ''checkpoint label'' 256) (\<lambda>_. Ok 0)"
| "validate_step depth (ApproveStep b cs r) =
     rbind (first_error
       [mg_require_text b ''approval barrier_id'' 256,
        mg_require_text r ''approval reason'' 512,
        validate_canonical_names cs ''approval required_capabilities'' False]) (\<lambda>_. Ok 0)"
| "validate_steps depth seen [] = Ok seen"
| "validate_steps depth seen (st # rest) =
     rbind (validate_step depth st) (\<lambda>n.
     rbind (check_count (seen + 1 + n)) (\<lambda>_.
     validate_steps depth (seen + 1 + n) rest))"

definition validate_definition :: "macro_definition \<Rightarrow> unit result" where
  "validate_definition d =
     rbind (ensure (md_steps d \<noteq> []) MacroGraphContractError ''macro definition requires at least one step'') (\<lambda>_.
     rbind (check_depth 0) (\<lambda>_.
     rbind (validate_steps 0 0 (md_steps d)) (\<lambda>seen. check_count seen)))"

section \<open>Compilation\<close>

definition append_instruction ::
  "string \<Rightarrow> plan_opcode \<Rightarrow> (string \<times> json) list \<Rightarrow> string \<Rightarrow> plan_instruction list \<Rightarrow> plan_instruction list result" where
  "append_instruction path opcode payload source emitted =
     rbind (pi_init \<lparr>pi_index = length emitted, pi_path = path, pi_opcode = opcode, pi_payload = payload,
       pi_source_step_sha256 = source, pi_operational_authority = False, pi_action_authority = False,
       pi_execution_authority = False\<rparr>) (\<lambda>i. Ok (emitted @ [i]))"

definition operation_payload :: "operation \<Rightarrow> (string \<times> json) list" where
  "operation_payload o' =
     [(''operation_id'', JStr (op_operation_id o')), (''operation_version'', JStr (op_operation_version o')),
      (''operation_hash'', JStr (operation_hash o')), (''adapter_id'', JStr (op_adapter_id o')),
      (''action'', JStr (op_action o')), (''required_capabilities'', jstrs (op_required_capabilities o'))]"

fun emit_step :: "string \<Rightarrow> macro_step \<Rightarrow> plan_instruction list \<Rightarrow> plan_instruction list result"
  and emit_steps :: "string \<Rightarrow> nat \<Rightarrow> macro_step list \<Rightarrow> plan_instruction list \<Rightarrow> plan_instruction list result" where
  "emit_step path (DoStep o') emitted =
     append_instruction path Op_DO (operation_payload o') (source_hash (DoStep o')) emitted"
| "emit_step path (IfStep c t e) emitted =
     (let h = source_hash (IfStep c t e); payload = [(''condition_id'', JStr c)] in
      rbind (append_instruction path Op_IF_BEGIN payload h emitted) (\<lambda>emitted.
      rbind (emit_steps (path @ ''.then'') 0 t emitted) (\<lambda>emitted.
      rbind (append_instruction (path @ ''.else'') Op_ELSE payload h emitted) (\<lambda>emitted.
      rbind (emit_steps (path @ ''.else'') 0 e emitted) (\<lambda>emitted.
      append_instruction (path @ ''.end'') Op_IF_END payload h emitted)))))"
| "emit_step path (LoopStep i n b) emitted =
     (let h = source_hash (LoopStep i n b); payload = [(''loop_id'', JStr i), (''max_iterations'', JInt n)] in
      rbind (append_instruction path Op_LOOP_BEGIN payload h emitted) (\<lambda>emitted.
      rbind (emit_steps (path @ ''.body'') 0 b emitted) (\<lambda>emitted.
      append_instruction (path @ ''.end'') Op_LOOP_END payload h emitted)))"
| "emit_step path (ForEachStep i c n b) emitted =
     (let h = source_hash (ForEachStep i c n b);
          payload = [(''item_name'', JStr i), (''collection_ref'', JStr c), (''max_items'', JInt n)] in
      rbind (append_instruction path Op_FOREACH_BEGIN payload h emitted) (\<lambda>emitted.
      rbind (emit_steps (path @ ''.body'') 0 b emitted) (\<lambda>emitted.
      append_instruction (path @ ''.end'') Op_FOREACH_END payload h emitted)))"
| "emit_step path (CallStep i v args) emitted =
     append_instruction path Op_CALL
       [(''macro_id'', JStr i), (''macro_version'', JStr v), (''arguments'', JObj args),
        (''arguments_sha256'', JStr (canonical_sha256 (JObj args)))] (source_hash (CallStep i v args)) emitted"
| "emit_step path (CheckpointStep l) emitted =
     append_instruction path Op_CHECKPOINT [(''label'', JStr l)] (source_hash (CheckpointStep l)) emitted"
| "emit_step path (ApproveStep b cs r) emitted =
     append_instruction path Op_APPROVE
       [(''barrier_id'', JStr b), (''required_capabilities'', jstrs cs), (''reason'', JStr r),
        (''grants_authority'', JBool False)] (source_hash (ApproveStep b cs r)) emitted"
| "emit_steps base i [] emitted = Ok emitted"
| "emit_steps base i (st # rest) emitted =
     rbind (emit_step (base @ ''.'' @ show_nat i) st emitted) (\<lambda>emitted. emit_steps base (Suc i) rest emitted)"

definition make_plan :: "macro_definition \<Rightarrow> macro_plan result" where
  "make_plan d =
     rbind (validate_definition d) (\<lambda>_.
     rbind (emit_steps ''root'' 0 (md_steps d) []) (\<lambda>emitted.
     pl_init \<lparr>pl_macro_id = md_macro_id d, pl_macro_version = md_macro_version d,
       pl_definition_sha256 = definition_sha256 d, pl_instructions = emitted, pl_operational_authority = False,
       pl_action_authority = False, pl_execution_authority = False, pl_schema_version = MACRO_PLAN_SCHEMA_VERSION\<rparr>))"

section \<open>The emitted code\<close>

text \<open>
  What the planner emits when no constructor refuses: \<open>step_code path n st\<close> is the code of \<open>st\<close> when
  \<open>n\<close> instructions precede it.
\<close>

definition instruction :: "nat \<Rightarrow> string \<Rightarrow> plan_opcode \<Rightarrow> (string \<times> json) list \<Rightarrow> string \<Rightarrow> plan_instruction" where
  "instruction n path opcode payload source =
     \<lparr>pi_index = n, pi_path = path, pi_opcode = opcode, pi_payload = payload, pi_source_step_sha256 = source,
      pi_operational_authority = False, pi_action_authority = False, pi_execution_authority = False\<rparr>"

lemma instruction_sel [simp]:
  "pi_index (instruction n path op p h) = n" "pi_path (instruction n path op p h) = path"
  "pi_opcode (instruction n path op p h) = op" "pi_payload (instruction n path op p h) = p"
  "pi_source_step_sha256 (instruction n path op p h) = h"
  by (simp_all add: instruction_def)

fun code_size :: "macro_step \<Rightarrow> nat" where
  "code_size (IfStep c t e) = 3 + sum_list (map code_size t) + sum_list (map code_size e)"
| "code_size (LoopStep i n b) = 2 + sum_list (map code_size b)"
| "code_size (ForEachStep i c n b) = 2 + sum_list (map code_size b)"
| "code_size _ = 1"

definition codes_size :: "macro_step list \<Rightarrow> nat" where
  "codes_size sts = sum_list (map code_size sts)"

lemma codes_size_simps [simp]: "codes_size [] = 0" "codes_size (st # sts) = code_size st + codes_size sts"
  by (simp_all add: codes_size_def)

fun step_code :: "string \<Rightarrow> nat \<Rightarrow> macro_step \<Rightarrow> plan_instruction list"
  and steps_code :: "string \<Rightarrow> nat \<Rightarrow> nat \<Rightarrow> macro_step list \<Rightarrow> plan_instruction list" where
  "step_code path n (DoStep o') = [instruction n path Op_DO (operation_payload o') (source_hash (DoStep o'))]"
| "step_code path n (IfStep c t e) =
     (let h = source_hash (IfStep c t e); payload = [(''condition_id'', JStr c)]; m = n + 1 + codes_size t in
      [instruction n path Op_IF_BEGIN payload h] @ steps_code (path @ ''.then'') 0 (n + 1) t @
      [instruction m (path @ ''.else'') Op_ELSE payload h] @ steps_code (path @ ''.else'') 0 (m + 1) e @
      [instruction (m + 1 + codes_size e) (path @ ''.end'') Op_IF_END payload h])"
| "step_code path n (LoopStep i k b) =
     (let h = source_hash (LoopStep i k b); payload = [(''loop_id'', JStr i), (''max_iterations'', JInt k)] in
      [instruction n path Op_LOOP_BEGIN payload h] @ steps_code (path @ ''.body'') 0 (n + 1) b @
      [instruction (n + 1 + codes_size b) (path @ ''.end'') Op_LOOP_END payload h])"
| "step_code path n (ForEachStep i c k b) =
     (let h = source_hash (ForEachStep i c k b);
          payload = [(''item_name'', JStr i), (''collection_ref'', JStr c), (''max_items'', JInt k)] in
      [instruction n path Op_FOREACH_BEGIN payload h] @ steps_code (path @ ''.body'') 0 (n + 1) b @
      [instruction (n + 1 + codes_size b) (path @ ''.end'') Op_FOREACH_END payload h])"
| "step_code path n (CallStep i v args) = [instruction n path Op_CALL
       [(''macro_id'', JStr i), (''macro_version'', JStr v), (''arguments'', JObj args),
        (''arguments_sha256'', JStr (canonical_sha256 (JObj args)))] (source_hash (CallStep i v args))]"
| "step_code path n (CheckpointStep l) = [instruction n path Op_CHECKPOINT [(''label'', JStr l)] (source_hash (CheckpointStep l))]"
| "step_code path n (ApproveStep b cs r) = [instruction n path Op_APPROVE
       [(''barrier_id'', JStr b), (''required_capabilities'', jstrs cs), (''reason'', JStr r),
        (''grants_authority'', JBool False)] (source_hash (ApproveStep b cs r))]"
| "steps_code base i n [] = []"
| "steps_code base i n (st # rest) =
     step_code (base @ ''.'' @ show_nat i) n st @ steps_code base (Suc i) (n + code_size st) rest"

lemma length_code [simp]:
  "length (step_code path n st) = code_size st"
  "length (steps_code base i n sts) = codes_size sts"
  by (induction path n st and base i n sts rule: step_code_steps_code.induct) (simp_all add: Let_def codes_size_def)

lemma append_instruction_Ok_iff:
  "append_instruction path op p h em = Inr em' \<longleftrightarrow>
     plain_text 512 path \<and> em' = em @ [instruction (length em) path op p h]"
  by (auto simp: append_instruction_def rbind_Ok_iff pi_init_def validated_Ok_iff first_error_Ok_Cons first_error_Ok_Nil
      mg_require_text_def discard_text_Ok_iff instruction_def)

definition paths_fit :: "plan_instruction list \<Rightarrow> bool" where
  "paths_fit is \<longleftrightarrow> (\<forall>i \<in> set is. plain_text 512 (pi_path i))"

lemma paths_fit_simps [simp]:
  "paths_fit []" "paths_fit (i # is) \<longleftrightarrow> plain_text 512 (pi_path i) \<and> paths_fit is"
  "paths_fit (xs @ ys) \<longleftrightarrow> paths_fit xs \<and> paths_fit ys"
  by (auto simp: paths_fit_def)

lemma emit_Ok_iff:
  "emit_step path st em = Inr em' \<longleftrightarrow>
     paths_fit (step_code path (length em) st) \<and> em' = em @ step_code path (length em) st"
  "emit_steps base i sts em = Inr em' \<longleftrightarrow>
     paths_fit (steps_code base i (length em) sts) \<and> em' = em @ steps_code base i (length em) sts"
proof (induction path st em and base i sts em arbitrary: em' and em' rule: emit_step_emit_steps.induct)
  case (2 path c t e em)
  then show ?case by (auto simp: Let_def rbind_Ok_iff append_instruction_Ok_iff add.assoc)
next
  case (3 path i n b em)
  then show ?case by (auto simp: Let_def rbind_Ok_iff append_instruction_Ok_iff add.assoc)
next
  case (4 path i c n b em)
  then show ?case by (auto simp: Let_def rbind_Ok_iff append_instruction_Ok_iff add.assoc)
next
  case (9 base i st rest em)
  then show ?case by (auto simp: rbind_Ok_iff)
qed (auto simp: append_instruction_Ok_iff)

section \<open>Bounds of a validated definition\<close>

lemma mg_text_Ok_iff [simp]: "mg_require_text s f m = Inr () \<longleftrightarrow> plain_text m s"
  by (simp add: mg_require_text_def discard_text_Ok_iff)

lemma length_show_nat: "n < 10 ^ k \<Longrightarrow> 0 < k \<Longrightarrow> length (show_nat n) \<le> k"
proof (induction n arbitrary: k rule: show_nat.induct)
  case (1 n)
  show ?case
  proof (cases "n < 10")
    case True
    then show ?thesis using 1(3) by (simp add: show_nat.simps)
  next
    case False
    then obtain j where k: "k = Suc j" using 1(3) by (cases k) auto
    have j: "0 < j" using 1(2) False k by (cases j) auto
    have "n div 10 < 10 ^ j" using 1(2) k by (simp add: less_mult_imp_div_less mult.commute)
    from 1(1) [OF False this j] show ?thesis using False k by (simp add: show_nat.simps [of n])
  qed
qed

text \<open>The count of a loop of \<open>_validate_steps\<close> never exceeds the limit.\<close>

lemma validate_steps_count:
  "validate_steps d m sts = Inr n \<Longrightarrow> m + length sts \<le> n \<and> (sts \<noteq> [] \<longrightarrow> n \<le> MAX_STATIC_STEPS)"
  by (induction sts arbitrary: m) (force simp: rbind_Ok_iff check_count_def)+

definition path_ok :: "string \<Rightarrow> nat \<Rightarrow> bool" where
  "path_ok base n \<longleftrightarrow> base \<noteq> [] \<and> \<not> list_ex is_control base \<and> length base \<le> n"

lemma path_ok_plain: "path_ok s n \<Longrightarrow> n \<le> 512 \<Longrightarrow> plain_text 512 s"
  by (simp add: path_ok_def plain_text_def)

lemma digits_plain: "\<not> list_ex is_control (show_nat i)"
  using is_digit_show_nat by (fastforce simp: list_ex_iff is_digit_def is_control_def)

lemma path_ok_extend:
  assumes "path_ok path n"
  shows "path_ok (path @ ''.then'') (n + 5)" "path_ok (path @ ''.else'') (n + 5)" "path_ok (path @ ''.body'') (n + 5)"
    "path_ok (path @ ''.end'') (n + 5)"
  using assms by (auto simp: path_ok_def is_control_def)

lemma path_ok_index:
  assumes "path_ok base n" and "i < 10 ^ 4"
  shows "path_ok (base @ ''.'' @ show_nat i) (n + 5)"
  using assms length_show_nat [of i 4] digits_plain [of i] by (auto simp: path_ok_def is_control_def)

lemma path_ok_mono: "path_ok s m \<Longrightarrow> m \<le> n \<Longrightarrow> path_ok s n"
  by (simp add: path_ok_def)

text \<open>
  A step path grows by at most ten characters per nesting level, and there are at most 33 levels.
\<close>

lemma paths_bounded:
  "validate_step d st = Inr n \<Longrightarrow> d \<le> MAX_NESTING_DEPTH \<Longrightarrow> path_ok path m \<Longrightarrow>
     \<forall>i \<in> set (step_code path k st). path_ok (pi_path i) (m + 5 + 10 * (32 - d))"
  "validate_steps d c sts = Inr n \<Longrightarrow> d \<le> MAX_NESTING_DEPTH \<Longrightarrow> path_ok base m \<Longrightarrow> j + length sts \<le> MAX_STATIC_STEPS \<Longrightarrow>
     \<forall>i \<in> set (steps_code base j k sts). path_ok (pi_path i) (m + 10 * (33 - d))"
proof (induction d st and d c sts arbitrary: n path m k and n base m j k rule: validate_step_validate_steps.induct)
  case (2 d c t e)
  from 2(3) obtain u n1 v n2 where fe: "first_error
       [mg_require_text c ''condition_id'' 256,
        ensure (t \<noteq> []) MacroGraphContractError ''IF requires a non-empty then branch'',
        check_depth (Suc d)] = Inr u" and t: "validate_steps (Suc d) 0 t = Inr n1"
    and v: "check_depth (Suc d) = Inr v" and e: "validate_steps (Suc d) 0 e = Inr n2"
    by (auto simp: rbind_Ok_iff)
  have d: "Suc d \<le> MAX_NESTING_DEPTH" using v by (simp add: check_depth_def)
  have small: "0 + length t \<le> MAX_STATIC_STEPS" "0 + length e \<le> MAX_STATIC_STEPS"
    using validate_steps_count [OF t] validate_steps_count [OF e] by (cases t; cases e; simp)+
  note thn = 2(1) [OF t d path_ok_extend(1) [OF 2(5)] small(1)] and els = 2(2) [OF e d path_ok_extend(2) [OF 2(5)] small(2)]
    and own = path_ok_extend [OF 2(5)] 2(5)
  have le: "m + 5 + 10 * (33 - Suc d) = m + 5 + 10 * (32 - d)" by simp
  show ?case
    using thn els own by (auto simp: Let_def le intro: path_ok_mono)
next
  case (3 d i k' b)
  from 3(2) obtain u where fe: "first_error
       [mg_require_text i ''loop_id'' 256,
        validate_bound k' ''max_iterations'' MAX_LOOP_ITERATIONS,
        ensure (b \<noteq> []) MacroGraphContractError ''LOOP requires a non-empty body'',
        check_depth (Suc d)] = Inr u" and b: "validate_steps (Suc d) 0 b = Inr n"
    by (auto simp: rbind_Ok_iff)
  have d: "Suc d \<le> MAX_NESTING_DEPTH" using fe by (simp add: check_depth_def first_error_Ok_Cons)
  have small: "0 + length b \<le> MAX_STATIC_STEPS" using validate_steps_count [OF b] by (cases b; simp)
  note 1 = 3(1) [OF b d path_ok_extend(3) [OF 3(4)] small] and own = path_ok_extend [OF 3(4)] 3(4)
  have le: "m + 5 + 10 * (33 - Suc d) = m + 5 + 10 * (32 - d)" by simp
  show ?case using 1 own by (auto simp: Let_def le intro: path_ok_mono)
next
  case (4 d i c k' b)
  from 4(2) obtain u where fe: "first_error
       [mg_require_text i ''item_name'' 256,
        mg_require_text c ''collection_ref'' 256,
        validate_bound k' ''max_items'' MAX_FOREACH_ITEMS,
        ensure (b \<noteq> []) MacroGraphContractError ''FOREACH requires a non-empty body'',
        check_depth (Suc d)] = Inr u" and b: "validate_steps (Suc d) 0 b = Inr n"
    by (auto simp: rbind_Ok_iff)
  have d: "Suc d \<le> MAX_NESTING_DEPTH" using fe by (simp add: check_depth_def first_error_Ok_Cons)
  have small: "0 + length b \<le> MAX_STATIC_STEPS" using validate_steps_count [OF b] by (cases b; simp)
  note 1 = 4(1) [OF b d path_ok_extend(3) [OF 4(4)] small] and own = path_ok_extend [OF 4(4)] 4(4)
  have le: "m + 5 + 10 * (33 - Suc d) = m + 5 + 10 * (32 - d)" by simp
  show ?case using 1 own by (auto simp: Let_def le intro: path_ok_mono)
next
  case (9 d seen st rest)
  from 9(3) obtain n1 u where st: "validate_step d st = Inr n1" and u: "check_count (seen + 1 + n1) = Inr u"
    and rest: "validate_steps d (seen + 1 + n1) rest = Inr n" by (auto simp: rbind_Ok_iff)
  have j: "j < 10 ^ 4" using 9(6) by (simp add: MAX_STATIC_STEPS_def)
  have le: "m + 5 + 5 + 10 * (32 - d) = m + 10 * (33 - d)" using 9(4) by (simp add: MAX_NESTING_DEPTH_def)
  note 1 = 9(1) [OF st 9(4) path_ok_index [OF 9(5) j]] and 2 = 9(2) [OF rest 9(4,5), of "Suc j"]
  show ?case using 1 2 9(6) unfolding le by auto
qed (auto intro: path_ok_mono)

text \<open>Every validated definition compiles, with paths far below the limit of an instruction.\<close>

definition md_ok :: "macro_definition \<Rightarrow> bool" where
  "md_ok d \<longleftrightarrow> md_init d = Inr d"

lemma make_plan_valid:
  assumes "md_ok d" and "validate_definition d = Inr ()"
  shows "make_plan d = Inr \<lparr>pl_macro_id = md_macro_id d, pl_macro_version = md_macro_version d,
       pl_definition_sha256 = definition_sha256 d, pl_instructions = steps_code ''root'' 0 0 (md_steps d),
       pl_operational_authority = False, pl_action_authority = False, pl_execution_authority = False,
       pl_schema_version = MACRO_PLAN_SCHEMA_VERSION\<rparr>"
    and "\<forall>i \<in> set (steps_code ''root'' 0 0 (md_steps d)). path_ok (pi_path i) 334"
proof -
  from assms(2) obtain n where n: "validate_steps 0 0 (md_steps d) = Inr n"
    by (auto simp: validate_definition_def rbind_Ok_iff)
  have len: "0 + length (md_steps d) \<le> MAX_STATIC_STEPS"
    using validate_steps_count [OF n] by (cases "md_steps d"; simp)
  have root: "path_ok ''root'' 4" by (simp add: path_ok_def is_control_def)
  from paths_bounded(2) [OF n _ root len]
  show paths: "\<forall>i \<in> set (steps_code ''root'' 0 0 (md_steps d)). path_ok (pi_path i) 334" by simp
  then have "paths_fit (steps_code ''root'' 0 0 (md_steps d))"
    unfolding paths_fit_def by (auto intro: path_ok_plain)
  then have emit: "emit_steps ''root'' 0 (md_steps d) [] = Inr (steps_code ''root'' 0 0 (md_steps d))"
    by (simp add: emit_Ok_iff)
  have "is_sha256 (definition_sha256 d)" by (simp add: definition_sha256_def)
  then have digest: "length (definition_sha256 d) = 64 \<and> int16_accepts (lower (strip (definition_sha256 d)))"
    using validate_digest [of "definition_sha256 d" "[]"]
    by (simp add: rl_validate_sha256_def Let_def is_sha256_def split: if_splits)
  have "plain_text 256 (md_macro_id d)" "plain_text 128 (md_macro_version d)"
    using assms(1) by (simp_all add: md_ok_def md_init_def validated_Ok_iff first_error_Ok_Cons)
  then show "make_plan d = Inr \<lparr>pl_macro_id = md_macro_id d, pl_macro_version = md_macro_version d,
       pl_definition_sha256 = definition_sha256 d, pl_instructions = steps_code ''root'' 0 0 (md_steps d),
       pl_operational_authority = False, pl_action_authority = False, pl_execution_authority = False,
       pl_schema_version = MACRO_PLAN_SCHEMA_VERSION\<rparr>"
    using assms(2) emit digest
    by (simp add: make_plan_def pl_init_def validated_Ok_iff first_error_Ok_Cons)
qed

definition indexed :: "nat \<Rightarrow> plan_instruction list \<Rightarrow> bool" where
  "indexed n is \<longleftrightarrow> (\<forall>k < length is. pi_index (is ! k) = n + k)"

lemma indexed_simps [simp]:
  "indexed n []" "indexed n (i # is) \<longleftrightarrow> pi_index i = n \<and> indexed (Suc n) is"
  "indexed n (xs @ ys) \<longleftrightarrow> indexed n xs \<and> indexed (n + length xs) ys"
proof -
  have Cons: "indexed n (i # is) \<longleftrightarrow> pi_index i = n \<and> indexed (Suc n) is" for n i "is"
    by (auto simp: indexed_def less_Suc_eq_0_disj nth_Cons split: nat.split)
  then show "indexed n (i # is) \<longleftrightarrow> pi_index i = n \<and> indexed (Suc n) is" .
  have Nil: "indexed n []" for n by (simp add: indexed_def)
  then show "indexed n []" .
  show "indexed n (xs @ ys) \<longleftrightarrow> indexed n xs \<and> indexed (n + length xs) ys"
    by (induction xs arbitrary: n) (simp_all add: Cons Nil)
qed

lemma code_indexed: "indexed n (step_code path n st)" "indexed n (steps_code base i n sts)"
  by (induction path n st and base i n sts rule: step_code_steps_code.induct) (simp_all add: Let_def add.assoc)

definition zero_authority :: "plan_instruction \<Rightarrow> bool" where
  "zero_authority i \<longleftrightarrow> \<not> pi_operational_authority i \<and> \<not> pi_action_authority i \<and> \<not> pi_execution_authority i"

lemma code_zero_authority:
  "\<forall>i \<in> set (step_code path n st). zero_authority i"
  "\<forall>i \<in> set (steps_code base j n sts). zero_authority i"
  by (induction path n st and base j n sts rule: step_code_steps_code.induct) (auto simp: Let_def zero_authority_def instruction_def)

text \<open>A plan has at most three instructions per counted step.\<close>

lemma code_size_bound:
  "validate_step d st = Inr n \<Longrightarrow> code_size st \<le> 3 * (n + 1)"
  "validate_steps d c sts = Inr n \<Longrightarrow> codes_size sts + 3 * c \<le> 3 * n"
proof (induction d st and d c sts arbitrary: n and n rule: validate_step_validate_steps.induct)
  case (2 d c t e)
  then show ?case by (fastforce simp: rbind_Ok_iff codes_size_def)
next
  case (3 d i k b)
  then show ?case by (fastforce simp: rbind_Ok_iff codes_size_def)
next
  case (4 d i c k b)
  then show ?case by (fastforce simp: rbind_Ok_iff codes_size_def)
next
  case (9 d m st rest)
  then show ?case by (fastforce simp: rbind_Ok_iff)
qed (auto simp: rbind_Ok_iff)

section \<open>Properties\<close>

text \<open>C26: A definition compiles exactly when it validates, and the bounds of validation suffice for the plan:
  at most 12288 instructions, each at its index, with a path of at most 334 of the 512 characters an
  instruction admits, and without any authority.\<close>

theorem validated_definition_compiles:
  assumes "md_init d = Ok d"
  shows "((\<exists>p. make_plan d = Ok p) \<longleftrightarrow> validate_definition d = Ok ())
    \<and> (\<forall>p. make_plan d = Ok p \<longrightarrow> length (pl_instructions p) \<le> 12288
      \<and> (\<forall>k < length (pl_instructions p). let i = pl_instructions p ! k in
          pi_index i = k \<and> length (pi_path i) \<le> 334 \<and> \<not> pi_operational_authority i \<and> \<not> pi_action_authority i
          \<and> \<not> pi_execution_authority i))"
proof -
  have valid: "validate_definition d = Inr ()" if "make_plan d = Inr p" for p
    using that by (auto simp: make_plan_def rbind_Ok_iff)
  have ok: "md_ok d" using assms by (simp add: md_ok_def)
  have "length (pl_instructions p) \<le> 12288 \<and> (\<forall>k < length (pl_instructions p). let i = pl_instructions p ! k in
      pi_index i = k \<and> length (pi_path i) \<le> 334 \<and> \<not> pi_operational_authority i \<and> \<not> pi_action_authority i
      \<and> \<not> pi_execution_authority i)" if p: "make_plan d = Inr p" for p
  proof -
    note v = valid [OF p] and plan = make_plan_valid [OF ok valid [OF p]]
    from v obtain n where n: "validate_steps 0 0 (md_steps d) = Inr n" "n \<le> MAX_STATIC_STEPS"
      by (auto simp: validate_definition_def rbind_Ok_iff check_count_def)
    have code: "pl_instructions p = steps_code ''root'' 0 0 (md_steps d)" using plan(1) p by simp
    have "codes_size (md_steps d) \<le> 12288" using code_size_bound(2) [OF n(1)] n(2) by (simp add: MAX_STATIC_STEPS_def)
    moreover have "indexed 0 (pl_instructions p)" unfolding code by (rule code_indexed)
    ultimately show ?thesis
      using plan(2) code_zero_authority(2) [of "''root''" 0 0 "md_steps d"] unfolding code
      by (auto simp: Let_def indexed_def zero_authority_def path_ok_def)
  qed
  then show ?thesis using valid make_plan_valid(1) [OF ok] by blast
qed

text \<open>A definition with a branch, an approval, a loop and a checkpoint.\<close>

definition sample_steps :: "macro_step list" where
  "sample_steps = [IfStep ''ready'' [ApproveStep ''barrier'' [''state.write''] ''writes''] [],
     LoopStep ''twice'' 2 [CheckpointStep ''saved'']]"

definition sample_definition :: macro_definition where
  "sample_definition = \<lparr>md_macro_id = ''macro'', md_macro_version = ''1'', md_steps = sample_steps, md_parameters = [],
     md_operational_authority = False, md_action_authority = False, md_execution_authority = False,
     md_schema_version = MACRO_DEFINITION_SCHEMA_VERSION\<rparr>"

lemma sample_definition_ok: "md_init sample_definition = Inr sample_definition" "validate_definition sample_definition = Inr ()"
proof -
  show "md_init sample_definition = Inr sample_definition"
    unfolding md_init_def validated_Ok_iff first_error_Ok_Cons first_error_Ok_Nil
    by (simp add: sample_definition_def plain_text_def is_control_def validate_canonical_names_def macro_names_Ok_iff)
  have t: "mg_require_text ''ready'' f 256 = Inr ()" "mg_require_text ''barrier'' f 256 = Inr ()"
      "mg_require_text ''writes'' f 512 = Inr ()" "mg_require_text ''twice'' f 256 = Inr ()" "mg_require_text ''saved'' f 256 = Inr ()"
      "validate_canonical_names [''state.write''] f False = Inr ()" for f
    by (simp_all add: plain_text_def is_control_def validate_canonical_names_def macro_names_Ok_iff)
  show "validate_definition sample_definition = Inr ()"
    by (simp add: validate_definition_def sample_definition_def sample_steps_def t check_depth_def check_count_def
        validate_bound_def MAX_NESTING_DEPTH_def MAX_STATIC_STEPS_def MAX_LOOP_ITERATIONS_def first_error.simps)
qed

theorem validated_definition_compiles_witness:
  "\<exists>p. make_plan sample_definition = Ok p \<and> length (pl_instructions p) \<le> 12288"
  using validated_definition_compiles [OF sample_definition_ok(1)] sample_definition_ok(2) by auto

end
