(* ===== verification/Macro_Runner.thy ===== *)
theory Macro_Runner
  imports Macro_Graph
begin

text \<open>
  \<open>phios/macro_runner.py\<close>: the interpreter of macro plans.  It moves a cursor over the instructions and
  stops at the first instruction for which no resolution was supplied; it never executes anything.

  The counters, the dict of variables and the number of transitions that \<open>advance\<close> keeps in local
  variables are a \<open>run_env\<close>.  The cursor, the number of transitions and the counters are checked to
  be non-negative integers when a state is made, so they are natural numbers here.
\<close>

definition MACRO_RUN_STATE_SCHEMA_VERSION :: string where
  "MACRO_RUN_STATE_SCHEMA_VERSION = ''phios.macro_run_state.v0.4''"

definition MAX_ADVANCE_TRANSITIONS :: nat where "MAX_ADVANCE_TRANSITIONS = 50000"

datatype runner_status =
    RS_READY | RS_RUNNING | RS_WAITING_OPERATION | RS_WAITING_CONDITION | RS_WAITING_APPROVAL | RS_WAITING_CALLEE
  | RS_CHECKPOINTING | RS_WAITING_COLLECTION | RS_COMPLETED | RS_HELD | RS_FAILED | RS_ABORTED

fun status_value :: "runner_status \<Rightarrow> string" where
  "status_value RS_READY = ''READY''"
| "status_value RS_RUNNING = ''RUNNING''"
| "status_value RS_WAITING_OPERATION = ''WAITING_OPERATION''"
| "status_value RS_WAITING_CONDITION = ''WAITING_CONDITION''"
| "status_value RS_WAITING_APPROVAL = ''WAITING_APPROVAL''"
| "status_value RS_WAITING_CALLEE = ''WAITING_CALLEE''"
| "status_value RS_CHECKPOINTING = ''CHECKPOINTING''"
| "status_value RS_WAITING_COLLECTION = ''WAITING_COLLECTION''"
| "status_value RS_COMPLETED = ''COMPLETED''"
| "status_value RS_HELD = ''HELD''"
| "status_value RS_FAILED = ''FAILED''"
| "status_value RS_ABORTED = ''ABORTED''"

datatype resolution_status = RES_SUCCEEDED | RES_HELD | RES_FAILED

definition TERMINAL_STATUSES :: "runner_status list" where
  "TERMINAL_STATUSES = [RS_COMPLETED, RS_FAILED, RS_ABORTED]"

definition rn_require_text :: "json \<Rightarrow> string \<Rightarrow> nat \<Rightarrow> string result" where
  "rn_require_text = require_text MacroRunnerContractError"

definition rn_require_sha256 :: "string \<Rightarrow> string \<Rightarrow> unit result" where
  "rn_require_sha256 v field = discard (require_sha256 MacroRunnerContractError (JStr v) field)"

definition rn_text :: "string \<Rightarrow> string \<Rightarrow> nat \<Rightarrow> unit result" where
  "rn_text v field maximum = discard (rn_require_text (JStr v) field maximum)"

section \<open>Resolutions\<close>

record condition_resolution =
  cnr_condition_id :: string
  cnr_value :: bool
  cnr_evidence_ref_sha256 :: string

definition cnr_init :: "condition_resolution \<Rightarrow> condition_resolution result" where
  "cnr_init r = validated
     [rn_text (cnr_condition_id r) ''condition_id'' 512,
      rn_require_sha256 (cnr_evidence_ref_sha256 r) ''condition evidence_ref_sha256''] r"

record operation_resolution =
  orr_instruction_path :: string
  orr_operation_hash :: string
  orr_status :: resolution_status
  orr_receipt_sha256 :: string

definition orr_init :: "operation_resolution \<Rightarrow> operation_resolution result" where
  "orr_init r = validated
     [rn_text (orr_instruction_path r) ''operation instruction_path'' 512,
      rn_require_sha256 (orr_operation_hash r) ''operation_hash'',
      rn_require_sha256 (orr_receipt_sha256 r) ''operation receipt_sha256''] r"

record approval_resolution =
  apr_barrier_id :: string
  apr_required_capabilities :: "string list"
  apr_approved :: bool
  apr_evidence_ref_sha256 :: string

definition apr_init :: "approval_resolution \<Rightarrow> approval_resolution result" where
  "apr_init r = validated
     [rn_text (apr_barrier_id r) ''approval barrier_id'' 512,
      macro_names MacroRunnerContractError (apr_required_capabilities r) ''approval required_capabilities'' 512 False,
      rn_require_sha256 (apr_evidence_ref_sha256 r) ''approval evidence_ref_sha256''] r"

record call_resolution =
  clr_instruction_path :: string
  clr_macro_id :: string
  clr_macro_version :: string
  clr_arguments_sha256 :: string
  clr_status :: resolution_status
  clr_receipt_sha256 :: string

definition clr_init :: "call_resolution \<Rightarrow> call_resolution result" where
  "clr_init r = validated
     [rn_text (clr_instruction_path r) ''call instruction_path'' 512,
      rn_text (clr_macro_id r) ''call macro_id'' 512,
      rn_text (clr_macro_version r) ''call macro_version'' 128,
      rn_require_sha256 (clr_arguments_sha256 r) ''call arguments_sha256'',
      rn_require_sha256 (clr_receipt_sha256 r) ''call receipt_sha256''] r"

record checkpoint_resolution =
  ckr_instruction_path :: string
  ckr_label :: string
  ckr_status :: resolution_status
  ckr_receipt_sha256 :: string

definition ckr_init :: "checkpoint_resolution \<Rightarrow> checkpoint_resolution result" where
  "ckr_init r = validated
     [rn_text (ckr_instruction_path r) ''checkpoint instruction_path'' 512,
      rn_text (ckr_label r) ''checkpoint label'' 512,
      rn_require_sha256 (ckr_receipt_sha256 r) ''checkpoint receipt_sha256''] r"

record collection_resolution =
  clc_collection_ref :: string
  clc_items :: "json list"
  clc_evidence_ref_sha256 :: string

definition clc_init :: "collection_resolution \<Rightarrow> collection_resolution result" where
  "clc_init r = validated
     [rn_text (clc_collection_ref r) ''collection_ref'' 512,
      rn_require_sha256 (clc_evidence_ref_sha256 r) ''collection evidence_ref_sha256''] r"

record runner_inputs =
  in_conditions :: "condition_resolution list"
  in_operations :: "operation_resolution list"
  in_approvals :: "approval_resolution list"
  in_calls :: "call_resolution list"
  in_checkpoints :: "checkpoint_resolution list"
  in_collections :: "collection_resolution list"

definition no_inputs :: runner_inputs where
  "no_inputs = \<lparr>in_conditions = [], in_operations = [], in_approvals = [], in_calls = [], in_checkpoints = [], in_collections = []\<rparr>"

section \<open>Run states\<close>

record macro_run_state =
  mrs_macro_id :: string
  mrs_macro_version :: string
  mrs_plan_sha256 :: string
  mrs_cursor :: nat
  mrs_status :: runner_status
  mrs_reason :: string
  mrs_loop_iterations :: "(string \<times> nat) list"
  mrs_foreach_indices :: "(string \<times> nat) list"
  mrs_variables :: "(string \<times> json) list option"
  mrs_waiting_on :: "(string \<times> json) list option"
  mrs_last_instruction_path :: "string option"
  mrs_transitions :: nat
  mrs_operational_authority :: bool
  mrs_action_authority :: bool
  mrs_execution_authority :: bool
  mrs_schema_version :: string

definition mrs_init :: "macro_run_state \<Rightarrow> macro_run_state result" where
  "mrs_init s = validated
     ([ensure (mrs_schema_version s = MACRO_RUN_STATE_SCHEMA_VERSION) MacroRunnerContractError
         ''unsupported macro run state schema'',
       rn_text (mrs_macro_id s) ''macro_id'' 512,
       rn_text (mrs_macro_version s) ''macro_version'' 128,
       rn_require_sha256 (mrs_plan_sha256 s) ''plan_sha256'',
       rn_text (mrs_reason s) ''reason'' 512,
       (case mrs_last_instruction_path s of None \<Rightarrow> Ok () | Some p \<Rightarrow> rn_text p ''last_instruction_path'' 512)] @
      map (\<lambda>(k, _). rn_require_sha256 k ''loop source_step_sha256'') (mrs_loop_iterations s) @
      map (\<lambda>(k, _). rn_require_sha256 k ''foreach source_step_sha256'') (mrs_foreach_indices s) @
      [ensure (\<not> (mrs_operational_authority s \<or> mrs_action_authority s \<or> mrs_execution_authority s)) MacroRunnerContractError
         ''MacroRunState cannot carry authority'']) s"

text \<open>\<open>value or {}\<close>.\<close>

definition or_empty :: "(string \<times> json) list option \<Rightarrow> (string \<times> json) list" where
  "or_empty d = (case d of None \<Rightarrow> [] | Some d \<Rightarrow> d)"

definition counter_pairs :: "(string \<times> nat) list \<Rightarrow> json" where
  "counter_pairs xs = JList (map (\<lambda>(k, n). JList [JStr k, JInt (int n)]) xs)"

definition mrs_body :: "macro_run_state \<Rightarrow> (string \<times> json) list" where
  "mrs_body s =
     [(''schema_version'', JStr (mrs_schema_version s)),
      (''macro_id'', JStr (mrs_macro_id s)),
      (''macro_version'', JStr (mrs_macro_version s)),
      (''plan_sha256'', JStr (mrs_plan_sha256 s)),
      (''cursor'', JInt (int (mrs_cursor s))),
      (''status'', JStr (status_value (mrs_status s))),
      (''reason'', JStr (mrs_reason s)),
      (''loop_iterations'', counter_pairs (mrs_loop_iterations s)),
      (''foreach_indices'', counter_pairs (mrs_foreach_indices s)),
      (''variables'', JObj (or_empty (mrs_variables s))),
      (''waiting_on'', JObj (or_empty (mrs_waiting_on s))),
      (''last_instruction_path'', jopt (mrs_last_instruction_path s)),
      (''transitions'', JInt (int (mrs_transitions s))),
      (''operational_authority'', JBool (mrs_operational_authority s)),
      (''action_authority'', JBool (mrs_action_authority s)),
      (''execution_authority'', JBool (mrs_execution_authority s))]"

definition state_sha256 :: "macro_run_state \<Rightarrow> string" where
  "state_sha256 s = canonical_sha256 (JObj (mrs_body s))"

definition mrs_to_dict :: "macro_run_state \<Rightarrow> (string \<times> json) list" where
  "mrs_to_dict s = mrs_body s @ [(''state_sha256'', JStr (state_sha256 s))]"

section \<open>The runner\<close>

record run_env =
  ev_loops :: "(string \<times> nat) list"
  ev_foreach :: "(string \<times> nat) list"
  ev_variables :: "(string \<times> json) list"
  ev_transitions :: nat
  ev_last :: "string option"

text \<open>\<open>_state\<close>.\<close>

definition run_state ::
  "macro_plan \<Rightarrow> nat \<Rightarrow> runner_status \<Rightarrow> string \<Rightarrow> run_env \<Rightarrow> (string \<times> json) list \<Rightarrow> macro_run_state result" where
  "run_state p cursor status reason v waiting_on = mrs_init
     \<lparr>mrs_macro_id = pl_macro_id p, mrs_macro_version = pl_macro_version p, mrs_plan_sha256 = plan_sha256 p,
      mrs_cursor = cursor, mrs_status = status, mrs_reason = reason, mrs_loop_iterations = sort_key fst (ev_loops v),
      mrs_foreach_indices = sort_key fst (ev_foreach v), mrs_variables = Some (ev_variables v),
      mrs_waiting_on = Some waiting_on, mrs_last_instruction_path = ev_last v, mrs_transitions = ev_transitions v,
      mrs_operational_authority = False, mrs_action_authority = False, mrs_execution_authority = False,
      mrs_schema_version = MACRO_RUN_STATE_SCHEMA_VERSION\<rparr>"

definition validate_resume :: "macro_plan \<Rightarrow> macro_run_state \<Rightarrow> unit result" where
  "validate_resume p s = first_error
     [ensure (mrs_plan_sha256 s = plan_sha256 p) MacroRunnerContractError
        ''run state plan hash does not match supplied plan'',
      ensure (mrs_macro_id s = pl_macro_id p \<and> mrs_macro_version s = pl_macro_version p) MacroRunnerContractError
        ''run state macro identity does not match supplied plan'',
      ensure (mrs_cursor s \<le> length (pl_instructions p)) MacroRunnerContractError
        ''run state cursor exceeds plan instruction count'']"

definition start_env :: run_env where
  "start_env = \<lparr>ev_loops = [], ev_foreach = [], ev_variables = [], ev_transitions = 0, ev_last = None\<rparr>"

definition runner_start :: "macro_plan \<Rightarrow> macro_run_state result" where
  "runner_start p = run_state p 0 RS_READY ''plan_ready'' start_env []"

text \<open>The local variables of \<open>advance\<close> for a state, and \<open>abort\<close>, which builds its state from the same values.\<close>

definition env_of :: "macro_run_state \<Rightarrow> run_env" where
  "env_of s = \<lparr>ev_loops = dict_of (mrs_loop_iterations s), ev_foreach = dict_of (mrs_foreach_indices s),
     ev_variables = or_empty (mrs_variables s), ev_transitions = mrs_transitions s, ev_last = mrs_last_instruction_path s\<rparr>"

definition runner_abort :: "macro_plan \<Rightarrow> macro_run_state \<Rightarrow> string \<Rightarrow> macro_run_state result" where
  "runner_abort p s reason =
     rbind (validate_resume p s) (\<lambda>_.
     rbind (rn_require_text (JStr reason) ''abort reason'' 512) (\<lambda>reason.
     run_state p (mrs_cursor s) RS_ABORTED reason (env_of s) []))"

subsection \<open>Inputs\<close>

fun unique_index :: "('a \<Rightarrow> string) \<Rightarrow> string \<Rightarrow> (string \<times> 'a) list \<Rightarrow> 'a list \<Rightarrow> (string \<times> 'a) list result" where
  "unique_index key label d [] = Ok d"
| "unique_index key label d (x # xs) =
     (if key x \<in> set (map fst d) then raise MacroRunnerContractError (''duplicate '' @ label @ '': '' @ key x)
      else unique_index key label (d @ [(key x, x)]) xs)"

record resolutions =
  ix_conditions :: "(string \<times> condition_resolution) list"
  ix_operations :: "(string \<times> operation_resolution) list"
  ix_approvals :: "(string \<times> approval_resolution) list"
  ix_calls :: "(string \<times> call_resolution) list"
  ix_checkpoints :: "(string \<times> checkpoint_resolution) list"
  ix_collections :: "(string \<times> collection_resolution) list"

definition index_inputs :: "runner_inputs \<Rightarrow> resolutions result" where
  "index_inputs i =
     rbind (unique_index cnr_condition_id ''condition resolution'' [] (in_conditions i)) (\<lambda>cs.
     rbind (unique_index orr_instruction_path ''operation resolution'' [] (in_operations i)) (\<lambda>os.
     rbind (unique_index apr_barrier_id ''approval resolution'' [] (in_approvals i)) (\<lambda>as'.
     rbind (unique_index clr_instruction_path ''call resolution'' [] (in_calls i)) (\<lambda>ls.
     rbind (unique_index ckr_instruction_path ''checkpoint resolution'' [] (in_checkpoints i)) (\<lambda>ks.
     rbind (unique_index clc_collection_ref ''collection resolution'' [] (in_collections i)) (\<lambda>xs.
     Ok \<lparr>ix_conditions = cs, ix_operations = os, ix_approvals = as', ix_calls = ls, ix_checkpoints = ks,
         ix_collections = xs\<rparr>))))))"

subsection \<open>Instructions\<close>

definition payload_text :: "plan_instruction \<Rightarrow> string \<Rightarrow> string result" where
  "payload_text i key = rn_require_text (dget (pi_payload i) key) (opcode_value (pi_opcode i) @ ''.'' @ key) 512"

definition payload_int :: "plan_instruction \<Rightarrow> string \<Rightarrow> int result" where
  "payload_int i key = (case dget (pi_payload i) key of
     JInt n \<Rightarrow> Ok n | _ \<Rightarrow> raise MacroRunnerContractError (opcode_value (pi_opcode i) @ ''.'' @ key @ '' must be an integer''))"

definition payload_string_list :: "plan_instruction \<Rightarrow> string \<Rightarrow> string list result" where
  "payload_string_list i key =
     (let err = raise MacroRunnerContractError (opcode_value (pi_opcode i) @ ''.'' @ key @ '' must be a string list'') in
      case dget (pi_payload i) key of
        JList xs \<Rightarrow> (if list_all (\<lambda>x. case x of JStr s \<Rightarrow> s \<noteq> [] | _ \<Rightarrow> False) xs
                     then Ok (map (\<lambda>x. case x of JStr s \<Rightarrow> s | _ \<Rightarrow> []) xs) else err)
      | _ \<Rightarrow> err)"

definition marks :: "plan_opcode \<Rightarrow> string \<Rightarrow> plan_instruction \<Rightarrow> bool" where
  "marks opcode source i \<longleftrightarrow> pi_opcode i = opcode \<and> pi_source_step_sha256 i = source"

definition marker :: "nat option \<Rightarrow> plan_opcode \<Rightarrow> nat result" where
  "marker found opcode = (case found of Some k \<Rightarrow> Ok k
     | None \<Rightarrow> raise MacroRunnerContractError (''matching '' @ opcode_value opcode @ '' marker not found''))"

definition find_forward :: "macro_plan \<Rightarrow> nat \<Rightarrow> plan_opcode \<Rightarrow> string \<Rightarrow> nat result" where
  "find_forward p start opcode source =
     marker (find (\<lambda>k. marks opcode source (pl_instructions p ! k)) [start + 1..<length (pl_instructions p)]) opcode"

definition find_backward :: "macro_plan \<Rightarrow> nat \<Rightarrow> plan_opcode \<Rightarrow> string \<Rightarrow> nat result" where
  "find_backward p start opcode source =
     marker (find (\<lambda>k. marks opcode source (pl_instructions p ! k)) (rev [0..<start])) opcode"

text \<open>One round of the loop of \<open>advance\<close> ends in a state or goes on at another cursor.\<close>

datatype outcome = Halt macro_run_state | Go nat run_env

text \<open>\<open>_pause\<close> and \<open>_terminal_boundary\<close>.\<close>

definition pause ::
  "macro_plan \<Rightarrow> nat \<Rightarrow> runner_status \<Rightarrow> string \<Rightarrow> plan_instruction \<Rightarrow> run_env \<Rightarrow> (string \<times> json) list \<Rightarrow> outcome result" where
  "pause p cursor status reason i v extra =
     rbind (run_state p cursor status reason (v\<lparr>ev_last := Some (pi_path i)\<rparr>)
       ([(''instruction_path'', JStr (pi_path i)), (''opcode'', JStr (opcode_value (pi_opcode i)))] @ extra)) (\<lambda>s. Ok (Halt s))"

definition boundary :: "macro_plan \<Rightarrow> nat \<Rightarrow> runner_status \<Rightarrow> string \<Rightarrow> plan_instruction \<Rightarrow> run_env \<Rightarrow> outcome result" where
  "boundary p cursor status reason i v = pause p cursor status reason i v []"

text \<open>\<open>_resolution_boundary\<close>, and the step to the next instruction that follows when it is None.\<close>

definition resolved ::
  "macro_plan \<Rightarrow> nat \<Rightarrow> plan_instruction \<Rightarrow> resolution_status \<Rightarrow> string \<Rightarrow> string \<Rightarrow> run_env \<Rightarrow> outcome result" where
  "resolved p cursor i status held_reason failed_reason v =
     (case status of
        RES_SUCCEEDED \<Rightarrow> Ok (Go (cursor + 1) v)
      | RES_HELD \<Rightarrow> boundary p cursor RS_HELD held_reason i v
      | RES_FAILED \<Rightarrow> boundary p cursor RS_FAILED failed_reason i v)"

definition exec_do :: "macro_plan \<Rightarrow> resolutions \<Rightarrow> nat \<Rightarrow> plan_instruction \<Rightarrow> run_env \<Rightarrow> outcome result" where
  "exec_do p ix cursor i v =
     (case map_of (ix_operations ix) (pi_path i) of
        None \<Rightarrow> pause p cursor RS_WAITING_OPERATION ''operation_resolution_required'' i v []
      | Some r \<Rightarrow>
          rbind (payload_text i ''operation_hash'') (\<lambda>expected.
          if orr_operation_hash r \<noteq> expected
          then boundary p cursor RS_HELD ''operation_resolution_scope_mismatch'' i v
          else resolved p cursor i (orr_status r) ''operation_held'' ''operation_failed'' v))"

definition exec_if_begin :: "macro_plan \<Rightarrow> resolutions \<Rightarrow> nat \<Rightarrow> plan_instruction \<Rightarrow> run_env \<Rightarrow> outcome result" where
  "exec_if_begin p ix cursor i v =
     rbind (payload_text i ''condition_id'') (\<lambda>c.
     case map_of (ix_conditions ix) c of
       None \<Rightarrow> pause p cursor RS_WAITING_CONDITION ''condition_resolution_required'' i v [(''condition_id'', JStr c)]
     | Some r \<Rightarrow>
         if cnr_value r then Ok (Go (cursor + 1) v)
         else rbind (find_forward p cursor Op_ELSE (pi_source_step_sha256 i)) (\<lambda>k. Ok (Go (k + 1) v)))"

definition exec_else :: "macro_plan \<Rightarrow> nat \<Rightarrow> plan_instruction \<Rightarrow> run_env \<Rightarrow> outcome result" where
  "exec_else p cursor i v =
     rbind (find_forward p cursor Op_IF_END (pi_source_step_sha256 i)) (\<lambda>k. Ok (Go (k + 1) v))"

definition exec_loop_begin :: "macro_plan \<Rightarrow> nat \<Rightarrow> plan_instruction \<Rightarrow> run_env \<Rightarrow> outcome result" where
  "exec_loop_begin p cursor i v =
     rbind (payload_int i ''max_iterations'') (\<lambda>maximum.
     if maximum \<le> int (dict_get (pi_source_step_sha256 i) 0 (ev_loops v))
     then rbind (find_forward p cursor Op_LOOP_END (pi_source_step_sha256 i)) (\<lambda>k. Ok (Go (k + 1) v))
     else Ok (Go (cursor + 1) v))"

definition exec_loop_end :: "macro_plan \<Rightarrow> nat \<Rightarrow> plan_instruction \<Rightarrow> run_env \<Rightarrow> outcome result" where
  "exec_loop_end p cursor i v =
     (let key = pi_source_step_sha256 i;
          v' = v\<lparr>ev_loops := dict_set key (dict_get key 0 (ev_loops v) + 1) (ev_loops v)\<rparr>
      in rbind (find_backward p cursor Op_LOOP_BEGIN key) (\<lambda>k. Ok (Go k v')))"

definition exec_foreach_begin :: "macro_plan \<Rightarrow> resolutions \<Rightarrow> nat \<Rightarrow> plan_instruction \<Rightarrow> run_env \<Rightarrow> outcome result" where
  "exec_foreach_begin p ix cursor i v =
     rbind (payload_text i ''collection_ref'') (\<lambda>c.
     rbind (payload_text i ''item_name'') (\<lambda>name.
     rbind (payload_int i ''max_items'') (\<lambda>maximum.
     case map_of (ix_collections ix) c of
       None \<Rightarrow> pause p cursor RS_WAITING_COLLECTION ''collection_resolution_required'' i v [(''collection_ref'', JStr c)]
     | Some r \<Rightarrow>
         if maximum < int (length (clc_items r)) then boundary p cursor RS_HELD ''collection_bound_exceeded'' i v
         else (let key = pi_source_step_sha256 i; index = dict_get key 0 (ev_foreach v) in
               if length (clc_items r) \<le> index
               then rbind (find_forward p cursor Op_FOREACH_END key) (\<lambda>k.
                 Ok (Go (k + 1) (v\<lparr>ev_variables := dict_pop name (ev_variables v)\<rparr>)))
               else Ok (Go (cursor + 1) (v\<lparr>ev_variables := dict_set name (clc_items r ! index) (ev_variables v)\<rparr>))))))"

definition exec_foreach_end :: "macro_plan \<Rightarrow> nat \<Rightarrow> plan_instruction \<Rightarrow> run_env \<Rightarrow> outcome result" where
  "exec_foreach_end p cursor i v =
     (let key = pi_source_step_sha256 i;
          v' = v\<lparr>ev_foreach := dict_set key (dict_get key 0 (ev_foreach v) + 1) (ev_foreach v)\<rparr>
      in rbind (find_backward p cursor Op_FOREACH_BEGIN key) (\<lambda>k. Ok (Go k v')))"

definition exec_call :: "macro_plan \<Rightarrow> resolutions \<Rightarrow> nat \<Rightarrow> plan_instruction \<Rightarrow> run_env \<Rightarrow> outcome result" where
  "exec_call p ix cursor i v =
     (case map_of (ix_calls ix) (pi_path i) of
        None \<Rightarrow> pause p cursor RS_WAITING_CALLEE ''callee_resolution_required'' i v []
      | Some r \<Rightarrow>
          rbind (payload_text i ''macro_id'') (\<lambda>macro_id.
          rbind (payload_text i ''macro_version'') (\<lambda>macro_version.
          rbind (payload_text i ''arguments_sha256'') (\<lambda>arguments_sha256.
          if (clr_macro_id r, clr_macro_version r, clr_arguments_sha256 r) \<noteq> (macro_id, macro_version, arguments_sha256)
          then boundary p cursor RS_HELD ''callee_resolution_scope_mismatch'' i v
          else resolved p cursor i (clr_status r) ''callee_held'' ''callee_failed'' v))))"

definition exec_checkpoint :: "macro_plan \<Rightarrow> resolutions \<Rightarrow> nat \<Rightarrow> plan_instruction \<Rightarrow> run_env \<Rightarrow> outcome result" where
  "exec_checkpoint p ix cursor i v =
     (case map_of (ix_checkpoints ix) (pi_path i) of
        None \<Rightarrow> pause p cursor RS_CHECKPOINTING ''checkpoint_resolution_required'' i v []
      | Some r \<Rightarrow>
          rbind (payload_text i ''label'') (\<lambda>label.
          if ckr_label r \<noteq> label then boundary p cursor RS_HELD ''checkpoint_resolution_scope_mismatch'' i v
          else resolved p cursor i (ckr_status r) ''checkpoint_held'' ''checkpoint_failed'' v))"

definition exec_approve :: "macro_plan \<Rightarrow> resolutions \<Rightarrow> nat \<Rightarrow> plan_instruction \<Rightarrow> run_env \<Rightarrow> outcome result" where
  "exec_approve p ix cursor i v =
     rbind (payload_text i ''barrier_id'') (\<lambda>b.
     case map_of (ix_approvals ix) b of
       None \<Rightarrow> pause p cursor RS_WAITING_APPROVAL ''approval_resolution_required'' i v [(''barrier_id'', JStr b)]
     | Some r \<Rightarrow>
         rbind (payload_string_list i ''required_capabilities'') (\<lambda>required.
         if apr_required_capabilities r \<noteq> required then boundary p cursor RS_HELD ''approval_resolution_scope_mismatch'' i v
         else if \<not> apr_approved r then boundary p cursor RS_HELD ''approval_not_granted'' i v
         else Ok (Go (cursor + 1) v)))"

definition exec_instruction :: "macro_plan \<Rightarrow> resolutions \<Rightarrow> nat \<Rightarrow> plan_instruction \<Rightarrow> run_env \<Rightarrow> outcome result" where
  "exec_instruction p ix cursor i v =
     (case pi_opcode i of
        Op_DO \<Rightarrow> exec_do p ix cursor i v
      | Op_IF_BEGIN \<Rightarrow> exec_if_begin p ix cursor i v
      | Op_ELSE \<Rightarrow> exec_else p cursor i v
      | Op_IF_END \<Rightarrow> Ok (Go (cursor + 1) v)
      | Op_LOOP_BEGIN \<Rightarrow> exec_loop_begin p cursor i v
      | Op_LOOP_END \<Rightarrow> exec_loop_end p cursor i v
      | Op_FOREACH_BEGIN \<Rightarrow> exec_foreach_begin p ix cursor i v
      | Op_FOREACH_END \<Rightarrow> exec_foreach_end p cursor i v
      | Op_CALL \<Rightarrow> exec_call p ix cursor i v
      | Op_CHECKPOINT \<Rightarrow> exec_checkpoint p ix cursor i v
      | Op_APPROVE \<Rightarrow> exec_approve p ix cursor i v)"

text \<open>The loop of \<open>advance\<close>: \<open>budget\<close> is \<open>max_transitions - used\<close>.\<close>

definition counted :: "plan_instruction \<Rightarrow> run_env \<Rightarrow> run_env" where
  "counted i v = v\<lparr>ev_transitions := ev_transitions v + 1, ev_last := Some (pi_path i)\<rparr>"

fun advance_loop :: "macro_plan \<Rightarrow> resolutions \<Rightarrow> nat \<Rightarrow> nat \<Rightarrow> run_env \<Rightarrow> macro_run_state result" where
  "advance_loop p ix budget cursor v =
     (if length (pl_instructions p) \<le> cursor then run_state p cursor RS_COMPLETED ''plan_completed'' v []
      else case budget of
        0 \<Rightarrow> run_state p cursor RS_HELD ''advance_transition_budget_exhausted'' v [(''cursor'', JInt (int cursor))]
      | Suc budget \<Rightarrow>
          let i = pl_instructions p ! cursor in
          rbind (exec_instruction p ix cursor i (counted i v)) (\<lambda>out.
          case out of Halt s \<Rightarrow> Ok s | Go cursor' v' \<Rightarrow> advance_loop p ix budget cursor' v'))"

declare advance_loop.simps [simp del]

definition advance :: "macro_plan \<Rightarrow> macro_run_state \<Rightarrow> runner_inputs option \<Rightarrow> int \<Rightarrow> macro_run_state result" where
  "advance p s inputs max_transitions =
     rbind (validate_resume p s) (\<lambda>_.
     if mrs_status s \<in> set TERMINAL_STATUSES then Ok s
     else if max_transitions < 1 \<or> int MAX_ADVANCE_TRANSITIONS < max_transitions
     then raise MacroRunnerContractError (''max_transitions must be between 1 and '' @ show_nat MAX_ADVANCE_TRANSITIONS)
     else rbind (index_inputs (case inputs of None \<Rightarrow> no_inputs | Some i \<Rightarrow> i)) (\<lambda>ix.
       advance_loop p ix (nat max_transitions) (mrs_cursor s) (env_of s)))"

end
