(* ===== verification/Macro_Semantics.thy ===== *)
theory Macro_Semantics
  imports Macro_Runner
begin

text \<open>
  What a macro means: a big-step semantics of the step trees, without code, jumps or markers, and the
  proof that the planner and the runner of \<open>macro_graph.py\<close> and \<open>macro_runner.py\<close> implement it.

  \<open>sem ix path n st v out\<close>: the step \<open>st\<close>, whose code starts at instruction \<open>n\<close>, run in \<open>v\<close> with the
  resolutions \<open>ix\<close>, ends in \<open>out\<close>: it continues with a new environment, or stops with the cursor,
  the status, the reason and the description the run state reports.
\<close>

section \<open>The meaning of steps\<close>

datatype verdict =
    Stop nat runner_status string "(string \<times> json) list" run_env
  | Continue run_env

abbreviation visit :: "string \<Rightarrow> run_env \<Rightarrow> run_env" where
  "visit path v \<equiv> v\<lparr>ev_transitions := ev_transitions v + 1, ev_last := Some path\<rparr>"

definition waiting :: "string \<Rightarrow> plan_opcode \<Rightarrow> (string \<times> json) list" where
  "waiting path opcode = [(''instruction_path'', JStr path), (''opcode'', JStr (opcode_value opcode))]"

definition settle :: "string \<Rightarrow> nat \<Rightarrow> plan_opcode \<Rightarrow> resolution_status \<Rightarrow> string \<Rightarrow> run_env \<Rightarrow> verdict" where
  "settle path n opcode status what v =
     (case status of
        RES_SUCCEEDED \<Rightarrow> Continue v
      | RES_HELD \<Rightarrow> Stop n RS_HELD (what @ ''_held'') (waiting path opcode) v
      | RES_FAILED \<Rightarrow> Stop n RS_FAILED (what @ ''_failed'') (waiting path opcode) v)"

text \<open>Steps without inner steps.\<close>

fun leaf :: "resolutions \<Rightarrow> string \<Rightarrow> nat \<Rightarrow> macro_step \<Rightarrow> run_env \<Rightarrow> verdict option" where
  "leaf ix path n (DoStep o') v = Some
     (case map_of (ix_operations ix) path of
        None \<Rightarrow> Stop n RS_WAITING_OPERATION ''operation_resolution_required'' (waiting path Op_DO) (visit path v)
      | Some r \<Rightarrow>
          if orr_operation_hash r \<noteq> operation_hash o'
          then Stop n RS_HELD ''operation_resolution_scope_mismatch'' (waiting path Op_DO) (visit path v)
          else settle path n Op_DO (orr_status r) ''operation'' (visit path v))"
| "leaf ix path n (CallStep i ver args) v = Some
     (case map_of (ix_calls ix) path of
        None \<Rightarrow> Stop n RS_WAITING_CALLEE ''callee_resolution_required'' (waiting path Op_CALL) (visit path v)
      | Some r \<Rightarrow>
          if \<not> (clr_macro_id r = i \<and> clr_macro_version r = ver \<and> clr_arguments_sha256 r = canonical_sha256 (JObj args))
          then Stop n RS_HELD ''callee_resolution_scope_mismatch'' (waiting path Op_CALL) (visit path v)
          else settle path n Op_CALL (clr_status r) ''callee'' (visit path v))"
| "leaf ix path n (CheckpointStep l) v = Some
     (case map_of (ix_checkpoints ix) path of
        None \<Rightarrow> Stop n RS_CHECKPOINTING ''checkpoint_resolution_required'' (waiting path Op_CHECKPOINT) (visit path v)
      | Some r \<Rightarrow>
          if ckr_label r \<noteq> l
          then Stop n RS_HELD ''checkpoint_resolution_scope_mismatch'' (waiting path Op_CHECKPOINT) (visit path v)
          else settle path n Op_CHECKPOINT (ckr_status r) ''checkpoint'' (visit path v))"
| "leaf ix path n (ApproveStep b cs reason) v = Some
     (case map_of (ix_approvals ix) b of
        None \<Rightarrow> Stop n RS_WAITING_APPROVAL ''approval_resolution_required''
          (waiting path Op_APPROVE @ [(''barrier_id'', JStr b)]) (visit path v)
      | Some r \<Rightarrow>
          if apr_required_capabilities r \<noteq> cs
          then Stop n RS_HELD ''approval_resolution_scope_mismatch'' (waiting path Op_APPROVE) (visit path v)
          else if apr_approved r then Continue (visit path v)
          else Stop n RS_HELD ''approval_not_granted'' (waiting path Op_APPROVE) (visit path v))"
| "leaf ix path n _ v = None"

abbreviation rounds :: "macro_step \<Rightarrow> run_env \<Rightarrow> nat" where
  "rounds st v \<equiv> dict_get (source_hash st) 0 (ev_loops v)"

abbreviation item_index :: "macro_step \<Rightarrow> run_env \<Rightarrow> nat" where
  "item_index st v \<equiv> dict_get (source_hash st) 0 (ev_foreach v)"

definition next_round :: "macro_step \<Rightarrow> run_env \<Rightarrow> run_env" where
  "next_round st v = v\<lparr>ev_loops := dict_set (source_hash st) (rounds st v + 1) (ev_loops v)\<rparr>"

definition next_item :: "macro_step \<Rightarrow> run_env \<Rightarrow> run_env" where
  "next_item st v = v\<lparr>ev_foreach := dict_set (source_hash st) (item_index st v + 1) (ev_foreach v)\<rparr>"

definition bind_item :: "string \<Rightarrow> json \<Rightarrow> run_env \<Rightarrow> run_env" where
  "bind_item name x v = v\<lparr>ev_variables := dict_set name x (ev_variables v)\<rparr>"

definition drop_item :: "string \<Rightarrow> run_env \<Rightarrow> run_env" where
  "drop_item name v = v\<lparr>ev_variables := dict_pop name (ev_variables v)\<rparr>"

inductive sem :: "resolutions \<Rightarrow> string \<Rightarrow> nat \<Rightarrow> macro_step \<Rightarrow> run_env \<Rightarrow> verdict \<Rightarrow> bool"
  and sems :: "resolutions \<Rightarrow> string \<Rightarrow> nat \<Rightarrow> nat \<Rightarrow> macro_step list \<Rightarrow> run_env \<Rightarrow> verdict \<Rightarrow> bool" for ix where
  Leaf: "leaf ix path n st v = Some out \<Longrightarrow> sem ix path n st v out"
| IfWaits: "map_of (ix_conditions ix) c = None \<Longrightarrow>
    sem ix path n (IfStep c t e) v (Stop n RS_WAITING_CONDITION ''condition_resolution_required''
      (waiting path Op_IF_BEGIN @ [(''condition_id'', JStr c)]) (visit path v))"
| IfThen: "map_of (ix_conditions ix) c = Some r \<Longrightarrow> cnr_value r \<Longrightarrow>
    sems ix (path @ ''.then'') 0 (n + 1) t (visit path v) (Continue v') \<Longrightarrow>
    sem ix path n (IfStep c t e) v (Continue (visit (path @ ''.else'') v'))"
| IfThenStops: "map_of (ix_conditions ix) c = Some r \<Longrightarrow> cnr_value r \<Longrightarrow>
    sems ix (path @ ''.then'') 0 (n + 1) t (visit path v) (Stop k status reason w v') \<Longrightarrow>
    sem ix path n (IfStep c t e) v (Stop k status reason w v')"
| IfElse: "map_of (ix_conditions ix) c = Some r \<Longrightarrow> \<not> cnr_value r \<Longrightarrow>
    sems ix (path @ ''.else'') 0 (n + 1 + codes_size t + 1) e (visit path v) (Continue v') \<Longrightarrow>
    sem ix path n (IfStep c t e) v (Continue (visit (path @ ''.end'') v'))"
| IfElseStops: "map_of (ix_conditions ix) c = Some r \<Longrightarrow> \<not> cnr_value r \<Longrightarrow>
    sems ix (path @ ''.else'') 0 (n + 1 + codes_size t + 1) e (visit path v) (Stop k status reason w v') \<Longrightarrow>
    sem ix path n (IfStep c t e) v (Stop k status reason w v')"
| LoopDone: "m \<le> int (rounds (LoopStep i m b) v) \<Longrightarrow> sem ix path n (LoopStep i m b) v (Continue (visit path v))"
| LoopRound: "int (rounds (LoopStep i m b) v) < m \<Longrightarrow>
    sems ix (path @ ''.body'') 0 (n + 1) b (visit path v) (Continue v') \<Longrightarrow>
    sem ix path n (LoopStep i m b) (next_round (LoopStep i m b) (visit (path @ ''.end'') v')) out \<Longrightarrow>
    sem ix path n (LoopStep i m b) v out"
| LoopStops: "int (rounds (LoopStep i m b) v) < m \<Longrightarrow>
    sems ix (path @ ''.body'') 0 (n + 1) b (visit path v) (Stop k status reason w v') \<Longrightarrow>
    sem ix path n (LoopStep i m b) v (Stop k status reason w v')"
| EachWaits: "map_of (ix_collections ix) c = None \<Longrightarrow>
    sem ix path n (ForEachStep i c m b) v (Stop n RS_WAITING_COLLECTION ''collection_resolution_required''
      (waiting path Op_FOREACH_BEGIN @ [(''collection_ref'', JStr c)]) (visit path v))"
| EachExceeds: "map_of (ix_collections ix) c = Some r \<Longrightarrow> m < int (length (clc_items r)) \<Longrightarrow>
    sem ix path n (ForEachStep i c m b) v
      (Stop n RS_HELD ''collection_bound_exceeded'' (waiting path Op_FOREACH_BEGIN) (visit path v))"
| EachDone: "map_of (ix_collections ix) c = Some r \<Longrightarrow> int (length (clc_items r)) \<le> m \<Longrightarrow>
    length (clc_items r) \<le> item_index (ForEachStep i c m b) v \<Longrightarrow>
    sem ix path n (ForEachStep i c m b) v (Continue (drop_item i (visit path v)))"
| EachRound: "map_of (ix_collections ix) c = Some r \<Longrightarrow> int (length (clc_items r)) \<le> m \<Longrightarrow>
    item_index (ForEachStep i c m b) v = k \<Longrightarrow> k < length (clc_items r) \<Longrightarrow>
    sems ix (path @ ''.body'') 0 (n + 1) b (bind_item i (clc_items r ! k) (visit path v)) (Continue v') \<Longrightarrow>
    sem ix path n (ForEachStep i c m b) (next_item (ForEachStep i c m b) (visit (path @ ''.end'') v')) out \<Longrightarrow>
    sem ix path n (ForEachStep i c m b) v out"
| EachStops: "map_of (ix_collections ix) c = Some r \<Longrightarrow> int (length (clc_items r)) \<le> m \<Longrightarrow>
    item_index (ForEachStep i c m b) v = k \<Longrightarrow> k < length (clc_items r) \<Longrightarrow>
    sems ix (path @ ''.body'') 0 (n + 1) b (bind_item i (clc_items r ! k) (visit path v)) (Stop k' status reason w v') \<Longrightarrow>
    sem ix path n (ForEachStep i c m b) v (Stop k' status reason w v')"
| Nil: "sems ix base j n [] v (Continue v)"
| Cons: "sem ix (base @ ''.'' @ show_nat j) n st v (Continue v') \<Longrightarrow>
    sems ix base (Suc j) (n + code_size st) rest v' out \<Longrightarrow> sems ix base j n (st # rest) v out"
| ConsStops: "sem ix (base @ ''.'' @ show_nat j) n st v (Stop k status reason w v') \<Longrightarrow>
    sems ix base j n (st # rest) v (Stop k status reason w v')"

section \<open>Blocks and their markers\<close>

text \<open>The steps that open a block, the step itself included.\<close>

fun blocks :: "macro_step \<Rightarrow> macro_step list" where
  "blocks (IfStep c t e) = IfStep c t e # concat (map blocks t) @ concat (map blocks e)"
| "blocks (LoopStep i m b) = LoopStep i m b # concat (map blocks b)"
| "blocks (ForEachStep i c m b) = ForEachStep i c m b # concat (map blocks b)"
| "blocks _ = []"

abbreviation blocks_of :: "macro_step list \<Rightarrow> macro_step list" where
  "blocks_of sts \<equiv> concat (map blocks sts)"

text \<open>No block has the digest of a block inside it.\<close>

fun unclashed :: "macro_step \<Rightarrow> bool" where
  "unclashed (IfStep c t e) \<longleftrightarrow>
     source_hash (IfStep c t e) \<notin> source_hash ` set (blocks_of t) \<union> source_hash ` set (blocks_of e)
     \<and> list_all unclashed t \<and> list_all unclashed e"
| "unclashed (LoopStep i m b) \<longleftrightarrow> source_hash (LoopStep i m b) \<notin> source_hash ` set (blocks_of b) \<and> list_all unclashed b"
| "unclashed (ForEachStep i c m b) \<longleftrightarrow>
     source_hash (ForEachStep i c m b) \<notin> source_hash ` set (blocks_of b) \<and> list_all unclashed b"
| "unclashed _ \<longleftrightarrow> True"

section \<open>Blocks that share a digest\<close>

text \<open>
  The runner finds the end of a block, and counts its rounds, by the digest of its source step.  A block
  contains the payloads of its inner blocks, so an inner block with the digest of an outer one is a
  collision of SHA-256.
\<close>

lemma canon_block:
  "canon (step_payload (IfStep c t e)) = JObj [(''condition_id'', JStr c), (''else_steps'', JList (map (canon \<circ> step_payload) e)),
     (''kind'', JStr ''IF''), (''then_steps'', JList (map (canon \<circ> step_payload) t))]"
  "canon (step_payload (LoopStep i m b)) = JObj [(''body'', JList (map (canon \<circ> step_payload) b)), (''kind'', JStr ''LOOP''),
     (''loop_id'', JStr i), (''max_iterations'', JInt m)]"
  "canon (step_payload (ForEachStep i c m b)) = JObj [(''body'', JList (map (canon \<circ> step_payload) b)),
     (''collection_ref'', JStr c), (''item_name'', JStr i), (''kind'', JStr ''FOREACH''), (''max_items'', JInt m)]"
  by simp_all

definition payload_size :: "macro_step \<Rightarrow> nat" where
  "payload_size st = size (canon (step_payload st))"

lemma size_inner: "x \<in> set sts \<Longrightarrow> payload_size x < size (JList (map (canon \<circ> step_payload) sts))"
  by (induction sts) (auto simp: payload_size_def)

lemma payload_size_inner:
  "x \<in> set t \<Longrightarrow> payload_size x < payload_size (IfStep c t e)"
  "x \<in> set e \<Longrightarrow> payload_size x < payload_size (IfStep c t e)"
  "x \<in> set b \<Longrightarrow> payload_size x < payload_size (LoopStep i m b)"
  "x \<in> set b \<Longrightarrow> payload_size x < payload_size (ForEachStep i c m b)"
  unfolding payload_size_def [of "IfStep c t e"] payload_size_def [of "LoopStep i m b"]
    payload_size_def [of "ForEachStep i c m b"] canon_block
  by (auto dest: size_inner)

lemma blocks_smaller: "x \<in> set (blocks st) \<Longrightarrow> payload_size x \<le> payload_size st"
proof (induction st rule: blocks.induct)
  case (1 c t e)
  then consider "x = IfStep c t e" | y where "y \<in> set t" "x \<in> set (blocks y)" | y where "y \<in> set e" "x \<in> set (blocks y)" by auto
  then show ?case
  proof cases
    case 2
    then show ?thesis using 1(1) payload_size_inner(1) [of y t c e] by fastforce
  next
    case 3
    then show ?thesis using 1(2) payload_size_inner(2) [of y e c t] by fastforce
  qed simp
next
  case (2 i m b)
  then consider "x = LoopStep i m b" | y where "y \<in> set b" "x \<in> set (blocks y)" by auto
  then show ?case using 2(1) payload_size_inner(3) [of _ b i m] by cases fastforce+
next
  case (3 i c m b)
  then consider "x = ForEachStep i c m b" | y where "y \<in> set b" "x \<in> set (blocks y)" by auto
  then show ?case using 3(1) payload_size_inner(4) [of _ b i c m] by cases fastforce+
qed simp_all

definition digest_clash :: "macro_step list \<Rightarrow> bool" where
  "digest_clash sts \<longleftrightarrow> (\<exists>a \<in> set (blocks_of sts). \<exists>b \<in> set (blocks_of sts).
     sha256_collision (utf8 (dumps (step_payload a))) (utf8 (dumps (step_payload b))))"

lemma digest_clashI:
  assumes "a \<in> set (blocks_of sts)" and "b \<in> set (blocks_of sts)" and "source_hash a = source_hash b" and "payload_size b \<noteq> payload_size a"
  shows "digest_clash sts"
proof -
  have "canon (step_payload a) \<noteq> canon (step_payload b)" using assms(4) by (auto simp: payload_size_def)
  then have "sha256_collision (utf8 (dumps (step_payload a))) (utf8 (dumps (step_payload b)))"
    using assms(3) canonical_sha256_binding [of "step_payload a" "step_payload b"] by (auto simp: source_hash_def)
  then show ?thesis using assms(1,2) by (auto simp: digest_clash_def)
qed

lemma clashed: "\<not> unclashed st \<Longrightarrow> set (blocks st) \<subseteq> set (blocks_of sts) \<Longrightarrow> digest_clash sts"
proof (induction st rule: unclashed.induct)
  case (1 c t e)
  show ?case
  proof (cases "source_hash (IfStep c t e) \<in> source_hash ` set (blocks_of t) \<union> source_hash ` set (blocks_of e)")
    case True
    then obtain y x where y: "y \<in> set t \<or> y \<in> set e" and x: "x \<in> set (blocks y)" "source_hash (IfStep c t e) = source_hash x" by auto
    have "payload_size x < payload_size (IfStep c t e)"
      using y payload_size_inner(1,2) [of y] blocks_smaller [OF x(1)] by (meson order.strict_trans1)
    then show ?thesis using x y 1(4) by (intro digest_clashI [of "IfStep c t e" _ x]) auto
  next
    case False
    then obtain y where "y \<in> set t \<and> \<not> unclashed y \<or> y \<in> set e \<and> \<not> unclashed y"
      using 1(3) by (auto simp: list_all_iff)
    moreover from this have "set (blocks y) \<subseteq> set (blocks_of sts)" using 1(4) by auto
    ultimately show ?thesis using 1(1,2) [of y] by blast
  qed
next
  case (2 i m b)
  show ?case
  proof (cases "source_hash (LoopStep i m b) \<in> source_hash ` set (blocks_of b)")
    case True
    then obtain y x where y: "y \<in> set b" and x: "x \<in> set (blocks y)" "source_hash (LoopStep i m b) = source_hash x" by auto
    have "payload_size x < payload_size (LoopStep i m b)"
      using payload_size_inner(3) [OF y] blocks_smaller [OF x(1)] by (meson order.strict_trans1)
    then show ?thesis using x y 2(3) by (intro digest_clashI [of "LoopStep i m b" _ x]) auto
  next
    case False
    then obtain y where "y \<in> set b" "\<not> unclashed y" using 2(2) by (auto simp: list_all_iff)
    then show ?thesis using 2(1) [of y] 2(3) by auto
  qed
next
  case (3 i c m b)
  show ?case
  proof (cases "source_hash (ForEachStep i c m b) \<in> source_hash ` set (blocks_of b)")
    case True
    then obtain y x where y: "y \<in> set b" and x: "x \<in> set (blocks y)" "source_hash (ForEachStep i c m b) = source_hash x" by auto
    have "payload_size x < payload_size (ForEachStep i c m b)"
      using payload_size_inner(4) [OF y] blocks_smaller [OF x(1)] by (meson order.strict_trans1)
    then show ?thesis using x y 3(3) by (intro digest_clashI [of "ForEachStep i c m b" _ x]) auto
  next
    case False
    then obtain y where "y \<in> set b" "\<not> unclashed y" using 3(2) by (auto simp: list_all_iff)
    then show ?thesis using 3(1) [of y] 3(3) by auto
  qed
qed simp_all

lemma clash_or_unclashed: "digest_clash sts \<or> list_all unclashed sts"
  using clashed by (auto simp: list_all_iff)

section \<open>Markers of blocks\<close>

definition block_opcode :: "plan_opcode \<Rightarrow> bool" where
  "block_opcode opcode \<longleftrightarrow> opcode \<in> {Op_IF_BEGIN, Op_ELSE, Op_IF_END, Op_LOOP_BEGIN, Op_LOOP_END, Op_FOREACH_BEGIN, Op_FOREACH_END}"

lemma code_markers:
  "i \<in> set (step_code path n st) \<Longrightarrow> block_opcode (pi_opcode i) \<Longrightarrow> pi_source_step_sha256 i \<in> source_hash ` set (blocks st)"
  "i \<in> set (steps_code base j n sts) \<Longrightarrow> block_opcode (pi_opcode i) \<Longrightarrow> pi_source_step_sha256 i \<in> source_hash ` set (blocks_of sts)"
proof (induction path n st and base j n sts rule: step_code_steps_code.induct)
  case (2 path n c t e)
  note thn = 2(1) [OF refl refl refl _ 2(4)] and els = 2(2) [OF refl refl refl _ 2(4)]
  have "i \<in> set (steps_code (path @ ''.then'') 0 (n + 1) t) \<or> i \<in> set (steps_code (path @ ''.else'') 0 (n + 1 + codes_size t + 1) e) \<or>
      pi_source_step_sha256 i = source_hash (IfStep c t e)"
    using 2(3) by (auto simp: Let_def)
  then show ?case using thn els by (auto simp: image_Un simp del: set_concat)
next
  case (3 path n i k b)
  then show ?case by (auto simp: Let_def image_Un)
next
  case (4 path n i c k b)
  then show ?case by (auto simp: Let_def image_Un)
next
  case (9 base j n st rest)
  then show ?case by (auto simp: image_Un)
qed (auto simp: block_opcode_def)

lemma code_unmarked:
  assumes "h \<notin> source_hash ` set (blocks_of sts)" and "block_opcode opcode"
  shows "\<forall>i \<in> set (steps_code base j n sts). \<not> marks opcode h i"
  using assms code_markers(2) by (fastforce simp: marks_def)

section \<open>Code at a position\<close>

definition at_code :: "macro_plan \<Rightarrow> nat \<Rightarrow> plan_instruction list \<Rightarrow> bool" where
  "at_code p n is \<longleftrightarrow> (\<exists>rest. drop n (pl_instructions p) = is @ rest)"

lemma at_code_Nil [simp]: "at_code p n []"
  by (simp add: at_code_def)

lemma at_code_Cons [simp]:
  "at_code p n (i # is) \<longleftrightarrow> n < length (pl_instructions p) \<and> pl_instructions p ! n = i \<and> at_code p (Suc n) is"
proof -
  have "drop n xs = i # is @ rest \<longleftrightarrow> n < length xs \<and> xs ! n = i \<and> drop (Suc n) xs = is @ rest" for xs :: "plan_instruction list" and rest
    by (metis Cons_nth_drop_Suc drop_all linorder_not_le list.distinct(1) list.inject)
  then show ?thesis by (auto simp: at_code_def)
qed

lemma at_code_append [simp]: "at_code p n (xs @ ys) \<longleftrightarrow> at_code p n xs \<and> at_code p (n + length xs) ys"
  by (induction xs arbitrary: n) auto

lemma at_code_nth: "at_code p n is \<Longrightarrow> k < length is \<Longrightarrow> pl_instructions p ! (n + k) = is ! k \<and> n + k < length (pl_instructions p)"
proof (induction "is" arbitrary: n k)
  case (Cons i "is")
  then show ?case by (cases k) (auto dest: Cons.IH [of "Suc n"])
qed simp

lemma find_upt:
  assumes "m \<le> k" and "k < l" and "q k" and "\<And>j. m \<le> j \<Longrightarrow> j < k \<Longrightarrow> \<not> q j"
  shows "find q [m..<l] = Some k"
  using assms
proof (induction "k - m" arbitrary: m)
  case 0
  then show ?case by (simp add: upt_conv_Cons)
next
  case (Suc d)
  then have "\<not> q m" "m < l" by auto
  then show ?case using Suc by (simp add: upt_conv_Cons)
qed

lemma find_rev_upt:
  assumes "k < l" and "q k" and "\<And>j. k < j \<Longrightarrow> j < l \<Longrightarrow> \<not> q j"
  shows "find q (rev [0..<l]) = Some k"
  using assms
proof (induction l)
  case (Suc l)
  then show ?case by (cases "k = l") auto
qed simp

lemma find_forward_block:
  assumes "at_code p (n + 1) (body @ [j])" and "marks opcode h j" and "\<forall>i \<in> set body. \<not> marks opcode h i"
  shows "find_forward p n opcode h = Inr (n + 1 + length body)"
proof -
  have code: "pl_instructions p ! (n + 1 + k) = (body @ [j]) ! k \<and> n + 1 + k < length (pl_instructions p)" if "k \<le> length body" for k
    using at_code_nth [OF assms(1), of k] that by simp
  have "find (\<lambda>k. marks opcode h (pl_instructions p ! k)) [n + 1..<length (pl_instructions p)] = Some (n + 1 + length body)"
  proof (rule find_upt)
    fix l assume l: "n + 1 \<le> l" "l < n + 1 + length body"
    define k where "k = l - (n + 1)"
    have "k < length body" and lk: "l = n + 1 + k" using l by (simp_all add: k_def)
    then have "pl_instructions p ! l = body ! k" using code [of k] by (simp add: nth_append)
    then show "\<not> marks opcode h (pl_instructions p ! l)" using assms(3) \<open>k < length body\<close> by simp
  qed (use code [of "length body"] assms(2) in simp_all)
  then show ?thesis by (simp add: find_forward_def marker_def)
qed

lemma find_backward_block:
  assumes "at_code p m (i # body)" and "marks opcode h i" and "\<forall>i \<in> set body. \<not> marks opcode h i" and "n = m + 1 + length body"
  shows "find_backward p n opcode h = Inr m"
proof -
  have "find (\<lambda>k. marks opcode h (pl_instructions p ! k)) (rev [0..<n]) = Some m"
  proof (rule find_rev_upt)
    fix l assume l: "m < l" "l < n"
    define k where "k = l - m - 1"
    have k: "k < length body" and lk: "l = m + Suc k" using l assms(4) by (auto simp: k_def)
    then have "pl_instructions p ! l = body ! k" using at_code_nth [OF assms(1), of "Suc k"] by simp
    then show "\<not> marks opcode h (pl_instructions p ! l)" using assms(3) k by simp
  qed (use assms in simp_all)
  then show ?thesis by (simp add: find_backward_def marker_def)
qed

section \<open>The runner follows the steps\<close>

fun payload_fits :: "macro_step \<Rightarrow> bool" where
  "payload_fits (DoStep o') \<longleftrightarrow> True"
| "payload_fits (IfStep c t e) \<longleftrightarrow> plain_text 256 c \<and> list_all payload_fits t \<and> list_all payload_fits e"
| "payload_fits (LoopStep i m b) \<longleftrightarrow> list_all payload_fits b"
| "payload_fits (ForEachStep i c m b) \<longleftrightarrow> plain_text 256 i \<and> plain_text 256 c \<and> list_all payload_fits b"
| "payload_fits (CallStep i v args) \<longleftrightarrow> plain_text 256 i \<and> plain_text 128 v"
| "payload_fits (CheckpointStep l) \<longleftrightarrow> plain_text 256 l"
| "payload_fits (ApproveStep b cs r) \<longleftrightarrow> plain_text 256 b \<and> list_all (plain_text 256) cs"

lemma validated_fits:
  "validate_step d st = Inr n \<Longrightarrow> payload_fits st"
  "validate_steps d k sts = Inr n \<Longrightarrow> list_all payload_fits sts"
proof (induction d st and d k sts arbitrary: n and n rule: validate_step_validate_steps.induct)
  case (7 d b cs r)
  then show ?case by (auto simp: rbind_Ok_iff first_error_Ok_Cons validate_canonical_names_def macro_names_Ok_iff)
qed (auto simp: rbind_Ok_iff first_error_Ok_Cons)

fun after :: "macro_plan \<Rightarrow> resolutions \<Rightarrow> nat \<Rightarrow> nat \<Rightarrow> verdict \<Rightarrow> macro_run_state result" where
  "after p ix budget k (Stop cursor status reason w v) = run_state p cursor status reason v w"
| "after p ix budget k (Continue v) = advance_loop p ix budget k v"

fun verdict_env :: "verdict \<Rightarrow> run_env" where
  "verdict_env (Stop cursor status reason w v) = v"
| "verdict_env (Continue v) = v"

lemma advance_visit:
  assumes "at_code p n (i # is)"
  shows "advance_loop p ix (Suc budget) n v = rbind (exec_instruction p ix n i (visit (pi_path i) v))
    (\<lambda>out. case out of Halt s \<Rightarrow> Ok s | Go k v' \<Rightarrow> advance_loop p ix budget k v')"
  using assms by (subst advance_loop.simps) (simp add: counted_def Let_def)

lemma rbind_halt [simp]:
  "rbind (rbind r (\<lambda>s. Ok (Halt s))) (\<lambda>out. case out of Halt s \<Rightarrow> Ok s | Go k v' \<Rightarrow> f k v') = r"
  by (cases r) simp_all

lemma payload_text_Ok: "dget (pi_payload i) key = JStr s \<Longrightarrow> plain_text m s \<Longrightarrow> m \<le> 512 \<Longrightarrow> payload_text i key = Inr s"
  by (auto simp: payload_text_def rn_require_text_def require_text_Ok_iff plain_text_def)

lemma payload_digest_Ok: "dget (pi_payload i) key = JStr (canonical_sha256 j) \<Longrightarrow> payload_text i key = Inr (canonical_sha256 j)"
  by (rule payload_text_Ok [of _ _ _ 64]) (simp_all add: plain_text_sha256)

lemma payload_list_Ok:
  "dget (pi_payload i) key = jstrs cs \<Longrightarrow> list_all (plain_text m) cs \<Longrightarrow> payload_string_list i key = Inr cs"
  by (auto simp: payload_string_list_def Let_def list_all_iff plain_text_def o_def)

fun landed :: "macro_plan \<Rightarrow> nat \<Rightarrow> verdict \<Rightarrow> outcome result" where
  "landed p k (Stop cursor status reason w v) = rbind (run_state p cursor status reason v w) (\<lambda>s. Ok (Halt s))"
| "landed p k (Continue v) = Ok (Go k v)"

lemma after_landed:
  "rbind (landed p k out) (\<lambda>out. case out of Halt s \<Rightarrow> Ok s | Go k v' \<Rightarrow> advance_loop p ix budget k v') = after p ix budget k out"
  by (cases out) simp_all

lemma settle_exec:
  "resolved p n (instruction m path op pl h) status (what @ ''_held'') (what @ ''_failed'') (visit path v)
   = landed p (n + 1) (settle path n op status what (visit path v))"
  by (cases status) (simp_all add: resolved_def settle_def boundary_def pause_def waiting_def)

lemma leaf_exec:
  assumes "leaf ix path n st v = Some out" and "step_code path n st = [i]" and "payload_fits st"
  shows "exec_instruction p ix n i (visit path v) = landed p (n + 1) out"
proof (cases st)
  case (DoStep o')
  let ?i = "instruction n path Op_DO (operation_payload o') (source_hash (DoStep o'))"
  have "payload_text ?i ''operation_hash'' = Inr (operation_hash o')"
    unfolding operation_hash_def by (rule payload_digest_Ok) (simp add: operation_payload_def operation_hash_def)
  then show ?thesis
    using assms settle_exec [where what = "''operation''" and p = p and n = n and v = v and path = path]
    unfolding DoStep by (auto simp: exec_instruction_def exec_do_def pause_def boundary_def waiting_def split: option.splits)
next
  case (CallStep i' ver args)
  let ?i = "instruction n path Op_CALL [(''macro_id'', JStr i'), (''macro_version'', JStr ver), (''arguments'', JObj args),
        (''arguments_sha256'', JStr (canonical_sha256 (JObj args)))] (source_hash (CallStep i' ver args))"
  have "payload_text ?i ''macro_id'' = Inr i'" "payload_text ?i ''macro_version'' = Inr ver"
    using assms(3) unfolding CallStep by (auto intro: payload_text_Ok)
  moreover have "payload_text ?i ''arguments_sha256'' = Inr (canonical_sha256 (JObj args))"
    by (rule payload_digest_Ok) simp
  ultimately show ?thesis
    using assms settle_exec [where what = "''callee''" and p = p and n = n and v = v and path = path]
    unfolding CallStep by (auto simp: exec_instruction_def exec_call_def pause_def boundary_def waiting_def split: option.splits)
next
  case (CheckpointStep l)
  let ?i = "instruction n path Op_CHECKPOINT [(''label'', JStr l)] (source_hash (CheckpointStep l))"
  have "payload_text ?i ''label'' = Inr l" using assms(3) unfolding CheckpointStep by (auto intro: payload_text_Ok)
  then show ?thesis
    using assms settle_exec [where what = "''checkpoint''" and p = p and n = n and v = v and path = path]
    unfolding CheckpointStep
    by (auto simp: exec_instruction_def exec_checkpoint_def pause_def boundary_def waiting_def split: option.splits)
next
  case (ApproveStep b cs r)
  let ?i = "instruction n path Op_APPROVE [(''barrier_id'', JStr b), (''required_capabilities'', jstrs cs), (''reason'', JStr r),
        (''grants_authority'', JBool False)] (source_hash (ApproveStep b cs r))"
  have "payload_text ?i ''barrier_id'' = Inr b" using assms(3) unfolding ApproveStep by (auto intro: payload_text_Ok)
  moreover have "payload_string_list ?i ''required_capabilities'' = Inr cs"
    using assms(3) unfolding ApproveStep by (auto intro: payload_list_Ok)
  ultimately show ?thesis
    using assms unfolding ApproveStep
    by (auto simp: exec_instruction_def exec_approve_def pause_def boundary_def waiting_def split: option.splits)
qed (use assms(1) in auto)

lemma leaf_code:
  assumes "leaf ix path n st v = Some out"
  obtains i where "step_code path n st = [i]" and "pi_path i = path" and "code_size st = 1"
  using assms by (cases "(ix, path, n, st, v)" rule: leaf.cases) auto

lemma leaf_sim:
  assumes "leaf ix path n st v = Some out" and "at_code p n (step_code path n st)" and "payload_fits st"
  shows "advance_loop p ix (Suc budget) n v = after p ix budget (n + code_size st) out"
proof -
  obtain i where i: "step_code path n st = [i]" "pi_path i = path" "code_size st = 1" using leaf_code [OF assms(1)] .
  have "at_code p n [i]" using assms(2) i(1) by simp
  from advance_visit [OF this] show ?thesis using leaf_exec [OF assms(1) i(1) assms(3)] i by (simp add: after_landed)
qed

text \<open>The block instructions, one lemma per way through them.\<close>

lemma if_jumps:
  assumes code: "at_code p n (step_code path n (IfStep c t e))" and un: "unclashed (IfStep c t e)"
  defines "m \<equiv> n + 1 + codes_size t" and "h \<equiv> source_hash (IfStep c t e)" and "pl \<equiv> [(''condition_id'', JStr c)]"
  shows "at_code p n [instruction n path Op_IF_BEGIN pl h]" and "at_code p m [instruction m (path @ ''.else'') Op_ELSE pl h]"
    and "at_code p (m + 1 + codes_size e) [instruction (m + 1 + codes_size e) (path @ ''.end'') Op_IF_END pl h]"
    and "at_code p (n + 1) (steps_code (path @ ''.then'') 0 (n + 1) t)" and "at_code p (m + 1) (steps_code (path @ ''.else'') 0 (m + 1) e)"
    and "find_forward p n Op_ELSE h = Inr m" and "find_forward p m Op_IF_END h = Inr (m + 1 + codes_size e)"
proof -
  let ?i0 = "instruction n path Op_IF_BEGIN pl h" and ?i1 = "instruction m (path @ ''.else'') Op_ELSE pl h"
  let ?i2 = "instruction (m + 1 + codes_size e) (path @ ''.end'') Op_IF_END pl h"
  let ?then = "steps_code (path @ ''.then'') 0 (n + 1) t" and ?else = "steps_code (path @ ''.else'') 0 (m + 1) e"
  have all: "at_code p n ([?i0] @ ?then @ [?i1] @ ?else @ [?i2])" using code by (simp add: Let_def m_def h_def pl_def)
  then show "at_code p (n + 1) ?then" and "at_code p (m + 1) ?else" by (simp_all add: m_def)
  show "at_code p n [?i0]" "at_code p m [?i1]" "at_code p (m + 1 + codes_size e) [?i2]"
    using all by (simp_all add: m_def)
  have "find_forward p n Op_ELSE h = Inr (n + 1 + length ?then)"
  proof (rule find_forward_block)
    show "at_code p (n + 1) (?then @ [?i1])" using all by (simp add: m_def)
    show "\<forall>i \<in> set ?then. \<not> marks Op_ELSE h i" using un by (intro code_unmarked) (simp_all add: block_opcode_def h_def)
  qed (simp add: marks_def)
  then show "find_forward p n Op_ELSE h = Inr m" by (simp add: m_def)
  have "find_forward p m Op_IF_END h = Inr (m + 1 + length ?else)"
  proof (rule find_forward_block)
    show "at_code p (m + 1) (?else @ [?i2])" using all by (simp add: m_def)
    show "\<forall>i \<in> set ?else. \<not> marks Op_IF_END h i" using un by (intro code_unmarked) (simp_all add: block_opcode_def h_def)
  qed (simp add: marks_def)
  then show "find_forward p m Op_IF_END h = Inr (m + 1 + codes_size e)" by simp
qed

text \<open>Loops and collections: a begin marker, the body and an end marker.\<close>

lemma body_jumps:
  assumes code: "at_code p n ([instruction n path b pl h] @ steps_code (path @ ''.body'') 0 (n + 1) body @
      [instruction (n + 1 + codes_size body) (path @ ''.end'') e pl h])"
    and un: "h \<notin> source_hash ` set (blocks_of body)" and "block_opcode b" and "block_opcode e"
  defines "m \<equiv> n + 1 + codes_size body"
  shows "at_code p n [instruction n path b pl h]" and "at_code p m [instruction m (path @ ''.end'') e pl h]"
    and "at_code p (n + 1) (steps_code (path @ ''.body'') 0 (n + 1) body)"
    and "find_forward p n e h = Inr m" and "find_backward p m b h = Inr n"
proof -
  let ?i0 = "instruction n path b pl h" and ?i1 = "instruction m (path @ ''.end'') e pl h"
  let ?body = "steps_code (path @ ''.body'') 0 (n + 1) body"
  have all: "at_code p n ([?i0] @ ?body @ [?i1])" using code by (simp add: m_def)
  then show "at_code p (n + 1) ?body" "at_code p n [?i0]" "at_code p m [?i1]" by (simp_all add: m_def)
  have "find_forward p n e h = Inr (n + 1 + length ?body)"
  proof (rule find_forward_block)
    show "at_code p (n + 1) (?body @ [?i1])" using all by simp
    show "\<forall>j \<in> set ?body. \<not> marks e h j" using un assms(4) by (rule code_unmarked)
  qed (simp add: marks_def)
  then show "find_forward p n e h = Inr m" by (simp add: m_def)
  have "find_backward p (n + 1 + length ?body) b h = Inr n"
  proof (rule find_backward_block)
    show "at_code p n (?i0 # ?body)" using all by simp
    show "\<forall>j \<in> set ?body. \<not> marks b h j" using un assms(3) by (rule code_unmarked)
  qed (simp_all add: marks_def)
  then show "find_backward p m b h = Inr n" by (simp add: m_def)
qed

lemma loop_jumps:
  assumes code: "at_code p n (step_code path n (LoopStep i k body))" and un: "unclashed (LoopStep i k body)"
  defines "m \<equiv> n + 1 + codes_size body" and "h \<equiv> source_hash (LoopStep i k body)"
    and "pl \<equiv> [(''loop_id'', JStr i), (''max_iterations'', JInt k)]"
  shows "at_code p n [instruction n path Op_LOOP_BEGIN pl h]" and "at_code p m [instruction m (path @ ''.end'') Op_LOOP_END pl h]"
    and "at_code p (n + 1) (steps_code (path @ ''.body'') 0 (n + 1) body)"
    and "find_forward p n Op_LOOP_END h = Inr m" and "find_backward p m Op_LOOP_BEGIN h = Inr n"
proof -
  have "at_code p n ([instruction n path Op_LOOP_BEGIN pl h] @ steps_code (path @ ''.body'') 0 (n + 1) body @
      [instruction (n + 1 + codes_size body) (path @ ''.end'') Op_LOOP_END pl h])"
    using code by (simp add: Let_def h_def pl_def)
  note jumps = body_jumps [OF this]
  show "at_code p n [instruction n path Op_LOOP_BEGIN pl h]" "at_code p m [instruction m (path @ ''.end'') Op_LOOP_END pl h]"
    "at_code p (n + 1) (steps_code (path @ ''.body'') 0 (n + 1) body)"
    "find_forward p n Op_LOOP_END h = Inr m" "find_backward p m Op_LOOP_BEGIN h = Inr n"
    using jumps un unfolding m_def by (simp_all add: block_opcode_def h_def del: at_code_Cons)
qed

lemma each_jumps:
  assumes code: "at_code p n (step_code path n (ForEachStep i c k body))" and un: "unclashed (ForEachStep i c k body)"
  defines "m \<equiv> n + 1 + codes_size body" and "h \<equiv> source_hash (ForEachStep i c k body)"
    and "pl \<equiv> [(''item_name'', JStr i), (''collection_ref'', JStr c), (''max_items'', JInt k)]"
  shows "at_code p n [instruction n path Op_FOREACH_BEGIN pl h]" and "at_code p m [instruction m (path @ ''.end'') Op_FOREACH_END pl h]"
    and "at_code p (n + 1) (steps_code (path @ ''.body'') 0 (n + 1) body)"
    and "find_forward p n Op_FOREACH_END h = Inr m" and "find_backward p m Op_FOREACH_BEGIN h = Inr n"
proof -
  have "at_code p n ([instruction n path Op_FOREACH_BEGIN pl h] @ steps_code (path @ ''.body'') 0 (n + 1) body @
      [instruction (n + 1 + codes_size body) (path @ ''.end'') Op_FOREACH_END pl h])"
    using code by (simp add: Let_def h_def pl_def)
  note jumps = body_jumps [OF this]
  show "at_code p n [instruction n path Op_FOREACH_BEGIN pl h]" "at_code p m [instruction m (path @ ''.end'') Op_FOREACH_END pl h]"
    "at_code p (n + 1) (steps_code (path @ ''.body'') 0 (n + 1) body)"
    "find_forward p n Op_FOREACH_END h = Inr m" "find_backward p m Op_FOREACH_BEGIN h = Inr n"
    using jumps un unfolding m_def by (simp_all add: block_opcode_def h_def del: at_code_Cons)
qed

lemma if_steps:
  assumes code: "at_code p n (step_code path n (IfStep c t e))" and un: "unclashed (IfStep c t e)"
    and fits: "payload_fits (IfStep c t e)"
  defines "m \<equiv> n + 1 + codes_size t"
  shows "at_code p (n + 1) (steps_code (path @ ''.then'') 0 (n + 1) t)" and "at_code p (m + 1) (steps_code (path @ ''.else'') 0 (m + 1) e)"
    and "map_of (ix_conditions ix) c = None \<Longrightarrow> advance_loop p ix (Suc b) n v =
      run_state p n RS_WAITING_CONDITION ''condition_resolution_required'' (visit path v)
        (waiting path Op_IF_BEGIN @ [(''condition_id'', JStr c)])"
    and "map_of (ix_conditions ix) c = Some r \<Longrightarrow> cnr_value r \<Longrightarrow> advance_loop p ix (Suc b) n v = advance_loop p ix b (n + 1) (visit path v)"
    and "map_of (ix_conditions ix) c = Some r \<Longrightarrow> \<not> cnr_value r \<Longrightarrow>
      advance_loop p ix (Suc b) n v = advance_loop p ix b (m + 1) (visit path v)"
    and "advance_loop p ix (Suc b) m v = advance_loop p ix b (n + code_size (IfStep c t e)) (visit (path @ ''.else'') v)"
    and "advance_loop p ix (Suc b) (m + 1 + codes_size e) v =
      advance_loop p ix b (n + code_size (IfStep c t e)) (visit (path @ ''.end'') v)"
proof -
  let ?h = "source_hash (IfStep c t e)" and ?pl = "[(''condition_id'', JStr c)]"
  let ?i0 = "instruction n path Op_IF_BEGIN ?pl ?h"
  note jumps = if_jumps [OF code un, folded m_def]
  note at = jumps(1-3) and jump1 = jumps(6) and jump2 = jumps(7)
  show "at_code p (n + 1) (steps_code (path @ ''.then'') 0 (n + 1) t)" "at_code p (m + 1) (steps_code (path @ ''.else'') 0 (m + 1) e)"
    by (rule jumps(4), rule jumps(5))
  have size: "n + code_size (IfStep c t e) = m + 1 + codes_size e + 1" by (simp add: m_def codes_size_def)
  have c: "payload_text ?i0 ''condition_id'' = Inr c" using fits by (auto intro: payload_text_Ok)
  note visits = advance_visit [OF at(1)] advance_visit [OF at(2)] advance_visit [OF at(3)]
  show "map_of (ix_conditions ix) c = None \<Longrightarrow> advance_loop p ix (Suc b) n v =
      run_state p n RS_WAITING_CONDITION ''condition_resolution_required'' (visit path v)
        (waiting path Op_IF_BEGIN @ [(''condition_id'', JStr c)])"
    by (simp add: visits exec_instruction_def exec_if_begin_def c pause_def waiting_def)
  show "map_of (ix_conditions ix) c = Some r \<Longrightarrow> cnr_value r \<Longrightarrow> advance_loop p ix (Suc b) n v = advance_loop p ix b (n + 1) (visit path v)"
    by (simp add: visits exec_instruction_def exec_if_begin_def c)
  show "map_of (ix_conditions ix) c = Some r \<Longrightarrow> \<not> cnr_value r \<Longrightarrow>
      advance_loop p ix (Suc b) n v = advance_loop p ix b (m + 1) (visit path v)"
    by (simp add: visits exec_instruction_def exec_if_begin_def c jump1)
  show "advance_loop p ix (Suc b) m v = advance_loop p ix b (n + code_size (IfStep c t e)) (visit (path @ ''.else'') v)"
    unfolding size by (simp add: visits exec_instruction_def exec_else_def jump2)
  show "advance_loop p ix (Suc b) (m + 1 + codes_size e) v =
      advance_loop p ix b (n + code_size (IfStep c t e)) (visit (path @ ''.end'') v)"
    unfolding size by (subst advance_visit [OF at(3)]) (simp add: exec_instruction_def)
qed

lemma loop_steps:
  assumes code: "at_code p n (step_code path n (LoopStep i k body))" and un: "unclashed (LoopStep i k body)"
  defines "st \<equiv> LoopStep i k body"
  shows "at_code p (n + 1) (steps_code (path @ ''.body'') 0 (n + 1) body)"
    and "k \<le> int (rounds st v) \<Longrightarrow> advance_loop p ix (Suc b) n v = advance_loop p ix b (n + code_size st) (visit path v)"
    and "int (rounds st v) < k \<Longrightarrow> advance_loop p ix (Suc b) n v = advance_loop p ix b (n + 1) (visit path v)"
    and "advance_loop p ix (Suc b) (n + 1 + codes_size body) v = advance_loop p ix b n (next_round st (visit (path @ ''.end'') v))"
proof -
  let ?m = "n + 1 + codes_size body"
  let ?i0 = "instruction n path Op_LOOP_BEGIN [(''loop_id'', JStr i), (''max_iterations'', JInt k)] (source_hash st)"
  note jumps = loop_jumps [OF code un, folded st_def]
  note at = jumps(1,2) and jump1 = jumps(4) and jump2 = jumps(5)
  show "at_code p (n + 1) (steps_code (path @ ''.body'') 0 (n + 1) body)" by (rule jumps(3))
  have size: "n + code_size st = ?m + 1" by (simp add: st_def codes_size_def)
  have c: "payload_int ?i0 ''max_iterations'' = Inr k" by (simp add: payload_int_def)
  note visits = advance_visit [OF at(1)] advance_visit [OF at(2)]
  show "k \<le> int (rounds st v) \<Longrightarrow> advance_loop p ix (Suc b) n v = advance_loop p ix b (n + code_size st) (visit path v)"
    unfolding size by (simp add: visits exec_instruction_def exec_loop_begin_def c jump1)
  show "int (rounds st v) < k \<Longrightarrow> advance_loop p ix (Suc b) n v = advance_loop p ix b (n + 1) (visit path v)"
    by (simp add: visits exec_instruction_def exec_loop_begin_def c)
  show "advance_loop p ix (Suc b) ?m v = advance_loop p ix b n (next_round st (visit (path @ ''.end'') v))"
    by (subst advance_visit [OF at(2)]) (simp add: exec_instruction_def exec_loop_end_def Let_def jump2 [simplified] next_round_def)
qed

lemma each_steps:
  assumes code: "at_code p n (step_code path n (ForEachStep i c k body))" and un: "unclashed (ForEachStep i c k body)"
    and fits: "payload_fits (ForEachStep i c k body)"
  defines "st \<equiv> ForEachStep i c k body"
  shows "at_code p (n + 1) (steps_code (path @ ''.body'') 0 (n + 1) body)"
    and "map_of (ix_collections ix) c = None \<Longrightarrow> advance_loop p ix (Suc b) n v =
      run_state p n RS_WAITING_COLLECTION ''collection_resolution_required'' (visit path v)
        (waiting path Op_FOREACH_BEGIN @ [(''collection_ref'', JStr c)])"
    and "map_of (ix_collections ix) c = Some r \<Longrightarrow> k < int (length (clc_items r)) \<Longrightarrow> advance_loop p ix (Suc b) n v =
      run_state p n RS_HELD ''collection_bound_exceeded'' (visit path v) (waiting path Op_FOREACH_BEGIN)"
    and "map_of (ix_collections ix) c = Some r \<Longrightarrow> int (length (clc_items r)) \<le> k \<Longrightarrow> length (clc_items r) \<le> item_index st v \<Longrightarrow>
      advance_loop p ix (Suc b) n v = advance_loop p ix b (n + code_size st) (drop_item i (visit path v))"
    and "map_of (ix_collections ix) c = Some r \<Longrightarrow> int (length (clc_items r)) \<le> k \<Longrightarrow> item_index st v < length (clc_items r) \<Longrightarrow>
      advance_loop p ix (Suc b) n v = advance_loop p ix b (n + 1) (bind_item i (clc_items r ! item_index st v) (visit path v))"
    and "advance_loop p ix (Suc b) (n + 1 + codes_size body) v = advance_loop p ix b n (next_item st (visit (path @ ''.end'') v))"
proof -
  let ?m = "n + 1 + codes_size body"
  let ?i0 = "instruction n path Op_FOREACH_BEGIN [(''item_name'', JStr i), (''collection_ref'', JStr c), (''max_items'', JInt k)] (source_hash st)"
  note jumps = each_jumps [OF code un, folded st_def]
  note at = jumps(1,2) and jump1 = jumps(4) and jump2 = jumps(5)
  show "at_code p (n + 1) (steps_code (path @ ''.body'') 0 (n + 1) body)" by (rule jumps(3))
  have size: "n + code_size st = ?m + 1" by (simp add: st_def codes_size_def)
  have c: "payload_text ?i0 ''collection_ref'' = Inr c" "payload_text ?i0 ''item_name'' = Inr i"
    "payload_int ?i0 ''max_items'' = Inr k"
    using fits by (auto simp: payload_int_def intro: payload_text_Ok)
  note visits = advance_visit [OF at(1)] advance_visit [OF at(2)]
  note begins = visits exec_instruction_def exec_foreach_begin_def c
  show "map_of (ix_collections ix) c = None \<Longrightarrow> advance_loop p ix (Suc b) n v =
      run_state p n RS_WAITING_COLLECTION ''collection_resolution_required'' (visit path v)
        (waiting path Op_FOREACH_BEGIN @ [(''collection_ref'', JStr c)])"
    by (simp add: begins pause_def waiting_def)
  show "map_of (ix_collections ix) c = Some r \<Longrightarrow> k < int (length (clc_items r)) \<Longrightarrow> advance_loop p ix (Suc b) n v =
      run_state p n RS_HELD ''collection_bound_exceeded'' (visit path v) (waiting path Op_FOREACH_BEGIN)"
    by (simp add: begins boundary_def pause_def waiting_def)
  show "map_of (ix_collections ix) c = Some r \<Longrightarrow> int (length (clc_items r)) \<le> k \<Longrightarrow> length (clc_items r) \<le> item_index st v \<Longrightarrow>
      advance_loop p ix (Suc b) n v = advance_loop p ix b (n + code_size st) (drop_item i (visit path v))"
    unfolding size by (simp add: begins Let_def jump1 drop_item_def)
  show "map_of (ix_collections ix) c = Some r \<Longrightarrow> int (length (clc_items r)) \<le> k \<Longrightarrow> item_index st v < length (clc_items r) \<Longrightarrow>
      advance_loop p ix (Suc b) n v = advance_loop p ix b (n + 1) (bind_item i (clc_items r ! item_index st v) (visit path v))"
    by (simp add: begins Let_def bind_item_def)
  show "advance_loop p ix (Suc b) ?m v = advance_loop p ix b n (next_item st (visit (path @ ''.end'') v))"
    by (subst advance_visit [OF at(2)]) (simp add: exec_instruction_def exec_foreach_end_def Let_def jump2 [simplified] next_item_def)
qed

text \<open>From instruction \<open>n\<close> in \<open>v\<close> the runner reaches the verdict \<open>out\<close>, for a normal end at instruction \<open>k\<close>, in as
  many transitions as the environment of the verdict counts.\<close>

definition follows :: "macro_plan \<Rightarrow> resolutions \<Rightarrow> nat \<Rightarrow> run_env \<Rightarrow> nat \<Rightarrow> verdict \<Rightarrow> bool" where
  "follows p ix n v k out \<longleftrightarrow> (\<exists>c. ev_transitions (verdict_env out) = ev_transitions v + c \<and>
     (\<forall>b. advance_loop p ix (b + c) n v = after p ix b k out))"

lemma follows_refl: "follows p ix n v n (Continue v)"
  by (auto simp: follows_def)

lemma follows_once:
  assumes "\<And>b. advance_loop p ix (Suc b) n v = after p ix b k out" and "ev_transitions (verdict_env out) = Suc (ev_transitions v)"
  shows "follows p ix n v k out"
  using assms by (auto simp: follows_def intro!: exI [of _ 1])

lemma follows_trans:
  assumes "follows p ix n v m (Continue v')" and "follows p ix m v' k out"
  shows "follows p ix n v k out"
proof -
  obtain c where c: "ev_transitions v' = ev_transitions v + c" "\<And>b. advance_loop p ix (b + c) n v = advance_loop p ix b m v'"
    using assms(1) by (auto simp: follows_def)
  obtain d where d: "ev_transitions (verdict_env out) = ev_transitions v' + d" "\<And>b. advance_loop p ix (b + d) m v' = after p ix b k out"
    using assms(2) by (auto simp: follows_def)
  show ?thesis unfolding follows_def
    using c(1) d(1) c(2) [of "_ + d"] d(2) by (intro exI [of _ "d + c"]) (simp add: add.assoc)
qed

lemma follows_step:
  assumes "\<And>b. advance_loop p ix (Suc b) n v = advance_loop p ix b m v'" and "ev_transitions v' = Suc (ev_transitions v)"
    and "follows p ix m v' k out"
  shows "follows p ix n v k out"
  using assms by (intro follows_trans [OF follows_once [of p ix n v m "Continue v'"]]) simp_all

lemma follows_Stop: "follows p ix n v k (Stop j status reason w v') \<Longrightarrow> follows p ix n v l (Stop j status reason w v')"
  by (simp add: follows_def)

lemma leaf_transitions: "leaf ix path n st v = Some out \<Longrightarrow> ev_transitions (verdict_env out) = Suc (ev_transitions v)"
  by (cases "(ix, path, n, st, v)" rule: leaf.cases)
    (auto simp: settle_def split: option.splits if_splits resolution_status.splits)

lemma transitions_unchanged [simp]:
  "ev_transitions (next_round st v) = ev_transitions v" "ev_transitions (next_item st v) = ev_transitions v"
  "ev_transitions (bind_item i x v) = ev_transitions v" "ev_transitions (drop_item i v) = ev_transitions v"
  by (simp_all add: next_round_def next_item_def bind_item_def drop_item_def)

lemma runner_follows:
  "sem ix path n st v out \<Longrightarrow> at_code p n (step_code path n st) \<Longrightarrow> unclashed st \<Longrightarrow> payload_fits st \<Longrightarrow>
     follows p ix n v (n + code_size st) out"
  "sems ix base j n sts v out \<Longrightarrow> at_code p n (steps_code base j n sts) \<Longrightarrow> list_all unclashed sts \<Longrightarrow> list_all payload_fits sts \<Longrightarrow>
     follows p ix n v (n + codes_size sts) out"
proof (induction path n st v out and base j n sts v out rule: sem_sems.inducts)
  case (Leaf path n st v out)
  then show ?case by (intro follows_once leaf_sim leaf_transitions)
next
  case (IfWaits c path n t e v)
  note steps = if_steps [OF IfWaits.prems]
  show ?case using steps(3) [OF IfWaits.IH] by (intro follows_once) simp_all
next
  case (IfThen c r path n t v v' e)
  note steps = if_steps [OF IfThen.prems]
  have body: "follows p ix (n + 1) (visit path v) (n + 1 + codes_size t) (Continue v')"
    using IfThen.IH(3) IfThen.prems steps(1) by simp
  then show ?case using steps(4) [OF IfThen.IH(1) IfThen.hyps] steps(6)
    by (intro follows_step [OF _ _ follows_trans [OF body follows_once]]) simp_all
next
  case (IfThenStops c r path n t v k status reason w v' e)
  note steps = if_steps [OF IfThenStops.prems]
  have body: "follows p ix (n + 1) (visit path v) (n + 1 + codes_size t) (Stop k status reason w v')"
    using IfThenStops.IH(3) IfThenStops.prems steps(1) by simp
  then show ?case using steps(4) [OF IfThenStops.IH(1) IfThenStops.hyps] by (intro follows_step [OF _ _ follows_Stop [OF body]]) simp_all
next
  case (IfElse c r path n t e v v')
  note steps = if_steps [OF IfElse.prems]
  have body: "follows p ix (n + 1 + codes_size t + 1) (visit path v) (n + 1 + codes_size t + 1 + codes_size e) (Continue v')"
    using IfElse.IH(3) IfElse.prems steps(2) by simp
  then show ?case using steps(5) [OF IfElse.IH(1) IfElse.hyps] steps(7)
    by (intro follows_step [OF _ _ follows_trans [OF body follows_once]]) simp_all
next
  case (IfElseStops c r path n t e v k status reason w v')
  note steps = if_steps [OF IfElseStops.prems]
  have body: "follows p ix (n + 1 + codes_size t + 1) (visit path v) (n + 1 + codes_size t + 1 + codes_size e) (Stop k status reason w v')"
    using IfElseStops.IH(3) IfElseStops.prems steps(2) by simp
  then show ?case using steps(5) [OF IfElseStops.IH(1) IfElseStops.hyps] by (intro follows_step [OF _ _ follows_Stop [OF body]]) simp_all
next
  case (LoopDone m i b v path n)
  note steps = loop_steps [OF LoopDone.prems(1,2)]
  show ?case using steps(2) [OF LoopDone.hyps] by (intro follows_once) simp_all
next
  case (LoopRound i m b v path n v' out)
  note steps = loop_steps [OF LoopRound.prems(1,2)]
  have body: "follows p ix (n + 1) (visit path v) (n + 1 + codes_size b) (Continue v')"
    using LoopRound.IH(2) LoopRound.prems steps(1) by simp
  have again: "follows p ix (n + 1 + codes_size b) v' (n + code_size (LoopStep i m b)) out"
    by (rule follows_step [OF steps(4) _ LoopRound.IH(4) [OF LoopRound.prems]]) simp
  show ?case by (rule follows_step [OF steps(3) [OF LoopRound.hyps] _ follows_trans [OF body again]]) simp
next
  case (LoopStops i m b v path n k status reason w v')
  note steps = loop_steps [OF LoopStops.prems(1,2)]
  have body: "follows p ix (n + 1) (visit path v) (n + 1 + codes_size b) (Stop k status reason w v')"
    using LoopStops.IH(2) LoopStops.prems steps(1) by simp
  then show ?case using steps(3) [OF LoopStops.hyps(1)] by (intro follows_step [OF _ _ follows_Stop [OF body]]) simp_all
next
  case (EachWaits c path n i m b v)
  note steps = each_steps [OF EachWaits.prems]
  show ?case using steps(2) [OF EachWaits.IH] by (intro follows_once) simp_all
next
  case (EachExceeds c r m path n i b v)
  note steps = each_steps [OF EachExceeds.prems]
  show ?case using steps(3) [OF EachExceeds.IH EachExceeds.hyps] by (intro follows_once) simp_all
next
  case (EachDone c r m i b v path n)
  note steps = each_steps [OF EachDone.prems]
  show ?case using steps(4) [OF EachDone.IH EachDone.hyps] by (intro follows_once) simp_all
next
  case (EachRound c r m i b v k path n v' out)
  note steps = each_steps [OF EachRound.prems]
  have body: "follows p ix (n + 1) (bind_item i (clc_items r ! k) (visit path v)) (n + 1 + codes_size b) (Continue v')"
    using EachRound.IH(3) EachRound.prems steps(1) by simp
  have small: "item_index (ForEachStep i c m b) v < length (clc_items r)" using EachRound.hyps by simp
  have again: "follows p ix (n + 1 + codes_size b) v' (n + code_size (ForEachStep i c m b)) out"
    by (rule follows_step [OF steps(6) _ EachRound.IH(5) [OF EachRound.prems]]) simp
  have enter: "advance_loop p ix (Suc b') n v = advance_loop p ix b' (n + 1) (bind_item i (clc_items r ! k) (visit path v))" for b'
    using steps(5) [OF EachRound.IH(1) EachRound.hyps(1) small] EachRound.hyps(2) by simp
  show ?case by (rule follows_step [OF enter _ follows_trans [OF body again]]) simp
next
  case (EachStops c r m i b v k path n k' status reason w v')
  note steps = each_steps [OF EachStops.prems]
  have body: "follows p ix (n + 1) (bind_item i (clc_items r ! k) (visit path v)) (n + 1 + codes_size b) (Stop k' status reason w v')"
    using EachStops.IH(3) EachStops.prems steps(1) by simp
  have small: "item_index (ForEachStep i c m b) v < length (clc_items r)" using EachStops.hyps by simp
  show ?case using steps(5) [OF EachStops.IH(1) EachStops.hyps(1) small] EachStops.hyps(2)
    by (intro follows_step [OF _ _ follows_Stop [OF body]]) simp_all
next
  case (Nil base j n v)
  then show ?case by (simp add: follows_refl codes_size_def)
next
  case (Cons base j n st v v' rest out)
  then show ?case by (auto simp: add.assoc codes_size_def intro: follows_trans)
next
  case (ConsStops base j n st v k status reason w v' rest)
  then show ?case by (auto intro: follows_Stop)
qed

end
