(* ===== verification/Macro_Runs.thy ===== *)
theory Macro_Runs
  imports Macro_Semantics
begin

text \<open>
  What the runner of \<open>macro_runner.py\<close> guarantees for the plans \<open>make_plan\<close> builds: it never raises, it
  follows the meaning of the steps, it always reaches a verdict, and a run that completes, however
  often it was paused and resumed, had a matching resolution for every step that needs one.
\<close>

section \<open>Run states never fail to build\<close>

definition env_ok :: "run_env \<Rightarrow> bool" where
  "env_ok v \<longleftrightarrow> list_all is_sha256 (map fst (ev_loops v)) \<and> list_all is_sha256 (map fst (ev_foreach v)) \<and>
     (case ev_last v of None \<Rightarrow> True | Some p \<Rightarrow> plain_text 512 p)"

fun verdict_ok :: "verdict \<Rightarrow> bool" where
  "verdict_ok (Stop n status reason w v) \<longleftrightarrow>
     env_ok v \<and> plain_text 512 reason \<and> status \<notin> {RS_READY, RS_RUNNING, RS_COMPLETED, RS_ABORTED}"
| "verdict_ok (Continue v) \<longleftrightarrow> env_ok v"

definition plain_paths :: "plan_instruction list \<Rightarrow> bool" where
  "plain_paths is \<longleftrightarrow> list_all (\<lambda>i. plain_text 512 (pi_path i)) is"

lemma plain_paths_simps [simp]:
  "plain_paths []" "plain_paths (i # is) \<longleftrightarrow> plain_text 512 (pi_path i) \<and> plain_paths is"
  "plain_paths (xs @ ys) \<longleftrightarrow> plain_paths xs \<and> plain_paths ys"
  by (simp_all add: plain_paths_def)

lemma dict_set_keys_ok: "q k \<Longrightarrow> list_all q (map fst d) \<Longrightarrow> list_all q (map fst (dict_set k x d))"
  unfolding list_all_iff set_map keys_dict_set by simp

lemma env_ok_simps [simp]:
  "env_ok (bind_item i x v) \<longleftrightarrow> env_ok v" "env_ok (drop_item i v) \<longleftrightarrow> env_ok v"
  "env_ok v \<Longrightarrow> env_ok (next_round st v)" "env_ok v \<Longrightarrow> env_ok (next_item st v)"
  "env_ok v \<Longrightarrow> plain_text 512 path \<Longrightarrow> env_ok (v\<lparr>ev_transitions := t, ev_last := Some path\<rparr>)"
  by (simp_all add: env_ok_def bind_item_def drop_item_def next_round_def next_item_def source_hash_def dict_set_keys_ok)

lemma plain_reasons [simp]:
  "plain_text 512 ''operation_resolution_required''" "plain_text 512 ''operation_resolution_scope_mismatch''"
  "plain_text 512 ''operation_held''" "plain_text 512 ''operation_failed''"
  "plain_text 512 ''callee_resolution_required''" "plain_text 512 ''callee_resolution_scope_mismatch''"
  "plain_text 512 ''callee_held''" "plain_text 512 ''callee_failed''"
  "plain_text 512 ''checkpoint_resolution_required''" "plain_text 512 ''checkpoint_resolution_scope_mismatch''"
  "plain_text 512 ''checkpoint_held''" "plain_text 512 ''checkpoint_failed''"
  "plain_text 512 ''approval_resolution_required''" "plain_text 512 ''approval_resolution_scope_mismatch''"
  "plain_text 512 ''approval_not_granted''" "plain_text 512 ''condition_resolution_required''"
  "plain_text 512 ''collection_resolution_required''" "plain_text 512 ''collection_bound_exceeded''"
  "plain_text 512 ''plan_ready''" "plain_text 512 ''plan_completed''" "plain_text 512 ''advance_transition_budget_exhausted''"
  by (simp_all add: plain_text_def is_control_def)

lemma leaf_ok:
  assumes "leaf ix path n st v = Some out" and "env_ok v" and "plain_paths (step_code path n st)"
  shows "verdict_ok out"
  using assms
  by (cases "(ix, path, n, st, v)" rule: leaf.cases)
    (auto simp: settle_def split: option.splits if_splits resolution_status.splits)

lemma sem_ok:
  "sem ix path n st v out \<Longrightarrow> env_ok v \<Longrightarrow> plain_paths (step_code path n st) \<Longrightarrow> verdict_ok out"
  "sems ix base j n sts v out \<Longrightarrow> env_ok v \<Longrightarrow> plain_paths (steps_code base j n sts) \<Longrightarrow> verdict_ok out"
proof (induction path n st v out and base j n sts v out rule: sem_sems.inducts)
  case (Leaf path n st v out)
  then show ?case by (rule leaf_ok)
qed (auto simp: Let_def)

section \<open>Every run ends\<close>

lemma counters_grow:
  "sem ix path n st v out \<Longrightarrow> dict_get h 0 (ev_loops v) \<le> dict_get h 0 (ev_loops (verdict_env out))
     \<and> dict_get h 0 (ev_foreach v) \<le> dict_get h 0 (ev_foreach (verdict_env out))"
  "sems ix base j n sts v out \<Longrightarrow> dict_get h 0 (ev_loops v) \<le> dict_get h 0 (ev_loops (verdict_env out))
     \<and> dict_get h 0 (ev_foreach v) \<le> dict_get h 0 (ev_foreach (verdict_env out))"
proof (induction path n st v out and base j n sts v out rule: sem_sems.inducts)
  case (Leaf path n st v out)
  then show ?case
    by (cases "(ix, path, n, st, v)" rule: leaf.cases)
      (auto simp: settle_def split: option.splits if_splits resolution_status.splits)
next
  case (LoopRound i m b v path n v' out)
  then show ?case by (auto simp: next_round_def split: if_splits)
next
  case (EachRound c r m i b v k path n v' out)
  then show ?case by (auto simp: next_item_def bind_item_def split: if_splits)
qed (auto simp: bind_item_def drop_item_def)

lemma verdict_cases: obtains (stops) k status reason w v where "out = Stop k status reason w v" | (goes) v where "out = Continue v"
  by (cases out) auto

lemma loop_ends:
  assumes "\<And>v. \<exists>out. sems ix (path @ ''.body'') 0 (n + 1) b v out"
  shows "\<exists>out. sem ix path n (LoopStep i m b) v out"
proof (induction "nat (m - int (rounds (LoopStep i m b) v))" arbitrary: v rule: less_induct)
  case less
  let ?st = "LoopStep i m b"
  show ?case
  proof (cases "m \<le> int (rounds ?st v)")
    case False
    obtain out where body: "sems ix (path @ ''.body'') 0 (n + 1) b (visit path v) out" using assms by blast
    show ?thesis
    proof (cases out rule: verdict_cases)
      case (goes v')
      let ?v = "next_round ?st (visit (path @ ''.end'') v')"
      have "rounds ?st v \<le> rounds ?st v'" using counters_grow(2) [OF body, of "source_hash ?st"] goes by simp
      then have "rounds ?st v < rounds ?st ?v" by (simp add: next_round_def)
      then have "nat (m - int (rounds ?st ?v)) < nat (m - int (rounds ?st v))" using False by simp
      then obtain out' where "sem ix path n ?st ?v out'" using less by blast
      then show ?thesis using body goes False by (intro exI) (rule LoopRound; simp)
    next
      case (stops k status reason w v')
      then show ?thesis using body False by (intro exI) (rule LoopStops; simp)
    qed
  qed (auto intro: LoopDone)
qed

lemma foreach_ends:
  assumes "\<And>v. \<exists>out. sems ix (path @ ''.body'') 0 (n + 1) b v out"
  shows "\<exists>out. sem ix path n (ForEachStep i c m b) v out"
proof (cases "map_of (ix_collections ix) c")
  case None
  then show ?thesis by (auto intro: EachWaits)
next
  case (Some r)
  let ?st = "ForEachStep i c m b"
  show ?thesis
  proof (cases "m < int (length (clc_items r))")
    case True
    then show ?thesis using Some by (auto intro: EachExceeds)
  next
    case False
    show ?thesis
    proof (induction "length (clc_items r) - item_index ?st v" arbitrary: v rule: less_induct)
      case less
      show ?case
      proof (cases "length (clc_items r) \<le> item_index ?st v")
        case True
        then show ?thesis using Some False by (intro exI) (rule EachDone; simp)
      next
        case inside: False
        let ?enter = "bind_item i (clc_items r ! item_index ?st v) (visit path v)"
        obtain out where body: "sems ix (path @ ''.body'') 0 (n + 1) b ?enter out" using assms by blast
        show ?thesis
        proof (cases out rule: verdict_cases)
          case (goes v')
          let ?v = "next_item ?st (visit (path @ ''.end'') v')"
          have "item_index ?st v \<le> item_index ?st v'"
            using counters_grow(2) [OF body, of "source_hash ?st"] goes by (simp add: bind_item_def)
          then have "item_index ?st v < item_index ?st ?v" by (simp add: next_item_def)
          then have "length (clc_items r) - item_index ?st ?v < length (clc_items r) - item_index ?st v" using inside by simp
          then obtain out' where "sem ix path n ?st ?v out'" using less by blast
          then show ?thesis using Some False inside body goes by (intro exI) (rule EachRound; simp)
        next
          case (stops k status reason w v')
          then show ?thesis using Some False inside body by (intro exI) (rule EachStops; simp)
        qed
      qed
    qed
  qed
qed

lemma steps_end:
  "\<exists>out. sem ix path n st v out"
  "\<exists>out. sems ix base j n sts v out"
proof (induction path n st and base j n sts arbitrary: v and v rule: step_code_steps_code.induct)
  case (2 path n c t e)
  show ?case
  proof (cases "map_of (ix_conditions ix) c")
    case None
    then show ?thesis by (auto intro: IfWaits)
  next
    case (Some r)
    show ?thesis
    proof (cases "cnr_value r")
      case True
      obtain out where "sems ix (path @ ''.then'') 0 (n + 1) t (visit path v) out" using 2(1) by blast
      then show ?thesis using Some True by (cases out rule: verdict_cases) (blast intro: IfThen IfThenStops)+
    next
      case False
      obtain out where "sems ix (path @ ''.else'') 0 (n + 1 + codes_size t + 1) e (visit path v) out" using 2(2) by blast
      then show ?thesis using Some False by (cases out rule: verdict_cases) (blast intro: IfElse IfElseStops)+
    qed
  qed
next
  case (3 path n i m b)
  then show ?case by (intro loop_ends) blast
next
  case (4 path n i c m b)
  then show ?case by (intro foreach_ends) blast
next
  case (9 base j n st rest)
  obtain out where st: "sem ix (base @ ''.'' @ show_nat j) n st v out" using 9(1) by blast
  show ?case
  proof (cases out rule: verdict_cases)
    case (goes v')
    obtain out' where "sems ix base (Suc j) (n + code_size st) rest v' out'" using 9(2) by blast
    then show ?thesis using st goes by (blast intro: Cons)
  qed (use st in \<open>blast intro: ConsStops\<close>)
qed ((rule exI, rule Leaf, rule leaf.simps)+, rule exI, rule Nil)

section \<open>What a run reports\<close>

definition holds_env :: "run_env \<Rightarrow> macro_run_state \<Rightarrow> bool" where
  "holds_env v t \<longleftrightarrow> mrs_loop_iterations t = sort_key fst (ev_loops v) \<and> mrs_foreach_indices t = sort_key fst (ev_foreach v)
     \<and> mrs_variables t = Some (ev_variables v) \<and> mrs_transitions t = ev_transitions v
     \<and> mrs_last_instruction_path t = ev_last v"

fun reports :: "macro_plan \<Rightarrow> verdict \<Rightarrow> macro_run_state \<Rightarrow> bool" where
  "reports p (Stop k status reason w v) t \<longleftrightarrow> mrs_cursor t = k \<and> mrs_status t = status \<and> mrs_reason t = reason
     \<and> mrs_waiting_on t = Some w \<and> holds_env v t"
| "reports p (Continue v) t \<longleftrightarrow> mrs_cursor t = length (pl_instructions p) \<and> mrs_status t = RS_COMPLETED
     \<and> mrs_reason t = ''plan_completed'' \<and> mrs_waiting_on t = Some [] \<and> holds_env v t"

definition plan_named :: "macro_plan \<Rightarrow> bool" where
  "plan_named p \<longleftrightarrow> plain_text 512 (pl_macro_id p) \<and> plain_text 128 (pl_macro_version p)"

lemma run_state_Ok:
  assumes "plan_named p" and "env_ok v" and "plain_text 512 reason"
  shows "\<exists>t. run_state p k status reason v w = Inr t \<and> mrs_cursor t = k \<and> mrs_status t = status \<and> mrs_reason t = reason
    \<and> mrs_waiting_on t = Some w \<and> holds_env v t \<and> mrs_plan_sha256 t = plan_sha256 p \<and> mrs_macro_id t = pl_macro_id p
    \<and> mrs_macro_version t = pl_macro_version p"
proof -
  have keys: "(\<forall>x \<in> set (sort_key fst d). case x of (k, n) \<Rightarrow> rn_require_sha256 k f = Inr ())"
    if "list_all is_sha256 (map fst d)" for d :: "(string \<times> nat) list" and f
    using that by (auto simp: list_all_iff rn_require_sha256_def discard_Ok_iff result_simps)
  have "plain_text 512 q" if "ev_last v = Some q" for q using assms(2) that by (simp add: env_ok_def)
  then show ?thesis
    using assms keys
    by (auto simp: run_state_def mrs_init_def validated_Ok_iff first_error_Ok_iff rn_text_def rn_require_text_def discard_text_Ok_iff
        plan_named_def env_ok_def rn_require_sha256_def discard_Ok_iff result_simps plan_sha256_def list_all_iff holds_env_def
        MACRO_RUN_STATE_SCHEMA_VERSION_def split: option.splits prod.splits)
qed

lemma planned:
  assumes "md_init d = Inr d" and "make_plan d = Inr p"
  shows "pl_instructions p = steps_code ''root'' 0 0 (md_steps d)" and "plan_named p" and "list_all payload_fits (md_steps d)"
    and "plain_paths (steps_code ''root'' 0 0 (md_steps d))" and "at_code p 0 (steps_code ''root'' 0 0 (md_steps d))"
proof -
  have ok: "md_ok d" and valid: "validate_definition d = Inr ()"
    using assms by (auto simp: md_ok_def make_plan_def rbind_Ok_iff)
  note plan = make_plan_valid [OF this]
  show code: "pl_instructions p = steps_code ''root'' 0 0 (md_steps d)" using plan(1) assms(2) by simp
  show "plan_named p" using plan(1) assms
    by (auto simp: plan_named_def md_init_def validated_Ok_iff first_error_Ok_Cons plain_text_def)
  show "list_all payload_fits (md_steps d)"
    using valid by (auto simp: validate_definition_def rbind_Ok_iff intro: validated_fits)
  show "plain_paths (steps_code ''root'' 0 0 (md_steps d))"
    using plan(2) by (auto simp: plain_paths_def list_all_iff intro: path_ok_plain)
  show "at_code p 0 (steps_code ''root'' 0 0 (md_steps d))" by (simp add: at_code_def code)
qed

lemma start_env_ok [simp]: "env_ok start_env"
  by (simp add: env_ok_def start_env_def)

lemma started:
  assumes "runner_start p = Inr s"
  shows "env_of s = start_env" "mrs_cursor s = 0" "mrs_status s = RS_READY" "validate_resume p s = Inr ()"
  using assms
  by (auto simp: runner_start_def run_state_def mrs_init_def validated_Ok_iff env_of_def start_env_def dict_of_def or_empty_def
      validate_resume_def first_error_Ok_Cons)

lemma after_reports:
  assumes "plan_named p" and "verdict_ok out" and "k = length (pl_instructions p)"
  shows "\<exists>t. after p ix b k out = Inr t \<and> reports p out t"
proof (cases out rule: verdict_cases)
  case (stops n status reason w v)
  then show ?thesis using assms run_state_Ok [of p v reason n status w] by auto
next
  case (goes v)
  then show ?thesis using assms run_state_Ok [of p v "''plan_completed''" "length (pl_instructions p)" RS_COMPLETED "[]"]
    by (auto simp: advance_loop.simps [of p ix b])
qed

lemma planned_run:
  assumes d: "md_init d = Inr d" "make_plan d = Inr p" and "list_all unclashed (md_steps d)"
    and run: "sems ix ''root'' 0 0 (md_steps d) start_env out" and "ev_transitions (verdict_env out) \<le> b"
  shows "\<exists>t. advance_loop p ix b 0 start_env = Inr t \<and> reports p out t"
proof -
  note plan = planned [OF d]
  have "follows p ix 0 start_env (codes_size (md_steps d)) out"
    using runner_follows(2) [OF run plan(5) assms(3) plan(3)] by simp
  then obtain c where c: "ev_transitions (verdict_env out) = c"
      "\<And>b. advance_loop p ix (b + c) 0 start_env = after p ix b (codes_size (md_steps d)) out"
    by (auto simp: follows_def start_env_def)
  have "advance_loop p ix b 0 start_env = after p ix (b - c) (codes_size (md_steps d)) out"
    using c(2) [of "b - c"] c(1) assms(5) by simp
  then show ?thesis
    using after_reports [OF plan(2) sem_ok(2) [OF run]] plan(1,4) by simp
qed

text \<open>C15: The runner implements the steps.  When a definition is planned, a run started and advanced with
  resolutions under which the steps have the verdict \<open>out\<close> within \<open>m\<close> transitions, then \<open>advance\<close> does
  not raise and its state reports exactly that verdict: the instruction, reason and description of the
  first step that stops it, or completion, with the variables, counters and transitions of the steps;
  unless two different blocks of the definition have the same SHA-256 digest.\<close>

theorem planned_run_follows_steps:
  assumes "md_init d = Ok d" and "make_plan d = Ok p" and "runner_start p = Ok s" and "index_inputs i = Ok ix"
    and "sems ix ''root'' 0 0 (md_steps d) start_env out" and "ev_transitions (verdict_env out) \<le> nat m" and "1 \<le> m" and "m \<le> 50000"
  shows "digest_clash (md_steps d) \<or> (\<exists>t. advance p s (Some i) m = Ok t \<and> reports p out t)"
proof -
  have "\<exists>t. advance_loop p ix (nat m) 0 start_env = Inr t \<and> reports p out t" if "list_all unclashed (md_steps d)"
    using assms that by (intro planned_run) auto
  then show ?thesis
    using clash_or_unclashed [of "md_steps d"] started [OF assms(3)] assms(4,7,8)
    by (auto simp: advance_def TERMINAL_STATUSES_def MAX_ADVANCE_TRANSITIONS_def)
qed

text \<open>C16: Every macro ends.  Whatever resolutions are supplied, the steps of a planned definition have a verdict,
  and there is a number of transitions from which on the runner reports it: no loop or collection keeps
  a run going for ever.\<close>

theorem every_planned_run_ends:
  assumes "md_init d = Ok d" and "make_plan d = Ok p" and "runner_start p = Ok s"
  shows "digest_clash (md_steps d) \<or> (\<exists>out n. sems ix ''root'' 0 0 (md_steps d) start_env out
    \<and> (\<forall>b \<ge> n. \<exists>t. advance_loop p ix b (mrs_cursor s) (env_of s) = Ok t \<and> reports p out t))"
proof -
  obtain out where out: "sems ix ''root'' 0 0 (md_steps d) start_env out" using steps_end(2) by blast
  have "\<forall>b \<ge> ev_transitions (verdict_env out). \<exists>t. advance_loop p ix b (mrs_cursor s) (env_of s) = Inr t \<and> reports p out t"
    if "list_all unclashed (md_steps d)"
    using planned_run [OF assms(1,2) that out] started [OF assms(3)] by simp
  then show ?thesis using clash_or_unclashed [of "md_steps d"] out by blast
qed

section \<open>Runs that are paused and resumed\<close>

text \<open>
  A run is a chain of states that starts with \<open>start\<close> and goes on with \<open>advance\<close>, each time with
  other resolutions and another budget, or with \<open>abort\<close>.  Its history is the list of resolutions supplied.
  Between two steps the state may have been kept and read back, whatever became of the order of its dicts.
\<close>

inductive macro_run :: "macro_plan \<Rightarrow> runner_inputs list \<Rightarrow> macro_run_state \<Rightarrow> bool" for p where
  Started: "runner_start p = Ok s \<Longrightarrow> macro_run p [] s"
| Advanced: "macro_run p h s \<Longrightarrow> advance p s inputs m = Ok t \<Longrightarrow>
    macro_run p (h @ [case inputs of None \<Rightarrow> no_inputs | Some i \<Rightarrow> i]) t"
| Aborted: "macro_run p h s \<Longrightarrow> runner_abort p s reason = Ok t \<Longrightarrow> macro_run p h t"
| Reread: "macro_run p h s \<Longrightarrow> macro_run p h (s\<lparr>mrs_variables := vs, mrs_waiting_on := ws\<rparr>)"

text \<open>The resolution that lets a run pass a step.\<close>

fun supplied :: "runner_inputs \<Rightarrow> string \<Rightarrow> macro_step \<Rightarrow> bool" where
  "supplied i path (DoStep o') \<longleftrightarrow> (\<exists>r \<in> set (in_operations i). orr_instruction_path r = path
     \<and> orr_operation_hash r = operation_hash o' \<and> orr_status r = RES_SUCCEEDED)"
| "supplied i path (CallStep m ver args) \<longleftrightarrow> (\<exists>r \<in> set (in_calls i). clr_instruction_path r = path \<and> clr_macro_id r = m
     \<and> clr_macro_version r = ver \<and> clr_arguments_sha256 r = canonical_sha256 (JObj args) \<and> clr_status r = RES_SUCCEEDED)"
| "supplied i path (CheckpointStep l) \<longleftrightarrow> (\<exists>r \<in> set (in_checkpoints i). ckr_instruction_path r = path \<and> ckr_label r = l
     \<and> ckr_status r = RES_SUCCEEDED)"
| "supplied i path (ApproveStep b cs reason) \<longleftrightarrow> (\<exists>r \<in> set (in_approvals i). apr_barrier_id r = b
     \<and> apr_required_capabilities r = cs \<and> apr_approved r)"
| "supplied i path (IfStep c t e) \<longleftrightarrow> (\<exists>r \<in> set (in_conditions i). cnr_condition_id r = c)"
| "supplied i path (ForEachStep name c m b) \<longleftrightarrow> (\<exists>r \<in> set (in_collections i). clc_collection_ref r = c \<and> int (length (clc_items r)) \<le> m)"
| "supplied i path (LoopStep l m b) \<longleftrightarrow> True"

lemma unique_index_entry:
  "unique_index key label d xs = Inr d' \<Longrightarrow> map_of d' k = Some x \<Longrightarrow> map_of d k = Some x \<or> x \<in> set xs \<and> key x = k"
proof (induction key label d xs arbitrary: d' rule: unique_index.induct)
  case (2 key label d x xs)
  have "map_of (d @ [(key x, x)]) k = Some y \<Longrightarrow> map_of d k = Some y \<or> y = x \<and> key x = k" for y
    by (cases "map_of d k") (auto simp: map_add_def split: if_splits)
  then show ?case using 2 by (auto split: if_splits)
qed simp

lemma index_entry:
  assumes "index_inputs i = Inr ix"
  shows "map_of (ix_conditions ix) k = Some c \<Longrightarrow> c \<in> set (in_conditions i) \<and> cnr_condition_id c = k"
    and "map_of (ix_operations ix) k = Some o' \<Longrightarrow> o' \<in> set (in_operations i) \<and> orr_instruction_path o' = k"
    and "map_of (ix_approvals ix) k = Some a \<Longrightarrow> a \<in> set (in_approvals i) \<and> apr_barrier_id a = k"
    and "map_of (ix_calls ix) k = Some l \<Longrightarrow> l \<in> set (in_calls i) \<and> clr_instruction_path l = k"
    and "map_of (ix_checkpoints ix) k = Some p \<Longrightarrow> p \<in> set (in_checkpoints i) \<and> ckr_instruction_path p = k"
    and "map_of (ix_collections ix) k = Some x \<Longrightarrow> x \<in> set (in_collections i) \<and> clc_collection_ref x = k"
  using assms by (auto simp: index_inputs_def rbind_Ok_iff dest: unique_index_entry)

lemma landed_Go: "landed p k out = Inr (Go k' v') \<longleftrightarrow> k' = k \<and> out = Continue v'"
  by (cases out) (auto simp: rbind_Ok_iff)

text \<open>A step is entered at its first instruction and, from there, only with its resolution.\<close>

lemma leaf_supplied:
  assumes "leaf ix path n st v = Some (Continue v')" and "index_inputs i = Inr ix"
  shows "supplied i path st"
  using assms(1) index_entry [OF assms(2)]
  by (cases "(ix, path, n, st, v)" rule: leaf.cases)
    (fastforce simp: settle_def split: option.splits if_splits resolution_status.splits)+

lemma entry_supplied:
  assumes "at_code p n (step_code path n st)" and "payload_fits st"
    and "exec_instruction p ix n (pl_instructions p ! n) (counted (pl_instructions p ! n) v) = Inr (Go k v')"
    and "index_inputs i = Inr ix"
  shows "supplied i path st"
proof (cases "leaf ix path n st v")
  case (Some out)
  obtain j where j: "step_code path n st = [j]" "pi_path j = path" using leaf_code [OF Some] .
  then have "pl_instructions p ! n = j" using assms(1) by simp
  then have "out = Continue v'" using assms(3) leaf_exec [OF Some j(1) assms(2)] j(2) by (simp add: counted_def landed_Go)
  then show ?thesis using leaf_supplied Some assms(4) by blast
next
  case None
  then consider c t e where "st = IfStep c t e" | l m b where "st = LoopStep l m b" | name c m b where "st = ForEachStep name c m b"
    by (cases st) auto
  then show ?thesis
  proof cases
    case (1 c t e)
    let ?i = "instruction n path Op_IF_BEGIN [(''condition_id'', JStr c)] (source_hash st)"
    have "pl_instructions p ! n = ?i" using assms(1) 1 by (simp add: Let_def)
    moreover have "payload_text ?i ''condition_id'' = Inr c" using assms(2) 1 by (auto intro: payload_text_Ok)
    ultimately show ?thesis using assms(3) index_entry(1) [OF assms(4)] 1
      by (fastforce simp: exec_instruction_def exec_if_begin_def pause_def rbind_Ok_iff split: option.splits)
  next
    case (3 name c m b)
    let ?i = "instruction n path Op_FOREACH_BEGIN [(''item_name'', JStr name), (''collection_ref'', JStr c), (''max_items'', JInt m)] (source_hash st)"
    have "pl_instructions p ! n = ?i" using assms(1) 3 by (simp add: Let_def)
    moreover have "payload_text ?i ''collection_ref'' = Inr c" "payload_text ?i ''item_name'' = Inr name"
        "payload_int ?i ''max_items'' = Inr m"
      using assms(2) 3 by (auto simp: payload_int_def intro: payload_text_Ok)
    ultimately show ?thesis using assms(3) index_entry(6) [OF assms(4)] 3
      by (fastforce simp: exec_instruction_def exec_foreach_begin_def pause_def boundary_def rbind_Ok_iff split: option.splits if_splits)
  qed simp
qed

text \<open>Where an instruction can move the cursor.\<close>

lemma go_cases:
  assumes "exec_instruction p ix c i w = Inr (Go k v)"
  defines "h \<equiv> pi_source_step_sha256 i"
  shows "(case pi_opcode i of
      Op_IF_BEGIN \<Rightarrow> k = c + 1 \<or> (\<exists>j. find_forward p c Op_ELSE h = Inr j \<and> k = j + 1)
    | Op_ELSE \<Rightarrow> \<exists>j. find_forward p c Op_IF_END h = Inr j \<and> k = j + 1
    | Op_LOOP_BEGIN \<Rightarrow> k = c + 1 \<or> (\<exists>j. find_forward p c Op_LOOP_END h = Inr j \<and> k = j + 1)
    | Op_LOOP_END \<Rightarrow> find_backward p c Op_LOOP_BEGIN h = Inr k
    | Op_FOREACH_BEGIN \<Rightarrow> k = c + 1 \<or> (\<exists>j. find_forward p c Op_FOREACH_END h = Inr j \<and> k = j + 1)
    | Op_FOREACH_END \<Rightarrow> find_backward p c Op_FOREACH_BEGIN h = Inr k
    | _ \<Rightarrow> k = c + 1)"
  using assms
  by (cases "pi_opcode i")
    (auto simp: exec_instruction_def exec_do_def exec_if_begin_def exec_else_def exec_loop_begin_def exec_loop_end_def
      exec_foreach_begin_def exec_foreach_end_def exec_call_def exec_checkpoint_def exec_approve_def pause_def boundary_def
      resolved_def Let_def rbind_Ok_iff split: option.splits if_splits resolution_status.splits)

definition stays :: "macro_plan \<Rightarrow> nat \<Rightarrow> nat \<Rightarrow> bool" where
  "stays p n m \<longleftrightarrow> (\<forall>c ix w k v. n \<le> c \<longrightarrow> c < m \<longrightarrow>
     exec_instruction p ix c (pl_instructions p ! c) w = Inr (Go k v) \<longrightarrow> n \<le> k \<and> k \<le> m)"

lemma stays_empty [simp]: "stays p n n"
  by (simp add: stays_def)

lemma stays_append: "stays p n m \<Longrightarrow> stays p m l \<Longrightarrow> n \<le> m \<Longrightarrow> m \<le> l \<Longrightarrow> stays p n l"
  unfolding stays_def by (meson le_trans linorder_not_le)

lemma stays_inner: "stays p n m \<Longrightarrow> n \<le> c \<Longrightarrow> c < m \<Longrightarrow> exec_instruction p ix c (pl_instructions p ! c) w = Inr (Go k v) \<Longrightarrow> n \<le> k \<and> k \<le> m"
  unfolding stays_def by blast

lemma single_stays:
  assumes "pl_instructions p ! n = i" and "pi_opcode i \<in> {Op_DO, Op_CALL, Op_CHECKPOINT, Op_APPROVE}"
  shows "stays p n (Suc n)"
  unfolding stays_def
proof (intro allI impI)
  fix c ix w k v
  assume "n \<le> c" "c < Suc n" and go: "exec_instruction p ix c (pl_instructions p ! c) w = Inr (Go k v)"
  then have "c = n" by simp
  then show "n \<le> k \<and> k \<le> Suc n" using go_cases [OF go] assms by auto
qed

lemma body_stays:
  assumes body: "stays p (n + 1) m" and "n + 1 \<le> m"
    and at: "pl_instructions p ! n = b" "pl_instructions p ! m = e"
    and b: "\<And>ix w k v. exec_instruction p ix n b w = Inr (Go k v) \<Longrightarrow> k = n + 1 \<or> k = m + 1"
    and e: "\<And>ix w k v. exec_instruction p ix m e w = Inr (Go k v) \<Longrightarrow> k = n"
  shows "stays p n (m + 1)"
  unfolding stays_def
proof (intro allI impI)
  fix c ix w k v
  assume "n \<le> c" "c < m + 1" and go: "exec_instruction p ix c (pl_instructions p ! c) w = Inr (Go k v)"
  then consider "c = n" | "n + 1 \<le> c" "c < m" | "c = m" by linarith
  then show "n \<le> k \<and> k \<le> m + 1"
  proof cases
    case 1
    then show ?thesis using go at(1) b [of ix w k v] assms(2) by auto
  next
    case 2
    then show ?thesis using stays_inner [OF body _ _ go] by simp
  next
    case 3
    then show ?thesis using go at(2) e [of ix w k v] assms(2) by auto
  qed
qed

lemma code_stays:
  "at_code p n (step_code path n st) \<Longrightarrow> unclashed st \<Longrightarrow> stays p n (n + code_size st)"
  "at_code p n (steps_code base j n sts) \<Longrightarrow> list_all unclashed sts \<Longrightarrow> stays p n (n + codes_size sts)"
proof (induction path n st and base j n sts rule: step_code_steps_code.induct)
  case (2 path n c t e)
  let ?m = "n + 1 + codes_size t" and ?l = "n + 1 + codes_size t + 1 + codes_size e"
  note jumps = if_jumps [OF 2(3,4)]
  have thn: "stays p (n + 1) ?m" and els: "stays p (?m + 1) ?l"
    using 2(1) [OF refl refl refl jumps(4)] 2(2) [OF refl refl refl jumps(5)] 2(4) by simp_all
  have "n \<le> k \<and> k \<le> ?l + 1" if "n \<le> x" "x < ?l + 1" and go: "exec_instruction p ix x (pl_instructions p ! x) w = Inr (Go k v)"
    for ix w k v x
  proof -
    from that consider "x = n" | "n + 1 \<le> x" "x < ?m" | "x = ?m" | "?m + 1 \<le> x" "x < ?l" | "x = ?l" by linarith
    then show ?thesis
    proof cases
      case 1
      then show ?thesis using go_cases [OF go] jumps(1,6) by auto
    next
      case 2
      then show ?thesis using stays_inner [OF thn _ _ go] by auto
    next
      case 3
      then show ?thesis using go_cases [OF go] jumps(2,7) by auto
    next
      case 4
      then show ?thesis using stays_inner [OF els _ _ go] by auto
    next
      case 5
      then show ?thesis using go_cases [OF go] jumps(3) by auto
    qed
  qed
  then have "stays p n (?l + 1)" unfolding stays_def by blast
  moreover have "n + code_size (IfStep c t e) = ?l + 1" by (simp add: codes_size_def)
  ultimately show ?case by (simp only:)
next
  case (3 path n i m b)
  note jumps = loop_jumps [OF 3(2,3)]
  have "stays p (n + 1) (n + 1 + codes_size b)" using 3(1) [OF refl refl jumps(3)] 3(3) by simp
  then have "stays p n (n + 1 + codes_size b + 1)"
    using jumps go_cases by (intro body_stays [OF _ _ refl refl]) fastforce+
  then show ?case by (simp add: codes_size_def add.assoc)
next
  case (4 path n i c m b)
  note jumps = each_jumps [OF 4(2,3)]
  have "stays p (n + 1) (n + 1 + codes_size b)" using 4(1) [OF refl refl jumps(3)] 4(3) by simp
  then have "stays p n (n + 1 + codes_size b + 1)"
    using jumps go_cases by (intro body_stays [OF _ _ refl refl]) fastforce+
  then show ?case by (simp add: codes_size_def add.assoc)
next
  case (9 base j n st rest)
  then show ?case using stays_append [of p n "n + code_size st" "n + code_size st + codes_size rest"] by (simp add: add.assoc)
qed (auto intro: single_stays)

abbreviation start_of :: "macro_step list \<Rightarrow> nat \<Rightarrow> nat" where
  "start_of sts j \<equiv> codes_size (take j sts)"

lemma at_step:
  "at_code p n (steps_code base j n sts) \<Longrightarrow> k < length sts \<Longrightarrow>
     at_code p (n + start_of sts k) (step_code (base @ ''.'' @ show_nat (j + k)) (n + start_of sts k) (sts ! k))"
proof (induction sts arbitrary: j n k)
  case (Cons st sts)
  then show ?case by (cases k) (auto simp: add.assoc dest: Cons.IH)
qed simp

lemma within_step:
  "c < codes_size sts \<Longrightarrow> \<exists>j < length sts. start_of sts j \<le> c \<and> c < start_of sts j + code_size (sts ! j)"
proof (induction sts arbitrary: c)
  case (Cons st sts)
  show ?case
  proof (cases "c < code_size st")
    case False
    then obtain j where "j < length sts" "start_of sts j \<le> c - code_size st" "c - code_size st < start_of sts j + code_size (sts ! j)"
      using Cons.IH [of "c - code_size st"] Cons.prems by (auto simp: less_diff_conv2)
    then show ?thesis using False by (intro exI [of _ "Suc j"]) auto
  qed (auto intro: exI [of _ 0])
qed simp

lemma start_of_Suc: "j < length sts \<Longrightarrow> start_of sts (Suc j) = start_of sts j + code_size (sts ! j)"
  by (simp add: take_Suc_conv_app_nth codes_size_def)

lemma start_of_mono: "i \<le> j \<Longrightarrow> start_of sts i \<le> start_of sts j"
  by (induction sts arbitrary: i j) (auto simp: take_Cons' codes_size_def split: if_splits)

lemma code_size_positive [simp]: "0 < code_size st"
  by (cases st) simp_all

definition passed :: "runner_inputs set \<Rightarrow> macro_step list \<Rightarrow> nat \<Rightarrow> bool" where
  "passed h sts c \<longleftrightarrow> c \<le> codes_size sts \<and>
     (\<forall>j < length sts. start_of sts j < c \<longrightarrow> (\<exists>i \<in> h. supplied i (''root.'' @ show_nat j) (sts ! j)))"

lemma run_state_fields: "run_state p c status reason v w = Inr t \<Longrightarrow> mrs_cursor t = c \<and> mrs_status t = status \<and> mrs_reason t = reason"
  by (auto simp: run_state_def mrs_init_def validated_Ok_iff)

text \<open>An instruction that stops the run leaves the cursor on itself, and the run not completed.\<close>

definition stops_at :: "nat \<Rightarrow> outcome result \<Rightarrow> bool" where
  "stops_at c r \<longleftrightarrow> (\<forall>t. r = Inr (Halt t) \<longrightarrow> mrs_cursor t = c \<and> mrs_status t \<noteq> RS_COMPLETED
     \<and> mrs_reason t \<noteq> ''advance_transition_budget_exhausted'')"

lemma stops_at_simps [simp]:
  "stops_at c (Inr (Go k v))"
  "(\<And>x. stops_at c (f x)) \<Longrightarrow> stops_at c (rbind r f)"
  "status \<noteq> RS_COMPLETED \<Longrightarrow> reason \<noteq> ''advance_transition_budget_exhausted'' \<Longrightarrow> stops_at c (pause p c status reason i v extra)"
  by (auto simp: stops_at_def pause_def rbind_Ok_iff dest: run_state_fields)

lemma exec_stops_at: "stops_at c (exec_instruction p ix c i w)"
  unfolding exec_instruction_def exec_do_def exec_if_begin_def exec_else_def exec_loop_begin_def exec_loop_end_def
    exec_foreach_begin_def exec_foreach_end_def exec_call_def exec_checkpoint_def exec_approve_def boundary_def resolved_def Let_def
  by (simp split: plan_opcode.split option.split resolution_status.split)

lemma exec_Halt: "exec_instruction p ix c i w = Inr (Halt t) \<Longrightarrow> mrs_cursor t = c \<and> mrs_status t \<noteq> RS_COMPLETED
    \<and> mrs_reason t \<noteq> ''advance_transition_budget_exhausted''"
  using exec_stops_at [of c p ix i w] by (simp add: stops_at_def)

lemma passed_step:
  assumes code: "at_code p 0 (steps_code ''root'' 0 0 sts)" and un: "list_all unclashed sts" and fits: "list_all payload_fits sts"
    and c: "passed h sts c" "c < codes_size sts" and ix: "index_inputs i = Inr ix" "i \<in> h"
    and go: "exec_instruction p ix c (pl_instructions p ! c) (counted (pl_instructions p ! c) v) = Inr (Go k v')"
  shows "passed h sts k"
proof -
  obtain j where j: "j < length sts" "start_of sts j \<le> c" "c < start_of sts j + code_size (sts ! j)"
    using within_step [OF c(2)] by blast
  have at: "at_code p (start_of sts j) (step_code (''root.'' @ show_nat j) (start_of sts j) (sts ! j))"
    using at_step [OF code j(1)] by simp
  have k: "start_of sts j \<le> k" "k \<le> start_of sts (Suc j)"
    using stays_inner [OF code_stays(1) [OF at] j(2,3) go] un j(1) by (auto simp: list_all_length start_of_Suc)
  have "k \<le> codes_size sts" using k(2) start_of_mono [of "Suc j" "length sts" sts] j(1) by simp
  moreover have "\<exists>i \<in> h. supplied i (''root.'' @ show_nat l) (sts ! l)" if l: "l < length sts" "start_of sts l < k" for l
  proof (cases "start_of sts l < c")
    case True
    then show ?thesis using c(1) l(1) by (simp add: passed_def)
  next
    case False
    have "l \<le> j" using l(2) k(2) start_of_mono [of "Suc j" l sts] by (meson leD le_trans not_less_eq_eq)
    moreover have "j \<le> l"
    proof (rule ccontr)
      assume "\<not> j \<le> l"
      then have "start_of sts (Suc l) \<le> start_of sts j" by (intro start_of_mono) simp
      then show False using False j(2) start_of_Suc [OF l(1)] code_size_positive [of "sts ! l"] by linarith
    qed
    ultimately have "l = j" "c = start_of sts j" using False j(2) by auto
    then have "supplied i (''root.'' @ show_nat l) (sts ! l)"
      using entry_supplied [OF at _ _ ix(1), of v k v'] go fits j(1) by (simp add: list_all_length)
    then show ?thesis using ix(2) by blast
  qed
  ultimately show ?thesis by (simp add: passed_def)
qed

lemma passed_loop:
  assumes "at_code p 0 (steps_code ''root'' 0 0 sts)" and "list_all unclashed sts" and "list_all payload_fits sts"
    and "index_inputs i = Inr ix" "i \<in> h" and len: "length (pl_instructions p) = codes_size sts"
  shows "advance_loop p ix b c v = Inr t \<Longrightarrow> passed h sts c \<Longrightarrow>
    passed h sts (mrs_cursor t) \<and> (mrs_status t = RS_COMPLETED \<longrightarrow> mrs_cursor t = codes_size sts)"
proof (induction b arbitrary: c v)
  case 0
  then show ?case
    by (subst (asm) advance_loop.simps) (auto simp: len passed_def dest: run_state_fields split: if_splits)
next
  case (Suc b)
  show ?case
  proof (cases "codes_size sts \<le> c")
    case True
    then show ?thesis using Suc.prems
      by (subst (asm) advance_loop.simps) (auto simp: len passed_def dest: run_state_fields split: if_splits)
  next
    case False
    then obtain out where out: "exec_instruction p ix c (pl_instructions p ! c) (counted (pl_instructions p ! c) v) = Inr out"
        "(case out of Halt s \<Rightarrow> Ok s | Go k v' \<Rightarrow> advance_loop p ix b k v') = Inr t"
      using Suc.prems(1) by (subst (asm) advance_loop.simps) (auto simp: len Let_def rbind_Ok_iff)
    show ?thesis
    proof (cases out)
      case (Halt s)
      then show ?thesis using out Suc.prems(2) exec_Halt [of p ix c _ _ t] by auto
    next
      case (Go k v')
      then show ?thesis using Suc.IH [of k v'] passed_step [OF assms(1-3) Suc.prems(2) _ assms(4,5), of v k v'] out False by simp
    qed
  qed
qed

lemma passed_mono: "passed h sts c \<Longrightarrow> h \<subseteq> h' \<Longrightarrow> passed h' sts c"
  unfolding passed_def by blast

lemma run_passed:
  assumes "md_init d = Inr d" and "make_plan d = Inr p" and "list_all unclashed (md_steps d)"
  shows "macro_run p h s \<Longrightarrow> passed (set h) (md_steps d) (mrs_cursor s)
    \<and> (mrs_status s = RS_COMPLETED \<longrightarrow> mrs_cursor s = codes_size (md_steps d))"
proof (induction rule: macro_run.induct)
  case (Started s)
  then show ?case using started(2,3) by (auto simp: passed_def)
next
  case (Advanced h s inputs m t)
  let ?i = "case inputs of None \<Rightarrow> no_inputs | Some i \<Rightarrow> i"
  note plan = planned [OF assms(1,2)]
  from Advanced.hyps(2) consider "t = s" | ix where "index_inputs ?i = Inr ix" "advance_loop p ix (nat m) (mrs_cursor s) (env_of s) = Inr t"
    by (auto simp: advance_def rbind_Ok_iff split: if_splits)
  then show ?case
  proof cases
    case 1
    then show ?thesis using Advanced.IH by (auto intro: passed_mono)
  next
    case 2
    have before: "passed (set (h @ [?i])) (md_steps d) (mrs_cursor s)" using Advanced.IH by (auto intro: passed_mono)
    show ?thesis by (rule passed_loop [OF plan(5) assms(3) plan(3) 2(1) _ _ 2(2) before]) (simp_all add: plan(1))
  qed
next
  case (Aborted h s reason t)
  then show ?case by (auto simp: runner_abort_def rbind_Ok_iff dest: run_state_fields)
qed simp

lemma run_resolved:
  assumes "md_init d = Ok d" and "make_plan d = Ok p" and "macro_run p h s" and "j < length (md_steps d)"
    and "mrs_status s = RS_COMPLETED \<or> start_of (md_steps d) j < mrs_cursor s"
  shows "digest_clash (md_steps d) \<or> (\<exists>i \<in> set h. supplied i (''root.'' @ show_nat j) (md_steps d ! j))"
proof -
  have "start_of (md_steps d) (Suc j) \<le> codes_size (md_steps d)"
    using start_of_mono [of "Suc j" "length (md_steps d)" "md_steps d"] assms(4) by simp
  then have "start_of (md_steps d) j < codes_size (md_steps d)"
    using start_of_Suc [OF assms(4)] code_size_positive [of "md_steps d ! j"] by linarith
  then show ?thesis
    using run_passed [OF assms(1,2) _ assms(3)] clash_or_unclashed [of "md_steps d"] assms(4,5) by (auto simp: passed_def)
qed

text \<open>C14: A completed run had a resolution for every step.  However often a run of a planned definition was
  paused, resumed with other resolutions and budgets, or aborted: before its cursor is past a top-level
  step, and so before it reports completion, some advance was given a resolution for exactly that
  step: a succeeded operation of the same hash, a succeeded call with the same arguments, a succeeded
  checkpoint of that label, an approval of exactly the required capabilities, the condition of the
  branch, or a collection within its bound (a loop itself needs none); unless two blocks of the definition have the same SHA-256 digest.\<close>

theorem completed_run_was_resolved:
  assumes "md_init d = Ok d" and "make_plan d = Ok p" and "macro_run p h s" and "j < length (md_steps d)"
    and "mrs_status s = RS_COMPLETED \<or> start_of (md_steps d) j < mrs_cursor s"
  shows "digest_clash (md_steps d) \<or> (\<exists>i \<in> set h. supplied i (''root.'' @ show_nat j) (md_steps d ! j))"
  using assms by (rule run_resolved)

section \<open>Pausing for the budget\<close>

text \<open>A state stores the counters sorted; the order of a dict of counters does not matter to the runner.\<close>

definition env_eq :: "run_env \<Rightarrow> run_env \<Rightarrow> bool" where
  "env_eq v w \<longleftrightarrow> map_of (ev_loops v) = map_of (ev_loops w) \<and> map_of (ev_foreach v) = map_of (ev_foreach w)
     \<and> distinct (map fst (ev_loops v)) \<and> distinct (map fst (ev_loops w))
     \<and> distinct (map fst (ev_foreach v)) \<and> distinct (map fst (ev_foreach w))
     \<and> ev_variables v = ev_variables w \<and> ev_transitions v = ev_transitions w \<and> ev_last v = ev_last w"

lemma sort_key_map_of:
  assumes "map_of d = map_of d'" and "distinct (map fst d)" and "distinct (map fst d')"
  shows "sort_key fst d = sort_key fst d'"
proof -
  have "(k, v) \<in> set d \<longleftrightarrow> (k, v) \<in> set d'" for k v
    by (metis assms map_of_eq_Some_iff)
  then have "set d = set d'" by auto
  moreover have "distinct d" "distinct d'" using assms(2,3) by (simp_all add: distinct_map)
  ultimately have "mset d = mset d'" by (simp add: set_eq_iff_mset_eq_distinct)
  moreover have "inj_on fst (set d)" using assms(2) by (simp add: distinct_map)
  ultimately show ?thesis by (intro sort_key_inj_key_eq) (simp_all add: eq_key_imp_eq_value)
qed

lemma distinct_sort_key: "distinct (map fst (sort_key fst d)) \<longleftrightarrow> distinct (map fst d)"
  by (rule mset_eq_imp_distinct_iff) simp

lemma map_of_sort_key:
  assumes "distinct (map fst d)"
  shows "map_of (sort_key fst d) = map_of d"
proof
  fix k
  have "map_of (sort_key fst d) k = Some x \<longleftrightarrow> map_of d k = Some x" for x
    using assms by (simp add: map_of_eq_Some_iff distinct_sort_key)
  then show "map_of (sort_key fst d) k = map_of d k" by (metis not_None_eq)
qed

lemma run_state_eq: "env_eq v w \<Longrightarrow> run_state p c status reason v d = run_state p c status reason w d"
  using sort_key_map_of [of "ev_loops v" "ev_loops w"] sort_key_map_of [of "ev_foreach v" "ev_foreach w"]
  by (simp add: run_state_def env_eq_def)

definition outcome_eq :: "outcome result \<Rightarrow> outcome result \<Rightarrow> bool" where
  "outcome_eq r r' \<longleftrightarrow> r = r' \<and> (\<forall>k v. r \<noteq> Inr (Go k v)) \<or> (\<exists>k v w. r = Inr (Go k v) \<and> r' = Inr (Go k w) \<and> env_eq v w)"

lemma outcome_eq_simps [simp]:
  "outcome_eq (Inr (Go k v)) (Inr (Go k w)) \<longleftrightarrow> env_eq v w" "outcome_eq (Inl e) (Inl e)"
  "(\<And>x. outcome_eq (f x) (g x)) \<Longrightarrow> outcome_eq (rbind r f) (rbind r g)"
  by (cases r; simp add: outcome_eq_def)+

lemma outcome_eq_pause [simp]:
  assumes "env_eq v w"
  shows "outcome_eq (pause p c status reason i v extra) (pause p c status reason i w extra)"
proof -
  have "env_eq (v\<lparr>ev_last := Some (pi_path i)\<rparr>) (w\<lparr>ev_last := Some (pi_path i)\<rparr>)" using assms by (simp add: env_eq_def)
  from run_state_eq [OF this] show ?thesis by (auto simp: outcome_eq_def pause_def rbind_Ok_iff)
qed

lemma env_eq_simps:
  assumes "env_eq v w"
  shows "dict_get h x (ev_loops v) = dict_get h x (ev_loops w)" and "dict_get h x (ev_foreach v) = dict_get h x (ev_foreach w)"
    and "ev_variables v = ev_variables w"
    and "env_eq (v\<lparr>ev_loops := dict_set h y (ev_loops v)\<rparr>) (w\<lparr>ev_loops := dict_set h y (ev_loops w)\<rparr>)"
    and "env_eq (v\<lparr>ev_foreach := dict_set h y (ev_foreach v)\<rparr>) (w\<lparr>ev_foreach := dict_set h y (ev_foreach w)\<rparr>)"
    and "env_eq (v\<lparr>ev_variables := d\<rparr>) (w\<lparr>ev_variables := d\<rparr>)" and "env_eq (counted i v) (counted i w)"
  using assms by (simp_all add: env_eq_def dict_get_def counted_def)

lemma exec_eq:
  assumes "env_eq v w"
  shows "outcome_eq (exec_instruction p ix c i v) (exec_instruction p ix c i w)"
  unfolding exec_instruction_def exec_do_def exec_if_begin_def exec_else_def exec_loop_begin_def exec_loop_end_def
    exec_foreach_begin_def exec_foreach_end_def exec_call_def exec_checkpoint_def exec_approve_def boundary_def resolved_def Let_def
  by (cases "pi_opcode i")
    (simp_all add: assms env_eq_simps [OF assms] split: option.split resolution_status.split)

lemma advance_loop_eq: "env_eq v w \<Longrightarrow> advance_loop p ix b c v = advance_loop p ix b c w"
proof (induction b arbitrary: c v w)
  case 0
  then show ?case by (simp add: advance_loop.simps [of _ _ 0] run_state_eq)
next
  case (Suc b)
  let ?i = "pl_instructions p ! c"
  have "outcome_eq (exec_instruction p ix c ?i (counted ?i v)) (exec_instruction p ix c ?i (counted ?i w))"
    by (rule exec_eq [OF env_eq_simps(7) [OF Suc.prems]])
  then have "rbind (exec_instruction p ix c ?i (counted ?i v)) (\<lambda>out. case out of Halt s \<Rightarrow> Ok s | Go k v' \<Rightarrow> advance_loop p ix b k v')
      = rbind (exec_instruction p ix c ?i (counted ?i w)) (\<lambda>out. case out of Halt s \<Rightarrow> Ok s | Go k v' \<Rightarrow> advance_loop p ix b k v')"
    using Suc.IH by (auto simp: outcome_eq_def)
  then show ?case using run_state_eq [OF Suc.prems] by (simp add: advance_loop.simps [of _ _ "Suc b"] Let_def)
qed

text \<open>A run that stopped for its budget goes on where it stopped.\<close>

lemma advance_loop_split:
  "advance_loop p ix a c v = Inr t \<Longrightarrow> mrs_reason t = ''advance_transition_budget_exhausted'' \<Longrightarrow> env_eq v v \<Longrightarrow>
     \<exists>v'. advance_loop p ix (a + b) c v = advance_loop p ix b (mrs_cursor t) v' \<and> env_eq v' v'
       \<and> mrs_cursor t < length (pl_instructions p)
       \<and> run_state p (mrs_cursor t) RS_HELD (mrs_reason t) v' [(''cursor'', JInt (int (mrs_cursor t)))] = Inr t"
proof (induction a arbitrary: c v)
  case 0
  then have "\<not> length (pl_instructions p) \<le> c"
    by (auto simp: advance_loop.simps [of _ _ 0] dest: run_state_fields split: if_splits)
  moreover from this have "run_state p c RS_HELD ''advance_transition_budget_exhausted'' v [(''cursor'', JInt (int c))] = Inr t"
    using 0(1) by (simp add: advance_loop.simps [of _ _ 0])
  ultimately show ?case using 0 run_state_fields by (intro exI [of _ v]) fastforce
next
  case (Suc a)
  let ?i = "pl_instructions p ! c"
  have inside: "\<not> length (pl_instructions p) \<le> c"
    using Suc.prems(1,2) by (subst (asm) advance_loop.simps) (auto dest: run_state_fields split: if_splits)
  then obtain out where out: "exec_instruction p ix c ?i (counted ?i v) = Inr out"
      "(case out of Halt s \<Rightarrow> Ok s | Go k v' \<Rightarrow> advance_loop p ix a k v') = Inr t"
    using Suc.prems(1) by (simp add: advance_loop.simps [of _ _ "Suc a"] Let_def rbind_Ok_iff) blast
  obtain k v' where go: "out = Go k v'" using out exec_Halt [of p ix c ?i "counted ?i v"] Suc.prems(2) by (cases out) auto
  have "env_eq v' v'" using exec_eq [OF env_eq_simps(7) [OF Suc.prems(3)], of p ix c ?i ?i] out(1) go by (simp add: outcome_eq_def)
  moreover have "advance_loop p ix (Suc a + b) c v = advance_loop p ix (a + b) k v'"
    using inside out(1) go by (simp add: advance_loop.simps [of _ _ "Suc (a + b)"] Let_def)
  ultimately show ?case using Suc.IH [of k v'] out(2) go Suc.prems(2) by simp
qed

lemma distinct_dict_of: "distinct (map fst (dict_of d))"
proof -
  have "distinct (map fst acc) \<Longrightarrow> distinct (map fst (foldl (\<lambda>d (k, v). dict_set k v d) acc d))" for acc
    by (induction d arbitrary: acc) auto
  then show ?thesis by (simp add: dict_of_def)
qed

lemma env_of_eq: "env_eq (env_of s) (env_of s)"
  by (simp add: env_eq_def env_of_def distinct_dict_of)

lemma env_of_state:
  assumes "run_state p c status reason v w = Inr t" and "env_eq v v"
  shows "env_eq (env_of t) v" and "validate_resume p t = Inr () \<longleftrightarrow> c \<le> length (pl_instructions p)"
  using assms
  by (auto simp: run_state_def mrs_init_def validated_Ok_iff env_eq_def env_of_def dict_of_distinct distinct_sort_key map_of_sort_key
      or_empty_def validate_resume_def first_error_Ok_Cons)

text \<open>C17: The budget of an advance does not change what a run does.  When an advance stops because its budget of
  transitions is used up, advancing the returned state with the same resolutions and \<open>n\<close> more
  transitions gives exactly the state, or the error, that one advance with both budgets gives.\<close>

theorem budget_pause_is_transparent:
  assumes "advance p s inputs m = Ok t" and "mrs_reason t = ''advance_transition_budget_exhausted''"
    and "mrs_status s \<notin> set TERMINAL_STATUSES" and "1 \<le> n" and "m + n \<le> 50000"
  shows "advance p t inputs n = advance p s inputs (m + n)"
proof -
  let ?i = "case inputs of None \<Rightarrow> no_inputs | Some i \<Rightarrow> i"
  obtain ix where ix: "index_inputs ?i = Inr ix" "advance_loop p ix (nat m) (mrs_cursor s) (env_of s) = Inr t"
      and ok: "validate_resume p s = Inr ()" "1 \<le> m"
    using assms(1,3) by (auto simp: advance_def rbind_Ok_iff split: if_splits)
  obtain v where v: "advance_loop p ix (nat m + nat n) (mrs_cursor s) (env_of s) = advance_loop p ix (nat n) (mrs_cursor t) v"
      "env_eq v v" "mrs_cursor t < length (pl_instructions p)"
      "run_state p (mrs_cursor t) RS_HELD (mrs_reason t) v [(''cursor'', JInt (int (mrs_cursor t)))] = Inr t"
    using advance_loop_split [OF ix(2) assms(2) env_of_eq] by blast
  have "advance_loop p ix (nat n) (mrs_cursor t) (env_of t) = advance_loop p ix (nat (m + n)) (mrs_cursor s) (env_of s)"
    using advance_loop_eq [OF env_of_state(1) [OF v(4,2)]] v(1) ok(2) assms(4) by (simp add: nat_add_distrib)
  moreover have "validate_resume p t = Inr ()" using env_of_state(2) [OF v(4,2)] v(3) by simp
  moreover have "mrs_status t = RS_HELD" using run_state_fields [OF v(4)] by simp
  ultimately show ?thesis
    using ix(1) ok assms(3,4,5) by (simp add: advance_def TERMINAL_STATUSES_def MAX_ADVANCE_TRANSITIONS_def)
qed

text \<open>Two loops that are written alike, and resolutions for the first one only.\<close>

definition save_loop :: macro_step where
  "save_loop = LoopStep ''save'' 1 [CheckpointStep ''saved'']"

definition two_loops :: macro_definition where
  "two_loops = \<lparr>md_macro_id = ''macro'', md_macro_version = ''1'', md_steps = [save_loop, save_loop], md_parameters = [],
     md_operational_authority = False, md_action_authority = False, md_execution_authority = False,
     md_schema_version = MACRO_DEFINITION_SCHEMA_VERSION\<rparr>"

definition first_saved :: runner_inputs where
  "first_saved = no_inputs\<lparr>in_checkpoints := [\<lparr>ckr_instruction_path = ''root.0.body.0'', ckr_label = ''saved'',
     ckr_status = RES_SUCCEEDED, ckr_receipt_sha256 = canonical_sha256 JNull\<rparr>]\<rparr>"

definition first_saved_index :: resolutions where
  "first_saved_index = \<lparr>ix_conditions = [], ix_operations = [], ix_approvals = [], ix_calls = [],
     ix_checkpoints = map (\<lambda>r. (ckr_instruction_path r, r)) (in_checkpoints first_saved), ix_collections = []\<rparr>"

lemma first_saved_indexed: "index_inputs first_saved = Inr first_saved_index"
  by (simp add: index_inputs_def first_saved_def no_inputs_def first_saved_index_def)

lemma two_loops_ok: "md_init two_loops = Inr two_loops" "validate_definition two_loops = Inr ()"
proof -
  show "md_init two_loops = Inr two_loops"
    unfolding md_init_def validated_Ok_iff first_error_Ok_Cons first_error_Ok_Nil
    by (simp add: two_loops_def plain_text_def is_control_def validate_canonical_names_def macro_names_Ok_iff)
  have t: "mg_require_text ''save'' f 256 = Inr ()" "mg_require_text ''saved'' f 256 = Inr ()" for f
    by (simp_all add: plain_text_def is_control_def)
  show "validate_definition two_loops = Inr ()"
    by (simp add: validate_definition_def two_loops_def save_loop_def t check_depth_def check_count_def
        validate_bound_def MAX_NESTING_DEPTH_def MAX_STATIC_STEPS_def MAX_LOOP_ITERATIONS_def first_error.simps)
qed

lemma two_loops_planned: obtains p s where "make_plan two_loops = Inr p" and "runner_start p = Inr s"
proof -
  obtain p where p: "make_plan two_loops = Inr p" using make_plan_valid(1) [of two_loops] two_loops_ok by (simp add: md_ok_def)
  then obtain s where "runner_start p = Inr s"
    using run_state_Ok [OF planned(2) [OF two_loops_ok(1) p] start_env_ok, of "''plan_ready''" 0 RS_READY "[]"]
    by (auto simp: runner_start_def)
  then show thesis using p that by blast
qed

lemma two_loops_unclashed: "\<not> digest_clash (md_steps two_loops)" "list_all unclashed (md_steps two_loops)"
  by (auto simp: digest_clash_def two_loops_def save_loop_def sha256_collision_def)

lemma show_small [simp]: "show_nat 0 = ''0''" "show_nat (Suc 0) = ''1''"
  by (simp_all add: show_nat.simps digit_char_def char_of_def bit_0)

lemma save_loop_first:
  "\<exists>v. sem first_saved_index ''root.0'' 0 save_loop start_env (Continue v) \<and> rounds save_loop v = 1 \<and> ev_transitions v = 4"
proof -
  let ?v1 = "visit ''root.0.body.0'' (visit ''root.0'' start_env)"
  let ?v2 = "next_round save_loop (visit ''root.0.end'' ?v1)"
  have r0: "rounds save_loop start_env = 0" by (simp add: start_env_def dict_get_def)
  have r2: "rounds save_loop ?v2 = 1" by (simp add: next_round_def start_env_def) (simp add: dict_get_def)
  have "leaf first_saved_index ''root.0.body.0'' 1 (CheckpointStep ''saved'') (visit ''root.0'' start_env) = Some (Continue ?v1)"
    by (simp add: first_saved_index_def first_saved_def settle_def)
  then have "sems first_saved_index (''root.0'' @ ''.body'') 0 (0 + 1) [CheckpointStep ''saved''] (visit ''root.0'' start_env) (Continue ?v1)"
    by (intro Cons [OF Leaf Nil]) simp
  then have "sem first_saved_index ''root.0'' 0 save_loop start_env (Continue (visit ''root.0'' ?v2))"
    using r0 r2 LoopDone [of 1 "''save''" "[CheckpointStep ''saved'']" ?v2 first_saved_index "''root.0''" 0]
      LoopRound [of "''save''" 1 "[CheckpointStep ''saved'']" start_env first_saved_index "''root.0''" 0 ?v1]
    by (simp add: save_loop_def)
  then show ?thesis using r2 by (intro exI [of _ "visit ''root.0'' ?v2"]) (simp add: start_env_def)
qed

lemma two_loops_run:
  "\<exists>v. sems first_saved_index ''root'' 0 0 (md_steps two_loops) start_env (Continue v) \<and> ev_transitions v = 5"
proof -
  obtain v where v: "sem first_saved_index ''root.0'' 0 save_loop start_env (Continue v)" "rounds save_loop v = 1" "ev_transitions v = 4"
    using save_loop_first by blast
  have "sem first_saved_index ''root.1'' (0 + code_size save_loop) save_loop v (Continue (visit ''root.1'' v))"
    using LoopDone [of 1 "''save''" "[CheckpointStep ''saved'']" v first_saved_index "''root.1''"] v(2) by (simp add: save_loop_def)
  then have "sems first_saved_index ''root'' 0 0 [save_loop, save_loop] start_env (Continue (visit ''root.1'' v))"
    using v(1) by (intro Cons [OF _ Cons [OF _ Nil]]) simp_all
  then show ?thesis using v(3) by (auto simp: two_loops_def intro!: exI [of _ "visit ''root.1'' v"])
qed

lemma two_loops_completed:
  obtains p s t where "make_plan two_loops = Inr p" and "runner_start p = Inr s"
    and "advance p s (Some first_saved) 5 = Inr t" and "mrs_status t = RS_COMPLETED"
proof -
  obtain p s where ps: "make_plan two_loops = Inr p" "runner_start p = Inr s" by (rule two_loops_planned)
  obtain v where v: "sems first_saved_index ''root'' 0 0 (md_steps two_loops) start_env (Continue v)" "ev_transitions v = 5"
    using two_loops_run by blast
  obtain t where "advance_loop p first_saved_index 5 0 start_env = Inr t" "reports p (Continue v) t"
    using planned_run [OF two_loops_ok(1) ps(1) two_loops_unclashed(2) v(1), of 5] v(2) by auto
  then have "advance p s (Some first_saved) 5 = Inr t" "mrs_status t = RS_COMPLETED"
    using started [OF ps(2)] first_saved_indexed by (simp_all add: advance_def TERMINAL_STATUSES_def MAX_ADVANCE_TRANSITIONS_def)
  then show thesis using ps that by blast
qed

theorem planned_run_follows_steps_witness:
  "\<exists>p s t. make_plan two_loops = Ok p \<and> runner_start p = Ok s \<and> advance p s (Some first_saved) 5 = Ok t \<and> mrs_status t = RS_COMPLETED"
proof -
  obtain p s where ps: "make_plan two_loops = Inr p" "runner_start p = Inr s" by (rule two_loops_planned)
  obtain v where v: "sems first_saved_index ''root'' 0 0 (md_steps two_loops) start_env (Continue v)" "ev_transitions v = 5"
    using two_loops_run by blast
  show ?thesis
    using planned_run_follows_steps [OF two_loops_ok(1) ps first_saved_indexed v(1), of 5] v(2) two_loops_unclashed ps by auto
qed

theorem every_planned_run_ends_witness:
  "\<exists>p s n. make_plan two_loops = Ok p \<and> runner_start p = Ok s
    \<and> (\<forall>b \<ge> n. \<exists>t. advance_loop p first_saved_index b (mrs_cursor s) (env_of s) = Ok t)"
proof -
  obtain p s where ps: "make_plan two_loops = Inr p" "runner_start p = Inr s" by (rule two_loops_planned)
  show ?thesis
    using every_planned_run_ends [OF two_loops_ok(1) ps, of first_saved_index] two_loops_unclashed ps by blast
qed

theorem completed_run_was_resolved_witness:
  "\<exists>p t. make_plan two_loops = Ok p \<and> macro_run p [first_saved] t \<and> mrs_status t = RS_COMPLETED
    \<and> (\<exists>i \<in> set [first_saved]. supplied i (''root.'' @ show_nat 0) (md_steps two_loops ! 0))"
proof -
  obtain p s t where ps: "make_plan two_loops = Inr p" "runner_start p = Inr s"
      and t: "advance p s (Some first_saved) 5 = Inr t" "mrs_status t = RS_COMPLETED" by (rule two_loops_completed)
  have "macro_run p [first_saved] t" using Advanced [OF Started [OF ps(2)] t(1)] by simp
  then show ?thesis
    using completed_run_was_resolved [OF two_loops_ok(1) ps(1), of "[first_saved]" t 0] two_loops_unclashed(1) ps(1) t(2)
    by (force simp: two_loops_def)
qed

lemma two_loops_paused:
  obtains p s t where "make_plan two_loops = Inr p" and "runner_start p = Inr s"
    and "advance p s (Some first_saved) 4 = Inr t" and "mrs_reason t = ''advance_transition_budget_exhausted''"
proof -
  obtain p s where ps: "make_plan two_loops = Inr p" "runner_start p = Inr s" by (rule two_loops_planned)
  note plan = planned [OF two_loops_ok(1) ps(1)]
  obtain v where v: "sem first_saved_index ''root.0'' 0 save_loop start_env (Continue v)" "ev_transitions v = 4"
    using save_loop_first by blast
  have paths: "plain_paths (step_code ''root.0'' 0 save_loop)" and at: "at_code p 0 (step_code ''root.0'' 0 save_loop)"
    using plan(4,5) by (simp_all add: two_loops_def)
  have "list_all unclashed (md_steps two_loops)" by (rule two_loops_unclashed)
  then have "unclashed save_loop" "payload_fits save_loop" using plan(3) by (simp_all add: two_loops_def)
  then have "advance_loop p first_saved_index (b + 4) 0 start_env = advance_loop p first_saved_index b (code_size save_loop) v" for b
    using runner_follows(1) [OF v(1) at] v(2) by (auto simp: follows_def start_env_def)
  from this [of 0]
  have "advance_loop p first_saved_index 4 0 start_env = advance_loop p first_saved_index 0 (code_size save_loop) v" by simp
  moreover have "\<not> length (pl_instructions p) \<le> code_size save_loop"
    by (simp add: plan(1) two_loops_def save_loop_def Let_def)
  moreover obtain t where "run_state p (code_size save_loop) RS_HELD ''advance_transition_budget_exhausted'' v
      [(''cursor'', JInt (int (code_size save_loop)))] = Inr t" "mrs_reason t = ''advance_transition_budget_exhausted''"
    using run_state_Ok [OF plan(2), of v "''advance_transition_budget_exhausted''" "code_size save_loop" RS_HELD
        "[(''cursor'', JInt (int (code_size save_loop)))]"] sem_ok(1) [OF v(1) start_env_ok paths] by auto
  ultimately have "advance p s (Some first_saved) 4 = Inr t" "mrs_reason t = ''advance_transition_budget_exhausted''"
    using started [OF ps(2)] first_saved_indexed
    by (simp_all add: advance_def TERMINAL_STATUSES_def MAX_ADVANCE_TRANSITIONS_def advance_loop.simps [of _ _ 0])
  then show thesis using ps that by blast
qed

theorem budget_pause_is_transparent_witness:
  "\<exists>p s t. make_plan two_loops = Ok p \<and> advance p s (Some first_saved) 4 = Ok t
    \<and> mrs_reason t = ''advance_transition_budget_exhausted'' \<and> advance p t (Some first_saved) 1 = advance p s (Some first_saved) 5"
proof -
  obtain p s t where ps: "make_plan two_loops = Inr p" "runner_start p = Inr s"
      and t: "advance p s (Some first_saved) 4 = Inr t" "mrs_reason t = ''advance_transition_budget_exhausted''" by (rule two_loops_paused)
  show ?thesis
    using budget_pause_is_transparent [OF t, of 1] started(3) [OF ps(2)] ps t by (auto simp: TERMINAL_STATUSES_def)
qed

text \<open>C32: A loop that is written like an earlier one never runs.  The runner counts rounds by the digest of the
  source step and never resets the count, so a plan of two identical loops completes with a resolution
  for the checkpoint of the first loop only: the second one's body is planned, but skipped.\<close>

theorem identical_loop_is_skipped:
  "\<exists>p s t. make_plan two_loops = Ok p \<and> runner_start p = Ok s \<and> advance p s (Some first_saved) 5 = Ok t
    \<and> mrs_status t = RS_COMPLETED
    \<and> (\<exists>i \<in> set (pl_instructions p). pi_opcode i = Op_CHECKPOINT \<and> pi_path i = ''root.1.body.0'')
    \<and> ''root.1.body.0'' \<notin> set (map ckr_instruction_path (in_checkpoints first_saved))"
proof -
  obtain p s t where ps: "make_plan two_loops = Inr p" "runner_start p = Inr s"
      and t: "advance p s (Some first_saved) 5 = Inr t" "mrs_status t = RS_COMPLETED" by (rule two_loops_completed)
  have "\<exists>i \<in> set (pl_instructions p). pi_opcode i = Op_CHECKPOINT \<and> pi_path i = ''root.1.body.0''"
    unfolding planned(1) [OF two_loops_ok(1) ps(1)] by (simp add: two_loops_def save_loop_def Let_def)
  then show ?thesis using ps t by (auto simp: first_saved_def)
qed

end
