(* ===== verification/Macro_Journal.thy ===== *)
theory Macro_Journal
  imports Macro_Runs Reality_Reconciliation
begin

text \<open>
  \<open>phios/macro_journal.py\<close>: the hash-chained journal of macro runs, and the histories of
  \<open>phios/spine/ledger.py\<close> it is kept in.  An entry carries a whole run state; entries of one run are
  linked by the digests of the entry and of the state before them.  \<open>append_state\<close> adds a state to
  the chain its caller expects, \<open>reconstruct\<close> and \<open>resume\<close> read the last state back.

  An entry keeps its state as the dict that was printed.  The integers the code checks to be
  non-negative are natural numbers.
\<close>

definition MACRO_RUN_JOURNAL_SCHEMA_VERSION :: string where
  "MACRO_RUN_JOURNAL_SCHEMA_VERSION = ''phios.macro_run_journal.v0.6''"

definition MACRO_RUN_RESUME_RECEIPT_SCHEMA_VERSION :: string where
  "MACRO_RUN_RESUME_RECEIPT_SCHEMA_VERSION = ''phios.macro_run_resume.v0.6''"

datatype journal_entry_kind = JE_START | JE_TRANSITION

fun kind_value :: "journal_entry_kind \<Rightarrow> string" where
  "kind_value JE_START = ''START''"
| "kind_value JE_TRANSITION = ''TRANSITION''"

text \<open>\<open>JournalEntryKind(text)\<close> and \<open>RunnerStatus(text)\<close>; every caller turns the ValueError into its own error.\<close>

definition kind_of :: "string \<Rightarrow> journal_entry_kind option" where
  "kind_of s = find (\<lambda>k. kind_value k = s) [JE_START, JE_TRANSITION]"

definition status_of :: "string \<Rightarrow> runner_status option" where
  "status_of s = find (\<lambda>k. status_value k = s)
     [RS_READY, RS_RUNNING, RS_WAITING_OPERATION, RS_WAITING_CONDITION, RS_WAITING_APPROVAL, RS_WAITING_CALLEE,
      RS_CHECKPOINTING, RS_WAITING_COLLECTION, RS_COMPLETED, RS_HELD, RS_FAILED, RS_ABORTED]"

section \<open>Field checkers\<close>

abbreviation jr_raise :: "string \<Rightarrow> 'a result" where
  "jr_raise \<equiv> raise MacroRunJournalContractError"

definition jr_require_text :: "json \<Rightarrow> string \<Rightarrow> nat \<Rightarrow> string result" where
  "jr_require_text = require_text MacroRunJournalContractError"

definition jr_require_sha256 :: "json \<Rightarrow> string \<Rightarrow> string result" where
  "jr_require_sha256 = require_sha256 MacroRunJournalContractError"

definition jr_text :: "string \<Rightarrow> string \<Rightarrow> nat \<Rightarrow> unit result" where
  "jr_text v field maximum = discard (jr_require_text (JStr v) field maximum)"

definition jr_sha256 :: "string \<Rightarrow> string \<Rightarrow> unit result" where
  "jr_sha256 v field = discard (jr_require_sha256 (JStr v) field)"

definition jr_require_timestamp :: "json \<Rightarrow> string \<Rightarrow> string result" where
  "jr_require_timestamp = macro_require_timestamp MacroRunJournalContractError"

text \<open>\<open>_require_int\<close> with its default minimum 0.\<close>

definition jr_require_int :: "json \<Rightarrow> string \<Rightarrow> nat result" where
  "jr_require_int v field =
     (case v of
        JInt n \<Rightarrow> if n < 0 then jr_raise (field @ '' must be at least 0'') else Ok (nat n)
      | _ \<Rightarrow> jr_raise (field @ '' must be an integer''))"

definition jr_require_bool :: "json \<Rightarrow> string \<Rightarrow> bool result" where
  "jr_require_bool v field = (case v of JBool b \<Rightarrow> Ok b | _ \<Rightarrow> jr_raise (field @ '' must be Boolean''))"

definition jr_counter_pair :: "string \<Rightarrow> json \<Rightarrow> (string \<times> nat) result" where
  "jr_counter_pair field item =
     (case item of
        JList [k, n] \<Rightarrow>
          rbind (jr_require_sha256 k (field @ '' key'')) (\<lambda>k. rbind (jr_require_int n (field @ '' count'')) (\<lambda>n. Ok (k, n)))
      | _ \<Rightarrow> jr_raise (field @ '' items must be two-item lists''))"

definition jr_require_counter_pairs :: "json \<Rightarrow> string \<Rightarrow> (string \<times> nat) list result" where
  "jr_require_counter_pairs v field =
     (case v of JList items \<Rightarrow> rmap (jr_counter_pair field) items | _ \<Rightarrow> jr_raise (field @ '' must be a list''))"

definition canonical_evidence :: "string list \<Rightarrow> unit result" where
  "canonical_evidence refs = first_error
     (map (\<lambda>r. jr_sha256 r ''evidence_ref_sha256'') refs @
      [ensure (sorted_set refs = refs) MacroRunJournalContractError ''evidence_ref_sha256s must be sorted and unique''])"

section \<open>Reading a state back\<close>

text \<open>A \<open>try\<close> block whose errors, all of them ValueErrors, KeyErrors or TypeErrors, become one message.\<close>

definition malformed :: "string \<Rightarrow> 'a result \<Rightarrow> 'a result" where
  "malformed message r = (case r of Inl e \<Rightarrow> jr_raise message | Inr x \<Rightarrow> Ok x)"

definition jr_require_object :: "json \<Rightarrow> string \<Rightarrow> (string \<times> json) list result" where
  "jr_require_object v message = (case v of JObj d \<Rightarrow> Ok d | _ \<Rightarrow> jr_raise message)"

definition jr_optional_text :: "json \<Rightarrow> string \<Rightarrow> string option result" where
  "jr_optional_text v message = (case v of JNull \<Rightarrow> Ok None | JStr s \<Rightarrow> Ok (Some s) | _ \<Rightarrow> jr_raise message)"

definition state_from_dict :: "(string \<times> json) list \<Rightarrow> macro_run_state result" where
  "state_from_dict d =
     rbind (jr_require_sha256 (dget d ''state_sha256'') ''state.state_sha256'') (\<lambda>claimed.
     rbind (malformed ''persisted MacroRunState status is unsupported''
       (rbind (jr_require_text (dget d ''status'') ''state.status'' 512) (\<lambda>t.
        case status_of t of None \<Rightarrow> raise PyValueError (t @ '' is not a valid RunnerStatus'') | Some status \<Rightarrow> Ok status))) (\<lambda>status.
     rbind (jr_require_counter_pairs (dget d ''loop_iterations'') ''state.loop_iterations'') (\<lambda>loops.
     rbind (jr_require_counter_pairs (dget d ''foreach_indices'') ''state.foreach_indices'') (\<lambda>foreach.
     rbind (jr_require_object (dget d ''variables'') ''persisted MacroRunState variables must be an object'') (\<lambda>vars.
     rbind (jr_require_object (dget d ''waiting_on'') ''persisted MacroRunState waiting_on must be an object'') (\<lambda>waiting_on.
     rbind (jr_optional_text (dget d ''last_instruction_path'') ''persisted last_instruction_path must be string or null'') (\<lambda>last_path.
     rbind (jr_require_text (dget d ''macro_id'') ''state.macro_id'' 512) (\<lambda>i.
     rbind (jr_require_text (dget d ''macro_version'') ''state.macro_version'' 128) (\<lambda>ver.
     rbind (jr_require_sha256 (dget d ''plan_sha256'') ''state.plan_sha256'') (\<lambda>plan.
     rbind (jr_require_int (dget d ''cursor'') ''state.cursor'') (\<lambda>cursor.
     rbind (jr_require_text (dget d ''reason'') ''state.reason'' 512) (\<lambda>reason.
     rbind (jr_require_int (dget d ''transitions'') ''state.transitions'') (\<lambda>transitions.
     rbind (jr_require_bool (dget d ''operational_authority'') ''state.operational_authority'') (\<lambda>oa.
     rbind (jr_require_bool (dget d ''action_authority'') ''state.action_authority'') (\<lambda>aa.
     rbind (jr_require_bool (dget d ''execution_authority'') ''state.execution_authority'') (\<lambda>ea.
     rbind (jr_require_text (dget d ''schema_version'') ''state.schema_version'' 512) (\<lambda>schema.
     rbind (mrs_init \<lparr>mrs_macro_id = i, mrs_macro_version = ver, mrs_plan_sha256 = plan, mrs_cursor = cursor,
        mrs_status = status, mrs_reason = reason, mrs_loop_iterations = loops, mrs_foreach_indices = foreach,
        mrs_variables = Some vars, mrs_waiting_on = Some waiting_on, mrs_last_instruction_path = last_path,
        mrs_transitions = transitions, mrs_operational_authority = oa, mrs_action_authority = aa,
        mrs_execution_authority = ea, mrs_schema_version = schema\<rparr>) (\<lambda>state.
     if state_sha256 state \<noteq> claimed then jr_raise ''persisted MacroRunState hash mismatch''
     else Ok state))))))))))))))))))"

section \<open>Entries\<close>

record journal_entry =
  jn_run_id :: string
  jn_sequence :: nat
  jn_kind :: journal_entry_kind
  jn_macro_id :: string
  jn_macro_version :: string
  jn_plan_sha256 :: string
  jn_previous_entry_sha256 :: "string option"
  jn_previous_state_sha256 :: "string option"
  jn_state_sha256 :: string
  jn_state :: "(string \<times> json) list"
  jn_evidence_ref_sha256s :: "string list"
  jn_operational_authority :: bool
  jn_action_authority :: bool
  jn_execution_authority :: bool
  jn_schema_version :: string

definition jn_links :: "journal_entry \<Rightarrow> unit result" where
  "jn_links e = first_error
     (if jn_sequence e = 0 then
        [ensure (jn_kind e = JE_START) MacroRunJournalContractError ''sequence zero journal entry must be START'',
         ensure (jn_previous_entry_sha256 e = None \<and> jn_previous_state_sha256 e = None) MacroRunJournalContractError
           ''START entry cannot reference prior history'']
      else
        [ensure (jn_kind e = JE_TRANSITION) MacroRunJournalContractError ''nonzero journal entry must be TRANSITION'',
         ensure (jn_previous_entry_sha256 e \<noteq> None \<and> jn_previous_state_sha256 e \<noteq> None) MacroRunJournalContractError
           ''TRANSITION entry requires prior hashes''])"

definition jn_init :: "journal_entry \<Rightarrow> journal_entry result" where
  "jn_init e =
     rbind (first_error
       [ensure (jn_schema_version e = MACRO_RUN_JOURNAL_SCHEMA_VERSION) MacroRunJournalContractError
          ''unsupported macro run journal schema'',
        jr_text (jn_run_id e) ''run_id'' 512,
        jr_text (jn_macro_id e) ''macro_id'' 512,
        jr_text (jn_macro_version e) ''macro_version'' 128,
        jr_sha256 (jn_plan_sha256 e) ''plan_sha256'',
        jr_sha256 (jn_state_sha256 e) ''state_sha256'',
        (case jn_previous_entry_sha256 e of None \<Rightarrow> Ok () | Some h \<Rightarrow> jr_sha256 h ''previous_entry_sha256''),
        (case jn_previous_state_sha256 e of None \<Rightarrow> Ok () | Some h \<Rightarrow> jr_sha256 h ''previous_state_sha256''),
        canonical_evidence (jn_evidence_ref_sha256s e),
        ensure (\<not> (jn_operational_authority e \<or> jn_action_authority e \<or> jn_execution_authority e))
          MacroRunJournalContractError ''MacroRunJournalEntry cannot carry authority'']) (\<lambda>_.
     rbind (state_from_dict (jn_state e)) (\<lambda>s.
     rbind (first_error
       [ensure (state_sha256 s = jn_state_sha256 e) MacroRunJournalContractError
          ''journal state_sha256 does not match persisted state'',
        ensure (mrs_macro_id s = jn_macro_id e \<and> mrs_macro_version s = jn_macro_version e \<and> mrs_plan_sha256 s = jn_plan_sha256 e)
          MacroRunJournalContractError ''journal identity does not match persisted state'',
        jn_links e]) (\<lambda>_. Ok e)))"

definition jn_body :: "journal_entry \<Rightarrow> (string \<times> json) list" where
  "jn_body e =
     [(''schema_version'', JStr (jn_schema_version e)),
      (''run_id'', JStr (jn_run_id e)),
      (''sequence'', JInt (int (jn_sequence e))),
      (''kind'', JStr (kind_value (jn_kind e))),
      (''macro_id'', JStr (jn_macro_id e)),
      (''macro_version'', JStr (jn_macro_version e)),
      (''plan_sha256'', JStr (jn_plan_sha256 e)),
      (''previous_entry_sha256'', jopt (jn_previous_entry_sha256 e)),
      (''previous_state_sha256'', jopt (jn_previous_state_sha256 e)),
      (''state_sha256'', JStr (jn_state_sha256 e)),
      (''state'', JObj (jn_state e)),
      (''evidence_ref_sha256s'', jstrs (jn_evidence_ref_sha256s e)),
      (''operational_authority'', JBool (jn_operational_authority e)),
      (''action_authority'', JBool (jn_action_authority e)),
      (''execution_authority'', JBool (jn_execution_authority e))]"

definition entry_sha256 :: "journal_entry \<Rightarrow> string" where
  "entry_sha256 e = canonical_sha256 (JObj (jn_body e))"

definition jn_to_dict :: "journal_entry \<Rightarrow> (string \<times> json) list" where
  "jn_to_dict e = jn_body e @ [(''entry_sha256'', JStr (entry_sha256 e))]"

text \<open>The arguments \<open>from_dict\<close> gives the constructor; every error among them becomes one message.\<close>

definition optional_item :: "(string \<times> json) list \<Rightarrow> string \<Rightarrow> string option" where
  "optional_item d k = (case dget d k of JNull \<Rightarrow> None | j \<Rightarrow> Some (py_str j))"

definition str_item :: "(string \<times> json) list \<Rightarrow> string \<Rightarrow> string result" where
  "str_item d k = rbind (dict_item d k) (\<lambda>v. Ok (py_str v))"

definition bool_item :: "(string \<times> json) list \<Rightarrow> string \<Rightarrow> bool result" where
  "bool_item d k = rbind (dict_item d k) (\<lambda>v. Ok (py_truth v))"

definition jn_arguments :: "(string \<times> json) list \<Rightarrow> (string \<times> json) list \<Rightarrow> string list \<Rightarrow> journal_entry result" where
  "jn_arguments d state evidence =
     rbind (str_item d ''run_id'') (\<lambda>run_id.
     rbind (jr_require_int (dget d ''sequence'') ''journal sequence'') (\<lambda>sequence.
     rbind (str_item d ''kind'') (\<lambda>kind_text.
     rbind (case kind_of kind_text of Some k \<Rightarrow> Ok k | None \<Rightarrow> raise PyValueError (kind_text @ '' is not a valid JournalEntryKind'')) (\<lambda>kind.
     rbind (str_item d ''macro_id'') (\<lambda>i.
     rbind (str_item d ''macro_version'') (\<lambda>ver.
     rbind (str_item d ''plan_sha256'') (\<lambda>plan.
     rbind (str_item d ''state_sha256'') (\<lambda>state_sha.
     rbind (bool_item d ''operational_authority'') (\<lambda>oa.
     rbind (bool_item d ''action_authority'') (\<lambda>aa.
     rbind (bool_item d ''execution_authority'') (\<lambda>ea.
     rbind (str_item d ''schema_version'') (\<lambda>schema.
     jn_init \<lparr>jn_run_id = run_id, jn_sequence = sequence, jn_kind = kind, jn_macro_id = i, jn_macro_version = ver,
       jn_plan_sha256 = plan, jn_previous_entry_sha256 = optional_item d ''previous_entry_sha256'',
       jn_previous_state_sha256 = optional_item d ''previous_state_sha256'', jn_state_sha256 = state_sha, jn_state = state,
       jn_evidence_ref_sha256s = evidence, jn_operational_authority = oa, jn_action_authority = aa,
       jn_execution_authority = ea, jn_schema_version = schema\<rparr>))))))))))))"

definition evidence_item :: "(string \<times> json) list \<Rightarrow> string list result" where
  "evidence_item d =
     (let err = jr_raise ''evidence_ref_sha256s must be a string list'' in
      case map_of d ''evidence_ref_sha256s'' of
        None \<Rightarrow> Ok []
      | Some (JList xs) \<Rightarrow> (if list_all is_jstr xs then Ok (map (\<lambda>x. case x of JStr s \<Rightarrow> s | _ \<Rightarrow> []) xs) else err)
      | _ \<Rightarrow> err)"

definition jn_from_dict :: "(string \<times> json) list \<Rightarrow> journal_entry result" where
  "jn_from_dict d =
     rbind (jr_require_sha256 (dget d ''entry_sha256'') ''entry_sha256'') (\<lambda>claimed.
     rbind (jr_require_object (dget d ''state'') ''journal state must be an object'') (\<lambda>state.
     rbind (evidence_item d) (\<lambda>evidence.
     rbind (malformed ''journal entry is malformed'' (jn_arguments d state evidence)) (\<lambda>e.
     if entry_sha256 e \<noteq> claimed then jr_raise ''journal entry hash mismatch'' else Ok e))))"

section \<open>Resume receipts\<close>

record resume_receipt =
  rsr_run_id :: string
  rsr_macro_id :: string
  rsr_macro_version :: string
  rsr_plan_sha256 :: string
  rsr_entry_count :: nat
  rsr_head_entry_sha256 :: string
  rsr_resumed_state_sha256 :: string
  rsr_resumed_status :: string
  rsr_resumed_at :: string
  rsr_operational_authority :: bool
  rsr_action_authority :: bool
  rsr_execution_authority :: bool
  rsr_schema_version :: string

definition rsr_init :: "resume_receipt \<Rightarrow> resume_receipt result" where
  "rsr_init r = validated
     [ensure (rsr_schema_version r = MACRO_RUN_RESUME_RECEIPT_SCHEMA_VERSION) MacroRunJournalContractError
        ''unsupported macro run resume schema'',
      jr_text (rsr_run_id r) ''run_id'' 512,
      jr_text (rsr_macro_id r) ''macro_id'' 512,
      jr_text (rsr_macro_version r) ''macro_version'' 128,
      jr_sha256 (rsr_plan_sha256 r) ''plan_sha256'',
      ensure (1 \<le> rsr_entry_count r) MacroRunJournalContractError ''entry_count must be positive'',
      jr_sha256 (rsr_head_entry_sha256 r) ''head_entry_sha256'',
      jr_sha256 (rsr_resumed_state_sha256 r) ''resumed_state_sha256'',
      jr_text (rsr_resumed_status r) ''resumed_status'' 64,
      discard (jr_require_timestamp (JStr (rsr_resumed_at r)) ''resumed_at''),
      ensure (\<not> (rsr_operational_authority r \<or> rsr_action_authority r \<or> rsr_execution_authority r))
        MacroRunJournalContractError ''MacroRunResumeReceipt cannot carry authority''] r"

definition rsr_body :: "resume_receipt \<Rightarrow> (string \<times> json) list" where
  "rsr_body r =
     [(''schema_version'', JStr (rsr_schema_version r)),
      (''run_id'', JStr (rsr_run_id r)),
      (''macro_id'', JStr (rsr_macro_id r)),
      (''macro_version'', JStr (rsr_macro_version r)),
      (''plan_sha256'', JStr (rsr_plan_sha256 r)),
      (''entry_count'', JInt (int (rsr_entry_count r))),
      (''head_entry_sha256'', JStr (rsr_head_entry_sha256 r)),
      (''resumed_state_sha256'', JStr (rsr_resumed_state_sha256 r)),
      (''resumed_status'', JStr (rsr_resumed_status r)),
      (''resumed_at'', JStr (rsr_resumed_at r)),
      (''operational_authority'', JBool (rsr_operational_authority r)),
      (''action_authority'', JBool (rsr_action_authority r)),
      (''execution_authority'', JBool (rsr_execution_authority r))]"

definition rsr_receipt_sha256 :: "resume_receipt \<Rightarrow> string" where
  "rsr_receipt_sha256 r = canonical_sha256 (JObj (rsr_body r))"

definition rsr_to_dict :: "resume_receipt \<Rightarrow> (string \<times> json) list" where
  "rsr_to_dict r = rsr_body r @ [(''receipt_sha256'', JStr (rsr_receipt_sha256 r))]"

section \<open>The histories of macro runs\<close>

text \<open>
  The files of \<open>RealityLedger\<close> for macro runs: journal, resume receipts, start receipts, and the claims
  of start identities and of run ids.
\<close>

record macro_ledger =
  mh_journal :: state_file
  mh_resumes :: state_file
  mh_starts :: state_file
  mh_start_claims :: "string list"
  mh_run_claims :: "string list"

definition mh_append_entry ::
  "exn option \<Rightarrow> exn option \<Rightarrow> journal_entry \<Rightarrow> (macro_ledger, unit) action" where
  "mh_append_entry open_fault write_fault e l =
     (case append_jsonl open_fault write_fault (mh_journal l) (jn_to_dict e) None of
        (r, f) \<Rightarrow> (discard r, l\<lparr>mh_journal := f\<rparr>))"

definition mh_entries :: "exn option \<Rightarrow> string \<Rightarrow> macro_ledger \<Rightarrow> (string \<times> json) list list result" where
  "mh_entries open_fault run_id l =
     (if mh_journal l = None then Ok []
      else rbind (read_jsonl open_fault (mh_journal l)) (\<lambda>rows. Ok (filter (\<lambda>row. dget row ''run_id'' = JStr run_id) rows)))"

definition mh_append_resume ::
  "exn option \<Rightarrow> exn option \<Rightarrow> resume_receipt \<Rightarrow> (macro_ledger, unit) action" where
  "mh_append_resume open_fault write_fault r l =
     (case append_jsonl open_fault write_fault (mh_resumes l) (rsr_to_dict r) None of
        (r, f) \<Rightarrow> (discard r, l\<lparr>mh_resumes := f\<rparr>))"

definition mh_recent_resumes :: "exn option \<Rightarrow> json \<Rightarrow> macro_ledger \<Rightarrow> (string \<times> json) list list result" where
  "mh_recent_resumes open_fault limit l = recent_of ''recent macro run resume receipt'' open_fault (mh_resumes l) limit"

section \<open>The journal\<close>

text \<open>\<open>_load_and_validate\<close>: the loop over the entries of one run, with the entry before.\<close>

definition link_ok :: "journal_entry \<Rightarrow> journal_entry \<Rightarrow> unit result" where
  "link_ok previous e =
     rbind (first_error
       [ensure (jn_previous_entry_sha256 e = Some (entry_sha256 previous)) MacroRunJournalContractError
          ''journal previous-entry hash chain mismatch'',
        ensure (jn_previous_state_sha256 e = Some (jn_state_sha256 previous)) MacroRunJournalContractError
          ''journal previous-state hash chain mismatch'']) (\<lambda>_.
     rbind (state_from_dict (jn_state previous)) (\<lambda>before.
     rbind (state_from_dict (jn_state e)) (\<lambda>current.
     first_error
       [ensure (mrs_status before \<notin> set TERMINAL_STATUSES) MacroRunJournalContractError
          ''journal continues after terminal state'',
        ensure (mrs_transitions before \<le> mrs_transitions current) MacroRunJournalContractError
          ''journal transition count moved backward''])))"

fun check_chain :: "string \<Rightarrow> journal_entry \<Rightarrow> nat \<Rightarrow> journal_entry option \<Rightarrow> journal_entry list \<Rightarrow> unit result" where
  "check_chain run_id first n previous [] = Ok ()"
| "check_chain run_id first n previous (e # rest) =
     rbind (first_error
       [ensure (jn_run_id e = run_id) MacroRunJournalContractError ''journal entry run_id mismatch'',
        ensure (jn_sequence e = n) MacroRunJournalContractError ''journal sequence is not contiguous'',
        ensure (jn_macro_id e = jn_macro_id first \<and> jn_macro_version e = jn_macro_version first
            \<and> jn_plan_sha256 e = jn_plan_sha256 first) MacroRunJournalContractError ''journal identity changed within one run'',
        (case previous of None \<Rightarrow> Ok () | Some p \<Rightarrow> link_ok p e)]) (\<lambda>_.
     check_chain run_id first (Suc n) (Some e) rest)"

definition load_and_validate :: "exn option \<Rightarrow> string \<Rightarrow> macro_ledger \<Rightarrow> journal_entry list result" where
  "load_and_validate read_fault run_id l =
     rbind (mh_entries read_fault run_id l) (\<lambda>rows.
     rbind (rmap jn_from_dict rows) (\<lambda>entries.
     case entries of
       [] \<Rightarrow> Ok []
     | first # _ \<Rightarrow> rbind (check_chain run_id first 0 None entries) (\<lambda>_. Ok entries)))"

definition validate_plan_state :: "macro_plan \<Rightarrow> macro_run_state \<Rightarrow> unit result" where
  "validate_plan_state p s = first_error
     [ensure (mrs_plan_sha256 s = plan_sha256 p) MacroRunJournalContractError
        ''MacroRunState plan hash does not match MacroPlan'',
      ensure (mrs_macro_id s = pl_macro_id p \<and> mrs_macro_version s = pl_macro_version p) MacroRunJournalContractError
        ''MacroRunState macro identity does not match MacroPlan'']"

definition has_run :: "exn option \<Rightarrow> exn option \<Rightarrow> string \<Rightarrow> macro_ledger \<Rightarrow> bool result" where
  "has_run read_fault read_fault' run_id l =
     rbind (jr_text run_id ''run_id'' 512) (\<lambda>_.
     rbind (mh_entries read_fault run_id l) (\<lambda>rows.
     if rows = [] then Ok False else rbind (load_and_validate read_fault' run_id l) (\<lambda>_. Ok True)))"

text \<open>The entry \<open>append_state\<close> makes from the history it has read.\<close>

definition new_entry ::
  "string \<Rightarrow> macro_run_state \<Rightarrow> string list \<Rightarrow> nat \<Rightarrow> journal_entry_kind \<Rightarrow> string option \<Rightarrow> string option \<Rightarrow> journal_entry result" where
  "new_entry run_id s evidence sequence kind prev_entry prev_state = jn_init
     \<lparr>jn_run_id = run_id, jn_sequence = sequence, jn_kind = kind, jn_macro_id = mrs_macro_id s,
      jn_macro_version = mrs_macro_version s, jn_plan_sha256 = mrs_plan_sha256 s, jn_previous_entry_sha256 = prev_entry,
      jn_previous_state_sha256 = prev_state, jn_state_sha256 = state_sha256 s, jn_state = mrs_to_dict s,
      jn_evidence_ref_sha256s = evidence, jn_operational_authority = False, jn_action_authority = False,
      jn_execution_authority = False, jn_schema_version = MACRO_RUN_JOURNAL_SCHEMA_VERSION\<rparr>"

definition next_entry ::
  "string \<Rightarrow> macro_run_state \<Rightarrow> string option \<Rightarrow> string list \<Rightarrow> journal_entry list \<Rightarrow> journal_entry result" where
  "next_entry run_id s expected_head evidence existing =
     (if existing = [] then
        (if expected_head \<noteq> None then jr_raise ''new run cannot specify expected journal head''
         else new_entry run_id s evidence 0 JE_START None None)
      else
        let head = last existing in
        (case expected_head of
           None \<Rightarrow> jr_raise ''existing run requires expected_head_sha256''
         | Some expected \<Rightarrow>
             rbind (jr_sha256 expected ''expected_head_sha256'') (\<lambda>_.
             if expected \<noteq> entry_sha256 head then jr_raise ''expected journal head does not match current head''
             else rbind (state_from_dict (jn_state head)) (\<lambda>before.
             rbind (first_error
               [ensure (mrs_status before \<notin> set TERMINAL_STATUSES) MacroRunJournalContractError
                  ''terminal MacroRunState cannot be followed by another state'',
                ensure (state_sha256 s \<noteq> state_sha256 before) MacroRunJournalContractError
                  ''journal transition must change MacroRunState'',
                ensure (mrs_transitions before \<le> mrs_transitions s) MacroRunJournalContractError
                  ''journal transition count cannot move backward'']) (\<lambda>_.
             new_entry run_id s evidence (jn_sequence head + 1) JE_TRANSITION (Some (entry_sha256 head))
               (Some (state_sha256 before)))))))"

text \<open>\<open>append_state\<close> in its two halves: reading the history and making the entry, and appending it.\<close>

definition prepare_entry ::
  "exn option \<Rightarrow> string \<Rightarrow> macro_plan \<Rightarrow> macro_run_state \<Rightarrow> string option \<Rightarrow> string list \<Rightarrow> macro_ledger \<Rightarrow> journal_entry result" where
  "prepare_entry read_fault run_id p s expected_head evidence l =
     rbind (jr_text run_id ''run_id'' 512) (\<lambda>_.
     rbind (validate_plan_state p s) (\<lambda>_.
     rbind (canonical_evidence evidence) (\<lambda>_.
     rbind (load_and_validate read_fault run_id l) (\<lambda>existing.
     next_entry run_id s expected_head evidence existing))))"

definition append_state ::
  "exn option \<Rightarrow> exn option \<Rightarrow> exn option \<Rightarrow> string \<Rightarrow> macro_plan \<Rightarrow> macro_run_state \<Rightarrow> string option \<Rightarrow> string list \<Rightarrow>
     (macro_ledger, journal_entry) action" where
  "append_state read_fault open_fault write_fault run_id p s expected_head evidence =
     st_bind (st_read (prepare_entry read_fault run_id p s expected_head evidence)) (\<lambda>e.
     st_bind (mh_append_entry open_fault write_fault e) (\<lambda>_. st_return e))"

record reconstruction =
  re_state :: macro_run_state
  re_head_entry :: journal_entry
  re_entry_count :: nat

definition reconstruct :: "exn option \<Rightarrow> string \<Rightarrow> macro_plan \<Rightarrow> macro_ledger \<Rightarrow> reconstruction result" where
  "reconstruct read_fault run_id p l =
     rbind (jr_text run_id ''run_id'' 512) (\<lambda>_.
     rbind (load_and_validate read_fault run_id l) (\<lambda>entries.
     if entries = [] then jr_raise ''macro run journal contains no entries for run_id''
     else
       let head = last entries in
       rbind (first_error
         [ensure (jn_plan_sha256 head = plan_sha256 p) MacroRunJournalContractError
            ''journal plan hash does not match supplied MacroPlan'',
          ensure (jn_macro_id head = pl_macro_id p \<and> jn_macro_version head = pl_macro_version p) MacroRunJournalContractError
            ''journal macro identity does not match supplied MacroPlan'']) (\<lambda>_.
       rbind (state_from_dict (jn_state head)) (\<lambda>s.
       rbind (validate_plan_state p s) (\<lambda>_.
       Ok \<lparr>re_state = s, re_head_entry = head, re_entry_count = length entries\<rparr>)))))"

definition resume_run ::
  "exn option \<Rightarrow> exn option \<Rightarrow> exn option \<Rightarrow> string \<Rightarrow> macro_plan \<Rightarrow> string \<Rightarrow>
     (macro_ledger, macro_run_state \<times> resume_receipt) action" where
  "resume_run read_fault open_fault write_fault run_id p resumed_at =
     st_bind (st_read (reconstruct read_fault run_id p)) (\<lambda>c.
     st_bind (st_result (rbind (jr_require_timestamp (JStr resumed_at) ''resumed_at'') (\<lambda>at_time.
       rsr_init \<lparr>rsr_run_id = run_id, rsr_macro_id = pl_macro_id p, rsr_macro_version = pl_macro_version p,
         rsr_plan_sha256 = plan_sha256 p, rsr_entry_count = re_entry_count c,
         rsr_head_entry_sha256 = entry_sha256 (re_head_entry c), rsr_resumed_state_sha256 = state_sha256 (re_state c),
         rsr_resumed_status = status_value (mrs_status (re_state c)), rsr_resumed_at = at_time,
         rsr_operational_authority = False, rsr_action_authority = False, rsr_execution_authority = False,
         rsr_schema_version = MACRO_RUN_RESUME_RECEIPT_SCHEMA_VERSION\<rparr>))) (\<lambda>receipt.
     st_bind (mh_append_resume open_fault write_fault receipt) (\<lambda>_. st_return (re_state c, receipt))))"

section \<open>Reading back what was printed\<close>

lemma kind_of_iff [simp]: "kind_of s = Some k \<longleftrightarrow> s = kind_value k"
proof
  show "kind_of s = Some k \<Longrightarrow> s = kind_value k" unfolding kind_of_def find_Some_iff by blast
  show "s = kind_value k \<Longrightarrow> kind_of s = Some k" by (cases k) (simp_all add: kind_of_def)
qed

lemma kind_of_value [simp]: "kind_of (kind_value k) = Some k"
  by simp

lemma status_of_iff [simp]: "status_of s = Some st \<longleftrightarrow> s = status_value st"
proof
  show "status_of s = Some st \<Longrightarrow> s = status_value st" unfolding status_of_def find_Some_iff by blast
  show "s = status_value st \<Longrightarrow> status_of s = Some st" by (cases st) (simp_all add: status_of_def)
qed

lemma status_of_value [simp]: "status_of (status_value st) = Some st"
  by simp

lemma malformed_Ok_iff [result_simps]: "malformed m r = Inr x \<longleftrightarrow> r = Inr x"
  by (auto simp: malformed_def split: sum.splits)

lemma jr_checkers_Ok_iff [result_simps]:
  "jr_require_text v f m = Inr s \<longleftrightarrow> v = JStr s \<and> plain_text m s"
  "jr_require_sha256 v f = Inr s \<longleftrightarrow> v = JStr s \<and> is_sha256 s"
  "jr_text t f m = Inr () \<longleftrightarrow> plain_text m t"
  "jr_sha256 t f = Inr () \<longleftrightarrow> is_sha256 t"
  "jr_require_int v f = Inr n \<longleftrightarrow> v = JInt (int n)"
  "jr_require_bool v f = Inr b \<longleftrightarrow> v = JBool b"
  "jr_require_object v m' = Inr d \<longleftrightarrow> v = JObj d"
  "jr_optional_text v m' = Inr ot \<longleftrightarrow> v = jopt ot"
  by (auto simp: jr_require_text_def jr_require_sha256_def jr_text_def jr_sha256_def jr_require_int_def jr_require_bool_def
      jr_require_object_def jr_optional_text_def discard_Ok_iff result_simps split: json.splits if_splits option.splits)

lemma jr_counter_pair_Ok_iff: "jr_counter_pair f v = Inr kn \<longleftrightarrow> v = JList [JStr (fst kn), JInt (int (snd kn))] \<and> is_sha256 (fst kn)"
  by (cases kn) (auto simp: jr_counter_pair_def rbind_Ok_iff result_simps split: json.splits list.splits)

lemma jr_counter_pairs_Ok_iff [result_simps]:
  "jr_require_counter_pairs v f = Inr xs \<longleftrightarrow> v = counter_pairs xs \<and> list_all is_sha256 (map fst xs)"
proof -
  have "rmap (jr_counter_pair f) items = Inr xs \<longleftrightarrow>
      items = map (\<lambda>(k, n). JList [JStr k, JInt (int n)]) xs \<and> list_all is_sha256 (map fst xs)" for items
  proof (induction items arbitrary: xs)
    case (Cons item items)
    then show ?case by (cases xs) (auto simp: rbind_Ok_iff jr_counter_pair_Ok_iff)
  qed auto
  then show ?thesis by (cases v) (simp_all add: jr_require_counter_pairs_def counter_pairs_def)
qed

definition reads_as :: "(string \<times> json) list \<Rightarrow> (string \<times> json) list \<Rightarrow> bool" where
  "reads_as d printed \<longleftrightarrow> list_all (\<lambda>(k, v). dget d k = v) printed"

lemma counter_keys_ok:
  "(\<forall>c \<in> (\<lambda>(k, n). rn_require_sha256 k f) ` set xs. c = Inr ()) \<longleftrightarrow> list_all is_sha256 (map fst xs)"
  by (auto simp: list_all_iff rn_require_sha256_def discard_Ok_iff result_simps)

lemma mrs_init_valid:
  "mrs_init s = Inr t \<longleftrightarrow> t = s \<and> mrs_schema_version s = MACRO_RUN_STATE_SCHEMA_VERSION \<and> plain_text 512 (mrs_macro_id s)
     \<and> plain_text 128 (mrs_macro_version s) \<and> is_sha256 (mrs_plan_sha256 s) \<and> plain_text 512 (mrs_reason s)
     \<and> (case mrs_last_instruction_path s of None \<Rightarrow> True | Some p \<Rightarrow> plain_text 512 p)
     \<and> list_all is_sha256 (map fst (mrs_loop_iterations s)) \<and> list_all is_sha256 (map fst (mrs_foreach_indices s))
     \<and> \<not> mrs_operational_authority s \<and> \<not> mrs_action_authority s \<and> \<not> mrs_execution_authority s"
  unfolding mrs_init_def validated_Ok_iff first_error_Ok_iff set_append set_map ball_Un counter_keys_ok
  by (auto simp: rn_text_def rn_require_text_def discard_text_Ok_iff rn_require_sha256_def discard_Ok_iff result_simps
      split: option.splits)

lemma plain_text_status: "plain_text 512 (status_value st)" "plain_text 64 (status_value st)"
  by (cases st; simp add: plain_text_def is_control_def)+

lemma plain_text_state_schema: "plain_text 512 MACRO_RUN_STATE_SCHEMA_VERSION"
  by (simp add: MACRO_RUN_STATE_SCHEMA_VERSION_def plain_text_def is_control_def)

lemma is_sha256_state: "is_sha256 (state_sha256 s)"
  by (simp add: state_sha256_def)

lemma state_from_dict_iff:
  "state_from_dict d = Inr s \<longleftrightarrow> mrs_init s = Inr s \<and> mrs_variables s \<noteq> None \<and> mrs_waiting_on s \<noteq> None \<and> reads_as d (mrs_to_dict s)"
proof
  assume "state_from_dict d = Inr s"
  then show "mrs_init s = Inr s \<and> mrs_variables s \<noteq> None \<and> mrs_waiting_on s \<noteq> None \<and> reads_as d (mrs_to_dict s)"
    unfolding state_from_dict_def
  proof (elim rbind_OkE, goal_cases)
    case (1 claimed status loops foreach vars waiting_on last_path i ver plan cursor reason transitions oa aa ea schema state)
    have same: "state = s" and sha: "state_sha256 s = claimed" using 1(19) by (simp_all split: if_splits)
    have "s = \<lparr>mrs_macro_id = i, mrs_macro_version = ver, mrs_plan_sha256 = plan, mrs_cursor = cursor,
        mrs_status = status, mrs_reason = reason, mrs_loop_iterations = loops, mrs_foreach_indices = foreach,
        mrs_variables = Some vars, mrs_waiting_on = Some waiting_on, mrs_last_instruction_path = last_path,
        mrs_transitions = transitions, mrs_operational_authority = oa, mrs_action_authority = aa,
        mrs_execution_authority = ea, mrs_schema_version = schema\<rparr>" and init: "mrs_init s = Inr s"
      using 1(18) unfolding same mrs_init_valid by simp_all
    then have eqs: "mrs_macro_id s = i" "mrs_macro_version s = ver" "mrs_plan_sha256 s = plan" "mrs_cursor s = cursor"
      "mrs_status s = status" "mrs_reason s = reason" "mrs_loop_iterations s = loops" "mrs_foreach_indices s = foreach"
      "mrs_variables s = Some vars" "mrs_waiting_on s = Some waiting_on" "mrs_last_instruction_path s = last_path"
      "mrs_transitions s = transitions" "mrs_operational_authority s = oa" "mrs_action_authority s = aa"
      "mrs_execution_authority s = ea" "mrs_schema_version s = schema" by simp_all
    have "dget d ''status'' = JStr (status_value status)" using 1(2) by (auto simp: result_simps rbind_Ok_iff split: option.splits)
    then have "reads_as d (mrs_to_dict s)"
      using 1(1,3-17) unfolding result_simps by (simp add: reads_as_def mrs_to_dict_def mrs_body_def or_empty_def eqs sha)
    then show ?thesis using init eqs by simp
  qed
next
  assume ok: "mrs_init s = Inr s \<and> mrs_variables s \<noteq> None \<and> mrs_waiting_on s \<noteq> None \<and> reads_as d (mrs_to_dict s)"
  then obtain vars waiting_on where vw: "mrs_variables s = Some vars" "mrs_waiting_on s = Some waiting_on" by auto
  note valid = ok [unfolded mrs_init_valid reads_as_def mrs_to_dict_def mrs_body_def vw or_empty_def, simplified]
  have checks: "jr_require_sha256 (dget d ''state_sha256'') f = Inr (state_sha256 s)"
    "malformed f (rbind (jr_require_text (dget d ''status'') g 512) (\<lambda>t. case status_of t of None \<Rightarrow> raise PyValueError (h t) | Some status \<Rightarrow> Ok status))
       = Inr (mrs_status s)"
    "jr_require_counter_pairs (dget d ''loop_iterations'') f = Inr (mrs_loop_iterations s)"
    "jr_require_counter_pairs (dget d ''foreach_indices'') f = Inr (mrs_foreach_indices s)"
    "jr_require_object (dget d ''variables'') f = Inr vars" "jr_require_object (dget d ''waiting_on'') f = Inr waiting_on"
    "jr_optional_text (dget d ''last_instruction_path'') f = Inr (mrs_last_instruction_path s)"
    "jr_require_text (dget d ''macro_id'') f 512 = Inr (mrs_macro_id s)"
    "jr_require_text (dget d ''macro_version'') f 128 = Inr (mrs_macro_version s)"
    "jr_require_sha256 (dget d ''plan_sha256'') f = Inr (mrs_plan_sha256 s)"
    "jr_require_int (dget d ''cursor'') f = Inr (mrs_cursor s)" "jr_require_text (dget d ''reason'') f 512 = Inr (mrs_reason s)"
    "jr_require_int (dget d ''transitions'') f = Inr (mrs_transitions s)"
    "jr_require_bool (dget d ''operational_authority'') f = Inr (mrs_operational_authority s)"
    "jr_require_bool (dget d ''action_authority'') f = Inr (mrs_action_authority s)"
    "jr_require_bool (dget d ''execution_authority'') f = Inr (mrs_execution_authority s)"
    "jr_require_text (dget d ''schema_version'') f 512 = Inr (mrs_schema_version s)" for f g h
    using valid
    by (simp_all add: result_simps rbind_Ok_iff plain_text_status plain_text_state_schema is_sha256_state)
  have "\<lparr>mrs_macro_id = mrs_macro_id s, mrs_macro_version = mrs_macro_version s, mrs_plan_sha256 = mrs_plan_sha256 s,
      mrs_cursor = mrs_cursor s, mrs_status = mrs_status s, mrs_reason = mrs_reason s,
      mrs_loop_iterations = mrs_loop_iterations s, mrs_foreach_indices = mrs_foreach_indices s, mrs_variables = Some vars,
      mrs_waiting_on = Some waiting_on, mrs_last_instruction_path = mrs_last_instruction_path s,
      mrs_transitions = mrs_transitions s, mrs_operational_authority = mrs_operational_authority s,
      mrs_action_authority = mrs_action_authority s, mrs_execution_authority = mrs_execution_authority s,
      mrs_schema_version = mrs_schema_version s\<rparr> = s"
    using vw by (cases s) simp
  then show "state_from_dict d = Inr s"
    using ok unfolding state_from_dict_def checks rbind.simps by simp
qed

text \<open>A state as it comes back from a file: the members of its dicts are in canonical form.\<close>

definition canonical_state :: "macro_run_state \<Rightarrow> macro_run_state" where
  "canonical_state s = s\<lparr>mrs_variables := Some (stored (or_empty (mrs_variables s))),
     mrs_waiting_on := Some (stored (or_empty (mrs_waiting_on s)))\<rparr>"

lemma canon_scalars [simp]:
  "canon (jopt t) = jopt t" "canon (counter_pairs xs) = counter_pairs xs" "canon (jstrs ts) = jstrs ts"
  by (auto simp: counter_pairs_def split: option.split)

lemma or_empty_Some [simp]: "or_empty (Some d) = d"
  by (simp add: or_empty_def)

lemma canonical_state_simps [simp]:
  "mrs_macro_id (canonical_state s) = mrs_macro_id s" "mrs_macro_version (canonical_state s) = mrs_macro_version s"
  "mrs_plan_sha256 (canonical_state s) = mrs_plan_sha256 s" "mrs_cursor (canonical_state s) = mrs_cursor s"
  "mrs_status (canonical_state s) = mrs_status s" "mrs_reason (canonical_state s) = mrs_reason s"
  "mrs_loop_iterations (canonical_state s) = mrs_loop_iterations s"
  "mrs_foreach_indices (canonical_state s) = mrs_foreach_indices s"
  "mrs_variables (canonical_state s) = Some (stored (or_empty (mrs_variables s)))"
  "mrs_waiting_on (canonical_state s) = Some (stored (or_empty (mrs_waiting_on s)))"
  "mrs_last_instruction_path (canonical_state s) = mrs_last_instruction_path s"
  "mrs_transitions (canonical_state s) = mrs_transitions s"
  "mrs_operational_authority (canonical_state s) = mrs_operational_authority s"
  "mrs_action_authority (canonical_state s) = mrs_action_authority s"
  "mrs_execution_authority (canonical_state s) = mrs_execution_authority s"
  "mrs_schema_version (canonical_state s) = mrs_schema_version s"
  by (simp_all add: canonical_state_def)

lemma stored_twice [simp]:
  "sort_key fst (map (\<lambda>kv. (fst kv, canon (snd kv))) (stored p)) = sort_key fst (map (\<lambda>kv. (fst kv, canon (snd kv))) p)"
  using canon_idem [of "JObj p"] by (simp add: stored_def)

lemma canonical_state_body: "canon (JObj (mrs_body (canonical_state s))) = canon (JObj (mrs_body s))"
  by (simp add: mrs_body_def)

lemma state_sha256_canonical [simp]: "state_sha256 (canonical_state s) = state_sha256 s"
  by (simp only: state_sha256_def canonical_sha256_def dumps_def canonical_state_body)

lemma mrs_init_canonical: "mrs_init s = Inr s \<Longrightarrow> mrs_init (canonical_state s) = Inr (canonical_state s)"
  by (simp add: mrs_init_valid)

lemma distinct_mrs_keys: "distinct (map fst (mrs_to_dict s))"
  by (simp add: mrs_to_dict_def mrs_body_def)

lemma mrs_dict_reads: "reads_as (mrs_to_dict s) (mrs_to_dict s)"
  by (simp add: reads_as_def mrs_to_dict_def mrs_body_def)

lemma reads_as_stored:
  assumes "distinct (map fst d)" and "reads_as d (mrs_to_dict s)"
  shows "reads_as (stored d) (mrs_to_dict (canonical_state s))"
proof -
  have "mrs_to_dict (canonical_state s) = map (\<lambda>(k, v). (k, canon v)) (mrs_to_dict s)"
    by (simp add: mrs_to_dict_def mrs_body_def stored_def)
  then show ?thesis using assms by (auto simp: reads_as_def list_all_iff dget_stored)
qed

lemma state_from_dict_stored:
  assumes "state_from_dict d = Inr s" and "distinct (map fst d)"
  shows "state_from_dict (stored d) = Inr (canonical_state s)"
  using assms reads_as_stored [of d s] by (simp add: state_from_dict_iff mrs_init_canonical)

text \<open>The state a printed state is read back as: \<open>None\<close> and the empty dict are the same.\<close>

definition filled_state :: "macro_run_state \<Rightarrow> macro_run_state" where
  "filled_state s = s\<lparr>mrs_variables := Some (or_empty (mrs_variables s)), mrs_waiting_on := Some (or_empty (mrs_waiting_on s))\<rparr>"

lemma filled_state_dict [simp]: "mrs_to_dict (filled_state s) = mrs_to_dict s" "state_sha256 (filled_state s) = state_sha256 s"
  "canonical_state (filled_state s) = canonical_state s"
  by (simp_all add: mrs_to_dict_def state_sha256_def mrs_body_def filled_state_def canonical_state_def)

lemma printed_state_reads_back:
  assumes "mrs_init s = Inr s"
  shows "state_from_dict (mrs_to_dict s) = Inr (filled_state s)"
proof -
  have "mrs_init (filled_state s) = Inr (filled_state s)" using assms by (simp add: mrs_init_valid filled_state_def)
  moreover have "mrs_variables (filled_state s) \<noteq> None" "mrs_waiting_on (filled_state s) \<noteq> None" by (simp_all add: filled_state_def)
  ultimately show ?thesis unfolding state_from_dict_iff using mrs_dict_reads [of s] by simp
qed

section \<open>Entries read back\<close>

lemma map_of_stored:
  assumes "distinct (map fst p)"
  shows "map_of (stored p) k = map_option canon (map_of p k)"
proof -
  have keys: "distinct (map fst (map (\<lambda>kv. (fst kv, canon (snd kv))) p))" using assms by (simp add: o_def)
  have "map_of (map (\<lambda>kv. (fst kv, canon (snd kv))) p) k = map_option canon (map_of p k)" by (induction p) auto
  then show ?thesis unfolding stored_def using map_of_sort_key [OF keys] by simp
qed

lemma canonical_evidence_Ok_iff [result_simps]:
  "canonical_evidence refs = Inr () \<longleftrightarrow> list_all is_sha256 refs \<and> sorted_set refs = refs"
  unfolding canonical_evidence_def first_error_Ok_iff by (auto simp: result_simps list_all_iff)

text \<open>What the constructor of an entry checks.\<close>

lemma jn_init_iff:
  "jn_init e = Inr e' \<longleftrightarrow> e' = e \<and> jn_schema_version e = MACRO_RUN_JOURNAL_SCHEMA_VERSION \<and> plain_text 512 (jn_run_id e)
     \<and> plain_text 512 (jn_macro_id e) \<and> plain_text 128 (jn_macro_version e) \<and> is_sha256 (jn_plan_sha256 e)
     \<and> is_sha256 (jn_state_sha256 e)
     \<and> (case jn_previous_entry_sha256 e of None \<Rightarrow> True | Some h \<Rightarrow> is_sha256 h)
     \<and> (case jn_previous_state_sha256 e of None \<Rightarrow> True | Some h \<Rightarrow> is_sha256 h)
     \<and> list_all is_sha256 (jn_evidence_ref_sha256s e) \<and> sorted_set (jn_evidence_ref_sha256s e) = jn_evidence_ref_sha256s e
     \<and> \<not> jn_operational_authority e \<and> \<not> jn_action_authority e \<and> \<not> jn_execution_authority e
     \<and> (\<exists>s. state_from_dict (jn_state e) = Inr s \<and> state_sha256 s = jn_state_sha256 e \<and> mrs_macro_id s = jn_macro_id e
          \<and> mrs_macro_version s = jn_macro_version e \<and> mrs_plan_sha256 s = jn_plan_sha256 e)
     \<and> (if jn_sequence e = 0
         then jn_kind e = JE_START \<and> jn_previous_entry_sha256 e = None \<and> jn_previous_state_sha256 e = None
         else jn_kind e = JE_TRANSITION \<and> jn_previous_entry_sha256 e \<noteq> None \<and> jn_previous_state_sha256 e \<noteq> None)"
  unfolding jn_init_def rbind_Ok_iff jn_links_def
  by (auto simp: first_error_Ok_Cons result_simps split: option.splits if_splits)

text \<open>An entry as it comes back from the file.\<close>

definition stored_entry :: "journal_entry \<Rightarrow> journal_entry" where
  "stored_entry e = e\<lparr>jn_state := stored (jn_state e)\<rparr>"

lemma entry_sha256_stored [simp]: "entry_sha256 (stored_entry e) = entry_sha256 e"
proof -
  have "canon (JObj (jn_body (stored_entry e))) = canon (JObj (jn_body e))"
    by (simp add: jn_body_def stored_entry_def)
  then show ?thesis by (simp only: entry_sha256_def canonical_sha256_def dumps_def)
qed

lemma distinct_jn_keys: "distinct (map fst (jn_to_dict e))"
  by (simp add: jn_to_dict_def jn_body_def)

lemma jn_init_stored:
  assumes "jn_init e = Inr e" and "distinct (map fst (jn_state e))"
  shows "jn_init (stored_entry e) = Inr (stored_entry e)"
proof -
  obtain s where s: "state_from_dict (jn_state e) = Inr s" "state_sha256 s = jn_state_sha256 e" "mrs_macro_id s = jn_macro_id e"
      "mrs_macro_version s = jn_macro_version e" "mrs_plan_sha256 s = jn_plan_sha256 e"
    using assms(1) unfolding jn_init_iff by blast
  have "state_from_dict (jn_state (stored_entry e)) = Inr (canonical_state s)"
    using state_from_dict_stored [OF s(1) assms(2)] by (simp add: stored_entry_def)
  then show ?thesis using assms(1) s(2-) unfolding jn_init_iff by (simp add: stored_entry_def)
qed

lemma jn_reads_back:
  assumes "jn_init e = Inr e" and "distinct (map fst (jn_state e))"
  shows "jn_from_dict (stored (jn_to_dict e)) = Inr (stored_entry e)"
proof -
  let ?d = "stored (jn_to_dict e)"
  have get: "dget ?d k = canon (dget (jn_to_dict e) k)" "map_of ?d k = map_option canon (map_of (jn_to_dict e) k)" for k
    by (simp_all add: dget_stored map_of_stored distinct_jn_keys)
  have gets: "dget ?d ''entry_sha256'' = JStr (entry_sha256 e)" "dget ?d ''state'' = JObj (stored (jn_state e))"
    "dget ?d ''sequence'' = JInt (int (jn_sequence e))" "dget ?d ''previous_entry_sha256'' = jopt (jn_previous_entry_sha256 e)"
    "dget ?d ''previous_state_sha256'' = jopt (jn_previous_state_sha256 e)"
    unfolding get by (simp_all add: jn_to_dict_def jn_body_def stored_def)
  have maps: "map_of ?d ''run_id'' = Some (JStr (jn_run_id e))" "map_of ?d ''kind'' = Some (JStr (kind_value (jn_kind e)))"
    "map_of ?d ''macro_id'' = Some (JStr (jn_macro_id e))" "map_of ?d ''macro_version'' = Some (JStr (jn_macro_version e))"
    "map_of ?d ''plan_sha256'' = Some (JStr (jn_plan_sha256 e))" "map_of ?d ''state_sha256'' = Some (JStr (jn_state_sha256 e))"
    "map_of ?d ''evidence_ref_sha256s'' = Some (jstrs (jn_evidence_ref_sha256s e))"
    "map_of ?d ''operational_authority'' = Some (JBool (jn_operational_authority e))"
    "map_of ?d ''action_authority'' = Some (JBool (jn_action_authority e))"
    "map_of ?d ''execution_authority'' = Some (JBool (jn_execution_authority e))"
    "map_of ?d ''schema_version'' = Some (JStr (jn_schema_version e))"
    unfolding get by (simp_all add: jn_to_dict_def jn_body_def)
  have items: "optional_item ?d ''previous_entry_sha256'' = jn_previous_entry_sha256 e"
    "optional_item ?d ''previous_state_sha256'' = jn_previous_state_sha256 e"
    unfolding optional_item_def gets by (simp_all add: py_str_def split: option.split)
  have "jn_arguments ?d (stored (jn_state e)) (jn_evidence_ref_sha256s e) = jn_init (stored_entry e)"
    unfolding jn_arguments_def str_item_def bool_item_def dict_item_def gets maps items
    by (cases e) (simp add: py_str_def py_truth_def jr_require_int_def stored_entry_def kind_of_value del: kind_of_iff)
  moreover have "evidence_item ?d = Inr (jn_evidence_ref_sha256s e)"
    unfolding evidence_item_def maps by (simp add: list_all_iff is_jstr_def o_def)
  moreover have "jr_require_sha256 (JStr (entry_sha256 e)) f = Inr (entry_sha256 e)" for f
    by (simp add: result_simps entry_sha256_def)
  ultimately show ?thesis
    using jn_init_stored [OF assms] unfolding jn_from_dict_def gets by (simp add: jr_require_object_def malformed_def)
qed

end
