(* ===== verification/Macro_History.thy ===== *)
theory Macro_History
  imports Macro_Journal
begin

text \<open>
  What the journal of \<open>phios/macro_journal.py\<close> keeps of a macro run: an acknowledged state is read back
  as it was printed, the head of a chain commits to the whole chain, and the two ways an acknowledged
  append leaves a history that is never read again.
\<close>

section \<open>Loaded chains\<close>

lemma rbind_unit: "rbind r (\<lambda>u. Inr u) = r"
  by (cases r) auto

text \<open>The identity of a plan, as the entries of its runs carry it.\<close>

definition entry_of_plan :: "macro_plan \<Rightarrow> journal_entry \<Rightarrow> bool" where
  "entry_of_plan p e \<longleftrightarrow> jn_plan_sha256 e = plan_sha256 p \<and> jn_macro_id e = pl_macro_id p \<and> jn_macro_version e = pl_macro_version p"

definition same_identity :: "journal_entry \<Rightarrow> journal_entry \<Rightarrow> bool" where
  "same_identity a b \<longleftrightarrow> jn_macro_id a = jn_macro_id b \<and> jn_macro_version a = jn_macro_version b \<and> jn_plan_sha256 a = jn_plan_sha256 b"

lemma check_chain_append:
  "check_chain run fe n previous (xs @ [e]) =
     rbind (check_chain run fe n previous xs) (\<lambda>_.
     check_chain run fe (n + length xs) (if xs = [] then previous else Some (last xs)) [e])"
proof (induction xs arbitrary: n previous)
  case Nil
  then show ?case by simp
next
  case (Cons x xs)
  show ?case
    unfolding append_Cons check_chain.simps(2) [of run fe n previous x] Cons.IH
    by (cases "first_error [ensure (jn_run_id x = run) MacroRunJournalContractError ''journal entry run_id mismatch'',
        ensure (jn_sequence x = n) MacroRunJournalContractError ''journal sequence is not contiguous'',
        ensure (jn_macro_id x = jn_macro_id fe \<and> jn_macro_version x = jn_macro_version fe \<and> jn_plan_sha256 x = jn_plan_sha256 fe)
          MacroRunJournalContractError ''journal identity changed within one run'',
        (case previous of None \<Rightarrow> Ok () | Some p \<Rightarrow> link_ok p x)]") (simp_all del: check_chain.simps)
qed

lemma check_chain_one:
  "check_chain run fe n previous [e] = Inr u \<longleftrightarrow> jn_run_id e = run \<and> jn_sequence e = n \<and> same_identity e fe
     \<and> (case previous of None \<Rightarrow> True | Some p \<Rightarrow> link_ok p e = Inr ())"
  by (auto simp: rbind_Ok_iff first_error_Ok_Cons first_error_Ok_Nil same_identity_def split: option.splits)

lemma link_ok_iff:
  "link_ok previous e = Inr u \<longleftrightarrow> jn_previous_entry_sha256 e = Some (entry_sha256 previous)
     \<and> jn_previous_state_sha256 e = Some (jn_state_sha256 previous)
     \<and> (\<exists>before current. state_from_dict (jn_state previous) = Inr before \<and> state_from_dict (jn_state e) = Inr current
          \<and> mrs_status before \<notin> set TERMINAL_STATUSES \<and> mrs_transitions before \<le> mrs_transitions current)"
  unfolding link_ok_def by (auto simp: rbind_Ok_iff first_error_Ok_Cons first_error_Ok_Nil)

definition link_at :: "string \<Rightarrow> journal_entry \<Rightarrow> journal_entry list \<Rightarrow> nat \<Rightarrow> bool" where
  "link_at run fe es i \<longleftrightarrow> jn_run_id (es ! i) = run \<and> jn_sequence (es ! i) = i \<and> same_identity (es ! i) fe
     \<and> (0 < i \<longrightarrow> link_ok (es ! (i - 1)) (es ! i) = Inr ())"

text \<open>What a loaded chain guarantees of each entry and of each pair of neighbours.\<close>

definition chained :: "string \<Rightarrow> journal_entry list \<Rightarrow> bool" where
  "chained run es \<longleftrightarrow> (\<forall>i < length es. jn_init (es ! i) = Inr (es ! i) \<and> link_at run (hd es) es i)"

lemma check_chain_iff:
  "check_chain run fe 0 None es = Inr u \<longleftrightarrow> (\<forall>i < length es. link_at run fe es i)"
proof (induction es rule: rev_induct)
  case Nil
  then show ?case by simp
next
  case (snoc e es)
  have "link_at run fe (es @ [e]) i \<longleftrightarrow> link_at run fe es i" if "i < length es" for i
    using that by (cases i) (simp_all add: link_at_def nth_append)
  then have old: "(\<forall>i < length es. link_at run fe (es @ [e]) i) \<longleftrightarrow> (\<forall>i < length es. link_at run fe es i)" by simp
  have new: "check_chain run fe (length es) (if es = [] then None else Some (last es)) [e] = Inr u
      \<longleftrightarrow> link_at run fe (es @ [e]) (length es)"
    unfolding check_chain_one link_at_def by (cases "es = []") (simp_all add: nth_append last_conv_nth)
  show ?case
    unfolding check_chain_append rbind_Ok_iff length_append_singleton All_less_Suc old using snoc.IH new by (auto simp del: check_chain.simps)
qed

lemma entry_from_dict_valid:
  assumes "jn_from_dict d = Inr e"
  shows "jn_init e = Inr e"
proof -
  have init: "jn_init e = Inr e" if "jn_init e' = Inr e" for e'
  proof -
    have "e = e'" by (rule jn_init_iff [THEN iffD1, THEN conjunct1, OF that])
    then show ?thesis using that by simp
  qed
  obtain state evidence where "jn_arguments d state evidence = Inr e"
    using assms unfolding jn_from_dict_def
  proof (elim rbind_OkE, goal_cases)
    case (1 claimed state evidence e')
    then show ?case by (cases "entry_sha256 e' = claimed") (simp_all add: malformed_Ok_iff)
  qed
  then show ?thesis unfolding jn_arguments_def by (elim rbind_OkE) (rule init)
qed

lemma loaded_entries:
  "load_and_validate rf run l = Inr es \<longleftrightarrow>
     (\<exists>rows. mh_entries rf run l = Inr rows \<and> rmap jn_from_dict rows = Inr es) \<and> chained run es"
proof -
  have valid: "\<forall>i < length es. jn_init (es ! i) = Inr (es ! i)" if "rmap jn_from_dict rows = Inr es" for rows
  proof (intro allI impI)
    fix i assume "i < length es"
    then have "jn_from_dict (rows ! i) = Inr (es ! i)"
      using that list_all2_nthD2 [of "\<lambda>row e. jn_from_dict row = Inr e" rows es i] by (simp add: rmap_Ok_iff)
    then show "jn_init (es ! i) = Inr (es ! i)" by (rule entry_from_dict_valid)
  qed
  have check: "(case es' of [] \<Rightarrow> Ok [] | fe # _ \<Rightarrow> rbind (check_chain run fe 0 None es') (\<lambda>_. Ok es')) = Inr es
      \<longleftrightarrow> es' = es \<and> (es \<noteq> [] \<longrightarrow> check_chain run (hd es) 0 None es = Inr ())" for es'
    by (cases es') (auto simp: rbind_Ok_iff)
  have empty: "chained run []" by (simp add: chained_def)
  have loads: "rbind (rmap jn_from_dict rows) (\<lambda>es'. case es' of [] \<Rightarrow> Ok [] | fe # _ \<Rightarrow> rbind (check_chain run fe 0 None es') (\<lambda>_. Ok es'))
      = Inr es \<longleftrightarrow> rmap jn_from_dict rows = Inr es \<and> chained run es" for rows
    unfolding rbind_Ok_iff check check_chain_iff chained_def using valid [of rows] empty by (cases "es = []") auto
  show ?thesis unfolding load_and_validate_def rbind_Ok_iff [of "mh_entries rf run l"] loads by blast
qed


section \<open>What an append does to a loaded chain\<close>

lemma appended_rows:
  assumes "mh_append_entry opf wrf e l = (Inr u, l')" and "mh_entries None run l = Inr rows"
  shows "mh_entries None run l' = Inr (rows @ (if jn_run_id e = run then [stored (jn_to_dict e)] else []))"
proof -
  obtain b f where a: "append_jsonl opf wrf (mh_journal l) (jn_to_dict e) None = (Inr b, f)" and l': "l' = l\<lparr>mh_journal := f\<rparr>"
    using assms(1) by (auto simp: mh_append_entry_def discard_Ok_iff split: prod.splits)
  obtain old where old: "read_jsonl None (mh_journal l) = Inr old" "read_jsonl None f = Inr (old @ [stored (jn_to_dict e)])" "f \<noteq> None"
    using append_plain_reads [OF a] .
  have "rows = filter (\<lambda>row. dget row ''run_id'' = JStr run) old"
    using assms(2) old(1) by (auto simp: mh_entries_def read_jsonl_def split: if_splits)
  moreover have "dget (stored (jn_to_dict e)) ''run_id'' = JStr (jn_run_id e)"
    by (subst dget_stored [OF distinct_jn_keys]) (simp add: jn_to_dict_def jn_body_def)
  ultimately show ?thesis using old(2,3) by (auto simp: mh_entries_def l')
qed

text \<open>The entries of a run can be read, whether or not they form a chain.\<close>

definition readable :: "string \<Rightarrow> macro_ledger \<Rightarrow> journal_entry list \<Rightarrow> bool" where
  "readable run l es \<longleftrightarrow> (\<exists>rows. mh_entries None run l = Inr rows \<and> rmap jn_from_dict rows = Inr es)"

lemma load_readable:
  assumes "readable run l es" and "es \<noteq> []"
  shows "load_and_validate None run l = rbind (check_chain run (hd es) 0 None es) (\<lambda>_. Ok es)"
proof -
  obtain rows where "mh_entries None run l = Inr rows" "rmap jn_from_dict rows = Inr es"
    using assms(1) unfolding readable_def by blast
  then show ?thesis using assms(2) unfolding load_and_validate_def by (cases es) (simp_all del: check_chain.simps)
qed

lemma appended_readable:
  assumes "readable run l es" and "mh_append_entry opf wrf e l = (Inr u, l')"
    and "jn_init e = Inr e" and "distinct (map fst (jn_state e))" and "jn_run_id e = run"
  shows "readable run l' (es @ [stored_entry e])"
proof -
  obtain rows where rows: "mh_entries None run l = Inr rows" "rmap jn_from_dict rows = Inr es"
    using assms(1) unfolding readable_def by blast
  have "mh_entries None run l' = Inr (rows @ [stored (jn_to_dict e)])"
    using appended_rows [OF assms(2) rows(1)] assms(5) by simp
  moreover have "rmap jn_from_dict (rows @ [stored (jn_to_dict e)]) = Inr (es @ [stored_entry e])"
    using rows(2) jn_reads_back [OF assms(3,4)] unfolding rmap_Ok_iff by (simp add: list_all2_appendI)
  ultimately show ?thesis unfolding readable_def by blast
qed

lemma loaded_readable: "load_and_validate None run l = Inr es \<longleftrightarrow> readable run l es \<and> chained run es"
  unfolding loaded_entries readable_def ..

lemma printed_parts_inj [simp]:
  "counter_pairs xs = counter_pairs ys \<longleftrightarrow> xs = ys" "status_value a = status_value b \<longleftrightarrow> a = b" "jopt o1 = jopt o2 \<longleftrightarrow> o1 = o2"
proof -
  have "inj (\<lambda>(k, n). JList [JStr k, JInt (int n)])" by (auto simp: inj_def)
  then show "counter_pairs xs = counter_pairs ys \<longleftrightarrow> xs = ys" by (simp add: counter_pairs_def inj_map_eq_map)
  show "status_value a = status_value b \<longleftrightarrow> a = b" using status_of_value by (metis option.inject)
qed (auto split: option.splits)

lemma printed_state_read: "state_from_dict (mrs_to_dict s) = Inr t \<Longrightarrow> t = filled_state s"
  unfolding state_from_dict_iff
  by (cases s; cases t) (auto simp: reads_as_def mrs_to_dict_def mrs_body_def filled_state_def)

text \<open>The entry \<open>append_state\<close> makes on a loaded chain.\<close>

lemma next_entry_made:
  assumes "next_entry run s expected_head evidence old = Inr e" and "chained run old"
  shows "jn_init e = Inr e" and "jn_run_id e = run" and "jn_sequence e = length old" and "jn_state e = mrs_to_dict s"
    and "jn_macro_id e = mrs_macro_id s" and "jn_macro_version e = mrs_macro_version s" and "jn_plan_sha256 e = mrs_plan_sha256 s"
    and "state_from_dict (jn_state (stored_entry e)) = Inr (canonical_state s)"
    and "old \<noteq> [] \<Longrightarrow> link_ok (last old) (stored_entry e) = Inr ()" and "jn_evidence_ref_sha256s e = evidence"
proof -
  have new: "jn_init e = Inr e \<and> jn_run_id e = run \<and> jn_sequence e = n \<and> jn_state e = mrs_to_dict s
      \<and> jn_macro_id e = mrs_macro_id s \<and> jn_macro_version e = mrs_macro_version s \<and> jn_plan_sha256 e = mrs_plan_sha256 s
      \<and> jn_previous_entry_sha256 e = pe \<and> jn_previous_state_sha256 e = ps \<and> jn_evidence_ref_sha256s e = evidence"
    if "new_entry run s evidence n kind pe ps = Inr e" for n kind pe ps
  proof -
    note eq = jn_init_iff [THEN iffD1, THEN conjunct1, OF that [unfolded new_entry_def]]
    show ?thesis using that unfolding new_entry_def eq [symmetric] by (simp add: eq)
  qed
  define n where "n = length old"
  have made: "\<exists>kind pe ps. new_entry run s evidence (length old) kind pe ps = Inr e \<and> (old \<noteq> [] \<longrightarrow>
      (\<exists>before. state_from_dict (jn_state (last old)) = Inr before \<and> pe = Some (entry_sha256 (last old))
        \<and> ps = Some (state_sha256 before) \<and> mrs_status before \<notin> set TERMINAL_STATUSES \<and> mrs_transitions before \<le> mrs_transitions s))"
  proof (cases "old = []")
    case True
    then show ?thesis using assms(1) by (auto simp: next_entry_def split: if_splits)
  next
    case False
    then have "link_at run (hd old) old (length old - 1)" using assms(2) by (simp add: chained_def)
    then have seq: "jn_sequence (last old) + 1 = length old" using False by (simp add: link_at_def last_conv_nth)
    obtain before where "state_from_dict (jn_state (last old)) = Inr before"
        "new_entry run s evidence (jn_sequence (last old) + 1) JE_TRANSITION (Some (entry_sha256 (last old))) (Some (state_sha256 before)) = Inr e"
        "mrs_status before \<notin> set TERMINAL_STATUSES" "mrs_transitions before \<le> mrs_transitions s"
      using assms(1) False unfolding next_entry_def Let_def
      by (auto simp: rbind_Ok_iff first_error_Ok_Cons split: option.splits if_splits)
    then show ?thesis unfolding seq by blast
  qed
  then obtain kind pe ps where e: "new_entry run s evidence (length old) kind pe ps = Inr e"
    and link: "old \<noteq> [] \<longrightarrow> (\<exists>before. state_from_dict (jn_state (last old)) = Inr before \<and> pe = Some (entry_sha256 (last old))
        \<and> ps = Some (state_sha256 before) \<and> mrs_status before \<notin> set TERMINAL_STATUSES \<and> mrs_transitions before \<le> mrs_transitions s)"
    by blast
  note facts = new [OF e]
  show "jn_init e = Inr e" "jn_run_id e = run" "jn_sequence e = length old" "jn_state e = mrs_to_dict s"
    "jn_macro_id e = mrs_macro_id s" "jn_macro_version e = mrs_macro_version s" "jn_plan_sha256 e = mrs_plan_sha256 s"
    "jn_evidence_ref_sha256s e = evidence"
    using facts by simp_all
  obtain t where "state_from_dict (mrs_to_dict s) = Inr t" using facts unfolding jn_init_iff by auto
  then show read: "state_from_dict (jn_state (stored_entry e)) = Inr (canonical_state s)"
    using state_from_dict_stored [OF _ distinct_mrs_keys] printed_state_read [of s t] facts by (simp add: stored_entry_def)
  show "link_ok (last old) (stored_entry e) = Inr ()" if nonempty: "old \<noteq> []"
  proof -
    obtain before where before: "state_from_dict (jn_state (last old)) = Inr before" "pe = Some (entry_sha256 (last old))"
        "ps = Some (state_sha256 before)" "mrs_status before \<notin> set TERMINAL_STATUSES" "mrs_transitions before \<le> mrs_transitions s"
      using link nonempty by blast
    have "jn_init (last old) = Inr (last old)" using assms(2) nonempty by (simp add: chained_def last_conv_nth)
    then have "state_sha256 before = jn_state_sha256 (last old)" using before(1) unfolding jn_init_iff by auto
    then show ?thesis unfolding link_ok_iff read using before facts by (simp add: stored_entry_def)
  qed
qed

text \<open>The two halves of an acknowledged \<open>append_state\<close>, and what they leave to be read.\<close>

lemma prepared:
  assumes "prepare_entry None run p s expected evidence l = Inr e"
  obtains old where "load_and_validate None run l = Inr old" and "plain_text 512 run" and "validate_plan_state p s = Inr ()"
    and "next_entry run s expected evidence old = Inr e"
  using assms unfolding prepare_entry_def by (elim rbind_OkE) (simp add: result_simps)

lemma append_stateE:
  assumes "append_state None opf wrf run p s expected evidence l = (Inr e, l')"
  obtains "prepare_entry None run p s expected evidence l = Inr e" and "mh_append_entry opf wrf e l = (Inr (), l')"
  using assms unfolding append_state_def by (auto elim!: st_bindE simp: st_read_def st_return_def)

lemma acknowledged_readable:
  assumes "prepare_entry None run p s expected evidence l = Inr e" and "mh_append_entry opf wrf e l' = (Inr u, l'')"
    and "readable run l' es"
  shows "readable run l'' (es @ [stored_entry e])"
proof -
  obtain old where load: "load_and_validate None run l = Inr old" and nxt: "next_entry run s expected evidence old = Inr e"
    using assms(1) by (rule prepared)
  have "chained run old" using load unfolding loaded_readable by blast
  note made = next_entry_made [OF nxt this]
  show ?thesis by (rule appended_readable [OF assms(3,2) made(1) _ made(2)]) (simp add: made(4) distinct_mrs_keys)
qed

text \<open>A journal that is not a chain is refused by every operation.\<close>

lemma unchained_refused:
  assumes "readable run l es" and "es \<noteq> []" and "check_chain run (hd es) 0 None es = Inl x"
  shows "load_and_validate None run l = Inl x" and "append_state None opf wrf run q t expected evidence l \<noteq> (Inr e, l')"
    and "reconstruct None run q l \<noteq> Inr c" and "resume_run None opf wrf run q at_time l \<noteq> (Inr r, l')"
proof -
  show load: "load_and_validate None run l = Inl x" unfolding load_readable [OF assms(1,2)] assms(3) by simp
  show "append_state None opf wrf run q t expected evidence l \<noteq> (Inr e, l')"
  proof
    assume "append_state None opf wrf run q t expected evidence l = (Inr e, l')"
    then obtain "prepare_entry None run q t expected evidence l = Inr e" by (rule append_stateE)
    then show False using load by (elim prepared) simp
  qed
  show rec: "reconstruct None run q l \<noteq> Inr c" for c by (simp add: reconstruct_def rbind_Ok_iff load)
  show "resume_run None opf wrf run q at_time l \<noteq> (Inr r, l')"
    using rec unfolding resume_run_def by (auto elim!: st_bindE simp: st_read_def)
qed

text \<open>The digest of an entry determines it, up to the order of the state's members, or is a collision.\<close>

definition entry_clash :: "journal_entry \<Rightarrow> journal_entry \<Rightarrow> bool" where
  "entry_clash a b \<longleftrightarrow> sha256_collision (utf8 (dumps (JObj (jn_body a)))) (utf8 (dumps (JObj (jn_body b))))"

lemma entry_body_determines:
  assumes "canon (JObj (jn_body a)) = canon (JObj (jn_body b))"
  shows "stored_entry a = stored_entry b"
proof -
  have keys: "distinct (map fst (jn_body e))" for e by (simp add: jn_body_def)
  have "stored (jn_body a) = stored (jn_body b)" using assms unfolding canon_stored by simp
  then have get: "canon (dget (jn_body a) k) = canon (dget (jn_body b) k)" for k
    using dget_stored [OF keys [of a], of k] dget_stored [OF keys [of b], of k] by simp
  have "jn_state_canon a = jn_state_canon b" if "jn_state_canon = (\<lambda>e. canon (JObj (jn_state e)))" for jn_state_canon
    using get [of "''state''"] that by (simp add: jn_body_def)
  then have state: "stored (jn_state a) = stored (jn_state b)" unfolding canon_stored by simp
  have kind: "kind_value (jn_kind a) = kind_value (jn_kind b) \<Longrightarrow> jn_kind a = jn_kind b" using kind_of_value by (metis option.inject)
  have strs: "jstrs xs = jstrs ys \<longleftrightarrow> xs = ys" for xs ys by (simp add: inj_map_eq_map inj_def)
  show ?thesis
    using get [of "''schema_version''"] get [of "''run_id''"] get [of "''sequence''"] get [of "''kind''"] get [of "''macro_id''"]
      get [of "''macro_version''"] get [of "''plan_sha256''"] get [of "''previous_entry_sha256''"] get [of "''previous_state_sha256''"]
      get [of "''state_sha256''"] get [of "''evidence_ref_sha256s''"] get [of "''operational_authority''"]
      get [of "''action_authority''"] get [of "''execution_authority''"] state kind
    by (cases a; cases b) (simp add: jn_body_def stored_entry_def strs)
qed

lemma same_entry_digest:
  assumes "entry_sha256 a = entry_sha256 b"
  shows "stored_entry a = stored_entry b \<or> entry_clash a b"
  using canonical_sha256_binding [OF assms [unfolded entry_sha256_def]] entry_body_determines
  unfolding entry_clash_def by blast

text \<open>Two chains with the same entry digest at one position agree up to that position.\<close>

lemma chains_agree:
  assumes "chained run es" and "chained run' es'" and "n < length es" and "n < length es'"
    and "entry_sha256 (es ! n) = entry_sha256 (es' ! n)" and "\<not> (\<exists>a \<in> set es. \<exists>b \<in> set es'. entry_clash a b)"
  shows "map stored_entry (take (Suc n) es) = map stored_entry (take (Suc n) es')"
  using assms(3-5)
proof (induction n)
  case (Suc n)
  have same: "stored_entry (es ! Suc n) = stored_entry (es' ! Suc n)"
    using same_entry_digest [OF Suc.prems(3)] assms(6) Suc.prems(1,2) by (meson nth_mem)
  then have prev: "jn_previous_entry_sha256 (es ! Suc n) = jn_previous_entry_sha256 (es' ! Suc n)"
    by (cases "es ! Suc n"; cases "es' ! Suc n") (simp add: stored_entry_def)
  have "link_at run (hd es) es (Suc n)" "link_at run' (hd es') es' (Suc n)"
    using assms(1,2) Suc.prems(1,2) by (simp_all add: chained_def)
  then have "entry_sha256 (es ! n) = entry_sha256 (es' ! n)" using prev by (simp add: link_at_def link_ok_iff)
  then have "map stored_entry (take (Suc n) es) = map stored_entry (take (Suc n) es')" using Suc by simp
  then show ?case using same Suc.prems(1,2) by (simp add: take_Suc_conv_app_nth [of "Suc n"])
next
  case 0
  then show ?case
    using same_entry_digest [OF 0(3)] assms(6) by (cases es; cases es') auto
qed

lemma appended_chain:
  assumes "load_and_validate None run l = Inr old" and "list_all (entry_of_plan p) old"
    and "append_state None opf wrf run p s expected evidence l = (Inr e, l')"
  shows "load_and_validate None run l' = Inr (old @ [stored_entry e])" and "plain_text 512 run"
    and "entry_of_plan p (stored_entry e)" and "validate_plan_state p s = Inr ()"
    and "state_from_dict (jn_state (stored_entry e)) = Inr (canonical_state s)" and "jn_evidence_ref_sha256s (stored_entry e) = evidence"
proof -
  obtain prep: "prepare_entry None run p s expected evidence l = Inr e" and app: "mh_append_entry opf wrf e l = (Inr (), l')"
    using assms(3) by (rule append_stateE)
  show "plain_text 512 run" and plan: "validate_plan_state p s = Inr ()" using prep by (auto elim!: prepared)
  have nxt: "next_entry run s expected evidence old = Inr e" using prep assms(1) by (auto elim!: prepared)
  have old: "readable run l old" "chained run old" using assms(1) unfolding loaded_readable by auto
  note made = next_entry_made [OF nxt old(2)]
  show "state_from_dict (jn_state (stored_entry e)) = Inr (canonical_state s)" by (rule made(8))
  show "jn_evidence_ref_sha256s (stored_entry e) = evidence" using made(10) by (simp add: stored_entry_def)
  let ?e = "stored_entry e"
  let ?all = "old @ [?e]"
  show ofplan: "entry_of_plan p ?e"
    using plan made(5-7) by (simp add: validate_plan_state_def first_error_Ok_Cons entry_of_plan_def stored_entry_def)
  have ofhd: "entry_of_plan p (hd ?all)" using assms(2) ofplan by (cases old) simp_all
  have "link_at run (hd ?all) ?all i" if i: "i < length ?all" for i
  proof (cases "i < length old")
    case True
    then show ?thesis using old(2) by (cases i) (auto simp: chained_def link_at_def nth_append hd_append)
  next
    case False
    then have "i = length old" using i by simp
    then show ?thesis
      using made(2,3,9) ofplan ofhd
      by (cases "old = []") (auto simp: link_at_def nth_append last_conv_nth stored_entry_def same_identity_def entry_of_plan_def)
  qed
  then have chain: "check_chain run (hd ?all) 0 None ?all = Inr ()" unfolding check_chain_iff by blast
  show "load_and_validate None run l' = Inr ?all"
    using load_readable [OF acknowledged_readable [OF prep app old(1)]] chain by simp
qed

lemma appended_reconstruct:
  assumes "load_and_validate None run l = Inr old" and "list_all (entry_of_plan p) old"
    and "append_state None opf wrf run p s expected evidence l = (Inr e, l')"
  shows "reconstruct None run p l' = Inr \<lparr>re_state = canonical_state s, re_head_entry = stored_entry e, re_entry_count = length old + 1\<rparr>"
proof -
  note chain = appended_chain [OF assms]
  have run: "jr_text run ''run_id'' 512 = Inr ()" using chain(2) by (simp add: result_simps)
  have same: "validate_plan_state p (canonical_state s) = Inr ()" using chain(4) by (simp add: validate_plan_state_def)
  show ?thesis
    using chain(1,3,5) same run by (simp add: reconstruct_def entry_of_plan_def first_error.simps(2))
qed

section \<open>Properties\<close>

text \<open>C29: A state of the plan a run was started with comes back: after an acknowledged \<open>append_state\<close> the journal
  of the run is the old chain and the new entry, and \<open>reconstruct\<close> returns the state that was appended,
  with the members of its dicts in the order of the file and the digest it was appended under.\<close>

theorem appended_state_is_reconstructed:
  assumes "load_and_validate None run l = Ok old" and "list_all (entry_of_plan p) old"
    and "append_state None opf wrf run p s expected evidence l = (Ok e, l')"
  shows "load_and_validate None run l' = Ok (old @ [stored_entry e])
    \<and> reconstruct None run p l' = Ok \<lparr>re_state = canonical_state s, re_head_entry = stored_entry e, re_entry_count = length old + 1\<rparr>
    \<and> state_sha256 (canonical_state s) = state_sha256 s \<and> entry_sha256 (stored_entry e) = entry_sha256 e"
  using appended_chain(1) [OF assms] appended_reconstruct [OF assms] by simp

text \<open>C31: \<open>append_state\<close> does not compare the plan with the one the run was started with: an acknowledged
  append of another plan's state leaves a chain that is read as changed in identity, so that no later
  append, \<open>reconstruct\<close> or \<open>resume\<close> of the run succeeds.\<close>

theorem foreign_append_breaks_the_journal:
  assumes "load_and_validate None run l = Ok (first_entry # old)" and "\<not> entry_of_plan p first_entry"
    and "append_state None opf wrf run p s expected evidence l = (Ok e, l')"
  shows "load_and_validate None run l' = raise MacroRunJournalContractError ''journal identity changed within one run''
    \<and> append_state None opf' wrf' run q t expected' evidence' l' \<noteq> (Ok e', l'')
    \<and> reconstruct None run q l' \<noteq> Ok c \<and> resume_run None opf' wrf' run q at_time l' \<noteq> (Ok r, l'')"
proof -
  let ?old = "first_entry # old"
  obtain prep: "prepare_entry None run p s expected evidence l = Inr e" and app: "mh_append_entry opf wrf e l = (Inr (), l')"
    using assms(3) by (rule append_stateE)
  have plan: "validate_plan_state p s = Inr ()" and nxt: "next_entry run s expected evidence ?old = Inr e"
    using prep assms(1) by (auto elim!: prepared)
  have old: "readable run l ?old" "chained run ?old" using assms(1) unfolding loaded_readable by auto
  note made = next_entry_made [OF nxt old(2)]
  have front: "check_chain run first_entry 0 None ?old = Inr ()"
    using old(2) unfolding check_chain_iff chained_def by simp
  have "entry_of_plan p (stored_entry e)"
    using plan made(5-7) by (simp add: validate_plan_state_def first_error_Ok_Cons entry_of_plan_def stored_entry_def)
  then have differs: "\<not> same_identity (stored_entry e) first_entry"
    using assms(2) by (auto simp: entry_of_plan_def same_identity_def)
  have "check_chain run first_entry 0 None (?old @ [stored_entry e])
      = raise MacroRunJournalContractError ''journal identity changed within one run''"
    using differs made(2,3)
    unfolding check_chain_append front by (auto simp: first_error.simps(2) stored_entry_def same_identity_def ensure_def)
  then show ?thesis
    using unchained_refused [OF acknowledged_readable [OF prep app old(1)]] by simp
qed

text \<open>A fork is never accepted.  \<open>append_state\<close> holds no lock between reading the chain and appending to it; when
  two calls on one run have both read the same history and both appends are acknowledged, no later
  call, under whatever plan, state or head, loads, extends, reconstructs or resumes the run.\<close>

theorem racing_appends_break_the_journal:
  assumes "prepare_entry None run p s expected evidence l = Ok e"
    and "prepare_entry None run p' s' expected' evidence' l = Ok e'"
    and "mh_append_entry opf wrf e l = (Ok (), l1)" and "mh_append_entry opf' wrf' e' l1 = (Ok (), l2)"
  shows "load_and_validate None run l2 \<noteq> Ok es \<and> append_state None opf'' wrf'' run q t expected'' evidence'' l2 \<noteq> (Ok e'', l3)
    \<and> reconstruct None run q l2 \<noteq> Ok c \<and> resume_run None opf'' wrf'' run q at_time l2 \<noteq> (Ok r, l3)"
proof -
  obtain old where load: "load_and_validate None run l = Inr old" and nxt: "next_entry run s expected evidence old = Inr e"
    using assms(1) by (rule prepared)
  have nxt': "next_entry run s' expected' evidence' old = Inr e'" using assms(2) load by (auto elim!: prepared)
  have old: "readable run l old" "chained run old" using load unfolding loaded_readable by auto
  let ?all = "(old @ [stored_entry e]) @ [stored_entry e']"
  have read: "readable run l2 ?all"
    using acknowledged_readable [OF assms(2,4) acknowledged_readable [OF assms(1,3) old(1)]] .
  have "jn_sequence (stored_entry e') = length old"
    using next_entry_made(3) [OF nxt' old(2)] by (simp add: stored_entry_def)
  then have "\<not> link_at run (hd ?all) ?all (length old + 1)" by (simp add: link_at_def nth_append)
  then have "check_chain run (hd ?all) 0 None ?all \<noteq> Inr ()" unfolding check_chain_iff by fastforce
  then obtain x where "check_chain run (hd ?all) 0 None ?all = Inl x" by (cases "check_chain run (hd ?all) 0 None ?all") auto
  note refused = unchained_refused [OF read _ this]
  show ?thesis using refused by simp
qed

text \<open>C25: The digest of a chain's head commits to the chain: two journals that load and end in entries of one digest
  have the same entries, in number, order and content (the members of a kept state in the order of the
  file), and so are of one run, unless two of their entries are a SHA-256 collision.\<close>

theorem journal_head_determines_history:
  assumes "load_and_validate None run l = Ok (es @ [e])" and "load_and_validate None run' l' = Ok (es' @ [e'])"
    and "entry_sha256 e = entry_sha256 e'"
  shows "map stored_entry (es @ [e]) = map stored_entry (es' @ [e']) \<and> run = run'
    \<or> (\<exists>a b. a \<in> set (es @ [e]) \<and> b \<in> set (es' @ [e']) \<and> entry_clash a b)"
proof (cases "\<exists>a \<in> set (es @ [e]). \<exists>b \<in> set (es' @ [e']). entry_clash a b")
  case False
  have ch: "chained run (es @ [e])" "chained run' (es' @ [e'])" using assms(1,2) unfolding loaded_readable by auto
  then have at: "link_at run (hd (es @ [e])) (es @ [e]) (length es)" "link_at run' (hd (es' @ [e'])) (es' @ [e']) (length es')"
    by (simp_all add: chained_def)
  have "stored_entry e = stored_entry e'" using same_entry_digest [OF assms(3)] False by auto
  then have "jn_sequence e = jn_sequence e'" "jn_run_id e = jn_run_id e'"
    by (cases e; cases e'; simp add: stored_entry_def)+
  then have "length es = length es'" "run = run'" using at by (simp_all add: link_at_def)
  then show ?thesis using chains_agree [OF ch, of "length es"] assms(3) False by (simp add: nth_append)
qed blast

section \<open>Samples\<close>

definition no_runs :: macro_ledger where
  "no_runs = \<lparr>mh_journal = None, mh_resumes = None, mh_starts = None, mh_start_claims = [], mh_run_claims = []\<rparr>"

lemma sha_lengths [simp]: "length (canonical_sha256 j) = 64"
  using canonical_sha256_is_sha256 [of j] unfolding is_sha256_def by simp

lemma digest_lengths: "length (state_sha256 s) = 64" "length (entry_sha256 e) = 64" "length (plan_sha256 p) = 64"
  by (simp_all add: state_sha256_def entry_sha256_def plan_sha256_def)

definition other_plan :: "macro_plan \<Rightarrow> macro_plan" where
  "other_plan p = p\<lparr>pl_macro_id := ''other''\<rparr>"

text \<open>The state a run of a small plan starts in.\<close>

definition small_plan :: "macro_plan \<Rightarrow> bool" where
  "small_plan p \<longleftrightarrow> plan_named p \<and> length (pl_macro_id p) \<le> 5 \<and> length (pl_macro_version p) \<le> 5"

lemma small_plans:
  assumes "make_plan two_loops = Inr p"
  shows "small_plan p" and "small_plan (other_plan p)" and "pl_macro_id p = ''macro''" and "pl_macro_id (other_plan p) = ''other''"
proof -
  have "md_ok two_loops" using two_loops_ok(1) by (simp add: md_ok_def)
  then have "pl_macro_id p = ''macro''" "pl_macro_version p = ''1''"
    using make_plan_valid(1) [OF _ two_loops_ok(2)] assms by (auto simp: two_loops_def)
  then show "small_plan p" "small_plan (other_plan p)" "pl_macro_id p = ''macro''" "pl_macro_id (other_plan p) = ''other''"
    by (simp_all add: small_plan_def other_plan_def plan_named_def plain_text_def is_control_def)
qed

lemma small_start:
  assumes "small_plan p"
  obtains s where "runner_start p = Inr s" and "mrs_init s = Inr s" and "validate_plan_state p s = Inr ()"
    and "mrs_status s = RS_READY" and "mrs_transitions s = 0" and "mrs_macro_id s = pl_macro_id p"
    and "weight (JObj (mrs_to_dict s)) \<le> 5000"
proof -
  let ?s = "\<lparr>mrs_macro_id = pl_macro_id p, mrs_macro_version = pl_macro_version p, mrs_plan_sha256 = plan_sha256 p,
      mrs_cursor = 0, mrs_status = RS_READY, mrs_reason = ''plan_ready'', mrs_loop_iterations = [],
      mrs_foreach_indices = [], mrs_variables = Some [], mrs_waiting_on = Some [], mrs_last_instruction_path = None,
      mrs_transitions = 0, mrs_operational_authority = False, mrs_action_authority = False, mrs_execution_authority = False,
      mrs_schema_version = MACRO_RUN_STATE_SCHEMA_VERSION\<rparr>"
  have init: "mrs_init ?s = Inr ?s"
    using assms unfolding mrs_init_valid by (simp add: small_plan_def plan_named_def plan_sha256_def plain_text_def is_control_def)
  have "runner_start p = Inr ?s" using init by (simp add: runner_start_def run_state_def start_env_def)
  moreover have "validate_plan_state p ?s = Inr ()" by (simp add: validate_plan_state_def first_error_Ok_Cons first_error_Ok_Nil)
  moreover have "weight (JObj (mrs_to_dict ?s)) \<le> 5000"
    using assms
    by (simp add: small_plan_def mrs_to_dict_def mrs_body_def state_sha256_def plan_sha256_def counter_pairs_def or_empty_def
        MACRO_RUN_STATE_SCHEMA_VERSION_def show_int_def show_nat.simps)
  ultimately show thesis using init that [of ?s] by simp
qed

text \<open>The first entry, or one linked to two digests, of such a state can be made and fits a record.\<close>

lemma small_entry:
  assumes "small_plan p" and "mrs_init s = Inr s" and "validate_plan_state p s = Inr ()" and "weight (JObj (mrs_to_dict s)) \<le> 5000"
    and "n = 0 \<and> kind = JE_START \<and> pe = None \<and> ps = None
      \<or> n = 1 \<and> kind = JE_TRANSITION \<and> pe = Some (canonical_sha256 a) \<and> ps = Some (canonical_sha256 b)"
    and "evidence = [] \<or> evidence = [canonical_sha256 c]"
  obtains e data where "new_entry ''run'' s evidence n kind pe ps = Inr e" and "sio_encode (jn_to_dict e) = Inr data"
proof -
  let ?e = "\<lparr>jn_run_id = ''run'', jn_sequence = n, jn_kind = kind, jn_macro_id = mrs_macro_id s,
      jn_macro_version = mrs_macro_version s, jn_plan_sha256 = mrs_plan_sha256 s, jn_previous_entry_sha256 = pe,
      jn_previous_state_sha256 = ps, jn_state_sha256 = state_sha256 s, jn_state = mrs_to_dict s,
      jn_evidence_ref_sha256s = evidence, jn_operational_authority = False, jn_action_authority = False,
      jn_execution_authority = False, jn_schema_version = MACRO_RUN_JOURNAL_SCHEMA_VERSION\<rparr>"
  have named: "mrs_macro_id s = pl_macro_id p" "mrs_macro_version s = pl_macro_version p" "mrs_plan_sha256 s = plan_sha256 p"
    using assms(3) by (simp_all add: validate_plan_state_def first_error_Ok_Cons)
  have read: "state_from_dict (mrs_to_dict s) = Inr (filled_state s)" by (rule printed_state_reads_back [OF assms(2)])
  have filled: "mrs_macro_id (filled_state s) = mrs_macro_id s" "mrs_macro_version (filled_state s) = mrs_macro_version s"
    "mrs_plan_sha256 (filled_state s) = mrs_plan_sha256 s" by (simp_all add: filled_state_def)
  have "jn_init ?e = Inr ?e"
    using assms(1,5,6) named
    unfolding jn_init_iff by (auto simp: read filled small_plan_def plan_named_def plan_sha256_def is_sha256_state sorted_set_def
        plain_text_def is_control_def)
  then have "new_entry ''run'' s evidence n kind pe ps = Inr ?e" by (simp add: new_entry_def)
  moreover have "weight (JObj (jn_to_dict ?e)) \<le> 20000"
  proof -
    have digits: "length (show_int 0) \<le> 1" "length (show_int 1) \<le> 1" by (simp_all add: show_int_def show_nat.simps)
    then have parts: "weight (jopt pe) \<le> 390" "weight (jopt ps) \<le> 390" "length (show_int (int n)) \<le> 1"
      "weight (JStr (kind_value kind)) \<le> 62" "weight (jstrs evidence) \<le> 400"
      using assms(5,6) by auto
    have "length (mrs_macro_id s) \<le> 5" "length (mrs_macro_version s) \<le> 5" using assms(1) named by (simp_all add: small_plan_def)
    then show ?thesis
      using parts assms(4)
      by (simp add: jn_to_dict_def jn_body_def digest_lengths named(3) MACRO_RUN_JOURNAL_SCHEMA_VERSION_def del: sha_lengths)
  qed
  then have "\<exists>data. sio_encode (jn_to_dict ?e) = Inr data" by (intro sio_encode_fits) (simp add: MAX_RECORD_BYTES_def)
  ultimately show thesis using that by blast
qed

lemma sample_appended:
  assumes "readable run l es" and "sio_encode (jn_to_dict e) = Inr data"
  obtains l' where "mh_append_entry None None e l = (Inr (), l')"
proof -
  obtain rows where "mh_entries None run l = Inr rows" using assms(1) unfolding readable_def by blast
  then obtain lines where "sio_rows (case mh_journal l of None \<Rightarrow> [] | Some ls \<Rightarrow> ls) = Inr lines"
    by (auto simp: mh_entries_def read_jsonl_def sio_rows_def rbind_Ok_iff split: option.splits if_splits)
  then show thesis
    using that assms(2) by (simp add: mh_append_entry_def append_jsonl_def Let_def discard_def)
qed

lemma no_journal_loaded: "mh_journal l = None \<Longrightarrow> load_and_validate None run l = Inr []"
  by (simp add: load_and_validate_def mh_entries_def)

lemma no_runs_journal: "mh_journal no_runs = None"
  by (simp add: no_runs_def)

lemmas no_runs_loaded = no_journal_loaded [OF no_runs_journal]

lemma sample_started:
  assumes "small_plan p" and "mh_journal l0 = None"
  obtains s e l data where "runner_start p = Inr s" and "prepare_entry None ''run'' p s None [] l0 = Inr e"
    and "mh_append_entry None None e l0 = (Inr (), l)" and "append_state None None None ''run'' p s None [] l0 = (Inr e, l)"
    and "mrs_init s = Inr s" and "mrs_macro_id s = pl_macro_id p" and "mrs_status s = RS_READY" and "mrs_transitions s = 0"
    and "sio_encode (jn_to_dict e) = Inr data" and "load_and_validate None ''run'' l = Inr [stored_entry e]"
    and "validate_plan_state p s = Inr ()" and "weight (JObj (mrs_to_dict s)) \<le> 5000"
proof -
  obtain s where s: "runner_start p = Inr s" "mrs_init s = Inr s" "validate_plan_state p s = Inr ()" "mrs_status s = RS_READY"
      "mrs_transitions s = 0" "mrs_macro_id s = pl_macro_id p" "weight (JObj (mrs_to_dict s)) \<le> 5000"
    using small_start [OF assms(1)] .
  note loaded = no_journal_loaded [OF assms(2)]
  obtain e data where e: "new_entry ''run'' s [] 0 JE_START None None = Inr e" "sio_encode (jn_to_dict e) = Inr data"
    using small_entry [OF assms(1) s(2,3,7), of 0 _ _ _ _ _ "[]"] by blast
  obtain l where l: "mh_append_entry None None e l0 = (Inr (), l)" using sample_appended [OF loaded [THEN loaded_readable [THEN iffD1], THEN conjunct1] e(2)] .
  have prep: "prepare_entry None ''run'' p s None [] l0 = Inr e"
    using e(1) by (simp add: prepare_entry_def s(3) loaded next_entry_def rbind_Ok_iff result_simps sorted_set_def plain_text_def is_control_def)
  then have app: "append_state None None None ''run'' p s None [] l0 = (Inr e, l)"
    using l by (simp add: append_state_def st_bind_def st_read_def st_return_def)
  have "load_and_validate None ''run'' l = Inr [stored_entry e]" using appended_chain(1) [OF loaded _ app] by simp
  then show thesis using that [OF s(1) prep l app s(2,6,4,5) e(2) _ s(3,7)] by blast
qed

text \<open>Two states that differ in a field have different digests, or their texts are a collision.\<close>

lemma distinct_states:
  assumes "canon (dget (mrs_body s) k) \<noteq> canon (dget (mrs_body t) k)"
  shows "sha256_collision (utf8 (dumps (JObj (mrs_body s)))) (utf8 (dumps (JObj (mrs_body t)))) \<or> state_sha256 t \<noteq> state_sha256 s"
proof (rule disjCI)
  assume "\<not> state_sha256 t \<noteq> state_sha256 s"
  then have same: "canonical_sha256 (JObj (mrs_body s)) = canonical_sha256 (JObj (mrs_body t))" by (simp add: state_sha256_def)
  have "dget (stored (mrs_body u)) k = canon (dget (mrs_body u) k)" for u
    by (rule dget_stored) (simp add: mrs_body_def)
  then have "stored (mrs_body s) \<noteq> stored (mrs_body t)" using assms by metis
  then show "sha256_collision (utf8 (dumps (JObj (mrs_body s)))) (utf8 (dumps (JObj (mrs_body t))))"
    using canonical_sha256_binding [OF same] unfolding canon_stored by simp
qed

text \<open>A second state of the started run.\<close>

lemma sample_second:
  assumes "small_plan q" and "mrs_init t = Inr t" and "validate_plan_state q t = Inr ()" and "weight (JObj (mrs_to_dict t)) \<le> 5000"
    and "load_and_validate None ''run'' l = Inr [stored_entry e]" and "state_from_dict (jn_state (stored_entry e)) = Inr s'"
    and "mrs_status s' = RS_READY" and "mrs_transitions s' = 0" and "state_sha256 t \<noteq> state_sha256 s'"
    and "evidence = [] \<or> evidence = [canonical_sha256 c]"
  obtains e' l' where "append_state None None None ''run'' q t (Some (entry_sha256 e)) evidence l = (Inr e', l')"
proof -
  have seq: "jn_sequence (stored_entry e) = 0"
    using assms(5) unfolding loaded_readable chained_def by (simp add: link_at_def)
  obtain e' data where e': "new_entry ''run'' t evidence 1 JE_TRANSITION (Some (entry_sha256 e)) (Some (state_sha256 s')) = Inr e'"
      "sio_encode (jn_to_dict e') = Inr data"
    using small_entry [OF assms(1-4), of 1, OF _ assms(10)] unfolding entry_sha256_def state_sha256_def by blast
  have "jr_sha256 (entry_sha256 e) f = Inr ()" for f by (simp add: result_simps entry_sha256_def)
  then have "next_entry ''run'' t (Some (entry_sha256 e)) evidence [stored_entry e] = Inr e'"
    using e'(1) assms(6-9) seq by (simp add: next_entry_def first_error.simps(2) TERMINAL_STATUSES_def)
  moreover have "canonical_evidence evidence = Inr ()" using assms(10) by (auto simp: result_simps sorted_set_def)
  ultimately have prep: "prepare_entry None ''run'' q t (Some (entry_sha256 e)) evidence l = Inr e'"
    by (simp add: prepare_entry_def assms(3,5) rbind_Ok_iff result_simps plain_text_def is_control_def)
  obtain l' where "mh_append_entry None None e' l = (Inr (), l')"
    using sample_appended [OF _ e'(2)] assms(5) unfolding loaded_readable by blast
  then show thesis using prep that by (simp add: append_state_def st_bind_def st_read_def st_return_def)
qed

theorem appended_state_is_reconstructed_witness:
  "\<exists>p s e l. make_plan two_loops = Ok p \<and> runner_start p = Ok s \<and> append_state None None None ''run'' p s None [] no_runs = (Ok e, l)
    \<and> reconstruct None ''run'' p l = Ok \<lparr>re_state = canonical_state s, re_head_entry = stored_entry e, re_entry_count = 1\<rparr>"
proof -
  obtain p where p: "make_plan two_loops = Inr p" by (rule two_loops_planned)
  obtain s e l where s: "runner_start p = Inr s" "append_state None None None ''run'' p s None [] no_runs = (Inr e, l)"
    using sample_started [OF small_plans(1) [OF p] no_runs_journal] .
  show ?thesis using appended_state_is_reconstructed [OF no_runs_loaded _ s(2)] p s by auto
qed

theorem racing_appends_break_the_journal_witness:
  "\<exists>p s e l1 l2. make_plan two_loops = Ok p \<and> runner_start p = Ok s \<and> prepare_entry None ''run'' p s None [] no_runs = Ok e
    \<and> mh_append_entry None None e no_runs = (Ok (), l1) \<and> mh_append_entry None None e l1 = (Ok (), l2)
    \<and> load_and_validate None ''run'' l2 \<noteq> Ok [stored_entry e, stored_entry e]"
proof -
  obtain p where p: "make_plan two_loops = Inr p" by (rule two_loops_planned)
  obtain s e l1 data where s: "runner_start p = Inr s" "prepare_entry None ''run'' p s None [] no_runs = Inr e"
      "mh_append_entry None None e no_runs = (Inr (), l1)" "sio_encode (jn_to_dict e) = Inr data"
    using sample_started [OF small_plans(1) [OF p] no_runs_journal] .
  obtain l2 where l2: "mh_append_entry None None e l1 = (Inr (), l2)"
    using sample_appended [OF acknowledged_readable [OF s(2,3) no_runs_loaded [THEN loaded_readable [THEN iffD1], THEN conjunct1]] s(4)] .
  show ?thesis using racing_appends_break_the_journal [OF s(2,2,3) l2] p s(1-3) l2 by blast
qed

theorem journal_head_determines_history_witness:
  "\<exists>p s e l. make_plan two_loops = Ok p \<and> runner_start p = Ok s \<and> append_state None None None ''run'' p s None [] no_runs = (Ok e, l)
    \<and> (map stored_entry ([] @ [stored_entry e]) = map stored_entry ([] @ [stored_entry e]) \<and> ''run'' = ''run''
      \<or> (\<exists>a b. a \<in> set ([] @ [stored_entry e]) \<and> b \<in> set ([] @ [stored_entry e]) \<and> entry_clash a b))"
proof -
  obtain p where p: "make_plan two_loops = Inr p" by (rule two_loops_planned)
  obtain s e l where s: "runner_start p = Inr s" "append_state None None None ''run'' p s None [] no_runs = (Inr e, l)"
      "load_and_validate None ''run'' l = Inr [stored_entry e]"
    using sample_started [OF small_plans(1) [OF p] no_runs_journal] .
  have "load_and_validate None ''run'' (l\<lparr>mh_run_claims := [''run'']\<rparr>) = load_and_validate None ''run'' l"
    by (simp add: load_and_validate_def mh_entries_def)
  then have load: "load_and_validate None ''run'' l = Ok ([] @ [stored_entry e])"
    "load_and_validate None ''run'' (l\<lparr>mh_run_claims := [''run'']\<rparr>) = Ok ([] @ [stored_entry e])" using s(3) by simp_all
  show ?thesis using journal_head_determines_history [OF load] p s by blast
qed

text \<open>A run of one plan, and the start state of another plan appended to it.\<close>

theorem foreign_append_breaks_the_journal_witness:
  "\<exists>p s s' e l. make_plan two_loops = Ok p \<and> runner_start p = Ok s \<and> runner_start (other_plan p) = Ok s'
    \<and> append_state None None None ''run'' p s None [] no_runs = (Ok e, l)
    \<and> (sha256_collision (utf8 (dumps (JObj (mrs_body s)))) (utf8 (dumps (JObj (mrs_body s'))))
      \<or> (\<exists>e' l'. append_state None None None ''run'' (other_plan p) s' (Some (entry_sha256 e)) [] l = (Ok e', l')
          \<and> load_and_validate None ''run'' l' = raise MacroRunJournalContractError ''journal identity changed within one run''))"
proof -
  obtain p where p: "make_plan two_loops = Inr p" by (rule two_loops_planned)
  note small = small_plans [OF p]
  obtain s e l where s: "runner_start p = Inr s" "append_state None None None ''run'' p s None [] no_runs = (Inr e, l)"
      "mrs_init s = Inr s" "mrs_macro_id s = pl_macro_id p" "mrs_status s = RS_READY" "mrs_transitions s = 0"
      "load_and_validate None ''run'' l = Inr [stored_entry e]"
    using sample_started [OF small(1) no_runs_journal] .
  obtain s' where s': "runner_start (other_plan p) = Inr s'" "mrs_init s' = Inr s'" "mrs_macro_id s' = pl_macro_id (other_plan p)"
      "mrs_transitions s' = 0" "validate_plan_state (other_plan p) s' = Inr ()" "weight (JObj (mrs_to_dict s')) \<le> 5000"
    using small_start [OF small(2)] by metis
  note own = appended_chain(3,5) [OF no_runs_loaded _ s(2), simplified]
  have foreign: "\<not> entry_of_plan (other_plan p) (stored_entry e)" using own(1) small(3,4) by (simp add: entry_of_plan_def)
  have "canon (dget (mrs_body s) ''macro_id'') \<noteq> canon (dget (mrs_body s') ''macro_id'')"
    using s(4) s'(3) small(3,4) by (simp add: mrs_body_def)
  note digests = distinct_states [OF this]
  from digests consider "sha256_collision (utf8 (dumps (JObj (mrs_body s)))) (utf8 (dumps (JObj (mrs_body s'))))" | "state_sha256 s' \<noteq> state_sha256 s" by blast
  then show ?thesis
  proof cases
    case 2
    obtain e' l' where app: "append_state None None None ''run'' (other_plan p) s' (Some (entry_sha256 e)) [] l = (Inr e', l')"
      using sample_second [OF small(2) s'(2,5,6) s(7) own(2), of "[]"] s(5,6) 2 by auto
    show ?thesis using foreign_append_breaks_the_journal [OF s(7) foreign app] app p s s' by blast
  qed (use p s s' in blast)
qed

end
