(* ===== verification/Macro_Coordinator.thy ===== *)
theory Macro_Coordinator
  imports Macro_History
begin

text \<open>
  \<open>phios/macro_coordinator.py\<close>: the life of one macro run over runner and journal: start, advance, abort,
  resume.  The theorems say what its answers mean for later readers, and lift the guarantee of
  \<open>Macro_Runs\<close> from states in memory to the journal.

  \<open>io n\<close> is the failure of the \<open>n\<close>-th system call of an operation, if it has one.  A failure that says the
  file is missing, for a file that is there, is not honest.
\<close>

type_synonym call_faults = "nat \<Rightarrow> exn option"

definition honest :: "call_faults \<Rightarrow> bool" where
  "honest io \<longleftrightarrow> (\<forall>n e. io n = Some e \<longrightarrow> exn_class e \<noteq> PyFileNotFoundError)"

section \<open>Views and checks\<close>

record coordinated_run =
  cr_run_id :: string
  cr_state :: macro_run_state
  cr_head_entry_sha256 :: string
  cr_entry_count :: nat
  cr_changed :: bool

record coordinated_resume =
  cz_run :: coordinated_run
  cz_resume_receipt :: resume_receipt

definition co_validate_run_id :: "string \<Rightarrow> unit result" where
  "co_validate_run_id run_id = discard (require_text MacroRunCoordinatorContractError (JStr run_id) ''run_id'' 256)"

text \<open>Two JSON dicts that are equal in Python: members in any order, and \<open>True\<close> is 1.\<close>

fun py_numeric :: "json \<Rightarrow> json" where
  "py_numeric (JBool b) = JInt (if b then 1 else 0)"
| "py_numeric (JList xs) = JList (map py_numeric xs)"
| "py_numeric (JObj kvs) = JObj (map (\<lambda>kv. (fst kv, py_numeric (snd kv))) kvs)"
| "py_numeric j = j"

definition same_dict :: "(string \<times> json) list \<Rightarrow> (string \<times> json) list \<Rightarrow> bool" where
  "same_dict d e \<longleftrightarrow> canon (py_numeric (JObj d)) = canon (py_numeric (JObj e))"

definition meaningful_progress :: "macro_run_state \<Rightarrow> macro_run_state \<Rightarrow> bool" where
  "meaningful_progress before advanced \<longleftrightarrow>
     mrs_cursor before \<noteq> mrs_cursor advanced
     \<or> mrs_status before \<noteq> mrs_status advanced
     \<or> mrs_reason before \<noteq> mrs_reason advanced
     \<or> mrs_loop_iterations before \<noteq> mrs_loop_iterations advanced
     \<or> mrs_foreach_indices before \<noteq> mrs_foreach_indices advanced
     \<or> \<not> same_dict (or_empty (mrs_variables before)) (or_empty (mrs_variables advanced))
     \<or> \<not> same_dict (or_empty (mrs_waiting_on before)) (or_empty (mrs_waiting_on advanced))
     \<or> mrs_last_instruction_path before \<noteq> mrs_last_instruction_path advanced"

definition evidence_refs :: "runner_inputs option \<Rightarrow> string list" where
  "evidence_refs inputs =
     (case inputs of
        None \<Rightarrow> []
      | Some i \<Rightarrow> sorted_set
          (map cnr_evidence_ref_sha256 (in_conditions i) @ map orr_receipt_sha256 (in_operations i)
           @ map apr_evidence_ref_sha256 (in_approvals i) @ map clr_receipt_sha256 (in_calls i)
           @ map ckr_receipt_sha256 (in_checkpoints i) @ map clc_evidence_ref_sha256 (in_collections i)))"

section \<open>Operations\<close>

definition co_has_run :: "call_faults \<Rightarrow> string \<Rightarrow> macro_ledger \<Rightarrow> bool result" where
  "co_has_run io run_id l = rbind (co_validate_run_id run_id) (\<lambda>_. has_run (io 0) (io 1) run_id l)"

definition co_start_run ::
  "call_faults \<Rightarrow> string \<Rightarrow> macro_plan \<Rightarrow> runner_inputs option \<Rightarrow> (macro_ledger, coordinated_run) action" where
  "co_start_run io run_id p initial_inputs =
     st_bind (st_read (co_has_run io run_id)) (\<lambda>exists.
     if exists then st_result (raise MacroRunCoordinatorContractError ''run_id already exists'')
     else
     st_bind (st_result (runner_start p)) (\<lambda>ready.
     st_bind (append_state (io 2) (io 3) (io 4) run_id p ready None []) (\<lambda>start_entry.
     st_bind (st_result (advance p ready initial_inputs (int MAX_ADVANCE_TRANSITIONS))) (\<lambda>advanced.
     if \<not> meaningful_progress ready advanced then
       st_return \<lparr>cr_run_id = run_id, cr_state = ready, cr_head_entry_sha256 = entry_sha256 start_entry,
         cr_entry_count = 1, cr_changed = False\<rparr>
     else
     st_bind (append_state (io 5) (io 6) (io 7) run_id p advanced (Some (entry_sha256 start_entry)) (evidence_refs initial_inputs))
       (\<lambda>transition.
     st_return \<lparr>cr_run_id = run_id, cr_state = advanced, cr_head_entry_sha256 = entry_sha256 transition,
       cr_entry_count = 2, cr_changed = True\<rparr>)))))"

text \<open>The view of a reconstruction that nothing was added to.\<close>

definition unchanged_view :: "string \<Rightarrow> reconstruction \<Rightarrow> coordinated_run" where
  "unchanged_view run_id c = \<lparr>cr_run_id = run_id, cr_state = re_state c,
     cr_head_entry_sha256 = entry_sha256 (re_head_entry c), cr_entry_count = re_entry_count c, cr_changed = False\<rparr>"

definition co_advance_run ::
  "call_faults \<Rightarrow> string \<Rightarrow> macro_plan \<Rightarrow> runner_inputs \<Rightarrow> (macro_ledger, coordinated_run) action" where
  "co_advance_run io run_id p inputs =
     st_bind (st_result (co_validate_run_id run_id)) (\<lambda>_.
     st_bind (st_read (reconstruct (io 0) run_id p)) (\<lambda>current.
     let before = re_state current in
     if mrs_status before \<in> set TERMINAL_STATUSES then st_return (unchanged_view run_id current)
     else
     st_bind (st_result (advance p before (Some inputs) (int MAX_ADVANCE_TRANSITIONS))) (\<lambda>advanced.
     if \<not> meaningful_progress before advanced then st_return (unchanged_view run_id current)
     else
     st_bind (append_state (io 1) (io 2) (io 3) run_id p advanced (Some (entry_sha256 (re_head_entry current)))
         (evidence_refs (Some inputs))) (\<lambda>transition.
     st_return \<lparr>cr_run_id = run_id, cr_state = advanced, cr_head_entry_sha256 = entry_sha256 transition,
       cr_entry_count = re_entry_count current + 1, cr_changed = True\<rparr>))))"

definition co_abort_run ::
  "call_faults \<Rightarrow> string \<Rightarrow> macro_plan \<Rightarrow> string \<Rightarrow> string list \<Rightarrow> (macro_ledger, coordinated_run) action" where
  "co_abort_run io run_id p reason evidence =
     st_bind (st_result (co_validate_run_id run_id)) (\<lambda>_.
     st_bind (st_read (reconstruct (io 0) run_id p)) (\<lambda>current.
     if mrs_status (re_state current) \<in> set TERMINAL_STATUSES then st_return (unchanged_view run_id current)
     else
     st_bind (st_result (runner_abort p (re_state current) reason)) (\<lambda>aborted.
     st_bind (append_state (io 1) (io 2) (io 3) run_id p aborted (Some (entry_sha256 (re_head_entry current)))
         (sorted_set evidence)) (\<lambda>transition.
     st_return \<lparr>cr_run_id = run_id, cr_state = aborted, cr_head_entry_sha256 = entry_sha256 transition,
       cr_entry_count = re_entry_count current + 1, cr_changed = True\<rparr>))))"

definition co_current_run :: "call_faults \<Rightarrow> string \<Rightarrow> macro_plan \<Rightarrow> macro_ledger \<Rightarrow> coordinated_run result" where
  "co_current_run io run_id p l =
     rbind (co_validate_run_id run_id) (\<lambda>_.
     rbind (reconstruct (io 0) run_id p l) (\<lambda>current. Ok (unchanged_view run_id current)))"

definition co_resume_run ::
  "call_faults \<Rightarrow> string \<Rightarrow> macro_plan \<Rightarrow> string \<Rightarrow> (macro_ledger, coordinated_resume) action" where
  "co_resume_run io run_id p resumed_at =
     st_bind (st_result (co_validate_run_id run_id)) (\<lambda>_.
     st_bind (resume_run (io 0) (io 1) (io 2) run_id p resumed_at) (\<lambda>(state, receipt).
     st_bind (st_read (reconstruct (io 3) run_id p)) (\<lambda>current.
     if state_sha256 state \<noteq> state_sha256 (re_state current)
     then st_result (raise MacroRunCoordinatorContractError ''resume state changed during reconstruction'')
     else st_return \<lparr>cz_run = unchanged_view run_id current\<lparr>cr_state := state\<rparr>, cz_resume_receipt = receipt\<rparr>)))"

section \<open>What the operations do to the history\<close>

lemma honest_load: "honest io \<Longrightarrow> load_and_validate (io n) run l = Inr es \<Longrightarrow> load_and_validate None run l = Inr es"
  by (auto simp: load_and_validate_def mh_entries_def read_jsonl_def honest_def split: option.splits if_splits)

lemma honest_reconstruct: "honest io \<Longrightarrow> reconstruct (io n) run p l = Inr c \<Longrightarrow> reconstruct None run p l = Inr c"
  unfolding reconstruct_def rbind_Ok_iff using honest_load by blast

lemma honest_append:
  assumes "honest io" and "append_state (io n) opf wrf run p s expected evidence l = (Inr e, l')"
  shows "append_state None opf wrf run p s expected evidence l = (Inr e, l')"
proof -
  have "prepare_entry (io n) run p s expected evidence l = Inr x \<Longrightarrow> prepare_entry None run p s expected evidence l = Inr x" for x
    unfolding prepare_entry_def rbind_Ok_iff using honest_load [OF assms(1)] by blast
  then show ?thesis using assms(2) by (auto simp: append_state_def st_read_def elim!: st_bindE) (simp add: st_bind_def)
qed

lemma append_state_failed:
  assumes "append_state rf opf wrf run p s expected evidence l = (Inl x, l')"
  shows "mh_entries None run' l' = mh_entries None run' l"
proof -
  have "mh_entries None run' l' = mh_entries None run' l" if failed: "mh_append_entry opf wrf e l = (Inl y, l')" for e y
  proof -
    obtain z f where a: "append_jsonl opf wrf (mh_journal l) (jn_to_dict e) None = (Inl z, f)" and l': "l' = l\<lparr>mh_journal := f\<rparr>"
    proof (cases "append_jsonl opf wrf (mh_journal l) (jn_to_dict e) None")
      case (Pair a f)
      then show thesis using that failed by (cases a) (auto simp: mh_append_entry_def discard_def)
    qed
    have "f = mh_journal l \<or> f = Some (case mh_journal l of None \<Rightarrow> [] | Some ls \<Rightarrow> ls)" using append_prefix [OF a] by auto
    then show ?thesis by (auto simp: mh_entries_def l' read_jsonl_def sio_rows_def split: option.splits)
  qed
  then show ?thesis using assms by (auto simp: append_state_def st_read_def st_return_def elim!: st_bindE)
qed

lemma append_state_elsewhere:
  assumes "append_state None opf wrf run p s expected evidence l = (Inr e, l')" and "run' \<noteq> run" and "mh_entries None run' l = Inr rows"
  shows "mh_entries None run' l' = Inr rows"
proof -
  obtain prep: "prepare_entry None run p s expected evidence l = Inr e" and app: "mh_append_entry opf wrf e l = (Inr (), l')"
    using assms(1) by (rule append_stateE)
  obtain old where "load_and_validate None run l = Inr old" "next_entry run s expected evidence old = Inr e" using prep by (rule prepared)
  then have "jn_run_id e = run" using next_entry_made(2) unfolding loaded_readable by blast
  then show ?thesis using appended_rows [OF app assms(3)] assms(2) by simp
qed

lemma same_load: "mh_entries None run l' = mh_entries None run l \<Longrightarrow> load_and_validate None run l' = load_and_validate None run l"
  by (simp add: load_and_validate_def)

lemma reconstructed:
  assumes "reconstruct None run p l = Inr c"
  obtains es where "load_and_validate None run l = Inr es" and "es \<noteq> []" and "re_head_entry c = last es" and "re_entry_count c = length es"
    and "state_from_dict (jn_state (last es)) = Inr (re_state c)" and "list_all (entry_of_plan p) es"
proof -
  obtain es where es: "load_and_validate None run l = Inr es" "es \<noteq> []" "re_head_entry c = last es" "re_entry_count c = length es"
      "state_from_dict (jn_state (last es)) = Inr (re_state c)" "entry_of_plan p (last es)"
    using assms unfolding reconstruct_def
    by (auto simp: rbind_Ok_iff first_error_Ok_Cons entry_of_plan_def Let_def split: if_splits)
  have same: "same_identity e (hd es)" if "e \<in> set es" for e
    using es(1) that unfolding loaded_readable chained_def by (auto simp: in_set_conv_nth link_at_def)
  from this [of "last es"] es(2,6) have "entry_of_plan p (hd es)" by (simp add: same_identity_def entry_of_plan_def)
  then have "entry_of_plan p e" if "e \<in> set es" for e
    using same [OF that] by (simp add: same_identity_def entry_of_plan_def)
  then have "list_all (entry_of_plan p) es" by (simp add: list_all_iff)
  then show thesis using es that by blast
qed

section \<open>Calls\<close>

text \<open>A call of the coordinator that may add to the history of a run, and the resolutions it supplies.\<close>

datatype coordinator_call =
  StartCall "runner_inputs option"
| AdvanceCall runner_inputs
| AbortCall string "string list"

fun co_call :: "call_faults \<Rightarrow> string \<Rightarrow> macro_plan \<Rightarrow> coordinator_call \<Rightarrow> (macro_ledger, coordinated_run) action" where
  "co_call io run_id p (StartCall inputs) = co_start_run io run_id p inputs"
| "co_call io run_id p (AdvanceCall inputs) = co_advance_run io run_id p inputs"
| "co_call io run_id p (AbortCall reason evidence) = co_abort_run io run_id p reason evidence"

fun call_inputs :: "coordinator_call \<Rightarrow> runner_inputs list" where
  "call_inputs (StartCall inputs) = [case inputs of None \<Rightarrow> no_inputs | Some i \<Rightarrow> i]"
| "call_inputs (AdvanceCall inputs) = [inputs]"
| "call_inputs (AbortCall reason evidence) = []"

text \<open>
  What a journal records of a run: \<open>traced p h es s\<close> says that the entries end in the state \<open>s\<close>, which is
  reached by a run under the resolutions \<open>h\<close>, and that for each of them some entry has its evidence.
\<close>

definition traced :: "macro_plan \<Rightarrow> runner_inputs list \<Rightarrow> journal_entry list \<Rightarrow> macro_run_state \<Rightarrow> bool" where
  "traced p h es s \<longleftrightarrow> state_from_dict (jn_state (last es)) = Inr s \<and> macro_run p h s
     \<and> (\<forall>i \<in> set h. \<exists>a \<in> set es. jn_evidence_ref_sha256s a = evidence_refs (Some i))"

definition recorded :: "string \<Rightarrow> macro_plan \<Rightarrow> runner_inputs set \<Rightarrow> macro_ledger \<Rightarrow> bool" where
  "recorded run p H l \<longleftrightarrow> (\<exists>es. load_and_validate None run l = Inr es \<and> list_all (entry_of_plan p) es
     \<and> (es \<noteq> [] \<longrightarrow> (\<exists>h s. set h \<subseteq> H \<and> traced p h es s)))"

lemma evidence_refs_None: "evidence_refs None = evidence_refs (Some no_inputs)"
  by (simp add: evidence_refs_def no_inputs_def sorted_set_def)

lemma reread: "macro_run p h s \<Longrightarrow> macro_run p h (canonical_state s)"
  unfolding canonical_state_def by (rule Reread)

text \<open>The one step that adds to a history.\<close>

lemma appended_trace:
  assumes "load_and_validate None run l = Inr old" and "list_all (entry_of_plan p) old"
    and "append_state None opf wrf run p s expected evidence l = (Inr e, l')" and "macro_run p h s"
    and "\<forall>i \<in> set h. evidence = evidence_refs (Some i) \<or> (\<exists>a \<in> set old. jn_evidence_ref_sha256s a = evidence_refs (Some i))"
  shows "load_and_validate None run l' = Inr (old @ [stored_entry e])" and "list_all (entry_of_plan p) (old @ [stored_entry e])"
    and "traced p h (old @ [stored_entry e]) (canonical_state s)"
proof -
  note chain = appended_chain [OF assms(1-3)]
  show "load_and_validate None run l' = Inr (old @ [stored_entry e])" by (rule chain(1))
  show "list_all (entry_of_plan p) (old @ [stored_entry e])" using assms(2) chain(3) by simp
  show "traced p h (old @ [stored_entry e]) (canonical_state s)"
    using chain(5,6) reread [OF assms(4)] assms(5) by (auto simp: traced_def)
qed

lemma st_bind_readE:
  assumes "st_bind (st_read f) g s = (r, s')"
  obtains (err) e where "r = Inl e" and "s' = s" | (ok) x where "f s = Inr x" and "g x s = (r, s')"
  using assms by (cases "f s") (auto simp: st_bind_def st_read_def)

lemma st_bind_resultE:
  assumes "st_bind (st_result q) g s = (r, s')"
  obtains (err) e where "r = Inl e" and "s' = s" | (ok) x where "q = Inr x" and "g x s = (r, s')"
  using assms by (cases q) (auto simp: st_bind_def st_result_def)

text \<open>What the calls do, answered or not: nothing that is read, one append, or the two appends of a start.\<close>

definition same_history :: "macro_ledger \<Rightarrow> macro_ledger \<Rightarrow> bool" where
  "same_history l l' \<longleftrightarrow> (\<forall>run. mh_entries None run l' = mh_entries None run l)"

lemma same_history_refl [simp]: "same_history l l"
  by (simp add: same_history_def)

lemma append_state_cases:
  assumes "honest io" and "append_state (io n) opf wrf run p s expected evidence l = (r, l')"
  obtains (failed) x where "r = Inl x" and "same_history l l'"
  | (made) e where "r = Inr e" and "append_state None opf wrf run p s expected evidence l = (Inr e, l')"
proof (cases r)
  case (Inl x)
  have "same_history l l'" unfolding same_history_def using append_state_failed [OF assms(2) [unfolded Inl]] by blast
  then show thesis using failed Inl by blast
next
  case (Inr e)
  show thesis using made [OF Inr honest_append [OF assms(1) assms(2) [unfolded Inr]]] .
qed

lemma new_run_empty:
  assumes "honest io" and "co_has_run io run l = Inr False"
  shows "load_and_validate None run l = Inr []"
proof -
  have "mh_entries (io 0) run l = Inr []"
    using assms(2) by (auto simp: co_has_run_def has_run_def rbind_Ok_iff split: if_splits)
  then have "load_and_validate (io 0) run l = Inr []" by (simp add: load_and_validate_def)
  then show ?thesis by (rule honest_load [OF assms(1)])
qed

lemma start_cases:
  assumes "honest io" and "co_start_run io run p inputs l = (r, l')"
  obtains (refused) x where "r = Inl x" and "same_history l l'"
  | (started) ready e l1 where "load_and_validate None run l = Inr []" and "runner_start p = Inr ready"
      and "append_state None (io 3) (io 4) run p ready None [] l = (Inr e, l1)" and "same_history l1 l'"
      and "(\<exists>x. r = Inl x) \<or> r = Inr \<lparr>cr_run_id = run, cr_state = ready, cr_head_entry_sha256 = entry_sha256 e,
         cr_entry_count = 1, cr_changed = False\<rparr>"
  | (advanced) ready e l1 t e' where "load_and_validate None run l = Inr []" and "runner_start p = Inr ready"
      and "append_state None (io 3) (io 4) run p ready None [] l = (Inr e, l1)"
      and "advance p ready inputs (int MAX_ADVANCE_TRANSITIONS) = Inr t"
      and "append_state None (io 6) (io 7) run p t (Some (entry_sha256 e)) (evidence_refs inputs) l1 = (Inr e', l')"
      and "r = Inr \<lparr>cr_run_id = run, cr_state = t, cr_head_entry_sha256 = entry_sha256 e', cr_entry_count = 2, cr_changed = True\<rparr>"
proof -
  from assms(2) [unfolded co_start_run_def] show thesis
  proof (cases rule: st_bind_readE)
    case err
    then show ?thesis using refused by simp
  next
    case (ok has)
    show ?thesis
    proof (cases has)
      case True
      then show ?thesis using ok(2) refused by (auto simp: st_result_def)
    next
      case False
      have none: "load_and_validate None run l = Inr []" using new_run_empty [OF assms(1)] ok(1) False by simp
      from ok(2) [unfolded if_not_P [OF False]] show ?thesis
      proof (cases rule: st_bind_resultE)
        case err
        then show ?thesis using refused by simp
      next
        case (ok ready)
        note ready = ok(1)
        from ok(2) show ?thesis
        proof (cases rule: st_bindE)
          case (err x)
          then show ?thesis using refused append_state_cases [OF assms(1) err(1)] by blast
        next
          case (ok e l1)
          note app = honest_append [OF assms(1) ok(1)]
          from ok(2) show ?thesis
          proof (cases rule: st_bind_resultE)
            case (err x)
            then show ?thesis using started [OF none ready app] by simp
          next
            case (ok t)
            note adv = ok(1)
            show ?thesis
            proof (cases "meaningful_progress ready t")
              case False
              then show ?thesis using ok(2) started [OF none ready app] by (simp add: st_return_def)
            next
              case True
              from ok(2) [simplified True not_True_eq_False if_False] show ?thesis
              proof (cases rule: st_bindE)
                case (err x)
                then show ?thesis using started [OF none ready app] append_state_cases [OF assms(1) err(1)] by blast
              next
                case (ok e' l2)
                then have "append_state None (io 6) (io 7) run p t (Some (entry_sha256 e)) (evidence_refs inputs) l1 = (Inr e', l')"
                  using honest_append [OF assms(1) ok(1)] by (simp add: st_return_def)
                then show ?thesis using advanced [OF none ready app adv] ok(2) by (simp add: st_return_def)
              qed
            qed
          qed
        qed
      qed
    qed
  qed
qed

text \<open>The last step of \<open>advance_run\<close> and \<open>abort_run\<close>.\<close>

lemma transition_cases:
  assumes "honest io"
    and "st_bind (append_state (io 1) (io 2) (io 3) run p t expected evidence) (\<lambda>transition.
      st_return \<lparr>cr_run_id = run, cr_state = t, cr_head_entry_sha256 = entry_sha256 transition, cr_entry_count = n, cr_changed = True\<rparr>) l
      = (r, l')"
  obtains (refused) x where "r = Inl x" and "same_history l l'"
  | (appended) e where "append_state None (io 2) (io 3) run p t expected evidence l = (Inr e, l')"
      and "r = Inr \<lparr>cr_run_id = run, cr_state = t, cr_head_entry_sha256 = entry_sha256 e, cr_entry_count = n, cr_changed = True\<rparr>"
  using assms(2)
proof (cases rule: st_bindE)
  case (err x)
  then show ?thesis using refused append_state_cases [OF assms(1) err(1)] by blast
next
  case (ok e l2)
  then show ?thesis using appended honest_append [OF assms(1) ok(1)] by (simp add: st_return_def)
qed

lemma move_cases:
  assumes "honest io" and "co_call io run p call l = (r, l')" and "\<And>inputs. call \<noteq> StartCall inputs"
  obtains (refused) x where "r = Inl x" and "same_history l l'"
  | (kept) c where "reconstruct None run p l = Inr c" and "r = Inr (unchanged_view run c)" and "l' = l"
  | (moved) c t evidence e where "reconstruct None run p l = Inr c"
      and "(\<exists>i m. call = AdvanceCall i \<and> advance p (re_state c) (Some i) m = Inr t \<and> evidence = evidence_refs (Some i))
        \<or> (\<exists>reason ev. call = AbortCall reason ev \<and> runner_abort p (re_state c) reason = Inr t)"
      and "append_state None (io 2) (io 3) run p t (Some (entry_sha256 (re_head_entry c))) evidence l = (Inr e, l')"
      and "r = Inr \<lparr>cr_run_id = run, cr_state = t, cr_head_entry_sha256 = entry_sha256 e, cr_entry_count = re_entry_count c + 1,
         cr_changed = True\<rparr>"
proof (cases call)
  case (StartCall inputs)
  then show ?thesis using assms(3) by simp
next
  case (AdvanceCall i)
  from assms(2) [unfolded AdvanceCall co_call.simps co_advance_run_def] show ?thesis
  proof (cases rule: st_bind_resultE)
    case (ok u)
    from ok(2) show ?thesis
    proof (cases rule: st_bind_readE)
      case (ok c)
      note rec = honest_reconstruct [OF assms(1) ok(1)]
      show ?thesis
      proof (cases "mrs_status (re_state c) \<in> set TERMINAL_STATUSES")
        case True
        then show ?thesis using ok(2) kept [OF rec] by (simp add: Let_def st_return_def)
      next
        case False
        from ok(2) [unfolded Let_def if_not_P [OF False]] show ?thesis
        proof (cases rule: st_bind_resultE)
          case (ok t)
          show ?thesis
          proof (cases "meaningful_progress (re_state c) t")
            case False
            then show ?thesis using ok(2) kept [OF rec] by (simp add: st_return_def)
          next
            case True
            from ok(2) [simplified True not_True_eq_False if_False] show ?thesis
              by (cases rule: transition_cases [OF assms(1)]) (use refused moved [OF rec] AdvanceCall ok(1) in blast)+
          qed
        qed (use refused in simp)
      qed
    qed (use refused in simp)
  qed (use refused in simp)
next
  case (AbortCall reason ev)
  from assms(2) [unfolded AbortCall co_call.simps co_abort_run_def] show ?thesis
  proof (cases rule: st_bind_resultE)
    case (ok u)
    from ok(2) show ?thesis
    proof (cases rule: st_bind_readE)
      case (ok c)
      note rec = honest_reconstruct [OF assms(1) ok(1)]
      show ?thesis
      proof (cases "mrs_status (re_state c) \<in> set TERMINAL_STATUSES")
        case True
        then show ?thesis using ok(2) kept [OF rec] by (simp add: st_return_def)
      next
        case False
        from ok(2) [unfolded if_not_P [OF False]] show ?thesis
        proof (cases rule: st_bind_resultE)
          case (ok t)
          from ok(2) show ?thesis
            by (cases rule: transition_cases [OF assms(1)]) (use refused moved [OF rec] AbortCall ok(1) in blast)+
        qed (use refused in simp)
      qed
    qed (use refused in simp)
  qed (use refused in simp)
qed

section \<open>What the journal records\<close>

lemma same_history_load: "same_history l l' \<Longrightarrow> load_and_validate None run l' = load_and_validate None run l"
  by (rule same_load) (simp add: same_history_def)

lemma same_history_reconstruct: "same_history l l' \<Longrightarrow> reconstruct None run p l' = reconstruct None run p l"
  by (simp add: reconstruct_def same_history_load)

lemma recorded_same: "same_history l l' \<Longrightarrow> recorded run p H l \<Longrightarrow> recorded run p H l'"
  by (simp add: recorded_def same_history_load)

lemma recorded_mono: "recorded run p H l \<Longrightarrow> H \<subseteq> H' \<Longrightarrow> recorded run p H' l"
  unfolding recorded_def by (elim exE conjE, intro exI conjI) (assumption | blast)+

lemma started_recorded:
  assumes "load_and_validate None run l = Inr []" and "runner_start p = Inr ready"
    and "append_state None opf wrf run p ready expected [] l = (Inr e, l')"
  shows "load_and_validate None run l' = Inr [stored_entry e]" and "list_all (entry_of_plan p) [stored_entry e]"
    and "traced p [] [stored_entry e] (canonical_state ready)"
  using appended_trace [OF assms(1) _ assms(3) Started [OF assms(2)]] by simp_all

lemma call_recorded:
  assumes "honest io" and "co_call io run p call l = (r, l')" and "recorded run p H l"
  shows "recorded run p (H \<union> set (call_inputs call)) l'"
proof (cases "\<exists>inputs. call = StartCall inputs")
  case True
  then obtain inputs where call: "call = StartCall inputs" ..
  from assms(2) have "co_start_run io run p inputs l = (r, l')" by (simp add: call)
  then show ?thesis
  proof (cases rule: start_cases [OF assms(1), consumes 1, case_names refused started advanced])
    case (refused x)
    then show ?thesis using recorded_mono [OF recorded_same [OF refused(2) assms(3)]] by blast
  next
    case (started ready e l1)
    have "recorded run p {} l1" using started_recorded [OF started(1-3)] unfolding recorded_def by fastforce
    then show ?thesis using recorded_mono [OF recorded_same [OF started(4)]] by blast
  next
    case (advanced ready e l1 t e')
    let ?i = "case inputs of None \<Rightarrow> no_inputs | Some i \<Rightarrow> i"
    note first = started_recorded [OF advanced(1-3)]
    have run: "macro_run p [?i] t" using Advanced [OF Started [OF advanced(2)] advanced(4)] by simp
    have refs: "evidence_refs inputs = evidence_refs (Some ?i)" by (cases inputs) (simp_all add: evidence_refs_None)
    show ?thesis
      using appended_trace [OF first(1,2) advanced(5) run] refs unfolding recorded_def call by fastforce
  qed
next
  case False
  then have no_start: "call \<noteq> StartCall inputs" for inputs by blast
  from assms(2) show ?thesis
  proof (cases rule: move_cases [OF assms(1) _ no_start, consumes 1, case_names refused kept moved])
    case (refused x)
    then show ?thesis using recorded_mono [OF recorded_same [OF refused(2) assms(3)]] by blast
  next
    case (kept c)
    then show ?thesis using recorded_mono [OF assms(3)] by blast
  next
    case (moved c t evidence e)
    obtain es where es: "load_and_validate None run l = Inr es" "es \<noteq> []" "state_from_dict (jn_state (last es)) = Inr (re_state c)"
        "list_all (entry_of_plan p) es"
      using moved(1) by (rule reconstructed)
    obtain h s where h: "set h \<subseteq> H" "traced p h es s" using assms(3) es(1,2) unfolding recorded_def by auto
    then have s: "s = re_state c" using es(3) by (simp add: traced_def)
    obtain h' where h': "macro_run p h' t" "set h' \<subseteq> H \<union> set (call_inputs call)"
        "\<forall>i \<in> set h'. evidence = evidence_refs (Some i) \<or> (\<exists>a \<in> set es. jn_evidence_ref_sha256s a = evidence_refs (Some i))"
    proof -
      have run: "macro_run p h (re_state c)" using h(2) s by (simp add: traced_def)
      from moved(2) consider i m where "call = AdvanceCall i" "advance p (re_state c) (Some i) m = Inr t" "evidence = evidence_refs (Some i)"
        | reason ev where "call = AbortCall reason ev" "runner_abort p (re_state c) reason = Inr t" by blast
      then show thesis
      proof cases
        case 1
        show thesis
          using that [of "h @ [i]"] Advanced [OF run 1(2)] h 1 by (auto simp: traced_def)
      next
        case 2
        show thesis using that [of h] Aborted [OF run 2(2)] h by (auto simp: traced_def)
      qed
    qed
    show ?thesis
      using appended_trace [OF es(1,4) moved(3) h'(1,3)] h'(2) unfolding recorded_def by blast
  qed
qed

text \<open>
  A run under one plan, its calls one after the other, answered or not, on a ledger where it had no
  entry; whatever else happens to the ledger in between leaves the entries of the run alone.
\<close>

inductive coordinated :: "string \<Rightarrow> macro_plan \<Rightarrow> runner_inputs set \<Rightarrow> macro_ledger \<Rightarrow> bool" for run p where
  Fresh: "mh_entries None run l = Ok [] \<Longrightarrow> coordinated run p {} l"
| Called: "coordinated run p H l \<Longrightarrow> honest io \<Longrightarrow> co_call io run p call l = (r, l') \<Longrightarrow>
    coordinated run p (H \<union> set (call_inputs call)) l'"
| Elsewhere: "coordinated run p H l \<Longrightarrow> mh_entries None run l' = mh_entries None run l \<Longrightarrow> coordinated run p H l'"

lemma coordinated_recorded: "coordinated run p H l \<Longrightarrow> recorded run p H l"
proof (induction rule: coordinated.induct)
  case (Fresh l)
  then show ?case by (simp add: recorded_def load_and_validate_def)
next
  case (Called H l io call r l')
  then show ?case using call_recorded by blast
next
  case (Elsewhere H l l')
  then show ?case using same_load [OF Elsewhere.hyps(2)] by (simp add: recorded_def)
qed

lemma persisted:
  assumes "honest io" and "co_call io run p call l = (Ok r, l')"
  shows "\<exists>c. reconstruct None run p l' = Ok c \<and> re_entry_count c = cr_entry_count r
    \<and> entry_sha256 (re_head_entry c) = cr_head_entry_sha256 r \<and> state_sha256 (re_state c) = state_sha256 (cr_state r)"
proof (cases "\<exists>inputs. call = StartCall inputs")
  case True
  then obtain inputs where "co_start_run io run p inputs l = (Inr r, l')" using assms(2) by auto
  then show ?thesis
  proof (cases rule: start_cases [OF assms(1), consumes 1, case_names refused started advanced])
    case (started ready e l1)
    then show ?thesis
      using appended_reconstruct [OF started(1) _ started(3)] same_history_reconstruct [OF started(4)] by simp
  next
    case (advanced ready e l1 t e')
    then show ?thesis
      using appended_reconstruct [OF started_recorded(1,2) advanced(5), OF advanced(1-3) advanced(1-3)] by simp
  qed simp
next
  case False
  then have no_start: "call \<noteq> StartCall inputs" for inputs by blast
  from assms(2) show ?thesis
  proof (cases rule: move_cases [OF assms(1) _ no_start, consumes 1, case_names refused kept moved])
    case (kept c)
    then show ?thesis by (simp add: unchanged_view_def)
  next
    case (moved c t evidence e)
    obtain es where "load_and_validate None run l = Inr es" "re_entry_count c = length es" "list_all (entry_of_plan p) es"
      using moved(1) by (rule reconstructed)
    then show ?thesis using appended_reconstruct [OF _ _ moved(3)] moved(4) by simp
  qed simp
qed

section \<open>Properties\<close>

text \<open>C24: What the coordinator answers is what the journal says.  After an answered start, advance or abort, the
  run can be reconstructed, with the number of entries, the head and the digest of the state that the
  answer carries, whether or not the call added an entry.\<close>

theorem coordinated_state_is_persisted:
  assumes "honest io" and "co_call io run p call l = (Ok r, l')"
  shows "\<exists>c. reconstruct None run p l' = Ok c \<and> re_entry_count c = cr_entry_count r
    \<and> entry_sha256 (re_head_entry c) = cr_head_entry_sha256 r \<and> state_sha256 (re_state c) = state_sha256 (cr_state r)"
  using assms by (rule persisted)

text \<open>The calls of several runs, one after the other.\<close>

fun co_calls :: "(call_faults \<times> string \<times> macro_plan \<times> coordinator_call) list \<Rightarrow> macro_ledger \<Rightarrow> macro_ledger" where
  "co_calls [] l = l"
| "co_calls ((io, run_id, p, call) # rest) l = co_calls rest (snd (co_call io run_id p call l))"

lemma append_extends:
  assumes "load_and_validate None run l = Inr old" and "list_all (entry_of_plan p) old"
    and "append_state None opf wrf run p s expected evidence l = (Inr e, l')" and "load_and_validate None run' l = Inr es"
  shows "\<exists>new. load_and_validate None run' l' = Inr (es @ new)"
proof (cases "run' = run")
  case True
  then show ?thesis using appended_chain(1) [OF assms(1-3)] assms(1,4) by simp
next
  case False
  obtain rows where rows: "mh_entries None run' l = Inr rows" using assms(4) unfolding loaded_entries by blast
  then have "mh_entries None run' l' = mh_entries None run' l" using append_state_elsewhere [OF assms(3) False] by simp
  then show ?thesis using same_load [of run' l' l] assms(4) by (intro exI [of _ "[]"]) simp
qed

lemma call_extends:
  assumes "honest io" and "co_call io run p call l = (r, l')" and "load_and_validate None run' l = Inr es"
  shows "\<exists>new. load_and_validate None run' l' = Inr (es @ new)"
proof (cases "\<exists>inputs. call = StartCall inputs")
  case True
  then obtain inputs where "co_start_run io run p inputs l = (r, l')" using assms(2) by auto
  then show ?thesis
  proof (cases rule: start_cases [OF assms(1), consumes 1, case_names refused started advanced])
    case (refused x)
    then show ?thesis using same_history_load assms(3) by simp
  next
    case (started ready e l1)
    then show ?thesis using append_extends [OF started(1) _ started(3) assms(3)] same_history_load [OF started(4)] by simp
  next
    case (advanced ready e l1 t e')
    obtain new where "load_and_validate None run' l1 = Inr (es @ new)"
      using append_extends [OF advanced(1) _ advanced(3) assms(3)] by auto
    then show ?thesis using append_extends [OF started_recorded(1,2) advanced(5), OF advanced(1-3) advanced(1-3)] by fastforce
  qed
next
  case False
  then have no_start: "call \<noteq> StartCall inputs" for inputs by blast
  from assms(2) show ?thesis
  proof (cases rule: move_cases [OF assms(1) _ no_start, consumes 1, case_names refused kept moved])
    case (refused x)
    then show ?thesis using same_history_load assms(3) by simp
  next
    case (kept c)
    then show ?thesis using assms(3) by simp
  next
    case (moved c t evidence e)
    obtain old where "load_and_validate None run l = Inr old" "list_all (entry_of_plan p) old"
      using moved(1) by (rule reconstructed)
    then show ?thesis using append_extends [OF _ _ moved(3) assms(3)] by blast
  qed
qed

text \<open>C22: Calls that follow one another never break a journal: whatever calls are made, of whatever runs and under
  whatever plans, whether they are answered, refused or fail halfway, every run that could be loaded
  before is loaded afterwards, with the old entries first and unchanged.\<close>

theorem calls_only_extend_histories:
  assumes "list_all (\<lambda>(io, run_id, p, call). honest io) calls" and "load_and_validate None run l = Ok es"
  shows "\<exists>new. load_and_validate None run (co_calls calls l) = Ok (es @ new)"
  using assms
proof (induction calls arbitrary: l es)
  case (Cons c calls)
  obtain io run' p call where c: "c = (io, run', p, call)" by (cases c)
  obtain r l' where step: "co_call io run' p call l = (r, l')" by (cases "co_call io run' p call l")
  obtain new where new: "load_and_validate None run l' = Inr (es @ new)"
    using call_extends [OF _ step Cons.prems(2)] Cons.prems(1) c by auto
  have "\<exists>more. load_and_validate None run (co_calls calls l') = Inr ((es @ new) @ more)"
    by (rule Cons.IH [OF _ new]) (use Cons.prems(1) in simp)
  then show ?case by (auto simp: c step)
qed simp

text \<open>C20: The journal of a run cites evidence for every step it passed.  When a run of a planned definition has
  been driven by coordinator calls only, and its journal says that it completed, or that its cursor is past
  a top-level step, then some call was given a matching, succeeded resolution for exactly that step, and
  an entry of the journal has the digests of everything that call was given as its evidence; unless two
  blocks of the definition have the same SHA-256 digest.\<close>

theorem journal_cites_every_step:
  assumes "md_init d = Ok d" and "make_plan d = Ok p" and "coordinated run p H l" and "honest io"
    and "co_current_run io run p l = Ok r" and "j < length (md_steps d)"
    and "mrs_status (cr_state r) = RS_COMPLETED \<or> start_of (md_steps d) j < mrs_cursor (cr_state r)"
  shows "digest_clash (md_steps d) \<or> (\<exists>es i a. load_and_validate None run l = Ok es \<and> i \<in> H \<and> a \<in> set es
    \<and> supplied i (''root.'' @ show_nat j) (md_steps d ! j) \<and> jn_evidence_ref_sha256s a = evidence_refs (Some i))"
proof -
  obtain c where "reconstruct (io 0) run p l = Inr c" and r: "cr_state r = re_state c"
    using assms(5) by (auto simp: co_current_run_def rbind_Ok_iff unchanged_view_def)
  then have "reconstruct None run p l = Inr c" using honest_reconstruct assms(4) by blast
  then obtain es where es: "load_and_validate None run l = Inr es" "es \<noteq> []" "state_from_dict (jn_state (last es)) = Inr (re_state c)"
    by (rule reconstructed)
  obtain h s where h: "set h \<subseteq> H" "traced p h es s"
    using coordinated_recorded [OF assms(3)] es(1,2) unfolding recorded_def by auto
  then have "macro_run p h (re_state c)" using es(3) by (simp add: traced_def)
  from run_resolved [OF assms(1,2) this assms(6)] assms(7) r
  have "digest_clash (md_steps d) \<or> (\<exists>i \<in> set h. supplied i (''root.'' @ show_nat j) (md_steps d ! j))" by simp
  then show ?thesis using h es(1) unfolding traced_def by blast
qed

section \<open>Samples\<close>

definition no_faults :: call_faults where
  "no_faults = (\<lambda>n. None)"

lemma no_faults_honest [simp]: "honest no_faults"
  by (simp add: honest_def no_faults_def)

text \<open>A definition of one checkpoint, and the receipt that lets it pass.\<close>

definition one_save :: macro_definition where
  "one_save = two_loops\<lparr>md_steps := [CheckpointStep ''saved'']\<rparr>"

definition saved_input :: runner_inputs where
  "saved_input = no_inputs\<lparr>in_checkpoints := [\<lparr>ckr_instruction_path = ''root.0'', ckr_label = ''saved'',
     ckr_status = RES_SUCCEEDED, ckr_receipt_sha256 = canonical_sha256 JNull\<rparr>]\<rparr>"

definition saved_index :: resolutions where
  "saved_index = first_saved_index\<lparr>ix_checkpoints := map (\<lambda>r. (ckr_instruction_path r, r)) (in_checkpoints saved_input)\<rparr>"

lemma saved_indexed: "index_inputs saved_input = Inr saved_index"
  by (simp add: index_inputs_def saved_input_def no_inputs_def saved_index_def first_saved_index_def)

lemma saved_refs: "evidence_refs (Some saved_input) = [canonical_sha256 JNull]"
  by (simp add: evidence_refs_def saved_input_def no_inputs_def sorted_set_def)

lemma one_save_ok: "md_init one_save = Inr one_save" "validate_definition one_save = Inr ()"
proof -
  show "md_init one_save = Inr one_save"
    using two_loops_ok(1) unfolding md_init_def validated_Ok_iff first_error_Ok_Cons first_error_Ok_Nil
    by (simp add: one_save_def two_loops_def)
  have t: "mg_require_text ''saved'' f 256 = Inr ()" for f by (simp add: plain_text_def is_control_def)
  show "validate_definition one_save = Inr ()"
    by (simp add: validate_definition_def one_save_def two_loops_def t check_depth_def check_count_def
        MAX_NESTING_DEPTH_def MAX_STATIC_STEPS_def first_error.simps)
qed

lemma one_save_plan: obtains p where "make_plan one_save = Inr p" and "small_plan p" and "length (pl_instructions p) = 1"
proof -
  have md: "md_ok one_save" using one_save_ok(1) by (simp add: md_ok_def)
  obtain p where p: "make_plan one_save = Inr p" using make_plan_valid(1) [OF md one_save_ok(2)] by simp
  then have "pl_macro_id p = ''macro''" "pl_macro_version p = ''1''"
    using make_plan_valid(1) [OF md one_save_ok(2)] by (auto simp: one_save_def two_loops_def)
  then have "small_plan p" by (simp add: small_plan_def plan_named_def plain_text_def is_control_def)
  then show thesis using that p planned(1) [OF one_save_ok(1) p] by (simp add: one_save_def)
qed

lemma one_save_unclashed: "\<not> digest_clash (md_steps one_save)" "list_all unclashed (md_steps one_save)"
  by (auto simp: digest_clash_def one_save_def sha256_collision_def)

lemma one_save_completed:
  assumes "make_plan one_save = Inr p" and "small_plan p" and "length (pl_instructions p) = 1" and "runner_start p = Inr s"
  obtains t where "advance p s (Some saved_input) (int MAX_ADVANCE_TRANSITIONS) = Inr t" and "mrs_cursor t = 1"
    and "mrs_status t = RS_COMPLETED" and "mrs_init t = Inr t" and "validate_plan_state p t = Inr ()"
    and "weight (JObj (mrs_to_dict t)) \<le> 5000"
proof -
  let ?v = "visit ''root.0'' start_env"
  let ?t = "\<lparr>mrs_macro_id = pl_macro_id p, mrs_macro_version = pl_macro_version p, mrs_plan_sha256 = plan_sha256 p,
      mrs_cursor = 1, mrs_status = RS_COMPLETED, mrs_reason = ''plan_completed'', mrs_loop_iterations = [],
      mrs_foreach_indices = [], mrs_variables = Some [], mrs_waiting_on = Some [], mrs_last_instruction_path = Some ''root.0'',
      mrs_transitions = 1, mrs_operational_authority = False, mrs_action_authority = False, mrs_execution_authority = False,
      mrs_schema_version = MACRO_RUN_STATE_SCHEMA_VERSION\<rparr>"
  have init: "mrs_init ?t = Inr ?t"
    using assms(2) unfolding mrs_init_valid by (simp add: small_plan_def plan_named_def plan_sha256_def plain_text_def is_control_def)
  note plan = planned [OF one_save_ok(1) assms(1)]
  have "leaf saved_index ''root.0'' 0 (CheckpointStep ''saved'') start_env = Some (Continue ?v)"
    by (simp add: saved_index_def saved_input_def settle_def)
  then have "sems saved_index ''root'' 0 0 (md_steps one_save) start_env (Continue ?v)"
    by (simp add: one_save_def) (intro Cons [OF Leaf Nil], simp)
  from runner_follows(2) [OF this plan(5) one_save_unclashed(2) plan(3)]
  have "advance_loop p saved_index 50000 0 start_env = advance_loop p saved_index 49999 1 ?v"
    by (auto simp: follows_def start_env_def one_save_def dest: spec [of _ 49999])
  also have "\<dots> = run_state p 1 RS_COMPLETED ''plan_completed'' ?v []"
    using assms(3) by (simp add: advance_loop.simps)
  also have "\<dots> = Inr ?t" using init by (simp add: run_state_def start_env_def)
  finally have "advance p s (Some saved_input) (int MAX_ADVANCE_TRANSITIONS) = Inr ?t"
    using started [OF assms(4)] saved_indexed by (simp add: advance_def TERMINAL_STATUSES_def MAX_ADVANCE_TRANSITIONS_def)
  moreover have "weight (JObj (mrs_to_dict ?t)) \<le> 5000"
    using assms(2)
    by (simp add: small_plan_def mrs_to_dict_def mrs_body_def digest_lengths counter_pairs_def
        MACRO_RUN_STATE_SCHEMA_VERSION_def show_int_def show_nat.simps)
  ultimately show thesis
    using that [of ?t] init by (simp add: validate_plan_state_def first_error.simps(2))
qed

text \<open>The start of the run of that definition is answered, unless its two states collide.\<close>

lemma one_save_start:
  assumes "make_plan one_save = Inr p" and "small_plan p" and "length (pl_instructions p) = 1"
  obtains (collide) s t where "runner_start p = Inr s" and "advance p s (Some saved_input) (int MAX_ADVANCE_TRANSITIONS) = Inr t"
      and "sha256_collision (utf8 (dumps (JObj (mrs_body s)))) (utf8 (dumps (JObj (mrs_body t))))"
  | (answered) r l c where "co_start_run no_faults ''run'' p (Some saved_input) no_runs = (Inr r, l)"
      and "cr_entry_count r = 2" and "reconstruct None ''run'' p l = Inr c" and "mrs_status (re_state c) = RS_COMPLETED"
proof -
  obtain s e l where s: "runner_start p = Inr s" "append_state None None None ''run'' p s None [] no_runs = (Inr e, l)"
      "mrs_status s = RS_READY" "mrs_transitions s = 0" "load_and_validate None ''run'' l = Inr [stored_entry e]"
    using sample_started [OF assms(2) no_runs_journal] .
  have start: "mrs_cursor s = 0" using started [OF s(1)] by simp
  obtain t where t: "advance p s (Some saved_input) (int MAX_ADVANCE_TRANSITIONS) = Inr t" "mrs_cursor t = 1" "mrs_status t = RS_COMPLETED"
      "mrs_init t = Inr t" "validate_plan_state p t = Inr ()" "weight (JObj (mrs_to_dict t)) \<le> 5000"
    using one_save_completed [OF assms s(1)] .
  have "canon (dget (mrs_body s) ''cursor'') \<noteq> canon (dget (mrs_body t) ''cursor'')" using start t(2) by (simp add: mrs_body_def)
  from distinct_states [OF this] show thesis
  proof
    assume "state_sha256 t \<noteq> state_sha256 s"
    moreover have read: "state_from_dict (jn_state (stored_entry e)) = Inr (canonical_state s)"
      using appended_chain(5) [OF no_runs_loaded _ s(2)] by simp
    ultimately obtain e' l' where second: "append_state None None None ''run'' p t (Some (entry_sha256 e)) [canonical_sha256 JNull] l = (Inr e', l')"
      using sample_second [OF assms(2) t(4,5,6) s(5) read, of "[canonical_sha256 JNull]" JNull] s(3,4) by auto
    have fresh: "co_has_run no_faults ''run'' no_runs = Inr False"
      by (simp add: co_has_run_def co_validate_run_id_def has_run_def mh_entries_def no_runs_def jr_checkers_Ok_iff rbind_Ok_iff
          result_simps plain_text_def is_control_def)
    have "meaningful_progress s t" using start t(2) by (simp add: meaningful_progress_def)
    then have "co_start_run no_faults ''run'' p (Some saved_input) no_runs = (Inr \<lparr>cr_run_id = ''run'', cr_state = t,
        cr_head_entry_sha256 = entry_sha256 e', cr_entry_count = 2, cr_changed = True\<rparr>, l')"
      using fresh s(1,2) t(1) second
      by (simp add: co_start_run_def st_bind_def st_read_def st_result_def st_return_def no_faults_def saved_refs)
    moreover have "entry_of_plan p (stored_entry e)" using appended_chain(3) [OF no_runs_loaded _ s(2)] by simp
    then have "reconstruct None ''run'' p l' = Inr \<lparr>re_state = canonical_state t, re_head_entry = stored_entry e', re_entry_count = 2\<rparr>"
      using appended_reconstruct [OF s(5) _ second] by simp
    ultimately show thesis using answered t(3) by simp
  qed (rule collide [OF s(1) t(1)])
qed

theorem coordinated_state_is_persisted_witness:
  "\<exists>p. make_plan one_save = Ok p
    \<and> ((\<exists>s t. runner_start p = Ok s \<and> advance p s (Some saved_input) (int MAX_ADVANCE_TRANSITIONS) = Ok t
          \<and> sha256_collision (utf8 (dumps (JObj (mrs_body s)))) (utf8 (dumps (JObj (mrs_body t)))))
      \<or> (\<exists>r l c. co_start_run no_faults ''run'' p (Some saved_input) no_runs = (Ok r, l) \<and> reconstruct None ''run'' p l = Ok c
          \<and> re_entry_count c = 2 \<and> state_sha256 (re_state c) = state_sha256 (cr_state r)))"
proof -
  obtain p where p: "make_plan one_save = Inr p" "small_plan p" "length (pl_instructions p) = 1" by (rule one_save_plan)
  then show ?thesis
  proof (cases rule: one_save_start)
    case (answered r l c)
    then have "co_call no_faults ''run'' p (StartCall (Some saved_input)) no_runs = (Inr r, l)" by simp
    from coordinated_state_is_persisted [OF no_faults_honest this] answered show ?thesis using p(1) by auto
  qed (use p(1) in blast)
qed

theorem calls_only_extend_histories_witness:
  "\<exists>p new. make_plan one_save = Ok p
    \<and> load_and_validate None ''other'' (co_calls [(no_faults, ''run'', p, StartCall (Some saved_input)), (no_faults, ''run'', p, AbortCall ''stop'' [])] no_runs)
      = Ok ([] @ new)"
proof -
  obtain p where p: "make_plan one_save = Inr p" by (rule one_save_plan)
  show ?thesis
    using calls_only_extend_histories [of "[(no_faults, ''run'', p, StartCall (Some saved_input)), (no_faults, ''run'', p, AbortCall ''stop'' [])]"
        "''other''" no_runs "[]"] no_runs_loaded p by auto
qed

theorem journal_cites_every_step_witness:
  "\<exists>p. make_plan one_save = Ok p
    \<and> ((\<exists>s t. runner_start p = Ok s \<and> advance p s (Some saved_input) (int MAX_ADVANCE_TRANSITIONS) = Ok t
          \<and> sha256_collision (utf8 (dumps (JObj (mrs_body s)))) (utf8 (dumps (JObj (mrs_body t)))))
      \<or> (\<exists>r l es a. co_start_run no_faults ''run'' p (Some saved_input) no_runs = (Ok r, l) \<and> load_and_validate None ''run'' l = Ok es
          \<and> a \<in> set es \<and> jn_evidence_ref_sha256s a = [canonical_sha256 JNull]))"
proof -
  obtain p where p: "make_plan one_save = Inr p" "small_plan p" "length (pl_instructions p) = 1" by (rule one_save_plan)
  then show ?thesis
  proof (cases rule: one_save_start)
    case (answered r l c)
    have call: "co_call no_faults ''run'' p (StartCall (Some saved_input)) no_runs = (Inr r, l)" using answered by simp
    have fresh: "coordinated ''run'' p {} no_runs" by (rule Fresh) (simp add: mh_entries_def no_runs_def)
    have run: "coordinated ''run'' p {saved_input} l" using Called [OF fresh no_faults_honest call] by simp
    have "co_current_run no_faults ''run'' p l = Inr (unchanged_view ''run'' c)" "mrs_status (cr_state (unchanged_view ''run'' c)) = RS_COMPLETED"
      using answered(3,4)
      by (simp_all add: co_current_run_def co_validate_run_id_def no_faults_def unchanged_view_def rbind_Ok_iff result_simps plain_text_def is_control_def)
    from journal_cites_every_step [OF one_save_ok(1) p(1) run no_faults_honest this(1), of 0] this(2)
    show ?thesis using one_save_unclashed(1) answered p(1) by (auto simp: one_save_def saved_refs)
  qed (use p(1) in blast)
qed

end
