(* ===== verification/Macro_Start.thy ===== *)
theory Macro_Start
  imports Macro_Coordinator
begin

text \<open>
  \<open>phios/macro_start.py\<close>: the admission of external start requests.  A trigger observation and a request
  carry no authority; \<open>admit\<close> lets a request through to the coordinator under a policy and at most once,
  by the two claim directories of \<open>phios/spine/ledger.py\<close>, and records what it decided.
\<close>

definition TRIGGER_OBSERVATION_SCHEMA_VERSION :: string where
  "TRIGGER_OBSERVATION_SCHEMA_VERSION = ''phios.trigger_observation.v0.8''"

definition RUN_START_REQUEST_SCHEMA_VERSION :: string where
  "RUN_START_REQUEST_SCHEMA_VERSION = ''phios.run_start_request.v0.8''"

definition RUN_START_POLICY_SCHEMA_VERSION :: string where
  "RUN_START_POLICY_SCHEMA_VERSION = ''phios.run_start_admission_policy.v0.8''"

definition RUN_START_RECEIPT_SCHEMA_VERSION :: string where
  "RUN_START_RECEIPT_SCHEMA_VERSION = ''phios.run_start_receipt.v0.8''"

datatype start_status = ST_STARTED | ST_HELD | ST_REJECTED

fun start_value :: "start_status \<Rightarrow> string" where
  "start_value ST_STARTED = ''STARTED''"
| "start_value ST_HELD = ''HELD''"
| "start_value ST_REJECTED = ''REJECTED''"

section \<open>Field checkers\<close>

definition sg_require_text :: "string \<Rightarrow> string \<Rightarrow> nat \<Rightarrow> unit result" where
  "sg_require_text v field maximum = discard (require_text MacroRunStartContractError (JStr v) field maximum)"

definition sg_require_sha256 :: "string \<Rightarrow> string \<Rightarrow> unit result" where
  "sg_require_sha256 v field = discard (require_sha256 MacroRunStartContractError (JStr v) field)"

definition sg_require_timestamp :: "string \<Rightarrow> string \<Rightarrow> unit result" where
  "sg_require_timestamp v field = discard (macro_require_timestamp MacroRunStartContractError (JStr v) field)"

definition sg_canonical_names :: "string list \<Rightarrow> string \<Rightarrow> bool \<Rightarrow> unit result" where
  "sg_canonical_names values field allow_empty = macro_names MacroRunStartContractError values field 512 allow_empty"

definition sg_optional :: "(string \<Rightarrow> unit result) \<Rightarrow> string option \<Rightarrow> unit result" where
  "sg_optional check v = (case v of None \<Rightarrow> Ok () | Some s \<Rightarrow> check s)"

section \<open>Records\<close>

record trigger_observation =
  tob_observation_id :: string
  tob_trigger_type :: string
  tob_source_id :: string
  tob_source_event_id :: string
  tob_observed_at :: string
  tob_payload_sha256 :: string
  tob_evidence_ref_sha256s :: "string list"
  tob_operational_authority :: bool
  tob_action_authority :: bool
  tob_execution_authority :: bool
  tob_schema_version :: string

definition tob_init :: "trigger_observation \<Rightarrow> trigger_observation result" where
  "tob_init t = validated
     ([ensure (tob_schema_version t = TRIGGER_OBSERVATION_SCHEMA_VERSION) MacroRunStartContractError ''unsupported trigger observation schema'',
      sg_require_text (tob_observation_id t) ''observation_id'' 512,
      sg_require_text (tob_trigger_type t) ''trigger_type'' 512,
      sg_require_text (tob_source_id t) ''source_id'' 512,
      sg_require_text (tob_source_event_id t) ''source_event_id'' 512,
      sg_require_timestamp (tob_observed_at t) ''observed_at'',
      sg_require_sha256 (tob_payload_sha256 t) ''payload_sha256''] @
      map (\<lambda>e. sg_require_sha256 e ''evidence_ref_sha256'') (tob_evidence_ref_sha256s t) @
      [ensure (sorted_set (tob_evidence_ref_sha256s t) = tob_evidence_ref_sha256s t) MacroRunStartContractError
        ''evidence_ref_sha256s must be sorted and unique'',
      ensure (\<not> (tob_operational_authority t \<or> tob_action_authority t \<or> tob_execution_authority t)) MacroRunStartContractError
        ''TriggerObservation cannot carry authority'']) t"

definition tob_body :: "trigger_observation \<Rightarrow> (string \<times> json) list" where
  "tob_body t =
     [(''schema_version'', JStr (tob_schema_version t)),
      (''observation_id'', JStr (tob_observation_id t)),
      (''trigger_type'', JStr (tob_trigger_type t)),
      (''source_id'', JStr (tob_source_id t)),
      (''source_event_id'', JStr (tob_source_event_id t)),
      (''observed_at'', JStr (tob_observed_at t)),
      (''payload_sha256'', JStr (tob_payload_sha256 t)),
      (''evidence_ref_sha256s'', jstrs (tob_evidence_ref_sha256s t)),
      (''operational_authority'', JBool (tob_operational_authority t)),
      (''action_authority'', JBool (tob_action_authority t)),
      (''execution_authority'', JBool (tob_execution_authority t))]"

definition observation_sha256 :: "trigger_observation \<Rightarrow> string" where
  "observation_sha256 t = canonical_sha256 (JObj (tob_body t))"

definition tob_to_dict :: "trigger_observation \<Rightarrow> (string \<times> json) list" where
  "tob_to_dict t = tob_body t @ [(''observation_sha256'', JStr (observation_sha256 t))]"

record run_start_request =
  srq_request_id :: string
  srq_run_id :: string
  srq_macro_id :: string
  srq_macro_version :: string
  srq_plan_sha256 :: string
  srq_trigger_observation_sha256 :: string
  srq_trigger_type :: string
  srq_source_id :: string
  srq_source_event_id :: string
  srq_dedupe_sha256 :: string
  srq_requested_at :: string
  srq_operational_authority :: bool
  srq_action_authority :: bool
  srq_execution_authority :: bool
  srq_schema_version :: string

definition srq_init :: "run_start_request \<Rightarrow> run_start_request result" where
  "srq_init q = validated
     ([ensure (srq_schema_version q = RUN_START_REQUEST_SCHEMA_VERSION) MacroRunStartContractError ''unsupported run start request schema'',
      sg_require_text (srq_request_id q) ''request_id'' 512,
      sg_require_text (srq_run_id q) ''run_id'' 512,
      sg_require_text (srq_macro_id q) ''macro_id'' 512,
      sg_require_text (srq_macro_version q) ''macro_version'' 128,
      sg_require_sha256 (srq_plan_sha256 q) ''plan_sha256'',
      sg_require_sha256 (srq_trigger_observation_sha256 q) ''trigger_observation_sha256'',
      sg_require_text (srq_trigger_type q) ''trigger_type'' 512,
      sg_require_text (srq_source_id q) ''source_id'' 512,
      sg_require_text (srq_source_event_id q) ''source_event_id'' 512,
      sg_require_sha256 (srq_dedupe_sha256 q) ''dedupe_sha256'',
      sg_require_timestamp (srq_requested_at q) ''requested_at'',
      ensure (\<not> (srq_operational_authority q \<or> srq_action_authority q \<or> srq_execution_authority q)) MacroRunStartContractError
        ''RunStartRequest cannot carry authority'']) q"

text \<open>The digest one observation and one plan are admitted under.\<close>

definition dedupe_of :: "trigger_observation \<Rightarrow> macro_plan \<Rightarrow> string" where
  "dedupe_of t p = canonical_sha256 (JObj
     [(''trigger_observation_sha256'', JStr (observation_sha256 t)),
      (''macro_id'', JStr (pl_macro_id p)),
      (''macro_version'', JStr (pl_macro_version p)),
      (''plan_sha256'', JStr (plan_sha256 p))])"

definition srq_build ::
  "string \<Rightarrow> string \<Rightarrow> macro_plan \<Rightarrow> trigger_observation \<Rightarrow> string \<Rightarrow> run_start_request result" where
  "srq_build request_id run_id p t requested_at = srq_init
     \<lparr>srq_request_id = request_id, srq_run_id = run_id, srq_macro_id = pl_macro_id p, srq_macro_version = pl_macro_version p,
      srq_plan_sha256 = plan_sha256 p, srq_trigger_observation_sha256 = observation_sha256 t,
      srq_trigger_type = tob_trigger_type t, srq_source_id = tob_source_id t, srq_source_event_id = tob_source_event_id t,
      srq_dedupe_sha256 = dedupe_of t p, srq_requested_at = requested_at, srq_operational_authority = False,
      srq_action_authority = False, srq_execution_authority = False, srq_schema_version = RUN_START_REQUEST_SCHEMA_VERSION\<rparr>"

definition srq_body :: "run_start_request \<Rightarrow> (string \<times> json) list" where
  "srq_body q =
     [(''schema_version'', JStr (srq_schema_version q)),
      (''request_id'', JStr (srq_request_id q)),
      (''run_id'', JStr (srq_run_id q)),
      (''macro_id'', JStr (srq_macro_id q)),
      (''macro_version'', JStr (srq_macro_version q)),
      (''plan_sha256'', JStr (srq_plan_sha256 q)),
      (''trigger_observation_sha256'', JStr (srq_trigger_observation_sha256 q)),
      (''trigger_type'', JStr (srq_trigger_type q)),
      (''source_id'', JStr (srq_source_id q)),
      (''source_event_id'', JStr (srq_source_event_id q)),
      (''dedupe_sha256'', JStr (srq_dedupe_sha256 q)),
      (''requested_at'', JStr (srq_requested_at q)),
      (''operational_authority'', JBool (srq_operational_authority q)),
      (''action_authority'', JBool (srq_action_authority q)),
      (''execution_authority'', JBool (srq_execution_authority q))]"

definition request_sha256 :: "run_start_request \<Rightarrow> string" where
  "request_sha256 q = canonical_sha256 (JObj (srq_body q))"

definition run_id_sha256 :: "string \<Rightarrow> string" where
  "run_id_sha256 run_id = canonical_sha256 (JObj [(''run_id'', JStr run_id)])"

definition srq_to_dict :: "run_start_request \<Rightarrow> (string \<times> json) list" where
  "srq_to_dict q = srq_body q @ [(''request_sha256'', JStr (request_sha256 q)), (''run_id_sha256'', JStr (run_id_sha256 (srq_run_id q)))]"

record run_start_policy =
  stp_policy_id :: string
  stp_allowed_trigger_types :: "string list"
  stp_allowed_source_ids :: "string list"
  stp_enabled :: bool
  stp_operational_authority :: bool
  stp_action_authority :: bool
  stp_execution_authority :: bool
  stp_schema_version :: string

definition stp_init :: "run_start_policy \<Rightarrow> run_start_policy result" where
  "stp_init a = validated
     ([ensure (stp_schema_version a = RUN_START_POLICY_SCHEMA_VERSION) MacroRunStartContractError ''unsupported run start admission policy schema'',
      sg_require_text (stp_policy_id a) ''policy_id'' 512,
      sg_canonical_names (stp_allowed_trigger_types a) ''allowed_trigger_types'' False,
      sg_canonical_names (stp_allowed_source_ids a) ''allowed_source_ids'' False,
      ensure (\<not> (stp_operational_authority a \<or> stp_action_authority a \<or> stp_execution_authority a)) MacroRunStartContractError
        ''RunStartAdmissionPolicy cannot carry authority'']) a"

definition stp_body :: "run_start_policy \<Rightarrow> (string \<times> json) list" where
  "stp_body a =
     [(''schema_version'', JStr (stp_schema_version a)),
      (''policy_id'', JStr (stp_policy_id a)),
      (''allowed_trigger_types'', jstrs (stp_allowed_trigger_types a)),
      (''allowed_source_ids'', jstrs (stp_allowed_source_ids a)),
      (''enabled'', JBool (stp_enabled a)),
      (''operational_authority'', JBool (stp_operational_authority a)),
      (''action_authority'', JBool (stp_action_authority a)),
      (''execution_authority'', JBool (stp_execution_authority a))]"

definition start_policy_sha256 :: "run_start_policy \<Rightarrow> string" where
  "start_policy_sha256 a = canonical_sha256 (JObj (stp_body a))"

definition stp_to_dict :: "run_start_policy \<Rightarrow> (string \<times> json) list" where
  "stp_to_dict a = stp_body a @ [(''policy_sha256'', JStr (start_policy_sha256 a))]"

record run_start_receipt =
  str_status :: start_status
  str_reason :: string
  str_request_id :: string
  str_request_sha256 :: string
  str_run_id :: string
  str_run_id_sha256 :: string
  str_macro_id :: string
  str_macro_version :: string
  str_plan_sha256 :: string
  str_trigger_observation_sha256 :: string
  str_trigger_type :: string
  str_source_id :: string
  str_source_event_id :: string
  str_dedupe_sha256 :: string
  str_policy_id :: string
  str_policy_sha256 :: string
  str_journal_head_sha256 :: "string option"
  str_run_state_sha256 :: "string option"
  str_run_status :: "string option"
  str_operational_authority :: bool
  str_action_authority :: bool
  str_execution_authority :: bool
  str_schema_version :: string

definition str_init :: "run_start_receipt \<Rightarrow> run_start_receipt result" where
  "str_init r = validated
     ([ensure (str_schema_version r = RUN_START_RECEIPT_SCHEMA_VERSION) MacroRunStartContractError ''unsupported run start receipt schema'',
      sg_require_text (str_reason r) ''reason'' 512,
      sg_require_text (str_request_id r) ''request_id'' 512,
      sg_require_sha256 (str_request_sha256 r) ''request_sha256'',
      sg_require_text (str_run_id r) ''run_id'' 512,
      sg_require_sha256 (str_run_id_sha256 r) ''run_id_sha256'',
      sg_require_text (str_macro_id r) ''macro_id'' 512,
      sg_require_text (str_macro_version r) ''macro_version'' 128,
      sg_require_sha256 (str_plan_sha256 r) ''plan_sha256'',
      sg_require_sha256 (str_trigger_observation_sha256 r) ''trigger_observation_sha256'',
      sg_require_text (str_trigger_type r) ''trigger_type'' 512,
      sg_require_text (str_source_id r) ''source_id'' 512,
      sg_require_text (str_source_event_id r) ''source_event_id'' 512,
      sg_require_sha256 (str_dedupe_sha256 r) ''dedupe_sha256'',
      sg_require_text (str_policy_id r) ''policy_id'' 512,
      sg_require_sha256 (str_policy_sha256 r) ''policy_sha256'',
      sg_optional (\<lambda>s. sg_require_sha256 s ''journal_head_sha256'') (str_journal_head_sha256 r),
      sg_optional (\<lambda>s. sg_require_sha256 s ''run_state_sha256'') (str_run_state_sha256 r),
      sg_optional (\<lambda>s. sg_require_text s ''run_status'' 64) (str_run_status r),
      ensure (\<not> (str_operational_authority r \<or> str_action_authority r \<or> str_execution_authority r)) MacroRunStartContractError
        ''RunStartReceipt cannot carry authority'']) r"

definition str_body :: "run_start_receipt \<Rightarrow> (string \<times> json) list" where
  "str_body r =
     [(''schema_version'', JStr (str_schema_version r)),
      (''status'', JStr (start_value (str_status r))),
      (''reason'', JStr (str_reason r)),
      (''request_id'', JStr (str_request_id r)),
      (''request_sha256'', JStr (str_request_sha256 r)),
      (''run_id'', JStr (str_run_id r)),
      (''run_id_sha256'', JStr (str_run_id_sha256 r)),
      (''macro_id'', JStr (str_macro_id r)),
      (''macro_version'', JStr (str_macro_version r)),
      (''plan_sha256'', JStr (str_plan_sha256 r)),
      (''trigger_observation_sha256'', JStr (str_trigger_observation_sha256 r)),
      (''trigger_type'', JStr (str_trigger_type r)),
      (''source_id'', JStr (str_source_id r)),
      (''source_event_id'', JStr (str_source_event_id r)),
      (''dedupe_sha256'', JStr (str_dedupe_sha256 r)),
      (''policy_id'', JStr (str_policy_id r)),
      (''policy_sha256'', JStr (str_policy_sha256 r)),
      (''journal_head_sha256'', jopt (str_journal_head_sha256 r)),
      (''run_state_sha256'', jopt (str_run_state_sha256 r)),
      (''run_status'', jopt (str_run_status r)),
      (''operational_authority'', JBool (str_operational_authority r)),
      (''action_authority'', JBool (str_action_authority r)),
      (''execution_authority'', JBool (str_execution_authority r))]"

definition start_receipt_sha256 :: "run_start_receipt \<Rightarrow> string" where
  "start_receipt_sha256 r = canonical_sha256 (JObj (str_body r))"

definition str_to_dict :: "run_start_receipt \<Rightarrow> (string \<times> json) list" where
  "str_to_dict r = str_body r @ [(''receipt_sha256'', JStr (start_receipt_sha256 r))]"

record run_start_admission =
  sa_receipt :: run_start_receipt
  sa_run :: "coordinated_run option"

section \<open>Start histories and claims\<close>

definition mh_append_start ::
  "exn option \<Rightarrow> exn option \<Rightarrow> run_start_receipt \<Rightarrow> (macro_ledger, unit) action" where
  "mh_append_start open_fault write_fault r l =
     (case append_jsonl open_fault write_fault (mh_starts l) (str_to_dict r) None of
        (q, f) \<Rightarrow> (discard q, l\<lparr>mh_starts := f\<rparr>))"

definition mh_recent_starts :: "exn option \<Rightarrow> json \<Rightarrow> macro_ledger \<Rightarrow> (string \<times> json) list list result" where
  "mh_recent_starts open_fault limit l = recent_of ''recent macro run start receipt'' open_fault (mh_starts l) limit"

definition mh_claim_start :: "exn option \<Rightarrow> exn option \<Rightarrow> string \<Rightarrow> (macro_ledger, bool) action" where
  "mh_claim_start open_fault write_fault dedupe_sha256 l =
     (case rl_validate_sha256 dedupe_sha256 ''dedupe_sha256'' of
        Inl e \<Rightarrow> (Inl e, l)
      | Inr _ \<Rightarrow> (case create_claim open_fault write_fault dedupe_sha256 (mh_start_claims l) of
                    (r, c) \<Rightarrow> (r, l\<lparr>mh_start_claims := c\<rparr>)))"

definition mh_release_start :: "exn option \<Rightarrow> exn option \<Rightarrow> string \<Rightarrow> (macro_ledger, unit) action" where
  "mh_release_start open_fault write_fault dedupe_sha256 l =
     (case rl_validate_sha256 dedupe_sha256 ''dedupe_sha256'' of
        Inl e \<Rightarrow> (Inl e, l)
      | Inr _ \<Rightarrow> (case remove_claim open_fault write_fault dedupe_sha256 (mh_start_claims l) of
                    (r, c) \<Rightarrow> (r, l\<lparr>mh_start_claims := c\<rparr>)))"

definition mh_claim_run_id :: "exn option \<Rightarrow> exn option \<Rightarrow> string \<Rightarrow> (macro_ledger, bool) action" where
  "mh_claim_run_id open_fault write_fault run_sha l =
     (case rl_validate_sha256 run_sha ''run_id_sha256'' of
        Inl e \<Rightarrow> (Inl e, l)
      | Inr _ \<Rightarrow> (case create_claim open_fault write_fault run_sha (mh_run_claims l) of
                    (r, c) \<Rightarrow> (r, l\<lparr>mh_run_claims := c\<rparr>)))"

definition mh_release_run_id :: "exn option \<Rightarrow> exn option \<Rightarrow> string \<Rightarrow> (macro_ledger, unit) action" where
  "mh_release_run_id open_fault write_fault run_sha l =
     (case rl_validate_sha256 run_sha ''run_id_sha256'' of
        Inl e \<Rightarrow> (Inl e, l)
      | Inr _ \<Rightarrow> (case remove_claim open_fault write_fault run_sha (mh_run_claims l) of
                    (r, c) \<Rightarrow> (r, l\<lparr>mh_run_claims := c\<rparr>)))"

section \<open>Admission\<close>

definition start_scope_reason :: "trigger_observation \<Rightarrow> run_start_request \<Rightarrow> macro_plan \<Rightarrow> string option" where
  "start_scope_reason t q p =
     (if srq_trigger_observation_sha256 q \<noteq> observation_sha256 t then Some ''trigger_observation_hash_mismatch''
      else if srq_trigger_type q \<noteq> tob_trigger_type t then Some ''trigger_type_scope_mismatch''
      else if srq_source_id q \<noteq> tob_source_id t then Some ''trigger_source_scope_mismatch''
      else if srq_source_event_id q \<noteq> tob_source_event_id t then Some ''trigger_event_scope_mismatch''
      else if srq_macro_id q \<noteq> pl_macro_id p \<or> srq_macro_version q \<noteq> pl_macro_version p \<or> srq_plan_sha256 q \<noteq> plan_sha256 p
      then Some ''macro_plan_scope_mismatch''
      else if srq_dedupe_sha256 q \<noteq> dedupe_of t p then Some ''dedupe_scope_mismatch''
      else None)"

text \<open>The system calls of one part of an operation.\<close>

definition shift_faults :: "nat \<Rightarrow> call_faults \<Rightarrow> call_faults" where
  "shift_faults k io = (\<lambda>n. io (n + k))"

definition record_start ::
  "call_faults \<Rightarrow> start_status \<Rightarrow> string \<Rightarrow> run_start_request \<Rightarrow> run_start_policy \<Rightarrow> coordinated_run option \<Rightarrow>
     (macro_ledger, run_start_admission) action" where
  "record_start io status reason q a run =
     st_bind (st_result (str_init
       \<lparr>str_status = status, str_reason = reason, str_request_id = srq_request_id q, str_request_sha256 = request_sha256 q,
        str_run_id = srq_run_id q, str_run_id_sha256 = run_id_sha256 (srq_run_id q), str_macro_id = srq_macro_id q,
        str_macro_version = srq_macro_version q, str_plan_sha256 = srq_plan_sha256 q,
        str_trigger_observation_sha256 = srq_trigger_observation_sha256 q, str_trigger_type = srq_trigger_type q,
        str_source_id = srq_source_id q, str_source_event_id = srq_source_event_id q, str_dedupe_sha256 = srq_dedupe_sha256 q,
        str_policy_id = stp_policy_id a, str_policy_sha256 = start_policy_sha256 a,
        str_journal_head_sha256 = map_option cr_head_entry_sha256 run,
        str_run_state_sha256 = map_option (\<lambda>c. state_sha256 (cr_state c)) run,
        str_run_status = map_option (\<lambda>c. status_value (mrs_status (cr_state c))) run,
        str_operational_authority = False, str_action_authority = False, str_execution_authority = False,
        str_schema_version = RUN_START_RECEIPT_SCHEMA_VERSION\<rparr>)) (\<lambda>receipt.
     st_bind (mh_append_start (io 0) (io 1) receipt) (\<lambda>_. st_return \<lparr>sa_receipt = receipt, sa_run = run\<rparr>))"

text \<open>The \<open>try\<close> block of \<open>admit\<close>, with both claims won.\<close>

definition start_claimed ::
  "call_faults \<Rightarrow> run_start_request \<Rightarrow> run_start_policy \<Rightarrow> macro_plan \<Rightarrow> (macro_ledger, run_start_admission) action" where
  "start_claimed io q a p l =
     (case co_start_run io (srq_run_id q) p None l of
        (Inr run, l') \<Rightarrow> record_start (shift_faults 8 io) ST_STARTED ''start_request_admitted'' q a (Some run) l'
      | (Inl e, l') \<Rightarrow>
          if exn_class e \<noteq> MacroRunCoordinatorContractError then (Inl e, l')
          else
            (st_bind (mh_release_run_id (io 10) (io 11) (run_id_sha256 (srq_run_id q))) (\<lambda>_.
             st_bind (mh_release_start (io 12) (io 13) (srq_dedupe_sha256 q)) (\<lambda>_.
             st_bind (st_read (co_has_run (shift_faults 14 io) (srq_run_id q))) (\<lambda>exists.
             if exists then record_start (shift_faults 16 io) ST_HELD ''run_id_exists'' q a None
             else st_result (Inl e))))) l')"

definition admit ::
  "call_faults \<Rightarrow> trigger_observation \<Rightarrow> run_start_request \<Rightarrow> run_start_policy \<Rightarrow> macro_plan \<Rightarrow>
     (macro_ledger, run_start_admission) action" where
  "admit io t q a p =
     (let answer = (\<lambda>status reason. record_start io status reason q a None) in
      case start_scope_reason t q p of
        Some reason \<Rightarrow> answer ST_REJECTED reason
      | None \<Rightarrow>
          if \<not> stp_enabled a then answer ST_HELD ''start_policy_disabled''
          else if srq_trigger_type q \<notin> set (stp_allowed_trigger_types a) then answer ST_REJECTED ''trigger_type_not_allowed''
          else if srq_source_id q \<notin> set (stp_allowed_source_ids a) then answer ST_REJECTED ''trigger_source_not_allowed''
          else
            st_bind (st_read (co_has_run (shift_faults 2 io) (srq_run_id q))) (\<lambda>exists.
            if exists then answer ST_HELD ''run_id_exists''
            else
            st_bind (mh_claim_start (io 4) (io 5) (srq_dedupe_sha256 q)) (\<lambda>claimed.
            if \<not> claimed then answer ST_HELD ''trigger_already_admitted''
            else
            st_bind (mh_claim_run_id (io 6) (io 7) (run_id_sha256 (srq_run_id q))) (\<lambda>run_claimed.
            if \<not> run_claimed then
              st_bind (mh_release_start (io 8) (io 9) (srq_dedupe_sha256 q)) (\<lambda>_. answer ST_HELD ''run_id_claimed'')
            else start_claimed (shift_faults 10 io) q a p))))"

section \<open>The claims\<close>

definition start_claims_held :: "macro_ledger \<Rightarrow> string set" where
  "start_claims_held l = set (mh_start_claims l)"

definition run_claims_held :: "macro_ledger \<Rightarrow> string set" where
  "run_claims_held l = set (mh_run_claims l)"

interpretation start_claims: claim_store mh_claim_start mh_release_start start_claims_held
proof unfold_locales
  fix opf wrf k s s' e and r :: "unit result"
  show "mh_claim_start opf wrf k s = (Inr True, s') \<Longrightarrow>
      k \<notin> start_claims_held s \<and> start_claims_held s' = insert k (start_claims_held s)"
    by (auto simp: mh_claim_start_def start_claims_held_def dest: create_claim_props split: sum.splits prod.splits)
  show "mh_claim_start opf wrf k s = (Inr False, s') \<Longrightarrow> k \<in> start_claims_held s \<and> s' = s"
    by (auto simp: mh_claim_start_def start_claims_held_def dest!: create_claim_props split: sum.splits prod.splits)
  show "mh_claim_start opf wrf k s = (Inl e, s') \<Longrightarrow> start_claims_held s \<subseteq> start_claims_held s' \<and>
      start_claims_held s' \<subseteq> insert k (start_claims_held s)"
    by (auto simp: mh_claim_start_def start_claims_held_def dest!: create_claim_props split: sum.splits prod.splits)
  show "mh_release_start opf wrf k s = (r, s') \<Longrightarrow> start_claims_held s - {k} \<subseteq> start_claims_held s' \<and>
      start_claims_held s' \<subseteq> start_claims_held s"
    by (auto simp: mh_release_start_def start_claims_held_def dest!: remove_claim_props split: sum.splits prod.splits)
qed

interpretation run_claims: claim_store mh_claim_run_id mh_release_run_id run_claims_held
proof unfold_locales
  fix opf wrf k s s' e and r :: "unit result"
  show "mh_claim_run_id opf wrf k s = (Inr True, s') \<Longrightarrow>
      k \<notin> run_claims_held s \<and> run_claims_held s' = insert k (run_claims_held s)"
    by (auto simp: mh_claim_run_id_def run_claims_held_def dest: create_claim_props split: sum.splits prod.splits)
  show "mh_claim_run_id opf wrf k s = (Inr False, s') \<Longrightarrow> k \<in> run_claims_held s \<and> s' = s"
    by (auto simp: mh_claim_run_id_def run_claims_held_def dest!: create_claim_props split: sum.splits prod.splits)
  show "mh_claim_run_id opf wrf k s = (Inl e, s') \<Longrightarrow> run_claims_held s \<subseteq> run_claims_held s' \<and>
      run_claims_held s' \<subseteq> insert k (run_claims_held s)"
    by (auto simp: mh_claim_run_id_def run_claims_held_def dest!: create_claim_props split: sum.splits prod.splits)
  show "mh_release_run_id opf wrf k s = (r, s') \<Longrightarrow> run_claims_held s - {k} \<subseteq> run_claims_held s' \<and>
      run_claims_held s' \<subseteq> run_claims_held s"
    by (auto simp: mh_release_run_id_def run_claims_held_def dest!: remove_claim_props split: sum.splits prod.splits)
qed

text \<open>What the operations keep.\<close>

lemma claims_keep [keeps_intros]:
  "keeps mh_journal (mh_claim_start opf wrf k)" "keeps run_claims_held (mh_claim_start opf wrf k)"
  "keeps mh_journal (mh_release_start opf wrf k)" "keeps run_claims_held (mh_release_start opf wrf k)"
  "keeps mh_journal (mh_claim_run_id opf wrf k)" "keeps start_claims_held (mh_claim_run_id opf wrf k)"
  "keeps mh_journal (mh_release_run_id opf wrf k)" "keeps start_claims_held (mh_release_run_id opf wrf k)"
  by (auto simp: keeps_def mh_claim_start_def mh_release_start_def mh_claim_run_id_def mh_release_run_id_def
      start_claims_held_def run_claims_held_def split: sum.splits prod.splits)

lemma append_keeps [keeps_intros]:
  "keeps mh_journal (mh_append_start opf wrf r)" "keeps start_claims_held (mh_append_start opf wrf r)"
  "keeps run_claims_held (mh_append_start opf wrf r)"
  "keeps start_claims_held (mh_append_entry opf wrf e)" "keeps run_claims_held (mh_append_entry opf wrf e)"
  by (auto simp: keeps_def mh_append_start_def mh_append_entry_def start_claims_held_def run_claims_held_def split: prod.splits)

lemma record_keeps [keeps_intros]:
  "keeps mh_journal (record_start io status reason q a run)" "keeps start_claims_held (record_start io status reason q a run)"
  "keeps run_claims_held (record_start io status reason q a run)"
  unfolding record_start_def by (intro keeps_intros)+

lemma start_keeps [keeps_intros]:
  "keeps start_claims_held (co_start_run io run p inputs)" "keeps run_claims_held (co_start_run io run p inputs)"
  unfolding co_start_run_def append_state_def by (intro keeps_intros)+

lemma record_status: "record_start io status reason q a run l = (Inr x, l') \<Longrightarrow> str_status (sa_receipt x) = status \<and> sa_run x = run
    \<and> str_init (sa_receipt x) = Inr (sa_receipt x) \<and> str_journal_head_sha256 (sa_receipt x) = map_option cr_head_entry_sha256 run
    \<and> str_run_state_sha256 (sa_receipt x) = map_option (\<lambda>c. state_sha256 (cr_state c)) run \<and> str_dedupe_sha256 (sa_receipt x) = srq_dedupe_sha256 q
    \<and> str_run_id (sa_receipt x) = srq_run_id q"
  unfolding record_start_def
  by (elim st_bind_resultE st_bindE) (auto simp: str_init_def validated_Ok_iff st_return_def)

text \<open>What the policy and the scope ask of a request.\<close>

definition admissible :: "trigger_observation \<Rightarrow> run_start_request \<Rightarrow> run_start_policy \<Rightarrow> macro_plan \<Rightarrow> bool" where
  "admissible t q a p \<longleftrightarrow> start_scope_reason t q p = None \<and> stp_enabled a \<and> srq_trigger_type q \<in> set (stp_allowed_trigger_types a)
     \<and> srq_source_id q \<in> set (stp_allowed_source_ids a)"

text \<open>An admission either never gets to the coordinator, or it has won both claims.\<close>

lemma admit_cases:
  assumes "admit io t q a p l = (r, l')"
  obtains (declined) "start_claims_held l \<subseteq> start_claims_held l'" and "run_claims_held l \<subseteq> run_claims_held l'"
      and "\<And>x. r = Inr x \<Longrightarrow> str_status (sa_receipt x) \<noteq> ST_STARTED"
  | (entered) l1 where "admissible t q a p" and "co_has_run (shift_faults 2 io) (srq_run_id q) l = Inr False"
      and "mh_journal l1 = mh_journal l" and "srq_dedupe_sha256 q \<notin> start_claims_held l"
      and "start_claims_held l1 = insert (srq_dedupe_sha256 q) (start_claims_held l)"
      and "run_id_sha256 (srq_run_id q) \<notin> run_claims_held l"
      and "run_claims_held l1 = insert (run_id_sha256 (srq_run_id q)) (run_claims_held l)"
      and "start_claimed (shift_faults 10 io) q a p l1 = (r, l')"
proof -
  have answers: thesis if "record_start io status reason q a None l1 = (r, l')" and "status \<noteq> ST_STARTED"
    and "start_claims_held l \<subseteq> start_claims_held l1" and "run_claims_held l \<subseteq> run_claims_held l1" for status reason l1
    using declined keepsD [OF record_keeps(2) that(1)] keepsD [OF record_keeps(3) that(1)] record_status that by metis
  show thesis
  proof (cases "admissible t q a p")
    case False
    then obtain status reason where "record_start io status reason q a None l = (r, l')" "status \<noteq> ST_STARTED"
      using assms unfolding admit_def admissible_def Let_def by (auto split: option.splits if_splits)
    then show thesis using answers by blast
  next
    case True
    from assms [unfolded admit_def Let_def] True
    have "st_bind (st_read (co_has_run (shift_faults 2 io) (srq_run_id q))) (\<lambda>exists.
            if exists then record_start io ST_HELD ''run_id_exists'' q a None
            else
            st_bind (mh_claim_start (io 4) (io 5) (srq_dedupe_sha256 q)) (\<lambda>claimed.
            if \<not> claimed then record_start io ST_HELD ''trigger_already_admitted'' q a None
            else
            st_bind (mh_claim_run_id (io 6) (io 7) (run_id_sha256 (srq_run_id q))) (\<lambda>run_claimed.
            if \<not> run_claimed then
              st_bind (mh_release_start (io 8) (io 9) (srq_dedupe_sha256 q)) (\<lambda>_. record_start io ST_HELD ''run_id_claimed'' q a None)
            else start_claimed (shift_faults 10 io) q a p))) l = (r, l')" by (simp add: admissible_def)
    then show thesis
    proof (cases rule: st_bind_readE)
      case err
      then show ?thesis using declined by simp
    next
      case (ok has)
      show ?thesis
      proof (cases has)
        case True
        then show ?thesis using ok(2) answers by simp
      next
        case False
        then have fresh: "co_has_run (shift_faults 2 io) (srq_run_id q) l = Inr False" using ok(1) by simp
        from ok(2) [unfolded if_not_P [OF False]] show ?thesis
        proof (cases rule: st_bindE)
          case (err e)
          then show ?thesis
            using declined start_claims.claim_keeps keepsD [OF claims_keep(2) err(1)] by (metis Inl_Inr_False order_refl)
        next
          case (ok won l1)
          note kept1 = keepsD [OF claims_keep(1) ok(1)] keepsD [OF claims_keep(2) ok(1)]
          show ?thesis
          proof (cases won)
            case False
            then show ?thesis using ok answers start_claims.claim_lost by fastforce
          next
            case True
            then have won1: "srq_dedupe_sha256 q \<notin> start_claims_held l"
                "start_claims_held l1 = insert (srq_dedupe_sha256 q) (start_claims_held l)"
              using start_claims.claim_won ok(1) by auto
            from ok(2) True have "st_bind (mh_claim_run_id (io 6) (io 7) (run_id_sha256 (srq_run_id q))) (\<lambda>run_claimed.
              if \<not> run_claimed then
                st_bind (mh_release_start (io 8) (io 9) (srq_dedupe_sha256 q)) (\<lambda>_. record_start io ST_HELD ''run_id_claimed'' q a None)
              else start_claimed (shift_faults 10 io) q a p) l1 = (r, l')" by simp
            then show ?thesis
            proof (cases rule: st_bindE)
              case (err e)
              then show ?thesis
                using declined run_claims.claim_keeps [OF err(1)] keepsD [OF claims_keep(6) err(1)] won1 kept1 by auto
            next
              case (ok run_won l2)
              note kept2 = keepsD [OF claims_keep(5) ok(1)] keepsD [OF claims_keep(6) ok(1)]
              show ?thesis
              proof (cases run_won)
                case True
                then have "run_id_sha256 (srq_run_id q) \<notin> run_claims_held l1"
                    "run_claims_held l2 = insert (run_id_sha256 (srq_run_id q)) (run_claims_held l1)"
                  using run_claims.claim_won ok(1) by auto
                then show ?thesis
                  using entered [OF \<open>admissible t q a p\<close> fresh, of l2] won1 kept1 kept2 ok(2) True by simp
              next
                case False
                have "mh_claim_run_id (io 6) (io 7) (run_id_sha256 (srq_run_id q)) l1 = (Inr False, l2)" using ok(1) False by simp
                from run_claims.claim_lost [OF this] have same: "run_claims_held l2 = run_claims_held l1" by simp
                from ok(2) False have "st_bind (mh_release_start (io 8) (io 9) (srq_dedupe_sha256 q))
                    (\<lambda>_. record_start io ST_HELD ''run_id_claimed'' q a None) l2 = (r, l')" by simp
                then show ?thesis
                proof (cases rule: st_bindE)
                  case (err e)
                  then show ?thesis
                    using declined start_claims.release_held [OF err(1)] keepsD [OF claims_keep(4) err(1)] won1 kept1 kept2 same by auto
                next
                  case (ok u l3)
                  show ?thesis
                    using answers [OF ok(2)] start_claims.release_held [OF ok(1)] keepsD [OF claims_keep(4) ok(1)] won1 kept1 kept2 same by auto
                qed
              qed
            qed
          qed
        qed
      qed
    qed
  qed
qed

lemma start_claimed_cases:
  assumes "start_claimed io q a p l = (r, l')"
  obtains (started) run l1 where "co_start_run io (srq_run_id q) p None l = (Inr run, l1)"
      and "record_start (shift_faults 8 io) ST_STARTED ''start_request_admitted'' q a (Some run) l1 = (r, l')"
  | (escaped) e where "co_start_run io (srq_run_id q) p None l = (Inl e, l')" and "r = Inl e"
  | (released) "start_claims_held l - {srq_dedupe_sha256 q} \<subseteq> start_claims_held l'"
      and "run_claims_held l - {run_id_sha256 (srq_run_id q)} \<subseteq> run_claims_held l'"
      and "\<And>x. r = Inr x \<Longrightarrow> str_status (sa_receipt x) \<noteq> ST_STARTED"
proof (cases "co_start_run io (srq_run_id q) p None l")
  case (Pair c l1)
  note claims = keepsD [OF start_keeps(1) Pair] keepsD [OF start_keeps(2) Pair]
  show thesis
  proof (cases c)
    case (Inr run)
    then show thesis using started assms Pair by (simp add: start_claimed_def)
  next
    case (Inl e)
    show thesis
    proof (cases "exn_class e = MacroRunCoordinatorContractError")
      case False
      then show thesis using escaped assms Pair Inl by (simp add: start_claimed_def)
    next
      case True
      from assms Pair Inl True have "st_bind (mh_release_run_id (io 10) (io 11) (run_id_sha256 (srq_run_id q))) (\<lambda>_.
             st_bind (mh_release_start (io 12) (io 13) (srq_dedupe_sha256 q)) (\<lambda>_.
             st_bind (st_read (co_has_run (shift_faults 14 io) (srq_run_id q))) (\<lambda>exists.
             if exists then record_start (shift_faults 16 io) ST_HELD ''run_id_exists'' q a None
             else st_result (Inl e)))) l1 = (r, l')" by (simp add: start_claimed_def)
      then show thesis
      proof (cases rule: st_bindE)
        case (err x)
        then show thesis
          using released run_claims.release_held [OF err(1)] keepsD [OF claims_keep(8) err(1)] claims by auto
      next
        case (ok u l2)
        note first = run_claims.release_held [OF ok(1)] keepsD [OF claims_keep(8) ok(1)]
        from ok(2) show thesis
        proof (cases rule: st_bindE)
          case (err x)
          then show thesis
            using released start_claims.release_held [OF err(1)] keepsD [OF claims_keep(4) err(1)] claims first by auto
        next
          case (ok u' l3)
          note second = start_claims.release_held [OF ok(1)] keepsD [OF claims_keep(4) ok(1)]
          from ok(2) show thesis
          proof (cases rule: st_bind_readE)
            case (err x)
            then show thesis using released claims first second by auto
          next
            case (ok has)
            show thesis
            proof (cases has)
              case True
              then have rec: "record_start (shift_faults 16 io) ST_HELD ''run_id_exists'' q a None l3 = (r, l')" using ok(2) by simp
              have "str_status (sa_receipt x) \<noteq> ST_STARTED" if "r = Inr x" for x
                using record_status [OF rec [unfolded that]] by simp
              then show thesis
                using released keepsD [OF record_keeps(2) rec] keepsD [OF record_keeps(3) rec] claims first second by auto
            next
              case False
              then show thesis using ok(2) released claims first second by (auto simp: st_result_def)
            qed
          qed
        qed
      qed
    qed
  qed
qed

lemma same_journal:
  assumes "mh_journal l' = mh_journal l"
  shows "same_history l l'"
  unfolding same_history_def mh_entries_def assms by (intro allI refl)

text \<open>Admissions, one after the other.\<close>

fun admits :: "(call_faults \<times> trigger_observation \<times> run_start_request \<times> run_start_policy \<times> macro_plan) list \<Rightarrow> macro_ledger \<Rightarrow> macro_ledger" where
  "admits [] l = l"
| "admits ((io, t, q, a, p) # rest) l = admits rest (snd (admit io t q a p l))"

lemma admit_claims:
  assumes "admit io t q a p l = (r, l')"
  shows "start_claims_held l \<subseteq> start_claims_held l'" and "run_claims_held l \<subseteq> run_claims_held l'"
    and "r = Inr x \<Longrightarrow> str_status (sa_receipt x) = ST_STARTED \<Longrightarrow> srq_dedupe_sha256 q \<in> start_claims_held l' - start_claims_held l
      \<and> run_id_sha256 (srq_run_id q) \<in> run_claims_held l' - run_claims_held l"
proof -
  have "start_claims_held l \<subseteq> start_claims_held l' \<and> run_claims_held l \<subseteq> run_claims_held l'
    \<and> (r = Inr x \<and> str_status (sa_receipt x) = ST_STARTED \<longrightarrow> srq_dedupe_sha256 q \<in> start_claims_held l' - start_claims_held l
      \<and> run_id_sha256 (srq_run_id q) \<in> run_claims_held l' - run_claims_held l)"
    using assms
  proof (cases rule: admit_cases)
    case declined
    then show ?thesis by blast
  next
    case (entered l1)
    note won = entered(4-7)
    from entered(8) show ?thesis
    proof (cases rule: start_claimed_cases)
      case (started run l2)
      have "start_claims_held l' = start_claims_held l1" "run_claims_held l' = run_claims_held l1"
        using keepsD [OF start_keeps(1) started(1)] keepsD [OF start_keeps(2) started(1)]
          keepsD [OF record_keeps(2) started(2)] keepsD [OF record_keeps(3) started(2)] by simp_all
      then show ?thesis using won by auto
    next
      case (escaped e)
      have "start_claims_held l' = start_claims_held l1" "run_claims_held l' = run_claims_held l1"
        using keepsD [OF start_keeps(1) escaped(1)] keepsD [OF start_keeps(2) escaped(1)] by simp_all
      then show ?thesis using won escaped(2) by auto
    next
      case released
      then show ?thesis using won by blast
    qed
  qed
  then show "start_claims_held l \<subseteq> start_claims_held l'" "run_claims_held l \<subseteq> run_claims_held l'"
    "r = Inr x \<Longrightarrow> str_status (sa_receipt x) = ST_STARTED \<Longrightarrow> srq_dedupe_sha256 q \<in> start_claims_held l' - start_claims_held l
      \<and> run_id_sha256 (srq_run_id q) \<in> run_claims_held l' - run_claims_held l" by blast+
qed

lemma admits_claims: "start_claims_held l \<subseteq> start_claims_held (admits later l) \<and> run_claims_held l \<subseteq> run_claims_held (admits later l)"
proof (induction later arbitrary: l)
  case (Cons c later)
  obtain io t q a p where c: "c = (io, t, q, a, p)" by (cases c)
  have "start_claims_held l \<subseteq> start_claims_held (snd (admit io t q a p l))" "run_claims_held l \<subseteq> run_claims_held (snd (admit io t q a p l))"
    using admit_claims(1,2) [of io t q a p l "fst (admit io t q a p l)" "snd (admit io t q a p l)"] by simp_all
  then show ?case using Cons.IH [of "snd (admit io t q a p l)"] by (auto simp: c)
qed simp

lemma claimed_never_starts:
  assumes "srq_dedupe_sha256 q \<in> start_claims_held l \<or> run_id_sha256 (srq_run_id q) \<in> run_claims_held l"
    and "admit io t q a p (admits later l) = (Inr y, l')"
  shows "str_status (sa_receipt y) \<noteq> ST_STARTED"
  using admit_claims(3) [OF assms(2) refl] admits_claims [of l later] assms(1) by blast

section \<open>Properties\<close>

text \<open>C21: A request starts at most one run, and a run is started at most once.  After an admission answered STARTED,
  no later one is, of the same observation and plan or of the same run, whatever the request is called,
  whatever other admissions come between, and wherever they fail.\<close>

theorem start_admitted_once:
  assumes "admit io t q a p l = (Ok x, l1)" and "str_status (sa_receipt x) = ST_STARTED"
    and "admit io' t' q' a' p' (admits later l1) = (Ok y, l2)"
    and "srq_dedupe_sha256 q' = srq_dedupe_sha256 q \<or> srq_run_id q' = srq_run_id q"
  shows "str_status (sa_receipt y) \<noteq> ST_STARTED"
proof -
  have "srq_dedupe_sha256 q' \<in> start_claims_held l1 \<or> run_id_sha256 (srq_run_id q') \<in> run_claims_held l1"
    using admit_claims(3) [OF assms(1) refl assms(2)] assms(4) by auto
  then show ?thesis using claimed_never_starts assms(3) by blast
qed

text \<open>C23: A run is started only for a request in scope.  When \<open>admit\<close> answers STARTED, the request names the observation
  and the plan by their digests, the policy is enabled and lists its trigger type and its source, the run
  had no entry, and the receipt, without any authority, cites the head and the state of the run that can
  now be reconstructed.\<close>

theorem started_run_was_admitted:
  assumes "honest io" and "admit io t q a p l = (Ok x, l')" and "str_status (sa_receipt x) = ST_STARTED"
  shows "srq_trigger_observation_sha256 q = observation_sha256 t \<and> srq_plan_sha256 q = plan_sha256 p \<and> srq_dedupe_sha256 q = dedupe_of t p
    \<and> stp_enabled a \<and> tob_trigger_type t \<in> set (stp_allowed_trigger_types a) \<and> tob_source_id t \<in> set (stp_allowed_source_ids a)
    \<and> load_and_validate None (srq_run_id q) l = Ok []
    \<and> (\<exists>c. reconstruct None (srq_run_id q) p l' = Ok c \<and> str_journal_head_sha256 (sa_receipt x) = Some (entry_sha256 (re_head_entry c))
        \<and> str_run_state_sha256 (sa_receipt x) = Some (state_sha256 (re_state c)))
    \<and> \<not> str_operational_authority (sa_receipt x) \<and> \<not> str_action_authority (sa_receipt x) \<and> \<not> str_execution_authority (sa_receipt x)"
  using assms(2)
proof (cases rule: admit_cases)
  case declined
  then show ?thesis using assms(3) by blast
next
  case (entered l1)
  have shifted: "honest (shift_faults k io)" for k using assms(1) by (auto simp: honest_def shift_faults_def)
  from entered(8) show ?thesis
  proof (cases rule: start_claimed_cases)
    case (started run l2)
    note receipt = record_status [OF started(2)]
    have "co_call (shift_faults 10 io) (srq_run_id q) p (StartCall None) l1 = (Inr run, l2)" using started(1) by simp
    from persisted [OF shifted this] obtain c where c: "reconstruct None (srq_run_id q) p l2 = Inr c"
        "entry_sha256 (re_head_entry c) = cr_head_entry_sha256 run" "state_sha256 (re_state c) = state_sha256 (cr_state run)" by blast
    have "same_history l2 l'" by (rule same_journal [OF keepsD [OF record_keeps(1) started(2)]])
    then have rec: "reconstruct None (srq_run_id q) p l' = Inr c" using c(1) same_history_reconstruct by simp
    have fresh: "load_and_validate None (srq_run_id q) l = Inr []" by (rule new_run_empty [OF shifted entered(2)])
    have "\<not> str_operational_authority (sa_receipt x) \<and> \<not> str_action_authority (sa_receipt x) \<and> \<not> str_execution_authority (sa_receipt x)"
      using receipt by (simp add: str_init_def validated_Ok_iff first_error_Ok_Cons)
    then show ?thesis
      using entered(1) rec fresh receipt c(2,3) by (auto simp: admissible_def start_scope_reason_def split: if_splits)
  next
    case (released)
    then show ?thesis using assms(3) by blast
  qed simp
qed

text \<open>C30: Only one class of failure gives the claims back.  When the coordinator fails before the run exists, with any error
  but its own, such as a full disk or a record over the limit, \<open>admit\<close> raises and keeps both claims: no run
  was created, and no later admission of that observation and plan, or of that run, ever starts one.\<close>

theorem failed_start_keeps_claims:
  assumes "admissible t q a p" and "co_has_run (shift_faults 2 io) (srq_run_id q) l = Ok False"
    and "mh_claim_start (io 4) (io 5) (srq_dedupe_sha256 q) l = (Ok True, l1)"
    and "mh_claim_run_id (io 6) (io 7) (run_id_sha256 (srq_run_id q)) l1 = (Ok True, l2)"
    and "co_start_run (shift_faults 10 io) (srq_run_id q) p None l2 = (Inl e, l3)" and "exn_class e \<noteq> MacroRunCoordinatorContractError"
    and "admit io' t' q' a' p' (admits later l3) = (Ok y, l4)"
    and "srq_dedupe_sha256 q' = srq_dedupe_sha256 q \<or> srq_run_id q' = srq_run_id q"
  shows "admit io t q a p l = (Inl e, l3) \<and> str_status (sa_receipt y) \<noteq> ST_STARTED"
proof
  show "admit io t q a p l = (Inl e, l3)"
    using assms(1-6) by (simp add: admit_def admissible_def start_claimed_def st_bind_def st_read_def Let_def)
  have "srq_dedupe_sha256 q \<in> start_claims_held l3" "run_id_sha256 (srq_run_id q) \<in> run_claims_held l3"
    using start_claims.claim_won [OF assms(3)] run_claims.claim_won [OF assms(4)] keepsD [OF claims_keep(6) assms(4)]
      keepsD [OF start_keeps(1) assms(5)] keepsD [OF start_keeps(2) assms(5)] by auto
  then have "srq_dedupe_sha256 q' \<in> start_claims_held l3 \<or> run_id_sha256 (srq_run_id q') \<in> run_claims_held l3" using assms(8) by auto
  then show "str_status (sa_receipt y) \<noteq> ST_STARTED" using claimed_never_starts assms(7) by blast
qed

section \<open>Samples\<close>

text \<open>A plan without instructions, an observation, two requests that differ in the run, and a policy.\<close>

definition idle_plan :: macro_plan where
  "idle_plan = \<lparr>pl_macro_id = ''macro'', pl_macro_version = ''1'', pl_definition_sha256 = canonical_sha256 JNull, pl_instructions = [],
     pl_operational_authority = False, pl_action_authority = False, pl_execution_authority = False,
     pl_schema_version = MACRO_PLAN_SCHEMA_VERSION\<rparr>"

definition sample_observation :: trigger_observation where
  "sample_observation = \<lparr>tob_observation_id = ''seen'', tob_trigger_type = ''timer'', tob_source_id = ''clock'',
     tob_source_event_id = ''tick'', tob_observed_at = ''2025-01-01T00:00:00+00:00'', tob_payload_sha256 = canonical_sha256 JNull,
     tob_evidence_ref_sha256s = [], tob_operational_authority = False, tob_action_authority = False,
     tob_execution_authority = False, tob_schema_version = TRIGGER_OBSERVATION_SCHEMA_VERSION\<rparr>"

definition sample_start_request :: "string \<Rightarrow> run_start_request" where
  "sample_start_request run = \<lparr>srq_request_id = ''ask'', srq_run_id = run, srq_macro_id = ''macro'', srq_macro_version = ''1'',
     srq_plan_sha256 = plan_sha256 idle_plan, srq_trigger_observation_sha256 = observation_sha256 sample_observation,
     srq_trigger_type = ''timer'', srq_source_id = ''clock'', srq_source_event_id = ''tick'',
     srq_dedupe_sha256 = dedupe_of sample_observation idle_plan, srq_requested_at = ''2025-01-01T00:00:00+00:00'',
     srq_operational_authority = False, srq_action_authority = False, srq_execution_authority = False,
     srq_schema_version = RUN_START_REQUEST_SCHEMA_VERSION\<rparr>"

definition sample_start_policy :: run_start_policy where
  "sample_start_policy = \<lparr>stp_policy_id = ''policy'', stp_allowed_trigger_types = [''timer''], stp_allowed_source_ids = [''clock''],
     stp_enabled = True, stp_operational_authority = False, stp_action_authority = False, stp_execution_authority = False,
     stp_schema_version = RUN_START_POLICY_SCHEMA_VERSION\<rparr>"

lemma sample_admissible: "admissible sample_observation (sample_start_request run) sample_start_policy idle_plan"
  by (simp add: admissible_def start_scope_reason_def sample_start_request_def sample_observation_def sample_start_policy_def idle_plan_def)

lemma idle_small: "small_plan idle_plan"
  by (simp add: small_plan_def idle_plan_def plan_named_def plain_text_def is_control_def)

lemma sample_digests: "rl_validate_sha256 (canonical_sha256 j) f = Inr ()"
  by (rule validate_digest) simp

text \<open>A receipt for such a request is written.\<close>

definition starts_readable :: "macro_ledger \<Rightarrow> bool" where
  "starts_readable l \<longleftrightarrow> (\<exists>rows. read_jsonl None (mh_starts l) = Inr rows)"

lemma sample_recorded:
  assumes "starts_readable l" and "run = ''run'' \<or> run = ''other''" and "plain_text 30 reason"
    and "case c of None \<Rightarrow> True | Some c \<Rightarrow> is_sha256 (cr_head_entry_sha256 c)"
  obtains x l' where "record_start no_faults status reason (sample_start_request run) sample_start_policy c l = (Inr x, l')"
    and "str_status (sa_receipt x) = status" and "starts_readable l'"
proof -
  let ?q = "sample_start_request run"
  let ?r = "\<lparr>str_status = status, str_reason = reason, str_request_id = srq_request_id ?q, str_request_sha256 = request_sha256 ?q,
        str_run_id = srq_run_id ?q, str_run_id_sha256 = run_id_sha256 (srq_run_id ?q), str_macro_id = srq_macro_id ?q,
        str_macro_version = srq_macro_version ?q, str_plan_sha256 = srq_plan_sha256 ?q,
        str_trigger_observation_sha256 = srq_trigger_observation_sha256 ?q, str_trigger_type = srq_trigger_type ?q,
        str_source_id = srq_source_id ?q, str_source_event_id = srq_source_event_id ?q, str_dedupe_sha256 = srq_dedupe_sha256 ?q,
        str_policy_id = stp_policy_id sample_start_policy, str_policy_sha256 = start_policy_sha256 sample_start_policy,
        str_journal_head_sha256 = map_option cr_head_entry_sha256 c,
        str_run_state_sha256 = map_option (\<lambda>c. state_sha256 (cr_state c)) c,
        str_run_status = map_option (\<lambda>c. status_value (mrs_status (cr_state c))) c,
        str_operational_authority = False, str_action_authority = False, str_execution_authority = False,
        str_schema_version = RUN_START_RECEIPT_SCHEMA_VERSION\<rparr>"
  have digests: "is_sha256 (request_sha256 ?q)" "is_sha256 (run_id_sha256 run)" "is_sha256 (plan_sha256 idle_plan)"
    "is_sha256 (observation_sha256 sample_observation)" "is_sha256 (dedupe_of sample_observation idle_plan)"
    "is_sha256 (start_policy_sha256 sample_start_policy)"
    by (simp_all add: request_sha256_def run_id_sha256_def plan_sha256_def observation_sha256_def dedupe_of_def start_policy_sha256_def)
  then have lengths: "length (request_sha256 ?q) = 64" "length (run_id_sha256 run) = 64" "length (plan_sha256 idle_plan) = 64"
    "length (observation_sha256 sample_observation) = 64" "length (dedupe_of sample_observation idle_plan) = 64"
    "length (start_policy_sha256 sample_start_policy) = 64"
    by (simp_all add: is_sha256_def)
  have text': "sg_require_text s f m = Inr () \<longleftrightarrow> plain_text m s" "sg_require_sha256 s f = Inr () \<longleftrightarrow> is_sha256 s" for s f m
    by (simp_all add: sg_require_text_def sg_require_sha256_def discard_Ok_iff result_simps)
  have short: "plain_text 512 reason" "length reason \<le> 30" using assms(3) by (simp_all add: plain_text_def)
  have run: "plain_text 512 run" "length run \<le> 5" using assms(2) by (auto simp: plain_text_def is_control_def)
  have status: "plain_text 64 (status_value st)" "length (status_value st) \<le> 64" for st
    using plain_text_status(2) [of st] by (simp_all add: plain_text_def)
  have init: "str_init ?r = Inr ?r"
    using digests short run status(1) assms(4)
    by (cases c) (simp_all add: str_init_def validated_Ok_iff first_error_Ok_Cons first_error_Ok_Nil text' sg_optional_def sample_start_request_def
      sample_start_policy_def is_sha256_state plain_text_def is_control_def)
  have opts: "weight (jopt (map_option cr_head_entry_sha256 c)) \<le> 390 \<and> weight (jopt (map_option (\<lambda>c. state_sha256 (cr_state c)) c)) \<le> 390
    \<and> weight (jopt (map_option (\<lambda>c. status_value (mrs_status (cr_state c))) c)) \<le> 390"
  proof (cases c)
    case (Some c')
    have "length (cr_head_entry_sha256 c') = 64" using assms(4) Some by (simp add: is_sha256_def)
    then show ?thesis using Some digest_lengths(1) [of "cr_state c'"] status(2) [of "mrs_status (cr_state c')"] by simp
  qed simp
  have "weight (JStr (start_value status)) \<le> 60" by (cases status) simp_all
  note opts = opts [THEN conjunct1] opts [THEN conjunct2, THEN conjunct1] opts [THEN conjunct2, THEN conjunct2] this
  have "length (start_receipt_sha256 ?r) = 64" by (simp add: start_receipt_sha256_def)
  then have "weight (JObj (str_to_dict ?r)) \<le> 20000"
    using lengths short(2) run(2) opts
    by (simp add: str_to_dict_def str_body_def sample_start_request_def sample_start_policy_def RUN_START_RECEIPT_SCHEMA_VERSION_def)
  then have "\<exists>data. sio_encode (str_to_dict ?r) = Inr data" by (intro sio_encode_fits) (simp add: MAX_RECORD_BYTES_def)
  then obtain data where fits: "sio_encode (str_to_dict ?r) = Inr data" by blast
  obtain rows where "sio_rows (case mh_starts l of None \<Rightarrow> [] | Some ls \<Rightarrow> ls) = Inr rows"
    using assms(1) by (auto simp: starts_readable_def read_jsonl_def sio_rows_def split: option.splits)
  then obtain f where app: "append_jsonl None None (mh_starts l) (str_to_dict ?r) None = (Inr True, f)"
    using fits by (simp add: append_jsonl_def Let_def)
  then obtain rows' where "read_jsonl None f = Inr rows'" by (rule append_plain_reads)
  moreover have "record_start no_faults status reason ?q sample_start_policy c l = (Inr \<lparr>sa_receipt = ?r, sa_run = c\<rparr>, l\<lparr>mh_starts := f\<rparr>)"
    using init app by (simp add: record_start_def st_bind_def st_result_def st_return_def mh_append_start_def discard_def no_faults_def)
  ultimately show thesis using that by (simp add: starts_readable_def)
qed

text \<open>The run of the idle plan completes at once; its two states differ in status, unless they collide.\<close>

definition idle_collision :: bool where
  "idle_collision \<longleftrightarrow> (\<exists>s t. runner_start idle_plan = Ok s \<and> advance idle_plan s None (int MAX_ADVANCE_TRANSITIONS) = Ok t
     \<and> sha256_collision (utf8 (dumps (JObj (mrs_body s)))) (utf8 (dumps (JObj (mrs_body t)))))"

lemma idle_completed:
  assumes "runner_start idle_plan = Inr s"
  obtains t where "advance idle_plan s None (int MAX_ADVANCE_TRANSITIONS) = Inr t" and "mrs_status t = RS_COMPLETED" and "mrs_init t = Inr t"
    and "validate_plan_state idle_plan t = Inr ()" and "weight (JObj (mrs_to_dict t)) \<le> 5000"
proof -
  let ?t = "\<lparr>mrs_macro_id = ''macro'', mrs_macro_version = ''1'', mrs_plan_sha256 = plan_sha256 idle_plan,
      mrs_cursor = 0, mrs_status = RS_COMPLETED, mrs_reason = ''plan_completed'', mrs_loop_iterations = [],
      mrs_foreach_indices = [], mrs_variables = Some [], mrs_waiting_on = Some [], mrs_last_instruction_path = None,
      mrs_transitions = 0, mrs_operational_authority = False, mrs_action_authority = False, mrs_execution_authority = False,
      mrs_schema_version = MACRO_RUN_STATE_SCHEMA_VERSION\<rparr>"
  have digest: "is_sha256 (plan_sha256 idle_plan)" by (simp add: plan_sha256_def)
  then have init: "mrs_init ?t = Inr ?t"
    unfolding mrs_init_valid by (simp add: plain_text_def is_control_def)
  have "run_state idle_plan 0 RS_COMPLETED ''plan_completed'' start_env [] = Inr ?t"
    using init by (simp add: run_state_def start_env_def) (simp add: idle_plan_def)
  moreover have "index_inputs no_inputs = Inr \<lparr>ix_conditions = [], ix_operations = [], ix_approvals = [], ix_calls = [], ix_checkpoints = [],
      ix_collections = []\<rparr>" by (simp add: index_inputs_def no_inputs_def)
  moreover have "pl_instructions idle_plan = []" by (simp add: idle_plan_def)
  ultimately have "advance idle_plan s None (int MAX_ADVANCE_TRANSITIONS) = Inr ?t"
    using started [OF assms] by (simp add: advance_def TERMINAL_STATUSES_def MAX_ADVANCE_TRANSITIONS_def advance_loop.simps)
  moreover have "weight (JObj (mrs_to_dict ?t)) \<le> 5000"
    by (simp add: mrs_to_dict_def mrs_body_def digest_lengths counter_pairs_def MACRO_RUN_STATE_SCHEMA_VERSION_def show_int_def show_nat.simps)
  moreover have "validate_plan_state idle_plan ?t = Inr ()"
    by (simp add: validate_plan_state_def first_error.simps(2)) (simp add: idle_plan_def)
  ultimately show thesis using that [of ?t] init by simp
qed

lemma idle_start:
  assumes "mh_journal l0 = None" and "\<not> idle_collision"
  obtains c l where "co_start_run no_faults ''run'' idle_plan None l0 = (Inr c, l)" and "is_sha256 (cr_head_entry_sha256 c)"
    and "mh_entries None ''other'' l = Inr []" and "mh_starts l = mh_starts l0"
proof -
  obtain s e l where s: "runner_start idle_plan = Inr s" "append_state None None None ''run'' idle_plan s None [] l0 = (Inr e, l)"
      "mrs_status s = RS_READY" "mrs_transitions s = 0" "load_and_validate None ''run'' l = Inr [stored_entry e]"
    using sample_started [OF idle_small assms(1)] .
  obtain t where t: "advance idle_plan s None (int MAX_ADVANCE_TRANSITIONS) = Inr t" "mrs_status t = RS_COMPLETED"
      "mrs_init t = Inr t" "validate_plan_state idle_plan t = Inr ()" "weight (JObj (mrs_to_dict t)) \<le> 5000"
    using idle_completed [OF s(1)] .
  have "canon (dget (mrs_body s) ''status'') \<noteq> canon (dget (mrs_body t) ''status'')" using s(3) t(2) by (simp add: mrs_body_def)
  from distinct_states [OF this] assms(2) s(1) t(1) have differ: "state_sha256 t \<noteq> state_sha256 s" unfolding idle_collision_def by blast
  have read: "state_from_dict (jn_state (stored_entry e)) = Inr (canonical_state s)"
    using appended_chain(5) [OF no_journal_loaded [OF assms(1)] _ s(2)] by simp
  obtain e' l' where second: "append_state None None None ''run'' idle_plan t (Some (entry_sha256 e)) [] l = (Inr e', l')"
    using sample_second [OF idle_small t(3,4,5) s(5) read, of "[]"] s(3,4) differ by auto
  have fresh: "co_has_run no_faults ''run'' l0 = Inr False"
    by (simp add: co_has_run_def co_validate_run_id_def has_run_def mh_entries_def assms(1) jr_checkers_Ok_iff rbind_Ok_iff
        result_simps plain_text_def is_control_def)
  have "meaningful_progress s t" using s(3) t(2) by (simp add: meaningful_progress_def)
  then have "co_start_run no_faults ''run'' idle_plan None l0 = (Inr \<lparr>cr_run_id = ''run'', cr_state = t,
      cr_head_entry_sha256 = entry_sha256 e', cr_entry_count = 2, cr_changed = True\<rparr>, l')"
    using fresh s(1,2) t(1) second
    by (simp add: co_start_run_def st_bind_def st_read_def st_result_def st_return_def no_faults_def evidence_refs_def)
  moreover have "mh_entries None ''other'' l0 = Inr []" using assms(1) by (simp add: mh_entries_def)
  then have "mh_entries None ''other'' l' = Inr []"
    using append_state_elsewhere [OF second, of "''other''"] append_state_elsewhere [OF s(2), of "''other''"] by simp
  moreover have "mh_starts l' = mh_starts l" if "append_state None None None ''run'' idle_plan u x [] l = (Inr y, l')" for u x y l l'
    using that by (elim append_stateE) (auto simp: mh_append_entry_def split: prod.splits)
  ultimately show thesis using that s(2) second by (auto simp: entry_sha256_def)
qed

lemma sample_claims: "mh_claim_start None None (dedupe_of sample_observation idle_plan) l
    = (if dedupe_of sample_observation idle_plan \<in> start_claims_held l then (Inr False, l)
       else (Inr True, l\<lparr>mh_start_claims := dedupe_of sample_observation idle_plan # mh_start_claims l\<rparr>))"
  "mh_claim_run_id None None (run_id_sha256 run) l
    = (if run_id_sha256 run \<in> run_claims_held l then (Inr False, l) else (Inr True, l\<lparr>mh_run_claims := run_id_sha256 run # mh_run_claims l\<rparr>))"
  by (simp_all add: mh_claim_start_def mh_claim_run_id_def create_claim_def dedupe_of_def run_id_sha256_def sample_digests
      start_claims_held_def run_claims_held_def)

text \<open>A request for the other run, when the observation has been claimed.\<close>

lemma sample_held:
  assumes "starts_readable l" and "mh_entries None ''other'' l = Inr []" and "dedupe_of sample_observation idle_plan \<in> start_claims_held l"
  obtains y l' where "admit no_faults sample_observation (sample_start_request ''other'') sample_start_policy idle_plan l = (Inr y, l')"
proof -
  obtain y l' where y: "record_start no_faults ST_HELD ''trigger_already_admitted'' (sample_start_request ''other'') sample_start_policy None l = (Inr y, l')"
    by (rule sample_recorded [OF assms(1), of "''other''" "''trigger_already_admitted''" None ST_HELD]) (auto simp: plain_text_def is_control_def)
  have "co_has_run (shift_faults 2 no_faults) ''other'' l = Inr False"
    by (simp add: co_has_run_def co_validate_run_id_def has_run_def assms(2) jr_checkers_Ok_iff rbind_Ok_iff shift_faults_def no_faults_def
        result_simps plain_text_def is_control_def)
  then have "admit no_faults sample_observation (sample_start_request ''other'') sample_start_policy idle_plan l = (Inr y, l')"
    using y sample_admissible [of "''other''"] assms(3)
    by (simp add: admit_def admissible_def Let_def st_bind_def st_read_def sample_claims no_faults_def sample_start_request_def)
  then show thesis by (rule that)
qed

lemma sample_admitted:
  assumes "\<not> idle_collision"
  obtains x l where "admit no_faults sample_observation (sample_start_request ''run'') sample_start_policy idle_plan no_runs = (Inr x, l)"
    and "str_status (sa_receipt x) = ST_STARTED" and "starts_readable l" and "mh_entries None ''other'' l = Inr []"
proof -
  let ?l0 = "no_runs\<lparr>mh_start_claims := [dedupe_of sample_observation idle_plan], mh_run_claims := [run_id_sha256 ''run'']\<rparr>"
  have "mh_journal ?l0 = None" by (simp add: no_runs_def)
  from idle_start [OF this assms] obtain c l where c: "co_start_run no_faults ''run'' idle_plan None ?l0 = (Inr c, l)"
      "is_sha256 (cr_head_entry_sha256 c)" "mh_entries None ''other'' l = Inr []" "mh_starts l = mh_starts ?l0" .
  have readable: "starts_readable l" using c(4) by (simp add: starts_readable_def no_runs_def read_jsonl_def)
  obtain x l' where x: "record_start no_faults ST_STARTED ''start_request_admitted'' (sample_start_request ''run'') sample_start_policy (Some c) l = (Inr x, l')"
      "str_status (sa_receipt x) = ST_STARTED" "starts_readable l'"
    by (rule sample_recorded [OF readable, of "''run''" "''start_request_admitted''" "Some c" ST_STARTED])
      (use c(2) in \<open>auto simp: plain_text_def is_control_def\<close>)
  have shifts: "shift_faults k no_faults = no_faults" for k by (simp add: shift_faults_def no_faults_def)
  have none: "no_faults n = None" for n by (simp add: no_faults_def)
  have q: "srq_run_id (sample_start_request ''run'') = ''run''" "srq_dedupe_sha256 (sample_start_request ''run'') = dedupe_of sample_observation idle_plan"
    by (simp_all add: sample_start_request_def)
  have "co_has_run no_faults ''run'' no_runs = Inr False"
    by (simp add: co_has_run_def co_validate_run_id_def has_run_def mh_entries_def no_runs_def jr_checkers_Ok_iff rbind_Ok_iff
        result_simps plain_text_def is_control_def)
  then have "admit no_faults sample_observation (sample_start_request ''run'') sample_start_policy idle_plan no_runs = (Inr x, l')"
    using sample_admissible [of "''run''"] c(1) x(1)
    by (simp add: admit_def admissible_def Let_def st_bind_def st_read_def shifts none q sample_claims start_claimed_def start_claims_held_def
        run_claims_held_def) (simp add: no_runs_def shifts)
  moreover have "mh_entries None ''other'' l' = Inr []"
    using same_journal [OF keepsD [OF record_keeps(1) x(1)]] c(3) by (simp add: same_history_def)
  ultimately show thesis using that x(2,3) by blast
qed

theorem start_admitted_once_witness:
  "idle_collision \<or> (\<exists>x y l1 l2.
     admit no_faults sample_observation (sample_start_request ''run'') sample_start_policy idle_plan no_runs = (Ok x, l1)
     \<and> str_status (sa_receipt x) = ST_STARTED
     \<and> admit no_faults sample_observation (sample_start_request ''other'') sample_start_policy idle_plan l1 = (Ok y, l2)
     \<and> str_status (sa_receipt y) \<noteq> ST_STARTED)"
proof (cases idle_collision)
  case False
  then obtain x l1 where x: "admit no_faults sample_observation (sample_start_request ''run'') sample_start_policy idle_plan no_runs = (Inr x, l1)"
      "str_status (sa_receipt x) = ST_STARTED" "starts_readable l1" "mh_entries None ''other'' l1 = Inr []"
    by (rule sample_admitted)
  have "dedupe_of sample_observation idle_plan \<in> start_claims_held l1"
    using admit_claims(3) [OF x(1) refl x(2)] by (simp add: sample_start_request_def)
  then obtain y l2 where y: "admit no_faults sample_observation (sample_start_request ''other'') sample_start_policy idle_plan l1 = (Inr y, l2)"
    using sample_held x(3,4) by blast
  have "admit no_faults sample_observation (sample_start_request ''other'') sample_start_policy idle_plan (admits [] l1) = (Inr y, l2)" using y by simp
  from start_admitted_once [OF x(1,2) this] x y show ?thesis by (auto simp: sample_start_request_def)
qed simp

theorem started_run_was_admitted_witness:
  "idle_collision \<or> (\<exists>x l c.
     admit no_faults sample_observation (sample_start_request ''run'') sample_start_policy idle_plan no_runs = (Ok x, l)
     \<and> str_status (sa_receipt x) = ST_STARTED \<and> reconstruct None ''run'' idle_plan l = Ok c
     \<and> str_journal_head_sha256 (sa_receipt x) = Some (entry_sha256 (re_head_entry c)))"
proof (cases idle_collision)
  case False
  then obtain x l where x: "admit no_faults sample_observation (sample_start_request ''run'') sample_start_policy idle_plan no_runs = (Inr x, l)"
      "str_status (sa_receipt x) = ST_STARTED" by (rule sample_admitted)
  from started_run_was_admitted [OF no_faults_honest this] x show ?thesis by (auto simp: sample_start_request_def)
qed simp

text \<open>The journal cannot be opened for the first entry.\<close>

definition full_disk :: call_faults where
  "full_disk = (\<lambda>n. if n = 13 then Some (Exn PyOSError ''No space left on device'') else None)"

theorem failed_start_keeps_claims_witness:
  "\<exists>l y l'. admit full_disk sample_observation (sample_start_request ''run'') sample_start_policy idle_plan no_runs
       = (raise PyOSError ''No space left on device'', l)
     \<and> mh_journal l = None \<and> admit no_faults sample_observation (sample_start_request ''other'') sample_start_policy idle_plan l = (Ok y, l')
     \<and> str_status (sa_receipt y) \<noteq> ST_STARTED"
proof -
  let ?d = "dedupe_of sample_observation idle_plan" and ?k = "run_id_sha256 ''run''"
  let ?l1 = "no_runs\<lparr>mh_start_claims := [?d]\<rparr>" and ?l2 = "no_runs\<lparr>mh_start_claims := [?d], mh_run_claims := [?k]\<rparr>"
  have claims: "mh_claim_start (full_disk 4) (full_disk 5) (srq_dedupe_sha256 (sample_start_request ''run'')) no_runs = (Ok True, ?l1)"
    "mh_claim_run_id (full_disk 6) (full_disk 7) (run_id_sha256 (srq_run_id (sample_start_request ''run''))) ?l1 = (Ok True, ?l2)"
    by (simp_all add: sample_claims full_disk_def sample_start_request_def start_claims_held_def run_claims_held_def no_runs_def)
  have fresh: "co_has_run (shift_faults k full_disk) (srq_run_id (sample_start_request ''run'')) l = Ok False" if "mh_journal l = None" for k l
    using that
    by (simp add: co_has_run_def co_validate_run_id_def has_run_def mh_entries_def jr_checkers_Ok_iff rbind_Ok_iff sample_start_request_def
        result_simps plain_text_def is_control_def)
  have none: "mh_journal ?l2 = None" by (simp add: no_runs_def)
  from sample_started [OF idle_small none] obtain s e data where s: "runner_start idle_plan = Inr s"
      "prepare_entry None ''run'' idle_plan s None [] ?l2 = Inr e" "sio_encode (jn_to_dict e) = Inr data" by metis
  have "mh_append_entry (Some (Exn PyOSError ''No space left on device'')) None e ?l2
      = (raise PyOSError ''No space left on device'', ?l2)"
    using s(3) none by (simp add: mh_append_entry_def append_jsonl_def discard_def)
  then have fails: "co_start_run (shift_faults 10 full_disk) (srq_run_id (sample_start_request ''run'')) idle_plan None ?l2
      = (raise PyOSError ''No space left on device'', ?l2)"
    using s(1,2) fresh [OF none, of 10]
    by (simp add: co_start_run_def append_state_def st_bind_def st_read_def st_result_def shift_faults_def full_disk_def sample_start_request_def)
  have "starts_readable ?l2" "mh_entries None ''other'' ?l2 = Inr []" "?d \<in> start_claims_held ?l2"
    by (simp_all add: starts_readable_def mh_entries_def no_runs_def read_jsonl_def start_claims_held_def)
  from sample_held [OF this] obtain y l' where
    y: "admit no_faults sample_observation (sample_start_request ''other'') sample_start_policy idle_plan ?l2 = (Inr y, l')" .
  then have "admit no_faults sample_observation (sample_start_request ''other'') sample_start_policy idle_plan (admits [] ?l2) = (Inr y, l')" by simp
  from failed_start_keeps_claims [OF sample_admissible fresh [OF no_runs_journal] claims fails _ this] y none
  show ?thesis by (auto simp: sample_start_request_def)
qed

end
