(* ===== verification/Macro_Spine_Bridge.thy ===== *)
theory Macro_Spine_Bridge
  imports Leased_Handoff Macro_Graph
begin

text \<open>
  \<open>phios/macro_spine_bridge.py\<close>: one LIVE operation of a macro goes through the leased hand-over of
  \<open>Leased_Handoff\<close>, if it is exactly the action that was bound and leased, and an append-only receipt
  ties the operation to the receipt of the hand-over.  The receipt files of \<open>phios/spine/ledger.py\<close>
  that this and the dispatcher write stand beside the spine in a \<open>dispatch_state\<close>; an append is one
  more use of the disk, so it draws the next fault of the spine's environment.
\<close>

definition MACRO_SPINE_BINDING_SCHEMA_VERSION :: string where
  "MACRO_SPINE_BINDING_SCHEMA_VERSION = ''phios.macro_spine_binding.v0.2''"

definition MACRO_SPINE_RECEIPT_SCHEMA_VERSION :: string where
  "MACRO_SPINE_RECEIPT_SCHEMA_VERSION = ''phios.macro_spine_receipt.v0.2''"

definition operation_capability_id :: "operation \<Rightarrow> string result" where
  "operation_capability_id o' =
     (if op_adapter_id o' = ''phios.spine'' then Ok (op_action o')
      else if op_adapter_id o' = ''desktop.interaction'' \<and> op_action o' = ''click'' then Ok ''desktop.interaction.click''
      else raise MacroSpineBridgeContractError ''macro operation adapter/action has no governed Spine capability mapping'')"

definition msb_text :: "string \<Rightarrow> string \<Rightarrow> nat \<Rightarrow> unit result" where
  "msb_text v field maximum = discard (require_text MacroSpineBridgeContractError (JStr v) field maximum)"

definition msb_sha256 :: "string \<Rightarrow> string \<Rightarrow> unit result" where
  "msb_sha256 v field = discard (require_sha256 MacroSpineBridgeContractError (JStr v) field)"

section \<open>Bindings\<close>

record macro_spine_binding =
  msb_macro_id :: string
  msb_macro_version :: string
  msb_operation_id :: string
  msb_operation_version :: string
  msb_operation_hash :: string
  msb_plan_id :: string
  msb_plan_state_sha256 :: string
  msb_action_binding_sha256 :: string
  msb_capability_id :: string
  msb_payload_sha256 :: string
  msb_action_lease_sha256 :: string
  msb_operational_authority :: bool
  msb_action_authority :: bool
  msb_execution_authority :: bool
  msb_schema_version :: string

definition msb_init :: "macro_spine_binding \<Rightarrow> macro_spine_binding result" where
  "msb_init b = validated
     [ensure (msb_schema_version b = MACRO_SPINE_BINDING_SCHEMA_VERSION) MacroSpineBridgeContractError
        ''unsupported macro spine binding schema'',
      msb_text (msb_macro_id b) ''macro_id'' 256,
      msb_text (msb_macro_version b) ''macro_version'' 128,
      msb_text (msb_operation_id b) ''operation_id'' 256,
      msb_text (msb_operation_version b) ''operation_version'' 128,
      msb_text (msb_plan_id b) ''plan_id'' 256,
      msb_text (msb_capability_id b) ''capability_id'' 256,
      msb_sha256 (msb_operation_hash b) ''operation_hash'',
      msb_sha256 (msb_plan_state_sha256 b) ''plan_state_sha256'',
      msb_sha256 (msb_action_binding_sha256 b) ''action_binding_sha256'',
      msb_sha256 (msb_payload_sha256 b) ''payload_sha256'',
      msb_sha256 (msb_action_lease_sha256 b) ''action_lease_sha256'',
      ensure (\<not> (msb_operational_authority b \<or> msb_action_authority b \<or> msb_execution_authority b))
        MacroSpineBridgeContractError ''macro spine binding cannot carry authority''] b"

definition msb_body :: "macro_spine_binding \<Rightarrow> (string \<times> json) list" where
  "msb_body b =
     [(''schema_version'', JStr (msb_schema_version b)),
      (''macro_id'', JStr (msb_macro_id b)),
      (''macro_version'', JStr (msb_macro_version b)),
      (''operation_id'', JStr (msb_operation_id b)),
      (''operation_version'', JStr (msb_operation_version b)),
      (''operation_hash'', JStr (msb_operation_hash b)),
      (''plan_id'', JStr (msb_plan_id b)),
      (''plan_state_sha256'', JStr (msb_plan_state_sha256 b)),
      (''action_binding_sha256'', JStr (msb_action_binding_sha256 b)),
      (''capability_id'', JStr (msb_capability_id b)),
      (''payload_sha256'', JStr (msb_payload_sha256 b)),
      (''action_lease_sha256'', JStr (msb_action_lease_sha256 b)),
      (''operational_authority'', JBool (msb_operational_authority b)),
      (''action_authority'', JBool (msb_action_authority b)),
      (''execution_authority'', JBool (msb_execution_authority b))]"

definition msb_binding_sha256 :: "macro_spine_binding \<Rightarrow> string" where
  "msb_binding_sha256 b = canonical_sha256 (JObj (msb_body b))"

definition msb_to_dict :: "macro_spine_binding \<Rightarrow> json" where
  "msb_to_dict b = sealed_dict ''binding_sha256'' (msb_body b)"

definition msb_build ::
  "string \<Rightarrow> string \<Rightarrow> operation \<Rightarrow> plan_state \<Rightarrow> plan_action_binding \<Rightarrow> action_lease \<Rightarrow> macro_spine_binding result" where
  "msb_build macro_id macro_version o' plan b l = msb_init
     \<lparr>msb_macro_id = macro_id, msb_macro_version = macro_version, msb_operation_id = op_operation_id o',
      msb_operation_version = op_operation_version o', msb_operation_hash = operation_hash o',
      msb_plan_id = ps_plan_id plan, msb_plan_state_sha256 = ps_state_sha256 plan,
      msb_action_binding_sha256 = pb_binding_sha256 b, msb_capability_id = pb_capability_id b,
      msb_payload_sha256 = pb_payload_sha256 b, msb_action_lease_sha256 = action_lease_sha256 l,
      msb_operational_authority = False, msb_action_authority = False, msb_execution_authority = False,
      msb_schema_version = MACRO_SPINE_BINDING_SCHEMA_VERSION\<rparr>"

section \<open>Receipts\<close>

record macro_spine_receipt =
  msr_status :: string
  msr_reason :: string
  msr_macro_id :: string
  msr_macro_version :: string
  msr_operation_id :: string
  msr_operation_hash :: string
  msr_macro_spine_binding_sha256 :: string
  msr_action_binding_sha256 :: string
  msr_action_lease_sha256 :: string
  msr_leased_handoff_receipt_sha256 :: string
  msr_spine_receipt_id :: "string option"
  msr_spine_execution_status :: "string option"
  msr_lease_consumed :: bool
  msr_replay_blocked :: bool
  msr_operational_authority :: bool
  msr_action_authority :: bool
  msr_execution_authority :: bool
  msr_effect_performed :: bool
  msr_schema_version :: string

definition msr_init :: "macro_spine_receipt \<Rightarrow> macro_spine_receipt result" where
  "msr_init r = validated
     [ensure (msr_schema_version r = MACRO_SPINE_RECEIPT_SCHEMA_VERSION) MacroSpineBridgeContractError
        ''unsupported macro spine receipt schema'',
      msb_text (msr_status r) ''status'' 64,
      msb_text (msr_reason r) ''reason'' 256,
      msb_text (msr_macro_id r) ''macro_id'' 256,
      msb_text (msr_macro_version r) ''macro_version'' 128,
      msb_text (msr_operation_id r) ''operation_id'' 256,
      msb_sha256 (msr_operation_hash r) ''operation_hash'',
      msb_sha256 (msr_macro_spine_binding_sha256 r) ''macro_spine_binding_sha256'',
      msb_sha256 (msr_action_binding_sha256 r) ''action_binding_sha256'',
      msb_sha256 (msr_action_lease_sha256 r) ''action_lease_sha256'',
      msb_sha256 (msr_leased_handoff_receipt_sha256 r) ''leased_handoff_receipt_sha256'',
      (case msr_spine_receipt_id r of None \<Rightarrow> Ok () | Some i \<Rightarrow> msb_text i ''spine_receipt_id'' 256),
      (case msr_spine_execution_status r of None \<Rightarrow> Ok () | Some st \<Rightarrow> msb_text st ''spine_execution_status'' 64),
      ensure (\<not> (msr_operational_authority r \<or> msr_action_authority r \<or> msr_execution_authority r \<or> msr_effect_performed r))
        MacroSpineBridgeContractError ''macro spine receipt cannot grant authority or claim effects''] r"

definition msr_body :: "macro_spine_receipt \<Rightarrow> (string \<times> json) list" where
  "msr_body r =
     [(''schema_version'', JStr (msr_schema_version r)),
      (''status'', JStr (msr_status r)),
      (''reason'', JStr (msr_reason r)),
      (''macro_id'', JStr (msr_macro_id r)),
      (''macro_version'', JStr (msr_macro_version r)),
      (''operation_id'', JStr (msr_operation_id r)),
      (''operation_hash'', JStr (msr_operation_hash r)),
      (''macro_spine_binding_sha256'', JStr (msr_macro_spine_binding_sha256 r)),
      (''action_binding_sha256'', JStr (msr_action_binding_sha256 r)),
      (''action_lease_sha256'', JStr (msr_action_lease_sha256 r)),
      (''leased_handoff_receipt_sha256'', JStr (msr_leased_handoff_receipt_sha256 r)),
      (''spine_receipt_id'', jopt (msr_spine_receipt_id r)),
      (''spine_execution_status'', jopt (msr_spine_execution_status r)),
      (''lease_consumed'', JBool (msr_lease_consumed r)),
      (''replay_blocked'', JBool (msr_replay_blocked r)),
      (''operational_authority'', JBool (msr_operational_authority r)),
      (''action_authority'', JBool (msr_action_authority r)),
      (''execution_authority'', JBool (msr_execution_authority r)),
      (''effect_performed'', JBool (msr_effect_performed r))]"

definition msr_receipt_sha256 :: "macro_spine_receipt \<Rightarrow> string" where
  "msr_receipt_sha256 r = canonical_sha256 (JObj (msr_body r))"

definition msr_to_dict :: "macro_spine_receipt \<Rightarrow> (string \<times> json) list" where
  "msr_to_dict r = msr_body r @ [(''receipt_sha256'', JStr (msr_receipt_sha256 r))]"

section \<open>The receipt files\<close>

record dispatch_state =
  ds_spine :: spine
  ds_macro_receipts :: state_file
  ds_dispatch_receipts :: state_file

definition on_spine :: "'a act \<Rightarrow> (dispatch_state, 'a) action" where
  "on_spine m = (\<lambda>s. case m (ds_spine s) of (r, sp) \<Rightarrow> (r, s\<lparr>ds_spine := sp\<rparr>))"

definition disk_used :: "dispatch_state \<Rightarrow> dispatch_state" where
  "disk_used s = s\<lparr>ds_spine := (ds_spine s)\<lparr>sp_io := Suc (sp_io (ds_spine s))\<rparr>\<rparr>"

definition append_macro_receipt :: "env \<Rightarrow> (string \<times> json) list \<Rightarrow> (dispatch_state, unit) action" where
  "append_macro_receipt env receipt = (\<lambda>s.
     case append_jsonl (en_open env (sp_io (ds_spine s))) (en_write env (sp_io (ds_spine s))) (ds_macro_receipts s) receipt None of
       (r, f) \<Rightarrow> (discard r, (disk_used s)\<lparr>ds_macro_receipts := f\<rparr>))"

definition recent_macro_receipts :: "exn option \<Rightarrow> json \<Rightarrow> dispatch_state \<Rightarrow> (string \<times> json) list list result" where
  "recent_macro_receipts open_fault limit s = recent_of ''recent macro receipt'' open_fault (ds_macro_receipts s) limit"

definition append_macro_dispatch_receipt :: "env \<Rightarrow> (string \<times> json) list \<Rightarrow> (dispatch_state, unit) action" where
  "append_macro_dispatch_receipt env receipt = (\<lambda>s.
     case append_jsonl (en_open env (sp_io (ds_spine s))) (en_write env (sp_io (ds_spine s))) (ds_dispatch_receipts s) receipt None of
       (r, f) \<Rightarrow> (discard r, (disk_used s)\<lparr>ds_dispatch_receipts := f\<rparr>))"

definition recent_macro_dispatch_receipts :: "exn option \<Rightarrow> json \<Rightarrow> dispatch_state \<Rightarrow> (string \<times> json) list list result" where
  "recent_macro_dispatch_receipts open_fault limit s =
     recent_of ''recent macro dispatch receipt'' open_fault (ds_dispatch_receipts s) limit"

section \<open>The bridge\<close>

text \<open>\<open>_validate_scope\<close>; the last two dicts are compared field by field.\<close>

definition bridge_scope :: "operation \<Rightarrow> macro_spine_binding \<Rightarrow> leased_request \<Rightarrow> unit result" where
  "bridge_scope o' mb q =
     (let b = lq_binding q; supplied = canonical_sha256 (JObj (lq_payload q)) in
      rbind (operation_capability_id o') (\<lambda>expected. first_error
        [ensure (expected = pb_capability_id b) MacroSpineBridgeContractError
           ''macro operation adapter/action does not match bound Spine capability'',
         ensure (op_required_capabilities o' = pb_permissions_requested b) MacroSpineBridgeContractError
           ''macro operation capabilities must equal bound permissions'',
         ensure (canonical_sha256 (JObj (op_inputs o')) = supplied) MacroSpineBridgeContractError
           ''macro operation inputs differ from supplied execution payload'',
         ensure (supplied = pb_payload_sha256 b) MacroSpineBridgeContractError
           ''macro execution payload differs from action binding'',
         ensure (msb_operation_id mb = op_operation_id o' \<and> msb_operation_version mb = op_operation_version o'
             \<and> msb_operation_hash mb = operation_hash o' \<and> msb_plan_id mb = ps_plan_id (lq_plan q)
             \<and> msb_plan_state_sha256 mb = ps_state_sha256 (lq_plan q)
             \<and> msb_action_binding_sha256 mb = pb_binding_sha256 b \<and> msb_capability_id mb = pb_capability_id b
             \<and> msb_payload_sha256 mb = pb_payload_sha256 b \<and> msb_action_lease_sha256 mb = lease_sha256 q)
           MacroSpineBridgeContractError ''macro Spine binding does not match current execution scope'']))"

definition str_member :: "(string \<times> json) list \<Rightarrow> string \<Rightarrow> string option" where
  "str_member d k = (case dget d k of JStr v \<Rightarrow> Some v | _ \<Rightarrow> None)"

definition spine_outcome :: "json option \<Rightarrow> string option \<times> string option" where
  "spine_outcome inner = (case inner of
     Some (JObj d) \<Rightarrow> (str_member d ''spine_receipt_id'', str_member d ''spine_execution_status'')
   | _ \<Rightarrow> (None, None))"

definition bridge_receipt :: "operation \<Rightarrow> macro_spine_binding \<Rightarrow> leased_request \<Rightarrow> leased_receipt \<Rightarrow> macro_spine_receipt result" where
  "bridge_receipt o' mb q h = msr_init
     \<lparr>msr_status = lx_status h, msr_reason = lx_reason h, msr_macro_id = msb_macro_id mb,
      msr_macro_version = msb_macro_version mb, msr_operation_id = op_operation_id o',
      msr_operation_hash = operation_hash o', msr_macro_spine_binding_sha256 = msb_binding_sha256 mb,
      msr_action_binding_sha256 = pb_binding_sha256 (lq_binding q), msr_action_lease_sha256 = lease_sha256 q,
      msr_leased_handoff_receipt_sha256 = lx_receipt_sha256 h,
      msr_spine_receipt_id = fst (spine_outcome (lx_inner_handoff h)),
      msr_spine_execution_status = snd (spine_outcome (lx_inner_handoff h)),
      msr_lease_consumed = lx_lease_consumed h, msr_replay_blocked = lx_replay_blocked h,
      msr_operational_authority = False, msr_action_authority = False, msr_execution_authority = False,
      msr_effect_performed = False, msr_schema_version = MACRO_SPINE_RECEIPT_SCHEMA_VERSION\<rparr>"

definition bridge_execute ::
  "env \<Rightarrow> execution_mode \<Rightarrow> operation \<Rightarrow> macro_spine_binding \<Rightarrow> leased_request \<Rightarrow> (dispatch_state, macro_spine_receipt) action" where
  "bridge_execute env mode o' mb q =
     st_bind (st_result (ensure (mode = LIVE) MacroSpineBridgeContractError ''v0.2 Spine bridge accepts LIVE execution only'')) (\<lambda>_.
     st_bind (st_result (bridge_scope o' mb q)) (\<lambda>_.
     st_bind (on_spine (lh_execute env q)) (\<lambda>h.
     st_bind (st_result (bridge_receipt o' mb q h)) (\<lambda>receipt.
     st_bind (append_macro_receipt env (msr_to_dict receipt)) (\<lambda>_. st_return receipt)))))"

section \<open>What the parts do\<close>

lemma on_spineE:
  assumes "on_spine m s = (r, s')"
  obtains sp where "m (ds_spine s) = (r, sp)" and "s' = s\<lparr>ds_spine := sp\<rparr>"
  using assms by (auto simp: on_spine_def split: prod.splits)

lemma disk_used_simps [simp]:
  "ds_spine (disk_used s) = (ds_spine s)\<lparr>sp_io := Suc (sp_io (ds_spine s))\<rparr>"
  "ds_macro_receipts (disk_used s) = ds_macro_receipts s" "ds_dispatch_receipts (disk_used s) = ds_dispatch_receipts s"
  by (simp_all add: disk_used_def)

text \<open>The row an acknowledged append leaves at the end of a file.\<close>

definition appended :: "state_file \<Rightarrow> (string \<times> json) list \<Rightarrow> state_file \<Rightarrow> bool" where
  "appended f row f' \<longleftrightarrow> (\<exists>rows. read_jsonl None f = Inr rows \<and> read_jsonl None f' = Inr (rows @ [stored row]))"

lemma append_jsonl_appended: "append_jsonl opf wrf f row None = (Inr b, f') \<Longrightarrow> appended f row f'"
  unfolding appended_def by (elim append_plain_reads) blast

lemma append_receipt_cases:
  "append_macro_receipt env row s = (r, s') \<Longrightarrow> ds_spine s' = (ds_spine s)\<lparr>sp_io := Suc (sp_io (ds_spine s))\<rparr>
     \<and> ds_dispatch_receipts s' = ds_dispatch_receipts s
     \<and> (r = Inr () \<longrightarrow> appended (ds_macro_receipts s) row (ds_macro_receipts s'))"
  "append_macro_dispatch_receipt env row s = (r, s') \<Longrightarrow> ds_spine s' = (ds_spine s)\<lparr>sp_io := Suc (sp_io (ds_spine s))\<rparr>
     \<and> ds_macro_receipts s' = ds_macro_receipts s
     \<and> (r = Inr () \<longrightarrow> appended (ds_dispatch_receipts s) row (ds_dispatch_receipts s'))"
  unfolding append_macro_receipt_def append_macro_dispatch_receipt_def
  by (auto simp: discard_Ok_iff split: prod.splits dest: append_jsonl_appended)

lemma bridge_scope_Ok_iff:
  "bridge_scope o' mb q = Inr () \<longleftrightarrow> operation_capability_id o' = Inr (pb_capability_id (lq_binding q))
     \<and> op_required_capabilities o' = pb_permissions_requested (lq_binding q)
     \<and> input_hash o' = pb_payload_sha256 (lq_binding q) \<and> canonical_sha256 (JObj (lq_payload q)) = pb_payload_sha256 (lq_binding q)
     \<and> msb_operation_id mb = op_operation_id o' \<and> msb_operation_version mb = op_operation_version o'
     \<and> msb_operation_hash mb = operation_hash o' \<and> msb_plan_id mb = ps_plan_id (lq_plan q)
     \<and> msb_plan_state_sha256 mb = ps_state_sha256 (lq_plan q)
     \<and> msb_action_binding_sha256 mb = pb_binding_sha256 (lq_binding q) \<and> msb_capability_id mb = pb_capability_id (lq_binding q)
     \<and> msb_payload_sha256 mb = pb_payload_sha256 (lq_binding q) \<and> msb_action_lease_sha256 mb = lease_sha256 q"
  unfolding bridge_scope_def Let_def rbind_Ok_iff first_error_Ok_Cons first_error_Ok_Nil ensure_Ok_iff input_hash_def by auto

lemma bridge_execute_cases:
  assumes "bridge_execute env mode o' mb q s = (r, s')"
  obtains (refused) e where "r = Inl e" and "s' = s"
  | (handed) rh sp where "mode = LIVE" and "bridge_scope o' mb q = Inr ()" and "lh_execute env q (ds_spine s) = (rh, sp)"
    and "ds_spine s' = sp \<or> ds_spine s' = sp\<lparr>sp_io := Suc (sp_io sp)\<rparr>" and "ds_dispatch_receipts s' = ds_dispatch_receipts s"
    and "\<And>x. r = Inr x \<Longrightarrow> \<exists>h. rh = Inr h \<and> bridge_receipt o' mb q h = Inr x
      \<and> appended (ds_macro_receipts s) (msr_to_dict x) (ds_macro_receipts s')"
proof -
  from assms show thesis unfolding bridge_execute_def
  proof (elim st_bindE, goal_cases)
    case (3 u1 s1 u2 s2 e)
    then have ok: "mode = LIVE" "bridge_scope o' mb q = Inr ()" and on: "on_spine (lh_execute env q) s = (Inl e, s')"
      by (auto simp: st_result_def)
    from on obtain sp where "lh_execute env q (ds_spine s) = (Inl e, sp)" "s' = s\<lparr>ds_spine := sp\<rparr>" by (rule on_spineE)
    then show ?case using ok 3(4) by (intro handed [of "Inl e" sp]) simp_all
  next
    case (4 u1 s1 u2 s2 h s3 e)
    then have ok: "mode = LIVE" "bridge_scope o' mb q = Inr ()" and on: "on_spine (lh_execute env q) s = (Inr h, s')"
      by (auto simp: st_result_def)
    from on obtain sp where "lh_execute env q (ds_spine s) = (Inr h, sp)" "s' = s\<lparr>ds_spine := sp\<rparr>" by (rule on_spineE)
    then show ?case using ok 4(5) by (intro handed [of "Inr h" sp]) simp_all
  next
    case (5 u1 s1 u2 s2 h s3 x s4 e)
    then have ok: "mode = LIVE" "bridge_scope o' mb q = Inr ()" and on: "on_spine (lh_execute env q) s = (Inr h, s4)"
      by (auto simp: st_result_def)
    from on obtain sp where "lh_execute env q (ds_spine s) = (Inr h, sp)" "s4 = s\<lparr>ds_spine := sp\<rparr>" by (rule on_spineE)
    then show ?case using ok 5(6) append_receipt_cases(1) [OF 5(5)] by (intro handed [of "Inr h" sp]) simp_all
  next
    case (6 u1 s1 u2 s2 h s3 x s4 u3 s5)
    then have ok: "mode = LIVE" "bridge_scope o' mb q = Inr ()" and on: "on_spine (lh_execute env q) s = (Inr h, s4)"
        and x: "bridge_receipt o' mb q h = Inr x" and r: "r = Inr x" "s5 = s'"
      by (auto simp: st_result_def st_return_def)
    from on obtain sp where "lh_execute env q (ds_spine s) = (Inr h, sp)" "s4 = s\<lparr>ds_spine := sp\<rparr>" by (rule on_spineE)
    then show ?case using ok x r append_receipt_cases(1) [OF 6(5)] by (intro handed [of "Inr h" sp]) simp_all
  qed (auto simp: st_result_def intro: refused)
qed

section \<open>Hand-overs that report success\<close>

text \<open>A run whose receipt says that the execution succeeded called a handler, and the handler returned an artifact.\<close>

lemma after_handler_succeeded:
  assumes "after_handler env c packet d gate r (Inr out) s = (Inr x, s')" and "xc_execution_status x = ''succeeded''"
  shows "\<exists>a. out = Artifact a"
  using assms unfolding after_handler_def act_result_def
  by (cases out) (auto dest: run_failed_returns run_unknown_returns)

lemma spine_run_succeeded:
  assumes run: "spine_run env cid payload prov s = (Inr x, s')"
    and "xc_permission_status x = ''allowed''" and "xc_execution_status x = ''succeeded''"
  obtains c h a where "cr_get (sp_registry s) cid = Inr c" and "set (cap_permissions c) \<subseteq> set (sp_allowed s)"
    and "xr_handler (sp_executors s) (cap_id c) = Inr h" and "h (length (sp_entries s)) payload = Artifact a"
    and "sp_entries s' = sp_entries s @ [\<lparr>he_capability_id = cap_id c, he_payload = payload, he_provenance = prov\<rparr>]"
  using run
proof (cases rule: spine_run_cases)
  case quiet
  then show thesis using assms(2,3) by (auto simp: refused_receipt_def)
next
  case (entered c h packet gate receipt s1)
  note facts = entered [unfolded entered_at_def]
  let ?e = "\<lparr>he_capability_id = cap_id c, he_payload = payload, he_provenance = prov\<rparr>"
  have after: "after_handler env c packet (pg_evaluate (sp_allowed s) c) gate (receipt\<lparr>xc_executor_entered := True\<rparr>)
      (Inr (h (length (sp_entries s)) payload)) (s1\<lparr>sp_entries := sp_entries s1 @ [?e]\<rparr>) = (Inr x, s')"
    using facts by blast
  from quietD [OF quiet_after_handler after] facts have "sp_entries s' = sp_entries s @ [?e]" by (simp add: steady_def)
  moreover obtain a where "h (length (sp_entries s)) payload = Artifact a" using after_handler_succeeded [OF after assms(3)] ..
  ultimately show thesis using that facts by blast
qed

lemma gh_run_succeeded:
  assumes "gh_run env q s = (Inr x, s')" and "hx_status x = ''SUCCEEDED''"
  obtains y where "spine_run env (pb_capability_id (hq_binding q)) (hq_payload q) (handoff_prov q) s = (Inr y, s')"
    and "xc_permission_status y = ''allowed''" and "xc_execution_status y = ''succeeded''"
    and "x = handoff_receipt q ''SUCCEEDED'' ''spine_execution_succeeded'' True False (Some y)"
proof -
  obtain r s1 where run: "spine_run env (pb_capability_id (hq_binding q)) (hq_payload q) (handoff_prov q) s = (r, s1)" by fastforce
  then obtain y where y: "r = Inr y" "gh_conclude env q y s1 = (Inr x, s')"
    using assms(1) by (cases r) (auto simp: gh_run_def act_result_def elim!: act_bindE split: if_splits)
  then obtain st re consumed where out: "handoff_outcome y = Inr (st, re, consumed)"
    and x: "x = handoff_receipt q st re consumed False (Some y)"
    and left: "(if consumed then act_return () else release_claim env q) s1 = (Inr (), s')"
    unfolding gh_conclude_def by (auto elim!: act_bindE simp: act_result_def act_return_def)
  moreover have "st = ''SUCCEEDED''" using assms(2) x by (simp add: handoff_receipt_def Let_def)
  ultimately show thesis using that run y left by (auto simp: handoff_outcome_def act_return_def split: if_splits)
qed

lemma gh_execute_succeeded:
  assumes "gh_execute env q s = (Inr x, s')" and "hx_status x = ''SUCCEEDED''"
  obtains c h a where "cr_get (sp_registry s) (pb_capability_id (hq_binding q)) = Inr c" and "set (cap_permissions c) \<subseteq> set (sp_allowed s)"
    and "cap_permissions c = pb_permissions_requested (hq_binding q)"
    and "xr_handler (sp_executors s) (cap_id c) = Inr h" and "h (length (sp_entries s)) (hq_payload q) = Artifact a"
    and "sp_entries s' = sp_entries s @ [handoff_entry q (cap_id c)]" and "hx_binding_consumed x"
  using assms(1)
proof (cases rule: gh_execute_cases)
  case (checked r')
  then have "gh_check env q s = (Inr (Some x), s')" by auto
  then show thesis using assms(2) by (auto elim!: gh_check_held simp: held_receipt_facts)
next
  case (refused r' s1)
  from refused(2) show thesis
    by (cases rule: gh_claim_cases) (use refused assms(2) in \<open>auto simp: held_receipt_facts\<close>)
next
  case (ran s1 s2)
  have "calm s1 s2" using ran(2) by (cases rule: gh_claim_cases)
  then have same: "sp_registry s2 = sp_registry s" "sp_executors s2 = sp_executors s" "sp_allowed s2 = sp_allowed s"
      "sp_entries s2 = sp_entries s"
    using quietD [OF quiet_check ran(1)] by (simp_all add: steady_def calm_def)
  obtain y where y: "spine_run env (pb_capability_id (hq_binding q)) (hq_payload q) (handoff_prov q) s2 = (Inr y, s')"
      "xc_permission_status y = ''allowed''" "xc_execution_status y = ''succeeded''"
      "x = handoff_receipt q ''SUCCEEDED'' ''spine_execution_succeeded'' True False (Some y)"
    by (rule gh_run_succeeded [OF ran(3) assms(2)])
  obtain c h a where c: "cr_get (sp_registry s) (pb_capability_id (hq_binding q)) = Inr c" "set (cap_permissions c) \<subseteq> set (sp_allowed s)"
      "xr_handler (sp_executors s) (cap_id c) = Inr h" "h (length (sp_entries s)) (hq_payload q) = Artifact a"
      "sp_entries s' = sp_entries s @ [handoff_entry q (cap_id c)]"
    by (rule spine_run_succeeded [OF y(1-3), unfolded same]) (simp add: handoff_entry_def)
  have "sp_entries s' \<noteq> sp_entries s" using c(5) by simp
  from gh_execute_entered [OF assms(1) this] c(1) have "cap_permissions c = pb_permissions_requested (hq_binding q)" by auto
  then show thesis using that c y(4) by (simp add: handoff_receipt_def Let_def)
qed

lemma lh_execute_cases:
  assumes "lh_execute env q s = (r, s')"
  obtains (checked) rx where "lh_check env q s = (rx, s')" and "\<And>x. r = Inr x \<Longrightarrow> rx = Inr (Inl x)"
  | (refused) v s1 rx where "lh_check env q s = (Inr (Inr v), s1)" and "lh_claim env q v s1 = (rx, s')" and "rx \<noteq> Inr None"
    and "\<And>x. r = Inr x \<Longrightarrow> rx = Inr (Some x)"
  | (ran) v s1 s2 where "lh_check env q s = (Inr (Inr v), s1)" and "lh_claim env q v s1 = (Inr None, s2)" and "lh_run env q v s2 = (r, s')"
proof -
  from assms show thesis unfolding lh_execute_def
  proof (cases rule: act_bindE)
    case (err e)
    then show thesis by (intro checked [of "Inl e"]) simp_all
  next
    case (ok x s1)
    note chk = ok(1) and rest = ok(2)
    show thesis
    proof (cases x)
      case (Inl receipt)
      then show thesis using chk rest by (intro checked [of "Inr x"]) (simp_all add: act_return_def)
    next
      case (Inr v)
      then have "act_bind (lh_claim env q v) (\<lambda>r. case r of Some receipt \<Rightarrow> act_return receipt | None \<Rightarrow> lh_run env q v) s1 = (r, s')"
        using rest by simp
      then show thesis
      proof (cases rule: act_bindE)
        case (err e)
        then show thesis using chk Inr by (intro refused [of v s1 "Inl e"]) simp_all
      next
        case (ok y s2)
        show thesis
        proof (cases y)
          case None
          then show thesis using ok chk Inr by (intro ran [of v s1 s2]) simp_all
        next
          case (Some receipt)
          then show thesis using ok chk Inr by (intro refused [of v s1 "Inr y"]) (simp_all add: act_return_def)
        qed
      qed
    qed
  qed
qed

lemma lh_execute_succeeded:
  assumes "lh_execute env q s = (Inr x, s')" and "lx_status x = ''SUCCEEDED''"
  obtains c h a where "cr_get (sp_registry s) (pb_capability_id (lq_binding q)) = Inr c" and "set (cap_permissions c) \<subseteq> set (sp_allowed s)"
    and "cap_permissions c = pb_permissions_requested (lq_binding q)"
    and "xr_handler (sp_executors s) (cap_id c) = Inr h" and "h (length (sp_entries s)) (lq_payload q) = Artifact a"
    and "sp_entries s' = sp_entries s @ [handoff_entry (inner_request q) (cap_id c)]"
proof -
  have held: "lx_status (lh_held q re v b) \<noteq> ''SUCCEEDED''" for re v b by (simp add: lh_held_def)
  have check: "lx_status y \<noteq> ''SUCCEEDED''" if "lh_check env q s = (Inr (Inl y), t)" for y t
    using that held unfolding lh_check_def
    by (auto elim!: act_bindE simp: act_result_def act_return_def split: option.splits if_splits)
  have claim: "lx_status y \<noteq> ''SUCCEEDED''" if "lh_claim env q v t = (Inr (Some y), u)" for v y t u
    using that held unfolding lh_claim_def by (auto elim!: act_bindE simp: act_return_def split: if_splits)
  from assms(1) obtain v s1 s2 where chk: "lh_check env q s = (Inr (Inr v), s1)" and cl: "lh_claim env q v s1 = (Inr None, s2)"
      and run: "lh_run env q v s2 = (Inr x, s')"
  proof (cases rule: lh_execute_cases)
    case (checked rx)
    then show thesis using check assms(2) by blast
  next
    case (refused v s1 rx)
    then show thesis using claim assms(2) by blast
  qed
  have same: "sp_registry s2 = sp_registry s" "sp_executors s2 = sp_executors s" "sp_allowed s2 = sp_allowed s" "sp_entries s2 = sp_entries s"
    using quietD [OF quiet_lh_check chk] lh_claim_cases(1) [OF cl] by (simp_all add: steady_def)
  from run obtain inner si where g: "gh_execute env (inner_request q) s2 = (Inr inner, si)" and st: "lx_status x = hx_status inner"
    unfolding lh_run_def by (auto elim!: act_bindE simp: act_return_def)
  obtain c h a where c: "cr_get (sp_registry s) (pb_capability_id (lq_binding q)) = Inr c" "set (cap_permissions c) \<subseteq> set (sp_allowed s)"
      "cap_permissions c = pb_permissions_requested (lq_binding q)" "xr_handler (sp_executors s) (cap_id c) = Inr h"
      "h (length (sp_entries s)) (lq_payload q) = Artifact a" "sp_entries si = sp_entries s @ [handoff_entry (inner_request q) (cap_id c)]"
  proof (rule gh_execute_succeeded [OF g])
    show "hx_status inner = ''SUCCEEDED''" using st assms(2) by simp
  qed (unfold same, simp add: inner_request_def)
  obtain ri si' where "gh_execute env (inner_request q) s2 = (ri, si')" "sp_entries s' = sp_entries si'" by (rule lh_run_inner [OF run])
  then show thesis using that c g by simp
qed

text \<open>While a claim on the lease is held, a leased execution calls nothing.\<close>

lemma claimed_lease_enters_nothing:
  assumes "lh_execute env q s = (r, s')" and "lease_sha256 q \<in> lease_claims_of s"
  shows "sp_entries s' = sp_entries s"
proof (rule ccontr)
  assume "sp_entries s' \<noteq> sp_entries s"
  with assms(1) obtain v s1 s2 where "lh_check env q s = (Inr (Inr v), s1)" "lh_claim env q v s1 = (Inr None, s2)"
    by (rule lh_execute_ran)
  then show False
    using lh_claim_cases(2) assms(2) quietD [OF quiet_lh_check] by (metis steady_lease)
qed

text \<open>A leased execution that called a handler leaves its lease claimed, and no execution releases another lease.\<close>

lemma lh_execute_claims:
  assumes "lh_execute env q s = (r, s')"
  shows "lease_claims_of s \<subseteq> lease_claims_of s' \<and> (sp_entries s' = sp_entries s \<or> lease_sha256 q \<in> lease_claims_of s')"
  using assms
proof (cases rule: lh_execute_cases)
  case (checked rx)
  then show ?thesis using steady_lease [OF quietD [OF quiet_lh_check checked(1)]] by simp
next
  case (refused v s1 rx)
  then show ?thesis using steady_lease [OF quietD [OF quiet_lh_check refused(1)]] lh_claim_cases(1,3) [OF refused(2)] by auto
next
  case (ran v s1 s2)
  note before = steady_lease [OF quietD [OF quiet_lh_check ran(1)]] lh_claim_cases(1,2) [OF ran(2)]
  from ran(3) show ?thesis by (cases rule: lh_run_cases) (use before in auto)
qed

section \<open>A concrete hand-over\<close>

text \<open>Every receipt a run returns carries an identifier its environment drew.\<close>

lemma finish_id: "finish env r a s = (Inr x, s') \<Longrightarrow> xc_receipt_id x = xc_receipt_id r"
  by (auto simp: finish_def Let_def act_return_def elim!: act_bindE)

lemma run_ends_id:
  "run_failed env c packet d gate r t s = (Inr x, s') \<Longrightarrow> xc_receipt_id x = xc_receipt_id r"
  "run_unknown env c packet d gate r u s = (Inr x, s') \<Longrightarrow> xc_receipt_id x = xc_receipt_id r"
  "run_denied env c packet d gate r s = (Inr x, s') \<Longrightarrow> xc_receipt_id x = xc_receipt_id r"
  unfolding run_failed_def run_unknown_def run_denied_def by (elim act_bindE; (simp; fail)?; drule finish_id; simp)+

lemma run_succeeded_id: "run_succeeded env c packet d gate r a s = (Inr x, s') \<Longrightarrow> xc_receipt_id x = xc_receipt_id r"
  unfolding run_succeeded_def Let_def
  by (auto split: prod.splits sum.splits if_splits dest!: finish_id run_ends_id(1))

lemma after_handler_id: "after_handler env c packet d gate r out s = (Inr x, s') \<Longrightarrow> xc_receipt_id x = xc_receipt_id r"
  unfolding after_handler_def act_result_def
  by (auto split: sum.splits handler_outcome.splits dest: run_ends_id(1,2) run_succeeded_id)

lemma make_receipt_id:
  "make_receipt env c plan rq ps packet gate prov er s = (Inr x, s') \<Longrightarrow> xc_receipt_id x \<in> range (en_uuid env)"
  unfolding make_receipt_def by (elim act_bindE) (auto simp: draw_uuid_def act_return_def)

lemma spine_run_id:
  assumes "spine_run env cid payload prov s = (Inr x, s')"
  shows "xc_receipt_id x \<in> range (en_uuid env)"
proof -
  have gated: "xc_receipt_id x \<in> range (en_uuid env)" if "run_gated env c plan packet effect prov t = (Inr x, s')" for c plan packet effect t
    using that unfolding run_gated_def run_allowed_def Let_def
    by (elim act_bindE; (simp; fail)?)
      (auto split: if_splits prod.splits dest!: make_receipt_id run_ends_id(3) after_handler_id)
  have blocked: "xc_receipt_id x \<in> range (en_uuid env)" if "run_blocked env c plan packet effect prov t = (Inr x, s')" for c plan packet effect t
    using that unfolding run_blocked_def
    by (elim act_bindE; (simp; fail)?) (auto dest!: make_receipt_id finish_id)
  from assms show ?thesis unfolding spine_run_def Let_def
    by (elim act_bindE; (simp; fail)?) (auto split: if_splits dest: gated blocked)
qed

lemma gh_execute_consumed:
  assumes "gh_execute env q s = (Inr x, s')" and "hx_binding_consumed x"
  obtains y where "handoff_outcome y = Inr (hx_status x, hx_reason x, True)" and "xc_receipt_id y \<in> range (en_uuid env)"
    and "hx_spine_receipt_id x = Some (xc_receipt_id y)" and "hx_spine_execution_status x = Some (xc_execution_status y)"
  using assms(1)
proof (cases rule: gh_execute_cases)
  case (checked r')
  then have "gh_check env q s = (Inr (Some x), s')" by auto
  then show thesis using assms(2) by (auto elim!: gh_check_held simp: held_receipt_facts)
next
  case (refused r' s1)
  from refused(2) show thesis
    by (cases rule: gh_claim_cases) (use refused assms(2) in \<open>auto simp: held_receipt_facts\<close>)
next
  case (ran s1 s2)
  obtain r t where run: "spine_run env (pb_capability_id (hq_binding q)) (hq_payload q) (handoff_prov q) s2 = (r, t)" by fastforce
  then obtain y where y: "r = Inr y" "gh_conclude env q y t = (Inr x, s')"
    using ran(3) by (cases r) (auto simp: gh_run_def act_result_def elim!: act_bindE split: if_splits)
  then obtain st re consumed where out: "handoff_outcome y = Inr (st, re, consumed)"
    and x: "x = handoff_receipt q st re consumed False (Some y)"
    unfolding gh_conclude_def by (auto elim!: act_bindE simp: act_result_def act_return_def)
  then show thesis using that [of y] assms(2) spine_run_id run y(1) by (simp add: handoff_receipt_def Let_def)
qed

lemma sample_leased_success:
  assumes cov: "sample_covers l"
  obtains h sp where "lh_execute sample_env (sample_leased_request l) (sample_spine sample_handler) = (Inr h, sp)"
    and "lx_status h = ''SUCCEEDED''" and "lx_reason h = ''spine_execution_succeeded''"
    and "spine_outcome (lx_inner_handoff h) = (Some ''u'', Some ''succeeded'')"
    and "sp_entries sp = [handoff_entry (inner_request (sample_leased_request l)) ''commons.text_artifact'']"
proof -
  let ?q = "inner_request (sample_leased_request l)" and ?s = "sample_leased_spine l"
  have q: "hq_binding ?q = hq_binding sample_request"
    by (simp add: inner_request_def sample_leased_request_def sample_request_def)
  note small = sample_spine_small [of sample_handler, OF sample_handler_small]
  have s: "small_config ?s" "never_interrupts ?s" "small_core ?s" "posted ?s"
    using small by (simp_all add: sample_leased_spine_def small_config_def never_interrupts_def small_core_def posted_def)
      (simp add: sample_spine_def)
  have conf: "cr_get (sp_registry ?s) (pb_capability_id (hq_binding ?q)) = Inr text_capability"
    "set (cap_permissions text_capability) \<subseteq> set (sp_allowed ?s)"
    "xr_handler (sp_executors ?s) (cap_id text_capability) = Inr sample_handler"
    using sample_request_config [of sample_handler] by (simp_all add: sample_leased_spine_def q)
  obtain x s' re where g: "gh_execute sample_env ?q ?s
      = (Inr (handoff_receipt ?q re (''spine_execution_'' @ xc_execution_status x) True False (Some x)), s')"
    and e: "sp_entries s' = sp_entries ?s @ [handoff_entry ?q (cap_id text_capability)]"
    and st: "xc_execution_status x = ''succeeded''"
    by (rule handoff_completes [OF sample_env_clean s(1,2,3) sample_inner_small [OF cov] s(4) sample_inner_admitted [OF cov] conf])
      (simp add: sample_handler_def)
  obtain v where v: "lh_execute sample_env (sample_leased_request l) (sample_spine sample_handler) = lh_run sample_env (sample_leased_request l) v ?s"
    using sample_lease_admitted [OF cov] by blast
  obtain y where y: "gh_execute sample_env ?q ?s = (Inr y, s')" "hx_binding_consumed y"
      "hx_reason y = ''spine_execution_succeeded''" "hx_spine_execution_status y = Some ''succeeded''"
    using g st by (auto simp: handoff_receipt_def Let_def)
  obtain z where z: "handoff_outcome z = Inr (hx_status y, hx_reason y, True)" "xc_receipt_id z \<in> range (en_uuid sample_env)"
      "hx_spine_receipt_id y = Some (xc_receipt_id z)" "hx_spine_execution_status y = Some (xc_execution_status z)"
    by (rule gh_execute_consumed [OF y(1,2)])
  have re: "hx_status y = ''SUCCEEDED''" using z(1,4) y(4) by (auto simp: handoff_outcome_def split: if_splits)
  have "hx_spine_receipt_id y = Some ''u''" using z(2,3) by (auto simp: sample_env_def)
  then have out: "spine_outcome (Some (JObj (hx_to_dict y))) = (Some ''u'', Some ''succeeded'')"
    using y(4) by (simp add: spine_outcome_def str_member_def hx_to_dict_def hx_items_def)
  obtain h where "lh_execute sample_env (sample_leased_request l) (sample_spine sample_handler) = (Inr h, s')"
      "lx_status h = ''SUCCEEDED''" "lx_reason h = ''spine_execution_succeeded''" "lx_inner_handoff h = Some (JObj (hx_to_dict y))"
    using v y re by (simp add: lh_run_def act_bind_def act_return_def)
  then show thesis using out e
    by (intro that [of h s']) (simp_all add: sample_leased_spine_def sample_spine_def text_capability_def)
qed

end
