(* ===== verification/Macro_Dispatcher.thy ===== *)
theory Macro_Dispatcher
  imports Macro_Spine_Bridge Macro_Journal
begin

text \<open>
  \<open>phios/macro_dispatcher.py\<close>: the DO instruction a run waits on becomes a work package, the package is
  dispatched through the bridge of \<open>Macro_Spine_Bridge\<close>, and what the bridge reports becomes the
  operation resolution the runner of \<open>Macro_Runner\<close> goes on with.
\<close>

definition OPERATION_WORK_PACKAGE_SCHEMA_VERSION :: string where
  "OPERATION_WORK_PACKAGE_SCHEMA_VERSION = ''phios.operation_work_package.v0.5''"

definition DO_DISPATCH_RECEIPT_SCHEMA_VERSION :: string where
  "DO_DISPATCH_RECEIPT_SCHEMA_VERSION = ''phios.do_dispatch_receipt.v0.5''"

definition dd_text :: "string \<Rightarrow> string \<Rightarrow> nat \<Rightarrow> unit result" where
  "dd_text v field maximum = discard (require_text GovernedDoDispatcherContractError (JStr v) field maximum)"

definition dd_sha256 :: "string \<Rightarrow> string \<Rightarrow> unit result" where
  "dd_sha256 v field = discard (require_sha256 GovernedDoDispatcherContractError (JStr v) field)"

definition canonical_capabilities :: "string list \<Rightarrow> unit result" where
  "canonical_capabilities values = first_error
     (map (\<lambda>v. dd_text v ''required capability'' 512) values @
      [ensure (sorted_set values = values) GovernedDoDispatcherContractError
         ''required capabilities must be sorted and unique''])"

section \<open>Work packages\<close>

record operation_work_package =
  owp_macro_id :: string
  owp_macro_version :: string
  owp_macro_plan_sha256 :: string
  owp_macro_run_state_sha256 :: string
  owp_instruction_index :: nat
  owp_instruction_path :: string
  owp_operation_id :: string
  owp_operation_version :: string
  owp_operation_hash :: string
  owp_input_hash :: string
  owp_adapter_id :: string
  owp_action :: string
  owp_required_capabilities :: "string list"
  owp_operational_authority :: bool
  owp_action_authority :: bool
  owp_execution_authority :: bool
  owp_schema_version :: string

definition owp_init :: "operation_work_package \<Rightarrow> operation_work_package result" where
  "owp_init w = validated
     [ensure (owp_schema_version w = OPERATION_WORK_PACKAGE_SCHEMA_VERSION) GovernedDoDispatcherContractError
        ''unsupported operation work package schema'',
      dd_text (owp_macro_id w) ''macro_id'' 512,
      dd_text (owp_macro_version w) ''macro_version'' 128,
      dd_sha256 (owp_macro_plan_sha256 w) ''macro_plan_sha256'',
      dd_sha256 (owp_macro_run_state_sha256 w) ''macro_run_state_sha256'',
      dd_text (owp_instruction_path w) ''instruction_path'' 512,
      dd_text (owp_operation_id w) ''operation_id'' 512,
      dd_text (owp_operation_version w) ''operation_version'' 128,
      dd_sha256 (owp_operation_hash w) ''operation_hash'',
      dd_sha256 (owp_input_hash w) ''input_hash'',
      dd_text (owp_adapter_id w) ''adapter_id'' 512,
      dd_text (owp_action w) ''action'' 512,
      canonical_capabilities (owp_required_capabilities w),
      ensure (\<not> (owp_operational_authority w \<or> owp_action_authority w \<or> owp_execution_authority w))
        GovernedDoDispatcherContractError ''OperationWorkPackage cannot carry authority''] w"

definition owp_body :: "operation_work_package \<Rightarrow> (string \<times> json) list" where
  "owp_body w =
     [(''schema_version'', JStr (owp_schema_version w)),
      (''macro_id'', JStr (owp_macro_id w)),
      (''macro_version'', JStr (owp_macro_version w)),
      (''macro_plan_sha256'', JStr (owp_macro_plan_sha256 w)),
      (''macro_run_state_sha256'', JStr (owp_macro_run_state_sha256 w)),
      (''instruction_index'', JInt (int (owp_instruction_index w))),
      (''instruction_path'', JStr (owp_instruction_path w)),
      (''operation_id'', JStr (owp_operation_id w)),
      (''operation_version'', JStr (owp_operation_version w)),
      (''operation_hash'', JStr (owp_operation_hash w)),
      (''input_hash'', JStr (owp_input_hash w)),
      (''adapter_id'', JStr (owp_adapter_id w)),
      (''action'', JStr (owp_action w)),
      (''required_capabilities'', jstrs (owp_required_capabilities w)),
      (''operational_authority'', JBool (owp_operational_authority w)),
      (''action_authority'', JBool (owp_action_authority w)),
      (''execution_authority'', JBool (owp_execution_authority w))]"

definition work_package_sha256 :: "operation_work_package \<Rightarrow> string" where
  "work_package_sha256 w = canonical_sha256 (JObj (owp_body w))"

definition owp_to_dict :: "operation_work_package \<Rightarrow> json" where
  "owp_to_dict w = sealed_dict ''work_package_sha256'' (owp_body w)"

section \<open>Dispatch receipts\<close>

fun resolution_value :: "resolution_status \<Rightarrow> string" where
  "resolution_value RES_SUCCEEDED = ''SUCCEEDED''"
| "resolution_value RES_HELD = ''HELD''"
| "resolution_value RES_FAILED = ''FAILED''"

record do_dispatch_receipt =
  ddr_macro_id :: string
  ddr_macro_version :: string
  ddr_macro_plan_sha256 :: string
  ddr_macro_run_state_sha256 :: string
  ddr_instruction_path :: string
  ddr_operation_hash :: string
  ddr_work_package_sha256 :: string
  ddr_macro_spine_binding_sha256 :: string
  ddr_macro_spine_receipt_sha256 :: string
  ddr_macro_spine_status :: string
  ddr_macro_spine_reason :: string
  ddr_spine_receipt_id :: "string option"
  ddr_resolution_status :: resolution_status
  ddr_operational_authority :: bool
  ddr_action_authority :: bool
  ddr_execution_authority :: bool
  ddr_effect_performed :: bool
  ddr_schema_version :: string

definition ddr_init :: "do_dispatch_receipt \<Rightarrow> do_dispatch_receipt result" where
  "ddr_init r = validated
     [ensure (ddr_schema_version r = DO_DISPATCH_RECEIPT_SCHEMA_VERSION) GovernedDoDispatcherContractError
        ''unsupported DO dispatch receipt schema'',
      dd_text (ddr_macro_id r) ''macro_id'' 512,
      dd_text (ddr_macro_version r) ''macro_version'' 128,
      dd_sha256 (ddr_macro_plan_sha256 r) ''macro_plan_sha256'',
      dd_sha256 (ddr_macro_run_state_sha256 r) ''macro_run_state_sha256'',
      dd_text (ddr_instruction_path r) ''instruction_path'' 512,
      dd_sha256 (ddr_operation_hash r) ''operation_hash'',
      dd_sha256 (ddr_work_package_sha256 r) ''work_package_sha256'',
      dd_sha256 (ddr_macro_spine_binding_sha256 r) ''macro_spine_binding_sha256'',
      dd_sha256 (ddr_macro_spine_receipt_sha256 r) ''macro_spine_receipt_sha256'',
      dd_text (ddr_macro_spine_status r) ''macro_spine_status'' 512,
      dd_text (ddr_macro_spine_reason r) ''macro_spine_reason'' 512,
      (case ddr_spine_receipt_id r of None \<Rightarrow> Ok () | Some i \<Rightarrow> dd_text i ''spine_receipt_id'' 512),
      ensure (\<not> (ddr_operational_authority r \<or> ddr_action_authority r \<or> ddr_execution_authority r \<or> ddr_effect_performed r))
        GovernedDoDispatcherContractError ''DoDispatchReceipt cannot grant authority or claim effects''] r"

definition ddr_body :: "do_dispatch_receipt \<Rightarrow> (string \<times> json) list" where
  "ddr_body r =
     [(''schema_version'', JStr (ddr_schema_version r)),
      (''macro_id'', JStr (ddr_macro_id r)),
      (''macro_version'', JStr (ddr_macro_version r)),
      (''macro_plan_sha256'', JStr (ddr_macro_plan_sha256 r)),
      (''macro_run_state_sha256'', JStr (ddr_macro_run_state_sha256 r)),
      (''instruction_path'', JStr (ddr_instruction_path r)),
      (''operation_hash'', JStr (ddr_operation_hash r)),
      (''work_package_sha256'', JStr (ddr_work_package_sha256 r)),
      (''macro_spine_binding_sha256'', JStr (ddr_macro_spine_binding_sha256 r)),
      (''macro_spine_receipt_sha256'', JStr (ddr_macro_spine_receipt_sha256 r)),
      (''macro_spine_status'', JStr (ddr_macro_spine_status r)),
      (''macro_spine_reason'', JStr (ddr_macro_spine_reason r)),
      (''spine_receipt_id'', jopt (ddr_spine_receipt_id r)),
      (''resolution_status'', JStr (resolution_value (ddr_resolution_status r))),
      (''operational_authority'', JBool (ddr_operational_authority r)),
      (''action_authority'', JBool (ddr_action_authority r)),
      (''execution_authority'', JBool (ddr_execution_authority r)),
      (''effect_performed'', JBool (ddr_effect_performed r))]"

definition ddr_receipt_sha256 :: "do_dispatch_receipt \<Rightarrow> string" where
  "ddr_receipt_sha256 r = canonical_sha256 (JObj (ddr_body r))"

definition ddr_to_dict :: "do_dispatch_receipt \<Rightarrow> (string \<times> json) list" where
  "ddr_to_dict r = ddr_body r @ [(''receipt_sha256'', JStr (ddr_receipt_sha256 r))]"

record do_dispatch_result =
  ddx_work_package :: operation_work_package
  ddx_macro_spine_receipt :: macro_spine_receipt
  ddx_dispatch_receipt :: do_dispatch_receipt
  ddx_operation_resolution :: operation_resolution

section \<open>The dispatcher\<close>

text \<open>\<open>payload.get(key)\<close> of a missing key is None, as is a JSON null.\<close>

definition validate_instruction_operation :: "plan_instruction \<Rightarrow> operation \<Rightarrow> unit result" where
  "validate_instruction_operation i o' = ensure
     (dget (pi_payload i) ''operation_id'' = JStr (op_operation_id o')
      \<and> dget (pi_payload i) ''operation_version'' = JStr (op_operation_version o')
      \<and> dget (pi_payload i) ''operation_hash'' = JStr (operation_hash o')
      \<and> dget (pi_payload i) ''adapter_id'' = JStr (op_adapter_id o')
      \<and> dget (pi_payload i) ''action'' = JStr (op_action o')
      \<and> dget (pi_payload i) ''required_capabilities'' = jstrs (op_required_capabilities o'))
     GovernedDoDispatcherContractError ''operation does not match planned DO instruction''"

definition validate_waiting_operation :: "macro_plan \<Rightarrow> macro_run_state \<Rightarrow> operation \<Rightarrow> plan_instruction result" where
  "validate_waiting_operation p s o' =
     rbind (first_error
       [ensure (mrs_status s = RS_WAITING_OPERATION) GovernedDoDispatcherContractError
          ''runner must be WAITING_OPERATION before DO dispatch'',
        ensure (mrs_plan_sha256 s = plan_sha256 p) GovernedDoDispatcherContractError
          ''runner plan hash does not match macro plan'',
        ensure (mrs_macro_id s = pl_macro_id p \<and> mrs_macro_version s = pl_macro_version p) GovernedDoDispatcherContractError
          ''runner macro identity does not match macro plan'',
        ensure (mrs_cursor s < length (pl_instructions p)) GovernedDoDispatcherContractError
          ''runner cursor does not reference an instruction'']) (\<lambda>_.
     let i = pl_instructions p ! mrs_cursor s; waiting = or_empty (mrs_waiting_on s) in
     rbind (first_error
       [ensure (pi_opcode i = Op_DO) GovernedDoDispatcherContractError ''WAITING_OPERATION cursor must reference DO'',
        ensure (dget waiting ''instruction_path'' = JStr (pi_path i) \<and> dget waiting ''opcode'' = JStr (opcode_value Op_DO))
          GovernedDoDispatcherContractError ''runner waiting boundary does not match current DO'',
        validate_instruction_operation i o']) (\<lambda>_. Ok i))"

definition package :: "macro_plan \<Rightarrow> macro_run_state \<Rightarrow> operation \<Rightarrow> operation_work_package result" where
  "package p s o' =
     rbind (validate_waiting_operation p s o') (\<lambda>i. owp_init
       \<lparr>owp_macro_id = pl_macro_id p, owp_macro_version = pl_macro_version p, owp_macro_plan_sha256 = plan_sha256 p,
        owp_macro_run_state_sha256 = state_sha256 s, owp_instruction_index = pi_index i, owp_instruction_path = pi_path i,
        owp_operation_id = op_operation_id o', owp_operation_version = op_operation_version o',
        owp_operation_hash = operation_hash o', owp_input_hash = input_hash o', owp_adapter_id = op_adapter_id o',
        owp_action = op_action o', owp_required_capabilities = op_required_capabilities o',
        owp_operational_authority = False, owp_action_authority = False, owp_execution_authority = False,
        owp_schema_version = OPERATION_WORK_PACKAGE_SCHEMA_VERSION\<rparr>)"

definition dispatch_status :: "macro_spine_receipt \<Rightarrow> resolution_status" where
  "dispatch_status r =
     (if msr_status r = ''SUCCEEDED'' then RES_SUCCEEDED
      else if msr_status r = ''FAILED'' then RES_FAILED else RES_HELD)"

definition dispatch_receipt ::
  "operation_work_package \<Rightarrow> macro_plan \<Rightarrow> macro_run_state \<Rightarrow> operation \<Rightarrow> macro_spine_binding \<Rightarrow> macro_spine_receipt
    \<Rightarrow> do_dispatch_receipt result" where
  "dispatch_receipt w p s o' mb r = ddr_init
     \<lparr>ddr_macro_id = pl_macro_id p, ddr_macro_version = pl_macro_version p, ddr_macro_plan_sha256 = plan_sha256 p,
      ddr_macro_run_state_sha256 = state_sha256 s, ddr_instruction_path = owp_instruction_path w,
      ddr_operation_hash = operation_hash o', ddr_work_package_sha256 = work_package_sha256 w,
      ddr_macro_spine_binding_sha256 = msb_binding_sha256 mb, ddr_macro_spine_receipt_sha256 = msr_receipt_sha256 r,
      ddr_macro_spine_status = msr_status r, ddr_macro_spine_reason = msr_reason r,
      ddr_spine_receipt_id = msr_spine_receipt_id r, ddr_resolution_status = dispatch_status r,
      ddr_operational_authority = False, ddr_action_authority = False, ddr_execution_authority = False,
      ddr_effect_performed = False, ddr_schema_version = DO_DISPATCH_RECEIPT_SCHEMA_VERSION\<rparr>"

definition dispatch ::
  "env \<Rightarrow> operation_work_package \<Rightarrow> macro_plan \<Rightarrow> macro_run_state \<Rightarrow> operation \<Rightarrow> leased_request
    \<Rightarrow> (dispatch_state, do_dispatch_result) action" where
  "dispatch env w p s o' q =
     st_bind (st_result (package p s o')) (\<lambda>expected.
     st_bind (st_result (ensure (w = expected) GovernedDoDispatcherContractError
       ''operation work package does not match current runner boundary'')) (\<lambda>_.
     st_bind (st_result (msb_build (pl_macro_id p) (pl_macro_version p) o' (lq_plan q) (lq_binding q) (lq_lease q))) (\<lambda>mb.
     st_bind (bridge_execute env LIVE o' mb q) (\<lambda>r.
     st_bind (st_result (dispatch_receipt w p s o' mb r)) (\<lambda>d.
     st_bind (append_macro_dispatch_receipt env (ddr_to_dict d)) (\<lambda>_.
     st_bind (st_result (orr_init \<lparr>orr_instruction_path = owp_instruction_path w, orr_operation_hash = operation_hash o',
       orr_status = dispatch_status r, orr_receipt_sha256 = ddr_receipt_sha256 d\<rparr>)) (\<lambda>resolution.
     st_return \<lparr>ddx_work_package = w, ddx_macro_spine_receipt = r, ddx_dispatch_receipt = d,
       ddx_operation_resolution = resolution\<rparr>)))))))"

text \<open>Dispatches one after the other, each by its own process over the same files.\<close>

type_synonym dispatch_call =
  "env \<times> operation_work_package \<times> macro_plan \<times> macro_run_state \<times> operation \<times> leased_request"

fun dispatches :: "dispatch_call list \<Rightarrow> dispatch_state \<Rightarrow> dispatch_state" where
  "dispatches [] s = s"
| "dispatches ((env, w, p, rs, o', q) # rest) s = dispatches rest (snd (dispatch env w p rs o' q s))"

section \<open>What a dispatch does\<close>

lemma validate_waiting_Ok_iff:
  "validate_waiting_operation p s o' = Inr i \<longleftrightarrow> mrs_status s = RS_WAITING_OPERATION \<and> mrs_plan_sha256 s = plan_sha256 p
     \<and> mrs_macro_id s = pl_macro_id p \<and> mrs_macro_version s = pl_macro_version p \<and> mrs_cursor s < length (pl_instructions p)
     \<and> i = pl_instructions p ! mrs_cursor s \<and> pi_opcode i = Op_DO
     \<and> dget (or_empty (mrs_waiting_on s)) ''instruction_path'' = JStr (pi_path i)
     \<and> dget (or_empty (mrs_waiting_on s)) ''opcode'' = JStr (opcode_value Op_DO)
     \<and> validate_instruction_operation i o' = Inr ()"
  unfolding validate_waiting_operation_def Let_def rbind_Ok_iff first_error_Ok_Cons first_error_Ok_Nil ensure_Ok_iff by auto

lemma package_Ok:
  assumes "package p s o' = Inr w"
  shows "validate_waiting_operation p s o' = Inr (pl_instructions p ! mrs_cursor s)"
    and "owp_instruction_path w = pi_path (pl_instructions p ! mrs_cursor s)"
    and "owp_operation_hash w = operation_hash o'" and "owp_input_hash w = input_hash o'"
    and "owp_macro_run_state_sha256 w = state_sha256 s" and "owp_macro_plan_sha256 w = plan_sha256 p"
    and "plain_text 512 (pi_path (pl_instructions p ! mrs_cursor s))"
proof -
  from assms obtain i where i: "validate_waiting_operation p s o' = Inr i" by (auto simp: package_def rbind_Ok_iff)
  moreover from this have "i = pl_instructions p ! mrs_cursor s" by (simp only: validate_waiting_Ok_iff)
  ultimately show "validate_waiting_operation p s o' = Inr (pl_instructions p ! mrs_cursor s)"
      and "owp_instruction_path w = pi_path (pl_instructions p ! mrs_cursor s)"
      and "owp_operation_hash w = operation_hash o'" and "owp_input_hash w = input_hash o'"
      and "owp_macro_run_state_sha256 w = state_sha256 s" and "owp_macro_plan_sha256 w = plan_sha256 p"
      and "plain_text 512 (pi_path (pl_instructions p ! mrs_cursor s))"
    using assms by (auto simp: package_def owp_init_def validated_Ok_iff first_error_Ok_Cons dd_text_def discard_text_Ok_iff)
qed

text \<open>The same spine but for the number of uses of the disk.\<close>

definition same_spine :: "spine \<Rightarrow> spine \<Rightarrow> bool" where
  "same_spine sp sp' \<longleftrightarrow> sp_registry sp' = sp_registry sp \<and> sp_executors sp' = sp_executors sp \<and> sp_allowed sp' = sp_allowed sp
     \<and> sp_ledger sp' = sp_ledger sp \<and> sp_entries sp' = sp_entries sp"

lemma same_spine_simps [simp]: "same_spine sp sp" "same_spine sp (sp\<lparr>sp_io := n\<rparr>)"
  by (simp_all add: same_spine_def)

lemma dispatch_cases:
  assumes "dispatch env w p rs o' q s = (r, s')"
  obtains (refused) e where "r = Inl e" and "s' = s"
  | (handed) mb rh sp where "package p rs o' = Inr w"
    and "msb_build (pl_macro_id p) (pl_macro_version p) o' (lq_plan q) (lq_binding q) (lq_lease q) = Inr mb"
    and "bridge_scope o' mb q = Inr ()" and "lh_execute env q (ds_spine s) = (rh, sp)" and "same_spine sp (ds_spine s')"
    and "\<And>d. r = Inr d \<Longrightarrow> \<exists>h x y. rh = Inr h \<and> bridge_receipt o' mb q h = Inr x \<and> dispatch_receipt w p rs o' mb x = Inr y
      \<and> appended (ds_macro_receipts s) (msr_to_dict x) (ds_macro_receipts s')
      \<and> appended (ds_dispatch_receipts s) (ddr_to_dict y) (ds_dispatch_receipts s')
      \<and> d = \<lparr>ddx_work_package = w, ddx_macro_spine_receipt = x, ddx_dispatch_receipt = y,
        ddx_operation_resolution = \<lparr>orr_instruction_path = owp_instruction_path w, orr_operation_hash = operation_hash o',
          orr_status = dispatch_status x, orr_receipt_sha256 = ddr_receipt_sha256 y\<rparr>\<rparr>"
proof -
  note carried = handed
  have before: "package p rs o' = Inr w \<and> t = s \<and> z = x" if "st_result (package p rs o') s = (Inr k, s1)"
      "st_result (ensure (w = k) c m) s1 = (Inr u, s2)" "st_result z s2 = (x, t)" for k s1 c m u s2 z x t
    using that by (auto simp: st_result_def)
  have through: thesis if "package p rs o' = Inr w"
      "msb_build (pl_macro_id p) (pl_macro_version p) o' (lq_plan q) (lq_binding q) (lq_lease q) = Inr mb"
      "bridge_execute env LIVE o' mb q s = (Inr x, s1)" "same_spine (ds_spine s1) (ds_spine s')"
      "\<And>d. r = Inr d \<Longrightarrow> \<exists>y. dispatch_receipt w p rs o' mb x = Inr y \<and> ds_macro_receipts s' = ds_macro_receipts s1
        \<and> appended (ds_dispatch_receipts s1) (ddr_to_dict y) (ds_dispatch_receipts s')
        \<and> d = \<lparr>ddx_work_package = w, ddx_macro_spine_receipt = x, ddx_dispatch_receipt = y,
          ddx_operation_resolution = \<lparr>orr_instruction_path = owp_instruction_path w, orr_operation_hash = operation_hash o',
            orr_status = dispatch_status x, orr_receipt_sha256 = ddr_receipt_sha256 y\<rparr>\<rparr>" for mb x s1
    using that(3)
  proof (cases rule: bridge_execute_cases)
    case (handed rh sp)
    have "same_spine sp (ds_spine s')" using handed(4) that(4) by (auto simp: same_spine_def)
    then show thesis
    proof (rule carried [OF that(1,2) handed(2,3)])
      fix d assume d: "r = Inr d"
      obtain h where "rh = Inr h" "bridge_receipt o' mb q h = Inr x" "appended (ds_macro_receipts s) (msr_to_dict x) (ds_macro_receipts s1)"
        using handed(6) by blast
      then show "\<exists>h x y. rh = Inr h \<and> bridge_receipt o' mb q h = Inr x \<and> dispatch_receipt w p rs o' mb x = Inr y
        \<and> appended (ds_macro_receipts s) (msr_to_dict x) (ds_macro_receipts s')
        \<and> appended (ds_dispatch_receipts s) (ddr_to_dict y) (ds_dispatch_receipts s')
        \<and> d = \<lparr>ddx_work_package = w, ddx_macro_spine_receipt = x, ddx_dispatch_receipt = y,
          ddx_operation_resolution = \<lparr>orr_instruction_path = owp_instruction_path w, orr_operation_hash = operation_hash o',
            orr_status = dispatch_status x, orr_receipt_sha256 = ddr_receipt_sha256 y\<rparr>\<rparr>"
        using that(5) [OF d] handed(5) by auto
    qed
  qed simp
  from assms show thesis unfolding dispatch_def
  proof (elim st_bindE, goal_cases)
    case (4 k s1 u1 s2 mb s3 e)
    note pk = before [OF 4(1,2,3)]
    then have "bridge_execute env LIVE o' mb q s = (Inl e, s')" using 4(4) by simp
    then show ?case
    proof (cases rule: bridge_execute_cases)
      case (refused e')
      then show ?thesis using 4(5) by (intro that(1)) simp_all
    next
      case (handed rh sp)
      then show ?thesis using pk 4(5) by (intro that(2) [of mb rh sp]) (auto simp: same_spine_def)
    qed
  next
    case (5 k s1 u1 s2 mb s3 x s4 e)
    note pk = before [OF 5(1,2,3)]
    then show ?case using 5(4-6) by (intro through [of mb x s4]) (auto simp: st_result_def)
  next
    case (6 k s1 u1 s2 mb s3 x s4 y s5 e)
    note pk = before [OF 6(1,2,3)]
    then show ?case using 6(4,5,7) append_receipt_cases(2) [OF 6(6)] by (intro through [of mb x s4]) (auto simp: st_result_def)
  next
    case (7 k s1 u1 s2 mb s3 x s4 y s5 u2 s6 e)
    note pk = before [OF 7(1,2,3)]
    then show ?case using 7(4,5,7,8) append_receipt_cases(2) [OF 7(6)] by (intro through [of mb x s4]) (auto simp: st_result_def)
  next
    case (8 k s1 u1 s2 mb s3 x s4 y s5 u2 s6 res s7)
    note pk = before [OF 8(1,2,3)]
    have "res = \<lparr>orr_instruction_path = owp_instruction_path w, orr_operation_hash = operation_hash o',
        orr_status = dispatch_status x, orr_receipt_sha256 = ddr_receipt_sha256 y\<rparr>" "s6 = s7" "s7 = s'"
      using 8(7,8) by (auto simp: st_result_def st_return_def orr_init_def validated_Ok_iff)
    with pk show ?case using 8(4,5,8) append_receipt_cases(2) [OF 8(6)]
      by (intro through [of mb x s4]) (auto simp: st_result_def st_return_def)
  qed (auto simp: st_result_def intro: refused)
qed

text \<open>A leased execution adds calls only under its own lease, and only if that lease was not claimed.\<close>

lemma lh_execute_calls:
  assumes "lh_execute env q s = (r, s')" and "l \<in> lease_claims_of s"
  shows "calls_under_lease l s' = calls_under_lease l s"
proof (cases "sp_entries s' = sp_entries s")
  case False
  with assms(1) obtain v s1 s2 where ran: "lh_check env q s = (Inr (Inr v), s1)" "lh_claim env q v s1 = (Inr None, s2)"
      "lh_run env q v s2 = (r, s')" by (rule lh_execute_ran)
  have "lease_sha256 q \<noteq> l" using claimed_lease_enters_nothing [OF assms(1)] assms(2) False by auto
  moreover have "sp_entries s2 = sp_entries s"
    using steady_lease [OF quietD [OF quiet_lh_check ran(1)]] lh_claim_cases(1) [OF ran(2)] by simp
  ultimately have other: "lease_sha256 q \<noteq> l" "sp_entries s2 = sp_entries s" by blast+
  from ran(3) show ?thesis by (cases rule: lh_run_cases) (use other in \<open>simp_all add: calls_under_lease_def\<close>)
qed (simp add: calls_under_lease_def)

lemma dispatch_claims:
  assumes "dispatch env w p rs o' q s = (r, s')"
  shows "lease_claims_of (ds_spine s) \<subseteq> lease_claims_of (ds_spine s')"
    and "l \<in> lease_claims_of (ds_spine s) \<Longrightarrow> calls_under_lease l (ds_spine s') = calls_under_lease l (ds_spine s)"
    and "sp_entries (ds_spine s') \<noteq> sp_entries (ds_spine s) \<Longrightarrow> lease_sha256 q \<in> lease_claims_of (ds_spine s')"
  using assms
  by (cases rule: dispatch_cases; use lh_execute_claims lh_execute_calls in
    \<open>fastforce simp: same_spine_def lease_claims_held_def calls_under_lease_def\<close>)+

lemma dispatches_claimed:
  "l \<in> lease_claims_of (ds_spine s) \<Longrightarrow> calls_under_lease l (ds_spine (dispatches ds s)) = calls_under_lease l (ds_spine s)"
proof (induction ds s rule: dispatches.induct)
  case (2 env w p rs o' q rest s)
  obtain r s' where d: "dispatch env w p rs o' q s = (r, s')" by fastforce
  then have "l \<in> lease_claims_of (ds_spine s')" using 2(2) dispatch_claims(1) by blast
  then show ?case using 2 d dispatch_claims(2) by auto
qed simp

text \<open>The runner, given a resolution for the DO it waits on.\<close>

lemma advance_do:
  assumes "validate_waiting_operation p s o' = Inr i" and "orr_instruction_path r = pi_path i" and "orr_operation_hash r = operation_hash o'"
    and "1 \<le> m" and "m \<le> 50000"
  obtains ix where "index_inputs (no_inputs\<lparr>in_operations := [r]\<rparr>) = Inr ix"
    and "advance p s (Some (no_inputs\<lparr>in_operations := [r]\<rparr>)) m =
      rbind (resolved p (mrs_cursor s) i (orr_status r) ''operation_held'' ''operation_failed'' (counted i (env_of s))) (\<lambda>out.
        case out of Halt t \<Rightarrow> Inr t | Go k v \<Rightarrow> advance_loop p ix (nat m - 1) k v)"
proof -
  note wait = assms(1) [unfolded validate_waiting_Ok_iff]
  then have i: "pl_instructions p ! mrs_cursor s = i" "pi_opcode i = Op_DO" "mrs_cursor s < length (pl_instructions p)" by auto
  obtain ix where ix: "index_inputs (no_inputs\<lparr>in_operations := [r]\<rparr>) = Inr ix" and op: "map_of (ix_operations ix) (pi_path i) = Some r"
    using assms(2) by (simp add: index_inputs_def no_inputs_def)
  have "dget (pi_payload i) ''operation_hash'' = JStr (operation_hash o')"
    using wait by (auto simp: validate_instruction_operation_def)
  moreover have sha: "is_sha256 (operation_hash o')" by (simp add: operation_hash_def)
  ultimately have hash: "payload_text i ''operation_hash'' = Inr (operation_hash o')"
    using sha is_sha256_no_control [OF sha] is_sha256_not_Nil [OF sha]
    by (simp add: payload_text_def rn_require_text_def require_text_Ok_iff plain_text_def is_sha256_def)
  obtain b where b: "nat m = Suc b" using assms(4) by (cases "nat m") auto
  then have m1: "nat m - 1 = b" by simp
  have "advance p s (Some (no_inputs\<lparr>in_operations := [r]\<rparr>)) m = advance_loop p ix (nat m) (mrs_cursor s) (env_of s)"
    using wait assms(4,5) ix
    by (simp add: advance_def validate_resume_def first_error.simps ensure_def TERMINAL_STATUSES_def MAX_ADVANCE_TRANSITIONS_def)
  also have "\<dots> = rbind (resolved p (mrs_cursor s) i (orr_status r) ''operation_held'' ''operation_failed'' (counted i (env_of s))) (\<lambda>out.
        case out of Halt t \<Rightarrow> Inr t | Go k v \<Rightarrow> advance_loop p ix b k v)"
    using i op hash assms(3) unfolding b advance_loop.simps [of p ix "Suc b"]
    by (simp add: Let_def exec_instruction_def exec_do_def)
  finally show thesis using that [OF ix] unfolding m1 by blast
qed

text \<open>A valid state has an environment under which the runner can build the next state.\<close>

lemma dict_of_keys_ok: "list_all f (map fst xs) \<Longrightarrow> list_all f (map fst (dict_of xs))"
proof -
  have "list_all f (map fst d) \<Longrightarrow> list_all f (map fst xs) \<Longrightarrow> list_all f (map fst (foldl (\<lambda>d (k, v). dict_set k v d) d xs))" for d
  proof (induction xs arbitrary: d)
    case (Cons x xs)
    then show ?case using dict_set_keys_ok [of f "fst x" d "snd x"] by (cases x) simp
  qed simp
  from this [of "[]"] show "list_all f (map fst xs) \<Longrightarrow> list_all f (map fst (dict_of xs))" by (simp add: dict_of_def)
qed

lemma env_of_ok: "mrs_init s = Inr s \<Longrightarrow> env_ok (env_of s)"
  unfolding mrs_init_valid env_ok_def env_of_def by (auto intro: dict_of_keys_ok split: option.splits)

section \<open>A concrete dispatch\<close>

text \<open>A macro of one step, which writes the sample payload; its operation declares \<open>DRY_RUN\<close> only.\<close>

definition sample_do :: operation where
  "sample_do = \<lparr>op_operation_id = ''write'', op_operation_version = ''1'', op_adapter_id = ''phios.spine'',
     op_action = ''commons.text_artifact'', op_inputs = sample_payload, op_required_capabilities = [''artifact.write''],
     op_execution_modes_supported = [DRY_RUN], op_idempotency_class = NON_IDEMPOTENT, op_replay_class = NON_REPLAYABLE,
     op_rollback_class = ROLLBACK_NONE, op_side_effect_class = LOCAL_IRREVERSIBLE, op_idempotency_key = None\<rparr>"

definition do_definition :: macro_definition where
  "do_definition = \<lparr>md_macro_id = ''macro'', md_macro_version = ''1'', md_steps = [DoStep sample_do], md_parameters = [],
     md_operational_authority = False, md_action_authority = False, md_execution_authority = False,
     md_schema_version = MACRO_DEFINITION_SCHEMA_VERSION\<rparr>"

definition do_plan :: macro_plan where
  "do_plan = \<lparr>pl_macro_id = ''macro'', pl_macro_version = ''1'', pl_definition_sha256 = definition_sha256 do_definition,
     pl_instructions = [instruction 0 ''root.0'' Op_DO (operation_payload sample_do) (source_hash (DoStep sample_do))],
     pl_operational_authority = False, pl_action_authority = False, pl_execution_authority = False,
     pl_schema_version = MACRO_PLAN_SCHEMA_VERSION\<rparr>"

definition do_wait :: macro_run_state where
  "do_wait = \<lparr>mrs_macro_id = ''macro'', mrs_macro_version = ''1'', mrs_plan_sha256 = plan_sha256 do_plan, mrs_cursor = 0,
     mrs_status = RS_WAITING_OPERATION, mrs_reason = ''operation_resolution_required'', mrs_loop_iterations = [],
     mrs_foreach_indices = [], mrs_variables = Some [],
     mrs_waiting_on = Some [(''instruction_path'', JStr ''root.0''), (''opcode'', JStr ''DO'')],
     mrs_last_instruction_path = Some ''root.0'', mrs_transitions = 1, mrs_operational_authority = False,
     mrs_action_authority = False, mrs_execution_authority = False, mrs_schema_version = MACRO_RUN_STATE_SCHEMA_VERSION\<rparr>"

lemma do_plan_made: "make_plan do_definition = Inr do_plan"
proof -
  have "md_ok do_definition"
    unfolding md_ok_def md_init_def validated_Ok_iff first_error_Ok_Cons first_error_Ok_Nil
    by (simp add: do_definition_def plain_text_def is_control_def validate_canonical_names_def macro_names_Ok_iff)
  moreover have "validate_operation sample_do = Inr ()"
    unfolding validate_operation_def first_error_Ok_Cons first_error_Ok_Nil
    by (simp add: sample_do_def plain_text_def is_control_def)
  then have "validate_definition do_definition = Inr ()"
    by (simp add: validate_definition_def do_definition_def check_depth_def check_count_def MAX_NESTING_DEPTH_def MAX_STATIC_STEPS_def)
  moreover have "show_nat 0 = ''0''" by code_simp
  ultimately show ?thesis
    by (simp add: make_plan_valid(1)) (simp add: do_definition_def do_plan_def)
qed

lemma do_wait_ok: "mrs_init do_wait = Inr do_wait"
  unfolding mrs_init_valid by (simp add: do_wait_def plain_text_def is_control_def plan_sha256_def)

lemma do_wait_reached: "\<exists>s. runner_start do_plan = Inr s \<and> advance do_plan s None 1 = Inr do_wait"
proof -
  let ?i = "instruction 0 ''root.0'' Op_DO (operation_payload sample_do) (source_hash (DoStep sample_do))"
  have named: "plan_named do_plan" by (simp add: plan_named_def do_plan_def plain_text_def is_control_def)
  obtain s where s: "runner_start do_plan = Inr s"
    using run_state_Ok [OF named start_env_ok, of "''plan_ready''" 0 RS_READY "[]"] by (auto simp: runner_start_def)
  have code: "pl_instructions do_plan = [?i]" by (simp add: do_plan_def)
  have "run_state do_plan 0 RS_WAITING_OPERATION ''operation_resolution_required'' ((counted ?i start_env)\<lparr>ev_last := Some ''root.0''\<rparr>)
      [(''instruction_path'', JStr ''root.0''), (''opcode'', JStr ''DO'')] = Inr do_wait"
    unfolding run_state_def mrs_init_valid
    by (simp add: do_wait_def do_plan_def counted_def start_env_def plain_text_def is_control_def plan_sha256_def)
  then have "advance_loop do_plan ix 1 0 start_env = Inr do_wait" if "ix_operations ix = []" for ix
    using that by (simp add: advance_loop.simps [of do_plan ix "Suc 0"] code exec_instruction_def exec_do_def pause_def)
  then have "advance do_plan s None 1 = Inr do_wait"
    using started [OF s] by (simp add: advance_def TERMINAL_STATUSES_def MAX_ADVANCE_TRANSITIONS_def index_inputs_def no_inputs_def)
  with s show ?thesis by blast
qed

definition sample_dispatch_state :: dispatch_state where
  "sample_dispatch_state = \<lparr>ds_spine = sample_spine sample_handler, ds_macro_receipts = None, ds_dispatch_receipts = None\<rparr>"

lemma dd_checks [result_simps]:
  "dd_text v f m = Inr () \<longleftrightarrow> plain_text m v" "dd_sha256 v f = Inr () \<longleftrightarrow> is_sha256 v"
  "msb_text v f m = Inr () \<longleftrightarrow> plain_text m v" "msb_sha256 v f = Inr () \<longleftrightarrow> is_sha256 v"
  by (simp_all add: dd_text_def dd_sha256_def msb_text_def msb_sha256_def discard_Ok_iff result_simps)

text \<open>Valid receipts are small, so a record can hold them.\<close>

lemma weight_checked:
  "(case z of None \<Rightarrow> Inr () | Some i \<Rightarrow> msb_text i f m) = Inr () \<Longrightarrow> weight (jopt z) \<le> 4 + 6 * m"
  "(case z of None \<Rightarrow> Inr () | Some i \<Rightarrow> dd_text i f m) = Inr () \<Longrightarrow> weight (jopt z) \<le> 4 + 6 * m"
  by (rule weight_jopt; simp add: result_simps plain_text_def)+

lemma msr_fits:
  assumes "msr_init x = Inr x"
  shows "\<exists>data. sio_encode (msr_to_dict x) = Inr data"
proof -
  note ok = assms [unfolded msr_init_def validated_Ok_iff first_error_Ok_Cons first_error_Ok_Nil result_simps]
  then have "length (msr_status x) \<le> 64" "length (msr_reason x) \<le> 256" "length (msr_macro_id x) \<le> 256"
      "length (msr_macro_version x) \<le> 128" "length (msr_operation_id x) \<le> 256" "length (msr_operation_hash x) = 64"
      "length (msr_macro_spine_binding_sha256 x) = 64" "length (msr_action_binding_sha256 x) = 64"
      "length (msr_action_lease_sha256 x) = 64" "length (msr_leased_handoff_receipt_sha256 x) = 64"
      "msr_schema_version x = MACRO_SPINE_RECEIPT_SCHEMA_VERSION"
    by (simp_all add: plain_text_def is_sha256_def)
  moreover have "weight (jopt (msr_spine_receipt_id x)) \<le> 4 + 6 * 256" "weight (jopt (msr_spine_execution_status x)) \<le> 4 + 6 * 64"
    using ok by (elim conjE weight_checked(1))+
  moreover have "length (msr_receipt_sha256 x) = 64" by (simp add: msr_receipt_sha256_def digest_length)
  ultimately have "weight (JObj (msr_to_dict x)) \<le> 40000"
    by (simp add: msr_to_dict_def msr_body_def MACRO_SPINE_RECEIPT_SCHEMA_VERSION_def)
  then show ?thesis by (intro sio_encode_fits) (simp add: MAX_RECORD_BYTES_def)
qed

lemma ddr_fits:
  assumes "ddr_init y = Inr y"
  shows "\<exists>data. sio_encode (ddr_to_dict y) = Inr data"
proof -
  note ok = assms [unfolded ddr_init_def validated_Ok_iff first_error_Ok_Cons first_error_Ok_Nil result_simps]
  then have "length (ddr_macro_id y) \<le> 512" "length (ddr_macro_version y) \<le> 128" "length (ddr_macro_plan_sha256 y) = 64"
      "length (ddr_macro_run_state_sha256 y) = 64" "length (ddr_instruction_path y) \<le> 512" "length (ddr_operation_hash y) = 64"
      "length (ddr_work_package_sha256 y) = 64" "length (ddr_macro_spine_binding_sha256 y) = 64"
      "length (ddr_macro_spine_receipt_sha256 y) = 64" "length (ddr_macro_spine_status y) \<le> 512"
      "length (ddr_macro_spine_reason y) \<le> 512" "ddr_schema_version y = DO_DISPATCH_RECEIPT_SCHEMA_VERSION"
    by (simp_all add: plain_text_def is_sha256_def)
  moreover have "weight (jopt (ddr_spine_receipt_id y)) \<le> 4 + 6 * 512"
    using ok by (elim conjE weight_checked(2))
  moreover have "length (resolution_value (ddr_resolution_status y)) \<le> 9" by (cases "ddr_resolution_status y") simp_all
  moreover have "length (ddr_receipt_sha256 y) = 64" by (simp add: ddr_receipt_sha256_def digest_length)
  ultimately have "weight (JObj (ddr_to_dict y)) \<le> 40000"
    by (simp add: ddr_to_dict_def ddr_body_def DO_DISPATCH_RECEIPT_SCHEMA_VERSION_def)
  then show ?thesis by (intro sio_encode_fits) (simp add: MAX_RECORD_BYTES_def)
qed

lemma first_append:
  assumes "\<exists>data. sio_encode row = Inr data"
  obtains f where "append_jsonl None None None row None = (Inr True, f)"
  using assms that by (auto simp: append_jsonl_def sio_rows_def Let_def)

lemma sample_packaged: obtains w where "package do_plan do_wait sample_do = Inr w"
proof -
  have v: "validate_waiting_operation do_plan do_wait sample_do = Inr (pl_instructions do_plan ! mrs_cursor do_wait)"
    unfolding validate_waiting_Ok_iff
    by (simp add: do_wait_def do_plan_def or_empty_def validate_instruction_operation_def operation_payload_def)
  have "\<exists>w. package do_plan do_wait sample_do = Inr w"
    unfolding package_def v rbind.simps owp_init_def validated_Ok_iff first_error_Ok_Cons first_error_Ok_Nil result_simps
    by (simp add: do_wait_def do_plan_def sample_do_def canonical_capabilities_def first_error_Ok_Cons first_error_Ok_Nil
        result_simps plain_text_def is_control_def sorted_set_def input_hash_def operation_hash_def plan_sha256_def is_sha256_state)
  then show thesis using that by blast
qed

lemma sample_dispatched:
  assumes cov: "sample_covers l"
  obtains w d s' where "dispatch sample_env w do_plan do_wait sample_do (sample_leased_request l) sample_dispatch_state = (Inr d, s')"
    and "orr_status (ddx_operation_resolution d) = RES_SUCCEEDED" and "length (sp_entries (ds_spine s')) = 1"
proof -
  let ?q = "sample_leased_request l"
  obtain w where w: "package do_plan do_wait sample_do = Inr w" by (rule sample_packaged)
  obtain h sp where h: "lh_execute sample_env ?q (sample_spine sample_handler) = (Inr h, sp)" "lx_status h = ''SUCCEEDED''"
      "lx_reason h = ''spine_execution_succeeded''" "spine_outcome (lx_inner_handoff h) = (Some ''u'', Some ''succeeded'')"
      "sp_entries sp = [handoff_entry (inner_request ?q) ''commons.text_artifact'']"
    by (rule sample_leased_success [OF cov])
  have digests: "is_sha256 (ps_state_sha256 sample_plan)" "is_sha256 (pb_binding_sha256 sample_binding)"
      "is_sha256 (pb_payload_sha256 sample_binding)"
    by (simp_all add: sample_plan_def build_plan_state_def plan_state_digest_def sample_binding_def sealed_binding_digest [symmetric])
  have texts: "ps_plan_id sample_plan = ''plan''" "pb_capability_id sample_binding = ''commons.text_artifact''"
      "pb_permissions_requested sample_binding = [''artifact.write'']"
      "pb_payload_sha256 sample_binding = canonical_sha256 (JObj sample_payload)"
    by (simp_all add: sample_plan_def build_plan_state_def sample_binding_def)
  obtain mb where mb: "msb_build ''macro'' ''1'' sample_do sample_plan sample_binding l = Inr mb"
    and scope: "bridge_scope sample_do mb ?q = Inr ()" and id: "msb_macro_id mb = ''macro''" "msb_macro_version mb = ''1''"
  proof -
    have "\<exists>mb. msb_build ''macro'' ''1'' sample_do sample_plan sample_binding l = Inr mb \<and> msb_macro_id mb = ''macro''
        \<and> msb_macro_version mb = ''1'' \<and> bridge_scope sample_do mb ?q = Inr ()"
      unfolding msb_build_def msb_init_def validated_Ok_iff first_error_Ok_Cons first_error_Ok_Nil result_simps bridge_scope_Ok_iff
      using digests texts
      by (simp add: sample_do_def sample_leased_request_def operation_capability_id_def lease_sha256_def input_hash_def
          operation_hash_def action_lease_sha256_def plain_text_def is_control_def)
    then show thesis using that by blast
  qed
  have shas: "is_sha256 (operation_hash o')" "is_sha256 (msb_binding_sha256 m)" "is_sha256 (lx_receipt_sha256 r)"
      "is_sha256 (lease_sha256 k)" "is_sha256 (work_package_sha256 wp)" "is_sha256 (msr_receipt_sha256 mr)" "is_sha256 (plan_sha256 p)"
      "is_sha256 (ddr_receipt_sha256 dr)" for o' m r k wp mr p dr
    by (simp_all add: operation_hash_def msb_binding_sha256_def lx_receipt_sha256_def lease_sha256_def action_lease_sha256_def
        work_package_sha256_def msr_receipt_sha256_def plan_sha256_def ddr_receipt_sha256_def)
  have q: "lq_plan ?q = sample_plan" "lq_binding ?q = sample_binding" "lq_lease ?q = l" by (simp_all add: sample_leased_request_def)
  have path: "owp_instruction_path w = ''root.0''" using package_Ok(2) [OF w] by (simp add: do_plan_def do_wait_def)
  have "\<exists>x. bridge_receipt sample_do mb ?q h = Inr x"
    unfolding bridge_receipt_def msr_init_def validated_Ok_iff first_error_Ok_Cons first_error_Ok_Nil result_simps
    using h(2-4) id digests shas q by (simp add: plain_text_def is_control_def sample_do_def result_simps)
  then obtain x where x: "bridge_receipt sample_do mb ?q h = Inr x" by blast
  then have x': "msr_init x = Inr x" "msr_status x = ''SUCCEEDED''" "msr_reason x = ''spine_execution_succeeded''" "msr_spine_receipt_id x = Some ''u''"
    using h(2-4) by (auto simp: bridge_receipt_def msr_init_def validated_Ok_iff)
  have "\<exists>y. dispatch_receipt w do_plan do_wait sample_do mb x = Inr y"
    unfolding dispatch_receipt_def ddr_init_def validated_Ok_iff first_error_Ok_Cons first_error_Ok_Nil result_simps
    using x' shas path by (simp add: plain_text_def is_control_def do_plan_def is_sha256_state result_simps)
  then obtain y where y: "dispatch_receipt w do_plan do_wait sample_do mb x = Inr y" by blast
  then have y': "ddr_init y = Inr y" by (auto simp: dispatch_receipt_def ddr_init_def validated_Ok_iff)
  obtain f where f: "append_jsonl None None None (msr_to_dict x) None = (Inr True, f)" by (rule first_append [OF msr_fits [OF x'(1)]])
  obtain g where g: "append_jsonl None None None (ddr_to_dict y) None = (Inr True, g)" by (rule first_append [OF ddr_fits [OF y']])
  have no: "en_open sample_env n = None" "en_write sample_env n = None" for n by (simp_all add: sample_env_def)
  let ?s1 = "\<lparr>ds_spine = sp\<lparr>sp_io := Suc (sp_io sp)\<rparr>, ds_macro_receipts = f, ds_dispatch_receipts = None\<rparr>"
  have bridge: "bridge_execute sample_env LIVE sample_do mb ?q sample_dispatch_state = (Inr x, ?s1)"
    using scope h(1) x f
    by (simp add: bridge_execute_def st_bind_def st_result_def st_return_def on_spine_def append_macro_receipt_def no
        sample_dispatch_state_def discard_def disk_used_def)
  let ?r = "\<lparr>orr_instruction_path = ''root.0'', orr_operation_hash = operation_hash sample_do, orr_status = dispatch_status x,
      orr_receipt_sha256 = ddr_receipt_sha256 y\<rparr>"
  have r: "orr_init ?r = Inr ?r"
    unfolding orr_init_def validated_Ok_iff first_error_Ok_Cons first_error_Ok_Nil
    using shas by (simp add: rn_text_def rn_require_text_def rn_require_sha256_def discard_Ok_iff result_simps plain_text_def is_control_def)
  let ?d = "\<lparr>ddx_work_package = w, ddx_macro_spine_receipt = x, ddx_dispatch_receipt = y, ddx_operation_resolution = ?r\<rparr>"
  have "dispatch sample_env w do_plan do_wait sample_do ?q sample_dispatch_state
      = (Inr ?d, ?s1\<lparr>ds_spine := sp\<lparr>sp_io := Suc (Suc (sp_io sp))\<rparr>, ds_dispatch_receipts := g\<rparr>)"
    using w mb bridge y g r path
    by (simp add: dispatch_def st_bind_def st_result_def st_return_def append_macro_dispatch_receipt_def no discard_def disk_used_def q)
      (simp add: do_plan_def)
  then show thesis by (rule that) (use h(5) x'(2) in \<open>simp_all add: dispatch_status_def\<close>)
qed

section \<open>Properties\<close>

text \<open>C6: A resolution is earned.  When a dispatch resolves a DO as SUCCEEDED, the handler registered for the capability
  the operation maps to was called exactly once, on a payload with the digest of the operation's inputs,
  under permissions that are the operation's own and that the runtime grants, and it returned an artifact.\<close>

theorem dispatched_success_was_performed:
  assumes "dispatch env w p rs o' q s = (Ok d, s')" and "orr_status (ddx_operation_resolution d) = RES_SUCCEEDED"
  shows "\<exists>c h a. operation_capability_id o' = Ok (pb_capability_id (lq_binding q))
    \<and> cr_get (sp_registry (ds_spine s)) (pb_capability_id (lq_binding q)) = Ok c
    \<and> xr_handler (sp_executors (ds_spine s)) (cap_id c) = Ok h
    \<and> h (length (sp_entries (ds_spine s))) (lq_payload q) = Artifact a
    \<and> canonical_sha256 (JObj (lq_payload q)) = input_hash o'
    \<and> op_required_capabilities o' = cap_permissions c \<and> set (cap_permissions c) \<subseteq> set (sp_allowed (ds_spine s))
    \<and> sp_entries (ds_spine s') = sp_entries (ds_spine s) @ [\<lparr>he_capability_id = cap_id c, he_payload = lq_payload q,
        he_provenance = handoff_prov (inner_request q)\<rparr>]"
  using assms(1)
proof (cases rule: dispatch_cases)
  case (handed mb rh sp)
  then obtain h x where h: "rh = Inr h" "bridge_receipt o' mb q h = Inr x" "orr_status (ddx_operation_resolution d) = dispatch_status x"
    by fastforce
  then have "lx_status h = ''SUCCEEDED''"
    using assms(2) by (auto simp: dispatch_status_def bridge_receipt_def msr_init_def validated_Ok_iff split: if_splits)
  with handed(4) h(1) obtain c hd a where "cr_get (sp_registry (ds_spine s)) (pb_capability_id (lq_binding q)) = Inr c"
      "set (cap_permissions c) \<subseteq> set (sp_allowed (ds_spine s))" "cap_permissions c = pb_permissions_requested (lq_binding q)"
      "xr_handler (sp_executors (ds_spine s)) (cap_id c) = Inr hd" "hd (length (sp_entries (ds_spine s))) (lq_payload q) = Artifact a"
      "sp_entries sp = sp_entries (ds_spine s) @ [handoff_entry (inner_request q) (cap_id c)]"
    using lh_execute_succeeded by metis
  then show ?thesis
    using handed(3,5) by (auto simp: bridge_scope_Ok_iff same_spine_def handoff_entry_def inner_request_def)
qed simp

theorem dispatched_success_was_performed_witness:
  "\<exists>l w d s' (c :: capability) h a. dispatch sample_env w do_plan do_wait sample_do (sample_leased_request l) sample_dispatch_state = (Ok d, s')
     \<and> orr_status (ddx_operation_resolution d) = RES_SUCCEEDED \<and> op_required_capabilities sample_do = cap_permissions c
     \<and> xr_handler (sp_executors (ds_spine sample_dispatch_state)) (cap_id c) = Ok h
     \<and> h 0 (lq_payload (sample_leased_request l)) = Artifact a \<and> length (sp_entries (ds_spine s')) = 1"
proof -
  obtain l where cov: "sample_covers l" by (rule some_lease)
  obtain w d s' where d: "dispatch sample_env w do_plan do_wait sample_do (sample_leased_request l) sample_dispatch_state = (Inr d, s')"
      "orr_status (ddx_operation_resolution d) = RES_SUCCEEDED" "length (sp_entries (ds_spine s')) = 1"
    by (rule sample_dispatched [OF cov])
  have none: "length (sp_entries (ds_spine sample_dispatch_state)) = 0" by (simp add: sample_dispatch_state_def sample_spine_def)
  from dispatched_success_was_performed [OF d(1,2), unfolded none] obtain c :: capability and h a where
      x: "op_required_capabilities sample_do = cap_permissions c" "xr_handler (sp_executors (ds_spine sample_dispatch_state)) (cap_id c) = Inr h"
        "h 0 (lq_payload (sample_leased_request l)) = Artifact a" by blast
  show ?thesis by (intro exI conjI) (rule d x)+
qed

text \<open>C18: Only the operation a run waits on is dispatched.  If a dispatch changes anything at all, the run was waiting at a DO
  instruction of this very plan, the operation is the one that instruction names, the work package is the
  one of this state, and operation, binding, payload and permissions agree.\<close>

theorem only_the_awaited_operation_is_dispatched:
  assumes "dispatch env w p rs o' q s = (r, s')" and "s' \<noteq> s"
  shows "mrs_status rs = RS_WAITING_OPERATION \<and> mrs_plan_sha256 rs = plan_sha256 p \<and> mrs_cursor rs < length (pl_instructions p)
    \<and> pi_opcode (pl_instructions p ! mrs_cursor rs) = Op_DO
    \<and> dget (pi_payload (pl_instructions p ! mrs_cursor rs)) ''operation_hash'' = JStr (operation_hash o')
    \<and> owp_operation_hash w = operation_hash o' \<and> owp_input_hash w = input_hash o' \<and> owp_macro_run_state_sha256 w = state_sha256 rs
    \<and> operation_capability_id o' = Ok (pb_capability_id (lq_binding q))
    \<and> op_required_capabilities o' = pb_permissions_requested (lq_binding q)
    \<and> input_hash o' = pb_payload_sha256 (lq_binding q) \<and> canonical_sha256 (JObj (lq_payload q)) = input_hash o'"
  using assms(1)
proof (cases rule: dispatch_cases)
  case (handed mb rh sp)
  note wait = package_Ok [OF handed(1)]
  then show ?thesis
    using wait(1) [unfolded validate_waiting_Ok_iff] handed(3)
    by (simp add: validate_instruction_operation_def bridge_scope_Ok_iff)
qed (use assms(2) in simp)

theorem only_the_awaited_operation_is_dispatched_witness:
  "\<exists>l w d s'. dispatch sample_env w do_plan do_wait sample_do (sample_leased_request l) sample_dispatch_state = (Ok d, s')
     \<and> s' \<noteq> sample_dispatch_state \<and> owp_operation_hash w = operation_hash sample_do \<and> owp_macro_run_state_sha256 w = state_sha256 do_wait"
proof -
  obtain l where cov: "sample_covers l" by (rule some_lease)
  obtain w d s' where d: "dispatch sample_env w do_plan do_wait sample_do (sample_leased_request l) sample_dispatch_state = (Inr d, s')"
      "length (sp_entries (ds_spine s')) = 1"
    by (rule sample_dispatched [OF cov])
  then have "s' \<noteq> sample_dispatch_state" by (auto simp: sample_dispatch_state_def sample_spine_def)
  with only_the_awaited_operation_is_dispatched [OF d(1) this] d(1) show ?thesis by blast
qed

text \<open>C19: A dispatch settles the wait.  The resolution it returns is accepted by the runner at exactly the DO it was
  waiting on, never as a scope mismatch: the run stops there as HELD or FAILED, or goes on behind it.\<close>

theorem dispatch_settles_the_wait:
  assumes "dispatch env w p rs o' q s = (Ok d, s')" and "mrs_init rs = Ok rs" and "1 \<le> m" and "m \<le> 50000"
    and "inputs = no_inputs\<lparr>in_operations := [ddx_operation_resolution d]\<rparr>"
  shows "case orr_status (ddx_operation_resolution d) of
      RES_HELD \<Rightarrow> \<exists>t. advance p rs (Some inputs) m = Ok t \<and> mrs_status t = RS_HELD \<and> mrs_reason t = ''operation_held''
        \<and> mrs_cursor t = mrs_cursor rs
    | RES_FAILED \<Rightarrow> \<exists>t. advance p rs (Some inputs) m = Ok t \<and> mrs_status t = RS_FAILED \<and> mrs_reason t = ''operation_failed''
        \<and> mrs_cursor t = mrs_cursor rs
    | RES_SUCCEEDED \<Rightarrow> \<exists>ix. index_inputs inputs = Ok ix \<and> advance p rs (Some inputs) m = advance_loop p ix (nat m - 1)
        (mrs_cursor rs + 1) (counted (pl_instructions p ! mrs_cursor rs) (env_of rs))"
  using assms(1)
proof (cases rule: dispatch_cases)
  case (handed mb rh sp)
  let ?r = "ddx_operation_resolution d" and ?i = "pl_instructions p ! mrs_cursor rs"
  note wait = package_Ok [OF handed(1)]
  have r: "orr_instruction_path ?r = pi_path ?i" "orr_operation_hash ?r = operation_hash o'"
    using handed(6) wait(2) by fastforce+
  obtain ix where ix: "index_inputs inputs = Inr ix" and adv: "advance p rs (Some inputs) m =
      rbind (resolved p (mrs_cursor rs) ?i (orr_status ?r) ''operation_held'' ''operation_failed'' (counted ?i (env_of rs))) (\<lambda>out.
        case out of Halt t \<Rightarrow> Inr t | Go k v \<Rightarrow> advance_loop p ix (nat m - 1) k v)"
    using advance_do [OF wait(1) r assms(3,4)] unfolding assms(5) by blast
  have stops: "\<exists>t. run_state p (mrs_cursor rs) status reason ((counted ?i (env_of rs))\<lparr>ev_last := Some (pi_path ?i)\<rparr>) w' = Inr t
      \<and> mrs_status t = status \<and> mrs_reason t = reason \<and> mrs_cursor t = mrs_cursor rs" if "plain_text 512 reason" for status reason w'
  proof -
    have "plan_named p" using wait(1) [unfolded validate_waiting_Ok_iff] assms(2) unfolding mrs_init_valid plan_named_def by auto
    moreover have "env_ok ((counted ?i (env_of rs))\<lparr>ev_last := Some (pi_path ?i)\<rparr>)"
      using env_of_ok [OF assms(2)] wait(7) by (simp add: counted_def env_ok_def)
    ultimately show ?thesis using run_state_Ok [OF _ _ that] by blast
  qed
  show ?thesis
    using adv ix stops by (cases "orr_status ?r") (fastforce simp: resolved_def boundary_def pause_def)+
qed simp

theorem dispatch_settles_the_wait_witness:
  "\<exists>l w d s' t. dispatch sample_env w do_plan do_wait sample_do (sample_leased_request l) sample_dispatch_state = (Ok d, s')
     \<and> advance do_plan do_wait (Some (no_inputs\<lparr>in_operations := [ddx_operation_resolution d]\<rparr>)) 9 = Ok t \<and> mrs_status t = RS_COMPLETED"
proof -
  obtain l where cov: "sample_covers l" by (rule some_lease)
  obtain w d s' where d: "dispatch sample_env w do_plan do_wait sample_do (sample_leased_request l) sample_dispatch_state = (Inr d, s')"
      "orr_status (ddx_operation_resolution d) = RES_SUCCEEDED" by (rule sample_dispatched [OF cov])
  let ?v = "counted (pl_instructions do_plan ! mrs_cursor do_wait) (env_of do_wait)"
  from dispatch_settles_the_wait [OF d(1) do_wait_ok, of 9] d(2) obtain ix where
      adv: "advance do_plan do_wait (Some (no_inputs\<lparr>in_operations := [ddx_operation_resolution d]\<rparr>)) 9 = advance_loop do_plan ix 8 1 ?v"
    by (auto simp: do_wait_def)
  have "env_ok ?v"
    using env_of_ok [OF do_wait_ok] by (simp add: counted_def do_plan_def do_wait_def plain_text_def is_control_def)
  moreover have "plan_named do_plan" by (simp add: plan_named_def do_plan_def plain_text_def is_control_def)
  ultimately obtain t where "run_state do_plan 1 RS_COMPLETED ''plan_completed'' ?v [] = Inr t" "mrs_status t = RS_COMPLETED"
    using run_state_Ok [of do_plan ?v "''plan_completed''" 1 RS_COMPLETED "[]"] by (auto simp: plain_text_def is_control_def)
  moreover have "length (pl_instructions do_plan) \<le> 1" by (simp add: do_plan_def)
  ultimately have "advance do_plan do_wait (Some (no_inputs\<lparr>in_operations := [ddx_operation_resolution d]\<rparr>)) 9 = Inr t"
    using adv by (simp add: advance_loop.simps [of do_plan ix 8])
  with d(1) \<open>mrs_status t = RS_COMPLETED\<close> show ?thesis by blast
qed

text \<open>Every dispatch leaves its evidence.  A dispatch that returns has appended its two receipts to the two files,
  and they form a chain: the resolution cites the dispatch receipt, which cites the work package, the state
  of the run and the bridge receipt, which cites the lease and the receipt of the leased hand-over.\<close>

theorem dispatch_leaves_evidence:
  assumes "dispatch env w p rs o' q s = (Ok d, s')"
  shows "\<exists>rows drows h sp. read_jsonl None (ds_macro_receipts s) = Ok rows
    \<and> read_jsonl None (ds_macro_receipts s') = Ok (rows @ [stored (msr_to_dict (ddx_macro_spine_receipt d))])
    \<and> read_jsonl None (ds_dispatch_receipts s) = Ok drows
    \<and> read_jsonl None (ds_dispatch_receipts s') = Ok (drows @ [stored (ddr_to_dict (ddx_dispatch_receipt d))])
    \<and> orr_receipt_sha256 (ddx_operation_resolution d) = ddr_receipt_sha256 (ddx_dispatch_receipt d)
    \<and> ddr_work_package_sha256 (ddx_dispatch_receipt d) = work_package_sha256 w
    \<and> ddr_macro_run_state_sha256 (ddx_dispatch_receipt d) = state_sha256 rs
    \<and> ddr_macro_spine_receipt_sha256 (ddx_dispatch_receipt d) = msr_receipt_sha256 (ddx_macro_spine_receipt d)
    \<and> ddr_resolution_status (ddx_dispatch_receipt d) = orr_status (ddx_operation_resolution d)
    \<and> lh_execute env q (ds_spine s) = (Ok h, sp)
    \<and> msr_leased_handoff_receipt_sha256 (ddx_macro_spine_receipt d) = lx_receipt_sha256 h
    \<and> msr_action_lease_sha256 (ddx_macro_spine_receipt d) = lease_sha256 q"
  using assms
proof (cases rule: dispatch_cases)
  case (handed mb rh sp)
  then obtain h x y where h: "rh = Inr h" "bridge_receipt o' mb q h = Inr x" "dispatch_receipt w p rs o' mb x = Inr y"
      "appended (ds_macro_receipts s) (msr_to_dict x) (ds_macro_receipts s')"
      "appended (ds_dispatch_receipts s) (ddr_to_dict y) (ds_dispatch_receipts s')"
      "d = \<lparr>ddx_work_package = w, ddx_macro_spine_receipt = x, ddx_dispatch_receipt = y,
        ddx_operation_resolution = \<lparr>orr_instruction_path = owp_instruction_path w, orr_operation_hash = operation_hash o',
          orr_status = dispatch_status x, orr_receipt_sha256 = ddr_receipt_sha256 y\<rparr>\<rparr>" by blast
  have "msr_leased_handoff_receipt_sha256 x = lx_receipt_sha256 h \<and> msr_action_lease_sha256 x = lease_sha256 q"
    using h(2) by (auto simp: bridge_receipt_def msr_init_def validated_Ok_iff)
  moreover have "ddr_work_package_sha256 y = work_package_sha256 w \<and> ddr_macro_run_state_sha256 y = state_sha256 rs
      \<and> ddr_macro_spine_receipt_sha256 y = msr_receipt_sha256 x \<and> ddr_resolution_status y = dispatch_status x"
    using h(3) by (auto simp: dispatch_receipt_def ddr_init_def validated_Ok_iff)
  ultimately show ?thesis using h(1,4-6) handed(4) unfolding appended_def by auto
qed simp

theorem dispatch_leaves_evidence_witness:
  "\<exists>l w d s'. dispatch sample_env w do_plan do_wait sample_do (sample_leased_request l) sample_dispatch_state = (Ok d, s')
     \<and> read_jsonl None (ds_macro_receipts s') = Ok [stored (msr_to_dict (ddx_macro_spine_receipt d))]
     \<and> read_jsonl None (ds_dispatch_receipts s') = Ok [stored (ddr_to_dict (ddx_dispatch_receipt d))]"
proof -
  obtain l where cov: "sample_covers l" by (rule some_lease)
  obtain w d s' where d: "dispatch sample_env w do_plan do_wait sample_do (sample_leased_request l) sample_dispatch_state = (Inr d, s')"
    by (rule sample_dispatched [OF cov])
  from dispatch_leaves_evidence [OF this] d show ?thesis by (auto simp: sample_dispatch_state_def read_jsonl_def)
qed

text \<open>C7: A DO whose outcome was lost is not performed again.  Once a dispatch called a handler, whatever it then answered and
  whatever its appends ran into, no later dispatch of any run calls a handler under the same lease.\<close>

theorem lost_dispatch_is_not_repeated:
  assumes "dispatch env w p rs o' q s = (r, s1)" and "sp_entries (ds_spine s1) \<noteq> sp_entries (ds_spine s)"
  shows "calls_under_lease (lease_sha256 q) (ds_spine (dispatches ds s1)) = calls_under_lease (lease_sha256 q) (ds_spine s1)"
  using dispatch_claims(3) [OF assms] by (rule dispatches_claimed)

theorem lost_dispatch_is_not_repeated_witness:
  "\<exists>l w d s1. dispatch sample_env w do_plan do_wait sample_do (sample_leased_request l) sample_dispatch_state = (Ok d, s1)
     \<and> calls_under_lease (lease_sha256 (sample_leased_request l))
         (ds_spine (dispatches [(sample_env, w, do_plan, do_wait, sample_do, sample_leased_request l)] s1))
       = calls_under_lease (lease_sha256 (sample_leased_request l)) (ds_spine s1)
     \<and> length (sp_entries (ds_spine s1)) = 1"
proof -
  obtain l where cov: "sample_covers l" by (rule some_lease)
  obtain w d s1 where d: "dispatch sample_env w do_plan do_wait sample_do (sample_leased_request l) sample_dispatch_state = (Inr d, s1)"
      "length (sp_entries (ds_spine s1)) = 1"
    by (rule sample_dispatched [OF cov])
  then have "sp_entries (ds_spine s1) \<noteq> sp_entries (ds_spine sample_dispatch_state)"
    by (auto simp: sample_dispatch_state_def sample_spine_def)
  from lost_dispatch_is_not_repeated [OF d(1) this] d show ?thesis by blast
qed

text \<open>C33: The modes an operation declares do not bind the dispatcher.  There is an operation that declares no LIVE execution,
  which the reference runtime refuses to execute LIVE in every state, and which a dispatch performs: a
  handler is called and the DO resolves as SUCCEEDED.\<close>

theorem undeclared_mode_is_dispatched:
  "\<exists>o' env w p rs q s d s'. LIVE \<notin> set (op_execution_modes_supported o')
     \<and> (\<forall>wd who grants parent rt x. fst (execute wd who o' grants LIVE parent (rt :: (memory_state, json) macro_runtime)) \<noteq> Ok x)
     \<and> dispatch env w p rs o' q s = (Ok d, s') \<and> orr_status (ddx_operation_resolution d) = RES_SUCCEEDED
     \<and> length (sp_entries (ds_spine s')) = length (sp_entries (ds_spine s)) + 1"
proof -
  obtain l where cov: "sample_covers l" by (rule some_lease)
  obtain w d s' where d: "dispatch sample_env w do_plan do_wait sample_do (sample_leased_request l) sample_dispatch_state = (Inr d, s')"
      "orr_status (ddx_operation_resolution d) = RES_SUCCEEDED" "length (sp_entries (ds_spine s')) = 1"
    by (rule sample_dispatched [OF cov])
  have "fst (execute wd who sample_do grants LIVE parent rt) \<noteq> Inr x" for wd who grants parent x and rt :: "(memory_state, json) macro_runtime"
  proof
    assume "fst (execute wd who sample_do grants LIVE parent rt) = Inr x"
    then obtain t where "execute wd who sample_do grants LIVE parent rt = (Inr x, t)" by (metis prod.collapse)
    then show False
      unfolding execute_def decide_operation_def by (elim st_bindE) (simp_all add: st_result_def sample_do_def)
  qed
  moreover have "LIVE \<notin> set (op_execution_modes_supported sample_do)" by (simp add: sample_do_def)
  moreover have "length (sp_entries (ds_spine s')) = length (sp_entries (ds_spine sample_dispatch_state)) + 1"
    using d(3) by (simp add: sample_dispatch_state_def sample_spine_def)
  ultimately show ?thesis using d(1,2) by blast
qed

end
