(* ===== verification/Spec2Isabelle.thy ===== *)
theory Spec2Isabelle
  imports Leased_Handoff Enforcement_Profile Reality_Reconciliation Macro_Start Macro_Dispatcher
begin

text \<open>
  A verification library for the authority chain of PhiOS: how a request to act becomes, through
  recorded authority, a declared intent, an enforcement profile, a single-use lease and a bound plan
  step, one call of one handler; and how multi-step macros are compiled, run, paused, recorded and
  resumed without ever carrying authority themselves.

  The parts and how they interact.
    Every record of the program is sealed: its fields are printed as canonical JSON and the SHA-256
    digest of that text identifies it.  \<open>Phi_Prelude\<close>, \<open>Py_Json\<close>, \<open>Sha256\<close>, \<open>Py_Datetime\<close>,
    \<open>Contract_Base\<close> and \<open>Zulu_Time\<close> model the Python the modules share: exceptions, strings, \<open>json.dumps\<close>,
    \<open>hashlib.sha256\<close>, \<open>datetime.fromisoformat\<close>, and the field checkers each module repeats.
    Authority is a list of grant and revoke events (\<open>Authority_Projection\<close>); an epoch is a sealed
    snapshot of its replay (\<open>Authority_Epoch\<close>).  A lease (\<open>Action_Lease\<close>) ties one authorization to
    one epoch, one declared intent (\<open>Effect_Intent\<close>) and one enforcement profile
    (\<open>Enforcement_Profile\<close>), over the effect vocabulary of \<open>Effect_Boundary\<close>.
    The spine (\<open>Spine_Models\<close>, \<open>Spine_Executor\<close>, \<open>Spine_Runtime\<close>, \<open>Mandala_Contracts\<close>) checks a
    request against capabilities, effects and permissions and calls at most one handler.  It writes to
    append-only files (\<open>State_Io\<close>) and exclusive claim files (\<open>Reality_Ledger\<close>).
    A binding names one plan step, capability and payload (\<open>Plan_Binding\<close>); the hand-over
    (\<open>Execution_Handoff\<close>) gives a bound step to the spine once, the leased hand-over
    (\<open>Leased_Handoff\<close>) only under a usable lease.  \<open>Single_Use\<close> and \<open>Handoff_Protocol\<close> let any number
    of hand-overs interleave.  What happened in an execution with an unknown outcome is decided by
    \<open>Evidence_Ref\<close>, \<open>Execution_Outcome\<close> and \<open>Reality_Reconciliation\<close>.
    Macros are the second half: \<open>Macro_Runtime\<close> executes single operations on adapters,
    \<open>Macro_Graph\<close> compiles a tree of steps into a plan, \<open>Macro_Runner\<close> advances a run of a plan
    over supplied resolutions, \<open>Macro_Semantics\<close> says what the steps mean, \<open>Macro_Runs\<close> what every
    run guarantees.  Around the runner, \<open>Macro_Journal\<close> keeps the states of a run in a hash-chained
    file, \<open>Macro_Coordinator\<close> drives runner and journal together, and \<open>Macro_Start\<close> admits external
    start requests, each at most once.  \<open>Macro_Spine_Bridge\<close> and \<open>Macro_Dispatcher\<close> join the two
    halves: the step a run waits on goes through the leased hand-over, and its receipt becomes the
    resolution the run goes on with.

  Theory, source file under \<open>src/\<close>, functions.
    \<open>Authority_Projection\<close>: \<open>phios/mandala/authority_projection.py\<close>; \<open>ap_project\<close> and \<open>ap_replay\<close> are
    the replay of \<open>project\<close>.
    \<open>Authority_Epoch\<close>: \<open>phios/authority_epoch.py\<close>; \<open>epoch_build\<close>, \<open>epoch_init\<close>, \<open>epoch_to_dict\<close>,
    \<open>epoch_from_dict\<close>, \<open>next_known_transition\<close>.
    \<open>Effect_Boundary\<close>, \<open>Effect_Intent\<close>, \<open>Enforcement_Profile\<close>, \<open>Action_Lease\<close>:
    \<open>phios/spine/effects.py\<close>, \<open>phios/effect_intent.py\<close>, \<open>phios/enforcement_profile.py\<close>,
    \<open>phios/action_lease.py\<close>; per record a constructor check \<open>_init\<close>, a printer \<open>_to_dict\<close> and a
    reader \<open>_from_dict\<close>; \<open>al_issue\<close> and \<open>evaluate_action_lease\<close>.
    \<open>Spine_Models\<close>, \<open>Spine_Executor\<close>, \<open>Spine_Runtime\<close>: \<open>phios/spine/models.py\<close>, \<open>registry.py\<close>,
    \<open>gate.py\<close>, \<open>executor.py\<close>, \<open>runtime.py\<close>, \<open>collaborator.py\<close>; \<open>spine_run\<close> is \<open>PhiSpine.run\<close>.
    \<open>Mandala_Contracts\<close>: \<open>phios/mandala/contracts.py\<close> and the receipts of a spine run.
    \<open>State_Io\<close>: \<open>phios/state_io.py\<close>; a file is a list of lines, some of them torn or invalid.
    \<open>Reality_Ledger\<close>: \<open>phios/spine/ledger.py\<close>, \<open>phios/mandala/ledger.py\<close>; a claim directory is the list
    of its file names.
    \<open>Plan_Binding\<close>: \<open>phios/core/governed_action_binding.py\<close>, \<open>phios/core/governed_plan_adoption.py\<close>.
    \<open>Execution_Handoff\<close>, \<open>Leased_Handoff\<close>: \<open>phios/core/governed_execution_handoff.py\<close>,
    \<open>phios/core/leased_execution_handoff.py\<close>; \<open>gh_execute\<close> and \<open>lh_execute\<close> are the whole of
    \<open>execute\<close>, the definitions \<open>_check\<close>, \<open>_claim\<close>, \<open>_run\<close> its phases.
    \<open>Evidence_Ref\<close>, \<open>Execution_Outcome\<close>, \<open>Reality_Reconciliation\<close>: \<open>phios/evidence_ref.py\<close>,
    \<open>phios/execution_outcome.py\<close>, \<open>phios/reality_reconciliation.py\<close>.
    \<open>Macro_Runtime\<close>, \<open>Macro_Graph\<close>, \<open>Macro_Runner\<close>: \<open>phios/macro_runtime.py\<close>, \<open>phios/macro_graph.py\<close>,
    \<open>phios/macro_runner.py\<close>; \<open>execute\<close>, \<open>rollback\<close>, \<open>replay\<close>; \<open>validate_definition\<close>, \<open>make_plan\<close>;
    \<open>runner_start\<close>, \<open>advance\<close>, \<open>runner_abort\<close>.
    \<open>Macro_Journal\<close>, \<open>Macro_Coordinator\<close>, \<open>Macro_Start\<close>: \<open>phios/macro_journal.py\<close>,
    \<open>phios/macro_coordinator.py\<close>, \<open>phios/macro_start.py\<close> and the macro run files of
    \<open>phios/spine/ledger.py\<close>; \<open>append_state\<close>, \<open>reconstruct\<close>, \<open>resume_run\<close>; \<open>co_start_run\<close>,
    \<open>co_advance_run\<close>, \<open>co_abort_run\<close>; \<open>admit\<close>.  \<open>Macro_History\<close> holds the theorems about the journal.
    \<open>Macro_Spine_Bridge\<close>, \<open>Macro_Dispatcher\<close>: \<open>phios/macro_spine_bridge.py\<close>, \<open>phios/macro_dispatcher.py\<close>
    and the two receipt files of \<open>phios/spine/ledger.py\<close> they append to; \<open>bridge_execute\<close>, \<open>package\<close>,
    \<open>dispatch\<close>, over a spine and those two files.

  What the groups of lemmas show.
    Records: a reader accepts exactly what a printer of a valid record produces, and equal digests
    mean equal records or a SHA-256 collision, which the theorems exhibit; SHA-256 is modelled bit
    by bit and nothing is assumed about it.
    Authority: the replay grants exactly what the last effective event on a permission says, inside the
    ceiling, in any order of supply; the grants of an epoch hold from its observation until its next known
    transition, for every form of timestamp: epoch and projection read a \<open>Z\<close> differently, but where both
    read they agree (\<open>Zulu_Time\<close>); a lease stays inside the grants and the window of its epoch.
    Spine and hand-over: at most one handler call, only when classified, permitted, bound and leased;
    however attempts interleave and wherever they stop or fail, at most one call per lease digest, and one
    per binding as long as every record fits its line, where the protocol of a binding refines a store of
    single-use tokens; a failure message that does not fit makes the code forget a call, which is a theorem too.
    Files: an append is acknowledged exactly when the size, the system calls and the history allow it, and
    then the next read returns the old rows and the new one; an acknowledged attempt is never forgotten,
    whatever operations of the ledger follow.
    Outcomes: evidence about an unknown outcome is accepted only under its policy and restores no right
    to act again.
    Macros: a definition compiles exactly when it validates; the runner on the compiled plan reports the
    verdict of the big-step semantics, always ends, passes a step only with a resolution for it, and
    is not changed by a pause for its budget.  The journal of a run reads back what was acknowledged,
    is committed to by its head, only grows under coordinator calls and cites the evidence of every
    step it passed; a start is admitted at most once.  A dispatch carries out only the
    step the run waits on, resolves it as succeeded only when its handler was called and answered, and
    never calls a handler twice under one lease, whatever became of its receipts.

  Modelling decisions.
    A Python string is a list of characters U+0000 to U+00FF.  JSON values have no floats: the modelled
    records carry none, and \<open>allow_nan\<close> is moot.  A Python dict is an association list in insertion
    order.  Python integers are \<open>int\<close>; values the constructors check to be non-negative are \<open>nat\<close>.
    An exception is a value with its class and message; an operation that writes returns the result
    beside the new state, so a raise after a write keeps the write.
    An operation of the file system takes two possible faults, one at the open and one at the write; a
    crash between two operations is a hand-over that takes no further step.  In \<open>Handoff_Protocol\<close> a
    hand-over moves in three steps, check, claim and run; the run phase, from the spine run
    to the release of the claim, is one step of the model.
    Handlers, adapters, the clock, fresh identifiers and path resolution are parameters: arbitrary
    functions, without assumptions, except where a theorem names one.

  Bounds.
    A state record has at most 16 MiB (\<open>State_Io\<close>); hypotheses called small bound the lengths of the
    texts of a record so that it fits.  A plan has at most 4096 counted steps, nesting at most 32, so at
    most 12288 instructions and paths of at most 334 of the 512 admitted characters.  The loop of \<open>advance\<close> takes
    fuel \<open>max_transitions - used\<close>, which is what the code counts, at most 50000; \<open>every_planned_run_ends\<close>
    shows that a finite number of transitions is enough whatever the resolutions.

  Not modelled.
    Read-only views (status, plan and report pages), the receipts of the Mandala gates outside a run,
    plan adoption (float costs), reality observation (sockets, HTTP, processes), replanning and field
    models (floats), the reflex, soma and memory subsystems (statistics, screens, SQLite), the shell,
    the applications and servers (platform and user-interface calls), and third-party signatures.
    The other macro modules (schedules and their workers, the desktop automation that hands bound steps
    to the leased hand-over) are not modelled.
\<close>

section \<open>Properties that span components\<close>

text \<open>
  What an issued lease says about the replay of the events its epoch was built from, at a check time
  inside the lease's window.
\<close>

lemma lease_permissions_projected:
  assumes "epoch_build pid policy ceiling events observed = Inr e"
    and "al_issue holder issuer receipt intent profile e perms accepted issued_at valid_from valid_until = Inr l"
    and "lease_window l i st en" and "parse_utc cls (JStr checked) f = Inr now" and "instant st \<le> instant now" and "instant now < instant en"
  shows "\<exists>rp. ap_project ceiling events (isoformat_utc now) = Inr rp \<and> set (al_permissions_authorized l) \<subseteq> set (ap_grants rp)
    \<and> al_authority_epoch_sha256 l = authority_epoch_sha256 e"
proof (rule al_issue_dest [OF assms(2)], goal_cases)
  case (1 i' st' en' ob)
  have same: "i' = i" "st' = st" "en' = en"
    using 1(2) assms(3) canonical_utc_unique unfolding lease_window_def by blast+
  have later: "canonical_utc (isoformat_utc now) now"
    using parse_utc_valid [OF assms(4)] by (simp add: canonical_utc_def)
  show ?case
  proof (rule epoch_build_dest [OF assms(1)], goal_cases)
    case (1 o' t0 r tr)
    note lease = \<open>parse_utc ActionLeaseContractError (JStr (epoch_observed_at e)) ''AuthorityEpoch observed_at'' = Inr ob\<close>
    have "ob = t0" using lease parse_utc_canonical [OF 1(2)] 1(7) by simp
    moreover have "instant ob \<le> instant i" using \<open>instant ob \<le> instant i'\<close> same by simp
    moreover have "instant i \<le> instant st" using assms(3) by (simp add: lease_window_def)
    ultimately have "instant t0 \<le> instant now" using assms(5) by simp
    moreover have "instant now < instant t" if "tr = Some n" "canonical_utc n t" for n t
    proof -
      have "epoch_next_known_transition_at e = Some n" using 1(13) that(1) by simp
      then obtain t' where "parse_utc ActionLeaseContractError (JStr n) ''AuthorityEpoch next_known_transition_at'' = Inr t'" "instant en \<le> instant t'"
        using \<open>\<And>n. epoch_next_known_transition_at e = Some n \<Longrightarrow> _\<close> [of n] same by auto
      with parse_utc_canonical [OF that(2)] assms(6) show ?thesis by simp
    qed
    ultimately obtain rp where "ap_project ceiling events (isoformat_utc now) = Inr rp" "ap_grants rp = ap_grants r"
      using ap_project_stable [OF 1(3,2,4) _ ap_utc_canonical [OF later]] by auto
    then show ?case
      using \<open>set perms \<subseteq> set (epoch_grants e)\<close> \<open>set (al_permissions_authorized l) = set perms\<close> 1(9)
        \<open>al_authority_epoch_sha256 l = authority_epoch_sha256 e\<close> by auto
  qed
qed

text \<open>C1: Capability is not authority, end to end: when a leased execution calls a handler and its lease
  was issued from an epoch built from a list of grant and revocation events, then replaying those
  events at the check time itself projects every permission the running capability requests as
  granted, the runtime allows them too, and the epoch presented as current is that epoch.\<close>

theorem leased_call_backed_by_projection:
  assumes "epoch_build pid policy ceiling events observed = Ok e"
    and "al_issue holder issuer receipt intent profile e perms accepted issued_at valid_from valid_until = Ok (lq_lease q)"
    and "lh_execute env q s = (r, s')" and "sp_entries s' \<noteq> sp_entries s"
  shows "\<exists>c now rp. cr_get (sp_registry s) (pb_capability_id (lq_binding q)) = Ok c
    \<and> sp_entries s' = sp_entries s @ [\<lparr>he_capability_id = cap_id c, he_payload = lq_payload q,
        he_provenance = handoff_prov (inner_request q)\<rparr>]
    \<and> parse_utc ActionLeaseContractError (JStr (lq_checked_at q)) ''checked_at'' = Ok now
    \<and> ap_project ceiling events (isoformat_utc now) = Ok rp
    \<and> set (cap_permissions c) \<subseteq> set (ap_grants rp) \<and> set (cap_permissions c) \<subseteq> set (sp_allowed s)
    \<and> lq_current_authority_epoch_sha256 q = authority_epoch_sha256 e"
proof -
  obtain v s1 s2 where chk: "lh_check env q s = (Inr (Inr v), s1)" and cl: "lh_claim env q v s1 = (Inr None, s2)"
    and run: "lh_run env q v s2 = (r, s')" by (rule lh_execute_ran [OF assms(3,4)])
  note pass = lh_check_passed [OF chk]
  obtain consumed where ev: "evaluate_action_lease (lq_lease q) (lq_checked_at q) (lq_current_authority_epoch_sha256 q)
      (if consumed then 1 else 0) = Inr v" using pass(5) by blast
  have ok: "al_ok (lq_lease q)" by (rule al_issue_dest [OF assms(2)])
  obtain i st en now where w: "lease_window (lq_lease q) i st en"
      "parse_utc ActionLeaseContractError (JStr (lq_checked_at q)) ''checked_at'' = Inr now"
      "lq_current_authority_epoch_sha256 q = al_authority_epoch_sha256 (lq_lease q)" "instant st \<le> instant now" "instant now < instant en"
    by (rule usable_evaluation [OF ev pass(4) ok pass(1)]) simp_all
  obtain rp where rp: "ap_project ceiling events (isoformat_utc now) = Inr rp"
      "set (al_permissions_authorized (lq_lease q)) \<subseteq> set (ap_grants rp)"
      "al_authority_epoch_sha256 (lq_lease q) = authority_epoch_sha256 e"
    using lease_permissions_projected [OF assms(1,2) w(1,2,4,5)] by blast
  have same: "sp_entries s2 = sp_entries s" "sp_registry s2 = sp_registry s" "sp_allowed s2 = sp_allowed s"
    using quietD [OF quiet_lh_check chk] lh_claim_cases(1) [OF cl] by (simp_all add: steady_def)
  obtain ri si where g: "gh_execute env (inner_request q) s2 = (ri, si)" and "sp_entries s' = sp_entries si"
    by (rule lh_run_inner [OF run])
  then have "sp_entries si \<noteq> sp_entries s2" using assms(4) same by simp
  from gh_execute_entered [OF g this] obtain c where
    c: "cr_get (sp_registry s) (pb_capability_id (lq_binding q)) = Inr c" "set (cap_permissions c) \<subseteq> set (sp_allowed s)"
      "cap_permissions c = pb_permissions_requested (lq_binding q)"
      "sp_entries s' = sp_entries s @ [\<lparr>he_capability_id = cap_id c, he_payload = lq_payload q,
        he_provenance = handoff_prov (inner_request q)\<rparr>]"
    using \<open>sp_entries s' = sp_entries si\<close> same by (auto simp: inner_request_def)
  have "set (al_permissions_authorized (lq_lease q)) = set (pb_permissions_requested (lq_binding q))"
    using pass(3) by (simp add: lease_scope_reason_def split: if_splits)
  then show ?thesis using c rp w(2,3) by auto
qed

text \<open>A consumed hand-over leaves its binding claimed; recording a reconciliation releases nothing.\<close>

lemma consumed_stays_claimed:
  assumes "gh_execute env q s = (Inr x, s')" and "hx_binding_consumed x"
  shows "binding_sha256 q \<in> claims_of s'"
  using assms(1)
proof (cases rule: gh_execute_cases)
  case (checked r')
  then have "gh_check env q s = (Inr (Some x), s')" by auto
  then show ?thesis using assms(2) by (auto elim!: gh_check_held simp: held_receipt_facts)
next
  case (refused r' s1)
  from refused(2) show ?thesis
    by (cases rule: gh_claim_cases) (use refused assms(2) in \<open>auto simp: held_receipt_facts\<close>)
next
  case (ran s1 s2)
  have claimed: "binding_sha256 q \<in> claims_of s2" using ran(2) by (cases rule: gh_claim_cases) simp_all
  obtain rx sx where run: "spine_run env (pb_capability_id (hq_binding q)) (hq_payload q) (handoff_prov q) s2 = (rx, sx)" by fastforce
  have same: "claims_of sx = claims_of s2" using run
  proof (cases rule: spine_run_cases)
    case quiet
    then show ?thesis using steady_claims by blast
  next
    case (entered c h packet gate receipt s3)
    note facts = entered [unfolded entered_at_def]
    have "claims_of sx = claims_of s3"
      using facts steady_claims [OF quietD [OF quiet_after_handler]] by fastforce
    moreover have "claims_of s3 = claims_of s2" using facts steady_claims by blast
    ultimately show ?thesis by simp
  qed
  show ?thesis
  proof (cases rx)
    case (Inr y)
    then have "gh_conclude env q y sx = (Inr x, s')" using ran(3) run by (simp add: gh_run_def)
    then have "s' = sx"
      using assms(2) by (auto simp: gh_conclude_def act_result_def act_return_def handoff_receipt_def Let_def elim!: act_bindE split: prod.splits if_splits)
    then show ?thesis using claimed same by simp
  next
    case (Inl e)
    then show ?thesis using ran(3) run by (auto simp: gh_run_def act_result_def elim!: act_bindE split: if_splits)
  qed
qed

lemma reconcile_frame:
  assumes "reconcile_uncertain_execution env x c p v refs rid at' s = (b, s')"
  shows "sp_entries s' = sp_entries s \<and> claims_of s' = claims_of s"
proof -
  have frame: "sp_entries t = sp_entries s \<and> claims_of t = claims_of s"
    if "with_ledger env (\<lambda>opf wrf. rl_append_reconciliation opf wrf m) s = (u, t)" for m u t
    using that by (rule with_ledgerE) (auto simp: rl_append_reconciliation_def binding_claims_held_def split: prod.splits)
  from assms show ?thesis unfolding reconcile_uncertain_execution_def
    by (auto simp: act_result_def act_return_def dest: frame elim!: act_bindE)
qed

text \<open>C4: Retry-safe is not authorised: after a hand-over that consumed its binding, reconciling the
  uncertain outcome, even with the verdict that a retry is safe, calls no handler and frees no
  claim: a further hand-over under the same binding calls no handler.\<close>

theorem retry_safe_is_not_authorized:
  assumes "gh_execute env q s = (Ok hx, s1)" and "hx_binding_consumed hx"
    and "reconcile_uncertain_execution env1 x c p v refs reconciler at' s1 = (b, s2)"
    and "gh_execute env2 q' s2 = (r, s3)" and "binding_sha256 q' = binding_sha256 q"
  shows "sp_entries s2 = sp_entries s1 \<and> sp_entries s3 = sp_entries s2"
  using consumed_stays_claimed [OF assms(1,2)] reconcile_frame [OF assms(3)] gh_execute_entered [OF assms(4)] assms(5) by auto

theorem retry_safe_is_not_authorized_witness:
  "\<exists>y b hx s1 s2 r s3. gh_execute sample_env sample_request (sample_spine sample_handler) = (Ok hx, s1) \<and>
     reconcile_uncertain_execution sample_env sample_uncertain text_capability sample_policy sample_verification_result
       [sample_evidence] ''operator'' (sample_time 5) s1 = (b, s2) \<and>
     reconcile_execution_with_reality sample_uncertain text_capability sample_policy sample_verification_result
       [sample_evidence] ''operator'' (sample_time 5) = Ok y \<and> rb_retry_safe y = Ok True \<and>
     gh_execute sample_env sample_request s2 = (r, s3) \<and> length (sp_entries s3) = 1"
proof -
  let ?s = "sample_spine sample_handler"
  note small = sample_spine_small [of sample_handler, OF sample_handler_small]
  obtain x s1 re where e: "gh_execute sample_env sample_request ?s
      = (Inr (handoff_receipt sample_request re (''spine_execution_'' @ xc_execution_status x) True False (Some x)), s1)"
    and n: "sp_entries s1 = sp_entries ?s @ [handoff_entry sample_request (cap_id text_capability)]"
    by (rule handoff_completes [OF sample_env_clean small(1,3,2) sample_request_small small(4) sample_request_admitted
          sample_request_config])
  obtain y where y: "reconcile_execution_with_reality sample_uncertain text_capability sample_policy sample_verification_result
      [sample_evidence] ''operator'' (sample_time 5) = Inr y" "rb_retry_safe y = Ok True" using sample_reconciles by blast
  obtain b s2 where r: "reconcile_uncertain_execution sample_env sample_uncertain text_capability sample_policy
      sample_verification_result [sample_evidence] ''operator'' (sample_time 5) s1 = (b, s2)" by fastforce
  obtain r3 s3 where g: "gh_execute sample_env sample_request s2 = (r3, s3)" by fastforce
  have "hx_binding_consumed (handoff_receipt sample_request re (''spine_execution_'' @ xc_execution_status x) True False (Some x))"
    by (simp add: handoff_receipt_def Let_def)
  from retry_safe_is_not_authorized [OF e this r g refl] n have "length (sp_entries s3) = 1" by (simp add: sample_no_entries)
  with e r g y show ?thesis by blast
qed

text \<open>A rule and a profile for the sample intent, and the lease issued from the sample epoch.\<close>

definition text_rule :: enforcement_rule where
  "text_rule = sample_rule\<lparr>er_effect_scope := [''filesystem.change'']\<rparr>"

definition text_profile :: enforcement_profile where
  "text_profile = \<lparr>prof_effect_intent_sha256 = effect_intent_sha256 text_intent,
     prof_effects_declared = [''filesystem.change''], prof_rules = [text_rule],
     prof_effect_performed = False, prof_operational_authority = False, prof_action_authority = False,
     prof_execution_authority = False, prof_schema_version = ENFORCEMENT_PROFILE_SCHEMA_VERSION\<rparr>"

lemma text_profile_views: "mapping_complete text_profile" "effects_without_enforced_rule text_profile = []"
  by (simp_all add: effects_without_enforced_rule_def mapping_complete_def unmapped_effects_def
      effects_with_enforced_rule_def text_profile_def text_rule_def sample_rule_def sorted_set_def mapped_effects_def)

theorem leased_call_backed_by_projection_witness:
  "\<exists>l rp. ap_project [''artifact.write'', ''read''] sample_events (sample_time 5) = Ok rp \<and>
     (\<exists>r s'. lh_execute sample_env (sample_leased_request l) (sample_spine sample_handler) = (r, s') \<and> length (sp_entries s') = 1) \<and>
     set (cap_permissions text_capability) \<subseteq> set (ap_grants rp)"
proof -
  obtain e where b: "epoch_build ''alice'' (sha256_hex ''policy'') [''artifact.write'', ''read''] sample_events (sample_time 4) = Inr e"
    and e: "epoch_ok e" "epoch_grants e = [''artifact.write'']" "epoch_observed_at e = sample_time 4"
      "epoch_next_known_transition_at e = Some (sample_time 6)" "epoch_principal_id e = ''alice''"
    by (rule sample_epoch)
  define l where "l = sample_issued text_intent text_profile e"
  have i: "al_issue ''alice'' ''issuer'' (sha256_hex ''receipt'') text_intent text_profile e [''artifact.write''] []
      (sample_time 4) (sample_time 4) (sample_time 6) = Inr (lq_lease (sample_leased_request l))"
    using sample_issue [OF e _ text_profile_views text_intent_issuable]
    by (simp add: text_profile_def l_def sample_leased_request_def)
  obtain r s' c where x: "lh_execute sample_env (sample_leased_request l) (sample_spine sample_handler) = (Inr r, s')"
    and n: "sp_entries s' = [handoff_entry (inner_request (sample_leased_request l)) c]"
    by (rule sample_leased_execution [of l]) (simp_all add: l_def issued_covers)
  have "sp_entries s' \<noteq> sp_entries (sample_spine sample_handler)" using n by (simp add: sample_no_entries)
  from leased_call_backed_by_projection [OF b i x this] obtain c' now rp
    where c: "cr_get (sp_registry (sample_spine sample_handler)) (pb_capability_id sample_binding) = Ok c'"
      and now: "parse_utc ActionLeaseContractError (JStr (sample_time 5)) ''checked_at'' = Ok now"
      and rp: "ap_project [''artifact.write'', ''read''] sample_events (isoformat_utc now) = Ok rp"
        "set (cap_permissions c') \<subseteq> set (ap_grants rp)"
    by (auto simp: sample_leased_request_def)
  have "c' = text_capability"
    using c sample_request_config(1) [of sample_handler] by (simp add: sample_request_def)
  moreover have "now = sample_t 5" using now sample_parse [of 5] by simp
  ultimately have "ap_project [''artifact.write'', ''read''] sample_events (sample_time 5) = Ok rp"
      "set (cap_permissions text_capability) \<subseteq> set (ap_grants rp)"
    using rp by (simp_all add: sample_time_def)
  moreover have "length (sp_entries s') = 1" using n by simp
  ultimately show ?thesis using x by blast
qed

end
